(* ===== verification/Prelude.thy ===== *)
theory Prelude
  imports Main "HOL-Library.Word" "HOL-Library.List_Lexorder" "HOL-Library.Char_ord"
begin

unbundle bit_operations_syntax

text \<open>
  What every component of the SDK model shares: Rust results, UTF-8 strings, \<open>serde_json\<close>
  values, ordered maps (\<open>BTreeMap\<close>), and \<open>Duration\<close> arithmetic.

  \<^item> A Rust \<open>Result<T, E>\<close> is a value of \<open>'e + 'a\<close>, \<open>Inl\<close> for the error; the \<open>?\<close> operator
    is \<open>res_bind\<close>.
  \<^item> A Rust \<open>str\<close> is the list of its UTF-8 bytes, as Isabelle \<open>char\<close>s, so \<open>length\<close> is Rust's
    \<open>len()\<close> and the order of the lists is Rust's order of strings.
  \<^item> A \<open>BTreeMap\<close> (and a \<open>serde_json::Map\<close>, which is one) is an association list with
    strictly increasing keys; \<open>map_of\<close> is \<open>get\<close>.
  \<^item> A \<open>Duration\<close> is a number of nanoseconds, at most \<open>duration_max\<close>.
\<close>

named_theorems res_simps \<open>unfolding of Rust results\<close>
named_theorems bt_simps \<open>facts on ordered maps\<close>

type_synonym u8 = "8 word"
type_synonym bytes = "8 word list"

section \<open>Results\<close>

definition res_bind :: "'e + 'a \<Rightarrow> ('a \<Rightarrow> 'e + 'b) \<Rightarrow> 'e + 'b" where
  "res_bind m k = (case m of Inl e \<Rightarrow> Inl e | Inr x \<Rightarrow> k x)"

lemma res_bind_Inl [simp, res_simps]: "res_bind (Inl e) k = Inl e"
  by (simp add: res_bind_def)

lemma res_bind_Inr [simp, res_simps]: "res_bind (Inr x) k = k x"
  by (simp add: res_bind_def)

lemma res_bind_eq_Inr: "res_bind m k = Inr y \<longleftrightarrow> (\<exists>x. m = Inr x \<and> k x = Inr y)"
  by (cases m) auto

lemma res_bind_eq_Inl: "res_bind m k = Inl e \<longleftrightarrow> m = Inl e \<or> (\<exists>x. m = Inr x \<and> k x = Inl e)"
  by (cases m) auto

lemma res_bind_cong [fundef_cong]:
  "m = m' \<Longrightarrow> (\<And>x. m' = Inr x \<Longrightarrow> k x = k' x) \<Longrightarrow> res_bind m k = res_bind m' k'"
  by (cases m') auto

lemma res_bind_split:
  "P (res_bind m k) \<longleftrightarrow> (\<forall>e. m = Inl e \<longrightarrow> P (Inl e)) \<and> (\<forall>x. m = Inr x \<longrightarrow> P (k x))"
  by (cases m) auto

lemmas res_elims = res_bind_eq_Inr [THEN iffD1, elim_format]

definition ok_or :: "'a option \<Rightarrow> 'e \<Rightarrow> 'e + 'a" where
  "ok_or x e = (case x of None \<Rightarrow> Inl e | Some v \<Rightarrow> Inr v)"

lemma ok_or_simps [simp, res_simps]: "ok_or None e = Inl e" "ok_or (Some v) e = Inr v"
  by (simp_all add: ok_or_def)

lemma ok_or_eq_Inr [simp]: "ok_or x e = Inr v \<longleftrightarrow> x = Some v"
  by (cases x) auto

section \<open>Ordered maps\<close>

text \<open>\<open>BTreeMap::insert\<close> and \<open>BTreeMap::remove\<close>; \<open>get\<close> is \<open>map_of\<close>.\<close>

type_synonym ('k, 'v) btree = "('k \<times> 'v) list"

fun bt_insert :: "'k::linorder \<Rightarrow> 'v \<Rightarrow> ('k, 'v) btree \<Rightarrow> ('k, 'v) btree" where
  "bt_insert k v [] = [(k, v)]"
| "bt_insert k v ((a, b) # m) =
     (if k < a then (k, v) # (a, b) # m
      else if k = a then (k, v) # m
      else (a, b) # bt_insert k v m)"

definition bt_remove :: "'k \<Rightarrow> ('k, 'v) btree \<Rightarrow> ('k, 'v) btree" where
  "bt_remove k m = filter (\<lambda>(a, _). a \<noteq> k) m"

definition bt_inv :: "('k::linorder, 'v) btree \<Rightarrow> bool" where
  "bt_inv m \<longleftrightarrow> sorted_wrt (<) (map fst m)"

lemma bt_get_insert [simp, bt_simps]: "map_of (bt_insert k v m) = (map_of m)(k \<mapsto> v)"
  by (induction k v m rule: bt_insert.induct) (auto simp: fun_eq_iff)

lemma bt_get_remove [simp, bt_simps]: "map_of (bt_remove k m) = (map_of m)(k := None)"
  by (induction m) (auto simp: bt_remove_def fun_eq_iff)

lemma bt_keys_insert [simp]: "fst ` set (bt_insert k v m) = insert k (fst ` set m)"
  by (induction k v m rule: bt_insert.induct) auto

lemma bt_set_insert: "set (bt_insert k v m) \<subseteq> insert (k, v) (set m)"
  by (induction k v m rule: bt_insert.induct) auto

lemma bt_inv_Nil [simp, bt_simps]: "bt_inv []"
  by (simp add: bt_inv_def)

lemma bt_inv_Cons: "bt_inv ((k, v) # m) \<longleftrightarrow> (\<forall>a \<in> fst ` set m. k < a) \<and> bt_inv m"
  by (auto simp: bt_inv_def)

lemma bt_inv_insert [simp, intro, bt_simps]: "bt_inv m \<Longrightarrow> bt_inv (bt_insert k v m)"
proof (induction k v m rule: bt_insert.induct)
  case (1 k v)
  then show ?case by (simp add: bt_inv_def)
next
  case (2 k v a b m)
  then show ?case
    by (auto simp only: bt_insert.simps bt_inv_Cons bt_keys_insert split: if_splits)
      (auto simp: bt_inv_Cons intro: less_trans)
qed

lemma bt_inv_remove [simp, intro, bt_simps]: "bt_inv m \<Longrightarrow> bt_inv (bt_remove k m)"
  by (induction m) (auto simp: bt_inv_Cons bt_remove_def bt_inv_def)

lemma bt_inv_distinct: "bt_inv m \<Longrightarrow> distinct (map fst m)"
  by (induction m) (auto simp: bt_inv_def)

lemma bt_inv_get: "bt_inv m \<Longrightarrow> (k, v) \<in> set m \<longleftrightarrow> map_of m k = Some v"
  by (simp add: bt_inv_distinct)

text \<open>Two ordered maps that answer every lookup alike are the same map.\<close>

lemma bt_ext:
  fixes m n :: "('k::linorder, 'v) btree"
  assumes m: "bt_inv m" and n: "bt_inv n" and eq: "map_of m = map_of n"
  shows "m = n"
proof (rule map_sorted_distinct_set_unique [where f = fst])
  have "set m = set n"
    using bt_inv_get [OF m] bt_inv_get [OF n] eq by auto
  then show "set m = set n" .
  show "inj_on fst (set m \<union> set n)"
    unfolding \<open>set m = set n\<close> using bt_inv_distinct [OF n] by (simp add: distinct_map)
  show "sorted (map fst m)" "sorted (map fst n)"
    using m n unfolding bt_inv_def by (auto intro: sorted_wrt_mono_rel [of _ "(<)"])
  show "distinct (map fst m)" "distinct (map fst n)"
    using m n by (auto intro: bt_inv_distinct)
qed

section \<open>Strings\<close>

text \<open>The bytes of a string (\<open>as_bytes\<close>) and back.\<close>

definition bytes_of :: "string \<Rightarrow> bytes" where
  "bytes_of s = map (\<lambda>c. word_of_nat (of_char c)) s"

definition chars_of :: "bytes \<Rightarrow> string" where
  "chars_of bs = map (\<lambda>b. char_of (unat b)) bs"

lemma chars_of_bytes_of [simp]: "chars_of (bytes_of s) = s"
proof -
  have "char_of (unat (word_of_nat (of_char c) :: u8)) = c" for c
  proof -
    have "(of_char c :: nat) < 256" by (rule nat_of_char_less_256)
    then show ?thesis by (simp add: unat_of_nat)
  qed
  then show ?thesis by (simp add: chars_of_def bytes_of_def comp_def)
qed

lemma bytes_of_inj: "bytes_of a = bytes_of b \<longleftrightarrow> a = b"
  by (metis chars_of_bytes_of)

lemma bytes_of_append: "bytes_of (a @ b) = bytes_of a @ bytes_of b"
  by (simp add: bytes_of_def)

lemma length_bytes_of [simp]: "length (bytes_of a) = length a"
  by (simp add: bytes_of_def)

text \<open>\<open>str::starts_with\<close> and \<open>str::strip_prefix\<close>.\<close>

fun strip_prefix :: "string \<Rightarrow> string \<Rightarrow> string option" where
  "strip_prefix [] s = Some s"
| "strip_prefix (c # p) [] = None"
| "strip_prefix (c # p) (d # s) = (if c = d then strip_prefix p s else None)"

definition starts_with :: "string \<Rightarrow> string \<Rightarrow> bool" where
  "starts_with s p \<longleftrightarrow> take (length p) s = p"

lemma strip_prefix_append [simp]: "strip_prefix p (p @ s) = Some s"
  by (induction p) auto

lemma strip_prefix_eq_Some: "strip_prefix p s = Some r \<longleftrightarrow> s = p @ r"
  by (induction p s rule: strip_prefix.induct) auto

lemma starts_with_append [simp]: "starts_with (p @ s) p"
  by (simp add: starts_with_def)

lemma starts_with_iff: "starts_with s p \<longleftrightarrow> (\<exists>r. s = p @ r)"
  by (metis append_take_drop_id starts_with_append starts_with_def)

lemma starts_with_self [simp]: "starts_with s s"
  by (simp add: starts_with_def)

text \<open>
  \<open>str::trim\<close> removes every character with the Unicode property \<open>White_Space\<close> from both ends.
  There are 25 of them, given here by their UTF-8 bytes. None is the beginning of another, and
  in a valid UTF-8 string an encoding that ends the string is that of its last character.
\<close>

definition white_spaces :: "string list" where
  "white_spaces =
     [[CHR 0x09], [CHR 0x0A], [CHR 0x0B], [CHR 0x0C], [CHR 0x0D], [CHR 0x20],
      [CHR 0xC2, CHR 0x85], [CHR 0xC2, CHR 0xA0], [CHR 0xE1, CHR 0x9A, CHR 0x80],
      [CHR 0xE2, CHR 0x80, CHR 0x80], [CHR 0xE2, CHR 0x80, CHR 0x81],
      [CHR 0xE2, CHR 0x80, CHR 0x82], [CHR 0xE2, CHR 0x80, CHR 0x83],
      [CHR 0xE2, CHR 0x80, CHR 0x84], [CHR 0xE2, CHR 0x80, CHR 0x85],
      [CHR 0xE2, CHR 0x80, CHR 0x86], [CHR 0xE2, CHR 0x80, CHR 0x87],
      [CHR 0xE2, CHR 0x80, CHR 0x88], [CHR 0xE2, CHR 0x80, CHR 0x89],
      [CHR 0xE2, CHR 0x80, CHR 0x8A], [CHR 0xE2, CHR 0x80, CHR 0xA8],
      [CHR 0xE2, CHR 0x80, CHR 0xA9], [CHR 0xE2, CHR 0x80, CHR 0xAF],
      [CHR 0xE2, CHR 0x81, CHR 0x9F], [CHR 0xE3, CHR 0x80, CHR 0x80]]"

function strip_any :: "string list \<Rightarrow> string \<Rightarrow> string" where
  "strip_any ws s =
     (case find (\<lambda>w. w \<noteq> [] \<and> starts_with s w) ws of
        None \<Rightarrow> s
      | Some w \<Rightarrow> strip_any ws (drop (length w) s))"
  by pat_completeness auto
termination
proof (relation "measure (\<lambda>(ws, s). length s)")
  fix ws s and w :: string
  assume "find (\<lambda>w. w \<noteq> [] \<and> starts_with s w) ws = Some w"
  then have "w \<noteq> []" "starts_with s w" by (auto simp: find_Some_iff)
  then have "0 < length w" "s \<noteq> []" by (auto simp: starts_with_def)
  then show "((ws, drop (length w) s), (ws, s)) \<in> measure (\<lambda>(ws, s). length s)" by simp
qed simp

declare strip_any.simps [simp del]

definition trim_start :: "string \<Rightarrow> string" where
  "trim_start s = strip_any white_spaces s"

definition trim_end :: "string \<Rightarrow> string" where
  "trim_end s = rev (strip_any (map rev white_spaces) (rev s))"

definition trim :: "string \<Rightarrow> string" where
  "trim s = trim_end (trim_start s)"

lemma strip_any_Nil [simp]: "strip_any ws [] = []"
  by (subst strip_any.simps) (auto simp: starts_with_def split: option.split dest: find_Some_iff [THEN iffD1])

lemma trim_Nil [simp]: "trim [] = []"
  by (simp add: trim_def trim_end_def trim_start_def)

text \<open>A string that begins and ends with printable ASCII is left as it is.\<close>

definition plain_char :: "char \<Rightarrow> bool" where
  "plain_char c \<longleftrightarrow> 32 < (of_char c :: nat) \<and> (of_char c :: nat) < 128"

lemma strip_any_plain:
  assumes "\<forall>w \<in> set ws. w \<noteq> [] \<longrightarrow> \<not> plain_char (hd w)" and "s \<noteq> []" and "plain_char (hd s)"
  shows "strip_any ws s = s"
proof -
  have "find (\<lambda>w. w \<noteq> [] \<and> starts_with s w) ws = None"
    using assms by (auto simp: find_None_iff starts_with_iff)
  then show ?thesis by (subst strip_any.simps) simp
qed

lemma trim_plain:
  assumes "s \<noteq> []" and "plain_char (hd s)" and "plain_char (last s)"
  shows "trim s = s"
proof -
  have "trim_start s = s"
    unfolding trim_start_def using assms
    by (intro strip_any_plain) (auto simp: white_spaces_def plain_char_def)
  moreover have "trim_end s = s"
    unfolding trim_end_def using assms
    by (subst strip_any_plain) (auto simp: white_spaces_def plain_char_def hd_rev)
  ultimately show ?thesis by (simp add: trim_def)
qed

text \<open>ASCII case folding and hexadecimal digits (\<open>eq_ignore_ascii_case\<close>, \<open>is_ascii_hexdigit\<close>).\<close>

definition ascii_lower :: "char \<Rightarrow> char" where
  "ascii_lower c =
     (let n = of_char c :: nat in if 65 \<le> n \<and> n \<le> 90 then char_of (n + 32) else c)"

definition eq_ignore_ascii_case :: "string \<Rightarrow> string \<Rightarrow> bool" where
  "eq_ignore_ascii_case a b \<longleftrightarrow> map ascii_lower a = map ascii_lower b"

lemma eq_ignore_ascii_case_refl [simp]: "eq_ignore_ascii_case a a"
  by (simp add: eq_ignore_ascii_case_def)

definition is_ascii_hexdigit :: "char \<Rightarrow> bool" where
  "is_ascii_hexdigit c =
     (let n = of_char c :: nat
      in (48 \<le> n \<and> n \<le> 57) \<or> (65 \<le> n \<and> n \<le> 70) \<or> (97 \<le> n \<and> n \<le> 102))"

text \<open>Decimal and hexadecimal printing (\<open>{}\<close> and \<open>{:x}\<close> of an unsigned integer).\<close>

definition digit_char :: "nat \<Rightarrow> char" where
  "digit_char n = (if n < 10 then char_of (48 + n) else char_of (87 + n))"

fun show_nat :: "nat \<Rightarrow> string" where
  "show_nat n = (if n < 10 then [digit_char n] else show_nat (n div 10) @ [digit_char (n mod 10)])"

declare show_nat.simps [simp del]

definition dec_val :: "string \<Rightarrow> nat" where
  "dec_val s = foldl (\<lambda>v c. 10 * v + (of_char c - 48)) 0 s"

lemma of_char_digit: "n < 10 \<Longrightarrow> of_char (digit_char n) = 48 + (n :: nat)"
  by (simp add: digit_char_def)

lemma dec_val_show_nat [simp]: "dec_val (show_nat n) = n"
proof (induction n rule: show_nat.induct)
  case (1 n)
  then show ?case
    by (cases "n < 10") (auto simp: show_nat.simps [of n] dec_val_def of_char_digit)
qed

lemma show_nat_inj: "show_nat m = show_nat n \<longleftrightarrow> m = n"
  by (metis dec_val_show_nat)

definition dec_digit :: "char \<Rightarrow> bool" where
  "dec_digit c \<longleftrightarrow> c \<in> set ''0123456789''"

lemma dec_digit_char: "n < 10 \<Longrightarrow> dec_digit (digit_char n)"
proof -
  assume "n < 10"
  then have "n = 0 \<or> n = 1 \<or> n = 2 \<or> n = 3 \<or> n = 4 \<or> n = 5 \<or> n = 6 \<or> n = 7 \<or> n = 8 \<or> n = 9"
    by presburger
  then show ?thesis
    by (elim disjE) (simp_all add: dec_digit_def digit_char_def char_of_def bit_iff_odd)
qed

lemma show_nat_digits: "show_nat n \<noteq> [] \<and> (\<forall>c \<in> set (show_nat n). dec_digit c)"
proof (induction n rule: show_nat.induct)
  case (1 n)
  then show ?case
    using dec_digit_char by (cases "n < 10") (auto simp: show_nat.simps [of n])
qed

definition hex_byte :: "nat \<Rightarrow> string" where
  "hex_byte n = [digit_char (n div 16), digit_char (n mod 16)]"

section \<open>JSON values\<close>

text \<open>
  \<open>serde_json::Value\<close>. A number is a \<open>u64\<close>, a negative \<open>i64\<close> or a finite \<open>f64\<close>, which is kept
  here as its IEEE 754 bits. An object is a \<open>BTreeMap\<close>.
\<close>

datatype number = PosInt "64 word" | NegInt "64 word" | Float "64 word"

datatype json =
    JNull
  | JBool bool
  | JNumber number
  | JString string
  | JArray "json list"
  | JObject "(string \<times> json) list"

type_synonym jmap = "(string, json) btree"

definition as_str :: "json \<Rightarrow> string option" where
  "as_str v = (case v of JString s \<Rightarrow> Some s | _ \<Rightarrow> None)"

definition as_object :: "json \<Rightarrow> jmap option" where
  "as_object v = (case v of JObject m \<Rightarrow> Some m | _ \<Rightarrow> None)"

definition as_array :: "json \<Rightarrow> json list option" where
  "as_array v = (case v of JArray xs \<Rightarrow> Some xs | _ \<Rightarrow> None)"

definition as_u64 :: "json \<Rightarrow> nat option" where
  "as_u64 v = (case v of JNumber (PosInt n) \<Rightarrow> Some (unat n) | _ \<Rightarrow> None)"

definition as_bool :: "json \<Rightarrow> bool option" where
  "as_bool v = (case v of JBool b \<Rightarrow> Some b | _ \<Rightarrow> None)"

lemmas json_views = as_str_def as_object_def as_array_def as_u64_def as_bool_def

lemma as_str_simps [simp]: "as_str (JString s) = Some s" "as_str (JObject m) = None"
    "as_str JNull = None" "as_str (JArray xs) = None" "as_str (JBool b) = None"
    "as_str (JNumber n) = None"
  by (simp_all add: as_str_def)

lemma as_object_simps [simp]: "as_object (JObject m) = Some m" "as_object (JString s) = None"
    "as_object JNull = None" "as_object (JArray xs) = None" "as_object (JBool b) = None"
    "as_object (JNumber n) = None"
  by (simp_all add: as_object_def)

lemma as_str_eq_Some [simp]: "as_str v = Some s \<longleftrightarrow> v = JString s"
  by (cases v) auto

lemma as_object_eq_Some [simp]: "as_object v = Some m \<longleftrightarrow> v = JObject m"
  by (cases v) auto

text \<open>\<open>map.get(key).and_then(Value::as_str)\<close> and its kin.\<close>

definition get_str :: "jmap \<Rightarrow> string \<Rightarrow> string option" where
  "get_str m k = Option.bind (map_of m k) as_str"

definition get_object :: "jmap \<Rightarrow> string \<Rightarrow> jmap option" where
  "get_object m k = Option.bind (map_of m k) as_object"

text \<open>
  A \<open>NegInt\<close> is negative and a \<open>Float\<close> is finite (its eleven exponent bits are not all ones).
  The maps inside a JSON value have increasing keys, as every \<open>BTreeMap\<close> has.
\<close>

definition number_wf :: "number \<Rightarrow> bool" where
  "number_wf n =
     (case n of PosInt _ \<Rightarrow> True | NegInt i \<Rightarrow> bit i 63
      | Float f \<Rightarrow> drop_bit 52 f AND 0x7FF \<noteq> 0x7FF)"

fun json_wf :: "json \<Rightarrow> bool" where
  "json_wf (JNumber n) = number_wf n"
| "json_wf (JArray xs) = (\<forall>x \<in> set xs. json_wf x)"
| "json_wf (JObject m) = (bt_inv m \<and> (\<forall>p \<in> set m. json_wf (snd p)))"
| "json_wf _ = True"

lemma map_of_json_size: "map_of m k = Some v \<Longrightarrow> size v < size (JObject m)"
  by (induction m) (auto split: if_splits)

section \<open>Options\<close>

text \<open>\<open>or_else\<close> of an option.\<close>

definition or_else :: "'a option \<Rightarrow> 'a option \<Rightarrow> 'a option" where
  "or_else a b = (case a of None \<Rightarrow> b | Some x \<Rightarrow> Some x)"

lemma or_else_simps [simp]: "or_else None b = b" "or_else (Some x) b = Some x" "or_else a None = a"
  by (simp_all add: or_else_def split: option.split)

lemma or_else_eq_Some: "or_else a b = Some x \<longleftrightarrow> a = Some x \<or> (a = None \<and> b = Some x)"
  by (cases a) auto

text \<open>\<open>find_map\<close> of an iterator: the first value the function gives.\<close>

fun find_map :: "('a \<Rightarrow> 'b option) \<Rightarrow> 'a list \<Rightarrow> 'b option" where
  "find_map f [] = None"
| "find_map f (x # xs) = (case f x of Some y \<Rightarrow> Some y | None \<Rightarrow> find_map f xs)"

lemma find_map_append [simp]: "find_map f (xs @ ys) = or_else (find_map f xs) (find_map f ys)"
  by (induction xs) (auto split: option.split)

lemma find_map_Some:
  "find_map f xs = Some y \<Longrightarrow> \<exists>before x after. xs = before @ x # after \<and> f x = Some y \<and> find_map f before = None"
proof (induction xs)
  case (Cons a xs)
  show ?case
  proof (cases "f a")
    case None
    then obtain before x after where "xs = before @ x # after" "f x = Some y" "find_map f before = None"
      using Cons by auto
    then have "a # xs = (a # before) @ x # after \<and> f x = Some y \<and> find_map f (a # before) = None" using None by simp
    then show ?thesis by blast
  next
    case (Some b)
    then have "a # xs = [] @ a # xs \<and> f a = Some y \<and> find_map f [] = None" using Cons.prems by simp
    then show ?thesis by blast
  qed
qed simp

lemma find_map_None: "find_map f xs = None \<longleftrightarrow> (\<forall>x \<in> set xs. f x = None)"
  by (induction xs) (auto split: option.split)

section \<open>Durations\<close>

text \<open>A \<open>Duration\<close> is a \<open>u64\<close> of seconds and a \<open>u32\<close> of nanoseconds below a billion.\<close>

type_synonym duration = nat

definition duration_max :: duration where
  "duration_max = (2 ^ 64 - 1) * 1000000000 + 999999999"

definition from_secs :: "nat \<Rightarrow> duration" where
  "from_secs n = n * 1000000000"

definition from_millis :: "nat \<Rightarrow> duration" where
  "from_millis n = n * 1000000"

definition saturating_mul :: "duration \<Rightarrow> nat \<Rightarrow> duration" where
  "saturating_mul d n = min (d * n) duration_max"

text \<open>\<open>Duration::saturating_sub\<close> stops at zero, as subtraction of naturals does.\<close>

definition saturating_sub :: "duration \<Rightarrow> duration \<Rightarrow> duration" where
  "saturating_sub a b = a - b"

end
