(* ===== verification/Errors.thy ===== *)
theory Errors
  imports Prelude
begin

text \<open>
  \<open>src/src/errors.rs\<close>: every way an SDK call fails, the parsed error body of the API, and the
  predicates that read a finer kind of failure back out of a message. A hub that refused the
  credentials, a hub whose key changed and an API out of reach ride in the message of the
  variant they have always been reported as, so telling them apart is a matter of prefixes:
  the lemmas show that the three kinds exclude each other and that what a constructor puts
  into a message is what the readers get back.
\<close>

section \<open>The error type\<close>

datatype io_kind = NotFound | AlreadyExists | PermissionDenied | OtherIo

record quota =
  q_period :: string
  q_limit :: nat
  q_used :: nat
  q_reset_after :: nat

type_synonym api_problem = jmap

datatype thalovant_error =
    MissingIdentityField string
  | InvalidIdentity string
  | Connection string
  | Timeout string
  | Listing string
  | Runtime string
  | PolicyDenied (denied_type: string) (pd_code: string) (pd_reason: string)
      (pd_allowed: "string list") (pd_quota: "quota option")
  | Unanswered (said: string)
  | Api string
  | ApiResponse nat string "api_problem option"
  | DeviceAuthorizationDenied
  | DeviceAuthorizationExpired
  | DeviceLoginPending duration nat "api_problem option"
  | DeviceLoginExpired nat "api_problem option"
  | DeviceLoginDenied nat "api_problem option"
  | UnsupportedConnectionType string string "nat option" "api_problem option"
  | AdmissionTimeout duration
  | AdmissionFailed "string option" string "nat option" "api_problem option"
  | UnsupportedProtocol string
  | Crypto string
  | Io io_kind string
  | Json string
  | Http "nat option" string

type_synonym 'a res = "thalovant_error + 'a"

section \<open>The API's error body\<close>

text \<open>A string with something in it, exactly as sent; anything else is absent.\<close>

definition problem_text :: "json option \<Rightarrow> string option" where
  "problem_text value =
     (case Option.bind value as_str of
        Some text \<Rightarrow> if trim text \<noteq> [] then Some text else None
      | None \<Rightarrow> None)"

definition problem_nested :: "api_problem \<Rightarrow> jmap option" where
  "problem_nested p = get_object p ''detail''"

definition nested_text :: "api_problem \<Rightarrow> string \<Rightarrow> string option" where
  "nested_text p k =
     (case problem_text (map_of p k) of
        Some t \<Rightarrow> Some t
      | None \<Rightarrow> (case problem_nested p of
                   None \<Rightarrow> None
                 | Some m \<Rightarrow> problem_text (map_of m k)))"

definition problem_code :: "api_problem \<Rightarrow> string option" where
  "problem_code p = nested_text p ''code''"

definition problem_detail :: "api_problem \<Rightarrow> string option" where
  "problem_detail p = nested_text p ''detail''"

definition field_names :: "jmap option \<Rightarrow> string list" where
  "field_names source =
     (case Option.bind (Option.bind source (\<lambda>m. map_of m ''fields'')) as_array of
        Some entries \<Rightarrow> List.map_filter as_str entries
      | None \<Rightarrow> [])"

definition problem_fields :: "api_problem \<Rightarrow> string list" where
  "problem_fields p =
     (let top = field_names (Some p)
      in if top = [] then field_names (problem_nested p) else top)"

section \<open>Sentences for a refusal by policy\<close>

definition EXCEEDED_CODE :: string where
  "EXCEEDED_CODE = ''intent_quota_exceeded''"

definition BACKEND_UNAVAILABLE_CODE :: string where
  "BACKEND_UNAVAILABLE_CODE = ''backend_unavailable''"

definition policy_denied_detail :: "string \<Rightarrow> string \<Rightarrow> string" where
  "policy_denied_detail code reason =
     (case find (\<lambda>text. text \<noteq> []) [reason, code] of
        Some text \<Rightarrow> text
      | None \<Rightarrow> ''refused by the hub's policy'')"

definition refusal_message :: "string \<Rightarrow> string \<Rightarrow> string \<Rightarrow> quota option \<Rightarrow> string" where
  "refusal_message dtype code reason quota =
     (case quota of
        Some q \<Rightarrow>
          if q_limit q = 0 \<and> q_used q = 0 \<and> q_reset_after q = 0 \<and> q_period q = []
          then ''policy denied: the hub refused `'' @ dtype @ ''`: a quota has run out.''
          else
            let used = (if q_limit q > 0 then show_nat (q_used q) @ '' of '' @ show_nat (q_limit q)
                        else ''all'');
                period = (if q_period q = [] then [] else '' '' @ q_period q);
                resets = (if q_reset_after q > 0
                          then ''; it resets in '' @ show_nat (q_reset_after q) @ ''s'' else [])
            in ''policy denied: the hub refused `'' @ dtype @ ''`: '' @ used @ period
                 @ '' questions used'' @ resets @ ''.''
      | None \<Rightarrow>
          if code = BACKEND_UNAVAILABLE_CODE
          then ''policy denied: the hub could not reach its assistant''
                 @ (if reason = [] then [] else '': '' @ reason) @ ''. Try again shortly.''
          else ''policy denied: the hub refused `'' @ dtype @ ''`: ''
                 @ policy_denied_detail code reason @ ''. Allow this connection to publish `''
                 @ dtype @ ''` in the dashboard's connection settings.'')"

section \<open>Answers of the API and what they refuse\<close>

definition api_answer :: "thalovant_error \<Rightarrow> (nat \<times> api_problem option) option" where
  "api_answer e =
     (case e of
        ApiResponse status _ p \<Rightarrow> Some (status, p)
      | DeviceLoginPending _ status p \<Rightarrow> Some (status, p)
      | DeviceLoginExpired status p \<Rightarrow> Some (status, p)
      | DeviceLoginDenied status p \<Rightarrow> Some (status, p)
      | UnsupportedConnectionType _ _ (Some status) p \<Rightarrow> Some (status, p)
      | AdmissionFailed _ _ (Some status) p \<Rightarrow> Some (status, p)
      | _ \<Rightarrow> None)"

definition status_code :: "thalovant_error \<Rightarrow> nat option" where
  "status_code e = (case e of Http s _ \<Rightarrow> s | _ \<Rightarrow> map_option fst (api_answer e))"

definition api_problem_of :: "thalovant_error \<Rightarrow> api_problem option" where
  "api_problem_of e = Option.bind (api_answer e) snd"

datatype api_refusal_kind = Auth | Plan | AlreadyLinked

definition api_refusal :: "thalovant_error \<Rightarrow> api_refusal_kind option" where
  "api_refusal e =
     (case api_answer e of
        None \<Rightarrow> None
      | Some (status, problem) \<Rightarrow>
          let code = Option.bind problem problem_code;
              detail = Option.bind problem problem_detail
          in if status = 401 \<or> status = 423 then Some Auth
             else if status = 403 \<and> detail = Some ''Insufficient scopes'' then Some Auth
             else if status = 402 then Some Plan
             else if status = 403 \<and> code = Some ''plan_limit'' then Some Plan
             else if status = 409 \<and> code = Some ''home_assistant_already_linked''
             then Some AlreadyLinked
             else None)"

definition first_id :: "jmap \<Rightarrow> string option" where
  "first_id m =
     (case List.map_filter (\<lambda>k. case get_str m k of Some i \<Rightarrow> if i \<noteq> [] then Some i else None
                                             | None \<Rightarrow> None)
             [''client_id'', ''existing_client_id'', ''connection_id''] of
        [] \<Rightarrow> None
      | i # _ \<Rightarrow> Some i)"

definition linked_client_id :: "thalovant_error \<Rightarrow> string option" where
  "linked_client_id e =
     (if api_refusal e \<noteq> Some AlreadyLinked then None
      else case api_problem_of e of
             None \<Rightarrow> None
           | Some p \<Rightarrow>
               (case first_id p of
                  Some i \<Rightarrow> Some i
                | None \<Rightarrow> (case get_object p ''detail'' of
                             None \<Rightarrow> None
                           | Some m \<Rightarrow> first_id m)))"

definition api_code :: "thalovant_error \<Rightarrow> string option" where
  "api_code e = Option.bind (api_problem_of e) problem_code"

definition api_detail :: "thalovant_error \<Rightarrow> string option" where
  "api_detail e = Option.bind (api_problem_of e) problem_detail"

definition api_fields :: "thalovant_error \<Rightarrow> string list" where
  "api_fields e = (case api_problem_of e of Some p \<Rightarrow> problem_fields p | None \<Rightarrow> [])"

section \<open>Kinds of connection failure, kept in the message\<close>

definition HUB_REFUSED :: string where
  "HUB_REFUSED = ''the hub refused this connection's credentials''"

definition HUB_KEY_CHANGED :: string where
  "HUB_KEY_CHANGED = ''the hub's Noise key is not the one pinned for it''"

definition API_UNREACHABLE :: string where
  "API_UNREACHABLE = ''could not reach the Thalovant API''"

definition CLIENT_KEY_REJECTED :: string where
  "CLIENT_KEY_REJECTED =
     ''it pinned a different Noise key for this client when the connection first connected''"

definition KEY_FOLDER :: string where
  "KEY_FOLDER = ''. This client's key is in ''"

definition OTHER_KEY_FOLDER :: string where
  "OTHER_KEY_FOLDER = ''. Another program that reads the same identity may keep its key in ''"

lemmas message_prefixes =
  HUB_REFUSED_def HUB_KEY_CHANGED_def API_UNREACHABLE_def CLIENT_KEY_REJECTED_def
  KEY_FOLDER_def OTHER_KEY_FOLDER_def

definition is_timeout :: "thalovant_error \<Rightarrow> bool" where
  "is_timeout e = (case e of Timeout _ \<Rightarrow> True | AdmissionTimeout _ \<Rightarrow> True | _ \<Rightarrow> False)"

definition is_api_unreachable :: "thalovant_error \<Rightarrow> bool" where
  "is_api_unreachable e = (case e of Api m \<Rightarrow> starts_with m API_UNREACHABLE | _ \<Rightarrow> False)"

definition is_connection_error :: "thalovant_error \<Rightarrow> bool" where
  "is_connection_error e =
     ((case e of Connection _ \<Rightarrow> True | AdmissionTimeout _ \<Rightarrow> True | AdmissionFailed _ _ _ _ \<Rightarrow> True
       | _ \<Rightarrow> False) \<or> is_api_unreachable e)"

definition is_hub_refused :: "thalovant_error \<Rightarrow> bool" where
  "is_hub_refused e = (case e of Connection m \<Rightarrow> starts_with m HUB_REFUSED | _ \<Rightarrow> False)"

definition is_hub_key_changed :: "thalovant_error \<Rightarrow> bool" where
  "is_hub_key_changed e = (case e of Connection m \<Rightarrow> starts_with m HUB_KEY_CHANGED | _ \<Rightarrow> False)"

definition client_key_rejection :: "thalovant_error \<Rightarrow> string option" where
  "client_key_rejection e =
     (case e of
        Connection m \<Rightarrow>
          Option.bind (strip_prefix HUB_REFUSED m)
            (\<lambda>r. Option.bind (strip_prefix '': '' r) (strip_prefix CLIENT_KEY_REJECTED))
      | _ \<Rightarrow> None)"

definition is_client_key_rejected :: "thalovant_error \<Rightarrow> bool" where
  "is_client_key_rejected e \<longleftrightarrow> client_key_rejection e \<noteq> None"

text \<open>
  \<open>serde_json\<close> is not part of the repository: \<open>quote\<close> prints a string as a JSON string, and
  \<open>leading\<close> reads the JSON string a text begins with, giving the rest of the text.
\<close>

definition client_key_folders ::
    "(string \<Rightarrow> (string \<times> string) option) \<Rightarrow> thalovant_error \<Rightarrow> (string \<times> string option) option" where
  "client_key_folders leading e =
     Option.bind (Option.bind (client_key_rejection e) (strip_prefix KEY_FOLDER))
       (\<lambda>rest. Option.bind (leading rest)
         (\<lambda>(folder, rest').
           Some (folder, map_option fst (Option.bind (strip_prefix OTHER_KEY_FOLDER rest') leading))))"

definition hub_refused :: "string \<Rightarrow> thalovant_error" where
  "hub_refused detail = Connection (HUB_REFUSED @ '': '' @ detail)"

definition client_key_rejected ::
    "(string \<Rightarrow> string) \<Rightarrow> string option \<Rightarrow> string option \<Rightarrow> thalovant_error" where
  "client_key_rejected quote folder other =
     Connection (HUB_REFUSED @ '': '' @ CLIENT_KEY_REJECTED @
       (case folder of
          None \<Rightarrow> []
        | Some f \<Rightarrow> KEY_FOLDER @ quote f @
            (case other of
               None \<Rightarrow> []
             | Some o' \<Rightarrow> OTHER_KEY_FOLDER @ quote o' @ '', and the hub may have pinned that one'')) @
       ''. A new handshake cannot fix this. Re-pair, or share the key folder: point every program that uses this identity at the folder holding the key the hub trusts (set_noise_state_dir).'')"

definition hub_key_changed :: "string \<Rightarrow> thalovant_error" where
  "hub_key_changed detail = Connection (HUB_KEY_CHANGED @ '': '' @ detail)"

definition api_unreachable :: "string \<Rightarrow> thalovant_error" where
  "api_unreachable detail = Api (API_UNREACHABLE @ '': '' @ detail)"

text \<open>\<open>display\<close> is the \<open>to_string\<close> of every variant but \<open>Connection\<close>.\<close>

definition into_connection_message :: "(thalovant_error \<Rightarrow> string) \<Rightarrow> thalovant_error \<Rightarrow> string" where
  "into_connection_message display e = (case e of Connection m \<Rightarrow> m | other \<Rightarrow> display other)"

section \<open>Lemmas\<close>

lemma refused_prefixes_disjoint: "\<not> (starts_with m HUB_REFUSED \<and> starts_with m HUB_KEY_CHANGED)"
  by (auto simp: starts_with_iff message_prefixes)

lemma client_key_rejection_iff:
  "client_key_rejection e = Some r \<longleftrightarrow> e = Connection (HUB_REFUSED @ '': '' @ CLIENT_KEY_REJECTED @ r)"
  by (cases e) (auto simp: client_key_rejection_def bind_eq_Some_conv strip_prefix_eq_Some)

lemma client_key_rejected_refused: "is_client_key_rejected e \<Longrightarrow> is_hub_refused e"
  by (auto simp: is_client_key_rejected_def client_key_rejection_iff is_hub_refused_def)

lemma is_hub_refused_hub_refused [simp]: "is_hub_refused (hub_refused d)"
  by (simp add: is_hub_refused_def hub_refused_def)

lemma is_hub_key_changed_hub_key_changed [simp]: "is_hub_key_changed (hub_key_changed d)"
  by (simp add: is_hub_key_changed_def hub_key_changed_def)

lemma refused_not_key_changed: "is_hub_refused e \<Longrightarrow> \<not> is_hub_key_changed e"
  using refused_prefixes_disjoint by (cases e) (auto simp: is_hub_refused_def is_hub_key_changed_def)

lemma client_key_rejected_rejection [simp]:
  "client_key_rejection (client_key_rejected quote folder other) =
     Some ((case folder of
          None \<Rightarrow> []
        | Some f \<Rightarrow> KEY_FOLDER @ quote f @
            (case other of
               None \<Rightarrow> []
             | Some o' \<Rightarrow> OTHER_KEY_FOLDER @ quote o' @ '', and the hub may have pinned that one'')) @
       ''. A new handshake cannot fix this. Re-pair, or share the key folder: point every program that uses this identity at the folder holding the key the hub trusts (set_noise_state_dir).'')"
  by (simp only: client_key_rejection_iff client_key_rejected_def)

text \<open>
  The finer kinds of failure exclude each other and each one is the broader kind the callers
  match on: a rejected client key is a refusal, a refusal is never a changed hub key, each of
  them is a connection error and no timeout, and an unreachable API is neither.
\<close>

theorem failure_kinds_exclusive:
  "(is_client_key_rejected e \<longrightarrow> is_hub_refused e)
   \<and> \<not> (is_hub_refused e \<and> is_hub_key_changed e)
   \<and> \<not> (is_api_unreachable e \<and> (is_hub_refused e \<or> is_hub_key_changed e))
   \<and> (is_hub_refused e \<or> is_hub_key_changed e \<or> is_api_unreachable e \<longrightarrow>
        is_connection_error e \<and> \<not> is_timeout e \<and> api_answer e = None)"
  using client_key_rejected_refused [of e] refused_not_key_changed [of e]
  by (intro conjI; cases e; auto simp: is_hub_refused_def is_hub_key_changed_def
      is_api_unreachable_def is_connection_error_def is_timeout_def api_answer_def)

theorem failure_kinds_exclusive_witness:
  "is_client_key_rejected (client_key_rejected (\<lambda>s. s) (Some ''/a'') None)
   \<and> is_hub_refused (client_key_rejected (\<lambda>s. s) (Some ''/a'') None)
   \<and> is_connection_error (client_key_rejected (\<lambda>s. s) (Some ''/a'') None)"
proof -
  let ?e = "client_key_rejected (\<lambda>s. s) (Some ''/a'') None"
  have "is_client_key_rejected ?e" by (simp add: is_client_key_rejected_def)
  with failure_kinds_exclusive [of ?e] show ?thesis by simp
qed

text \<open>
  What the constructor of a rejected-key error puts into its message is what the reader of
  the folders gets back: the folder and the other folder as given, nothing when no folder could
  be resolved. \<open>leading\<close> reads back what \<open>quote\<close> printed, as \<open>serde_json\<close> documents.
\<close>

theorem client_key_folders_roundtrip:
  assumes "\<And>s r. leading (quote s @ r) = Some (s, r)"
  shows "client_key_folders leading (client_key_rejected quote folder other) =
           (case folder of None \<Rightarrow> None | Some f \<Rightarrow> Some (f, other))"
  by (simp add: client_key_folders_def assms KEY_FOLDER_def OTHER_KEY_FOLDER_def split: option.split)

theorem client_key_folders_roundtrip_witness:
  "client_key_folders
     (\<lambda>t. let n = length (takeWhile (\<lambda>c. c = CHR ''x'') t); u = drop (Suc n) t
          in Some (take n u, drop n u))
     (client_key_rejected (\<lambda>s. replicate (length s) (CHR ''x'') @ CHR ''.'' # s)
        (Some ''/home/a'') (Some ''/etc/b'')) = Some (''/home/a'', Some ''/etc/b'')"
proof -
  have tw: "takeWhile (\<lambda>c. c = CHR ''x'') (replicate n (CHR ''x'') @ CHR ''.'' # u) =
          replicate n (CHR ''x'')" for n u
    by (induction n) auto
  show ?thesis
    by (subst client_key_folders_roundtrip) (simp_all add: tw)
qed

end
