(* ===== verification/Wire.thy ===== *)
theory Wire
  imports Errors
begin

text \<open>
  \<open>src/src/wire.rs\<close>: the binary frames of a hive, and what \<open>events.rs\<close> and \<open>transport.rs\<close> say
  of their content (\<open>HiveMessage\<close>, \<open>ThalovantBinary\<close>). A frame is a stream of bits: zero bits
  that pad it on the left, a one, an optional version, five bits of type, a compression flag,
  a length, the metadata and the payload. \<open>bit_reader\<close> is the code's reader; \<open>remaining\<close> is
  what it has left as a list of bits, and every read is described on that list. JSON and zlib
  are not part of the repository: they are the fields of \<open>codec\<close>.
\<close>

section \<open>Messages\<close>

record binary_payload =
  b_kind :: string
  b_data :: bytes
  b_metadata :: jmap
  b_utterance :: "string option"
  b_lang :: "string option"
  b_file_name :: "string option"

record hive_message =
  msg_type :: string
  payload :: jmap
  binary :: "binary_payload option"
  metadata :: jmap
  route :: "json list"
  node :: "json option"
  target_site_id :: "json option"
  target_pubkey :: "json option"
  source_peer :: "json option"

definition BINARY_PAYLOAD_KINDS :: "(nat \<times> string) list" where
  "BINARY_PAYLOAD_KINDS =
     [(1, ''raw_audio''), (2, ''numpy_image''), (3, ''file''), (4, ''stt_transcribe''),
      (5, ''stt_handle''), (6, ''tts_audio'')]"

definition binary_kind_name :: "nat \<Rightarrow> string" where
  "binary_kind_name wire_number =
     (case find (\<lambda>(n, _). n = wire_number) BINARY_PAYLOAD_KINDS of
        Some (_, name) \<Rightarrow> name
      | None \<Rightarrow> ''binary:'' @ show_nat wire_number)"

definition nonempty_text :: "jmap \<Rightarrow> string \<Rightarrow> string option" where
  "nonempty_text m k =
     (case get_str m k of Some s \<Rightarrow> if s \<noteq> [] then Some s else None | None \<Rightarrow> None)"

definition binary_frame :: "string \<Rightarrow> bytes \<Rightarrow> jmap \<Rightarrow> binary_payload" where
  "binary_frame kind data m =
     \<lparr>b_kind = kind, b_data = data, b_metadata = m,
      b_utterance = nonempty_text m ''utterance'', b_lang = nonempty_text m ''lang'',
      b_file_name = nonempty_text m ''file_name''\<rparr>"

section \<open>What JSON and zlib do\<close>

text \<open>
  \<open>to_vec\<close> and \<open>from_str\<close> are \<open>serde_json\<close>'s printer of a map and parser of a value;
  \<open>inflate_take payload n\<close> is at most \<open>n\<close> bytes of the inflated stream, or the error of a corrupt
  one (\<open>ZlibDecoder::take(n).read_to_end\<close>); \<open>utf8_error\<close> is the message of a \<open>FromUtf8Error\<close>.
\<close>

record codec =
  to_vec :: "jmap \<Rightarrow> bytes res"
  from_str :: "string \<Rightarrow> json res"
  inflate_take :: "bytes \<Rightarrow> nat \<Rightarrow> bytes res"
  utf8_error :: "bytes \<Rightarrow> string"

definition MAX_INFLATED :: nat where
  "MAX_INFLATED = 32 * 1024 * 1024"

text \<open>\<open>String::from_utf8\<close>: the bytes are well-formed UTF-8 (Unicode, table 3-7).\<close>

definition cont :: "u8 \<Rightarrow> bool" where
  "cont b \<longleftrightarrow> 0x80 \<le> b \<and> b \<le> 0xBF"

fun utf8_valid :: "bytes \<Rightarrow> bool" where
  "utf8_valid [] = True"
| "utf8_valid (a # r) =
     (if a \<le> 0x7F then utf8_valid r
      else if 0xC2 \<le> a \<and> a \<le> 0xDF then
        (case r of b # r' \<Rightarrow> cont b \<and> utf8_valid r' | _ \<Rightarrow> False)
      else if 0xE0 \<le> a \<and> a \<le> 0xEF then
        (case r of b # c # r' \<Rightarrow>
           cont b \<and> cont c \<and> (a = 0xE0 \<longrightarrow> 0xA0 \<le> b) \<and> (a = 0xED \<longrightarrow> b \<le> 0x9F) \<and> utf8_valid r'
         | _ \<Rightarrow> False)
      else if 0xF0 \<le> a \<and> a \<le> 0xF4 then
        (case r of b # c # d # r' \<Rightarrow>
           cont b \<and> cont c \<and> cont d \<and> (a = 0xF0 \<longrightarrow> 0x90 \<le> b) \<and> (a = 0xF4 \<longrightarrow> b \<le> 0x8F)
           \<and> utf8_valid r'
         | _ \<Rightarrow> False)
      else False)"

definition from_utf8 :: "codec \<Rightarrow> bytes \<Rightarrow> string res" where
  "from_utf8 c bs = (if utf8_valid bs then Inr (chars_of bs) else Inl (Runtime (utf8_error c bs)))"

definition inflate :: "codec \<Rightarrow> bytes \<Rightarrow> nat \<Rightarrow> bytes res" where
  "inflate c bs limit =
     res_bind (inflate_take c bs (limit + 1))
       (\<lambda>out. if length out > limit
              then Inl (Runtime (''HiveMind binary frame inflates past the size limit (''
                                 @ show_nat limit @ '' bytes)''))
              else Inr out)"

definition decode_wire_text :: "codec \<Rightarrow> bytes \<Rightarrow> bool \<Rightarrow> string res" where
  "decode_wire_text c bs compressed =
     res_bind (if compressed then inflate c bs MAX_INFLATED else Inr bs) (from_utf8 c)"

definition parse_map :: "codec \<Rightarrow> string \<Rightarrow> jmap res" where
  "parse_map c raw =
     res_bind (from_str c raw)
       (\<lambda>v. Inr (case as_object v of Some m \<Rightarrow> m | None \<Rightarrow> []))"

section \<open>Type numbers\<close>

definition hive_type_to_int :: "string \<Rightarrow> u8" where
  "hive_type_to_int t =
     (if t = ''shake'' \<or> t = ''handshake'' then 0
      else if t = ''bus'' then 1 else if t = ''shared_bus'' then 2
      else if t = ''broadcast'' then 3 else if t = ''propagate'' then 4
      else if t = ''escalate'' then 5 else if t = ''hello'' then 6
      else if t = ''query'' then 7 else if t = ''cascade'' then 8
      else if t = ''ping'' then 9 else if t = ''rendezvous'' then 10
      else if t = ''3rdparty'' then 11 else if t = ''bin'' then 12 else 11)"

definition hive_int_to_type :: "u8 \<Rightarrow> string" where
  "hive_int_to_type n =
     (if n = 0 then ''shake'' else if n = 1 then ''bus'' else if n = 2 then ''shared_bus''
      else if n = 3 then ''broadcast'' else if n = 4 then ''propagate''
      else if n = 5 then ''escalate'' else if n = 6 then ''hello'' else if n = 7 then ''query''
      else if n = 8 then ''cascade'' else if n = 9 then ''ping''
      else if n = 10 then ''rendezvous'' else if n = 12 then ''bin'' else ''3rdparty'')"

section \<open>The bit reader\<close>

record bit_reader =
  br_payload :: bytes
  br_offset :: nat

definition new_reader :: "bytes \<Rightarrow> bit_reader" where
  "new_reader bs = \<lparr>br_payload = bs, br_offset = 0\<rparr>"

definition UNEXPECTED_END :: thalovant_error where
  "UNEXPECTED_END = Runtime ''unexpected end of HiveMind binary frame''"

definition read_bit :: "bit_reader \<Rightarrow> (u8 \<times> bit_reader) res" where
  "read_bit r =
     (if br_offset r \<ge> length (br_payload r) * 8 then Inl UNEXPECTED_END
      else Inr (drop_bit (7 - br_offset r mod 8) (br_payload r ! (br_offset r div 8)) AND 1,
                r\<lparr>br_offset := br_offset r + 1\<rparr>))"

text \<open>The loop over \<open>width\<close> bits, with the value so far.\<close>

fun read_uint_from :: "nat \<Rightarrow> nat \<Rightarrow> bit_reader \<Rightarrow> (nat \<times> bit_reader) res" where
  "read_uint_from value 0 r = Inr (value, r)"
| "read_uint_from value (Suc width) r =
     res_bind (read_bit r) (\<lambda>(b, r'). read_uint_from (2 * value + unat b) width r')"

definition read_uint :: "nat \<Rightarrow> bit_reader \<Rightarrow> (nat \<times> bit_reader) res" where
  "read_uint width r = read_uint_from 0 width r"

fun read_bytes :: "nat \<Rightarrow> bit_reader \<Rightarrow> (bytes \<times> bit_reader) res" where
  "read_bytes 0 r = Inr ([], r)"
| "read_bytes (Suc len) r =
     res_bind (read_uint 8 r) (\<lambda>(n, r'). res_bind (read_bytes len r')
       (\<lambda>(out, r''). Inr (word_of_nat n # out, r'')))"

definition read_remaining_bytes :: "bit_reader \<Rightarrow> (bytes \<times> bit_reader) res" where
  "read_remaining_bytes r = read_bytes ((length (br_payload r) * 8 - br_offset r) div 8) r"

function skip_left_padding :: "bit_reader \<Rightarrow> bit_reader res" where
  "skip_left_padding r =
     res_bind (read_bit r) (\<lambda>(b, r'). if b = 1 then Inr r' else skip_left_padding r')"
  by pat_completeness auto
termination
  by (relation "measure (\<lambda>r. length (br_payload r) * 8 - br_offset r)")
    (auto simp: read_bit_def split: if_splits)

declare skip_left_padding.simps [simp del]

section \<open>Encoding and decoding a frame\<close>

definition encode_hive_binary_frame :: "codec \<Rightarrow> hive_message \<Rightarrow> bytes res" where
  "encode_hive_binary_frame c m =
     (let type_id = hive_type_to_int (msg_type m)
      in res_bind (to_vec c (metadata m)) (\<lambda>meta.
           if length meta > 255
           then Inl (Runtime ''HiveMind binary metadata cannot exceed 255 bytes'')
           else res_bind (to_vec c (payload m)) (\<lambda>body.
             Inr ((0x80 OR push_bit 1 (type_id AND 0x1f)) # word_of_nat (length meta)
                  # meta @ body))))"

definition plain_message :: "string \<Rightarrow> jmap \<Rightarrow> binary_payload option \<Rightarrow> jmap \<Rightarrow> hive_message" where
  "plain_message t p b m =
     \<lparr>msg_type = t, payload = p, binary = b, metadata = m, route = [], node = None,
      target_site_id = None, target_pubkey = None, source_peer = None\<rparr>"

definition decode_version :: "bit_reader \<Rightarrow> bit_reader res" where
  "decode_version r =
     res_bind (read_bit r) (\<lambda>(b, r1).
       if b = 1
       then res_bind (read_uint 8 r1) (\<lambda>(version, r2).
              if version > 1
              then Inl (Runtime (''unsupported HiveMind binary protocol version: ''
                                 @ show_nat version))
              else Inr r2)
       else Inr r1)"

definition decode_body :: "codec \<Rightarrow> string \<Rightarrow> bool \<Rightarrow> jmap \<Rightarrow> bit_reader \<Rightarrow> hive_message res" where
  "decode_body c t compressed meta r =
     (if t = ''bin''
      then res_bind (read_uint 4 r) (\<lambda>(kind, r1). res_bind (read_remaining_bytes r1)
             (\<lambda>(clip, _). Inr (plain_message t []
                (Some (binary_frame (binary_kind_name kind) clip meta)) meta)))
      else res_bind (read_remaining_bytes r) (\<lambda>(raw, _).
             res_bind (decode_wire_text c raw compressed) (\<lambda>text.
             res_bind (parse_map c text) (\<lambda>p. Inr (plain_message t p None meta)))))"

definition decode_hive_binary_frame :: "codec \<Rightarrow> bytes \<Rightarrow> hive_message res" where
  "decode_hive_binary_frame c bs =
     res_bind (skip_left_padding (new_reader bs)) (\<lambda>r0.
     res_bind (decode_version r0) (\<lambda>r1.
     res_bind (read_uint 5 r1) (\<lambda>(type_id, r2).
     res_bind (read_bit r2) (\<lambda>(flag, r3).
     res_bind (read_uint 8 r3) (\<lambda>(metadata_len, r4).
     res_bind (read_bytes metadata_len r4) (\<lambda>(raw, r5).
     res_bind (decode_wire_text c raw (flag = 1)) (\<lambda>text.
     res_bind (parse_map c text) (\<lambda>meta.
       decode_body c (hive_int_to_type (word_of_nat type_id)) (flag = 1) meta r5))))))))"

section \<open>The reader on bits\<close>

definition byte_bits :: "u8 \<Rightarrow> bool list" where
  "byte_bits b = map (bit b) (rev [0..<8])"

definition bits_of :: "bytes \<Rightarrow> bool list" where
  "bits_of bs = concat (map byte_bits bs)"

definition remaining :: "bit_reader \<Rightarrow> bool list" where
  "remaining r = drop (br_offset r) (bits_of (br_payload r))"

definition advance :: "nat \<Rightarrow> bit_reader \<Rightarrow> bit_reader" where
  "advance n r = r\<lparr>br_offset := br_offset r + n\<rparr>"

definition bits_val :: "nat \<Rightarrow> bool list \<Rightarrow> nat" where
  "bits_val = foldl (\<lambda>v b. 2 * v + of_bool b)"

lemma length_byte_bits [simp]: "length (byte_bits b) = 8"
  by (simp add: byte_bits_def)

lemma length_bits_of [simp]: "length (bits_of bs) = 8 * length bs"
  by (induction bs) (auto simp: bits_of_def)

lemma bits_of_simps [simp]: "bits_of [] = []" "bits_of (b # bs) = byte_bits b @ bits_of bs"
    "bits_of (as @ bs) = bits_of as @ bits_of bs"
  by (simp_all add: bits_of_def)

lemma bits_of_nth: "i < 8 * length bs \<Longrightarrow> bits_of bs ! i = bit (bs ! (i div 8)) (7 - i mod 8)"
proof (induction bs arbitrary: i)
  case Nil
  then show ?case by simp
next
  case (Cons b bs)
  show ?case
  proof (cases "i < 8")
    case True
    then show ?thesis by (simp add: nth_append byte_bits_def rev_nth)
  next
    case False
    then have "bits_of bs ! (i - 8) = bit (bs ! ((i - 8) div 8)) (7 - (i - 8) mod 8)"
      using Cons by simp
    moreover have "i div 8 = Suc ((i - 8) div 8)" "i mod 8 = (i - 8) mod 8"
      using False by (simp_all add: div_if mod_if)
    ultimately show ?thesis using False by (simp add: nth_append)
  qed
qed

lemma remaining_advance [simp]: "remaining (advance n r) = drop n (remaining r)"
  by (simp add: remaining_def advance_def add.commute)

lemma advance_advance [simp]: "advance m (advance n r) = advance (n + m) r"
  by (simp add: advance_def)

lemma advance_0 [simp]: "advance 0 r = r"
  by (simp add: advance_def)

lemma remaining_new_reader [simp]: "remaining (new_reader bs) = bits_of bs"
  by (simp add: remaining_def new_reader_def)

lemma length_remaining: "length (remaining r) = 8 * length (br_payload r) - br_offset r"
  by (simp add: remaining_def)

lemma read_bit_remaining:
  "read_bit r = (case remaining r of [] \<Rightarrow> Inl UNEXPECTED_END
                 | b # _ \<Rightarrow> Inr (if b then 1 else 0, advance 1 r))"
proof (cases "br_offset r < 8 * length (br_payload r)")
  case False
  then have "remaining r = []" by (simp add: remaining_def)
  with False show ?thesis by (simp add: read_bit_def mult.commute)
next
  case True
  then obtain b bs where rem: "remaining r = b # bs"
    by (cases "remaining r") (auto simp: remaining_def)
  have "b = bits_of (br_payload r) ! br_offset r"
    using rem True by (simp add: remaining_def nth_via_drop)
  then have "b = bit (br_payload r ! (br_offset r div 8)) (7 - br_offset r mod 8)"
    using True by (simp add: bits_of_nth)
  then show ?thesis
    using True rem by (simp add: read_bit_def advance_def and_one_eq bit_iff_odd_drop_bit
        odd_iff_mod_2_eq_one mult.commute)
qed

lemma read_uint_from_remaining:
  "read_uint_from v w r =
     (if w \<le> length (remaining r) then Inr (bits_val v (take w (remaining r)), advance w r)
      else Inl UNEXPECTED_END)"
proof (induction w arbitrary: v r)
  case 0
  then show ?case by (simp add: bits_val_def)
next
  case (Suc w)
  show ?case
  proof (cases "remaining r")
    case Nil
    then show ?thesis by (simp add: read_bit_remaining)
  next
    case (Cons b bs)
    then show ?thesis by (simp add: read_bit_remaining Suc.IH bits_val_def)
  qed
qed

lemma read_uint_remaining:
  "read_uint w r =
     (if w \<le> length (remaining r) then Inr (bits_val 0 (take w (remaining r)), advance w r)
      else Inl UNEXPECTED_END)"
  by (simp add: read_uint_def read_uint_from_remaining)

lemma bits_val_horner: "bits_val 0 (rev xs) = horner_sum of_bool 2 xs"
  by (simp add: bits_val_def foldl_conv_foldr horner_sum_foldr add.commute)

lemma bits_val_byte [simp]: "bits_val 0 (byte_bits b) = unat b"
proof -
  have "bits_val 0 (byte_bits b) = horner_sum of_bool 2 (map (bit b) [0..<8])"
    using bits_val_horner [of "map (bit b) [0..<8]"] by (simp add: byte_bits_def rev_map)
  also have "\<dots> = horner_sum of_bool 2 (map (bit (unat b)) [0..<8])"
    by (simp add: bit_unsigned_iff cong: map_cong)
  also have "\<dots> = take_bit 8 (unat b)"
    by (rule horner_sum_bit_eq_take_bit)
  also have "\<dots> = unat b"
  proof -
    have "unat b < 2 ^ LENGTH(8)" by (rule unsigned_less)
    then show ?thesis by (simp add: take_bit_nat_eq_self)
  qed
  finally show ?thesis .
qed

lemma read_bytes_remaining:
  "remaining r = bits_of bs @ rest \<Longrightarrow>
   read_bytes (length bs) r = Inr (bs, advance (8 * length bs) r)"
proof (induction bs arbitrary: r)
  case Nil
  then show ?case by simp
next
  case (Cons b bs)
  then have "read_uint 8 r = Inr (unat b, advance 8 r)"
    by (simp add: read_uint_remaining)
  moreover have "read_bytes (length bs) (advance 8 r) = Inr (bs, advance (8 * length bs) (advance 8 r))"
    by (rule Cons.IH) (simp add: Cons.prems)
  ultimately show ?case by simp
qed

text \<open>A run of bits too short for the bytes asked for is the end of the frame.\<close>

lemma read_bytes_short: "length (remaining r) < 8 * n \<Longrightarrow> read_bytes n r = Inl UNEXPECTED_END"
proof (induction n arbitrary: r)
  case 0
  then show ?case by simp
next
  case (Suc n)
  then show ?case by (auto simp: read_uint_remaining Suc.IH)
qed

lemma read_remaining_bytes_exact:
  assumes "remaining r = bits_of bs @ rest" and "length rest < 8"
  shows "read_remaining_bytes r = Inr (bs, advance (8 * length bs) r)"
proof -
  have "length (br_payload r) * 8 - br_offset r = length (remaining r)"
    by (simp add: length_remaining mult.commute)
  then have "(length (br_payload r) * 8 - br_offset r) div 8 = length bs"
    using assms by simp
  with read_bytes_remaining [OF assms(1)] show ?thesis by (simp add: read_remaining_bytes_def)
qed

text \<open>The padding is skipped up to and including the first one bit.\<close>

lemma skip_left_padding_remaining:
  "skip_left_padding r =
     (case dropWhile Not (remaining r) of
        [] \<Rightarrow> Inl UNEXPECTED_END
      | _ # _ \<Rightarrow> Inr (advance (Suc (length (takeWhile Not (remaining r)))) r))"
proof (induction r rule: skip_left_padding.induct)
  case (1 r)
  show ?case
  proof (cases "remaining r")
    case Nil
    then show ?thesis by (subst skip_left_padding.simps) (simp add: read_bit_remaining)
  next
    case (Cons b bs)
    then have rb: "read_bit r = Inr (if b then 1 else 0, advance 1 r)"
      by (simp add: read_bit_remaining)
    show ?thesis
    proof (cases b)
      case True
      with rb Cons show ?thesis by (subst skip_left_padding.simps) simp
    next
      case False
      have "skip_left_padding r = skip_left_padding (advance 1 r)"
        using rb False by (subst skip_left_padding.simps) simp
      with "1.IH" [OF rb] False Cons show ?thesis
        by (simp split: list.split) (metis dropWhile_eq_Cons_conv in_set_conv_decomp)
    qed
  qed
qed

section \<open>The layout of a frame\<close>

text \<open>
  The bits a hub sends: padding, the start bit, an optional version, the type, the flag, the
  metadata with its length, and the rest. \<open>frame_layout\<close> says so of the bits of a whole frame,
  wherever the byte boundaries fall.
\<close>

definition version_bits :: "u8 option \<Rightarrow> bool list" where
  "version_bits v = (case v of None \<Rightarrow> [False] | Some n \<Rightarrow> True # byte_bits n)"

definition frame_layout ::
    "bytes \<Rightarrow> nat \<Rightarrow> u8 option \<Rightarrow> bool list \<Rightarrow> bool \<Rightarrow> bytes \<Rightarrow> bool list \<Rightarrow> bool" where
  "frame_layout frame pad version type_bits flag raw rest \<longleftrightarrow>
     bits_of frame =
       replicate pad False @ True # version_bits version @ type_bits @ flag
         # byte_bits (word_of_nat (length raw)) @ bits_of raw @ rest
     \<and> length type_bits = 5 \<and> length raw \<le> 255"

lemma decode_version_layout:
  assumes "remaining r = version_bits v @ rest"
  shows "decode_version r =
     (case v of None \<Rightarrow> Inr (advance 1 r)
      | Some n \<Rightarrow> if unat n > 1
                   then Inl (Runtime (''unsupported HiveMind binary protocol version: ''
                                      @ show_nat (unat n)))
                   else Inr (advance 9 r))"
  using assms by (cases v) (auto simp: decode_version_def version_bits_def read_bit_remaining
      read_uint_remaining)

lemma takeWhile_pad [simp]: "takeWhile Not (replicate n False @ True # xs) = replicate n False"
  by (induction n) auto

lemma dropWhile_pad [simp]: "dropWhile Not (replicate n False @ True # xs) = True # xs"
  by (induction n) auto

lemma decode_layout:
  assumes lay: "frame_layout frame pad version type_bits flag raw rest"
    and ver: "\<forall>n. version = Some n \<longrightarrow> unat n \<le> 1"
  shows "\<exists>r. remaining r = rest \<and>
     decode_hive_binary_frame c frame =
       res_bind (decode_wire_text c raw flag) (\<lambda>text.
       res_bind (parse_map c text) (\<lambda>meta.
         decode_body c (hive_int_to_type (word_of_nat (bits_val 0 type_bits))) flag meta r))"
proof -
  let ?v = "length (version_bits version)"
  let ?r0 = "advance (Suc pad) (new_reader frame)"
  let ?r1 = "advance ?v ?r0"
  let ?r4 = "advance 8 (advance 1 (advance 5 ?r1))"
  let ?r5 = "advance (8 * length raw) ?r4"
  let ?len = "word_of_nat (length raw) :: u8"
  note lay' = lay [unfolded frame_layout_def]
  have skip: "skip_left_padding (new_reader frame) = Inr ?r0"
    using lay' by (simp add: skip_left_padding_remaining)
  have rem0: "remaining ?r0 = version_bits version @ type_bits @ flag # byte_bits ?len @ bits_of raw @ rest"
    using lay' by simp
  have v1: "decode_version ?r0 = Inr ?r1"
    using ver unfolding decode_version_layout [OF rem0]
    by (cases version) (auto simp: version_bits_def)
  have rem1: "remaining ?r1 = type_bits @ flag # byte_bits ?len @ bits_of raw @ rest"
    by (subst remaining_advance, subst rem0) simp
  have kindno: "read_uint 5 ?r1 = Inr (bits_val 0 type_bits, advance 5 ?r1)"
    using lay' by (simp add: read_uint_remaining rem1 del: remaining_advance advance_advance)
  have rem2: "remaining (advance 5 ?r1) = flag # byte_bits ?len @ bits_of raw @ rest"
    using lay' by (subst remaining_advance, subst rem1) simp
  have flg: "read_bit (advance 5 ?r1) = Inr (if flag then 1 else 0, advance 1 (advance 5 ?r1))"
    by (simp add: read_bit_remaining rem2 del: remaining_advance advance_advance)
  have rem3: "remaining (advance 1 (advance 5 ?r1)) = byte_bits ?len @ bits_of raw @ rest"
    by (subst remaining_advance, subst rem2) simp
  have "unat ?len = length raw"
    using lay' by (simp add: unat_of_nat)
  then have len: "read_uint 8 (advance 1 (advance 5 ?r1)) = Inr (length raw, ?r4)"
    unfolding read_uint_remaining rem3 by simp
  have rem4: "remaining ?r4 = bits_of raw @ rest"
    by (subst remaining_advance, subst rem3) simp
  have rem5: "remaining ?r5 = rest"
    by (subst remaining_advance, subst rem4) simp
  show ?thesis
    by (rule exI [of _ ?r5])
      (simp add: rem5 decode_hive_binary_frame_def skip v1 kindno flg len read_bytes_remaining [OF rem4]
        del: remaining_advance advance_advance One_nat_def)
qed

section \<open>Round trips\<close>

text \<open>What \<open>serde_json\<close> documents: it reads back the map it printed.\<close>

definition codec_roundtrips :: "codec \<Rightarrow> jmap \<Rightarrow> bytes \<Rightarrow> bool" where
  "codec_roundtrips c m raw \<longleftrightarrow>
     to_vec c m = Inr raw \<and> utf8_valid raw \<and> from_str c (chars_of raw) = Inr (JObject m)"

lemma codec_roundtrips_decode:
  "codec_roundtrips c m raw \<Longrightarrow>
     decode_wire_text c raw False = Inr (chars_of raw) \<and> parse_map c (chars_of raw) = Inr m"
  by (simp add: codec_roundtrips_def decode_wire_text_def from_utf8_def parse_map_def)

definition canonical_type :: "string \<Rightarrow> string" where
  "canonical_type t = hive_int_to_type (hive_type_to_int t)"

lemma hive_type_to_int_bound: "hive_type_to_int t \<le> 12"
  by (simp add: hive_type_to_int_def)

lemma hive_int_to_type_bin: "n \<le> 12 \<Longrightarrow> hive_int_to_type n = ''bin'' \<longleftrightarrow> n = 12"
  by (auto simp: hive_int_to_type_def split: if_splits)

lemma type_byte_bits:
  assumes "n \<le> 12"
  shows "\<exists>tb. byte_bits (0x80 OR push_bit 1 (n AND 0x1f)) = True # False # tb @ [False]
            \<and> length tb = 5 \<and> word_of_nat (bits_val 0 tb) = n"
proof -
  have "n \<in> {0, 1, 2, 3, 4, 5, 6, 7, 8, 9, 10, 11, 12}"
  proof -
    have "unat n \<in> {0..12}" using assms by (simp add: word_le_nat_alt)
    then have "unat n \<in> set [0..<13]" by auto
    then have "n \<in> word_of_nat ` set [0..<13]" by (intro image_eqI [of _ _ "unat n"]) simp_all
    then show ?thesis by (simp add: upt_rec)
  qed
  then show ?thesis
    by (elim insertE emptyE; intro exI [of _ "tl (tl (butlast (byte_bits (0x80 OR push_bit 1 (n AND 0x1f)))))"])
      (simp_all add: byte_bits_def upt_rec bits_val_def)
qed

definition numbered_types :: "string set" where
  "numbered_types = {''shake'', ''bus'', ''shared_bus'', ''broadcast'', ''propagate'', ''escalate'',
           ''hello'', ''query'', ''cascade'', ''ping'', ''rendezvous'', ''3rdparty''}"

lemma canonical_numbered: "t \<in> numbered_types \<Longrightarrow> canonical_type t = t"
  by (auto simp: numbered_types_def canonical_type_def hive_type_to_int_def hive_int_to_type_def)

text \<open>
  C9: a message of any type but \<open>bin\<close>, whose metadata take at most 255 bytes, is decoded as it was
  encoded in what the wire carries: the type under its canonical name, the payload and the metadata
  as they were; every type with a number of its own keeps its name. The node, the route and the peers
  of a message are not on the wire and come back empty.
\<close>

theorem wire_roundtrip:
  assumes "codec_roundtrips c (metadata m) meta" and "length meta \<le> 255"
    and "codec_roundtrips c (payload m) body" and "msg_type m \<noteq> ''bin''"
  shows "res_bind (encode_hive_binary_frame c m) (decode_hive_binary_frame c) =
           Inr (plain_message (canonical_type (msg_type m)) (payload m) None (metadata m))
    \<and> (msg_type m \<in> numbered_types \<longrightarrow> canonical_type (msg_type m) = msg_type m)"
proof
  show "msg_type m \<in> numbered_types \<longrightarrow> canonical_type (msg_type m) = msg_type m"
    using canonical_numbered by blast
  let ?n = "hive_type_to_int (msg_type m)"
  let ?b = "0x80 OR push_bit 1 (?n AND 0x1f) :: u8"
  let ?frame = "?b # word_of_nat (length meta) # meta @ body"
  have enc: "encode_hive_binary_frame c m = Inr ?frame"
    using assms by (simp add: encode_hive_binary_frame_def codec_roundtrips_def Let_def)
  obtain tb where tb: "byte_bits ?b = True # False # tb @ [False]" "length tb = 5"
      "word_of_nat (bits_val 0 tb) = ?n"
    using type_byte_bits [OF hive_type_to_int_bound] by blast
  have lay: "frame_layout ?frame 0 None tb False meta (bits_of body)"
    using tb assms(2) by (simp add: frame_layout_def version_bits_def)
  obtain r where r: "remaining r = bits_of body" and
    dec: "decode_hive_binary_frame c ?frame =
       res_bind (decode_wire_text c meta False) (\<lambda>text.
       res_bind (parse_map c text) (\<lambda>me. decode_body c (canonical_type (msg_type m)) False me r))"
    using decode_layout [OF lay, of c] tb(3) by (auto simp: canonical_type_def)
  have "canonical_type (msg_type m) \<noteq> ''bin''"
    unfolding canonical_type_def hive_int_to_type_bin [OF hive_type_to_int_bound]
    using assms(4) by (simp add: hive_type_to_int_def)
  moreover have "read_remaining_bytes r = Inr (body, advance (8 * length body) r)"
    using read_remaining_bytes_exact [of r body "[]"] r by simp
  ultimately show "res_bind (encode_hive_binary_frame c m) (decode_hive_binary_frame c) =
           Inr (plain_message (canonical_type (msg_type m)) (payload m) None (metadata m))"
    using codec_roundtrips_decode [OF assms(1)] codec_roundtrips_decode [OF assms(3)]
    unfolding enc res_bind_Inr dec by (simp add: decode_body_def)
qed

definition sample_codec :: codec where
  "sample_codec =
     \<lparr>to_vec = (\<lambda>m. if m = [] then Inr [123, 125] else Inl (Json ''sample'')),
      from_str = (\<lambda>s. if s = ''{}'' then Inr (JObject []) else Inl (Json ''sample'')),
      inflate_take = (\<lambda>bs n. Inl (Io OtherIo ''sample'')), utf8_error = (\<lambda>_. ''sample'')\<rparr>"

lemma sample_codec_roundtrips: "codec_roundtrips sample_codec [] [123, 125]"
  by (simp add: codec_roundtrips_def sample_codec_def chars_of_def char_of_def bit_iff_odd)

theorem wire_roundtrip_witness:
  "res_bind (encode_hive_binary_frame sample_codec (plain_message ''bus'' [] None []))
     (decode_hive_binary_frame sample_codec) = Inr (plain_message ''bus'' [] None [])"
  using wire_roundtrip [of sample_codec "plain_message ''bus'' [] None []" "[123, 125]" "[123, 125]"]
    sample_codec_roundtrips
  by (simp add: plain_message_def numbered_types_def)

text \<open>
  a BINARY frame gives back its clip byte for byte, at whatever bit the clip begins: the
  padding goes on the front, so the clip is not aligned, and it is neither parsed nor inflated.
  Its four kind bits name the payload, under the number when nothing has that name.
\<close>

theorem binary_frame_clip:
  assumes lay: "frame_layout frame pad version type_bits flag raw (kind_bits @ bits_of clip)"
    and ver: "\<forall>n. version = Some n \<longrightarrow> unat n \<le> 1"
    and kindno: "bits_val 0 type_bits = 12" and kind: "length kind_bits = 4"
    and meta: "res_bind (decode_wire_text c raw flag) (parse_map c) = Inr meta"
  shows "decode_hive_binary_frame c frame =
           Inr (plain_message ''bin'' []
             (Some (binary_frame (binary_kind_name (bits_val 0 kind_bits)) clip meta)) meta)"
proof -
  obtain r where r: "remaining r = kind_bits @ bits_of clip" and
    dec: "decode_hive_binary_frame c frame =
       res_bind (decode_wire_text c raw flag) (\<lambda>text.
       res_bind (parse_map c text) (\<lambda>me. decode_body c ''bin'' flag me r))"
    using decode_layout [OF lay ver, of c] kindno by (auto simp: hive_int_to_type_def)
  from meta obtain s where s: "decode_wire_text c raw flag = Inr s" "parse_map c s = Inr meta"
    by (auto simp: res_bind_eq_Inr)
  have "read_remaining_bytes (advance 4 r) = Inr (clip, advance (8 * length clip) (advance 4 r))"
    by (rule read_remaining_bytes_exact [where rest = "[]"]) (simp_all add: r kind)
  then show ?thesis
    by (simp add: dec s decode_body_def read_uint_remaining r kind del: advance_advance)
qed

theorem binary_frame_clip_witness:
  "decode_hive_binary_frame sample_codec [0x09, 0x80, 0x27, 0xB7, 0xD6, 0xAB] =
     Inr (plain_message ''bin'' [] (Some (binary_frame ''tts_audio'' [0xAB] [])) [])"
proof -
  have lay: "frame_layout [0x09, 0x80, 0x27, 0xB7, 0xD6, 0xAB] 4 None
      [False, True, True, False, False] False [123, 125] ([False, True, True, False] @ bits_of [0xAB])"
    by (simp add: frame_layout_def version_bits_def byte_bits_def upt_rec numeral_eq_Suc)
  have meta: "res_bind (decode_wire_text sample_codec [123, 125] False) (parse_map sample_codec) = Inr []"
    using codec_roundtrips_decode [OF sample_codec_roundtrips] by simp
  have kind: "bits_val 0 [False, True, True, False] = 6" "binary_kind_name 6 = ''tts_audio''"
    by (simp_all add: bits_val_def binary_kind_name_def BINARY_PAYLOAD_KINDS_def)
  show ?thesis
    using binary_frame_clip [OF lay _ _ _ meta] kind by (simp add: bits_val_def)
qed

end
