(* ===== verification/Canonical_Json.thy ===== *)
theory Canonical_Json
  imports Prelude
begin

text \<open>
  \<open>src/src/noise.rs\<close>, the negotiation of a Noise handshake: the choice of a pattern and a suite,
  the canonical JSON encoding and the prologue both peers mix into the handshake. The encoding
  is shown to be uniquely decodable, so that equal prologues mean equal negotiations; that is
  what makes the prologue a protection against downgrades.
\<close>

section \<open>Patterns and suites\<close>

definition NOISE_PATTERN_KK :: string where "NOISE_PATTERN_KK = ''KKpsk0''"
definition NOISE_PATTERN_XX :: string where "NOISE_PATTERN_XX = ''XXpsk2''"

definition NOISE_SUITES :: "string list" where
  "NOISE_SUITES = [''25519_ChaChaPoly_SHA256'', ''25519_AESGCM_SHA256'']"

definition noise_protocol_name :: "string \<Rightarrow> string \<Rightarrow> string" where
  "noise_protocol_name pattern suite = ''Noise_'' @ pattern @ ''_'' @ suite"

definition select_noise_options ::
    "string list \<Rightarrow> string list \<Rightarrow> string option \<Rightarrow> (string \<times> string) option" where
  "select_noise_options hub_patterns hub_suites pinned_remote_key =
     (case find (\<lambda>candidate. candidate \<in> set hub_suites) NOISE_SUITES of
        None \<Rightarrow> None
      | Some suite \<Rightarrow>
          let offers = (\<lambda>pattern. pattern \<in> set hub_patterns);
              pinned = (case pinned_remote_key of Some key \<Rightarrow> key \<noteq> [] | None \<Rightarrow> False)
          in if pinned \<and> offers NOISE_PATTERN_KK then Some (NOISE_PATTERN_KK, suite)
             else if offers NOISE_PATTERN_XX then Some (NOISE_PATTERN_XX, suite)
             else None)"

section \<open>Canonical JSON\<close>

text \<open>One character as \<open>json.dumps(ensure_ascii=False)\<close> escapes it.\<close>

definition escape_char :: "char \<Rightarrow> string" where
  "escape_char c =
     (if c = CHR 0x22 then [CHR 0x5C, CHR 0x22]
      else if c = CHR 0x5C then [CHR 0x5C, CHR 0x5C]
      else if c = CHR 0x08 then [CHR 0x5C, CHR ''b'']
      else if c = CHR 0x0C then [CHR 0x5C, CHR ''f'']
      else if c = CHR 0x0A then [CHR 0x5C, CHR ''n'']
      else if c = CHR 0x0D then [CHR 0x5C, CHR ''r'']
      else if c = CHR 0x09 then [CHR 0x5C, CHR ''t'']
      else if (of_char c :: nat) < 0x20
      then [CHR 0x5C, CHR ''u''] @ hex_byte 0 @ hex_byte (of_char c)
      else [c])"

definition write_canonical_string :: "string \<Rightarrow> string" where
  "write_canonical_string s = CHR 0x22 # concat (map escape_char s) @ [CHR 0x22]"

fun join :: "string list \<Rightarrow> string" where
  "join [] = []"
| "join [x] = x"
| "join (x # y # xs) = x @ '','' @ join (y # xs)"

definition bt_collect :: "('k::linorder \<times> 'v) list \<Rightarrow> ('k, 'v) btree" where
  "bt_collect entries = fold (\<lambda>(k, v). bt_insert k v) entries []"

text \<open>
  The members are printed and then put into the order of the \<open>BTreeMap\<close> of their keys.
  \<open>number_str\<close> is how \<open>serde_json\<close> displays a number.
\<close>

fun canonical_json :: "(number \<Rightarrow> string) \<Rightarrow> json \<Rightarrow> string" where
  "canonical_json number_str JNull = ''null''"
| "canonical_json number_str (JBool b) = (if b then ''true'' else ''false'')"
| "canonical_json number_str (JNumber n) = number_str n"
| "canonical_json number_str (JString s) = write_canonical_string s"
| "canonical_json number_str (JArray items) =
     ''['' @ join (map (canonical_json number_str) items) @ '']''"
| "canonical_json number_str (JObject entries) =
     ''{'' @ join (map (\<lambda>(k, v). write_canonical_string k @ '':'' @ v)
       (bt_collect (map (\<lambda>p. (fst p, canonical_json number_str (snd p))) entries))) @ ''}''"

definition build_prologue :: "(number \<Rightarrow> string) \<Rightarrow> jmap \<Rightarrow> jmap \<Rightarrow> string \<Rightarrow> bytes" where
  "build_prologue number_str hello handshake protocol_name =
     bytes_of (canonical_json number_str (JObject hello))
     @ bytes_of (canonical_json number_str (JObject handshake)) @ bytes_of protocol_name"

text \<open>
  the choice follows the client's order, not the hub's: the suite is the first of its own
  that the hub offers, KK is chosen exactly when a key is pinned and the hub offers it, XX
  exactly when KK is not and the hub offers XX, and there is no choice only when there is no
  mutual one.
\<close>

theorem select_noise_options_correct:
  "select_noise_options patterns suites pin =
     (let pinned = (\<exists>key. pin = Some key \<and> key \<noteq> []);
          kk = pinned \<and> NOISE_PATTERN_KK \<in> set patterns;
          chacha = ''25519_ChaChaPoly_SHA256''; aes = ''25519_AESGCM_SHA256''
      in if (chacha \<in> set suites \<or> aes \<in> set suites) \<and> (kk \<or> NOISE_PATTERN_XX \<in> set patterns)
         then Some (if kk then NOISE_PATTERN_KK else NOISE_PATTERN_XX,
                    if chacha \<in> set suites then chacha else aes)
         else None)"
  by (auto simp: select_noise_options_def NOISE_SUITES_def Let_def split: option.splits)

section \<open>Collecting into an ordered map\<close>

lemma fold_bt_insert_inv: "bt_inv m \<Longrightarrow> bt_inv (fold (\<lambda>(k, v). bt_insert k v) es m)"
  by (induction es arbitrary: m) auto

lemma fold_bt_insert_get:
  "distinct (map fst es) \<Longrightarrow>
   map_of (fold (\<lambda>(k, v). bt_insert k v) es m) = map_of m ++ map_of es"
proof (induction es arbitrary: m)
  case Nil
  then show ?case by simp
next
  case (Cons p es)
  then have "fst p \<notin> dom (map_of es)" by (auto simp: dom_map_of_conv_image_fst)
  with Cons show ?case
    by (cases p) (auto simp: fun_eq_iff map_add_def split: option.splits)
qed

lemma bt_collect_inv [simp]: "bt_inv (bt_collect es)"
  by (simp add: bt_collect_def fold_bt_insert_inv)

lemma bt_collect_rev: "map_of (bt_collect es) k = map_of (rev es) k"
proof -
  have "map_of (fold (\<lambda>(k, v). bt_insert k v) es m) k = (map_of m ++ map_of (rev es)) k" for m
    by (induction es arbitrary: m) (auto simp: map_add_def split: option.splits)
  then show ?thesis by (simp add: bt_collect_def)
qed

lemma bt_collect_get: "distinct (map fst es) \<Longrightarrow> map_of (bt_collect es) = map_of es"
  by (simp add: bt_collect_def fold_bt_insert_get)

lemma bt_collect_sorted [simp]: "bt_inv m \<Longrightarrow> bt_collect m = m"
  by (rule bt_ext) (simp_all add: bt_collect_get bt_inv_distinct)

text \<open>
  the encoding of an object does not depend on the order its members came in, so a map that
  keeps insertion order (which one feature of \<open>serde_json\<close> makes of it) cannot change a prologue.
\<close>

theorem canonical_order_free:
  assumes "distinct (map fst m)" and "set m = set m'" and "distinct (map fst m')"
  shows "canonical_json number_str (JObject m) = canonical_json number_str (JObject m')"
proof -
  let ?f = "\<lambda>p. (fst p, canonical_json number_str (snd p))"
  have dist: "distinct (map fst (map ?f m))" "distinct (map fst (map ?f m'))"
    using assms by (simp_all add: comp_def)
  have "map_of (map ?f m) = map_of (map ?f m')"
    using dist assms(2) by (intro map_of_inject_set [THEN iffD2]) auto
  then have "bt_collect (map ?f m) = bt_collect (map ?f m')"
    using dist by (intro bt_ext) (simp_all add: bt_collect_get)
  then show ?thesis by simp
qed

section \<open>Unique decodability\<close>

definition hex_val :: "char \<Rightarrow> nat" where
  "hex_val c = (let n = of_char c :: nat in if n < 58 then n - 48 else n - 87)"

lemma hex_val_digit [simp]: "n < 16 \<Longrightarrow> hex_val (digit_char n) = n"
  by (auto simp: hex_val_def digit_char_def)

fun unescape :: "string \<Rightarrow> (char \<times> string) option" where
  "unescape [] = None"
| "unescape (c # r) =
     (if c \<noteq> CHR 0x5C then Some (c, r)
      else case r of
        [] \<Rightarrow> None
      | d # r' \<Rightarrow>
          if d = CHR ''b'' then Some (CHR 0x08, r')
          else if d = CHR ''f'' then Some (CHR 0x0C, r')
          else if d = CHR ''n'' then Some (CHR 0x0A, r')
          else if d = CHR ''r'' then Some (CHR 0x0D, r')
          else if d = CHR ''t'' then Some (CHR 0x09, r')
          else if d = CHR ''u''
          then Some (char_of (16 * hex_val (r' ! 2) + hex_val (r' ! 3)), drop 4 r')
          else Some (d, r'))"

lemma unescape_control:
  assumes "(of_char c :: nat) < 0x20"
  shows "unescape (CHR 0x5C # CHR ''u'' # hex_byte 0 @ hex_byte (of_char c) @ r) = Some (c, r)"
proof -
  let ?n = "of_char c :: nat"
  have "?n div 16 < 16" "?n mod 16 < 16" using assms by auto
  then have "16 * hex_val (digit_char (?n div 16)) + hex_val (digit_char (?n mod 16)) = ?n"
    by (simp only: hex_val_digit mult_div_mod_eq)
  then show ?thesis by (simp add: hex_byte_def)
qed

lemma unescape_escape [simp]: "unescape (escape_char c @ r) = Some (c, r)"
  using unescape_control [of c r] by (simp add: escape_char_def del: unescape.simps) simp

lemma escape_char_hd: "escape_char c \<noteq> []" "hd (escape_char c) \<noteq> CHR 0x22"
  by (auto simp: escape_char_def)

lemma escape_not_quote: "escape_char c @ x \<noteq> CHR 0x22 # y"
  using escape_char_hd [of c] by (cases "escape_char c") auto

lemma escaped_inj:
  "concat (map escape_char a) @ CHR 0x22 # x = concat (map escape_char b) @ CHR 0x22 # y \<Longrightarrow>
   a = b \<and> x = y"
proof (induction a arbitrary: b)
  case Nil
  then show ?case
    by (cases b) (auto simp: escape_not_quote escape_not_quote [symmetric])
next
  case (Cons c a)
  show ?case
  proof (cases b)
    case Nil
    with Cons.prems show ?thesis by (auto simp: escape_not_quote)
  next
    case b: (Cons d b')
    let ?x = "concat (map escape_char a) @ CHR 0x22 # x"
    let ?y = "concat (map escape_char b') @ CHR 0x22 # y"
    have "unescape (escape_char c @ ?x) = unescape (escape_char d @ ?y)"
      using Cons.prems b by simp
    then have "c = d" "?x = ?y" by (simp_all del: append_assoc)
    with Cons.IH [of b'] b show ?thesis by simp
  qed
qed

lemma canonical_string_inj:
  "write_canonical_string a @ x = write_canonical_string b @ y \<Longrightarrow> a = b \<and> x = y"
  using escaped_inj [of a x b y] by (simp add: write_canonical_string_def)

definition number_chars :: "char set" where
  "number_chars = set ''0123456789+-.eE''"

text \<open>How \<open>serde_json\<close> documents the display of a number: distinct, and made of JSON's characters.\<close>

definition number_printer :: "(number \<Rightarrow> string) \<Rightarrow> bool" where
  "number_printer num \<longleftrightarrow>
     inj_on num {n. number_wf n} \<and>
     (\<forall>n. number_wf n \<longrightarrow> num n \<noteq> [] \<and> set (num n) \<subseteq> number_chars)"

definition stops :: "string \<Rightarrow> bool" where
  "stops t \<longleftrightarrow> t = [] \<or> hd t \<notin> number_chars"

lemma stops_Cons [simp]: "stops (c # t) \<longleftrightarrow> c \<notin> number_chars"
  by (simp add: stops_def)

lemma takeWhile_number:
  "set n \<subseteq> number_chars \<Longrightarrow> stops t \<Longrightarrow> takeWhile (\<lambda>c. c \<in> number_chars) (n @ t) = n"
  by (cases t) (auto simp: takeWhile_append)

lemma number_inj:
  assumes "number_printer num" and "number_wf a" and "number_wf b" and "stops r" and "stops s"
    and eq: "num a @ r = num b @ s"
  shows "a = b \<and> r = s"
proof -
  have "num a = takeWhile (\<lambda>c. c \<in> number_chars) (num a @ r)"
    "num b = takeWhile (\<lambda>c. c \<in> number_chars) (num b @ s)"
    using assms takeWhile_number unfolding number_printer_def by metis+
  with eq have "num a = num b" by simp
  with assms show ?thesis by (auto simp: number_printer_def inj_on_def)
qed

lemma number_head:
  "number_printer num \<Longrightarrow> number_wf n \<Longrightarrow> c \<notin> number_chars \<Longrightarrow> num n @ r \<noteq> c # s"
  by (cases "num n") (auto simp: number_printer_def)

lemma join_Cons: "join (x # xs) = x @ concat (map ((#) CHR '','') xs)"
  by (induction xs arbitrary: x) auto

text \<open>A list of uniquely decodable pieces with a closing bracket is uniquely decodable.\<close>

definition decodable :: "('a \<Rightarrow> string) \<Rightarrow> 'a set \<Rightarrow> 'a set \<Rightarrow> bool" where
  "decodable f A B \<longleftrightarrow>
     (\<forall>x \<in> A. \<forall>y \<in> B. \<forall>r s. f x @ r = f y @ s \<longrightarrow> stops r \<longrightarrow> stops s \<longrightarrow> x = y \<and> r = s)"

lemma decodableD:
  "decodable f A B \<Longrightarrow> x \<in> A \<Longrightarrow> y \<in> B \<Longrightarrow> f x @ r = f y @ s \<Longrightarrow> stops r \<Longrightarrow> stops s \<Longrightarrow> x = y \<and> r = s"
  unfolding decodable_def by blast

lemma stops_tail:
  "c \<notin> number_chars \<Longrightarrow> stops (concat (map (\<lambda>x. CHR '','' # f x) xs) @ c # r)"
  by (cases xs) (auto simp: number_chars_def)

lemma tail_inj:
  assumes "decodable f A B" and "set xs \<subseteq> A" and "set ys \<subseteq> B"
    and "c \<notin> number_chars" and "c \<noteq> CHR '',''"
    and "concat (map (\<lambda>x. CHR '','' # f x) xs) @ c # r = concat (map (\<lambda>x. CHR '','' # f x) ys) @ c # s"
  shows "xs = ys \<and> r = s"
  using assms(2,3,6)
proof (induction xs arbitrary: ys)
  case Nil
  with assms(5) show ?case by (cases ys) auto
next
  case (Cons x xs)
  with assms(5) obtain y ys' where ys: "ys = y # ys'" by (cases ys) auto
  from Cons.prems(3)
  have "f x @ concat (map (\<lambda>x. CHR '','' # f x) xs) @ c # r =
        f y @ concat (map (\<lambda>x. CHR '','' # f x) ys') @ c # s"
    by (simp add: ys)
  then have "x = y \<and> concat (map (\<lambda>x. CHR '','' # f x) xs) @ c # r =
       concat (map (\<lambda>x. CHR '','' # f x) ys') @ c # s"
    using Cons.prems(1,2) ys
    by (intro decodableD [OF assms(1)] stops_tail [OF assms(4)]) auto
  then have "x = y" and "concat (map (\<lambda>x. CHR '','' # f x) xs) @ c # r =
       concat (map (\<lambda>x. CHR '','' # f x) ys') @ c # s"
    by (simp_all add: ys)
  with Cons.IH [of ys'] Cons.prems(1,2) show ?case by (simp add: ys)
qed

lemma join_inj:
  assumes "decodable f A B" and "set xs \<subseteq> A" and "set ys \<subseteq> B"
    and "c \<notin> number_chars" and "c \<noteq> CHR '',''"
    and head: "\<And>x t. x \<in> A \<Longrightarrow> f x @ t \<noteq> c # v" "\<And>y t. y \<in> B \<Longrightarrow> f y @ t \<noteq> c # u"
    and eq: "join (map f xs) @ c # u = join (map f ys) @ c # v"
  shows "xs = ys \<and> u = v"
proof (cases xs; cases ys)
  assume "xs = []" "ys = []"
  with eq show ?thesis by simp
next
  fix y ys' assume "xs = []" "ys = y # ys'"
  with eq head(2) [of y] assms(3) show ?thesis by (auto simp: join_Cons dest: sym)
next
  fix x xs' assume "xs = x # xs'" "ys = []"
  with eq head(1) [of x] assms(2) show ?thesis by (auto simp: join_Cons)
next
  fix x xs' y ys' assume xy: "xs = x # xs'" "ys = y # ys'"
  have "concat (map (\<lambda>x. CHR '','' # f x) xs) @ c # u = concat (map (\<lambda>x. CHR '','' # f x) ys) @ c # v"
    using eq by (simp add: xy join_Cons comp_def)
  with tail_inj [OF assms(1-5)] show ?thesis by blast
qed

lemma bt_inv_map_snd: "bt_inv m \<Longrightarrow> bt_inv (map (\<lambda>p. (fst p, f (snd p))) m)"
  by (simp add: bt_inv_def comp_def)

lemma canonical_object:
  "bt_inv m \<Longrightarrow> canonical_json num (JObject m) =
     ''{'' @ join (map (\<lambda>p. write_canonical_string (fst p) @ '':'' @ canonical_json num (snd p)) m) @ ''}''"
  by (simp add: bt_inv_map_snd comp_def split_def)

lemma member_decodable:
  assumes "\<And>p q r s. p \<in> A \<Longrightarrow> q \<in> B \<Longrightarrow> f (snd p) @ r = f (snd q) @ s \<Longrightarrow> stops r \<Longrightarrow> stops s \<Longrightarrow>
     snd p = snd q \<and> r = s"
  shows "decodable (\<lambda>p. write_canonical_string (fst p) @ '':'' @ f (snd p)) A B"
  unfolding decodable_def
proof (intro ballI allI impI)
  fix p q r s
  assume mem: "p \<in> A" "q \<in> B"
    and eq: "(write_canonical_string (fst p) @ '':'' @ f (snd p)) @ r =
             (write_canonical_string (fst q) @ '':'' @ f (snd q)) @ s"
    and st: "stops r" "stops s"
  from eq have "fst p = fst q \<and> '':'' @ f (snd p) @ r = '':'' @ f (snd q) @ s"
    by (intro canonical_string_inj) simp
  with assms [OF mem _ st] show "p = q \<and> r = s" by (simp add: prod_eq_iff)
qed

text \<open>
  The encodings of two well-formed values followed by anything that cannot continue a number
  are equal only if the values are.
\<close>

definition head_class :: "json \<Rightarrow> char set" where
  "head_class v =
     (case v of JNull \<Rightarrow> {CHR ''n''} | JBool b \<Rightarrow> (if b then {CHR ''t''} else {CHR ''f''})
      | JNumber _ \<Rightarrow> number_chars | JString _ \<Rightarrow> {CHR 0x22} | JArray _ \<Rightarrow> {CHR ''[''}
      | JObject _ \<Rightarrow> {CHR ''{''})"

lemma canonical_head:
  assumes "number_printer num" and "json_wf v"
  shows "canonical_json num v \<noteq> [] \<and> hd (canonical_json num v) \<in> head_class v"
proof (cases v)
  case (JNumber n)
  with assms have "num n \<noteq> []" "set (num n) \<subseteq> number_chars" by (auto simp: number_printer_def)
  with JNumber show ?thesis by (cases "num n") (auto simp: head_class_def)
qed (auto simp: head_class_def write_canonical_string_def)

lemma canonical_not_head:
  assumes "number_printer num" and "json_wf v" and "c \<notin> head_class v"
  shows "canonical_json num v @ r \<noteq> c # s"
  using canonical_head [OF assms(1,2)] assms(3) by (cases "canonical_json num v") auto

lemma head_class_disjoint:
  "c \<in> head_class v \<Longrightarrow> c \<in> head_class w \<Longrightarrow>
   (v = JNull \<longleftrightarrow> w = JNull) \<and> (\<forall>b. v = JBool b \<longleftrightarrow> w = JBool b)
   \<and> ((\<exists>n. v = JNumber n) \<longleftrightarrow> (\<exists>n. w = JNumber n)) \<and> ((\<exists>t. v = JString t) \<longleftrightarrow> (\<exists>t. w = JString t))
   \<and> ((\<exists>xs. v = JArray xs) \<longleftrightarrow> (\<exists>xs. w = JArray xs)) \<and> ((\<exists>m. v = JObject m) \<longleftrightarrow> (\<exists>m. w = JObject m))"
  by (cases v; cases w) (auto simp: head_class_def number_chars_def split: if_splits)

lemma canonical_same_class:
  assumes "number_printer num" and "json_wf v" and "json_wf w"
    and "canonical_json num v @ r = canonical_json num w @ s"
  obtains c where "c \<in> head_class v" "c \<in> head_class w"
proof -
  have "hd (canonical_json num v) = hd (canonical_json num w)"
    using canonical_head [OF assms(1,2)] canonical_head [OF assms(1,3)] assms(4)
    by (metis hd_append2)
  then show ?thesis using that canonical_head [OF assms(1,2)] canonical_head [OF assms(1,3)] by metis
qed

lemma brackets_not_head: "CHR '']'' \<notin> head_class v" "CHR ''}'' \<notin> head_class v"
    "CHR '']'' \<notin> number_chars" "CHR ''}'' \<notin> number_chars"
  by (auto simp: head_class_def number_chars_def split: json.splits)

lemma string_not_bracket: "write_canonical_string k @ t \<noteq> CHR ''}'' # u"
  by (simp add: write_canonical_string_def)

lemma canonical_inj:
  assumes "number_printer num" and "json_wf v" and "json_wf w"
    and "canonical_json num v @ r = canonical_json num w @ s"
    and "(\<exists>n. v = JNumber n) \<longrightarrow> stops r \<and> stops s"
  shows "v = w \<and> r = s"
  using assms
proof (induction num v arbitrary: w r s rule: canonical_json.induct)
  case (1 num)
  then have "w = JNull"
    using canonical_same_class [OF "1.prems"(1-4)] head_class_disjoint by metis
  with 1 show ?case by simp
next
  case (2 num b)
  then have "w = JBool b"
    using canonical_same_class [OF "2.prems"(1-4)] head_class_disjoint by metis
  with 2 show ?case by (simp split: if_splits)
next
  case (3 num n)
  obtain k where w: "w = JNumber k"
    using canonical_same_class [OF "3.prems"(1-4)] head_class_disjoint by metis
  with number_inj [OF "3.prems"(1), of n k r s] 3 show ?case by simp
next
  case (4 num t)
  obtain u where w: "w = JString u"
    using canonical_same_class [OF "4.prems"(1-4)] head_class_disjoint by metis
  with canonical_string_inj [of t r u s] 4 show ?case by simp
next
  case (5 num xs)
  obtain ys where w: "w = JArray ys"
    using canonical_same_class [OF "5.prems"(1-4)] head_class_disjoint by metis
  have dec: "decodable (canonical_json num) (set xs) (set ys)"
    unfolding decodable_def
  proof (intro ballI allI impI)
    fix x y r s
    assume "x \<in> set xs" "y \<in> set ys" "canonical_json num x @ r = canonical_json num y @ s"
      "stops r" "stops s"
    then show "x = y \<and> r = s"
      using "5.prems"(1,2,3) w by (intro "5.IH") auto
  qed
  have head: "canonical_json num x @ t \<noteq> CHR '']'' # u" if "x \<in> set xs \<union> set ys" for x t u
    using that "5.prems"(1,2,3) w by (intro canonical_not_head brackets_not_head) auto
  have "xs = ys \<and> r = s"
    using "5.prems"(4) w head
    by (intro join_inj [OF dec order_refl order_refl brackets_not_head(3)]) auto
  with w show ?case by simp
next
  case (6 num m)
  obtain m' where w: "w = JObject m'"
    using canonical_same_class [OF "6.prems"(1-4)] head_class_disjoint by metis
  have inv: "bt_inv m" "bt_inv m'" using "6.prems"(2,3) w by simp_all
  let ?f = "\<lambda>p. write_canonical_string (fst p) @ '':'' @ canonical_json num (snd p)"
  have dec: "decodable ?f (set m) (set m')"
  proof (rule member_decodable)
    fix p q r s
    assume "p \<in> set m" "q \<in> set m'" "canonical_json num (snd p) @ r = canonical_json num (snd q) @ s"
      "stops r" "stops s"
    then show "snd p = snd q \<and> r = s"
      using "6.prems"(1,2,3) w by (intro "6.IH") auto
  qed
  have "join (map ?f m) @ CHR ''}'' # r = join (map ?f m') @ CHR ''}'' # s"
    using "6.prems"(4) unfolding w canonical_object [OF inv(1)] canonical_object [OF inv(2)] by simp
  then have "m = m' \<and> r = s"
    using string_not_bracket
    by (intro join_inj [OF dec order_refl order_refl brackets_not_head(4)]) auto
  with w show ?case by simp
qed

text \<open>
  C8: two negotiations with the same prologue are the same negotiation: the hub's HELLO, its
  offer and the selected protocol name are all fixed by the bytes, although nothing separates
  the three.
\<close>

theorem prologue_binds_negotiation:
  assumes "number_printer num"
    and "json_wf (JObject hello)" and "json_wf (JObject offer)"
    and "json_wf (JObject hello')" and "json_wf (JObject offer')"
    and "build_prologue num hello offer name = build_prologue num hello' offer' name'"
  shows "hello = hello' \<and> offer = offer' \<and> name = name'"
proof -
  have obj: "JObject a = JObject b \<and> r = s"
    if "json_wf (JObject a)" "json_wf (JObject b)"
      "canonical_json num (JObject a) @ r = canonical_json num (JObject b) @ s" for a b r s
    by (rule canonical_inj [OF assms(1) that]) simp
  have "JObject hello = JObject hello' \<and>
      canonical_json num (JObject offer) @ name = canonical_json num (JObject offer') @ name'"
    using assms(6) unfolding build_prologue_def bytes_of_append [symmetric] bytes_of_inj
    by (rule obj [OF assms(2,4)])
  with obj [OF assms(3,5), of name name'] show ?thesis by simp
qed

definition sample_number_str :: "number \<Rightarrow> string" where
  "sample_number_str n =
     (case n of PosInt i \<Rightarrow> show_nat (unat i) | NegInt i \<Rightarrow> CHR ''-'' # show_nat (unat i)
      | Float f \<Rightarrow> CHR ''.'' # show_nat (unat f))"

lemma sample_number_printer: "number_printer sample_number_str"
proof -
  have hd_digit: "dec_digit (hd (show_nat m))" for m
    using show_nat_digits [of m] by simp
  have ne: "show_nat m \<noteq> CHR ''-'' # t" "show_nat m \<noteq> CHR ''.'' # t" for m t
    using hd_digit [of m] by (auto simp: dec_digit_def)
  have "x = y" if "sample_number_str x = sample_number_str y" for x y
  proof -
    have un: "unat a = unat b \<Longrightarrow> a = b" for a b :: "64 word"
      by (rule word_unat_eq_iff [THEN iffD2])
    show ?thesis
      using that
      by (cases x; cases y)
        (simp_all add: sample_number_str_def show_nat_inj ne ne [symmetric] un)
  qed
  then have "inj sample_number_str" by (rule injI)
  moreover have "sample_number_str n \<noteq> [] \<and> set (sample_number_str n) \<subseteq> number_chars" for n
  proof -
    have "show_nat m \<noteq> [] \<and> set (show_nat m) \<subseteq> number_chars" for m
      using show_nat_digits [of m] by (fastforce simp: dec_digit_def number_chars_def)
    then show ?thesis
      by (cases n) (simp_all add: sample_number_str_def, simp_all add: number_chars_def)
  qed
  ultimately show ?thesis by (auto simp: number_printer_def inj_on_def inj_def)
qed

theorem canonical_order_free_witness:
  "canonical_json sample_number_str (JObject [(''b'', JNull), (''a'', JBool True)]) =
   canonical_json sample_number_str (JObject [(''a'', JBool True), (''b'', JNull)])"
  by (rule canonical_order_free) auto

theorem prologue_binds_negotiation_witness:
  "build_prologue sample_number_str [(''n'', JString ''x'')] [(''v'', JNumber (PosInt 3))] ''Noise'' =
   build_prologue sample_number_str [(''n'', JString ''x'')] [(''v'', JNumber (PosInt 3))] ''Noise''
   \<and> [(''n'', JString ''x'')] = [(''n'', JString ''x'')] \<and> ''Noise'' = ''Noise''"
  using prologue_binds_negotiation [OF sample_number_printer,
      of "[(''n'', JString ''x'')]" "[(''v'', JNumber (PosInt 3))]" "[(''n'', JString ''x'')]"
         "[(''v'', JNumber (PosInt 3))]" "''Noise''" "''Noise''"]
  by (simp add: bt_inv_def number_wf_def)

end
