(* ===== verification/Frame_Link.thy ===== *)
theory Frame_Link
  imports Prelude
begin

text \<open>
  The interface between a message layer and the frames that carry it: a sender that turns a
  message into frames, a receiver that takes frames one at a time and sometimes has a message,
  and the promise that what is sent on a linked pair is what arrives. What a client of the
  layer gets from one message it gets from a whole conversation: \<open>deliver_all\<close>. The session of
  \<open>noise.rs\<close> is the provider (theory \<open>Noise\<close>) and the channel of \<open>transport.rs\<close>, which puts
  hive messages into it, is an extension of it (theory \<open>Channel\<close>).
\<close>

section \<open>Running a sender and a receiver\<close>

text \<open>An error is fatal for the link: nothing after it is sent or received.\<close>

fun send_all :: "('s \<Rightarrow> 'm \<Rightarrow> ('e + 'f list) \<times> 's) \<Rightarrow> 's \<Rightarrow> 'm list \<Rightarrow> ('e + 'f list) \<times> 's" where
  "send_all send s [] = (Inr [], s)"
| "send_all send s (m # ms) =
     (case send s m of
        (Inl e, s') \<Rightarrow> (Inl e, s')
      | (Inr fs, s') \<Rightarrow>
          (case send_all send s' ms of
             (Inl e, s'') \<Rightarrow> (Inl e, s'')
           | (Inr gs, s'') \<Rightarrow> (Inr (fs @ gs), s'')))"

fun recv_all :: "('r \<Rightarrow> 'f \<Rightarrow> ('e + 'm option) \<times> 'r) \<Rightarrow> 'r \<Rightarrow> 'f list \<Rightarrow> ('e + 'm list) \<times> 'r" where
  "recv_all recv r [] = (Inr [], r)"
| "recv_all recv r (f # fs) =
     (case recv r f of
        (Inl e, r') \<Rightarrow> (Inl e, r')
      | (Inr m, r') \<Rightarrow>
          (case recv_all recv r' fs of
             (Inl e, r'') \<Rightarrow> (Inl e, r'')
           | (Inr ms, r'') \<Rightarrow> (Inr (case m of None \<Rightarrow> ms | Some x \<Rightarrow> x # ms), r'')))"

lemma recv_all_append:
  "recv_all recv r (fs @ gs) =
     (case recv_all recv r fs of
        (Inl e, r') \<Rightarrow> (Inl e, r')
      | (Inr ms, r') \<Rightarrow>
          (case recv_all recv r' gs of
             (Inl e, r'') \<Rightarrow> (Inl e, r'')
           | (Inr ns, r'') \<Rightarrow> (Inr (ms @ ns), r'')))"
  by (induction fs arbitrary: r) (auto split: prod.split sum.split option.split)

lemma recv_all_step:
  assumes "recv r f = (Inr None, r')" and "recv_all recv r' fs = (Inr ms, r'')"
  shows "recv_all recv r (f # fs) = (Inr ms, r'')"
  using assms by simp

lemma recv_all_last:
  assumes "recv r f = (Inr (Some m), r')"
  shows "recv_all recv r [f] = (Inr [m], r')"
  using assms by simp

section \<open>The interface\<close>

locale frame_link =
  fixes send :: "'s \<Rightarrow> 'm \<Rightarrow> ('e + 'f list) \<times> 's"
    and recv :: "'r \<Rightarrow> 'f \<Rightarrow> ('e + 'm option) \<times> 'r"
    and linked :: "'s \<Rightarrow> 'r \<Rightarrow> bool"
    and sendable :: "'m \<Rightarrow> bool"
  assumes deliver: "linked s r \<Longrightarrow> sendable m \<Longrightarrow>
    \<exists>fs s' r'. send s m = (Inr fs, s') \<and> recv_all recv r fs = (Inr [m], r') \<and> linked s' r'"
begin

lemma deliver_all:
  "linked s r \<Longrightarrow> \<forall>m \<in> set ms. sendable m \<Longrightarrow>
   \<exists>fs s' r'. send_all send s ms = (Inr fs, s') \<and> recv_all recv r fs = (Inr ms, r') \<and> linked s' r'"
proof (induction ms arbitrary: s r)
  case Nil
  then show ?case by auto
next
  case (Cons m ms)
  then obtain fs s1 r1 where 1: "send s m = (Inr fs, s1)" "recv_all recv r fs = (Inr [m], r1)"
    "linked s1 r1"
    using deliver [of s r m] by auto
  obtain gs s2 r2 where 2: "send_all send s1 ms = (Inr gs, s2)" "recv_all recv r1 gs = (Inr ms, r2)"
    "linked s2 r2"
    using Cons.IH [OF 1(3)] Cons.prems(2) by auto
  then show ?case using 1 by (auto simp: recv_all_append)
qed

end

section \<open>A layer over a link\<close>

text \<open>
  A layer that codes its messages into those of a link: its own state stands over the link's
  (\<open>tx\<close>, \<open>rx\<close>), it wraps the frames the link makes, and it hands up what the link hands up, decoded.
  Such a layer is a link itself.
\<close>

definition over_link :: "('t \<Rightarrow> 's \<Rightarrow> bool) \<Rightarrow> ('u \<Rightarrow> 'r \<Rightarrow> bool) \<Rightarrow> ('s \<Rightarrow> 'r \<Rightarrow> bool) \<Rightarrow> 't \<Rightarrow> 'u \<Rightarrow> bool" where
  "over_link tx rx linked t u \<longleftrightarrow> (\<exists>s r. tx t s \<and> rx u r \<and> linked s r)"

locale coded_link = frame_link send recv linked sendable
  for send :: "'s \<Rightarrow> 'm \<Rightarrow> ('e + 'f list) \<times> 's" and recv :: "'r \<Rightarrow> 'f \<Rightarrow> ('e + 'm option) \<times> 'r"
    and linked :: "'s \<Rightarrow> 'r \<Rightarrow> bool" and sendable :: "'m \<Rightarrow> bool" +
  fixes up_send :: "'t \<Rightarrow> 'a \<Rightarrow> ('e + 'g list) \<times> 't"
    and up_recv :: "'u \<Rightarrow> 'g \<Rightarrow> ('e + 'a option) \<times> 'u"
    and tx :: "'t \<Rightarrow> 's \<Rightarrow> bool" and rx :: "'u \<Rightarrow> 'r \<Rightarrow> bool"
    and code :: "'a \<Rightarrow> 'm" and wrap :: "'f \<Rightarrow> 'g" and up_sendable :: "'a \<Rightarrow> bool"
  assumes code_sendable: "up_sendable a \<Longrightarrow> sendable (code a)"
    and send_over: "tx t s \<Longrightarrow> up_sendable a \<Longrightarrow> send s (code a) = (Inr fs, s') \<Longrightarrow>
      \<exists>t'. up_send t a = (Inr (map wrap fs), t') \<and> tx t' s'"
    and recv_none: "rx u r \<Longrightarrow> recv r f = (Inr None, r') \<Longrightarrow>
      \<exists>u'. up_recv u (wrap f) = (Inr None, u') \<and> rx u' r'"
    and recv_some: "rx u r \<Longrightarrow> up_sendable a \<Longrightarrow> recv r f = (Inr (Some (code a)), r') \<Longrightarrow>
      \<exists>u'. up_recv u (wrap f) = (Inr (Some a), u') \<and> rx u' r'"
begin

lemma recv_all_over:
  "rx u r \<Longrightarrow> \<forall>a \<in> set as. up_sendable a \<Longrightarrow> recv_all recv r fs = (Inr (map code as), r') \<Longrightarrow>
   \<exists>u'. recv_all up_recv u (map wrap fs) = (Inr as, u') \<and> rx u' r'"
proof (induction fs arbitrary: u r as)
  case Nil
  then show ?case by simp
next
  case (Cons f fs)
  obtain m r1 where 1: "recv r f = (Inr m, r1)"
    using Cons.prems(3) by (auto split: prod.splits sum.splits)
  obtain ms where 2: "recv_all recv r1 fs = (Inr ms, r')"
    and ms: "map code as = (case m of None \<Rightarrow> ms | Some x \<Rightarrow> x # ms)"
    using Cons.prems(3) 1 by (auto split: prod.splits sum.splits)
  show ?case
  proof (cases m)
    case None
    obtain u1 where u1: "up_recv u (wrap f) = (Inr None, u1)" "rx u1 r1"
      using recv_none [OF Cons.prems(1), of f r1] 1 None by auto
    from Cons.IH [OF u1(2) Cons.prems(2)] 2 ms None u1(1) show ?thesis by auto
  next
    case (Some x)
    then obtain a as' where as: "as = a # as'" "x = code a" "ms = map code as'"
      using ms by (cases as) auto
    obtain u1 where u1: "up_recv u (wrap f) = (Inr (Some a), u1)" "rx u1 r1"
      using recv_some [OF Cons.prems(1), of a f r1] Cons.prems(2) 1 Some as by auto
    from Cons.IH [OF u1(2), of as'] Cons.prems(2) 2 as u1(1) show ?thesis by auto
  qed
qed

end

sublocale coded_link \<subseteq> up: frame_link up_send up_recv "over_link tx rx linked" up_sendable
proof
  fix t u a
  assume l: "over_link tx rx linked t u" and a: "up_sendable a"
  from l obtain s r where sr: "tx t s" "rx u r" "linked s r" by (auto simp: over_link_def)
  obtain fs s' r' where d: "send s (code a) = (Inr fs, s')" "recv_all recv r fs = (Inr [code a], r')"
    "linked s' r'"
    using deliver [OF sr(3) code_sendable [OF a]] by blast
  obtain t' where t': "up_send t a = (Inr (map wrap fs), t')" "tx t' s'"
    using send_over [OF sr(1) a d(1)] by blast
  obtain u' where "recv_all up_recv u (map wrap fs) = (Inr [a], u')" "rx u' r'"
    using recv_all_over [OF sr(2), of "[a]" fs r'] a d(2) by auto
  with t' d(3) show "\<exists>gs t' u'. up_send t a = (Inr gs, t') \<and> recv_all up_recv u gs = (Inr [a], u')
      \<and> over_link tx rx linked t' u'"
    by (auto simp: over_link_def)
qed

end
