(* ===== verification/Noise.thy ===== *)
theory Noise
  imports Canonical_Json Errors Frame_Link
begin

text \<open>
  \<open>src/src/noise.rs\<close>, the Noise session: the framing that cuts a message into transport messages
  and puts it together again, and the state machine of the handshake. The cryptography is the
  \<open>snow\<close> crate, which is not part of the repository: \<open>snow\<close> is the record of its operations
  the code calls, and the theorems name what they rely on.
\<close>

section \<open>What snow does\<close>

text \<open>
  A cipher state is advanced by every message it encrypts or decrypts. An error is its text.
  A builder step checks its argument, and the handshake state writes and reads messages until
  it is finished.
\<close>

record 'c cipher =
  t_write :: "'c \<Rightarrow> bytes \<Rightarrow> (string + bytes) \<times> 'c"
  t_read :: "'c \<Rightarrow> bytes \<Rightarrow> (string + bytes) \<times> 'c"

record ('b, 'h, 'c) snow = "'c cipher" +
  parse_params :: "string \<Rightarrow> string + 'b"
  b_local_private_key :: "'b \<Rightarrow> bytes \<Rightarrow> string + 'b"
  b_prologue :: "'b \<Rightarrow> bytes \<Rightarrow> string + 'b"
  b_psk :: "'b \<Rightarrow> nat \<Rightarrow> bytes \<Rightarrow> string + 'b"
  b_remote_public_key :: "'b \<Rightarrow> bytes \<Rightarrow> string + 'b"
  b_build_initiator :: "'b \<Rightarrow> string + 'h"
  h_write_message :: "'h \<Rightarrow> bytes \<Rightarrow> (string + bytes) \<times> 'h"
  h_read_message :: "'h \<Rightarrow> bytes \<Rightarrow> (string + bytes) \<times> 'h"
  h_is_finished :: "'h \<Rightarrow> bool"
  h_remote_static :: "'h \<Rightarrow> bytes option"
  h_into_transport :: "'h \<Rightarrow> string + 'c"

text \<open>The \<open>hex\<close> crate.\<close>

record hex_lib =
  hex_encode :: "bytes \<Rightarrow> string"
  hex_decode :: "string \<Rightarrow> bytes option"

section \<open>Framing\<close>

definition FRAME_JSON :: u8 where "FRAME_JSON = 0x00"
definition FRAME_BINARY :: u8 where "FRAME_BINARY = 0x01"
definition FRAME_FIRST_JSON :: u8 where "FRAME_FIRST_JSON = 0x02"
definition FRAME_FIRST_BINARY :: u8 where "FRAME_FIRST_BINARY = 0x03"
definition FRAME_MORE :: u8 where "FRAME_MORE = 0x04"
definition FRAME_LAST :: u8 where "FRAME_LAST = 0x05"

lemmas frame_markers =
  FRAME_JSON_def FRAME_BINARY_def FRAME_FIRST_JSON_def FRAME_FIRST_BINARY_def FRAME_MORE_def
  FRAME_LAST_def

definition NOISE_CHUNK_SIZE :: nat where "NOISE_CHUNK_SIZE = 65000"
definition NOISE_MAX_REASSEMBLY :: nat where "NOISE_MAX_REASSEMBLY = 32 * 1024 * 1024"

record reassembly_buffer =
  r_buffer :: bytes
  r_is_json :: bool

record 'c noise_session =
  s_transport :: 'c
  s_reassembly :: "reassembly_buffer option"
  s_remote_static_key :: "string option"

datatype noise_frame = Message bytes bool | Partial

definition encrypt_one ::
    "('c, 'z) cipher_scheme \<Rightarrow> 'c \<Rightarrow> u8 \<Rightarrow> bytes \<Rightarrow> bytes res \<times> 'c" where
  "encrypt_one lib transport marker body =
     (case t_write lib transport (marker # body) of
        (Inl err, t) \<Rightarrow> (Inl (Connection (''Noise transport encryption failed: '' @ err)), t)
      | (Inr buffer, t) \<Rightarrow> (Inr buffer, t))"

text \<open>The loop over the chunks of a message that does not fit in one.\<close>

definition chunk_marker :: "u8 \<Rightarrow> nat \<Rightarrow> nat \<Rightarrow> u8" where
  "chunk_marker first offset last_offset =
     (if offset = 0 then first else if offset \<ge> last_offset then FRAME_LAST else FRAME_MORE)"

function encrypt_chunks ::
    "('c, 'z) cipher_scheme \<Rightarrow> 'c \<Rightarrow> u8 \<Rightarrow> bytes \<Rightarrow> nat \<Rightarrow> bytes list res \<times> 'c" where
  "encrypt_chunks lib transport first payload offset =
     (if offset < length payload then
        let finish = min (offset + NOISE_CHUNK_SIZE) (length payload);
            marker = chunk_marker first offset (length payload - NOISE_CHUNK_SIZE);
            body = drop offset (take finish payload)
        in case encrypt_one lib transport marker body of
             (Inl e, t) \<Rightarrow> (Inl e, t)
           | (Inr frame, t) \<Rightarrow>
               (case encrypt_chunks lib t first payload (offset + NOISE_CHUNK_SIZE) of
                  (Inl e, t') \<Rightarrow> (Inl e, t')
                | (Inr frames, t') \<Rightarrow> (Inr (frame # frames), t'))
      else (Inr [], transport))"
  by pat_completeness auto
termination
  by (relation "measure (\<lambda>(lib, transport, first, payload, offset). length payload - offset)")
    (auto simp: NOISE_CHUNK_SIZE_def)

declare encrypt_chunks.simps [simp del]

definition encrypt_message ::
    "('c, 'z) cipher_scheme \<Rightarrow> 'c noise_session \<Rightarrow> bytes \<Rightarrow> bool
     \<Rightarrow> bytes list res \<times> 'c noise_session" where
  "encrypt_message lib s payload is_json =
     (let (single, first) = (if is_json then (FRAME_JSON, FRAME_FIRST_JSON)
                             else (FRAME_BINARY, FRAME_FIRST_BINARY))
      in if length payload \<le> NOISE_CHUNK_SIZE
         then case encrypt_one lib (s_transport s) single payload of
                (r, t) \<Rightarrow> (res_bind r (\<lambda>f. Inr [f]), s\<lparr>s_transport := t\<rparr>)
         else case encrypt_chunks lib (s_transport s) first payload 0 of
                (r, t) \<Rightarrow> (r, s\<lparr>s_transport := t\<rparr>))"

text \<open>Drop the whole buffer once it passes the cap.\<close>

definition guard_reassembly_cap ::
    "reassembly_buffer option \<Rightarrow> unit res \<times> reassembly_buffer option" where
  "guard_reassembly_cap opn =
     (let buffered = (case opn of None \<Rightarrow> 0 | Some current \<Rightarrow> length (r_buffer current))
      in if buffered \<le> NOISE_MAX_REASSEMBLY then (Inr (), opn)
         else (Inl (Connection (''chunked reassembly exceeded the '' @ show_nat NOISE_MAX_REASSEMBLY
                 @ '' byte cap ('' @ show_nat buffered @ '' buffered); dropping the message'')), None))"

text \<open>What a decrypted frame does to the open message: the \<open>match\<close> on its marker.\<close>

definition receive_plain ::
    "u8 \<Rightarrow> bytes \<Rightarrow> reassembly_buffer option \<Rightarrow> noise_frame res \<times> reassembly_buffer option" where
  "receive_plain marker body opn =
     (if marker = FRAME_JSON \<or> marker = FRAME_BINARY then
        (case opn of
           Some stale \<Rightarrow> (Inl (Connection (''a complete frame arrived while ''
             @ show_nat (length (r_buffer stale))
             @ '' bytes of a chunked message were still buffered'')), None)
         | None \<Rightarrow> (Inr (Message body (marker = FRAME_JSON)), None))
      else if marker = FRAME_FIRST_JSON \<or> marker = FRAME_FIRST_BINARY then
        (case opn of
           Some stale \<Rightarrow> (Inl (Connection (''a new chunked message started while ''
             @ show_nat (length (r_buffer stale))
             @ '' bytes of a previous one were still buffered'')), None)
         | None \<Rightarrow>
             (case guard_reassembly_cap
                     (Some \<lparr>r_buffer = body, r_is_json = (marker = FRAME_FIRST_JSON)\<rparr>) of
                (Inl e, opn') \<Rightarrow> (Inl e, opn')
              | (Inr _, opn') \<Rightarrow> (Inr Partial, opn')))
      else if marker = FRAME_MORE then
        (case opn of
           None \<Rightarrow> (Inl (Connection ''a middle chunk arrived with no chunked message open''), None)
         | Some current \<Rightarrow>
             (case guard_reassembly_cap (Some (current\<lparr>r_buffer := r_buffer current @ body\<rparr>)) of
                (Inl e, opn') \<Rightarrow> (Inl e, opn')
              | (Inr _, opn') \<Rightarrow> (Inr Partial, opn')))
      else if marker = FRAME_LAST then
        (case opn of
           None \<Rightarrow> (Inl (Connection ''a final chunk arrived with no chunked message open''), None)
         | Some current \<Rightarrow>
             (case guard_reassembly_cap (Some (current\<lparr>r_buffer := r_buffer current @ body\<rparr>)) of
                (Inl e, opn') \<Rightarrow> (Inl e, opn')
              | (Inr _, opn') \<Rightarrow>
                  (case opn' of
                     Some finished \<Rightarrow> (Inr (Message (r_buffer finished) (r_is_json finished)), None)
                   | None \<Rightarrow> (Inl (Connection ''checked above''), None))))
      else (Inl (Connection (''unknown v3 frame marker 0x'' @ hex_byte (unat marker))), opn))"

definition decrypt_frame ::
    "('c, 'z) cipher_scheme \<Rightarrow> 'c noise_session \<Rightarrow> bytes \<Rightarrow> noise_frame res \<times> 'c noise_session" where
  "decrypt_frame lib s data =
     (case t_read lib (s_transport s) data of
        (Inl err, t) \<Rightarrow>
          (Inl (Connection (''Noise transport message rejected (tampered, replayed or out-of-order): ''
                            @ err)), s\<lparr>s_transport := t\<rparr>)
      | (Inr plaintext, t) \<Rightarrow>
          (case plaintext of
             [] \<Rightarrow> (Inl (Connection ''empty Noise transport message''), s\<lparr>s_transport := t\<rparr>)
           | marker # body \<Rightarrow>
               (case receive_plain marker body (s_reassembly s) of
                  (r, opn) \<Rightarrow> (r, s\<lparr>s_transport := t, s_reassembly := opn\<rparr>))))"

section \<open>Delivery\<close>

text \<open>
  What \<open>snow\<close> documents of two transport states that came out of one handshake: a message of at
  most 65519 bytes (65535 less the tag) is encrypted, and decrypting it next gives it back.
\<close>

definition in_sync ::
    "('c, 'z) cipher_scheme \<Rightarrow> ('d, 'y) cipher_scheme \<Rightarrow> ('c \<Rightarrow> 'd \<Rightarrow> bool) \<Rightarrow> bool" where
  "in_sync la lb R \<longleftrightarrow>
     (\<forall>a b p. R a b \<longrightarrow> length p \<le> 65519 \<longrightarrow>
        (\<exists>ct a' b'. t_write la a p = (Inr ct, a') \<and> t_read lb b ct = (Inr p, b') \<and> R a' b'))"

text \<open>A received frame as the client of the session sees it: a message, or nothing yet.\<close>

definition recv_frame ::
    "('c, 'z) cipher_scheme \<Rightarrow> 'c noise_session \<Rightarrow> bytes
     \<Rightarrow> (thalovant_error + (bytes \<times> bool) option) \<times> 'c noise_session" where
  "recv_frame lib s data =
     (case decrypt_frame lib s data of
        (Inl e, s') \<Rightarrow> (Inl e, s')
      | (Inr Partial, s') \<Rightarrow> (Inr None, s')
      | (Inr (Message payload is_json), s') \<Rightarrow> (Inr (Some (payload, is_json)), s'))"

lemma sync_one:
  assumes "in_sync la lb R" and "R a b" and "length body \<le> NOISE_CHUNK_SIZE"
  obtains ct a' b' where "encrypt_one la a marker body = (Inr ct, a')"
    and "t_read lb b ct = (Inr (marker # body), b')" and "R a' b'"
proof -
  have "length (marker # body) \<le> 65519" using assms(3) by (simp add: NOISE_CHUNK_SIZE_def)
  then obtain ct a' b' where "t_write la a (marker # body) = (Inr ct, a')"
    "t_read lb b ct = (Inr (marker # body), b')" "R a' b'"
    using assms(1,2) unfolding in_sync_def by blast
  then show ?thesis using that by (simp add: encrypt_one_def)
qed

lemma markers_distinct [simp]:
  "FRAME_MORE \<noteq> FRAME_JSON" "FRAME_MORE \<noteq> FRAME_BINARY" "FRAME_MORE \<noteq> FRAME_FIRST_JSON"
  "FRAME_MORE \<noteq> FRAME_FIRST_BINARY" "FRAME_LAST \<noteq> FRAME_JSON" "FRAME_LAST \<noteq> FRAME_BINARY"
  "FRAME_LAST \<noteq> FRAME_FIRST_JSON" "FRAME_LAST \<noteq> FRAME_FIRST_BINARY" "FRAME_LAST \<noteq> FRAME_MORE"
  "FRAME_FIRST_JSON \<noteq> FRAME_JSON" "FRAME_FIRST_JSON \<noteq> FRAME_BINARY" "FRAME_FIRST_BINARY \<noteq> FRAME_JSON"
  "FRAME_FIRST_BINARY \<noteq> FRAME_BINARY" "FRAME_FIRST_BINARY \<noteq> FRAME_FIRST_JSON"
  "FRAME_BINARY \<noteq> FRAME_JSON"
  by (simp_all add: frame_markers)

lemmas markers_distinct' [simp] = markers_distinct [symmetric]

lemma guard_ok:
  "length (r_buffer b) \<le> NOISE_MAX_REASSEMBLY \<Longrightarrow> guard_reassembly_cap (Some b) = (Inr (), Some b)"
  by (simp add: guard_reassembly_cap_def)

text \<open>The chunks after the first: the buffer grows to the whole message, which the last one completes.\<close>

lemma deliver_chunks:
  assumes sync: "in_sync la lb R" and cap: "length payload \<le> NOISE_MAX_REASSEMBLY"
  shows "R a (s_transport s) \<Longrightarrow> 0 < offset \<Longrightarrow> offset < length payload \<Longrightarrow>
    s_reassembly s = Some \<lparr>r_buffer = take offset payload, r_is_json = j\<rparr> \<Longrightarrow>
    \<exists>fs a' s'. encrypt_chunks la a first payload offset = (Inr fs, a')
      \<and> recv_all (recv_frame lb) s fs = (Inr [(payload, j)], s')
      \<and> R a' (s_transport s') \<and> s_reassembly s' = None"
proof (induction "length payload - offset" arbitrary: a s offset rule: less_induct)
  case less
  let ?upto = "min (offset + NOISE_CHUNK_SIZE) (length payload)"
  define body where "body = drop offset (take ?upto payload)"
  have grow: "take offset payload @ body = take ?upto payload"
    by (simp add: body_def drop_take take_add [symmetric] min_def)
  have small: "length body \<le> NOISE_CHUNK_SIZE" by (simp add: body_def)
  have len: "length (take ?upto payload) \<le> NOISE_MAX_REASSEMBLY" using cap by simp
  show ?case
  proof (cases "offset + NOISE_CHUNK_SIZE \<ge> length payload")
    case True
    then have m: "chunk_marker first offset (length payload - NOISE_CHUNK_SIZE) = FRAME_LAST"
      using less.prems(2) by (simp add: chunk_marker_def le_diff_conv)
    obtain ct a' b' where e: "encrypt_one la a FRAME_LAST body = (Inr ct, a')"
      and d: "t_read lb (s_transport s) ct = (Inr (FRAME_LAST # body), b')" and R: "R a' b'"
      using sync_one [OF sync less.prems(1) small] by metis
    have "encrypt_chunks la a' first payload (offset + NOISE_CHUNK_SIZE) = (Inr [], a')"
      using True by (subst encrypt_chunks.simps) simp
    then have "encrypt_chunks la a first payload offset = (Inr [ct], a')"
      using less.prems(3) e m by (subst encrypt_chunks.simps) (simp add: Let_def body_def)
    moreover have "recv_frame lb s ct =
        (Inr (Some (payload, j)), s\<lparr>s_transport := b', s_reassembly := None\<rparr>)"
      using less.prems(4) grow len True
      by (simp add: recv_frame_def decrypt_frame_def d receive_plain_def guard_ok)
    ultimately show ?thesis using R by auto
  next
    case False
    then have m: "chunk_marker first offset (length payload - NOISE_CHUNK_SIZE) = FRAME_MORE"
      using less.prems(2) by (simp add: chunk_marker_def le_diff_conv)
    obtain ct a' b' where e: "encrypt_one la a FRAME_MORE body = (Inr ct, a')"
      and d: "t_read lb (s_transport s) ct = (Inr (FRAME_MORE # body), b')" and R: "R a' b'"
      using sync_one [OF sync less.prems(1) small] by metis
    let ?s' = "s\<lparr>s_transport := b',
      s_reassembly := Some \<lparr>r_buffer = take (offset + NOISE_CHUNK_SIZE) payload, r_is_json = j\<rparr>\<rparr>"
    have r: "recv_frame lb s ct = (Inr None, ?s')"
      using less.prems(4) grow len False
      by (simp add: recv_frame_def decrypt_frame_def d receive_plain_def guard_ok)
    have step: "length payload - (offset + NOISE_CHUNK_SIZE) < length payload - offset"
      using less.prems(3) by (simp add: NOISE_CHUNK_SIZE_def)
    obtain fs a'' s'' where rest:
      "encrypt_chunks la a' first payload (offset + NOISE_CHUNK_SIZE) = (Inr fs, a'')"
      "recv_all (recv_frame lb) ?s' fs = (Inr [(payload, j)], s'')"
      "R a'' (s_transport s'')" "s_reassembly s'' = None"
      using less.hyps [of "offset + NOISE_CHUNK_SIZE" a' ?s'] R False less.prems(2,3) step
      by auto
    have "encrypt_chunks la a first payload offset = (Inr (ct # fs), a'')"
      using less.prems(3) e m rest(1) by (subst encrypt_chunks.simps) (simp add: Let_def body_def)
    moreover have "recv_all (recv_frame lb) s (ct # fs) = (Inr [(payload, j)], s'')"
      by (rule recv_all_step [OF r rest(2)])
    ultimately show ?thesis using rest(3,4) by blast
  qed
qed

lemma deliver_message:
  assumes sync: "in_sync la lb R" and R: "R (s_transport s) (s_transport r)"
    and none: "s_reassembly r = None" and cap: "length payload \<le> NOISE_MAX_REASSEMBLY"
  shows "\<exists>fs s' r'. encrypt_message la s payload j = (Inr fs, s')
      \<and> recv_all (recv_frame lb) r fs = (Inr [(payload, j)], r')
      \<and> R (s_transport s') (s_transport r') \<and> s_reassembly r' = None"
proof (cases "length payload \<le> NOISE_CHUNK_SIZE")
  case True
  let ?m = "if j then FRAME_JSON else FRAME_BINARY"
  obtain ct a' b' where e: "encrypt_one la (s_transport s) ?m payload = (Inr ct, a')"
    and d: "t_read lb (s_transport r) ct = (Inr (?m # payload), b')" and R': "R a' b'"
    using sync_one [OF sync R True] by metis
  have "encrypt_message la s payload j = (Inr [ct], s\<lparr>s_transport := a'\<rparr>)"
    using True e by (simp add: encrypt_message_def split: if_splits)
  moreover have "recv_frame lb r ct = (Inr (Some (payload, j)), r\<lparr>s_transport := b', s_reassembly := None\<rparr>)"
    using none d by (simp add: recv_frame_def decrypt_frame_def receive_plain_def split: if_splits)
  ultimately show ?thesis using R' by auto
next
  case False
  let ?m = "if j then FRAME_FIRST_JSON else FRAME_FIRST_BINARY"
  let ?body = "take NOISE_CHUNK_SIZE payload"
  obtain ct a' b' where e: "encrypt_one la (s_transport s) ?m ?body = (Inr ct, a')"
    and d: "t_read lb (s_transport r) ct = (Inr (?m # ?body), b')" and R': "R a' b'"
    using sync_one [OF sync R, of ?body] by (metis length_take min.cobounded2)
  let ?r' = "r\<lparr>s_transport := b', s_reassembly := Some \<lparr>r_buffer = ?body, r_is_json = j\<rparr>\<rparr>"
  have "length ?body \<le> NOISE_MAX_REASSEMBLY" using cap by simp
  then have first: "recv_frame lb r ct = (Inr None, ?r')"
    using none d
    by (simp add: recv_frame_def decrypt_frame_def receive_plain_def guard_reassembly_cap_def
        split: if_splits)
  obtain fs a'' s'' where rest:
    "encrypt_chunks la a' ?m payload NOISE_CHUNK_SIZE = (Inr fs, a'')"
    "recv_all (recv_frame lb) ?r' fs = (Inr [(payload, j)], s'')"
    "R a'' (s_transport s'')" "s_reassembly s'' = None"
    using deliver_chunks [OF sync cap, of a' ?r' NOISE_CHUNK_SIZE j ?m] R' False
    by (auto simp: NOISE_CHUNK_SIZE_def)
  have "encrypt_chunks la (s_transport s) ?m payload 0 = (Inr (ct # fs), a'')"
    using False e rest(1)
    by (subst encrypt_chunks.simps) (cases payload; simp add: Let_def chunk_marker_def)
  then have "encrypt_message la s payload j = (Inr (ct # fs), s\<lparr>s_transport := a''\<rparr>)"
    using False by (simp add: encrypt_message_def split: if_splits)
  moreover have "recv_all (recv_frame lb) r (ct # fs) = (Inr [(payload, j)], s'')"
    by (rule recv_all_step [OF first rest(2)])
  ultimately show ?thesis using rest(3,4) by auto
qed

definition linked_sessions ::
    "('c, 'z) cipher_scheme \<Rightarrow> ('d, 'y) cipher_scheme \<Rightarrow> ('c \<Rightarrow> 'd \<Rightarrow> bool)
     \<Rightarrow> 'c noise_session \<Rightarrow> 'd noise_session \<Rightarrow> bool" where
  "linked_sessions la lb R s r \<longleftrightarrow>
     in_sync la lb R \<and> R (s_transport s) (s_transport r) \<and> s_reassembly r = None"

definition within_cap :: "bytes \<times> bool \<Rightarrow> bool" where
  "within_cap m \<longleftrightarrow> length (fst m) \<le> NOISE_MAX_REASSEMBLY"

interpretation noise_link: frame_link "\<lambda>s m. encrypt_message la s (fst m) (snd m)" "recv_frame lb"
    "linked_sessions la lb R" within_cap for la lb R
proof
  fix s r m
  assume "linked_sessions la lb R s r" "within_cap m"
  then show "\<exists>fs s' r'. encrypt_message la s (fst m) (snd m) = (Inr fs, s')
      \<and> recv_all (recv_frame lb) r fs = (Inr [m], r') \<and> linked_sessions la lb R s' r'"
    using deliver_message [of la lb R s r "fst m" "snd m"]
    by (auto simp: linked_sessions_def within_cap_def)
qed

text \<open>
  C2: whatever a client sends over a session is what the other end's session gives back, in
  order and with its kind: any number of messages of at most \<open>NOISE_MAX_REASSEMBLY\<close> (32 MiB) each,
  cut into as many frames as they need, with nothing left open at the end. The bound is the reader's;
  the writer has none, and what is longer is encrypted but not put together.
\<close>

theorem session_delivers:
  assumes "in_sync la lb R" and "R (s_transport s) (s_transport r)" and "s_reassembly r = None"
    and "\<forall>m \<in> set msgs. length (fst m) \<le> NOISE_MAX_REASSEMBLY"
  shows "\<exists>frames s' r'.
      send_all (\<lambda>s m. encrypt_message la s (fst m) (snd m)) s msgs = (Inr frames, s')
      \<and> recv_all (recv_frame lb) r frames = (Inr msgs, r')
      \<and> R (s_transport s') (s_transport r') \<and> s_reassembly r' = None"
proof -
  have "linked_sessions la lb R s r" "\<forall>m \<in> set msgs. within_cap m"
    using assms by (simp_all add: linked_sessions_def within_cap_def)
  from noise_link.deliver_all [OF this] show ?thesis
    by (auto simp: linked_sessions_def)
qed

text \<open>A cipher that only counts: enough to see the hypotheses hold.\<close>

definition counting_cipher :: "nat cipher" where
  "counting_cipher =
     \<lparr>t_write = (\<lambda>n p. (Inr (word_of_nat n # p), Suc n)),
      t_read = (\<lambda>n ct. (case ct of [] \<Rightarrow> (Inl ''empty'', n)
                       | k # p \<Rightarrow> if k = word_of_nat n then (Inr p, Suc n) else (Inl ''replay'', n)))\<rparr>"

lemma counting_cipher_sync: "in_sync counting_cipher counting_cipher (=)"
  by (simp add: in_sync_def counting_cipher_def)

theorem session_delivers_witness:
  "\<exists>frames s' r'. send_all (\<lambda>s m. encrypt_message counting_cipher s (fst m) (snd m))
       \<lparr>s_transport = 0, s_reassembly = None, s_remote_static_key = None\<rparr>
       [([1, 2], True), ([3], False)] = (Inr frames, s')
     \<and> recv_all (recv_frame counting_cipher)
       \<lparr>s_transport = 0, s_reassembly = None, s_remote_static_key = None\<rparr> frames
       = (Inr [([1, 2], True), ([3], False)], r')
     \<and> s_transport s' = s_transport r' \<and> s_reassembly r' = None"
  by (rule session_delivers [OF counting_cipher_sync]) (simp_all add: NOISE_MAX_REASSEMBLY_def)

section \<open>Bounded reassembly\<close>

definition opn_bounded :: "reassembly_buffer option \<Rightarrow> bool" where
  "opn_bounded opn \<longleftrightarrow> (\<forall>b. opn = Some b \<longrightarrow> length (r_buffer b) \<le> NOISE_MAX_REASSEMBLY)"

fun decrypt_frames ::
    "('c, 'z) cipher_scheme \<Rightarrow> 'c noise_session \<Rightarrow> bytes list \<Rightarrow> noise_frame res list \<times> 'c noise_session"
  where
  "decrypt_frames lib s [] = ([], s)"
| "decrypt_frames lib s (d # ds) =
     (case decrypt_frame lib s d of
        (r, s') \<Rightarrow> (case decrypt_frames lib s' ds of (rs, s'') \<Rightarrow> (r # rs, s'')))"

lemma guard_bounded:
  "guard_reassembly_cap opn = (r, opn') \<Longrightarrow> opn_bounded opn' \<and> (\<forall>e. r = Inl e \<longrightarrow> opn' = None)"
  by (auto simp: guard_reassembly_cap_def opn_bounded_def Let_def split: option.splits if_splits)

lemma receive_plain_bounded:
  "opn_bounded opn \<Longrightarrow> receive_plain marker body opn = (r, opn') \<Longrightarrow> opn_bounded opn'"
  by (auto simp: receive_plain_def split: if_splits option.splits prod.splits sum.splits
      dest: guard_bounded) (simp_all add: opn_bounded_def)

lemma decrypt_frame_bounded:
  "opn_bounded (s_reassembly s) \<Longrightarrow> opn_bounded (s_reassembly (snd (decrypt_frame lib s d)))"
  by (auto split: prod.splits sum.splits list.splits simp: decrypt_frame_def
      dest: receive_plain_bounded)

lemma decrypt_frames_bounded:
  "opn_bounded (s_reassembly s) \<Longrightarrow> opn_bounded (s_reassembly (snd (decrypt_frames lib s ds)))"
proof (induction ds arbitrary: s)
  case Nil
  then show ?case by simp
next
  case (Cons d ds)
  have "opn_bounded (s_reassembly (snd (decrypt_frame lib s d)))"
    using Cons.prems by (rule decrypt_frame_bounded)
  from Cons.IH [OF this] show ?case by (simp add: split_def)
qed

lemma receive_plain_frame_error:
  "receive_plain marker body opn = (Inl e, opn') \<Longrightarrow> opn' = None \<or> opn' = opn"
  by (auto simp: receive_plain_def split: if_splits option.splits prod.splits sum.splits
      dest: guard_bounded)

text \<open>
  C7: whatever bytes arrive, in whatever order and whatever the cipher makes of them, the buffer
  of an open message never holds more than the cap after a frame, and a frame that is refused
  never adds to it: the buffer is released or left as it was.
\<close>

theorem reassembly_bounded:
  assumes "opn_bounded (s_reassembly s)"
  shows "opn_bounded (s_reassembly (snd (decrypt_frames lib s ds)))
    \<and> (fst (decrypt_frame lib s d) = Inl e \<longrightarrow>
         s_reassembly (snd (decrypt_frame lib s d)) \<in> {None, s_reassembly s})"
proof
  show "opn_bounded (s_reassembly (snd (decrypt_frames lib s ds)))"
    using assms by (rule decrypt_frames_bounded)
  show "fst (decrypt_frame lib s d) = Inl e \<longrightarrow>
      s_reassembly (snd (decrypt_frame lib s d)) \<in> {None, s_reassembly s}"
    by (auto simp: decrypt_frame_def split: prod.splits sum.splits list.splits
        dest: receive_plain_frame_error)
qed

theorem reassembly_bounded_witness:
  "opn_bounded (s_reassembly (snd (decrypt_frames counting_cipher
     \<lparr>s_transport = 0, s_reassembly = None, s_remote_static_key = None\<rparr> [[0, 2, 7], [9]])))
   \<and> s_reassembly (snd (decrypt_frame counting_cipher
       \<lparr>s_transport = 0, s_reassembly = None, s_remote_static_key = None\<rparr> [0, 4])) \<in> {None, None}"
proof -
  let ?s = "\<lparr>s_transport = 0, s_reassembly = None, s_remote_static_key = None\<rparr> :: nat noise_session"
  have "opn_bounded (s_reassembly ?s)" by (simp add: opn_bounded_def)
  moreover have "fst (decrypt_frame counting_cipher ?s [0, 4]) =
      Inl (Connection ''a middle chunk arrived with no chunked message open'')"
    by (simp add: decrypt_frame_def counting_cipher_def receive_plain_def frame_markers)
  ultimately show ?thesis
    using reassembly_bounded [of ?s counting_cipher "[[0, 2, 7], [9]]" "[0, 4]"] by fastforce
qed

end
