(* ===== verification/Noise_Handshake.thy ===== *)
theory Noise_Handshake
  imports Noise
begin

text \<open>
  \<open>src/src/noise.rs\<close>, \<open>NoiseHandshake\<close>: the initiator's side of a v3 handshake, from the builder to
  the session it ends in. The builder and the handshake state are \<open>snow\<close>'s, the fields of
  \<open>snow\<close>; what is here is the order the code calls them in, what it checks of its arguments and
  which of its own fields each step fills.
\<close>

section \<open>The handshake\<close>

record ('h, 'c) noise_handshake =
  hs_state :: "'h option"
  hs_transport :: "'c option"
  hs_pattern :: string
  hs_remote_static_key :: "string option"

definition PSK_LEN :: nat where "PSK_LEN = 32"

definition KK_NEEDS_PIN :: thalovant_error where
  "KK_NEEDS_PIN = Connection ''KKpsk0 needs a pinned 32-byte hub static key''"

text \<open>\<open>map_err\<close> with a text before the library's own.\<close>

definition lib_err :: "string \<Rightarrow> string + 'a \<Rightarrow> 'a res" where
  "lib_err before r = (case r of Inl err \<Rightarrow> Inl (Connection (before @ err)) | Inr x \<Rightarrow> Inr x)"

lemma lib_err_simps [simp, res_simps]:
  "lib_err t (Inl err) = Inl (Connection (t @ err))" "lib_err t (Inr x) = Inr x"
  by (simp_all add: lib_err_def)

lemma lib_err_eq_Inr [simp]: "lib_err t r = Inr x \<longleftrightarrow> r = Inr x"
  by (cases r) auto

definition psk_index :: "string \<Rightarrow> nat res" where
  "psk_index pattern =
     (if pattern = NOISE_PATTERN_XX then Inr 2
      else if pattern = NOISE_PATTERN_KK then Inr 0
      else Inl (Connection (''unsupported Noise pattern '' @ pattern)))"

text \<open>The hub's key under \<open>KKpsk0\<close>: the pin, hex decoded, if it has 32 bytes.\<close>

definition pinned_key_bytes :: "hex_lib \<Rightarrow> string option \<Rightarrow> bytes res" where
  "pinned_key_bytes hex pinned =
     (let hex_key = (case pinned of None \<Rightarrow> [] | Some k \<Rightarrow> k)
      in case hex_decode hex hex_key of
           None \<Rightarrow> Inl KK_NEEDS_PIN
         | Some remote \<Rightarrow> if length remote \<noteq> 32 then Inl KK_NEEDS_PIN else Inr remote)"

definition handshake_new ::
    "('b, 'h, 'c) snow \<Rightarrow> hex_lib \<Rightarrow> string \<Rightarrow> string \<Rightarrow> bytes \<Rightarrow> bytes \<Rightarrow> bytes \<Rightarrow> string option
     \<Rightarrow> ('h, 'c) noise_handshake res" where
  "handshake_new lib hex pattern suite psk prologue static_key pinned =
     (let name = noise_protocol_name pattern suite;
          setup = ''could not configure '' @ name @ '': ''
      in res_bind (lib_err (''unsupported Noise protocol '' @ name @ '': '') (parse_params lib name)) (\<lambda>params.
         res_bind (psk_index pattern) (\<lambda>index.
         res_bind (lib_err setup (b_local_private_key lib params static_key)) (\<lambda>b.
         res_bind (lib_err setup (b_prologue lib b prologue)) (\<lambda>b.
         res_bind (lib_err setup (b_psk lib b index psk)) (\<lambda>b.
         res_bind (if pattern = NOISE_PATTERN_KK
                   then res_bind (pinned_key_bytes hex pinned) (\<lambda>remote.
                          lib_err setup (b_remote_public_key lib b remote))
                   else Inr b) (\<lambda>b.
         res_bind (lib_err (''could not start '' @ name @ '': '') (b_build_initiator lib b)) (\<lambda>h.
           Inr \<lparr>hs_state = Some h, hs_transport = None, hs_pattern = pattern,
                hs_remote_static_key = None\<rparr>))))))))"

text \<open>
  Into transport mode once the pattern has run its course. The state is taken first, so a
  transition that fails leaves a handshake that is neither running nor finished.
\<close>

definition maybe_finish ::
    "('b, 'h, 'c) snow \<Rightarrow> hex_lib \<Rightarrow> ('h, 'c) noise_handshake \<Rightarrow> unit res \<times> ('h, 'c) noise_handshake" where
  "maybe_finish lib hex hs =
     (case hs_state hs of
        None \<Rightarrow> (Inr (), hs)
      | Some state \<Rightarrow>
          if \<not> h_is_finished lib state then (Inr (), hs)
          else (let hs' = hs\<lparr>hs_state := None,
                             hs_remote_static_key := map_option (hex_encode hex) (h_remote_static lib state)\<rparr>
                in case h_into_transport lib state of
                     Inl err \<Rightarrow> (Inl (Connection (''could not enter Noise transport mode: '' @ err)), hs')
                   | Inr t \<Rightarrow> (Inr (), hs'\<lparr>hs_transport := Some t\<rparr>)))"

definition ALREADY_FINISHED :: thalovant_error where
  "ALREADY_FINISHED = Connection ''the Noise handshake has already finished''"

text \<open>What a message read or written does next: the buffer is given back unless finishing fails.\<close>

definition finish_message ::
    "('b, 'h, 'c) snow \<Rightarrow> hex_lib \<Rightarrow> bytes \<Rightarrow> ('h, 'c) noise_handshake
     \<Rightarrow> bytes res \<times> ('h, 'c) noise_handshake" where
  "finish_message lib hex buffer hs =
     (case maybe_finish lib hex hs of (r, hs') \<Rightarrow> (res_bind r (\<lambda>_. Inr buffer), hs'))"

definition write_message ::
    "('b, 'h, 'c) snow \<Rightarrow> hex_lib \<Rightarrow> ('h, 'c) noise_handshake \<Rightarrow> bytes
     \<Rightarrow> bytes res \<times> ('h, 'c) noise_handshake" where
  "write_message lib hex hs data =
     (case hs_state hs of
        None \<Rightarrow> (Inl ALREADY_FINISHED, hs)
      | Some state \<Rightarrow>
          (case h_write_message lib state data of
             (Inl err, state') \<Rightarrow>
               (Inl (Connection (''Noise handshake write failed: '' @ err)), hs\<lparr>hs_state := Some state'\<rparr>)
           | (Inr buffer, state') \<Rightarrow> finish_message lib hex buffer (hs\<lparr>hs_state := Some state'\<rparr>)))"

definition AUTH_FAILED :: string where
  "AUTH_FAILED = ''Noise handshake authentication failed (wrong password or tampered negotiation): ''"

definition read_message ::
    "('b, 'h, 'c) snow \<Rightarrow> hex_lib \<Rightarrow> ('h, 'c) noise_handshake \<Rightarrow> bytes
     \<Rightarrow> bytes res \<times> ('h, 'c) noise_handshake" where
  "read_message lib hex hs data =
     (case hs_state hs of
        None \<Rightarrow> (Inl ALREADY_FINISHED, hs)
      | Some state \<Rightarrow>
          (case h_read_message lib state data of
             (Inl err, state') \<Rightarrow> (Inl (Connection (AUTH_FAILED @ err)), hs\<lparr>hs_state := Some state'\<rparr>)
           | (Inr buffer, state') \<Rightarrow> finish_message lib hex buffer (hs\<lparr>hs_state := Some state'\<rparr>)))"

definition is_finished :: "('h, 'c) noise_handshake \<Rightarrow> bool" where
  "is_finished hs \<longleftrightarrow> hs_transport hs \<noteq> None"

definition into_session :: "('h, 'c) noise_handshake \<Rightarrow> 'c noise_session res" where
  "into_session hs =
     res_bind (ok_or (hs_transport hs) (Connection ''the Noise handshake is not finished'')) (\<lambda>t.
       Inr \<lparr>s_transport = t, s_reassembly = None, s_remote_static_key = hs_remote_static_key hs\<rparr>)"

section \<open>How a handshake starts\<close>

lemma psk_index_eq_Inr:
  "psk_index pattern = Inr n \<longleftrightarrow>
     (pattern = NOISE_PATTERN_XX \<and> n = 2) \<or> (pattern = NOISE_PATTERN_KK \<and> n = 0)"
  by (auto simp: psk_index_def NOISE_PATTERN_XX_def NOISE_PATTERN_KK_def)

lemma pinned_key_bytes_eq_Inr:
  "pinned_key_bytes hex pinned = Inr remote \<longleftrightarrow>
     hex_decode hex (case pinned of None \<Rightarrow> [] | Some k \<Rightarrow> k) = Some remote \<and> length remote = 32"
  by (auto simp: pinned_key_bytes_def split: option.splits)

text \<open>
  A handshake that starts was configured for exactly one of the two patterns, with the
  pre-shared key where the pattern has it, and under \<open>KKpsk0\<close> with the pinned key and no other:
  a missing, short or malformed pin starts none. Under \<open>XXpsk2\<close> the pin plays no part.
\<close>

theorem handshake_new_sound:
  assumes "handshake_new lib hex pattern suite psk prologue static_key pinned = Inr hs"
  shows "\<exists>params b1 b2 b3 b4 h.
     parse_params lib (noise_protocol_name pattern suite) = Inr params
     \<and> b_local_private_key lib params static_key = Inr b1
     \<and> b_prologue lib b1 prologue = Inr b2
     \<and> b_build_initiator lib b4 = Inr h
     \<and> hs = \<lparr>hs_state = Some h, hs_transport = None, hs_pattern = pattern, hs_remote_static_key = None\<rparr>
     \<and> (pattern = NOISE_PATTERN_XX \<and> b_psk lib b2 2 psk = Inr b3 \<and> b4 = b3
        \<and> (\<forall>pin. handshake_new lib hex pattern suite psk prologue static_key pin = Inr hs)
        \<or> pattern = NOISE_PATTERN_KK \<and> b_psk lib b2 0 psk = Inr b3
        \<and> (\<exists>remote. hex_decode hex (case pinned of None \<Rightarrow> [] | Some key \<Rightarrow> key) = Some remote
             \<and> length remote = 32 \<and> b_remote_public_key lib b3 remote = Inr b4))"
  using assms
  by (auto simp: handshake_new_def Let_def res_bind_eq_Inr psk_index_eq_Inr pinned_key_bytes_eq_Inr
      NOISE_PATTERN_XX_def NOISE_PATTERN_KK_def split: if_splits)

text \<open>A library whose handshake is a countdown of messages: enough to run one.\<close>

definition counting_snow :: "(nat, nat, nat) snow" where
  "counting_snow =
     \<lparr>t_write = t_write counting_cipher, t_read = t_read counting_cipher,
      parse_params = (\<lambda>_. Inr 0), b_local_private_key = (\<lambda>b _. Inr b), b_prologue = (\<lambda>b _. Inr b),
      b_psk = (\<lambda>b n _. Inr (b + n)), b_remote_public_key = (\<lambda>b k. Inr (b + length k)),
      b_build_initiator = (\<lambda>b. Inr 2),
      h_write_message = (\<lambda>n p. (Inr p, n - 1)),
      h_read_message = (\<lambda>n p. if p = [] then (Inl ''decrypt'', n) else (Inr p, n - 1)),
      h_is_finished = (\<lambda>n. n = 0), h_remote_static = (\<lambda>_. Some [0xAB]), h_into_transport = (\<lambda>_. Inr 0)\<rparr>"

definition plain_hex :: hex_lib where
  "plain_hex = \<lparr>hex_encode = chars_of, hex_decode = (\<lambda>s. Some (bytes_of s))\<rparr>"

theorem handshake_new_sound_witness:
  "\<exists>hs. handshake_new counting_snow plain_hex NOISE_PATTERN_KK ''s'' [] [] [] (Some (replicate 32 CHR ''k'')) = Inr hs
     \<and> hs_pattern hs = NOISE_PATTERN_KK \<and> hs_state hs \<noteq> None"
proof -
  let ?new = "handshake_new counting_snow plain_hex NOISE_PATTERN_KK ''s'' [] [] []
    (Some (replicate 32 CHR ''k''))"
  have "\<exists>hs. ?new = Inr hs"
    by (simp add: handshake_new_def Let_def psk_index_def pinned_key_bytes_def counting_snow_def
        plain_hex_def NOISE_PATTERN_KK_def NOISE_PATTERN_XX_def)
  then obtain hs where hs: "?new = Inr hs" ..
  from handshake_new_sound [OF hs] have "hs_pattern hs = NOISE_PATTERN_KK \<and> hs_state hs \<noteq> None"
    by (elim exE conjE) simp
  with hs show ?thesis by blast
qed

section \<open>How it runs and ends\<close>

text \<open>Any use of a handshake: messages written and read in any order, whatever arrives.\<close>

datatype hs_op = Write_Msg bytes | Read_Msg bytes

definition hs_step ::
    "('b, 'h, 'c) snow \<Rightarrow> hex_lib \<Rightarrow> hs_op \<Rightarrow> ('h, 'c) noise_handshake
     \<Rightarrow> bytes res \<times> ('h, 'c) noise_handshake" where
  "hs_step lib hex a hs =
     (case a of Write_Msg p \<Rightarrow> write_message lib hex hs p | Read_Msg p \<Rightarrow> read_message lib hex hs p)"

definition hs_run ::
    "('b, 'h, 'c) snow \<Rightarrow> hex_lib \<Rightarrow> hs_op list \<Rightarrow> ('h, 'c) noise_handshake \<Rightarrow> ('h, 'c) noise_handshake" where
  "hs_run lib hex as hs = fold (\<lambda>a hs. snd (hs_step lib hex a hs)) as hs"

text \<open>
  A handshake is running and knows nothing yet, or is done: then its state is gone, and a
  session can only come with the key the finished state learned.
\<close>

definition running :: "('h, 'c) noise_handshake \<Rightarrow> bool" where
  "running hs \<longleftrightarrow> hs_state hs \<noteq> None \<and> hs_transport hs = None \<and> hs_remote_static_key hs = None"

definition ended_by ::
    "('b, 'h, 'c) snow \<Rightarrow> hex_lib \<Rightarrow> 'h \<Rightarrow> ('h, 'c) noise_handshake \<Rightarrow> bool" where
  "ended_by lib hex h hs \<longleftrightarrow>
     h_is_finished lib h \<and> hs_state hs = None
     \<and> hs_remote_static_key hs = map_option (hex_encode hex) (h_remote_static lib h)
     \<and> (\<forall>t. hs_transport hs = Some t \<longrightarrow> h_into_transport lib h = Inr t)"

lemma maybe_finish_cases:
  assumes "running hs"
  shows "running (snd (maybe_finish lib hex hs))
    \<or> (\<exists>h. ended_by lib hex h (snd (maybe_finish lib hex hs)))"
  using assms
  by (auto simp: maybe_finish_def running_def ended_by_def Let_def split: option.splits sum.splits)

lemma hs_step_cases:
  assumes "running hs"
  shows "running (snd (hs_step lib hex a hs)) \<or> (\<exists>h. ended_by lib hex h (snd (hs_step lib hex a hs)))"
proof -
  have "running (hs\<lparr>hs_state := Some h\<rparr>)" for h using assms by (simp add: running_def)
  then have fin: "running (snd (finish_message lib hex buf (hs\<lparr>hs_state := Some h\<rparr>)))
      \<or> (\<exists>h'. ended_by lib hex h' (snd (finish_message lib hex buf (hs\<lparr>hs_state := Some h\<rparr>))))" for buf h
    using maybe_finish_cases [of "hs\<lparr>hs_state := Some h\<rparr>" lib hex]
    by (simp add: finish_message_def split_def)
  show ?thesis
    using assms fin
    by (cases a) (auto simp: hs_step_def write_message_def read_message_def running_def
        split: option.splits prod.splits sum.splits)
qed

lemma hs_step_done:
  "hs_state hs = None \<Longrightarrow> hs_step lib hex a hs = (Inl ALREADY_FINISHED, hs)"
  by (cases a) (simp_all add: hs_step_def write_message_def read_message_def)

lemma hs_run_done: "hs_state hs = None \<Longrightarrow> hs_run lib hex as hs = hs"
  by (induction as) (simp_all add: hs_run_def hs_step_done)

lemma hs_run_cases:
  "running hs \<Longrightarrow> running (hs_run lib hex as hs) \<or> (\<exists>h. ended_by lib hex h (hs_run lib hex as hs))"
proof (induction as arbitrary: hs)
  case Nil
  then show ?case by (simp add: hs_run_def)
next
  case (Cons a as)
  have unroll: "hs_run lib hex (a # as) hs = hs_run lib hex as (snd (hs_step lib hex a hs))"
    by (simp add: hs_run_def)
  from hs_step_cases [OF Cons.prems, of lib hex a] show ?case
  proof
    assume "running (snd (hs_step lib hex a hs))"
    then show ?thesis unfolding unroll by (rule Cons.IH)
  next
    assume ended: "\<exists>h. ended_by lib hex h (snd (hs_step lib hex a hs))"
    then have "hs_run lib hex (a # as) hs = snd (hs_step lib hex a hs)"
      unfolding unroll by (intro hs_run_done) (auto simp: ended_by_def)
    with ended show ?thesis by simp
  qed
qed

text \<open>
  A started handshake, driven by any messages whatever, gives a session only once \<open>snow\<close>
  calls its state finished; the session's cipher is that state's and the hub key it reports is
  the one that state learned, so the key that gets pinned is the key of the peer that answered.
  Nothing is open in its reassembly, and no message can be read or written on the handshake after.
\<close>

theorem session_only_when_finished:
  assumes "handshake_new lib hex pattern suite psk prologue static_key pinned = Inr hs"
    and "into_session (hs_run lib hex as hs) = Inr s"
  shows "\<exists>h. h_is_finished lib h \<and> h_into_transport lib h = Inr (s_transport s)
     \<and> s_remote_static_key s = map_option (hex_encode hex) (h_remote_static lib h)
     \<and> s_reassembly s = None
     \<and> (\<forall>a. hs_step lib hex a (hs_run lib hex as hs) = (Inl ALREADY_FINISHED, hs_run lib hex as hs))"
proof -
  have "running hs"
    using assms(1) by (auto simp: handshake_new_def Let_def res_bind_eq_Inr running_def)
  moreover have "\<not> running (hs_run lib hex as hs)"
    using assms(2) by (auto simp: running_def into_session_def)
  ultimately obtain h where "ended_by lib hex h (hs_run lib hex as hs)"
    using hs_run_cases by blast
  with assms(2) show ?thesis
    by (auto simp: ended_by_def into_session_def res_bind_eq_Inr hs_step_done)
qed

theorem session_only_when_finished_witness:
  "\<exists>hs s. handshake_new counting_snow plain_hex NOISE_PATTERN_XX ''s'' [] [] [] None = Inr hs
     \<and> into_session (hs_run counting_snow plain_hex [Write_Msg [], Read_Msg [], Read_Msg [1]] hs) = Inr s
     \<and> s_remote_static_key s = Some (chars_of [0xAB]) \<and> s_reassembly s = None"
proof -
  let ?hs = "\<lparr>hs_state = Some 2, hs_transport = None, hs_pattern = NOISE_PATTERN_XX,
    hs_remote_static_key = None\<rparr> :: (nat, nat) noise_handshake"
  let ?s = "\<lparr>s_transport = 0, s_reassembly = None, s_remote_static_key = Some (chars_of [0xAB])\<rparr>"
  have new: "handshake_new counting_snow plain_hex NOISE_PATTERN_XX ''s'' [] [] [] None = Inr ?hs"
    by (simp add: handshake_new_def Let_def psk_index_def counting_snow_def NOISE_PATTERN_KK_def
        NOISE_PATTERN_XX_def)
  have sess: "into_session (hs_run counting_snow plain_hex [Write_Msg [], Read_Msg [], Read_Msg [1]] ?hs) = Inr ?s"
    by (simp add: hs_run_def hs_step_def write_message_def read_message_def finish_message_def
        maybe_finish_def counting_snow_def plain_hex_def into_session_def)
  from session_only_when_finished [OF new sess] new sess show ?thesis
    by (auto simp: counting_snow_def plain_hex_def)
qed

end
