(* ===== verification/State_Files.thy ===== *)
theory State_Files
  imports Errors
begin

text \<open>
  The files under the state folder and how \<open>src/src/noise_store.rs\<close> touches them: the lock, the
  checks before a file is trusted, and the publication of a secret file by a complete staging
  file that is then linked or renamed into place.

  The file system is a map from paths to nodes. The standard library's calls are given by what
  they do to it, and by \<open>host\<close>: the faults the system may answer with at any call, the lock it
  grants, the random bytes and the unique names it makes. A fault is any error other than
  "not found" and "already exists", which come from the map.
\<close>

section \<open>Files\<close>

type_synonym path = "string \<times> string"
type_synonym io_error = "io_kind \<times> string"

text \<open>A regular file has its permission bits; a directory or a symbolic link is \<open>Special\<close>.\<close>

datatype node = Regular "16 word" string | Special

type_synonym files = "path \<Rightarrow> node option"

datatype lock_attempt = Taken | Poisoned | Out_Of_Time | Broken string

record host =
  thread_lock :: "string \<Rightarrow> lock_attempt"
  file_lock :: "string \<Rightarrow> lock_attempt"
  mkdir_fault :: "string \<Rightarrow> string option"
  stat_fault :: "path \<Rightarrow> string option"
  open_fault :: "path \<Rightarrow> string option"
  read_fault :: "path \<Rightarrow> string option"
  write_fault :: "path \<Rightarrow> (nat \<times> string) option"
  sync_fault :: "path \<Rightarrow> string option"
  link_fault :: "path \<Rightarrow> string option"
  rename_fault :: "path \<Rightarrow> string option"
  unlink_fails :: "path \<Rightarrow> bool"
  unique :: string
  random_byte :: "nat \<Rightarrow> u8"
  canonicalize :: "string \<Rightarrow> string option"

definition display :: "path \<Rightarrow> string" where
  "display p = fst p @ ''/'' @ snd p"

definition io :: "io_error \<Rightarrow> thalovant_error" where
  "io e = Io (fst e) (snd e)"

definition faulty :: "string option \<Rightarrow> io_error + 'a \<Rightarrow> io_error + 'a" where
  "faulty fault r = (case fault of Some e \<Rightarrow> Inl (OtherIo, e) | None \<Rightarrow> r)"

definition io_res :: "io_error + 'a \<Rightarrow> 'a res" where
  "io_res r = (case r of Inl e \<Rightarrow> Inl (io e) | Inr x \<Rightarrow> Inr x)"

lemma io_res_simps [simp, res_simps]: "io_res (Inl e) = Inl (io e)" "io_res (Inr x) = Inr x"
  by (simp_all add: io_res_def)

lemma io_res_eq_Inr [simp]: "io_res r = Inr x \<longleftrightarrow> r = Inr x"
  by (cases r) auto

definition symlink_metadata :: "host \<Rightarrow> files \<Rightarrow> path \<Rightarrow> io_error + node" where
  "symlink_metadata h fs p =
     faulty (stat_fault h p)
       (case fs p of None \<Rightarrow> Inl (NotFound, ''no such file'') | Some n \<Rightarrow> Inr n)"

definition read_to_string :: "host \<Rightarrow> files \<Rightarrow> path \<Rightarrow> io_error + string" where
  "read_to_string h fs p =
     faulty (read_fault h p)
       (case fs p of None \<Rightarrow> Inl (NotFound, ''no such file'')
        | Some (Regular _ c) \<Rightarrow> Inr c
        | Some Special \<Rightarrow> Inl (OtherIo, ''not a file''))"

definition is_file :: "node \<Rightarrow> bool" where
  "is_file n = (case n of Regular _ _ \<Rightarrow> True | Special \<Rightarrow> False)"

section \<open>Checks before a file is trusted\<close>

definition ascii_upper :: "char \<Rightarrow> char" where
  "ascii_upper c = (let n = of_char c :: nat in if 97 \<le> n \<and> n \<le> 122 then char_of (n - 32) else c)"

text \<open>\<open>capitalize\<close> is applied to the SDK's own ASCII descriptions only.\<close>

definition capitalize :: "string \<Rightarrow> string" where
  "capitalize s = (case s of [] \<Rightarrow> [] | c # cs \<Rightarrow> ascii_upper c # cs)"

definition private_mode :: "16 word \<Rightarrow> bool" where
  "private_mode m \<longleftrightarrow> m AND 0x3F = 0"

definition assert_secure_secret_file :: "host \<Rightarrow> files \<Rightarrow> path \<Rightarrow> string \<Rightarrow> unit res" where
  "assert_secure_secret_file h fs p description =
     res_bind (io_res (symlink_metadata h fs p)) (\<lambda>n.
       case n of
         Regular m _ \<Rightarrow>
           if private_mode m then Inr ()
           else Inl (InvalidIdentity (capitalize description @ '' is too permissive: '' @ display p
                       @ ''. Run `chmod 600 '' @ display p @ ''`.''))
       | Special \<Rightarrow> Inr ())"

definition validate_state_file :: "host \<Rightarrow> files \<Rightarrow> path \<Rightarrow> string \<Rightarrow> unit res" where
  "validate_state_file h fs p label =
     (case symlink_metadata h fs p of
        Inr n \<Rightarrow> if is_file n then assert_secure_secret_file h fs p label
                 else Inl (InvalidIdentity (label @ '' must be a regular file''))
      | Inl e \<Rightarrow> if fst e = NotFound then Inr () else Inl (io e))"

section \<open>The lock\<close>

definition LOCK_FILE :: string where "LOCK_FILE = ''.noise.lock''"

definition lock_result :: "lock_attempt \<Rightarrow> unit res" where
  "lock_result a =
     (case a of
        Taken \<Rightarrow> Inr ()
      | Poisoned \<Rightarrow> Inl (Connection ''the Noise state lock was poisoned by a panic'')
      | Out_Of_Time \<Rightarrow> Inl (Timeout ''Noise state lock acquisition timed out'')
      | Broken e \<Rightarrow> Inl (io (OtherIo, e)))"

text \<open>
  The thread lock, the folder, the lock file (created \<open>0600\<close> when missing, refused when it is
  not a private regular file), then the lock on the file. Every operation of the store holds it
  until it returns, so an operation is one step of the store.
\<close>

definition lock_state :: "host \<Rightarrow> string \<Rightarrow> files \<Rightarrow> unit res \<times> files" where
  "lock_state h dir fs =
     (let p = (dir, LOCK_FILE);
          fs' = (case fs p of None \<Rightarrow> fs(p \<mapsto> Regular 0x180 []) | Some _ \<Rightarrow> fs)
      in case res_bind (lock_result (thread_lock h dir)) (\<lambda>_.
              res_bind (io_res (faulty (mkdir_fault h dir) (Inr ()))) (\<lambda>_.
              res_bind (case symlink_metadata h fs p of
                          Inr n \<Rightarrow> if is_file n then assert_secure_secret_file h fs p ''Noise state lock''
                                   else Inl (InvalidIdentity ''Noise state lock must be a regular file'')
                        | Inl _ \<Rightarrow> Inr ()) (\<lambda>_.
                io_res (faulty (open_fault h p) (Inr ()))))) of
           Inl e \<Rightarrow> (Inl e, fs)
         | Inr _ \<Rightarrow>
             (res_bind (assert_secure_secret_file h fs' p ''Noise state lock'') (\<lambda>_.
                lock_result (file_lock h dir)), fs'))"

section \<open>Publication\<close>

text \<open>\<open>create_new\<close>, \<open>write_all\<close>, \<open>sync_all\<close>: a failure after the creation leaves what was written.\<close>

definition write_private_at :: "host \<Rightarrow> path \<Rightarrow> string \<Rightarrow> files \<Rightarrow> unit res \<times> files" where
  "write_private_at h p contents fs =
     (if fs p \<noteq> None then (Inl (io (AlreadyExists, ''file exists'')), fs)
      else case open_fault h p of
        Some e \<Rightarrow> (Inl (io (OtherIo, e)), fs)
      | None \<Rightarrow>
          (case write_fault h p of
             Some (n, e) \<Rightarrow> (Inl (io (OtherIo, e)), fs(p \<mapsto> Regular 0x180 (take n contents)))
           | None \<Rightarrow>
               (io_res (faulty (sync_fault h p) (Inr ())), fs(p \<mapsto> Regular 0x180 contents))))"

definition hard_link :: "host \<Rightarrow> path \<Rightarrow> path \<Rightarrow> files \<Rightarrow> (io_error + unit) \<times> files" where
  "hard_link h from_path to_path fs =
     (case faulty (link_fault h to_path)
             (if fs to_path \<noteq> None then Inl (AlreadyExists, ''file exists'') else Inr ()) of
        Inl e \<Rightarrow> (Inl e, fs)
      | Inr _ \<Rightarrow> (Inr (), fs(to_path := fs from_path)))"

definition rename :: "host \<Rightarrow> path \<Rightarrow> path \<Rightarrow> files \<Rightarrow> (io_error + unit) \<times> files" where
  "rename h from_path to_path fs =
     (case rename_fault h to_path of
        Some e \<Rightarrow> (Inl (OtherIo, e), fs)
      | None \<Rightarrow> (Inr (), fs(to_path := fs from_path, from_path := None)))"

definition remove_file :: "host \<Rightarrow> path \<Rightarrow> files \<Rightarrow> files" where
  "remove_file h p fs = (if unlink_fails h p then fs else fs(p := None))"

text \<open>The staging file's name: \<open>unique\<close> stands for the process id, the counter and the UUID.\<close>

definition staging_name :: "host \<Rightarrow> string \<Rightarrow> string" where
  "staging_name h name = name @ ''.'' @ unique h @ ''.tmp''"

definition link_error :: "io_error \<Rightarrow> thalovant_error" where
  "link_error e =
     (if fst e = AlreadyExists then io e
      else io (fst e, ''atomic Noise key publication requires a filesystem supporting hard links: '' @ snd e))"

definition publish_link :: "host \<Rightarrow> path \<Rightarrow> path \<Rightarrow> bool \<Rightarrow> files \<Rightarrow> unit res \<times> files" where
  "publish_link h temporary p exclusive fs =
     (if exclusive
      then case hard_link h temporary p fs of
             (Inl e, fs') \<Rightarrow> (Inl (link_error e), fs')
           | (Inr _, fs') \<Rightarrow> (Inr (), fs')
      else case rename h temporary p fs of (r, fs') \<Rightarrow> (io_res r, fs'))"

definition publish_private :: "host \<Rightarrow> path \<Rightarrow> string \<Rightarrow> bool \<Rightarrow> files \<Rightarrow> unit res \<times> files" where
  "publish_private h p contents exclusive fs =
     (let temporary = (fst p, staging_name h (snd p))
      in case write_private_at h temporary contents fs of
           (Inl e, fs') \<Rightarrow>
             (case e of
                Io AlreadyExists _ \<Rightarrow>
                  (Inl (io (OtherIo, ''Noise staging path already exists; retry publication'')), fs')
              | _ \<Rightarrow> (Inl e, remove_file h temporary fs'))
         | (Inr _, fs') \<Rightarrow>
             (case publish_link h temporary p exclusive fs' of
                (r, fs'') \<Rightarrow> (r, remove_file h temporary fs'')))"

definition write_private_exclusive :: "host \<Rightarrow> path \<Rightarrow> string \<Rightarrow> files \<Rightarrow> unit res \<times> files" where
  "write_private_exclusive h p contents fs = publish_private h p contents True fs"

definition write_private :: "host \<Rightarrow> path \<Rightarrow> string \<Rightarrow> files \<Rightarrow> unit res \<times> files" where
  "write_private h p contents fs = publish_private h p contents False fs"

section \<open>What publication leaves behind\<close>

lemma staging_name_fresh [simp]: "staging_name h name \<noteq> name" "name \<noteq> staging_name h name"
  by (simp_all add: staging_name_def)

lemma staging_name_suffix: "drop (length (staging_name h name) - 4) (staging_name h name) = ''.tmp''"
  by (simp add: staging_name_def)

lemma write_private_at_other:
  "write_private_at h t contents fs = (r, fs') \<Longrightarrow> q \<noteq> t \<Longrightarrow> fs' q = fs q"
  by (auto simp: write_private_at_def split: if_splits option.splits)

lemma write_private_at_ok:
  "write_private_at h t contents fs = (Inr u, fs') \<Longrightarrow>
   fs t = None \<and> fs' = fs(t \<mapsto> Regular 0x180 contents)"
  by (auto simp: write_private_at_def split: if_splits option.splits)

lemma publish_link_other:
  "publish_link h t p exclusive fs = (r, fs') \<Longrightarrow> q \<noteq> t \<Longrightarrow> q \<noteq> p \<Longrightarrow> fs' q = fs q"
  by (auto simp: publish_link_def hard_link_def rename_def split: if_splits option.splits sum.splits prod.splits)

lemma publish_link_target:
  assumes "publish_link h t p exclusive fs = (r, fs')" and "t \<noteq> p"
  shows "fs' p \<in> {fs p, fs t} \<and> (r = Inr () \<longrightarrow> fs' p = fs t) \<and> (exclusive \<and> fs p \<noteq> None \<longrightarrow> fs' p = fs p)"
  using assms
  by (auto simp: publish_link_def hard_link_def rename_def faulty_def
      split: if_splits option.splits sum.splits prod.splits)

lemma remove_file_other: "q \<noteq> t \<Longrightarrow> remove_file h t fs q = fs q"
  by (simp add: remove_file_def)

lemma publish_private_other:
  assumes "q \<noteq> p" and "q \<noteq> (fst p, staging_name h (snd p))"
  shows "snd (publish_private h p contents exclusive fs) q = fs q"
  using assms
  by (auto simp: publish_private_def Let_def remove_file_def
      split: prod.splits sum.splits thalovant_error.splits io_kind.splits
      dest!: write_private_at_other [of _ _ _ _ _ _ q] publish_link_other [of _ _ _ _ _ _ _ q])

lemma publish_private_target:
  "snd (publish_private h p contents exclusive fs) p \<in> {fs p, Some (Regular 0x180 contents)}
   \<and> (exclusive \<and> fs p \<noteq> None \<longrightarrow> snd (publish_private h p contents exclusive fs) p = fs p)
   \<and> (fst (publish_private h p contents exclusive fs) = Inr () \<longrightarrow>
        snd (publish_private h p contents exclusive fs) p = Some (Regular 0x180 contents))"
proof -
  let ?t = "(fst p, staging_name h (snd p))"
  have t: "?t \<noteq> p" "p \<noteq> ?t" by (cases p, simp)+
  obtain r fs1 where w: "write_private_at h ?t contents fs = (r, fs1)" by fastforce
  show ?thesis
  proof (cases r)
    case (Inl e)
    then have "snd (publish_private h p contents exclusive fs) p = fs p"
      using write_private_at_other [OF w t(2)] t
      by (simp add: publish_private_def Let_def w remove_file_def
          split: thalovant_error.split io_kind.split)
    moreover have "fst (publish_private h p contents exclusive fs) \<noteq> Inr ()"
      using Inl by (simp add: publish_private_def Let_def w split: thalovant_error.split io_kind.split)
    ultimately show ?thesis by blast
  next
    case (Inr u)
    obtain r' fs2 where l: "publish_link h ?t p exclusive fs1 = (r', fs2)" by fastforce
    have fs1: "fs1 p = fs p" "fs1 ?t = Some (Regular 0x180 contents)"
      using write_private_at_ok w Inr t by fastforce+
    have "publish_private h p contents exclusive fs = (r', remove_file h ?t fs2)"
      by (simp add: publish_private_def Let_def w Inr l)
    then have res: "fst (publish_private h p contents exclusive fs) = r'"
      "snd (publish_private h p contents exclusive fs) p = fs2 p"
      by (simp_all add: remove_file_other [OF t(2)])
    show ?thesis unfolding res using publish_link_target [OF l t(1)] fs1 by simp
  qed
qed

lemma publish_private_failed:
  assumes "fst (publish_private h p contents exclusive fs) \<noteq> Inr ()"
  shows "snd (publish_private h p contents exclusive fs) p = fs p"
proof -
  let ?t = "(fst p, staging_name h (snd p))"
  have t: "?t \<noteq> p" "p \<noteq> ?t" by (cases p, simp)+
  obtain r fs1 where w: "write_private_at h ?t contents fs = (r, fs1)" by fastforce
  have fs1: "fs1 p = fs p" by (rule write_private_at_other [OF w t(2)])
  show ?thesis
  proof (cases r)
    case (Inl e)
    then show ?thesis
      using fs1 t
      by (simp add: publish_private_def Let_def w remove_file_def
          split: thalovant_error.split io_kind.split)
  next
    case (Inr u)
    obtain r' fs2 where l: "publish_link h ?t p exclusive fs1 = (r', fs2)" by fastforce
    have "r' \<noteq> Inr ()" using assms by (simp add: publish_private_def Let_def w Inr l)
    then have "fs2 p = fs1 p"
      using l by (auto simp: publish_link_def hard_link_def rename_def
          split: if_splits option.splits sum.splits prod.splits)
    then show ?thesis
      using fs1 t by (simp add: publish_private_def Let_def w Inr l remove_file_def)
  qed
qed

text \<open>
  The states a publication can leave on disk when its process is killed: before it, with part of
  the staging file written, with all of it, after the link or the rename, and at the end.
\<close>

definition publish_states :: "host \<Rightarrow> path \<Rightarrow> string \<Rightarrow> bool \<Rightarrow> nat \<Rightarrow> files \<Rightarrow> files list" where
  "publish_states h p contents exclusive written fs =
     (let temporary = (fst p, staging_name h (snd p))
      in [fs, if fs temporary = None then fs(temporary \<mapsto> Regular 0x180 (take written contents)) else fs,
          snd (write_private_at h temporary contents fs)]
         @ (case write_private_at h temporary contents fs of
              (Inl _, fs') \<Rightarrow> []
            | (Inr _, fs') \<Rightarrow> [snd (publish_link h temporary p exclusive fs')])
         @ [snd (publish_private h p contents exclusive fs)])"

text \<open>
  C6: whenever a process is killed or the system fails during a publication, the trusted path
  holds what it held before or the complete new contents, private to its owner, never a part of
  them; a key published exclusively never replaces one that is there, a success means the new
  contents are in place, a failure that what was there before is, and no file but the path and its
  staging file is touched.
\<close>

theorem publish_atomic:
  assumes "s \<in> set (publish_states h p contents exclusive written fs)"
  shows "s p \<in> {fs p, Some (Regular 0x180 contents)}
    \<and> (exclusive \<and> fs p \<noteq> None \<longrightarrow> s p = fs p)
    \<and> (fst (publish_private h p contents exclusive fs) = Inr () \<longrightarrow>
         snd (publish_private h p contents exclusive fs) p = Some (Regular 0x180 contents))
    \<and> (fst (publish_private h p contents exclusive fs) \<noteq> Inr () \<longrightarrow>
         snd (publish_private h p contents exclusive fs) p = fs p)
    \<and> (\<forall>q. q \<noteq> p \<and> q \<noteq> (fst p, staging_name h (snd p)) \<longrightarrow> s q = fs q)"
proof -
  let ?t = "(fst p, staging_name h (snd p))"
  have t: "?t \<noteq> p" "p \<noteq> ?t" by (cases p, simp)+
  obtain r fs1 where w: "write_private_at h ?t contents fs = (r, fs1)" by fastforce
  obtain r' fs2 where l: "publish_link h ?t p exclusive fs1 = (r', fs2)" by fastforce
  note other = write_private_at_other [OF w] publish_link_other [OF l]
  have "s = fs \<or> s = fs(?t \<mapsto> Regular 0x180 (take written contents)) \<or> s = fs1
      \<or> (\<exists>u. r = Inr u) \<and> s = fs2 \<or> s = snd (publish_private h p contents exclusive fs)"
    using assms by (auto simp: publish_states_def Let_def w l split: sum.splits if_splits)
  moreover have "fs2 p \<in> {fs p, Some (Regular 0x180 contents)} \<and> (exclusive \<and> fs p \<noteq> None \<longrightarrow> fs2 p = fs p)"
    if "\<exists>u. r = Inr u"
    using that publish_link_target [OF l t(1)] write_private_at_ok w t by fastforce
  ultimately show ?thesis
    using publish_private_target [of h p contents exclusive fs]
      publish_private_failed [of h p contents exclusive fs] publish_private_other [of _ p h contents exclusive fs] other t
    by (elim disjE; simp)
qed

definition calm_host :: host where
  "calm_host =
     \<lparr>thread_lock = (\<lambda>_. Taken), file_lock = (\<lambda>_. Taken), mkdir_fault = (\<lambda>_. None),
      stat_fault = (\<lambda>_. None), open_fault = (\<lambda>_. None), read_fault = (\<lambda>_. None),
      write_fault = (\<lambda>_. None), sync_fault = (\<lambda>_. None), link_fault = (\<lambda>_. None),
      rename_fault = (\<lambda>_. None), unlink_fails = (\<lambda>_. False), unique = ''7.0.u'',
      random_byte = (\<lambda>_. 0x5A), canonicalize = Some\<rparr>"

lemma staging_not_lock: "staging_name h n \<noteq> LOCK_FILE"
proof
  assume "staging_name h n = LOCK_FILE"
  then have "drop (length LOCK_FILE - 4) LOCK_FILE = ''.tmp''"
    using staging_name_suffix [of h n] by simp
  then show False by (simp add: LOCK_FILE_def)
qed

lemma publish_calm:
  assumes "fs (d, staging_name calm_host n) = None" and "\<not> exclusive \<or> fs (d, n) = None"
  shows "publish_private calm_host (d, n) c exclusive fs = (Inr (), fs((d, n) \<mapsto> Regular 0x180 c))"
proof -
  let ?t = "(d, staging_name calm_host n)"
  have host: "open_fault calm_host p = None" "write_fault calm_host p = None"
    "sync_fault calm_host p = None" "link_fault calm_host p = None"
    "rename_fault calm_host p = None" "\<not> unlink_fails calm_host p" for p
    by (simp_all add: calm_host_def)
  have w: "write_private_at calm_host ?t c fs = (Inr (), fs(?t \<mapsto> Regular 0x180 c))"
    using assms(1) by (simp add: write_private_at_def host faulty_def)
  have "remove_file calm_host ?t (fs(?t \<mapsto> Regular 0x180 c, (d, n) \<mapsto> Regular 0x180 c)) =
      fs((d, n) \<mapsto> Regular 0x180 c)"
    and "remove_file calm_host ?t (fs(?t \<mapsto> Regular 0x180 c, (d, n) \<mapsto> Regular 0x180 c, ?t := None)) =
      fs((d, n) \<mapsto> Regular 0x180 c)"
    using assms(1) by (auto simp: remove_file_def host fun_eq_iff)
  then show ?thesis
    using w assms(2)
    by (auto simp: publish_private_def Let_def publish_link_def hard_link_def rename_def faulty_def host)
qed

theorem publish_atomic_witness:
  "(let s = (\<lambda>_. None)((''d'', staging_name calm_host ''noise_key'') \<mapsto> Regular 0x180 ''a'') in
     s \<in> set (publish_states calm_host (''d'', ''noise_key'') ''ab'' True 1 (\<lambda>_. None))
     \<and> s (''d'', ''noise_key'') \<in> {None, Some (Regular 0x180 ''ab'')})"
proof -
  let ?s = "(\<lambda>_. None)((''d'', staging_name calm_host ''noise_key'') \<mapsto> Regular 0x180 ''a'') :: files"
  have "?s \<in> set (publish_states calm_host (''d'', ''noise_key'') ''ab'' True 1 (\<lambda>_. None))"
    by (simp add: publish_states_def Let_def)
  with publish_atomic [OF this] show ?thesis by simp
qed

end
