(* ===== verification/First_Use.thy ===== *)
theory First_Use
  imports Prelude
begin

text \<open>
  The interface of a store that decides once: a slot that, once filled, only a deliberate
  operation clears, and operations that accept a value only when the slot agrees with it. The
  pinned hub keys and this client's own key are both kept this way; the lemmas hold for
  operations in any order, so for any interleaving of processes that take the store's lock.
\<close>

definition run_steps :: "('o \<Rightarrow> 's \<Rightarrow> 's) \<Rightarrow> 'o list \<Rightarrow> 's \<Rightarrow> 's" where
  "run_steps step os s = fold step os s"

lemma run_steps_simps [simp]:
  "run_steps step [] s = s"
  "run_steps step (o1 # os) s = run_steps step os (step o1 s)"
  by (simp_all add: run_steps_def)

locale sticky =
  fixes step :: "'o \<Rightarrow> 's \<Rightarrow> 's"
    and slot :: "'s \<Rightarrow> 'v option"
    and clears :: "'o \<Rightarrow> bool"
    and good :: "'s \<Rightarrow> bool"
  assumes good_step: "good s \<Longrightarrow> good (step o1 s)"
    and keeps: "good s \<Longrightarrow> slot s = Some v \<Longrightarrow> \<not> clears o1 \<Longrightarrow> slot (step o1 s) = Some v"
begin

lemma good_run: "good s \<Longrightarrow> good (run_steps step os s)"
  by (induction os arbitrary: s) (simp_all add: good_step)

lemma slot_run:
  "good s \<Longrightarrow> slot s = Some v \<Longrightarrow> \<forall>o1 \<in> set os. \<not> clears o1 \<Longrightarrow>
   slot (run_steps step os s) = Some v"
  by (induction os arbitrary: s) (simp_all add: good_step keeps)

end

text \<open>
  A store of trust on first use: an operation that accepts a value leaves the slot holding one
  that agrees with it.
\<close>

locale first_use = sticky step slot clears good
  for step :: "'o \<Rightarrow> 's \<Rightarrow> 's" and slot :: "'s \<Rightarrow> 'v option" and clears :: "'o \<Rightarrow> bool"
    and good :: "'s \<Rightarrow> bool" +
  fixes accepts :: "'o \<Rightarrow> 's \<Rightarrow> 'v option"
    and same :: "'v \<Rightarrow> 'v \<Rightarrow> bool"
  assumes accepted: "good s \<Longrightarrow> accepts o1 s = Some v \<Longrightarrow> \<exists>w. slot (step o1 s) = Some w \<and> same w v"
    and agreed: "good s \<Longrightarrow> accepts o1 s = Some v \<Longrightarrow> slot s = Some w \<Longrightarrow> same w v"
    and same_sym: "same v w \<Longrightarrow> same w v"
    and same_trans: "same u v \<Longrightarrow> same v w \<Longrightarrow> same u w"
begin

lemma filled: "good s \<Longrightarrow> accepts o1 s = Some v \<Longrightarrow> slot (step o1 s) \<noteq> None"
  using accepted by fastforce

text \<open>Whatever is accepted later is what was accepted first, unless the slot was cleared.\<close>

lemma agree:
  assumes "good s" and "accepts o1 s = Some v" and "\<forall>x \<in> set os. \<not> clears x"
    and "accepts o2 (run_steps step os (step o1 s)) = Some v'"
  shows "same v v'"
proof -
  obtain w where w: "slot (step o1 s) = Some w" "same w v"
    using accepted [OF assms(1,2)] by blast
  have "good (step o1 s)" by (rule good_step [OF assms(1)])
  then have "slot (run_steps step os (step o1 s)) = Some w"
    and "good (run_steps step os (step o1 s))"
    using w(1) assms(3) by (auto intro: slot_run good_run)
  then have "same w v'" using agreed assms(4) by blast
  with w(2) show ?thesis using same_sym same_trans by blast
qed

end

end
