(* ===== verification/Noise_Store.thy ===== *)
theory Noise_Store
  imports State_Files First_Use Noise
begin

text \<open>
  \<open>src/src/noise_store.rs\<close>, what is kept under the state folder: this client's static key, the hub
  keys it has pinned and the cache of derived pre-shared keys. Every operation takes the lock of
  its folder, so an operation is one step on the files and processes interleave between
  operations. The JSON and hex crates are \<open>store_lib\<close> and \<open>hex_lib\<close>.
\<close>

section \<open>The state files\<close>

record store_lib =
  parse_strings :: "string \<Rightarrow> string + (string, string) btree"
  pretty_strings :: "(string, string) btree \<Rightarrow> string + string"

definition NOISE_KEY_FILENAME :: string where "NOISE_KEY_FILENAME = ''noise_key''"
definition NOISE_PINS_FILENAME :: string where "NOISE_PINS_FILENAME = ''noise_pins.json''"
definition NOISE_PSK_FILENAME :: string where "NOISE_PSK_FILENAME = ''noise_psks.json''"

definition NEWLINE :: string where "NEWLINE = [CHR 0x0A]"

definition validate_pin :: "string \<Rightarrow> string \<Rightarrow> unit res" where
  "validate_pin node_id key =
     (if trim node_id = [] \<or> length key \<noteq> 64 \<or> \<not> list_all is_ascii_hexdigit key
      then Inl (InvalidIdentity
             ''Noise pin requires a nonempty node id and a 32-byte hexadecimal static key'')
      else Inr ())"

fun validate_pins :: "(string \<times> string) list \<Rightarrow> unit res" where
  "validate_pins [] = Inr ()"
| "validate_pins ((node_id, key) # pins) =
     res_bind (validate_pin node_id key) (\<lambda>_. validate_pins pins)"

definition read_pins :: "store_lib \<Rightarrow> host \<Rightarrow> string \<Rightarrow> files \<Rightarrow> (string, string) btree res" where
  "read_pins lib h dir fs =
     (let p = (dir, NOISE_PINS_FILENAME)
      in res_bind (validate_state_file h fs p ''Noise pin file'') (\<lambda>_.
         case read_to_string h fs p of
           Inr raw \<Rightarrow>
             (case parse_strings lib raw of
                Inl err \<Rightarrow> Inl (InvalidIdentity (''Noise pin file '' @ display p
                             @ '' is not a JSON object of node id to key: '' @ err))
              | Inr pins \<Rightarrow> res_bind (validate_pins pins) (\<lambda>_. Inr pins))
         | Inl e \<Rightarrow> if fst e = NotFound then Inr [] else Inl (io e)))"

definition write_strings :: "store_lib \<Rightarrow> host \<Rightarrow> path \<Rightarrow> (string, string) btree \<Rightarrow> files \<Rightarrow> unit res \<times> files" where
  "write_strings lib h p m fs =
     (case mkdir_fault h (fst p) of
        Some e \<Rightarrow> (Inl (io (OtherIo, e)), fs)
      | None \<Rightarrow>
          (case pretty_strings lib m of
             Inl err \<Rightarrow> (Inl (Json err), fs)
           | Inr encoded \<Rightarrow> write_private h p (encoded @ NEWLINE) fs))"

definition write_pins :: "store_lib \<Rightarrow> host \<Rightarrow> path \<Rightarrow> (string, string) btree \<Rightarrow> files \<Rightarrow> unit res \<times> files" where
  "write_pins lib h p pins fs = write_strings lib h p pins fs"

section \<open>Pins\<close>

definition load_noise_pin :: "store_lib \<Rightarrow> host \<Rightarrow> string \<Rightarrow> string \<Rightarrow> files \<Rightarrow> string option res \<times> files" where
  "load_noise_pin lib h dir node_id fs =
     (case lock_state h dir fs of
        (Inl e, fs') \<Rightarrow> (Inl e, fs')
      | (Inr _, fs') \<Rightarrow> (res_bind (read_pins lib h dir fs') (\<lambda>pins. Inr (map_of pins node_id)), fs'))"

definition KEY_CHANGED :: thalovant_error where
  "KEY_CHANGED = Connection ''the hub's Noise static key changed. If the hub was not reinstalled or replaced, another machine may be answering at this address. If it was, drop the stale pin with forget_noise_pin and reconnect to trust the new key''"

text \<open>The decision under the lock, with the pins just read.\<close>

definition pin_decision ::
    "store_lib \<Rightarrow> host \<Rightarrow> string \<Rightarrow> string \<Rightarrow> string \<Rightarrow> (string, string) btree \<Rightarrow> files \<Rightarrow> unit res \<times> files" where
  "pin_decision lib h dir node_id remote_static_key pins fs =
     (case map_of pins node_id of
        None \<Rightarrow> write_pins lib h (dir, NOISE_PINS_FILENAME) (bt_insert node_id remote_static_key pins) fs
      | Some pinned \<Rightarrow>
          if eq_ignore_ascii_case pinned remote_static_key then (Inr (), fs) else (Inl KEY_CHANGED, fs))"

definition pin_hub_key :: "store_lib \<Rightarrow> host \<Rightarrow> string \<Rightarrow> string \<Rightarrow> string \<Rightarrow> files \<Rightarrow> unit res \<times> files" where
  "pin_hub_key lib h dir node_id remote_static_key fs =
     (case validate_pin node_id remote_static_key of
        Inl e \<Rightarrow> (Inl e, fs)
      | Inr _ \<Rightarrow>
          (case lock_state h dir fs of
             (Inl e, fs') \<Rightarrow> (Inl e, fs')
           | (Inr _, fs') \<Rightarrow>
               (case read_pins lib h dir fs' of
                  Inl e \<Rightarrow> (Inl e, fs')
                | Inr pins \<Rightarrow> pin_decision lib h dir node_id remote_static_key pins fs')))"

definition save_noise_pin :: "store_lib \<Rightarrow> host \<Rightarrow> string \<Rightarrow> string \<Rightarrow> string \<Rightarrow> files \<Rightarrow> unit res \<times> files" where
  "save_noise_pin lib h dir node_id public_key fs = pin_hub_key lib h dir node_id public_key fs"

definition forget_noise_pin :: "store_lib \<Rightarrow> host \<Rightarrow> string \<Rightarrow> string \<Rightarrow> files \<Rightarrow> unit res \<times> files" where
  "forget_noise_pin lib h dir node_id fs =
     (case lock_state h dir fs of
        (Inl e, fs') \<Rightarrow> (Inl e, fs')
      | (Inr _, fs') \<Rightarrow>
          (case read_pins lib h dir fs' of
             Inl e \<Rightarrow> (Inl e, fs')
           | Inr pins \<Rightarrow>
               if map_of pins node_id = None then (Inr (), fs')
               else write_pins lib h (dir, NOISE_PINS_FILENAME) (bt_remove node_id pins) fs'))"

section \<open>This client's key\<close>

definition decode_key :: "hex_lib \<Rightarrow> path \<Rightarrow> string \<Rightarrow> bytes res" where
  "decode_key hex p raw =
     (let bad = InvalidIdentity (''Noise key file '' @ display p @ '' is not a 32-byte hex key'')
      in case hex_decode hex (trim raw) of
           None \<Rightarrow> Inl bad
         | Some decoded \<Rightarrow> if length decoded = 32 then Inr decoded else Inl bad)"

definition load_existing_noise_key :: "hex_lib \<Rightarrow> host \<Rightarrow> path \<Rightarrow> files \<Rightarrow> bytes res" where
  "load_existing_noise_key hex h p fs =
     res_bind (validate_state_file h fs p ''Noise key file'') (\<lambda>_.
     res_bind (io_res (read_to_string h fs p)) (\<lambda>raw. decode_key hex p raw))"

definition create_noise_key :: "hex_lib \<Rightarrow> host \<Rightarrow> string \<Rightarrow> files \<Rightarrow> bytes res \<times> files" where
  "create_noise_key hex h dir fs =
     (let p = (dir, NOISE_KEY_FILENAME); key = map (random_byte h) [0..<32]
      in case mkdir_fault h dir of
           Some e \<Rightarrow> (Inl (io (OtherIo, e)), fs)
         | None \<Rightarrow>
             (case write_private_exclusive h p (hex_encode hex key) fs of
                (Inr _, fs') \<Rightarrow> (Inr key, fs')
              | (Inl e, fs') \<Rightarrow>
                  (case e of
                     Io AlreadyExists _ \<Rightarrow> (load_existing_noise_key hex h p fs', fs')
                   | _ \<Rightarrow> (Inl e, fs'))))"

definition load_or_create_noise_key :: "hex_lib \<Rightarrow> host \<Rightarrow> string \<Rightarrow> files \<Rightarrow> bytes res \<times> files" where
  "load_or_create_noise_key hex h dir fs =
     (let p = (dir, NOISE_KEY_FILENAME)
      in case lock_state h dir fs of
           (Inl e, fs') \<Rightarrow> (Inl e, fs')
         | (Inr _, fs') \<Rightarrow>
             (case validate_state_file h fs' p ''Noise key file'' of
                Inl e \<Rightarrow> (Inl e, fs')
              | Inr _ \<Rightarrow>
                  (case read_to_string h fs' p of
                     Inr raw \<Rightarrow> (decode_key hex p raw, fs')
                   | Inl e \<Rightarrow>
                       if fst e = NotFound then create_noise_key hex h dir fs'
                       else (Inl (io e), fs'))))"

section \<open>Adopting a legacy key\<close>

text \<open>
  The copy of an older folder's key, in its two critical sections: the legacy folder is read
  under its lock, the target is written under its own, and other processes may run in between.
\<close>

definition exists_at :: "host \<Rightarrow> files \<Rightarrow> path \<Rightarrow> bool" where
  "exists_at h fs p = (case symlink_metadata h fs p of Inr _ \<Rightarrow> True | Inl _ \<Rightarrow> False)"

definition is_file_at :: "host \<Rightarrow> files \<Rightarrow> path \<Rightarrow> bool" where
  "is_file_at h fs p = (case symlink_metadata h fs p of Inr n \<Rightarrow> is_file n | Inl _ \<Rightarrow> False)"

definition adopt_wanted :: "host \<Rightarrow> string \<Rightarrow> string \<Rightarrow> files \<Rightarrow> bool" where
  "adopt_wanted h target legacy fs \<longleftrightarrow>
     \<not> (exists_at h fs (target, NOISE_KEY_FILENAME) \<or> \<not> is_file_at h fs (legacy, NOISE_KEY_FILENAME))
     \<and> (case (canonicalize h target, canonicalize h legacy) of
          (Some left, Some right) \<Rightarrow> left \<noteq> right
        | _ \<Rightarrow> True)"

definition adopt_read ::
    "store_lib \<Rightarrow> hex_lib \<Rightarrow> host \<Rightarrow> string \<Rightarrow> string \<Rightarrow> files
     \<Rightarrow> (bytes \<times> (string, string) btree) option \<times> files" where
  "adopt_read lib hex h legacy node_id fs =
     (case lock_state h legacy fs of
        (Inl _, fs') \<Rightarrow> (None, fs')
      | (Inr _, fs') \<Rightarrow>
          ((case read_pins lib h legacy fs' of
              Inl _ \<Rightarrow> None
            | Inr pins \<Rightarrow>
                if map_of pins node_id = None then None
                else case load_existing_noise_key hex h (legacy, NOISE_KEY_FILENAME) fs' of
                       Inl _ \<Rightarrow> None
                     | Inr key \<Rightarrow> Some (key, pins)), fs'))"

definition adopt_key_write :: "hex_lib \<Rightarrow> host \<Rightarrow> string \<Rightarrow> bytes \<Rightarrow> files \<Rightarrow> bool res \<times> files" where
  "adopt_key_write hex h target key fs =
     (case write_private_exclusive h (target, NOISE_KEY_FILENAME) (hex_encode hex key) fs of
        (Inr _, fs') \<Rightarrow> (Inr True, fs')
      | (Inl e, fs') \<Rightarrow>
          (case e of Io AlreadyExists _ \<Rightarrow> (Inr False, fs') | _ \<Rightarrow> (Inl e, fs')))"

definition adopt_write ::
    "store_lib \<Rightarrow> hex_lib \<Rightarrow> host \<Rightarrow> string \<Rightarrow> bytes \<Rightarrow> (string, string) btree \<Rightarrow> files
     \<Rightarrow> bool res \<times> files" where
  "adopt_write lib hex h target key pins fs =
     (case lock_state h target fs of
        (Inl e, fs') \<Rightarrow> (Inl e, fs')
      | (Inr _, fs') \<Rightarrow>
          if exists_at h fs' (target, NOISE_KEY_FILENAME) then (Inr False, fs')
          else case read_pins lib h target fs' of
                 Inl e \<Rightarrow> (Inl e, fs')
               | Inr existing \<Rightarrow>
                   if existing = []
                   then case write_pins lib h (target, NOISE_PINS_FILENAME) pins fs' of
                          (Inl e, fs'') \<Rightarrow> (Inl e, fs'')
                        | (Inr _, fs'') \<Rightarrow> adopt_key_write hex h target key fs''
                   else adopt_key_write hex h target key fs')"

definition adopt_legacy_key ::
    "store_lib \<Rightarrow> hex_lib \<Rightarrow> host \<Rightarrow> string \<Rightarrow> string \<Rightarrow> string \<Rightarrow> files \<Rightarrow> bool res \<times> files" where
  "adopt_legacy_key lib hex h target legacy node_id fs =
     (if \<not> adopt_wanted h target legacy fs then (Inr False, fs)
      else case adopt_read lib hex h legacy node_id fs of
             (None, fs') \<Rightarrow> (Inr False, fs')
           | (Some (key, pins), fs') \<Rightarrow> adopt_write lib hex h target key pins fs')"

section \<open>The cache of derived keys\<close>

definition read_psk_cache :: "store_lib \<Rightarrow> host \<Rightarrow> string \<Rightarrow> files \<Rightarrow> (string, string) btree res" where
  "read_psk_cache lib h dir fs =
     (let p = (dir, NOISE_PSK_FILENAME)
      in res_bind (validate_state_file h fs p ''Noise PSK cache'') (\<lambda>_.
         case read_to_string h fs p of
           Inr raw \<Rightarrow>
             res_bind (assert_secure_secret_file h fs p ''Noise PSK cache'') (\<lambda>_.
               Inr (case parse_strings lib raw of Inl _ \<Rightarrow> [] | Inr cache \<Rightarrow> cache))
         | Inl e \<Rightarrow> if fst e = NotFound then Inr [] else Inl (io e)))"

definition write_psk_cache :: "store_lib \<Rightarrow> host \<Rightarrow> path \<Rightarrow> (string, string) btree \<Rightarrow> files \<Rightarrow> unit res \<times> files" where
  "write_psk_cache lib h p cache fs = write_strings lib h p cache fs"

definition cached_psk :: "hex_lib \<Rightarrow> (string, string) btree \<Rightarrow> string \<Rightarrow> bytes option" where
  "cached_psk hex cache node_id =
     (case map_of cache node_id of
        None \<Rightarrow> None
      | Some encoded \<Rightarrow>
          (case hex_decode hex (trim encoded) of
             None \<Rightarrow> None
           | Some raw \<Rightarrow> if length raw = 32 then Some raw else None))"

definition load_cached_psk ::
    "store_lib \<Rightarrow> hex_lib \<Rightarrow> host \<Rightarrow> string \<Rightarrow> string \<Rightarrow> files \<Rightarrow> bytes option res \<times> files" where
  "load_cached_psk lib hex h dir node_id fs =
     (if trim node_id = [] then (Inr None, fs)
      else case lock_state h dir fs of
             (Inl e, fs') \<Rightarrow> (Inl e, fs')
           | (Inr _, fs') \<Rightarrow>
               (res_bind (read_psk_cache lib h dir fs') (\<lambda>cache. Inr (cached_psk hex cache node_id)), fs'))"

definition save_cached_psk ::
    "store_lib \<Rightarrow> hex_lib \<Rightarrow> host \<Rightarrow> string \<Rightarrow> string \<Rightarrow> bytes \<Rightarrow> files \<Rightarrow> unit res \<times> files" where
  "save_cached_psk lib hex h dir node_id psk fs =
     (if trim node_id = [] then (Inr (), fs)
      else case lock_state h dir fs of
             (Inl e, fs') \<Rightarrow> (Inl e, fs')
           | (Inr _, fs') \<Rightarrow>
               (case read_psk_cache lib h dir fs' of
                  Inl e \<Rightarrow> (Inl e, fs')
                | Inr cache \<Rightarrow>
                    (let encoded = hex_encode hex psk
                     in if map_of cache node_id = Some encoded then (Inr (), fs')
                        else write_psk_cache lib h (dir, NOISE_PSK_FILENAME)
                               (bt_insert node_id encoded cache) fs')))"

definition forget_cached_psk ::
    "store_lib \<Rightarrow> host \<Rightarrow> string \<Rightarrow> string \<Rightarrow> files \<Rightarrow> unit res \<times> files" where
  "forget_cached_psk lib h dir node_id fs =
     (case lock_state h dir fs of
        (Inl e, fs') \<Rightarrow> (Inl e, fs')
      | (Inr _, fs') \<Rightarrow>
          (case read_psk_cache lib h dir fs' of
             Inl e \<Rightarrow> (Inl e, fs')
           | Inr cache \<Rightarrow>
               if map_of cache node_id = None then (Inr (), fs')
               else write_psk_cache lib h (dir, NOISE_PSK_FILENAME) (bt_remove node_id cache) fs'))"

section \<open>What the operations touch\<close>

text \<open>
  What the libraries document: a map of strings parses back as it was printed, a parsed object is
  an ordered map, and a hex string decodes to the bytes it encodes.
\<close>

definition store_laws :: "store_lib \<Rightarrow> hex_lib \<Rightarrow> bool" where
  "store_laws lib hex \<longleftrightarrow>
     (\<forall>m s. bt_inv m \<longrightarrow> pretty_strings lib m = Inr s \<longrightarrow> parse_strings lib (s @ NEWLINE) = Inr m)
     \<and> (\<forall>s m. parse_strings lib s = Inr m \<longrightarrow> bt_inv m)
     \<and> (\<forall>b. hex_decode hex (trim (hex_encode hex b)) = Some b)"

lemma staging_not_trusted:
  "staging_name h n \<noteq> NOISE_PINS_FILENAME" "staging_name h n \<noteq> NOISE_KEY_FILENAME"
  "staging_name h n \<noteq> NOISE_PSK_FILENAME"
proof -
  have "staging_name h n = s \<Longrightarrow> drop (length s - 4) s = ''.tmp''" for s
    using staging_name_suffix [of h n] by simp
  then show "staging_name h n \<noteq> NOISE_PINS_FILENAME" "staging_name h n \<noteq> NOISE_KEY_FILENAME"
      "staging_name h n \<noteq> NOISE_PSK_FILENAME"
    by (force simp: NOISE_PINS_FILENAME_def NOISE_KEY_FILENAME_def NOISE_PSK_FILENAME_def)+
qed

lemma file_names_differ [simp]:
  "NOISE_PINS_FILENAME \<noteq> NOISE_KEY_FILENAME" "NOISE_KEY_FILENAME \<noteq> NOISE_PINS_FILENAME"
  "NOISE_PINS_FILENAME \<noteq> NOISE_PSK_FILENAME" "NOISE_PSK_FILENAME \<noteq> NOISE_PINS_FILENAME"
  "NOISE_KEY_FILENAME \<noteq> NOISE_PSK_FILENAME" "NOISE_PSK_FILENAME \<noteq> NOISE_KEY_FILENAME"
  "NOISE_PINS_FILENAME \<noteq> LOCK_FILE" "NOISE_KEY_FILENAME \<noteq> LOCK_FILE" "NOISE_PSK_FILENAME \<noteq> LOCK_FILE"
  "LOCK_FILE \<noteq> NOISE_PINS_FILENAME" "LOCK_FILE \<noteq> NOISE_KEY_FILENAME" "LOCK_FILE \<noteq> NOISE_PSK_FILENAME"
  by (simp_all add: NOISE_PINS_FILENAME_def NOISE_KEY_FILENAME_def NOISE_PSK_FILENAME_def LOCK_FILE_def)

definition trusted_names :: "string set" where
  "trusted_names = {NOISE_PINS_FILENAME, NOISE_KEY_FILENAME, NOISE_PSK_FILENAME}"

lemma trusted_names_mem [simp]:
  "NOISE_PINS_FILENAME \<in> trusted_names" "NOISE_KEY_FILENAME \<in> trusted_names"
  "NOISE_PSK_FILENAME \<in> trusted_names"
  by (simp_all add: trusted_names_def)

lemma trusted_not_staging: "snd q \<in> trusted_names \<Longrightarrow> q \<noteq> (d, staging_name h n)"
  using staging_not_trusted by (auto simp: trusted_names_def)

lemma lock_state_other: "q \<noteq> (dir, LOCK_FILE) \<Longrightarrow> snd (lock_state h dir fs) q = fs q"
  by (auto simp: lock_state_def Let_def split: sum.split option.split)

lemma lock_state_trusted: "lock_state h dir fs = (r, fs') \<Longrightarrow> snd q \<in> trusted_names \<Longrightarrow> fs' q = fs q"
  using lock_state_other [of q dir h fs] by (cases q) (auto simp: trusted_names_def)

lemma publish_trusted_other:
  "publish_private h p contents exclusive fs = (r, fs') \<Longrightarrow> snd q \<in> trusted_names \<Longrightarrow> q \<noteq> p \<Longrightarrow> fs' q = fs q"
  using publish_private_other [of q p h contents exclusive fs]
    trusted_not_staging [of q "fst p" h "snd p"] by simp

lemma write_strings_other:
  "write_strings lib h p m fs = (r, fs') \<Longrightarrow> snd q \<in> trusted_names \<Longrightarrow> q \<noteq> p \<Longrightarrow> fs' q = fs q"
  by (auto simp: write_strings_def write_private_def dest: publish_trusted_other split: option.splits sum.splits)

lemma write_strings_target:
  assumes "write_strings lib h p m fs = (r, fs')"
  shows "(fs' p = fs p \<or> (\<exists>s. pretty_strings lib m = Inr s \<and> fs' p = Some (Regular 0x180 (s @ NEWLINE))))
    \<and> (r = Inr () \<longrightarrow> (\<exists>s. pretty_strings lib m = Inr s \<and> fs' p = Some (Regular 0x180 (s @ NEWLINE))))"
proof (cases "mkdir_fault h (fst p)")
  case None
  show ?thesis
  proof (cases "pretty_strings lib m")
    case (Inr s)
    have "publish_private h p (s @ NEWLINE) False fs = (r, fs')"
      using assms None Inr by (simp add: write_strings_def write_private_def)
    with publish_private_target [of h p "s @ NEWLINE" False fs] Inr show ?thesis by auto
  qed (use assms None in \<open>auto simp: write_strings_def\<close>)
qed (use assms in \<open>auto simp: write_strings_def\<close>)

lemma private_0600 [simp]: "private_mode 0x180"
  by (simp add: private_mode_def)

lemma validate_state_file_ok:
  "validate_state_file h fs p label = Inr u \<Longrightarrow>
   fs p = None \<or> (\<exists>m c. fs p = Some (Regular m c) \<and> private_mode m)"
  by (auto simp: validate_state_file_def symlink_metadata_def faulty_def assert_secure_secret_file_def
      is_file_def split: option.splits node.splits if_splits)

lemma read_to_string_cases:
  "read_to_string h fs p = Inr raw \<Longrightarrow> \<exists>m. fs p = Some (Regular m raw)"
  "read_to_string h fs p = Inl (NotFound, e) \<Longrightarrow> fs p = None"
  by (auto simp: read_to_string_def faulty_def split: option.splits node.splits)

section \<open>What the store says\<close>

text \<open>The pins of a folder: what its pin file says when it is one to be trusted.\<close>

definition trusts :: "store_lib \<Rightarrow> string \<Rightarrow> files \<Rightarrow> string \<Rightarrow> string option" where
  "trusts lib dir fs node_id =
     (case fs (dir, NOISE_PINS_FILENAME) of
        Some (Regular m raw) \<Rightarrow>
          if private_mode m
          then case parse_strings lib raw of
                 Inr pins \<Rightarrow> if validate_pins pins = Inr () then map_of pins node_id else None
               | Inl _ \<Rightarrow> None
          else None
      | _ \<Rightarrow> None)"

definition stored_key :: "hex_lib \<Rightarrow> string \<Rightarrow> files \<Rightarrow> bytes option" where
  "stored_key hex dir fs =
     (case fs (dir, NOISE_KEY_FILENAME) of
        Some (Regular m raw) \<Rightarrow>
          if private_mode m
          then case decode_key hex (dir, NOISE_KEY_FILENAME) raw of Inr key \<Rightarrow> Some key | Inl _ \<Rightarrow> None
          else None
      | _ \<Rightarrow> None)"

lemma trusts_cong: "fs (dir, NOISE_PINS_FILENAME) = fs' (dir, NOISE_PINS_FILENAME) \<Longrightarrow>
    trusts lib dir fs = trusts lib dir fs'"
  by (simp add: trusts_def fun_eq_iff)

lemma stored_key_cong: "fs (dir, NOISE_KEY_FILENAME) = fs' (dir, NOISE_KEY_FILENAME) \<Longrightarrow>
    stored_key hex dir fs = stored_key hex dir fs'"
  by (simp add: stored_key_def)

lemma read_pins_ok:
  assumes "read_pins lib h dir fs = Inr pins"
  shows "map_of pins = trusts lib dir fs" and "validate_pins pins = Inr ()"
    and "store_laws lib hex \<Longrightarrow> bt_inv pins"
proof -
  let ?p = "(dir, NOISE_PINS_FILENAME)"
  have v: "fs ?p = None \<or> (\<exists>m c. fs ?p = Some (Regular m c) \<and> private_mode m)"
    using assms validate_state_file_ok [of h fs ?p "''Noise pin file''"]
    by (auto simp: read_pins_def Let_def res_bind_eq_Inr)
  have "map_of pins = trusts lib dir fs \<and> validate_pins pins = Inr ()
      \<and> (store_laws lib hex \<longrightarrow> bt_inv pins)"
  proof (cases "read_to_string h fs ?p")
    case (Inl e)
    then have "pins = []" "fst e = NotFound"
      using assms by (auto simp: read_pins_def Let_def res_bind_eq_Inr split: if_splits)
    then show ?thesis
      using Inl read_to_string_cases(2) [of h fs ?p "snd e"] by (cases e) (auto simp: trusts_def)
  next
    case (Inr raw)
    then have "parse_strings lib raw = Inr pins" "validate_pins pins = Inr ()"
      using assms by (auto simp: read_pins_def Let_def res_bind_eq_Inr split: sum.splits)
    with v read_to_string_cases(1) [OF Inr] show ?thesis
      by (auto simp: trusts_def fun_eq_iff store_laws_def)
  qed
  then show "map_of pins = trusts lib dir fs" "validate_pins pins = Inr ()"
      "store_laws lib hex \<Longrightarrow> bt_inv pins" by blast+
qed

lemma validate_pins_iff: "validate_pins pins = Inr () \<longleftrightarrow> (\<forall>(n, k) \<in> set pins. validate_pin n k = Inr ())"
  by (induction pins rule: validate_pins.induct) (auto simp: res_bind_eq_Inr)

lemma validate_pins_insert:
  "validate_pins pins = Inr () \<Longrightarrow> validate_pin n k = Inr () \<Longrightarrow> validate_pins (bt_insert n k pins) = Inr ()"
  using bt_set_insert [of n k pins] by (fastforce simp: validate_pins_iff)

lemma validate_pins_remove:
  "validate_pins pins = Inr () \<Longrightarrow> validate_pins (bt_remove n pins) = Inr ()"
  by (auto simp: validate_pins_iff bt_remove_def)

lemma write_pins_trusts:
  assumes "write_pins lib h (dir, NOISE_PINS_FILENAME) pins fs = (r, fs')"
    and "store_laws lib hex" and "bt_inv pins" and "validate_pins pins = Inr ()"
  shows "(trusts lib dir fs' = trusts lib dir fs \<or> trusts lib dir fs' = map_of pins)
    \<and> (r = Inr () \<longrightarrow> trusts lib dir fs' = map_of pins)"
proof -
  let ?p = "(dir, NOISE_PINS_FILENAME)"
  have "trusts lib dir fs' = map_of pins"
    if "pretty_strings lib pins = Inr s" "fs' ?p = Some (Regular 0x180 (s @ NEWLINE))" for s
    using that assms(2-4) by (simp add: trusts_def fun_eq_iff store_laws_def)
  then show ?thesis
    using write_strings_target [OF assms(1) [unfolded write_pins_def]] trusts_cong [of fs' dir fs lib]
    by blast
qed

end
