(* ===== verification/Sample_Libs.thy ===== *)
theory Sample_Libs
  imports Noise_Store Canonical_Json
begin

text \<open>
  Concrete instances of the libraries the SDK calls, for the witnesses: a hex codec, and a codec
  of string maps that marks each character, so that it can be read back. They show that what the
  theorems rely on can hold.
\<close>

section \<open>Hexadecimal\<close>

definition hex_text :: "bytes \<Rightarrow> string" where
  "hex_text bs = concat (map (\<lambda>b. hex_byte (unat b)) bs)"

fun unhex :: "string \<Rightarrow> bytes option" where
  "unhex [] = Some []"
| "unhex [a] = None"
| "unhex (a # b # r) =
     (if is_ascii_hexdigit a \<and> is_ascii_hexdigit b
      then map_option (Cons (word_of_nat (16 * hex_val a + hex_val b))) (unhex r) else None)"

definition sample_hex :: hex_lib where
  "sample_hex = \<lparr>hex_encode = hex_text, hex_decode = unhex\<rparr>"

lemma digit_char_code:
  "n < 16 \<Longrightarrow> of_char (digit_char n) = (if n < 10 then 48 + n else 87 + n :: nat)"
  by (simp add: digit_char_def)

lemma digit_char_hex [simp]: "n < 16 \<Longrightarrow> is_ascii_hexdigit (digit_char n)"
  by (simp add: is_ascii_hexdigit_def digit_char_code Let_def)

lemma digit_char_plain: "n < 16 \<Longrightarrow> plain_char (digit_char n)"
  by (simp add: plain_char_def digit_char_code)

lemma unhex_hex_text: "unhex (hex_text bs) = Some bs"
proof (induction bs)
  case Nil
  then show ?case by (simp add: hex_text_def)
next
  case (Cons b bs)
  have b: "unat b < 256" using unsigned_less [of b] by simp
  then have hi: "unat b div 16 < 16" by simp
  have lo: "unat b mod 16 < 16" by simp
  have "16 * (unat b div 16) + unat b mod 16 = unat b" by simp
  moreover have "hex_text (b # bs) = digit_char (unat b div 16) # digit_char (unat b mod 16) # hex_text bs"
    by (simp add: hex_text_def hex_byte_def)
  ultimately show ?case
    using Cons.IH digit_char_hex [OF hi] digit_char_hex [OF lo] hex_val_digit [OF hi] hex_val_digit [OF lo]
    by simp
qed

lemma hex_text_digits: "c \<in> set (hex_text bs) \<Longrightarrow> \<exists>n < 16. c = digit_char n"
proof -
  assume "c \<in> set (hex_text bs)"
  then obtain b where b: "b \<in> set bs" "c = digit_char (unat b div 16) \<or> c = digit_char (unat b mod 16)"
    by (auto simp: hex_text_def hex_byte_def)
  have "unat b < 256" using unsigned_less [of b] by simp
  then have "unat b div 16 < 16" "unat b mod 16 < 16" by simp_all
  with b(2) show ?thesis by blast
qed

lemma hex_text_plain:
  assumes "c \<in> set (hex_text bs)"
  shows "plain_char c"
proof -
  obtain n where "n < 16" "c = digit_char n" using hex_text_digits [OF assms] by blast
  then show ?thesis using digit_char_plain by simp
qed

lemma trim_hex_text: "trim (hex_text bs) = hex_text bs"
proof (cases "hex_text bs = []")
  case False
  then show ?thesis by (rule trim_plain) (rule hex_text_plain, rule hd_in_set [OF False],
        rule hex_text_plain, rule last_in_set [OF False])
qed simp

section \<open>Maps of strings\<close>

definition mark_string :: "string \<Rightarrow> string" where
  "mark_string s = concat (map (\<lambda>c. [CHR ''x'', c]) s) @ '';''"

definition mark_map :: "(string \<times> string) list \<Rightarrow> string" where
  "mark_map m = concat (map (\<lambda>(k, v). mark_string k @ mark_string v) m)"

fun unmark_string :: "string \<Rightarrow> (string \<times> string) option" where
  "unmark_string [] = None"
| "unmark_string [x] = (if x = CHR '';'' then Some ([], []) else None)"
| "unmark_string (x # c # r) =
     (if x = CHR '';'' then Some ([], c # r)
      else map_option (\<lambda>(s, t). (c # s, t)) (unmark_string r))"

fun unmark_map :: "nat \<Rightarrow> string \<Rightarrow> (string \<times> string) list option" where
  "unmark_map 0 s = None"
| "unmark_map (Suc n) s =
     (if s = NEWLINE then Some []
      else case unmark_string s of
             None \<Rightarrow> None
           | Some (k, t) \<Rightarrow>
               (case unmark_string t of
                  None \<Rightarrow> None
                | Some (v, u) \<Rightarrow> map_option (Cons (k, v)) (unmark_map n u)))"

definition sample_strings :: store_lib where
  "sample_strings =
     \<lparr>parse_strings = (\<lambda>s. case unmark_map (length s) s of
        Some m \<Rightarrow> if bt_inv m then Inr m else Inl ''keys'' | None \<Rightarrow> Inl ''syntax''),
      pretty_strings = (\<lambda>m. Inr (mark_map m))\<rparr>"

lemma unmark_mark: "unmark_string (mark_string s @ t) = Some (s, t)"
  by (induction s) (cases t, simp_all add: mark_string_def)

lemma unmark_mark_map:
  "length m < n \<Longrightarrow> unmark_map n (mark_map m @ NEWLINE) = Some m"
proof (induction m arbitrary: n)
  case Nil
  then show ?case by (cases n) (simp_all add: mark_map_def)
next
  case (Cons p m)
  obtain k v where p: "p = (k, v)" by (cases p)
  obtain n' where n': "n = Suc n'" "length m < n'" using Cons.prems by (cases n) auto
  have app: "mark_map (p # m) @ NEWLINE = mark_string k @ mark_string v @ mark_map m @ NEWLINE"
    by (simp add: mark_map_def p)
  have "mark_string k @ t \<noteq> NEWLINE" for t
    by (cases k) (simp_all add: mark_string_def NEWLINE_def)
  then show ?case unfolding app n'(1) using Cons.IH [OF n'(2)] by (simp add: unmark_mark p)
qed

lemma length_mark_map: "length m \<le> length (mark_map m)"
  by (induction m) (auto simp: mark_map_def mark_string_def)

lemma sample_laws: "store_laws sample_strings sample_hex"
proof -
  have "unmark_map (length (mark_map m @ NEWLINE)) (mark_map m @ NEWLINE) = Some m" for m
    using length_mark_map [of m] by (intro unmark_mark_map) (simp add: NEWLINE_def)
  then show ?thesis
    by (auto simp: store_laws_def sample_strings_def sample_hex_def unhex_hex_text trim_hex_text
        split: option.splits if_splits)
qed

end
