(* ===== verification/Noise_Trust.thy ===== *)
theory Noise_Trust
  imports Sample_Libs
begin

text \<open>
  What the store of \<open>src/src/noise_store.rs\<close> promises, over any interleaving of its operations in
  any folders and with any faults of the system: a hub's pin and this client's key are decided
  once (the interface \<open>first_use\<close>, interpreted twice), and the cache of derived keys gives back
  what was saved.
\<close>

section \<open>What each operation does to the pins and to the key\<close>

lemma trusts_lock: "lock_state h d fs = (r, fs') \<Longrightarrow> trusts lib dir fs' = trusts lib dir fs"
  by (rule trusts_cong) (simp add: lock_state_trusted)

lemma key_lock: "lock_state h d fs = (r, fs') \<Longrightarrow> stored_key hex dir fs' = stored_key hex dir fs"
  by (rule stored_key_cong) (simp add: lock_state_trusted)

lemma trusts_write_strings:
  "write_strings lib h (d, name) m fs = (r, fs') \<Longrightarrow> (d, name) \<noteq> (dir, NOISE_PINS_FILENAME) \<Longrightarrow>
   trusts lib' dir fs' = trusts lib' dir fs"
  by (rule trusts_cong) (auto dest: write_strings_other [of _ _ _ _ _ _ _ "(dir, NOISE_PINS_FILENAME)"])

lemma key_write_strings:
  "write_strings lib h (d, name) m fs = (r, fs') \<Longrightarrow> name \<noteq> NOISE_KEY_FILENAME \<Longrightarrow>
   stored_key hex dir fs' = stored_key hex dir fs"
  by (rule stored_key_cong) (auto dest: write_strings_other [of _ _ _ _ _ _ _ "(dir, NOISE_KEY_FILENAME)"])

lemma trusts_key_write:
  "write_private_exclusive h (d, NOISE_KEY_FILENAME) c fs = (r, fs') \<Longrightarrow>
   trusts lib dir fs' = trusts lib dir fs"
  unfolding write_private_exclusive_def
  by (rule trusts_cong) (simp add: publish_trusted_other [of h "(d, NOISE_KEY_FILENAME)" c True fs r])

lemma key_write:
  assumes "write_private_exclusive h (d, NOISE_KEY_FILENAME) c fs = (r, fs')"
    and "stored_key hex dir fs = Some k"
  shows "stored_key hex dir fs' = Some k"
proof -
  have "fs' (dir, NOISE_KEY_FILENAME) = fs (dir, NOISE_KEY_FILENAME)"
  proof (cases "d = dir")
    case True
    moreover have "fs (dir, NOISE_KEY_FILENAME) \<noteq> None"
      using assms(2) by (auto simp: stored_key_def split: option.splits)
    ultimately show ?thesis
      using assms(1) publish_private_target [of h "(dir, NOISE_KEY_FILENAME)" c True fs]
      by (simp add: write_private_exclusive_def)
  next
    case False
    then show ?thesis
      using assms(1) publish_trusted_other [of h "(d, NOISE_KEY_FILENAME)" c True fs r fs'
        "(dir, NOISE_KEY_FILENAME)"]
      by (simp add: write_private_exclusive_def)
  qed
  from stored_key_cong [of fs' dir fs hex, OF this] assms(2) show ?thesis by simp
qed

lemma pin_hub_key_other:
  "pin_hub_key lib h d n k fs = (r, fs') \<Longrightarrow> d \<noteq> dir \<Longrightarrow> trusts lib dir fs' = trusts lib dir fs"
  by (auto simp: pin_hub_key_def pin_decision_def write_pins_def trusts_lock trusts_write_strings
      split: sum.splits prod.splits option.splits if_splits)

lemma pin_hub_key_same:
  assumes "store_laws lib hex" and "pin_hub_key lib h dir n k fs = (r, fs')"
  shows "(trusts lib dir fs' = trusts lib dir fs
          \<or> trusts lib dir fs n = None \<and> trusts lib dir fs' = (trusts lib dir fs)(n \<mapsto> k))
    \<and> (r = Inr () \<longrightarrow>
        (case trusts lib dir fs n of
           None \<Rightarrow> trusts lib dir fs' n = Some k
         | Some w \<Rightarrow> trusts lib dir fs' = trusts lib dir fs \<and> eq_ignore_ascii_case w k))
    \<and> (\<forall>w. trusts lib dir fs n = Some w \<longrightarrow> \<not> eq_ignore_ascii_case w k \<longrightarrow> r \<noteq> Inr ())"
proof (cases "validate_pin n k")
  case (Inl e)
  then show ?thesis using assms(2) by (auto simp: pin_hub_key_def)
next
  case v: (Inr u)
  obtain l fs1 where l: "lock_state h dir fs = (l, fs1)" by fastforce
  note t1 = trusts_lock [OF l, of lib dir]
  show ?thesis
  proof (cases "\<exists>pins. l = Inr () \<and> read_pins lib h dir fs1 = Inr pins")
    case False
    then show ?thesis
      using assms(2) v l t1 by (auto simp: pin_hub_key_def split: sum.splits)
  next
    case True
    then obtain pins where r: "l = Inr ()" "read_pins lib h dir fs1 = Inr pins" by blast
    note p = read_pins_ok [OF r(2)]
    have inv: "bt_inv pins" by (rule p(3) [OF assms(1)])
    have d: "pin_decision lib h dir n k pins fs1 = (r, fs')"
      using assms(2) v l r by (simp add: pin_hub_key_def)
    show ?thesis
    proof (cases "map_of pins n")
      case None
      then have "write_pins lib h (dir, NOISE_PINS_FILENAME) (bt_insert n k pins) fs1 = (r, fs')"
        using d by (simp add: pin_decision_def)
      from write_pins_trusts [OF this assms(1) bt_inv_insert [OF inv]
          validate_pins_insert [OF p(2)]] v None p(1) t1
      show ?thesis by auto
    next
      case (Some w)
      then show ?thesis using d p(1) t1 by (auto simp: pin_decision_def split: if_splits)
    qed
  qed
qed

lemma forget_noise_pin_other:
  "forget_noise_pin lib h d n fs = (r, fs') \<Longrightarrow> d \<noteq> dir \<Longrightarrow> trusts lib dir fs' = trusts lib dir fs"
  by (auto simp: forget_noise_pin_def write_pins_def trusts_lock trusts_write_strings
      split: sum.splits prod.splits if_splits)

lemma forget_noise_pin_same:
  assumes "store_laws lib hex" and "forget_noise_pin lib h dir n fs = (r, fs')"
  shows "(trusts lib dir fs' = trusts lib dir fs \<or> trusts lib dir fs' = (trusts lib dir fs)(n := None))
    \<and> (r = Inr () \<longrightarrow> trusts lib dir fs' = (trusts lib dir fs)(n := None))"
proof -
  obtain l fs1 where l: "lock_state h dir fs = (l, fs1)" by fastforce
  note t1 = trusts_lock [OF l, of lib dir]
  show ?thesis
  proof (cases "\<exists>pins. l = Inr () \<and> read_pins lib h dir fs1 = Inr pins")
    case False
    then show ?thesis
      using assms(2) l t1 by (auto simp: forget_noise_pin_def split: sum.splits)
  next
    case True
    then obtain pins where r: "l = Inr ()" "read_pins lib h dir fs1 = Inr pins" by blast
    note p = read_pins_ok [OF r(2)]
    have inv: "bt_inv pins" by (rule p(3) [OF assms(1)])
    show ?thesis
    proof (cases "map_of pins n")
      case None
      then have "fs' = fs1" using assms(2) l r by (simp add: forget_noise_pin_def)
      then show ?thesis using None p(1) t1 by (auto simp: fun_upd_idem)
    next
      case (Some w)
      then have "write_pins lib h (dir, NOISE_PINS_FILENAME) (bt_remove n pins) fs1 = (r, fs')"
        using assms(2) l r by (simp add: forget_noise_pin_def)
      from write_pins_trusts [OF this assms(1) bt_inv_remove [OF inv]
          validate_pins_remove [OF p(2)]] p(1) t1
      show ?thesis by simp
    qed
  qed
qed

lemma load_or_create_trusts:
  "load_or_create_noise_key hex h d fs = (r, fs') \<Longrightarrow> trusts lib dir fs' = trusts lib dir fs"
  by (auto simp: load_or_create_noise_key_def create_noise_key_def Let_def trusts_lock trusts_key_write
      split: sum.splits prod.splits option.splits if_splits thalovant_error.splits io_kind.splits)

lemma adopt_key_write_trusts:
  "adopt_key_write hex h target key fs = (r, fs') \<Longrightarrow> trusts lib dir fs' = trusts lib dir fs"
  by (auto simp: adopt_key_write_def trusts_key_write
      split: sum.splits prod.splits thalovant_error.splits io_kind.splits)

lemma adopt_write_trusts:
  assumes "adopt_write lib hex h target key pins fs = (r, fs')" and "trusts lib dir fs n = Some w"
  shows "trusts lib dir fs' n = Some w"
proof -
  obtain l fs1 where l: "lock_state h target fs = (l, fs1)" by fastforce
  have t1: "trusts lib dir fs1 n = Some w" using trusts_lock [OF l, of lib dir] assms(2) by simp
  have tw: "trusts lib dir fs2 n = Some w"
    if "write_strings lib h (target, NOISE_PINS_FILENAME) pins fs1 = (r2, fs2)"
      and "read_pins lib h target fs1 = Inr []" for r2 fs2
  proof (cases "target = dir")
    case True
    then have "trusts lib dir fs1 = map_of []"
      using read_pins_ok(1) [of lib h dir fs1 "[]"] that(2) by metis
    with t1 show ?thesis by simp
  next
    case False
    with trusts_write_strings [OF that(1), of dir lib] t1 show ?thesis by simp
  qed
  show ?thesis
    using assms(1) l t1
    by (auto simp: adopt_write_def write_pins_def adopt_key_write_trusts dest: tw
        split: sum.splits prod.splits if_splits)
qed

lemma save_psk_trusts:
  "save_cached_psk lib hex h d n psk fs = (r, fs') \<Longrightarrow> trusts lib' dir fs' = trusts lib' dir fs"
  by (auto simp: save_cached_psk_def write_psk_cache_def Let_def trusts_lock trusts_write_strings
      split: sum.splits prod.splits if_splits)

lemma forget_psk_trusts:
  "forget_cached_psk lib h d n fs = (r, fs') \<Longrightarrow> trusts lib' dir fs' = trusts lib' dir fs"
  by (auto simp: forget_cached_psk_def write_psk_cache_def trusts_lock trusts_write_strings
      split: sum.splits prod.splits if_splits)

lemma load_or_create_key:
  assumes "store_laws lib hex" and "load_or_create_noise_key hex h d fs = (r, fs')"
    and "stored_key hex dir fs = Some k"
  shows "stored_key hex dir fs' = Some k"
proof -
  obtain l fs1 where l: "lock_state h d fs = (l, fs1)" by fastforce
  have k1: "stored_key hex dir fs1 = Some k" using key_lock [OF l] assms(3) by simp
  show ?thesis
    using assms(2) l k1
    by (auto simp: load_or_create_noise_key_def create_noise_key_def Let_def
        split: sum.splits prod.splits option.splits if_splits thalovant_error.splits io_kind.splits
        intro: key_write)
qed

lemma load_existing_ok:
  assumes "load_existing_noise_key hex h (dir, NOISE_KEY_FILENAME) fs = Inr k"
  shows "stored_key hex dir fs = Some k"
proof -
  let ?p = "(dir, NOISE_KEY_FILENAME)"
  obtain raw where v: "validate_state_file h fs ?p ''Noise key file'' = Inr ()"
    and raw: "read_to_string h fs ?p = Inr raw" and k: "decode_key hex ?p raw = Inr k"
    using assms by (auto simp: load_existing_noise_key_def res_bind_eq_Inr)
  from validate_state_file_ok [OF v] read_to_string_cases(1) [OF raw] k show ?thesis
    by (auto simp: stored_key_def)
qed

lemma create_noise_key_stores:
  assumes "store_laws lib hex" and "create_noise_key hex h dir fs = (Inr k, fs')"
  shows "stored_key hex dir fs' = Some k"
proof -
  let ?p = "(dir, NOISE_KEY_FILENAME)" and ?key = "map (random_byte h) [0..<32]"
  obtain w fs2 where w: "publish_private h ?p (hex_encode hex ?key) True fs = (w, fs2)" by fastforce
  show ?thesis
  proof (cases w)
    case (Inr u)
    then have "k = ?key" "fs' = fs2"
      using assms(2) w
      by (auto simp: create_noise_key_def write_private_exclusive_def Let_def split: option.splits)
    moreover have "fs2 ?p = Some (Regular 0x180 (hex_encode hex ?key))"
      using publish_private_target [of h ?p "hex_encode hex ?key" True fs] w Inr by simp
    moreover have "hex_decode hex (trim (hex_encode hex ?key)) = Some ?key"
      using assms(1) by (simp add: store_laws_def)
    ultimately show ?thesis by (simp add: stored_key_def decode_key_def Let_def)
  next
    case (Inl e)
    then have "load_existing_noise_key hex h ?p fs2 = Inr k \<and> fs' = fs2"
      using assms(2) w
      by (auto simp: create_noise_key_def write_private_exclusive_def Let_def
          split: option.splits thalovant_error.splits io_kind.splits)
    with load_existing_ok show ?thesis by blast
  qed
qed

lemma load_or_create_stores:
  assumes "store_laws lib hex" and "load_or_create_noise_key hex h dir fs = (Inr k, fs')"
  shows "stored_key hex dir fs' = Some k"
proof -
  let ?p = "(dir, NOISE_KEY_FILENAME)"
  obtain l fs1 where l: "lock_state h dir fs = (l, fs1)" by fastforce
  have v: "validate_state_file h fs1 ?p ''Noise key file'' = Inr ()"
    using assms(2) l by (auto simp: load_or_create_noise_key_def Let_def split: sum.splits)
  show ?thesis
  proof (cases "read_to_string h fs1 ?p")
    case (Inr raw)
    then have "decode_key hex ?p raw = Inr k" "fs' = fs1"
      using assms(2) l v by (auto simp: load_or_create_noise_key_def Let_def split: sum.splits)
    with validate_state_file_ok [OF v] read_to_string_cases(1) [OF Inr] show ?thesis
      by (auto simp: stored_key_def)
  next
    case (Inl e)
    then have "create_noise_key hex h dir fs1 = (Inr k, fs')"
      using assms(2) l v
      by (auto simp: load_or_create_noise_key_def Let_def split: sum.splits if_splits)
    with create_noise_key_stores [OF assms(1)] show ?thesis by blast
  qed
qed

lemma pin_key:
  "pin_hub_key lib h d n k fs = (r, fs') \<Longrightarrow> stored_key hex dir fs' = stored_key hex dir fs"
  by (auto simp: pin_hub_key_def pin_decision_def write_pins_def key_lock key_write_strings
      split: sum.splits prod.splits option.splits if_splits)

lemma forget_key:
  "forget_noise_pin lib h d n fs = (r, fs') \<Longrightarrow> stored_key hex dir fs' = stored_key hex dir fs"
  by (auto simp: forget_noise_pin_def write_pins_def key_lock key_write_strings
      split: sum.splits prod.splits if_splits)

lemma save_psk_key:
  "save_cached_psk lib hex' h d n psk fs = (r, fs') \<Longrightarrow> stored_key hex dir fs' = stored_key hex dir fs"
  by (auto simp: save_cached_psk_def write_psk_cache_def Let_def key_lock key_write_strings
      split: sum.splits prod.splits if_splits)

lemma forget_psk_key:
  "forget_cached_psk lib h d n fs = (r, fs') \<Longrightarrow> stored_key hex dir fs' = stored_key hex dir fs"
  by (auto simp: forget_cached_psk_def write_psk_cache_def key_lock key_write_strings
      split: sum.splits prod.splits if_splits)

lemma adopt_write_key:
  assumes "adopt_write lib hex h target key pins fs = (r, fs')" and "stored_key hex dir fs = Some k"
  shows "stored_key hex dir fs' = Some k"
proof -
  obtain l fs1 where l: "lock_state h target fs = (l, fs1)" by fastforce
  have k1: "stored_key hex dir fs1 = Some k" using key_lock [OF l] assms(2) by simp
  have kw: "adopt_key_write hex h target key fs2 = (r, fs') \<Longrightarrow> stored_key hex dir fs2 = Some k \<Longrightarrow>
      stored_key hex dir fs' = Some k" for fs2
    by (auto simp: adopt_key_write_def intro: key_write
        split: sum.splits prod.splits thalovant_error.splits io_kind.splits)
  show ?thesis
    using assms(1) l k1
    by (auto simp: adopt_write_def write_pins_def key_write_strings
        split: sum.splits prod.splits if_splits intro: kw)
qed

section \<open>Processes sharing the store\<close>

text \<open>
  One critical section each: any number of processes, each with its own host, run these in any
  order. \<open>Adopt_Target\<close> is the second section of \<open>adopt_legacy_key\<close>, with whatever key and pins
  the first one read.
\<close>

datatype store_op =
    Load_Pin host string string
  | Pin_Hub host string string string
  | Forget_Pin host string string
  | Load_Key host string
  | Adopt_Legacy host string string
  | Adopt_Target host string bytes "(string, string) btree"
  | Load_Psk host string string
  | Save_Psk host string string bytes
  | Forget_Psk host string string

fun store_step :: "store_lib \<Rightarrow> hex_lib \<Rightarrow> store_op \<Rightarrow> files \<Rightarrow> files" where
  "store_step lib hex (Load_Pin h d n) fs = snd (load_noise_pin lib h d n fs)"
| "store_step lib hex (Pin_Hub h d n k) fs = snd (pin_hub_key lib h d n k fs)"
| "store_step lib hex (Forget_Pin h d n) fs = snd (forget_noise_pin lib h d n fs)"
| "store_step lib hex (Load_Key h d) fs = snd (load_or_create_noise_key hex h d fs)"
| "store_step lib hex (Adopt_Legacy h d n) fs = snd (adopt_read lib hex h d n fs)"
| "store_step lib hex (Adopt_Target h d k pins) fs = snd (adopt_write lib hex h d k pins fs)"
| "store_step lib hex (Load_Psk h d n) fs = snd (load_cached_psk lib hex h d n fs)"
| "store_step lib hex (Save_Psk h d n psk) fs = snd (save_cached_psk lib hex h d n psk fs)"
| "store_step lib hex (Forget_Psk h d n) fs = snd (forget_cached_psk lib h d n fs)"

definition forgets :: "string \<Rightarrow> string \<Rightarrow> store_op \<Rightarrow> bool" where
  "forgets dir n o1 = (case o1 of Forget_Pin _ d n' \<Rightarrow> d = dir \<and> n' = n | _ \<Rightarrow> False)"

text \<open>The key a step trusted for a node, and the key a step gave out as this client's.\<close>

definition pinned_by :: "store_lib \<Rightarrow> string \<Rightarrow> string \<Rightarrow> store_op \<Rightarrow> files \<Rightarrow> string option" where
  "pinned_by lib dir n o1 fs =
     (case o1 of
        Pin_Hub h d n' k \<Rightarrow>
          if d = dir \<and> n' = n \<and> fst (pin_hub_key lib h d n' k fs) = Inr () then Some k else None
      | _ \<Rightarrow> None)"

definition key_given :: "hex_lib \<Rightarrow> string \<Rightarrow> store_op \<Rightarrow> files \<Rightarrow> bytes option" where
  "key_given hex dir o1 fs =
     (case o1 of
        Load_Key h d \<Rightarrow>
          if d = dir then case fst (load_or_create_noise_key hex h d fs) of Inr k \<Rightarrow> Some k | Inl _ \<Rightarrow> None
          else None
      | _ \<Rightarrow> None)"

lemma loads_trusts:
  "trusts lib' dir (snd (load_noise_pin lib h d n fs)) = trusts lib' dir fs"
  "trusts lib' dir (snd (load_cached_psk lib hex h d n fs)) = trusts lib' dir fs"
  "trusts lib' dir (snd (adopt_read lib hex h d n fs)) = trusts lib' dir fs"
  "stored_key hex' dir (snd (load_noise_pin lib h d n fs)) = stored_key hex' dir fs"
  "stored_key hex' dir (snd (load_cached_psk lib hex h d n fs)) = stored_key hex' dir fs"
  "stored_key hex' dir (snd (adopt_read lib hex h d n fs)) = stored_key hex' dir fs"
  by (simp_all add: load_noise_pin_def load_cached_psk_def adopt_read_def trusts_lock key_lock
      split: sum.split prod.split)

lemma store_step_keeps_pin:
  assumes "store_laws lib hex" and "trusts lib dir fs n = Some w" and "\<not> forgets dir n o1"
  shows "trusts lib dir (store_step lib hex o1 fs) n = Some w"
proof (cases o1)
  case (Pin_Hub h d n' k)
  obtain r fs' where p: "pin_hub_key lib h d n' k fs = (r, fs')" by fastforce
  show ?thesis
  proof (cases "d = dir")
    case True
    with pin_hub_key_same [OF assms(1), of h dir n' k fs r fs'] p Pin_Hub assms(2) show ?thesis by auto
  next
    case False
    with pin_hub_key_other [OF p] Pin_Hub p assms(2) show ?thesis by simp
  qed
next
  case (Forget_Pin h d n')
  obtain r fs' where p: "forget_noise_pin lib h d n' fs = (r, fs')" by fastforce
  show ?thesis
  proof (cases "d = dir")
    case True
    then have "n' \<noteq> n" using assms(3) Forget_Pin by (simp add: forgets_def)
    with True forget_noise_pin_same [OF assms(1), of h dir n' fs r fs'] p Forget_Pin assms(2)
    show ?thesis by auto
  next
    case False
    with forget_noise_pin_other [OF p] Forget_Pin p assms(2) show ?thesis by simp
  qed
next
  case (Load_Key h d)
  then show ?thesis
    using assms(2) load_or_create_trusts [of hex h d fs _ _ lib dir, OF surjective_pairing] by simp
next
  case (Adopt_Target h d k pins)
  then show ?thesis
    using adopt_write_trusts [OF surjective_pairing assms(2), of hex h d k pins] by simp
next
  case (Save_Psk h d n' psk)
  then show ?thesis
    using assms(2) save_psk_trusts [of lib hex h d n' psk fs _ _ lib dir, OF surjective_pairing] by simp
next
  case (Forget_Psk h d n')
  then show ?thesis
    using assms(2) forget_psk_trusts [of lib h d n' fs _ _ lib dir, OF surjective_pairing] by simp
qed (use assms(2) in \<open>simp_all add: loads_trusts\<close>)

lemma store_step_keeps_key:
  assumes "store_laws lib hex" and "stored_key hex dir fs = Some k"
  shows "stored_key hex dir (store_step lib hex o1 fs) = Some k"
proof (cases o1)
  case (Pin_Hub h d n' k')
  then show ?thesis
    using assms(2) pin_key [of lib h d n' k' fs _ _ hex dir, OF surjective_pairing] by simp
next
  case (Forget_Pin h d n')
  then show ?thesis
    using assms(2) forget_key [of lib h d n' fs _ _ hex dir, OF surjective_pairing] by simp
next
  case (Load_Key h d)
  then show ?thesis
    using load_or_create_key [OF assms(1) surjective_pairing assms(2), of h d] by simp
next
  case (Adopt_Target h d k' pins)
  then show ?thesis
    using adopt_write_key [OF surjective_pairing assms(2), of lib h d k' pins] by simp
next
  case (Save_Psk h d n' psk)
  then show ?thesis
    using assms(2) save_psk_key [of lib hex h d n' psk fs _ _ hex dir, OF surjective_pairing] by simp
next
  case (Forget_Psk h d n')
  then show ?thesis
    using assms(2) forget_psk_key [of lib h d n' fs _ _ hex dir, OF surjective_pairing] by simp
qed (use assms(2) in \<open>simp_all add: loads_trusts\<close>)

section \<open>Decided once\<close>

lemma eq_ignore_ascii_case_equiv:
  "eq_ignore_ascii_case v w \<Longrightarrow> eq_ignore_ascii_case w v"
  "eq_ignore_ascii_case u v \<Longrightarrow> eq_ignore_ascii_case v w \<Longrightarrow> eq_ignore_ascii_case u w"
  by (simp_all add: eq_ignore_ascii_case_def)

lemma pinned_by_pin:
  assumes "pinned_by lib dir n o1 fs = Some v"
  obtains h where "o1 = Pin_Hub h dir n v" "fst (pin_hub_key lib h dir n v fs) = Inr ()"
  using assms by (auto simp: pinned_by_def split: store_op.splits if_splits)

lemma pinned_by_outcome:
  assumes "store_laws lib hex" and "pinned_by lib dir n o1 fs = Some v"
  shows "(trusts lib dir fs n = None \<longrightarrow> trusts lib dir (store_step lib hex o1 fs) n = Some v)
    \<and> (\<forall>w. trusts lib dir fs n = Some w \<longrightarrow>
         trusts lib dir (store_step lib hex o1 fs) n = Some w \<and> eq_ignore_ascii_case w v)"
proof -
  obtain h where o1: "o1 = Pin_Hub h dir n v" and ok: "fst (pin_hub_key lib h dir n v fs) = Inr ()"
    using assms(2) by (rule pinned_by_pin)
  obtain fs' where p: "pin_hub_key lib h dir n v fs = (Inr (), fs')"
    using ok by (metis prod.collapse)
  from pin_hub_key_same [OF assms(1) p] p o1 show ?thesis by (auto split: option.splits)
qed

interpretation pins: first_use "store_step lib hex" "\<lambda>fs. trusts lib dir fs n" "forgets dir n"
    "\<lambda>_. store_laws lib hex" "pinned_by lib dir n" eq_ignore_ascii_case
  for lib hex dir n
proof unfold_locales
  fix fs v o1
  assume "store_laws lib hex" "trusts lib dir fs n = Some v" "\<not> forgets dir n o1"
  then show "trusts lib dir (store_step lib hex o1 fs) n = Some v" by (rule store_step_keeps_pin)
next
  fix fs o1 v
  assume "store_laws lib hex" "pinned_by lib dir n o1 fs = Some v"
  from pinned_by_outcome [OF this]
  show "\<exists>w. trusts lib dir (store_step lib hex o1 fs) n = Some w \<and> eq_ignore_ascii_case w v"
    by (cases "trusts lib dir fs n") auto
next
  fix fs o1 v w
  assume "store_laws lib hex" "pinned_by lib dir n o1 fs = Some v" "trusts lib dir fs n = Some w"
  then show "eq_ignore_ascii_case w v" using pinned_by_outcome by blast
qed (auto dest: eq_ignore_ascii_case_equiv)

lemma key_given_stored:
  assumes "store_laws lib hex" and "key_given hex dir o1 fs = Some k"
  shows "stored_key hex dir (store_step lib hex o1 fs) = Some k"
proof -
  obtain h where o1: "o1 = Load_Key h dir"
    and ok: "fst (load_or_create_noise_key hex h dir fs) = Inr k"
    using assms(2) by (auto simp: key_given_def split: store_op.splits if_splits sum.splits)
  obtain fs' where "load_or_create_noise_key hex h dir fs = (Inr k, fs')"
    using ok by (metis prod.collapse)
  from load_or_create_stores [OF assms(1) this] this o1 show ?thesis by simp
qed

interpretation own_key: first_use "store_step lib hex" "stored_key hex dir" "\<lambda>_. False"
    "\<lambda>_. store_laws lib hex" "key_given hex dir" "(=)"
  for lib hex dir
proof unfold_locales
  fix fs o1 v w
  assume "store_laws lib hex" "key_given hex dir o1 fs = Some v" "stored_key hex dir fs = Some w"
  then show "w = v"
    using key_given_stored store_step_keeps_key by (metis option.inject)
qed (auto intro: store_step_keeps_key dest: key_given_stored)

text \<open>
  C1: trust on first use holds across processes, restarts and faults: once a hub's key has been
  pinned for a node, whatever the store is asked to do in between, short of forgetting that
  node's pin, a later pin of that node succeeds only with the same key (its letters' case aside),
  and the pin itself is still there.
\<close>

theorem pins_trust_first_use:
  assumes "store_laws lib hex"
    and "pinned_by lib dir n o1 fs = Some key"
    and "\<forall>x \<in> set os. \<not> forgets dir n x"
  shows "(\<exists>w. trusts lib dir (run_steps (store_step lib hex) os (store_step lib hex o1 fs)) n = Some w
           \<and> eq_ignore_ascii_case w key)
    \<and> (pinned_by lib dir n o2 (run_steps (store_step lib hex) os (store_step lib hex o1 fs)) = Some key'
         \<longrightarrow> eq_ignore_ascii_case key key')"
proof
  obtain w where w: "trusts lib dir (store_step lib hex o1 fs) n = Some w" "eq_ignore_ascii_case w key"
    using pins.accepted [OF assms(1,2)] by blast
  from pins.slot_run [OF assms(1) w(1) assms(3)] w(2)
  show "\<exists>w. trusts lib dir (run_steps (store_step lib hex) os (store_step lib hex o1 fs)) n = Some w
      \<and> eq_ignore_ascii_case w key" by blast
  show "pinned_by lib dir n o2 (run_steps (store_step lib hex) os (store_step lib hex o1 fs)) = Some key'
      \<longrightarrow> eq_ignore_ascii_case key key'"
    using pins.agree [OF assms] by blast
qed

text \<open>
  This client's key is decided once: whichever process made it, every process that is given
  the folder's key after that is given the same one, whatever happened to the store in between;
  no operation of the SDK replaces it.
\<close>

theorem own_key_stable:
  assumes "store_laws lib hex"
    and "key_given hex dir o1 fs = Some key"
    and "key_given hex dir o2 (run_steps (store_step lib hex) os (store_step lib hex o1 fs)) = Some key'"
  shows "key = key'"
  using own_key.agree [OF assms(1,2) _ assms(3)] by simp

section \<open>The decision of a pin\<close>

text \<open>A host with no fault in a folder, and a folder whose files are as the store leaves them.\<close>

definition works_in :: "host \<Rightarrow> string \<Rightarrow> bool" where
  "works_in h dir \<longleftrightarrow>
     thread_lock h dir = Taken \<and> file_lock h dir = Taken \<and> mkdir_fault h dir = None
     \<and> (\<forall>name. stat_fault h (dir, name) = None \<and> open_fault h (dir, name) = None
          \<and> read_fault h (dir, name) = None \<and> write_fault h (dir, name) = None
          \<and> sync_fault h (dir, name) = None \<and> rename_fault h (dir, name) = None)"

definition private_or_missing :: "files \<Rightarrow> path \<Rightarrow> bool" where
  "private_or_missing fs p \<longleftrightarrow> (case fs p of None \<Rightarrow> True | Some (Regular m _) \<Rightarrow> private_mode m | _ \<Rightarrow> False)"

definition pins_readable :: "store_lib \<Rightarrow> string \<Rightarrow> files \<Rightarrow> bool" where
  "pins_readable lib dir fs \<longleftrightarrow>
     (case fs (dir, NOISE_PINS_FILENAME) of
        None \<Rightarrow> True
      | Some (Regular m raw) \<Rightarrow>
          private_mode m \<and> (\<exists>pins. parse_strings lib raw = Inr pins \<and> validate_pins pins = Inr ())
      | Some Special \<Rightarrow> False)"

lemma lock_state_works:
  assumes "works_in h dir" and "private_or_missing fs (dir, LOCK_FILE)"
  shows "fst (lock_state h dir fs) = Inr ()"
  using assms
  by (auto simp: lock_state_def Let_def works_in_def lock_result_def faulty_def symlink_metadata_def
      assert_secure_secret_file_def is_file_def private_or_missing_def private_mode_def
      split: option.splits node.splits if_splits)

lemma read_pins_works:
  assumes "works_in h dir" and "pins_readable lib dir fs"
  shows "\<exists>pins. read_pins lib h dir fs = Inr pins"
  using assms
  by (auto simp: read_pins_def Let_def validate_state_file_def works_in_def pins_readable_def faulty_def
      symlink_metadata_def assert_secure_secret_file_def is_file_def read_to_string_def
      split: option.splits node.splits)

lemma write_private_works:
  assumes "works_in h dir" and "fs (dir, staging_name h name) = None"
  shows "fst (write_private h (dir, name) c fs) = Inr ()"
  using assms
  by (simp add: write_private_def publish_private_def write_private_at_def publish_link_def rename_def
      works_in_def faulty_def Let_def)

lemma pin_hub_key_runs:
  assumes "\<forall>m. \<exists>s. pretty_strings lib m = Inr s" and "works_in h dir"
    and "private_or_missing fs (dir, LOCK_FILE)" and "pins_readable lib dir fs"
    and "fs (dir, staging_name h NOISE_PINS_FILENAME) = None"
  obtains fs1 pins where "lock_state h dir fs = (Inr (), fs1)" and "read_pins lib h dir fs1 = Inr pins"
    and "map_of pins = trusts lib dir fs"
    and "\<And>ps. fst (write_pins lib h (dir, NOISE_PINS_FILENAME) ps fs1) = Inr ()"
proof -
  obtain fs1 where l: "lock_state h dir fs = (Inr (), fs1)"
    using lock_state_works [OF assms(2,3)] by (metis prod.collapse)
  have same: "fs1 (dir, NOISE_PINS_FILENAME) = fs (dir, NOISE_PINS_FILENAME)"
    by (rule lock_state_trusted [OF l]) simp
  have "LOCK_FILE \<noteq> staging_name h NOISE_PINS_FILENAME"
    by (simp add: LOCK_FILE_def staging_name_def NOISE_PINS_FILENAME_def)
  then have free: "fs1 (dir, staging_name h NOISE_PINS_FILENAME) = None"
    using lock_state_other [of "(dir, staging_name h NOISE_PINS_FILENAME)" dir h fs] l assms(5) by simp
  have "pins_readable lib dir fs1" using assms(4) same by (simp add: pins_readable_def)
  then obtain pins where r: "read_pins lib h dir fs1 = Inr pins"
    using read_pins_works [OF assms(2)] by blast
  have m: "map_of pins = trusts lib dir fs"
    using read_pins_ok(1) [OF r] trusts_lock [OF l] by simp
  have ok: "fst (write_pins lib h (dir, NOISE_PINS_FILENAME) ps fs1) = Inr ()" for ps
  proof -
    obtain s where "pretty_strings lib ps = Inr s" using assms(1) by blast
    then show ?thesis
      using assms(2) write_private_works [of h dir fs1, OF assms(2) free]
      by (simp add: write_pins_def write_strings_def works_in_def)
  qed
  from l r m ok show thesis by (rule that)
qed

text \<open>
  With a working file system the decision is the whole of what \<open>pin_hub_key\<close> documents: a
  first key is recorded, the same key in either case of letters succeeds and leaves the pins as
  they are, any other key is refused with the changed-key error and leaves them as they are, and
  a malformed node or key is refused before anything is read; pins of other nodes never change.
\<close>

theorem pin_hub_key_correct:
  assumes "store_laws lib hex" and "\<forall>m. \<exists>s. pretty_strings lib m = Inr s" and "works_in h dir"
    and "private_or_missing fs (dir, LOCK_FILE)" and "pins_readable lib dir fs"
    and "fs (dir, staging_name h NOISE_PINS_FILENAME) = None"
  shows "(case pin_hub_key lib h dir n key fs of (r, fs') \<Rightarrow>
     (case validate_pin n key of
        Inl e \<Rightarrow> r = Inl e \<and> fs' = fs
      | Inr _ \<Rightarrow>
          (case trusts lib dir fs n of
             None \<Rightarrow> r = Inr () \<and> trusts lib dir fs' = (trusts lib dir fs)(n \<mapsto> key)
           | Some pinned \<Rightarrow>
               r = (if eq_ignore_ascii_case pinned key then Inr () else Inl KEY_CHANGED)
               \<and> trusts lib dir fs' = trusts lib dir fs)))"
proof -
  obtain r fs' where p: "pin_hub_key lib h dir n key fs = (r, fs')" by fastforce
  obtain fs1 pins where l: "lock_state h dir fs = (Inr (), fs1)"
    and r: "read_pins lib h dir fs1 = Inr pins" and m: "map_of pins = trusts lib dir fs"
    and ok: "\<And>ps. fst (write_pins lib h (dir, NOISE_PINS_FILENAME) ps fs1) = Inr ()"
    using pin_hub_key_runs [OF assms(2-6)] by blast
  note same_dir = pin_hub_key_same [OF assms(1) p]
  show ?thesis
  proof (cases "validate_pin n key")
    case (Inl e)
    then show ?thesis by (simp add: pin_hub_key_def)
  next
    case (Inr u)
    then have d: "pin_decision lib h dir n key pins fs1 = (r, fs')"
      using p l r by (simp add: pin_hub_key_def)
    show ?thesis
    proof (cases "trusts lib dir fs n")
      case None
      then have "r = Inr ()"
        using d m ok [of "bt_insert n key pins"] by (simp add: pin_decision_def)
      with same_dir None have "trusts lib dir fs' = (trusts lib dir fs)(n \<mapsto> key)" by auto
      with \<open>r = Inr ()\<close> None Inr p show ?thesis by simp
    next
      case (Some w)
      then show ?thesis
        using d m Inr p trusts_lock [OF l, of lib dir] by (auto simp: pin_decision_def split: if_splits)
    qed
  qed
qed

section \<open>A folder in use\<close>

definition sample_key :: string where "sample_key = replicate 64 (CHR ''a'')"
definition sample_files :: files where
  "sample_files =
     (\<lambda>_. None)
       ((''/c'', LOCK_FILE) \<mapsto> Regular 0x180 [],
        (''/c'', NOISE_PINS_FILENAME) \<mapsto> Regular 0x180 (mark_map [(''hub'', sample_key)] @ NEWLINE),
        (''/c'', NOISE_KEY_FILENAME) \<mapsto> Regular 0x180 (hex_text (replicate 32 7)))"

lemma sample_pin_valid: "validate_pin ''hub'' (replicate 64 (CHR ''a'')) = Inr ()"
    "validate_pin ''hub'' (replicate 64 (CHR ''A'')) = Inr ()"
  using trim_plain [of "''hub''"]
  by (simp_all add: validate_pin_def plain_char_def list_all_iff is_ascii_hexdigit_def)

lemma sample_lock: "lock_state calm_host ''/c'' sample_files = (Inr (), sample_files)"
  by (simp add: lock_state_def Let_def sample_files_def calm_host_def lock_result_def faulty_def
      symlink_metadata_def assert_secure_secret_file_def is_file_def private_mode_def)

lemma sample_parse: "parse_strings sample_strings (mark_map [(''hub'', sample_key)] @ NEWLINE) =
    Inr [(''hub'', sample_key)]"
  using sample_laws by (simp add: store_laws_def sample_strings_def bt_inv_def)

lemma sample_pins: "read_pins sample_strings calm_host ''/c'' sample_files = Inr [(''hub'', sample_key)]"
  using sample_pin_valid(1) sample_parse
  by (simp add: read_pins_def Let_def validate_state_file_def sample_files_def calm_host_def faulty_def
      symlink_metadata_def assert_secure_secret_file_def is_file_def read_to_string_def private_mode_def)
    (simp add: sample_key_def)

lemma sample_pin_hub:
  "map ascii_lower k = map ascii_lower sample_key \<Longrightarrow> validate_pin ''hub'' k = Inr () \<Longrightarrow>
   pin_hub_key sample_strings calm_host ''/c'' ''hub'' k sample_files = (Inr (), sample_files)"
  by (simp add: pin_hub_key_def sample_lock sample_pins pin_decision_def eq_ignore_ascii_case_def)

lemma sample_load_key:
  "load_or_create_noise_key sample_hex calm_host ''/c'' sample_files = (Inr (replicate 32 7), sample_files)"
proof -
  have "decode_key sample_hex (''/c'', NOISE_KEY_FILENAME) (hex_text (replicate 32 7)) = Inr (replicate 32 7)"
    by (simp add: decode_key_def sample_hex_def trim_hex_text unhex_hex_text Let_def)
  moreover have "read_to_string calm_host sample_files (''/c'', NOISE_KEY_FILENAME) =
      Inr (hex_text (replicate 32 7))"
    by (simp add: read_to_string_def calm_host_def faulty_def sample_files_def)
  moreover have "validate_state_file calm_host sample_files (''/c'', NOISE_KEY_FILENAME) ''Noise key file'' = Inr ()"
    by (simp add: validate_state_file_def calm_host_def faulty_def sample_files_def symlink_metadata_def
        is_file_def assert_secure_secret_file_def private_mode_def)
  ultimately show ?thesis
    by (simp add: load_or_create_noise_key_def sample_lock Let_def)
qed

theorem pins_trust_first_use_witness:
  "eq_ignore_ascii_case sample_key (replicate 64 (CHR ''A''))
   \<and> pinned_by sample_strings ''/c'' ''hub'' (Pin_Hub calm_host ''/c'' ''hub'' (replicate 64 (CHR ''A'')))
       (run_steps (store_step sample_strings sample_hex) [Load_Key calm_host ''/c'']
         (store_step sample_strings sample_hex (Pin_Hub calm_host ''/c'' ''hub'' sample_key) sample_files))
     = Some (replicate 64 (CHR ''A''))"
proof -
  let ?o1 = "Pin_Hub calm_host ''/c'' ''hub'' sample_key" and ?A = "replicate 64 (CHR ''A'')"
  let ?o2 = "Pin_Hub calm_host ''/c'' ''hub'' ?A" and ?os = "[Load_Key calm_host ''/c'']"
  let ?step = "store_step sample_strings sample_hex"
  have low: "map ascii_lower ?A = map ascii_lower sample_key"
    by (simp add: sample_key_def ascii_lower_def char_of_def bit_iff_odd)
  have one: "pinned_by sample_strings ''/c'' ''hub'' ?o1 sample_files = Some sample_key"
    using sample_pin_hub [of sample_key] sample_pin_valid(1) by (simp add: pinned_by_def sample_key_def)
  have "run_steps ?step ?os (?step ?o1 sample_files) = sample_files"
    using sample_pin_hub [of sample_key] sample_pin_valid(1) by (simp add: sample_load_key sample_key_def)
  then have two: "pinned_by sample_strings ''/c'' ''hub'' ?o2 (run_steps ?step ?os (?step ?o1 sample_files)) = Some ?A"
    using sample_pin_hub [OF low sample_pin_valid(2)] by (simp add: pinned_by_def)
  from pins_trust_first_use [OF sample_laws one, of ?os ?o2 ?A] two show ?thesis
    by (simp add: forgets_def)
qed

theorem own_key_stable_witness:
  "\<exists>key. key_given sample_hex ''/c'' (Load_Key calm_host ''/c'')
           (run_steps (store_step sample_strings sample_hex) [Forget_Pin calm_host ''/c'' ''other'']
             (store_step sample_strings sample_hex (Load_Key calm_host ''/c'') sample_files)) = Some key
       \<and> replicate 32 7 = key"
proof -
  let ?o = "Load_Key calm_host ''/c''" and ?os = "[Forget_Pin calm_host ''/c'' ''other'']"
  let ?step = "store_step sample_strings sample_hex"
  have one: "key_given sample_hex ''/c'' ?o sample_files = Some (replicate 32 7)"
    by (simp add: key_given_def sample_load_key)
  have "run_steps ?step ?os (?step ?o sample_files) = sample_files"
    by (simp add: sample_load_key forget_noise_pin_def sample_lock sample_pins)
  then have two: "key_given sample_hex ''/c'' ?o (run_steps ?step ?os (?step ?o sample_files)) = Some (replicate 32 7)"
    using one by simp
  from own_key_stable [OF sample_laws one two] two show ?thesis by blast
qed

theorem pin_hub_key_correct_witness:
  "pin_hub_key sample_strings calm_host ''/c'' ''hub'' (replicate 64 (CHR ''b'')) sample_files
     = (Inl KEY_CHANGED, snd (pin_hub_key sample_strings calm_host ''/c'' ''hub'' (replicate 64 (CHR ''b'')) sample_files))
   \<and> trusts sample_strings ''/c'' sample_files ''hub'' = Some sample_key"
proof -
  have works: "works_in calm_host ''/c''" by (simp add: works_in_def calm_host_def)
  have lock: "private_or_missing sample_files (''/c'', LOCK_FILE)"
    by (simp add: private_or_missing_def sample_files_def)
  have tr: "trusts sample_strings ''/c'' sample_files ''hub'' = Some sample_key"
    using read_pins_ok(1) [OF sample_pins] by (simp add: fun_eq_iff) (metis (full_types))
  have readable: "pins_readable sample_strings ''/c'' sample_files"
    using sample_parse sample_pin_valid(1)
    by (simp add: pins_readable_def sample_files_def) (simp add: sample_key_def)
  have free: "sample_files (''/c'', staging_name calm_host NOISE_PINS_FILENAME) = None"
    using staging_not_trusted [of calm_host NOISE_PINS_FILENAME]
    by (simp add: sample_files_def staging_name_def LOCK_FILE_def NOISE_PINS_FILENAME_def
        NOISE_KEY_FILENAME_def)
  have valid: "validate_pin ''hub'' (replicate 64 (CHR ''b'')) = Inr ()"
    using trim_plain [of "''hub''"]
    by (simp add: validate_pin_def plain_char_def list_all_iff is_ascii_hexdigit_def)
  have "\<not> eq_ignore_ascii_case sample_key (replicate 64 (CHR ''b''))"
    by (simp add: eq_ignore_ascii_case_def sample_key_def ascii_lower_def)
  then show ?thesis
    using pin_hub_key_correct [OF sample_laws _ works lock readable free, of "''hub''" "replicate 64 (CHR ''b'')"]
      tr valid
    by (auto simp: sample_strings_def split: prod.splits)
qed

end
