(* ===== verification/Noise_Adopt.thy ===== *)
theory Noise_Adopt
  imports Noise_Trust
begin

text \<open>
  \<open>src/src/noise_store.rs\<close>, the copy of an older folder's key and the cache of derived
  pre-shared keys: what a copy leaves in both folders when it succeeds and when it does not, and
  what the cache answers after a key was saved or forgotten.
\<close>

section \<open>Adopting a legacy key\<close>

lemma adopt_read_ok:
  assumes "adopt_read lib hex h legacy n fs = (Some (key, pins), fs')"
  shows "stored_key hex legacy fs = Some key \<and> map_of pins = trusts lib legacy fs
    \<and> trusts lib legacy fs n \<noteq> None \<and> validate_pins pins = Inr ()
    \<and> (store_laws lib hex \<longrightarrow> bt_inv pins)"
proof -
  obtain l where l: "lock_state h legacy fs = (Inr l, fs')"
    and r: "read_pins lib h legacy fs' = Inr pins" and n: "map_of pins n \<noteq> None"
    and k: "load_existing_noise_key hex h (legacy, NOISE_KEY_FILENAME) fs' = Inr key"
    using assms by (auto simp: adopt_read_def split: prod.splits sum.splits if_splits)
  show ?thesis
    using load_existing_ok [OF k] key_lock [OF l] read_pins_ok [OF r] trusts_lock [OF l] n by simp
qed

lemma adopt_read_files:
  "adopt_read lib hex h legacy n fs = (r, fs') \<Longrightarrow> snd q \<in> trusted_names \<Longrightarrow> fs' q = fs q"
  by (auto simp: adopt_read_def dest: lock_state_trusted split: prod.splits sum.splits)

lemma adopt_key_write_files:
  assumes "adopt_key_write hex h target key fs = (r, fs')"
  shows "(\<forall>q. snd q \<in> trusted_names \<longrightarrow> q \<noteq> (target, NOISE_KEY_FILENAME) \<longrightarrow> fs' q = fs q)
    \<and> (r \<noteq> Inr True \<longrightarrow> fs' (target, NOISE_KEY_FILENAME) = fs (target, NOISE_KEY_FILENAME))
    \<and> (r = Inr True \<longrightarrow> fs' (target, NOISE_KEY_FILENAME) = Some (Regular 0x180 (hex_encode hex key)))"
proof -
  let ?p = "(target, NOISE_KEY_FILENAME)"
  obtain w fs2 where w: "publish_private h ?p (hex_encode hex key) True fs = (w, fs2)" by fastforce
  have "fs' = fs2" and "r = Inr True \<longleftrightarrow> w = Inr ()"
    using assms w
    by (auto simp: adopt_key_write_def write_private_exclusive_def
        split: sum.splits prod.splits thalovant_error.splits io_kind.splits)
  with publish_private_target [of h ?p "hex_encode hex key" True fs]
    publish_private_failed [of h ?p "hex_encode hex key" True fs] publish_trusted_other [OF w] w
  show ?thesis by auto
qed

text \<open>The write of the pins that comes before the key.\<close>

definition adopt_pins_step ::
    "store_lib \<Rightarrow> host \<Rightarrow> string \<Rightarrow> (string, string) btree \<Rightarrow> (string, string) btree \<Rightarrow> files
     \<Rightarrow> unit res \<times> files" where
  "adopt_pins_step lib h target pins existing fs =
     (if existing = [] then write_pins lib h (target, NOISE_PINS_FILENAME) pins fs else (Inr (), fs))"

lemma adopt_write_unfold:
  assumes "lock_state h target fs = (Inr (), fs1)" and "read_pins lib h target fs1 = Inr existing"
    and "\<not> exists_at h fs1 (target, NOISE_KEY_FILENAME)"
  shows "adopt_write lib hex h target key pins fs =
    (case adopt_pins_step lib h target pins existing fs1 of
       (Inl e, fs2) \<Rightarrow> (Inl e, fs2)
     | (Inr _, fs2) \<Rightarrow> adopt_key_write hex h target key fs2)"
  using assms by (auto simp: adopt_write_def adopt_pins_step_def split: prod.split sum.split)

lemma adopt_pins_step_files:
  "adopt_pins_step lib h target pins existing fs = (r, fs') \<Longrightarrow> snd q \<in> trusted_names \<Longrightarrow>
   q \<noteq> (target, NOISE_PINS_FILENAME) \<Longrightarrow> fs' q = fs q"
  by (auto simp: adopt_pins_step_def write_pins_def dest: write_strings_other split: if_splits)

lemma adopt_pins_step_trusts:
  assumes "adopt_pins_step lib h target pins existing fs = (Inr u, fs')" and "store_laws lib hex"
    and "bt_inv pins" and "validate_pins pins = Inr ()" and "map_of existing = trusts lib target fs"
  shows "trusts lib target fs' =
    (if trusts lib target fs = Map.empty then map_of pins else trusts lib target fs)"
proof (cases "existing = []")
  case True
  then show ?thesis
    using assms write_pins_trusts [of lib h target pins fs "Inr ()" fs' hex]
    by (auto simp: adopt_pins_step_def)
next
  case False
  then have "map_of existing \<noteq> Map.empty" by (cases existing) (auto simp: fun_eq_iff)
  with False assms(1,5) show ?thesis by (simp add: adopt_pins_step_def)
qed

lemma adopt_write_files:
  assumes "adopt_write lib hex h target key pins fs = (r, fs')"
  shows "(\<forall>d name. d \<noteq> target \<longrightarrow> name \<in> trusted_names \<longrightarrow> fs' (d, name) = fs (d, name))
    \<and> (r \<noteq> Inr True \<longrightarrow> fs' (target, NOISE_KEY_FILENAME) = fs (target, NOISE_KEY_FILENAME))"
proof -
  obtain l fs1 where l: "lock_state h target fs = (l, fs1)" by fastforce
  have fs1: "snd q \<in> trusted_names \<Longrightarrow> fs1 q = fs q" for q by (rule lock_state_trusted [OF l])
  show ?thesis
  proof (cases "\<exists>existing. l = Inr () \<and> read_pins lib h target fs1 = Inr existing
      \<and> \<not> exists_at h fs1 (target, NOISE_KEY_FILENAME)")
    case False
    then have "fs' = fs1" using assms l
      by (auto simp: adopt_write_def split: sum.splits if_splits)
    with fs1 show ?thesis by simp
  next
    case True
    then obtain existing where e: "l = Inr ()" "read_pins lib h target fs1 = Inr existing"
      "\<not> exists_at h fs1 (target, NOISE_KEY_FILENAME)" by blast
    obtain s fs2 where s: "adopt_pins_step lib h target pins existing fs1 = (s, fs2)" by fastforce
    note u = adopt_write_unfold [OF l [unfolded e(1)] e(2,3), of hex key pins, unfolded assms s]
    note f2 = adopt_pins_step_files [OF s]
    show ?thesis
    proof (cases s)
      case (Inl e')
      with u f2 fs1 show ?thesis by auto
    next
      case (Inr v)
      then have "adopt_key_write hex h target key fs2 = (r, fs')" using u by simp
      from adopt_key_write_files [OF this] f2 fs1 show ?thesis by auto
    qed
  qed
qed

lemma adopt_write_done:
  assumes "adopt_write lib hex h target key pins fs = (Inr True, fs')" and "store_laws lib hex"
    and "bt_inv pins" and "validate_pins pins = Inr ()" and "length key = 32"
  shows "stored_key hex target fs' = Some key
    \<and> trusts lib target fs' =
        (if trusts lib target fs = Map.empty then map_of pins else trusts lib target fs)"
proof -
  obtain l fs1 where l: "lock_state h target fs = (l, fs1)" by fastforce
  obtain existing where e: "l = Inr ()" "read_pins lib h target fs1 = Inr existing"
    "\<not> exists_at h fs1 (target, NOISE_KEY_FILENAME)"
    using assms(1) l by (auto simp: adopt_write_def split: sum.splits if_splits)
  obtain s fs2 where s: "adopt_pins_step lib h target pins existing fs1 = (s, fs2)" by fastforce
  note u = adopt_write_unfold [OF l [unfolded e(1)] e(2,3), of hex key pins, unfolded assms(1) s]
  then obtain v where v: "s = Inr v" "adopt_key_write hex h target key fs2 = (Inr True, fs')"
    by (cases s) auto
  note k = adopt_key_write_files [OF v(2)]
  have "stored_key hex target fs' = Some key"
    using k assms(2,5) by (simp add: stored_key_def decode_key_def store_laws_def Let_def)
  moreover have "trusts lib target fs' = trusts lib target fs2"
    using k by (intro trusts_cong) simp
  moreover have "trusts lib target fs1 = trusts lib target fs" by (rule trusts_lock [OF l])
  ultimately show ?thesis
    using adopt_pins_step_trusts [OF s [unfolded v(1)] assms(2-4)] read_pins_ok(1) [OF e(2)] by simp
qed

lemma stored_key_length: "stored_key hex dir fs = Some k \<Longrightarrow> length k = 32"
  by (auto simp: stored_key_def decode_key_def Let_def split: option.splits node.splits if_splits sum.splits)

text \<open>
  Adopting a legacy folder never changes that folder. When it reports a copy, the target has
  the legacy key, that key had met this identity's hub, and the target's pins are the legacy ones
  unless it had pins of its own, which are kept. When it reports none, or fails, the target's key
  is what it was: a failure never leaves a key of its own beside the hub's pin.
\<close>

theorem adopt_legacy_correct:
  assumes "store_laws lib hex" and "target \<noteq> legacy"
    and "adopt_legacy_key lib hex h target legacy n fs = (r, fs')"
  shows "(\<forall>name \<in> trusted_names. fs' (legacy, name) = fs (legacy, name))
    \<and> (r = Inr True \<longrightarrow>
         (\<exists>key. stored_key hex legacy fs = Some key \<and> stored_key hex target fs' = Some key)
         \<and> trusts lib legacy fs n \<noteq> None
         \<and> trusts lib target fs' =
             (if trusts lib target fs = Map.empty then trusts lib legacy fs else trusts lib target fs))
    \<and> (r \<noteq> Inr True \<longrightarrow> fs' (target, NOISE_KEY_FILENAME) = fs (target, NOISE_KEY_FILENAME))"
proof -
  obtain found fs1 where a: "adopt_read lib hex h legacy n fs = (found, fs1)" by fastforce
  note fs1 = adopt_read_files [OF a]
  show ?thesis
  proof (cases "adopt_wanted h target legacy fs \<and> found \<noteq> None")
    case False
    then have "r = Inr False \<and> (fs' = fs \<or> fs' = fs1)"
      using assms(3) a by (auto simp: adopt_legacy_key_def split: if_splits option.splits)
    with fs1 show ?thesis by auto
  next
    case True
    then obtain key pins where f: "found = Some (key, pins)" by auto
    with True assms(3) a have w: "adopt_write lib hex h target key pins fs1 = (r, fs')"
      by (simp add: adopt_legacy_key_def)
    note ok = adopt_read_ok [OF a [unfolded f]]
    have t1: "trusts lib target fs1 = trusts lib target fs" by (rule trusts_cong) (simp add: fs1)
    have "r = Inr True \<Longrightarrow> stored_key hex target fs' = Some key
        \<and> trusts lib target fs' =
            (if trusts lib target fs = Map.empty then trusts lib legacy fs else trusts lib target fs)"
      using adopt_write_done [of lib hex h target key pins fs1 fs'] w ok assms(1) stored_key_length t1
      by auto
    with adopt_write_files [OF w] fs1 ok assms(2) show ?thesis by auto
  qed
qed

theorem adopt_legacy_correct_witness:
  "\<exists>fs'. adopt_legacy_key sample_strings sample_hex calm_host ''/new'' ''/c'' ''hub'' sample_files = (Inr True, fs')
     \<and> stored_key sample_hex ''/new'' fs' = Some (replicate 32 7)
     \<and> trusts sample_strings ''/new'' fs' = trusts sample_strings ''/c'' sample_files"
proof -
  let ?fs1 = "sample_files((''/new'', LOCK_FILE) \<mapsto> Regular 0x180 [])"
  have k: "load_existing_noise_key sample_hex calm_host (''/c'', NOISE_KEY_FILENAME) sample_files = Inr (replicate 32 7)"
    by (simp add: load_existing_noise_key_def validate_state_file_def calm_host_def faulty_def
        sample_files_def symlink_metadata_def is_file_def assert_secure_secret_file_def
        read_to_string_def decode_key_def sample_hex_def trim_hex_text unhex_hex_text)
  have read: "adopt_read sample_strings sample_hex calm_host ''/c'' ''hub'' sample_files =
      (Some (replicate 32 7, [(''hub'', sample_key)]), sample_files)"
    by (simp add: adopt_read_def sample_lock sample_pins k)
  have wanted: "adopt_wanted calm_host ''/new'' ''/c'' sample_files"
    by (simp add: adopt_wanted_def exists_at_def is_file_at_def symlink_metadata_def calm_host_def
        faulty_def sample_files_def is_file_def)
  have lock: "lock_state calm_host ''/new'' sample_files = (Inr (), ?fs1)"
    by (simp add: lock_state_def Let_def sample_files_def calm_host_def lock_result_def faulty_def
        symlink_metadata_def assert_secure_secret_file_def)
  have rd: "read_pins sample_strings calm_host ''/new'' ?fs1 = Inr []"
    by (simp add: read_pins_def Let_def validate_state_file_def symlink_metadata_def calm_host_def
        faulty_def sample_files_def read_to_string_def)
  have ex: "\<not> exists_at calm_host ?fs1 (''/new'', NOISE_KEY_FILENAME)"
    by (simp add: exists_at_def symlink_metadata_def calm_host_def faulty_def sample_files_def)
  have free: "sample_files (''/new'', x) = None" for x by (simp add: sample_files_def)
  let ?enc = "mark_map [(''hub'', sample_key)] @ NEWLINE"
  let ?fs2 = "?fs1((''/new'', NOISE_PINS_FILENAME) \<mapsto> Regular 0x180 ?enc)"
  let ?fs3 = "?fs2((''/new'', NOISE_KEY_FILENAME) \<mapsto> Regular 0x180 (hex_text (replicate 32 7)))"
  have host: "mkdir_fault calm_host d = None" for d by (simp add: calm_host_def)
  have p: "write_pins sample_strings calm_host (''/new'', NOISE_PINS_FILENAME) [(''hub'', sample_key)] ?fs1
      = (Inr (), ?fs2)"
    using free staging_not_lock [of calm_host NOISE_PINS_FILENAME]
    by (simp add: write_pins_def write_strings_def write_private_def sample_strings_def host publish_calm)
  have kw: "adopt_key_write sample_hex calm_host ''/new'' (replicate 32 7) ?fs2 = (Inr True, ?fs3)"
    using free staging_not_lock [of calm_host NOISE_KEY_FILENAME]
      staging_not_trusted(1) [of calm_host NOISE_KEY_FILENAME]
    by (simp add: adopt_key_write_def write_private_exclusive_def publish_calm sample_hex_def)
  have run: "adopt_legacy_key sample_strings sample_hex calm_host ''/new'' ''/c'' ''hub'' sample_files = (Inr True, ?fs3)"
    using wanted read lock ex rd p kw by (simp add: adopt_legacy_key_def adopt_write_def)
  have "stored_key sample_hex ''/c'' sample_files = Some (replicate 32 7)"
    by (rule load_existing_ok [OF k])
  moreover have "trusts sample_strings ''/new'' sample_files = Map.empty"
    by (simp add: trusts_def free fun_eq_iff)
  ultimately show ?thesis
    using adopt_legacy_correct [OF sample_laws _ run] run by auto
qed

section \<open>The cache of derived keys\<close>

text \<open>What the cache file says; one that cannot be parsed says nothing.\<close>

definition cached :: "store_lib \<Rightarrow> string \<Rightarrow> files \<Rightarrow> string \<Rightarrow> string option" where
  "cached lib dir fs =
     (case fs (dir, NOISE_PSK_FILENAME) of
        Some (Regular m raw) \<Rightarrow> (case parse_strings lib raw of Inr cache \<Rightarrow> map_of cache | Inl _ \<Rightarrow> Map.empty)
      | _ \<Rightarrow> Map.empty)"

lemma cached_cong: "fs (dir, NOISE_PSK_FILENAME) = fs' (dir, NOISE_PSK_FILENAME) \<Longrightarrow>
    cached lib dir fs = cached lib dir fs'"
  by (simp add: cached_def)

lemma cached_lock: "lock_state h d fs = (r, fs') \<Longrightarrow> cached lib dir fs' = cached lib dir fs"
  by (rule cached_cong) (simp add: lock_state_trusted)

lemma read_psk_cache_ok:
  assumes "read_psk_cache lib h dir fs = Inr cache"
  shows "map_of cache = cached lib dir fs \<and> (store_laws lib hex \<longrightarrow> bt_inv cache)"
proof -
  let ?p = "(dir, NOISE_PSK_FILENAME)"
  show ?thesis
  proof (cases "read_to_string h fs ?p")
    case (Inl e)
    then have "cache = []" "fst e = NotFound"
      using assms by (auto simp: read_psk_cache_def Let_def res_bind_eq_Inr split: if_splits)
    then show ?thesis
      using Inl read_to_string_cases(2) [of h fs ?p "snd e"] by (cases e) (auto simp: cached_def)
  next
    case (Inr raw)
    then show ?thesis
      using assms read_to_string_cases(1) [OF Inr]
      by (auto simp: read_psk_cache_def Let_def res_bind_eq_Inr cached_def store_laws_def
          split: sum.splits)
  qed
qed

lemma write_psk_cached:
  assumes "write_psk_cache lib h (dir, NOISE_PSK_FILENAME) cache fs = (r, fs')"
    and "store_laws lib hex" and "bt_inv cache"
  shows "(cached lib dir fs' = cached lib dir fs \<or> cached lib dir fs' = map_of cache)
    \<and> (r = Inr () \<longrightarrow> cached lib dir fs' = map_of cache)"
proof -
  let ?p = "(dir, NOISE_PSK_FILENAME)"
  have "cached lib dir fs' = map_of cache"
    if "pretty_strings lib cache = Inr s" "fs' ?p = Some (Regular 0x180 (s @ NEWLINE))" for s
    using that assms(2,3) by (simp add: cached_def store_laws_def)
  then show ?thesis
    using write_strings_target [OF assms(1) [unfolded write_psk_cache_def]] cached_cong [of fs' dir fs lib]
    by blast
qed

text \<open>
  A derived key that was saved is the key the next connection to that hub loads, byte for
  byte, and one that was forgotten is derived again; neither touches another hub's, and a cache
  that is corrupt reads as empty rather than failing the connection.
\<close>

theorem psk_cache_roundtrip:
  assumes "store_laws lib hex" and "length psk = 32" and "trim n \<noteq> []"
    and "save_cached_psk lib hex h1 dir n psk fs = (Inr (), fs1)"
    and "load_cached_psk lib hex h2 dir n fs1 = (Inr found, fs2)"
    and "forget_cached_psk lib h3 dir n fs2 = (Inr (), fs3)"
    and "load_cached_psk lib hex h4 dir n fs3 = (Inr found', fs4)"
  shows "found = Some psk \<and> found' = None \<and> (\<forall>m. m \<noteq> n \<longrightarrow> cached lib dir fs4 m = cached lib dir fs m)"
proof -
  have load: "cached lib dir g' = cached lib dir g
      \<and> x = (case cached lib dir g n of None \<Rightarrow> None | Some e \<Rightarrow>
               (case hex_decode hex (trim e) of None \<Rightarrow> None
                | Some raw \<Rightarrow> if length raw = 32 then Some raw else None))"
    if "load_cached_psk lib hex h dir n g = (Inr x, g')" for h g g' x
    using that assms(3) read_psk_cache_ok [of lib h dir g' _ hex]
    by (auto simp: load_cached_psk_def res_bind_eq_Inr cached_psk_def cached_lock
        split: prod.splits sum.splits)
  have save: "cached lib dir fs1 = (cached lib dir fs)(n \<mapsto> hex_encode hex psk)"
  proof -
    obtain g cache where l: "lock_state h1 dir fs = (Inr (), g)"
      and r: "read_psk_cache lib h1 dir g = Inr cache"
      using assms(3,4) by (auto simp: save_cached_psk_def split: prod.splits sum.splits)
    note ok = read_psk_cache_ok [OF r, of hex]
    show ?thesis
      using assms(1,3,4) l r ok cached_lock [OF l, of lib dir]
        write_psk_cached [of lib h1 dir "bt_insert n (hex_encode hex psk) cache" g "Inr ()" fs1 hex]
      by (auto simp: save_cached_psk_def Let_def fun_upd_idem split: if_splits)
  qed
  have forget: "cached lib dir fs3 = (cached lib dir fs2)(n := None)"
  proof -
    obtain g cache where l: "lock_state h3 dir fs2 = (Inr (), g)"
      and r: "read_psk_cache lib h3 dir g = Inr cache"
      using assms(6) by (auto simp: forget_cached_psk_def split: prod.splits sum.splits)
    note ok = read_psk_cache_ok [OF r, of hex]
    show ?thesis
      using assms(1,6) l r ok cached_lock [OF l, of lib dir]
        write_psk_cached [of lib h3 dir "bt_remove n cache" g "Inr ()" fs3 hex]
      by (auto simp: forget_cached_psk_def fun_upd_idem split: if_splits)
  qed
  have "hex_decode hex (trim (hex_encode hex psk)) = Some psk"
    using assms(1) by (simp add: store_laws_def)
  with load [OF assms(5)] load [OF assms(7)] save forget assms(2) show ?thesis by simp
qed

theorem psk_cache_roundtrip_witness:
  "\<exists>fs1 found fs2 fs3 found' fs4.
     save_cached_psk sample_strings sample_hex calm_host ''/c'' ''hub'' (replicate 32 9) sample_files = (Inr (), fs1)
     \<and> load_cached_psk sample_strings sample_hex calm_host ''/c'' ''hub'' fs1 = (Inr found, fs2)
     \<and> forget_cached_psk sample_strings calm_host ''/c'' ''hub'' fs2 = (Inr (), fs3)
     \<and> load_cached_psk sample_strings sample_hex calm_host ''/c'' ''hub'' fs3 = (Inr found', fs4)
     \<and> found = Some (replicate 32 9) \<and> found' = None"
proof -
  let ?p = "(''/c'', NOISE_PSK_FILENAME)" and ?psk = "replicate 32 9 :: bytes"
  let ?m = "[(''hub'', hex_text ?psk)]"
  let ?fs1 = "sample_files(?p \<mapsto> Regular 0x180 (mark_map ?m @ NEWLINE))"
  let ?fs3 = "sample_files(?p \<mapsto> Regular 0x180 (mark_map [] @ NEWLINE))"
  have host: "mkdir_fault calm_host d = None" for d by (simp add: calm_host_def)
  have n: "trim ''hub'' \<noteq> []" using trim_plain [of "''hub''"] by (simp add: plain_char_def)
  have lock: "lock_state calm_host ''/c'' (sample_files(?p := x)) = (Inr (), sample_files(?p := x))" for x
    by (simp add: lock_state_def Let_def sample_files_def calm_host_def lock_result_def faulty_def
        symlink_metadata_def assert_secure_secret_file_def is_file_def private_mode_def)
  have pretty: "parse_strings sample_strings (mark_map m @ NEWLINE) = Inr m" if "bt_inv m" for m
    using sample_laws that by (simp add: store_laws_def sample_strings_def)
  have rd: "read_psk_cache sample_strings calm_host ''/c'' (sample_files(?p \<mapsto> Regular 0x180 (mark_map m @ NEWLINE))) = Inr m"
    if "bt_inv m" for m
    by (simp add: read_psk_cache_def Let_def validate_state_file_def symlink_metadata_def calm_host_def
        faulty_def is_file_def assert_secure_secret_file_def read_to_string_def private_mode_def
        pretty [OF that])
  have rd0: "read_psk_cache sample_strings calm_host ''/c'' sample_files = Inr []"
    by (simp add: read_psk_cache_def Let_def validate_state_file_def symlink_metadata_def calm_host_def
        faulty_def sample_files_def read_to_string_def)
  have st: "sample_files (''/c'', staging_name calm_host NOISE_PSK_FILENAME) = None"
    using staging_not_lock [of calm_host NOISE_PSK_FILENAME] staging_not_trusted [of calm_host NOISE_PSK_FILENAME]
    by (simp add: sample_files_def)
  have wr: "write_psk_cache sample_strings calm_host ?p m (sample_files(?p := x)) =
      (Inr (), sample_files(?p \<mapsto> Regular 0x180 (mark_map m @ NEWLINE)))" for m x
    using st by (simp add: write_psk_cache_def write_strings_def write_private_def sample_strings_def host publish_calm)
  have none: "sample_files(?p := None) = sample_files"
    by (auto simp: sample_files_def fun_eq_iff)
  have m: "bt_inv ?m" by (simp add: bt_inv_def)
  have save: "save_cached_psk sample_strings sample_hex calm_host ''/c'' ''hub'' ?psk sample_files = (Inr (), ?fs1)"
    using n lock [of None] rd0 wr [of ?m None] none
    by (simp add: save_cached_psk_def sample_hex_def Let_def)
  have load1: "load_cached_psk sample_strings sample_hex calm_host ''/c'' ''hub'' ?fs1 = (Inr (cached_psk sample_hex ?m ''hub''), ?fs1)"
    using n lock rd [OF m] by (simp add: load_cached_psk_def)
  have forget: "forget_cached_psk sample_strings calm_host ''/c'' ''hub'' ?fs1 = (Inr (), ?fs3)"
    using lock rd [OF m] wr by (simp add: forget_cached_psk_def bt_remove_def)
  have load2: "load_cached_psk sample_strings sample_hex calm_host ''/c'' ''hub'' ?fs3 = (Inr (cached_psk sample_hex [] ''hub''), ?fs3)"
    using n lock rd [of "[]"] by (simp add: load_cached_psk_def)
  from psk_cache_roundtrip [OF sample_laws _ n save load1 forget load2] save load1 forget load2
  show ?thesis by auto
qed

end
