(* ===== verification/Ladder.thy ===== *)
theory Ladder
  imports Prelude
begin

text \<open>
  The interface of a doubling ladder of waits: a first wait, a ceiling and a step that doubles up
  to the ceiling. The supervisor of a link and the session's own retry clock both climb one; the
  lemmas give the wait of every rung in closed form and bound it.
\<close>

locale ladder =
  fixes valid :: "'p \<Rightarrow> bool"
    and first :: "'p \<Rightarrow> duration"
    and ceiling :: "'p \<Rightarrow> duration"
    and climb :: "'p \<Rightarrow> duration \<Rightarrow> duration"
  assumes first_pos: "valid p \<Longrightarrow> 0 < first p"
    and first_le: "valid p \<Longrightarrow> first p \<le> ceiling p"
    and climbs: "valid p \<Longrightarrow> w \<le> ceiling p \<Longrightarrow> climb p w = min (2 * w) (ceiling p)"
begin

definition rung :: "'p \<Rightarrow> nat \<Rightarrow> duration" where
  "rung p k = (climb p ^^ k) (first p)"

lemma rung_Suc: "rung p (Suc k) = climb p (rung p k)"
  by (simp add: rung_def)

lemma rung_closed:
  assumes "valid p"
  shows "rung p k = min (first p * 2 ^ k) (ceiling p)"
proof (induction k)
  case 0
  then show ?case using first_le [OF assms] by (simp add: rung_def)
next
  case (Suc k)
  then have "rung p (Suc k) = min (2 * min (first p * 2 ^ k) (ceiling p)) (ceiling p)"
    unfolding rung_Suc by (simp add: climbs [OF assms])
  also have "\<dots> = min (first p * 2 ^ Suc k) (ceiling p)" by (simp add: min_def)
  finally show ?case .
qed

lemma rung_bounds: "valid p \<Longrightarrow> first p \<le> rung p k \<and> rung p k \<le> ceiling p"
  using first_le [of p] by (simp add: rung_closed)

lemma rung_mono: "valid p \<Longrightarrow> j \<le> k \<Longrightarrow> rung p j \<le> rung p k"
  by (simp add: rung_closed) (meson le_refl min.coboundedI1 mult_le_mono one_le_numeral power_increasing)

text \<open>After as many rungs as the ceiling is a multiple of the first, every wait is the ceiling.\<close>

lemma rung_top:
  assumes "valid p" and "ceiling p div first p \<le> k"
  shows "rung p k = ceiling p"
proof -
  have "ceiling p < (ceiling p div first p + 1) * first p"
    using first_pos [OF assms(1)] dividend_less_div_times [of "first p" "ceiling p"] by simp
  also have "\<dots> \<le> 2 ^ k * first p"
  proof (rule mult_le_mono1)
    have "ceiling p div first p + 1 \<le> k + 1" using assms(2) by simp
    also have "k + 1 \<le> 2 ^ k" by (induction k) auto
    finally show "ceiling p div first p + 1 \<le> 2 ^ k" .
  qed
  finally show ?thesis using rung_closed [OF assms(1)] by (simp add: mult.commute)
qed

end

end
