(* ===== verification/Link.thy ===== *)
theory Link
  imports Ladder Errors
begin

text \<open>
  \<open>src/src/session.rs\<close>, how a long-lived link is kept up: \<open>HubSessionPolicy\<close> and
  \<open>LinkSupervisor::after\<close>, a function of what happened and when. The specification below reads the
  decision off the whole history of outcomes instead, with the waits in closed form; the
  supervisor's two fields are shown to be enough to agree with it.
\<close>

section \<open>Policy and supervisor\<close>

record hub_session_policy =
  retry :: duration
  retry_ceiling :: duration
  probe :: duration
  probe_down :: duration

definition default_policy :: hub_session_policy where
  "default_policy =
     \<lparr>retry = from_secs 10, retry_ceiling = from_secs 120, probe = from_secs 60,
      probe_down = from_secs 5\<rparr>"

text \<open>\<open>representable d\<close>: the clock can name the instant \<open>d\<close> from now.\<close>

definition validate :: "(duration \<Rightarrow> bool) \<Rightarrow> hub_session_policy \<Rightarrow> hub_session_policy res" where
  "validate representable p =
     (if retry p = 0 \<or> retry_ceiling p < retry p \<or> probe p = 0 \<or> probe_down p = 0
         \<or> \<not> representable (retry_ceiling p)
      then Inl (Connection ''invalid hub session policy'') else Inr p)"

definition next_wait :: "hub_session_policy \<Rightarrow> duration \<Rightarrow> duration" where
  "next_wait p current = min (saturating_mul current 2) (retry_ceiling p)"

datatype link_outcome = Up | Dropped | Failed | Refused | KeyChanged | ClientKeyRejected

datatype link_decision = Hold | Retry duration | GiveUp link_outcome

record link_supervisor =
  l_policy :: hub_session_policy
  l_refusal_grace :: duration
  l_wait :: duration
  l_refused_since :: "duration option"

definition supervisor_new :: "hub_session_policy \<Rightarrow> duration \<Rightarrow> link_supervisor" where
  "supervisor_new p grace =
     \<lparr>l_policy = p, l_refusal_grace = grace, l_wait = retry p, l_refused_since = None\<rparr>"

definition retry_step :: "link_supervisor \<Rightarrow> link_decision \<times> link_supervisor" where
  "retry_step s = (Retry (l_wait s), s\<lparr>l_wait := next_wait (l_policy s) (l_wait s)\<rparr>)"

definition after :: "link_supervisor \<Rightarrow> link_outcome \<Rightarrow> duration \<Rightarrow> link_decision \<times> link_supervisor" where
  "after s outcome now =
     (case outcome of
        Up \<Rightarrow> (Hold, s\<lparr>l_wait := retry (l_policy s), l_refused_since := None\<rparr>)
      | Dropped \<Rightarrow> (Retry 0, s)
      | KeyChanged \<Rightarrow> (GiveUp outcome, s)
      | ClientKeyRejected \<Rightarrow> (GiveUp outcome, s)
      | Refused \<Rightarrow>
          (let since = (case l_refused_since s of None \<Rightarrow> now | Some t \<Rightarrow> t);
               s' = s\<lparr>l_refused_since := Some since\<rparr>
           in if saturating_sub now since \<ge> l_refusal_grace s then (GiveUp Refused, s')
              else retry_step s')
      | Failed \<Rightarrow> retry_step (s\<lparr>l_refused_since := None\<rparr>))"

section \<open>The ladder\<close>

definition policy_ok :: "hub_session_policy \<Rightarrow> bool" where
  "policy_ok p \<longleftrightarrow> 0 < retry p \<and> retry p \<le> retry_ceiling p \<and> retry_ceiling p \<le> duration_max"

lemma validate_ok: "validate representable p = Inr q \<Longrightarrow> retry_ceiling p \<le> duration_max \<Longrightarrow> q = p \<and> policy_ok p"
  by (auto simp: validate_def policy_ok_def split: if_splits)

interpretation link_ladder: ladder policy_ok retry retry_ceiling next_wait
  by unfold_locales (auto simp: policy_ok_def next_wait_def saturating_mul_def)

section \<open>The decision as a function of the history\<close>

type_synonym history = "(link_outcome \<times> duration) list"

text \<open>The latest outcome is first. Attempts missed since the link was last up:\<close>

fun misses :: "history \<Rightarrow> nat" where
  "misses [] = 0"
| "misses ((oc, t) # h) =
     (case oc of Up \<Rightarrow> 0 | Failed \<Rightarrow> Suc (misses h) | Refused \<Rightarrow> Suc (misses h) | _ \<Rightarrow> misses h)"

text \<open>When the refusals still going on began; a drop does not end them, an up or a failure does.\<close>

fun refused_from :: "history \<Rightarrow> duration option" where
  "refused_from [] = None"
| "refused_from ((oc, t) # h) =
     (case oc of
        Up \<Rightarrow> None
      | Failed \<Rightarrow> None
      | Refused \<Rightarrow> (case refused_from h of None \<Rightarrow> Some t | Some s \<Rightarrow> Some s)
      | _ \<Rightarrow> refused_from h)"

definition wait_after :: "hub_session_policy \<Rightarrow> nat \<Rightarrow> duration" where
  "wait_after p k = min (retry p * 2 ^ k) (retry_ceiling p)"

definition spec_decision ::
    "hub_session_policy \<Rightarrow> duration \<Rightarrow> history \<Rightarrow> link_outcome \<Rightarrow> duration \<Rightarrow> link_decision" where
  "spec_decision p grace h oc now =
     (case oc of
        Up \<Rightarrow> Hold
      | Dropped \<Rightarrow> Retry 0
      | Failed \<Rightarrow> Retry (wait_after p (misses h))
      | Refused \<Rightarrow>
          (let since = (case refused_from h of None \<Rightarrow> now | Some t \<Rightarrow> t)
           in if grace \<le> now - since then GiveUp Refused else Retry (wait_after p (misses h)))
      | _ \<Rightarrow> GiveUp oc)"

text \<open>The supervisor over a history, as long as it does not give up.\<close>

fun supervise :: "link_supervisor \<Rightarrow> history \<Rightarrow> link_supervisor option" where
  "supervise s [] = Some s"
| "supervise s ((oc, t) # h) =
     (case supervise s h of
        None \<Rightarrow> None
      | Some s' \<Rightarrow> (case after s' oc t of (GiveUp _, _) \<Rightarrow> None | (_, s'') \<Rightarrow> Some s''))"

definition abstracts :: "hub_session_policy \<Rightarrow> duration \<Rightarrow> history \<Rightarrow> link_supervisor \<Rightarrow> bool" where
  "abstracts p grace h s \<longleftrightarrow>
     l_policy s = p \<and> l_refusal_grace s = grace \<and> l_wait s = wait_after p (misses h)
     \<and> l_refused_since s = refused_from h"

lemma wait_after_rung: "policy_ok p \<Longrightarrow> wait_after p k = link_ladder.rung p k"
  by (simp add: wait_after_def link_ladder.rung_closed)

lemma wait_after_step: "policy_ok p \<Longrightarrow> next_wait p (wait_after p k) = wait_after p (Suc k)"
  by (simp add: wait_after_rung link_ladder.rung_Suc)

lemma wait_after_0: "policy_ok p \<Longrightarrow> wait_after p 0 = retry p"
  by (simp add: wait_after_def policy_ok_def)

lemma after_decision:
  assumes "policy_ok p" and "abstracts p grace h s"
  shows "fst (after s oc now) = spec_decision p grace h oc now"
  using assms
  by (cases oc) (auto simp: after_def spec_decision_def retry_step_def abstracts_def saturating_sub_def
      Let_def split: option.split)

lemma after_abstracts:
  assumes "policy_ok p" and "abstracts p grace h s" and "\<forall>r. fst (after s oc now) \<noteq> GiveUp r"
  shows "abstracts p grace ((oc, now) # h) (snd (after s oc now))"
  using assms
  by (cases oc) (auto simp: after_def retry_step_def abstracts_def saturating_sub_def Let_def
      wait_after_step wait_after_0 split: option.splits if_splits)

lemma supervise_abstracts:
  "policy_ok p \<Longrightarrow> supervise (supervisor_new p grace) h = Some s \<Longrightarrow> abstracts p grace h s"
proof (induction h arbitrary: s)
  case Nil
  then show ?case by (auto simp: abstracts_def supervisor_new_def wait_after_0)
next
  case (Cons x h)
  obtain oc t where x: "x = (oc, t)" by (cases x)
  obtain s' where s': "supervise (supervisor_new p grace) h = Some s'"
    and nogive: "\<forall>r. fst (after s' oc t) \<noteq> GiveUp r" and s: "s = snd (after s' oc t)"
    using Cons.prems(2) x by (auto split: option.splits prod.splits link_decision.splits)
  from after_abstracts [OF Cons.prems(1) Cons.IH [OF Cons.prems(1) s'] nogive] show ?case
    by (simp add: x s)
qed

text \<open>
  C4: whatever has happened to a link, the supervisor's decision is the one the documented rules
  give for the whole history: hold when it is up; dial again at once after a drop; after the
  k-th miss since it was last up wait \<open>retry * 2^k\<close>, at most the ceiling; give up on refusals
  exactly when they have lasted the grace since the first of them, with no failure or link in
  between; give up at once on a changed hub key and on a rejected client key.
\<close>

theorem supervisor_follows_history:
  assumes "policy_ok p" and "supervise (supervisor_new p grace) h = Some s"
  shows "fst (after s oc now) = spec_decision p grace h oc now"
  by (rule after_decision [OF assms(1) supervise_abstracts [OF assms]])

theorem supervisor_follows_history_witness:
  "(case supervise (supervisor_new default_policy (from_secs 600))
           [(Refused, from_secs 30), (Dropped, from_secs 25), (Refused, from_secs 10)] of
      Some s \<Rightarrow> fst (after s Refused (from_secs 610)) = GiveUp Refused
              \<and> fst (after s Refused (from_secs 609)) = Retry (from_secs 40)
    | None \<Rightarrow> False)"
proof -
  let ?h = "[(Refused, from_secs 30), (Dropped, from_secs 25), (Refused, from_secs 10)]"
  have ok: "policy_ok default_policy"
    by (simp add: policy_ok_def default_policy_def from_secs_def duration_max_def)
  have "supervise (supervisor_new default_policy (from_secs 600)) ?h \<noteq> None"
    by (simp add: supervisor_new_def after_def retry_step_def Let_def saturating_sub_def from_secs_def)
  then obtain s where s: "supervise (supervisor_new default_policy (from_secs 600)) ?h = Some s"
    by blast
  show ?thesis
    using supervisor_follows_history [OF ok s, of Refused "from_secs 610"]
      supervisor_follows_history [OF ok s, of Refused "from_secs 609"] s
    by (simp add: spec_decision_def from_secs_def wait_after_def default_policy_def)
qed

text \<open>
  The waits are bounded and every wait but the one after a drop is at least the first: a hub
  that is down is never dialled in a busy loop and never later than the ceiling, and once the
  ladder has been climbed as many times as the ceiling holds the first wait, every wait is the
  ceiling. A supervisor gives up only on a refusal or a key, never on a failure or a drop.
\<close>

theorem supervisor_waits_bounded:
  assumes "policy_ok p" and "supervise (supervisor_new p grace) h = Some s"
  shows "case fst (after s oc now) of
      Hold \<Rightarrow> oc = Up
    | GiveUp r \<Rightarrow> r = oc \<and> oc \<in> {Refused, KeyChanged, ClientKeyRejected}
    | Retry w \<Rightarrow> w \<le> retry_ceiling p \<and> (oc = Dropped \<and> w = 0 \<or> oc \<in> {Failed, Refused} \<and> retry p \<le> w)
        \<and> (oc \<noteq> Dropped \<and> retry_ceiling p div retry p \<le> misses h \<longrightarrow> w = retry_ceiling p)"
proof -
  have d: "fst (after s oc now) = spec_decision p grace h oc now"
    by (rule after_decision [OF assms(1) supervise_abstracts [OF assms]])
  have "retry p \<le> wait_after p (misses h) \<and> wait_after p (misses h) \<le> retry_ceiling p"
    using link_ladder.rung_bounds [OF assms(1)] by (simp add: wait_after_rung [OF assms(1)])
  moreover have "retry_ceiling p div retry p \<le> misses h \<Longrightarrow> wait_after p (misses h) = retry_ceiling p"
    using link_ladder.rung_top [OF assms(1)] by (simp add: wait_after_rung [OF assms(1)])
  ultimately show ?thesis
    unfolding d by (cases oc) (auto simp: spec_decision_def Let_def)
qed

theorem supervisor_waits_bounded_witness:
  "(case supervise (supervisor_new default_policy (from_secs 600)) (replicate 12 (Failed, 0)) of
      Some s \<Rightarrow> fst (after s Failed 0) = Retry (from_secs 120)
    | None \<Rightarrow> False)"
proof -
  have ok: "policy_ok default_policy"
    by (simp add: policy_ok_def default_policy_def from_secs_def duration_max_def)
  have "\<exists>s. supervise (supervisor_new default_policy (from_secs 600)) (replicate n (Failed, 0)) = Some s" for n
  proof (induction n)
    case (Suc n)
    then show ?case by (auto simp: after_def retry_step_def)
  qed simp
  then obtain s where s: "supervise (supervisor_new default_policy (from_secs 600)) (replicate 12 (Failed, 0)) = Some s"
    by blast
  have m: "misses (replicate n (Failed, 0)) = n" for n by (induction n) simp_all
  have "fst (after s Failed 0) \<noteq> Hold \<and> (\<forall>r. fst (after s Failed 0) \<noteq> GiveUp r)"
    by (simp add: after_def retry_step_def)
  then show ?thesis
    using supervisor_waits_bounded [OF ok s, of Failed 0] s
    by (auto simp: m default_policy_def from_secs_def
        split: link_decision.splits)
qed

end
