(* ===== verification/Hub_Session.thy ===== *)
theory Hub_Session
  imports Link
begin

text \<open>
  \<open>src/src/session.rs\<close>, \<open>HubSession\<close>: one client held for many callers, the attempts to get it, the
  relay of its events and the close. The client, its transport and the clock are the host's: a
  \<open>net\<close> gives what they answer during one operation, and whether another task began to close the
  session at each point where the operation waits. Operations run under the lock of \<open>held\<close>, so one
  operation is one step; \<open>close\<close> takes effect in two, as only its second half waits for the lock. A caller
  may also give up at any point where an operation waits: what is left then is a step of its own.
\<close>

section \<open>State\<close>

text \<open>
  The last four fields are what the outside has seen, latest first: what the state callbacks were told, the
  clients the factory handed over, the clients closed without an error, and those let go without being closed.
\<close>

record 'c session =
  policy :: hub_session_policy
  closed :: bool
  warming :: bool
  has_client :: bool
  held_client :: "'c option"
  held_retired :: "'c option"
  held_relay :: "64 word option"
  generation :: "64 word"
  sender :: bool
  retry_at :: "duration option"
  retry_wait :: duration
  settle :: duration
  refusal_grace :: duration
  announced :: "bool list"
  made :: "'c list"
  disposed :: "'c list"
  let_go :: "'c list"

record 'c net =
  n_connect :: "'c res"
  n_close :: "'c \<Rightarrow> unit res"
  n_alive :: "'c \<Rightarrow> bool"
  n_connected :: "'c \<Rightarrow> unit res"
  n_stopped_within :: "'c \<Rightarrow> duration \<Rightarrow> bool"
  n_closed_refused :: "'c \<Rightarrow> bool"
  n_refusal :: "'c \<Rightarrow> thalovant_error"
  n_now :: duration
  n_closing_connect :: bool
  n_closing_settle :: bool
  n_closing_drop :: bool

definition CLOSED :: thalovant_error where "CLOSED = Connection ''hub session is closed''"

definition DEFAULT_SETTLE_WINDOW :: duration where "DEFAULT_SETTLE_WINDOW = from_millis 750"
definition DEFAULT_REFUSAL_GRACE :: duration where "DEFAULT_REFUSAL_GRACE = from_secs 600"

definition session_new :: "(duration \<Rightarrow> bool) \<Rightarrow> hub_session_policy \<Rightarrow> 'c session res" where
  "session_new representable p =
     res_bind (validate representable p) (\<lambda>p.
       Inr \<lparr>policy = p, closed = False, warming = False, has_client = False, held_client = None,
            held_retired = None, held_relay = None, generation = 0, sender = True, retry_at = None,
            retry_wait = retry p, settle = DEFAULT_SETTLE_WINDOW,
            refusal_grace = DEFAULT_REFUSAL_GRACE, announced = [], made = [], disposed = [],
            let_go = []\<rparr>)"

definition with_settle_window :: "duration \<Rightarrow> 'c session \<Rightarrow> 'c session" where
  "with_settle_window window s = s\<lparr>settle := window\<rparr>"

definition with_refusal_grace :: "duration \<Rightarrow> 'c session \<Rightarrow> 'c session res" where
  "with_refusal_grace grace s =
     (if grace = 0 then Inl (Connection ''the refusal grace must be positive'')
      else Inr (s\<lparr>refusal_grace := grace\<rparr>))"

definition probe_delay :: "'c session \<Rightarrow> duration" where
  "probe_delay s = (if has_client s then probe (policy s) else probe_down (policy s))"

definition subscribe :: "'c session \<Rightarrow> unit res" where
  "subscribe s = (if sender s then Inr () else Inl CLOSED)"

section \<open>Operations\<close>

text \<open>A new link held to the settle window: whether its transport stopped within it, and how.\<close>

definition settled :: "'c net \<Rightarrow> 'c \<Rightarrow> duration \<Rightarrow> unit res" where
  "settled net client window =
     (if window = 0 then Inr ()
      else if \<not> n_stopped_within net client window then Inr ()
      else Inl (if n_closed_refused net client then n_refusal net client
                else Connection ''the hub closed the link right after the handshake''))"

text \<open>
  The factory of a session for an identity: the client's own attempt, or why it failed, which
  is a refusal when the hub closed the link the way it refuses credentials. Its client is closed.
\<close>

definition connect_for_session :: "'c net \<Rightarrow> 'c \<Rightarrow> 'c res" where
  "connect_for_session net client =
     (case n_connected net client of
        Inr _ \<Rightarrow> Inr client
      | Inl error \<Rightarrow>
          (let refused = n_closed_refused net client
                 \<and> (case error of Connection _ \<Rightarrow> True | _ \<Rightarrow> False)
                 \<and> \<not> is_hub_refused error \<and> \<not> is_hub_key_changed error
           in Inl (if refused then n_refusal net client else error)))"

definition announce :: "bool \<Rightarrow> 'c session \<Rightarrow> 'c session" where
  "announce up s = s\<lparr>announced := up # announced s\<rparr>"

text \<open>The first half of \<open>close\<close>, which no lock holds up.\<close>

definition close_begin :: "'c session \<Rightarrow> 'c session" where
  "close_begin s = s\<lparr>closed := True, sender := False\<rparr>"

definition closing :: "bool \<Rightarrow> 'c session \<Rightarrow> 'c session" where
  "closing begun s = (if begun then close_begin s else s)"

definition cleanup :: "'c net \<Rightarrow> 'c session \<Rightarrow> unit res \<times> 'c session" where
  "cleanup net s =
     (case held_retired s of
        None \<Rightarrow> (Inr (), s)
      | Some client \<Rightarrow>
          (case n_close net client of
             Inl e \<Rightarrow> (Inl e, s)
           | Inr _ \<Rightarrow> (Inr (), s\<lparr>held_retired := None, disposed := client # disposed s\<rparr>)))"

definition retire_client :: "'c session \<Rightarrow> 'c session" where
  "retire_client s =
     (let s = s\<lparr>generation := generation s + 1, held_relay := None\<rparr>
      in case held_client s of
           None \<Rightarrow> s
         | Some client \<Rightarrow>
             (let s = s\<lparr>held_client := None\<rparr>;
                  s = (if has_client s then announce False (s\<lparr>has_client := False\<rparr>) else s)
              in s\<lparr>held_retired := Some client\<rparr>))"

definition drop_client :: "'c net \<Rightarrow> 'c session \<Rightarrow> unit res \<times> 'c session" where
  "drop_client net s = cleanup net (retire_client s)"

definition back_off :: "'c net \<Rightarrow> 'c session \<Rightarrow> 'c session" where
  "back_off net s =
     s\<lparr>retry_at := Some (n_now net + retry_wait s), retry_wait := next_wait (policy s) (retry_wait s)\<rparr>"

text \<open>A client that arrives in a closed session is retired; its failed cleanup is the answer.\<close>

definition refuse_late :: "'c net \<Rightarrow> 'c \<Rightarrow> 'c session \<Rightarrow> 'c res \<times> 'c session" where
  "refuse_late net client s =
     (case cleanup net (s\<lparr>held_retired := Some client\<rparr>) of
        (Inl e, s') \<Rightarrow> (Inl e, s')
      | (Inr _, s') \<Rightarrow> (Inl CLOSED, s'))"

text \<open>The link counts: a relay of a new generation, no retry, and the callbacks hear it.\<close>

definition hold_client :: "'c \<Rightarrow> 'c session \<Rightarrow> 'c session" where
  "hold_client client s =
     (let s = s\<lparr>generation := generation s + 1\<rparr>;
          s = s\<lparr>held_relay := Some (generation s), held_client := Some client, retry_at := None,
                retry_wait := retry (policy s)\<rparr>
      in if has_client s then s else announce True (s\<lparr>has_client := True\<rparr>))"

definition establish :: "'c net \<Rightarrow> bool \<Rightarrow> 'c session \<Rightarrow> 'c res \<times> 'c session" where
  "establish net settling s =
     (if closed s then (Inl CLOSED, s)
      else case cleanup net s of
        (Inl e, s) \<Rightarrow> (Inl e, s)
      | (Inr _, s) \<Rightarrow>
          (case held_client s of
             Some client \<Rightarrow> (Inr client, s)
           | None \<Rightarrow>
               (let s = closing (n_closing_connect net) s
                in case n_connect net of
                     Inl e \<Rightarrow> (Inl e, back_off net s)
                   | Inr client \<Rightarrow>
                       (let s = s\<lparr>made := client # made s\<rparr>
                        in if closed s then refuse_late net client s
                           else if settling then
                             (let s = closing (n_closing_settle net) s
                              in case settled net client (settle s) of
                                   Inl e \<Rightarrow>
                                     (Inl e, back_off net (snd (cleanup net (s\<lparr>held_retired := Some client\<rparr>))))
                                 | Inr _ \<Rightarrow>
                                     if closed s then refuse_late net client s
                                     else (Inr client, hold_client client s))
                           else (Inr client, hold_client client s)))))"

text \<open>
  An attempt whose caller gave up while it waited: for the factory, for the settle window, or for the cleanup of
  a client that came too late or did not settle. In the settle window the new client is the future's own, and
  goes with it.
\<close>

datatype drop_point = At_Factory | At_Settling | At_Late_Cleanup

definition establish_dropped :: "drop_point \<Rightarrow> 'c net \<Rightarrow> bool \<Rightarrow> 'c session \<Rightarrow> 'c session" where
  "establish_dropped point net settling s =
     (if closed s then s
      else case cleanup net s of
        (Inl e, s) \<Rightarrow> s
      | (Inr _, s) \<Rightarrow>
          (case held_client s of
             Some client \<Rightarrow> s
           | None \<Rightarrow>
               (let s = closing (n_closing_connect net) s
                in if point = At_Factory then s
                   else case n_connect net of
                     Inl e \<Rightarrow> back_off net s
                   | Inr client \<Rightarrow>
                       (let s = s\<lparr>made := client # made s\<rparr>
                        in if closed s then s\<lparr>held_retired := Some client\<rparr>
                           else if settling \<and> point = At_Settling \<and> settle s \<noteq> 0
                           then s\<lparr>let_go := client # let_go s\<rparr>
                           else if settling then
                             (let s = closing (n_closing_settle net) s
                              in if settled net client (settle s) \<noteq> Inr () \<or> closed s
                                 then s\<lparr>held_retired := Some client\<rparr> else hold_client client s)
                           else hold_client client s))))"

definition ensure :: "'c net \<Rightarrow> 'c session \<Rightarrow> 'c res \<times> 'c session" where
  "ensure net s = establish net False s"

text \<open>\<open>warm\<close>: one attempt at a time; the guard, the task, and the end of the task however it ends.\<close>

definition warm :: "'c net \<Rightarrow> 'c session \<Rightarrow> bool \<times> 'c session" where
  "warm net s =
     (if closed s \<or> (case retry_at s of None \<Rightarrow> False | Some at \<Rightarrow> n_now net < at) then (False, s)
      else if warming s then (False, s) else (True, s\<lparr>warming := True\<rparr>))"

definition warm_task :: "'c net \<Rightarrow> 'c session \<Rightarrow> unit res \<times> 'c session" where
  "warm_task net s =
     (case ensure net s of (r, s') \<Rightarrow> (res_bind r (\<lambda>_. Inr ()), s'\<lparr>warming := False\<rparr>))"

definition warm_cancelled :: "'c session \<Rightarrow> 'c session" where
  "warm_cancelled s = s\<lparr>warming := False\<rparr>"

text \<open>A held client that is no longer alive is dropped first, by every operation that uses it.\<close>

definition drop_dead :: "'c net \<Rightarrow> 'c session \<Rightarrow> unit res \<times> 'c session" where
  "drop_dead net s =
     (case held_client s of
        Some client \<Rightarrow> if n_alive net client then (Inr (), s) else drop_client net s
      | None \<Rightarrow> (Inr (), s))"

text \<open>\<open>busy\<close>: another operation holds the lock.\<close>

definition probe_session :: "'c net \<Rightarrow> bool \<Rightarrow> 'c session \<Rightarrow> unit res \<times> 'c session" where
  "probe_session net busy s =
     (if busy \<or> closed s then (Inr (), s)
      else case drop_dead net s of
             (Inl e, s) \<Rightarrow> (Inl e, s)
           | (Inr _, s) \<Rightarrow>
               (Inr (), if held_client s = None then snd (warm net s) else s))"

definition keeps_link :: "thalovant_error \<Rightarrow> bool" where
  "keeps_link e = (case e of Runtime _ \<Rightarrow> True | PolicyDenied _ _ _ _ _ \<Rightarrow> True | _ \<Rightarrow> False)"

definition call :: "'c net \<Rightarrow> ('c \<Rightarrow> 'a res) \<Rightarrow> 'c session \<Rightarrow> 'a res \<times> 'c session" where
  "call net operation s =
     (case drop_dead net s of
        (Inl e, s) \<Rightarrow> (Inl e, s)
      | (Inr _, s) \<Rightarrow>
          (case ensure net (closing (n_closing_drop net) s) of
             (Inl e, s) \<Rightarrow> (Inl e, s)
           | (Inr client, s) \<Rightarrow>
               (case operation client of
                  Inr x \<Rightarrow> (Inr x, s)
                | Inl e \<Rightarrow>
                    if keeps_link e then (Inl e, s)
                    else case drop_client net s of
                           (Inl e', s) \<Rightarrow> (Inl e', s)
                         | (Inr _, s) \<Rightarrow> (Inl e, s))))"

definition connect :: "'c net \<Rightarrow> 'c session \<Rightarrow> unit res \<times> 'c session" where
  "connect net s =
     (case held_client s of
        Some client \<Rightarrow>
          if n_alive net client then (Inr (), s)
          else (case drop_client net s of
                  (Inl e, s) \<Rightarrow> (Inl e, s)
                | (Inr _, s) \<Rightarrow>
                    (case establish net True (closing (n_closing_drop net) s) of
                       (r, s) \<Rightarrow> (res_bind r (\<lambda>_. Inr ()), s)))
      | None \<Rightarrow> (case establish net True s of (r, s) \<Rightarrow> (res_bind r (\<lambda>_. Inr ()), s)))"

definition close_finish :: "'c net \<Rightarrow> 'c session \<Rightarrow> unit res \<times> 'c session" where
  "close_finish net s = drop_client net s"

definition close :: "'c net \<Rightarrow> 'c session \<Rightarrow> unit res \<times> 'c session" where
  "close net s = close_finish net (close_begin s)"

section \<open>The relay of events\<close>

datatype ('e) received = Event 'e | Lagged nat | Gone

datatype ('e) relayed = Deliver 'e | Tell_Lagged nat | Tell_Disconnected | Stop

text \<open>What the relay started at \<open>gen\<close> does with what its client received.\<close>

definition relay_receive :: "64 word \<Rightarrow> 'e received \<Rightarrow> 'c session \<Rightarrow> 'e relayed" where
  "relay_receive gen received s =
     (if generation s \<noteq> gen \<or> closed s \<or> \<not> sender s then Stop
      else case received of
             Event e \<Rightarrow> Deliver e
           | Lagged n \<Rightarrow> Tell_Lagged n
           | Gone \<Rightarrow> Tell_Disconnected)"

section \<open>Staying connected\<close>

datatype run_next = Continue | Return "unit res" | Sleep duration

definition unusable :: "thalovant_error \<Rightarrow> bool" where
  "unusable e =
     (case e of MissingIdentityField _ \<Rightarrow> True | InvalidIdentity _ \<Rightarrow> True
      | UnsupportedProtocol _ \<Rightarrow> True | _ \<Rightarrow> False)"

definition run_wait :: "'c session \<Rightarrow> link_decision \<Rightarrow> run_next" where
  "run_wait s decision =
     (if closed s then Return (Inr ())
      else Sleep (case decision of Retry w \<Rightarrow> w | _ \<Rightarrow> 0))"

text \<open>One attempt of \<open>run\<close>, \<open>elapsed\<close> after it began.\<close>

definition run_attempt ::
    "'c net \<Rightarrow> duration \<Rightarrow> link_supervisor \<Rightarrow> 'c session \<Rightarrow> run_next \<times> link_supervisor \<times> 'c session" where
  "run_attempt net elapsed visor s =
     (case connect net s of
        (Inr _, s) \<Rightarrow> (Continue, snd (after visor Up elapsed), s)
      | (Inl e, s) \<Rightarrow>
          if is_hub_key_changed e then (Return (Inl e), snd (after visor KeyChanged elapsed), s)
          else if is_client_key_rejected e then
            (Return (Inl e), snd (after visor ClientKeyRejected elapsed), s)
          else if is_hub_refused e then
            (case after visor Refused elapsed of
               (GiveUp r, visor) \<Rightarrow> (Return (Inl e), visor, s)
             | (decision, visor) \<Rightarrow> (run_wait s decision, visor, s))
          else if unusable e then (Return (Inl e), visor, s)
          else case after visor Failed elapsed of (decision, visor) \<Rightarrow> (run_wait s decision, visor, s))"

text \<open>A held link is watched: it stopped, it is time to look, or the session was closed.\<close>

definition run_watch ::
    "'c net \<Rightarrow> duration \<Rightarrow> link_supervisor \<Rightarrow> 'c session \<Rightarrow> run_next \<times> link_supervisor \<times> 'c session" where
  "run_watch net elapsed visor s =
     (if closed s then (Return (Inr ()), visor, s)
      else case held_client s of
             Some client \<Rightarrow>
               if n_alive net client then (Continue, visor, s)
               else (Continue, snd (after visor Dropped elapsed), snd (drop_client net s))
           | None \<Rightarrow> (Continue, visor, s))"

end
