(* ===== verification/Session_Invariant.thy ===== *)
theory Session_Invariant
  imports Hub_Session
begin

text \<open>
  What holds of a \<open>HubSession\<close> in every state it can reach, whatever its host answers and however
  its operations interleave: the flag agrees with the client, one relay of the current generation
  serves it, the callbacks hear up and down in turn, no client is lost but in one place, and a close is final.
\<close>

section \<open>The invariant\<close>

named_theorems session_intros \<open>operations that keep the invariant of a session\<close>

text \<open>What the callbacks were told, latest first: it ends in \<open>up\<close> and no two in a row agree.\<close>

fun alternates :: "bool list \<Rightarrow> bool \<Rightarrow> bool" where
  "alternates [] up = (\<not> up)"
| "alternates (x # xs) up = (x = up \<and> alternates xs (\<not> up))"

text \<open>Each client the factory made is held, retired or closed, or was let go by a caller that gave up.\<close>

definition accounted :: "'c session \<Rightarrow> bool" where
  "accounted s \<longleftrightarrow>
     set (made s) = set (disposed s) \<union> set_option (held_client s) \<union> set_option (held_retired s) \<union> set (let_go s)"

definition session_inv :: "hub_session_policy \<Rightarrow> 'c session \<Rightarrow> bool" where
  "session_inv p s \<longleftrightarrow>
     policy s = p \<and> has_client s = (held_client s \<noteq> None)
     \<and> held_relay s = map_option (\<lambda>_. generation s) (held_client s)
     \<and> (held_client s \<noteq> None \<longrightarrow> held_retired s = None \<and> retry_at s = None \<and> retry_wait s = retry p)
     \<and> sender s = (\<not> closed s) \<and> alternates (announced s) (held_client s \<noteq> None)
     \<and> retry p \<le> retry_wait s \<and> retry_wait s \<le> retry_ceiling p \<and> accounted s"

lemmas inv_unfold = session_inv_def accounted_def

lemma session_new_inv:
  "session_new representable p = Inr s \<Longrightarrow> retry_ceiling p \<le> duration_max \<Longrightarrow> policy_ok p \<and> session_inv p s"
  using validate_ok [of representable p]
  by (auto simp: session_new_def res_bind_eq_Inr inv_unfold policy_ok_def)

lemma close_begin_inv [session_intros]: "session_inv p s \<Longrightarrow> session_inv p (close_begin s)"
  by (simp add: inv_unfold close_begin_def)

lemma closing_inv [session_intros]: "session_inv p s \<Longrightarrow> session_inv p (closing b s)"
  by (simp add: closing_def close_begin_inv)

lemma cleanup_inv [session_intros]:
  "session_inv p s \<Longrightarrow> cleanup net s = (r, s') \<Longrightarrow> session_inv p s'"
  by (auto simp: inv_unfold cleanup_def split: option.splits sum.splits)

lemma cleanup_client [simp]: "held_client (snd (cleanup net s)) = held_client s"
  by (auto simp: cleanup_def split: option.splits sum.splits)

lemma cleanup_done: "cleanup net s = (Inr u, s') \<Longrightarrow> held_retired s' = None"
  by (auto simp: cleanup_def split: option.splits sum.splits)

lemma retire_client_inv [session_intros]: "session_inv p s \<Longrightarrow> session_inv p (retire_client s)"
  by (auto simp: inv_unfold retire_client_def announce_def Let_def split: option.splits)

lemma retire_client_none [simp]: "held_client (retire_client s) = None"
  by (simp add: retire_client_def announce_def Let_def split: option.splits)

lemma drop_client_inv [session_intros]:
  "session_inv p s \<Longrightarrow> drop_client net s = (r, s') \<Longrightarrow> session_inv p s'"
  unfolding drop_client_def by (blast intro: session_intros)

lemma drop_client_none: "drop_client net s = (r, s') \<Longrightarrow> held_client s' = None"
  using cleanup_client [of net "retire_client s"] by (simp add: drop_client_def)

lemma back_off_inv [session_intros]:
  assumes "policy_ok p" and "session_inv p s" and "held_client s = None"
  shows "session_inv p (back_off net s)"
proof -
  have "retry p \<le> next_wait p (retry_wait s) \<and> next_wait p (retry_wait s) \<le> retry_ceiling p"
    using assms by (auto simp: inv_unfold next_wait_def saturating_mul_def policy_ok_def)
  then show ?thesis using assms by (simp add: inv_unfold back_off_def)
qed

lemma late_inv:
  "session_inv p s \<Longrightarrow> held_client s = None \<Longrightarrow> held_retired s = None \<Longrightarrow>
   session_inv p (s\<lparr>made := client # made s, held_retired := Some client\<rparr>)"
  by (auto simp: inv_unfold)

lemma hold_client_inv:
  "policy_ok p \<Longrightarrow> session_inv p s \<Longrightarrow> held_client s = None \<Longrightarrow> held_retired s = None \<Longrightarrow>
   session_inv p (hold_client client (s\<lparr>made := client # made s\<rparr>))"
  by (auto simp: inv_unfold hold_client_def announce_def Let_def policy_ok_def)

lemma closing_fields [simp]:
  "held_client (closing b s) = held_client s" "held_retired (closing b s) = held_retired s"
  "made (closing b s) = made s" "closing b (s\<lparr>made := m\<rparr>) = (closing b s)\<lparr>made := m\<rparr>"
  by (simp_all add: closing_def close_begin_def)

lemma refuse_late_inv:
  assumes "session_inv p s" and "held_client s = None" and "held_retired s = None"
    and "refuse_late net client (s\<lparr>made := client # made s\<rparr>) = (r, s')"
  shows "session_inv p s' \<and> held_client s' = None"
proof -
  let ?s = "s\<lparr>made := client # made s, held_retired := Some client\<rparr>"
  obtain r' where "cleanup net ?s = (r', s')"
    using assms(4) by (auto simp: refuse_late_def split: prod.splits sum.splits)
  with cleanup_inv [OF late_inv [OF assms(1-3)]] cleanup_client [of net ?s] assms(2) show ?thesis
    by auto
qed

text \<open>
  The attempt, case by case: closed; a cleanup that fails; a client already held; a factory that
  fails; and a new client, which is held, or retired when it came too late or did not settle.
\<close>

lemma establish_cases:
  assumes "establish net settling s = (r, s')"
  obtains (closed) "closed s" "r = Inl CLOSED" "s' = s"
  | (cleanup) e where "\<not> closed s" "cleanup net s = (Inl e, s')" "r = Inl e"
  | (held) client where "\<not> closed s" "cleanup net s = (Inr (), s')" "held_client s' = Some client" "r = Inr client"
  | (failed) e s1 where "\<not> closed s" "cleanup net s = (Inr (), s1)" "held_client s1 = None"
      "n_connect net = Inl e" "r = Inl e" "s' = back_off net (closing (n_closing_connect net) s1)"
  | (late) client b s1 where "\<not> closed s" "cleanup net s = (Inr (), s1)" "held_client s1 = None"
      "closed (closing b s1)"
      "refuse_late net client ((closing b s1)\<lparr>made := client # made s1\<rparr>) = (r, s')"
  | (unsettled) client e s1 where "\<not> closed s" "cleanup net s = (Inr (), s1)" "held_client s1 = None"
      "settling" "r = Inl e"
      "s' = back_off net (snd (cleanup net
              ((closing (n_closing_settle net) s1)\<lparr>made := client # made s1, held_retired := Some client\<rparr>)))"
  | (new) client s1 where "\<not> closed s" "cleanup net s = (Inr (), s1)" "held_client s1 = None"
      "n_connect net = Inr client" "\<not> closed s1" "r = Inr client"
      "settling \<longrightarrow> settled net client (settle s1) = Inr ()"
      "s' = hold_client client (s1\<lparr>made := client # made s1\<rparr>)"
proof (cases "closed s")
  case True
  then show ?thesis using assms by (intro that(1)) (simp_all add: establish_def)
next
  case open_s: False
  obtain c s1 where c: "cleanup net s = (c, s1)" by fastforce
  show ?thesis
  proof (cases c)
    case (Inl e)
    then show ?thesis using assms open_s c by (intro that(2) [of e]) (simp_all add: establish_def)
  next
    case (Inr u)
    then have c: "cleanup net s = (Inr (), s1)" using c by simp
    show ?thesis
    proof (cases "held_client s1")
      case (Some client)
      then show ?thesis using assms open_s c by (intro that(3) [of client]) (simp_all add: establish_def)
    next
      case None
      show ?thesis
      proof (cases "n_connect net")
        case (Inl e)
        then show ?thesis
          using assms open_s c None by (intro that(4) [of s1 e]) (simp_all add: establish_def Let_def)
      next
        case (Inr client)
        let ?s2 = "closing (n_closing_connect net) s1"
        show ?thesis
        proof (cases "closed ?s2")
          case True
          then show ?thesis
            using assms open_s c None Inr
            by (intro that(5) [of s1 "n_closing_connect net" client]) (simp_all add: establish_def Let_def)
        next
          case s2: False
          then have eq: "?s2 = s1" by (simp add: closing_def close_begin_def split: if_splits)
          note u = assms [unfolded establish_def, simplified open_s c None Inr, simplified,
              simplified None Inr eq Let_def, simplified]
          show ?thesis
          proof (cases settling)
            case False
            then show ?thesis
              using u s2 eq open_s c None Inr by (intro that(7) [of s1 client]) simp_all
          next
            case True
            show ?thesis
            proof (cases "settled net client (settle s1)")
              case (Inl e)
              have "settle (closing b s1) = settle s1" for b by (simp add: closing_def close_begin_def)
              then show ?thesis
                using u s2 eq open_s c None True Inl
                by (intro that(6) [of s1 e client]) (simp_all add: Let_def)
            next
              case ok: (Inr v)
              have st: "settle (closing b s1) = settle s1" for b by (simp add: closing_def close_begin_def)
              show ?thesis
              proof (cases "closed (closing (n_closing_settle net) s1)")
                case cl: True
                then show ?thesis
                  using u s2 eq open_s c None True ok st
                  by (intro that(5) [of s1 "n_closing_settle net" client]) (simp_all add: Let_def)
              next
                case cl: False
                then have "closing (n_closing_settle net) s1 = s1"
                  by (simp add: closing_def close_begin_def split: if_splits)
                then show ?thesis
                  using u s2 eq open_s c None True ok st Inr cl
                  by (intro that(7) [of s1 client]) (simp_all add: Let_def)
              qed
            qed
          qed
        qed
      qed
    qed
  qed
qed

lemma establish_inv [session_intros]:
  assumes "policy_ok p" and "session_inv p s" and "establish net settling s = (r, s')"
  shows "session_inv p s'"
  using assms(3)
proof (cases rule: establish_cases)
  case (failed e s1)
  with cleanup_inv [OF assms(2)] show ?thesis
    by (auto intro!: back_off_inv closing_inv assms(1))
next
  case (late client b s1)
  have "session_inv p (closing b s1)" using cleanup_inv [OF assms(2) late(2)] by (rule closing_inv)
  with refuse_late_inv [of p "closing b s1" net client] late cleanup_done [OF late(2)] show ?thesis
    by simp
next
  case (unsettled client e s1)
  let ?c = "closing (n_closing_settle net) s1"
  let ?s2 = "?c\<lparr>made := client # made s1, held_retired := Some client\<rparr>"
  have "session_inv p ?c" using cleanup_inv [OF assms(2) unsettled(2)] by (rule closing_inv)
  from late_inv [OF this] have "session_inv p ?s2"
    using unsettled(3) cleanup_done [OF unsettled(2)] by simp
  moreover obtain r3 s3 where s3: "cleanup net ?s2 = (r3, s3)" by fastforce
  ultimately have "session_inv p s3" by (blast intro: cleanup_inv)
  moreover have "held_client s3 = None" using cleanup_client [of net ?s2] unsettled(3) s3 by simp
  ultimately show ?thesis unfolding unsettled(6) s3 by (simp add: back_off_inv [OF assms(1)])
next
  case (new client s1)
  with hold_client_inv [OF assms(1) cleanup_inv [OF assms(2) new(2)]] cleanup_done [OF new(2)]
  show ?thesis by simp
qed (use assms(2) in \<open>auto intro: session_intros\<close>)

lemma ensure_inv [session_intros]:
  "policy_ok p \<Longrightarrow> session_inv p s \<Longrightarrow> ensure net s = (r, s') \<Longrightarrow> session_inv p s'"
  unfolding ensure_def by (rule establish_inv)

lemma drop_dead_inv [session_intros]:
  "session_inv p s \<Longrightarrow> drop_dead net s = (r, s') \<Longrightarrow> session_inv p s'"
  by (auto simp: drop_dead_def split: option.splits if_splits intro: session_intros)

lemma warming_inv [session_intros]: "session_inv p s \<Longrightarrow> session_inv p (s\<lparr>warming := b\<rparr>)"
  by (simp add: inv_unfold)

lemma settings_inv [session_intros]:
  "session_inv p s \<Longrightarrow> session_inv p (s\<lparr>settle := w\<rparr>)"
  "session_inv p s \<Longrightarrow> session_inv p (s\<lparr>refusal_grace := g\<rparr>)"
  by (simp_all add: inv_unfold)

lemma warm_inv [session_intros]: "session_inv p s \<Longrightarrow> session_inv p (snd (warm net s))"
  by (simp add: warm_def warming_inv)

lemma warm_task_inv [session_intros]:
  "policy_ok p \<Longrightarrow> session_inv p s \<Longrightarrow> session_inv p (snd (warm_task net s))"
  by (auto simp: warm_task_def split: prod.split intro: session_intros)

lemma probe_session_inv [session_intros]:
  "session_inv p s \<Longrightarrow> session_inv p (snd (probe_session net busy s))"
  by (auto simp: probe_session_def split: prod.split sum.split intro: session_intros)

lemma keeps_let_go [simp]:
  "let_go (closing b s) = let_go s" "let_go (close_begin s) = let_go s" "let_go (snd (cleanup net s)) = let_go s"
  "let_go (retire_client s) = let_go s" "let_go (back_off net s) = let_go s" "let_go (hold_client c s) = let_go s"
  "let_go (snd (drop_client net s)) = let_go s" "let_go (snd (warm net s)) = let_go s"
  by (auto simp: closing_def close_begin_def cleanup_def retire_client_def back_off_def hold_client_def announce_def
      drop_client_def warm_def Let_def split: option.splits sum.splits)

lemma let_go_inv:
  "session_inv p s \<Longrightarrow> held_client s = None \<Longrightarrow> session_inv p (s\<lparr>made := client # made s, let_go := client # let_go s\<rparr>)"
  by (auto simp: inv_unfold)

lemma establish_dropped_inv:
  assumes "policy_ok p" and "session_inv p s"
  shows "session_inv p (establish_dropped point net settling s)"
proof -
  obtain r s1 where c: "cleanup net s = (r, s1)" by fastforce
  have i: "session_inv p s1" using cleanup_inv [OF assms(2) c] .
  show ?thesis
  proof (cases "closed s \<or> r \<noteq> Inr () \<or> held_client s1 \<noteq> None")
    case True
    then show ?thesis using c i assms(2) by (auto simp: establish_dropped_def split: sum.split)
  next
    case False
    then have n: "held_client s1 = None" "held_retired s1 = None" using c by (auto dest: cleanup_done)
    have two: "closing b (closing b' s1) = closing (b \<or> b') s1" for b b' by (simp add: closing_def close_begin_def)
    have late: "session_inv p ((closing b s1)\<lparr>made := client # made s1, held_retired := Some client\<rparr>)" for b client
      using late_inv [OF closing_inv [OF i]] n by simp
    have lost: "session_inv p ((closing b s1)\<lparr>made := client # made s1, let_go := client # let_go s1\<rparr>)" for b client
      using let_go_inv [OF closing_inv [OF i, of b], of client] n by simp
    have hold: "session_inv p (hold_client client ((closing b s1)\<lparr>made := client # made s1\<rparr>))" for b client
      using hold_client_inv [OF assms(1) closing_inv [OF i, of b], of client] n by simp
    have off: "session_inv p (back_off net (closing b s1))" for b
      using back_off_inv [OF assms(1) closing_inv [OF i, of b]] n by simp
    show ?thesis
      using False c n late lost hold off closing_inv [OF i]
      by (auto simp: establish_dropped_def Let_def two split: sum.split)
  qed
qed

text \<open>The same facts about the state an operation leaves, for the simplifier.\<close>

lemma snd_inv:
  "policy_ok p \<Longrightarrow> session_inv p s \<Longrightarrow> session_inv p (snd (establish net settling s))"
  "policy_ok p \<Longrightarrow> session_inv p s \<Longrightarrow> session_inv p (snd (ensure net s))"
  "session_inv p s \<Longrightarrow> session_inv p (snd (drop_client net s))"
  "session_inv p s \<Longrightarrow> session_inv p (snd (drop_dead net s))"
  using establish_inv ensure_inv drop_client_inv drop_dead_inv by (metis prod.collapse)+

lemma call_inv:
  "policy_ok p \<Longrightarrow> session_inv p s \<Longrightarrow> session_inv p (snd (call net operation s))"
  by (simp add: call_def split_def snd_inv closing_inv split: sum.split)

lemma connect_inv:
  "policy_ok p \<Longrightarrow> session_inv p s \<Longrightarrow> session_inv p (snd (connect net s))"
  by (simp add: connect_def split_def snd_inv closing_inv split: sum.split option.split)

lemma close_finish_inv [session_intros]:
  "session_inv p s \<Longrightarrow> session_inv p (snd (close_finish net s))"
  unfolding close_finish_def by (metis drop_client_inv prod.collapse)

lemma run_attempt_session: "snd (snd (run_attempt net t visor s)) = snd (connect net s)"
  by (simp add: run_attempt_def split: prod.split sum.split link_decision.split)

lemma run_watch_inv [session_intros]:
  "session_inv p s \<Longrightarrow> session_inv p (snd (snd (run_watch net t visor s)))"
  by (auto simp: run_watch_def split: option.split intro: session_intros)
    (metis drop_client_inv prod.collapse)

section \<open>Reachable sessions\<close>

text \<open>
  The operations of a session, in any order, each with whatever its host answers, and what is left of one whose
  caller gave up: it had retired the client, had dropped a dead one, had made its attempt up to some point, or
  was at its own operation. A caller that gives up at the first cleanup leaves what there was.
\<close>

inductive session_step :: "'c session \<Rightarrow> 'c session \<Rightarrow> bool" where
  settle_window: "session_step s (with_settle_window w s)"
| grace: "with_refusal_grace g s = Inr s' \<Longrightarrow> session_step s s'"
| warm: "session_step s (snd (warm net s))"
| warm_task: "warming s \<Longrightarrow> session_step s (snd (warm_task net s))"
| warm_cancelled: "warming s \<Longrightarrow> session_step s (warm_cancelled s)"
| probe: "session_step s (snd (probe_session net busy s))"
| call: "session_step s (snd (call net (operation :: 'c \<Rightarrow> unit res) s))"
| connect: "session_step s (snd (connect net s))"
| watch: "session_step s (snd (snd (run_watch net t visor s)))"
| close_begin: "session_step s (close_begin s)"
| close_finish: "closed s \<Longrightarrow> session_step s (snd (close_finish net s))"
| dropped_retire: "held_client s \<noteq> None \<or> closed s \<Longrightarrow> session_step s (retire_client s)"
| dropped_dead: "session_step s (snd (drop_dead net s))"
| dropped_attempt: "session_step s (establish_dropped point net settling s)"
| dropped_call: "session_step s (snd (ensure net s))"

inductive session_reach :: "'c session \<Rightarrow> 'c session \<Rightarrow> bool" for s where
  start: "session_reach s s"
| next_op: "session_reach s s1 \<Longrightarrow> session_step s1 s2 \<Longrightarrow> session_reach s s2"

inductive_cases session_stepE: "session_step s s'"

lemma step_inv:
  assumes "policy_ok p" and "session_step s s'" and "session_inv p s"
  shows "session_inv p s'"
  using assms(2,3)
proof cases
  case (settle_window w)
  then show ?thesis using assms(3) by (simp add: with_settle_window_def settings_inv)
next
  case (grace g)
  then show ?thesis using assms(3) by (auto simp: with_refusal_grace_def settings_inv split: if_splits)
next
  case warm_cancelled
  then show ?thesis using assms(3) by (simp add: warm_cancelled_def warming_inv)
next
  case (warm net)
  then show ?thesis using assms(3) by (simp add: warm_inv)
next
  case (warm_task net)
  then show ?thesis using assms(1,3) by (simp add: warm_task_inv)
next
  case (probe net busy)
  then show ?thesis using assms(3) by (simp add: probe_session_inv)
next
  case (call net operation)
  then show ?thesis using assms(1,3) by (simp add: call_inv)
next
  case (connect net)
  then show ?thesis using assms(1,3) by (simp add: connect_inv)
next
  case (watch net t visor)
  then show ?thesis using assms(3) by (simp add: run_watch_inv)
next
  case close_begin
  then show ?thesis using assms(3) by (simp add: close_begin_inv)
next
  case (close_finish net)
  then show ?thesis using assms(3) by (simp add: close_finish_inv)
next
  case dropped_retire
  then show ?thesis using assms(3) by (simp add: retire_client_inv)
next
  case (dropped_dead net)
  then show ?thesis using assms(3) by (simp add: snd_inv)
next
  case (dropped_attempt point net settling)
  then show ?thesis using assms(1,3) by (simp add: establish_dropped_inv)
next
  case (dropped_call net)
  then show ?thesis using assms(1,3) by (simp add: snd_inv)
qed

lemma refuse_late_let_go [simp]: "let_go (snd (refuse_late net c s)) = let_go s"
  using keeps_let_go(3) [of net "s\<lparr>held_retired := Some c\<rparr>"] by (simp add: refuse_late_def split_def split: sum.split)

lemma drop_dead_let_go [simp]: "let_go (snd (drop_dead net s)) = let_go s"
  by (simp add: drop_dead_def split: option.split)

lemma establish_let_go [simp]: "let_go (snd (establish net settling s)) = let_go s"
proof -
  obtain r s' where e: "establish net settling s = (r, s')" by fastforce
  have c: "let_go s1 = let_go s" if "cleanup net s = (q, s1)" for q s1 using keeps_let_go(3) [of net s] that by simp
  from e have "let_go s' = let_go s"
  proof (cases rule: establish_cases)
    case (late client b s1)
    then show ?thesis using c refuse_late_let_go [of net client "(closing b s1)\<lparr>made := client # made s1\<rparr>"] by simp
  qed (auto simp: c)
  with e show ?thesis by simp
qed

lemma ops_let_go [simp]:
  "let_go (snd (ensure net s)) = let_go s" "let_go (snd (warm_task net s)) = let_go s"
  "let_go (snd (probe_session net busy s)) = let_go s" "let_go (snd (connect net s)) = let_go s"
  "let_go (snd (snd (run_watch net t visor s))) = let_go s" "let_go (snd (close_finish net s)) = let_go s"
  by (simp_all add: ensure_def warm_task_def probe_session_def connect_def run_watch_def close_finish_def split_def
      split: sum.split option.split)

lemma call_let_go [simp]: "let_go (snd (call net operation s)) = let_go s"
  by (simp add: call_def split_def split: sum.split)

lemma dropped_let_go:
  assumes "client \<in> set (let_go (establish_dropped point net settling s)) - set (let_go s)"
  shows "point = At_Settling \<and> settling \<and> n_connect net = Inr client \<and> settle s \<noteq> 0"
proof -
  obtain r s1 where c: "cleanup net s = (r, s1)" by fastforce
  have l: "let_go s1 = let_go s" using c keeps_let_go(3) [of net s] by simp
  have st: "settle s1 = settle s" using c by (auto simp: cleanup_def split: option.splits sum.splits)
  have "settle (closing b s1) = settle s" for b using st by (simp add: closing_def close_begin_def)
  then show ?thesis
    using assms c l by (auto simp: establish_dropped_def Let_def split: if_splits sum.splits option.splits)
qed

lemma step_let_go:
  assumes "session_step s s'" and "client \<in> set (let_go s') - set (let_go s)"
  shows "\<exists>net. s' = establish_dropped At_Settling net True s \<and> n_connect net = Inr client \<and> settle s \<noteq> 0"
  using assms(1)
proof cases
  case (grace g)
  then show ?thesis using assms(2) by (auto simp: with_refusal_grace_def split: if_splits)
next
  case (dropped_attempt point net settling)
  then show ?thesis using assms(2) dropped_let_go [of client point net settling s] by auto
qed (use assms(2) in \<open>simp_all add: with_settle_window_def warm_cancelled_def\<close>)

lemma reach_inv: "session_reach s s' \<Longrightarrow> policy_ok p \<Longrightarrow> session_inv p s \<Longrightarrow> session_inv p s'"
  by (induction rule: session_reach.induct) (auto intro: step_inv)

text \<open>
  C3: in every state a session can reach, whatever its host answers, however callers, probes, warm-ups and a
  close interleave and wherever their callers give up waiting: the held flag is set exactly when there is a client, its relay
  is the one of the current generation, no client is held beside one awaiting cleanup, the state
  callbacks heard up and down in turn ending in the present state, the retry wait stays on its
  ladder, and every client the factory ever made is held, awaiting cleanup, was closed, or was let go
  by a caller that gave up on \<open>connect\<close> during the settle window: no other is leaked.
\<close>

theorem session_invariant:
  assumes "session_new representable p = Inr s" and "retry_ceiling p \<le> duration_max"
    and "session_reach s s'"
  shows "has_client s' = (held_client s' \<noteq> None)
    \<and> held_relay s' = map_option (\<lambda>_. generation s') (held_client s')
    \<and> (held_client s' \<noteq> None \<longrightarrow> held_retired s' = None \<and> retry_at s' = None)
    \<and> alternates (announced s') (has_client s')
    \<and> retry p \<le> retry_wait s' \<and> retry_wait s' \<le> retry_ceiling p
    \<and> set (made s') = set (disposed s') \<union> set_option (held_client s') \<union> set_option (held_retired s')
        \<union> set (let_go s')
    \<and> (\<forall>s'' client. session_step s' s'' \<longrightarrow> client \<in> set (let_go s'') - set (let_go s') \<longrightarrow>
        (\<exists>net. s'' = establish_dropped At_Settling net True s' \<and> n_connect net = Inr client \<and> settle s' \<noteq> 0))"
proof -
  have "policy_ok p \<and> session_inv p s" by (rule session_new_inv [OF assms(1,2)])
  with reach_inv [OF assms(3)] have "session_inv p s'" by blast
  then have "has_client s' = (held_client s' \<noteq> None)"
    "held_relay s' = map_option (\<lambda>_. generation s') (held_client s')"
    "held_client s' \<noteq> None \<longrightarrow> held_retired s' = None \<and> retry_at s' = None" "alternates (announced s') (has_client s')"
    "retry p \<le> retry_wait s'" "retry_wait s' \<le> retry_ceiling p"
    "set (made s') = set (disposed s') \<union> set_option (held_client s') \<union> set_option (held_retired s') \<union> set (let_go s')"
    by (simp_all add: inv_unfold)
  moreover have "\<forall>s'' client. session_step s' s'' \<longrightarrow> client \<in> set (let_go s'') - set (let_go s') \<longrightarrow>
      (\<exists>net. s'' = establish_dropped At_Settling net True s' \<and> n_connect net = Inr client \<and> settle s' \<noteq> 0)"
    by (intro allI impI) (rule step_let_go)
  ultimately show ?thesis by (intro conjI) assumption+
qed

text \<open>A host whose clients are numbers: it connects, settles and closes.\<close>

definition calm_net :: "nat \<Rightarrow> nat net" where
  "calm_net n =
     \<lparr>n_connect = Inr n, n_close = (\<lambda>_. Inr ()), n_alive = (\<lambda>_. True), n_connected = (\<lambda>_. Inr ()),
      n_stopped_within = (\<lambda>_ _. False), n_closed_refused = (\<lambda>_. False),
      n_refusal = (\<lambda>_. CLOSED), n_now = 0, n_closing_connect = False, n_closing_settle = False,
      n_closing_drop = False\<rparr>"

definition sample_session :: "nat session" where
  "sample_session =
     \<lparr>policy = default_policy, closed = False, warming = False, has_client = False, held_client = None,
      held_retired = None, held_relay = None, generation = 0, sender = True, retry_at = None,
      retry_wait = retry default_policy, settle = DEFAULT_SETTLE_WINDOW,
      refusal_grace = DEFAULT_REFUSAL_GRACE, announced = [], made = [], disposed = [], let_go = []\<rparr>"

lemma sample_session_new: "session_new (\<lambda>_. True) default_policy = Inr sample_session"
  by (simp add: session_new_def validate_def sample_session_def default_policy_def from_secs_def)

lemma default_ceiling: "retry_ceiling default_policy \<le> duration_max"
  by (simp add: default_policy_def from_secs_def duration_max_def)

lemma sample_connect:
  "connect (calm_net n) sample_session =
     (Inr (), sample_session\<lparr>has_client := True, held_client := Some n, held_relay := Some 1,
        generation := 1, announced := [True], made := [n]\<rparr>)"
  by (simp add: connect_def establish_def sample_session_def calm_net_def cleanup_def closing_def
      settled_def hold_client_def announce_def Let_def)

theorem session_invariant_witness:
  "\<exists>s'. session_reach sample_session s' \<and> held_client s' = Some 7 \<and> alternates (announced s') True
     \<and> set (made s') = {7}"
proof -
  let ?s = "snd (connect (calm_net 7) sample_session)"
  have r: "session_reach sample_session ?s"
    by (rule session_reach.next_op [OF session_reach.start session_step.connect])
  from session_invariant [OF sample_session_new default_ceiling r] r show ?thesis
    by (intro exI [of _ ?s]) (simp only: sample_connect snd_conv, simp add: sample_session_def)
qed

end
