(* ===== verification/Session_Run.thy ===== *)
theory Session_Run
  imports Session_Invariant
begin

text \<open>
  How a \<open>HubSession\<close> behaves over time: \<open>close\<close> is final, a failed operation drops the link only
  when the failure is the link's, failed attempts climb the retry ladder, and \<open>run\<close> returns only
  for the reasons its documentation names.
\<close>

section \<open>Close is final\<close>

definition shut :: "'c list \<Rightarrow> 'c list \<Rightarrow> 'c session \<Rightarrow> bool" where
  "shut m l s \<longleftrightarrow> made s = m \<and> let_go s = l \<and> closed s \<and> held_client s = None \<and> held_retired s = None \<and> \<not> sender s
     \<and> set m = set (disposed s) \<union> set l"

lemma shut_establish: "shut m l s \<Longrightarrow> establish net b s = (Inl CLOSED, s)"
  by (simp add: shut_def establish_def)

lemma shut_drop: "shut m l s \<Longrightarrow> shut m l (snd (drop_client net s)) \<and> fst (drop_client net s) = Inr ()"
  by (simp add: shut_def drop_client_def retire_client_def cleanup_def Let_def)

lemma shut_closing: "shut m l s \<Longrightarrow> shut m l (closing b s)"
  by (simp add: shut_def closing_def close_begin_def)

lemma shut_step: "session_step s s' \<Longrightarrow> shut m l s \<Longrightarrow> shut m l s'"
proof (induction rule: session_step.induct)
  case (settle_window s w)
  then show ?case by (simp add: shut_def with_settle_window_def)
next
  case (grace g s s')
  then show ?case by (auto simp: shut_def with_refusal_grace_def split: if_splits)
next
  case (warm s net)
  then show ?case by (simp add: shut_def warm_def)
next
  case (warm_task s net)
  then show ?case by (simp add: warm_task_def ensure_def shut_establish) (simp add: shut_def)
next
  case (warm_cancelled s)
  then show ?case by (simp add: shut_def warm_cancelled_def)
next
  case (probe s net busy)
  then show ?case by (simp add: probe_session_def shut_def)
next
  case (call s net operation)
  then have "held_client s = None" by (simp add: shut_def)
  with call show ?case
    by (simp add: call_def drop_dead_def ensure_def shut_establish [OF shut_closing] shut_closing)
next
  case (connect s net)
  then have "held_client s = None" by (simp add: shut_def)
  with connect show ?case by (simp add: connect_def shut_establish)
next
  case (watch s net t visor)
  then show ?case by (simp add: run_watch_def shut_def)
next
  case (close_begin s)
  then show ?case by (simp add: shut_def close_begin_def)
next
  case (close_finish s net)
  then show ?case by (simp add: close_finish_def shut_drop)
next
  case (dropped_retire s)
  then show ?case by (simp add: shut_def retire_client_def)
next
  case (dropped_dead s net)
  then show ?case by (simp add: shut_def drop_dead_def)
next
  case (dropped_attempt s point net settling)
  then show ?case by (simp add: shut_def establish_dropped_def)
next
  case (dropped_call s net)
  then show ?case by (simp add: ensure_def shut_establish)
qed

lemma shut_reach: "session_reach s s' \<Longrightarrow> shut m l s \<Longrightarrow> shut m l s'"
  by (induction rule: session_reach.induct) (auto intro: shut_step)

lemma close_shut:
  assumes "session_inv p s" and "close net s = (Inr (), s1)"
  shows "shut (made s) (let_go s) s1"
proof -
  let ?b = "close_begin s"
  have c: "cleanup net (retire_client ?b) = (Inr (), s1)"
    using assms(2) by (simp add: close_def close_finish_def drop_client_def)
  have "session_inv p (retire_client ?b)"
    by (intro retire_client_inv close_begin_inv assms(1))
  then have inv: "session_inv p s1" using c by (rule cleanup_inv)
  have "held_client s1 = None" using cleanup_client [of net "retire_client ?b"] c by simp
  moreover have "closed (retire_client ?b)"
    by (simp add: retire_client_def close_begin_def announce_def Let_def split: option.split)
  then have "closed s1"
    using c by (auto simp: cleanup_def split: option.splits sum.splits)
  moreover have "made (retire_client ?b) = made s" "let_go (retire_client ?b) = let_go s"
    by (simp_all add: retire_client_def close_begin_def announce_def Let_def split: option.split)
  then have "made s1 = made s" "let_go s1 = let_go s"
    using c by (auto simp: cleanup_def split: option.splits sum.splits)
  ultimately show ?thesis using inv cleanup_done [OF c] by (simp add: shut_def inv_unfold)
qed

text \<open>
  C5: a close that succeeds is final and leaves nothing behind: every client the session ever made
  has been closed, but for those let go before by callers that gave up during a settle window, and whatever is done with the session afterwards no client is made or held
  again, connecting and calling fail with the closed error, no warm-up starts, no new subscriber
  is admitted, and no relay delivers anything, not even one started before.
\<close>

theorem close_is_final:
  assumes "session_new representable p = Inr s0" and "retry_ceiling p \<le> duration_max"
    and "session_reach s0 s" and "close net s = (Inr (), s1)" and "session_reach s1 s2"
  shows "closed s2 \<and> held_client s2 = None \<and> held_retired s2 = None
    \<and> made s2 = made s \<and> let_go s2 = let_go s \<and> set (made s) = set (disposed s2) \<union> set (let_go s)
    \<and> fst (connect net' s2) = Inl CLOSED \<and> fst (call net' operation s2) = Inl CLOSED
    \<and> \<not> fst (warm net' s2) \<and> subscribe s2 = Inl CLOSED \<and> relay_receive gen received s2 = Stop"
proof -
  have "policy_ok p \<and> session_inv p s0" by (rule session_new_inv [OF assms(1,2)])
  with reach_inv [OF assms(3)] have "session_inv p s" by blast
  then have "shut (made s) (let_go s) s1" using assms(4) by (rule close_shut)
  with shut_reach [OF assms(5)] have s: "shut (made s) (let_go s) s2" by blast
  then have none: "held_client s2 = None" by (simp add: shut_def)
  have "fst (connect net' s2) = Inl CLOSED" "fst (call net' operation s2) = Inl CLOSED"
    using s none
    by (simp_all add: connect_def call_def drop_dead_def ensure_def shut_establish [OF s]
        shut_establish [OF shut_closing [OF s]])
  with s show ?thesis by (simp add: shut_def warm_def subscribe_def relay_receive_def)
qed

theorem close_is_final_witness:
  "\<exists>s1. close (calm_net 7) (snd (connect (calm_net 7) sample_session)) = (Inr (), s1)
     \<and> disposed s1 = [7] \<and> fst (connect (calm_net 8) s1) = Inl CLOSED"
proof -
  let ?s = "snd (connect (calm_net 7) sample_session)"
  have r: "session_reach sample_session ?s"
    by (rule session_reach.next_op [OF session_reach.start session_step.connect])
  obtain s1 where s1: "close (calm_net 7) ?s = (Inr (), s1)" "disposed s1 = [7]"
    by (simp add: sample_connect close_def close_finish_def close_begin_def drop_client_def
        retire_client_def announce_def cleanup_def Let_def) (simp add: sample_session_def calm_net_def)
  from close_is_final [OF sample_session_new default_ceiling r s1(1) session_reach.start,
      of "calm_net 8" "\<lambda>_. Inr ()" 0 "Gone :: unit received"] s1
  show ?thesis by blast
qed

section \<open>A call and its link\<close>

text \<open>
  A call over a held, living link keeps it when the answer is the hub's (a runtime error or a
  policy denial) and drops it, once and with the callbacks told, for every other failure; either
  way the caller gets the operation's own error, unless closing the dropped client failed too.
  A session that just dropped its link does not dial again on its own.
\<close>

theorem call_keeps_or_drops:
  assumes "session_new representable p = Inr s0" and "retry_ceiling p \<le> duration_max"
    and "session_reach s0 s" and "held_client s = Some client" and "n_alive net client"
    and "\<not> closed s" and "\<not> n_closing_drop net" and "operation client = Inl e"
    and "call net operation s = (r, s')"
  shows "(keeps_link e \<longrightarrow> r = Inl e \<and> s' = s)
    \<and> (\<not> keeps_link e \<longrightarrow>
         r \<in> {Inl e} \<union> Inl ` {e'. n_close net client = Inl e'} \<and> held_client s' = None
         \<and> announced s' = False # announced s \<and> made s' = made s)"
proof -
  have "policy_ok p \<and> session_inv p s0" by (rule session_new_inv [OF assms(1,2)])
  with reach_inv [OF assms(3)] have "session_inv p s" by blast
  then have inv: "has_client s" "held_retired s = None"
    using assms(4) by (auto simp: inv_unfold)
  have c: "cleanup net s = (Inr (), s)" using inv by (simp add: cleanup_def)
  have "closing False s = s" by (simp add: closing_def)
  then have call: "call net operation s =
      (if keeps_link e then (Inl e, s)
       else case drop_client net s of (Inl e', s) \<Rightarrow> (Inl e', s) | (Inr _, s) \<Rightarrow> (Inl e, s))"
    using assms(4-8) by (simp add: call_def drop_dead_def ensure_def establish_def c)
  show ?thesis
  proof (cases "keeps_link e")
    case True
    then show ?thesis using assms(9) call by simp
  next
    case False
    let ?t = "retire_client s"
    have t: "held_retired ?t = Some client" "announced ?t = False # announced s" "made ?t = made s"
      using assms(4) inv by (simp_all add: retire_client_def announce_def Let_def)
    show ?thesis
      using False assms(9) call t
      by (auto simp: drop_client_def cleanup_def split: sum.splits)
  qed
qed

theorem call_keeps_or_drops_witness:
  "\<exists>s'. call (calm_net 7) (\<lambda>_. Inl (Timeout ''t'') :: unit res) (snd (connect (calm_net 7) sample_session))
          = (Inl (Timeout ''t''), s') \<and> held_client s' = None \<and> announced s' = [False, True]"
proof -
  let ?s = "snd (connect (calm_net 7) sample_session)" and ?op = "\<lambda>_. Inl (Timeout ''t'') :: unit res"
  have r: "session_reach sample_session ?s"
    by (rule session_reach.next_op [OF session_reach.start session_step.connect])
  obtain x s' where c: "call (calm_net 7) ?op ?s = (x, s')" by fastforce
  have s: "held_client ?s = Some 7" "\<not> closed ?s" "announced ?s = [True]"
    unfolding sample_connect snd_conv by (simp_all add: sample_session_def)
  have n: "n_alive (calm_net 7) 7" "\<not> n_closing_drop (calm_net 7)" "n_close (calm_net 7) = (\<lambda>_. Inr ())"
    by (simp_all add: calm_net_def)
  from call_keeps_or_drops [OF sample_session_new default_ceiling r s(1) n(1) s(2) n(2) refl c] n s c
  show ?thesis by (intro exI [of _ s']) (auto simp: keeps_link_def)
qed

section \<open>The retry clock\<close>

text \<open>Attempts that the factory fails, one after another.\<close>

fun failed_attempts :: "('c net) list \<Rightarrow> 'c session \<Rightarrow> 'c session" where
  "failed_attempts [] s = s"
| "failed_attempts (net # nets) s = failed_attempts nets (snd (connect net s))"

definition fails :: "'c net \<Rightarrow> bool" where
  "fails net \<longleftrightarrow> (\<exists>e. n_connect net = Inl e) \<and> \<not> n_closing_connect net"

lemma fail_once:
  assumes "fails net" and "\<not> closed s" and "held_client s = None" and "held_retired s = None"
  shows "snd (connect net s) = back_off net s"
  using assms by (auto simp: fails_def connect_def establish_def cleanup_def closing_def)

lemma failed_attempts_state:
  "\<forall>net \<in> set nets. fails net \<Longrightarrow> \<not> closed s \<Longrightarrow> held_client s = None \<Longrightarrow> held_retired s = None \<Longrightarrow>
   policy_ok (policy s) \<Longrightarrow> retry_wait s = wait_after (policy s) k \<Longrightarrow>
   retry_wait (failed_attempts nets s) = wait_after (policy s) (k + length nets)
   \<and> (nets \<noteq> [] \<longrightarrow> retry_at (failed_attempts nets s) =
        Some (n_now (last nets) + wait_after (policy s) (k + length nets - 1)))
   \<and> \<not> closed (failed_attempts nets s)"
proof (induction nets arbitrary: s k)
  case Nil
  then show ?case by simp
next
  case (Cons net nets)
  let ?s = "back_off net s"
  have c: "snd (connect net s) = ?s" using Cons.prems by (intro fail_once) auto
  have "retry_wait ?s = wait_after (policy ?s) (Suc k)"
    using Cons.prems(5,6) by (simp add: back_off_def wait_after_step)
  moreover have "policy ?s = policy s" "held_client ?s = None" "held_retired ?s = None" "\<not> closed ?s"
    "retry_at ?s = Some (n_now net + wait_after (policy s) k)"
    using Cons.prems by (simp_all add: back_off_def)
  ultimately show ?case
    using Cons.IH [of ?s "Suc k"] Cons.prems c by auto
qed

text \<open>
  After k failed attempts in a row the session's retry clock stands where the ladder says: the
  next attempt is due \<open>retry * 2^(k-1)\<close> (at most the ceiling) after the last one, and until then no
  warm-up starts.
\<close>

theorem failed_attempts_back_off:
  assumes "session_new representable p = Inr s" and "retry_ceiling p \<le> duration_max"
    and "nets \<noteq> []" and "\<forall>net \<in> set nets. fails net"
  shows "retry_at (failed_attempts nets s) = Some (n_now (last nets) + wait_after p (length nets - 1))
    \<and> retry_wait (failed_attempts nets s) = wait_after p (length nets)
    \<and> (n_now net' < n_now (last nets) + wait_after p (length nets - 1) \<longrightarrow>
         warm net' (failed_attempts nets s) = (False, failed_attempts nets s))"
proof -
  have p: "policy_ok p \<and> session_inv p s" by (rule session_new_inv [OF assms(1,2)])
  then have "policy s = p" by (simp add: inv_unfold)
  moreover have "\<not> closed s" "held_client s = None" "held_retired s = None" "retry_wait s = wait_after p 0"
    using assms(1) p validate_ok [OF _ assms(2), of representable]
    by (auto simp: session_new_def res_bind_eq_Inr wait_after_0)
  ultimately have "retry_wait (failed_attempts nets s) = wait_after p (length nets)
      \<and> retry_at (failed_attempts nets s) = Some (n_now (last nets) + wait_after p (length nets - 1))
      \<and> \<not> closed (failed_attempts nets s)"
    using failed_attempts_state [of nets s 0] assms(3,4) p by simp
  then show ?thesis by (simp add: warm_def)
qed

definition down_net :: "duration \<Rightarrow> nat net" where
  "down_net t = (calm_net 0)\<lparr>n_connect := Inl (Connection ''refused''), n_now := t\<rparr>"

theorem failed_attempts_back_off_witness:
  "retry_at (failed_attempts [down_net 0, down_net (from_secs 10), down_net (from_secs 30)] sample_session)
     = Some (from_secs 70)
   \<and> warm (down_net (from_secs 69)) (failed_attempts [down_net 0, down_net (from_secs 10), down_net (from_secs 30)] sample_session)
     = (False, failed_attempts [down_net 0, down_net (from_secs 10), down_net (from_secs 30)] sample_session)"
  using failed_attempts_back_off [OF sample_session_new default_ceiling,
      of "[down_net 0, down_net (from_secs 10), down_net (from_secs 30)]" "down_net (from_secs 69)"]
  by (simp add: fails_def down_net_def calm_net_def wait_after_def default_policy_def from_secs_def)

section \<open>What ends a run\<close>

lemma supervisor_decides:
  assumes "policy_ok p" and "supervise (supervisor_new p grace) h = Some visor"
  shows "fst (after visor oc t) = spec_decision p grace h oc t"
  by (rule after_decision [OF assms(1) supervise_abstracts [OF assms]])

lemma supervise_steps:
  assumes "policy_ok p" and "supervise (supervisor_new p grace) h = Some visor"
    and "\<forall>g. spec_decision p grace h oc t \<noteq> GiveUp g"
  shows "supervise (supervisor_new p grace) ((oc, t) # h) = Some (snd (after visor oc t))"
  using assms(2,3) supervisor_decides [OF assms(1,2), of oc t]
  by (cases "after visor oc t") (auto split: link_decision.splits)

text \<open>A refused attempt: it ends the run once the refusals have lasted the grace, and waits before.\<close>

lemma attempt_refused:
  assumes "policy_ok p" and "supervise (supervisor_new p grace) h = Some visor"
    and "after visor Refused t = (dec, v)"
  obtains t0 where "refused_from ((Refused, t) # h) = Some t0"
    and "dec = (if grace \<le> t - t0 then GiveUp Refused else Retry (wait_after p (misses h)))"
    and "\<not> grace \<le> t - t0 \<longrightarrow> supervise (supervisor_new p grace) ((Refused, t) # h) = Some v"
proof -
  let ?since = "case refused_from h of None \<Rightarrow> t | Some t0 \<Rightarrow> t0"
  have "dec = (if grace \<le> t - ?since then GiveUp Refused else Retry (wait_after p (misses h)))"
    using supervisor_decides [OF assms(1,2), of Refused t] assms(3) by (simp add: spec_decision_def Let_def)
  moreover have "supervise (supervisor_new p grace) ((Refused, t) # h) = Some v" if "\<not> grace \<le> t - ?since"
    using supervise_steps [OF assms(1,2), of Refused t] assms(3) that by (simp add: spec_decision_def Let_def)
  ultimately show thesis using that [of ?since] by (auto split: option.split)
qed

lemma attempt_failed:
  assumes "policy_ok p" and "supervise (supervisor_new p grace) h = Some visor"
    and "after visor Failed t = (dec, v)"
  shows "dec = Retry (wait_after p (misses h)) \<and> supervise (supervisor_new p grace) ((Failed, t) # h) = Some v"
  using supervisor_decides [OF assms(1,2), of Failed t] supervise_steps [OF assms(1,2), of Failed t] assms(3)
  by (simp add: spec_decision_def)

text \<open>
  \<open>run\<close> keeps its supervisor true to the history of its attempts, and returns an error only for
  the reasons it documents: a changed hub key, a rejected client key, an identity it cannot use,
  or refusals that have lasted the grace since the first. It returns without one only when the
  session was closed. After any other failure it sleeps the ladder's wait, which is never zero.
\<close>

theorem run_attempt_follows_rules:
  assumes "policy_ok p" and "supervise (supervisor_new p grace) h = Some visor"
    and "run_attempt net t visor s = (next, visor', s')" and "fst (connect net s) = r"
  shows "(next = Continue \<longleftrightarrow> r = Inr ())
    \<and> (\<forall>e. next = Return (Inl e) \<longrightarrow> r = Inl e \<and>
         (is_hub_key_changed e \<or> is_client_key_rejected e \<or> unusable e
          \<or> is_hub_refused e \<and> (\<exists>t0. refused_from ((Refused, t) # h) = Some t0 \<and> grace \<le> t - t0)))
    \<and> (next = Return (Inr ()) \<longrightarrow> closed s')
    \<and> (\<forall>w. next = Sleep w \<longrightarrow> w = wait_after p (misses h) \<and> 0 < w \<and> w \<le> retry_ceiling p)
    \<and> ((\<exists>w. next = Sleep w) \<or> next = Continue \<longrightarrow>
         (\<exists>oc \<in> {Up, Refused, Failed}. supervise (supervisor_new p grace) ((oc, t) # h) = Some visor'))"
proof -
  note visor = assms(1,2)
  have bounds: "0 < wait_after p (misses h) \<and> wait_after p (misses h) \<le> retry_ceiling p"
    using assms(1) by (simp add: wait_after_def policy_ok_def)
  obtain s2 where c: "connect net s = (r, s2)" using assms(4) by (cases "connect net s") simp
  show ?thesis
  proof (cases r)
    case (Inr u)
    then have "next = Continue" "visor' = snd (after visor Up t)"
      using assms(3) c by (simp_all add: run_attempt_def)
    with Inr show ?thesis using supervise_steps [OF visor, of Up t] by (auto simp: spec_decision_def)
  next
    case (Inl e)
    note u = assms(3) [unfolded run_attempt_def c Inl, simplified]
    obtain dr vr where refused: "after visor Refused t = (dr, vr)" by fastforce
    obtain df vf where failed: "after visor Failed t = (df, vf)" by fastforce
    obtain t0 where r: "refused_from ((Refused, t) # h) = Some t0"
      "dr = (if grace \<le> t - t0 then GiveUp Refused else Retry (wait_after p (misses h)))"
      "\<not> grace \<le> t - t0 \<longrightarrow> supervise (supervisor_new p grace) ((Refused, t) # h) = Some vr"
      by (rule attempt_refused [OF visor refused])
    note f = attempt_failed [OF visor failed]
    show ?thesis
      using u r f bounds refused failed Inl by (auto simp: run_wait_def split: if_splits)
  qed
qed

theorem run_attempt_follows_rules_witness:
  "(case supervise (supervisor_new default_policy (from_secs 600)) [(Refused, 0)] of
      None \<Rightarrow> False
    | Some visor \<Rightarrow>
        fst (run_attempt ((down_net 0)\<lparr>n_connect := Inl (hub_refused ''x'')\<rparr>) (from_secs 599) visor sample_session)
          \<in> range Sleep)"
proof -
  let ?net = "(down_net 0)\<lparr>n_connect := Inl (hub_refused ''x'')\<rparr>"
  have ok: "policy_ok default_policy"
    by (simp add: policy_ok_def default_policy_def from_secs_def duration_max_def)
  obtain v where v: "supervise (supervisor_new default_policy (from_secs 600)) [(Refused, 0)] = Some v"
    by (simp add: supervisor_new_def after_def retry_step_def Let_def saturating_sub_def from_secs_def)
  obtain n v' s' where r: "run_attempt ?net (from_secs 599) v sample_session = (n, v', s')"
    by (cases "run_attempt ?net (from_secs 599) v sample_session") auto
  let ?e = "hub_refused ''x''"
  have c: "fst (connect ?net sample_session) = Inl ?e" "\<not> closed (snd (connect ?net sample_session))"
    by (simp_all add: connect_def establish_def sample_session_def cleanup_def closing_def down_net_def
        calm_net_def back_off_def)
  have s': "s' = snd (connect ?net sample_session)"
    using r run_attempt_session [of ?net "from_secs 599" v sample_session] by simp
  have e: "\<not> is_hub_key_changed ?e" "\<not> is_client_key_rejected ?e" "\<not> unusable ?e"
    by (simp_all add: is_hub_key_changed_def is_client_key_rejected_def client_key_rejection_def
        hub_refused_def message_prefixes strip_prefix_eq_Some starts_with_def unusable_def)
  have "n \<noteq> Continue \<and> (\<forall>e. n \<noteq> Return (Inl e)) \<and> n \<noteq> Return (Inr ())"
    using run_attempt_follows_rules [OF ok v r c(1)] e c(2) s'
    by (auto simp: from_secs_def)
  then have "n \<in> range Sleep" by (cases n) (auto simp: image_iff split: sum.splits, metis sumE old.unit.exhaust)
  then show ?thesis using v r by simp
qed

end
