(* ===== verification/Session_Handlers.thy ===== *)
theory Session_Handlers
  imports Hub_Session
begin

text \<open>
  \<open>src/src/session.rs\<close>, the handlers of a session and the tasks they run. A registration's tasks
  are in a cell that a dispatch shares with it, so the cells are kept by registration id and
  outlive the registration; \<open>dispatch\<close>, \<open>off\<close> and \<open>close\<close> release the lock of the handlers half way,
  and the steps below interleave there. A removed handler is shown to start nothing again.
\<close>

section \<open>Registrations and their tasks\<close>

record registration =
  reg_id :: nat
  event_type :: string

record tasks =
  retired :: bool
  running :: "64 word list"

record handlers =
  next_id :: nat
  next_task :: "64 word"
  events :: "registration list"
  states :: "nat list"
  cells :: "nat \<Rightarrow> tasks option"

definition handlers_default :: handlers where
  "handlers_default = \<lparr>next_id = 0, next_task = 0, events = [], states = [], cells = Map.empty\<rparr>"

text \<open>\<open>on\<close> and \<open>on_state_change\<close>.\<close>

definition on :: "bool \<Rightarrow> string \<Rightarrow> handlers \<Rightarrow> nat res \<times> handlers" where
  "on session_closed ty hs =
     (if session_closed then (Inl CLOSED, hs)
      else let hid = next_id hs + 1
           in (Inr hid, hs\<lparr>next_id := hid, events := events hs @ [\<lparr>reg_id = hid, event_type = ty\<rparr>],
                          cells := (cells hs)(hid \<mapsto> \<lparr>retired = False, running = []\<rparr>)\<rparr>))"

definition on_state_change :: "handlers \<Rightarrow> nat \<times> handlers" where
  "on_state_change hs = (let hid = next_id hs + 1 in (hid, hs\<lparr>next_id := hid, states := states hs @ [hid]\<rparr>))"

text \<open>The first half of a dispatch, under the lock: the matching handlers, each with a task number.\<close>

fun number_tasks :: "64 word \<Rightarrow> nat list \<Rightarrow> (nat \<times> 64 word) list \<times> 64 word" where
  "number_tasks n [] = ([], n)"
| "number_tasks n (hid # ids) =
     (case number_tasks (n + 1) ids of (rest, m) \<Rightarrow> ((hid, n + 1) # rest, m))"

definition dispatch_match :: "string \<Rightarrow> handlers \<Rightarrow> (nat \<times> 64 word) list \<times> handlers" where
  "dispatch_match name hs =
     (case number_tasks (next_task hs)
             (map reg_id (filter (\<lambda>r. event_type r = name) (events hs))) of
        (matching, n) \<Rightarrow> (matching, hs\<lparr>next_task := n\<rparr>))"

text \<open>\<open>start_task\<close>: under the cell's own lock, unless the handler was removed.\<close>

definition start_task :: "nat \<Rightarrow> 64 word \<Rightarrow> handlers \<Rightarrow> bool \<times> handlers" where
  "start_task hid task hs =
     (case cells hs hid of
        None \<Rightarrow> (False, hs)
      | Some cell \<Rightarrow>
          if retired cell then (False, hs)
          else (True, hs\<lparr>cells := (cells hs)(hid \<mapsto> cell\<lparr>running := task # running cell\<rparr>)\<rparr>))"

text \<open>The end of a task, however it ends: its entry goes.\<close>

definition task_ended :: "nat \<Rightarrow> 64 word \<Rightarrow> handlers \<Rightarrow> handlers" where
  "task_ended hid task hs =
     (case cells hs hid of
        None \<Rightarrow> hs
      | Some cell \<Rightarrow> hs\<lparr>cells := (cells hs)(hid \<mapsto> cell\<lparr>running := removeAll task (running cell)\<rparr>)\<rparr>)"

definition retire :: "nat \<Rightarrow> handlers \<Rightarrow> handlers" where
  "retire hid hs =
     (case cells hs hid of
        None \<Rightarrow> hs
      | Some cell \<Rightarrow> hs\<lparr>cells := (cells hs)(hid \<mapsto> cell\<lparr>retired := True, running := []\<rparr>)\<rparr>)"

fun remove_reg :: "nat \<Rightarrow> registration list \<Rightarrow> registration list" where
  "remove_reg hid [] = []"
| "remove_reg hid (r # rs) = (if reg_id r = hid then rs else r # remove_reg hid rs)"

text \<open>The first half of \<open>off\<close>: what is still to be retired, and whether it was registered.\<close>

definition off_remove :: "nat \<Rightarrow> handlers \<Rightarrow> (nat option \<times> bool) \<times> handlers" where
  "off_remove hid hs =
     (if \<exists>r \<in> set (events hs). reg_id r = hid
      then ((Some hid, True), hs\<lparr>events := remove_reg hid (events hs)\<rparr>)
      else let left = filter (\<lambda>i. i \<noteq> hid) (states hs)
           in ((None, length left \<noteq> length (states hs)), hs\<lparr>states := left\<rparr>))"

definition off :: "nat \<Rightarrow> handlers \<Rightarrow> bool \<times> handlers" where
  "off hid hs =
     (case off_remove hid hs of
        ((Some i, found), hs) \<Rightarrow> (found, retire i hs)
      | ((None, found), hs) \<Rightarrow> (found, hs))"

text \<open>What \<open>close\<close> does to the handlers: it forgets them all, then retires each.\<close>

definition close_take :: "handlers \<Rightarrow> nat list \<times> handlers" where
  "close_take hs = (map reg_id (events hs), hs\<lparr>states := [], events := []\<rparr>)"

definition close_handlers :: "handlers \<Rightarrow> handlers" where
  "close_handlers hs = (case close_take hs of (ids, hs) \<Rightarrow> fold retire ids hs)"

section \<open>Interleaving\<close>

text \<open>
  Tasks a dispatch has numbered but not yet started, and handlers removed but not yet retired, are
  in flight; any of them may be next, with any other operation between.
\<close>

record board =
  handling :: handlers
  pending :: "(nat \<times> 64 word) list"
  retiring :: "nat list"

definition board_new :: board where
  "board_new = \<lparr>handling = handlers_default, pending = [], retiring = []\<rparr>"

inductive board_step :: "board \<Rightarrow> board \<Rightarrow> bool" where
  register: "board_step b (b\<lparr>handling := snd (on c ty (handling b))\<rparr>)"
| register_state: "board_step b (b\<lparr>handling := snd (on_state_change (handling b))\<rparr>)"
| dispatch: "dispatch_match name (handling b) = (ms, hs) \<Longrightarrow>
    board_step b (b\<lparr>handling := hs, pending := ms @ pending b\<rparr>)"
| start: "(hid, task) \<in> set (pending b) \<Longrightarrow>
    board_step b (b\<lparr>handling := snd (start_task hid task (handling b)),
                    pending := remove1 (hid, task) (pending b)\<rparr>)"
| finished: "board_step b (b\<lparr>handling := task_ended hid task (handling b)\<rparr>)"
| remove: "off_remove hid (handling b) = ((found, was), hs) \<Longrightarrow>
    board_step b (b\<lparr>handling := hs, retiring := (case found of None \<Rightarrow> [] | Some i \<Rightarrow> [i]) @ retiring b\<rparr>)"
| take_all: "close_take (handling b) = (ids, hs) \<Longrightarrow>
    board_step b (b\<lparr>handling := hs, retiring := ids @ retiring b\<rparr>)"
| retire_one: "hid \<in> set (retiring b) \<Longrightarrow>
    board_step b (b\<lparr>handling := retire hid (handling b), retiring := removeAll hid (retiring b)\<rparr>)"

inductive board_reach :: "board \<Rightarrow> bool" where
  fresh: "board_reach board_new"
| further: "board_reach b \<Longrightarrow> board_step b b' \<Longrightarrow> board_reach b'"

text \<open>
  Ids are never used twice, a handler that is registered has a cell, and one that is neither
  registered nor about to be retired is retired, with nothing running.
\<close>

definition used :: "handlers \<Rightarrow> nat set" where
  "used hs = reg_id ` set (events hs) \<union> set (states hs) \<union> dom (cells hs)"

definition ids_ok :: "handlers \<Rightarrow> nat list \<Rightarrow> bool" where
  "ids_ok hs rt \<longleftrightarrow>
     distinct (map reg_id (events hs) @ states hs) \<and> (\<forall>i \<in> used hs \<union> set rt. i \<le> next_id hs)"

definition silent :: "handlers \<Rightarrow> nat list \<Rightarrow> bool" where
  "silent hs rt \<longleftrightarrow>
     (\<forall>i cell. cells hs i = Some cell \<longrightarrow> i \<notin> reg_id ` set (events hs) \<longrightarrow> i \<notin> set rt \<longrightarrow>
        retired cell \<and> running cell = [])"

definition board_inv :: "board \<Rightarrow> bool" where
  "board_inv b \<longleftrightarrow>
     ids_ok (handling b) (retiring b) \<and> silent (handling b) (retiring b)
     \<and> reg_id ` set (events (handling b)) \<inter> set (retiring b) = {}"

lemma ids_fresh: "ids_ok hs rt \<Longrightarrow> next_id hs + 1 \<notin> used hs \<union> set rt"
proof
  assume "ids_ok hs rt" and "next_id hs + 1 \<in> used hs \<union> set rt"
  then have "next_id hs + 1 \<le> next_id hs" unfolding ids_ok_def by blast
  then show False by simp
qed

text \<open>A new id for which the rest stays.\<close>

lemma ids_ok_insert:
  assumes "ids_ok hs rt" and "next_id hs' = next_id hs + 1" and "used hs' = insert (next_id hs + 1) (used hs)"
    and "distinct (map reg_id (events hs') @ states hs')"
  shows "ids_ok hs' rt"
proof -
  have "\<forall>i \<in> used hs \<union> set rt. i \<le> next_id hs" using assms(1) by (simp add: ids_ok_def)
  then have "\<forall>i \<in> insert (next_id hs + 1) (used hs) \<union> set rt. i \<le> next_id hs + 1"
    by (auto intro: le_SucI)
  then show ?thesis using assms(2-4) by (simp add: ids_ok_def)
qed

lemma board_inv_new: "board_inv board_new"
  by (simp add: board_inv_def ids_ok_def silent_def used_def board_new_def handlers_default_def)

section \<open>The invariant holds\<close>

lemma number_tasks_ids: "map fst (fst (number_tasks n hids)) = hids"
  by (induction n hids rule: number_tasks.induct) (auto split: prod.splits)

lemma number_tasks_numbers:
  "snd (number_tasks n hids) = n + word_of_nat (length hids)
   \<and> map snd (fst (number_tasks n hids)) = map (\<lambda>k. n + 1 + word_of_nat k) [0..<length hids]"
proof (induction n hids rule: number_tasks.induct)
  case (1 n)
  then show ?case by simp
next
  case (2 n i hids)
  have "[0..<Suc (length hids)] = 0 # map Suc [0..<length hids]"
    unfolding map_Suc_upt by (rule upt_conv_Cons) simp
  then show ?case
    using 2 by (auto simp: split_def add.assoc comp_def simp del: upt_Suc)
qed

lemma remove_reg_ids:
  "distinct (map reg_id rs) \<Longrightarrow> set (map reg_id (remove_reg hid rs)) = set (map reg_id rs) - {hid}
   \<and> distinct (map reg_id (remove_reg hid rs))"
  by (induction rs) (auto simp: image_iff)

lemma dispatch_match_fields:
  "dispatch_match name hs = (ms, hs') \<Longrightarrow>
   events hs' = events hs \<and> states hs' = states hs \<and> cells hs' = cells hs \<and> next_id hs' = next_id hs"
  by (auto simp: dispatch_match_def split: prod.splits)

lemma start_task_fields [simp]:
  "events (snd (start_task hid t hs)) = events hs" "states (snd (start_task hid t hs)) = states hs"
  "next_id (snd (start_task hid t hs)) = next_id hs"
  "events (task_ended hid t hs) = events hs" "states (task_ended hid t hs) = states hs"
  "next_id (task_ended hid t hs) = next_id hs"
  "events (retire hid hs) = events hs" "states (retire hid hs) = states hs"
  "next_id (retire hid hs) = next_id hs"
  by (simp_all add: start_task_def task_ended_def retire_def split: option.split)

text \<open>Starting and ending tasks changes no more than the tasks of cells that are not retired.\<close>

definition tamer :: "(nat \<Rightarrow> tasks option) \<Rightarrow> (nat \<Rightarrow> tasks option) \<Rightarrow> bool" where
  "tamer old new \<longleftrightarrow>
     (\<forall>i cell. new i = Some cell \<longrightarrow>
        (\<exists>c. old i = Some c \<and> (retired c \<and> running c = [] \<longrightarrow> retired cell \<and> running cell = [])))"

lemma start_task_tamer: "tamer (cells hs) (cells (snd (start_task hid t hs)))"
  by (auto simp: tamer_def start_task_def split: option.split)

lemma task_ended_tamer: "tamer (cells hs) (cells (task_ended hid t hs))"
  by (auto simp: tamer_def task_ended_def split: option.split)

lemma board_inv_tamer:
  assumes "board_inv b" and "tamer (cells (handling b)) (cells hs)"
    and "events hs = events (handling b)" and "states hs = states (handling b)"
    and "next_id hs = next_id (handling b)"
  shows "board_inv (b\<lparr>handling := hs, pending := ps\<rparr>)"
proof -
  have "dom (cells hs) \<subseteq> dom (cells (handling b))"
    using assms(2) by (fastforce simp: tamer_def)
  then have "used hs \<subseteq> used (handling b)" using assms(3,4) by (auto simp: used_def)
  then have "ids_ok hs (retiring b)"
    using assms(1,3-5) by (auto simp: board_inv_def ids_ok_def)
  moreover have "silent hs (retiring b)"
    unfolding silent_def
  proof (intro allI impI)
    fix i cell
    assume i: "cells hs i = Some cell" "i \<notin> reg_id ` set (events hs)" "i \<notin> set (retiring b)"
    obtain c where c: "cells (handling b) i = Some c"
      "retired c \<and> running c = [] \<longrightarrow> retired cell \<and> running cell = []"
      using assms(2) i(1) by (auto simp: tamer_def)
    then have "retired c \<and> running c = []"
      using assms(1,3) i(2,3) by (simp add: board_inv_def silent_def)
    with c(2) show "retired cell \<and> running cell = []" by blast
  qed
  ultimately show ?thesis using assms(1,3) by (simp add: board_inv_def)
qed

lemma retire_cells:
  "cells (retire hid hs) i = Some cell \<Longrightarrow>
   (i = hid \<and> retired cell \<and> running cell = []) \<or> (i \<noteq> hid \<and> cells hs i = Some cell)"
  by (auto simp: retire_def split: option.splits if_splits)

text \<open>A new id for an event handler or a state callback.\<close>

lemma board_inv_on:
  assumes "board_inv b"
  shows "board_inv (b\<lparr>handling := snd (on c ty (handling b))\<rparr>)"
proof (cases c)
  case True
  then show ?thesis using assms by (simp add: on_def)
next
  case False
  let ?hs = "handling b" let ?n = "next_id ?hs + 1"
  have n: "?n \<notin> used ?hs \<union> set (retiring b)"
    using assms by (intro ids_fresh) (simp add: board_inv_def)
  have eq: "snd (on c ty ?hs) = ?hs\<lparr>next_id := ?n, events := events ?hs @ [\<lparr>reg_id = ?n, event_type = ty\<rparr>],
      cells := (cells ?hs)(?n \<mapsto> \<lparr>retired = False, running = []\<rparr>)\<rparr>"
    using False by (simp add: on_def)
  have "ids_ok (snd (on c ty ?hs)) (retiring b)"
  proof (rule ids_ok_insert)
    show "ids_ok ?hs (retiring b)" using assms by (simp add: board_inv_def)
    then show "distinct (map reg_id (events (snd (on c ty ?hs))) @ states (snd (on c ty ?hs)))"
      using n unfolding eq by (auto simp: ids_ok_def used_def)
  qed (auto simp: eq used_def)
  moreover have "silent (snd (on c ty ?hs)) (retiring b)"
    using assms unfolding eq by (auto simp: board_inv_def silent_def)
  ultimately show ?thesis using assms n unfolding eq by (simp add: board_inv_def)
qed

lemma board_inv_on_state:
  assumes "board_inv b"
  shows "board_inv (b\<lparr>handling := snd (on_state_change (handling b))\<rparr>)"
proof -
  let ?hs = "handling b" let ?n = "next_id ?hs + 1"
  have n: "?n \<notin> used ?hs \<union> set (retiring b)"
    using assms by (intro ids_fresh) (simp add: board_inv_def)
  have eq: "snd (on_state_change ?hs) = ?hs\<lparr>next_id := ?n, states := states ?hs @ [?n]\<rparr>"
    by (simp add: on_state_change_def)
  have "ids_ok (snd (on_state_change ?hs)) (retiring b)"
  proof (rule ids_ok_insert)
    show "ids_ok ?hs (retiring b)" using assms by (simp add: board_inv_def)
    then show "distinct (map reg_id (events (snd (on_state_change ?hs))) @ states (snd (on_state_change ?hs)))"
      using n unfolding eq by (auto simp: ids_ok_def used_def)
  qed (auto simp: eq used_def)
  then show ?thesis using assms by (simp add: board_inv_def silent_def on_state_change_def)
qed

lemma board_step_inv: "board_step b b' \<Longrightarrow> board_inv b \<Longrightarrow> board_inv b'"
proof (induction rule: board_step.induct)
  case (register b c ty)
  then show ?case by (rule board_inv_on)
next
  case (register_state b)
  then show ?case by (rule board_inv_on_state)
next
  case (dispatch name b ms hs)
  then show ?case
    using dispatch_match_fields [OF dispatch.hyps]
    by (simp add: board_inv_def ids_ok_def silent_def used_def)
next
  case (start hid task b)
  then show ?case by (intro board_inv_tamer) (simp_all add: start_task_tamer)
next
  case (finished b hid task)
  then have "board_inv (b\<lparr>handling := task_ended hid task (handling b), pending := pending b\<rparr>)"
    by (intro board_inv_tamer) (simp_all add: task_ended_tamer)
  then show ?case by (simp add: board_inv_def)
next
  case (remove hid b found was hs)
  then have d: "distinct (map reg_id (events (handling b)))" by (simp add: board_inv_def ids_ok_def)
  show ?case
  proof (cases "\<exists>r \<in> set (events (handling b)). reg_id r = hid")
    case True
    then have "found = Some hid" "hs = (handling b)\<lparr>events := remove_reg hid (events (handling b))\<rparr>"
      using remove.hyps by (auto simp: off_remove_def)
    with remove.prems remove_reg_ids [OF d, of hid] True show ?thesis
      by (auto simp: board_inv_def ids_ok_def silent_def used_def)
  next
    case False
    then have "found = None" "hs = (handling b)\<lparr>states := filter (\<lambda>i. i \<noteq> hid) (states (handling b))\<rparr>"
      using remove.hyps by (auto simp: off_remove_def Let_def)
    with remove.prems show ?thesis by (auto simp: board_inv_def ids_ok_def silent_def used_def)
  qed
next
  case (take_all b hids hs)
  then show ?case by (auto simp: board_inv_def ids_ok_def silent_def used_def close_take_def)
next
  case (retire_one hid b)
  have "dom (cells (retire hid (handling b))) = dom (cells (handling b))"
    by (auto simp: retire_def split: option.splits if_splits)
  then have "ids_ok (retire hid (handling b)) (removeAll hid (retiring b))"
    using retire_one.prems by (auto simp: board_inv_def ids_ok_def used_def)
  moreover have "silent (retire hid (handling b)) (removeAll hid (retiring b))"
    unfolding silent_def
  proof (intro allI impI)
    fix i cell
    assume "cells (retire hid (handling b)) i = Some cell"
      and "i \<notin> reg_id ` set (events (retire hid (handling b)))" "i \<notin> set (removeAll hid (retiring b))"
    with retire_cells [of hid "handling b" i cell] retire_one.prems
    show "retired cell \<and> running cell = []" by (auto simp: board_inv_def silent_def)
  qed
  ultimately show ?case using retire_one.prems by (auto simp: board_inv_def)
qed

lemma board_reach_inv: "board_reach b \<Longrightarrow> board_inv b"
  by (induction rule: board_reach.induct) (auto intro: board_step_inv board_inv_new)

text \<open>
  C10: once a handler has been removed and retired, as \<open>off\<close> and \<open>close\<close> both end by doing, nothing
  of it runs, and a dispatch that copied it just before cannot start anything: its task is refused,
  however registrations, dispatches, task ends and removals interleave. Ids name one handler each.
\<close>

theorem removed_handler_is_silent:
  assumes "board_reach b" and "hid \<notin> reg_id ` set (events (handling b))" and "hid \<notin> set (retiring b)"
  shows "(\<forall>cell. cells (handling b) hid = Some cell \<longrightarrow> running cell = [])
    \<and> start_task hid task (handling b) = (False, handling b)
    \<and> distinct (map reg_id (events (handling b)) @ states (handling b))
    \<and> next_id (handling b) + 1 \<notin> used (handling b)"
proof -
  have inv: "board_inv b" using assms(1) by (rule board_reach_inv)
  then have cell: "cells (handling b) hid = Some cell \<Longrightarrow> retired cell \<and> running cell = []" for cell
    using assms(2,3) by (simp add: board_inv_def silent_def)
  then have "start_task hid task (handling b) = (False, handling b)"
    by (auto simp: start_task_def split: option.split)
  with inv cell ids_fresh [of "handling b" "retiring b"] show ?thesis
    by (auto simp: board_inv_def ids_ok_def)
qed

text \<open>
  An event is handed to exactly the handlers registered for its type, in the order they were
  registered, each on a task with a number of its own; no handler of another type is started.
\<close>

theorem dispatch_matches_type:
  "map fst (fst (dispatch_match name hs)) =
     map reg_id (filter (\<lambda>r. event_type r = name) (events hs))
   \<and> map snd (fst (dispatch_match name hs)) =
     map (\<lambda>k. next_task hs + 1 + word_of_nat k)
       [0..<length (filter (\<lambda>r. event_type r = name) (events hs))]
   \<and> next_task (snd (dispatch_match name hs)) =
     next_task hs + word_of_nat (length (filter (\<lambda>r. event_type r = name) (events hs)))"
proof -
  let ?hids = "map reg_id (filter (\<lambda>r. event_type r = name) (events hs))"
  have "fst (dispatch_match name hs) = fst (number_tasks (next_task hs) ?hids)"
    "next_task (snd (dispatch_match name hs)) = snd (number_tasks (next_task hs) ?hids)"
    by (simp_all add: dispatch_match_def split: prod.split)
  with number_tasks_ids [of "next_task hs" ?hids] number_tasks_numbers [of "next_task hs" ?hids]
  show ?thesis by simp
qed

theorem removed_handler_is_silent_witness:
  "\<exists>b. board_reach b \<and> pending b = [(1, 1)] \<and> start_task 1 1 (handling b) = (False, handling b)"
proof -
  let ?r = "\<lparr>reg_id = 1, event_type = ''speak''\<rparr>"
  let ?h1 = "snd (on False ''speak'' handlers_default)"
  let ?b1 = "board_new\<lparr>handling := ?h1\<rparr>"
  have h1: "?h1 = \<lparr>next_id = 1, next_task = 0, events = [?r], states = [],
      cells = [1 \<mapsto> \<lparr>retired = False, running = []\<rparr>]\<rparr>"
    by (simp add: on_def handlers_default_def)
  have r1: "board_reach ?b1"
    using board_reach.further [OF board_reach.fresh board_step.register [of board_new False "''speak''"]]
    by (simp add: board_new_def)
  let ?h2 = "?h1\<lparr>next_task := 1\<rparr>" and ?b2 = "\<lparr>handling = ?h1\<lparr>next_task := 1\<rparr>, pending = [(1, 1)], retiring = []\<rparr>"
  have "dispatch_match ''speak'' ?h1 = ([(1, 1)], ?h2)"
    by (simp add: h1 dispatch_match_def)
  then have r2: "board_reach ?b2"
    using board_reach.further [OF r1 board_step.dispatch [of "''speak''" ?b1 "[(1, 1)]" ?h2]]
    by (simp add: board_new_def)
  let ?h3 = "?h2\<lparr>events := []\<rparr>"
  have "off_remove 1 ?h2 = ((Some 1, True), ?h3)" by (simp add: h1 off_remove_def)
  then have r3: "board_reach \<lparr>handling = ?h3, pending = [(1, 1)], retiring = [1]\<rparr>"
    using board_reach.further [OF r2 board_step.remove [of 1 ?b2 "Some 1" True ?h3]] by simp
  let ?b4 = "\<lparr>handling = retire 1 ?h3, pending = [(1, 1)], retiring = []\<rparr>"
  have r4: "board_reach ?b4"
    using board_reach.further [OF r3 board_step.retire_one [of 1 "\<lparr>handling = ?h3, pending = [(1, 1)], retiring = [1]\<rparr>"]]
    by simp
  from removed_handler_is_silent [OF r4, of 1 1] r4 show ?thesis
    by (intro exI [of _ ?b4]) simp
qed

end
