(* ===== verification/Channel.thy ===== *)
theory Channel
  imports Noise_Handshake Noise_Adopt Wire
begin

text \<open>
  \<open>src/src/transport.rs\<close>, \<open>NoiseChannel\<close>: the negotiation of a v3 session and the traffic under it,
  the same over every transport. A channel reads frames and writes frames; on the way it reads and
  writes the trust store, so a step takes the files and the host of that moment. \<open>channel_lib\<close> holds
  the crates it uses, and the printer and parser serde derives for \<open>HiveMessage\<close>.
\<close>

section \<open>The channel\<close>

record ('b, 'h, 'c) channel_lib =
  cl_snow :: "('b, 'h, 'c) snow"
  cl_hex :: hex_lib
  cl_store :: store_lib
  cl_codec :: codec
  cl_number :: "number \<Rightarrow> string"
  cl_sha256 :: "bytes \<Rightarrow> bytes"
  cl_argon2id :: "bytes \<Rightarrow> bytes \<Rightarrow> string + bytes"
  cl_to_vec :: "hive_message \<Rightarrow> string + bytes"
  cl_from_slice :: "bytes \<Rightarrow> string + hive_message"
  cl_default_dir :: string
  cl_uuid :: string

text \<open>What the channel uses of an identity.\<close>

record channel_identity =
  password :: string
  public_key :: "string option"
  site_id :: string

record ('h, 'c) channel =
  ch_identity :: channel_identity
  ch_state_dir :: "string option"
  ch_hello :: "jmap option"
  ch_node_id :: string
  ch_handshake :: "('h, 'c) noise_handshake option"
  ch_session :: "'c noise_session option"
  ch_failed :: bool
  ch_force_xx :: bool
  ch_pattern :: "string option"
  ch_kk_failed :: bool
  ch_heard :: bool
  ch_adopt_from :: "string option"

record noise_write =
  nw_payload :: bytes
  nw_binary :: bool

definition channel_new :: "channel_identity \<Rightarrow> string option \<Rightarrow> bool \<Rightarrow> ('h, 'c) channel" where
  "channel_new idn state_dir force_xx =
     \<lparr>ch_identity = idn, ch_state_dir = state_dir, ch_hello = None, ch_node_id = [], ch_handshake = None,
      ch_session = None, ch_failed = False, ch_force_xx = force_xx, ch_pattern = None,
      ch_kk_failed = False, ch_heard = False, ch_adopt_from = None\<rparr>"

definition adopting :: "string option \<Rightarrow> ('h, 'c) channel \<Rightarrow> ('h, 'c) channel" where
  "adopting from_dir ch = ch\<lparr>ch_adopt_from := from_dir\<rparr>"

definition kk_pending :: "('h, 'c) channel \<Rightarrow> bool" where
  "kk_pending ch \<longleftrightarrow>
     ch_session ch = None \<and> ch_handshake ch \<noteq> None \<and> ch_pattern ch = Some NOISE_PATTERN_KK"

definition ready :: "('h, 'c) channel \<Rightarrow> bool" where
  "ready ch \<longleftrightarrow> ch_session ch \<noteq> None \<and> \<not> ch_failed ch"

definition remote_key :: "('h, 'c) channel \<Rightarrow> string option" where
  "remote_key ch =
     (if ch_failed ch then None else Option.bind (ch_session ch) s_remote_static_key)"

text \<open>The folder a channel keeps its state in.\<close>

definition dir_of :: "('b, 'h, 'c) channel_lib \<Rightarrow> ('h, 'c) channel \<Rightarrow> string" where
  "dir_of lib ch = (case ch_state_dir ch of None \<Rightarrow> cl_default_dir lib | Some d \<Rightarrow> d)"

definition derive_psk :: "('b, 'h, 'c) channel_lib \<Rightarrow> string \<Rightarrow> string \<Rightarrow> bytes res" where
  "derive_psk lib pw node_id =
     (case cl_argon2id lib (bytes_of pw) (cl_sha256 lib (bytes_of node_id)) of
        Inl err \<Rightarrow> Inl (Crypto (''could not derive the Noise pre-shared key: '' @ err))
      | Inr psk \<Rightarrow> Inr psk)"

definition string_list :: "json option \<Rightarrow> string list" where
  "string_list value =
     (case Option.bind value as_array of None \<Rightarrow> [] | Some items \<Rightarrow> List.map_filter as_str items)"

definition hello_hive_message :: "('b, 'h, 'c) channel_lib \<Rightarrow> channel_identity \<Rightarrow> string \<Rightarrow> hive_message" where
  "hello_hive_message lib idn prefix =
     plain_message ''hello''
       (bt_collect
          [(''pubkey'', JString (case public_key idn of None \<Rightarrow> [] | Some k \<Rightarrow> k)),
           (''session'', JObject [(''session_id'', JString (prefix @ cl_uuid lib))]),
           (''site_id'', JString (site_id idn))])
       None []"

section \<open>Sending\<close>

definition encode ::
    "('b, 'h, 'c) channel_lib \<Rightarrow> ('h, 'c) channel \<Rightarrow> hive_message \<Rightarrow> noise_write list res \<times> ('h, 'c) channel" where
  "encode lib ch message =
     (case ch_session ch of
        Some session \<Rightarrow>
          if ch_failed ch
          then (Inl (Connection ''refusing to send before the v3 Noise session is established''), ch)
          else (case cl_to_vec lib message of
             Inl err \<Rightarrow> (Inl (Json err), ch)
           | Inr body \<Rightarrow>
               (case encrypt_message (cl_snow lib) session body True of
                  (Inl e, s) \<Rightarrow> (Inl e, ch\<lparr>ch_session := Some s\<rparr>)
                | (Inr frames, s) \<Rightarrow>
                    (Inr (map (\<lambda>f. \<lparr>nw_payload = f, nw_binary = True\<rparr>) frames),
                     ch\<lparr>ch_session := Some s\<rparr>)))
      | None \<Rightarrow> (Inl (Connection ''refusing to send before the v3 Noise session is established''), ch))"

text \<open>A handshake message in the clear.\<close>

definition clear_write :: "('b, 'h, 'c) channel_lib \<Rightarrow> (string \<times> json) list \<Rightarrow> noise_write res" where
  "clear_write lib params =
     (case cl_to_vec lib (plain_message ''shake'' [(''noise'', JObject (bt_collect params))] None []) of
        Inl err \<Rightarrow> Inl (Json err)
      | Inr body \<Rightarrow> Inr \<lparr>nw_payload = body, nw_binary = False\<rparr>)"

section \<open>The handshake\<close>

text \<open>A step answers, and leaves a channel and the files.\<close>

type_synonym ('h, 'c, 'a) chan_step = "'a res \<times> ('h, 'c) channel \<times> files"

text \<open>
  The \<open>?\<close> of a step that may fail: on a result read from the files, or on one that needs none. A
  failure leaves the channel as it is.
\<close>

definition on_files ::
    "('h, 'c) channel \<Rightarrow> 'v res \<times> files \<Rightarrow> ('v \<Rightarrow> files \<Rightarrow> ('h, 'c, 'a) chan_step) \<Rightarrow> ('h, 'c, 'a) chan_step" where
  "on_files ch r k = (case r of (Inl e, fs) \<Rightarrow> (Inl e, ch, fs) | (Inr v, fs) \<Rightarrow> k v fs)"

definition checked ::
    "('h, 'c) channel \<Rightarrow> files \<Rightarrow> 'v res \<Rightarrow> ('v \<Rightarrow> ('h, 'c, 'a) chan_step) \<Rightarrow> ('h, 'c, 'a) chan_step" where
  "checked ch fs r k = (case r of Inl e \<Rightarrow> (Inl e, ch, fs) | Inr v \<Rightarrow> k v)"

text \<open>The pattern and suite: after a failed \<open>KK\<close>, \<open>XX\<close> whatever is pinned.\<close>

definition choose_options ::
    "('h, 'c) channel \<Rightarrow> jmap \<Rightarrow> string option \<Rightarrow> (string \<times> string) res" where
  "choose_options ch params pin =
     ok_or (select_noise_options (string_list (map_of params ''patterns''))
              (string_list (map_of params ''suites'')) (if ch_force_xx ch then None else pin))
       (Connection ''no supported Noise pattern and suite'')"

text \<open>The pre-shared key: cached, or derived and cached; a cache that cannot be written is ignored.\<close>

definition obtain_psk ::
    "('b, 'h, 'c) channel_lib \<Rightarrow> host \<Rightarrow> ('h, 'c) channel \<Rightarrow> files \<Rightarrow> bytes res \<times> files" where
  "obtain_psk lib h ch fs =
     (case load_cached_psk (cl_store lib) (cl_hex lib) h (dir_of lib ch) (ch_node_id ch) fs of
        (Inl e, fs) \<Rightarrow> (Inl e, fs)
      | (Inr (Some psk), fs) \<Rightarrow> (Inr psk, fs)
      | (Inr None, fs) \<Rightarrow>
          (case derive_psk lib (password (ch_identity ch)) (ch_node_id ch) of
             Inl e \<Rightarrow> (Inl e, fs)
           | Inr derived \<Rightarrow>
               (Inr derived, snd (save_cached_psk (cl_store lib) (cl_hex lib) h (dir_of lib ch)
                                    (ch_node_id ch) derived fs))))"

definition preferences :: "('b, 'h, 'c) channel_lib \<Rightarrow> string" where
  "preferences lib =
     canonical_json (cl_number lib) (JObject [(''binarize'', JBool False), (''encodings'', JArray [])])"

text \<open>The first message of the handshake, once everything it needs is there.\<close>

definition start_message ::
    "('b, 'h, 'c) channel_lib \<Rightarrow> jmap \<Rightarrow> string \<Rightarrow> string \<Rightarrow> string option \<Rightarrow> bytes \<Rightarrow> bytes
     \<Rightarrow> ('h, 'c) channel \<Rightarrow> noise_write list res \<times> ('h, 'c) channel" where
  "start_message lib offer pattern suite pin key psk ch =
     (let prologue = build_prologue (cl_number lib) (case ch_hello ch of None \<Rightarrow> [] | Some m \<Rightarrow> m) offer
                       (noise_protocol_name pattern suite)
      in case handshake_new (cl_snow lib) (cl_hex lib) pattern suite psk prologue key pin of
           Inl e \<Rightarrow> (Inl e, ch)
         | Inr hs \<Rightarrow>
             (case write_message (cl_snow lib) (cl_hex lib) hs (bytes_of (preferences lib)) of
                (Inl e, _) \<Rightarrow> (Inl e, ch)
              | (Inr msg, hs) \<Rightarrow>
                  (res_bind (clear_write lib
                       [(''pattern'', JString pattern), (''suite'', JString suite),
                        (''msg'', JString (hex_encode (cl_hex lib) msg))]) (\<lambda>w. Inr [w]),
                   ch\<lparr>ch_handshake := Some hs, ch_pattern := Some pattern\<rparr>)))"

definition adopt_first ::
    "('b, 'h, 'c) channel_lib \<Rightarrow> host \<Rightarrow> ('h, 'c) channel \<Rightarrow> files \<Rightarrow> unit res \<times> files" where
  "adopt_first lib h ch fs =
     (case (ch_state_dir ch, ch_adopt_from ch) of
        (Some target, Some from_dir) \<Rightarrow>
          (case adopt_legacy_key (cl_store lib) (cl_hex lib) h target from_dir (ch_node_id ch) fs of
             (r, fs) \<Rightarrow> (res_bind r (\<lambda>_. Inr ()), fs))
      | _ \<Rightarrow> (Inr (), fs))"

definition start ::
    "('b, 'h, 'c) channel_lib \<Rightarrow> host \<Rightarrow> jmap \<Rightarrow> jmap \<Rightarrow> ('h, 'c) channel \<Rightarrow> files
     \<Rightarrow> ('h, 'c, noise_write list) chan_step" where
  "start lib h offer params ch fs =
     (if ch_node_id ch = [] \<or> ch_handshake ch \<noteq> None
      then (Inl (Connection ''unexpected Noise capability offer''), ch, fs)
      else if password (ch_identity ch) = []
      then (Inl (MissingIdentityField ''password: v3 Noise requires the identity password''), ch, fs)
      else
        (let adopted = adopt_first lib h ch fs; ch = ch\<lparr>ch_adopt_from := None\<rparr>; dir = dir_of lib ch
         in on_files ch adopted (\<lambda>_ fs.
            on_files ch (load_noise_pin (cl_store lib) h dir (ch_node_id ch) fs) (\<lambda>pin fs.
            checked ch fs (choose_options ch params pin) (\<lambda>(pattern, suite).
            on_files ch (load_or_create_noise_key (cl_hex lib) h dir fs) (\<lambda>key fs.
            on_files ch (obtain_psk lib h ch fs) (\<lambda>psk fs.
              (case start_message lib offer pattern suite pin key psk ch of (r, ch) \<Rightarrow> (r, ch, fs)))))))))"

definition REJECTED :: thalovant_error where
  "REJECTED = hub_refused ''the hub's Noise handshake did not authenticate under this password (wrong password, or a tampered negotiation)''"

definition PIN_CHANGED :: thalovant_error where
  "PIN_CHANGED = hub_key_changed ''if the hub was not reinstalled or replaced, another machine may be answering at this address. If it was, drop the stale pin with forget_noise_pin and connect again''"

text \<open>
  The end of the handshake: a session counts only when its hub key is the pinned one, or the first
  one seen; then the HELLO goes out under it.
\<close>

definition accept_session ::
    "('b, 'h, 'c) channel_lib \<Rightarrow> host \<Rightarrow> noise_write list \<Rightarrow> 'c noise_session \<Rightarrow> ('h, 'c) channel \<Rightarrow> files
     \<Rightarrow> ('h, 'c, noise_write list) chan_step" where
  "accept_session lib h writes session ch fs =
     (let dir = dir_of lib ch
      in checked ch fs (ok_or (s_remote_static_key session)
           (Connection ''Noise peer supplied no static identity'')) (\<lambda>remote.
         on_files ch (load_noise_pin (cl_store lib) h dir (ch_node_id ch) fs) (\<lambda>pin fs.
           if (case pin of None \<Rightarrow> False | Some pinned \<Rightarrow> \<not> eq_ignore_ascii_case pinned remote)
           then (Inl PIN_CHANGED, ch, fs)
           else on_files ch (pin_hub_key (cl_store lib) h dir (ch_node_id ch) remote fs) (\<lambda>_ fs.
             (case encode lib (ch\<lparr>ch_session := Some session\<rparr>)
                     (hello_hive_message lib (ch_identity ch) ''thalovant-rust-'') of
                (r, ch) \<Rightarrow> (res_bind r (\<lambda>ws. Inr (writes @ ws)), ch, fs))))))"

text \<open>The message the handshake still owes the hub, if it is not finished.\<close>

definition last_message ::
    "('b, 'h, 'c) channel_lib \<Rightarrow> ('h, 'c) noise_handshake \<Rightarrow> noise_write list res \<times> ('h, 'c) noise_handshake" where
  "last_message lib hs =
     (if is_finished hs then (Inr [], hs)
      else case write_message (cl_snow lib) (cl_hex lib) hs [] of
             (Inl e, hs) \<Rightarrow> (Inl e, hs)
           | (Inr msg, hs) \<Rightarrow>
               (res_bind (clear_write lib [(''msg'', JString (hex_encode (cl_hex lib) msg))])
                  (\<lambda>w. Inr [w]), hs))"

definition envelope :: "('b, 'h, 'c) channel_lib \<Rightarrow> jmap \<Rightarrow> bytes res" where
  "envelope lib params =
     (case get_str params ''msg'' of
        None \<Rightarrow> Inl (Connection ''malformed Noise envelope'')
      | Some encoded \<Rightarrow>
          if encoded = [] then Inl (Connection ''malformed Noise envelope'')
          else ok_or (hex_decode (cl_hex lib) encoded) (Connection ''malformed Noise envelope''))"

text \<open>The hub's answer did not authenticate: the cached key goes, and a failed \<open>KK\<close> is noted.\<close>

definition reject_handshake ::
    "('b, 'h, 'c) channel_lib \<Rightarrow> host \<Rightarrow> ('h, 'c) channel \<Rightarrow> files \<Rightarrow> ('h, 'c, 'a) chan_step" where
  "reject_handshake lib h ch fs =
     (let fs = snd (forget_cached_psk (cl_store lib) h (dir_of lib ch) (ch_node_id ch) fs);
          ch = ch\<lparr>ch_handshake := None\<rparr>;
          ch = (if ch_pattern ch = Some NOISE_PATTERN_KK then ch\<lparr>ch_kk_failed := True\<rparr> else ch)
      in (Inl REJECTED, ch, fs))"

definition continue_handshake ::
    "('b, 'h, 'c) channel_lib \<Rightarrow> host \<Rightarrow> jmap \<Rightarrow> ('h, 'c) channel \<Rightarrow> files
     \<Rightarrow> ('h, 'c, noise_write list) chan_step" where
  "continue_handshake lib h params ch fs =
     checked ch fs (envelope lib params) (\<lambda>msg.
     checked ch fs (ok_or (ch_handshake ch) (Connection ''Noise response before negotiation'')) (\<lambda>hs.
       (case read_message (cl_snow lib) (cl_hex lib) hs msg of
          (Inl _, _) \<Rightarrow> reject_handshake lib h ch fs
        | (Inr _, hs) \<Rightarrow>
            (case last_message lib hs of
               (Inl e, hs) \<Rightarrow> (Inl e, ch\<lparr>ch_handshake := Some hs\<rparr>, fs)
             | (Inr writes, hs) \<Rightarrow>
                 checked (ch\<lparr>ch_handshake := None\<rparr>) fs (into_session hs) (\<lambda>session.
                   accept_session lib h writes session (ch\<lparr>ch_handshake := None\<rparr>) fs)))))"

section \<open>Receiving\<close>

text \<open>A frame under the session: it must be ciphertext, and counts as heard once it decrypts.\<close>

definition receive_session ::
    "('b, 'h, 'c) channel_lib \<Rightarrow> bytes \<Rightarrow> bool \<Rightarrow> 'c noise_session \<Rightarrow> ('h, 'c) channel
     \<Rightarrow> hive_message option res \<times> ('h, 'c) channel" where
  "receive_session lib data is_binary session ch =
     (if \<not> is_binary then (Inl (Connection ''plaintext received after Noise negotiation''), ch)
      else case decrypt_frame (cl_snow lib) session data of
        (Inl e, s) \<Rightarrow> (Inl e, ch\<lparr>ch_session := Some s\<rparr>)
      | (Inr frame, s) \<Rightarrow>
          (let ch = ch\<lparr>ch_session := Some s, ch_heard := True\<rparr>
           in case frame of
                Partial \<Rightarrow> (Inr None, ch)
              | Message body is_json \<Rightarrow>
                  if is_json
                  then (case cl_from_slice lib body of
                          Inl err \<Rightarrow> (Inl (Json err), ch)
                        | Inr m \<Rightarrow> (Inr (Some m), ch))
                  else (res_bind (decode_hive_binary_frame (cl_codec lib) body) (\<lambda>m. Inr (Some m)), ch)))"

definition receive_hello :: "hive_message \<Rightarrow> ('h, 'c) channel \<Rightarrow> unit res \<times> ('h, 'c) channel" where
  "receive_hello message ch =
     (if ch_hello ch \<noteq> None \<or> ch_handshake ch \<noteq> None
      then (Inl (Connection ''duplicate Noise HELLO''), ch)
      else (let n = (case get_str (payload message) ''node_id'' of None \<Rightarrow> [] | Some n \<Rightarrow> n);
                ch = ch\<lparr>ch_node_id := n\<rparr>
            in if n = [] then (Inl (Connection ''Noise HELLO lacks node_id''), ch)
               else (Inr (), ch\<lparr>ch_hello := Some (payload message)\<rparr>)))"

definition receive_clear ::
    "('b, 'h, 'c) channel_lib \<Rightarrow> host \<Rightarrow> hive_message \<Rightarrow> ('h, 'c) channel \<Rightarrow> files
     \<Rightarrow> ('h, 'c, hive_message option \<times> noise_write list) chan_step" where
  "receive_clear lib h message ch fs =
     (if msg_type message = ''hello'' then
        (case receive_hello message ch of (r, ch) \<Rightarrow> (res_bind r (\<lambda>_. Inr (None, [])), ch, fs))
      else if msg_type message \<in> {''shake'', ''handshake''} then
        (case get_object (payload message) ''noise'' of
           None \<Rightarrow> (Inl (Connection ''the hub did not offer v3 Noise''), ch, fs)
         | Some params \<Rightarrow>
             (case (if map_of params ''msg'' \<noteq> None then continue_handshake lib h params ch fs
                    else start lib h (payload message) params ch fs) of
                (r, ch, fs) \<Rightarrow> (res_bind r (\<lambda>ws. Inr (None, ws)), ch, fs)))
      else (Inl (Connection ''application traffic received before Noise negotiation''), ch, fs))"

definition receive_inner ::
    "('b, 'h, 'c) channel_lib \<Rightarrow> host \<Rightarrow> bytes \<Rightarrow> bool \<Rightarrow> ('h, 'c) channel \<Rightarrow> files
     \<Rightarrow> ('h, 'c, hive_message option \<times> noise_write list) chan_step" where
  "receive_inner lib h data is_binary ch fs =
     (case ch_session ch of
        Some session \<Rightarrow>
          (case receive_session lib data is_binary session ch of
             (r, ch) \<Rightarrow> (res_bind r (\<lambda>m. Inr (m, [])), ch, fs))
      | None \<Rightarrow>
          if is_binary then (Inl (Connection ''ciphertext arrived before Noise negotiation''), ch, fs)
          else (case cl_from_slice lib data of
                  Inl err \<Rightarrow> (Inl (Json err), ch, fs)
                | Inr message \<Rightarrow> receive_clear lib h message ch fs))"

definition receive ::
    "('b, 'h, 'c) channel_lib \<Rightarrow> host \<Rightarrow> bytes \<Rightarrow> bool \<Rightarrow> ('h, 'c) channel \<Rightarrow> files
     \<Rightarrow> ('h, 'c, hive_message option \<times> noise_write list) chan_step" where
  "receive lib h data is_binary ch fs =
     (if ch_failed ch then (Inl (Connection ''Noise session failed; reconnect required''), ch, fs)
      else case receive_inner lib h data is_binary ch fs of
             (Inl e, ch, fs) \<Rightarrow> (Inl e, ch\<lparr>ch_failed := True\<rparr>, fs)
           | (Inr x, ch, fs) \<Rightarrow> (Inr x, ch, fs))"

text \<open>Dropping a channel whose handshake was abandoned forgets the provisional pre-shared key.\<close>

definition drop_channel ::
    "('b, 'h, 'c) channel_lib \<Rightarrow> host \<Rightarrow> ('h, 'c) channel \<Rightarrow> files \<Rightarrow> files" where
  "drop_channel lib h ch fs =
     (if ch_handshake ch \<noteq> None \<and> ch_session ch = None
      then snd (forget_cached_psk (cl_store lib) h (dir_of lib ch) (ch_node_id ch) fs) else fs)"

end
