(* ===== verification/Channel_Sample.thy ===== *)
theory Channel_Sample
  imports Channel Sample_Libs
begin

text \<open>
  A concrete hub for the channel's witnesses: a folder with a pinned hub, this client's key and a
  cached pre-shared key, crates that only count, and the three frames a hub sends to take a channel
  to a session: its HELLO, its offer and its answer.
\<close>

definition chan_snow :: "(nat, nat, nat) snow" where
  "chan_snow = counting_snow\<lparr>b_build_initiator := (\<lambda>_. Inr 3), h_remote_static := (\<lambda>_. Some (replicate 32 0xAA))\<rparr>"

definition sample_hello :: hive_message where
  "sample_hello = plain_message ''hello'' [(''node_id'', JString ''hub'')] None []"

definition sample_offer :: hive_message where
  "sample_offer = plain_message ''shake'' [(''noise'', JObject
     [(''patterns'', JArray [JString ''XXpsk2'']), (''suites'', JArray [JString ''25519_AESGCM_SHA256''])])] None []"

definition sample_answer :: hive_message where
  "sample_answer = plain_message ''shake'' [(''noise'', JObject [(''msg'', JString ''ab'')])] None []"

definition chan_lib :: "(nat, nat, nat) channel_lib" where
  "chan_lib =
     \<lparr>cl_snow = chan_snow, cl_hex = sample_hex, cl_store = sample_strings, cl_codec = sample_codec,
      cl_number = (\<lambda>_. ''0''), cl_sha256 = (\<lambda>_. []), cl_argon2id = (\<lambda>_ _. Inr (replicate 32 1)),
      cl_to_vec = (\<lambda>m. Inr (bytes_of (msg_type m))),
      cl_from_slice = (\<lambda>d. Inr (if d = [1] then sample_hello else if d = [2] then sample_offer
         else if d = [3] then sample_answer else plain_message (chars_of d) [] None [])),
      cl_default_dir = ''/c'', cl_uuid = ''u''\<rparr>"

definition sample_identity :: channel_identity where
  "sample_identity = \<lparr>password = ''p'', public_key = None, site_id = ''s''\<rparr>"

definition chan_files :: files where
  "chan_files = sample_files((''/c'', NOISE_PSK_FILENAME) \<mapsto>
     Regular 0x180 (mark_map [(''hub'', hex_text (replicate 32 1))] @ NEWLINE))"

lemma psk_path_other:
  "NOISE_PSK_FILENAME \<noteq> LOCK_FILE" "NOISE_PSK_FILENAME \<noteq> NOISE_PINS_FILENAME"
  "NOISE_PSK_FILENAME \<noteq> NOISE_KEY_FILENAME"
  by (simp_all add: NOISE_PSK_FILENAME_def LOCK_FILE_def NOISE_PINS_FILENAME_def NOISE_KEY_FILENAME_def)

lemma chan_lock: "lock_state calm_host ''/c'' chan_files = (Inr (), chan_files)"
  by (simp add: lock_state_def Let_def chan_files_def sample_files_def calm_host_def lock_result_def faulty_def
      symlink_metadata_def assert_secure_secret_file_def is_file_def private_mode_def)

lemma chan_pins: "read_pins sample_strings calm_host ''/c'' chan_files = Inr [(''hub'', sample_key)]"
  using sample_pin_valid(1) sample_parse
  by (simp add: read_pins_def Let_def validate_state_file_def chan_files_def sample_files_def calm_host_def
      faulty_def symlink_metadata_def assert_secure_secret_file_def is_file_def read_to_string_def
      private_mode_def psk_path_other)
    (simp add: sample_key_def)

lemma chan_load_key:
  "load_or_create_noise_key sample_hex calm_host ''/c'' chan_files = (Inr (replicate 32 7), chan_files)"
proof -
  have "decode_key sample_hex (''/c'', NOISE_KEY_FILENAME) (hex_text (replicate 32 7)) = Inr (replicate 32 7)"
    by (simp add: decode_key_def sample_hex_def trim_hex_text unhex_hex_text Let_def)
  moreover have "read_to_string calm_host chan_files (''/c'', NOISE_KEY_FILENAME) =
      Inr (hex_text (replicate 32 7))"
    by (simp add: read_to_string_def calm_host_def faulty_def chan_files_def sample_files_def)
  moreover have "validate_state_file calm_host chan_files (''/c'', NOISE_KEY_FILENAME) ''Noise key file'' = Inr ()"
    by (simp add: validate_state_file_def calm_host_def faulty_def chan_files_def sample_files_def
        symlink_metadata_def is_file_def assert_secure_secret_file_def private_mode_def)
  ultimately show ?thesis
    by (simp add: load_or_create_noise_key_def chan_lock Let_def)
qed

lemma chan_pin_hub:
  "pin_hub_key sample_strings calm_host ''/c'' ''hub'' sample_key chan_files = (Inr (), chan_files)"
proof -
  have "validate_pin ''hub'' sample_key = Inr ()" using sample_pin_valid(1) by (simp add: sample_key_def)
  then show ?thesis
    by (simp add: pin_hub_key_def chan_lock chan_pins pin_decision_def eq_ignore_ascii_case_def)
qed

lemma chan_load_pin:
  "load_noise_pin sample_strings calm_host ''/c'' ''hub'' chan_files = (Inr (Some sample_key), chan_files)"
  by (simp add: load_noise_pin_def chan_lock chan_pins)

lemma chan_load_psk:
  "load_cached_psk sample_strings sample_hex calm_host ''/c'' ''hub'' chan_files = (Inr (Some (replicate 32 1)), chan_files)"
proof -
  have n: "trim ''hub'' \<noteq> []" using trim_plain [of "''hub''"] by (simp add: plain_char_def)
  let ?m = "[(''hub'', hex_text (replicate 32 1))]"
  have p: "parse_strings sample_strings (mark_map ?m @ NEWLINE) = Inr ?m"
    using sample_laws by (simp add: store_laws_def sample_strings_def bt_inv_def)
  have "read_psk_cache sample_strings calm_host ''/c'' chan_files = Inr ?m"
    by (simp add: read_psk_cache_def Let_def validate_state_file_def symlink_metadata_def calm_host_def
        faulty_def is_file_def assert_secure_secret_file_def read_to_string_def private_mode_def chan_files_def p)
  with n show ?thesis
    by (simp add: load_cached_psk_def chan_lock cached_psk_def sample_hex_def trim_hex_text unhex_hex_text)
qed

lemma chan_remote: "hex_encode sample_hex (replicate 32 0xAA) = sample_key"
proof -
  have "hex_byte 170 = ''aa''" by (simp add: hex_byte_def digit_char_def char_of_def bit_iff_odd)
  then have "hex_text (replicate n 0xAA) = replicate (2 * n) CHR ''a''" for n
    by (induction n) (simp_all add: hex_text_def)
  from this [of 32] show ?thesis by (simp add: sample_hex_def sample_key_def)
qed

section \<open>The three frames\<close>

definition sample_start :: "(nat, nat) channel" where
  "sample_start = channel_new sample_identity None False"

definition sample_greeted :: "(nat, nat) channel" where
  "sample_greeted = sample_start\<lparr>ch_node_id := ''hub'', ch_hello := Some (payload sample_hello)\<rparr>"

definition sample_negotiating :: "(nat, nat) channel" where
  "sample_negotiating = sample_greeted\<lparr>
     ch_handshake := Some \<lparr>hs_state = Some 2, hs_transport = None, hs_pattern = ''XXpsk2'',
        hs_remote_static_key = None\<rparr>, ch_pattern := Some ''XXpsk2''\<rparr>"

definition sample_open :: "(nat, nat) channel" where
  "sample_open = sample_negotiating\<lparr>ch_handshake := None,
     ch_session := Some \<lparr>s_transport = 1, s_reassembly = None, s_remote_static_key = Some sample_key\<rparr>\<rparr>"

lemma receive_sample_hello:
  "receive chan_lib calm_host [1] False sample_start fs = (Inr (None, []), sample_greeted, fs)"
  by (simp add: receive_def receive_inner_def receive_clear_def receive_hello_def sample_greeted_def
      sample_start_def channel_new_def chan_lib_def sample_hello_def plain_message_def get_str_def as_str_def Let_def)

definition sample_shake :: noise_write where
  "sample_shake = \<lparr>nw_payload = bytes_of ''shake'', nw_binary = False\<rparr>"

lemma receive_sample_offer:
  "receive chan_lib calm_host [2] False sample_greeted chan_files =
     (Inr (None, [sample_shake]), sample_negotiating, chan_files)"
proof -
  let ?params = "[(''patterns'', JArray [JString ''XXpsk2'']), (''suites'', JArray [JString ''25519_AESGCM_SHA256''])]"
  have opts: "choose_options sample_greeted ?params pin = Inr (''XXpsk2'', ''25519_AESGCM_SHA256'')" for pin
    by (simp add: choose_options_def string_list_def as_array_def as_str_def List.map_filter_def
        select_noise_options_def NOISE_SUITES_def NOISE_PATTERN_XX_def NOISE_PATTERN_KK_def Let_def)
  have new: "handshake_new chan_snow sample_hex ''XXpsk2'' s psk pr key pin = Inr \<lparr>hs_state = Some 3,
      hs_transport = None, hs_pattern = ''XXpsk2'', hs_remote_static_key = None\<rparr>" for s psk pr key pin
    by (simp add: handshake_new_def Let_def psk_index_def chan_snow_def counting_snow_def
        NOISE_PATTERN_KK_def NOISE_PATTERN_XX_def)
  have msg: "start_message chan_lib offer ''XXpsk2'' s pin key psk sample_greeted =
      (Inr [\<lparr>nw_payload = bytes_of ''shake'', nw_binary = False\<rparr>], sample_negotiating)" for offer s pin key psk
    using new
    by (simp add: start_message_def chan_lib_def Let_def write_message_def finish_message_def
        maybe_finish_def chan_snow_def counting_snow_def clear_write_def plain_message_def sample_negotiating_def)
  have same: "sample_greeted\<lparr>ch_adopt_from := None\<rparr> = sample_greeted"
    by (simp add: sample_greeted_def sample_start_def channel_new_def)
  have start: "start chan_lib calm_host offer ?params sample_greeted chan_files =
      (Inr [\<lparr>nw_payload = bytes_of ''shake'', nw_binary = False\<rparr>], sample_negotiating, chan_files)" for offer
  proof -
    have f: "ch_node_id sample_greeted = ''hub''" "ch_handshake sample_greeted = None"
      "password (ch_identity sample_greeted) \<noteq> []" "dir_of chan_lib sample_greeted = ''/c''"
      "adopt_first chan_lib calm_host sample_greeted chan_files = (Inr (), chan_files)"
      by (simp_all add: sample_greeted_def sample_start_def channel_new_def sample_identity_def dir_of_def
          chan_lib_def adopt_first_def)
    have l: "cl_store chan_lib = sample_strings" "cl_hex chan_lib = sample_hex" by (simp_all add: chan_lib_def)
    show ?thesis
      by (simp add: start_def f l same Let_def on_files_def checked_def opts chan_load_pin chan_load_key
          obtain_psk_def chan_load_psk msg)
  qed
  have "receive_clear chan_lib calm_host sample_offer sample_greeted chan_files =
      (Inr (None, [\<lparr>nw_payload = bytes_of ''shake'', nw_binary = False\<rparr>]), sample_negotiating, chan_files)"
    using start by (simp add: receive_clear_def sample_offer_def plain_message_def get_object_def as_object_def)
  moreover have "ch_session sample_greeted = None" "\<not> ch_failed sample_greeted"
    "cl_from_slice chan_lib [2] = Inr sample_offer"
    by (simp_all add: sample_greeted_def sample_start_def channel_new_def chan_lib_def)
  ultimately show ?thesis by (simp add: receive_def receive_inner_def sample_shake_def)
qed

lemma receive_sample_answer:
  "\<exists>f. receive chan_lib calm_host [3] False sample_negotiating chan_files =
     (Inr (None, [sample_shake, \<lparr>nw_payload = f, nw_binary = True\<rparr>]), sample_open, chan_files)"
proof -
  have l: "cl_store chan_lib = sample_strings" "cl_hex chan_lib = sample_hex" "cl_snow chan_lib = chan_snow"
    "cl_from_slice chan_lib [3] = Inr sample_answer" by (simp_all add: chan_lib_def)
  let ?hs = "\<lambda>n. \<lparr>hs_state = Some n, hs_transport = None, hs_pattern = ''XXpsk2'', hs_remote_static_key = None\<rparr> :: (nat, nat) noise_handshake"
  let ?done = "\<lparr>hs_state = None, hs_transport = Some 0, hs_pattern = ''XXpsk2'', hs_remote_static_key = Some sample_key\<rparr> :: (nat, nat) noise_handshake"
  let ?s = "\<lparr>s_transport = 0, s_reassembly = None, s_remote_static_key = Some sample_key\<rparr>"
  have f: "ch_session sample_negotiating = None" "\<not> ch_failed sample_negotiating"
    "ch_handshake sample_negotiating = Some (?hs 2)"
    by (simp_all add: sample_negotiating_def sample_greeted_def sample_start_def channel_new_def)
  have env: "envelope chan_lib [(''msg'', JString ''ab'')] = Inr [0xAB]"
    by (simp add: envelope_def get_str_def as_str_def chan_lib_def sample_hex_def is_ascii_hexdigit_def hex_val_def)
  have read: "read_message chan_snow sample_hex (?hs 2) [0xAB] = (Inr [0xAB], ?hs 1)"
    by (simp add: read_message_def chan_snow_def counting_snow_def finish_message_def maybe_finish_def)
  have last: "last_message chan_lib (?hs 1) = (Inr [sample_shake], ?done)"
    by (simp add: last_message_def is_finished_def write_message_def l chan_snow_def counting_snow_def
        finish_message_def maybe_finish_def chan_remote clear_write_def)
      (simp add: chan_lib_def sample_shake_def plain_message_def)
  have sess: "into_session ?done = Inr ?s" by (simp add: into_session_def)
  let ?ch = "sample_negotiating\<lparr>ch_handshake := None\<rparr>"
  have g: "ch_node_id ?ch = ''hub''" "dir_of chan_lib ?ch = ''/c''" "\<not> ch_failed ?ch"
    by (simp_all add: sample_negotiating_def sample_greeted_def sample_start_def channel_new_def dir_of_def chan_lib_def)
  have enc: "\<exists>f. encode chan_lib (?ch\<lparr>ch_session := Some ?s\<rparr>) m = (Inr [\<lparr>nw_payload = f, nw_binary = True\<rparr>], sample_open)" if "length (msg_type m) \<le> 10" for m
    using that g(3)
    by (simp add: encode_def chan_lib_def encrypt_message_def chan_snow_def counting_snow_def counting_cipher_def
        encrypt_one_def NOISE_CHUNK_SIZE_def sample_open_def bytes_of_def)
  have "\<exists>f. accept_session chan_lib calm_host [sample_shake] ?s ?ch chan_files =
      (Inr [sample_shake, \<lparr>nw_payload = f, nw_binary = True\<rparr>], sample_open, chan_files)"
    using enc [of "hello_hive_message chan_lib (ch_identity ?ch) ''thalovant-rust-''"]
    by (auto simp: accept_session_def Let_def checked_def on_files_def g l chan_load_pin chan_pin_hub
        eq_ignore_ascii_case_def hello_hive_message_def plain_message_def)
  then obtain f where acc: "accept_session chan_lib calm_host [sample_shake] ?s ?ch chan_files =
      (Inr [sample_shake, \<lparr>nw_payload = f, nw_binary = True\<rparr>], sample_open, chan_files)" by blast
  have cont: "continue_handshake chan_lib calm_host [(''msg'', JString ''ab'')] sample_negotiating chan_files
      = (Inr [sample_shake, \<lparr>nw_payload = f, nw_binary = True\<rparr>], sample_open, chan_files)"
    by (simp add: continue_handshake_def checked_def env f l read last [simplified] sess acc)
  have "receive_clear chan_lib calm_host sample_answer sample_negotiating chan_files =
      (Inr (None, [sample_shake, \<lparr>nw_payload = f, nw_binary = True\<rparr>]), sample_open, chan_files)"
    by (simp add: receive_clear_def sample_answer_def plain_message_def get_object_def as_object_def cont)
  then show ?thesis using f l by (simp add: receive_def receive_inner_def)
qed

end
