(* ===== verification/Channel_Safety.thy ===== *)
theory Channel_Safety
  imports Channel_Sample
begin

text \<open>
  What a \<open>NoiseChannel\<close> guarantees against whatever arrives: no application traffic in the clear in
  either direction, a failure is final, a session only with the pinned hub key and the pin never
  replaced, and, between two channels in session, every message delivered.
\<close>

section \<open>What a step leaves alone\<close>

lemma encrypt_one_written:
  "encrypt_one lib t m body = (Inr f, t') \<Longrightarrow> \<exists>s p s'. t_write lib s p = (Inr f, s')"
  by (auto simp: encrypt_one_def split: prod.splits sum.splits)

lemma encrypt_chunks_written:
  "encrypt_chunks lib t first bs offset = (Inr fs, t') \<Longrightarrow> f \<in> set fs \<Longrightarrow> \<exists>s p s'. t_write lib s p = (Inr f, s')"
proof (induction lib t first bs offset arbitrary: fs t' rule: encrypt_chunks.induct)
  case (1 lib t first bs offset)
  then show ?case
    by (auto simp: encrypt_chunks.simps [of lib t first bs offset] Let_def dest: encrypt_one_written
        split: if_splits prod.splits sum.splits)
qed

lemma encrypt_message_written:
  assumes "encrypt_message lib s bs j = (Inr fs, s')" and "f \<in> set fs"
  shows "\<exists>t p t'. t_write lib t p = (Inr f, t')"
  using assms encrypt_chunks_written [of lib _ _ bs 0 fs] encrypt_one_written [of lib _ _ bs]
  by (fastforce simp: encrypt_message_def Let_def res_bind_eq_Inr split: prod.splits if_splits)

lemma encrypt_message_key: "encrypt_message lib s p j = (r, s') \<Longrightarrow> s_remote_static_key s' = s_remote_static_key s"
  by (auto simp: encrypt_message_def Let_def split: prod.splits if_splits)

lemma decrypt_frame_key: "decrypt_frame lib s d = (r, s') \<Longrightarrow> s_remote_static_key s' = s_remote_static_key s"
  by (auto simp: decrypt_frame_def split: prod.splits sum.splits list.splits)

text \<open>The key and the folder of a channel in session, and what it takes for the channel to have one.\<close>

definition session_key :: "('h, 'c) channel \<Rightarrow> string option option" where
  "session_key ch = map_option s_remote_static_key (ch_session ch)"

lemma encode_key:
  "encode lib ch m = (r, ch') \<Longrightarrow>
   session_key ch' = session_key ch \<and> ch_node_id ch' = ch_node_id ch \<and> ch_state_dir ch' = ch_state_dir ch
   \<and> ch_failed ch' = ch_failed ch"
  by (auto simp: encode_def session_key_def dest: encrypt_message_key
      split: option.splits prod.splits sum.splits if_splits)

lemma receive_session_key:
  "receive_session lib d b s ch = (r, ch') \<Longrightarrow> ch_session ch = Some s \<Longrightarrow>
   session_key ch' = session_key ch \<and> ch_node_id ch' = ch_node_id ch \<and> ch_state_dir ch' = ch_state_dir ch"
  by (auto simp: receive_session_def session_key_def Let_def dest: decrypt_frame_key
      split: if_splits prod.splits sum.splits noise_frame.splits)

section \<open>Nothing in the clear\<close>

text \<open>A write in the clear is a handshake message: its payload is a \<open>shake\<close> with Noise parameters.\<close>

definition handshake_write :: "('b, 'h, 'c) channel_lib \<Rightarrow> noise_write \<Rightarrow> bool" where
  "handshake_write lib w \<longleftrightarrow>
     (\<exists>params. cl_to_vec lib (plain_message ''shake'' [(''noise'', JObject params)] None []) = Inr (nw_payload w))"

text \<open>A binary frame whose bytes the cipher of a session wrote.\<close>

definition sealed :: "('b, 'h, 'c) channel_lib \<Rightarrow> noise_write \<Rightarrow> bool" where
  "sealed lib w \<longleftrightarrow> nw_binary w \<and> (\<exists>t plain t'. t_write (cl_snow lib) t plain = (Inr (nw_payload w), t'))"

definition clear_ok :: "('b, 'h, 'c) channel_lib \<Rightarrow> noise_write list res \<Rightarrow> bool" where
  "clear_ok lib r \<longleftrightarrow> (\<forall>ws. r = Inr ws \<longrightarrow> (\<forall>w \<in> set ws. sealed lib w \<or> handshake_write lib w))"

lemma clear_ok_simps [simp]: "clear_ok lib (Inl e)" "clear_ok lib (Inr [])"
  by (simp_all add: clear_ok_def)

lemma clear_write_ok: "clear_ok lib (res_bind (clear_write lib params) (\<lambda>w. Inr [w]))"
  by (auto simp: clear_ok_def clear_write_def handshake_write_def split: sum.splits)

lemma encode_ok:
  assumes "encode lib ch m = (Inr ws, ch')"
  obtains s s' body frames where "ch_session ch = Some s" "\<not> ch_failed ch" "cl_to_vec lib m = Inr body"
    "encrypt_message (cl_snow lib) s body True = (Inr frames, s')"
    "ws = map (\<lambda>f. \<lparr>nw_payload = f, nw_binary = True\<rparr>) frames" "ch' = ch\<lparr>ch_session := Some s'\<rparr>"
proof -
  have "ch_session ch \<noteq> None" using assms by (cases "ch_session ch") (simp_all add: encode_def)
  then obtain s where s: "ch_session ch = Some s" by blast
  have ok: "\<not> ch_failed ch" using assms s by (cases "ch_failed ch") (simp_all add: encode_def)
  obtain body where body: "cl_to_vec lib m = Inr body"
    using assms s ok by (cases "cl_to_vec lib m") (simp_all add: encode_def)
  obtain r s' where e: "encrypt_message (cl_snow lib) s body True = (r, s')" by fastforce
  then obtain frames where "r = Inr frames"
    using assms s ok body by (cases r) (simp_all add: encode_def)
  with assms s ok body e show thesis by (intro that [of s body frames s']) (simp_all add: encode_def)
qed

lemma encode_sealed: "encode lib ch m = (Inr ws, ch') \<Longrightarrow> w \<in> set ws \<Longrightarrow> sealed lib w"
  using encrypt_message_written by (elim encode_ok) (fastforce simp: sealed_def)

lemma start_message_ok: "clear_ok lib (fst (start_message lib offer pattern suite pin key psk ch))"
  by (simp add: start_message_def clear_write_ok Let_def split: sum.split prod.split)

lemma clear_ok_on_files [intro!]:
  "(\<And>v fs. clear_ok lib (fst (k v fs))) \<Longrightarrow> clear_ok lib (fst (on_files ch r k))"
  by (simp add: on_files_def split: prod.split sum.split)

lemma clear_ok_checked [intro!]:
  "(\<And>v. clear_ok lib (fst (k v))) \<Longrightarrow> clear_ok lib (fst (checked ch fs r k))"
  by (simp add: checked_def split: sum.split)

lemma start_ok: "clear_ok lib (fst (start lib h offer params ch fs))"
proof -
  have "clear_ok lib (fst (case start_message lib offer pattern suite pin key psk c of (r, ch) \<Rightarrow> (r, ch, fs)))"
    for pattern suite pin key psk c fs
    using start_message_ok [of lib offer pattern suite pin key psk c] by (simp add: split_def)
  then show ?thesis unfolding start_def Let_def by auto
qed

lemma last_message_ok: "clear_ok lib (fst (last_message lib hs))"
  by (simp add: last_message_def clear_write_ok split: sum.split prod.split)

lemma accept_session_ok:
  assumes "clear_ok lib (Inr writes)"
  shows "clear_ok lib (fst (accept_session lib h writes session ch fs))"
proof -
  have "clear_ok lib (res_bind (fst (encode lib c m)) (\<lambda>ws. Inr (writes @ ws)))" for c m
    using assms encode_sealed [of lib c m]
    by (cases "encode lib c m"; cases "fst (encode lib c m)") (auto simp: clear_ok_def)
  then show ?thesis unfolding accept_session_def Let_def by (auto simp: split_def)
qed

lemma continue_handshake_ok: "clear_ok lib (fst (continue_handshake lib h params ch fs))"
proof -
  have "clear_ok lib (Inr ws)" if "last_message lib hs = (Inr ws, hs')" for hs ws hs'
    using last_message_ok [of lib hs] that by simp
  then show ?thesis
    unfolding continue_handshake_def
    by (auto simp: reject_handshake_def accept_session_ok Let_def split: sum.split prod.split)
qed

lemma receive_clear_ok: "clear_ok lib (map_sum id snd (fst (receive_clear lib h message ch fs)))"
proof -
  have "clear_ok lib (map_sum id snd (res_bind r (\<lambda>ws. Inr (None :: hive_message option, ws))))" if "clear_ok lib r" for r
    using that by (cases r) simp_all
  moreover have "clear_ok lib (map_sum id snd (res_bind r (\<lambda>_. Inr (None :: hive_message option, []))))" for r :: "unit res"
    by (cases r) simp_all
  ultimately show ?thesis
    using start_ok [of lib h "payload message" _ ch fs] continue_handshake_ok [of lib h _ ch fs]
    by (simp add: receive_clear_def split_def split: option.split)
qed

lemma message_under_session:
  assumes r: "receive lib h d b ch fs = (Inr (Some m, ws), ch', fs')"
  shows "ready ch \<and> b \<and> ws = [] \<and> fs' = fs
    \<and> (\<exists>s s' body j. ch_session ch = Some s \<and> decrypt_frame (cl_snow lib) s d = (Inr (Message body j), s')
         \<and> ch_session ch' = Some s')"
proof -
  have clear: "fst (receive_clear lib h message ch fs) \<noteq> Inr (Some m, ws)" for message
    by (auto simp: receive_clear_def res_bind_eq_Inr split: prod.splits option.splits)
  obtain s where s: "ch_session ch = Some s"
    using r clear
    by (cases "ch_session ch")
      (auto simp: receive_def receive_inner_def split: if_splits prod.splits sum.splits,
       metis fst_conv)
  have "\<not> ch_failed ch" using r by (auto simp: receive_def)
  then have "ready ch" using s by (simp add: ready_def)
  moreover have x: "receive_session lib d b s ch = (Inr (Some m), ch') \<and> ws = [] \<and> fs' = fs"
    using r s
    by (auto simp: receive_def receive_inner_def res_bind_eq_Inr split: if_splits prod.splits sum.splits)
  then have "b" by (auto simp: receive_session_def split: if_splits)
  moreover have "\<exists>s s' body j. ch_session ch = Some s \<and> decrypt_frame (cl_snow lib) s d = (Inr (Message body j), s')
      \<and> ch_session ch' = Some s'"
    using x s
    by (auto simp: receive_session_def Let_def res_bind_eq_Inr
        split: if_splits prod.splits sum.splits noise_frame.splits)
  ultimately show ?thesis using x by blast
qed

lemma received_writes:
  assumes r: "receive lib h d b ch fs = (Inr (m, ws), ch', fs')" and w: "w \<in> set ws"
  shows "sealed lib w \<or> handshake_write lib w"
proof -
  have "\<exists>message. receive_clear lib h message ch fs = (Inr (m, ws), ch', fs')"
    using r w
    by (auto simp: receive_def receive_inner_def res_bind_eq_Inr
        split: if_splits prod.splits sum.splits option.splits)
  then obtain message where "receive_clear lib h message ch fs = (Inr (m, ws), ch', fs')" by blast
  with receive_clear_ok [of lib h message ch fs] have "clear_ok lib (Inr ws)" by simp
  with w show ?thesis unfolding clear_ok_def by blast
qed

text \<open>
  C12: nothing of the application crosses in the clear. A message is handed up only when there was
  a session and the frame was ciphertext that decrypted under it, and such a step writes nothing
  and leaves the files alone; what a step writes is a handshake message or bytes that a session's cipher wrote; and a
  message is encoded only under a session that has not failed: the frames that go out are what its encryption under
  that session gives, each of them something the session's cipher wrote.
\<close>

theorem nothing_in_the_clear:
  "(\<forall>m ws ch' fs'. receive lib h d b ch fs = (Inr (Some m, ws), ch', fs') \<longrightarrow>
      ready ch \<and> b \<and> ws = [] \<and> fs' = fs
      \<and> (\<exists>s s' body j. ch_session ch = Some s \<and> decrypt_frame (cl_snow lib) s d = (Inr (Message body j), s')
           \<and> ch_session ch' = Some s'))
   \<and> (\<forall>m ws ch' fs' w. receive lib h d b ch fs = (Inr (m, ws), ch', fs') \<longrightarrow> w \<in> set ws \<longrightarrow>
      sealed lib w \<or> handshake_write lib w)
   \<and> (\<forall>m ws ch'. encode lib ch m = (Inr ws, ch') \<longrightarrow>
      ready ch \<and> list_all (sealed lib) ws
      \<and> (\<exists>s s' body. ch_session ch = Some s \<and> cl_to_vec lib m = Inr body
           \<and> encrypt_message (cl_snow lib) s body True = (Inr (map nw_payload ws), s')
           \<and> ch_session ch' = Some s'))"
proof (intro conjI allI impI)
  fix m ws ch'
  assume e: "encode lib ch m = (Inr ws, ch')"
  then show "ready ch" by (rule encode_ok) (simp add: ready_def)
  show "list_all (sealed lib) ws" using encode_sealed [OF e] by (simp add: list_all_iff)
  show "\<exists>s s' body. ch_session ch = Some s \<and> cl_to_vec lib m = Inr body
      \<and> encrypt_message (cl_snow lib) s body True = (Inr (map nw_payload ws), s') \<and> ch_session ch' = Some s'"
    using e by (rule encode_ok) (auto simp: comp_def)
qed ((drule message_under_session, simp)+, erule (1) received_writes)

theorem nothing_in_the_clear_witness:
  "\<exists>m ch' w. receive chan_lib calm_host [1, 0, 98] True sample_open chan_files
        = (Inr (Some m, []), ch', chan_files) \<and> ready sample_open
      \<and> fst (encode chan_lib sample_open m) = Inr [w] \<and> sealed chan_lib w"
proof -
  let ?m = "plain_message ''b'' [] None []"
  have "\<exists>ch'. receive chan_lib calm_host [1, 0, 98] True sample_open chan_files = (Inr (Some ?m, []), ch', chan_files)"
    by (simp add: receive_def receive_inner_def receive_session_def decrypt_frame_def receive_plain_def
        frame_markers sample_open_def sample_negotiating_def sample_greeted_def sample_start_def channel_new_def
        chan_lib_def chan_snow_def counting_snow_def counting_cipher_def chars_of_def char_of_def bit_iff_odd)
  then obtain ch' where r: "receive chan_lib calm_host [1, 0, 98] True sample_open chan_files = (Inr (Some ?m, []), ch', chan_files)" ..
  obtain w ch2 where e: "encode chan_lib sample_open ?m = (Inr [w], ch2)"
    by (simp add: encode_def encrypt_message_def encrypt_one_def NOISE_CHUNK_SIZE_def sample_open_def
        sample_negotiating_def sample_greeted_def sample_start_def channel_new_def
        chan_lib_def chan_snow_def counting_snow_def counting_cipher_def plain_message_def bytes_of_def)
  have "ready sample_open \<and> list_all (sealed chan_lib) [w]"
    using nothing_in_the_clear [where lib = chan_lib and h = calm_host and d = "[1, 0, 98]" and b = True
        and ch = sample_open and fs = chan_files] r e by blast
  with r e show ?thesis by auto
qed

section \<open>The pin\<close>

text \<open>A change of the files that leaves every pin there is.\<close>

definition keeps_pins :: "store_lib \<Rightarrow> files \<Rightarrow> files \<Rightarrow> bool" where
  "keeps_pins lib fs fs' \<longleftrightarrow> (\<forall>dir n w. trusts lib dir fs n = Some w \<longrightarrow> trusts lib dir fs' n = Some w)"

lemma keeps_pins_refl [simp]: "keeps_pins lib fs fs"
  by (simp add: keeps_pins_def)

lemma keeps_pins_trans: "keeps_pins lib fs fs' \<Longrightarrow> keeps_pins lib fs' fs'' \<Longrightarrow> keeps_pins lib fs fs''"
  by (simp add: keeps_pins_def)

lemma keeps_pins_ops:
  assumes "store_laws lib hex"
  shows "keeps_pins lib fs (snd (load_noise_pin lib h d n fs))"
    and "keeps_pins lib fs (snd (pin_hub_key lib h d n k fs))"
    and "keeps_pins lib fs (snd (load_or_create_noise_key hex h d fs))"
    and "keeps_pins lib fs (snd (load_cached_psk lib hex h d n fs))"
    and "keeps_pins lib fs (snd (save_cached_psk lib hex h d n psk fs))"
    and "keeps_pins lib fs (snd (forget_cached_psk lib h d n fs))"
    and "keeps_pins lib fs (snd (adopt_read lib hex h d n fs))"
    and "keeps_pins lib fs (snd (adopt_write lib hex h d key pins fs))"
proof -
  have "keeps_pins lib fs (store_step lib hex o1 fs)" if "\<And>dir n. \<not> forgets dir n o1" for o1
    using store_step_keeps_pin [OF assms] that by (simp add: keeps_pins_def)
  from this [of "Load_Pin h d n"] this [of "Pin_Hub h d n k"] this [of "Load_Key h d"]
    this [of "Load_Psk h d n"] this [of "Save_Psk h d n psk"] this [of "Forget_Psk h d n"]
    this [of "Adopt_Legacy h d n"] this [of "Adopt_Target h d key pins"]
  show "keeps_pins lib fs (snd (load_noise_pin lib h d n fs))"
    "keeps_pins lib fs (snd (pin_hub_key lib h d n k fs))"
    "keeps_pins lib fs (snd (load_or_create_noise_key hex h d fs))"
    "keeps_pins lib fs (snd (load_cached_psk lib hex h d n fs))"
    "keeps_pins lib fs (snd (save_cached_psk lib hex h d n psk fs))"
    "keeps_pins lib fs (snd (forget_cached_psk lib h d n fs))"
    "keeps_pins lib fs (snd (adopt_read lib hex h d n fs))"
    "keeps_pins lib fs (snd (adopt_write lib hex h d key pins fs))"
    by (simp_all add: forgets_def)
qed

lemma keeps_pins_adopt:
  assumes "store_laws lib hex"
  shows "keeps_pins lib fs (snd (adopt_legacy_key lib hex h target legacy n fs))"
proof -
  obtain found fs1 where a: "adopt_read lib hex h legacy n fs = (found, fs1)" by fastforce
  have 1: "keeps_pins lib fs fs1" using keeps_pins_ops(7) [OF assms, of fs h legacy n] a by simp
  have 2: "keeps_pins lib fs (snd (adopt_write lib hex h target k ps fs1))" for k ps
    by (rule keeps_pins_trans [OF 1 keeps_pins_ops(8) [OF assms]])
  show ?thesis using 1 2 by (auto simp: adopt_legacy_key_def a split: option.split)
qed

text \<open>
  What a step of a channel without a session does: it keeps the pins, the node and the folder, and
  it ends without a session or with one whose hub key is the pinned one.
\<close>

definition pinned_session :: "('b, 'h, 'c) channel_lib \<Rightarrow> ('h, 'c) channel \<Rightarrow> files \<Rightarrow> bool" where
  "pinned_session lib ch fs \<longleftrightarrow>
     (\<forall>s. ch_session ch = Some s \<longrightarrow>
        (\<exists>key w. s_remote_static_key s = Some key
           \<and> trusts (cl_store lib) (dir_of lib ch) fs (ch_node_id ch) = Some w
           \<and> eq_ignore_ascii_case w key))"

definition sound_step ::
    "('b, 'h, 'c) channel_lib \<Rightarrow> ('h, 'c) channel \<Rightarrow> files \<Rightarrow> ('h, 'c) channel \<times> files \<Rightarrow> bool" where
  "sound_step lib ch fs after \<longleftrightarrow>
     keeps_pins (cl_store lib) fs (snd after) \<and> ch_state_dir (fst after) = ch_state_dir ch
     \<and> pinned_session lib (fst after) (snd after)"

lemma sound_step_on_files:
  assumes "keeps_pins (cl_store lib) fs (snd r)" and "ch_state_dir c = ch_state_dir ch"
    and "ch_session c = None"
    and "\<And>v fs'. r = (Inr v, fs') \<Longrightarrow> keeps_pins (cl_store lib) fs fs' \<Longrightarrow> sound_step lib ch fs (snd (k v fs'))"
  shows "sound_step lib ch fs (snd (on_files c r k))"
proof -
  obtain x fs' where r: "r = (x, fs')" by (cases r)
  show ?thesis
    using assms r by (cases x) (simp_all add: on_files_def sound_step_def pinned_session_def)
qed

lemma sound_step_checked:
  assumes "keeps_pins (cl_store lib) fs fs'" and "ch_state_dir c = ch_state_dir ch"
    and "ch_session c = None" and "\<And>v. r = Inr v \<Longrightarrow> sound_step lib ch fs (snd (k v))"
  shows "sound_step lib ch fs (snd (checked c fs' r k))"
  using assms by (cases r) (simp_all add: checked_def sound_step_def pinned_session_def)

lemma sound_step_none:
  "keeps_pins (cl_store lib) fs fs' \<Longrightarrow> ch_state_dir c = ch_state_dir ch \<Longrightarrow> ch_session c = None \<Longrightarrow>
   sound_step lib ch fs (c, fs')"
  by (simp add: sound_step_def pinned_session_def)

lemma start_message_fields:
  "start_message lib offer pattern suite pin key psk ch = (r, ch') \<Longrightarrow>
   ch_state_dir ch' = ch_state_dir ch \<and> ch_session ch' = ch_session ch \<and> ch_node_id ch' = ch_node_id ch"
  by (auto simp: start_message_def Let_def split: sum.splits prod.splits)

lemma start_sound:
  assumes laws: "store_laws (cl_store lib) (cl_hex lib)" and none: "ch_session ch = None"
  shows "sound_step lib ch fs (snd (start lib h offer params ch fs))"
proof -
  note keep = keeps_pins_ops [OF laws] keeps_pins_trans
  let ?ch = "ch\<lparr>ch_adopt_from := None\<rparr>"
  have adopt: "keeps_pins (cl_store lib) fs (snd (adopt_first lib h ch fs))"
    using keeps_pins_adopt [OF laws]
    by (auto simp: adopt_first_def split_def split: option.split)
  have psk: "keeps_pins (cl_store lib) fs' (snd (obtain_psk lib h c fs'))" for fs' c
  proof -
    let ?l = "load_cached_psk (cl_store lib) (cl_hex lib) h (dir_of lib c) (ch_node_id c) fs'"
    have 1: "keeps_pins (cl_store lib) fs' (snd ?l)" by (rule keep(4))
    have 2: "keeps_pins (cl_store lib) fs' (snd (save_cached_psk (cl_store lib) (cl_hex lib) h d n k (snd ?l)))" for d n k
      by (rule keep(9) [OF 1 keep(5)])
    obtain r g where l: "?l = (r, g)" by fastforce
    show ?thesis
      using 1 2 unfolding obtain_psk_def l by (auto split: sum.split option.split)
  qed
  have msg: "sound_step lib ch fs (snd (case start_message lib offer pattern suite pin key psk ?ch of
      (r, ch) \<Rightarrow> (r, ch, fs')))"
    if "keeps_pins (cl_store lib) fs fs'" for pattern suite pin key psk fs'
    using that none start_message_fields [of lib offer pattern suite pin key psk ?ch]
    by (cases "start_message lib offer pattern suite pin key psk ?ch") (auto intro: sound_step_none)
  show ?thesis
    unfolding start_def Let_def
    using none
    by (auto intro!: sound_step_none sound_step_on_files sound_step_checked msg adopt
        intro: keep(9) [OF _ keep(1)] keep(9) [OF _ keep(3)] keep(9) [OF _ psk])
qed

lemma accept_sound:
  assumes laws: "store_laws (cl_store lib) (cl_hex lib)" and none: "ch_session ch = None"
  shows "sound_step lib ch fs (snd (accept_session lib h writes session ch fs))"
proof -
  note keep = keeps_pins_ops [OF laws] keeps_pins_trans
  have enc: "sound_step lib ch fs (snd (case encode lib (ch\<lparr>ch_session := Some session\<rparr>) m of
       (r, c) \<Rightarrow> (res_bind r (\<lambda>ws. Inr (writes @ ws)), c, fs2)))"
    if remote: "s_remote_static_key session = Some remote"
      and p: "pin_hub_key (cl_store lib) h (dir_of lib ch) (ch_node_id ch) remote fs1 = (Inr (), fs2)"
      and k: "keeps_pins (cl_store lib) fs fs2" for remote m fs1 fs2
  proof -
    let ?n = "ch_node_id ch" and ?d = "dir_of lib ch"
    have w: "\<exists>w. trusts (cl_store lib) ?d fs2 ?n = Some w \<and> eq_ignore_ascii_case w remote"
      using pin_hub_key_same [OF laws p] by (cases "trusts (cl_store lib) ?d fs1 ?n") auto
    obtain r c where e: "encode lib (ch\<lparr>ch_session := Some session\<rparr>) m = (r, c)" by fastforce
    have c: "ch_state_dir c = ch_state_dir ch" "ch_node_id c = ?n" "session_key c = Some (Some remote)"
      using encode_key [OF e] remote by (auto simp: session_key_def)
    then have "dir_of lib c = ?d" by (simp add: dir_of_def)
    with w c k e show ?thesis by (auto simp: sound_step_def pinned_session_def session_key_def)
  qed
  have pin: "keeps_pins (cl_store lib) fs (snd (pin_hub_key (cl_store lib) h d n k fs1))"
    if "keeps_pins (cl_store lib) fs fs1" for d n k fs1
    by (rule keep(9) [OF that keep(2)])
  show ?thesis
    unfolding accept_session_def Let_def
    using none
    by (intro sound_step_checked sound_step_on_files)
      (auto intro!: sound_step_none sound_step_on_files pin enc intro: keep(1)
       simp: none split: sum.splits)
qed

lemma continue_sound:
  assumes laws: "store_laws (cl_store lib) (cl_hex lib)" and none: "ch_session ch = None"
  shows "sound_step lib ch fs (snd (continue_handshake lib h params ch fs))"
proof -
  have reject: "sound_step lib ch fs (snd (reject_handshake lib h ch fs))"
    using none keeps_pins_ops(6) [OF laws] by (auto simp: reject_handshake_def Let_def intro!: sound_step_none)
  have acc: "sound_step lib ch fs (snd (accept_session lib h writes session (ch\<lparr>ch_handshake := None\<rparr>) fs))"
    for writes session
    using accept_sound [OF laws, of "ch\<lparr>ch_handshake := None\<rparr>" fs h writes session] none
    by (simp add: sound_step_def)
  show ?thesis
    unfolding continue_handshake_def
    using none reject acc
    by (auto intro!: sound_step_none sound_step_checked split: prod.split sum.split)
qed

lemma receive_clear_sound:
  assumes "store_laws (cl_store lib) (cl_hex lib)" and "ch_session ch = None"
  shows "sound_step lib ch fs (snd (receive_clear lib h message ch fs))"
proof -
  have "sound_step lib ch fs (snd (receive_hello message ch), fs)"
    using assms(2) by (intro sound_step_none) (simp_all add: receive_hello_def Let_def)
  with start_sound [OF assms] continue_sound [OF assms] assms(2) show ?thesis
    by (auto simp: receive_clear_def split_def intro!: sound_step_none split: option.split)
qed

end
