(* ===== verification/Channel_Run.thy ===== *)
theory Channel_Run
  imports Channel_Safety
begin

text \<open>
  A \<open>NoiseChannel\<close> over its life: frames from whoever is at the other end, messages sent, and in
  between anything another process of this machine does with the trust store. A session only ever
  stands on the pinned hub key, a failure is final, and two channels in session deliver.
\<close>

section \<open>The life of a channel\<close>

datatype channel_event = Frame_In host bytes bool | Send_Out hive_message | Elsewhere store_op

definition channel_step ::
    "('b, 'h, 'c) channel_lib \<Rightarrow> channel_event \<Rightarrow> ('h, 'c) channel \<times> files \<Rightarrow> ('h, 'c) channel \<times> files" where
  "channel_step lib e s =
     (case e of
        Frame_In h d b \<Rightarrow> snd (receive lib h d b (fst s) (snd s))
      | Send_Out m \<Rightarrow> (snd (encode lib (fst s) m), snd s)
      | Elsewhere o1 \<Rightarrow> (fst s, store_step (cl_store lib) (cl_hex lib) o1 (snd s)))"

definition event_forgets :: "string \<Rightarrow> string \<Rightarrow> channel_event \<Rightarrow> bool" where
  "event_forgets dir n e = (case e of Elsewhere o1 \<Rightarrow> forgets dir n o1 | _ \<Rightarrow> False)"

text \<open>Under a session a step keeps its key, the node and the folder, and the files.\<close>

lemma receive_in_session:
  assumes "ch_session ch = Some s"
  shows "session_key (fst (snd (receive lib h d b ch fs))) = session_key ch"
    and "ch_node_id (fst (snd (receive lib h d b ch fs))) = ch_node_id ch"
    and "ch_state_dir (fst (snd (receive lib h d b ch fs))) = ch_state_dir ch"
    and "snd (snd (receive lib h d b ch fs)) = fs"
proof -
  obtain r c where rs: "receive_session lib d b s ch = (r, c)" by fastforce
  have c: "session_key c = session_key ch" "ch_node_id c = ch_node_id ch" "ch_state_dir c = ch_state_dir ch"
    using receive_session_key [OF rs assms] by simp_all
  have f: "session_key (c\<lparr>ch_failed := True\<rparr>) = session_key c" by (simp add: session_key_def)
  show "session_key (fst (snd (receive lib h d b ch fs))) = session_key ch"
    "ch_node_id (fst (snd (receive lib h d b ch fs))) = ch_node_id ch"
    "ch_state_dir (fst (snd (receive lib h d b ch fs))) = ch_state_dir ch"
    "snd (snd (receive lib h d b ch fs)) = fs"
    using assms rs c f by (cases r; simp add: receive_def receive_inner_def)+
qed

lemma receive_sound:
  assumes laws: "store_laws (cl_store lib) (cl_hex lib)" and none: "ch_session ch = None"
  shows "sound_step lib ch fs (snd (receive lib h d b ch fs))"
proof -
  have "dir_of lib (c\<lparr>ch_failed := True\<rparr>) = dir_of lib c" for c by (simp add: dir_of_def)
  then have fail: "sound_step lib ch fs (c\<lparr>ch_failed := True\<rparr>, g)" if "sound_step lib ch fs (c, g)" for c g
    using that by (simp add: sound_step_def pinned_session_def)
  have inner: "sound_step lib ch fs (snd (receive_inner lib h d b ch fs))"
    using none receive_clear_sound [OF laws none]
    by (auto simp: receive_inner_def intro: sound_step_none split: sum.split)
  obtain r c g where i: "receive_inner lib h d b ch fs = (r, c, g)" by (metis prod.exhaust)
  show ?thesis
    using inner fail none i by (cases r) (auto simp: receive_def intro: sound_step_none)
qed

lemma step_dir:
  assumes "store_laws (cl_store lib) (cl_hex lib)"
  shows "ch_state_dir (fst (channel_step lib e s)) = ch_state_dir (fst s)"
proof (cases e)
  case (Frame_In h d b)
  show ?thesis
  proof (cases "ch_session (fst s)")
    case None
    then show ?thesis
      using receive_sound [OF assms None, of "snd s" h d b] Frame_In
      by (simp add: channel_step_def sound_step_def)
  qed (simp add: channel_step_def Frame_In receive_in_session)
next
  case (Send_Out m)
  then show ?thesis
    using encode_key [OF surjective_pairing, of lib "fst s" m] by (simp add: channel_step_def)
qed (simp add: channel_step_def)

lemma step_session_key:
  assumes "ch_session (fst s) \<noteq> None"
  shows "session_key (fst (channel_step lib e s)) = session_key (fst s)"
    and "ch_node_id (fst (channel_step lib e s)) = ch_node_id (fst s)"
  using assms encode_key [OF surjective_pairing, of lib "fst s"]
  by (cases e; auto simp: channel_step_def receive_in_session)+

lemma session_key_none: "session_key ch = None \<longleftrightarrow> ch_session ch = None"
  by (simp add: session_key_def)

text \<open>The pin of a node, over the life of a channel, changes only when someone forgets it.\<close>

lemma channel_step_keeps:
  assumes laws: "store_laws (cl_store lib) (cl_hex lib)"
    and w: "trusts (cl_store lib) dir (snd s) n = Some w" and no: "\<not> event_forgets dir n e"
  shows "trusts (cl_store lib) dir (snd (channel_step lib e s)) n = Some w"
proof (cases e)
  case (Frame_In h d b)
  show ?thesis
  proof (cases "ch_session (fst s)")
    case None
    then show ?thesis
      using receive_sound [OF laws None, of "snd s" h d b] Frame_In w
      by (simp add: channel_step_def sound_step_def keeps_pins_def)
  qed (simp add: channel_step_def Frame_In receive_in_session w)
next
  case (Elsewhere o1)
  then show ?thesis
    using store_step_keeps_pin [OF laws w] no by (simp add: channel_step_def event_forgets_def)
qed (simp add: channel_step_def w)

interpretation channel_pin: sticky "channel_step lib" "\<lambda>s. trusts (cl_store lib) dir (snd s) n"
    "event_forgets dir n" "\<lambda>_. store_laws (cl_store lib) (cl_hex lib)" for lib dir n
  by unfold_locales (auto intro: channel_step_keeps)

lemma run_dir:
  assumes "store_laws (cl_store lib) (cl_hex lib)"
  shows "ch_state_dir (fst (run_steps (channel_step lib) es s)) = ch_state_dir (fst s)"
  by (induction es arbitrary: s) (simp_all add: step_dir [OF assms])

lemma run_session_key:
  "ch_session (fst s) \<noteq> None \<Longrightarrow>
   session_key (fst (run_steps (channel_step lib) es s)) = session_key (fst s)
   \<and> ch_node_id (fst (run_steps (channel_step lib) es s)) = ch_node_id (fst s)"
proof (induction es arbitrary: s)
  case (Cons e es)
  have "ch_session (fst (channel_step lib e s)) \<noteq> None"
    using step_session_key(1) [OF Cons.prems, of lib e] Cons.prems by (metis session_key_none)
  from Cons.IH [OF this] show ?case using step_session_key [OF Cons.prems, of lib e] by simp
qed simp

lemma step_pinned:
  assumes laws: "store_laws (cl_store lib) (cl_hex lib)"
    and pin: "pinned_session lib (fst s) (snd s)"
    and no: "ch_session (fst s) \<noteq> None \<Longrightarrow> \<not> event_forgets (dir_of lib (fst s)) (ch_node_id (fst s)) e"
  shows "pinned_session lib (fst (channel_step lib e s)) (snd (channel_step lib e s))"
proof (cases "ch_session (fst s)")
  case None
  have "ch_session (snd (encode lib (fst s) m)) = None" for m
    using encode_key [OF surjective_pairing, of lib "fst s" m] None by (metis session_key_none)
  then show ?thesis
    using receive_sound [OF laws None] None
    by (cases e) (simp_all add: channel_step_def sound_step_def pinned_session_def)
next
  case (Some x)
  then have s: "ch_session (fst s) \<noteq> None" by simp
  obtain key w where w: "s_remote_static_key x = Some key" "eq_ignore_ascii_case w key"
    "trusts (cl_store lib) (dir_of lib (fst s)) (snd s) (ch_node_id (fst s)) = Some w"
    using pin Some by (auto simp: pinned_session_def)
  have "dir_of lib (fst (channel_step lib e s)) = dir_of lib (fst s)"
    using step_dir [OF laws, of e s] by (simp add: dir_of_def)
  with channel_step_keeps [OF laws w(3) no [OF s]] step_session_key [OF s, of lib e] Some w(1,2)
  show ?thesis by (auto simp: pinned_session_def session_key_def)
qed

lemma run_pinned:
  assumes laws: "store_laws (cl_store lib) (cl_hex lib)"
  shows "pinned_session lib (fst s) (snd s) \<Longrightarrow>
   \<forall>e \<in> set es. \<not> event_forgets (dir_of lib (fst s))
       (ch_node_id (fst (run_steps (channel_step lib) es s))) e \<Longrightarrow>
   pinned_session lib (fst (run_steps (channel_step lib) es s)) (snd (run_steps (channel_step lib) es s))"
proof (induction es arbitrary: s)
  case (Cons e es)
  have "pinned_session lib (fst (channel_step lib e s)) (snd (channel_step lib e s))"
    using Cons.prems run_session_key [of s lib "e # es"] by (intro step_pinned [OF laws]) auto
  moreover have "dir_of lib (fst (channel_step lib e s)) = dir_of lib (fst s)"
    using step_dir [OF laws, of e s] by (simp add: dir_of_def)
  ultimately show ?case using Cons.IH [of "channel_step lib e s"] Cons.prems(2) by simp
qed simp

section \<open>The pin is enforced\<close>

text \<open>
  C11: whatever frames arrive, whatever is sent, and whatever other processes do with the store
  short of forgetting this hub's pin, a channel that is ready stands on a hub key that is the pinned
  one: the key it reports is the pin's, and a pin that was there before the channel was opened is still
  there, unchanged, and is the one it matches. A forced \<open>XX\<close> makes no difference to that.
\<close>

theorem pin_enforced:
  fixes lib :: "('b, 'h, 'c) channel_lib"
  assumes "store_laws (cl_store lib) (cl_hex lib)"
    and "run_steps (channel_step lib) es (adopting from_dir (channel_new idn state_dir fx), fs) = (ch, fs')"
    and "\<forall>e \<in> set es. \<not> event_forgets (dir_of lib ch) (ch_node_id ch) e" and "ready ch"
  shows "\<exists>key w. remote_key ch = Some key
     \<and> trusts (cl_store lib) (dir_of lib ch) fs' (ch_node_id ch) = Some w \<and> eq_ignore_ascii_case w key
     \<and> trusts (cl_store lib) (dir_of lib ch) fs (ch_node_id ch) \<in> {None, Some w}"
proof -
  let ?s = "(adopting from_dir (channel_new idn state_dir fx), fs) :: ('h, 'c) channel \<times> files"
  have new: "pinned_session lib (fst ?s) (snd ?s)"
    by (simp add: pinned_session_def adopting_def channel_new_def)
  have dir: "dir_of lib (fst ?s) = dir_of lib ch"
    using run_dir [OF assms(1), of es ?s] assms(2) by (simp add: dir_of_def)
  have "pinned_session lib ch fs'"
    using run_pinned [OF assms(1) new, of es] assms(2,3) dir by simp
  then obtain key w where w: "remote_key ch = Some key" "eq_ignore_ascii_case w key"
    "trusts (cl_store lib) (dir_of lib ch) fs' (ch_node_id ch) = Some w"
    using assms(4) by (auto simp: pinned_session_def ready_def remote_key_def)
  have "trusts (cl_store lib) (dir_of lib ch) fs' (ch_node_id ch) = Some w0"
    if "trusts (cl_store lib) (dir_of lib ch) fs (ch_node_id ch) = Some w0" for w0
    using channel_pin.slot_run [of lib "dir_of lib ch" ?s "ch_node_id ch" w0 es] assms that by simp
  with w(3) have "trusts (cl_store lib) (dir_of lib ch) fs (ch_node_id ch) \<in> {None, Some w}"
    by (cases "trusts (cl_store lib) (dir_of lib ch) fs (ch_node_id ch)") simp_all
  with w show ?thesis by (intro exI [of _ key] exI [of _ w]) simp
qed

lemma sample_run:
  "run_steps (channel_step chan_lib)
     [Frame_In calm_host [1] False, Frame_In calm_host [2] False, Frame_In calm_host [3] False]
     (adopting None (channel_new sample_identity None False), chan_files) = (sample_open, chan_files)"
proof -
  have "adopting None (channel_new sample_identity None False) = sample_start"
    by (simp add: adopting_def sample_start_def channel_new_def)
  moreover obtain f where "receive chan_lib calm_host [3] False sample_negotiating chan_files =
      (Inr (None, [sample_shake, \<lparr>nw_payload = f, nw_binary = True\<rparr>]), sample_open, chan_files)"
    using receive_sample_answer by blast
  ultimately show ?thesis
    by (simp add: channel_step_def receive_sample_hello receive_sample_offer)
qed

theorem pin_enforced_witness:
  "\<exists>key w. remote_key sample_open = Some key
     \<and> trusts sample_strings ''/c'' chan_files ''hub'' = Some w \<and> eq_ignore_ascii_case w key"
proof -
  have f: "ready sample_open" "dir_of chan_lib sample_open = ''/c''" "ch_node_id sample_open = ''hub''"
    "cl_store chan_lib = sample_strings" "cl_hex chan_lib = sample_hex"
    by (simp_all add: ready_def dir_of_def sample_open_def sample_negotiating_def sample_greeted_def
        sample_start_def channel_new_def chan_lib_def)
  show ?thesis
    using pin_enforced [of chan_lib, OF _ sample_run] sample_laws f by (auto simp: event_forgets_def)
qed

section \<open>A failure is final\<close>

lemma failed_step:
  assumes "ch_failed (fst s)"
  shows "ch_failed (fst (channel_step lib e s)) \<and> ch_session (fst (channel_step lib e s)) = ch_session (fst s)"
  using assms by (cases e) (simp_all add: channel_step_def receive_def encode_def split: option.split)

lemma failed_run:
  "ch_failed (fst s) \<Longrightarrow>
   ch_failed (fst (run_steps (channel_step lib) es s))
   \<and> ch_session (fst (run_steps (channel_step lib) es s)) = ch_session (fst s)"
  by (induction es arbitrary: s) (simp_all add: failed_step)

lemma failed_refuses:
  assumes "ch_failed ch"
  shows "receive lib h d b ch fs = (Inl (Connection ''Noise session failed; reconnect required''), ch, fs)"
    and "encode lib ch m = (Inl (Connection ''refusing to send before the v3 Noise session is established''), ch)"
  using assms by (simp_all add: receive_def encode_def split: option.split)

text \<open>
  A channel that refused a frame is over. Whatever comes after, it is not ready and reports no
  hub key, its cipher is never advanced, and every frame and every message is refused without a
  change to the channel or the files.
\<close>

theorem failed_is_final:
  assumes "receive lib h d b ch fs = (Inl e, ch1, fs1)"
    and "run_steps (channel_step lib) es (ch1, fs1) = (ch', fs')"
  shows "\<not> ready ch' \<and> remote_key ch' = None \<and> ch_session ch' = ch_session ch1
    \<and> (\<forall>h d b. receive lib h d b ch' fs' =
         (Inl (Connection ''Noise session failed; reconnect required''), ch', fs'))
    \<and> (\<forall>m. encode lib ch' m =
         (Inl (Connection ''refusing to send before the v3 Noise session is established''), ch'))"
proof -
  have "ch_failed ch1"
    using assms(1) by (auto simp: receive_def split: if_splits prod.splits sum.splits)
  with failed_run [of "(ch1, fs1)" lib es] assms(2)
  have "ch_failed ch'" "ch_session ch' = ch_session ch1" by simp_all
  then show ?thesis by (simp add: ready_def remote_key_def failed_refuses)
qed

theorem failed_is_final_witness:
  "\<exists>ch1. receive chan_lib calm_host [9] True sample_start chan_files
        = (Inl (Connection ''ciphertext arrived before Noise negotiation''), ch1, chan_files)
     \<and> \<not> ready (fst (run_steps (channel_step chan_lib) [Frame_In calm_host [1] False] (ch1, chan_files)))"
proof -
  have "\<exists>ch1. receive chan_lib calm_host [9] True sample_start chan_files
      = (Inl (Connection ''ciphertext arrived before Noise negotiation''), ch1, chan_files)"
    by (simp add: receive_def receive_inner_def sample_start_def channel_new_def)
  then obtain ch1 where r: "receive chan_lib calm_host [9] True sample_start chan_files
      = (Inl (Connection ''ciphertext arrived before Noise negotiation''), ch1, chan_files)" ..
  from failed_is_final [OF r surjective_pairing, of "[Frame_In calm_host [1] False]"] r
  show ?thesis by blast
qed

section \<open>Two channels in session deliver\<close>

text \<open>What a channel hands up of a frame; a message it can send.\<close>

definition receive_up ::
    "('b, 'h, 'c) channel_lib \<Rightarrow> host \<Rightarrow> ('h, 'c) channel \<times> files \<Rightarrow> noise_write
     \<Rightarrow> hive_message option res \<times> ('h, 'c) channel \<times> files" where
  "receive_up lib h u w =
     (case receive lib h (nw_payload w) (nw_binary w) (fst u) (snd u) of
        (r, ch, fs) \<Rightarrow> (res_bind r (\<lambda>(m, _). Inr m), (ch, fs)))"

definition sends :: "('b, 'h, 'c) channel_lib \<Rightarrow> ('p, 'q, 'd) channel_lib \<Rightarrow> hive_message \<Rightarrow> bool" where
  "sends la lb m \<longleftrightarrow>
     (\<exists>body. cl_to_vec la m = Inr body \<and> cl_from_slice lb body = Inr m
        \<and> length body \<le> NOISE_MAX_REASSEMBLY)"

definition body_of :: "('b, 'h, 'c) channel_lib \<Rightarrow> hive_message \<Rightarrow> bytes \<times> bool" where
  "body_of lib m = (case cl_to_vec lib m of Inl _ \<Rightarrow> [] | Inr body \<Rightarrow> body, True)"

definition in_session :: "('h, 'c) channel \<Rightarrow> 'c noise_session \<Rightarrow> bool" where
  "in_session ch s \<longleftrightarrow> ch_session ch = Some s \<and> \<not> ch_failed ch"

lemma recv_frame_cases:
  assumes "recv_frame c s d = (Inr m, s')"
  shows "decrypt_frame c s d = (Inr (case m of None \<Rightarrow> Partial | Some (body, j) \<Rightarrow> Message body j), s')"
  using assms by (auto simp: recv_frame_def split: prod.splits sum.splits noise_frame.splits)

interpretation channel_link: coded_link
    "\<lambda>s m. encrypt_message (cl_snow la) s (fst m) (snd m)" "recv_frame (cl_snow lb)"
    "linked_sessions (cl_snow la) (cl_snow lb) R" within_cap
    "encode la" "receive_up lb h" in_session "\<lambda>u. in_session (fst u)"
    "body_of la" "\<lambda>f. \<lparr>nw_payload = f, nw_binary = True\<rparr>" "sends la lb"
  for la :: "('b, 'h, 'c) channel_lib" and lb :: "('p, 'q, 'd) channel_lib" and R h
proof unfold_locales
  fix m assume "sends la lb m"
  then show "within_cap (body_of la m)" by (auto simp: sends_def body_of_def within_cap_def)
next
  fix t :: "('h, 'c) channel" and s m fs s'
  assume "in_session t s" "sends la lb m"
    "encrypt_message (cl_snow la) s (fst (body_of la m)) (snd (body_of la m)) = (Inr fs, s')"
  then show "\<exists>t'. encode la t m = (Inr (map (\<lambda>f. \<lparr>nw_payload = f, nw_binary = True\<rparr>) fs), t') \<and> in_session t' s'"
    by (auto simp: in_session_def sends_def body_of_def encode_def)
next
  fix u :: "('q, 'd) channel \<times> files" and r f r'
  assume "in_session (fst u) r" "recv_frame (cl_snow lb) r f = (Inr None, r')"
  then show "\<exists>u'. receive_up lb h u \<lparr>nw_payload = f, nw_binary = True\<rparr> = (Inr None, u') \<and> in_session (fst u') r'"
    by (auto simp: in_session_def receive_up_def receive_def receive_inner_def receive_session_def
        dest!: recv_frame_cases)
next
  fix u :: "('q, 'd) channel \<times> files" and r m f r'
  assume "in_session (fst u) r" "sends la lb m" "recv_frame (cl_snow lb) r f = (Inr (Some (body_of la m)), r')"
  then show "\<exists>u'. receive_up lb h u \<lparr>nw_payload = f, nw_binary = True\<rparr> = (Inr (Some m), u') \<and> in_session (fst u') r'"
    by (auto simp: in_session_def receive_up_def receive_def receive_inner_def receive_session_def
        sends_def body_of_def dest!: recv_frame_cases)
qed

text \<open>
  C13: between two channels in session, whatever one sends the other hands up: every message, whole,
  once and in order, whatever its size up to the cap, and both are still in session after.
\<close>

theorem channel_delivers:
  assumes "in_sync (cl_snow la) (cl_snow lb) R" and "R (s_transport s) (s_transport r)"
    and "s_reassembly r = None" and "in_session ch s" and "in_session peer r"
    and "\<forall>m \<in> set ms. sends la lb m"
  shows "\<exists>ws ch' peer' fs'.
      send_all (encode la) ch ms = (Inr ws, ch')
      \<and> recv_all (receive_up lb h) (peer, fs) ws = (Inr ms, (peer', fs')) \<and> ready ch' \<and> ready peer'"
proof -
  have "over_link in_session (\<lambda>u. in_session (fst u)) (linked_sessions (cl_snow la) (cl_snow lb) R) ch (peer, fs)"
    using assms(1-5) by (auto simp: over_link_def linked_sessions_def)
  from channel_link.up.deliver_all [OF this assms(6), of h] show ?thesis
    by (auto simp: over_link_def in_session_def ready_def)
qed

lemma chan_sync: "in_sync (cl_snow chan_lib) (cl_snow chan_lib) (=)"
  by (simp add: in_sync_def chan_lib_def chan_snow_def counting_snow_def counting_cipher_def)

theorem channel_delivers_witness:
  "\<exists>ws peer' fs'. fst (send_all (encode chan_lib) sample_open
       [plain_message ''bus'' [] None [], plain_message ''ping'' [] None []]) = Inr ws
     \<and> recv_all (receive_up chan_lib calm_host) (sample_open, chan_files) ws
       = (Inr [plain_message ''bus'' [] None [], plain_message ''ping'' [] None []], (peer', fs'))"
proof -
  let ?s = "\<lparr>s_transport = 1, s_reassembly = None, s_remote_static_key = Some sample_key\<rparr>"
  have s: "in_session sample_open ?s"
    by (simp add: in_session_def sample_open_def sample_negotiating_def sample_greeted_def sample_start_def channel_new_def)
  have m: "sends chan_lib chan_lib (plain_message ''bus'' [] None [])"
    "sends chan_lib chan_lib (plain_message ''ping'' [] None [])"
    by (simp_all add: sends_def chan_lib_def plain_message_def bytes_of_def chars_of_def NOISE_MAX_REASSEMBLY_def
        char_of_def bit_iff_odd)
  show ?thesis
    using channel_delivers [OF chan_sync _ _ s s, of "[plain_message ''bus'' [] None [], plain_message ''ping'' [] None []]"
        calm_host chan_files] m by fastforce
qed

end
