(* ===== verification/Events.thy ===== *)
theory Events
  imports Wire
begin

text \<open>
  \<open>src/src/events.rs\<close> and the names of \<open>src/src/constants.rs\<close>: what a hub sends and what a client
  says beside its question. A context carries the session, the request id and the routing of a
  message; the lemmas say which of it a client's own words decide, what a reply turns round and
  which reply belongs to which request.
\<close>

section \<open>The names\<close>

definition EVENT_RECOGNIZER_LOOP_UTTERANCE :: string where
  "EVENT_RECOGNIZER_LOOP_UTTERANCE = ''recognizer_loop:utterance''"
definition EVENT_UTTERANCE_HANDLED :: string where
  "EVENT_UTTERANCE_HANDLED = ''ovos.utterance.handled''"
definition EVENT_AUDIO_QUEUE :: string where "EVENT_AUDIO_QUEUE = ''mycroft.audio.queue''"
definition EVENT_SPEAK :: string where "EVENT_SPEAK = ''speak''"
definition EVENT_OVOS_UTTERANCE_SPEAK :: string where
  "EVENT_OVOS_UTTERANCE_SPEAK = ''ovos.utterance.speak''"
definition EVENT_INTENT_FAILURE :: string where "EVENT_INTENT_FAILURE = ''complete_intent_failure''"
definition EVENT_INTENT_UNMATCHED :: string where "EVENT_INTENT_UNMATCHED = ''ovos.intent.unmatched''"
definition EVENT_POLICY_DENIED :: string where "EVENT_POLICY_DENIED = ''hive.policy.denied''"
definition EVENT_QUERY_TIMEOUT :: string where "EVENT_QUERY_TIMEOUT = ''hive.query.timeout''"
definition THALOVANT_CLAIMED_META_KEY :: string where
  "THALOVANT_CLAIMED_META_KEY = ''thalovant_claimed''"

definition MAX_AUDIO_CLIP_BYTES :: nat where "MAX_AUDIO_CLIP_BYTES = 4 * 1024 * 1024"
definition MAX_REPLY_MEDIA_BYTES :: nat where "MAX_REPLY_MEDIA_BYTES = 16 * 1024 * 1024"

lemmas event_names =
  EVENT_RECOGNIZER_LOOP_UTTERANCE_def EVENT_UTTERANCE_HANDLED_def EVENT_AUDIO_QUEUE_def EVENT_SPEAK_def
  EVENT_OVOS_UTTERANCE_SPEAK_def EVENT_INTENT_FAILURE_def EVENT_INTENT_UNMATCHED_def
  EVENT_POLICY_DENIED_def EVENT_QUERY_TIMEOUT_def

definition is_failure_event :: "string \<Rightarrow> bool" where
  "is_failure_event name \<longleftrightarrow>
     name \<in> {EVENT_INTENT_FAILURE, EVENT_INTENT_UNMATCHED, EVENT_POLICY_DENIED, EVENT_QUERY_TIMEOUT}"

section \<open>Identifiers in a context\<close>

definition session_from_context :: "jmap \<Rightarrow> jmap" where
  "session_from_context c = (case get_object c ''session'' of None \<Rightarrow> [] | Some m \<Rightarrow> m)"

definition request_id_from_map :: "jmap \<Rightarrow> string option" where
  "request_id_from_map m =
     or_else (get_str m ''request_id'')
       (or_else (get_str m ''thalovant_request_id'') (get_str m ''correlation_id''))"

definition request_id_from_context :: "jmap \<Rightarrow> string option" where
  "request_id_from_context c = or_else (request_id_from_map c) (request_id_from_map (session_from_context c))"

definition session_id_from_context :: "jmap \<Rightarrow> string option" where
  "session_id_from_context c =
     or_else (get_str (session_from_context c) ''session_id'') (get_str c ''session_id'')"

section \<open>An event\<close>

record event =
  e_name :: string
  e_data :: jmap
  e_context :: jmap
  e_raw :: "json option"

definition utterances :: "event \<Rightarrow> string list" where
  "utterances e =
     (case map_of (e_data e) ''utterances'' of
        Some (JString v) \<Rightarrow> [v]
      | Some (JArray vs) \<Rightarrow> List.map_filter as_str vs
      | _ \<Rightarrow> (case get_str (e_data e) ''utterance'' of None \<Rightarrow> [] | Some v \<Rightarrow> [v]))"

definition event_text :: "event \<Rightarrow> string" where
  "event_text e =
     (case get_str (e_data e) ''utterance'' of
        Some v \<Rightarrow> v
      | None \<Rightarrow> (case get_str (e_data e) ''text'' of
                   Some v \<Rightarrow> v
                 | None \<Rightarrow> (case utterances e of [] \<Rightarrow> [] | v # _ \<Rightarrow> v)))"

definition event_session_id :: "event \<Rightarrow> string option" where
  "event_session_id e = session_id_from_context (e_context e)"

definition event_request_id :: "event \<Rightarrow> string option" where
  "event_request_id e = or_else (request_id_from_context (e_context e)) (request_id_from_map (e_data e))"

definition event_from_bus_payload :: "jmap \<Rightarrow> json option \<Rightarrow> event" where
  "event_from_bus_payload p raw =
     \<lparr>e_name = (case get_str p ''type'' of None \<Rightarrow> EVENT_RECOGNIZER_LOOP_UTTERANCE | Some n \<Rightarrow> n),
      e_data = (case get_object p ''data'' of None \<Rightarrow> [] | Some m \<Rightarrow> m),
      e_context = (case get_object p ''context'' of None \<Rightarrow> [] | Some m \<Rightarrow> m), e_raw = raw\<rparr>"

text \<open>The first language stamp that says something; \<open>show_json\<close> is the printer of a JSON value.\<close>

definition event_lang :: "(json \<Rightarrow> string) \<Rightarrow> event \<Rightarrow> string option" where
  "event_lang show_json e =
     map_option (\<lambda>v. case as_str v of Some s \<Rightarrow> s | None \<Rightarrow> show_json v)
       (find (\<lambda>v. v \<noteq> JNull \<and> v \<noteq> JString [])
          (List.map_filter (\<lambda>x. x)
             [map_of (e_data e) ''lang'', map_of (e_context e) ''lang'',
              Option.bind (get_object (e_context e) ''session'') (\<lambda>s. map_of s ''lang'')]))"

section \<open>Contexts\<close>

text \<open>
  A key of the extra context replaces the base's, except that two sessions are merged. The extra
  context is an ordered map, and is gone through in its order.
\<close>

definition merge_entry :: "string \<times> json \<Rightarrow> jmap \<Rightarrow> jmap" where
  "merge_entry kv merged =
     (case (fst kv = ''session'', as_object (snd kv)) of
        (True, Some next_session) \<Rightarrow>
          bt_insert ''session''
            (JObject (fold (\<lambda>(k, v). bt_insert k v) next_session (session_from_context merged))) merged
      | _ \<Rightarrow> bt_insert (fst kv) (snd kv) merged)"

definition merge_context :: "jmap option \<Rightarrow> jmap option \<Rightarrow> jmap" where
  "merge_context base extra =
     (let merged = (case base of None \<Rightarrow> [] | Some b \<Rightarrow> b)
      in case extra of None \<Rightarrow> merged | Some x \<Rightarrow> fold merge_entry x merged)"

definition not_null :: "json option \<Rightarrow> json option" where
  "not_null v = (case v of Some JNull \<Rightarrow> None | _ \<Rightarrow> v)"

definition first_peer :: "json \<Rightarrow> json" where
  "first_peer v = (case v of JArray (p # _) \<Rightarrow> p | _ \<Rightarrow> v)"

definition reply_context :: "jmap \<Rightarrow> jmap" where
  "reply_context c =
     (let source = not_null (map_of c ''source''); destination = not_null (map_of c ''destination'');
          swapped = (case destination of None \<Rightarrow> c | Some d \<Rightarrow> bt_insert ''source'' (first_peer d) c)
      in case source of
           Some s \<Rightarrow> bt_insert ''destination'' s swapped
         | None \<Rightarrow> if destination \<noteq> None then bt_remove ''destination'' swapped else swapped)"

definition CONVERSATION_SESSION_FIELDS :: "string list" where
  "CONVERSATION_SESSION_FIELDS =
     [''converse_handlers'', ''active_handlers'', ''active_skills'', ''context'', ''utterance_states'',
      ''response_mode'']"

definition is_carried :: "json \<Rightarrow> bool" where
  "is_carried v =
     (case v of JNull \<Rightarrow> False | JArray items \<Rightarrow> items \<noteq> [] | JObject m \<Rightarrow> m \<noteq> [] | _ \<Rightarrow> True)"

definition carry_field :: "jmap \<Rightarrow> string \<Rightarrow> jmap \<Rightarrow> jmap" where
  "carry_field previous field carried =
     (if map_of carried field \<noteq> None then carried
      else case map_of previous field of
             None \<Rightarrow> carried
           | Some v \<Rightarrow> if is_carried v then bt_insert field v carried else carried)"

definition carry_conversation :: "jmap option \<Rightarrow> jmap \<Rightarrow> jmap" where
  "carry_conversation previous session =
     (case previous of
        None \<Rightarrow> session
      | Some p \<Rightarrow> fold (carry_field p) CONVERSATION_SESSION_FIELDS session)"

text \<open>An argument that is there and not empty; \<open>entry(..).or_insert\<close>.\<close>

definition given :: "string option \<Rightarrow> string option" where
  "given x = (case x of Some v \<Rightarrow> if v = [] then None else Some v | None \<Rightarrow> None)"

definition set_default :: "string \<Rightarrow> json \<Rightarrow> jmap \<Rightarrow> jmap" where
  "set_default k v m = (if map_of m k \<noteq> None then m else bt_insert k v m)"

definition when_given :: "string option \<Rightarrow> (string \<Rightarrow> 'a \<Rightarrow> 'a) \<Rightarrow> 'a \<Rightarrow> 'a" where
  "when_given x f a = (case given x of None \<Rightarrow> a | Some v \<Rightarrow> f v a)"

definition correlated_session ::
    "jmap \<Rightarrow> string option \<Rightarrow> string option \<Rightarrow> string option \<Rightarrow> string option \<Rightarrow> jmap" where
  "correlated_session session session_id site lang request_id =
     when_given request_id (\<lambda>v. bt_insert ''request_id'' (JString v))
       (when_given lang (\<lambda>v. set_default ''lang'' (JString v))
          (when_given site (\<lambda>v. set_default ''site_id'' (JString v))
             (when_given session_id (\<lambda>v. bt_insert ''session_id'' (JString v)) session)))"

definition context_with_correlation ::
    "jmap option \<Rightarrow> string option \<Rightarrow> string option \<Rightarrow> string option \<Rightarrow> string option \<Rightarrow> jmap" where
  "context_with_correlation context session_id site lang request_id =
     (let new = merge_context context None;
          session = correlated_session (session_from_context new) session_id site lang request_id;
          new = when_given request_id
                  (\<lambda>v m. bt_insert ''thalovant_request_id'' (JString v) (bt_insert ''request_id'' (JString v) m)) new
      in if session = [] then new else bt_insert ''session'' (JObject session) new)"

definition event_matches_context :: "event \<Rightarrow> jmap option \<Rightarrow> bool" where
  "event_matches_context e expected =
     (case expected of
        None \<Rightarrow> True
      | Some x \<Rightarrow>
          (case (request_id_from_context x, event_request_id e) of
             (Some a, Some b) \<Rightarrow> a = b
           | _ \<Rightarrow> (case (session_id_from_context x, event_session_id e) of
                     (Some a, Some b) \<Rightarrow> a = b
                   | _ \<Rightarrow> True)))"

definition utterance_payload :: "string \<Rightarrow> string \<Rightarrow> jmap" where
  "utterance_payload text lang =
     bt_insert ''lang'' (JString lang) (bt_insert ''utterances'' (JArray [JString text]) [])"

section \<open>Replies\<close>

record reply =
  r_dropped_media :: nat
  r_text :: string
  r_utterances :: "string list"
  r_handled :: bool
  r_ok :: bool
  r_session_id :: "string option"
  r_request_id :: "string option"
  r_events :: "event list"
  r_failure_event :: "event option"

definition is_audio :: "event \<Rightarrow> bool" where
  "is_audio e \<longleftrightarrow> e_name e = EVENT_AUDIO_QUEUE"

definition has_audio :: "event \<Rightarrow> bool" where
  "has_audio e \<longleftrightarrow>
     is_audio e \<and> (case get_str (e_data e) ''binary_data'' of None \<Rightarrow> False | Some s \<Rightarrow> s \<noteq> [])"

definition reply_lang :: "(json \<Rightarrow> string) \<Rightarrow> reply \<Rightarrow> string option" where
  "reply_lang show_json r =
     (case List.map_filter (event_lang show_json) (r_events r) of [] \<Rightarrow> None | l # _ \<Rightarrow> Some l)"

definition reply_has_audio :: "reply \<Rightarrow> bool" where
  "reply_has_audio r \<longleftrightarrow> list_ex is_audio (r_events r)"

definition media_events :: "reply \<Rightarrow> event list" where
  "media_events r =
     filter (\<lambda>e. is_audio e \<or> e_name e = EVENT_SPEAK \<or> e_name e = EVENT_OVOS_UTTERANCE_SPEAK) (r_events r)"

text \<open>Stamps of the events' contexts, each once, in the order first seen.\<close>

definition context_identifiers :: "string \<Rightarrow> reply \<Rightarrow> string list" where
  "context_identifiers key r =
     fold (\<lambda>e result.
        case get_str (e_context e) key of
          None \<Rightarrow> result
        | Some v \<Rightarrow> if v \<noteq> [] \<and> v \<notin> set result then result @ [v] else result) (r_events r) []"

definition pipeline_ids :: "reply \<Rightarrow> string list" where
  "pipeline_ids r = context_identifiers ''pipeline_id'' r"

definition skill_ids :: "reply \<Rightarrow> string list" where
  "skill_ids r = context_identifiers ''skill_id'' r"

text \<open>\<open>str::contains\<close>.\<close>

fun contains :: "string \<Rightarrow> string \<Rightarrow> bool" where
  "contains [] p = (p = [])"
| "contains (c # s) p = (starts_with (c # s) p \<or> contains s p)"

definition asserts_claim :: "event \<Rightarrow> bool" where
  "asserts_claim e \<longleftrightarrow>
     (e_name e = EVENT_SPEAK \<or> e_name e = EVENT_OVOS_UTTERANCE_SPEAK)
     \<and> Option.bind (Option.bind (get_object (e_data e) ''meta'') (\<lambda>m. map_of m THALOVANT_CLAIMED_META_KEY)) as_bool
       = Some True"

definition has_asserted_claim :: "reply \<Rightarrow> bool" where
  "has_asserted_claim r \<longleftrightarrow> list_ex asserts_claim (r_events r)"

definition claimed :: "reply \<Rightarrow> bool" where
  "claimed r =
     (if \<not> r_handled r \<or> \<not> r_ok r \<or> r_failure_event r \<noteq> None then False
      else if has_asserted_claim r then True
      else (let stages = pipeline_ids r
            in stages = [] \<or> list_ex (\<lambda>stage. \<not> contains stage ''fallback'') stages))"

section \<open>Audio inside an event\<close>

definition AUDIO_FAIL :: thalovant_error where
  "AUDIO_FAIL = Runtime ''missing, invalid or oversized embedded audio''"

definition is_hex_space :: "char \<Rightarrow> bool" where
  "is_hex_space c \<longleftrightarrow> c \<in> {CHR 0x20, CHR 0x09, CHR 0x0A, CHR 0x0D, CHR 0x0B, CHR 0x0C}"

text \<open>White space is allowed between bytes and not inside one; \<open>compact\<close> is what was kept so far.\<close>

fun compact_hex :: "string \<Rightarrow> string \<Rightarrow> string option" where
  "compact_hex compact [] = Some compact"
| "compact_hex compact (c # s) =
     (if is_hex_space c
      then if odd (length compact) then None else compact_hex compact s
      else compact_hex (compact @ [c]) s)"

definition audio_bytes_with_limit :: "(string \<Rightarrow> bytes option) \<Rightarrow> event \<Rightarrow> nat \<Rightarrow> bytes res" where
  "audio_bytes_with_limit decode e max_bytes =
     (if \<not> is_audio e then Inl AUDIO_FAIL
      else case get_str (e_data e) ''binary_data'' of
        None \<Rightarrow> Inl AUDIO_FAIL
      | Some encoded \<Rightarrow>
          if encoded = [] then Inl AUDIO_FAIL
          else if (length encoded + 1) div 2 > max_bytes then Inl AUDIO_FAIL
          else case compact_hex [] encoded of
                 None \<Rightarrow> Inl AUDIO_FAIL
               | Some compact \<Rightarrow> ok_or (decode compact) AUDIO_FAIL)"

definition audio_bytes :: "(string \<Rightarrow> bytes option) \<Rightarrow> event \<Rightarrow> bytes res" where
  "audio_bytes decode e = audio_bytes_with_limit decode e MAX_AUDIO_CLIP_BYTES"

record reply_media_budget =
  b_chars :: nat
  b_dropped :: nat

definition accept :: "reply_media_budget \<Rightarrow> event \<Rightarrow> bool \<times> reply_media_budget" where
  "accept b e =
     (if \<not> is_audio e then (True, b)
      else case get_str (e_data e) ''binary_data'' of
        None \<Rightarrow> (False, b\<lparr>b_dropped := b_dropped b + 1\<rparr>)
      | Some encoded \<Rightarrow>
          if length encoded > MAX_AUDIO_CLIP_BYTES * 2 \<or> b_chars b + length encoded > MAX_REPLY_MEDIA_BYTES * 2
          then (False, b\<lparr>b_dropped := b_dropped b + 1\<rparr>)
          else (True, b\<lparr>b_chars := b_chars b + length encoded\<rparr>))"

section \<open>What a context says after an operation\<close>

lemma merge_entry_get:
  "map_of (merge_entry kv merged) k =
     (if k = fst kv
      then (case (k = ''session'', as_object (snd kv)) of
              (True, Some m) \<Rightarrow> Some (JObject (fold (\<lambda>(k, v). bt_insert k v) m (session_from_context merged)))
            | _ \<Rightarrow> Some (snd kv))
      else map_of merged k)"
  by (auto simp: merge_entry_def split: option.split bool.split)

lemma merge_fold_get:
  "distinct (map fst x) \<Longrightarrow>
   map_of (fold merge_entry x b) k =
     (case map_of x k of
        None \<Rightarrow> map_of b k
      | Some v \<Rightarrow>
          (case (k = ''session'', as_object v) of
             (True, Some m) \<Rightarrow> Some (JObject (fold (\<lambda>(k, v). bt_insert k v) m (session_from_context b)))
           | _ \<Rightarrow> Some v))"
proof (induction x arbitrary: b)
  case (Cons p x)
  obtain a v where p: "p = (a, v)" by (cases p)
  with Cons.prems have d: "a \<notin> fst ` set x" "distinct (map fst x)" by auto
  then have n: "map_of x a = None" by (simp add: map_of_eq_None_iff)
  show ?case
  proof (cases "k = a")
    case True
    then show ?thesis
      using Cons.IH [OF d(2), of "merge_entry p b"] n p
      by (cases "a = ''session''"; cases "as_object v") (simp_all add: merge_entry_get)
  next
    case False
    have s: "session_from_context (merge_entry p b) = session_from_context b" if "a \<noteq> ''session''"
      using that p by (simp add: session_from_context_def get_object_def merge_entry_get)
    have "k \<noteq> ''session'' \<or> a \<noteq> ''session''" using False by auto
    then show ?thesis
      using Cons.IH [OF d(2), of "merge_entry p b"] False p s
      by (auto simp: merge_entry_get split: option.split bool.split)
  qed
qed simp

lemma merge_context_None [simp]: "merge_context b None = (case b of None \<Rightarrow> [] | Some m \<Rightarrow> m)"
  by (simp add: merge_context_def)

lemma reply_context_get:
  "map_of (reply_context c) k =
     (let source = not_null (map_of c ''source''); destination = not_null (map_of c ''destination'')
      in if k = ''source'' then (case destination of None \<Rightarrow> map_of c k | Some d \<Rightarrow> Some (first_peer d))
         else if k = ''destination''
         then (case source of Some s \<Rightarrow> Some s | None \<Rightarrow> if destination = None then map_of c k else None)
         else map_of c k)"
  by (simp add: reply_context_def Let_def split: option.split)

lemma reply_context_inv: "bt_inv c \<Longrightarrow> bt_inv (reply_context c)"
  by (auto simp: reply_context_def Let_def split: option.split)

lemma not_null_eq_Some [simp]: "not_null v = Some x \<longleftrightarrow> v = Some x \<and> x \<noteq> JNull"
  by (auto simp: not_null_def split: option.splits json.splits)

text \<open>
  A reply goes back the way the message came. The sender becomes the destination and the peer
  the message was for (the first of a list) becomes the sender, a message that names no sender gets a
  reply addressed to nobody rather than to its own sender, and everything else the message said is
  there unchanged; replying to the reply of a message with one named peer at each end gives the
  message's own context again.
\<close>

theorem reply_turns_round:
  assumes "bt_inv c"
  shows "(\<forall>k. k \<noteq> ''source'' \<and> k \<noteq> ''destination'' \<longrightarrow> map_of (reply_context c) k = map_of c k)
    \<and> (\<forall>s. map_of c ''source'' = Some s \<and> s \<noteq> JNull \<longrightarrow> map_of (reply_context c) ''destination'' = Some s)
    \<and> (\<forall>d. map_of c ''destination'' = Some d \<and> d \<noteq> JNull \<longrightarrow>
         map_of (reply_context c) ''source'' = Some (first_peer d)
         \<and> (map_of c ''source'' \<in> {None, Some JNull} \<longrightarrow> map_of (reply_context c) ''destination'' = None))
    \<and> (\<forall>s d. map_of c ''source'' = Some (JString s) \<and> map_of c ''destination'' = Some (JString d) \<longrightarrow>
         reply_context (reply_context c) = c)"
proof (intro conjI allI impI)
  fix s d
  assume sd: "map_of c ''source'' = Some (JString s) \<and> map_of c ''destination'' = Some (JString d)"
  have "map_of (reply_context (reply_context c)) = map_of c"
    using sd by (auto simp: fun_eq_iff reply_context_get not_null_def first_peer_def Let_def)
  then show "reply_context (reply_context c) = c"
    by (intro bt_ext reply_context_inv assms)
qed (auto simp: reply_context_get not_null_def split: option.split json.split)

theorem reply_turns_round_witness:
  "reply_context (reply_context [(''destination'', JString ''b''), (''source'', JString ''a'')])
     = [(''destination'', JString ''b''), (''source'', JString ''a'')]
   \<and> map_of (reply_context [(''destination'', JArray [JString ''b'', JString ''c''])]) ''source'' = Some (JString ''b'')"
  using reply_turns_round [of "[(''destination'', JString ''b''), (''source'', JString ''a'')]"]
    reply_turns_round [of "[(''destination'', JArray [JString ''b'', JString ''c''])]"]
  by (simp add: bt_inv_def first_peer_def)

section \<open>The conversation carried on\<close>

lemma carry_field_get:
  "map_of (carry_field p f c) k =
     (if k = f \<and> map_of c k = None
      then (case map_of p k of Some v \<Rightarrow> if is_carried v then Some v else None | None \<Rightarrow> None)
      else map_of c k)"
  by (auto simp: carry_field_def split: option.split)

text \<open>What the caller set stays; of the rest, exactly the carried fields of the turn before that say something.\<close>

lemma carry_conversation_get:
  "map_of (carry_conversation (Some p) s) k =
     (case map_of s k of
        Some v \<Rightarrow> Some v
      | None \<Rightarrow>
          if k \<in> set CONVERSATION_SESSION_FIELDS
          then (case map_of p k of Some v \<Rightarrow> if is_carried v then Some v else None | None \<Rightarrow> None) else None)"
  by (cases "map_of s k")
    (auto simp: carry_conversation_def CONVERSATION_SESSION_FIELDS_def carry_field_get)

section \<open>Which reply answers which request\<close>

lemma get_str_insert: "get_str (bt_insert k (JString v) m) k' = (if k' = k then Some v else get_str m k')"
  by (simp add: get_str_def)

lemma get_str_insert_other: "k' \<noteq> k \<Longrightarrow> get_str (bt_insert k x m) k' = get_str m k'"
  by (simp add: get_str_def)

lemma context_request_id:
  assumes "rid \<noteq> []"
  shows "request_id_from_context (context_with_correlation ctx sid site lang (Some rid)) = Some rid"
  using assms
  by (simp add: context_with_correlation_def Let_def when_given_def given_def request_id_from_context_def
      request_id_from_map_def get_str_insert get_str_insert_other)

lemma context_session_id:
  assumes "sid \<noteq> []"
  shows "session_id_from_context (context_with_correlation ctx (Some sid) site lang rid) = Some sid"
proof -
  let ?s = "correlated_session (session_from_context (merge_context ctx None)) (Some sid) site lang rid"
  have "get_str ?s ''session_id'' = Some sid"
    using assms
    by (auto simp: correlated_session_def when_given_def given_def get_str_insert get_str_insert_other
        set_default_def split: option.split)
  moreover from this have "?s \<noteq> []" by (auto simp: get_str_def)
  ultimately show ?thesis
    by (simp add: context_with_correlation_def Let_def session_id_from_context_def session_from_context_def
        get_object_def)
qed

text \<open>
  The request id decides which reply is a client's. To the context a client sends with a request
  id, an event that carries a request id matches exactly when it is that one, whatever session the hub
  put on it; an event that carries none is judged by the session alone, when both name one. An event
  in that very context always matches.
\<close>

theorem request_id_decides:
  assumes "rid \<noteq> []"
  shows "(\<forall>r. event_request_id e = Some r \<longrightarrow>
       event_matches_context e (Some (context_with_correlation ctx sid site lang (Some rid))) = (r = rid))
    \<and> (event_request_id e = None \<longrightarrow>
       event_matches_context e (Some (context_with_correlation ctx sid site lang (Some rid))) =
         (\<forall>a b. session_id_from_context (context_with_correlation ctx sid site lang (Some rid)) = Some a
            \<and> event_session_id e = Some b \<longrightarrow> a = b))
    \<and> (e_context e = context_with_correlation ctx sid site lang (Some rid) \<longrightarrow>
       event_matches_context e (Some (context_with_correlation ctx sid site lang (Some rid))))"
proof (intro conjI allI impI)
  assume c: "e_context e = context_with_correlation ctx sid site lang (Some rid)"
  then have "event_request_id e = Some rid"
    by (simp add: event_request_id_def context_request_id [OF assms])
  then show "event_matches_context e (Some (context_with_correlation ctx sid site lang (Some rid)))"
    by (simp add: event_matches_context_def context_request_id [OF assms])
qed (auto simp: event_matches_context_def context_request_id [OF assms] split: option.split)

theorem request_id_decides_witness:
  "event_matches_context
     \<lparr>e_name = ''speak'', e_data = [], e_context = [(''request_id'', JString ''r''),
        (''session'', JObject [(''session_id'', JString ''hub'')])], e_raw = None\<rparr>
     (Some (context_with_correlation None (Some ''mine'') None None (Some ''r'')))"
  using request_id_decides [of "''r''" "\<lparr>e_name = ''speak'', e_data = [], e_context = [(''request_id'', JString ''r''),
        (''session'', JObject [(''session_id'', JString ''hub'')])], e_raw = None\<rparr>" None "Some ''mine''" None None]
  by (simp add: event_request_id_def request_id_from_context_def request_id_from_map_def get_str_def)

section \<open>Claims\<close>

lemma contains_iff: "contains s p \<longleftrightarrow> (\<exists>a b. s = a @ p @ b)"
proof (induction s)
  case (Cons c s)
  have "(\<exists>a b. c # s = a @ p @ b) \<longleftrightarrow> (\<exists>b. c # s = p @ b) \<or> (\<exists>a b. s = a @ p @ b)"
    by (metis append_Cons append_Nil list.sel(3) neq_Nil_conv tl_append2)
  then show ?case using Cons.IH by (simp add: starts_with_iff)
qed simp

definition stamp :: "string \<Rightarrow> event \<Rightarrow> string option" where
  "stamp key e = given (get_str (e_context e) key)"

lemma context_identifiers_fold:
  "fold (\<lambda>e result. case get_str (e_context e) key of None \<Rightarrow> result
      | Some v \<Rightarrow> if v \<noteq> [] \<and> v \<notin> set result then result @ [v] else result) es acc = acc' \<Longrightarrow>
   set acc' = set acc \<union> {v. \<exists>e \<in> set es. stamp key e = Some v} \<and> (distinct acc \<longrightarrow> distinct acc')"
proof (induction es arbitrary: acc)
  case (Cons e es)
  let ?acc = "case get_str (e_context e) key of None \<Rightarrow> acc
      | Some v \<Rightarrow> if v \<noteq> [] \<and> v \<notin> set acc then acc @ [v] else acc"
  have "set ?acc = set acc \<union> {v. stamp key e = Some v} \<and> (distinct acc \<longrightarrow> distinct ?acc)"
    by (auto simp: stamp_def given_def split: option.splits)
  with Cons.IH [of ?acc] Cons.prems show ?case by auto
qed simp

lemma context_identifiers_set:
  "set (context_identifiers key r) = {v. \<exists>e \<in> set (r_events r). stamp key e = Some v}"
  "distinct (context_identifiers key r)"
  using context_identifiers_fold [where acc = "[]", OF refl, of key "r_events r"]
  by (simp_all add: context_identifiers_def)

section \<open>Media\<close>

lemma accept_cases:
  "accept b e = (ok, b') \<Longrightarrow>
   (ok \<and> b_dropped b' = b_dropped b \<or> \<not> ok \<and> b_dropped b' = Suc (b_dropped b) \<and> b_chars b' = b_chars b)
   \<and> (b_chars b \<le> MAX_REPLY_MEDIA_BYTES * 2 \<longrightarrow> b_chars b' \<le> MAX_REPLY_MEDIA_BYTES * 2)
   \<and> (\<not> is_audio e \<longrightarrow> ok \<and> b' = b)"
  by (auto simp: accept_def split: option.splits if_splits)

fun accept_all :: "reply_media_budget \<Rightarrow> event list \<Rightarrow> event list \<times> reply_media_budget" where
  "accept_all b [] = ([], b)"
| "accept_all b (e # es) =
     (case accept b e of
        (ok, b) \<Rightarrow> (case accept_all b es of (kept, b) \<Rightarrow> (if ok then e # kept else kept, b)))"

definition audio_chars :: "event \<Rightarrow> nat" where
  "audio_chars e = (case get_str (e_data e) ''binary_data'' of None \<Rightarrow> 0 | Some s \<Rightarrow> length s)"

lemma accept_audio:
  "accept b e = (True, b') \<Longrightarrow> is_audio e \<Longrightarrow>
   b_chars b' = b_chars b + audio_chars e \<and> audio_chars e \<le> MAX_AUDIO_CLIP_BYTES * 2"
  by (auto simp: accept_def audio_chars_def split: option.splits if_splits)

text \<open>
  The media one reply holds on to is bounded whatever the hub sends: of any sequence of events,
  every clip kept is within the clip limit and all of them together within the reply's limit, every
  event that is not audio is kept, and what was left out is counted.
\<close>

theorem reply_media_bounded:
  assumes "accept_all \<lparr>b_chars = 0, b_dropped = 0\<rparr> es = (kept, b)"
  shows "sum_list (map audio_chars (filter is_audio kept)) \<le> MAX_REPLY_MEDIA_BYTES * 2
    \<and> list_all (\<lambda>e. audio_chars e \<le> MAX_AUDIO_CLIP_BYTES * 2) (filter is_audio kept)
    \<and> filter (\<lambda>e. \<not> is_audio e) kept = filter (\<lambda>e. \<not> is_audio e) es
    \<and> length kept + b_dropped b = length es"
proof -
  have "b_chars b' = b_chars b0 + sum_list (map audio_chars (filter is_audio kept'))
      \<and> (b_chars b0 \<le> MAX_REPLY_MEDIA_BYTES * 2 \<longrightarrow> b_chars b' \<le> MAX_REPLY_MEDIA_BYTES * 2)
      \<and> list_all (\<lambda>e. audio_chars e \<le> MAX_AUDIO_CLIP_BYTES * 2) (filter is_audio kept')
      \<and> filter (\<lambda>e. \<not> is_audio e) kept' = filter (\<lambda>e. \<not> is_audio e) es
      \<and> length kept' + b_dropped b' = length es + b_dropped b0"
    if "accept_all b0 es = (kept', b')" for b0 es kept' b'
    using that
  proof (induction es arbitrary: b0 kept')
    case (Cons e es)
    obtain ok b1 where a: "accept b0 e = (ok, b1)" by fastforce
    obtain kept1 where k: "accept_all b1 es = (kept1, b')" "kept' = (if ok then e # kept1 else kept1)"
      using Cons.prems a by (auto split: prod.splits)
    note ih = Cons.IH [OF k(1)]
    show ?case
    proof (cases ok)
      case True
      then show ?thesis
        using ih k(2) accept_cases [OF a] accept_audio [of b0 e b1] a by (cases "is_audio e") auto
    next
      case False
      then have "is_audio e" using accept_cases [OF a] by blast
      with False show ?thesis using ih k(2) accept_cases [OF a] by auto
    qed
  qed simp
  from this [OF assms] show ?thesis by simp
qed

theorem reply_media_bounded_witness:
  "fst (accept_all \<lparr>b_chars = 0, b_dropped = 0\<rparr>
     [\<lparr>e_name = EVENT_AUDIO_QUEUE, e_data = [], e_context = [], e_raw = None\<rparr>,
      \<lparr>e_name = ''speak'', e_data = [], e_context = [], e_raw = None\<rparr>]) =
     [\<lparr>e_name = ''speak'', e_data = [], e_context = [], e_raw = None\<rparr>]"
proof -
  let ?es = "[\<lparr>e_name = EVENT_AUDIO_QUEUE, e_data = [], e_context = [], e_raw = None\<rparr>,
      \<lparr>e_name = ''speak'', e_data = [], e_context = [], e_raw = None\<rparr>]"
  have run: "accept_all \<lparr>b_chars = 0, b_dropped = 0\<rparr> ?es =
      ([\<lparr>e_name = ''speak'', e_data = [], e_context = [], e_raw = None\<rparr>], \<lparr>b_chars = 0, b_dropped = 1\<rparr>)"
    by (simp add: accept_def is_audio_def EVENT_AUDIO_QUEUE_def get_str_def)
  from reply_media_bounded [OF run] run show ?thesis by simp
qed

lemma compact_hex_filter:
  "compact_hex acc s = Some r \<Longrightarrow> r = acc @ filter (\<lambda>c. \<not> is_hex_space c) s"
  by (induction acc s rule: compact_hex.induct) (auto split: if_splits)

text \<open>Embedded audio is the bytes its hex digits name, and never more than was asked for.\<close>

lemma audio_bytes_bounded:
  assumes "\<And>s bs. decode s = Some bs \<Longrightarrow> length s = 2 * length bs"
    and "audio_bytes_with_limit decode e max_bytes = Inr bs"
  shows "length bs \<le> max_bytes
    \<and> (\<exists>s. get_str (e_data e) ''binary_data'' = Some s \<and> decode (filter (\<lambda>c. \<not> is_hex_space c) s) = Some bs)"
proof -
  obtain s r where s: "get_str (e_data e) ''binary_data'' = Some s" "(length s + 1) div 2 \<le> max_bytes"
    and r: "compact_hex [] s = Some r" "decode r = Some bs"
    using assms(2) by (auto simp: audio_bytes_with_limit_def split: if_splits option.splits)
  have f: "r = filter (\<lambda>c. \<not> is_hex_space c) s" using compact_hex_filter [OF r(1)] by simp
  then have "2 * length bs \<le> length s" using assms(1) [OF r(2)] length_filter_le [of "\<lambda>c. \<not> is_hex_space c" s] by simp
  with s f r(2) show ?thesis by auto
qed

end
