(* ===== verification/Refusal.thy ===== *)
theory Refusal
  imports Events
begin

text \<open>
  \<open>src/src/refusal.rs\<close>: what an ask does when the hub refuses it or cannot answer it, and the part of
  \<open>ConnectionControl\<close> in \<open>src/src/transport.rs\<close> that says what is in flight: the reservations of replies
  and the times of the utterances nothing waits for. A denial carries no request id, so it ends an ask
  only when it cannot be about anything else.
\<close>

section \<open>The error of a failure event\<close>

definition MAX_COUNT :: int where "MAX_COUNT = 2 ^ 53 - 1"

text \<open>\<open>str::parse::<i64>\<close>: a sign, digits, and no overflow.\<close>

definition parse_digits :: "string \<Rightarrow> int option" where
  "parse_digits s = (if s \<noteq> [] \<and> list_all dec_digit s then Some (int (dec_val s)) else None)"

definition parse_i64 :: "string \<Rightarrow> int option" where
  "parse_i64 s =
     (let v = (case s of
                 [] \<Rightarrow> None
               | c # r \<Rightarrow> if c = CHR ''-'' then map_option uminus (parse_digits r)
                          else if c = CHR ''+'' then parse_digits r else parse_digits s)
      in case v of
           None \<Rightarrow> None
         | Some n \<Rightarrow> if - (2 ^ 63) \<le> n \<and> n < 2 ^ 63 then Some n else None)"

definition whole_count :: "json option \<Rightarrow> nat" where
  "whole_count value =
     (let whole = (case value of
                     Some (JNumber (PosInt n)) \<Rightarrow> if uint n < 2 ^ 63 then uint n else 0
                   | Some (JNumber (NegInt n)) \<Rightarrow> sint n
                   | Some (JString text) \<Rightarrow> (case parse_i64 (trim text) of Some n \<Rightarrow> n | None \<Rightarrow> 0)
                   | _ \<Rightarrow> 0)
      in if 0 \<le> whole \<and> whole \<le> MAX_COUNT then nat whole else 0)"

definition string_field :: "jmap \<Rightarrow> string \<Rightarrow> string" where
  "string_field data key = (case get_str data key of None \<Rightarrow> [] | Some s \<Rightarrow> s)"

definition allowed_list :: "jmap option \<Rightarrow> string list" where
  "allowed_list inner =
     (case Option.bind (Option.bind inner (\<lambda>m. map_of m ''allowed'')) as_array of
        None \<Rightarrow> []
      | Some items \<Rightarrow> filter (\<lambda>t. t \<noteq> []) (map trim (List.map_filter as_str items)))"

definition policy_denied :: "event \<Rightarrow> thalovant_error" where
  "policy_denied e =
     (let inner = get_object (e_data e) ''data'';
          field = (\<lambda>k. Option.bind inner (\<lambda>m. map_of m k));
          code = string_field (e_data e) ''code'';
          quota = (if code = EXCEEDED_CODE
                   then Some \<lparr>q_period = (case Option.bind (field ''period'') as_str of None \<Rightarrow> [] | Some p \<Rightarrow> p),
                              q_limit = whole_count (field ''limit''), q_used = whole_count (field ''used''),
                              q_reset_after = whole_count (field ''reset_after'')\<rparr>
                   else None)
      in PolicyDenied (string_field (e_data e) ''denied_type'') code (string_field (e_data e) ''reason'')
           (allowed_list inner) quota)"

definition failure_error :: "event \<Rightarrow> thalovant_error" where
  "failure_error e =
     (if e_name e = EVENT_POLICY_DENIED then policy_denied e
      else if e_name e \<in> {EVENT_INTENT_UNMATCHED, EVENT_INTENT_FAILURE} then Unanswered (trim (event_text e))
      else Runtime (e_name e))"

lemma whole_count_bounded: "int (whole_count v) \<le> MAX_COUNT"
proof -
  have "int (if 0 \<le> w \<and> w \<le> MAX_COUNT then nat w else 0) \<le> MAX_COUNT" for w
    by (auto simp: MAX_COUNT_def nat_le_iff)
  then show ?thesis unfolding whole_count_def Let_def .
qed

text \<open>A count the hub can have meant is read as it is, from a number or from its decimal digits.\<close>

lemma whole_count_number:
  "n \<le> 2 ^ 53 - 1 \<Longrightarrow> whole_count (Some (JNumber (PosInt (word_of_nat n)))) = n"
proof -
  assume n: "n \<le> 2 ^ 53 - 1"
  then have "uint (word_of_nat n :: 64 word) = int n"
    by (simp add: uint_nat unat_of_nat)
  with n show ?thesis by (simp add: whole_count_def MAX_COUNT_def)
qed

lemma parse_show_nat: "int n < 2 ^ 63 \<Longrightarrow> parse_i64 (show_nat n) = Some (int n)"
proof -
  assume n: "int n < 2 ^ 63"
  obtain c r where s: "show_nat n = c # r" "dec_digit c" using show_nat_digits [of n] by (cases "show_nat n") auto
  then have "c \<noteq> CHR ''-''" "c \<noteq> CHR ''+''" by (auto simp: dec_digit_def)
  moreover have "parse_digits (show_nat n) = Some (int n)"
    using show_nat_digits [of n] by (simp add: parse_digits_def list_all_iff)
  moreover have "- (2 ^ 63) \<le> int n" by (rule order_trans [of _ 0]) simp_all
  ultimately show ?thesis using s(1) n by (simp add: parse_i64_def)
qed

lemma whole_count_text: "n \<le> 2 ^ 53 - 1 \<Longrightarrow> whole_count (Some (JString (show_nat n))) = n"
proof -
  assume n: "n \<le> 2 ^ 53 - 1"
  have d: "plain_char c" if "dec_digit c" for c using that by (auto simp: dec_digit_def plain_char_def)
  have "trim (show_nat n) = show_nat n"
    using show_nat_digits [of n] by (intro trim_plain d) (auto simp: hd_in_set last_in_set)
  with n parse_show_nat [of n] show ?thesis by (simp add: whole_count_def MAX_COUNT_def)
qed

section \<open>What is in flight\<close>

text \<open>Times count from any instant: only their distance is used.\<close>

record flights =
  active_replies :: "(bool \<times> string) set"
  untracked_sends :: "duration list"

definition UNTRACKED_UTTERANCE_GRACE :: duration where
  "UNTRACKED_UTTERANCE_GRACE = from_secs 10"

definition prune_untracked_sends :: "duration \<Rightarrow> duration list \<Rightarrow> duration list" where
  "prune_untracked_sends now sends =
     (let recent = dropWhile (\<lambda>sent. saturating_sub now sent > UNTRACKED_UTTERANCE_GRACE) sends
      in drop (length recent - 1024) recent)"

definition record_untracked_send :: "duration \<Rightarrow> flights \<Rightarrow> flights" where
  "record_untracked_send now f =
     f\<lparr>untracked_sends := prune_untracked_sends now (untracked_sends f @ [now])\<rparr>"

definition reserve_reply :: "bool \<Rightarrow> string \<Rightarrow> flights \<Rightarrow> unit res \<times> flights" where
  "reserve_reply query rid f =
     (if (query, rid) \<in> active_replies f
      then (Inl (Runtime ''reply correlation ID is already active on this transport''), f)
      else (Inr (), f\<lparr>active_replies := insert (query, rid) (active_replies f)\<rparr>))"

definition release_reply :: "bool \<Rightarrow> string \<Rightarrow> flights \<Rightarrow> flights" where
  "release_reply query rid f = f\<lparr>active_replies := active_replies f - {(query, rid)}\<rparr>"

text \<open>Asks, queries and sends that may still be refused.\<close>

definition utterances_in_flight :: "duration \<Rightarrow> flights \<Rightarrow> (nat \<times> nat \<times> nat) \<times> flights" where
  "utterances_in_flight now f =
     (let active = active_replies f;
          queries = card (Set.filter fst active);
          sends = prune_untracked_sends now (untracked_sends f)
      in ((card active - queries, queries, length sends), f\<lparr>untracked_sends := sends\<rparr>))"

definition refusal_belongs_to_ask ::
    "string option \<Rightarrow> string \<Rightarrow> string option \<Rightarrow> nat \<Rightarrow> nat \<Rightarrow> nat \<Rightarrow> bool" where
  "refusal_belongs_to_ask request_id own_request_id dtype asks queries sends =
     (case given request_id of
        Some rid \<Rightarrow> rid = own_request_id
      | None \<Rightarrow> dtype = Some EVENT_RECOGNIZER_LOOP_UTTERANCE \<and> asks = 1 \<and> queries = 0 \<and> sends = 0)"

section \<open>Runs of the client's own operations\<close>

datatype flight_op = Reserve bool string | Release bool string | Send_Untracked | Look

definition flight_step :: "flight_op \<times> duration \<Rightarrow> flights \<Rightarrow> flights" where
  "flight_step a f =
     (case fst a of
        Reserve query rid \<Rightarrow> snd (reserve_reply query rid f)
      | Release query rid \<Rightarrow> release_reply query rid f
      | Send_Untracked \<Rightarrow> record_untracked_send (snd a) f
      | Look \<Rightarrow> snd (utterances_in_flight (snd a) f))"

definition flights_ok :: "flights \<Rightarrow> bool" where
  "flights_ok f \<longleftrightarrow> finite (active_replies f) \<and> length (untracked_sends f) \<le> 1024"

lemma prune_bounded: "length (prune_untracked_sends now sends) \<le> 1024"
  by (simp add: prune_untracked_sends_def Let_def)

lemma flight_step_ok: "flights_ok f \<Longrightarrow> flights_ok (flight_step a f)"
  by (auto simp: flights_ok_def flight_step_def reserve_reply_def release_reply_def record_untracked_send_def
      utterances_in_flight_def Let_def prune_bounded split: flight_op.split)

lemma flight_run_ok: "flights_ok f \<Longrightarrow> flights_ok (fold flight_step as f)"
  by (induction as arbitrary: f) (simp_all add: flight_step_ok)

text \<open>A send is counted for the whole of its grace: what is pruned is older, or one of very many.\<close>

lemma prune_keeps_recent:
  assumes "sorted sends" and "t \<in> set sends" and "saturating_sub now t \<le> UNTRACKED_UTTERANCE_GRACE"
  shows "t \<in> set (prune_untracked_sends now sends) \<or> length (prune_untracked_sends now sends) = 1024"
proof -
  let ?old = "\<lambda>sent. saturating_sub now sent > UNTRACKED_UTTERANCE_GRACE"
  let ?r = "dropWhile ?old sends"
  have "t \<in> set ?r"
    using assms(2,3) set_takeWhileD [of t ?old sends] takeWhile_dropWhile_id [of ?old sends]
    by (metis UnE leD set_append)
  then show ?thesis
    by (cases "length ?r \<le> 1024") (simp_all add: prune_untracked_sends_def Let_def)
qed

text \<open>A refusal without a request id is taken only by the one ask out, when no send may still be meant.\<close>

lemma anonymous_refusal_needs_one:
  assumes "finite (active_replies f)" and "(False, own) \<in> active_replies f"
    and "utterances_in_flight now f = ((asks, queries, sends), f')"
    and "refusal_belongs_to_ask rid own dtype asks queries sends" and "given rid = None"
  shows "active_replies f = {(False, own)}
    \<and> (\<forall>t \<in> set (untracked_sends f). saturating_sub now t > UNTRACKED_UTTERANCE_GRACE)"
proof -
  let ?q = "Set.filter fst (active_replies f)"
  have n: "card (active_replies f) - card ?q = 1" "card ?q = 0"
    "prune_untracked_sends now (untracked_sends f) = []"
    using assms(3-5) by (auto simp: utterances_in_flight_def refusal_belongs_to_ask_def Let_def)
  then have "card (active_replies f) = 1" by simp
  then obtain x where "active_replies f = {x}" by (auto simp: card_1_singleton_iff)
  then have one: "active_replies f = {(False, own)}" using assms(2) by auto
  let ?r = "dropWhile (\<lambda>sent. saturating_sub now sent > UNTRACKED_UTTERANCE_GRACE) (untracked_sends f)"
  have "length ?r \<le> length ?r - 1024"
    using n(3) unfolding prune_untracked_sends_def Let_def by (simp only: drop_eq_Nil)
  then have "length ?r = 0" by arith
  then have "?r = []" by (simp only: length_0_conv)
  with one show ?thesis by (simp add: dropWhile_eq_Nil_conv)
qed

text \<open>
  C25: whatever a client has in flight, a refusal ends at most one of its asks, and none while it could
  be about something else. Of the asks that hold a reservation after any sequence of the client's
  operations, two cannot both take the same refusal; and one without a request id is taken only when
  the client has that one ask out, no query and no utterance sent in the last ten seconds.
\<close>

theorem refusal_ends_one_ask:
  assumes "f = fold flight_step as \<lparr>active_replies = {}, untracked_sends = []\<rparr>"
    and "(False, own1) \<in> active_replies f" and "(False, own2) \<in> active_replies f"
    and "utterances_in_flight now f = ((asks, queries, sends), f')"
    and "refusal_belongs_to_ask rid own1 dtype asks queries sends"
  shows "(refusal_belongs_to_ask rid own2 dtype asks queries sends \<longrightarrow> own1 = own2)
    \<and> (given rid = None \<longrightarrow>
         active_replies f = {(False, own1)}
         \<and> (\<forall>t \<in> set (untracked_sends f). saturating_sub now t > UNTRACKED_UTTERANCE_GRACE))"
proof -
  have "finite (active_replies f)"
    using flight_run_ok [of "\<lparr>active_replies = {}, untracked_sends = []\<rparr>" as] assms(1)
    by (simp add: flights_ok_def)
  note alone = anonymous_refusal_needs_one [OF this assms(2,4,5)]
  have "own1 = own2" if r: "refusal_belongs_to_ask rid own2 dtype asks queries sends"
  proof (cases "given rid")
    case None
    then show ?thesis using alone assms(3) by auto
  next
    case (Some x)
    then show ?thesis using r assms(5) by (simp add: refusal_belongs_to_ask_def)
  qed
  with alone show ?thesis by blast
qed

theorem refusal_ends_one_ask_witness:
  "active_replies (fold flight_step [(Reserve False ''a'', 0), (Send_Untracked, 0), (Look, from_secs 11)]
     \<lparr>active_replies = {}, untracked_sends = []\<rparr>) = {(False, ''a'')}"
proof -
  let ?f = "fold flight_step [(Reserve False ''a'', 0), (Send_Untracked, 0), (Look, from_secs 11)]
     \<lparr>active_replies = {}, untracked_sends = []\<rparr>"
  have f: "?f = \<lparr>active_replies = {(False, ''a'')}, untracked_sends = []\<rparr>"
    by (simp add: flight_step_def reserve_reply_def record_untracked_send_def utterances_in_flight_def
        prune_untracked_sends_def saturating_sub_def UNTRACKED_UTTERANCE_GRACE_def from_secs_def Let_def)
  have none: "{a. a = (False, ''a'') \<and> fst a} = {}" by auto
  have u: "utterances_in_flight (from_secs 11) ?f = ((1, 0, 0), ?f)"
    unfolding f by (simp add: utterances_in_flight_def prune_untracked_sends_def Let_def none)
  have "refusal_belongs_to_ask None ''a'' (Some EVENT_RECOGNIZER_LOOP_UTTERANCE) 1 0 0"
    by (simp add: refusal_belongs_to_ask_def given_def)
  from refusal_ends_one_ask [OF refl _ _ u this] f show ?thesis by (simp add: given_def)
qed

section \<open>What a failure becomes\<close>

text \<open>
  Every event a hub ends an ask with becomes one typed error, by its name alone: a refusal by
  policy keeps what the hub said of it, with an allowance only for an exceeded quota and no count
  beyond the largest every JSON reader agrees on, no blank entry in what is allowed, an unmatched or failed
  intent is a question the hub has nothing for, and anything else is a fault; only the last two end
  as a runtime error and only the first as a refusal.
\<close>

theorem failure_error_total:
  "(case failure_error e of
      PolicyDenied dtype code reason allowed quota \<Rightarrow>
        e_name e = EVENT_POLICY_DENIED
        \<and> dtype = string_field (e_data e) ''denied_type'' \<and> code = string_field (e_data e) ''code''
        \<and> reason = string_field (e_data e) ''reason'' \<and> [] \<notin> set allowed
        \<and> (quota \<noteq> None) = (code = EXCEEDED_CODE)
        \<and> (case quota of None \<Rightarrow> True
           | Some q \<Rightarrow> list_all (\<lambda>n. int n \<le> MAX_COUNT) [q_limit q, q_used q, q_reset_after q])
    | Unanswered s \<Rightarrow>
        e_name e \<in> {EVENT_INTENT_UNMATCHED, EVENT_INTENT_FAILURE} \<and> s = trim (event_text e)
    | Runtime n \<Rightarrow>
        n = e_name e
        \<and> n \<notin> {EVENT_POLICY_DENIED, EVENT_INTENT_UNMATCHED, EVENT_INTENT_FAILURE}
    | _ \<Rightarrow> False)"
proof -
  have allowed: "[] \<notin> set (allowed_list inner)" for inner
    by (auto simp: allowed_list_def split: option.split)
  show ?thesis
    by (auto simp: failure_error_def policy_denied_def Let_def allowed whole_count_bounded)
qed

end
