(* ===== verification/Connection.thy ===== *)
theory Connection
  imports Channel_Run Refusal
begin

text \<open>
  \<open>src/src/transport.rs\<close>, what the three transports share beside the channel: \<open>ConnectionControl\<close>, which
  remembers what a link said about the credentials, the rule that a \<open>KK\<close> attempt that did not
  authenticate is followed by one \<open>XX\<close> attempt, when a close is a refusal, whose key folder an identity
  uses, and the health a client is told. A lock and the atomics under it are one state here, and a
  step is what happens while the lock is held.
\<close>

section \<open>State\<close>

datatype phase = Idle | Connecting | Handshake | Ready | Closed | Error

text \<open>Instants count in nanoseconds, the \<open>ms\<close> fields (an \<open>f64\<close> of milliseconds) in microseconds.\<close>

record connection_info =
  i_phase :: phase
  i_started_at :: "duration option"
  i_connected_at :: "duration option"
  i_transport_open_ms :: "nat option"
  i_socket_open_ms :: "nat option"
  i_handshake_ms :: "nat option"
  i_connect_ms :: "nat option"
  i_last_error :: "string option"

record health =
  h_connected :: bool
  h_handshake_complete :: bool
  h_transport_alive :: bool
  h_last_error :: "string option"
  h_connection :: connection_info

definition default_info :: connection_info where
  "default_info =
     \<lparr>i_phase = Idle, i_started_at = None, i_connected_at = None, i_transport_open_ms = None,
      i_socket_open_ms = None, i_handshake_ms = None, i_connect_ms = None, i_last_error = None\<rparr>"

definition default_health :: health where
  "default_health =
     \<lparr>h_connected = False, h_handshake_complete = False, h_transport_alive = False, h_last_error = None,
      h_connection = default_info\<rparr>"

definition connecting_connection :: "duration \<Rightarrow> connection_info" where
  "connecting_connection now = default_info\<lparr>i_phase := Connecting, i_started_at := Some now\<rparr>"

definition elapsed_ms :: "duration \<Rightarrow> duration \<Rightarrow> nat" where
  "elapsed_ms start_at end_at = saturating_sub end_at start_at div 1000"

record key_folder =
  k_identity_dir :: "string option"
  k_adopt_from :: "string option"

datatype handshake_verdict = VRefused string | VKeyChanged string

record control = flights +
  c_generation :: "64 word"
  c_cancelled :: bool
  c_active_attempt :: bool
  c_verdict :: "handshake_verdict option"
  c_kk_failed :: bool
  c_force_xx :: bool
  c_heard :: bool
  c_completed_xx :: bool
  c_key_rejected :: bool
  c_refused_after_handshake :: bool
  c_key_folder :: key_folder

definition default_control :: control where
  "default_control =
     \<lparr>active_replies = {}, untracked_sends = [], c_generation = 0, c_cancelled = False,
      c_active_attempt = False, c_verdict = None, c_kk_failed = False, c_force_xx = False,
      c_heard = False, c_completed_xx = False, c_key_rejected = False, c_refused_after_handshake = False,
      c_key_folder = \<lparr>k_identity_dir = None, k_adopt_from = None\<rparr>\<rparr>"

section \<open>What a link said about the credentials\<close>

definition reset_link :: "control \<Rightarrow> control" where
  "reset_link c =
     c\<lparr>c_heard := False, c_completed_xx := False, c_key_rejected := False, c_refused_after_handshake := False\<rparr>"

definition named_folder :: "control \<Rightarrow> control" where
  "named_folder c = c\<lparr>c_key_folder := (c_key_folder c)\<lparr>k_adopt_from := None\<rparr>\<rparr>"

definition note_failure :: "thalovant_error \<Rightarrow> ('h, 'c) channel option \<Rightarrow> control \<Rightarrow> control" where
  "note_failure e ch c =
     (let verdict = (case e of
            Connection message \<Rightarrow>
              if is_hub_refused e then Some (VRefused message)
              else if is_hub_key_changed e then Some (VKeyChanged message) else None
          | _ \<Rightarrow> None)
      in case verdict of
           None \<Rightarrow> c
         | Some v \<Rightarrow>
             (let c = c\<lparr>c_verdict := Some v\<rparr>
              in if (case ch of None \<Rightarrow> False | Some ch \<Rightarrow> ch_kk_failed ch) then c\<lparr>c_kk_failed := True\<rparr> else c))"

definition note_refusal_close :: "nat \<Rightarrow> bool \<Rightarrow> control \<Rightarrow> control" where
  "note_refusal_close code pending c =
     (let c = c\<lparr>c_verdict := Some (VRefused (into_connection_message (\<lambda>_. [])
            (hub_refused (''the hub closed the link during the handshake (code '' @ show_nat code
               @ ''): it does not accept these credentials, or not yet''))))\<rparr>
      in if pending then c\<lparr>c_kk_failed := True\<rparr> else c)"

definition typed :: "thalovant_error \<Rightarrow> control \<Rightarrow> thalovant_error \<times> control" where
  "typed fallback c =
     ((case c_verdict c of
         Some (VRefused m) \<Rightarrow> Connection m | Some (VKeyChanged m) \<Rightarrow> Connection m | None \<Rightarrow> fallback),
      c\<lparr>c_verdict := None\<rparr>)"

definition REFUSAL_CLOSE_CODES :: "nat list" where "REFUSAL_CLOSE_CODES = [1000, 1005, 1008]"
definition REFUSAL_SETTLE :: duration where "REFUSAL_SETTLE = from_millis 750"
definition CLOSE_CODE_GRACE :: duration where "CLOSE_CODE_GRACE = from_millis 250"

definition close_refuses_after :: "nat option \<Rightarrow> duration option \<Rightarrow> duration \<Rightarrow> bool \<Rightarrow> bool" where
  "close_refuses_after code closed_after_handshake code_late after_authenticated_frame =
     (case code of
        None \<Rightarrow> False
      | Some code \<Rightarrow>
          \<not> after_authenticated_frame \<and> code \<in> set REFUSAL_CLOSE_CODES \<and> code_late \<le> CLOSE_CODE_GRACE
          \<and> (case closed_after_handshake of None \<Rightarrow> True | Some t \<Rightarrow> t \<le> REFUSAL_SETTLE))"

definition close_refuses :: "nat option \<Rightarrow> duration option \<Rightarrow> duration \<Rightarrow> bool" where
  "close_refuses code closed_after_handshake code_late =
     close_refuses_after code closed_after_handshake code_late False"

text \<open>Over HTTPS: a request of the session was turned away after its handshake.\<close>

definition note_refused_after_handshake :: "control \<Rightarrow> bool \<times> control" where
  "note_refused_after_handshake c =
     (let refused = \<not> c_heard c
      in (refused, c\<lparr>c_refused_after_handshake := refused, c_key_rejected := refused \<and> c_completed_xx c\<rparr>))"

section \<open>A frame for the channel in the slot\<close>

definition receive_noise ::
    "('b, 'h, 'c) channel_lib \<Rightarrow> host \<Rightarrow> bytes \<Rightarrow> bool \<Rightarrow> control \<Rightarrow> ('h, 'c) channel option \<Rightarrow> files
     \<Rightarrow> (hive_message option \<times> noise_write list) res \<times> control \<times> ('h, 'c) channel option \<times> files" where
  "receive_noise lib h data is_binary c slot fs =
     (case slot of
        None \<Rightarrow> (Inl (Connection ''Noise transport is not connected''), c, slot, fs)
      | Some ch \<Rightarrow>
          (case receive lib h data is_binary ch fs of
             (r, ch', fs') \<Rightarrow>
               if ch_session ch \<noteq> None then
                 (r, (if ch_heard ch' then c\<lparr>c_heard := True\<rparr> else c), Some ch', fs')
               else
                 (r, (case r of
                        Inl e \<Rightarrow> note_failure e (Some ch') c
                      | Inr _ \<Rightarrow>
                          if ch_session ch' \<noteq> None
                          then c\<lparr>c_completed_xx := (ch_pattern ch' = Some NOISE_PATTERN_XX)\<rparr> else c),
                  Some ch', fs')))"

text \<open>Emptying the slot drops the channel, with what dropping it does to the store.\<close>

definition clear_noise ::
    "('b, 'h, 'c) channel_lib \<Rightarrow> host \<Rightarrow> ('h, 'c) channel option \<Rightarrow> files \<Rightarrow> ('h, 'c) channel option \<times> files" where
  "clear_noise lib h slot fs = (None, (case slot of None \<Rightarrow> fs | Some ch \<Rightarrow> drop_channel lib h ch fs))"

datatype dispatched = To_Bus event | To_Hive hive_message | Nowhere

definition dispatch_noise_message :: "(hive_message \<Rightarrow> json option) \<Rightarrow> hive_message option \<Rightarrow> dispatched" where
  "dispatch_noise_message to_value message =
     (case message of
        None \<Rightarrow> Nowhere
      | Some m \<Rightarrow>
          if msg_type m = ''bus'' then To_Bus (event_from_bus_payload (payload m) (to_value m))
          else if msg_type m \<in> {''query'', ''cascade'', ''bin'', ''broadcast'', ''propagate'', ''escalate'',
                                ''intercom'', ''rendezvous''}
          then To_Hive m else Nowhere)"

section \<open>Health\<close>

definition noise_health :: "health \<Rightarrow> bool \<Rightarrow> bool \<Rightarrow> health" where
  "noise_health hl ok cancelled =
     (let hl = (if cancelled
                then hl\<lparr>h_connected := False, h_handshake_complete := False, h_transport_alive := False,
                        h_connection := (h_connection hl)\<lparr>i_phase :=
                          (if i_phase (h_connection hl) \<noteq> Closed then Error else Closed)\<rparr>\<rparr>
                else hl);
          hl = hl\<lparr>h_handshake_complete := h_handshake_complete hl \<and> ok\<rparr>;
          interrupted = Some ''Noise session interrupted; reconnect required''
      in if \<not> ok \<and> i_phase (h_connection hl) = Ready
         then hl\<lparr>h_connected := False, h_transport_alive := False, h_last_error := interrupted,
                 h_connection := (h_connection hl)\<lparr>i_phase := Error, i_last_error := interrupted\<rparr>\<rparr>
         else hl)"

definition down_health :: "phase \<Rightarrow> health \<Rightarrow> health" where
  "down_health p hl =
     hl\<lparr>h_connected := False, h_handshake_complete := False, h_transport_alive := False,
        h_connection := (h_connection hl)\<lparr>i_phase := p\<rparr>\<rparr>"

definition error_health :: "string \<Rightarrow> health \<Rightarrow> health" where
  "error_health text hl =
     (let hl = down_health Error hl
      in hl\<lparr>h_last_error := Some text, h_connection := (h_connection hl)\<lparr>i_last_error := Some text\<rparr>\<rparr>)"

definition ready_health :: "duration \<Rightarrow> duration \<Rightarrow> duration \<Rightarrow> health \<Rightarrow> health" where
  "ready_health now started opened hl =
     hl\<lparr>h_connection := (h_connection hl)\<lparr>i_phase := Ready, i_connected_at := Some now,
        i_handshake_ms := Some (elapsed_ms opened now), i_connect_ms := Some (elapsed_ms started now),
        i_last_error := None\<rparr>\<rparr>"

lemma noise_health_complete:
  "h_handshake_complete (noise_health hl r cancelled) \<longleftrightarrow> h_handshake_complete hl \<and> r \<and> \<not> cancelled"
  by (simp add: noise_health_def Let_def)

section \<open>Connecting\<close>

text \<open>
  An attempt runs a transport's \<open>connect_locked\<close> on the control and the transport's own state. What
  the one before said is cleared first.
\<close>

type_synonym 's attempt = "control \<times> 's \<Rightarrow> unit res \<times> control \<times> 's"

definition connect_attempt :: "'s attempt \<Rightarrow> 's attempt" where
  "connect_attempt connect_locked cs =
     connect_locked (reset_link ((fst cs)\<lparr>c_verdict := None\<rparr>), snd cs)"

definition connect_kk_then_xx :: "'s attempt \<Rightarrow> 's attempt" where
  "connect_kk_then_xx connect_locked cs =
     (case connect_attempt connect_locked ((fst cs)\<lparr>c_kk_failed := False, c_force_xx := False\<rparr>, snd cs) of
        (Inr _, c, s) \<Rightarrow> (Inr (), c, s)
      | (Inl e, c, s) \<Rightarrow>
          if \<not> c_kk_failed c then (Inl e, c\<lparr>c_kk_failed := False\<rparr>, s)
          else (case connect_attempt connect_locked (c\<lparr>c_kk_failed := False, c_force_xx := True\<rparr>, s) of
                  (r, c, s) \<Rightarrow> (r, c\<lparr>c_force_xx := False\<rparr>, s)))"

text \<open>What a caller of \<open>connect\<close> does once it holds the lock, before an attempt of its own.\<close>

definition connect_gate :: "bool \<Rightarrow> health \<Rightarrow> control \<Rightarrow> unit res option" where
  "connect_gate joining hl c =
     (if h_connected hl \<and> h_handshake_complete hl \<and> \<not> c_cancelled c then Some (Inr ())
      else if joining
      then Some (Inl (Connection (case h_last_error hl of
             Some e \<Rightarrow> e
           | None \<Rightarrow> ''the shared connection attempt ended before authenticated readiness'')))
      else None)"

definition begin_attempt :: "control \<Rightarrow> control" where
  "begin_attempt c = c\<lparr>c_generation := c_generation c + 1, c_cancelled := False, c_active_attempt := True\<rparr>"

text \<open>The end of the attempt, however it ends: an incomplete one retires its own generation.\<close>

definition end_attempt :: "bool \<Rightarrow> control \<Rightarrow> control" where
  "end_attempt complete c =
     (let c = c\<lparr>c_active_attempt := False\<rparr> in if complete then c else c\<lparr>c_cancelled := True\<rparr>)"

definition owns_cleanup :: "64 word \<Rightarrow> control \<Rightarrow> bool" where
  "owns_cleanup generation c \<longleftrightarrow> c_generation c = generation"

definition connection_timeout :: thalovant_error where
  "connection_timeout = Timeout ''hub connection did not complete before its deadline''"

definition CLOSED_DURING :: thalovant_error where
  "CLOSED_DURING = Connection ''connection was closed during authentication''"

text \<open>
  \<open>race\<close> is \<open>connect_kk_then_xx\<close> raced with the deadline and the transport's retirement: its result when
  it ran to its end, or what cut it short, and the state it had come to.
\<close>

datatype cut = Deadline | Retired

definition connect_with_timeout ::
    "bool \<Rightarrow> health \<Rightarrow> (control \<times> 's \<Rightarrow> (cut + unit res) \<times> control \<times> 's) \<Rightarrow> 's attempt" where
  "connect_with_timeout joining hl race cs =
     (case connect_gate joining hl (fst cs) of
        Some r \<Rightarrow> (r, cs)
      | None \<Rightarrow>
          (case race (begin_attempt (fst cs), snd cs) of
             (outcome, c, s) \<Rightarrow>
               (let r = (case outcome of
                           Inr r \<Rightarrow> r
                         | Inl Deadline \<Rightarrow> Inl connection_timeout
                         | Inl Retired \<Rightarrow> Inl CLOSED_DURING)
                in (r, end_attempt (\<not> isl r) c, s))))"

section \<open>The folder of a key\<close>

text \<open>\<open>canonical\<close> is \<open>Path::canonicalize\<close>, which fails for what is not there.\<close>

definition same_dir :: "(string \<Rightarrow> string option) \<Rightarrow> string \<Rightarrow> string \<Rightarrow> bool" where
  "same_dir canonical left right =
     (case (canonical left, canonical right) of (Some l, Some r) \<Rightarrow> l = r | _ \<Rightarrow> left = right)"

record identity_key_folder_rule =
  kr_dir :: string
  kr_keep_here :: bool
  kr_adopt_from :: "string option"

text \<open>\<open>parent\<close> is the folder of the absolute path of the identity file, \<open>writable\<close> the probe.\<close>

definition identity_key_folder ::
    "(string \<Rightarrow> string option) \<Rightarrow> (string \<Rightarrow> bool) \<Rightarrow> string option \<Rightarrow> string option
     \<Rightarrow> identity_key_folder_rule option" where
  "identity_key_folder canonical writable parent default_dir =
     (case parent of
        None \<Rightarrow> None
      | Some dir \<Rightarrow>
          if (case default_dir of None \<Rightarrow> False | Some d \<Rightarrow> same_dir canonical dir d)
          then Some \<lparr>kr_dir = dir, kr_keep_here = False, kr_adopt_from = None\<rparr>
          else (let keep_here = writable dir
                in Some \<lparr>kr_dir = dir, kr_keep_here = keep_here,
                         kr_adopt_from = (if keep_here then default_dir else None)\<rparr>))"

text \<open>The rule applied to a client just built: the slot of the folder is filled only when it is empty.\<close>

definition use_identity_file ::
    "identity_key_folder_rule option \<Rightarrow> control \<Rightarrow> string option \<Rightarrow> control \<times> string option" where
  "use_identity_file rule c slot =
     (case rule of
        None \<Rightarrow> (c, slot)
      | Some r \<Rightarrow>
          (c\<lparr>c_key_folder := \<lparr>k_identity_dir = Some (kr_dir r), k_adopt_from = kr_adopt_from r\<rparr>\<rparr>,
           if kr_keep_here r then (case slot of None \<Rightarrow> Some (kr_dir r) | Some d \<Rightarrow> Some d) else slot))"

definition key_folders ::
    "(string \<Rightarrow> string option) \<Rightarrow> string option \<Rightarrow> string option \<Rightarrow> control \<Rightarrow> string option \<times> string option" where
  "key_folders canonical named default_dir c =
     (case or_else named default_dir of
        None \<Rightarrow> (None, None)
      | Some used \<Rightarrow>
          (Some used,
           find (\<lambda>d. \<not> same_dir canonical d used)
             (List.map_filter (\<lambda>x. x) [k_identity_dir (c_key_folder c), default_dir])))"

definition refusal_after_handshake ::
    "(string \<Rightarrow> string option) \<Rightarrow> (string \<Rightarrow> string) \<Rightarrow> string option \<Rightarrow> string option \<Rightarrow> control \<Rightarrow> thalovant_error" where
  "refusal_after_handshake canonical quote named default_dir c =
     (if \<not> c_key_rejected c
      then hub_refused ''the hub closed the link right after the handshake: it does not accept these credentials, or not yet''
      else (case key_folders canonical named default_dir c of
              (folder, other) \<Rightarrow> client_key_rejected quote folder other))"

section \<open>One retry, and only after KK\<close>

text \<open>An attempt watched: what \<open>force_xx\<close> said when it began, and how it ended, latest last.\<close>

definition watched ::
    "'s attempt \<Rightarrow> (bool \<times> unit res \<times> bool) list \<times> 's \<Rightarrow> control
     \<Rightarrow> unit res \<times> control \<times> (bool \<times> unit res \<times> bool) list \<times> 's" where
  "watched connect_locked ls c =
     (case connect_locked (c, snd ls) of
        (r, c', s') \<Rightarrow> (r, c', fst ls @ [(c_force_xx c, r, c_kk_failed c')], s'))"

text \<open>
  A connect makes one attempt, and a second one only when the first failed as a \<open>KK\<close> attempt that
  did not authenticate; that second one, and no other, is forced to \<open>XX\<close>, its outcome is the connect's
  whatever it is, and there is never a third. The flags that forced it are clear again after.
\<close>

theorem one_xx_retry:
  assumes "connect_kk_then_xx (\<lambda>(c, ls). watched connect_locked ls c) (c0, [], s0) = (r, c, log, s)"
  shows "\<exists>r1 kk1.
     (\<not> (isl r1 \<and> kk1) \<and> log = [(False, r1, kk1)] \<and> r = r1)
     \<or> (isl r1 \<and> kk1 \<and> (\<exists>kk2. log = [(False, r1, kk1), (True, r, kk2)]) \<and> \<not> c_force_xx c)"
proof -
  let ?c1 = "reset_link (c0\<lparr>c_kk_failed := False, c_force_xx := False, c_verdict := None\<rparr>)"
  obtain r1 c1 s1 where a1: "connect_locked (?c1, s0) = (r1, c1, s1)" by (metis prod.exhaust)
  let ?c2 = "reset_link (c1\<lparr>c_kk_failed := False, c_force_xx := True, c_verdict := None\<rparr>)"
  obtain r2 c2 s2 where a2: "connect_locked (?c2, s1) = (r2, c2, s2)" by (metis prod.exhaust)
  have f: "c_force_xx ?c1 = False" "c_force_xx ?c2 = True" by (simp_all add: reset_link_def)
  show ?thesis
  proof (cases r1)
    case (Inr x)
    then show ?thesis using assms a1 f(1)
      by (auto simp: connect_kk_then_xx_def connect_attempt_def watched_def)
  next
    case (Inl e)
    show ?thesis
    proof (cases "c_kk_failed c1")
      case False
      then have "(Inl e, c1\<lparr>c_kk_failed := False\<rparr>, [(False, Inl e, False)], s1) = (r, c, log, s)"
        unfolding assms [symmetric] connect_kk_then_xx_def connect_attempt_def
        using a1 f(1) Inl by (simp add: watched_def)
      then show ?thesis by (intro exI [of _ "Inl e"] exI [of _ False]) auto
    next
      case True
      then have "(r2, c2\<lparr>c_force_xx := False\<rparr>, [(False, Inl e, True), (True, r2, c_kk_failed c2)], s2) = (r, c, log, s)"
        unfolding assms [symmetric] connect_kk_then_xx_def connect_attempt_def
        using a1 a2 f Inl by (simp add: watched_def)
      then show ?thesis by (intro exI [of _ "Inl e"] exI [of _ True]) auto
    qed
  qed
qed

theorem one_xx_retry_witness:
  "\<exists>r c log. connect_kk_then_xx (\<lambda>(c, ls). watched (\<lambda>(c, n :: nat).
        if c_force_xx c then (Inl PIN_CHANGED, c, n) else (Inl REJECTED, c\<lparr>c_kk_failed := True\<rparr>, n)) ls c)
       (default_control, [], 0) = (r, c, log, 0)
     \<and> map fst log = [False, True] \<and> r = Inl PIN_CHANGED \<and> \<not> c_force_xx c"
proof -
  let ?f = "\<lambda>(c, n :: nat). if c_force_xx c then (Inl PIN_CHANGED, c, n) else (Inl REJECTED, c\<lparr>c_kk_failed := True\<rparr>, n)"
  have run: "connect_kk_then_xx (\<lambda>(c, ls). watched ?f ls c) (default_control, [], 0)
      = (Inl PIN_CHANGED, default_control, [(False, Inl REJECTED, True), (True, Inl PIN_CHANGED, False)], 0)"
    by (simp add: connect_kk_then_xx_def connect_attempt_def watched_def reset_link_def default_control_def)
  from one_xx_retry [OF run] have "\<not> c_force_xx default_control"
    by (elim exE disjE conjE) simp_all
  with run show ?thesis by (intro exI conjI) (assumption, simp_all)
qed

section \<open>The verdict\<close>

text \<open>
  What a handshake said about the credentials reaches whoever waits for it as it was said: a
  refusal or a changed hub key noted in the reading task is the very error the connect ends with, and is
  said once; an error that says nothing of the credentials leaves what was noted and the connect's own
  error; and a close that refuses during the handshake is a refusal, retried over \<open>XX\<close> exactly when \<open>KK\<close>
  was under way.
\<close>

theorem verdict_kept_typed:
  "(is_hub_refused e \<or> is_hub_key_changed e \<longrightarrow>
      fst (typed fallback (note_failure e ch c)) = e
      \<and> fst (typed fallback (snd (typed fallback (note_failure e ch c)))) = fallback
      \<and> (c_kk_failed (note_failure e ch c) \<longleftrightarrow>
           c_kk_failed c \<or> (\<exists>x. ch = Some x \<and> ch_kk_failed x)))
   \<and> (\<not> is_hub_refused e \<and> \<not> is_hub_key_changed e \<longrightarrow> note_failure e ch c = c)
   \<and> is_hub_refused (fst (typed fallback (note_refusal_close code pending c)))
   \<and> (c_kk_failed (note_refusal_close code pending c) \<longleftrightarrow> c_kk_failed c \<or> pending)"
proof -
  have refused: "\<exists>m. e = Connection m" if "is_hub_refused e \<or> is_hub_key_changed e"
    using that by (cases e) (auto simp: is_hub_refused_def is_hub_key_changed_def)
  have plain: "note_failure e ch c = c" if "\<not> is_hub_refused e" "\<not> is_hub_key_changed e"
    using that by (cases e) (simp_all add: note_failure_def)
  have kept: "fst (typed fallback (note_failure (Connection m) ch c)) = Connection m
      \<and> fst (typed fallback (snd (typed fallback (note_failure (Connection m) ch c)))) = fallback
      \<and> (c_kk_failed (note_failure (Connection m) ch c) \<longleftrightarrow> c_kk_failed c \<or> (\<exists>x. ch = Some x \<and> ch_kk_failed x))"
    if "is_hub_refused (Connection m) \<or> is_hub_key_changed (Connection m)" for m
    using that by (cases ch; cases "is_hub_refused (Connection m)") (simp_all add: note_failure_def typed_def Let_def)
  have close: "is_hub_refused (fst (typed fallback (note_refusal_close code pending c)))"
    "c_kk_failed (note_refusal_close code pending c) \<longleftrightarrow> c_kk_failed c \<or> pending"
    by (simp_all add: note_refusal_close_def Let_def typed_def into_connection_message_def hub_refused_def
        is_hub_refused_def)
  show ?thesis using refused plain kept close by blast
qed

theorem verdict_kept_typed_witness:
  "fst (typed connection_timeout (note_failure PIN_CHANGED None default_control)) = PIN_CHANGED"
proof -
  have "is_hub_key_changed PIN_CHANGED" by (simp add: PIN_CHANGED_def)
  with verdict_kept_typed [of PIN_CHANGED connection_timeout None default_control 1000 False]
  show ?thesis by blast
qed

section \<open>Joining and retiring an attempt\<close>

lemma connect_ready:
  "h_connected hl \<Longrightarrow> h_handshake_complete hl \<Longrightarrow> \<not> c_cancelled (fst cs) \<Longrightarrow>
   connect_with_timeout joining hl race cs = (Inr (), cs)"
  by (simp add: connect_with_timeout_def connect_gate_def)

text \<open>
  A caller that joined never makes an attempt, one of its own never ends without saying so on the
  control, and a failed one leaves a generation that only its own cleanup may touch.
\<close>

lemma connect_joined: "connect_with_timeout True hl race cs = (r, cs') \<Longrightarrow> cs' = cs"
  by (auto simp: connect_with_timeout_def connect_gate_def split: if_splits)

lemma connect_ends:
  assumes "connect_gate joining hl (fst cs) = None"
    and "connect_with_timeout joining hl race cs = (r, c', s')"
  shows "\<not> c_active_attempt c'" and "isl r \<Longrightarrow> c_cancelled c'"
    and "isl r \<or> (\<exists>c. race (begin_attempt (fst cs), snd cs) = (Inr (Inr ()), c, s') \<and> c' = c\<lparr>c_active_attempt := False\<rparr>)"
  using assms
  by (cases r; auto simp: connect_with_timeout_def end_attempt_def Let_def
      split: prod.splits sum.splits cut.splits if_splits)+

lemma begin_attempt_generation: "owns_cleanup g c \<Longrightarrow> \<not> owns_cleanup g (begin_attempt c)"
  by (simp add: owns_cleanup_def begin_attempt_def)

end
