(* ===== verification/Wss.thy ===== *)
theory Wss
  imports Connection "HOL-Library.Sublist"
begin

text \<open>
  \<open>src/src/transport.rs\<close>, \<open>WssTransport\<close>: a WebSocket under the shared channel. Its state is what the
  locks of \<open>WssTransportState\<close> guard, and a step is what runs while they are held; the socket is what each
  step is told of it. Beside the state the model keeps the frames the channel made for this link and
  the frames that reached the hub, which no code reads.
\<close>

section \<open>State\<close>

record ('b, 'h, 'c) wss_lib =
  wl_channel :: "('b, 'h, 'c) channel_lib"
  wl_display :: "thalovant_error \<Rightarrow> string"
  wl_to_value :: "hive_message \<Rightarrow> json option"

record ('h, 'c) wss =
  w_identity :: channel_identity
  w_control :: control
  w_valid :: bool
  w_closed_refused :: bool
  w_done :: "duration option"
  w_health :: health
  w_writer :: bool
  w_noise :: "('h, 'c) channel option"
  w_state_dir :: "string option"
  w_files :: files
  w_made :: "noise_write list"
  w_sent :: "noise_write list"

definition wss_new :: "channel_identity \<Rightarrow> string option \<Rightarrow> files \<Rightarrow> ('h, 'c) wss" where
  "wss_new idn dir fs =
     \<lparr>w_identity = idn, w_control = default_control, w_valid = False, w_closed_refused = False, w_done = None,
      w_health = default_health, w_writer = False, w_noise = None, w_state_dir = dir, w_files = fs,
      w_made = [], w_sent = []\<rparr>"

definition wss_healthcheck :: "('h, 'c) wss \<Rightarrow> health" where
  "wss_healthcheck w = noise_health (w_health w) (w_valid w) (c_cancelled (w_control w))"

definition wss_set_noise_state_dir :: "string option \<Rightarrow> ('h, 'c) wss \<Rightarrow> ('h, 'c) wss" where
  "wss_set_noise_state_dir dir w = w\<lparr>w_control := named_folder (w_control w), w_state_dir := dir\<rparr>"

definition wss_remote_static_key :: "('h, 'c) wss \<Rightarrow> string option" where
  "wss_remote_static_key w = (if \<not> w_valid w then None else Option.bind (w_noise w) remote_key)"

section \<open>Writing\<close>

text \<open>
  What the socket does with a frame. One that is cut off or breaks may have reached the hub all the
  same: the flag says whether it did.
\<close>

datatype io = Written | Broken bool string | Cut_Off bool

fun write_frames :: "io list \<Rightarrow> noise_write list \<Rightarrow> unit res option \<times> noise_write list" where
  "write_frames ios [] = (Some (Inr ()), [])"
| "write_frames ios (w # ws) =
     (if \<not> nw_binary w \<and> \<not> utf8_valid (nw_payload w)
      then (Some (Inl (Connection ''invalid Noise handshake JSON'')), [])
      else case ios of
             [] \<Rightarrow> (None, [])
           | Cut_Off reached # _ \<Rightarrow> (None, if reached then [w] else [])
           | Broken reached err # _ \<Rightarrow> (Some (Inl (Connection err)), if reached then [w] else [])
           | Written # ios \<Rightarrow> (case write_frames ios ws of (r, sent) \<Rightarrow> (r, w # sent)))"

definition NOT_CONNECTED :: thalovant_error where
  "NOT_CONNECTED = Connection ''HiveMind WSS transport is not connected''"

definition INTERRUPTED :: thalovant_error where
  "INTERRUPTED = Connection ''Noise session interrupted; reconnect required''"

definition write_noise_frames ::
    "bool \<Rightarrow> io list \<Rightarrow> noise_write list \<Rightarrow> unit res option \<times> noise_write list" where
  "write_noise_frames writer ios ws =
     (if \<not> writer then (Some (Inl NOT_CONNECTED), []) else write_frames ios ws)"

definition with_channel :: "(('h, 'c) channel \<Rightarrow> ('h, 'c) channel) \<Rightarrow> ('h, 'c) wss \<Rightarrow> ('h, 'c) wss" where
  "with_channel f w = w\<lparr>w_noise := map_option f (w_noise w)\<rparr>"

text \<open>
  The frames of one step go out with the channel marked failed, which only their full delivery takes
  back; the guard makes the session invalid unless the step commits. \<open>None\<close> is a step that was dropped.
\<close>

definition deliver_writes ::
    "io list \<Rightarrow> noise_write list \<Rightarrow> ('h, 'c) wss \<Rightarrow> unit res option \<times> ('h, 'c) wss" where
  "deliver_writes ios writes w =
     (let w = with_channel (\<lambda>ch. ch\<lparr>ch_failed := True\<rparr>) w
      in case write_noise_frames (w_writer w) ios writes of
           (r, sent) \<Rightarrow>
             (let w = w\<lparr>w_made := w_made w @ writes, w_sent := w_sent w @ sent\<rparr>
              in if r = Some (Inr ()) then (r, with_channel (\<lambda>ch. ch\<lparr>ch_failed := False\<rparr>) w)
                 else (r, w\<lparr>w_valid := False\<rparr>)))"

definition write_locked ::
    "('b, 'h, 'c) wss_lib \<Rightarrow> io list \<Rightarrow> hive_message \<Rightarrow> ('h, 'c) wss \<Rightarrow> unit res option \<times> ('h, 'c) wss" where
  "write_locked lib ios message w =
     (case w_noise w of
        None \<Rightarrow> (Some (Inl NOT_CONNECTED), w)
      | Some ch \<Rightarrow>
          if \<not> w_valid w then (Some (Inl INTERRUPTED), w)
          else (case encode (wl_channel lib) ch message of
                  (Inl e, ch) \<Rightarrow> (Some (Inl e), w\<lparr>w_noise := Some ch, w_valid := False\<rparr>)
                | (Inr writes, ch) \<Rightarrow> deliver_writes ios writes (w\<lparr>w_noise := Some ch\<rparr>)))"

section \<open>Reading\<close>

definition wss_ready :: "('h, 'c) wss \<Rightarrow> bool" where
  "wss_ready w = (case w_noise w of None \<Rightarrow> False | Some ch \<Rightarrow> ready ch)"

definition settle_frame :: "duration \<Rightarrow> ('h, 'c) wss \<Rightarrow> ('h, 'c) wss" where
  "settle_frame now w =
     (let w = w\<lparr>w_valid := wss_ready w\<rparr>
      in if wss_ready w
         then w\<lparr>w_done := or_else (w_done w) (Some now),
                w_health := (w_health w)\<lparr>h_handshake_complete := True, h_transport_alive := True\<rparr>\<rparr>
         else w)"

definition handle_socket_message ::
    "('b, 'h, 'c) wss_lib \<Rightarrow> host \<Rightarrow> duration \<Rightarrow> io list \<Rightarrow> bytes \<Rightarrow> bool \<Rightarrow> ('h, 'c) wss
     \<Rightarrow> unit res option \<times> dispatched \<times> ('h, 'c) wss" where
  "handle_socket_message lib h now ios data is_binary w =
     (case w_noise w of
        None \<Rightarrow> (Some (Inl NOT_CONNECTED), Nowhere, w)
      | Some ch \<Rightarrow>
          if ch_session ch \<noteq> None \<and> \<not> w_valid w then (Some (Inl INTERRUPTED), Nowhere, w)
          else (case receive_noise (wl_channel lib) h data is_binary (w_control w) (w_noise w) (w_files w) of
                  (r, c, slot, fs) \<Rightarrow>
                    (let w = w\<lparr>w_control := c, w_noise := slot, w_files := fs\<rparr>
                     in case r of
                          Inl e \<Rightarrow> (Some (Inl e), Nowhere, w\<lparr>w_valid := False\<rparr>)
                        | Inr (message, writes) \<Rightarrow>
                            (case deliver_writes ios writes w of
                               (r, w) \<Rightarrow>
                                 if r = Some (Inr ())
                                 then (r, dispatch_noise_message (wl_to_value lib) message, settle_frame now w)
                                 else (r, Nowhere, w)))))"

section \<open>The end of a link\<close>

definition reset_noise :: "('b, 'h, 'c) wss_lib \<Rightarrow> host \<Rightarrow> ('h, 'c) wss \<Rightarrow> ('h, 'c) wss" where
  "reset_noise lib h w =
     (case clear_noise (wl_channel lib) h (w_noise w) (w_files w) of
        (slot, fs) \<Rightarrow> w\<lparr>w_valid := False, w_noise := slot, w_files := fs\<rparr>)"

definition mark_error :: "('b, 'h, 'c) wss_lib \<Rightarrow> host \<Rightarrow> thalovant_error \<Rightarrow> ('h, 'c) wss \<Rightarrow> ('h, 'c) wss" where
  "mark_error lib h e w =
     (let w = reset_noise lib h w in w\<lparr>w_health := error_health (wl_display lib e) (w_health w)\<rparr>)"

definition mark_disconnected :: "('b, 'h, 'c) wss_lib \<Rightarrow> host \<Rightarrow> ('h, 'c) wss \<Rightarrow> ('h, 'c) wss" where
  "mark_disconnected lib h w =
     (let w = reset_noise lib h w in w\<lparr>w_health := down_health Closed (w_health w)\<rparr>)"

definition disconnect_inner :: "('b, 'h, 'c) wss_lib \<Rightarrow> host \<Rightarrow> ('h, 'c) wss \<Rightarrow> ('h, 'c) wss" where
  "disconnect_inner lib h w = mark_disconnected lib h (w\<lparr>w_writer := False\<rparr>)"

text \<open>A close frame: \<open>None\<close> is one without a status.\<close>

definition on_close ::
    "('b, 'h, 'c) wss_lib \<Rightarrow> host \<Rightarrow> duration \<Rightarrow> nat option \<Rightarrow> ('h, 'c) wss \<Rightarrow> ('h, 'c) wss" where
  "on_close lib h now frame w =
     (let code = (case frame of None \<Rightarrow> 1005 | Some c \<Rightarrow> c);
          closed_after = map_option (\<lambda>t. saturating_sub now t) (w_done w);
          c = w_control w;
          refused = close_refuses_after (Some code) closed_after 0 (c_heard c);
          c = c\<lparr>c_key_rejected := refused \<and> closed_after \<noteq> None \<and> c_completed_xx c\<rparr>;
          pending = (case w_noise w of None \<Rightarrow> False | Some ch \<Rightarrow> kk_pending ch);
          c = (if refused \<and> closed_after = None then note_refusal_close code pending c else c);
          w = mark_disconnected lib h (w\<lparr>w_closed_refused := refused, w_control := c\<rparr>);
          detail = (case frame of
                      Some c \<Rightarrow> ''WSS peer closed the connection (code '' @ show_nat c @ '')''
                    | None \<Rightarrow> ''WSS peer closed the connection without a status'')
      in w\<lparr>w_health := (w_health w)\<lparr>h_last_error := Some detail,
             h_connection := (h_connection (w_health w))\<lparr>i_last_error := Some detail\<rparr>\<rparr>\<rparr>)"

section \<open>A connect\<close>

text \<open>How the socket opened: it did, the upgrade was answered with a status, or it failed.\<close>

datatype socket_open = Opened | Answered nat string | Unreachable string

definition prepare_link :: "('b, 'h, 'c) wss_lib \<Rightarrow> host \<Rightarrow> duration \<Rightarrow> ('h, 'c) wss \<Rightarrow> ('h, 'c) wss" where
  "prepare_link lib h now w =
     (let w = disconnect_inner lib h w;
          c = w_control w;
          ch = adopting (k_adopt_from (c_key_folder c)) (channel_new (w_identity w) (w_state_dir w) (c_force_xx c))
      in w\<lparr>w_closed_refused := False, w_done := None, w_noise := Some ch,
           w_health := default_health\<lparr>h_connection := connecting_connection now\<rparr>, w_made := [], w_sent := []\<rparr>)"

definition open_link ::
    "('b, 'h, 'c) wss_lib \<Rightarrow> host \<Rightarrow> duration \<Rightarrow> string res \<Rightarrow> socket_open \<Rightarrow> duration \<Rightarrow> ('h, 'c) wss
     \<Rightarrow> unit res \<times> ('h, 'c) wss" where
  "open_link lib h started endpoint how opened w =
     (let w = prepare_link lib h started w
      in case endpoint of
           Inl e \<Rightarrow> (Inl e, mark_error lib h e w)
         | Inr _ \<Rightarrow>
             (case how of
                Opened \<Rightarrow>
                  (Inr (), w\<lparr>w_writer := True,
                     w_health := (w_health w)\<lparr>h_connected := True, h_transport_alive := True,
                       h_connection := (h_connection (w_health w))\<lparr>i_phase := Handshake,
                         i_transport_open_ms := Some (elapsed_ms started opened),
                         i_socket_open_ms := Some (elapsed_ms started opened)\<rparr>\<rparr>\<rparr>)
              | Answered status err \<Rightarrow>
                  if status \<in> {401, 403}
                  then (let e = hub_refused (''the hub refused the WebSocket upgrade (HTTP '' @ show_nat status @ '')'')
                        in (Inl e, mark_error lib h e (w\<lparr>w_closed_refused := True\<rparr>)))
                  else (Inl (Connection err), mark_error lib h (Connection err) w)
              | Unreachable err \<Rightarrow> (Inl (Connection err), mark_error lib h (Connection err) w)))"

text \<open>\<open>refusal\<close> is the error of a key the hub refused, which reads the folders.\<close>

definition finish_link ::
    "('b, 'h, 'c) wss_lib \<Rightarrow> host \<Rightarrow> (control \<Rightarrow> thalovant_error) \<Rightarrow> duration \<Rightarrow> duration \<Rightarrow> duration \<Rightarrow> ('h, 'c) wss
     \<Rightarrow> unit res \<times> ('h, 'c) wss" where
  "finish_link lib h refusal started opened now w =
     (if h_handshake_complete (wss_healthcheck w)
      then (Inr (), w\<lparr>w_health := ready_health now started opened (w_health w)\<rparr>)
      else (let cause = h_last_error (w_health w);
                w = disconnect_inner lib h w;
                c = w_control w;
                fallback = (case cause of
                    Some reason \<Rightarrow> Connection (''v3 Noise handshake did not complete: '' @ reason)
                  | None \<Rightarrow> Timeout ''HiveMind WSS handshake timed out'');
                (e, c) = (if c_key_rejected c then (refusal c, c) else typed fallback c)
            in (Inl e, mark_error lib h e (w\<lparr>w_control := c\<rparr>))))"

section \<open>The life of a transport\<close>

datatype wss_event =
    Opens host duration "string res" socket_open duration
  | Finishes host "control \<Rightarrow> thalovant_error" duration duration duration
  | Frame_Arrives host duration "io list" bytes bool
  | Reader_Fails host thalovant_error
  | Close_Arrives host duration "nat option"
  | Reader_Ends host
  | Sends "io list" hive_message
  | Disconnects host
  | Wss_Folder "string option"
  | Control_Set control
  | Others store_op

definition wss_step :: "('b, 'h, 'c) wss_lib \<Rightarrow> wss_event \<Rightarrow> ('h, 'c) wss \<Rightarrow> ('h, 'c) wss" where
  "wss_step lib e w =
     (case e of
        Opens h started endpoint how opened \<Rightarrow> snd (open_link lib h started endpoint how opened w)
      | Finishes h refusal started opened now \<Rightarrow> snd (finish_link lib h refusal started opened now w)
      | Frame_Arrives h now ios data is_binary \<Rightarrow>
          (case handle_socket_message lib h now ios data is_binary w of
             (Some (Inl err), _, w) \<Rightarrow> mark_error lib h err w
           | (_, _, w) \<Rightarrow> w)
      | Reader_Fails h err \<Rightarrow> mark_error lib h err w
      | Close_Arrives h now frame \<Rightarrow> on_close lib h now frame w
      | Reader_Ends h \<Rightarrow> if h_connected (w_health w) then mark_disconnected lib h w else w
      | Sends ios message \<Rightarrow> snd (write_locked lib ios message w)
      | Disconnects h \<Rightarrow> disconnect_inner lib h w
      | Wss_Folder dir \<Rightarrow> wss_set_noise_state_dir dir w
      | Control_Set c \<Rightarrow> w\<lparr>w_control := c\<rparr>
      | Others o1 \<Rightarrow> w\<lparr>w_files := store_step (cl_store (wl_channel lib)) (cl_hex (wl_channel lib)) o1 (w_files w)\<rparr>)"

end
