(* ===== verification/Carrier.thy ===== *)
theory Carrier
  imports Connection "HOL-Library.Sublist"
begin

text \<open>
  What the HTTPS and the MQTT transport of \<open>src/src/transport.rs\<close> share: a slot for the channel, the
  frames of one step written with the channel marked failed until all of them are out, and a step that
  may be refused, break half way or be dropped. Beside the state the model keeps the frames the channel
  made for this link and the ones that were delivered, which no code reads. The lemmas show that every
  such step keeps the delivered frames a beginning of the made ones, and a session on its pinned key.
\<close>

section \<open>Steps of a channel, as a slot sees them\<close>

lemma pinned_session_failed [simp]:
  "pinned_session lib (ch\<lparr>ch_failed := x\<rparr>) fs = pinned_session lib ch fs"
  by (simp add: pinned_session_def dir_of_def)

lemma receive_pinned:
  assumes laws: "store_laws (cl_store lib) (cl_hex lib)" and pin: "pinned_session lib ch fs"
    and r: "receive lib h d b ch fs = (r, ch', fs')"
  shows "pinned_session lib ch' fs' \<and> ch_state_dir ch' = ch_state_dir ch"
  using step_pinned [OF laws, of "(ch, fs)" "Frame_In h d b"] step_dir [OF laws, of "Frame_In h d b" "(ch, fs)"]
    pin r
  by (simp add: channel_step_def event_forgets_def)

lemma encode_pinned:
  assumes laws: "store_laws (cl_store lib) (cl_hex lib)" and pin: "pinned_session lib ch fs"
    and e: "encode lib ch m = (r, ch')"
  shows "pinned_session lib ch' fs \<and> ch_state_dir ch' = ch_state_dir ch"
  using step_pinned [OF laws, of "(ch, fs)" "Send_Out m"] step_dir [OF laws, of "Send_Out m" "(ch, fs)"] pin e
  by (simp add: channel_step_def event_forgets_def)

lemma elsewhere_pinned:
  assumes laws: "store_laws (cl_store lib) (cl_hex lib)" and pin: "pinned_session lib ch fs"
    and no: "\<not> (\<exists>d p n. o1 = Forget_Pin d p n)"
  shows "pinned_session lib ch (store_step (cl_store lib) (cl_hex lib) o1 fs)"
proof -
  have "\<not> forgets dir n o1" for dir n
    using no by (cases o1) (simp_all add: forgets_def)
  then show ?thesis
    using step_pinned [OF laws, of "(ch, fs)" "Elsewhere o1"] pin by (simp add: channel_step_def event_forgets_def)
qed

lemma receive_failed: "receive lib h d b ch fs = (Inl e, ch', fs') \<Longrightarrow> ch_failed ch'"
  by (auto simp: receive_def split: if_splits prod.splits sum.splits)

lemma receive_sound_before: "receive lib h d b ch fs = (Inr x, ch', fs') \<Longrightarrow> \<not> ch_failed ch"
  by (auto simp: receive_def)

lemma encode_sound_before:
  "encode lib ch m = (Inr ws, ch') \<Longrightarrow> \<not> ch_failed ch \<and> ch_session ch' \<noteq> None"
  by (erule encode_ok) simp

lemma receive_noise_cases:
  assumes "receive_noise lib h d b c (Some ch) fs = (r, c', slot, fs')"
  obtains ch' where "slot = Some ch'" "receive lib h d b ch fs = (r, ch', fs')"
  using assms by (auto simp: receive_noise_def split: prod.splits if_splits)

section \<open>State\<close>

record ('h, 'c) carrier =
  r_identity :: channel_identity
  r_control :: control
  r_health :: health
  r_noise :: "('h, 'c) channel option"
  r_state_dir :: "string option"
  r_files :: files
  r_made :: "noise_write list"
  r_sent :: "noise_write list"

definition with_slot ::
    "(('h, 'c) channel \<Rightarrow> ('h, 'c) channel) \<Rightarrow> ('h, 'c, 'z) carrier_scheme \<Rightarrow> ('h, 'c, 'z) carrier_scheme" where
  "with_slot f r = r\<lparr>r_noise := map_option f (r_noise r)\<rparr>"

definition slot_ready :: "('h, 'c, 'z) carrier_scheme \<Rightarrow> bool" where
  "slot_ready r = (case r_noise r of None \<Rightarrow> False | Some ch \<Rightarrow> ready ch)"

definition slot_in_session :: "('h, 'c, 'z) carrier_scheme \<Rightarrow> bool" where
  "slot_in_session r = (case r_noise r of None \<Rightarrow> False | Some ch \<Rightarrow> ch_session ch \<noteq> None)"

definition slot_health :: "('h, 'c, 'z) carrier_scheme \<Rightarrow> health" where
  "slot_health r = noise_health (r_health r) (slot_ready r) (c_cancelled (r_control r))"

definition slot_key :: "('h, 'c, 'z) carrier_scheme \<Rightarrow> string option" where
  "slot_key r = Option.bind (r_noise r) remote_key"

section \<open>Operations\<close>

text \<open>A fresh channel for a new link.\<close>

definition install_channel :: "('h, 'c, 'z) carrier_scheme \<Rightarrow> ('h, 'c, 'z) carrier_scheme" where
  "install_channel r =
     (let c = r_control r;
          ch = adopting (k_adopt_from (c_key_folder c)) (channel_new (r_identity r) (r_state_dir r) (c_force_xx c))
      in r\<lparr>r_noise := Some ch, r_made := [], r_sent := []\<rparr>)"

definition empty_slot ::
    "('b, 'h, 'c) channel_lib \<Rightarrow> host \<Rightarrow> ('h, 'c, 'z) carrier_scheme \<Rightarrow> ('h, 'c, 'z) carrier_scheme" where
  "empty_slot lib h r =
     (case clear_noise lib h (r_noise r) (r_files r) of (slot, fs) \<Rightarrow> r\<lparr>r_noise := slot, r_files := fs\<rparr>)"

text \<open>
  One frame after another. \<open>wr w (Some x)\<close> is what the write of \<open>w\<close> came to, told \<open>x\<close> of the network:
  whether it reached the hub, and its result; \<open>None\<close> is a write that was dropped half way.
\<close>

type_synonym 'x writer = "noise_write \<Rightarrow> 'x option \<Rightarrow> bool \<times> unit res option"

fun write_all :: "'x writer \<Rightarrow> 'x list \<Rightarrow> noise_write list \<Rightarrow> unit res option \<times> noise_write list" where
  "write_all wr xs [] = (Some (Inr ()), [])"
| "write_all wr xs (w # ws) =
     (case wr w (case xs of [] \<Rightarrow> None | x # _ \<Rightarrow> Some x) of
        (reached, r) \<Rightarrow>
          if r = Some (Inr ()) then (case write_all wr (tl xs) ws of (q, sent) \<Rightarrow> (q, w # sent))
          else (r, if reached then [w] else []))"

definition deliver ::
    "'x writer \<Rightarrow> 'x list \<Rightarrow> noise_write list \<Rightarrow> ('h, 'c, 'z) carrier_scheme
     \<Rightarrow> unit res option \<times> ('h, 'c, 'z) carrier_scheme" where
  "deliver wr xs writes r =
     (let r = with_slot (\<lambda>ch. ch\<lparr>ch_failed := True\<rparr>) r
      in case write_all wr xs writes of
           (q, sent) \<Rightarrow>
             (let r = r\<lparr>r_made := r_made r @ writes, r_sent := r_sent r @ sent\<rparr>
              in (q, if q = Some (Inr ()) then with_slot (\<lambda>ch. ch\<lparr>ch_failed := False\<rparr>) r else r)))"

text \<open>\<open>send_encrypted\<close>, with the error of a transport that is not connected.\<close>

definition send_encrypted ::
    "('b, 'h, 'c) channel_lib \<Rightarrow> thalovant_error \<Rightarrow> 'x writer \<Rightarrow> 'x list \<Rightarrow> hive_message
     \<Rightarrow> ('h, 'c, 'z) carrier_scheme \<Rightarrow> unit res option \<times> ('h, 'c, 'z) carrier_scheme" where
  "send_encrypted lib not_connected wr xs message r =
     (case r_noise r of
        None \<Rightarrow> (Some (Inl not_connected), r)
      | Some ch \<Rightarrow>
          (case encode lib ch message of
             (Inl e, ch) \<Rightarrow> (Some (Inl e), r\<lparr>r_noise := Some ch\<rparr>)
           | (Inr writes, ch) \<Rightarrow> deliver wr xs writes (r\<lparr>r_noise := Some ch\<rparr>)))"

text \<open>
  A write that holds the send path runs to its end, unless the transport is retired or its time runs out;
  it is then dropped half way (\<open>None\<close>). The flag says which of the two it was.
\<close>

definition write_unless_retired ::
    "bool \<Rightarrow> ('s \<Rightarrow> unit res option \<times> 's) \<Rightarrow> control \<Rightarrow> 's \<Rightarrow> unit res \<times> 's" where
  "write_unless_retired retired wr c s =
     (if c_cancelled c then (Inl (Connection ''transport retired; reconnect required''), s)
      else case wr s of
             (Some r, s) \<Rightarrow> (r, s)
           | (None, s) \<Rightarrow>
               (Inl (if retired then Connection ''transport closed during send''
                     else Timeout ''Noise message send timed out''), s))"

text \<open>A frame: refused, taken with what it wrote broken or dropped half way, or taken.\<close>

datatype frame_end = Refuses thalovant_error | Breaks thalovant_error | Stops | Takes "hive_message option"

definition take_frame ::
    "('b, 'h, 'c) channel_lib \<Rightarrow> host \<Rightarrow> 'x writer \<Rightarrow> 'x list \<Rightarrow> bytes \<Rightarrow> bool \<Rightarrow> ('h, 'c, 'z) carrier_scheme
     \<Rightarrow> frame_end \<times> ('h, 'c, 'z) carrier_scheme" where
  "take_frame lib h wr xs data is_binary r =
     (case receive_noise lib h data is_binary (r_control r) (r_noise r) (r_files r) of
        (q, c, slot, fs) \<Rightarrow>
          (let r = r\<lparr>r_control := c, r_noise := slot, r_files := fs\<rparr>
           in case q of
                Inl e \<Rightarrow> (Refuses e, r)
              | Inr (message, writes) \<Rightarrow>
                  (case deliver wr xs writes r of
                     (None, r) \<Rightarrow> (Stops, r)
                   | (Some (Inl e), r) \<Rightarrow> (Breaks e, r)
                   | (Some (Inr _), r) \<Rightarrow> (Takes message, r))))"

text \<open>
  A receive that is dropped while it runs in its blocking task: the channel is not put back, and is
  dropped with what it did to the files. Under a session nothing is awaited.
\<close>

definition abandon_frame ::
    "('b, 'h, 'c) channel_lib \<Rightarrow> host \<Rightarrow> bytes \<Rightarrow> bool \<Rightarrow> ('h, 'c, 'z) carrier_scheme
     \<Rightarrow> ('h, 'c, 'z) carrier_scheme" where
  "abandon_frame lib h data is_binary r =
     (case r_noise r of
        None \<Rightarrow> r
      | Some ch \<Rightarrow>
          if ch_session ch \<noteq> None then r
          else (case receive lib h data is_binary ch (r_files r) of
                  (_, ch, fs) \<Rightarrow> r\<lparr>r_noise := None, r_files := drop_channel lib h ch fs\<rparr>))"

section \<open>The invariant\<close>

definition sent_in_order :: "('h, 'c, 'z) carrier_scheme \<Rightarrow> bool" where
  "sent_in_order r \<longleftrightarrow>
     prefix (r_sent r) (r_made r)
     \<and> (\<forall>ch. r_noise r = Some ch \<longrightarrow> \<not> ch_failed ch \<longrightarrow> r_sent r = r_made r)"

definition slot_trusted :: "('b, 'h, 'c) channel_lib \<Rightarrow> ('h, 'c, 'z) carrier_scheme \<Rightarrow> bool" where
  "slot_trusted lib r \<longleftrightarrow>
     (\<forall>ch. r_noise r = Some ch \<longrightarrow> pinned_session lib ch (r_files r))"

definition carrier_inv :: "('b, 'h, 'c) channel_lib \<Rightarrow> ('h, 'c, 'z) carrier_scheme \<Rightarrow> bool" where
  "carrier_inv lib r \<longleftrightarrow> sent_in_order r \<and> slot_trusted lib r"

lemma carrier_inv_update [simp]:
  "carrier_inv lib (r\<lparr>r_health := hl\<rparr>) = carrier_inv lib r"
  "carrier_inv lib (r\<lparr>r_control := c\<rparr>) = carrier_inv lib r"
  "carrier_inv lib (r\<lparr>r_state_dir := dir\<rparr>) = carrier_inv lib r"
  by (simp_all add: carrier_inv_def sent_in_order_def slot_trusted_def)

lemma slot_views_update [simp]:
  "slot_ready (r\<lparr>r_health := hl\<rparr>) = slot_ready r" "slot_ready (r\<lparr>r_control := c\<rparr>) = slot_ready r"
  "slot_ready (r\<lparr>r_state_dir := dir\<rparr>) = slot_ready r" "slot_in_session (r\<lparr>r_state_dir := dir\<rparr>) = slot_in_session r"
  "slot_in_session (r\<lparr>r_health := hl\<rparr>) = slot_in_session r" "slot_in_session (r\<lparr>r_control := c\<rparr>) = slot_in_session r"
  by (simp_all add: slot_ready_def slot_in_session_def)

lemma ready_in_session: "slot_ready r \<Longrightarrow> slot_in_session r"
  by (auto simp: slot_ready_def slot_in_session_def ready_def split: option.splits)

lemma carrier_inv_empty: "r_noise r = None \<Longrightarrow> prefix (r_sent r) (r_made r) \<Longrightarrow> carrier_inv lib r"
  by (simp add: carrier_inv_def sent_in_order_def slot_trusted_def)

lemma carrier_inv_prefix: "carrier_inv lib r \<Longrightarrow> prefix (r_sent r) (r_made r)"
  by (simp add: carrier_inv_def sent_in_order_def)

lemma install_inv [simp]: "carrier_inv lib (install_channel r)" "\<not> slot_in_session (install_channel r)"
  by (simp_all add: carrier_inv_def sent_in_order_def slot_trusted_def install_channel_def Let_def
      pinned_session_def adopting_def channel_new_def slot_in_session_def)

lemma empty_slot_fields [simp]:
  "r_noise (empty_slot lib h r) = None" "r_sent (empty_slot lib h r) = r_sent r"
  "r_made (empty_slot lib h r) = r_made r" "r_health (empty_slot lib h r) = r_health r"
  "r_control (empty_slot lib h r) = r_control r" "\<not> slot_in_session (empty_slot lib h r)"
  "r_identity (empty_slot lib h r) = r_identity r"
  "carrier.more (empty_slot lib h r) = carrier.more r"
  by (simp_all add: empty_slot_def clear_noise_def slot_in_session_def)

lemma empty_slot_inv [simp]: "carrier_inv lib r \<Longrightarrow> carrier_inv lib (empty_slot lib h r)"
  by (intro carrier_inv_empty) (simp_all add: carrier_inv_prefix)

lemma write_all_prefix:
  "write_all wr xs ws = (q, sent) \<Longrightarrow> prefix sent ws \<and> (q = Some (Inr ()) \<longrightarrow> sent = ws)"
  by (induction wr xs ws arbitrary: q sent rule: write_all.induct) (auto split: if_splits prod.splits)

lemma deliver_inv:
  assumes w: "r_noise r = Some ch" and same: "r_sent r = r_made r" and pin: "slot_trusted lib r"
    and d: "deliver wr xs writes r = (q, r')"
  shows "carrier_inv lib r' \<and> (q = Some (Inr ()) \<longrightarrow> r_noise r' = Some (ch\<lparr>ch_failed := False\<rparr>))
    \<and> (q \<noteq> Some (Inr ()) \<longrightarrow> \<not> slot_ready r')
    \<and> slot_in_session r' = slot_in_session r \<and> r_control r' = r_control r \<and> r_health r' = r_health r
    \<and> carrier.more r' = carrier.more r"
proof -
  obtain p sent where s: "write_all wr xs writes = (p, sent)" by fastforce
  have pre: "prefix sent writes" "p = Some (Inr ()) \<Longrightarrow> sent = writes"
    using write_all_prefix [OF s] by simp_all
  have "ch\<lparr>ch_failed := True, ch_failed := False\<rparr> = ch\<lparr>ch_failed := False\<rparr>" by simp
  then show ?thesis
    using d w same pin s pre
    by (cases "p = Some (Inr ())")
      (auto simp: deliver_def with_slot_def Let_def carrier_inv_def sent_in_order_def slot_trusted_def
        slot_ready_def ready_def slot_in_session_def)
qed

lemma send_encrypted_inv:
  assumes laws: "store_laws (cl_store lib) (cl_hex lib)" and inv: "carrier_inv lib r"
    and s: "send_encrypted lib nc wr xs m r = (q, r')"
  shows "carrier_inv lib r' \<and> (slot_in_session r' \<longrightarrow> slot_in_session r) \<and> r_control r' = r_control r
    \<and> r_health r' = r_health r \<and> carrier.more r' = carrier.more r"
proof (cases "r_noise r")
  case None
  then show ?thesis using s inv by (simp add: send_encrypted_def)
next
  case (Some ch)
  obtain p ch' where e: "encode lib ch m = (p, ch')" by fastforce
  have pin: "slot_trusted lib (r\<lparr>r_noise := Some ch'\<rparr>)"
    using encode_pinned [OF laws _ e, of "r_files r"] inv Some by (simp add: carrier_inv_def slot_trusted_def)
  have ses: "ch_session ch' \<noteq> None \<Longrightarrow> ch_session ch \<noteq> None" using e by (auto simp: encode_def split: option.splits)
  show ?thesis
  proof (cases p)
    case (Inl err)
    have "ch_failed ch \<or> r_sent r = r_made r" using inv Some by (auto simp: carrier_inv_def sent_in_order_def)
    moreover have "ch_failed ch \<Longrightarrow> ch_failed ch'"
      using e by (auto simp: encode_def split: option.splits prod.splits if_splits)
    ultimately show ?thesis
      using s Some e pin ses inv Inl
      by (auto simp: send_encrypted_def carrier_inv_def sent_in_order_def slot_in_session_def)
  next
    case (Inr writes)
    then have d: "deliver wr xs writes (r\<lparr>r_noise := Some ch'\<rparr>) = (q, r')"
      using s Some e by (simp add: send_encrypted_def)
    have "\<not> ch_failed ch" using encode_sound_before e Inr by blast
    then have "r_sent (r\<lparr>r_noise := Some ch'\<rparr>) = r_made (r\<lparr>r_noise := Some ch'\<rparr>)"
      using inv Some by (simp add: carrier_inv_def sent_in_order_def)
    from deliver_inv [OF _ this pin d, of ch'] show ?thesis
      using ses Some by (auto simp: slot_in_session_def)
  qed
qed

lemma take_frame_inv:
  assumes laws: "store_laws (cl_store lib) (cl_hex lib)" and inv: "carrier_inv lib r"
    and t: "take_frame lib h wr xs d b r = (q, r')"
  shows "carrier_inv lib r' \<and> r_health r' = r_health r \<and> carrier.more r' = carrier.more r
    \<and> c_cancelled (r_control r') = c_cancelled (r_control r)"
proof -
  have cc: "c_cancelled (note_failure e x c) = c_cancelled c" for e and x :: "('b, 'c) channel option" and c
    by (simp add: note_failure_def Let_def split: thalovant_error.split option.split)
  obtain p c slot fs where rn: "receive_noise lib h d b (r_control r) (r_noise r) (r_files r) = (p, c, slot, fs)"
    by (metis prod.exhaust)
  then have cancelled: "c_cancelled c = c_cancelled (r_control r)"
    by (auto simp: receive_noise_def cc split: option.splits prod.splits if_splits sum.splits)
  let ?r = "r\<lparr>r_control := c, r_noise := slot, r_files := fs\<rparr>"
  show ?thesis
  proof (cases "r_noise r")
    case None
    then have "p = Inl (Connection ''Noise transport is not connected'')" "slot = None" "fs = r_files r"
      using rn by (simp_all add: receive_noise_def)
    then show ?thesis
      using t rn inv None cancelled by (auto simp: take_frame_def carrier_inv_def sent_in_order_def slot_trusted_def)
  next
    case (Some ch)
    then obtain ch' where slot: "slot = Some ch'" and rc: "receive lib h d b ch (r_files r) = (p, ch', fs)"
      using receive_noise_cases rn by metis
    have pin: "slot_trusted lib ?r"
      using receive_pinned [OF laws _ rc] inv Some slot by (simp add: carrier_inv_def slot_trusted_def)
    show ?thesis
    proof (cases p)
      case (Inl e)
      have "ch_failed ch'" using receive_failed rc Inl by blast
      then show ?thesis
        using t rn Inl inv pin slot cancelled by (auto simp: take_frame_def carrier_inv_def sent_in_order_def)
    next
      case (Inr x)
      obtain msg writes where x: "x = (msg, writes)" by fastforce
      have "\<not> ch_failed ch" using receive_sound_before rc Inr by blast
      then have same: "r_sent ?r = r_made ?r" using inv Some by (simp add: carrier_inv_def sent_in_order_def)
      obtain p2 r2 where dv: "deliver wr xs writes ?r = (p2, r2)" by fastforce
      note dw = deliver_inv [OF _ same pin dv, of ch']
      have "r' = r2" using t rn Inr x dv by (auto simp: take_frame_def split: option.splits sum.splits)
      with dw slot cancelled show ?thesis by auto
    qed
  qed
qed

lemma take_frame_more:
  "take_frame lib h wr xs d b r = (q, r') \<Longrightarrow> slot_in_session r' \<Longrightarrow> r_noise r \<noteq> None"
  by (cases "r_noise r") (auto simp: take_frame_def receive_noise_def slot_in_session_def)

lemma abandon_frame_inv:
  assumes "carrier_inv lib r"
  shows "carrier_inv lib (abandon_frame lib h d b r)"
proof (cases "r_noise r")
  case (Some ch)
  then show ?thesis
    using assms carrier_inv_prefix [OF assms]
    by (cases "ch_session ch = None")
      (auto simp: abandon_frame_def intro!: carrier_inv_empty split: prod.split)
qed (use assms in \<open>simp add: abandon_frame_def\<close>)

lemma elsewhere_inv:
  assumes "store_laws (cl_store lib) (cl_hex lib)" and "carrier_inv lib r"
    and "\<not> (\<exists>d p n. o1 = Forget_Pin d p n)"
  shows "carrier_inv lib (r\<lparr>r_files := store_step (cl_store lib) (cl_hex lib) o1 (r_files r)\<rparr>)"
  using elsewhere_pinned [OF assms(1) _ assms(3)] assms(2)
  by (simp add: carrier_inv_def sent_in_order_def slot_trusted_def)

text \<open>What a health check that reports the handshake complete stands on.\<close>

lemma complete_is_pinned:
  assumes inv: "carrier_inv lib r" and hc: "h_handshake_complete (slot_health r)"
  shows "\<not> c_cancelled (r_control r) \<and> r_sent r = r_made r
    \<and> (\<exists>ch key pin. r_noise r = Some ch \<and> ready ch \<and> slot_key r = Some key
         \<and> trusts (cl_store lib) (dir_of lib ch) (r_files r) (ch_node_id ch) = Some pin
         \<and> eq_ignore_ascii_case pin key)"
proof -
  have v: "slot_ready r" "\<not> c_cancelled (r_control r)"
    using hc by (simp_all add: slot_health_def noise_health_complete)
  then obtain ch where ch: "r_noise r = Some ch" "ready ch" by (auto simp: slot_ready_def split: option.splits)
  then obtain s where s: "ch_session ch = Some s" "\<not> ch_failed ch" by (auto simp: ready_def)
  obtain key pin where k: "s_remote_static_key s = Some key" "eq_ignore_ascii_case pin key"
    "trusts (cl_store lib) (dir_of lib ch) (r_files r) (ch_node_id ch) = Some pin"
    using inv ch s by (auto simp: carrier_inv_def slot_trusted_def pinned_session_def)
  have "slot_key r = Some key" using ch s k(1) by (simp add: slot_key_def remote_key_def)
  moreover have "r_sent r = r_made r" using inv ch s by (simp add: carrier_inv_def sent_in_order_def)
  ultimately show ?thesis using v ch k by blast
qed

section \<open>A handshake, as a slot sees it\<close>

lemma sample_take_frame:
  assumes "r_noise r = Some ch" and "r_files r = chan_files" and "ch_session ch = None"
    and "receive chan_lib calm_host d b ch chan_files = (Inr (None, ws), ch', chan_files)"
    and "\<not> ch_failed ch'" and "write_all wr xs ws = (Some (Inr ()), ws)"
  shows "\<exists>r'. take_frame chan_lib calm_host wr xs d b r = (Takes None, r')
    \<and> r_noise r' = Some ch' \<and> r_files r' = chan_files \<and> r_health r' = r_health r
    \<and> c_cancelled (r_control r') = c_cancelled (r_control r) \<and> carrier.more r' = carrier.more r"
proof -
  have "ch'\<lparr>ch_failed := True, ch_failed := False\<rparr> = ch'" "ch'\<lparr>ch_failed := False\<rparr> = ch'"
    using assms(5) by (cases ch'; simp)+
  then show ?thesis
    using assms by (simp add: take_frame_def receive_noise_def deliver_def with_slot_def Let_def)
qed

lemma sample_channels:
  "adopting None (channel_new sample_identity None False) = sample_start"
  "ch_session sample_start = None" "ch_session sample_greeted = None"
  "ch_session sample_negotiating = None" "ch_session sample_open \<noteq> None"
  "\<not> ch_failed sample_greeted" "\<not> ch_failed sample_negotiating" "\<not> ch_failed sample_open"
  "utf8_valid (nw_payload sample_shake)" "\<not> nw_binary sample_shake"
  by (simp_all add: sample_open_def sample_negotiating_def sample_greeted_def sample_start_def channel_new_def
      adopting_def sample_shake_def bytes_of_def)

end
