(* ===== verification/Wss_Safety.thy ===== *)
theory Wss_Safety
  imports Wss Carrier
begin

text \<open>
  What a WSS transport keeps over its life, whatever the socket, the hub and its callers do: frames
  reach the hub in the order the cipher made them and with none left out before another, a transport
  that reports itself ready has a working session with the pinned hub, and both survive writes that
  break or are dropped half way.
\<close>

section \<open>The invariant\<close>

definition in_order :: "('h, 'c) wss \<Rightarrow> bool" where
  "in_order w \<longleftrightarrow>
     prefix (w_sent w) (w_made w)
     \<and> (\<forall>ch. w_noise w = Some ch \<longrightarrow> \<not> ch_failed ch \<longrightarrow> w_sent w = w_made w)"

definition slot_pinned :: "('b, 'h, 'c) wss_lib \<Rightarrow> ('h, 'c) wss \<Rightarrow> bool" where
  "slot_pinned lib w \<longleftrightarrow>
     (\<forall>ch. w_noise w = Some ch \<longrightarrow>
        pinned_session (wl_channel lib) ch (w_files w))"

definition wss_inv :: "('b, 'h, 'c) wss_lib \<Rightarrow> ('h, 'c) wss \<Rightarrow> bool" where
  "wss_inv lib w \<longleftrightarrow> (w_valid w \<longrightarrow> wss_ready w) \<and> in_order w \<and> slot_pinned lib w"

lemma wss_inv_update [simp]:
  "wss_inv lib (w\<lparr>w_health := hl\<rparr>) = wss_inv lib w" "wss_inv lib (w\<lparr>w_control := c\<rparr>) = wss_inv lib w"
  "wss_inv lib (w\<lparr>w_writer := x\<rparr>) = wss_inv lib w"
  by (simp_all add: wss_inv_def in_order_def slot_pinned_def wss_ready_def)

lemma wss_inv_folder [simp]: "wss_inv lib (wss_set_noise_state_dir dir w) = wss_inv lib w"
  by (simp add: wss_inv_def in_order_def slot_pinned_def wss_ready_def wss_set_noise_state_dir_def)

lemma wss_inv_prefix: "wss_inv lib w \<Longrightarrow> prefix (w_sent w) (w_made w)"
  by (simp add: wss_inv_def in_order_def)

lemma wss_inv_new: "wss_inv lib (wss_new idn dir fs)"
  by (simp add: wss_inv_def in_order_def slot_pinned_def wss_new_def)

lemma wss_inv_empty:
  "w_noise w = None \<Longrightarrow> \<not> w_valid w \<Longrightarrow> prefix (w_sent w) (w_made w) \<Longrightarrow> wss_inv lib w"
  by (simp add: wss_inv_def in_order_def slot_pinned_def)

lemma write_frames_prefix:
  "write_frames ios ws = (r, sent) \<Longrightarrow> prefix sent ws \<and> (r = Some (Inr ()) \<longrightarrow> sent = ws)"
  by (induction ios ws arbitrary: r sent rule: write_frames.induct)
    (auto split: if_splits list.splits io.splits prod.splits)

lemma write_noise_frames_prefix:
  "write_noise_frames wr ios ws = (r, sent) \<Longrightarrow> prefix sent ws \<and> (r = Some (Inr ()) \<longrightarrow> sent = ws)"
  by (auto simp: write_noise_frames_def dest: write_frames_prefix split: if_splits)

lemma deliver_writes_inv:
  assumes w: "w_noise w = Some ch" and same: "w_sent w = w_made w" and pin: "slot_pinned lib w"
    and d: "deliver_writes ios writes w = (r, w')"
  shows "in_order w' \<and> slot_pinned lib w'
    \<and> (r = Some (Inr ()) \<longrightarrow> w_noise w' = Some (ch\<lparr>ch_failed := False\<rparr>) \<and> w_valid w' = w_valid w)
    \<and> (r \<noteq> Some (Inr ()) \<longrightarrow> \<not> w_valid w')"
proof -
  obtain q sent where s: "write_noise_frames (w_writer w) ios writes = (q, sent)" by fastforce
  have p: "prefix sent writes" "q = Some (Inr ()) \<Longrightarrow> sent = writes"
    using write_noise_frames_prefix [OF s] by simp_all
  have "ch\<lparr>ch_failed := True, ch_failed := False\<rparr> = ch\<lparr>ch_failed := False\<rparr>" by simp
  then show ?thesis
    using d w same pin s p
    by (cases "q = Some (Inr ())")
      (auto simp: deliver_writes_def with_channel_def Let_def in_order_def slot_pinned_def)
qed

lemma write_locked_inv:
  assumes laws: "store_laws (cl_store (wl_channel lib)) (cl_hex (wl_channel lib))" and inv: "wss_inv lib w"
    and wl: "write_locked lib ios m w = (r, w')"
  shows "wss_inv lib w'"
proof (cases "w_noise w")
  case None
  then show ?thesis using wl inv by (simp add: write_locked_def)
next
  case (Some ch)
  show ?thesis
  proof (cases "w_valid w")
    case False
    then show ?thesis using wl inv Some by (simp add: write_locked_def)
  next
    case True
    obtain q ch' where e: "encode (wl_channel lib) ch m = (q, ch')" by fastforce
    have pin: "slot_pinned lib (w\<lparr>w_noise := Some ch'\<rparr>)"
      using encode_pinned [OF laws _ e, of "w_files w"] inv Some by (simp add: wss_inv_def slot_pinned_def)
    have ok: "\<not> ch_failed ch" using inv True Some by (simp add: wss_inv_def wss_ready_def ready_def)
    then have same: "w_sent w = w_made w" using inv Some by (simp add: wss_inv_def in_order_def)
    show ?thesis
    proof (cases q)
      case (Inl err)
      then show ?thesis
        using wl Some True e pin same by (auto simp: write_locked_def wss_inv_def in_order_def slot_pinned_def)
    next
      case (Inr writes)
      then have d: "deliver_writes ios writes (w\<lparr>w_noise := Some ch'\<rparr>) = (r, w')"
        using wl Some True e by (simp add: write_locked_def)
      have "ch_session ch' \<noteq> None" using encode_sound_before e Inr by blast
      with deliver_writes_inv [OF _ _ pin d, of ch'] same show ?thesis
        by (cases "r = Some (Inr ())") (auto simp: wss_inv_def wss_ready_def ready_def)
    qed
  qed
qed

lemma settle_frame_fields [simp]:
  "w_noise (settle_frame now w) = w_noise w" "w_valid (settle_frame now w) = wss_ready w"
  "w_sent (settle_frame now w) = w_sent w" "w_made (settle_frame now w) = w_made w"
  "w_files (settle_frame now w) = w_files w" "w_state_dir (settle_frame now w) = w_state_dir w"
  by (simp_all add: settle_frame_def Let_def)

lemma handle_inv:
  assumes laws: "store_laws (cl_store (wl_channel lib)) (cl_hex (wl_channel lib))" and inv: "wss_inv lib w"
    and hs: "handle_socket_message lib h now ios d b w = (r, m, w')"
  shows "wss_inv lib w'"
proof (cases "w_noise w")
  case None
  then show ?thesis using hs inv by (simp add: handle_socket_message_def)
next
  case (Some ch)
  show ?thesis
  proof (cases "ch_session ch \<noteq> None \<and> \<not> w_valid w")
    case True
    then show ?thesis using hs inv Some by (simp add: handle_socket_message_def)
  next
    case False
    obtain q c slot fs where rn: "receive_noise (wl_channel lib) h d b (w_control w) (Some ch) (w_files w) = (q, c, slot, fs)"
      by (metis prod.exhaust)
    then obtain ch' where slot: "slot = Some ch'"
      and rc: "receive (wl_channel lib) h d b ch (w_files w) = (q, ch', fs)" by (rule receive_noise_cases)
    let ?w = "w\<lparr>w_control := c, w_noise := Some ch', w_files := fs\<rparr>"
    have pin: "slot_pinned lib ?w"
      using receive_pinned [OF laws _ rc] inv Some by (simp add: wss_inv_def slot_pinned_def)
    show ?thesis
    proof (cases q)
      case (Inl e)
      then have w': "w' = ?w\<lparr>w_valid := False\<rparr>"
        using hs Some False rn slot by (auto simp: handle_socket_message_def)
      have "ch_failed ch'" using receive_failed rc Inl by blast
      with inv pin w' show ?thesis by (auto simp: wss_inv_def in_order_def slot_pinned_def)
    next
      case (Inr x)
      obtain msg writes where x: "x = (msg, writes)" by fastforce
      have "\<not> ch_failed ch" using receive_sound_before rc Inr by blast
      then have same: "w_sent w = w_made w" using inv Some by (simp add: wss_inv_def in_order_def)
      obtain q2 w2 where d: "deliver_writes ios writes ?w = (q2, w2)" by fastforce
      note dw = deliver_writes_inv [OF _ _ pin d, of ch']
      have "w' = (if q2 = Some (Inr ()) then settle_frame now w2 else w2)"
        using hs Some False rn slot Inr x d by (auto simp: handle_socket_message_def split: if_splits)
      with dw same show ?thesis
        by (auto simp: wss_inv_def in_order_def slot_pinned_def wss_ready_def)
    qed
  qed
qed

lemma reset_fields [simp]:
  "w_noise (reset_noise lib h w) = None" "\<not> w_valid (reset_noise lib h w)"
  "w_sent (reset_noise lib h w) = w_sent w" "w_made (reset_noise lib h w) = w_made w"
  by (simp_all add: reset_noise_def clear_noise_def)

lemma ended_inv:
  assumes "prefix (w_sent w) (w_made w)"
  shows "wss_inv lib (mark_error lib h e w)" "wss_inv lib (mark_disconnected lib h w)"
    "wss_inv lib (disconnect_inner lib h w)"
  using assms
  by (auto intro!: wss_inv_empty simp: mark_error_def mark_disconnected_def disconnect_inner_def Let_def)

lemma on_close_inv: "prefix (w_sent w) (w_made w) \<Longrightarrow> wss_inv lib (on_close lib h now frame w)"
  by (intro wss_inv_empty) (simp_all add: on_close_def mark_disconnected_def Let_def)

lemma prepare_fields [simp]:
  "w_sent (prepare_link lib h now w) = []" "w_made (prepare_link lib h now w) = []"
  "\<not> w_valid (prepare_link lib h now w)" "w_state_dir (prepare_link lib h now w) = w_state_dir w"
  by (simp_all add: prepare_link_def Let_def disconnect_inner_def mark_disconnected_def reset_noise_def
      clear_noise_def)

lemma prepare_pinned: "slot_pinned lib (prepare_link lib h now w)"
  by (simp add: slot_pinned_def pinned_session_def prepare_link_def adopting_def channel_new_def Let_def
      disconnect_inner_def mark_disconnected_def reset_noise_def clear_noise_def)

lemma open_link_inv: "wss_inv lib (snd (open_link lib h started endpoint how opened w))"
proof -
  have "wss_inv lib (prepare_link lib h started w)"
    using prepare_pinned by (simp add: wss_inv_def in_order_def)
  then show ?thesis
    by (auto simp: open_link_def Let_def intro!: ended_inv split: sum.split socket_open.split)
qed

lemma finish_link_inv:
  assumes "wss_inv lib w"
  shows "wss_inv lib (snd (finish_link lib h refusal started opened now w))"
proof -
  have "prefix (w_sent (disconnect_inner lib h w)) (w_made (disconnect_inner lib h w))"
    using wss_inv_prefix [OF assms] by (simp add: disconnect_inner_def mark_disconnected_def Let_def)
  with assms show ?thesis
    by (auto simp: finish_link_def Let_def intro!: ended_inv split: prod.split)
qed

definition wss_forgets :: "wss_event \<Rightarrow> bool" where
  "wss_forgets e = (case e of Others o1 \<Rightarrow> (case o1 of Forget_Pin _ _ _ \<Rightarrow> True | _ \<Rightarrow> False) | _ \<Rightarrow> False)"

lemma others_inv:
  assumes laws: "store_laws (cl_store (wl_channel lib)) (cl_hex (wl_channel lib))" and inv: "wss_inv lib w"
    and no: "\<not> wss_forgets (Others o1)"
  shows "wss_inv lib (wss_step lib (Others o1) w)"
proof -
  have "\<not> (\<exists>d p n. o1 = Forget_Pin d p n)" using no by (auto simp: wss_forgets_def)
  note pinned = elsewhere_pinned [OF laws _ this]
  from inv show ?thesis
    using pinned by (simp add: wss_step_def wss_inv_def in_order_def slot_pinned_def wss_ready_def)
qed

lemma wss_step_inv:
  assumes laws: "store_laws (cl_store (wl_channel lib)) (cl_hex (wl_channel lib))" and inv: "wss_inv lib w"
    and no: "\<not> wss_forgets e"
  shows "wss_inv lib (wss_step lib e w)"
proof (cases e)
  case (Frame_Arrives h now ios d b)
  obtain r m w' where hs: "handle_socket_message lib h now ios d b w = (r, m, w')" by (metis prod.exhaust)
  have "wss_inv lib w'" by (rule handle_inv [OF laws inv hs])
  moreover from this have "prefix (w_sent w') (w_made w')" by (simp add: wss_inv_def in_order_def)
  ultimately show ?thesis
    using Frame_Arrives hs by (auto simp: wss_step_def intro: ended_inv split: option.split sum.split)
next
  case (Sends ios m)
  then show ?thesis
    using write_locked_inv [OF laws inv surjective_pairing] by (simp add: wss_step_def)
next
  case (Others o1)
  then show ?thesis using others_inv [OF laws inv] no by simp
next
  case (Opens h started endpoint how opened)
  then show ?thesis by (simp add: wss_step_def open_link_inv)
next
  case (Finishes h refusal started opened now)
  then show ?thesis using finish_link_inv [OF inv] by (simp add: wss_step_def)
qed (use inv in \<open>auto simp: wss_step_def intro!: ended_inv on_close_inv dest: wss_inv_prefix\<close>)

text \<open>The invariant holds over the whole life of a transport: it is never cleared.\<close>

interpretation wss_life: sticky "wss_step lib" "\<lambda>w. if wss_inv lib w then Some () else None" wss_forgets
    "\<lambda>_. store_laws (cl_store (wl_channel lib)) (cl_hex (wl_channel lib))" for lib
  by unfold_locales (auto dest: wss_step_inv split: if_splits)

lemma wss_run_inv:
  assumes "store_laws (cl_store (wl_channel lib)) (cl_hex (wl_channel lib))" and "wss_inv lib w"
    and "\<forall>e \<in> set es. \<not> wss_forgets e"
  shows "wss_inv lib (run_steps (wss_step lib) es w)"
  using wss_life.slot_run [OF assms(1), of w "()" es] assms(2,3) by (auto split: if_splits)

section \<open>What follows\<close>

text \<open>
  Frames go to the hub in the order the cipher made them. Over any life of a transport, what
  reached the hub on the present link is the beginning of what the channel made for it, and all of it
  while the session counts as valid: a write that broke or was dropped half way is never followed by
  another frame, so a hub that follows the counter is never shown a gap.
\<close>

theorem wss_wire_order:
  assumes "store_laws (cl_store (wl_channel lib)) (cl_hex (wl_channel lib))"
    and "\<forall>e \<in> set es. \<not> wss_forgets e" and "w = run_steps (wss_step lib) es (wss_new idn dir fs)"
  shows "prefix (w_sent w) (w_made w)
    \<and> (w_valid w \<longrightarrow> w_sent w = w_made w)
    \<and> (w_sent w \<noteq> w_made w \<longrightarrow>
        (\<forall>ios m. w_sent (snd (write_locked lib ios m w)) = w_sent w)
        \<and> (\<forall>h now ios d b. w_sent (snd (snd (handle_socket_message lib h now ios d b w))) = w_sent w))"
proof -
  have inv: "wss_inv lib w" using wss_run_inv [OF assms(1) wss_inv_new assms(2)] assms(3) by simp
  have one: "prefix (w_sent w) (w_made w)" "w_valid w \<longrightarrow> w_sent w = w_made w"
    using inv by (auto simp: wss_inv_def in_order_def wss_ready_def ready_def split: option.splits)
  have stuck: "w_sent (snd (write_locked lib ios m w)) = w_sent w
      \<and> w_sent (snd (snd (handle_socket_message lib h now ios' d b w))) = w_sent w"
    if gap: "w_sent w \<noteq> w_made w" for ios m h now ios' d b
  proof (cases "w_noise w")
    case None
    then show ?thesis by (simp add: write_locked_def handle_socket_message_def)
  next
    case (Some ch)
    have failed: "ch_failed ch" and invalid: "\<not> w_valid w"
      using inv gap Some one(2) by (auto simp: wss_inv_def in_order_def)
    from failed have "receive (wl_channel lib) h d b ch fs = (Inl (Connection ''Noise session failed; reconnect required''), ch, fs)" for fs
      by (rule failed_refuses)
    then show ?thesis
      using Some invalid
      by (auto simp: write_locked_def handle_socket_message_def receive_noise_def split: prod.split)
  qed
  from one stuck show ?thesis by blast
qed


section \<open>A transport that connects\<close>

definition sample_wss_lib :: "(nat, nat, nat) wss_lib" where
  "sample_wss_lib = \<lparr>wl_channel = chan_lib, wl_display = (\<lambda>_. []), wl_to_value = (\<lambda>_. None)\<rparr>"

definition sample_events :: "wss_event list" where
  "sample_events =
     [Opens calm_host 0 (Inr []) Opened 0, Frame_Arrives calm_host 0 [] [1] False,
      Frame_Arrives calm_host 0 [Written] [2] False, Frame_Arrives calm_host 0 [Written, Written] [3] False]"

lemma sample_wss_run:
  "w_valid (run_steps (wss_step sample_wss_lib) sample_events (wss_new sample_identity None chan_files))
   \<and> h_handshake_complete (wss_healthcheck
       (run_steps (wss_step sample_wss_lib) sample_events (wss_new sample_identity None chan_files)))"
proof -
  let ?step = "wss_step sample_wss_lib"
  let ?w = "wss_new sample_identity None chan_files :: (nat, nat) wss"
  have l: "wl_channel sample_wss_lib = chan_lib" by (simp add: sample_wss_lib_def)
  have start: "adopting None (channel_new sample_identity None False) = sample_start"
    by (simp add: adopting_def sample_start_def channel_new_def)
  obtain w1 where w1: "?step (Opens calm_host 0 (Inr []) Opened 0) ?w = w1" by simp
  have f1: "w_noise w1 = Some sample_start" "w_writer w1" "w_files w1 = chan_files" "\<not> w_valid w1"
      "\<not> c_cancelled (w_control w1)"
    by (simp_all add: w1 [symmetric] wss_step_def open_link_def prepare_link_def disconnect_inner_def
        mark_disconnected_def reset_noise_def clear_noise_def wss_new_def default_control_def start)
  have none: "ch_session sample_start = None" "ch_session sample_greeted = None"
    "ch_session sample_negotiating = None" "ch_session sample_open \<noteq> None"
    "\<not> ch_failed sample_greeted" "\<not> ch_failed sample_negotiating" "\<not> ch_failed sample_open"
    by (simp_all add: sample_open_def sample_negotiating_def sample_greeted_def sample_start_def channel_new_def)
  have shake: "utf8_valid (nw_payload sample_shake)" "\<not> nw_binary sample_shake"
    by (simp_all add: sample_shake_def bytes_of_def)
  have frame: "w_noise (?step (Frame_Arrives calm_host 0 ios d False) w) = Some ch'
      \<and> w_writer (?step (Frame_Arrives calm_host 0 ios d False) w)
      \<and> w_files (?step (Frame_Arrives calm_host 0 ios d False) w) = chan_files
      \<and> w_valid (?step (Frame_Arrives calm_host 0 ios d False) w) = (ch_session ch' \<noteq> None)
      \<and> (ch_session ch' \<noteq> None \<longrightarrow> h_handshake_complete (w_health (?step (Frame_Arrives calm_host 0 ios d False) w)))
      \<and> c_cancelled (w_control (?step (Frame_Arrives calm_host 0 ios d False) w)) = c_cancelled (w_control w)"
    if "w_noise w = Some ch" "w_writer w" "w_files w = chan_files" "ch_session ch = None"
      "receive chan_lib calm_host d False ch chan_files = (Inr (None, ws), ch', chan_files)" "\<not> ch_failed ch'"
      "write_frames ios ws = (Some (Inr ()), ws)" for w ch ios d ws ch'
  proof -
    have "ch'\<lparr>ch_failed := True, ch_failed := False\<rparr> = ch'" "ch'\<lparr>ch_failed := False\<rparr> = ch'"
      using that(6) by (cases ch'; simp)+
    with that show ?thesis
      by (simp add: wss_step_def handle_socket_message_def receive_noise_def l deliver_writes_def
          with_channel_def write_noise_frames_def settle_frame_def wss_ready_def ready_def Let_def)
  qed
  obtain fr where ans: "receive chan_lib calm_host [3] False sample_negotiating chan_files =
      (Inr (None, [sample_shake, \<lparr>nw_payload = fr, nw_binary = True\<rparr>]), sample_open, chan_files)"
    using receive_sample_answer by blast
  obtain w2 where w2: "?step (Frame_Arrives calm_host 0 [] [1] False) w1 = w2" by simp
  have f2: "w_noise w2 = Some sample_greeted" "w_writer w2" "w_files w2 = chan_files"
      "\<not> c_cancelled (w_control w2)"
    using frame [OF f1(1-3) none(1) receive_sample_hello, of "[]"] none f1(5) w2 by simp_all
  obtain w3 where w3: "?step (Frame_Arrives calm_host 0 [Written] [2] False) w2 = w3" by simp
  have f3: "w_noise w3 = Some sample_negotiating" "w_writer w3" "w_files w3 = chan_files"
      "\<not> c_cancelled (w_control w3)"
    using frame [OF f2(1-3) none(2) receive_sample_offer, of "[Written]"] none f2(4) w3 shake by simp_all
  show ?thesis
    using frame [OF f3(1-3) none(3) ans, of "[Written, Written]"] none f3(4) shake w1 w2 w3
    by (simp add: sample_events_def wss_healthcheck_def noise_health_complete)
qed


theorem wss_wire_order_witness:
  "w_sent (run_steps (wss_step sample_wss_lib) sample_events (wss_new sample_identity None chan_files))
   = w_made (run_steps (wss_step sample_wss_lib) sample_events (wss_new sample_identity None chan_files))"
proof -
  have l: "store_laws (cl_store (wl_channel sample_wss_lib)) (cl_hex (wl_channel sample_wss_lib))"
    using sample_laws by (simp add: sample_wss_lib_def chan_lib_def)
  have no: "\<forall>e \<in> set sample_events. \<not> wss_forgets e" by (simp add: sample_events_def wss_forgets_def)
  show ?thesis
    using wss_wire_order [OF l no refl, of sample_identity None chan_files] sample_wss_run by blast
qed

end
