(* ===== verification/Http.thy ===== *)
theory Http
  imports Carrier
begin

text \<open>
  \<open>src/src/transport.rs\<close>, \<open>HttpTransport\<close>: the channel over a hub's HTTPS endpoint, whose messages are
  fetched by polling. Every request is answered by something the hub or the network does, given here as
  an \<open>exchange\<close>; what counts as an acknowledgement is the code's. A step is what runs while the lifecycle
  lock is held. Beside the state the model keeps the session requests the code took as acknowledged, each with
  the answer it was taken from.
\<close>

section \<open>State\<close>

text \<open>The parts that are not the transport's: the channel's, the printer of errors, URLs, base64, JSON.\<close>

record ('b, 'h, 'c) http_lib =
  hl_channel :: "('b, 'h, 'c) channel_lib"
  hl_display :: "thalovant_error \<Rightarrow> string"
  hl_to_value :: "hive_message \<Rightarrow> json option"
  hl_scheme :: "string \<Rightarrow> string option"
  hl_status :: "nat \<Rightarrow> string"
  hl_base64_decode :: "string \<Rightarrow> bytes option"
  hl_to_vec :: "json \<Rightarrow> string + bytes"

record ('h, 'c) http = "('h, 'c) carrier" +
  a_base_url :: string
  a_admitted :: bool
  a_posts :: "(string \<times> json) list"

definition http_new :: "channel_identity \<Rightarrow> string \<Rightarrow> string option \<Rightarrow> files \<Rightarrow> ('h, 'c) http" where
  "http_new idn base_url dir fs =
     \<lparr>r_identity = idn, r_control = default_control, r_health = default_health, r_noise = None,
      r_state_dir = dir, r_files = fs, r_made = [], r_sent = [],
      a_base_url = base_url, a_admitted = False, a_posts = []\<rparr>"

definition http_healthcheck :: "('h, 'c) http \<Rightarrow> health" where
  "http_healthcheck w = slot_health w"

definition http_remote_static_key :: "('h, 'c) http \<Rightarrow> string option" where
  "http_remote_static_key w = slot_key w"

definition http_set_noise_state_dir :: "string option \<Rightarrow> ('h, 'c) http \<Rightarrow> ('h, 'c) http" where
  "http_set_noise_state_dir dir w = w\<lparr>r_control := named_folder (r_control w), r_state_dir := dir\<rparr>"

section \<open>One request\<close>

text \<open>
  What a request met: an answer with its status and its body (\<open>None\<close> is one that is not JSON), a
  failure to send it, its 20 seconds running out, or its future dropped. The flag of the last three
  says whether the hub saw it all the same.
\<close>

datatype exchange =
    Answer nat "json option"
  | Unsent bool string
  | Too_Slow bool
  | Let_Go bool

fun seen_by_hub :: "exchange \<Rightarrow> bool" where
  "seen_by_hub (Answer _ _) = True"
| "seen_by_hub (Unsent b _) = b"
| "seen_by_hub (Too_Slow b) = b"
| "seen_by_hub (Let_Go b) = b"

definition already_disconnected :: "string \<Rightarrow> json \<Rightarrow> bool" where
  "already_disconnected path body \<longleftrightarrow>
     path = ''/disconnect''
     \<and> (case as_object body of
          None \<Rightarrow> False
        | Some m \<Rightarrow>
            length m = 1
            \<and> get_str m ''error'' \<in> {Some ''Already Disconnected'', Some ''Client is not connected''})"

definition acknowledged :: "string \<Rightarrow> json \<Rightarrow> bool" where
  "acknowledged path body =
     (let status = Option.bind (as_object body) (\<lambda>m. get_str m ''status'')
      in if path = ''/connect'' then status = Some ''Connected''
         else if path = ''/disconnect'' then status = Some ''Disconnected'' \<or> already_disconnected path body
         else if path = ''/send_message'' then status \<in> {Some ''message sent'', Some ''buffered''}
         else True)"

definition http_answer :: "('b, 'h, 'c) http_lib \<Rightarrow> string \<Rightarrow> nat \<Rightarrow> json option \<Rightarrow> json res" where
  "http_answer lib path status body =
     (if status \<in> {401, 403} then Inl (hub_refused (''HTTP '' @ path @ '' status '' @ hl_status lib status))
      else if \<not> (200 \<le> status \<and> status < 300)
      then Inl (Connection (''HTTP '' @ path @ '' status '' @ hl_status lib status))
      else case body of
             None \<Rightarrow> Inl (Connection (''malformed HTTP '' @ path @ '' response''))
           | Some body \<Rightarrow>
               (let field = (\<lambda>k. Option.bind (as_object body) (\<lambda>m. map_of m k))
                in if as_object body = None
                      \<or> path = ''/disconnect'' \<and> field ''ok'' = Some (JBool False)
                      \<or> field ''error'' \<noteq> None \<and> \<not> already_disconnected path body
                   then Inl (Runtime (''HTTP '' @ path @ '' rejected by the hub''))
                   else if \<not> acknowledged path body
                   then Inl (Connection (''HTTP '' @ path @ '' was not acknowledged''))
                   else Inr body))"

fun request :: "('b, 'h, 'c) http_lib \<Rightarrow> string \<Rightarrow> exchange \<Rightarrow> json res option" where
  "request lib path (Answer status body) = Some (http_answer lib path status body)"
| "request lib path (Unsent _ err) = Some (Inl (Connection err))"
| "request lib path (Too_Slow _) = Some (Inl (Timeout ''HTTP transport request timed out''))"
| "request lib path (Let_Go _) = None"

definition write_frame :: "('b, 'h, 'c) http_lib \<Rightarrow> exchange writer" where
  "write_frame lib w x =
     (if \<not> nw_binary w \<and> \<not> utf8_valid (nw_payload w)
      then (False, Some (Inl (Connection ''invalid handshake JSON'')))
      else case x of
             None \<Rightarrow> (False, None)
           | Some x \<Rightarrow> (seen_by_hub x, map_option (map_sum id (\<lambda>_. ())) (request lib ''/send_message'' x)))"

definition require_tls_endpoint :: "('b, 'h, 'c) http_lib \<Rightarrow> string \<Rightarrow> unit res" where
  "require_tls_endpoint lib endpoint =
     (case hl_scheme lib endpoint of
        None \<Rightarrow> Inl (Connection (''the HTTP transport needs a valid https:// endpoint; got '' @ endpoint))
      | Some scheme \<Rightarrow>
          if scheme \<noteq> ''https''
          then Inl (Connection (''refusing to use the HTTP transport over '' @ scheme
                  @ ''://. It needs an https:// endpoint: without TLS every message and the access key travel in the clear''))
          else Inr ())"

section \<open>The end of a link\<close>

definition mark_connection_error ::
    "('b, 'h, 'c) http_lib \<Rightarrow> host \<Rightarrow> thalovant_error \<Rightarrow> ('h, 'c) http \<Rightarrow> ('h, 'c) http" where
  "mark_connection_error lib h e w =
     (let w = empty_slot (hl_channel lib) h w in w\<lparr>r_health := error_health (hl_display lib e) (r_health w)\<rparr>)"

text \<open>\<open>/disconnect\<close>, with what its acknowledgement means for the registration.\<close>

definition post_disconnect ::
    "('b, 'h, 'c) http_lib \<Rightarrow> exchange \<Rightarrow> ('h, 'c) http \<Rightarrow> unit res option \<times> ('h, 'c) http" where
  "post_disconnect lib x w =
     (case request lib ''/disconnect'' x of
        None \<Rightarrow> (None, w)
      | Some (Inl e) \<Rightarrow> (Some (Inl e), w)
      | Some (Inr body) \<Rightarrow> (Some (Inr ()), w\<lparr>a_admitted := False, a_posts := a_posts w @ [(''/disconnect'', body)]\<rparr>))"

definition http_disconnect_inner ::
    "('b, 'h, 'c) http_lib \<Rightarrow> host \<Rightarrow> exchange \<Rightarrow> ('h, 'c) http \<Rightarrow> unit res option \<times> ('h, 'c) http" where
  "http_disconnect_inner lib h x w =
     (let w = empty_slot (hl_channel lib) h w;
          w = w\<lparr>r_health := down_health Closed (r_health w)\<rparr>
      in if \<not> a_admitted w then (Some (Inr ()), w) else post_disconnect lib x w)"

section \<open>Reading\<close>

text \<open>\<open>refusal\<close> is the error of a link refused after its handshake, which reads the folders.\<close>

definition receive_frame ::
    "('b, 'h, 'c) http_lib \<Rightarrow> (control \<Rightarrow> thalovant_error) \<Rightarrow> host \<times> exchange list \<Rightarrow> bytes \<Rightarrow> bool \<Rightarrow> ('h, 'c) http
     \<Rightarrow> unit res option \<times> dispatched \<times> ('h, 'c) http" where
  "receive_frame lib refusal net data is_binary w =
     (case take_frame (hl_channel lib) (fst net) (write_frame lib) (snd net) data is_binary w of
        (Refuses e, w) \<Rightarrow> (Some (Inl e), Nowhere, w)
      | (Stops, w) \<Rightarrow> (None, Nowhere, w)
      | (Breaks e, w) \<Rightarrow>
          if is_hub_refused e \<and> slot_in_session w
          then (case note_refused_after_handshake (r_control w) of
                  (refused, c) \<Rightarrow>
                    (Some (Inl (if refused then refusal c else e)), Nowhere, w\<lparr>r_control := c\<rparr>))
          else (Some (Inl e), Nowhere, w)
      | (Takes message, w) \<Rightarrow>
          (Some (Inr ()), dispatch_noise_message (hl_to_value lib) message,
           if slot_ready w then w\<lparr>r_health := (r_health w)\<lparr>h_handshake_complete := True\<rparr>\<rparr> else w))"

definition handle_raw_message ::
    "('b, 'h, 'c) http_lib \<Rightarrow> (control \<Rightarrow> thalovant_error) \<Rightarrow> host \<times> exchange list \<Rightarrow> json \<Rightarrow> ('h, 'c) http
     \<Rightarrow> unit res option \<times> dispatched \<times> ('h, 'c) http" where
  "handle_raw_message lib refusal net raw w =
     (case (case raw of JString s \<Rightarrow> Inr (bytes_of s) | other \<Rightarrow> hl_to_vec lib other) of
        Inl err \<Rightarrow> (Some (Inl (Json err)), Nowhere, w)
      | Inr data \<Rightarrow> receive_frame lib refusal net data False w)"

definition handle_binary_message ::
    "('b, 'h, 'c) http_lib \<Rightarrow> (control \<Rightarrow> thalovant_error) \<Rightarrow> host \<times> exchange list \<Rightarrow> json \<Rightarrow> ('h, 'c) http
     \<Rightarrow> unit res option \<times> dispatched \<times> ('h, 'c) http" where
  "handle_binary_message lib refusal net frame w =
     (case Option.bind (as_str frame) (hl_base64_decode lib) of
        None \<Rightarrow> (Some (Inl (Connection ''malformed HTTP binary frame'')), Nowhere, w)
      | Some data \<Rightarrow> receive_frame lib refusal net data True w)"

text \<open>The messages of one answer, in turn, until one fails; \<open>nets i\<close> is what the network does for the i-th.\<close>

fun handle_each ::
    "(host \<times> exchange list \<Rightarrow> json \<Rightarrow> ('h, 'c) http \<Rightarrow> unit res option \<times> dispatched \<times> ('h, 'c) http)
     \<Rightarrow> (nat \<Rightarrow> host \<times> exchange list) \<Rightarrow> json list \<Rightarrow> ('h, 'c) http
     \<Rightarrow> unit res option \<times> dispatched list \<times> ('h, 'c) http" where
  "handle_each handle nets [] w = (Some (Inr ()), [], w)"
| "handle_each handle nets (m # ms) w =
     (case handle (nets 0) m w of
        (q, d, w) \<Rightarrow>
          if q = Some (Inr ())
          then (case handle_each handle (nets \<circ> Suc) ms w of (q, ds, w) \<Rightarrow> (q, d # ds, w))
          else (q, [d], w))"

text \<open>One poll: what the two requests meet, and what the frames of their answers meet.\<close>

record poll_net =
  p_messages :: exchange
  p_message_nets :: "nat \<Rightarrow> host \<times> exchange list"
  p_binary :: exchange
  p_binary_nets :: "nat \<Rightarrow> host \<times> exchange list"

definition queue_of :: "string \<Rightarrow> string \<Rightarrow> json \<Rightarrow> json list res" where
  "queue_of field what body =
     ok_or (Option.bind (as_object body) (\<lambda>m. Option.bind (map_of m field) as_array))
       (Connection (''malformed HTTP '' @ what @ '' queue''))"

definition fetch_each ::
    "('b, 'h, 'c) http_lib \<Rightarrow> string \<Rightarrow> exchange \<Rightarrow> string \<Rightarrow> string
     \<Rightarrow> (json list \<Rightarrow> ('h, 'c) http \<Rightarrow> unit res option \<times> dispatched list \<times> ('h, 'c) http)
     \<Rightarrow> ('h, 'c) http \<Rightarrow> unit res option \<times> dispatched list \<times> ('h, 'c) http" where
  "fetch_each lib path x field what handle w =
     (case request lib path x of
        None \<Rightarrow> (None, [], w)
      | Some answered \<Rightarrow>
          (case res_bind answered (queue_of field what) of
             Inl e \<Rightarrow> (Some (Inl e), [], w)
           | Inr items \<Rightarrow> handle items w))"

definition poll_inner ::
    "('b, 'h, 'c) http_lib \<Rightarrow> (control \<Rightarrow> thalovant_error) \<Rightarrow> poll_net \<Rightarrow> ('h, 'c) http
     \<Rightarrow> unit res option \<times> dispatched list \<times> ('h, 'c) http" where
  "poll_inner lib refusal net w =
     (if \<not> h_connected (r_health w) then (Some (Inr ()), [], w)
      else case fetch_each lib ''/get_messages'' (p_messages net) ''messages'' ''message''
                  (handle_each (handle_raw_message lib refusal) (p_message_nets net)) w of
             (q, ds, w) \<Rightarrow>
               if q \<noteq> Some (Inr ()) \<or> \<not> h_handshake_complete (http_healthcheck w) then (q, ds, w)
               else (case fetch_each lib ''/get_binary_messages'' (p_binary net) ''b64_messages'' ''binary''
                            (handle_each (handle_binary_message lib refusal) (p_binary_nets net)) w of
                       (q, ds', w) \<Rightarrow> (q, ds @ ds', w)))"

text \<open>What a failed poll says of the credentials, before the link is marked failed.\<close>

definition note_failed_poll :: "thalovant_error \<Rightarrow> ('h, 'c) http \<Rightarrow> ('h, 'c) http" where
  "note_failed_poll e w =
     (let pending = (case r_noise w of None \<Rightarrow> False | Some ch \<Rightarrow> kk_pending ch);
          c = r_control w;
          c = (if is_hub_refused e \<and> pending then c\<lparr>c_kk_failed := True\<rparr> else c);
          c = (if is_hub_refused e \<and> slot_in_session w then snd (note_refused_after_handshake c) else c)
      in w\<lparr>r_control := c\<rparr>)"

definition poll_current_session ::
    "('b, 'h, 'c) http_lib \<Rightarrow> host \<Rightarrow> (control \<Rightarrow> thalovant_error) \<Rightarrow> poll_net \<Rightarrow> ('h, 'c) http
     \<Rightarrow> unit res option \<times> dispatched list \<times> ('h, 'c) http" where
  "poll_current_session lib h refusal net w =
     (case poll_inner lib refusal net w of
        (Some (Inl e), ds, w) \<Rightarrow> (Some (Inl e), ds, mark_connection_error lib h e (note_failed_poll e w))
      | (q, ds, w) \<Rightarrow> (q, ds, w))"

text \<open>A turn of the polling task; an error ends the task.\<close>

definition poll_turn ::
    "('b, 'h, 'c) http_lib \<Rightarrow> host \<Rightarrow> (control \<Rightarrow> thalovant_error) \<Rightarrow> poll_net \<Rightarrow> ('h, 'c) http
     \<Rightarrow> bool \<times> dispatched list \<times> ('h, 'c) http" where
  "poll_turn lib h refusal net w =
     (case poll_current_session lib h refusal net w of
        (Some (Inl e), ds, w) \<Rightarrow>
          (False, ds,
           w\<lparr>r_health := (r_health w)\<lparr>h_connected := False, h_transport_alive := False,
               h_last_error := Some (hl_display lib e),
               h_connection := (h_connection (r_health w))\<lparr>i_phase := Error,
                 i_last_error := Some (hl_display lib e)\<rparr>\<rparr>\<rparr>)
      | (_, ds, w) \<Rightarrow> (True, ds, w))"

section \<open>Writing\<close>

definition HTTP_NOT_CONNECTED :: thalovant_error where
  "HTTP_NOT_CONNECTED = Connection ''HTTP transport is not connected''"

text \<open>\<open>withdrawn\<close>: the caller stopped waiting before the send path was free.\<close>

definition http_send_message ::
    "('b, 'h, 'c) http_lib \<Rightarrow> host \<Rightarrow> bool \<Rightarrow> bool \<Rightarrow> exchange list \<Rightarrow> hive_message \<Rightarrow> ('h, 'c) http
     \<Rightarrow> unit res option \<times> ('h, 'c) http" where
  "http_send_message lib h withdrawn retired xs message w =
     (if withdrawn then (None, w)
      else case write_unless_retired retired
                  (send_encrypted (hl_channel lib) HTTP_NOT_CONNECTED (write_frame lib) xs message) (r_control w) w of
             (Inl e, w) \<Rightarrow> (Some (Inl e), mark_connection_error lib h e w)
           | (Inr _, w) \<Rightarrow> (Some (Inr ()), w))"

section \<open>A connect\<close>

text \<open>An earlier session of this object is reset first, within two seconds; a reset that fails ends it.\<close>

definition reset_admission ::
    "('b, 'h, 'c) http_lib \<Rightarrow> host \<Rightarrow> bool \<Rightarrow> exchange \<Rightarrow> ('h, 'c) http \<Rightarrow> unit res option \<times> ('h, 'c) http" where
  "reset_admission lib h in_time x w =
     (if \<not> a_admitted w then (Some (Inr ()), w)
      else case (if in_time then post_disconnect lib x w else (Some (Inl connection_timeout), w)) of
             (Some (Inl e), w) \<Rightarrow> (Some (Inl e), mark_connection_error lib h e w)
           | (q, w) \<Rightarrow> (q, w))"

definition http_open ::
    "('b, 'h, 'c) http_lib \<Rightarrow> duration \<Rightarrow> duration \<Rightarrow> exchange \<Rightarrow> ('h, 'c) http
     \<Rightarrow> unit res option \<times> ('h, 'c) http" where
  "http_open lib started opened x w =
     (case require_tls_endpoint lib (a_base_url w) of
        Inl e \<Rightarrow> (Some (Inl e), w)
      | Inr _ \<Rightarrow>
          if password (r_identity w) = []
          then (Some (Inl (MissingIdentityField ''password: v3 Noise requires the identity password'')), w)
          else (let w = install_channel w
                in case request lib ''/connect'' x of
                     None \<Rightarrow> (None, w)
                   | Some (Inl e) \<Rightarrow> (Some (Inl e), w)
                   | Some (Inr body) \<Rightarrow>
                       (Some (Inr ()),
                        w\<lparr>a_admitted := True, a_posts := a_posts w @ [(''/connect'', body)],
                          r_health := (r_health w)\<lparr>h_connected := True, h_transport_alive := True,
                            h_connection := (h_connection (r_health w))\<lparr>i_phase := Handshake,
                              i_transport_open_ms := Some (elapsed_ms started opened)\<rparr>\<rparr>\<rparr>)))"

text \<open>
  The handshake is driven by polling; the list ends when the time for the attempt or the caller's
  patience does (\<open>None\<close>).
\<close>

fun poll_until_complete ::
    "('b, 'h, 'c) http_lib \<Rightarrow> (control \<Rightarrow> thalovant_error) \<Rightarrow> (host \<times> poll_net) list \<Rightarrow> ('h, 'c) http
     \<Rightarrow> unit res option \<times> dispatched list \<times> ('h, 'c) http" where
  "poll_until_complete lib refusal nets w =
     (if h_handshake_complete (http_healthcheck w) then (Some (Inr ()), [], w)
      else case nets of
             [] \<Rightarrow> (None, [], w)
           | (h, net) # nets \<Rightarrow>
               (case poll_current_session lib h refusal net w of
                  (q, ds, w) \<Rightarrow>
                    if q \<noteq> Some (Inr ()) then (q, ds, w)
                    else (case poll_until_complete lib refusal nets w of
                            (q, ds', w) \<Rightarrow> (q, ds @ ds', w))))"

declare poll_until_complete.simps [simp del]

record connect_net =
  n_host :: host
  n_reset_in_time :: bool
  n_reset :: exchange
  n_started :: duration
  n_open :: exchange
  n_opened :: duration
  n_polls :: "(host \<times> poll_net) list"
  n_completed :: duration
  n_abandoned :: bool

definition http_connect_inner ::
    "('b, 'h, 'c) http_lib \<Rightarrow> (control \<Rightarrow> thalovant_error) \<Rightarrow> connect_net \<Rightarrow> ('h, 'c) http
     \<Rightarrow> unit res option \<times> dispatched list \<times> ('h, 'c) http" where
  "http_connect_inner lib refusal n w =
     (case http_open lib (n_started n) (n_opened n) (n_open n) w of
        (q, w) \<Rightarrow>
          if q \<noteq> Some (Inr ()) then (q, [], w)
          else (case poll_until_complete lib refusal (n_polls n) w of
                  (q, ds, w) \<Rightarrow>
                    (q, ds,
                     if q = Some (Inr ())
                     then w\<lparr>r_health := ready_health (n_completed n) (n_started n) (n_opened n) (r_health w)\<rparr>
                     else w)))"

text \<open>\<open>n_abandoned\<close>: the attempt was dropped by its own caller, rather than by its 20 seconds.\<close>

definition http_connect_locked ::
    "('b, 'h, 'c) http_lib \<Rightarrow> (control \<Rightarrow> thalovant_error) \<Rightarrow> connect_net \<Rightarrow> ('h, 'c) http
     \<Rightarrow> unit res option \<times> dispatched list \<times> ('h, 'c) http" where
  "http_connect_locked lib refusal n w =
     (case reset_admission lib (n_host n) (n_reset_in_time n) (n_reset n) w of
        (q, w) \<Rightarrow>
          if q \<noteq> Some (Inr ()) then (q, [], w)
          else (let w = empty_slot (hl_channel lib) (n_host n) w;
                    w = w\<lparr>r_health := default_health\<lparr>h_connection := connecting_connection (n_started n)\<rparr>\<rparr>
                in case http_connect_inner lib refusal n w of
                     (None, ds, w) \<Rightarrow>
                       if n_abandoned n then (None, ds, w)
                       else (let e = Timeout ''HiveMind HTTP Noise handshake timed out''
                             in (Some (Inl e), ds, mark_connection_error lib (n_host n) e w))
                   | (Some (Inl e), ds, w) \<Rightarrow> (Some (Inl e), ds, mark_connection_error lib (n_host n) e w)
                   | (Some (Inr _), ds, w) \<Rightarrow> (Some (Inr ()), ds, w)))"

section \<open>The life of a transport\<close>

datatype http_event =
    Connects "control \<Rightarrow> thalovant_error" connect_net
  | Polls host "control \<Rightarrow> thalovant_error" poll_net
  | Poll_Dropped host bytes bool
  | Http_Sends host bool bool "exchange list" hive_message
  | Http_Disconnects host exchange
  | Http_Folder "string option"
  | Http_Control control
  | Http_Others store_op

definition http_step :: "('b, 'h, 'c) http_lib \<Rightarrow> http_event \<Rightarrow> ('h, 'c) http \<Rightarrow> ('h, 'c) http" where
  "http_step lib e w =
     (case e of
        Connects refusal n \<Rightarrow> snd (snd (http_connect_locked lib refusal n w))
      | Polls h refusal net \<Rightarrow> snd (snd (poll_turn lib h refusal net w))
      | Poll_Dropped h data is_binary \<Rightarrow> abandon_frame (hl_channel lib) h data is_binary w
      | Http_Sends h withdrawn retired xs message \<Rightarrow> snd (http_send_message lib h withdrawn retired xs message w)
      | Http_Disconnects h x \<Rightarrow> snd (http_disconnect_inner lib h x w)
      | Http_Folder dir \<Rightarrow> http_set_noise_state_dir dir w
      | Http_Control c \<Rightarrow> w\<lparr>r_control := c\<rparr>
      | Http_Others o1 \<Rightarrow>
          w\<lparr>r_files := store_step (cl_store (hl_channel lib)) (cl_hex (hl_channel lib)) o1 (r_files w)\<rparr>)"

end
