(* ===== verification/Http_Safety.thy ===== *)
theory Http_Safety
  imports Http
begin

text \<open>
  What an HTTPS transport keeps over its life, whatever the hub answers, its callers do and other
  processes do to the trust store: the registration at the hub it believes in is the one the
  acknowledged requests left, no session outlives it, and a transport that reports itself ready stands
  on the pinned hub key with every frame it made acknowledged.
\<close>

section \<open>The invariant\<close>

text \<open>What the acknowledged session requests leave: whether the hub has this client registered; \<open>None\<close>
  is a client that connected while connected, or disconnected while it was not.\<close>

fun registered_after :: "bool \<Rightarrow> string list \<Rightarrow> bool option" where
  "registered_after b [] = Some b"
| "registered_after b (p # ps) =
     (if p = ''/connect'' \<and> \<not> b then registered_after True ps
      else if p = ''/disconnect'' \<and> b then registered_after False ps
      else None)"

lemma registered_after_snoc:
  "registered_after b (ps @ [p]) =
     (case registered_after b ps of
        None \<Rightarrow> None
      | Some c \<Rightarrow> if p = ''/connect'' \<and> \<not> c then Some True else if p = ''/disconnect'' \<and> c then Some False else None)"
  by (induction ps arbitrary: b) simp_all

text \<open>What the hub says to a session request it carried out, or to a disconnect that had nothing to do.\<close>

fun hub_says_done :: "string \<times> json \<Rightarrow> bool" where
  "hub_says_done (p, JObject m) \<longleftrightarrow>
     p = ''/connect'' \<and> map_of m ''status'' = Some (JString ''Connected'') \<and> map_of m ''error'' = None
     \<or> p = ''/disconnect'' \<and> map_of m ''status'' = Some (JString ''Disconnected'') \<and> map_of m ''error'' = None
     \<or> p = ''/disconnect'' \<and> (\<exists>t. m = [(''error'', JString t)] \<and> t \<in> {''Already Disconnected'', ''Client is not connected''})"
| "hub_says_done _ \<longleftrightarrow> False"

definition http_inv :: "('b, 'h, 'c) http_lib \<Rightarrow> ('h, 'c) http \<Rightarrow> bool" where
  "http_inv lib w \<longleftrightarrow>
     carrier_inv (hl_channel lib) w
     \<and> registered_after False (map fst (a_posts w)) = Some (a_admitted w)
     \<and> (\<forall>post \<in> set (a_posts w). hub_says_done post)
     \<and> (\<not> a_admitted w \<longrightarrow> \<not> h_connected (r_health w) \<and> \<not> slot_in_session w)"

lemma answered_in_full:
  assumes "http_answer lib path status b = Inr body"
  obtains m where "body = JObject m" "b = Some body" "200 \<le> status \<and> status < 300" "acknowledged path body"
    "map_of m ''error'' = None \<or> already_disconnected path body"
  using assms by (auto simp: http_answer_def Let_def as_object_def split: if_splits option.splits json.splits)

lemma already_disconnected_object:
  "already_disconnected path (JObject m) \<Longrightarrow>
     path = ''/disconnect'' \<and> (\<exists>t. m = [(''error'', JString t)] \<and> t \<in> {''Already Disconnected'', ''Client is not connected''})"
  by (cases m) (auto simp: already_disconnected_def as_object_def get_str_def as_str_def bind_eq_Some_conv
      split: if_splits json.splits)

lemma get_str_text: "get_str m k = Some t \<longleftrightarrow> map_of m k = Some (JString t)"
proof (cases "map_of m k")
  case (Some v)
  then show ?thesis by (cases v) (simp_all add: get_str_def as_str_def)
qed (simp add: get_str_def)

lemma acknowledged_object:
  assumes "acknowledged path (JObject m)"
  shows "path = ''/connect'' \<Longrightarrow> map_of m ''status'' = Some (JString ''Connected'')"
    "path = ''/disconnect'' \<Longrightarrow> map_of m ''status'' = Some (JString ''Disconnected'') \<or> already_disconnected path (JObject m)"
    "path = ''/send_message'' \<Longrightarrow> map_of m ''status'' \<in> {Some (JString ''message sent''), Some (JString ''buffered'')}"
  using assms by (auto simp: acknowledged_def as_object_def get_str_text)

lemma not_already: "path \<noteq> ''/disconnect'' \<Longrightarrow> \<not> already_disconnected path body"
  by (simp add: already_disconnected_def)

lemma request_done:
  assumes "request lib path x = Some (Inr body)" and "path = ''/connect'' \<or> path = ''/disconnect''"
  shows "hub_says_done (path, body)"
proof -
  obtain status b where "x = Answer status b" "http_answer lib path status b = Inr body"
    using assms(1) by (cases x) auto
  then obtain m where m: "body = JObject m" "acknowledged path body"
      "map_of m ''error'' = None \<or> already_disconnected path body"
    by (auto elim: answered_in_full)
  show ?thesis
  proof (cases "path = ''/connect''")
    case True
    then show ?thesis using m acknowledged_object(1) [of path m] not_already [of path body] by simp
  next
    case False
    then have p: "path = ''/disconnect''" using assms(2) by blast
    show ?thesis
    proof (cases "already_disconnected path body")
      case True
      then show ?thesis using already_disconnected_object [of path m] m(1) p by simp
    next
      case False
      then show ?thesis using m acknowledged_object(2) [of path m] p by simp
    qed
  qed
qed

text \<open>A frame counts as written only if the hub's answer says it took the message.\<close>

lemma write_frame_done:
  assumes "snd (write_frame lib w x) = Some (Inr ())"
  shows "\<exists>status m. x = Some (Answer status (Some (JObject m))) \<and> 200 \<le> status \<and> status < 300
    \<and> map_of m ''error'' = None
    \<and> map_of m ''status'' \<in> {Some (JString ''message sent''), Some (JString ''buffered'')}"
proof -
  have done_is: "map_option (map_sum id (\<lambda>_. ())) q = Some (Inr ()) \<Longrightarrow> \<exists>body. q = Some (Inr body)" for q :: "json res option"
    by (cases q; cases "the q") auto
  obtain y where x: "x = Some y" and "map_option (map_sum id (\<lambda>_. ())) (request lib ''/send_message'' y) = Some (Inr ())"
    using assms by (auto simp: write_frame_def split: if_splits option.splits)
  then obtain body where "request lib ''/send_message'' y = Some (Inr body)" using done_is by blast
  then obtain status b where y: "y = Answer status b" "http_answer lib ''/send_message'' status b = Inr body"
    by (cases y) auto
  then obtain m where m: "body = JObject m" "b = Some body" "200 \<le> status \<and> status < 300"
      "acknowledged ''/send_message'' body" "map_of m ''error'' = None \<or> already_disconnected ''/send_message'' body"
    by (auto elim: answered_in_full)
  then have "map_of m ''error'' = None"
    "map_of m ''status'' \<in> {Some (JString ''message sent''), Some (JString ''buffered'')}"
    using acknowledged_object(3) [of "''/send_message''" m] not_already [of "''/send_message''" body] by simp_all
  with m x y show ?thesis by blast
qed

lemma http_more:
  fixes w w' :: "('h, 'c) http"
  assumes "carrier.more w' = carrier.more w"
  shows "a_admitted w' = a_admitted w" "a_posts w' = a_posts w" "a_base_url w' = a_base_url w"
  using assms by (cases w; cases w'; simp)+

lemma http_inv_control [simp]: "http_inv lib (w\<lparr>r_control := c\<rparr>) = http_inv lib w"
  by (simp add: http_inv_def)

lemma http_inv_health: "http_inv lib w \<Longrightarrow> h_connected hl = h_connected (r_health w) \<Longrightarrow> http_inv lib (w\<lparr>r_health := hl\<rparr>)"
  by (simp add: http_inv_def)

lemma http_inv_down: "http_inv lib w \<Longrightarrow> \<not> h_connected hl \<Longrightarrow> http_inv lib (w\<lparr>r_health := hl\<rparr>)"
  by (simp add: http_inv_def)

lemma http_inv_new: "http_inv lib (http_new idn base_url dir fs)"
  by (simp add: http_inv_def http_new_def default_health_def slot_in_session_def carrier_inv_empty)

text \<open>A link emptied and said to be down, whatever it was before.\<close>

lemma http_inv_emptied:
  assumes "http_inv lib w" and "\<not> h_connected hl"
  shows "http_inv lib ((empty_slot (hl_channel lib) h w)\<lparr>r_health := hl\<rparr>)"
  using assms http_more [OF empty_slot_fields(8), of "hl_channel lib" h w] by (simp add: http_inv_def)

lemma error_not_connected [simp]: "\<not> h_connected (error_health t hl)" "\<not> h_connected (down_health p hl)"
  by (simp_all add: error_health_def down_health_def Let_def)

lemma mark_connection_error_inv: "http_inv lib w \<Longrightarrow> http_inv lib (mark_connection_error lib h e w)"
  by (simp add: mark_connection_error_def Let_def http_inv_emptied)

lemma post_disconnect_inv:
  assumes "http_inv lib w" and "a_admitted w" and "\<not> h_connected (r_health w)" and "\<not> slot_in_session w"
    and "post_disconnect lib x w = (q, w')"
  shows "http_inv lib w'"
proof (cases "request lib ''/disconnect'' x")
  case None
  then show ?thesis using assms by (simp add: post_disconnect_def)
next
  case (Some r)
  then show ?thesis
    using assms
    by (cases r) (auto simp: post_disconnect_def http_inv_def registered_after_snoc carrier_inv_def sent_in_order_def
        slot_trusted_def slot_in_session_def dest: request_done)
qed

lemma http_disconnect_inv:
  assumes "http_inv lib w"
  shows "http_inv lib (snd (http_disconnect_inner lib h x w))"
proof -
  let ?w = "empty_slot (hl_channel lib) h w"
  let ?d = "?w\<lparr>r_health := down_health Closed (r_health ?w)\<rparr>"
  have d: "http_inv lib ?d" "\<not> h_connected (r_health ?d)" "\<not> slot_in_session ?d"
    using http_inv_emptied [OF assms] by simp_all
  obtain q w' where p: "post_disconnect lib x ?d = (q, w')" by fastforce
  have "http_inv lib w'" if "a_admitted ?d"
    using post_disconnect_inv [OF d(1) that d(2,3) p] .
  then show ?thesis using d(1) p by (simp add: http_disconnect_inner_def Let_def)
qed

section \<open>Reading and writing\<close>

text \<open>While the hub has the client registered, reading leaves it so.\<close>

definition live :: "('b, 'h, 'c) http_lib \<Rightarrow> ('h, 'c) http \<Rightarrow> bool" where
  "live lib w \<longleftrightarrow> http_inv lib w \<and> a_admitted w"

lemma live_cong:
  assumes "live lib w" and "carrier_inv (hl_channel lib) w'" and "carrier.more w' = carrier.more w"
  shows "live lib w'"
  using assms http_more [OF assms(3)] by (simp add: live_def http_inv_def)

lemma live_update [simp]:
  "live lib (w\<lparr>r_control := c\<rparr>) = live lib w" "live lib (w\<lparr>r_health := hl\<rparr>) = live lib w"
  by (auto simp: live_def http_inv_def)

lemma receive_frame_live:
  assumes laws: "store_laws (cl_store (hl_channel lib)) (cl_hex (hl_channel lib))" and w: "live lib w"
    and r: "receive_frame lib refusal net d b w = (q, out, w')"
  shows "live lib w'"
proof -
  obtain e w1 where t: "take_frame (hl_channel lib) (fst net) (write_frame lib) (snd net) d b w = (e, w1)"
    by fastforce
  have "carrier_inv (hl_channel lib) w1 \<and> carrier.more w1 = carrier.more w"
    using take_frame_inv [OF laws _ t] w by (simp add: live_def http_inv_def)
  then have "live lib w1" using live_cong w by blast
  then show ?thesis
    using r t by (cases e) (auto simp: receive_frame_def split: if_splits prod.splits)
qed

lemma handle_each_live:
  assumes "\<And>net m w q d w'. live lib w \<Longrightarrow> handle net m w = (q, d, w') \<Longrightarrow> live lib w'"
  shows "live lib w \<Longrightarrow> handle_each handle nets ms w = (q, ds, w') \<Longrightarrow> live lib w'"
proof (induction ms arbitrary: nets w q ds w')
  case (Cons m ms)
  obtain p d w1 where h: "handle (nets 0) m w = (p, d, w1)" by (metis prod.exhaust)
  have "live lib w1" by (rule assms [OF Cons.prems(1) h])
  then show ?case using Cons.IH [of w1] Cons.prems(2) h by (auto split: if_splits prod.splits)
qed simp

lemma fetch_each_live:
  assumes "\<And>ms w q ds w'. live lib w \<Longrightarrow> handle ms w = (q, ds, w') \<Longrightarrow> live lib w'"
    and "live lib w" and "fetch_each lib path x field what handle w = (q, ds, w')"
  shows "live lib w'"
  using assms(2,3) assms(1) [OF assms(2)]
  by (auto simp: fetch_each_def split: option.splits sum.splits)

lemma poll_inner_inv:
  assumes laws: "store_laws (cl_store (hl_channel lib)) (cl_hex (hl_channel lib))" and w: "http_inv lib w"
    and p: "poll_inner lib refusal net w = (q, ds, w')"
  shows "http_inv lib w' \<and> a_admitted w' = a_admitted w"
proof (cases "h_connected (r_health w)")
  case False
  then show ?thesis using p w by (simp add: poll_inner_def)
next
  case True
  then have l: "live lib w" using w by (auto simp: http_inv_def live_def)
  have raw: "live lib w'" if "live lib w" "handle_raw_message lib refusal net m w = (q, d, w')" for w net m q d w'
    using that receive_frame_live [OF laws that(1)] by (auto simp: handle_raw_message_def split: sum.splits)
  have bin: "live lib w'" if "live lib w" "handle_binary_message lib refusal net m w = (q, d, w')" for w net m q d w'
    using that receive_frame_live [OF laws that(1)] by (auto simp: handle_binary_message_def split: option.splits)
  obtain q1 d1 w1 where f: "fetch_each lib ''/get_messages'' (p_messages net) ''messages'' ''message''
      (handle_each (handle_raw_message lib refusal) (p_message_nets net)) w = (q1, d1, w1)" by (metis prod.exhaust)
  have l1: "live lib w1" by (rule fetch_each_live [OF handle_each_live [OF raw] l f])
  obtain q2 d2 w2 where g: "fetch_each lib ''/get_binary_messages'' (p_binary net) ''b64_messages'' ''binary''
      (handle_each (handle_binary_message lib refusal) (p_binary_nets net)) w1 = (q2, d2, w2)" by (metis prod.exhaust)
  have "live lib w2" by (rule fetch_each_live [OF handle_each_live [OF bin] l1 g])
  with l1 l True p f g show ?thesis by (auto simp: poll_inner_def live_def split: if_splits)
qed

lemma poll_session_inv:
  assumes "store_laws (cl_store (hl_channel lib)) (cl_hex (hl_channel lib))" and "http_inv lib w"
    and "poll_current_session lib h refusal net w = (q, ds, w')"
  shows "http_inv lib w'"
proof -
  obtain p es w1 where i: "poll_inner lib refusal net w = (p, es, w1)" by (metis prod.exhaust)
  have "http_inv lib w1" using poll_inner_inv [OF assms(1,2) i] by simp
  then show ?thesis
    using assms(3) i
    by (auto simp: poll_current_session_def note_failed_poll_def Let_def mark_connection_error_inv
        split: option.splits sum.splits)
qed

lemma poll_turn_inv:
  assumes "store_laws (cl_store (hl_channel lib)) (cl_hex (hl_channel lib))" and "http_inv lib w"
  shows "http_inv lib (snd (snd (poll_turn lib h refusal net w)))"
proof -
  obtain q ds w1 where p: "poll_current_session lib h refusal net w = (q, ds, w1)" by (metis prod.exhaust)
  have "http_inv lib w1" by (rule poll_session_inv [OF assms p])
  then show ?thesis using p by (auto simp: poll_turn_def intro!: http_inv_down split: option.split sum.split)
qed

lemma http_send_inv:
  assumes laws: "store_laws (cl_store (hl_channel lib)) (cl_hex (hl_channel lib))" and inv: "http_inv lib w"
  shows "http_inv lib (snd (http_send_message lib h withdrawn retired xs m w))"
proof -
  obtain q w1 where s: "send_encrypted (hl_channel lib) HTTP_NOT_CONNECTED (write_frame lib) xs m w = (q, w1)"
    by fastforce
  note i = send_encrypted_inv [OF laws _ s]
  have "http_inv lib w1"
    using i inv http_more [of w1 w] by (auto simp: http_inv_def)
  with inv show ?thesis
    using s by (auto simp: http_send_message_def write_unless_retired_def mark_connection_error_inv
        split: option.split sum.split)
qed

section \<open>Connecting\<close>

lemma poll_until_complete_inv:
  assumes laws: "store_laws (cl_store (hl_channel lib)) (cl_hex (hl_channel lib))"
  shows "http_inv lib w \<Longrightarrow> poll_until_complete lib refusal nets w = (q, ds, w') \<Longrightarrow> http_inv lib w'"
proof (induction nets arbitrary: w q ds w')
  case Nil
  then show ?case by (auto simp: poll_until_complete.simps split: if_splits)
next
  case (Cons n nets)
  obtain h net where n: "n = (h, net)" by fastforce
  obtain p d w1 where s: "poll_current_session lib h refusal net w = (p, d, w1)" by (metis prod.exhaust)
  have "http_inv lib w1" by (rule poll_session_inv [OF laws Cons.prems(1) s])
  then show ?case
    using Cons.IH [of w1] Cons.prems s n
    by (auto simp: poll_until_complete.simps [of _ _ "(h, net) # nets"] split: if_splits prod.splits)
qed

lemma http_open_inv:
  assumes inv: "http_inv lib w" and out: "\<not> a_admitted w" and o: "http_open lib s t x w = (q, w')"
  shows "http_inv lib w'"
proof -
  let ?w = "install_channel w"
  have m: "a_admitted ?w = a_admitted w" "a_posts ?w = a_posts w" "r_health ?w = r_health w"
    by (simp_all add: install_channel_def Let_def)
  have i: "http_inv lib ?w" using inv out by (simp add: http_inv_def m)
  have c: "carrier_inv (hl_channel lib) (?w\<lparr>a_admitted := b, a_posts := ps, r_health := hl\<rparr>)" for b ps hl
    using install_inv(1) [of "hl_channel lib" w]
    by (simp add: carrier_inv_def sent_in_order_def slot_trusted_def)
  show ?thesis
    using o inv i c out m
    by (auto simp: http_open_def Let_def http_inv_def registered_after_snoc request_done split: sum.splits option.splits if_splits)
qed

lemma reset_admission_inv:
  assumes inv: "http_inv lib w" and r: "reset_admission lib h b x w = (q, w')"
  shows "(q = Some (Inr ()) \<longrightarrow> \<not> a_admitted w' \<and> registered_after False (map fst (a_posts w')) = Some False
            \<and> (\<forall>post \<in> set (a_posts w'). hub_says_done post) \<and> prefix (r_sent w') (r_made w'))
    \<and> (q \<noteq> Some (Inr ()) \<longrightarrow> http_inv lib w')"
proof (cases "a_admitted w")
  case False
  then show ?thesis using r inv by (auto simp: reset_admission_def http_inv_def carrier_inv_prefix)
next
  case True
  show ?thesis
  proof (cases "b \<and> request lib ''/disconnect'' x \<noteq> None")
    case False
    then show ?thesis
      using r True inv by (auto simp: reset_admission_def post_disconnect_def mark_connection_error_inv split: if_splits)
  next
    case answered: True
    then obtain a where a: "request lib ''/disconnect'' x = Some a" by auto
    then show ?thesis
    proof (cases a)
      case (Inl e)
      then show ?thesis
        using r True answered a mark_connection_error_inv [OF inv]
        by (auto simp: reset_admission_def post_disconnect_def)
    next
      case (Inr body)
      then show ?thesis
        using r True answered a inv carrier_inv_prefix [of "hl_channel lib" w]
        by (auto simp: reset_admission_def post_disconnect_def http_inv_def registered_after_snoc request_done)
    qed
  qed
qed

lemma http_connect_inv:
  assumes laws: "store_laws (cl_store (hl_channel lib)) (cl_hex (hl_channel lib))" and inv: "http_inv lib w"
  shows "http_inv lib (snd (snd (http_connect_locked lib refusal n w)))"
proof -
  obtain q0 w0 where r0: "reset_admission lib (n_host n) (n_reset_in_time n) (n_reset n) w = (q0, w0)" by fastforce
  note reset = reset_admission_inv [OF inv r0]
  show ?thesis
  proof (cases "q0 = Some (Inr ())")
    case False
    then show ?thesis using reset r0 by (simp add: http_connect_locked_def)
  next
    case True
    let ?hl = "default_health\<lparr>h_connection := connecting_connection (n_started n)\<rparr>"
    let ?w = "(empty_slot (hl_channel lib) (n_host n) w0)\<lparr>r_health := ?hl\<rparr>"
    have m: "a_admitted ?w = a_admitted w0" "a_posts ?w = a_posts w0"
      using http_more [OF empty_slot_fields(8), of "hl_channel lib" "n_host n" w0] by simp_all
    have i: "http_inv lib ?w" "\<not> a_admitted ?w"
      using reset True m by (simp_all add: http_inv_def default_health_def carrier_inv_empty)
    obtain q1 w1 where o: "http_open lib (n_started n) (n_opened n) (n_open n) ?w = (q1, w1)" by fastforce
    have i1: "http_inv lib w1" by (rule http_open_inv [OF i o])
    obtain q2 ds w2 where p: "poll_until_complete lib refusal (n_polls n) w1 = (q2, ds, w2)" by (metis prod.exhaust)
    have i2: "http_inv lib w2" by (rule poll_until_complete_inv [OF laws i1 p])
    have ready: "h_connected (ready_health a b c hl) = h_connected hl" for a b c hl by (simp add: ready_health_def)
    obtain q3 ds3 w3 where c: "http_connect_inner lib refusal n ?w = (q3, ds3, w3)" by (metis prod.exhaust)
    have "http_inv lib w3"
      using c o p i1 i2 http_inv_health [OF i2 ready] by (auto simp: http_connect_inner_def split: if_splits)
    then show ?thesis
      using r0 True c by (auto simp: http_connect_locked_def Let_def mark_connection_error_inv
          split: option.split sum.split)
  qed
qed

section \<open>The life of a transport\<close>

definition http_forgets :: "http_event \<Rightarrow> bool" where
  "http_forgets e = (case e of Http_Others o1 \<Rightarrow> (case o1 of Forget_Pin _ _ _ \<Rightarrow> True | _ \<Rightarrow> False) | _ \<Rightarrow> False)"

lemma http_step_inv:
  assumes laws: "store_laws (cl_store (hl_channel lib)) (cl_hex (hl_channel lib))" and inv: "http_inv lib w"
    and no: "\<not> http_forgets e"
  shows "http_inv lib (http_step lib e w)"
proof (cases e)
  case (Http_Others o1)
  then have "\<not> (\<exists>d p n. o1 = Forget_Pin d p n)" using no by (auto simp: http_forgets_def)
  from elsewhere_inv [OF laws _ this, of w] show ?thesis
    using inv Http_Others by (simp add: http_step_def http_inv_def slot_in_session_def)
next
  case (Poll_Dropped h d b)
  have more: "carrier.more (abandon_frame (hl_channel lib) h d b w) = carrier.more w"
    "r_health (abandon_frame (hl_channel lib) h d b w) = r_health w"
    "slot_in_session (abandon_frame (hl_channel lib) h d b w) \<Longrightarrow> slot_in_session w"
    by (auto simp: abandon_frame_def slot_in_session_def split: option.splits prod.splits if_splits)
  show ?thesis
    using abandon_frame_inv [of "hl_channel lib" w h d b] inv more http_more [OF more(1)] Poll_Dropped
    by (auto simp: http_step_def http_inv_def)
next
  case (Http_Folder dir)
  then show ?thesis
    using inv by (simp add: http_step_def http_set_noise_state_dir_def http_inv_def)
qed (use inv in \<open>simp_all add: http_step_def http_connect_inv [OF laws] poll_turn_inv [OF laws]
       http_send_inv [OF laws] http_disconnect_inv\<close>)

interpretation http_life: sticky "http_step lib" "\<lambda>w. if http_inv lib w then Some () else None" http_forgets
    "\<lambda>_. store_laws (cl_store (hl_channel lib)) (cl_hex (hl_channel lib))" for lib
  by unfold_locales (auto dest: http_step_inv split: if_splits)

lemma http_run_inv:
  assumes "store_laws (cl_store (hl_channel lib)) (cl_hex (hl_channel lib))" and "http_inv lib w"
    and "\<forall>e \<in> set es. \<not> http_forgets e"
  shows "http_inv lib (run_steps (http_step lib) es w)"
  using http_life.slot_run [OF assms(1), of w "()" es] assms(2,3) by (auto split: if_splits)


section \<open>A transport that connects\<close>

definition sample_http_lib :: "(nat, nat, nat) http_lib" where
  "sample_http_lib =
     \<lparr>hl_channel = chan_lib, hl_display = (\<lambda>_. []), hl_to_value = (\<lambda>_. None), hl_scheme = (\<lambda>_. Some ''https''),
      hl_status = show_nat, hl_base64_decode = (\<lambda>_. None), hl_to_vec = (\<lambda>_. Inl [])\<rparr>"

definition sample_accepts :: exchange where
  "sample_accepts = Answer 200 (Some (JObject [(''status'', JString ''message sent'')]))"

definition sample_poll :: poll_net where
  "sample_poll =
     \<lparr>p_messages = Answer 200 (Some (JObject [(''messages'', JArray (map (\<lambda>n. JString [char_of n]) [1 :: nat, 2, 3]))])),
      p_message_nets = (\<lambda>_. (calm_host, [sample_accepts, sample_accepts])),
      p_binary = Answer 200 (Some (JObject [(''b64_messages'', JArray [])])),
      p_binary_nets = (\<lambda>_. (calm_host, []))\<rparr>"

definition sample_connect :: connect_net where
  "sample_connect =
     \<lparr>n_host = calm_host, n_reset_in_time = True, n_reset = Let_Go False, n_started = 0,
      n_open = Answer 200 (Some (JObject [(''status'', JString ''Connected'')])), n_opened = 0,
      n_polls = [(calm_host, sample_poll)], n_completed = 0, n_abandoned = False\<rparr>"

lemma accepts_writes:
  assumes "\<forall>w \<in> set ws. nw_binary w \<or> utf8_valid (nw_payload w)" and "length ws \<le> length xs"
    and "set xs \<subseteq> {sample_accepts}"
  shows "write_all (write_frame sample_http_lib) xs ws = (Some (Inr ()), ws)"
  using assms
proof (induction ws arbitrary: xs)
  case (Cons w ws)
  then obtain xs' where xs: "xs = sample_accepts # xs'" by (cases xs) auto
  have "write_frame sample_http_lib w (Some sample_accepts) = (True, Some (Inr ()))"
    using Cons.prems(1)
    by (simp add: write_frame_def sample_accepts_def http_answer_def acknowledged_def already_disconnected_def
        get_str_def)
  then show ?case using Cons xs by simp
qed simp

text \<open>One message of the handshake, fetched and answered.\<close>

lemma sample_raw:
  assumes "r_noise w = Some ch" and "r_files w = chan_files" and "ch_session ch = None"
    and "receive chan_lib calm_host [word_of_nat n] False ch chan_files = (Inr (None, ws), ch', chan_files)"
    and "\<not> ch_failed ch'" and "\<forall>w \<in> set ws. nw_binary w \<or> utf8_valid (nw_payload w)" and "length ws \<le> 2"
    and "n < 256"
  shows "\<exists>w'. handle_raw_message sample_http_lib refusal (calm_host, [sample_accepts, sample_accepts]) (JString [char_of n]) w
      = (Some (Inr ()), Nowhere, w')
    \<and> r_noise w' = Some ch' \<and> r_files w' = chan_files \<and> c_cancelled (r_control w') = c_cancelled (r_control w)
    \<and> (ch_session ch' \<noteq> None \<longrightarrow> h_handshake_complete (r_health w'))"
proof -
  have wr: "write_all (write_frame sample_http_lib) [sample_accepts, sample_accepts] ws = (Some (Inr ()), ws)"
    by (rule accepts_writes) (use assms(6,7) in auto)
  have d: "bytes_of [char_of n] = [word_of_nat n]" using assms(8) by (simp add: bytes_of_def)
  obtain w' where
    "take_frame chan_lib calm_host (write_frame sample_http_lib) [sample_accepts, sample_accepts] [word_of_nat n] False w =
      (Takes None, w')"
    "r_noise w' = Some ch' \<and> r_files w' = chan_files \<and> c_cancelled (r_control w') = c_cancelled (r_control w)"
    using sample_take_frame [OF assms(1-5) wr] by blast
  moreover have "hl_channel sample_http_lib = chan_lib" by (simp add: sample_http_lib_def)
  ultimately show ?thesis
    using assms(2,5) d
    by (simp add: handle_raw_message_def receive_frame_def dispatch_noise_message_def slot_ready_def ready_def)
qed

lemma sample_http_run:
  "h_handshake_complete (http_healthcheck
     (http_step sample_http_lib (Connects (\<lambda>_. CLOSED_DURING) sample_connect)
       (http_new sample_identity [] None chan_files)))"
proof -
  let ?raw = "handle_raw_message sample_http_lib (\<lambda>_. CLOSED_DURING) (calm_host, [sample_accepts, sample_accepts])"
  let ?w0 = "http_new sample_identity [] None chan_files :: (nat, nat) http"
  let ?w = "(empty_slot chan_lib calm_host ?w0)\<lparr>r_health := default_health\<lparr>h_connection := connecting_connection 0\<rparr>\<rparr>"
  have l: "hl_channel sample_http_lib = chan_lib" by (simp add: sample_http_lib_def)
  obtain w1 where o: "http_open sample_http_lib 0 0 (n_open sample_connect) ?w = (Some (Inr ()), w1)"
    and w1: "r_noise w1 = Some sample_start" "r_files w1 = chan_files" "\<not> c_cancelled (r_control w1)"
      "h_connected (r_health w1)" "\<not> h_handshake_complete (r_health w1)"
    using sample_channels(1)
    by (auto simp: http_open_def require_tls_endpoint_def sample_http_lib_def sample_connect_def http_answer_def
        acknowledged_def already_disconnected_def get_str_def install_channel_def http_new_def empty_slot_def
        clear_noise_def sample_identity_def default_control_def default_health_def Let_def)
  note ch = sample_channels
  obtain w2 where r1: "?raw (JString [char_of (1 :: nat)]) w1 = (Some (Inr ()), Nowhere, w2)"
    and w2: "r_noise w2 = Some sample_greeted" "r_files w2 = chan_files" "\<not> c_cancelled (r_control w2)"
    using sample_raw [OF w1(1,2) ch(2) _ ch(6), of 1 "[]" "\<lambda>_. CLOSED_DURING"] receive_sample_hello w1(3)
    by (auto simp del: One_nat_def)
  obtain w3 where r2: "?raw (JString [char_of (2 :: nat)]) w2 = (Some (Inr ()), Nowhere, w3)"
    and w3: "r_noise w3 = Some sample_negotiating" "r_files w3 = chan_files" "\<not> c_cancelled (r_control w3)"
    using sample_raw [OF w2(1,2) ch(3) _ ch(7), of 2 "[sample_shake]" "\<lambda>_. CLOSED_DURING"] receive_sample_offer ch(9) w2(3)
    by auto
  obtain fr where ans: "receive chan_lib calm_host [3] False sample_negotiating chan_files =
      (Inr (None, [sample_shake, \<lparr>nw_payload = fr, nw_binary = True\<rparr>]), sample_open, chan_files)"
    using receive_sample_answer by blast
  obtain w4 where r3: "?raw (JString [char_of (3 :: nat)]) w3 = (Some (Inr ()), Nowhere, w4)"
    and w4: "r_noise w4 = Some sample_open" "\<not> c_cancelled (r_control w4)" "h_handshake_complete (r_health w4)"
    using sample_raw [OF w3(1,2) ch(4) _ ch(8), of 3 "[sample_shake, \<lparr>nw_payload = fr, nw_binary = True\<rparr>]"
        "\<lambda>_. CLOSED_DURING"] ans ch(5,9) w3(3)
    by auto
  have done4: "h_handshake_complete (http_healthcheck w4)"
    using w4 ch(5,8) by (simp add: http_healthcheck_def slot_health_def noise_health_complete slot_ready_def ready_def)
  have "poll_current_session sample_http_lib calm_host (\<lambda>_. CLOSED_DURING) sample_poll w1 =
      (Some (Inr ()), [Nowhere, Nowhere, Nowhere], w4)"
    using w1(4) r1 r2 r3 done4
    by (simp add: poll_current_session_def poll_inner_def fetch_each_def sample_poll_def http_answer_def
        acknowledged_def already_disconnected_def queue_of_def as_array_def)
  then have p: "poll_until_complete sample_http_lib (\<lambda>_. CLOSED_DURING) (n_polls sample_connect) w1 =
      (Some (Inr ()), [Nowhere, Nowhere, Nowhere], w4)"
    using w1(5) done4
    by (simp add: sample_connect_def poll_until_complete.simps http_healthcheck_def slot_health_def noise_health_complete)
  have "h_handshake_complete (http_healthcheck (w4\<lparr>r_health := ready_health a b c (r_health w4)\<rparr>))" for a b c
    using w4 ch(5,8)
    by (simp add: http_healthcheck_def slot_health_def noise_health_complete slot_ready_def ready_def ready_health_def)
  then show ?thesis
    using o p
    by (simp add: http_step_def http_connect_locked_def reset_admission_def http_connect_inner_def sample_connect_def
        http_new_def l Let_def)
qed


end
