(* ===== verification/Mqtt.thy ===== *)
theory Mqtt
  imports Carrier
begin

text \<open>
  \<open>src/src/transport.rs\<close>, \<open>MqttTransport\<close>: the channel over two topics of an MQTT broker. The broker's
  client (\<open>rumqttc\<close>) is what each step is told of it: a frame is sent once the client queued it. Frames
  arrive on a task of their own, so a connect is two steps with the frames of the handshake between them.
\<close>

section \<open>Topics and options\<close>

record mqtt_credentials =
  mc_endpoint :: string
  mc_username :: string
  mc_password :: string
  mc_topic_prefix :: "string option"
  mc_qos :: u8
  mc_tls :: bool

record topic_set =
  inbound :: string
  outbound :: string
  status_topic :: string

definition NO_CREDENTIALS :: thalovant_error where
  "NO_CREDENTIALS = UnsupportedProtocol ''identity does not include MQTT broker credentials''"

text \<open>\<open>trim_matches('/')\<close>.\<close>

definition trim_slashes :: "string \<Rightarrow> string" where
  "trim_slashes s = rev (dropWhile (\<lambda>c. c = CHR ''/'') (rev (dropWhile (\<lambda>c. c = CHR ''/'') s)))"

definition topic_forbidden :: "char \<Rightarrow> bool" where
  "topic_forbidden c \<longleftrightarrow> c \<in> {CHR ''#'', CHR ''+''} \<or> (of_char c :: nat) < 0x20"

definition mqtt_topics_for_identity :: "mqtt_credentials option \<Rightarrow> topic_set res" where
  "mqtt_topics_for_identity credentials =
     (case credentials of
        None \<Rightarrow> Inl NO_CREDENTIALS
      | Some m \<Rightarrow>
          (case map_option (\<lambda>p. trim (trim_slashes (trim p))) (mc_topic_prefix m) of
             None \<Rightarrow> Inl (Connection ''MQTT credentials must include topic_prefix.'')
           | Some base \<Rightarrow>
               if base = [] then Inl (Connection ''MQTT credentials must include topic_prefix.'')
               else if list_ex topic_forbidden base
               then Inl (Connection ''MQTT topic_prefix contains characters that are not valid in an MQTT topic.'')
               else Inr \<lparr>inbound = base @ ''/in'', outbound = base @ ''/out'', status_topic = base @ ''/status''\<rparr>))"

datatype quality = AtMostOnce | AtLeastOnce

definition qos :: "u8 \<Rightarrow> quality" where
  "qos v = (if v = 0 then AtMostOnce else AtLeastOnce)"

record url =
  u_scheme :: string
  u_host :: "string option"
  u_port :: "nat option"

datatype socket_kind = Plain_Tcp | Tls_Native | Tls_With string

record mqtt_options =
  o_client_id :: string
  o_host :: string
  o_port :: nat
  o_transport :: socket_kind
  o_max_packet :: nat
  o_keep_alive :: duration
  o_clean_session :: bool
  o_credentials :: "string \<times> string"
  o_last_will :: "(string \<times> string \<times> quality \<times> bool) option"

definition mqtt_tls_enabled :: "mqtt_credentials \<Rightarrow> string \<Rightarrow> bool" where
  "mqtt_tls_enabled m scheme \<longleftrightarrow> mc_tls m \<or> scheme \<in> {''mqtts'', ''ssl''}"

definition mqtt_default_port :: "bool \<Rightarrow> nat" where
  "mqtt_default_port tls = (if tls then 8883 else 1883)"

definition CLEARTEXT_BROKER :: thalovant_error where
  "CLEARTEXT_BROKER = Connection
     ''refusing to connect to an MQTT broker without TLS. Use an mqtts:// endpoint, or set tls: true on the identity's mqtt block''"

text \<open>\<open>parse\<close> is the URL parser, \<open>uuid\<close> the random part of a client id; what \<open>MqttOptions::new\<close> sets by
  itself is not the code's.\<close>

definition mqtt_options_for_identity ::
    "(string \<Rightarrow> string + url) \<Rightarrow> string \<Rightarrow> mqtt_credentials option \<Rightarrow> mqtt_options res" where
  "mqtt_options_for_identity parse uuid credentials =
     (case credentials of
        None \<Rightarrow> Inl NO_CREDENTIALS
      | Some m \<Rightarrow>
          (case parse (mc_endpoint m) of
             Inl err \<Rightarrow> Inl (Connection err)
           | Inr u \<Rightarrow>
               (case u_host u of
                  None \<Rightarrow> Inl (Connection ''MQTT endpoint must include a host'')
                | Some host \<Rightarrow>
                    (let tls = mqtt_tls_enabled m (u_scheme u)
                     in if \<not> tls then Inl CLEARTEXT_BROKER
                        else Inr \<lparr>o_client_id = ''thalovant-'' @ uuid, o_host = host,
                               o_port = (case u_port u of Some p \<Rightarrow> p | None \<Rightarrow> mqtt_default_port tls),
                               o_transport = (if tls then Tls_Native else Plain_Tcp),
                               o_max_packet = 10 * 1024, o_keep_alive = from_secs 60, o_clean_session = True,
                               o_credentials = ([], []), o_last_will = None\<rparr>))))"

definition connect_options ::
    "(string \<Rightarrow> string + url) \<Rightarrow> string \<Rightarrow> string option \<Rightarrow> topic_set \<Rightarrow> mqtt_credentials \<Rightarrow> mqtt_options res" where
  "connect_options parse uuid tls_config topics m =
     res_bind (mqtt_options_for_identity parse uuid (Some m)) (\<lambda>o1.
       Inr ((case tls_config of None \<Rightarrow> o1 | Some config \<Rightarrow> o1\<lparr>o_transport := Tls_With config\<rparr>)
              \<lparr>o_max_packet := 128 * 1024, o_keep_alive := from_secs 60, o_clean_session := True,
               o_credentials := (mc_username m, mc_password m),
               o_last_will := Some (status_topic topics, ''offline'', AtLeastOnce, True)\<rparr>))"

section \<open>State\<close>

record ('b, 'h, 'c) mqtt_lib =
  ml_channel :: "('b, 'h, 'c) channel_lib"
  ml_display :: "thalovant_error \<Rightarrow> string"
  ml_to_value :: "hive_message \<Rightarrow> json option"
  ml_parse :: "string \<Rightarrow> string + url"

text \<open>\<open>t_client\<close> is the options the client in the slot was made with.\<close>

record ('h, 'c) mqtt = "('h, 'c) carrier" +
  t_credentials :: "mqtt_credentials option"
  t_topics :: topic_set
  t_tls_config :: "string option"
  t_client :: "mqtt_options option"

definition mqtt_new ::
    "channel_identity \<Rightarrow> mqtt_credentials option \<Rightarrow> string option \<Rightarrow> files \<Rightarrow> ('h, 'c) mqtt res" where
  "mqtt_new idn credentials dir fs =
     res_bind (mqtt_topics_for_identity credentials) (\<lambda>topics.
       Inr \<lparr>r_identity = idn, r_control = default_control, r_health = default_health, r_noise = None,
            r_state_dir = dir, r_files = fs, r_made = [], r_sent = [],
            t_credentials = credentials, t_topics = topics, t_tls_config = None, t_client = None\<rparr>)"

definition mqtt_healthcheck :: "('h, 'c) mqtt \<Rightarrow> health" where
  "mqtt_healthcheck w = slot_health w"

definition mqtt_remote_static_key :: "('h, 'c) mqtt \<Rightarrow> string option" where
  "mqtt_remote_static_key w = slot_key w"

definition mqtt_set_noise_state_dir :: "string option \<Rightarrow> ('h, 'c) mqtt \<Rightarrow> ('h, 'c) mqtt" where
  "mqtt_set_noise_state_dir dir w = w\<lparr>r_control := named_folder (r_control w), r_state_dir := dir\<rparr>"

section \<open>Writing\<close>

definition MQTT_NOT_CONNECTED :: thalovant_error where
  "MQTT_NOT_CONNECTED = Connection ''MQTT transport is not connected''"

text \<open>The client queued a publication, or failed; dropped while it waits for room, it was not queued.\<close>

datatype publication = Queued | Not_Queued string

definition publish_frame :: "('h, 'c) mqtt \<Rightarrow> publication writer" where
  "publish_frame w frame x =
     (if t_client w = None then (False, Some (Inl MQTT_NOT_CONNECTED))
      else case x of
             None \<Rightarrow> (False, None)
           | Some Queued \<Rightarrow> (True, Some (Inr ()))
           | Some (Not_Queued err) \<Rightarrow> (False, Some (Inl (Connection err))))"

section \<open>The end of a link\<close>

definition mqtt_mark_error ::
    "('b, 'h, 'c) mqtt_lib \<Rightarrow> host \<Rightarrow> thalovant_error \<Rightarrow> ('h, 'c) mqtt \<Rightarrow> ('h, 'c) mqtt" where
  "mqtt_mark_error lib h e w =
     (let w = empty_slot (ml_channel lib) h w in w\<lparr>r_health := error_health (ml_display lib e) (r_health w)\<rparr>)"

definition mqtt_mark_disconnected :: "('b, 'h, 'c) mqtt_lib \<Rightarrow> host \<Rightarrow> ('h, 'c) mqtt \<Rightarrow> ('h, 'c) mqtt" where
  "mqtt_mark_disconnected lib h w =
     (let w = empty_slot (ml_channel lib) h w in w\<lparr>r_health := down_health Closed (r_health w)\<rparr>)"

text \<open>The client is told that this one is offline, within a second, whatever comes of it.\<close>

definition mqtt_disconnect_inner :: "('b, 'h, 'c) mqtt_lib \<Rightarrow> host \<Rightarrow> ('h, 'c) mqtt \<Rightarrow> ('h, 'c) mqtt" where
  "mqtt_disconnect_inner lib h w = mqtt_mark_disconnected lib h (w\<lparr>t_client := None\<rparr>)"

section \<open>Reading\<close>

definition handle_raw_mqtt_payload ::
    "('b, 'h, 'c) mqtt_lib \<Rightarrow> host \<Rightarrow> publication list \<Rightarrow> bytes \<Rightarrow> ('h, 'c) mqtt
     \<Rightarrow> unit res option \<times> dispatched \<times> ('h, 'c) mqtt" where
  "handle_raw_mqtt_payload lib h xs raw w =
     (case r_noise w of
        None \<Rightarrow> (Some (Inl MQTT_NOT_CONNECTED), Nowhere, w)
      | Some ch \<Rightarrow>
          (case take_frame (ml_channel lib) h (publish_frame w) xs raw (ready ch) w of
             (Refuses e, w) \<Rightarrow> (Some (Inl e), Nowhere, w)
           | (Breaks e, w) \<Rightarrow> (Some (Inl e), Nowhere, w)
           | (Stops, w) \<Rightarrow> (None, Nowhere, w)
           | (Takes message, w) \<Rightarrow>
               (Some (Inr ()), dispatch_noise_message (ml_to_value lib) message,
                if slot_ready w
                then w\<lparr>r_health := (r_health w)\<lparr>h_handshake_complete := True, h_transport_alive := True\<rparr>\<rparr>
                else w)))"

text \<open>A turn of the task that takes what arrived; an error ends the task.\<close>

definition incoming_turn ::
    "('b, 'h, 'c) mqtt_lib \<Rightarrow> host \<Rightarrow> publication list \<Rightarrow> bytes \<Rightarrow> ('h, 'c) mqtt
     \<Rightarrow> bool \<times> dispatched \<times> ('h, 'c) mqtt" where
  "incoming_turn lib h xs raw w =
     (case handle_raw_mqtt_payload lib h xs raw w of
        (Some (Inl e), d, w) \<Rightarrow> (False, d, mqtt_mark_error lib h e w)
      | (_, d, w) \<Rightarrow> (True, d, w))"

section \<open>Sending\<close>

definition mqtt_send_message ::
    "('b, 'h, 'c) mqtt_lib \<Rightarrow> host \<Rightarrow> bool \<Rightarrow> bool \<Rightarrow> publication list \<Rightarrow> hive_message \<Rightarrow> ('h, 'c) mqtt
     \<Rightarrow> unit res option \<times> ('h, 'c) mqtt" where
  "mqtt_send_message lib h withdrawn retired xs message w =
     (if withdrawn then (None, w)
      else case write_unless_retired retired
                  (send_encrypted (ml_channel lib) MQTT_NOT_CONNECTED (publish_frame w) xs message) (r_control w) w of
             (Inl e, w) \<Rightarrow> (Some (Inl e), mqtt_mark_error lib h e w)
           | (Inr _, w) \<Rightarrow> (Some (Inr ()), w))"

section \<open>A connect\<close>

record mqtt_net =
  q_host :: host
  q_uuid :: string
  q_started :: duration
  q_opened :: duration
  q_subscribe :: "publication option"
  q_online :: "publication option"
  q_hello :: "publication option"

definition queued :: "publication option \<Rightarrow> unit res option" where
  "queued x = map_option (\<lambda>p. case p of Queued \<Rightarrow> Inr () | Not_Queued err \<Rightarrow> Inl (Connection err)) x"

text \<open>The subscription and the retained status, each of which may fail or be cut short.\<close>

definition announce_online ::
    "('b, 'h, 'c) mqtt_lib \<Rightarrow> mqtt_net \<Rightarrow> ('h, 'c) mqtt \<Rightarrow> unit res option \<times> ('h, 'c) mqtt" where
  "announce_online lib n w =
     (case queued (q_subscribe n) of
        Some (Inr _) \<Rightarrow>
          (case queued (q_online n) of
             Some (Inl e) \<Rightarrow> (Some (Inl e), mqtt_mark_error lib (q_host n) e w)
           | r \<Rightarrow> (r, w))
      | Some (Inl e) \<Rightarrow> (Some (Inl e), mqtt_mark_error lib (q_host n) e w)
      | None \<Rightarrow> (None, w))"

text \<open>The first clear HELLO makes the hub's side of the link and asks for its offer.\<close>

definition publish_hello ::
    "('b, 'h, 'c) mqtt_lib \<Rightarrow> mqtt_net \<Rightarrow> ('h, 'c) mqtt \<Rightarrow> unit res option" where
  "publish_hello lib n w =
     (case cl_to_vec (ml_channel lib) (hello_hive_message (ml_channel lib) (r_identity w) ''thalovant-rust-mqtt-'') of
        Inl err \<Rightarrow> Some (Inl (Json err))
      | Inr data \<Rightarrow> snd (publish_frame w \<lparr>nw_payload = data, nw_binary = False\<rparr> (q_hello n)))"

definition mqtt_open ::
    "('b, 'h, 'c) mqtt_lib \<Rightarrow> mqtt_net \<Rightarrow> ('h, 'c) mqtt \<Rightarrow> unit res option \<times> ('h, 'c) mqtt" where
  "mqtt_open lib n w =
     (if password (r_identity w) = []
      then (Some (Inl (MissingIdentityField ''password: v3 Noise requires the identity password'')), w)
      else
        (let w = install_channel w;
             w = w\<lparr>r_health := (r_health w)\<lparr>h_connection := connecting_connection (q_started n)\<rparr>\<rparr>
         in case t_credentials w of
              None \<Rightarrow> (Some (Inl NO_CREDENTIALS), mqtt_mark_error lib (q_host n) NO_CREDENTIALS w)
            | Some m \<Rightarrow>
                (case connect_options (ml_parse lib) (q_uuid n) (t_tls_config w) (t_topics w) m of
                   Inl e \<Rightarrow> (Some (Inl e), mqtt_mark_error lib (q_host n) e w)
                 | Inr options \<Rightarrow>
                     (case announce_online lib n (w\<lparr>t_client := Some options\<rparr>) of
                        (q, w) \<Rightarrow>
                          if q \<noteq> Some (Inr ()) then (q, w)
                          else (let w = w\<lparr>r_health := (r_health w)\<lparr>h_connected := True, h_transport_alive := True,
                                     h_connection := (h_connection (r_health w))\<lparr>i_phase := Handshake,
                                       i_transport_open_ms := Some (elapsed_ms (q_started n) (q_opened n))\<rparr>\<rparr>\<rparr>
                                in (publish_hello lib n w, w))))))"

definition mqtt_finish ::
    "duration \<Rightarrow> duration \<Rightarrow> duration \<Rightarrow> ('h, 'c) mqtt \<Rightarrow> unit res \<times> ('h, 'c) mqtt" where
  "mqtt_finish started opened now w =
     (if h_handshake_complete (mqtt_healthcheck w)
      then (Inr (), w\<lparr>r_health := ready_health now started opened (r_health w)\<rparr>)
      else (case typed (Connection (case h_last_error (r_health w) of
                          Some cause \<Rightarrow> cause
                        | None \<Rightarrow> ''HiveMind MQTT Noise handshake did not complete'')) (r_control w) of
              (e, c) \<Rightarrow> (Inl e, w\<lparr>r_control := c\<rparr>)))"

text \<open>The beginning of \<open>connect_locked\<close>, and what it does with an error.\<close>

definition mqtt_prepare :: "('b, 'h, 'c) mqtt_lib \<Rightarrow> host \<Rightarrow> ('h, 'c) mqtt \<Rightarrow> ('h, 'c) mqtt" where
  "mqtt_prepare lib h w = (mqtt_disconnect_inner lib h w)\<lparr>r_health := default_health\<rparr>"

definition mqtt_fail ::
    "('b, 'h, 'c) mqtt_lib \<Rightarrow> host \<Rightarrow> thalovant_error \<Rightarrow> ('h, 'c) mqtt \<Rightarrow> ('h, 'c) mqtt" where
  "mqtt_fail lib h e w = mqtt_mark_error lib h e (mqtt_disconnect_inner lib h w)"

definition mqtt_connect_opens ::
    "('b, 'h, 'c) mqtt_lib \<Rightarrow> mqtt_net \<Rightarrow> ('h, 'c) mqtt \<Rightarrow> unit res option \<times> ('h, 'c) mqtt" where
  "mqtt_connect_opens lib n w =
     (case mqtt_open lib n (mqtt_prepare lib (q_host n) w) of
        (Some (Inl e), w) \<Rightarrow> (Some (Inl e), mqtt_fail lib (q_host n) e w)
      | (q, w) \<Rightarrow> (q, w))"

definition mqtt_connect_finishes ::
    "('b, 'h, 'c) mqtt_lib \<Rightarrow> host \<Rightarrow> duration \<Rightarrow> duration \<Rightarrow> duration \<Rightarrow> ('h, 'c) mqtt \<Rightarrow> unit res \<times> ('h, 'c) mqtt" where
  "mqtt_connect_finishes lib h started opened now w =
     (case mqtt_finish started opened now w of
        (Inl e, w) \<Rightarrow> (Inl e, mqtt_fail lib h e w)
      | (Inr _, w) \<Rightarrow> (Inr (), w))"

section \<open>The life of a transport\<close>

datatype mqtt_event =
    Mqtt_Opens mqtt_net
  | Mqtt_Finishes host duration duration duration
  | Mqtt_Times_Out host
  | Payload_Arrives host "publication list" bytes
  | Payload_Dropped host bytes
  | Loop_Fails host thalovant_error
  | Mqtt_Sends host bool bool "publication list" hive_message
  | Mqtt_Disconnects host
  | Mqtt_Folder "string option"
  | Mqtt_Tls "string option"
  | Mqtt_Control control
  | Mqtt_Others store_op

definition mqtt_step :: "('b, 'h, 'c) mqtt_lib \<Rightarrow> mqtt_event \<Rightarrow> ('h, 'c) mqtt \<Rightarrow> ('h, 'c) mqtt" where
  "mqtt_step lib e w =
     (case e of
        Mqtt_Opens n \<Rightarrow> snd (mqtt_connect_opens lib n w)
      | Mqtt_Finishes h started opened now \<Rightarrow> snd (mqtt_connect_finishes lib h started opened now w)
      | Mqtt_Times_Out h \<Rightarrow> mqtt_fail lib h (Timeout ''HiveMind MQTT Noise handshake timed out'') w
      | Payload_Arrives h xs raw \<Rightarrow> snd (snd (incoming_turn lib h xs raw w))
      | Payload_Dropped h raw \<Rightarrow> abandon_frame (ml_channel lib) h raw False w
      | Loop_Fails h err \<Rightarrow> mqtt_mark_error lib h err w
      | Mqtt_Sends h withdrawn retired xs message \<Rightarrow> snd (mqtt_send_message lib h withdrawn retired xs message w)
      | Mqtt_Disconnects h \<Rightarrow> mqtt_disconnect_inner lib h w
      | Mqtt_Folder dir \<Rightarrow> mqtt_set_noise_state_dir dir w
      | Mqtt_Tls config \<Rightarrow> w\<lparr>t_tls_config := config\<rparr>
      | Mqtt_Control c \<Rightarrow> w\<lparr>r_control := c\<rparr>
      | Mqtt_Others o1 \<Rightarrow>
          w\<lparr>r_files := store_step (cl_store (ml_channel lib)) (cl_hex (ml_channel lib)) o1 (r_files w)\<rparr>)"

end
