(* ===== verification/Mqtt_Safety.thy ===== *)
theory Mqtt_Safety
  imports Mqtt
begin

text \<open>
  What an MQTT transport keeps over its life: the broker is only ever reached over TLS, on topics of its
  own that hold no wildcard, and a transport that reports itself ready stands on the pinned hub key with
  every frame it made handed to its client.
\<close>

section \<open>Topics\<close>

definition topics_sound :: "topic_set \<Rightarrow> bool" where
  "topics_sound t \<longleftrightarrow>
     (\<exists>base. base \<noteq> [] \<and> inbound t = base @ ''/in'' \<and> outbound t = base @ ''/out'' \<and> status_topic t = base @ ''/status'')
     \<and> list_all (\<lambda>s. list_all (\<lambda>c. \<not> topic_forbidden c) s) [inbound t, outbound t, status_topic t]"

lemma mqtt_topics_sound:
  assumes "mqtt_topics_for_identity m = Inr t"
  shows "topics_sound t"
proof -
  obtain base where b: "base \<noteq> []" "\<not> list_ex topic_forbidden base"
    and t: "t = \<lparr>inbound = base @ ''/in'', outbound = base @ ''/out'', status_topic = base @ ''/status''\<rparr>"
    using assms by (auto simp: mqtt_topics_for_identity_def split: option.splits if_splits)
  have "list_all (\<lambda>c. \<not> topic_forbidden c) base" using b(2) by (simp add: list_ex_iff list_all_iff)
  then show ?thesis using b(1) by (simp add: topics_sound_def t topic_forbidden_def)
qed

lemma sound_topics_distinct: "topics_sound t \<Longrightarrow> distinct [inbound t, outbound t, status_topic t]"
  by (auto simp: topics_sound_def)

section \<open>Options\<close>

definition options_safe :: "topic_set \<Rightarrow> mqtt_options \<Rightarrow> bool" where
  "options_safe t o1 \<longleftrightarrow>
     o_transport o1 \<noteq> Plain_Tcp \<and> 65535 < o_max_packet o1 \<and> o_clean_session o1
     \<and> o_last_will o1 = Some (status_topic t, ''offline'', AtLeastOnce, True)"

lemma connect_options_safe:
  assumes "connect_options parse uuid config t m = Inr o1"
  shows "options_safe t o1"
proof -
  obtain o2 where "mqtt_options_for_identity parse uuid (Some m) = Inr o2"
    using assms by (auto simp: connect_options_def res_bind_eq_Inr)
  moreover from this have "o_transport o2 = Tls_Native"
    by (auto simp: mqtt_options_for_identity_def Let_def split: sum.splits option.splits if_splits)
  ultimately show ?thesis
    using assms by (cases config) (auto simp: connect_options_def options_safe_def)
qed

section \<open>The invariant\<close>

definition mqtt_inv :: "('b, 'h, 'c) mqtt_lib \<Rightarrow> topic_set \<Rightarrow> ('h, 'c) mqtt \<Rightarrow> bool" where
  "mqtt_inv lib t w \<longleftrightarrow>
     carrier_inv (ml_channel lib) w \<and> t_topics w = t \<and> pred_option (options_safe t) (t_client w)"

lemma mqtt_more:
  fixes w w' :: "('h, 'c) mqtt"
  assumes "carrier.more w' = carrier.more w"
  shows "t_topics w' = t_topics w" "t_client w' = t_client w" "t_credentials w' = t_credentials w"
    "t_tls_config w' = t_tls_config w"
  using assms by (cases w; cases w'; simp)+

lemma mqtt_inv_cong:
  assumes "mqtt_inv lib t w" and "carrier_inv (ml_channel lib) w'" and "carrier.more w' = carrier.more w"
  shows "mqtt_inv lib t w'"
  using assms mqtt_more [OF assms(3)] by (simp add: mqtt_inv_def)

lemma mqtt_inv_update [simp]:
  "mqtt_inv lib t (w\<lparr>r_health := hl\<rparr>) = mqtt_inv lib t w" "mqtt_inv lib t (w\<lparr>r_control := c\<rparr>) = mqtt_inv lib t w"
  "mqtt_inv lib t (w\<lparr>r_state_dir := dir\<rparr>) = mqtt_inv lib t w"
  by (simp_all add: mqtt_inv_def)

lemma carrier_inv_client [simp]:
  "carrier_inv lib (w\<lparr>t_client := x\<rparr>) = carrier_inv lib w" "carrier_inv lib (w\<lparr>t_tls_config := y\<rparr>) = carrier_inv lib w"
  by (simp_all add: carrier_inv_def sent_in_order_def slot_trusted_def)

lemma empty_slot_mqtt: "mqtt_inv lib t w \<Longrightarrow> mqtt_inv lib t (empty_slot (ml_channel lib) h w)"
  by (rule mqtt_inv_cong) (simp_all add: mqtt_inv_def)

lemma mqtt_ends_inv:
  assumes "mqtt_inv lib t w"
  shows "mqtt_inv lib t (mqtt_mark_error lib h e w)" "mqtt_inv lib t (mqtt_disconnect_inner lib h w)"
    "mqtt_inv lib t (mqtt_fail lib h e w)" "mqtt_inv lib t (mqtt_prepare lib h w)"
proof -
  have "mqtt_inv lib t (w\<lparr>t_client := None\<rparr>)" using assms by (simp add: mqtt_inv_def)
  then show disc: "mqtt_inv lib t (mqtt_disconnect_inner lib h w)"
    by (simp add: mqtt_disconnect_inner_def mqtt_mark_disconnected_def Let_def empty_slot_mqtt)
  show "mqtt_inv lib t (mqtt_mark_error lib h e w)"
    using assms by (simp add: mqtt_mark_error_def Let_def empty_slot_mqtt)
  show "mqtt_inv lib t (mqtt_fail lib h e w)" "mqtt_inv lib t (mqtt_prepare lib h w)"
    using disc by (simp_all add: mqtt_fail_def mqtt_mark_error_def mqtt_prepare_def Let_def empty_slot_mqtt)
qed

lemma incoming_inv:
  assumes laws: "store_laws (cl_store (ml_channel lib)) (cl_hex (ml_channel lib))" and inv: "mqtt_inv lib t w"
  shows "mqtt_inv lib t (snd (snd (incoming_turn lib h xs raw w)))"
proof (cases "r_noise w")
  case None
  then show ?thesis
    using mqtt_ends_inv(1) [OF inv] by (simp add: incoming_turn_def handle_raw_mqtt_payload_def)
next
  case (Some ch)
  obtain e w1 where f: "take_frame (ml_channel lib) h (publish_frame w) xs raw (ready ch) w = (e, w1)" by fastforce
  have "mqtt_inv lib t w1"
    using take_frame_inv [OF laws _ f] inv mqtt_inv_cong [OF inv] by (simp add: mqtt_inv_def)
  then show ?thesis
    using Some f mqtt_ends_inv(1) by (cases e) (auto simp: incoming_turn_def handle_raw_mqtt_payload_def)
qed

lemma mqtt_send_inv:
  assumes laws: "store_laws (cl_store (ml_channel lib)) (cl_hex (ml_channel lib))" and inv: "mqtt_inv lib t w"
  shows "mqtt_inv lib t (snd (mqtt_send_message lib h withdrawn retired xs m w))"
proof -
  obtain q w1 where s: "send_encrypted (ml_channel lib) MQTT_NOT_CONNECTED (publish_frame w) xs m w = (q, w1)"
    by fastforce
  have "mqtt_inv lib t w1"
    using send_encrypted_inv [OF laws _ s] inv mqtt_inv_cong [OF inv] by (simp add: mqtt_inv_def)
  with inv show ?thesis
    using s by (auto simp: mqtt_send_message_def write_unless_retired_def mqtt_ends_inv split: option.split sum.split)
qed

lemma announce_online_inv:
  assumes "mqtt_inv lib t w" and "announce_online lib n w = (q, w')"
  shows "mqtt_inv lib t w'"
  using assms mqtt_ends_inv(1) [OF assms(1)]
  by (auto simp: announce_online_def split: option.splits sum.splits)

lemma mqtt_open_inv:
  assumes inv: "mqtt_inv lib t w" and o: "mqtt_open lib n w = (q, w')"
  shows "mqtt_inv lib t w'"
proof -
  let ?w = "(install_channel w)\<lparr>r_health := (r_health (install_channel w))\<lparr>h_connection := connecting_connection (q_started n)\<rparr>\<rparr>"
  have more: "carrier.more (install_channel w) = carrier.more w" by (simp add: install_channel_def Let_def)
  then have i: "mqtt_inv lib t ?w" using mqtt_inv_cong [OF inv] by simp
  have client: "mqtt_inv lib t (?w\<lparr>t_client := Some o1\<rparr>)"
    if "connect_options (ml_parse lib) (q_uuid n) (t_tls_config ?w) (t_topics ?w) m = Inr o1" for m o1
    using i connect_options_safe [OF that] by (simp add: mqtt_inv_def)
  show ?thesis
  proof (cases "t_credentials ?w")
    case None
    then show ?thesis
      using o inv mqtt_ends_inv(1) [OF i] by (auto simp: mqtt_open_def Let_def split: if_splits)
  next
    case (Some m)
    show ?thesis
    proof (cases "connect_options (ml_parse lib) (q_uuid n) (t_tls_config ?w) (t_topics ?w) m")
      case (Inl e)
      then show ?thesis
        using o inv Some mqtt_ends_inv(1) [OF i] by (auto simp: mqtt_open_def Let_def split: if_splits)
    next
      case (Inr o1)
      obtain p w2 where a: "announce_online lib n (?w\<lparr>t_client := Some o1\<rparr>) = (p, w2)" by fastforce
      have "mqtt_inv lib t w2" by (rule announce_online_inv [OF client [OF Inr] a])
      then show ?thesis
        using o inv Some Inr a by (auto simp: mqtt_open_def Let_def split: if_splits)
    qed
  qed
qed

definition mqtt_forgets :: "mqtt_event \<Rightarrow> bool" where
  "mqtt_forgets e = (case e of Mqtt_Others o1 \<Rightarrow> (case o1 of Forget_Pin _ _ _ \<Rightarrow> True | _ \<Rightarrow> False) | _ \<Rightarrow> False)"

lemma mqtt_step_inv:
  assumes laws: "store_laws (cl_store (ml_channel lib)) (cl_hex (ml_channel lib))" and inv: "mqtt_inv lib t w"
    and no: "\<not> mqtt_forgets e"
  shows "mqtt_inv lib t (mqtt_step lib e w)"
proof (cases e)
  case (Mqtt_Opens n)
  obtain q w1 where o: "mqtt_open lib n (mqtt_prepare lib (q_host n) w) = (q, w1)" by fastforce
  have "mqtt_inv lib t w1" by (rule mqtt_open_inv [OF mqtt_ends_inv(4) [OF inv] o])
  then show ?thesis
    using o Mqtt_Opens mqtt_ends_inv(3) by (auto simp: mqtt_step_def mqtt_connect_opens_def split: option.split sum.split)
next
  case (Mqtt_Finishes h started opened now)
  then show ?thesis
    using inv
    by (auto simp: mqtt_step_def mqtt_connect_finishes_def mqtt_finish_def typed_def intro!: mqtt_ends_inv(3)
        split: sum.split prod.split)
next
  case (Payload_Dropped h raw)
  have "carrier.more (abandon_frame (ml_channel lib) h raw False w) = carrier.more w"
    by (simp add: abandon_frame_def split: option.split prod.split)
  then have "mqtt_inv lib t (abandon_frame (ml_channel lib) h raw False w)"
    using mqtt_inv_cong [OF inv abandon_frame_inv] inv by (simp add: mqtt_inv_def)
  then show ?thesis using Payload_Dropped by (simp add: mqtt_step_def)
next
  case (Mqtt_Others o1)
  then have "\<not> (\<exists>d p n. o1 = Forget_Pin d p n)" using no by (auto simp: mqtt_forgets_def)
  from elsewhere_inv [OF laws _ this, of w] show ?thesis
    using inv Mqtt_Others by (simp add: mqtt_step_def mqtt_inv_def)
next
  case (Mqtt_Tls config)
  then show ?thesis using inv by (simp add: mqtt_step_def mqtt_inv_def)
next
  case (Mqtt_Folder dir)
  then show ?thesis using inv by (simp add: mqtt_step_def mqtt_set_noise_state_dir_def)
qed (use inv in \<open>simp_all add: mqtt_step_def mqtt_ends_inv incoming_inv [OF laws] mqtt_send_inv [OF laws]\<close>)

interpretation mqtt_life: sticky "mqtt_step lib" "\<lambda>w. if mqtt_inv lib t w then Some () else None" mqtt_forgets
    "\<lambda>_. store_laws (cl_store (ml_channel lib)) (cl_hex (ml_channel lib))" for lib t
  by unfold_locales (auto dest: mqtt_step_inv split: if_splits)

lemma mqtt_run_inv:
  assumes "store_laws (cl_store (ml_channel lib)) (cl_hex (ml_channel lib))" and "mqtt_inv lib t w"
    and "\<forall>e \<in> set es. \<not> mqtt_forgets e"
  shows "mqtt_inv lib t (run_steps (mqtt_step lib) es w)"
  using mqtt_life.slot_run [OF assms(1), of t w "()" es] assms(2,3) by (auto split: if_splits)

lemma mqtt_inv_new:
  assumes "mqtt_new idn credentials dir fs = Inr w"
  shows "mqtt_inv lib (t_topics w) w \<and> topics_sound (t_topics w)"
  using assms by (auto simp: mqtt_new_def res_bind_eq_Inr mqtt_inv_def carrier_inv_empty dest: mqtt_topics_sound)

text \<open>
  C16: an MQTT transport reaches its broker safely and the hub it trusts through it. Whatever arrives and
  whatever the client does, the topics are the ones it was made with, three of them, with no wildcard and
  no control character; a client is only ever made with TLS, with room for a whole frame, and with its
  own retained \<open>offline\<close> as the last will. And, over a life in which no pin is deliberately forgotten,
  when a health check reports the handshake complete, the transport is not cancelled, its session has not failed and is with the hub whose key is pinned, and
  every frame made was handed to the client in order.
\<close>

theorem mqtt_ready_is_pinned:
  assumes "store_laws (cl_store (ml_channel lib)) (cl_hex (ml_channel lib))"
    and "\<forall>e \<in> set es. \<not> mqtt_forgets e"
    and "mqtt_new idn credentials dir fs = Inr w0" and "w = run_steps (mqtt_step lib) es w0"
  shows "t_topics w = t_topics w0 \<and> topics_sound (t_topics w) \<and> distinct [inbound (t_topics w), outbound (t_topics w), status_topic (t_topics w)]
    \<and> pred_option (options_safe (t_topics w)) (t_client w)
    \<and> (h_handshake_complete (mqtt_healthcheck w) \<longrightarrow>
        \<not> c_cancelled (r_control w) \<and> r_sent w = r_made w
        \<and> (\<exists>ch key pin. r_noise w = Some ch \<and> ready ch \<and> mqtt_remote_static_key w = Some key
             \<and> trusts (cl_store (ml_channel lib)) (dir_of (ml_channel lib) ch) (r_files w) (ch_node_id ch) = Some pin
             \<and> eq_ignore_ascii_case pin key))"
proof -
  have new: "mqtt_inv lib (t_topics w0) w0" and t: "topics_sound (t_topics w0)"
    using mqtt_inv_new [OF assms(3)] by blast+
  have "mqtt_inv lib (t_topics w0) w" unfolding assms(4) by (rule mqtt_run_inv [OF assms(1) new assms(2)])
  then have "carrier_inv (ml_channel lib) w" "t_topics w = t_topics w0"
    "pred_option (options_safe (t_topics w)) (t_client w)"
    by (simp_all add: mqtt_inv_def)
  then show ?thesis
    using complete_is_pinned [of "ml_channel lib" w] t sound_topics_distinct [OF t]
    unfolding mqtt_healthcheck_def mqtt_remote_static_key_def by simp
qed

section \<open>A transport that connects\<close>

definition sample_mqtt_lib :: "(nat, nat, nat) mqtt_lib" where
  "sample_mqtt_lib =
     \<lparr>ml_channel = chan_lib, ml_display = (\<lambda>_. []), ml_to_value = (\<lambda>_. None),
      ml_parse = (\<lambda>_. Inr \<lparr>u_scheme = ''mqtts'', u_host = Some ''broker'', u_port = None\<rparr>)\<rparr>"

definition sample_credentials :: mqtt_credentials where
  "sample_credentials =
     \<lparr>mc_endpoint = ''mqtts://broker'', mc_username = ''u'', mc_password = ''p'', mc_topic_prefix = Some ''/hub/'',
      mc_qos = 1, mc_tls = True\<rparr>"

definition sample_net :: mqtt_net where
  "sample_net =
     \<lparr>q_host = calm_host, q_uuid = [], q_started = 0, q_opened = 0, q_subscribe = Some Queued,
      q_online = Some Queued, q_hello = Some Queued\<rparr>"

definition sample_payloads :: "mqtt_event list" where
  "sample_payloads =
     Mqtt_Opens sample_net # map (\<lambda>d. Payload_Arrives calm_host [Queued, Queued] [d]) [1, 2, 3]"

lemma queued_writes:
  assumes "t_client w \<noteq> None" and "length ws \<le> length xs" and "set xs \<subseteq> {Queued}"
  shows "write_all (publish_frame w) xs ws = (Some (Inr ()), ws)"
  using assms(2,3)
proof (induction ws arbitrary: xs)
  case (Cons v ws)
  then obtain xs' where xs: "xs = Queued # xs'" by (cases xs) auto
  have "publish_frame w v (Some Queued) = (True, Some (Inr ()))" using assms(1) by (simp add: publish_frame_def)
  then show ?case using Cons xs by simp
qed simp

lemma sample_payload:
  assumes "r_noise w = Some ch" and "r_files w = chan_files" and "ch_session ch = None"
    and "receive chan_lib calm_host [n] False ch chan_files = (Inr (None, ws), ch', chan_files)"
    and "\<not> ch_failed ch'" and "length ws \<le> 2" and "t_client w \<noteq> None"
  shows "\<exists>w'. mqtt_step sample_mqtt_lib (Payload_Arrives calm_host [Queued, Queued] [n]) w = w'
    \<and> r_noise w' = Some ch' \<and> r_files w' = chan_files \<and> c_cancelled (r_control w') = c_cancelled (r_control w)
    \<and> t_client w' = t_client w \<and> (ch_session ch' \<noteq> None \<longrightarrow> h_handshake_complete (r_health w'))"
proof -
  have wr: "write_all (publish_frame w) [Queued, Queued] ws = (Some (Inr ()), ws)"
    by (rule queued_writes) (use assms(6,7) in auto)
  obtain w' where t: "take_frame chan_lib calm_host (publish_frame w) [Queued, Queued] [n] False w = (Takes None, w')"
    "r_noise w' = Some ch' \<and> r_files w' = chan_files \<and> c_cancelled (r_control w') = c_cancelled (r_control w)"
    "carrier.more w' = carrier.more w"
    using sample_take_frame [OF assms(1-5) wr] by blast
  moreover have "ml_channel sample_mqtt_lib = chan_lib" by (simp add: sample_mqtt_lib_def)
  ultimately show ?thesis
    using assms(1,3,5) mqtt_more(2) [OF t(3)]
    by (simp add: mqtt_step_def incoming_turn_def handle_raw_mqtt_payload_def slot_ready_def ready_def)
qed

lemma sample_mqtt_new:
  "\<exists>w :: (nat, nat) mqtt. mqtt_new sample_identity (Some sample_credentials) None chan_files = Inr w \<and> r_identity w = sample_identity
     \<and> r_control w = default_control \<and> r_files w = chan_files \<and> t_credentials w = Some sample_credentials
     \<and> t_tls_config w = None \<and> r_state_dir w = None"
proof -
  have trims: "trim ''/hub/'' = ''/hub/''" "trim ''hub'' = ''hub''" by (simp_all add: trim_plain plain_char_def)
  show ?thesis
    by (simp add: mqtt_new_def mqtt_topics_for_identity_def sample_credentials_def trims trim_slashes_def
        topic_forbidden_def)
qed

lemma sample_mqtt_run:
  assumes "mqtt_new sample_identity (Some sample_credentials) None chan_files = Inr w0"
  shows "h_handshake_complete (mqtt_healthcheck (run_steps (mqtt_step sample_mqtt_lib) sample_payloads w0))"
proof -
  let ?step = "mqtt_step sample_mqtt_lib"
  note ch = sample_channels
  have w0: "r_identity w0 = sample_identity" "r_control w0 = default_control" "r_files w0 = chan_files"
    "t_credentials w0 = Some sample_credentials" "t_tls_config w0 = None" "r_state_dir w0 = None" "r_noise w0 = None"
    using assms sample_mqtt_new by (auto simp: mqtt_new_def res_bind_eq_Inr)
  have hello: "publish_hello sample_mqtt_lib sample_net w = Some (Inr ())" if "t_client w \<noteq> None" for w
    using that by (simp add: publish_hello_def sample_mqtt_lib_def sample_net_def publish_frame_def chan_lib_def)
  have nets: "q_subscribe sample_net = Some Queued" "q_online sample_net = Some Queued"
    "ml_parse sample_mqtt_lib e = Inr \<lparr>u_scheme = ''mqtts'', u_host = Some ''broker'', u_port = None\<rparr>" for e
    by (simp_all add: sample_net_def sample_mqtt_lib_def)
  obtain w1 where o: "?step (Mqtt_Opens sample_net) w0 = w1" by simp
  have w1: "r_noise w1 = Some sample_start" "r_files w1 = chan_files" "\<not> c_cancelled (r_control w1)" "t_client w1 \<noteq> None"
    using o w0 ch(1) hello
    by (auto simp: mqtt_step_def mqtt_connect_opens_def mqtt_open_def mqtt_prepare_def mqtt_disconnect_inner_def
        mqtt_mark_disconnected_def empty_slot_def clear_noise_def sample_identity_def install_channel_def
        connect_options_def mqtt_options_for_identity_def mqtt_tls_enabled_def announce_online_def queued_def nets
        default_control_def sample_credentials_def Let_def)
  obtain w2 where r1: "?step (Payload_Arrives calm_host [Queued, Queued] [1]) w1 = w2"
    and w2: "r_noise w2 = Some sample_greeted" "r_files w2 = chan_files" "\<not> c_cancelled (r_control w2)" "t_client w2 \<noteq> None"
    using sample_payload [OF w1(1,2) ch(2) receive_sample_hello ch(6) _ w1(4)] w1(3,4) by auto
  obtain w3 where r2: "?step (Payload_Arrives calm_host [Queued, Queued] [2]) w2 = w3"
    and w3: "r_noise w3 = Some sample_negotiating" "r_files w3 = chan_files" "\<not> c_cancelled (r_control w3)" "t_client w3 \<noteq> None"
    using sample_payload [OF w2(1,2) ch(3) receive_sample_offer ch(7) _ w2(4)] w2(3,4) by auto
  obtain fr where ans: "receive chan_lib calm_host [3] False sample_negotiating chan_files =
      (Inr (None, [sample_shake, \<lparr>nw_payload = fr, nw_binary = True\<rparr>]), sample_open, chan_files)"
    using receive_sample_answer by blast
  obtain w4 where r3: "?step (Payload_Arrives calm_host [Queued, Queued] [3]) w3 = w4"
    and w4: "r_noise w4 = Some sample_open" "\<not> c_cancelled (r_control w4)" "h_handshake_complete (r_health w4)"
    using sample_payload [OF w3(1,2) ch(4) ans ch(8) _ w3(4)] w3(3) ch(5) by auto
  show ?thesis
    using o r1 r2 r3 w4 ch(5,8)
    by (simp add: sample_payloads_def mqtt_healthcheck_def slot_health_def noise_health_complete slot_ready_def ready_def)
qed

theorem mqtt_ready_is_pinned_witness:
  "\<exists>w0 (w :: (nat, nat) mqtt) ch key. mqtt_new sample_identity (Some sample_credentials) None chan_files = Inr w0
     \<and> w = run_steps (mqtt_step sample_mqtt_lib) sample_payloads w0
     \<and> r_noise w = Some ch \<and> ready ch \<and> mqtt_remote_static_key w = Some key"
proof -
  have l: "store_laws (cl_store (ml_channel sample_mqtt_lib)) (cl_hex (ml_channel sample_mqtt_lib))"
    using sample_laws by (simp add: sample_mqtt_lib_def chan_lib_def)
  have no: "\<forall>e \<in> set sample_payloads. \<not> mqtt_forgets e" by (simp add: sample_payloads_def mqtt_forgets_def)
  obtain w0 :: "(nat, nat) mqtt" where w0: "mqtt_new sample_identity (Some sample_credentials) None chan_files = Inr w0"
    using sample_mqtt_new by blast
  show ?thesis
    using mqtt_ready_is_pinned [OF l no w0 refl] sample_mqtt_run [OF w0] w0 by blast
qed

end
