(* ===== verification/Conversations.thy ===== *)
theory Conversations
  imports Events
begin

text \<open>
  \<open>src/src/client.rs\<close>, the conversations a client remembers. A hub keeps nothing for a named session, so
  what the last turn left comes back with the end of the turn and is sent with the next. One
  conversation is filed under every session id that reaches it; the lemmas show that the ids of one
  conversation live and die together, that the store is bounded, and that only the oldest is dropped.
\<close>

section \<open>State\<close>

definition MAX_REMEMBERED_CONVERSATIONS :: nat where "MAX_REMEMBERED_CONVERSATIONS = 32"
definition MAX_CONVERSATION_ALIASES :: nat where "MAX_CONVERSATION_ALIASES = 8"

text \<open>
  When it was last touched, every id that reaches it, and the fields carried on. The store is a hash
  map; nothing below depends on the order it is kept in here. The counter is a \<open>u64\<close> that counts
  turns, so it is not taken to wrap.
\<close>

type_synonym conversation_entry = "nat \<times> string list \<times> jmap"
type_synonym conversation_store = "(string, conversation_entry) btree"

record conversations =
  store :: conversation_store
  sequence :: nat

abbreviation entry_time :: "conversation_entry \<Rightarrow> nat" where "entry_time e \<equiv> fst e"
abbreviation entry_group :: "conversation_entry \<Rightarrow> string list" where "entry_group e \<equiv> fst (snd e)"
abbreviation entry_kept :: "conversation_entry \<Rightarrow> jmap" where "entry_kept e \<equiv> snd (snd e)"

definition distinct_conversations :: "conversation_store \<Rightarrow> nat" where
  "distinct_conversations st = length (remdups (map (\<lambda>p. entry_time (snd p)) st))"

section \<open>Remembering a turn\<close>

text \<open>What is worth keeping of a field: a value that is not empty, false or zero.\<close>

definition truthy :: "json \<Rightarrow> bool" where
  "truthy v =
     (case v of
        JNull \<Rightarrow> False
      | JBool b \<Rightarrow> b
      | JString s \<Rightarrow> s \<noteq> []
      | JNumber (PosInt i) \<Rightarrow> i \<noteq> 0
      | JNumber (NegInt i) \<Rightarrow> i \<noteq> 0
      | JNumber (Float f) \<Rightarrow> f \<noteq> 0 \<and> f \<noteq> 0x8000000000000000
      | JArray xs \<Rightarrow> xs \<noteq> []
      | JObject m \<Rightarrow> m \<noteq> [])"

definition keep_field :: "jmap \<Rightarrow> string \<Rightarrow> jmap \<Rightarrow> jmap" where
  "keep_field session field kept =
     (case map_of session field of
        Some v \<Rightarrow> if truthy v then bt_insert field v kept else kept
      | None \<Rightarrow> kept)"

definition kept_fields :: "jmap \<Rightarrow> jmap" where
  "kept_fields context = fold (keep_field (session_from_context context)) CONVERSATION_SESSION_FIELDS []"

definition push_new :: "string \<Rightarrow> string list \<Rightarrow> string list" where
  "push_new k keys = (if k \<in> set keys then keys else keys @ [k])"

definition claim_sibling :: "string \<Rightarrow> string list \<times> conversation_store \<Rightarrow> string list \<times> conversation_store" where
  "claim_sibling s ks = (push_new s (fst ks), bt_remove s (snd ks))"

lemma bt_remove_length: "length (bt_remove k m) \<le> length m"
  by (simp add: bt_remove_def)

lemma bt_remove_shorter: "map_of m k = Some v \<Longrightarrow> length (bt_remove k m) < length m"
  unfolding bt_remove_def by (rule length_filter_less [of "(k, v)"]) (auto dest: map_of_SomeD)

lemma claim_fold:
  "fold claim_sibling g (keys, st) = (fold push_new g keys, fold bt_remove g st)"
  by (induction g arbitrary: keys st) (simp_all add: claim_sibling_def)

lemma bt_remove_fold_length: "length (fold bt_remove g m) \<le> length m"
  by (induction g arbitrary: m) (auto intro: order_trans [OF _ bt_remove_length])

text \<open>Every id the keys already reach is taken over, with the entries under it.\<close>

function take_over :: "nat \<Rightarrow> string list \<Rightarrow> conversation_store \<Rightarrow> string list \<times> conversation_store" where
  "take_over i keys st =
     (if i < length keys then
        (case map_of st (keys ! i) of
           None \<Rightarrow> take_over (i + 1) keys st
         | Some e \<Rightarrow>
             let ks = fold claim_sibling (entry_group e) (keys, bt_remove (keys ! i) st)
             in take_over (i + 1) (fst ks) (snd ks))
      else (keys, st))"
  by pat_completeness auto
termination
proof (relation "measures [\<lambda>(i, keys, st). length st, \<lambda>(i, keys, st). length keys - i]", goal_cases)
  case (3 i keys st e ks)
  have "length (snd ks) \<le> length (bt_remove (keys ! i) st)"
    unfolding 3(3) claim_fold using bt_remove_fold_length by simp
  also have "\<dots> < length st" using 3(2) by (rule bt_remove_shorter)
  finally show ?case by (simp add: case_prod_beta)
qed auto

declare take_over.simps [simp del]

text \<open>The first entry with the least time.\<close>

fun oldest_entry :: "conversation_store \<Rightarrow> conversation_entry option" where
  "oldest_entry [] = None"
| "oldest_entry (p # st) =
     (case oldest_entry st of
        None \<Rightarrow> Some (snd p)
      | Some e \<Rightarrow> if entry_time (snd p) \<le> entry_time e then Some (snd p) else Some e)"

text \<open>The loop that makes room; it is shown to end for every store that is in order.\<close>

partial_function (option) make_room :: "conversation_store \<Rightarrow> conversation_store option" where
  "make_room st =
     (if distinct_conversations st > MAX_REMEMBERED_CONVERSATIONS then
        (case oldest_entry st of
           None \<Rightarrow> Some st
         | Some e \<Rightarrow> make_room (fold bt_remove (entry_group e) st))
      else Some st)"

definition remember_conversation :: "string list \<Rightarrow> jmap \<Rightarrow> conversations \<Rightarrow> conversations option" where
  "remember_conversation session_ids context cs =
     (let kept = kept_fields context; keys = fold push_new session_ids []
      in if keys = [] then Some cs
         else let (keys, st) = take_over 0 keys (store cs)
              in if kept = [] then Some (cs\<lparr>store := fold bt_remove keys st\<rparr>)
                 else let keys = take MAX_CONVERSATION_ALIASES keys;
                          st = fold (\<lambda>k. bt_insert k (sequence cs, keys, kept)) keys st
                      in map_option (\<lambda>st. cs\<lparr>store := st, sequence := sequence cs + 1\<rparr>) (make_room st))"

definition continue_conversation :: "jmap option \<Rightarrow> string \<Rightarrow> conversations \<Rightarrow> jmap option" where
  "continue_conversation context session_id cs =
     (case map_of (store cs) session_id of
        None \<Rightarrow> None
      | Some e \<Rightarrow>
          let new = (case context of None \<Rightarrow> [] | Some c \<Rightarrow> c)
          in Some (bt_insert ''session''
                     (JObject (carry_conversation (Some (entry_kept e)) (session_from_context new))) new))"

section \<open>The store in order\<close>

text \<open>
  A store seen as a map. Every id of a conversation reaches the same entry, no two conversations have
  the same time, and times are below the counter.
\<close>

definition entry_ok :: "(string \<rightharpoonup> conversation_entry) \<Rightarrow> nat \<Rightarrow> string \<Rightarrow> conversation_entry \<Rightarrow> bool" where
  "entry_ok M n k e \<longleftrightarrow>
     k \<in> set (entry_group e) \<and> length (entry_group e) \<le> MAX_CONVERSATION_ALIASES \<and> entry_kept e \<noteq> []
     \<and> entry_time e < n \<and> (\<forall>s \<in> set (entry_group e). M s = Some e)"

definition grouped :: "nat \<Rightarrow> (string \<rightharpoonup> conversation_entry) \<Rightarrow> bool" where
  "grouped n M \<longleftrightarrow>
     (\<forall>k e. M k = Some e \<longrightarrow> entry_ok M n k e)
     \<and> (\<forall>k e k' e'. M k = Some e \<and> M k' = Some e' \<and> entry_time e = entry_time e' \<longrightarrow> e = e')"

definition conversations_ok :: "conversations \<Rightarrow> bool" where
  "conversations_ok cs \<longleftrightarrow>
     grouped (sequence cs) (map_of (store cs)) \<and> bt_inv (store cs)
     \<and> distinct_conversations (store cs) \<le> MAX_REMEMBERED_CONVERSATIONS"

lemma groupedD:
  assumes "grouped n M" and "M k = Some e"
  shows "k \<in> set (entry_group e)" "length (entry_group e) \<le> MAX_CONVERSATION_ALIASES" "entry_kept e \<noteq> []"
    "entry_time e < n" "s \<in> set (entry_group e) \<Longrightarrow> M s = Some e"
  using assms unfolding grouped_def entry_ok_def by blast+

lemma grouped_same: "grouped n M \<Longrightarrow> M k = Some e \<Longrightarrow> M k' = Some e' \<Longrightarrow> entry_time e = entry_time e' \<Longrightarrow> e = e'"
  unfolding grouped_def by blast

lemma fold_remove_map [simp]: "map_of (fold bt_remove g st) = map_of st |` (- set g)"
  by (induction g arbitrary: st) (auto simp: fun_eq_iff restrict_map_def)

lemma fold_remove_inv [simp]: "bt_inv st \<Longrightarrow> bt_inv (fold bt_remove g st)"
  by (induction g arbitrary: st) auto

lemma fold_insert_map: "map_of (fold (\<lambda>k. bt_insert k v) ks st) k = (if k \<in> set ks then Some v else map_of st k)"
  by (induction ks arbitrary: st) auto

lemma fold_insert_inv: "bt_inv st \<Longrightarrow> bt_inv (fold (\<lambda>k. bt_insert k v) ks st)"
  by (induction ks arbitrary: st) auto

lemma push_new_set [simp]: "set (push_new k ks) = insert k (set ks)"
  by (auto simp: push_new_def)

lemma push_all_set [simp]: "set (fold push_new g ks) = set g \<union> set ks"
  by (induction g arbitrary: ks) auto

lemma push_all_extends: "\<exists>more. fold push_new g ks = ks @ more"
proof (induction g arbitrary: ks)
  case (Cons s g)
  obtain more where "fold push_new g (push_new s ks) = push_new s ks @ more" using Cons by blast
  moreover have "\<exists>m. push_new s ks = ks @ m" by (simp add: push_new_def)
  ultimately show ?case by auto
qed simp

text \<open>Taking away a set of ids that is closed under conversations leaves a store in order.\<close>

lemma grouped_restrict:
  assumes "grouped n M" and closed: "\<And>k e. k \<in> D \<Longrightarrow> M k = Some e \<Longrightarrow> set (entry_group e) \<subseteq> D"
  shows "grouped n (M |` (- D))"
proof -
  have away: "s \<notin> D" if "M k = Some e" "k \<notin> D" "s \<in> set (entry_group e)" for k e s
  proof
    assume "s \<in> D"
    moreover have "M s = Some e" using groupedD(5) [OF assms(1) that(1,3)] .
    ultimately have "set (entry_group e) \<subseteq> D" by (rule closed)
    then show False using groupedD(1) [OF assms(1) that(1)] that(2) by blast
  qed
  have "entry_ok (M |` (- D)) n k e" if "(M |` (- D)) k = Some e" for k e
  proof -
    have k: "M k = Some e" "k \<notin> D" using that by (auto simp: restrict_map_def split: if_splits)
    show ?thesis
      using groupedD(1-4) [OF assms(1) k(1)] groupedD(5) [OF assms(1) k(1)] away [OF k]
      unfolding entry_ok_def by (simp add: restrict_map_def)
  qed
  moreover have "e = e'"
    if "(M |` (- D)) k = Some e" "(M |` (- D)) k' = Some e'" "entry_time e = entry_time e'" for k e k' e'
    using that grouped_same [OF assms(1), of k e k' e'] by (auto simp: restrict_map_def split: if_splits)
  ultimately show ?thesis unfolding grouped_def by blast
qed

lemma grouped_remove_group:
  assumes "grouped n M" and "M k = Some e"
  shows "grouped n (M |` (- set (entry_group e)))"
proof (rule grouped_restrict [OF assms(1)])
  fix s e'
  assume "s \<in> set (entry_group e)" "M s = Some e'"
  then show "set (entry_group e') \<subseteq> set (entry_group e)" using groupedD(5) [OF assms] by auto
qed

lemma grouped_insert:
  assumes "grouped n M" and ks: "ks \<noteq> []" "length ks \<le> MAX_CONVERSATION_ALIASES" and "kept \<noteq> []"
    and new: "\<And>k. k \<in> set ks \<Longrightarrow> M k = None"
  shows "grouped (n + 1) (\<lambda>k. if k \<in> set ks then Some (n, ks, kept) else M k)" (is "grouped _ ?M")
proof -
  have "entry_ok ?M (n + 1) k e" if "?M k = Some e" for k e
  proof (cases "k \<in> set ks")
    case True
    then show ?thesis using that assms by (auto simp: entry_ok_def)
  next
    case False
    then have k: "M k = Some e" using that by simp
    have "s \<notin> set ks" if "s \<in> set (entry_group e)" for s
      using groupedD(5) [OF assms(1) k that] new by force
    then show ?thesis using groupedD [OF assms(1) k] by (auto simp: entry_ok_def)
  qed
  moreover have times: "entry_time e < n" if "M k = Some e" for k e using groupedD(4) [OF assms(1) that] .
  have which: "e = (n, ks, kept) \<or> M k = Some e" if "?M k = Some e" for k e
    using that by (simp split: if_splits)
  have "e = e'" if "?M k = Some e" "?M k' = Some e'" "entry_time e = entry_time e'" for k e k' e'
    using which [OF that(1)]
  proof
    assume e: "e = (n, ks, kept)"
    then show ?thesis using which [OF that(2)] times [of k' e'] that(3) by fastforce
  next
    assume e: "M k = Some e"
    show ?thesis using which [OF that(2)]
    proof
      assume "e' = (n, ks, kept)"
      then show ?thesis using times [OF e] that(3) by simp
    next
      assume "M k' = Some e'"
      then show ?thesis by (rule grouped_same [OF assms(1) e _ that(3)])
    qed
  qed
  ultimately show ?thesis unfolding grouped_def by blast
qed

section \<open>Taking over\<close>

text \<open>
  Taking over only adds ids, leaves no entry under any of them and all others as they are, and takes
  whole conversations.
\<close>

lemma take_over_keys:
  assumes "take_over i keys st = (keys', st')"
  shows "\<exists>more. keys' = keys @ more"
  using assms
proof (induction i keys st arbitrary: keys' st' rule: take_over.induct)
  case (1 i keys st)
  consider "i \<ge> length keys" | "i < length keys" "map_of st (keys ! i) = None"
    | e where "i < length keys" "map_of st (keys ! i) = Some e" by fastforce
  then show ?case
  proof cases
    case 3
    let ?keys = "fold push_new (entry_group e) keys"
    have "\<exists>more. keys' = ?keys @ more"
      using 1(2) [OF 3 refl] 1(3) 3 by (simp add: take_over.simps [of i] claim_fold)
    then show ?thesis using push_all_extends [of "entry_group e" keys] by auto
  qed (use 1 in \<open>simp_all add: take_over.simps [of i]\<close>)
qed

lemma take_over_inv: "take_over i keys st = (keys', st') \<Longrightarrow> bt_inv st \<Longrightarrow> bt_inv st'"
proof (induction i keys st arbitrary: keys' st' rule: take_over.induct)
  case (1 i keys st)
  consider "i \<ge> length keys" | "i < length keys" "map_of st (keys ! i) = None"
    | e where "i < length keys" "map_of st (keys ! i) = Some e" by fastforce
  then show ?case
  proof cases
    case 3
    then show ?thesis
      using 1(2) [OF 3 refl] 1(3,4) by (simp add: take_over.simps [of i] claim_fold)
  qed (use 1 in \<open>simp_all add: take_over.simps [of i]\<close>)
qed

text \<open>The ids still to be looked at are the only ones the store may still hold.\<close>

lemma take_over_map:
  assumes "take_over i keys st = (keys', st')" and "grouped n (map_of st)"
    and "\<And>j. j < i \<Longrightarrow> j < length keys \<Longrightarrow> map_of st (keys ! j) = None"
  shows "map_of st' = map_of st |` (- set keys')
    \<and> (\<forall>k \<in> set keys'. \<forall>e. map_of st k = Some e \<longrightarrow> set (entry_group e) \<subseteq> set keys')"
  using assms
proof (induction i keys st arbitrary: keys' st' rule: take_over.induct)
  case (1 i keys st)
  consider (ended) "i \<ge> length keys" | (free) "i < length keys" "map_of st (keys ! i) = None"
    | (taken) e where "i < length keys" "map_of st (keys ! i) = Some e" by fastforce
  then show ?case
  proof cases
    case ended
    then have "keys' = keys" "st' = st" using 1(3) by (simp_all add: take_over.simps [of i])
    moreover have "map_of st k = None" if "k \<in> set keys" for k
      using that 1(5) ended by (metis in_set_conv_nth order_less_le_trans)
    ultimately show ?thesis by (auto simp: fun_eq_iff restrict_map_def)
  next
    case free
    have "map_of st (keys ! j) = None" if "j < i + 1" "j < length keys" for j
      using that 1(5) free(2) by (cases "j = i") auto
    then show ?thesis using 1(1) [OF free _ 1(4)] 1(3) free by (simp add: take_over.simps [of i])
  next
    case taken
    let ?g = "entry_group e"
    let ?keys = "fold push_new ?g keys" and ?st = "fold bt_remove ?g (bt_remove (keys ! i) st)"
    have own: "keys ! i \<in> set ?g" using groupedD(1) [OF 1(4) taken(2)] .
    then have map: "map_of ?st = map_of st |` (- set ?g)" by (auto simp: fun_eq_iff restrict_map_def)
    have run: "take_over (i + 1) ?keys ?st = (keys', st')"
      using 1(3) taken by (simp add: take_over.simps [of i] claim_fold)
    obtain m where m: "?keys = keys @ m" using push_all_extends by blast
    obtain m' where "keys' = ?keys @ m'" using take_over_keys [OF run] by blast
    then have sub: "set ?g \<union> set keys \<subseteq> set keys'" using push_all_set [of ?g keys] by auto
    have free: "map_of ?st (?keys ! j) = None" if "j < i + 1" "j < length ?keys" for j
    proof (cases "j = i")
      case True
      then have "?keys ! j \<in> set ?g" using taken(1) own m by (simp add: nth_append)
      then show ?thesis unfolding map by (simp add: restrict_map_def)
    next
      case False
      then have "map_of st (?keys ! j) = None" using that taken(1) m 1(5) [of j] by (simp add: nth_append)
      then show ?thesis unfolding map by (simp add: restrict_map_def)
    qed
    have grouped': "grouped n (map_of ?st)"
      unfolding map by (rule grouped_remove_group [OF 1(4) taken(2)])
    have ih: "map_of st' = map_of ?st |` (- set keys')
      \<and> (\<forall>k \<in> set keys'. \<forall>e. map_of ?st k = Some e \<longrightarrow> set (entry_group e) \<subseteq> set keys')"
      by (rule 1(2) [OF taken refl, unfolded claim_fold fst_conv snd_conv, OF run grouped' free])
    have "set (entry_group e') \<subseteq> set keys'" if "k \<in> set keys'" "map_of st k = Some e'" for k e'
    proof (cases "k \<in> set ?g")
      case True
      then have "e' = e" using groupedD(5) [OF 1(4) taken(2) True] that(2) by simp
      then show ?thesis using sub by simp
    next
      case False
      then have "map_of ?st k = Some e'" using that(2) by (simp only: map restrict_map_def) simp
      then show ?thesis using ih that(1) by blast
    qed
    moreover have "map_of st' = map_of st |` (- set keys')"
      using ih sub unfolding map by (auto simp: fun_eq_iff restrict_map_def)
    ultimately show ?thesis by blast
  qed
qed

section \<open>Making room\<close>

definition times :: "(string \<rightharpoonup> conversation_entry) \<Rightarrow> nat set" where
  "times M = entry_time ` ran M"

lemma distinct_times:
  assumes "bt_inv st"
  shows "distinct_conversations st = card (times (map_of st))" and "finite (times (map_of st))"
proof -
  have "ran (map_of st) = set (map snd st)" using bt_inv_distinct [OF assms] by (simp add: ran_distinct)
  then have "times (map_of st) = set (map (\<lambda>p. entry_time (snd p)) st)"
    by (simp add: times_def image_image)
  then show "distinct_conversations st = card (times (map_of st))" "finite (times (map_of st))"
    by (simp_all add: distinct_conversations_def length_remdups_card_conv)
qed

lemma oldest_entry_None [simp]: "oldest_entry st = None \<longleftrightarrow> st = []"
  by (cases st) (auto split: option.splits)

lemma oldest_entry_min:
  "oldest_entry st = Some e \<Longrightarrow> (\<exists>k. (k, e) \<in> set st) \<and> (\<forall>p \<in> set st. entry_time e \<le> entry_time (snd p))"
proof (induction st arbitrary: e rule: oldest_entry.induct)
  case (2 p st)
  show ?case
  proof (cases "oldest_entry st")
    case None
    then show ?thesis using 2(2) by (cases p) auto
  next
    case (Some e')
    then show ?thesis using 2(1) [OF Some] 2(2) by (cases p) (fastforce split: if_splits)
  qed
qed simp

lemma times_remove_group:
  assumes "grouped n M" and "M k = Some e"
  shows "times (M |` (- set (entry_group e))) = times M - {entry_time e}"
proof -
  have "x \<in> times M - {entry_time e}" if x: "x \<in> times (M |` (- set (entry_group e)))" for x
  proof -
    obtain e' where e': "e' \<in> ran (M |` (- set (entry_group e)))" "x = entry_time e'"
      using x unfolding times_def by blast
    then obtain s where "(M |` (- set (entry_group e))) s = Some e'" by (auto simp: ran_def)
    then have s: "M s = Some e'" "s \<notin> set (entry_group e)" "x = entry_time e'"
      using e'(2) by (auto simp: restrict_map_def split: if_splits)
    then have "e' \<noteq> e" using groupedD(1) [OF assms(1) s(1)] by blast
    then have "entry_time e' \<noteq> entry_time e" using grouped_same [OF assms(1) s(1) assms(2)] by blast
    then show ?thesis using s by (auto simp: times_def ran_def)
  qed
  moreover have "x \<in> times (M |` (- set (entry_group e)))" if x: "x \<in> times M" "x \<noteq> entry_time e" for x
  proof -
    obtain e' where e': "e' \<in> ran M" "x = entry_time e'" using x(1) unfolding times_def by blast
    then obtain s where s: "M s = Some e'" "x = entry_time e'" by (auto simp: ran_def)
    then have "s \<notin> set (entry_group e)" using groupedD(5) [OF assms] x(2) by fastforce
    then show ?thesis using s by (auto simp: times_def ran_def restrict_map_def)
  qed
  ultimately show ?thesis by blast
qed

text \<open>Room is made by dropping whole conversations, the oldest first, and no more than needed.\<close>

lemma make_room_ok:
  assumes "grouped n (map_of st)" and "bt_inv st"
  shows "\<exists>st'. make_room st = Some st' \<and> grouped n (map_of st') \<and> bt_inv st'
    \<and> distinct_conversations st' = min MAX_REMEMBERED_CONVERSATIONS (distinct_conversations st)
    \<and> map_of st' \<subseteq>\<^sub>m map_of st
    \<and> (\<forall>k e k' e'. map_of st k = Some e \<and> map_of st' k = None \<and> map_of st' k' = Some e'
         \<longrightarrow> entry_time e < entry_time e')"
  using assms
proof (induction "distinct_conversations st" arbitrary: st rule: less_induct)
  case less
  show ?case
  proof (cases "distinct_conversations st > MAX_REMEMBERED_CONVERSATIONS")
    case False
    then have "make_room st = Some st" by (subst make_room.simps) simp
    then show ?thesis using less(2,3) False by (intro exI [of _ st]) auto
  next
    case True
    then have "st \<noteq> []" by (auto simp: distinct_conversations_def)
    then obtain e where e: "oldest_entry st = Some e" by (cases "oldest_entry st") auto
    let ?st = "fold bt_remove (entry_group e) st"
    obtain k where k: "map_of st k = Some e" using oldest_entry_min [OF e] bt_inv_get [OF less(3)] by blast
    have gr: "grouped n (map_of ?st)" and inv: "bt_inv ?st"
      using grouped_remove_group [OF less(2) k] less(3) by simp_all
    have "times (map_of ?st) = times (map_of st) - {entry_time e}"
      using times_remove_group [OF less(2) k] by simp
    moreover have "entry_time e \<in> times (map_of st)" using k by (auto simp: times_def ran_def)
    ultimately have count: "distinct_conversations ?st = distinct_conversations st - 1"
      "distinct_conversations ?st < distinct_conversations st"
      using distinct_times [OF inv] distinct_times [OF less(3)] True by (simp_all add: card_Diff1_less)
    obtain st' where st': "make_room ?st = Some st'" "grouped n (map_of st')" "bt_inv st'"
        "distinct_conversations st' = min MAX_REMEMBERED_CONVERSATIONS (distinct_conversations ?st)"
        "map_of st' \<subseteq>\<^sub>m map_of ?st"
      and older: "\<And>s f s' f'. map_of ?st s = Some f \<Longrightarrow> map_of st' s = None \<Longrightarrow> map_of st' s' = Some f'
          \<Longrightarrow> entry_time f < entry_time f'"
      using less(1) [OF count(2) gr inv] by blast
    have run: "make_room st = Some st'" using True e st'(1) by (subst make_room.simps) simp
    have sub: "map_of st' \<subseteq>\<^sub>m map_of st" using st'(5) by (auto simp: map_le_def restrict_map_def split: if_splits)
    have "entry_time f < entry_time f'"
      if "map_of st s = Some f" "map_of st' s = None" "map_of st' s' = Some f'" for s f s' f'
    proof (cases "s \<in> set (entry_group e)")
      case False
      then show ?thesis using older [OF _ that(2,3)] that(1) by simp
    next
      case True
      have f: "f = e" using groupedD(5) [OF less(2) k True] that(1) by simp
      have s': "map_of ?st s' = Some f'" using st'(5) that(3) by (metis domI map_le_def)
      then have "map_of st s' = Some f'" "s' \<notin> set (entry_group e)"
        by (auto simp: restrict_map_def split: if_splits)
      then have "entry_time f' \<noteq> entry_time e" "entry_time e \<le> entry_time f'"
        using grouped_same [OF less(2) _ k] groupedD(1) [OF less(2)] oldest_entry_min [OF e] map_of_SomeD
        by (metis, metis snd_conv)
      then show ?thesis using f by simp
    qed
    then show ?thesis using run st'(2-4) sub count True by (intro exI [of _ st']) auto
  qed
qed

section \<open>A turn and the next\<close>

lemma take_over_reach:
  assumes "take_over i keys st = (keys', st')" and "grouped n (map_of st)" and "k \<in> set keys'"
  shows "k \<in> set keys \<or> (\<exists>k' \<in> set keys. \<exists>e. map_of st k' = Some e \<and> k \<in> set (entry_group e))"
  using assms
proof (induction i keys st arbitrary: keys' st' rule: take_over.induct)
  case (1 i keys st)
  consider (ended) "i \<ge> length keys" | (free) "i < length keys" "map_of st (keys ! i) = None"
    | (taken) e where "i < length keys" "map_of st (keys ! i) = Some e" by fastforce
  then show ?case
  proof cases
    case taken
    let ?g = "entry_group e"
    let ?st = "fold bt_remove ?g (bt_remove (keys ! i) st)"
    have own: "keys ! i \<in> set ?g" using groupedD(1) [OF 1(4) taken(2)] .
    then have map: "map_of ?st = map_of st |` (- set ?g)" by (auto simp: fun_eq_iff restrict_map_def)
    have run: "take_over (i + 1) (fold push_new ?g keys) ?st = (keys', st')"
      using 1(3) taken by (simp add: take_over.simps [of i] claim_fold)
    have gr: "grouped n (map_of ?st)" unfolding map by (rule grouped_remove_group [OF 1(4) taken(2)])
    have "k \<in> set (fold push_new ?g keys)
      \<or> (\<exists>k' \<in> set (fold push_new ?g keys). \<exists>e'. map_of ?st k' = Some e' \<and> k \<in> set (entry_group e'))"
      by (rule 1(2) [OF taken refl, unfolded claim_fold fst_conv snd_conv, OF run gr 1(5)])
    then consider "k \<in> set ?g" | "k \<in> set keys"
      | k' e' where "k' \<in> set ?g \<union> set keys" "map_of ?st k' = Some e'" "k \<in> set (entry_group e')"
      unfolding push_all_set by blast
    then show ?thesis
    proof cases
      case 1
      then show ?thesis using taken nth_mem by blast
    next
      case 3
      then have "k' \<in> set keys" "map_of st k' = Some e'"
        unfolding map by (auto simp: restrict_map_def split: if_splits)
      then show ?thesis using 3(3) by blast
    qed simp
  qed (use 1 in \<open>simp_all add: take_over.simps [of i]\<close>)
qed

definition no_conversations :: conversations where
  "no_conversations = \<lparr>store = [], sequence = 0\<rparr>"

lemma no_conversations_ok [simp]: "conversations_ok no_conversations"
  by (simp add: conversations_ok_def no_conversations_def grouped_def distinct_conversations_def)

lemma distinct_pos:
  assumes "map_of st k = Some e" and "bt_inv st"
  shows "0 < distinct_conversations st"
proof -
  have "entry_time e \<in> times (map_of st)" using assms(1) by (auto simp: times_def ran_def)
  then show ?thesis using distinct_times [OF assms(2)] by (auto simp: card_gt_0_iff)
qed

lemma some_entry:
  assumes "0 < distinct_conversations st"
  shows "\<exists>k e. map_of st k = Some e"
proof -
  have "st \<noteq> []" using assms by (auto simp: distinct_conversations_def)
  then obtain p ps where "st = p # ps" by (cases st) auto
  then have "map_of st (fst p) = Some (snd p)" by simp
  then show ?thesis by blast
qed

text \<open>One turn: what every id reaches afterwards.\<close>

lemma remember_turn:
  assumes ok: "conversations_ok cs" and ids: "session_ids \<noteq> []"
  obtains cs' keys' where
    "remember_conversation session_ids context cs = Some cs'" "conversations_ok cs'"
    "\<exists>more. keys' = fold push_new session_ids [] @ more"
    "\<And>k. k \<in> set keys' \<Longrightarrow> k \<in> set session_ids
        \<or> (\<exists>k' \<in> set session_ids. \<exists>e. map_of (store cs) k' = Some e \<and> k \<in> set (entry_group e))"
    "\<And>k. kept_fields context = [] \<Longrightarrow> k \<in> set keys' \<Longrightarrow> map_of (store cs') k = None"
    "\<And>k. kept_fields context \<noteq> [] \<Longrightarrow> k \<in> set (take MAX_CONVERSATION_ALIASES keys')
        \<Longrightarrow> map_of (store cs') k = Some (sequence cs, take MAX_CONVERSATION_ALIASES keys', kept_fields context)"
    "\<And>k e. map_of (store cs) k = Some e \<Longrightarrow> k \<notin> set keys' \<Longrightarrow> map_of (store cs') k = Some e
        \<or> map_of (store cs') k = None
          \<and> (\<forall>k' e'. map_of (store cs') k' = Some e' \<longrightarrow> entry_time e < entry_time e')"
proof -
  let ?keys = "fold push_new session_ids []" and ?kept = "kept_fields context"
  have gr: "grouped (sequence cs) (map_of (store cs))" and inv: "bt_inv (store cs)"
    and few: "distinct_conversations (store cs) \<le> MAX_REMEMBERED_CONVERSATIONS"
    using ok by (auto simp: conversations_ok_def)
  have "set ?keys = set session_ids" by simp
  then have ne: "?keys \<noteq> []" using ids by (metis set_empty)
  obtain keys' st where run: "take_over 0 ?keys (store cs) = (keys', st)" by fastforce
  note ext = take_over_keys [OF run]
  have inv': "bt_inv st" by (rule take_over_inv [OF run inv])
  have whole: "map_of st = map_of (store cs) |` (- set keys')
      \<and> (\<forall>k \<in> set keys'. \<forall>e. map_of (store cs) k = Some e \<longrightarrow> set (entry_group e) \<subseteq> set keys')"
    by (rule take_over_map [OF run gr]) simp
  then have map: "map_of st = map_of (store cs) |` (- set keys')"
    and closed: "\<And>k e. k \<in> set keys' \<Longrightarrow> map_of (store cs) k = Some e \<Longrightarrow> set (entry_group e) \<subseteq> set keys'"
    by blast+
  have gr': "grouped (sequence cs) (map_of st)"
    unfolding map by (rule grouped_restrict [OF gr closed])
  have reach: "k \<in> set session_ids
      \<or> (\<exists>k' \<in> set session_ids. \<exists>e. map_of (store cs) k' = Some e \<and> k \<in> set (entry_group e))"
    if "k \<in> set keys'" for k using take_over_reach [OF run gr that] by simp
  show thesis
  proof (cases "?kept = []")
    case True
    let ?st = "fold bt_remove keys' st"
    have same: "map_of ?st = map_of st" by (simp add: map fun_eq_iff restrict_map_def)
    then have "times (map_of ?st) \<subseteq> times (map_of (store cs))"
      by (auto simp: map times_def ran_def restrict_map_def)
    then have "card (times (map_of ?st)) \<le> card (times (map_of (store cs)))"
      by (rule card_mono [OF distinct_times(2) [OF inv]])
    then have "distinct_conversations ?st \<le> MAX_REMEMBERED_CONVERSATIONS"
      using few unfolding distinct_times(1) [OF inv] distinct_times(1) [OF fold_remove_inv [OF inv']]
      by (rule order_trans)
    then have ok': "conversations_ok (cs\<lparr>store := ?st\<rparr>)"
      using gr' inv' same by (simp add: conversations_ok_def del: fold_remove_map)
    have run': "remember_conversation session_ids context cs = Some (cs\<lparr>store := ?st\<rparr>)"
      using True ne run by (simp add: remember_conversation_def)
    have stores: "map_of (store (cs\<lparr>store := ?st\<rparr>)) k = (if k \<in> set keys' then None else map_of (store cs) k)" for k
      using same by (simp add: map restrict_map_def del: fold_remove_map)
    show thesis
    proof (rule that [OF run' ok' ext reach], goal_cases)
      case (2 k)
      then show ?case by (simp only: stores if_True)
    next
      case (3 k)
      then show ?case using True by blast
    next
      case (4 k e)
      then show ?case by (simp only: stores if_False simp_thms)
    qed
  next
    case False
    let ?n = "sequence cs" and ?ks = "take MAX_CONVERSATION_ALIASES keys'"
    let ?st = "fold (\<lambda>k. bt_insert k (?n, ?ks, ?kept)) ?ks st"
    have ks: "?ks \<noteq> []" "set ?ks \<subseteq> set keys'" using ext ne by (auto simp: MAX_CONVERSATION_ALIASES_def dest: in_set_takeD)
    have m: "map_of ?st = (\<lambda>k. if k \<in> set ?ks then Some (?n, ?ks, ?kept) else map_of st k)"
      by (simp add: fun_eq_iff fold_insert_map)
    have gr2: "grouped (?n + 1) (map_of ?st)"
      unfolding m using ks by (intro grouped_insert [OF gr' _ _ False]) (auto simp: map restrict_map_def)
    obtain st' where st': "make_room ?st = Some st'" "grouped (?n + 1) (map_of st')" "bt_inv st'"
        "distinct_conversations st' = min MAX_REMEMBERED_CONVERSATIONS (distinct_conversations ?st)"
        "map_of st' \<subseteq>\<^sub>m map_of ?st"
      and older: "\<And>k e k' e'. map_of ?st k = Some e \<Longrightarrow> map_of st' k = None \<Longrightarrow> map_of st' k' = Some e'
          \<Longrightarrow> entry_time e < entry_time e'"
      using make_room_ok [OF gr2 fold_insert_inv [OF inv']] by blast
    let ?cs = "cs\<lparr>store := st', sequence := ?n + 1\<rparr>"
    have run': "remember_conversation session_ids context cs = Some ?cs"
      using False ne run st'(1) by (simp add: remember_conversation_def)
    have ok': "conversations_ok ?cs" using st'(2-4) by (simp add: conversations_ok_def)
    obtain k0 where k0: "k0 \<in> set ?ks" using ks(1) by (metis list.set_intros(1) neq_Nil_conv)
    then have "map_of ?st k0 = Some (?n, ?ks, ?kept)" unfolding m by simp
    then have "0 < distinct_conversations ?st" by (rule distinct_pos) (rule fold_insert_inv [OF inv'])
    then have "0 < distinct_conversations st'" using st'(4) by (simp add: MAX_REMEMBERED_CONVERSATIONS_def)
    then obtain k1 e1 where k1: "map_of st' k1 = Some e1" using some_entry by blast
    have new: "map_of st' k = Some (?n, ?ks, ?kept)" if "k \<in> set ?ks" for k
    proof (cases "map_of st' k")
      case None
      then have "?n < entry_time e1" using older [of k _ k1 e1] k1 m that by fastforce
      then show ?thesis using groupedD(4) [OF st'(2) k1] by simp
    next
      case (Some e)
      then have "map_of ?st k = Some e" using st'(5) unfolding map_le_def by force
      then show ?thesis using Some that unfolding m by simp
    qed
    have other: "map_of st' k = Some e
        \<or> map_of st' k = None \<and> (\<forall>k' e'. map_of st' k' = Some e' \<longrightarrow> entry_time e < entry_time e')"
      if "map_of (store cs) k = Some e" "k \<notin> set keys'" for k e
    proof -
      have "map_of ?st k = Some e" using that ks(2) m map by (auto simp: restrict_map_def)
      then show ?thesis using older st'(5) unfolding map_le_def by (cases "map_of st' k") (blast, force)
    qed
    have stores: "store ?cs = st'" by simp
    show thesis
    proof (rule that [OF run' ok' ext reach], goal_cases)
      case (2 k)
      then show ?case using False by blast
    next
      case (3 k)
      then show ?case unfolding stores using new by blast
    next
      case (4 k e)
      then show ?case unfolding stores by (intro other)
    qed
  qed
qed

section \<open>Over many turns\<close>

primrec run_turns :: "(string list \<times> jmap) list \<Rightarrow> conversations \<Rightarrow> conversations option" where
  "run_turns [] cs = Some cs"
| "run_turns (t # ts) cs = Option.bind (remember_conversation (fst t) (snd t) cs) (run_turns ts)"

lemma remember_ok:
  assumes "conversations_ok cs"
  shows "\<exists>cs'. remember_conversation ids context cs = Some cs' \<and> conversations_ok cs'"
proof (cases "ids = []")
  case True
  then show ?thesis using assms by (simp add: remember_conversation_def)
next
  case False
  then show ?thesis using remember_turn [OF assms False] by metis
qed

text \<open>
  C26: However many turns a client has had, under whatever ids and whatever the hub sent back with them,
  remembering each comes to an end; the client then holds at most 32 conversations of at most eight
  ids each, and every id of a conversation reaches the same state, so the ids of one conversation are
  remembered and forgotten together.
\<close>

theorem conversations_bounded:
  "\<exists>cs. run_turns ts no_conversations = Some cs
     \<and> distinct_conversations (store cs) \<le> 32
     \<and> (\<forall>k e. map_of (store cs) k = Some e \<longrightarrow>
          k \<in> set (entry_group e) \<and> length (entry_group e) \<le> 8
          \<and> (\<forall>s \<in> set (entry_group e). map_of (store cs) s = Some e))"
proof -
  have "\<exists>cs'. run_turns ts cs = Some cs' \<and> conversations_ok cs'" if "conversations_ok cs" for cs
    using that
  proof (induction ts arbitrary: cs)
    case (Cons t ts)
    then show ?case using remember_ok [OF Cons.prems, of "fst t" "snd t"] by auto
  qed simp
  then obtain cs where run: "run_turns ts no_conversations = Some cs" and ok: "conversations_ok cs"
    using no_conversations_ok by blast
  then have gr: "grouped (sequence cs) (map_of (store cs))"
    and few: "distinct_conversations (store cs) \<le> 32"
    by (simp_all add: conversations_ok_def MAX_REMEMBERED_CONVERSATIONS_def)
  show ?thesis
    using run few groupedD(1,2,5) [OF gr] unfolding MAX_CONVERSATION_ALIASES_def by blast
qed

theorem conversations_bounded_witness:
  "\<exists>cs. run_turns (map (\<lambda>i. ([show_nat i], [(''session'', JObject [(''context'', JArray [JNull])])])) [0..<100])
          no_conversations = Some cs
     \<and> distinct_conversations (store cs) \<le> 32"
  using conversations_bounded [of "map (\<lambda>i. ([show_nat i], [(''session'', JObject [(''context'', JArray [JNull])])])) [0..<100]"]
  by blast

text \<open>A conversation that shares no id with the turn keeps the ids that reach it.\<close>

lemma not_taken_over:
  assumes "grouped n m" and "m k = Some e" and "set (entry_group e) \<inter> ids = {}"
    and "k \<in> keys \<Longrightarrow> k \<in> ids \<or> (\<exists>k' \<in> ids. \<exists>e'. m k' = Some e' \<and> k \<in> set (entry_group e'))"
  shows "k \<notin> keys"
proof
  assume "k \<in> keys"
  from assms(4) [OF this] show False
  proof (elim disjE bexE exE conjE)
    assume "k \<in> ids"
    then show False using groupedD(1) [OF assms(1,2)] assms(3) by blast
  next
    fix k' e'
    assume k: "k' \<in> ids" "m k' = Some e'" "k \<in> set (entry_group e')"
    then have "e' = e" using groupedD(5) [OF assms(1) k(2,3)] assms(2) by simp
    then show False using groupedD(1) [OF assms(1) k(2)] k(1) assms(3) by blast
  qed
qed

text \<open>
  A turn that ended reaches the next one under every id it is known by: the first eight of its ids
  answer with what the turn left, and if it left nothing, none of its ids answers with anything. A
  conversation that shares no id with it is as it was, unless it was dropped to make room, and
  then it is older than every one that is left.
\<close>

theorem turn_reaches_next:
  assumes "conversations_ok cs" and "session_ids \<noteq> []"
  shows "\<exists>cs'. remember_conversation session_ids context cs = Some cs' \<and> conversations_ok cs'
    \<and> (\<forall>id. kept_fields context = [] \<and> id \<in> set session_ids \<longrightarrow> continue_conversation c id cs' = None)
    \<and> (\<forall>id. kept_fields context \<noteq> [] \<and> id \<in> set (take 8 (fold push_new session_ids [])) \<longrightarrow>
         continue_conversation c id cs' =
           Some (bt_insert ''session'' (JObject (carry_conversation (Some (kept_fields context))
                   (session_from_context (case c of None \<Rightarrow> [] | Some m \<Rightarrow> m))))
                   (case c of None \<Rightarrow> [] | Some m \<Rightarrow> m)))
    \<and> (\<forall>id e. map_of (store cs) id = Some e \<and> set (entry_group e) \<inter> set session_ids = {} \<longrightarrow>
         continue_conversation c id cs' = continue_conversation c id cs
         \<or> continue_conversation c id cs' = None
           \<and> (\<forall>id' e'. map_of (store cs') id' = Some e' \<longrightarrow> entry_time e < entry_time e'))"
proof -
  obtain cs' keys' where run: "remember_conversation session_ids context cs = Some cs'" "conversations_ok cs'"
    and ext: "\<exists>more. keys' = fold push_new session_ids [] @ more"
    and reach: "\<And>k. k \<in> set keys' \<Longrightarrow> k \<in> set session_ids
        \<or> (\<exists>k' \<in> set session_ids. \<exists>e. map_of (store cs) k' = Some e \<and> k \<in> set (entry_group e))"
    and none: "\<And>k. kept_fields context = [] \<Longrightarrow> k \<in> set keys' \<Longrightarrow> map_of (store cs') k = None"
    and new: "\<And>k. kept_fields context \<noteq> [] \<Longrightarrow> k \<in> set (take MAX_CONVERSATION_ALIASES keys')
        \<Longrightarrow> map_of (store cs') k = Some (sequence cs, take MAX_CONVERSATION_ALIASES keys', kept_fields context)"
    and other: "\<And>k e. map_of (store cs) k = Some e \<Longrightarrow> k \<notin> set keys' \<Longrightarrow> map_of (store cs') k = Some e
        \<or> map_of (store cs') k = None
          \<and> (\<forall>k' e'. map_of (store cs') k' = Some e' \<longrightarrow> entry_time e < entry_time e')"
    using remember_turn [OF assms, of "context"] by blast
  have gr: "grouped (sequence cs) (map_of (store cs))" using assms(1) by (simp add: conversations_ok_def)
  have ids: "set session_ids \<subseteq> set keys'" using ext push_all_set [of session_ids "[]"] by auto
  have first: "set (take 8 (fold push_new session_ids [])) \<subseteq> set (take MAX_CONVERSATION_ALIASES keys')"
    using ext by (auto simp: MAX_CONVERSATION_ALIASES_def)
  have forgotten: "continue_conversation c id cs' = None"
    if "kept_fields context = []" "id \<in> set session_ids" for id
    using none [OF that(1), of id] that(2) ids by (auto simp: continue_conversation_def)
  have carried: "continue_conversation c id cs' =
           Some (bt_insert ''session'' (JObject (carry_conversation (Some (kept_fields context))
                   (session_from_context (case c of None \<Rightarrow> [] | Some m \<Rightarrow> m))))
                   (case c of None \<Rightarrow> [] | Some m \<Rightarrow> m))"
    if "kept_fields context \<noteq> []" "id \<in> set (take 8 (fold push_new session_ids []))" for id
    using new [OF that(1)] that(2) first by (auto simp: continue_conversation_def Let_def)
  have untouched: "continue_conversation c id cs' = continue_conversation c id cs
         \<or> continue_conversation c id cs' = None
           \<and> (\<forall>id' e'. map_of (store cs') id' = Some e' \<longrightarrow> entry_time e < entry_time e')"
    if e: "map_of (store cs) id = Some e" "set (entry_group e) \<inter> set session_ids = {}" for id e
  proof -
    have "id \<notin> set keys'" by (rule not_taken_over [OF gr e reach])
    then show ?thesis using other [OF e(1)] e(1) by (auto simp: continue_conversation_def)
  qed
  show ?thesis using run forgotten carried untouched by blast
qed

theorem turn_reaches_next_witness:
  "\<exists>cs. remember_conversation [''sat'', ''hub''] [(''session'', JObject [(''context'', JArray [JNull])])] no_conversations
     = Some cs
   \<and> continue_conversation None ''hub'' cs = Some [(''session'', JObject [(''context'', JArray [JNull])])]"
proof -
  let ?turn = "[(''session'', JObject [(''context'', JArray [JNull])])]"
  have kept: "kept_fields ?turn = [(''context'', JArray [JNull])]"
    by (simp add: kept_fields_def keep_field_def CONVERSATION_SESSION_FIELDS_def session_from_context_def
        get_object_def truthy_def)
  have ids: "''hub'' \<in> set (take 8 (fold push_new [''sat'', ''hub''] []))"
    by (simp add: push_new_def)
  have "carry_conversation (Some [(''context'', JArray [JNull])]) [] = [(''context'', JArray [JNull])]"
    by (simp add: carry_conversation_def carry_field_def is_carried_def CONVERSATION_SESSION_FIELDS_def)
  then show ?thesis
    using turn_reaches_next [OF no_conversations_ok, of "[''sat'', ''hub'']" ?turn None] kept ids
    by (auto simp: session_from_context_def get_object_def)
qed

end
