(* ===== verification/Words.thy ===== *)
theory Words
  imports Prelude "HOL-Library.Sublist"
begin

text \<open>
  The words of a text: \<open>str::split_whitespace\<close> and joining with a space, which is how a reply's
  fragments (\<open>client.rs\<close>) and plain speech (\<open>home.rs\<close>) are put together. White space is
  recognised by its UTF-8 bytes, as in \<open>trim\<close>.
\<close>

definition space_at :: "string \<Rightarrow> string option" where
  "space_at s = find (starts_with s) white_spaces"

lemma space_at_length: "space_at s = Some w \<Longrightarrow> 0 < length w \<and> length w \<le> length s"
  by (auto simp: space_at_def find_Some_iff white_spaces_def starts_with_iff less_Suc_eq_0_disj nth_Cons' split: if_splits
      dest!: nth_mem)

function split_words :: "string \<Rightarrow> string \<Rightarrow> string list" where
  "split_words cur [] = (if cur = [] then [] else [rev cur])"
| "split_words cur (c # s) =
     (case space_at (c # s) of
        None \<Rightarrow> split_words (c # cur) s
      | Some w \<Rightarrow> (if cur = [] then [] else [rev cur]) @ split_words [] (drop (length w) (c # s)))"
  by pat_completeness auto
termination
  by (relation "measure (\<lambda>(cur, s). length s)") (auto dest: space_at_length)

definition split_whitespace :: "string \<Rightarrow> string list" where
  "split_whitespace s = split_words [] s"

fun join :: "string \<Rightarrow> string list \<Rightarrow> string" where
  "join sep [] = []"
| "join sep [w] = w"
| "join sep (w # ws) = w @ sep @ join sep ws"

definition plain_words :: "string \<Rightarrow> string" where
  "plain_words s = join '' '' (split_whitespace s)"

section \<open>Words have no white space\<close>

lemma space_at_None: "space_at s = None \<longleftrightarrow> (\<forall>w \<in> set white_spaces. \<not> starts_with s w)"
  by (auto simp: space_at_def find_None_iff)

lemma space_at_prefix: "space_at (t @ r) = None \<Longrightarrow> space_at t = None"
  unfolding space_at_None by (metis append.assoc starts_with_iff)

lemma space_at_Nil [simp]: "space_at [] = None"
  by (auto simp: space_at_None starts_with_def white_spaces_def)

lemma space_at_space [simp]: "space_at (CHR 0x20 # s) = Some '' ''"
  by (simp add: space_at_def white_spaces_def starts_with_def)

lemma no_inner_space: "w \<in> set white_spaces \<Longrightarrow> w = '' '' \<or> CHR 0x20 \<notin> set w"
  by (auto simp: white_spaces_def)

text \<open>No encoding of white space runs over the end of a word into the space after it.\<close>

lemma space_at_before_space:
  assumes "t \<noteq> []" and "space_at t = None"
  shows "space_at (t @ CHR 0x20 # r) = None"
  unfolding space_at_None
proof (intro ballI notI)
  fix w
  assume w: "w \<in> set white_spaces" and "starts_with (t @ CHR 0x20 # r) w"
  then obtain q where q: "t @ CHR 0x20 # r = w @ q" by (auto simp: starts_with_iff)
  show False
  proof (cases "length w \<le> length t")
    case True
    then have "take (length w) t = w" using arg_cong [OF q, of "take (length w)"] by simp
    then show False using assms(2) w unfolding space_at_None starts_with_def by blast
  next
    case False
    obtain us where us: "w = t @ us" "CHR 0x20 # r = us @ q"
      using q False by (auto simp: append_eq_append_conv2)
    then have "us \<noteq> []" using False by auto
    then have "CHR 0x20 \<in> set w" "length w \<ge> 2" using us assms(1) by (auto simp: Cons_eq_append_conv Suc_le_eq)
    then show False using no_inner_space [OF w] by auto
  qed
qed

definition solid :: "string \<Rightarrow> bool" where
  "solid w \<longleftrightarrow> w \<noteq> [] \<and> (\<forall>a t. w = a @ t \<and> t \<noteq> [] \<longrightarrow> space_at t = None)"

lemma solidD: "solid (a @ t) \<Longrightarrow> t \<noteq> [] \<Longrightarrow> space_at t = None"
  by (simp add: solid_def)

lemma split_words_solid:
  assumes "\<And>a t. rev cur = a @ t \<Longrightarrow> t \<noteq> [] \<Longrightarrow> space_at (t @ s) = None"
  shows "\<forall>w \<in> set (split_words cur s). solid w"
  using assms
proof (induction cur s rule: split_words.induct)
  case (1 cur)
  then show ?case by (auto simp: solid_def)
next
  case (2 cur c s)
  have cur: "solid (rev cur)" if "cur \<noteq> []"
    using 2(3) that by (auto simp: solid_def dest: space_at_prefix)
  show ?case
  proof (cases "space_at (c # s)")
    case None
    have "space_at (t @ s) = None" if suffix: "rev (c # cur) = a @ t" "t \<noteq> []" for a t
    proof -
      obtain t' x where t: "t = t' @ [x]" using suffix(2) by (meson rev_exhaust)
      then have "rev cur = a @ t'" "x = c" using suffix(1) by simp_all
      then show ?thesis using 2(3) [of a t'] None t by (cases "t' = []") auto
    qed
    then show ?thesis using 2(1) [OF None] None by simp
  next
    case (Some w)
    then show ?thesis using 2(2) [OF Some] cur by simp
  qed
qed

lemma split_whitespace_solid: "w \<in> set (split_whitespace s) \<Longrightarrow> solid w"
  using split_words_solid [of "[]" s] by (simp add: split_whitespace_def)

lemma split_words_word:
  assumes "solid w" and "r = [] \<or> (\<exists>r'. r = CHR 0x20 # r')" and "w = a @ t"
  shows "split_words (rev a) (t @ r) = split_words (rev w) r"
  using assms(3)
proof (induction t arbitrary: a)
  case (Cons c t)
  have "space_at ((c # t) @ r) = None"
    using assms(2) solidD [of a "c # t"] assms(1) Cons(2) space_at_before_space [of "c # t"] by auto
  then show ?case using Cons(1) [of "a @ [c]"] Cons(2) by simp
qed simp

lemma split_join: "\<forall>w \<in> set ws. solid w \<Longrightarrow> split_whitespace (join '' '' ws) = ws"
proof (induction "'' ''" ws rule: join.induct)
  case (2 w)
  then show ?case
    using split_words_word [of w "[]" "[]" w] by (simp add: split_whitespace_def solid_def)
next
  case (3 w v ws)
  then have "split_words [] (w @ '' '' @ join '' '' (v # ws)) = split_words (rev w) ('' '' @ join '' '' (v # ws))"
    using split_words_word [of w "'' '' @ join '' '' (v # ws)" "[]" w] by simp
  also have "\<dots> = w # split_words [] (join '' '' (v # ws))" using 3 by (simp add: solid_def)
  finally show ?case using 3 by (simp add: split_whitespace_def)
qed (simp add: split_whitespace_def)

lemma split_plain_words [simp]: "split_whitespace (plain_words s) = split_whitespace s"
  unfolding plain_words_def by (rule split_join) (blast intro: split_whitespace_solid)

lemma plain_words_idem [simp]: "plain_words (plain_words s) = plain_words s"
  by (simp add: plain_words_def [of "plain_words s"]) (simp add: plain_words_def)

lemma plain_words_Nil: "plain_words s = [] \<longleftrightarrow> split_whitespace s = []"
proof -
  have "join '' '' ws = [] \<longleftrightarrow> ws = []" if "\<forall>w \<in> set ws. solid w" for ws
    using that by (induction "'' ''" ws rule: join.induct) (auto simp: solid_def)
  then show ?thesis unfolding plain_words_def using split_whitespace_solid by blast
qed

end
