(* ===== verification/Ask.thy ===== *)
theory Ask
  imports Conversations Refusal Words
begin

text \<open>
  \<open>src/src/client.rs\<close>, \<open>ask\<close> and the collection of its reply, with the request hints of
  \<open>src/src/request_helpers.rs\<close>. What the clock, the transport and the hub do during an ask is given as
  the instants at which things happen: the events the transport publishes with the instant each is there and
  the one it is read at, and when connecting and writing end. An ask runs beside other tasks; the turns
  it remembers are returned in order, and \<open>Conversations\<close> runs turns of any asks in any order.
\<close>

section \<open>Request hints\<close>

record request_context_options =
  h_stt_lang :: "string option"
  h_pipeline :: "string list"
  h_location :: "jmap option"

definition not_blank :: "string \<Rightarrow> bool" where
  "not_blank s \<longleftrightarrow> trim s \<noteq> []"

definition request_context :: "jmap option \<Rightarrow> request_context_options \<Rightarrow> jmap option" where
  "request_context base h =
     (let result = (case base of None \<Rightarrow> [] | Some b \<Rightarrow> b);
          stages = filter (\<lambda>s. s \<noteq> []) (map trim (h_pipeline h));
          result = (if stages = [] then result
                    else bt_insert ''session''
                           (JObject (bt_insert ''pipeline'' (JArray (map JString stages)) (session_from_context result)))
                           result);
          result = (case map_option trim (h_stt_lang h) of
                      Some lang \<Rightarrow> if lang \<noteq> [] then bt_insert ''stt_lang'' (JString lang) result else result
                    | None \<Rightarrow> result);
          result = (case h_location h of
                      Some l \<Rightarrow> if l \<noteq> [] then bt_insert ''location'' (JObject l) result else result
                    | None \<Rightarrow> result)
      in if result = [] then None else Some result)"

section \<open>Collecting a reply\<close>

text \<open>What \<open>broadcast::Receiver::recv\<close> answers, when, and what is in flight at that instant.\<close>

datatype reception = Got event | Lagged nat | Subscription_Closed

type_synonym arrival = "nat \<times> (nat \<times> nat \<times> nat) \<times> reception"

text \<open>
  What the receiver answers follows from what the transport publishes to everyone and from how promptly it is
  read: it holds the last 64 events, whomever they are about, and the read that finds more of them unread
  answers with how many were lost. A publication is an event with the instant it is published, the one it is
  read at if the ask comes to it, and what is in flight then.
\<close>

definition EVENT_BUFFER :: nat where "EVENT_BUFFER = 64"

record bus_publication =
  pb_published :: nat
  pb_read :: nat
  pb_counts :: "nat \<times> nat \<times> nat"
  pb_event :: event

definition unread :: "bus_publication \<Rightarrow> bus_publication list \<Rightarrow> nat" where
  "unread q qs = Suc (length (filter (\<lambda>r. pb_published r \<le> pb_read q) qs))"

fun receptions :: "bus_publication list \<Rightarrow> nat option \<Rightarrow> arrival list" where
  "receptions [] closes = (case closes of None \<Rightarrow> [] | Some t \<Rightarrow> [(t, (0, 0, 0), Subscription_Closed)])"
| "receptions (q # qs) closes =
     (if EVENT_BUFFER < unread q qs then [(pb_read q, pb_counts q, Lagged (unread q qs - EVENT_BUFFER))]
      else (pb_read q, pb_counts q, Got (pb_event q)) # receptions qs closes)"

record ask_waits =
  w_empty :: duration
  w_settle :: duration

record collected =
  c_events :: "event list"
  c_budget :: reply_media_budget
  c_fragments :: "string list"
  c_hard :: "event option"
  c_soft :: "event option"
  c_empty :: "nat option"
  c_settle :: "nat option"
  c_remembered :: "event list"

definition nothing_collected :: collected where
  "nothing_collected =
     \<lparr>c_events = [], c_budget = \<lparr>b_chars = 0, b_dropped = 0\<rparr>, c_fragments = [], c_hard = None, c_soft = None,
      c_empty = None, c_settle = None, c_remembered = []\<rparr>"

definition push_fragment :: "string list \<Rightarrow> string \<Rightarrow> string list" where
  "push_fragment fragments text =
     (let normalized = plain_words text
      in if normalized = [] then fragments
         else if fragments \<noteq> [] \<and> last fragments = normalized then fragments
         else fragments @ [normalized])"

text \<open>Which event is about this ask; a denial may come without a request id.\<close>

definition about_ask :: "string \<Rightarrow> nat \<times> nat \<times> nat \<Rightarrow> event \<Rightarrow> bool" where
  "about_ask rid counts e =
     (if e_name e = EVENT_POLICY_DENIED
      then (case counts of (asks, queries, sends) \<Rightarrow>
              refusal_belongs_to_ask (event_request_id e) rid (get_str (e_data e) ''denied_type'') asks queries sends)
      else event_request_id e = Some rid)"

text \<open>\<open>now + wait\<close>, no later than the deadline, as \<open>checked_add\<close>, \<open>unwrap_or\<close> and \<open>min\<close> make it.\<close>

definition wait_until :: "nat \<Rightarrow> nat \<Rightarrow> duration \<Rightarrow> nat" where
  "wait_until deadline now wait = min (now + wait) deadline"

definition take_event :: "nat \<Rightarrow> ask_waits \<Rightarrow> nat \<Rightarrow> event \<Rightarrow> collected \<Rightarrow> collected" where
  "take_event deadline w now e st =
     (let st = (if e_name e \<in> {EVENT_SPEAK, EVENT_OVOS_UTTERANCE_SPEAK} then
                  let fragments = push_fragment (c_fragments st) (event_text e)
                  in st\<lparr>c_fragments := fragments,
                        c_settle := (if fragments \<noteq> [] \<and> c_settle st = None
                                     then Some (wait_until deadline now (w_settle w)) else c_settle st)\<rparr>
                else if e_name e \<in> {EVENT_INTENT_FAILURE, EVENT_INTENT_UNMATCHED} then
                  st\<lparr>c_soft := Some e,
                     c_empty := or_else (c_empty st) (Some (wait_until deadline now (w_empty w)))\<rparr>
                else if e_name e \<in> {EVENT_POLICY_DENIED, EVENT_QUERY_TIMEOUT} then st\<lparr>c_hard := Some e\<rparr>
                else if e_name e = EVENT_UTTERANCE_HANDLED then
                  st\<lparr>c_remembered := c_remembered st @ [e],
                     c_empty := or_else (c_empty st) (Some (wait_until deadline now (w_empty w)))\<rparr>
                else st)
      in st\<lparr>c_events := c_events st @ [e]\<rparr>)"

definition wake_at :: "nat \<Rightarrow> collected \<Rightarrow> nat" where
  "wake_at deadline st =
     min (case or_else (c_settle st) (c_empty st) of Some t \<Rightarrow> t | None \<Rightarrow> deadline) deadline"

text \<open>
  The loop of \<open>collect_ask_reply\<close>: how it stopped, what it has, and when. The subscription answers at
  the instant an arrival names, or at once if that has passed; when nothing more is listed, nothing more
  arrives.
\<close>

fun collect_loop ::
    "nat \<Rightarrow> ask_waits \<Rightarrow> string \<Rightarrow> nat \<Rightarrow> collected \<Rightarrow> arrival list \<Rightarrow> unit res \<times> collected \<times> nat" where
  "collect_loop deadline w rid now st [] = (Inr (), st, max now (wake_at deadline st))"
| "collect_loop deadline w rid now st ((t, counts, r) # rest) =
     (if now \<ge> wake_at deadline st then (Inr (), st, now)
      else if t > wake_at deadline st then (Inr (), st, wake_at deadline st)
      else
        let now = max now t
        in case r of
             Lagged n \<Rightarrow>
               (Inl (Runtime (''reply event buffer overflow: skipped '' @ show_nat n @ '' events'')), st, now)
           | Subscription_Closed \<Rightarrow> (Inl (Connection ''hub session closed while collecting a reply''), st, now)
           | Got e \<Rightarrow>
               if \<not> about_ask rid counts e then collect_loop deadline w rid now st rest
               else case accept (c_budget st) e of (fits, budget) \<Rightarrow>
                 let st = st\<lparr>c_budget := budget\<rparr>
                 in if \<not> fits then collect_loop deadline w rid now st rest
                    else let st = take_event deadline w now e st
                         in if c_hard st \<noteq> None then (Inr (), st, now)
                            else collect_loop deadline w rid now st rest)"

definition failure_of :: "collected \<Rightarrow> event option" where
  "failure_of st = or_else (c_hard st) (if c_fragments st = [] then c_soft st else None)"

definition first_session_id :: "event list \<Rightarrow> string option" where
  "first_session_id es = find not_blank (List.map_filter event_session_id es)"

definition ask_reply :: "jmap \<Rightarrow> string \<Rightarrow> collected \<Rightarrow> reply res" where
  "ask_reply ctx rid st =
     (if c_fragments st = [] then
        Inl (case failure_of st of
               Some e \<Rightarrow> failure_error e
             | None \<Rightarrow> Timeout ''hub finished without a speak reply'')
      else
        Inr \<lparr>r_dropped_media = b_dropped (c_budget st), r_text = join '' '' (c_fragments st),
             r_utterances = c_fragments st, r_handled = failure_of st = None, r_ok = failure_of st = None,
             r_session_id = or_else (first_session_id (c_events st))
               (Option.bind (get_object ctx ''session'') (\<lambda>s. get_str s ''session_id'')),
             r_request_id = Some rid, r_events = c_events st, r_failure_event = failure_of st\<rparr>)"

definition collect_ask_reply ::
    "nat \<Rightarrow> ask_waits \<Rightarrow> string \<Rightarrow> jmap \<Rightarrow> nat \<Rightarrow> arrival list \<Rightarrow> reply res \<times> collected \<times> nat" where
  "collect_ask_reply deadline w rid ctx now arrivals =
     (case collect_loop deadline w rid now nothing_collected arrivals of
        (r, st, stop) \<Rightarrow> (res_bind r (\<lambda>_. ask_reply ctx rid st), st, stop))"

section \<open>An ask\<close>

record request_options =
  o_timeout :: "duration option"
  o_lang :: "string option"
  o_context :: "jmap option"
  o_session_id :: "string option"
  o_request_id :: "string option"

record ask_options =
  request :: request_options
  empty_reply_wait :: duration
  reply_settle :: duration

definition default_request :: request_options where
  "default_request = \<lparr>o_timeout = None, o_lang = None, o_context = None, o_session_id = None, o_request_id = None\<rparr>"

definition default_ask_options :: ask_options where
  "default_ask_options =
     \<lparr>request = default_request, empty_reply_wait = from_secs 5, reply_settle = from_millis 250\<rparr>"

text \<open>
  The host of one ask: when it starts and the last instant there is, the fresh ids, when connecting ends
  and how (never, if \<open>None\<close>), the same of the write, what the transport publishes and when it goes away.
\<close>

record ask_host =
  a_now :: nat
  a_instant_max :: nat
  a_new_request_id :: string
  a_new_session_id :: string
  a_connected :: "(nat \<times> unit res) option"
  a_written :: "(nat \<times> unit res) option"
  a_publications :: "bus_publication list"
  a_closes :: "nat option"

text \<open>How an ask ended, what it emitted, the turns it remembered, and what is in flight after it.\<close>

record asked =
  a_reply :: "reply res"
  a_emitted :: "(string \<times> jmap \<times> jmap) option"
  a_turns :: "(string list \<times> jmap) list"
  a_flights :: flights

definition unwrap_or :: "'a option \<Rightarrow> 'a \<Rightarrow> 'a" where
  "unwrap_or x d = (case x of Some v \<Rightarrow> v | None \<Rightarrow> d)"

lemma unwrap_or_simps [simp]: "unwrap_or None d = d" "unwrap_or (Some v) d = v"
  by (simp_all add: unwrap_or_def)

definition UTTERANCE_TIMED_OUT :: thalovant_error where
  "UTTERANCE_TIMED_OUT = Timeout ''utterance handling timed out''"

text \<open>The ids a turn's end is filed under: the one asked with, and the one the hub answered with.\<close>

definition turn_keys :: "string \<Rightarrow> event \<Rightarrow> string list" where
  "turn_keys sid e =
     (case event_session_id e of
        Some v \<Rightarrow> if not_blank v \<and> v \<noteq> sid then [sid, v] else [sid]
      | None \<Rightarrow> [sid])"

definition turns_of :: "string \<Rightarrow> collected \<Rightarrow> (string list \<times> jmap) list" where
  "turns_of sid st = map (\<lambda>e. (turn_keys sid e, e_context e)) (c_remembered st)"

text \<open>
  Writing and collecting run together: a reply that is ready wins, and a write that fails first is the
  answer, with only what had arrived by then taken note of.
\<close>

definition send_and_collect ::
    "(nat \<times> unit res) option \<Rightarrow> (arrival list \<Rightarrow> reply res \<times> collected \<times> nat) \<Rightarrow> arrival list
       \<Rightarrow> reply res \<times> collected" where
  "send_and_collect written collect arrivals =
     (case collect arrivals of
        (reply, st, stop) \<Rightarrow>
          (case written of
             Some (t, Inl e) \<Rightarrow>
               if t < stop then (Inl e, fst (snd (collect (filter (\<lambda>a. fst a \<le> t) arrivals)))) else (reply, st)
           | _ \<Rightarrow> (reply, st)))"

definition connect_within :: "nat \<Rightarrow> nat \<Rightarrow> (nat \<times> unit res) option \<Rightarrow> nat res" where
  "connect_within deadline now connected =
     (case connected of
        None \<Rightarrow> Inl UTTERANCE_TIMED_OUT
      | Some (t, r) \<Rightarrow>
          if t > deadline then Inl UTTERANCE_TIMED_OUT
          else res_bind r (\<lambda>_. if max now t \<ge> deadline then Inl UTTERANCE_TIMED_OUT else Inr (max now t)))"

definition ask_context :: "string \<Rightarrow> conversations \<Rightarrow> jmap option \<Rightarrow> string \<Rightarrow> string \<Rightarrow> string \<Rightarrow> jmap" where
  "ask_context site cs ctx sid lang rid =
     context_with_correlation (or_else (continue_conversation ctx sid cs) ctx)
       (Some sid) (Some site) (Some lang) (Some rid)"

definition ask_with_hints ::
    "string \<Rightarrow> ask_host \<Rightarrow> conversations \<Rightarrow> string \<Rightarrow> ask_options \<Rightarrow> request_context_options \<Rightarrow> flights \<Rightarrow> asked" where
  "ask_with_hints site h cs text options hints f =
     (let opts = request options;
          ctx = request_context (o_context opts) hints;
          prompt = trim text;
          ended = (\<lambda>r f. \<lparr>a_reply = r, a_emitted = None, a_turns = [], a_flights = f\<rparr>);
          deadline = a_now h + unwrap_or (o_timeout opts) (from_secs 12);
          rid = unwrap_or (o_request_id opts) (a_new_request_id h)
      in if prompt = [] then ended (Inl (Runtime ''ask requires non-empty text'')) f
         else if deadline > a_instant_max h then ended (Inl (Runtime ''ask timeout is too large'')) f
         else case reserve_reply False rid f of
           (Inl e, f) \<Rightarrow> ended (Inl e) f
         | (Inr _, f) \<Rightarrow>
             let f' = release_reply False rid f
             in case connect_within deadline (a_now h) (a_connected h) of
                  Inl e \<Rightarrow> ended (Inl e) f'
                | Inr now \<Rightarrow>
                    let lang = unwrap_or (o_lang opts) ''en-us'';
                        sid = unwrap_or (o_session_id opts) (a_new_session_id h);
                        ctx' = ask_context site cs ctx sid lang rid
                    in case send_and_collect (a_written h)
                              (collect_ask_reply deadline \<lparr>w_empty = empty_reply_wait options, w_settle = reply_settle options\<rparr>
                                 rid ctx' now)
                              (receptions (a_publications h) (a_closes h)) of
                         (reply, st) \<Rightarrow>
                           \<lparr>a_reply = reply,
                            a_emitted = Some (EVENT_RECOGNIZER_LOOP_UTTERANCE, utterance_payload prompt lang, ctx'),
                            a_turns = turns_of sid st, a_flights = f'\<rparr>)"

definition ask :: "string \<Rightarrow> ask_host \<Rightarrow> conversations \<Rightarrow> string \<Rightarrow> request_options \<Rightarrow> flights \<Rightarrow> asked" where
  "ask site h cs text opts f =
     ask_with_hints site h cs text (default_ask_options\<lparr>request := opts\<rparr>)
       \<lparr>h_stt_lang = None, h_pipeline = [], h_location = None\<rparr> f"

end
