(* ===== verification/Ask_Reply.thy ===== *)
theory Ask_Reply
  imports Ask
begin

text \<open>
  What an ask's reply is, whatever arrives: it is made of the events about this ask and of nothing else,
  in the order they came; other traffic changes neither the reply nor when it comes; and it comes when
  the waits say, by the deadline at the latest.
\<close>

section \<open>One event\<close>

definition speaks :: "event \<Rightarrow> bool" where
  "speaks e \<longleftrightarrow> e_name e \<in> {EVENT_SPEAK, EVENT_OVOS_UTTERANCE_SPEAK}"

definition misses :: "event \<Rightarrow> bool" where
  "misses e \<longleftrightarrow> e_name e \<in> {EVENT_INTENT_FAILURE, EVENT_INTENT_UNMATCHED}"

definition refuses :: "event \<Rightarrow> bool" where
  "refuses e \<longleftrightarrow> e_name e \<in> {EVENT_POLICY_DENIED, EVENT_QUERY_TIMEOUT}"

definition ends_turn :: "event \<Rightarrow> bool" where
  "ends_turn e \<longleftrightarrow> e_name e = EVENT_UTTERANCE_HANDLED"

lemmas event_kinds = speaks_def misses_def refuses_def ends_turn_def

lemma kinds_apart:
  "speaks e \<Longrightarrow> \<not> misses e \<and> \<not> refuses e \<and> \<not> ends_turn e"
  "misses e \<Longrightarrow> \<not> refuses e \<and> \<not> ends_turn e"
  "refuses e \<Longrightarrow> \<not> ends_turn e"
  by (auto simp: event_kinds event_names)

lemma take_event_alt:
  "take_event deadline w now e st =
     (let fragments = (if speaks e then push_fragment (c_fragments st) (event_text e) else c_fragments st)
      in st\<lparr>c_fragments := fragments,
            c_settle := (if speaks e \<and> fragments \<noteq> [] \<and> c_settle st = None
                         then Some (wait_until deadline now (w_settle w)) else c_settle st),
            c_soft := (if misses e then Some e else c_soft st),
            c_hard := (if refuses e then Some e else c_hard st),
            c_remembered := (if ends_turn e then c_remembered st @ [e] else c_remembered st),
            c_empty := (if misses e \<or> ends_turn e
                        then or_else (c_empty st) (Some (wait_until deadline now (w_empty w))) else c_empty st),
            c_events := c_events st @ [e]\<rparr>)"
proof -
  have "(speaks e \<longrightarrow> \<not> misses e \<and> \<not> refuses e \<and> \<not> ends_turn e)
    \<and> (misses e \<longrightarrow> \<not> refuses e \<and> \<not> ends_turn e) \<and> (refuses e \<longrightarrow> \<not> ends_turn e)"
    using kinds_apart by blast
  then show ?thesis
    unfolding take_event_def speaks_def [symmetric] misses_def [symmetric] refuses_def [symmetric]
      ends_turn_def [symmetric]
    by (cases "speaks e"; cases "misses e"; cases "refuses e"; cases "ends_turn e") (simp_all add: Let_def)
qed

lemma take_event_fields [simp]:
  "c_events (take_event d w now e st) = c_events st @ [e]"
  "c_budget (take_event d w now e st) = c_budget st"
  "c_fragments (take_event d w now e st) = (if speaks e then push_fragment (c_fragments st) (event_text e) else c_fragments st)"
  "c_soft (take_event d w now e st) = (if misses e then Some e else c_soft st)"
  "c_hard (take_event d w now e st) = (if refuses e then Some e else c_hard st)"
  "c_remembered (take_event d w now e st) = (if ends_turn e then c_remembered st @ [e] else c_remembered st)"
  "c_settle (take_event d w now e st) =
     (if speaks e \<and> push_fragment (c_fragments st) (event_text e) \<noteq> [] \<and> c_settle st = None
      then Some (wait_until d now (w_settle w)) else c_settle st)"
  "c_empty (take_event d w now e st) =
     (if misses e \<or> ends_turn e then or_else (c_empty st) (Some (wait_until d now (w_empty w))) else c_empty st)"
  by (simp_all add: take_event_alt Let_def)

section \<open>What is collected\<close>

definition own_event :: "string \<Rightarrow> arrival \<Rightarrow> event option" where
  "own_event rid a =
     (case snd (snd a) of Got e \<Rightarrow> if about_ask rid (fst (snd a)) e then Some e else None | _ \<Rightarrow> None)"

definition own_events :: "string \<Rightarrow> arrival list \<Rightarrow> event list" where
  "own_events rid as = List.map_filter (own_event rid) as"

lemma own_events_Nil [simp]: "own_events rid [] = []"
  by (simp add: own_events_def map_filter_def)

lemma own_events_Cons [simp]:
  "own_events rid (a # as) = (case own_event rid a of None \<Rightarrow> own_events rid as | Some e \<Rightarrow> e # own_events rid as)"
  by (simp add: own_events_def map_filter_def split: option.split)

text \<open>What the events of a turn come to.\<close>

definition said_by :: "event list \<Rightarrow> string list" where
  "said_by es = fold (\<lambda>e fs. push_fragment fs (event_text e)) (filter speaks es) []"

definition last_such :: "('a \<Rightarrow> bool) \<Rightarrow> 'a list \<Rightarrow> 'a option" where
  "last_such P xs = find P (rev xs)"

lemma last_such_simps [simp]: "last_such P [] = None" "last_such P (xs @ [x]) = (if P x then Some x else last_such P xs)"
  by (simp_all add: last_such_def)

definition of_events :: "collected \<Rightarrow> bool" where
  "of_events st \<longleftrightarrow>
     c_fragments st = said_by (c_events st)
     \<and> c_soft st = last_such misses (c_events st)
     \<and> c_hard st = last_such refuses (c_events st)
     \<and> c_remembered st = filter ends_turn (c_events st)"

lemma of_events_take: "of_events st \<Longrightarrow> of_events (take_event d w now e st)"
  by (simp add: of_events_def said_by_def)

lemma of_events_nothing [simp]: "of_events nothing_collected"
  by (simp add: of_events_def said_by_def nothing_collected_def)

lemma of_events_budget [simp]: "of_events (st\<lparr>c_budget := b\<rparr>) = of_events st"
  by (simp add: of_events_def)

text \<open>One arrival of the loop, by cases.\<close>

inductive arrival_step :: "nat \<Rightarrow> ask_waits \<Rightarrow> string \<Rightarrow> arrival \<Rightarrow> nat \<times> collected \<Rightarrow> nat \<times> collected \<Rightarrow> bool"
  for d w rid where
  foreign: "\<not> about_ask rid counts e \<Longrightarrow> arrival_step d w rid (t, counts, Got e) (now, st) (max now t, st)"
| dropped: "about_ask rid counts e \<Longrightarrow> accept (c_budget st) e = (False, b)
    \<Longrightarrow> arrival_step d w rid (t, counts, Got e) (now, st) (max now t, st\<lparr>c_budget := b\<rparr>)"
| taken: "about_ask rid counts e \<Longrightarrow> accept (c_budget st) e = (True, b)
    \<Longrightarrow> arrival_step d w rid (t, counts, Got e) (now, st)
          (max now t, take_event d w (max now t) e (st\<lparr>c_budget := b\<rparr>))"

inductive_cases arrival_stepE: "arrival_step d w rid a (now, st) (now', st')"

text \<open>The subscription fell behind, or is gone.\<close>

definition lost_error :: "reception \<Rightarrow> thalovant_error \<Rightarrow> bool" where
  "lost_error x e \<longleftrightarrow>
     (case x of
        Got _ \<Rightarrow> False
      | Lagged n \<Rightarrow> e = Runtime (''reply event buffer overflow: skipped '' @ show_nat n @ '' events'')
      | Subscription_Closed \<Rightarrow> e = Connection ''hub session closed while collecting a reply'')"

text \<open>The loop stops for one of four reasons, or takes an arrival and goes on.\<close>

lemma collect_loop_cases:
  assumes "collect_loop d w rid now st as = (r, st', stop)"
  obtains (over) "r = Inr ()" "st' = st" "as = [] \<or> now \<ge> wake_at d st \<or> fst (hd as) > wake_at d st"
      "stop = max now (wake_at d st)"
  | (lost) e where "r = Inl e" "st' = st" "as \<noteq> []" "fst (hd as) \<le> wake_at d st" "now < wake_at d st"
      "stop = max now (fst (hd as))" "lost_error (snd (snd (hd as))) e"
  | (refused) a rest where "r = Inr ()" "as = a # rest" "fst a \<le> wake_at d st" "now < wake_at d st"
      "arrival_step d w rid a (now, st) (stop, st')" "c_hard st' \<noteq> None"
  | (on) a rest now1 st1 where "as = a # rest" "fst a \<le> wake_at d st" "now < wake_at d st"
      "arrival_step d w rid a (now, st) (now1, st1)" "c_hard st1 = None \<or> c_hard st1 = c_hard st"
      "collect_loop d w rid now1 st1 rest = (r, st', stop)"
proof (cases as)
  case Nil
  then show ?thesis using assms by (intro over) auto
next
  case (Cons a rest)
  obtain t counts x where a: "a = (t, counts, x)" by (metis prod.exhaust)
  consider "now \<ge> wake_at d st" | "now < wake_at d st" "t > wake_at d st" | "now < wake_at d st" "t \<le> wake_at d st"
    by linarith
  then show ?thesis
  proof cases
    case 1
    then show ?thesis using assms Cons a by (intro over) auto
  next
    case 2
    then show ?thesis using assms Cons a by (intro over) auto
  next
    case 3
    show ?thesis
    proof (cases x)
      case (Got e)
      show ?thesis
      proof (cases "about_ask rid counts e")
        case False
        then have "collect_loop d w rid (max now t) st rest = (r, st', stop)"
          using assms Cons a Got 3 by (simp add: Let_def)
        then show ?thesis using Cons a Got 3 False by (intro on [OF Cons]) (auto intro: arrival_step.intros)
      next
        case True
        obtain fits b where acc: "accept (c_budget st) e = (fits, b)" by fastforce
        show ?thesis
        proof (cases fits)
          case False
          then have "collect_loop d w rid (max now t) (st\<lparr>c_budget := b\<rparr>) rest = (r, st', stop)"
            using assms Cons a Got 3 True acc by (simp add: Let_def)
          then show ?thesis
            using a Got 3 True acc False by (intro on [OF Cons]) (auto intro: arrival_step.intros)
        next
          case fits: True
          let ?st = "take_event d w (max now t) e (st\<lparr>c_budget := b\<rparr>)"
          have step: "arrival_step d w rid a (now, st) (max now t, ?st)"
            using a Got True acc fits by (auto intro: arrival_step.intros)
          show ?thesis
          proof (cases "c_hard ?st = None")
            case None: True
            then have "collect_loop d w rid (max now t) ?st rest = (r, st', stop)"
              using assms Cons a Got 3 True acc fits by (simp add: Let_def del: take_event_fields)
            then show ?thesis using 3 a step None by (intro on [OF Cons]) auto
          next
            case Some: False
            then have "collect_loop d w rid now st as = (Inr (), ?st, max now t)"
              using Cons a Got 3 True acc fits by (simp add: Let_def del: take_event_fields)
            then have eqs: "r = Inr ()" "st' = ?st" "stop = max now t" using assms by simp_all
            show ?thesis
              by (rule refused [OF eqs(1) Cons]) (use 3 a step Some eqs in \<open>simp_all del: take_event_fields\<close>)
          qed
        qed
      qed
    qed (use assms Cons a 3 in \<open>auto intro!: lost simp: Let_def lost_error_def\<close>)
  qed
qed

lemma accept_all_append:
  "accept_all b (xs @ ys) =
     (case accept_all b xs of (k1, b1) \<Rightarrow> case accept_all b1 ys of (k2, b2) \<Rightarrow> (k1 @ k2, b2))"
  by (induction xs arbitrary: b) (simp_all split: prod.splits)

lemma arrival_step_content:
  assumes "arrival_step d w rid a (now, st) (now1, st1)"
  shows "now1 = max now (fst a) \<and> (of_events st \<longrightarrow> of_events st1)
    \<and> (\<exists>es. accept_all (c_budget st) (own_events rid [a]) = (es, c_budget st1) \<and> c_events st1 = c_events st @ es)"
  using assms by cases (auto simp: own_event_def of_events_take)

lemma own_events_append [simp]: "own_events rid (xs @ ys) = own_events rid xs @ own_events rid ys"
  by (simp add: own_events_def map_filter_def)

lemma own_events_split: "own_events rid (a # as) = own_events rid [a] @ own_events rid as"
  by (simp split: option.split)

text \<open>The loop takes a prefix of what arrives, and keeps of it what is its own and within the media budget.\<close>

lemma collect_loop_content:
  assumes "collect_loop d w rid now st as = (r, st', stop)"
  shows "\<exists>n es. accept_all (c_budget st) (own_events rid (take n as)) = (es, c_budget st')
    \<and> c_events st' = c_events st @ es \<and> (of_events st \<longrightarrow> of_events st')
    \<and> (\<forall>e. r = Inl e \<longrightarrow> n < length as \<and> lost_error (snd (snd (as ! n))) e)"
  using assms
proof (induction as arbitrary: now st)
  case Nil
  then show ?case by auto
next
  case (Cons a as)
  from Cons.prems show ?case
  proof (cases rule: collect_loop_cases)
    case (lost e)
    then show ?thesis by (intro exI [of _ 0]) auto
  next
    case (refused a' rest)
    then show ?thesis using arrival_step_content [OF refused(5)] by (intro exI [of _ 1]) auto
  next
    case (on a' rest now1 st1)
    then have eq: "a' = a" "rest = as" by simp_all
    obtain n es where ih: "accept_all (c_budget st1) (own_events rid (take n as)) = (es, c_budget st')"
      "c_events st' = c_events st1 @ es" "of_events st1 \<longrightarrow> of_events st'"
      "\<forall>e. r = Inl e \<longrightarrow> n < length as \<and> lost_error (snd (snd (as ! n))) e"
      using Cons.IH on(6) eq by blast
    obtain es1 where es1: "accept_all (c_budget st) (own_events rid [a]) = (es1, c_budget st1)"
      "c_events st1 = c_events st @ es1" "of_events st \<longrightarrow> of_events st1"
      using arrival_step_content [OF on(4)] eq by blast
    have "accept_all (c_budget st) (own_events rid (take (Suc n) (a # as))) = (es1 @ es, c_budget st')"
      using ih(1) by (simp only: take_Suc_Cons own_events_split [of rid a "take n as"] accept_all_append es1(1) prod.case)
    then show ?thesis using ih es1 by (intro exI [of _ "Suc n"] exI [of _ "es1 @ es"]) simp
  qed (auto intro!: exI [of _ 0])
qed

section \<open>When it comes\<close>

definition says :: "string \<Rightarrow> arrival \<Rightarrow> bool" where
  "says rid a \<longleftrightarrow>
     (case own_event rid a of Some e \<Rightarrow> speaks e \<and> plain_words (event_text e) \<noteq> [] | None \<Rightarrow> False)"

definition goes_quiet :: "string \<Rightarrow> arrival \<Rightarrow> bool" where
  "goes_quiet rid a \<longleftrightarrow> (case own_event rid a of Some e \<Rightarrow> misses e \<or> ends_turn e | None \<Rightarrow> False)"

definition first_time :: "(arrival \<Rightarrow> bool) \<Rightarrow> arrival list \<Rightarrow> nat option" where
  "first_time P as = map_option fst (find P as)"

lemma first_time_simps [simp]:
  "first_time P [] = None" "first_time P (a # as) = (if P a then Some (fst a) else first_time P as)"
  by (simp_all add: first_time_def)

text \<open>When a reply is due: a short while after the first words, or a longer one after the turn ended or missed.\<close>

definition reply_due :: "nat \<Rightarrow> ask_waits \<Rightarrow> string \<Rightarrow> arrival list \<Rightarrow> nat" where
  "reply_due d w rid as =
     (case first_time (says rid) as of
        Some t \<Rightarrow> wait_until d t (w_settle w)
      | None \<Rightarrow> (case first_time (goes_quiet rid) as of Some t \<Rightarrow> wait_until d t (w_empty w) | None \<Rightarrow> d))"

definition settle_ok :: "collected \<Rightarrow> bool" where
  "settle_ok st \<longleftrightarrow> (c_settle st = None \<longleftrightarrow> c_fragments st = [])"

lemma push_fragment_Nil: "push_fragment fs t = [] \<longleftrightarrow> fs = [] \<and> plain_words t = []"
  by (auto simp: push_fragment_def Let_def)

lemma not_audio: "speaks e \<or> misses e \<or> ends_turn e \<Longrightarrow> \<not> is_audio e"
  by (auto simp: event_kinds is_audio_def event_names)

lemma arrival_step_waits:
  assumes "arrival_step d w rid a (now, st) (now1, st1)" and "settle_ok st" and "now \<le> fst a"
    and "fst a \<le> wake_at d st"
  shows "settle_ok st1 \<and> now1 = fst a \<and> fst a \<le> wake_at d st1
    \<and> c_settle st1 = or_else (c_settle st) (if says rid a then Some (wait_until d (fst a) (w_settle w)) else None)
    \<and> c_empty st1 = or_else (c_empty st) (if goes_quiet rid a then Some (wait_until d (fst a) (w_empty w)) else None)"
  using assms(1)
proof cases
  case (foreign counts e t)
  then show ?thesis using assms(2-4) by (simp add: says_def goes_quiet_def own_event_def)
next
  case (dropped counts e b t)
  then have "is_audio e" using accept_cases [of "c_budget st" e False b] by blast
  then have "\<not> speaks e" "\<not> misses e" "\<not> ends_turn e" using not_audio by blast+
  with dropped show ?thesis
    using assms(2-4) by (simp add: says_def goes_quiet_def own_event_def settle_ok_def wake_at_def)
next
  case (taken counts e b t)
  have le: "t \<le> d" using assms(4) taken by (simp add: wake_at_def)
  have own: "own_event rid a = Some e" using taken by (simp add: own_event_def)
  have settle: "c_settle st1 = or_else (c_settle st) (if says rid a then Some (wait_until d t (w_settle w)) else None)"
    using assms(2,3) taken own
    by (cases "c_settle st") (auto simp: says_def settle_ok_def push_fragment_Nil max_def)
  have empty: "c_empty st1 = or_else (c_empty st) (if goes_quiet rid a then Some (wait_until d t (w_empty w)) else None)"
    using assms(3) taken own by (cases "c_empty st") (auto simp: goes_quiet_def max_def)
  have ok: "settle_ok st1"
    using assms(2) taken by (auto simp: settle_ok_def push_fragment_Nil)
  have wake: "t \<le> wake_at d st1"
    using assms(4) taken(1) le unfolding wake_at_def settle empty
    by (cases "c_settle st"; cases "c_empty st") (auto simp: wait_until_def)
  have a: "fst a = t" "now1 = t" using taken(1,2) assms(3) by simp_all
  show ?thesis unfolding a using ok settle empty wake by blast
qed

lemma collect_loop_waits:
  assumes "collect_loop d w rid now st as = (r, st', stop)" and "sorted (now # map fst as)"
    and "settle_ok st" and "now \<le> wake_at d st" and "c_hard st = None"
  shows "now \<le> stop \<and> stop \<le> d
    \<and> (\<exists>n. c_settle st' = or_else (c_settle st) (map_option (\<lambda>t. wait_until d t (w_settle w)) (first_time (says rid) (take n as)))
        \<and> c_empty st' = or_else (c_empty st) (map_option (\<lambda>t. wait_until d t (w_empty w)) (first_time (goes_quiet rid) (take n as)))
        \<and> (\<forall>a \<in> set (take n as). fst a \<le> stop)
        \<and> (r = Inr () \<and> c_hard st' = None \<longrightarrow> stop = wake_at d st' \<and> (\<forall>a \<in> set (drop n as). stop \<le> fst a)))"
  using assms
proof (induction as arbitrary: now st)
  case Nil
  then show ?case by (auto simp: wake_at_def)
next
  case (Cons a as)
  from Cons.prems(1) show ?case
  proof (cases rule: collect_loop_cases)
    case over
    then show ?thesis using Cons.prems(2-4) by (intro conjI exI [of _ 0]) (auto simp: wake_at_def)
  next
    case (lost e)
    then show ?thesis using Cons.prems(2-4) by (intro conjI exI [of _ 0]) (auto simp: wake_at_def)
  next
    case (refused a' rest)
    then have eq: "a' = a" "rest = as" by simp_all
    show ?thesis
      using arrival_step_waits [OF refused(5) Cons.prems(3)] refused eq Cons.prems(2)
      by (intro conjI exI [of _ 1]) (auto simp: wake_at_def)
  next
    case (on a' rest now1 st1)
    then have eq: "a' = a" "rest = as" by simp_all
    have step: "settle_ok st1" "now1 = fst a" "fst a \<le> wake_at d st1"
      "c_settle st1 = or_else (c_settle st) (if says rid a then Some (wait_until d (fst a) (w_settle w)) else None)"
      "c_empty st1 = or_else (c_empty st) (if goes_quiet rid a then Some (wait_until d (fst a) (w_empty w)) else None)"
      using arrival_step_waits [OF on(4) Cons.prems(3)] on(2) eq Cons.prems(2) by simp_all
    have "sorted (now1 # map fst as)" using Cons.prems(2) step(2) by simp
    moreover have "c_hard st1 = None" using on(5) Cons.prems(5) by auto
    ultimately obtain n where ih: "now1 \<le> stop" "stop \<le> d"
      "c_settle st' = or_else (c_settle st1) (map_option (\<lambda>t. wait_until d t (w_settle w)) (first_time (says rid) (take n as)))"
      "c_empty st' = or_else (c_empty st1) (map_option (\<lambda>t. wait_until d t (w_empty w)) (first_time (goes_quiet rid) (take n as)))"
      "\<forall>a \<in> set (take n as). fst a \<le> stop"
      "r = Inr () \<and> c_hard st' = None \<longrightarrow> stop = wake_at d st' \<and> (\<forall>a \<in> set (drop n as). stop \<le> fst a)"
      using Cons.IH [of now1 st1] on(6) eq step(1-3) by auto
    have settle: "c_settle st' = or_else (c_settle st)
        (map_option (\<lambda>t. wait_until d t (w_settle w)) (first_time (says rid) (take (Suc n) (a # as))))"
      unfolding ih(3) step(4) by (cases "c_settle st") simp_all
    have empty: "c_empty st' = or_else (c_empty st)
        (map_option (\<lambda>t. wait_until d t (w_empty w)) (first_time (goes_quiet rid) (take (Suc n) (a # as))))"
      unfolding ih(4) step(5) by (cases "c_empty st") simp_all
    show ?thesis
      using ih(1,2,5,6) step(2) Cons.prems(2) settle empty by (intro conjI exI [of _ "Suc n"]) auto
  qed
qed

section \<open>Other traffic\<close>

definition foreign_arrival :: "string \<Rightarrow> arrival \<Rightarrow> bool" where
  "foreign_arrival rid a \<longleftrightarrow> (case snd (snd a) of Got e \<Rightarrow> \<not> about_ask rid (fst (snd a)) e | _ \<Rightarrow> False)"

lemma collect_loop_foreign:
  assumes "sorted_wrt (<) (map fst as)" and "\<forall>a \<in> set as. now \<le> fst a" and "now \<le> wake_at d st"
    and "settle_ok st" and "now' = now \<or> now' < now \<and> (\<forall>a \<in> set as. now < fst a)"
  shows "collect_loop d w rid now st as = collect_loop d w rid now' st (filter (\<lambda>a. \<not> foreign_arrival rid a) as)"
  using assms
proof (induction as arbitrary: now now' st)
  case Nil
  then show ?case by auto
next
  case (Cons a as)
  obtain t counts x where a: "a = (t, counts, x)" by (metis prod.exhaust)
  have later: "\<forall>b \<in> set as. t < fst b" and sorted: "sorted_wrt (<) (map fst as)" using Cons.prems(1) a by auto
  then have later': "\<forall>b \<in> set as. t \<le> fst b" by auto
  have now: "now \<le> t" "now' \<le> t" "max now t = t" "max now' t = t" using Cons.prems(2,5) a by auto
  show ?case
  proof (cases "t > wake_at d st \<or> now \<ge> wake_at d st")
    case True
    have stop: "collect_loop d w rid now st (a # as) = (Inr (), st, wake_at d st)"
      using True Cons.prems(3) a by auto
    have "collect_loop d w rid now' st bs = (Inr (), st, wake_at d st)"
      if "\<forall>b \<in> set bs. b = a \<or> b \<in> set as" for bs
    proof (cases bs)
      case Nil
      then show ?thesis using Cons.prems(3,5) by auto
    next
      case (Cons b bs')
      then have "t \<le> fst b" using that later' a by auto
      then show ?thesis
        using Cons True Cons.prems(3,5) a by (cases b) (auto split: if_splits)
    qed
    then show ?thesis using stop by simp
  next
    case False
    then have wake: "t \<le> wake_at d st" "now < wake_at d st" "now' < wake_at d st" using Cons.prems(5) by auto
    show ?thesis
    proof (cases "foreign_arrival rid a")
      case True
      then obtain e where e: "x = Got e" "\<not> about_ask rid counts e"
        using a by (auto simp: foreign_arrival_def split: reception.splits)
      have "collect_loop d w rid now st (a # as) = collect_loop d w rid t st as"
        using a e wake now(3) by (simp add: Let_def)
      also have "\<dots> = collect_loop d w rid now' st (filter (\<lambda>a. \<not> foreign_arrival rid a) as)"
        using Cons.IH [OF sorted later' wake(1) Cons.prems(4)] later now(2) by (cases "now' = t") auto
      finally show ?thesis using True by simp
    next
      case False
      show ?thesis
      proof (cases x)
        case (Got e)
        then have about: "about_ask rid counts e" using False a by (simp add: foreign_arrival_def)
        obtain fits b where acc: "accept (c_budget st) e = (fits, b)" by fastforce
        let ?st = "if fits then take_event d w t e (st\<lparr>c_budget := b\<rparr>) else st\<lparr>c_budget := b\<rparr>"
        have "arrival_step d w rid a (t, st) (t, ?st)"
          using arrival_step.taken [OF about, of st b d w t t] arrival_step.dropped [OF about, of st b d w t t] acc a Got
          by (cases fits) simp_all
        then have "settle_ok ?st" "t \<le> wake_at d ?st"
          using arrival_step_waits [of d w rid a t st t ?st] Cons.prems(4) wake(1) a by simp_all
        then have ih: "collect_loop d w rid t ?st as
            = collect_loop d w rid t ?st (filter (\<lambda>a. \<not> foreign_arrival rid a) as)"
          using Cons.IH [OF sorted later'] by blast
        show ?thesis
          using a Got about acc wake now(3,4) False ih
          by (cases fits) (simp_all add: Let_def del: take_event_fields)
      qed (use a wake now(3,4) False in \<open>simp_all add: Let_def\<close>)
    qed
  qed
qed

lemma ask_ignores_arrivals:
  assumes "sorted_wrt (<) (map fst arrivals)" and "\<forall>a \<in> set arrivals. now \<le> fst a" and "now \<le> deadline"
  shows "collect_loop deadline w rid now nothing_collected arrivals
    = collect_loop deadline w rid now nothing_collected (filter (\<lambda>a. \<not> foreign_arrival rid a) arrivals)"
proof -
  have wake: "now \<le> wake_at deadline nothing_collected" and ok: "settle_ok nothing_collected"
    using assms(3) by (simp_all add: wake_at_def nothing_collected_def settle_ok_def)
  show ?thesis using collect_loop_foreign [OF assms(1,2) wake ok, of now w rid] by simp
qed

text \<open>The same of what is published: the buffer is shared, so what is left out leaves more room in it.\<close>

definition foreign_publication :: "string \<Rightarrow> bus_publication \<Rightarrow> bool" where
  "foreign_publication rid q \<longleftrightarrow> \<not> about_ask rid (pb_counts q) (pb_event q)"

fun keeps_up :: "bus_publication list \<Rightarrow> bool" where
  "keeps_up [] = True"
| "keeps_up (q # qs) = (unread q qs \<le> EVENT_BUFFER \<and> keeps_up qs)"

definition closing_arrival :: "nat option \<Rightarrow> arrival list" where
  "closing_arrival closes = receptions [] closes"

lemma closing_own [simp]: "filter (\<lambda>a. \<not> foreign_arrival rid a) (closing_arrival closes) = closing_arrival closes"
  by (simp add: closing_arrival_def foreign_arrival_def split: option.split)

definition is_got :: "arrival \<Rightarrow> bool" where
  "is_got a \<longleftrightarrow> (case snd (snd a) of Got e \<Rightarrow> True | _ \<Rightarrow> False)"

definition reads_after :: "nat \<Rightarrow> bus_publication list \<Rightarrow> nat option \<Rightarrow> bool" where
  "reads_after now pubs closes \<longleftrightarrow>
     sorted_wrt (<) (map pb_read pubs) \<and> (\<forall>q \<in> set pubs. now \<le> pb_read q)
     \<and> (\<forall>t. closes = Some t \<longrightarrow> now \<le> t \<and> (\<forall>q \<in> set pubs. pb_read q < t))"

lemma reads_after_Cons:
  "reads_after now (q # qs) closes \<Longrightarrow> now \<le> pb_read q \<and> reads_after (Suc (pb_read q)) qs closes"
  by (auto simp: reads_after_def)

lemma reads_after_filter: "reads_after now pubs closes \<Longrightarrow> reads_after now (filter P pubs) closes"
  by (auto simp: reads_after_def sorted_wrt_map sorted_wrt_filter)

lemma receptions_sorted:
  "reads_after now pubs closes \<Longrightarrow>
     sorted_wrt (<) (map fst (receptions pubs closes)) \<and> (\<forall>a \<in> set (receptions pubs closes). now \<le> fst a)"
proof (induction pubs arbitrary: now)
  case Nil
  then show ?case by (simp add: reads_after_def split: option.split)
next
  case (Cons q qs)
  have r: "now \<le> pb_read q" "reads_after (Suc (pb_read q)) qs closes" using reads_after_Cons [OF Cons.prems] by simp_all
  show ?case using Cons.IH [OF r(2)] r(1) by (auto simp: less_eq_Suc_le)
qed

lemma unread_filter: "unread q (filter P qs) \<le> unread q qs"
  by (induction qs) (auto simp: unread_def)

text \<open>
  What is received with the foreign events and without: the same of the ask's own, up to where the first is
  told of a loss.
\<close>

lemma receptions_filtered:
  assumes "reads_after now pubs closes"
  obtains (whole) gs where "receptions pubs closes = gs @ closing_arrival closes"
      "receptions (filter (\<lambda>q. \<not> foreign_publication rid q) pubs) closes
         = filter (\<lambda>a. \<not> foreign_arrival rid a) gs @ closing_arrival closes"
  | (lagged) gs t c n rest where "receptions pubs closes = gs @ [(t, c, Lagged n)]" "\<forall>a \<in> set gs. is_got a"
      "receptions (filter (\<lambda>q. \<not> foreign_publication rid q) pubs) closes
         = filter (\<lambda>a. \<not> foreign_arrival rid a) gs @ rest" "\<forall>a \<in> set rest. t \<le> fst a" "\<not> keeps_up pubs"
  using assms
proof (induction pubs arbitrary: now thesis)
  case Nil
  show ?case by (rule Nil(1) [of "[]"]) (simp_all add: closing_arrival_def)
next
  case (Cons q qs)
  let ?own = "\<lambda>q. \<not> foreign_publication rid q"
  let ?got = "(pb_read q, pb_counts q, Got (pb_event q))"
  have r: "now \<le> pb_read q" "reads_after (Suc (pb_read q)) qs closes" using reads_after_Cons [OF Cons.prems(3)] by simp_all
  show ?case
  proof (cases "EVENT_BUFFER < unread q qs")
    case True
    have "reads_after (pb_read q) (q # qs) closes" using Cons.prems(3) by (auto simp: reads_after_def)
    then have "\<forall>a \<in> set (receptions (filter ?own (q # qs)) closes). pb_read q \<le> fst a"
      using receptions_sorted [OF reads_after_filter] by blast
    then show ?thesis
      using True by (intro Cons.prems(2) [of "[]" "pb_read q" "pb_counts q" "unread q qs - EVENT_BUFFER"]) auto
  next
    case False
    have fits: "\<not> EVENT_BUFFER < unread q (filter ?own qs)" using False unread_filter [of q ?own qs] by simp
    have same: "foreign_arrival rid ?got = foreign_publication rid q"
      by (simp add: foreign_arrival_def foreign_publication_def)
    show ?thesis
    proof (rule Cons.IH [OF _ _ r(2)])
      fix gs
      assume "receptions qs closes = gs @ closing_arrival closes"
        "receptions (filter ?own qs) closes = filter (\<lambda>a. \<not> foreign_arrival rid a) gs @ closing_arrival closes"
      then show ?thesis using False fits same by (intro Cons.prems(1) [of "?got # gs"]) auto
    next
      fix gs t c n rest
      assume "receptions qs closes = gs @ [(t, c, Lagged n)]" "\<forall>a \<in> set gs. is_got a"
        "receptions (filter ?own qs) closes = filter (\<lambda>a. \<not> foreign_arrival rid a) gs @ rest"
        "\<forall>a \<in> set rest. t \<le> fst a" "\<not> keeps_up qs"
      then show ?thesis using False fits same
        by (intro Cons.prems(2) [of "?got # gs" t c n rest]) (auto simp: is_got_def)
    qed
  qed
qed

text \<open>A loss that the loop does not come to may be anything else that comes no earlier.\<close>

lemma collect_loop_tail:
  assumes "collect_loop d w rid now st (gs @ [(t, c, Lagged n)]) = (Inr u, st', stop)" and "\<forall>a \<in> set gs. is_got a"
    and "\<forall>a \<in> set rest. t \<le> fst a"
  shows "collect_loop d w rid now st (gs @ rest) = (Inr u, st', stop)"
  using assms(1,2)
proof (induction gs arbitrary: now st)
  case Nil
  show ?case
  proof (cases rest)
    case Nil': Nil
    then show ?thesis using Nil by (auto split: if_splits)
  next
    case (Cons z zs)
    then show ?thesis using Nil assms(3) by (cases z) (auto split: if_splits)
  qed
next
  case (Cons g gs)
  obtain t' c' x where g: "g = (t', c', x)" by (metis prod.exhaust)
  obtain e where x: "x = Got e" using Cons.prems(2) g by (cases x) (auto simp: is_got_def)
  have got: "\<forall>a \<in> set gs. is_got a" using Cons.prems(2) by simp
  show ?case
    using Cons.prems(1) Cons.IH [OF _ got] g x
    by (auto simp: Let_def split: if_splits prod.splits)
qed

lemma lagged_is_overflow:
  assumes "collect_loop d w rid now st (gs @ [(t, c, Lagged n)]) = (Inl e, st', stop)" and "\<forall>a \<in> set gs. is_got a"
  shows "e = Runtime (''reply event buffer overflow: skipped '' @ show_nat n @ '' events'')"
  using collect_loop_content [OF assms(1)] assms(2)
  by (fastforce simp: nth_append lost_error_def is_got_def less_Suc_eq split: if_splits reception.splits)

text \<open>
  C27: what else the hub says, to anyone, changes nothing for an ask that keeps up with its subscription: with
  every event that is not about it left out of what the transport publishes, its reply or error, what it has
  collected and the instant it returns are the same. One that falls more than 64 events behind, whomever they are about,
  may differ, and then it ends with the error that says how many it lost. The reads are taken to be at
  instants of their own, in order.
\<close>

theorem ask_ignores_others:
  assumes "reads_after now pubs closes" and "now \<le> deadline"
  shows "(keeps_up pubs \<longrightarrow>
      collect_ask_reply deadline w rid ctx now (receptions pubs closes)
        = collect_ask_reply deadline w rid ctx now (receptions (filter (\<lambda>q. \<not> foreign_publication rid q) pubs) closes))
    \<and> (collect_ask_reply deadline w rid ctx now (receptions pubs closes)
          = collect_ask_reply deadline w rid ctx now (receptions (filter (\<lambda>q. \<not> foreign_publication rid q) pubs) closes)
       \<or> (\<exists>n. fst (collect_ask_reply deadline w rid ctx now (receptions pubs closes))
              = Inl (Runtime (''reply event buffer overflow: skipped '' @ show_nat n @ '' events''))))"
proof -
  let ?run = "collect_loop deadline w rid now nothing_collected"
  note all = ask_ignores_arrivals [OF receptions_sorted [OF assms(1), THEN conjunct1]
      receptions_sorted [OF assms(1), THEN conjunct2] assms(2), of w rid]
  from assms(1) show ?thesis
  proof (cases rule: receptions_filtered [where rid = rid])
    case (whole gs)
    then show ?thesis using all by (simp add: collect_ask_reply_def)
  next
    case (lagged gs t c n rest)
    obtain r st stop where run: "?run (gs @ [(t, c, Lagged n)]) = (r, st, stop)" by (metis prod.exhaust)
    then have own: "?run (filter (\<lambda>a. \<not> foreign_arrival rid a) gs @ [(t, c, Lagged n)]) = (r, st, stop)"
      using all lagged(1) by (simp add: foreign_arrival_def)
    show ?thesis
    proof (cases r)
      case (Inl e)
      then show ?thesis using lagged_is_overflow [OF run [unfolded Inl] lagged(2)] lagged(1,5) run
        by (auto simp: collect_ask_reply_def)
    next
      case (Inr u)
      then have "?run (filter (\<lambda>a. \<not> foreign_arrival rid a) gs @ rest) = (r, st, stop)"
        using collect_loop_tail [OF own [unfolded Inr]] lagged(2,4) by auto
      then show ?thesis using run lagged by (simp add: collect_ask_reply_def)
    qed
  qed
qed

definition sample_event :: "string \<Rightarrow> string \<Rightarrow> string \<Rightarrow> event" where
  "sample_event name rid spoken =
     \<lparr>e_name = name, e_data = [(''utterance'', JString spoken)], e_context = [(''request_id'', JString rid)], e_raw = None\<rparr>"

definition sample_arrivals :: "arrival list" where
  "sample_arrivals =
     [(10, (2, 0, 0), Got (sample_event ''speak'' ''b'' ''not for you'')),
      (20, (2, 0, 0), Got (sample_event ''speak'' ''a'' ''it is noon''))]"

lemma sample_about:
  "about_ask ''a'' counts (sample_event ''speak'' rid spoken) \<longleftrightarrow> rid = ''a''"
  by (simp add: about_ask_def sample_event_def event_names event_request_id_def request_id_from_context_def
      request_id_from_map_def get_str_def given_def session_from_context_def get_object_def)

definition sample_publications :: "bus_publication list" where
  "sample_publications =
     [\<lparr>pb_published = 9, pb_read = 10, pb_counts = (2, 0, 0), pb_event = sample_event ''speak'' ''b'' ''not for you''\<rparr>,
      \<lparr>pb_published = 10, pb_read = 20, pb_counts = (2, 0, 0), pb_event = sample_event ''speak'' ''a'' ''it is noon''\<rparr>]"

theorem ask_ignores_others_witness:
  "collect_ask_reply 100 \<lparr>w_empty = 50, w_settle = 5\<rparr> ''a'' [] 0 (receptions sample_publications (Some 30))
     = collect_ask_reply 100 \<lparr>w_empty = 50, w_settle = 5\<rparr> ''a'' [] 0
         [(20, (2, 0, 0), Got (sample_event ''speak'' ''a'' ''it is noon'')), (30, (0, 0, 0), Subscription_Closed)]"
proof -
  have "reads_after 0 sample_publications (Some 30)" "keeps_up sample_publications"
    by (simp_all add: reads_after_def sample_publications_def unread_def EVENT_BUFFER_def)
  then show ?thesis
    using ask_ignores_others [of 0 sample_publications "Some 30" 100 "\<lparr>w_empty = 50, w_settle = 5\<rparr>" "''a''" "[]"]
    by (simp add: sample_publications_def foreign_publication_def sample_about unread_def EVENT_BUFFER_def)
qed

section \<open>The reply\<close>

text \<open>
  C28: the reply to an ask is made of a beginning of what arrives and of nothing but the events about this
  ask, all of them but media over the budget, in order. If anything was said, the answer is a reply with
  exactly that, fragments that repeat the one before left out, and it is ok unless the hub refused; if
  nothing was said, it is the typed error of the refusal, or else of the miss, or else that nothing was
  said; and the error of a subscription that fell behind or is gone only if that is what the read after that
  beginning was told. The turns remembered are the ends of turn among those events.
\<close>

theorem ask_reply_is_its_own:
  "\<exists>n. case collect_ask_reply deadline w rid ctx now arrivals of (reply, st, stop) \<Rightarrow>
     let es = fst (accept_all \<lparr>b_chars = 0, b_dropped = 0\<rparr> (own_events rid (take n arrivals)))
     in c_events st = es \<and> c_remembered st = filter ends_turn es
        \<and> (case reply of
             Inr rep \<Rightarrow> r_events rep = es \<and> r_utterances rep = said_by es \<and> said_by es \<noteq> []
               \<and> r_text rep = join '' '' (said_by es) \<and> r_failure_event rep = last_such refuses es
               \<and> r_ok rep = (last_such refuses es = None) \<and> r_request_id rep = Some rid
           | Inl err \<Rightarrow>
               said_by es = []
               \<and> err = (case or_else (last_such refuses es) (last_such misses es) of
                          Some e \<Rightarrow> failure_error e
                        | None \<Rightarrow> Timeout ''hub finished without a speak reply'')
               \<or> n < length arrivals \<and> lost_error (snd (snd (arrivals ! n))) err)"
proof -
  obtain r st stop where run: "collect_loop deadline w rid now nothing_collected arrivals = (r, st, stop)"
    by (metis prod.exhaust)
  obtain n es where es: "accept_all (c_budget nothing_collected) (own_events rid (take n arrivals)) = (es, c_budget st)"
    "c_events st = c_events nothing_collected @ es" "of_events st"
    "\<forall>e. r = Inl e \<longrightarrow> n < length arrivals \<and> lost_error (snd (snd (arrivals ! n))) e"
    using collect_loop_content [OF run] by auto
  then have c: "c_events st = es" "c_fragments st = said_by es" "c_soft st = last_such misses es"
    "c_hard st = last_such refuses es" "c_remembered st = filter ends_turn es"
    by (simp_all add: nothing_collected_def of_events_def)
  have all: "fst (accept_all \<lparr>b_chars = 0, b_dropped = 0\<rparr> (own_events rid (take n arrivals))) = es"
    using es(1) by (simp add: nothing_collected_def)
  show ?thesis
  proof (cases r)
    case (Inl e)
    then show ?thesis
      using run c all es(4) by (intro exI [of _ n]) (auto simp: collect_ask_reply_def Let_def)
  next
    case (Inr u)
    then show ?thesis
      using run c all
      by (intro exI [of _ n]) (auto simp: collect_ask_reply_def Let_def ask_reply_def failure_of_def)
  qed
qed

text \<open>
  C29: an ask always returns, between its start and its deadline. Unless it is refused or loses its
  subscription, it returns exactly when its reply is due: a settling time after the first words about it,
  or, with nothing said, a longer wait after the turn ended or missed, and otherwise at the deadline; and
  everything that arrived before then was taken into account.
\<close>

theorem ask_ends_in_time:
  assumes "sorted (now # map fst arrivals)" and "now \<le> deadline"
  shows "case collect_loop deadline w rid now nothing_collected arrivals of (r, st, stop) \<Rightarrow>
    now \<le> stop \<and> stop \<le> deadline
    \<and> (r = Inr () \<and> c_hard st = None \<longrightarrow>
        (\<exists>n. stop = reply_due deadline w rid (take n arrivals)
           \<and> (\<forall>a \<in> set (take n arrivals). fst a \<le> stop) \<and> (\<forall>a \<in> set (drop n arrivals). stop \<le> fst a)))"
proof -
  have start: "settle_ok nothing_collected" "now \<le> wake_at deadline nothing_collected" "c_hard nothing_collected = None"
    "c_settle nothing_collected = None" "c_empty nothing_collected = None"
    using assms(2) by (simp_all add: settle_ok_def nothing_collected_def wake_at_def)
  obtain r st stop where run: "collect_loop deadline w rid now nothing_collected arrivals = (r, st, stop)"
    by (metis prod.exhaust)
  obtain n where n: "now \<le> stop" "stop \<le> deadline"
    "c_settle st = map_option (\<lambda>t. wait_until deadline t (w_settle w)) (first_time (says rid) (take n arrivals))"
    "c_empty st = map_option (\<lambda>t. wait_until deadline t (w_empty w)) (first_time (goes_quiet rid) (take n arrivals))"
    "\<forall>a \<in> set (take n arrivals). fst a \<le> stop"
    "r = Inr () \<and> c_hard st = None \<longrightarrow> stop = wake_at deadline st \<and> (\<forall>a \<in> set (drop n arrivals). stop \<le> fst a)"
    using collect_loop_waits [OF run assms(1) start(1-3)] start(4,5) by auto
  have "wake_at deadline st = reply_due deadline w rid (take n arrivals)"
    unfolding wake_at_def reply_due_def n(3,4)
    by (auto simp: wait_until_def split: option.split)
  then show ?thesis using n(1,2,5,6) run by auto
qed

theorem ask_ends_in_time_witness:
  "snd (snd (collect_loop 100 \<lparr>w_empty = 50, w_settle = 5\<rparr> ''a'' 0 nothing_collected sample_arrivals)) \<le> 100"
  using ask_ends_in_time [of 0 sample_arrivals 100 "\<lparr>w_empty = 50, w_settle = 5\<rparr>" "''a''"]
  by (auto simp: sample_arrivals_def split: prod.splits simp del: collect_loop.simps)

section \<open>The conversation, carried on\<close>

lemma kept_field_get:
  assumes "f \<in> set names" and "map_of session f = Some v" and "truthy v"
  shows "map_of (fold (keep_field session) names kept) f = Some v"
proof -
  have "map_of (fold (keep_field session) names kept) f = Some v"
    if "f \<in> set names \<or> map_of kept f = Some v" for names kept
    using that
  proof (induction names arbitrary: kept)
    case (Cons g names)
    have "f \<in> set names \<or> map_of (keep_field session g kept) f = Some v"
      using Cons.prems assms(2,3) by (auto simp: keep_field_def split: option.splits)
    then show ?case using Cons.IH by simp
  qed simp
  then show ?thesis using assms(1) by blast
qed

lemma truthy_carried: "truthy v \<Longrightarrow> is_carried v"
  by (cases v) (auto simp: truthy_def is_carried_def)

lemma correlated_session_other:
  assumes "f \<notin> {''session_id'', ''site_id'', ''lang'', ''request_id''}"
  shows "map_of (correlated_session s sid site lang rid) f = map_of s f"
  using assms by (auto simp: correlated_session_def when_given_def set_default_def split: option.split)

lemma context_session_field:
  assumes "f \<notin> {''session_id'', ''site_id'', ''lang'', ''request_id''}" and "map_of (session_from_context c) f = Some v"
  shows "map_of (session_from_context (context_with_correlation (Some c) sid site lang rid)) f = Some v"
proof -
  let ?s = "correlated_session (session_from_context c) sid site lang rid"
  have s: "map_of ?s f = Some v" using assms correlated_session_other by simp
  then have "?s \<noteq> []" by auto
  then have "session_from_context (context_with_correlation (Some c) sid site lang rid) = ?s"
    by (simp add: context_with_correlation_def Let_def session_from_context_def get_object_def)
  then show ?thesis using s by simp
qed

lemma carried_field_names:
  "f \<in> set CONVERSATION_SESSION_FIELDS \<Longrightarrow> f \<notin> {''session_id'', ''site_id'', ''lang'', ''request_id''}"
  by (auto simp: CONVERSATION_SESSION_FIELDS_def)

lemma ask_emitted:
  assumes "a_emitted (ask_with_hints site h cs text options hints f) = Some (name, data, c)"
  shows "\<exists>rid lang. c = ask_context site cs (request_context (o_context (request options)) hints)
    (unwrap_or (o_session_id (request options)) (a_new_session_id h)) lang rid"
  using assms unfolding ask_with_hints_def Let_def
  by (auto split: if_splits prod.splits sum.splits)

text \<open>
  What a turn left behind is in the next question. When the end of a turn said something of a part of
  the conversation and the client has remembered it, the next ask under the session id the turn was asked
  with, or under the one the hub answered with, sends that part back as it was, unless the caller's own
  context says otherwise.
\<close>

theorem conversation_carried_on:
  assumes "conversations_ok cs" and "remember_conversation (turn_keys sid e) (e_context e) cs = Some cs'"
    and "field \<in> set CONVERSATION_SESSION_FIELDS" and "map_of (session_from_context (e_context e)) field = Some v"
    and "truthy v"
    and "o_session_id (request options) = Some next_id" and "next_id \<in> set (turn_keys sid e)"
    and "case request_context (o_context (request options)) hints of
           Some c \<Rightarrow> map_of (session_from_context c) field = None | None \<Rightarrow> True"
    and "a_emitted (ask_with_hints site h cs' text options hints f) = Some (name, data, c)"
  shows "map_of (session_from_context c) field = Some v"
proof -
  let ?ctx = "request_context (o_context (request options)) hints"
  have kept: "map_of (kept_fields (e_context e)) field = Some v"
    unfolding kept_fields_def by (rule kept_field_get [OF assms(3-5)])
  then have ne: "kept_fields (e_context e) \<noteq> []" by auto
  have keys: "turn_keys sid e \<noteq> []" "distinct (turn_keys sid e)" "length (turn_keys sid e) \<le> 2"
    by (auto simp: turn_keys_def split: option.split)
  have push: "fold push_new (turn_keys sid e) [] = turn_keys sid e"
    by (auto simp: turn_keys_def push_new_def split: option.split)
  obtain keys' cs1 where turn: "remember_conversation (turn_keys sid e) (e_context e) cs = Some cs1"
      "\<exists>more. keys' = turn_keys sid e @ more"
      "\<And>k. k \<in> set (take MAX_CONVERSATION_ALIASES keys') \<Longrightarrow> map_of (store cs1) k
         = Some (sequence cs, take MAX_CONVERSATION_ALIASES keys', kept_fields (e_context e))"
    using remember_turn [OF assms(1) keys(1), of "e_context e"] ne push by (metis (no_types, lifting))
  have "next_id \<in> set (take MAX_CONVERSATION_ALIASES keys')"
    using turn(2) assms(7) keys(3) by (auto simp: MAX_CONVERSATION_ALIASES_def)
  then have entry: "\<exists>n ks. map_of (store cs') next_id = Some (n, ks, kept_fields (e_context e))"
    using turn(1,3) assms(2) by auto
  let ?base = "case ?ctx of None \<Rightarrow> [] | Some c \<Rightarrow> c"
  have free: "map_of (session_from_context ?base) field = None"
    using assms(8) by (auto simp: session_from_context_def get_object_def split: option.splits)
  have cont: "continue_conversation ?ctx next_id cs' =
      Some (bt_insert ''session'' (JObject (carry_conversation (Some (kept_fields (e_context e))) (session_from_context ?base))) ?base)"
    using entry by (auto simp: continue_conversation_def Let_def)
  have carried: "map_of (carry_conversation (Some (kept_fields (e_context e))) (session_from_context ?base)) field = Some v"
    using free kept assms(3) truthy_carried [OF assms(5)] by (simp add: carry_conversation_get)
  obtain rid lang where c: "c = ask_context site cs' ?ctx next_id lang rid"
    using ask_emitted [OF assms(9)] assms(6) by auto
  show ?thesis
    unfolding c ask_context_def cont or_else_simps
    by (rule context_session_field [OF carried_field_names [OF assms(3)]])
      (use carried in \<open>simp add: session_from_context_def get_object_def\<close>)
qed

definition sample_turn_end :: event where
  "sample_turn_end =
     \<lparr>e_name = EVENT_UTTERANCE_HANDLED, e_data = [],
      e_context = [(''session'', JObject [(''context'', JArray [JNull]), (''session_id'', JString ''hub'')])], e_raw = None\<rparr>"

definition sample_ask_host :: ask_host where
  "sample_ask_host =
     \<lparr>a_now = 0, a_instant_max = 1000000000000, a_new_request_id = ''r'', a_new_session_id = ''s'',
      a_connected = Some (1, Inr ()), a_written = Some (2, Inr ()), a_publications = [], a_closes = None\<rparr>"

lemma sample_ask_emits:
  "\<exists>c. a_emitted (ask_with_hints site sample_ask_host cs ''what''
        (default_ask_options\<lparr>request := default_request\<lparr>o_session_id := Some ''hub''\<rparr>\<rparr>)
        \<lparr>h_stt_lang = None, h_pipeline = [], h_location = None\<rparr> \<lparr>active_replies = {}, untracked_sends = []\<rparr>)
     = Some (EVENT_RECOGNIZER_LOOP_UTTERANCE, utterance_payload ''what'' ''en-us'', c)"
  by (simp add: ask_with_hints_def Let_def sample_ask_host_def default_ask_options_def default_request_def
      trim_plain plain_char_def reserve_reply_def connect_within_def from_secs_def split: prod.split)

lemma sample_turn_context [simp]:
  "e_context sample_turn_end = [(''session'', JObject [(''context'', JArray [JNull]), (''session_id'', JString ''hub'')])]"
  by (simp add: sample_turn_end_def)

lemma sample_turn_keys: "turn_keys ''sat'' sample_turn_end = [''sat'', ''hub'']"
  by (simp add: turn_keys_def sample_turn_end_def event_session_id_def session_id_from_context_def
      session_from_context_def get_object_def get_str_def not_blank_def trim_plain plain_char_def)

theorem conversation_carried_on_witness:
  "\<exists>cs c. remember_conversation [''sat'', ''hub''] (e_context sample_turn_end) no_conversations = Some cs
     \<and> a_emitted (ask_with_hints ''home'' sample_ask_host cs ''what''
           (default_ask_options\<lparr>request := default_request\<lparr>o_session_id := Some ''hub''\<rparr>\<rparr>)
           \<lparr>h_stt_lang = None, h_pipeline = [], h_location = None\<rparr> \<lparr>active_replies = {}, untracked_sends = []\<rparr>)
         = Some (EVENT_RECOGNIZER_LOOP_UTTERANCE, utterance_payload ''what'' ''en-us'', c)
     \<and> map_of (session_from_context c) ''context'' = Some (JArray [JNull])"
proof -
  obtain cs where cs: "remember_conversation (turn_keys ''sat'' sample_turn_end) (e_context sample_turn_end)
      no_conversations = Some cs"
    using remember_ok [OF no_conversations_ok] by blast
  obtain c where c: "a_emitted (ask_with_hints ''home'' sample_ask_host cs ''what''
        (default_ask_options\<lparr>request := default_request\<lparr>o_session_id := Some ''hub''\<rparr>\<rparr>)
        \<lparr>h_stt_lang = None, h_pipeline = [], h_location = None\<rparr> \<lparr>active_replies = {}, untracked_sends = []\<rparr>)
     = Some (EVENT_RECOGNIZER_LOOP_UTTERANCE, utterance_payload ''what'' ''en-us'', c)"
    using sample_ask_emits by blast
  have "map_of (session_from_context c) ''context'' = Some (JArray [JNull])"
    by (rule conversation_carried_on [OF no_conversations_ok cs _ _ _ _ _ _ c, where next_id = "''hub''"])
      (simp_all add: sample_turn_keys CONVERSATION_SESSION_FIELDS_def session_from_context_def
        get_object_def truthy_def default_request_def request_context_def)
  then show ?thesis using cs c sample_turn_keys by auto
qed

end
