(* ===== verification/Query.thy ===== *)
theory Query
  imports Ask_Reply
begin

text \<open>
  \<open>src/src/client.rs\<close>, what a client sends beside an ask: events, replies, utterances nothing waits on,
  and queries, whose answers come as hive messages under a query id. Connecting, publishing and the
  subscription are given by how they end.
\<close>

section \<open>Emitting\<close>

text \<open>Metadata of the identity stands behind the context's own.\<close>

definition context_with_identity_metadata :: "jmap \<Rightarrow> jmap \<Rightarrow> jmap" where
  "context_with_identity_metadata meta ctx =
     (if meta = [] then ctx
      else bt_insert ''metadata''
             (JObject (fold (\<lambda>(k, v). set_default k v) meta
                (case get_object ctx ''metadata'' of None \<Rightarrow> [] | Some m \<Rightarrow> m))) ctx)"

text \<open>
  What the host does during one emit: how connecting ends, the instant then, what the client's other tasks do
  while the message is being published, each at its time, and how publishing ends. An emit answers with its
  result, what it published, and what was in flight at each moment from the hand-over of the message to the
  transport until its end, which the other tasks see.
\<close>

record emit_host =
  m_connected :: "unit res"
  m_now :: duration
  m_meanwhile :: "(flight_op \<times> duration) list"
  m_published :: "unit res"

fun flight_states :: "(flight_op \<times> duration) list \<Rightarrow> flights \<Rightarrow> flights list" where
  "flight_states [] f = [f]"
| "flight_states (a # as) f = f # flight_states as (flight_step a f)"

type_synonym published = "string \<times> jmap \<times> jmap"

text \<open>An utterance that nothing waits on is recorded once the connection is up, before it is handed over.\<close>

definition emit ::
    "jmap \<Rightarrow> emit_host \<Rightarrow> string \<Rightarrow> jmap \<Rightarrow> jmap \<Rightarrow> flights \<Rightarrow> unit res \<times> published option \<times> flights list" where
  "emit meta h event_type data ctx f =
     (case m_connected h of
        Inl e \<Rightarrow> (Inl e, None, [f])
      | Inr _ \<Rightarrow>
          (let f = (if event_type \<noteq> EVENT_RECOGNIZER_LOOP_UTTERANCE then f else record_untracked_send (m_now h) f)
           in (m_published h, Some (event_type, data, context_with_identity_metadata meta ctx),
               flight_states (m_meanwhile h) f)))"

definition client_reply ::
    "jmap \<Rightarrow> emit_host \<Rightarrow> event \<Rightarrow> string \<Rightarrow> jmap \<Rightarrow> flights \<Rightarrow> unit res \<times> published option \<times> flights list" where
  "client_reply meta h e type data f =
     (if trim type = [] then (Inl (Runtime ''a reply needs a non-empty message type''), None, [f])
      else emit meta h (trim type) data (reply_context (e_context e)) f)"

text \<open>\<open>me\<close> is the identity's site and metadata; \<open>fresh\<close> a new request id.\<close>

type_synonym own = "string \<times> jmap"

definition send_utterance ::
    "own \<Rightarrow> string \<Rightarrow> emit_host \<Rightarrow> string \<Rightarrow> request_options \<Rightarrow> flights \<Rightarrow> unit res \<times> published option \<times> flights list" where
  "send_utterance me fresh h text opts f =
     (let prompt = trim text; lang = unwrap_or (o_lang opts) ''en-us''; rid = unwrap_or (o_request_id opts) fresh
      in if prompt = [] then (Inl (Runtime ''send_utterance requires non-empty text''), None, [f])
         else emit (snd me) h EVENT_RECOGNIZER_LOOP_UTTERANCE (utterance_payload prompt lang)
                (context_with_correlation (o_context opts) (o_session_id opts) (Some (fst me)) (Some lang) (Some rid)) f)"

record action_options =
  act_title :: "string option"
  act_request :: request_options

definition send_action ::
    "own \<Rightarrow> string \<Rightarrow> emit_host \<Rightarrow> string \<Rightarrow> action_options \<Rightarrow> flights \<Rightarrow> unit res \<times> published option \<times> flights list" where
  "send_action me fresh h said_text opts f =
     (let prompt = trim said_text;
          input = bt_insert ''kind'' (JString ''action'') [];
          input = (case act_title opts of Some t \<Rightarrow> bt_insert ''title'' (JString t) input | None \<Rightarrow> input);
          input = bt_insert ''payload'' (JString prompt) input;
          r = act_request opts
      in if prompt = [] then (Inl (Runtime ''send_action requires non-empty payload''), None, [f])
         else send_utterance me fresh h prompt
                (r\<lparr>o_context := Some (merge_context (o_context r) (Some [(''input'', JObject input)])), o_timeout := None\<rparr>) f)"

record code_options =
  code_kind :: "string option"
  code_label :: "string option"
  code_request :: request_options

definition send_code ::
    "own \<Rightarrow> string \<Rightarrow> emit_host \<Rightarrow> string \<Rightarrow> code_options \<Rightarrow> flights \<Rightarrow> unit res \<times> published option \<times> flights list" where
  "send_code me fresh h value opts f =
     (let code = trim value;
          r = code_request opts;
          lang = unwrap_or (o_lang r) ''en-us'';
          rid = unwrap_or (o_request_id r) fresh;
          input = bt_insert ''kind'' (JString (unwrap_or (code_kind opts) ''code'')) [];
          input = (case code_label opts of Some l \<Rightarrow> bt_insert ''label'' (JString l) input | None \<Rightarrow> input);
          input = bt_insert ''exact'' (JBool True) (bt_insert ''value'' (JString code) input);
          ctx = context_with_correlation (Some (merge_context (o_context r) (Some [(''input'', JObject input)])))
                  (o_session_id r) (Some (fst me)) (Some lang) (Some rid)
      in if code = [] then (Inl (Runtime ''send_code requires non-empty value''), None, [f])
         else emit (snd me) h EVENT_RECOGNIZER_LOOP_UTTERANCE
                (bt_insert ''input'' (JObject input) (utterance_payload code lang)) ctx f)"

section \<open>A conversation\<close>

record conversation =
  conv_session_id :: string
  conv_lang :: string
  conv_context :: jmap

definition start_conversation :: "string \<Rightarrow> string option \<Rightarrow> string option \<Rightarrow> jmap option \<Rightarrow> conversation" where
  "start_conversation fresh sid lang ctx =
     \<lparr>conv_session_id = unwrap_or sid fresh, conv_lang = unwrap_or lang ''en-us'', conv_context = unwrap_or ctx []\<rparr>"

text \<open>The options every operation of a conversation passes on to the client's.\<close>

definition in_conversation :: "conversation \<Rightarrow> request_options \<Rightarrow> request_options" where
  "in_conversation c opts =
     opts\<lparr>o_session_id := Some (conv_session_id c), o_lang := Some (unwrap_or (o_lang opts) (conv_lang c)),
          o_context := Some (merge_context (Some (conv_context c)) (o_context opts))\<rparr>"

definition conversation_ask ::
    "conversation \<Rightarrow> string \<Rightarrow> ask_host \<Rightarrow> conversations \<Rightarrow> string \<Rightarrow> request_options \<Rightarrow> flights \<Rightarrow> asked" where
  "conversation_ask c site h cs text opts f = ask site h cs text (in_conversation c opts) f"

definition conversation_send_utterance ::
    "conversation \<Rightarrow> own \<Rightarrow> string \<Rightarrow> emit_host \<Rightarrow> string \<Rightarrow> request_options \<Rightarrow> flights
       \<Rightarrow> unit res \<times> published option \<times> flights list" where
  "conversation_send_utterance c me fresh h text opts f =
     send_utterance me fresh h text (in_conversation c opts) f"

section \<open>The answer to a query\<close>

definition query_id_from_hive_message :: "hive_message \<Rightarrow> string option" where
  "query_id_from_hive_message m =
     Option.bind (or_else (map_of (metadata m) ''query_id'') (map_of (metadata m) ''queryId'')) as_str"

definition object_value :: "json option \<Rightarrow> jmap" where
  "object_value v = (case Option.bind v as_object of None \<Rightarrow> [] | Some m \<Rightarrow> m)"

function bus_payload_from_hive_payload :: "jmap \<Rightarrow> (string \<times> jmap \<times> jmap) option" where
  "bus_payload_from_hive_payload p =
     (case get_str p ''type'' of
        Some t \<Rightarrow> Some (t, object_value (map_of p ''data''), object_value (map_of p ''context''))
      | None \<Rightarrow> (case map_of p ''payload'' of
                   Some (JObject q) \<Rightarrow> bus_payload_from_hive_payload q
                 | _ \<Rightarrow> None))"
  by pat_completeness auto
termination
  by (relation "measure (\<lambda>p. size (JObject p))") (auto dest: map_of_json_size)

declare bus_payload_from_hive_payload.simps [simp del]

definition res_ok :: "'a res \<Rightarrow> 'a option" where
  "res_ok r = (case r of Inr v \<Rightarrow> Some v | Inl _ \<Rightarrow> None)"

definition event_from_query_hive_message :: "(hive_message \<Rightarrow> json res) \<Rightarrow> hive_message \<Rightarrow> event option" where
  "event_from_query_hive_message to_value m =
     map_option (\<lambda>(t, d, c). \<lparr>e_name = t, e_data = d, e_context = c, e_raw = res_ok (to_value m)\<rparr>)
       (bus_payload_from_hive_payload (payload m))"

text \<open>What the hive subscription answers, or the words of its error.\<close>

datatype hive_received = Got_Hive hive_message | Hive_Lost string

record query_collected =
  q_events :: "event list"
  q_budget :: reply_media_budget
  q_fragments :: "string list"
  q_hard :: "event option"
  q_soft :: "event option"

definition no_answer :: query_collected where
  "no_answer = \<lparr>q_events = [], q_budget = \<lparr>b_chars = 0, b_dropped = 0\<rparr>, q_fragments = [], q_hard = None, q_soft = None\<rparr>"

definition QUERY_COMPLETE :: string where "QUERY_COMPLETE = ''hive.query.complete''"
definition QUERY_TIMED_OUT :: thalovant_error where "QUERY_TIMED_OUT = Timeout ''query timed out''"

definition take_answer :: "event \<Rightarrow> query_collected \<Rightarrow> query_collected" where
  "take_answer e st =
     (let st = (if e_name e \<in> {EVENT_SPEAK, EVENT_OVOS_UTTERANCE_SPEAK}
                then st\<lparr>q_fragments := push_fragment (q_fragments st) (event_text e)\<rparr>
                else if e_name e \<in> {EVENT_INTENT_FAILURE, EVENT_INTENT_UNMATCHED} then st\<lparr>q_soft := Some e\<rparr>
                else if e_name e \<in> {EVENT_POLICY_DENIED, EVENT_QUERY_TIMEOUT} then st\<lparr>q_hard := Some e\<rparr>
                else st)
      in st\<lparr>q_events := q_events st @ [e]\<rparr>)"

fun collect_query_loop ::
    "(hive_message \<Rightarrow> json res) \<Rightarrow> nat \<Rightarrow> string \<Rightarrow> query_collected \<Rightarrow> (nat \<times> hive_received) list
       \<Rightarrow> query_collected res" where
  "collect_query_loop to_value deadline qid st [] = Inl QUERY_TIMED_OUT"
| "collect_query_loop to_value deadline qid st ((t, r) # rest) =
     (if t > deadline then Inl QUERY_TIMED_OUT
      else case r of
        Hive_Lost words \<Rightarrow> Inl (Runtime words)
      | Got_Hive m \<Rightarrow>
          if query_id_from_hive_message m \<noteq> Some qid then collect_query_loop to_value deadline qid st rest
          else case event_from_query_hive_message to_value m of
            None \<Rightarrow> collect_query_loop to_value deadline qid st rest
          | Some e \<Rightarrow> (case accept (q_budget st) e of (fits, budget) \<Rightarrow>
              let st = st\<lparr>q_budget := budget\<rparr>
              in if \<not> fits then collect_query_loop to_value deadline qid st rest
                 else if e_name e = QUERY_COMPLETE then Inr (st\<lparr>q_events := q_events st @ [e]\<rparr>)
                 else let st = take_answer e st
                      in if q_hard st \<noteq> None then Inr st else collect_query_loop to_value deadline qid st rest))"

definition query_reply :: "string \<Rightarrow> string \<Rightarrow> query_collected \<Rightarrow> reply res" where
  "query_reply sid rid st =
     (let failure = or_else (q_hard st) (if q_fragments st = [] then q_soft st else None)
      in if q_fragments st = [] then
           Inl (case failure of
                  Some e \<Rightarrow> Runtime (e_name e)
                | None \<Rightarrow> Timeout ''hub finished the query without a speak reply'')
         else
           Inr \<lparr>r_dropped_media = b_dropped (q_budget st), r_text = join '' '' (q_fragments st),
                r_utterances = q_fragments st, r_handled = failure = None, r_ok = failure = None,
                r_session_id = or_else (first_session_id (q_events st)) (Some sid),
                r_request_id = Some rid, r_events = q_events st, r_failure_event = failure\<rparr>)"

definition collect_query_reply ::
    "(hive_message \<Rightarrow> json res) \<Rightarrow> nat \<Rightarrow> string \<Rightarrow> string \<Rightarrow> string \<Rightarrow> (nat \<times> hive_received) list \<Rightarrow> reply res" where
  "collect_query_reply to_value deadline qid sid rid arrivals =
     res_bind (collect_query_loop to_value deadline qid no_answer arrivals) (query_reply sid rid)"

section \<open>A query\<close>

record query_options =
  query_request :: request_options
  query_query_id :: "string option"

record query_host =
  qh_now :: nat
  qh_new_request_id :: string
  qh_new_session_id :: string
  qh_connected :: "(nat \<times> unit res) option"
  qh_written :: "(nat \<times> unit res) option"
  qh_arrivals :: "(nat \<times> hive_received) list"

definition query_message ::
    "(hive_message \<Rightarrow> json res) \<Rightarrow> string \<Rightarrow> string \<Rightarrow> jmap \<Rightarrow> string \<Rightarrow> hive_message res" where
  "query_message to_value prompt lang ctx qid =
     res_bind
       (to_value (plain_message ''bus''
          [(''context'', JObject ctx), (''data'', JObject (utterance_payload prompt lang)),
           (''type'', JString EVENT_RECOGNIZER_LOOP_UTTERANCE)] None []))
       (\<lambda>inner. Inr (plain_message ''query'' (object_value (Some inner)) None [(''query_id'', JString qid)]))"

text \<open>
  The outer timeout runs from the call and the inner one from the collection, so the outer one decides.
  The query holds its reservation from the start to its end, however it ends.
\<close>

definition query ::
    "(hive_message \<Rightarrow> json res) \<Rightarrow> string \<Rightarrow> query_host \<Rightarrow> string \<Rightarrow> query_options \<Rightarrow> flights
       \<Rightarrow> reply res \<times> hive_message option \<times> flights" where
  "query to_value site h text opts f =
     (let r = query_request opts;
          prompt = trim text;
          deadline = qh_now h + unwrap_or (o_timeout r) (from_secs 12);
          lang = unwrap_or (o_lang r) ''en-us'';
          rid = unwrap_or (o_request_id r) (qh_new_request_id h);
          qid = unwrap_or (query_query_id opts) rid;
          sid = unwrap_or (o_session_id r) (qh_new_session_id h);
          ctx = context_with_correlation (o_context r) (Some sid) (Some site) (Some lang) (Some rid)
      in if prompt = [] then (Inl (Runtime ''query requires non-empty text''), None, f)
         else case reserve_reply True qid f of
           (Inl e, f) \<Rightarrow> (Inl e, None, f)
         | (Inr _, f) \<Rightarrow>
             let f' = release_reply True qid f
             in case qh_connected h of
                  None \<Rightarrow> (Inl QUERY_TIMED_OUT, None, f')
                | Some (t, connected) \<Rightarrow>
                    if t > deadline then (Inl QUERY_TIMED_OUT, None, f')
                    else case connected of
                      Inl e \<Rightarrow> (Inl e, None, f')
                    | Inr _ \<Rightarrow>
                        (case query_message to_value prompt lang ctx qid of
                           Inl e \<Rightarrow> (Inl e, None, f')
                         | Inr message \<Rightarrow>
                             let collected = collect_query_reply to_value deadline qid sid rid (qh_arrivals h)
                             in (case qh_written h of
                                   Some (t, Inl e) \<Rightarrow>
                                     if t \<le> deadline
                                        \<and> collect_query_loop to_value t qid no_answer (qh_arrivals h) = Inl QUERY_TIMED_OUT
                                     then Inl e else collected
                                 | _ \<Rightarrow> collected, Some message, f')))"

section \<open>What the operations promise\<close>

lemma last_dropWhile: "xs \<noteq> [] \<Longrightarrow> \<not> P (last xs) \<Longrightarrow> dropWhile P xs \<noteq> [] \<and> last (dropWhile P xs) = last xs"
  by (induction xs) (auto split: if_splits)

lemma prune_keeps_last:
  assumes "sends \<noteq> []" and "saturating_sub now (last sends) \<le> UNTRACKED_UTTERANCE_GRACE"
  shows "prune_untracked_sends now sends \<noteq> [] \<and> last (prune_untracked_sends now sends) = last sends"
proof -
  let ?old = "\<lambda>sent. saturating_sub now sent > UNTRACKED_UTTERANCE_GRACE"
  have "dropWhile ?old sends \<noteq> []" "last (dropWhile ?old sends) = last sends"
    using last_dropWhile [of sends ?old] assms by (simp_all add: not_less)
  moreover have "drop (length xs - 1024) xs \<noteq> [] \<and> last (drop (length xs - 1024) xs) = last xs" if "xs \<noteq> []" for xs :: "duration list"
    using that by (cases xs) (auto simp: last_drop)
  ultimately show ?thesis unfolding prune_untracked_sends_def Let_def by metis
qed

text \<open>Something sent at \<open>t\<close> or later is the last thing sent.\<close>

definition sent_since :: "duration \<Rightarrow> flights \<Rightarrow> bool" where
  "sent_since t f \<longleftrightarrow> untracked_sends f \<noteq> [] \<and> t \<le> last (untracked_sends f)"

lemma sent_since_step:
  assumes "sent_since t f" and "t \<le> snd a" and "snd a \<le> t + UNTRACKED_UTTERANCE_GRACE"
  shows "sent_since t (flight_step a f)"
proof -
  have "saturating_sub (snd a) x \<le> UNTRACKED_UTTERANCE_GRACE" if "t \<le> x" for x
    using that assms(3) by (simp add: saturating_sub_def)
  then show ?thesis
    using assms(1,2) prune_keeps_last [of "untracked_sends f @ [snd a]" "snd a"]
      prune_keeps_last [of "untracked_sends f" "snd a"]
    by (auto simp: sent_since_def flight_step_def reserve_reply_def release_reply_def record_untracked_send_def
        utterances_in_flight_def Let_def split: flight_op.split)
qed

lemma sent_since_states:
  assumes "sent_since t f" and "\<forall>a \<in> set ops. t \<le> snd a \<and> snd a \<le> t + UNTRACKED_UTTERANCE_GRACE"
  shows "\<forall>f' \<in> set (flight_states ops f). sent_since t f'"
  using assms
proof (induction ops arbitrary: f)
  case (Cons a ops)
  have "sent_since t (flight_step a f)" using Cons.prems by (intro sent_since_step) auto
  then have "\<forall>f' \<in> set (flight_states ops (flight_step a f)). sent_since t f'" using Cons by (intro Cons.IH) auto
  then show ?case using Cons.prems(1) by simp
qed simp

lemma flight_states_last: "last (flight_states ops f) \<in> set (flight_states ops f)"
  by (cases ops) simp_all

lemma emit_sent_since:
  assumes "emit meta h EVENT_RECOGNIZER_LOOP_UTTERANCE data ctx f = (r, Some p, fs)"
    and "\<forall>a \<in> set (m_meanwhile h). m_now h \<le> snd a \<and> snd a \<le> m_now h + UNTRACKED_UTTERANCE_GRACE"
  shows "\<forall>f' \<in> set fs. sent_since (m_now h) f' \<and> last fs \<in> set fs"
proof -
  have "sent_since (m_now h) (record_untracked_send (m_now h) f)"
    using prune_keeps_last [of "untracked_sends f @ [m_now h]" "m_now h"]
    by (auto simp: sent_since_def record_untracked_send_def saturating_sub_def)
  from sent_since_states [OF this assms(2)] show ?thesis
    using assms(1) flight_states_last by (auto simp: emit_def split: sum.splits)
qed

text \<open>
  C30: an utterance that nothing waits on guards the asks beside it. It is recorded before it is handed to the
  transport, and for ten seconds from then, during the publish, however long that takes and however it ends,
  as well as after it, whatever else the client starts, ends or sends, a refusal that carries no request id
  ends no ask, since it may be about the utterance. What is left of the ten seconds when a slow publish ends is
  all the time a refusal has after it.
\<close>

theorem fired_utterance_guards_asks:
  assumes "send_utterance me fresh h text opts f = (r, Some p, fs)"
    and "\<forall>a \<in> set (m_meanwhile h) \<union> set ops. m_now h \<le> snd a \<and> snd a \<le> m_now h + UNTRACKED_UTTERANCE_GRACE"
    and "f' \<in> set fs \<union> set (flight_states ops (last fs))"
    and "m_now h \<le> now" and "now \<le> m_now h + UNTRACKED_UTTERANCE_GRACE"
    and "fst (utterances_in_flight now f') = (asks, queries, sends)"
  shows "\<not> refusal_belongs_to_ask None own_request_id dtype asks queries sends"
proof -
  have during: "\<forall>f' \<in> set fs. sent_since (m_now h) f' \<and> last fs \<in> set fs"
    using assms(1,2) by (auto simp: send_utterance_def Let_def dest!: emit_sent_since split: if_splits)
  moreover have "fs \<noteq> []" using assms(1)
    by (cases "m_meanwhile h") (auto simp: send_utterance_def emit_def Let_def split: if_splits sum.splits)
  ultimately have "sent_since (m_now h) (last fs)" by fastforce
  from sent_since_states [OF this] during have "sent_since (m_now h) f'" using assms(2,3) by auto
  then have "sent_since (m_now h) (flight_step (Look, now) f')"
    using assms(4,5) by (intro sent_since_step) auto
  then have "sends \<noteq> 0"
    using assms(6) by (auto simp: sent_since_def flight_step_def utterances_in_flight_def Let_def)
  then show ?thesis by (simp add: refusal_belongs_to_ask_def given_def)
qed

text \<open>A publish that takes nine seconds and breaks, with an ask that begins during it.\<close>

definition sample_emit_host :: emit_host where
  "sample_emit_host =
     \<lparr>m_connected = Inr (), m_now = 0, m_meanwhile = [(Reserve False ''a'', from_secs 9)],
      m_published = Inl (Connection ''cut'')\<rparr>"

theorem fired_utterance_guards_asks_witness:
  "\<exists>p. send_utterance (''home'', []) ''r'' sample_emit_host ''lights'' default_request
        \<lparr>active_replies = {}, untracked_sends = []\<rparr>
      = (Inl (Connection ''cut''), Some p,
         [\<lparr>active_replies = {}, untracked_sends = [0]\<rparr>, \<lparr>active_replies = {(False, ''a'')}, untracked_sends = [0]\<rparr>])
    \<and> \<not> refusal_belongs_to_ask None ''a'' (Some EVENT_RECOGNIZER_LOOP_UTTERANCE) 1 0 1"
proof -
  let ?f = "\<lparr>active_replies = {}, untracked_sends = []\<rparr>"
  let ?seen = "\<lparr>active_replies = {(False, ''a'')}, untracked_sends = [0]\<rparr>"
  obtain p where p: "send_utterance (''home'', []) ''r'' sample_emit_host ''lights'' default_request ?f
      = (Inl (Connection ''cut''), Some p, [\<lparr>active_replies = {}, untracked_sends = [0]\<rparr>, ?seen])"
    by (simp add: send_utterance_def Let_def sample_emit_host_def emit_def trim_plain plain_char_def flight_step_def
        reserve_reply_def record_untracked_send_def prune_untracked_sends_def saturating_sub_def
        UNTRACKED_UTTERANCE_GRACE_def)
  have "\<not> refusal_belongs_to_ask None ''a'' (Some EVENT_RECOGNIZER_LOOP_UTTERANCE) 1 0 1"
  proof (rule fired_utterance_guards_asks [OF p, of "[]" ?seen "from_secs 9"])
    have none: "{a. a = (False, ''a'') \<and> fst a} = {}" by auto
    show "fst (utterances_in_flight (from_secs 9) ?seen) = (1, 0, 1)"
      by (simp add: utterances_in_flight_def Let_def prune_untracked_sends_def saturating_sub_def
          UNTRACKED_UTTERANCE_GRACE_def from_secs_def none)
  qed (simp_all add: sample_emit_host_def UNTRACKED_UTTERANCE_GRACE_def from_secs_def)
  then show ?thesis using p by blast
qed

section \<open>What a query answers\<close>

definition own_answer :: "(hive_message \<Rightarrow> json res) \<Rightarrow> string \<Rightarrow> nat \<times> hive_received \<Rightarrow> event option" where
  "own_answer to_value qid a =
     (case snd a of
        Got_Hive m \<Rightarrow> if query_id_from_hive_message m = Some qid then event_from_query_hive_message to_value m else None
      | Hive_Lost _ \<Rightarrow> None)"

definition own_answers :: "(hive_message \<Rightarrow> json res) \<Rightarrow> string \<Rightarrow> (nat \<times> hive_received) list \<Rightarrow> event list" where
  "own_answers to_value qid as = List.map_filter (own_answer to_value qid) as"

definition of_answers :: "query_collected \<Rightarrow> bool" where
  "of_answers st \<longleftrightarrow>
     q_fragments st = said_by (q_events st) \<and> q_soft st = last_such misses (q_events st)
     \<and> q_hard st = last_such refuses (q_events st)"

lemma take_answer_fields [simp]:
  "q_events (take_answer e st) = q_events st @ [e]"
  "q_budget (take_answer e st) = q_budget st"
  "q_hard (take_answer e st) = (if refuses e then Some e else q_hard st)"
proof -
  have "(speaks e \<longrightarrow> \<not> misses e \<and> \<not> refuses e) \<and> (misses e \<longrightarrow> \<not> refuses e)" using kinds_apart by blast
  then show "q_events (take_answer e st) = q_events st @ [e]" "q_budget (take_answer e st) = q_budget st"
    "q_hard (take_answer e st) = (if refuses e then Some e else q_hard st)"
    unfolding take_answer_def speaks_def [symmetric] misses_def [symmetric] refuses_def [symmetric]
    by (cases "speaks e"; cases "misses e"; cases "refuses e"; simp add: Let_def)+
qed

lemma of_answers_take:
  assumes "of_answers st"
  shows "of_answers (take_answer e st)"
proof -
  have "(speaks e \<longrightarrow> \<not> misses e \<and> \<not> refuses e) \<and> (misses e \<longrightarrow> \<not> refuses e)" using kinds_apart by blast
  then show ?thesis
    using assms
    unfolding take_answer_def speaks_def [symmetric] misses_def [symmetric] refuses_def [symmetric]
    by (cases "speaks e"; cases "misses e"; cases "refuses e") (simp_all add: Let_def of_answers_def said_by_def)
qed

lemma of_answers_complete:
  assumes "of_answers st" and "e_name e = QUERY_COMPLETE"
  shows "of_answers (st\<lparr>q_events := q_events st @ [e]\<rparr>)"
proof -
  have "\<not> speaks e" "\<not> misses e" "\<not> refuses e"
    using assms(2) by (simp_all add: event_kinds event_names QUERY_COMPLETE_def)
  then show ?thesis using assms(1) by (simp add: of_answers_def said_by_def)
qed

lemma of_answers_budget [simp]: "of_answers (st\<lparr>q_budget := b\<rparr>) = of_answers st"
  by (simp add: of_answers_def)

lemma own_answers_Cons:
  "own_answers to_value qid (a # as) =
     (case own_answer to_value qid a of None \<Rightarrow> [] | Some e \<Rightarrow> [e]) @ own_answers to_value qid as"
  by (simp add: own_answers_def map_filter_def split: option.split)

text \<open>The end of a query, as the events collected show it.\<close>

definition query_ended :: "event list \<Rightarrow> bool" where
  "query_ended es \<longleftrightarrow> es \<noteq> [] \<and> (e_name (last es) = QUERY_COMPLETE \<or> refuses (last es))"

lemma collect_query_content:
  assumes "collect_query_loop tv deadline qid st as = Inr st'" and "of_answers st" and "q_hard st = None"
  shows "\<exists>n es. accept_all (q_budget st) (own_answers tv qid (take n as)) = (es, q_budget st')
    \<and> q_events st' = q_events st @ es \<and> query_ended es \<and> of_answers st'
    \<and> (\<forall>a \<in> set (take n as). fst a \<le> deadline)"
  using assms
proof (induction tv deadline qid st as rule: collect_query_loop.induct)
  case (2 tv deadline qid st t r rest)
  have now: "t \<le> deadline" using "2.prems"(1) by (auto split: if_splits)
  obtain m where m: "r = Got_Hive m" using "2.prems"(1) now by (cases r) auto
  show ?case
  proof (cases "own_answer tv qid (t, r)")
    case None
    then have run: "collect_query_loop tv deadline qid st rest = Inr st'"
      using "2.prems"(1) now m by (auto simp: own_answer_def split: if_splits option.splits)
    have "\<exists>n es. accept_all (q_budget st) (own_answers tv qid (take n rest)) = (es, q_budget st')
      \<and> q_events st' = q_events st @ es \<and> query_ended es \<and> of_answers st'
      \<and> (\<forall>a \<in> set (take n rest). fst a \<le> deadline)"
    proof (cases "query_id_from_hive_message m = Some qid")
      case True
      then have "event_from_query_hive_message tv m = None" using None m by (simp add: own_answer_def)
      then show ?thesis using "2.IH"(2) [OF _ m _ _ run "2.prems"(2,3)] now True by simp
    next
      case False
      then show ?thesis using "2.IH"(1) [OF _ m False run "2.prems"(2,3)] now by simp
    qed
    then obtain n es where "accept_all (q_budget st) (own_answers tv qid (take n rest)) = (es, q_budget st')"
      "q_events st' = q_events st @ es" "query_ended es" "of_answers st'"
      "\<forall>a \<in> set (take n rest). fst a \<le> deadline" by blast
    then show ?thesis
      using None now by (intro exI [of _ "Suc n"] exI [of _ es]) (auto simp: own_answers_Cons)
  next
    case (Some e)
    then have e: "query_id_from_hive_message m = Some qid" "event_from_query_hive_message tv m = Some e"
      using m by (auto simp: own_answer_def split: if_splits)
    obtain fits b where acc: "accept (q_budget st) e = (fits, b)" by fastforce
    let ?st = "st\<lparr>q_budget := b\<rparr>"
    consider (dropped) "\<not> fits" | (complete) "fits" "e_name e = QUERY_COMPLETE"
      | (refused) "fits" "e_name e \<noteq> QUERY_COMPLETE" "refuses e"
      | (on) "fits" "e_name e \<noteq> QUERY_COMPLETE" "\<not> refuses e" by blast
    then show ?thesis
    proof cases
      case dropped
      then have run: "collect_query_loop tv deadline qid ?st rest = Inr st'"
        using "2.prems"(1) now m e acc by simp
      then have "\<exists>n es. accept_all b (own_answers tv qid (take n rest)) = (es, q_budget st')
        \<and> q_events st' = q_events st @ es \<and> query_ended es \<and> of_answers st'
        \<and> (\<forall>a \<in> set (take n rest). fst a \<le> deadline)"
        using "2.IH"(3) [OF _ m _ e(2) acc [symmetric] refl dropped run] now e(1) "2.prems"(2,3) by simp
      then obtain n es where "accept_all b (own_answers tv qid (take n rest)) = (es, q_budget st')"
        "q_events st' = q_events st @ es" "query_ended es" "of_answers st'"
        "\<forall>a \<in> set (take n rest). fst a \<le> deadline" by blast
      then show ?thesis
        using Some now acc dropped by (intro exI [of _ "Suc n"] exI [of _ es]) (auto simp: own_answers_Cons)
    next
      case complete
      then have "st' = ?st\<lparr>q_events := q_events st @ [e]\<rparr>" using "2.prems"(1) now m e acc by simp
      then show ?thesis
        using of_answers_complete [of ?st e] "2.prems"(2) complete Some now acc
        by (intro exI [of _ 1] exI [of _ "[e]"]) (simp add: own_answers_Cons query_ended_def own_answers_def map_filter_def)
    next
      case refused
      then have "st' = take_answer e ?st" using "2.prems"(1) now m e acc by (simp add: Let_def)
      then show ?thesis
        using of_answers_take [of ?st e] "2.prems"(2) refused Some now acc
        by (intro exI [of _ 1] exI [of _ "[e]"]) (simp add: own_answers_Cons query_ended_def own_answers_def map_filter_def)
    next
      case on
      then have run: "collect_query_loop tv deadline qid (take_answer e ?st) rest = Inr st'"
        using "2.prems"(1,3) now m e acc by (simp add: Let_def)
      have "\<exists>n es. accept_all b (own_answers tv qid (take n rest)) = (es, q_budget st')
        \<and> q_events st' = (q_events st @ [e]) @ es \<and> query_ended es \<and> of_answers st'
        \<and> (\<forall>a \<in> set (take n rest). fst a \<le> deadline)"
        using "2.IH"(4) [OF _ m _ e(2) acc [symmetric] refl _ on(2) refl _ run] now e(1) on(1,3) "2.prems"(2,3) of_answers_take [of ?st e]
        by simp
      then obtain n es where "accept_all b (own_answers tv qid (take n rest)) = (es, q_budget st')"
        "q_events st' = q_events st @ e # es" "query_ended es" "of_answers st'"
        "\<forall>a \<in> set (take n rest). fst a \<le> deadline" by auto
      then show ?thesis
        using Some now acc on by (intro exI [of _ "Suc n"] exI [of _ "e # es"]) (auto simp: own_answers_Cons query_ended_def)
    qed
  qed
qed simp

lemma collect_query_lost:
  "collect_query_loop tv deadline qid st as = Inl err \<Longrightarrow>
     err = QUERY_TIMED_OUT \<or> (\<exists>t words. (t, Hive_Lost words) \<in> set as \<and> err = Runtime words)"
proof (induction tv deadline qid st as rule: collect_query_loop.induct)
  case (2 tv deadline qid st t r rest)
  show ?case
  proof (cases "t > deadline")
    case False
    show ?thesis
    proof (cases r)
      case (Got_Hive m)
      have "\<exists>st'. collect_query_loop tv deadline qid st' rest = Inl err
          \<and> (collect_query_loop tv deadline qid st' rest = Inl err \<longrightarrow>
              err = QUERY_TIMED_OUT \<or> (\<exists>t words. (t, Hive_Lost words) \<in> set rest \<and> err = Runtime words))"
      proof (cases "query_id_from_hive_message m = Some qid")
        case False
        then show ?thesis using "2.IH"(1) [OF _ Got_Hive False] "2.prems" \<open>\<not> t > deadline\<close> Got_Hive by auto
      next
        case True
        show ?thesis
        proof (cases "event_from_query_hive_message tv m")
          case None
          then show ?thesis using "2.IH"(2) [OF _ Got_Hive _ None] "2.prems" False Got_Hive True by auto
        next
          case (Some e)
          obtain fits b where acc: "accept (q_budget st) e = (fits, b)" by fastforce
          show ?thesis
          proof (cases fits)
            case no: False
            then show ?thesis
              using "2.IH"(3) [OF _ Got_Hive _ Some acc [symmetric] refl] "2.prems" False Got_Hive True Some acc by auto
          next
            case yes: True
            then have "e_name e \<noteq> QUERY_COMPLETE"
              using "2.prems" False Got_Hive True Some acc by auto
            then show ?thesis
              using "2.IH"(4) [OF _ Got_Hive _ Some acc [symmetric] refl _ _ refl] "2.prems" False Got_Hive True Some acc yes
              by (auto simp: Let_def split: if_splits simp del: take_answer_fields)
          qed
        qed
      qed
      then show ?thesis by auto
    qed (use "2.prems" False in auto)
  qed (use "2.prems" in simp)
qed simp

text \<open>
  A query is answered by the messages under its query id and by no others, in order, up to the one
  that completes or refuses it, all of them within its time. If they said anything the reply is that, and
  it is ok unless they refused; if they said nothing, the error names the refusal, or the miss, or says
  so; and a query that is not completed in time, or that loses its subscription, fails as that.
\<close>

theorem query_reply_is_its_own:
  "case collect_query_reply tv deadline qid sid rid arrivals of
     Inr rep \<Rightarrow>
       (\<exists>n. let es = fst (accept_all \<lparr>b_chars = 0, b_dropped = 0\<rparr> (own_answers tv qid (take n arrivals)))
         in r_events rep = es \<and> query_ended es \<and> (\<forall>a \<in> set (take n arrivals). fst a \<le> deadline)
            \<and> r_utterances rep = said_by es \<and> said_by es \<noteq> [] \<and> r_text rep = join '' '' (said_by es)
            \<and> r_ok rep = (last_such refuses es = None))
   | Inl err \<Rightarrow>
       err = QUERY_TIMED_OUT
       \<or> (\<exists>t words. (t, Hive_Lost words) \<in> set arrivals \<and> err = Runtime words)
       \<or> (\<exists>n. let es = fst (accept_all \<lparr>b_chars = 0, b_dropped = 0\<rparr> (own_answers tv qid (take n arrivals)))
           in query_ended es \<and> (\<forall>a \<in> set (take n arrivals). fst a \<le> deadline) \<and> said_by es = []
              \<and> err = (case or_else (last_such refuses es) (last_such misses es) of
                         Some e \<Rightarrow> Runtime (e_name e)
                       | None \<Rightarrow> Timeout ''hub finished the query without a speak reply''))"
proof (cases "collect_query_loop tv deadline qid no_answer arrivals")
  case (Inl err)
  then show ?thesis using collect_query_lost [OF Inl] by (auto simp: collect_query_reply_def)
next
  case (Inr st)
  have "of_answers no_answer" "q_hard no_answer = None" by (simp_all add: of_answers_def no_answer_def said_by_def)
  then obtain n es where es: "accept_all (q_budget no_answer) (own_answers tv qid (take n arrivals)) = (es, q_budget st)"
    "q_events st = q_events no_answer @ es" "query_ended es" "of_answers st"
    "\<forall>a \<in> set (take n arrivals). fst a \<le> deadline"
    using collect_query_content [OF Inr] by blast
  then have c: "q_events st = es" "q_fragments st = said_by es" "q_soft st = last_such misses es"
    "q_hard st = last_such refuses es"
    by (simp_all add: no_answer_def of_answers_def)
  have all: "fst (accept_all \<lparr>b_chars = 0, b_dropped = 0\<rparr> (own_answers tv qid (take n arrivals))) = es"
    using es(1) by (simp add: no_answer_def)
  show ?thesis
  proof (cases "said_by es = []")
    case True
    then have eq: "collect_query_reply tv deadline qid sid rid arrivals =
        Inl (case or_else (last_such refuses es) (last_such misses es) of
               Some e \<Rightarrow> Runtime (e_name e)
             | None \<Rightarrow> Timeout ''hub finished the query without a speak reply'')"
      using Inr c by (simp add: collect_query_reply_def query_reply_def Let_def)
    show ?thesis
      unfolding eq sum.case by (intro disjI2 exI [of _ n]) (use True all es(3,5) in \<open>simp add: Let_def\<close>)
  next
    case False
    then obtain rep where eq: "collect_query_reply tv deadline qid sid rid arrivals = Inr rep"
        "r_events rep = es" "r_utterances rep = said_by es" "r_text rep = join '' '' (said_by es)"
        "r_ok rep = (last_such refuses es = None)"
      using Inr c by (simp add: collect_query_reply_def query_reply_def Let_def)
    show ?thesis
      unfolding eq(1) sum.case by (intro exI [of _ n]) (use False eq all es(3,5) in \<open>simp add: Let_def\<close>)
  qed
qed

end
