(* ===== verification/Home.thy ===== *)
theory Home
  imports Query
begin

text \<open>
  \<open>src/src/home.rs\<close>: a hub asks a home, and the home answers once, in the contract and in time. With it
  the removal of markup from \<open>src/src/rich.rs\<close>. The two regular expressions are written out as the
  scanners they are: after a name, or at a quote, a bracket or a digit, there is only one way on, so what
  a leftmost match takes needs no search. They work on UTF-8 bytes; every character they name is ASCII,
  and white space is recognised by its bytes.
\<close>

section \<open>Markup\<close>

definition ascii_alpha :: "char \<Rightarrow> bool" where
  "ascii_alpha c = (let n = of_char c :: nat in (65 \<le> n \<and> n \<le> 90) \<or> (97 \<le> n \<and> n \<le> 122))"

definition tag_name_char :: "char \<Rightarrow> bool" where
  "tag_name_char c \<longleftrightarrow> ascii_alpha c \<or> dec_digit c \<or> c \<in> set ''._:-''"

definition markup_spaces :: "string list" where
  "markup_spaces = white_spaces @ [[CHR 0x1C], [CHR 0x1D], [CHR 0x1E], [CHR 0x1F]]"

text \<open>What is left after the first occurrence of a text.\<close>

fun after_first :: "string \<Rightarrow> string \<Rightarrow> string option" where
  "after_first p [] = strip_prefix p []"
| "after_first p (c # s) =
     (case strip_prefix p (c # s) of
        Some rest \<Rightarrow> Some rest
      | None \<Rightarrow> after_first p s)"

lemma strip_prefix_length: "strip_prefix p s = Some r \<Longrightarrow> length s = length p + length r"
  by (simp add: strip_prefix_eq_Some)

lemma after_first_length: "after_first p s = Some r \<Longrightarrow> length r \<le> length s"
proof (induction s)
  case (Cons c s)
  then show ?case using strip_prefix_length [of p "c # s"] by (cases "strip_prefix p (c # s)") auto
qed (auto dest: strip_prefix_length)

text \<open>The attributes of a tag up to the \<open>>\<close> that ends it; quoted values may hold one.\<close>

function tag_end :: "string \<Rightarrow> string option" where
  "tag_end [] = None"
| "tag_end (c # s) =
     (if c = CHR ''>'' then Some s
      else if c = CHR ''<'' then None
      else if c = CHR 0x22 \<or> c = CHR 0x27 then
        (case after_first [c] s of None \<Rightarrow> None | Some s' \<Rightarrow> tag_end s')
      else tag_end s)"
  by pat_completeness auto
termination
  by (relation "measure length") (auto dest: after_first_length)

definition tag_at :: "string \<Rightarrow> string option" where
  "tag_at s =
     (case s of
        [] \<Rightarrow> None
      | c # _ \<Rightarrow>
          if \<not> ascii_alpha c then None
          else let r = dropWhile tag_name_char s
               in case find (starts_with r) markup_spaces of
                    Some w \<Rightarrow> tag_end (drop (length w) r)
                  | None \<Rightarrow> (case strip_prefix ''>'' r of
                               Some rest \<Rightarrow> Some rest
                             | None \<Rightarrow> strip_prefix ''/>'' r))"

text \<open>A comment, a processing instruction or a tag at the beginning of a text: what is left after it.\<close>

definition markup_at :: "string \<Rightarrow> string option" where
  "markup_at s =
     (case strip_prefix ''<!--'' s of
        Some r \<Rightarrow> after_first ''-->'' r
      | None \<Rightarrow>
          (case strip_prefix ''<?'' s of
             Some r \<Rightarrow> after_first ''?>'' r
           | None \<Rightarrow>
               (case strip_prefix ''</'' s of
                  Some r \<Rightarrow> tag_at r
                | None \<Rightarrow> Option.bind (strip_prefix ''<'' s) tag_at)))"

lemma tag_end_length: "tag_end s = Some r \<Longrightarrow> length r < length s"
proof (induction s rule: tag_end.induct)
  case (2 c s)
  consider "c = CHR ''>''" | "c = CHR ''<''" | "c = CHR 0x22 \<or> c = CHR 0x27"
    | "c \<noteq> CHR ''>''" "c \<noteq> CHR ''<''" "\<not> (c = CHR 0x22 \<or> c = CHR 0x27)" by blast
  then show ?case
  proof cases
    case 3
    then obtain s' where s': "after_first [c] s = Some s'" "tag_end s' = Some r"
      using 2(3) by (auto split: option.splits)
    then have "length r < length s'" using 2(1) [OF _ _ 3 s'(1)] 3 by auto
    then show ?thesis using after_first_length [OF s'(1)] by simp
  next
    case 4
    then have "tag_end s = Some r" using 2(3) by simp
    then show ?thesis using 2(2) 4 by fastforce
  qed (use 2(3) in auto)
qed simp

lemma tag_at_length: "tag_at s = Some r \<Longrightarrow> length r < length s"
proof -
  assume t: "tag_at s = Some r"
  let ?r = "dropWhile tag_name_char s"
  have "length ?r \<le> length s" by (rule length_dropWhile_le)
  moreover have "length r < length ?r"
    using t tag_end_length [of "drop _ ?r" r]
    by (fastforce simp: tag_at_def Let_def strip_prefix_eq_Some split: list.splits if_splits option.splits)
  ultimately show ?thesis by simp
qed

lemma markup_at_length: "markup_at s = Some r \<Longrightarrow> length r < length s"
  by (auto simp: markup_at_def strip_prefix_eq_Some Option.bind_eq_Some_conv split: option.splits
      dest!: after_first_length tag_at_length)

function strip_ssml :: "string \<Rightarrow> string" where
  "strip_ssml [] = []"
| "strip_ssml (c # s) =
     (case markup_at (c # s) of
        Some rest \<Rightarrow> strip_ssml rest
      | None \<Rightarrow> c # strip_ssml s)"
  by pat_completeness auto
termination
  by (relation "measure length") (auto dest: markup_at_length)

section \<open>Character references\<close>

text \<open>The UTF-8 bytes of a scalar value.\<close>

definition utf8_of :: "nat \<Rightarrow> string" where
  "utf8_of n =
     (let tail = (\<lambda>k. char_of (0x80 + (n div 64 ^ k) mod 64))
      in if n < 0x80 then [char_of n]
         else if n < 0x800 then [char_of (0xC0 + n div 64), tail 0]
         else if n < 0x10000 then [char_of (0xE0 + n div 64 ^ 2), tail 1, tail 0]
         else [char_of (0xF0 + n div 64 ^ 3), tail 2, tail 1, tail 0])"

text \<open>\<open>char::from_u32\<close>, and zero refused as the code refuses it.\<close>

definition char_reference :: "nat \<Rightarrow> string option" where
  "char_reference n =
     (if n = 0 \<or> (0xD800 \<le> n \<and> n \<le> 0xDFFF) \<or> n > 0x10FFFF then None else Some (utf8_of n))"

definition hex_digit_val :: "char \<Rightarrow> nat" where
  "hex_digit_val c =
     (let n = of_char c :: nat in if n \<le> 57 then n - 48 else if n \<le> 70 then n - 55 else n - 87)"

definition hex_val :: "string \<Rightarrow> nat" where
  "hex_val s = foldl (\<lambda>v c. 16 * v + hex_digit_val c) 0 s"

definition named_references :: "(string \<times> string) list" where
  "named_references =
     [(''amp'', ''&''), (''lt'', ''<''), (''gt'', ''>''), (''quot'', [CHR 0x22]), (''apos'', [CHR 0x27]),
      (''nbsp'', [CHR 0xC2, CHR 0xA0])]"

text \<open>A numeric reference: between one and \<open>most\<close> digits and a semicolon; a number of no character stays as written.\<close>

definition numeric_reference ::
    "string \<Rightarrow> (char \<Rightarrow> bool) \<Rightarrow> nat \<Rightarrow> (string \<Rightarrow> nat) \<Rightarrow> string \<Rightarrow> (string \<times> string) option" where
  "numeric_reference mark is_digit most val s =
     (let digits = takeWhile is_digit s
      in if digits = [] \<or> length digits > most then None
         else case dropWhile is_digit s of
                [] \<Rightarrow> None
              | c # rest \<Rightarrow>
                  if c \<noteq> CHR '';'' then None
                  else Some (case char_reference (val digits) of Some t \<Rightarrow> t | None \<Rightarrow> ''&#'' @ mark @ digits @ '';'', rest))"

definition reference_at :: "string \<Rightarrow> (string \<times> string) option" where
  "reference_at s =
     (case s of
        CHR ''#'' # CHR ''x'' # r \<Rightarrow> numeric_reference ''x'' is_ascii_hexdigit 6 hex_val r
      | CHR ''#'' # CHR ''X'' # r \<Rightarrow> numeric_reference ''X'' is_ascii_hexdigit 6 hex_val r
      | CHR ''#'' # r \<Rightarrow> numeric_reference [] dec_digit 7 dec_val r
      | _ \<Rightarrow> (case find (\<lambda>p. starts_with s (fst p @ '';'')) named_references of
                Some p \<Rightarrow> Some (snd p, drop (length (fst p) + 1) s)
              | None \<Rightarrow> None))"

lemma numeric_reference_length: "numeric_reference m d k v s = Some (t, r) \<Longrightarrow> length r < length s"
proof -
  assume t: "numeric_reference m d k v s = Some (t, r)"
  have "length (dropWhile d s) \<le> length s" by (rule length_dropWhile_le)
  moreover have "length r < length (dropWhile d s)"
    using t by (auto simp: numeric_reference_def Let_def split: if_splits list.splits)
  ultimately show ?thesis by simp
qed

lemma reference_at_length:
  assumes "reference_at s = Some (t, r)"
  shows "length r \<le> length s"
proof -
  let ?named = "find (\<lambda>p. starts_with s (fst p @ '';'')) named_references"
  have named: "length r \<le> length s" if "(case ?named of Some p \<Rightarrow> Some (snd p, drop (length (fst p) + 1) s) | None \<Rightarrow> None) = Some (t, r)"
    using that by (auto split: option.splits)
  consider rest where "s = CHR ''#'' # CHR ''x'' # rest" | rest where "s = CHR ''#'' # CHR ''X'' # rest"
    | rest where "s = CHR ''#'' # rest" "\<not> (\<exists>q. rest = CHR ''x'' # q \<or> rest = CHR ''X'' # q)"
    | "\<not> (\<exists>rest. s = CHR ''#'' # rest)" by blast
  then show ?thesis
  proof cases
    case (3 rest)
    then have "reference_at s = numeric_reference [] dec_digit 7 dec_val rest"
      by (auto simp: reference_at_def split: list.splits char.splits bool.splits)
    then show ?thesis using numeric_reference_length [of "[]" dec_digit 7 dec_val rest t r] assms 3(1) by simp
  next
    case 4
    then have "reference_at s = (case ?named of Some p \<Rightarrow> Some (snd p, drop (length (fst p) + 1) s) | None \<Rightarrow> None)"
      by (auto simp: reference_at_def split: list.splits char.splits bool.splits)
    then show ?thesis using named assms by simp
  qed (use assms numeric_reference_length in \<open>fastforce simp: reference_at_def\<close>)+
qed

function decode_references :: "string \<Rightarrow> string" where
  "decode_references [] = []"
| "decode_references (c # s) =
     (if c = CHR ''&'' then
        (case reference_at s of
           Some (t, rest) \<Rightarrow> t @ decode_references rest
         | None \<Rightarrow> c # decode_references s)
      else c # decode_references s)"
  by pat_completeness auto
termination
  by (relation "measure length") (auto dest: reference_at_length simp: le_imp_less_Suc)

definition plain_speech :: "string \<Rightarrow> string" where
  "plain_speech text = plain_words (decode_references (strip_ssml text))"

section \<open>Requests and answers\<close>

definition HOME_REQUEST :: string where "HOME_REQUEST = ''thalovant.home.request''"
definition HOME_RESPONSE :: string where "HOME_RESPONSE = ''thalovant.home.response''"
definition HOME_REQUEST_TIMEOUT :: duration where "HOME_REQUEST_TIMEOUT = from_secs 10"
definition DEFAULT_HOME_HANDLER_TIMEOUT :: duration where "DEFAULT_HOME_HANDLER_TIMEOUT = from_secs 9"
definition RESPONSE_TYPES :: "string list" where "RESPONSE_TYPES = [''action_done'', ''query_answer'', ''error'']"
definition ERROR_CODES :: "string list" where
  "ERROR_CODES =
     [''no_intent_match'', ''no_valid_targets'', ''failed_to_handle'', ''unknown'', ''timeout'', ''agent_unavailable'']"

record home_request =
  hr_request_id :: string
  hr_utterance :: string
  hr_lang :: "string option"
  hr_conversation_id :: "string option"
  hr_event :: event

definition request_from_event :: "event \<Rightarrow> home_request" where
  "request_from_event e =
     (let field = (\<lambda>k. given (get_str (e_data e) k))
      in \<lparr>hr_request_id = unwrap_or (field ''request_id'') [], hr_utterance = unwrap_or (field ''utterance'') [],
          hr_lang = field ''lang'', hr_conversation_id = field ''conversation_id'', hr_event = e\<rparr>)"

record home_answer =
  ha_speech :: string
  ha_response_type :: string
  ha_error_code :: "string option"
  ha_continue :: bool
  ha_conversation_id :: "string option"

definition new_answer :: "string \<Rightarrow> string \<Rightarrow> home_answer" where
  "new_answer t speech =
     \<lparr>ha_speech = speech, ha_response_type = t, ha_error_code = None, ha_continue = False, ha_conversation_id = None\<rparr>"

definition action_done :: "string \<Rightarrow> home_answer" where "action_done speech = new_answer ''action_done'' speech"
definition query_answer :: "string \<Rightarrow> home_answer" where "query_answer speech = new_answer ''query_answer'' speech"
definition default_answer :: home_answer where "default_answer = new_answer ''action_done'' []"

definition error_answer :: "string \<Rightarrow> home_answer" where
  "error_answer code = (new_answer ''error'' [])\<lparr>ha_error_code := Some code\<rparr>"

definition home_response :: "home_request \<Rightarrow> home_answer \<Rightarrow> jmap" where
  "home_response r a =
     (let t = ha_response_type a;
          code = (if t = ''error'' then ha_error_code a else None);
          outside = t \<notin> set RESPONSE_TYPES \<or> t = ''error'' \<and> (case code of Some c \<Rightarrow> c \<notin> set ERROR_CODES | None \<Rightarrow> True);
          t = (if outside then ''error'' else t);
          code = (if outside then Some ''unknown'' else code);
          p = bt_insert ''continue_conversation'' (JBool (ha_continue a))
                (bt_insert ''response_type'' (JString t)
                   (bt_insert ''speech'' (JString (plain_speech (ha_speech a)))
                      (bt_insert ''request_id'' (JString (hr_request_id r)) [])));
          p = (case given code of Some c \<Rightarrow> bt_insert ''error_code'' (JString c) p | None \<Rightarrow> p)
      in case given (or_else (given (ha_conversation_id a)) (hr_conversation_id r)) of
           Some c \<Rightarrow> bt_insert ''conversation_id'' (JString c) p
         | None \<Rightarrow> p)"

section \<open>Answering in time\<close>

text \<open>How a handler ends on its task, and when; it may panic before it makes a task, and may never end.\<close>

datatype handler_end = Answers home_answer | Errs | Panics

datatype handler = Panics_At_Once | On_Task "(nat \<times> handler_end) option"

definition handle :: "handler \<Rightarrow> nat \<Rightarrow> nat \<Rightarrow> home_answer \<times> nat" where
  "handle handler now deadline =
     (case handler of
        Panics_At_Once \<Rightarrow> (error_answer ''failed_to_handle'', now)
      | On_Task None \<Rightarrow> (error_answer ''timeout'', max now deadline)
      | On_Task (Some (t, x)) \<Rightarrow>
          if t > deadline then (error_answer ''timeout'', max now deadline)
          else (case x of Answers a \<Rightarrow> a | _ \<Rightarrow> error_answer ''failed_to_handle'', max now t))"

definition far :: "nat \<Rightarrow> nat \<Rightarrow> duration \<Rightarrow> nat" where
  "far instant_max started span =
     (if started + span \<le> instant_max then started + span else started + from_secs (86400 * 365))"

text \<open>
  What becomes of a reply that is started: it fails or hangs without a write, or waits for the send path until an
  instant and then writes, until another instant, or for ever. The transport writes on a task of its own.
\<close>

datatype reply_run = Not_Written "(nat \<times> thalovant_error) option" | Writes nat "(nat \<times> unit res) option"

record home_write =
  hw_payload :: jmap
  hw_began :: nat
  hw_ended :: "(nat \<times> unit res) option"

text \<open>
  A reply started now and waited for until the bound. At the bound it is withdrawn: what has not got the send
  path by then is not written at all, and a write that has begun runs to its end all the same.
\<close>

definition reply_by ::
    "nat \<Rightarrow> nat \<Rightarrow> jmap \<Rightarrow> reply_run \<Rightarrow> jmap option res \<times> home_write list \<times> nat" where
  "reply_by bound now p run =
     (case run of
        Not_Written (Some (t, e)) \<Rightarrow> if t > bound then (Inr None, [], bound) else (Inl e, [], max now t)
      | Not_Written None \<Rightarrow> (Inr None, [], bound)
      | Writes w ends \<Rightarrow>
          (let begins = max now w;
               ended = map_option (\<lambda>(t, sent). (max begins t, sent)) ends;
               write = \<lparr>hw_payload = p, hw_began = begins, hw_ended = ended\<rparr>
           in if begins > bound then (Inr None, [], bound)
              else case ended of
                     None \<Rightarrow> (Inr None, [write], bound)
                   | Some (t, sent) \<Rightarrow>
                       if t > bound then (Inr None, [write], bound)
                       else (res_bind sent (\<lambda>_. Inr (Some p)), [write], t)))"

text \<open>
  What was sent or \<open>None\<close>, or the error of sending; the replies it started and when; what was written of them;
  and when it ended.
\<close>

definition answer_home_request_within ::
    "nat \<Rightarrow> nat \<Rightarrow> event \<Rightarrow> handler \<Rightarrow> (nat \<Rightarrow> jmap \<Rightarrow> reply_run) \<Rightarrow> duration \<Rightarrow> duration
       \<Rightarrow> jmap option res \<times> (nat \<times> jmap) list \<times> home_write list \<times> nat" where
  "answer_home_request_within instant_max started e handler reply wait hub_timeout =
     (let bound = far instant_max started hub_timeout;
          request = request_from_event e
      in case handle handler started (far instant_max started (min wait hub_timeout)) of
           (answer, now) \<Rightarrow>
             let payload = home_response request answer
             in if now \<ge> bound then (Inr None, [], [], now)
                else case reply_by bound now payload (reply now payload) of
                  (r, writes, stop) \<Rightarrow> (r, [(now, payload)], writes, stop))"

definition answer_home_request ::
    "nat \<Rightarrow> nat \<Rightarrow> event \<Rightarrow> handler \<Rightarrow> (nat \<Rightarrow> jmap \<Rightarrow> reply_run) \<Rightarrow> duration
       \<Rightarrow> jmap option res \<times> (nat \<times> jmap) list \<times> home_write list \<times> nat" where
  "answer_home_request instant_max started e handler reply wait =
     answer_home_request_within instant_max started e handler reply wait HOME_REQUEST_TIMEOUT"

section \<open>The contract\<close>

definition outside_contract :: "home_answer \<Rightarrow> bool" where
  "outside_contract a \<longleftrightarrow>
     ha_response_type a \<notin> set RESPONSE_TYPES
     \<or> ha_response_type a = ''error'' \<and> (case ha_error_code a of Some c \<Rightarrow> c \<notin> set ERROR_CODES | None \<Rightarrow> True)"

lemma opt_insert_get:
  "map_of (case x of Some c \<Rightarrow> bt_insert k (JString c) p | None \<Rightarrow> p) j =
     (if j = k then or_else (map_option JString x) (map_of p j) else map_of p j)"
  by (cases x) simp_all

lemma home_response_get:
  "map_of (home_response r a) k =
     (if k = ''conversation_id'' then map_option JString (given (or_else (given (ha_conversation_id a)) (hr_conversation_id r)))
      else if k = ''error_code'' then
        (if outside_contract a then Some (JString ''unknown'')
         else if ha_response_type a = ''error'' then map_option JString (given (ha_error_code a)) else None)
      else if k = ''continue_conversation'' then Some (JBool (ha_continue a))
      else if k = ''response_type'' then Some (JString (if outside_contract a then ''error'' else ha_response_type a))
      else if k = ''speech'' then Some (JString (plain_speech (ha_speech a)))
      else if k = ''request_id'' then Some (JString (hr_request_id r))
      else None)"
proof -
  have outside: "(ha_response_type a \<notin> set RESPONSE_TYPES \<or> ha_response_type a = ''error''
      \<and> (case if ha_response_type a = ''error'' then ha_error_code a else None of
             Some c \<Rightarrow> c \<notin> set ERROR_CODES | None \<Rightarrow> True)) = outside_contract a"
    unfolding outside_contract_def by auto
  show ?thesis
    unfolding home_response_def Let_def outside opt_insert_get
    by (cases "k = ''conversation_id''"; cases "k = ''error_code''") (simp_all, simp_all add: given_def)
qed

text \<open>
  Whatever a handler says, the payload sent is in the contract: its type is one of the three, an error
  and only an error carries one of the six codes, it carries the id of the request, its speech is words
  with single spaces between them, and it has no other field than these, whether to go on and the
  conversation. An answer in the contract keeps its type and code, and the handler's conversation
  goes before the request's.
\<close>

theorem home_response_in_contract:
  "let p = home_response r a
   in (\<exists>t \<in> set RESPONSE_TYPES. map_of p ''response_type'' = Some (JString t)
         \<and> (case map_of p ''error_code'' of
               Some c \<Rightarrow> t = ''error'' \<and> c \<in> JString ` set ERROR_CODES
             | None \<Rightarrow> t \<noteq> ''error'')
         \<and> (outside_contract a \<or> t = ha_response_type a
              \<and> (t \<noteq> ''error'' \<or> map_of p ''error_code'' = map_option JString (ha_error_code a))))
      \<and> map_of p ''request_id'' = Some (JString (hr_request_id r))
      \<and> (\<exists>s. map_of p ''speech'' = Some (JString s) \<and> plain_words s = s)
      \<and> map_of p ''conversation_id'' = map_option JString (or_else (given (ha_conversation_id a)) (given (hr_conversation_id r)))
      \<and> dom (map_of p) \<subseteq> {''request_id'', ''speech'', ''response_type'', ''continue_conversation'', ''error_code'',
                          ''conversation_id''}"
proof -
  have conv: "given (or_else (given x) y) = or_else (given x) (given y)" for x y
    by (cases x; cases y) (auto simp: given_def)
  have code: "given (ha_error_code a) = ha_error_code a \<and> (\<exists>c. ha_error_code a = Some c \<and> c \<in> set ERROR_CODES)"
    if "\<not> outside_contract a" "ha_response_type a = ''error''"
    using that by (auto simp: outside_contract_def given_def ERROR_CODES_def split: option.splits)
  have types: "ha_response_type a \<in> set RESPONSE_TYPES" if "\<not> outside_contract a"
    using that by (auto simp: outside_contract_def)
  have unknown: "''unknown'' \<in> set ERROR_CODES" "''error'' \<in> set RESPONSE_TYPES"
    by (simp_all add: ERROR_CODES_def RESPONSE_TYPES_def)
  have kind: "\<exists>t \<in> set RESPONSE_TYPES. map_of (home_response r a) ''response_type'' = Some (JString t)
         \<and> (case map_of (home_response r a) ''error_code'' of
               Some c \<Rightarrow> t = ''error'' \<and> c \<in> JString ` set ERROR_CODES
             | None \<Rightarrow> t \<noteq> ''error'')
         \<and> (outside_contract a \<or> t = ha_response_type a
              \<and> (t \<noteq> ''error'' \<or> map_of (home_response r a) ''error_code'' = map_option JString (ha_error_code a)))"
  proof (cases "outside_contract a")
    case True
    then show ?thesis using unknown by (intro bexI [of _ "''error''"]) (simp_all add: home_response_get)
  next
    case False
    show ?thesis
    proof (cases "ha_response_type a = ''error''")
      case error: True
      then show ?thesis
        using False code [OF False error] unknown(2)
        by (intro bexI [of _ "''error''"]) (auto simp: home_response_get)
    next
      case other: False
      then show ?thesis
        using False types [OF False] by (intro bexI [of _ "ha_response_type a"]) (simp_all add: home_response_get)
    qed
  qed
  have "dom (map_of (home_response r a)) \<subseteq> {''request_id'', ''speech'', ''response_type'', ''continue_conversation'',
      ''error_code'', ''conversation_id''}"
    by (auto simp: dom_def home_response_get split: if_splits)
  then show ?thesis
    using kind by (simp add: Let_def home_response_get conv plain_speech_def)
qed

text \<open>What the answer to a request is, given its handler and the handler's deadline.\<close>

definition due_answer :: "handler \<Rightarrow> nat \<Rightarrow> home_answer" where
  "due_answer handler deadline =
     (case handler of
        On_Task (Some (t, Answers a)) \<Rightarrow> if t \<le> deadline then a else error_answer ''timeout''
      | On_Task (Some (t, _)) \<Rightarrow> error_answer (if t \<le> deadline then ''failed_to_handle'' else ''timeout'')
      | On_Task None \<Rightarrow> error_answer ''timeout''
      | Panics_At_Once \<Rightarrow> error_answer ''failed_to_handle'')"

lemma handle_due: "fst (handle handler now deadline) = due_answer handler deadline"
  by (auto simp: handle_def due_answer_def split: handler.splits option.splits handler_end.splits)

lemma handle_time: "snd (handle handler now deadline) \<le> max now deadline"
  by (auto simp: handle_def split: handler.splits option.splits)

text \<open>One answer, with the far bounds that do not overflow written out.\<close>

lemma answer_home_eq:
  assumes "started + hub_timeout \<le> instant_max"
    and "home_response (request_from_event e) (due_answer handler (started + min wait hub_timeout)) = the_reply"
  obtains now where "now \<le> started + min wait hub_timeout"
    and "answer_home_request_within instant_max started e handler reply wait hub_timeout =
      (if now \<ge> started + hub_timeout then (Inr None, [], [], now)
       else case reply_by (started + hub_timeout) now the_reply (reply now the_reply) of
          (r, writes, stop) \<Rightarrow> (r, [(now, the_reply)], writes, stop))"
proof -
  let ?deadline = "started + min wait hub_timeout"
  have "?deadline \<le> instant_max" using assms(1) by (simp add: min_def)
  then have far: "far instant_max started hub_timeout = started + hub_timeout"
    "far instant_max started (min wait hub_timeout) = ?deadline"
    using assms(1) by (simp_all add: far_def)
  obtain answer now where h: "handle handler started ?deadline = (answer, now)" by fastforce
  have "answer = due_answer handler ?deadline" using handle_due [of handler started ?deadline] h by simp
  with assms(2) have reply: "home_response (request_from_event e) answer = the_reply" by simp
  have "now \<le> ?deadline" using handle_time [of handler started ?deadline] h by simp
  then show thesis
    by (rule that) (simp only: answer_home_request_within_def far Let_def h prod.case reply)
qed

lemma reply_by_facts:
  assumes "reply_by bound now p run = (r, writes, stop)" and "now \<le> bound"
  shows "stop \<le> bound"
    and "writes = [] \<or> (\<exists>w ends. run = Writes w ends \<and> max now w \<le> bound
           \<and> writes = [\<lparr>hw_payload = p, hw_began = max now w,
                hw_ended = map_option (\<lambda>(t, sent). (max (max now w) t, sent)) ends\<rparr>])"
    and "run = Writes w ends \<Longrightarrow> max now w \<le> bound \<Longrightarrow> writes \<noteq> []"
    and "r = Inr (Some q) \<Longrightarrow> q = p \<and> (\<exists>hw t. writes = [hw] \<and> hw_payload hw = p \<and> hw_ended hw = Some (t, Inr ()) \<and> t \<le> bound)"
    and "r = Inr None \<Longrightarrow> hw \<in> set writes \<Longrightarrow> hw_ended hw = Some (t, x) \<Longrightarrow> bound < t"
    and "run = Writes w (Some (t, Inr ())) \<Longrightarrow> w \<le> bound \<Longrightarrow> t \<le> bound \<Longrightarrow> r = Inr (Some p)"
  using assms
  by (auto simp: reply_by_def Let_def res_bind_eq_Inr split: reply_run.splits option.splits if_splits prod.splits sum.splits)

text \<open>
  C35: a home request is answered once and in time. By the hub's bound the answer is over for its caller, and at
  most one reply was started, before the bound, and at most one write was begun, by the bound, of the handler's
  answer held to the contract, or of what happened to it; that write runs to its end, also when the bound passes
  in the middle of it, and nothing is written of a reply that had not got the send path by the bound. The caller is
  told of a payload only if its write succeeded by the bound, and of none only if no write ended by then. With
  a handler's time less than the hub's, a reply that can be written by the bound is.
\<close>

theorem home_answers_once_in_time:
  assumes "started + hub_timeout \<le> instant_max"
  shows "case answer_home_request_within instant_max started e handler reply wait hub_timeout of (r, replies, writes, stop) \<Rightarrow>
    stop \<le> started + hub_timeout \<and> length replies \<le> 1 \<and> length writes \<le> 1
    \<and> (\<forall>(t, p) \<in> set replies. t < started + hub_timeout
         \<and> p = home_response (request_from_event e) (due_answer handler (started + min wait hub_timeout)))
    \<and> (\<forall>hw \<in> set writes. hw_began hw \<le> started + hub_timeout
         \<and> (\<exists>t w ends. replies = [(t, hw_payload hw)] \<and> reply t (hw_payload hw) = Writes w ends \<and> hw_began hw = max t w
             \<and> hw_ended hw = map_option (\<lambda>(end, sent). (max (hw_began hw) end, sent)) ends))
    \<and> (\<forall>(t, p) \<in> set replies. \<forall>w ends. reply t p = Writes w ends \<and> max t w \<le> started + hub_timeout \<longrightarrow> writes \<noteq> [])
    \<and> (\<forall>p. r = Inr (Some p) \<longrightarrow>
         (\<exists>hw t. writes = [hw] \<and> hw_payload hw = p \<and> hw_ended hw = Some (t, Inr ()) \<and> t \<le> started + hub_timeout))
    \<and> (r = Inr None \<longrightarrow> (\<forall>hw \<in> set writes. \<forall>t x. hw_ended hw = Some (t, x) \<longrightarrow> started + hub_timeout < t))
    \<and> (wait < hub_timeout
         \<and> (\<forall>t p. \<exists>w t'. reply t p = Writes w (Some (t', Inr ())) \<and> w \<le> started + hub_timeout \<and> t' \<le> started + hub_timeout)
         \<longrightarrow> (\<exists>p. r = Inr (Some p)))"
proof -
  define bound where "bound = started + hub_timeout"
  define p where "p = home_response (request_from_event e) (due_answer handler (started + min wait hub_timeout))"
  obtain now where now: "now \<le> started + min wait hub_timeout"
    and eq: "answer_home_request_within instant_max started e handler reply wait hub_timeout =
      (if now \<ge> bound then (Inr None, [], [], now)
       else case reply_by bound now p (reply now p) of (r, writes, stop) \<Rightarrow> (r, [(now, p)], writes, stop))"
    by (rule answer_home_eq [OF assms p_def [symmetric], folded bound_def])
  have late: "now \<le> bound" "wait < hub_timeout \<Longrightarrow> now < bound" using now by (auto simp: bound_def)
  obtain r writes stop where rb: "reply_by bound now p (reply now p) = (r, writes, stop)" by (metis prod.exhaust)
  note facts = reply_by_facts [OF rb late(1)]
  have prompt: "r = Inr (Some p)"
    if "\<forall>t p. \<exists>w t'. reply t p = Writes w (Some (t', Inr ())) \<and> w \<le> bound \<and> t' \<le> bound"
    using that [THEN spec, THEN spec, of now p] facts(6) by blast
  show ?thesis
  proof (cases "now \<ge> bound")
    case True
    then show ?thesis unfolding eq bound_def [symmetric] using late by auto
  next
    case False
    have one: "length writes \<le> 1" using facts(2) by auto
    have begun: "\<forall>hw \<in> set writes. hw_began hw \<le> bound
         \<and> (\<exists>t w ends. [(now, p)] = [(t, hw_payload hw)] \<and> reply t (hw_payload hw) = Writes w ends \<and> hw_began hw = max t w
             \<and> hw_ended hw = map_option (\<lambda>(end, sent). (max (hw_began hw) end, sent)) ends)"
      using facts(2) by auto
    have told: "\<forall>q. r = Inr (Some q) \<longrightarrow>
         (\<exists>hw t. writes = [hw] \<and> hw_payload hw = q \<and> hw_ended hw = Some (t, Inr ()) \<and> t \<le> bound)"
      using facts(4) by blast
    have res: "answer_home_request_within instant_max started e handler reply wait hub_timeout = (r, [(now, p)], writes, stop)"
      using eq rb False by simp
    show ?thesis
      unfolding res bound_def [symmetric] p_def [symmetric] prod.case
      using facts(1,3,5) one begun told prompt False by (intro conjI) auto
  qed
qed

theorem home_answers_once_in_time_witness:
  "case answer_home_request_within 100 0 (sample_event HOME_RESPONSE ''r'' ''lights'') (On_Task None)
      (\<lambda>t p. Writes t (Some (t + 1, Inr ()))) 5 10 of (r, replies, writes, stop) \<Rightarrow>
    stop \<le> 10 \<and> (\<exists>hw. writes = [hw] \<and> hw_began hw = 5 \<and> hw_ended hw = Some (6, Inr ()))"
  using home_answers_once_in_time [where started = 0 and hub_timeout = 10 and instant_max = 100 and wait = 5
      and e = "sample_event HOME_RESPONSE ''r'' ''lights''" and handler = "On_Task None"
      and reply = "\<lambda>t p. Writes t (Some (t + 1, Inr ()))"]
  by (simp add: answer_home_request_within_def reply_by_def far_def handle_def Let_def)

text \<open>A write that began before the bound is finished after it, and the caller is told of none.\<close>

lemma reply_finished_after_bound:
  "reply_by 10 5 p (Writes 6 (Some (12, Inr ()))) =
     (Inr None, [\<lparr>hw_payload = p, hw_began = 6, hw_ended = Some (12, Inr ())\<rparr>], 10)"
  by (simp add: reply_by_def)

theorem home_response_in_contract_witness:
  "map_of (home_response (request_from_event (sample_event HOME_REQUEST ''r'' ''lights'')) (new_answer ''maybe'' ''on''))
     ''response_type'' \<in> Some ` JString ` set RESPONSE_TYPES
   \<and> (\<exists>s. map_of (home_response (request_from_event (sample_event HOME_REQUEST ''r'' ''lights'')) (new_answer ''maybe'' ''on''))
        ''speech'' = Some (JString s) \<and> plain_words s = s)"
  using home_response_in_contract [of "request_from_event (sample_event HOME_REQUEST ''r'' ''lights'')"
      "new_answer ''maybe'' ''on''"]
  unfolding Let_def by blast

text \<open>Text that holds no bracket and no ampersand is only respaced.\<close>

lemma strip_ssml_plain: "CHR ''<'' \<notin> set s \<Longrightarrow> strip_ssml s = s"
proof (induction s rule: strip_ssml.induct)
  case (2 c s)
  have "markup_at (c # s) = None" using 2(3) by (auto simp: markup_at_def)
  then show ?case using 2 by simp
qed simp

lemma decode_references_plain: "CHR ''&'' \<notin> set s \<Longrightarrow> decode_references s = s"
  by (induction s rule: decode_references.induct) auto

lemma plain_speech_plain: "CHR ''<'' \<notin> set s \<Longrightarrow> CHR ''&'' \<notin> set s \<Longrightarrow> plain_speech s = plain_words s"
  by (simp add: plain_speech_def strip_ssml_plain decode_references_plain)

text \<open>Markup is removed in one pass: what is left of markup inside a bracket may be markup again.\<close>

lemma strip_ssml_leaves_tag: "strip_ssml ''<<b>b>'' = ''<b>''"
  by (simp add: markup_at_def tag_at_def ascii_alpha_def tag_name_char_def markup_spaces_def white_spaces_def
      starts_with_def dec_digit_def)

end
