(* ===== verification/Redact.thy ===== *)
theory Redact
  imports Prelude
begin

text \<open>
  \<open>src/src/redact.rs\<close>: what is left out of a value before a person sees it. Redaction is shown to hide
  exactly the values under the secret keys: two values print alike if and only if they differ in nothing
  else.
\<close>

section \<open>Secret keys\<close>

definition REDACTED :: string where "REDACTED = ''<redacted>''"
definition OMITTED :: string where "OMITTED = ''[omitted]''"

definition ascii_alphanumeric :: "char \<Rightarrow> bool" where
  "ascii_alphanumeric c =
     (let n = of_char c :: nat in (48 \<le> n \<and> n \<le> 57) \<or> (65 \<le> n \<and> n \<le> 90) \<or> (97 \<le> n \<and> n \<le> 122))"

definition normalize_key :: "string \<Rightarrow> string" where
  "normalize_key key = map ascii_lower (filter ascii_alphanumeric key)"

definition secret_keys :: "string list" where
  "secret_keys =
     [''password'', ''authorization'', ''clientsecret'', ''privatekey'', ''apisecret'', ''secretkey'',
      ''credentials'', ''apikey'', ''cryptokey'', ''accesskey'', ''secret'', ''presharedkey'',
      ''brokerpassword'', ''token'', ''accesstoken'', ''authtoken'', ''refreshtoken'', ''devicecode'',
      ''otpcode'', ''recoverycode'']"

definition is_secret_key :: "string \<Rightarrow> bool" where
  "is_secret_key key \<longleftrightarrow> normalize_key key \<in> set secret_keys"

definition is_identity_bundle :: "string \<Rightarrow> bool" where
  "is_identity_bundle key \<longleftrightarrow> normalize_key key \<in> {''initialidentify'', ''identity''}"

section \<open>Redaction\<close>

text \<open>Inside an identity bundle a bare \<open>key\<close> is the access key.\<close>

definition hidden_key :: "bool \<Rightarrow> string \<Rightarrow> bool" where
  "hidden_key in_bundle key \<longleftrightarrow> is_secret_key key \<or> in_bundle \<and> normalize_key key = ''key''"

fun redact_scoped :: "bool \<Rightarrow> json \<Rightarrow> json" where
  "redact_scoped b (JObject m) =
     JObject (map (\<lambda>(k, v). if hidden_key b k then (k, JString REDACTED)
                             else (k, redact_scoped (b \<or> is_identity_bundle k) v)) m)"
| "redact_scoped b (JArray vs) = JArray (map (redact_scoped b) vs)"
| "redact_scoped b v = v"

definition redact_value :: "json \<Rightarrow> json" where
  "redact_value v = redact_scoped False v"

definition redact_map :: "jmap \<Rightarrow> jmap" where
  "redact_map m = (case redact_value (JObject m) of JObject m \<Rightarrow> m | _ \<Rightarrow> [])"

section \<open>Echoed inputs\<close>

text \<open>Each validation error's \<open>input\<close>, in a list of entries, and in a \<open>detail\<close> that is an object.\<close>

definition omit_in_entry :: "json \<Rightarrow> json" where
  "omit_in_entry v =
     (case v of
        JObject m \<Rightarrow> JObject (map (\<lambda>(k, x). if k = ''input'' then (k, JString OMITTED) else (k, x)) m)
      | _ \<Rightarrow> v)"

fun omit_echoed_inputs :: "jmap \<Rightarrow> jmap" and omit_field :: "string \<Rightarrow> json \<Rightarrow> json" where
  "omit_echoed_inputs [] = []"
| "omit_echoed_inputs ((k, v) # m) = (k, omit_field k v) # omit_echoed_inputs m"
| "omit_field k (JArray vs) = JArray (if k = ''detail'' \<or> k = ''errors'' then map omit_in_entry vs else vs)"
| "omit_field k (JObject m) = JObject (if k = ''detail'' then omit_echoed_inputs m else m)"
| "omit_field k v = v"

section \<open>What redaction hides\<close>

text \<open>Two values that differ at most in what stands under hidden keys.\<close>

inductive agree :: "bool \<Rightarrow> json \<Rightarrow> json \<Rightarrow> bool" where
  same: "(\<And>m. v \<noteq> JObject m) \<Longrightarrow> (\<And>vs. v \<noteq> JArray vs) \<Longrightarrow> agree b v v"
| arrays: "list_all2 (agree b) vs ws \<Longrightarrow> agree b (JArray vs) (JArray ws)"
| objects: "list_all2 (\<lambda>p q. fst p = fst q
      \<and> (hidden_key b (fst p) \<or> agree (b \<or> is_identity_bundle (fst p)) (snd p) (snd q))) m n
    \<Longrightarrow> agree b (JObject m) (JObject n)"

inductive_cases agree_arrayE: "agree b (JArray vs) w"
inductive_cases agree_objectE: "agree b (JObject m) w"

lemma redact_agree: "agree b v w \<Longrightarrow> redact_scoped b v = redact_scoped b w"
proof (induction rule: agree.induct)
  case (arrays b vs ws)
  then show ?case by (simp add: list_all2_conv_all_nth list_eq_iff_nth_eq)
next
  case (objects b m n)
  have "map (\<lambda>(k, v). if hidden_key b k then (k, JString REDACTED) else (k, redact_scoped (b \<or> is_identity_bundle k) v)) m
      = map (\<lambda>(k, v). if hidden_key b k then (k, JString REDACTED) else (k, redact_scoped (b \<or> is_identity_bundle k) v)) n"
    using objects by (induction rule: list_all2_induct) (auto split: prod.splits)
  then show ?case by simp
qed simp

lemma agree_redact: "redact_scoped b v = redact_scoped b w \<Longrightarrow> agree b v w"
proof (induction v arbitrary: b w)
  case (JArray vs)
  then obtain ws where w: "w = JArray ws" "map (redact_scoped b) vs = map (redact_scoped b) ws"
    by (cases w) auto
  have "agree b (vs ! i) (ws ! i)" if "i < length vs" for i
    using JArray.IH [of "vs ! i"] that w(2) by (metis length_map nth_map nth_mem)
  then show ?case using w by (auto intro!: agree.arrays simp: list_all2_conv_all_nth dest: map_eq_imp_length_eq)
next
  case (JObject m)
  let ?f = "\<lambda>(k, v). if hidden_key b k then (k, JString REDACTED) else (k, redact_scoped (b \<or> is_identity_bundle k) v)"
  obtain n where w: "w = JObject n" "map ?f m = map ?f n" using JObject.prems by (cases w) auto
  have len: "length n = length m" using arg_cong [OF w(2), of length] by simp
  have "fst (m ! i) = fst (n ! i)
      \<and> (hidden_key b (fst (m ! i)) \<or> agree (b \<or> is_identity_bundle (fst (m ! i))) (snd (m ! i)) (snd (n ! i)))"
    if "i < length m" for i
  proof -
    obtain k v where p: "m ! i = (k, v)" by fastforce
    obtain k' v' where q: "n ! i = (k', v')" by fastforce
    have "map ?f m ! i = map ?f n ! i" by (simp only: w(2))
    then have eq: "?f (k, v) = ?f (k', v')" using that len by (simp only: nth_map p q)
    then have k: "k' = k" by (auto split: if_splits)
    show ?thesis
    proof (cases "hidden_key b k")
      case False
      then have "redact_scoped (b \<or> is_identity_bundle k) v = redact_scoped (b \<or> is_identity_bundle k) v'"
        using eq k by simp
      moreover have "(k, v) \<in> set m" using that p by (metis nth_mem)
      ultimately have "agree (b \<or> is_identity_bundle k) v v'"
        using JObject.IH [of "(k, v)" v] by auto
      then show ?thesis using p q k by simp
    qed (use p q k in simp)
  qed
  then have "\<forall>i < length m. fst (m ! i) = fst (n ! i)
      \<and> (hidden_key b (fst (m ! i)) \<or> agree (b \<or> is_identity_bundle (fst (m ! i))) (snd (m ! i)) (snd (n ! i)))"
    by blast
  then have "agree b (JObject m) (JObject n)"
    by (intro agree.objects) (simp only: list_all2_conv_all_nth len simp_thms)
  then show ?case using w(1) by simp
next
  case JNull
  then have "w = JNull" by (cases w) simp_all
  then show ?case by (simp add: agree.same)
next
  case (JBool x)
  then have "w = JBool x" by (cases w) simp_all
  then show ?case by (simp add: agree.same)
next
  case (JNumber x)
  then have "w = JNumber x" by (cases w) simp_all
  then show ?case by (simp add: agree.same)
next
  case (JString x)
  then have "w = JString x" by (cases w) simp_all
  then show ?case by (simp add: agree.same)
qed

text \<open>
  C36: redaction hides the values under secret keys, at every depth and in an identity bundle the bare
  access key too, and nothing else: two values are printed alike exactly when they agree in their shape,
  their keys and every value that does not stand under such a key. So what is printed depends on no
  secret, and redacting what was redacted changes nothing.
\<close>

theorem redaction_hides_secrets_only:
  "(redact_value v = redact_value w) = agree False v w \<and> redact_value (redact_value v) = redact_value v"
proof -
  have "redact_scoped b (redact_scoped b v) = redact_scoped b v" for b v
  proof (induction b v rule: redact_scoped.induct)
    case (1 b m)
    then show ?case by (auto simp: hidden_key_def)
  qed auto
  then show ?thesis unfolding redact_value_def using redact_agree agree_redact by blast
qed

end
