(* ===== verification/Streams.thy ===== *)
theory Streams
  imports Ask Connection
begin

text \<open>
  \<open>src/src/stream.rs\<close> and \<open>src/src/hive.rs\<close>: subscriptions to events and to the hive's own frame kinds. A
  turn of a receive loop is what the loop is told: the time, what the subscription or the waiting gave,
  the time after. The theorems say that a stream is a filter of what arrives, up to its limit and the
  first trouble, and that trouble is never silent.
\<close>

section \<open>Event streams\<close>

record listen_options =
  lo_timeout :: "duration option"
  lo_max_events :: "nat option"
  lo_session_id :: "string option"
  lo_request_id :: "string option"
  lo_predicate :: "(event \<Rightarrow> bool) option"

record event_stream =
  es_open :: bool
  es_transport :: bool
  es_name :: string
  es_expected :: jmap
  es_options :: listen_options
  es_deadline :: "nat option"
  es_received :: nat

definition stream_new :: "bool \<Rightarrow> string \<Rightarrow> listen_options \<Rightarrow> nat option \<Rightarrow> event_stream" where
  "stream_new transport name opts deadline =
     (let put = (\<lambda>k x m. case x of None \<Rightarrow> m | Some v \<Rightarrow> bt_insert k (JString v) m)
      in \<lparr>es_open = True, es_transport = transport, es_name = name,
          es_expected = put ''request_id'' (lo_request_id opts) (put ''session_id'' (lo_session_id opts) []),
          es_options = opts, es_deadline = deadline, es_received = 0\<rparr>)"

definition stream_close :: "event_stream \<Rightarrow> event_stream" where
  "stream_close s = s\<lparr>es_open := False\<rparr>"

text \<open>The subscription gave something, or a tenth of a second passed and the link was probed; a probe
  that does not answer in its own tenth (\<open>None\<close>) says nothing.\<close>

datatype taken = Arrived reception | Woke "bool option"

record turn =
  t_before :: nat
  t_taken :: taken
  t_after :: nat

definition expired :: "event_stream \<Rightarrow> nat \<Rightarrow> bool" where
  "expired s now \<longleftrightarrow> (case es_deadline s of None \<Rightarrow> False | Some d \<Rightarrow> d \<le> now)"

definition wanted :: "event_stream \<Rightarrow> event \<Rightarrow> bool" where
  "wanted s e \<longleftrightarrow>
     e_name e = es_name s \<and> event_matches_context e (Some (es_expected s))
     \<and> (case lo_predicate (es_options s) of None \<Rightarrow> True | Some p \<Rightarrow> p e)"

definition STREAM_EXPIRED :: thalovant_error where
  "STREAM_EXPIRED = Timeout ''event stream deadline expired''"

text \<open>One turn of the loop of \<open>recv\<close>: a result and the stream it leaves, or on.\<close>

definition recv_turn :: "event_stream \<Rightarrow> turn \<Rightarrow> event res option \<times> event_stream" where
  "recv_turn s t =
     (if expired s (t_before t) \<or> expired s (t_after t) then (Some (Inl STREAM_EXPIRED), stream_close s)
      else case t_taken t of
             Arrived (Got e) \<Rightarrow>
               if \<not> wanted s e then (None, s)
               else (let s = s\<lparr>es_received := es_received s + 1\<rparr>
                     in (Some (Inr e),
                         case lo_max_events (es_options s) of
                           Some m \<Rightarrow> if m \<le> es_received s then stream_close s else s
                         | None \<Rightarrow> s))
           | Arrived (Lagged n) \<Rightarrow>
               (Some (Inl (Runtime (''event subscription overflow: missed '' @ show_nat n @ '' events''))), stream_close s)
           | Arrived Subscription_Closed \<Rightarrow> (Some (Inl (Connection ''event transport closed'')), stream_close s)
           | Woke probe \<Rightarrow>
               if es_transport s \<and> probe = Some False
               then (Some (Inl (Connection ''event transport is no longer authenticated'')), stream_close s)
               else (None, s))"

text \<open>\<open>recv\<close>, with the turns it leaves; a receive still waiting when they end is \<open>None\<close>.\<close>

fun recv :: "event_stream \<Rightarrow> turn list \<Rightarrow> event option res option \<times> event_stream \<times> turn list" where
  "recv s [] = (if es_open s then None else Some (Inr None), s, [])"
| "recv s (t # ts) =
     (if \<not> es_open s then (Some (Inr None), s, t # ts)
      else case recv_turn s t of
             (None, s) \<Rightarrow> recv s ts
           | (Some (Inl e), s) \<Rightarrow> (Some (Inl e), s, ts)
           | (Some (Inr e), s) \<Rightarrow> (Some (Inr (Some e)), s, ts))"

definition listen :: "nat \<Rightarrow> string \<Rightarrow> listen_options \<Rightarrow> nat \<Rightarrow> unit res \<Rightarrow> event_stream res" where
  "listen instant_max name opts started connected =
     (if trim name = [] \<or> lo_max_events opts = Some 0
      then Inl (Runtime ''event name and a positive event limit are required'')
      else res_bind
             (case lo_timeout opts of
                None \<Rightarrow> Inr None
              | Some d \<Rightarrow>
                  if started + d \<le> instant_max then Inr (Some (started + d))
                  else Inl (Runtime ''event timeout is too large''))
             (\<lambda>deadline. res_bind connected (\<lambda>_. Inr (stream_new True name opts deadline))))"

definition wait_for_event ::
    "nat \<Rightarrow> string \<Rightarrow> listen_options \<Rightarrow> nat \<Rightarrow> unit res \<Rightarrow> turn list \<Rightarrow> event res option" where
  "wait_for_event instant_max name opts started connected ts =
     (let opts = opts\<lparr>lo_timeout := Some (case lo_timeout opts of Some d \<Rightarrow> d | None \<Rightarrow> from_secs 12),
                      lo_max_events := Some 1\<rparr>
      in case listen instant_max name opts started connected of
           Inl e \<Rightarrow> Some (Inl e)
         | Inr s \<Rightarrow>
             map_option (\<lambda>r. res_bind r (\<lambda>e. ok_or e (Connection ''event subscription closed''))) (fst (recv s ts)))"

section \<open>A stream is a filter\<close>

text \<open>A caller that receives until the stream ends, fails or has nothing more: the events, and how it stood.\<close>

datatype stream_end = Ended | Waiting | Failed thalovant_error

lemma recv_turn_open: "recv_turn s t = (None, s') \<Longrightarrow> s' = s"
  by (auto simp: recv_turn_def Let_def split: if_splits taken.splits reception.splits option.splits)

lemma recv_shorter:
  "recv s ts = (Some (Inr (Some e)), s', rest) \<Longrightarrow> length rest < length ts"
  by (induction ts arbitrary: s) (fastforce split: if_splits prod.splits option.splits sum.splits)+

function receive_all :: "event_stream \<Rightarrow> turn list \<Rightarrow> event list \<times> stream_end \<times> event_stream" where
  "receive_all s ts =
     (case recv s ts of
        (None, s, _) \<Rightarrow> ([], Waiting, s)
      | (Some (Inl e), s, _) \<Rightarrow> ([], Failed e, s)
      | (Some (Inr None), s, _) \<Rightarrow> ([], Ended, s)
      | (Some (Inr (Some e)), s, rest) \<Rightarrow> (case receive_all s rest of (es, r) \<Rightarrow> (e # es, r)))"
  by pat_completeness auto
termination
  by (relation "measure (\<lambda>(s, ts). length ts)") (auto dest: recv_shorter [OF sym])

declare receive_all.simps [simp del]

text \<open>The specification: the turns without trouble, the wanted events of them, and what the first trouble says.\<close>

definition trouble :: "event_stream \<Rightarrow> turn \<Rightarrow> thalovant_error option" where
  "trouble s t =
     (if expired s (t_before t) \<or> expired s (t_after t) then Some STREAM_EXPIRED
      else case t_taken t of
             Arrived (Got _) \<Rightarrow> None
           | Arrived (Lagged n) \<Rightarrow> Some (Runtime (''event subscription overflow: missed '' @ show_nat n @ '' events''))
           | Arrived Subscription_Closed \<Rightarrow> Some (Connection ''event transport closed'')
           | Woke probe \<Rightarrow>
               if es_transport s \<and> probe = Some False
               then Some (Connection ''event transport is no longer authenticated'') else None)"

definition wanted_of :: "event_stream \<Rightarrow> turn \<Rightarrow> event option" where
  "wanted_of s t =
     (case t_taken t of Arrived (Got e) \<Rightarrow> if wanted s e then Some e else None | _ \<Rightarrow> None)"

definition quiet :: "event_stream \<Rightarrow> turn list \<Rightarrow> turn list" where
  "quiet s ts = takeWhile (\<lambda>t. trouble s t = None) ts"

definition first_trouble :: "event_stream \<Rightarrow> turn list \<Rightarrow> stream_end" where
  "first_trouble s ts =
     (case dropWhile (\<lambda>t. trouble s t = None) ts of
        [] \<Rightarrow> Waiting
      | t # _ \<Rightarrow> Failed (the (trouble s t)))"

definition stream_spec :: "event_stream \<Rightarrow> turn list \<Rightarrow> event list \<times> stream_end" where
  "stream_spec s ts =
     (let es = List.map_filter (wanted_of s) (quiet s ts)
      in case lo_max_events (es_options s) of
           Some m \<Rightarrow>
             if m - es_received s \<le> length es then (take (m - es_received s) es, Ended)
             else (es, first_trouble s ts)
         | None \<Rightarrow> (es, first_trouble s ts))"

lemma same_stream [simp]:
  "trouble (s\<lparr>es_received := n\<rparr>) = trouble s" "wanted_of (s\<lparr>es_received := n\<rparr>) = wanted_of s"
  by (simp_all add: fun_eq_iff trouble_def wanted_of_def wanted_def expired_def split: taken.split reception.split)

lemma recv_turn_trouble: "trouble s t = Some e \<Longrightarrow> recv_turn s t = (Some (Inl e), stream_close s)"
  by (auto simp: trouble_def recv_turn_def split: if_splits taken.splits reception.splits)

lemma recv_turn_quiet:
  assumes "trouble s t = None"
  shows "recv_turn s t =
     (case wanted_of s t of
        None \<Rightarrow> (None, s)
      | Some e \<Rightarrow>
          (let s = s\<lparr>es_received := es_received s + 1\<rparr>
           in (Some (Inr e),
               case lo_max_events (es_options s) of
                 Some m \<Rightarrow> if m \<le> es_received s then stream_close s else s
               | None \<Rightarrow> s)))"
  using assms by (auto simp: trouble_def recv_turn_def wanted_of_def Let_def split: if_splits taken.splits reception.splits)

definition has_room :: "event_stream \<Rightarrow> bool" where
  "has_room s \<longleftrightarrow> es_open s \<and> (case lo_max_events (es_options s) of Some m \<Rightarrow> es_received s < m | None \<Rightarrow> True)"

lemma receive_all_closed [simp]: "\<not> es_open s \<Longrightarrow> receive_all s ts = ([], Ended, s)"
  by (subst receive_all.simps, cases ts) simp_all

lemma first_trouble_simps [simp]:
  "trouble s t = None \<Longrightarrow> first_trouble s (t # ts) = first_trouble s ts"
  "first_trouble (s\<lparr>es_received := n\<rparr>) ts = first_trouble s ts" "first_trouble s [] = Waiting"
  by (simp_all add: first_trouble_def)
    (cases "dropWhile (\<lambda>t. trouble s t = None) ts"; simp only: list.case same_stream)

lemma quiet_simps [simp]:
  "trouble s t = None \<Longrightarrow> quiet s (t # ts) = t # quiet s ts" "trouble s t = Some e \<Longrightarrow> quiet s (t # ts) = []"
  "quiet (s\<lparr>es_received := n\<rparr>) ts = quiet s ts" "quiet s [] = []"
  by (simp_all add: quiet_def)

lemma map_filter_Cons: "List.map_filter f (x # xs) = (case f x of None \<Rightarrow> List.map_filter f xs | Some y \<Rightarrow> y # List.map_filter f xs)"
  by (simp add: List.map_filter_def split: option.split)

lemma spec_skip: "trouble s t = None \<Longrightarrow> wanted_of s t = None \<Longrightarrow> stream_spec s (t # ts) = stream_spec s ts"
  by (simp add: stream_spec_def map_filter_Cons Let_def split: option.split)

lemma spec_take:
  assumes "trouble s t = None" and "wanted_of s t = Some e" and "has_room s"
  shows "stream_spec s (t # ts) =
     (if lo_max_events (es_options s) = Some (es_received s + 1) then ([e], Ended)
      else (case stream_spec (s\<lparr>es_received := es_received s + 1\<rparr>) ts of (es, r) \<Rightarrow> (e # es, r)))"
proof (cases "lo_max_events (es_options s)")
  case None
  then show ?thesis using assms by (simp add: stream_spec_def map_filter_Cons Let_def)
next
  case (Some m)
  then have "es_received s < m" using assms(3) by (simp add: has_room_def)
  then obtain k where k: "m = Suc (es_received s + k)" by (auto simp: less_iff_Suc_add)
  then show ?thesis using assms Some by (cases k) (simp_all add: stream_spec_def map_filter_Cons Let_def)
qed

lemma receive_all_step:
  assumes "es_open s" and "recv_turn s t = (r, s')"
  shows "receive_all s (t # ts) =
     (case r of
        None \<Rightarrow> receive_all s ts
      | Some (Inl e) \<Rightarrow> ([], Failed e, s')
      | Some (Inr e) \<Rightarrow> (case receive_all s' ts of (es, r) \<Rightarrow> (e # es, r)))"
  using assms recv_turn_open [of s t s']
  by (subst receive_all.simps) (auto simp: receive_all.simps [of s ts] split: option.split sum.split)

lemma receive_all_spec:
  "has_room s \<Longrightarrow>
   case receive_all s ts of (es, r, s') \<Rightarrow> (es, r) = stream_spec s ts \<and> (r = Waiting \<or> \<not> es_open s')"
proof (induction ts arbitrary: s)
  case Nil
  then show ?case
    by (subst receive_all.simps) (auto simp: has_room_def stream_spec_def List.map_filter_def split: option.split)
next
  case (Cons t ts)
  then have op: "es_open s" by (simp add: has_room_def)
  show ?case
  proof (cases "trouble s t")
    case (Some e)
    then show ?thesis
      using receive_all_step [OF op recv_turn_trouble] Cons.prems
      by (auto simp: stream_spec_def first_trouble_def has_room_def stream_close_def List.map_filter_def split: option.splits)
  next
    case None
    note q = recv_turn_quiet [OF None]
    show ?thesis
    proof (cases "wanted_of s t")
      case skip: None
      then show ?thesis
        using receive_all_step [OF op] q Cons.IH [OF Cons.prems] spec_skip [OF None skip] by simp
    next
      case (Some e)
      let ?s = "s\<lparr>es_received := es_received s + 1\<rparr>"
      note spec = spec_take [OF None Some Cons.prems]
      show ?thesis
      proof (cases "lo_max_events (es_options s) = Some (es_received s + 1)")
        case True
        then show ?thesis
          using receive_all_step [OF op] q Some spec by (simp add: Let_def stream_close_def)
      next
        case False
        then have room: "has_room ?s"
          using Cons.prems by (auto simp: has_room_def split: option.splits)
        have turn: "recv_turn s t = (Some (Inr e), ?s)"
          using q Some room by (auto simp: Let_def has_room_def split: option.splits)
        show ?thesis
          using receive_all_step [OF op turn, of ts] Cons.IH [OF room] spec False by (auto split: prod.splits)
      qed
    qed
  qed
qed

text \<open>
  C31: a stream is a filter. Whatever arrives while a caller receives, it gets, in order and none left
  out, the events of the stream's name that its context and its predicate let pass, up to its limit or
  the first trouble: then the stream says it has ended, or says what the trouble was -- its deadline,
  events it missed, a transport that closed or is no longer authenticated -- and after either it is closed
  and gives nothing more. A stream that \<open>listen\<close> made always has room for an event.
\<close>

theorem stream_is_a_filter:
  assumes "listen instant_max name opts started connected = Inr s"
  shows "case receive_all s ts of (es, r, s') \<Rightarrow>
    (es, r) = stream_spec s ts
    \<and> length es \<le> (case lo_max_events opts of Some m \<Rightarrow> m | None \<Rightarrow> length ts)
    \<and> (r \<noteq> Waiting \<longrightarrow> (\<forall>more. recv s' more = (Some (Inr None), s', more)))"
proof -
  have s: "has_room s" "es_options s = opts" "es_received s = 0"
    using assms by (auto simp: listen_def res_bind_eq_Inr has_room_def stream_new_def Let_def split: if_splits option.splits)
  have "length (List.map_filter f xs) \<le> length xs" for f :: "turn \<Rightarrow> event option" and xs
    by (simp add: List.map_filter_def)
  from order_trans [OF this length_takeWhile_le]
  have few: "length (List.map_filter (wanted_of s) (quiet s ts)) \<le> length ts" by (simp add: quiet_def)
  have closed: "recv c more = (Some (Inr None), c, more)" if "\<not> es_open c" for c more
    using that by (cases more) simp_all
  obtain es r s' where a: "receive_all s ts = (es, r, s')" by (metis prod.exhaust)
  then have "(es, r) = stream_spec s ts" "r = Waiting \<or> \<not> es_open s'"
    using receive_all_spec [OF s(1), of ts] by simp_all
  with few closed s a show ?thesis
    by (auto simp: stream_spec_def Let_def split: option.splits if_splits)
qed

definition sample_options :: listen_options where
  "sample_options =
     \<lparr>lo_timeout = Some 100, lo_max_events = Some 2, lo_session_id = None, lo_request_id = None, lo_predicate = None\<rparr>"

definition sample_turns :: "turn list" where
  "sample_turns =
     map (\<lambda>n. \<lparr>t_before = 1, t_taken = Arrived (Got \<lparr>e_name = n, e_data = [], e_context = [], e_raw = None\<rparr>), t_after = 2\<rparr>)
       [''a'', ''b'', ''a'', ''a'']"

theorem stream_is_a_filter_witness:
  "\<exists>s s'. listen 1000 ''a'' sample_options 0 (Inr ()) = Inr s
     \<and> receive_all s sample_turns =
        (map (\<lambda>n. \<lparr>e_name = n, e_data = [], e_context = [], e_raw = None\<rparr>) [''a'', ''a''], Ended, s')
     \<and> recv s' [] = (Some (Inr None), s', [])"
proof -
  have t: "trim ''a'' = ''a''" by (simp add: trim_plain plain_char_def)
  obtain s where l: "listen 1000 ''a'' sample_options 0 (Inr ()) = Inr s"
    by (simp add: listen_def t sample_options_def)
  then have s: "s = stream_new True ''a'' sample_options (Some 100)"
    by (simp add: listen_def t sample_options_def)
  obtain es r s' where a: "receive_all s sample_turns = (es, r, s')" by (metis prod.exhaust)
  have m: "event_matches_context e (Some [])" for e
    by (simp add: event_matches_context_def request_id_from_context_def request_id_from_map_def session_id_from_context_def
        get_object_def get_str_def session_from_context_def split: option.split)
  have "stream_spec s sample_turns =
      (map (\<lambda>n. \<lparr>e_name = n, e_data = [], e_context = [], e_raw = None\<rparr>) [''a'', ''a''], Ended)"
    by (simp add: stream_spec_def s stream_new_def sample_options_def sample_turns_def quiet_def trouble_def
        expired_def wanted_of_def wanted_def m List.map_filter_def Let_def)
  with stream_is_a_filter [OF l, of sample_turns] a
  have "recv s' more = (Some (Inr None), s', more)" "es = map (\<lambda>n. \<lparr>e_name = n, e_data = [], e_context = [], e_raw = None\<rparr>) [''a'', ''a'']"
    "r = Ended" for more
    by (simp_all del: recv.simps)
  with a l show ?thesis by blast
qed

end
