(* ===== verification/Hive.thy ===== *)
theory Hive
  imports Channel
begin

text \<open>
  \<open>src/src/hive.rs\<close>: the hive's own frame kinds and the binary frames a hub sends. Both subscriptions are
  the same loop with another filter; a reception is what the transport's hive channel gives it.
\<close>

definition HIVE_KINDS :: "string list" where
  "HIVE_KINDS = [''broadcast'', ''propagate'', ''escalate'', ''intercom'', ''rendezvous'']"

datatype hive_reception = Hive_Got hive_message | Hive_Lagged nat | Hive_Closed

text \<open>The loop of both \<open>recv\<close>s: \<open>None\<close> is one that still waits when the receptions end.\<close>

fun next_frame :: "(hive_message \<Rightarrow> 'a option) \<Rightarrow> hive_reception list \<Rightarrow> 'a option res option \<times> hive_reception list" where
  "next_frame pick [] = (None, [])"
| "next_frame pick (r # rs) =
     (case r of
        Hive_Got m \<Rightarrow> (case pick m of Some x \<Rightarrow> (Some (Inr (Some x)), rs) | None \<Rightarrow> next_frame pick rs)
      | Hive_Closed \<Rightarrow> (Some (Inr None), rs)
      | Hive_Lagged n \<Rightarrow>
          (Some (Inl (Runtime (''missed '' @ show_nat n @ '' hive frames; subscribe sooner or read faster''))), rs))"

definition hive_recv :: "string \<Rightarrow> hive_reception list \<Rightarrow> hive_message option res option \<times> hive_reception list" where
  "hive_recv kind = next_frame (\<lambda>m. if msg_type m = kind then Some m else None)"

definition binary_recv :: "hive_reception list \<Rightarrow> binary_payload option res option \<times> hive_reception list" where
  "binary_recv = next_frame binary"

fun comma_list :: "string list \<Rightarrow> string" where
  "comma_list [] = []"
| "comma_list [x] = x"
| "comma_list (x # xs) = x @ '', '' @ comma_list xs"

text \<open>\<open>quote\<close> is Rust's \<open>{:?}\<close> of a string; \<open>connected\<close> is how connecting ended, after subscribing.\<close>

definition subscribe_hive :: "(string \<Rightarrow> string) \<Rightarrow> string \<Rightarrow> unit res \<Rightarrow> string res" where
  "subscribe_hive quote kind connected =
     (if kind \<notin> set HIVE_KINDS
      then Inl (Runtime (quote kind @ '' is not a hive frame kind; expected one of '' @ comma_list HIVE_KINDS))
      else res_bind connected (\<lambda>_. Inr kind))"

definition subscribe_binary :: "unit res \<Rightarrow> unit res" where
  "subscribe_binary connected = connected"

definition hive_frame :: "string \<Rightarrow> string \<Rightarrow> jmap \<Rightarrow> jmap \<Rightarrow> hive_message" where
  "hive_frame kind event_type event_data event_context =
     \<lparr>msg_type = kind,
      payload = bt_insert ''payload''
        (JObject (bt_collect [(''type'', JString event_type), (''data'', JObject event_data),
                              (''context'', JObject event_context)]))
        (bt_insert ''msg_type'' (JString ''bus'') []),
      binary = None, metadata = [], route = [], node = None, target_site_id = None, target_pubkey = None,
      source_peer = None\<rparr>"

definition send_hive ::
    "(hive_message \<Rightarrow> unit res) \<Rightarrow> unit res \<Rightarrow> string \<Rightarrow> string \<Rightarrow> jmap \<Rightarrow> jmap \<Rightarrow> unit res" where
  "send_hive send connected kind event_type event_data event_context =
     res_bind connected (\<lambda>_. send (hive_frame kind event_type event_data event_context))"

definition propagate :: "(hive_message \<Rightarrow> unit res) \<Rightarrow> unit res \<Rightarrow> string \<Rightarrow> jmap \<Rightarrow> jmap \<Rightarrow> unit res" where
  "propagate send connected = send_hive send connected ''propagate''"

definition escalate :: "(hive_message \<Rightarrow> unit res) \<Rightarrow> unit res \<Rightarrow> string \<Rightarrow> jmap \<Rightarrow> jmap \<Rightarrow> unit res" where
  "escalate send connected = send_hive send connected ''escalate''"

definition broadcast :: "(hive_message \<Rightarrow> unit res) \<Rightarrow> unit res \<Rightarrow> string \<Rightarrow> jmap \<Rightarrow> jmap \<Rightarrow> unit res" where
  "broadcast send connected = send_hive send connected ''broadcast''"

text \<open>
  A caller that keeps receiving: what it is given is what arrives, filtered, with every gap reported where it
  was; only the end of the channel ends it.
\<close>

lemma next_frame_shorter: "next_frame pick rs = (Some r, rest) \<Longrightarrow> length rest < length rs"
  by (induction rs) (fastforce split: hive_reception.splits option.splits)+

function frames :: "(hive_message \<Rightarrow> 'a option) \<Rightarrow> hive_reception list \<Rightarrow> 'a res list" where
  "frames pick rs =
     (case next_frame pick rs of
        (Some (Inr (Some x)), rest) \<Rightarrow> Inr x # frames pick rest
      | (Some (Inl e), rest) \<Rightarrow> Inl e # frames pick rest
      | _ \<Rightarrow> [])"
  by pat_completeness auto
termination
  by (relation "measure (\<lambda>(pick, rs). length rs)") (auto dest: next_frame_shorter [OF sym])

declare frames.simps [simp del]

definition frame_given :: "(hive_message \<Rightarrow> 'a option) \<Rightarrow> hive_reception \<Rightarrow> 'a res option" where
  "frame_given pick r =
     (case r of
        Hive_Got m \<Rightarrow> map_option Inr (pick m)
      | Hive_Lagged n \<Rightarrow> Some (Inl (Runtime (''missed '' @ show_nat n @ '' hive frames; subscribe sooner or read faster'')))
      | Hive_Closed \<Rightarrow> None)"

lemma frames_filtered:
  "frames pick rs = List.map_filter (frame_given pick) (takeWhile (\<lambda>r. r \<noteq> Hive_Closed) rs)"
proof (induction rs)
  case Nil
  then show ?case by (simp add: frames.simps List.map_filter_def)
next
  case (Cons r rs)
  then show ?case
    by (subst frames.simps)
      (auto simp: frame_given_def List.map_filter_def frames.simps [of pick rs] split: hive_reception.split option.split)
qed

end
