(* ===== verification/Client_Context.thy ===== *)
theory Client_Context
  imports Prelude
begin

text \<open>
  \<open>src/src/context.rs\<close>: the context a client sends with what it says about its user, its device and its
  session. What the caller's own context already says stands; the objects for user, sign-in, device,
  metadata and session are extended.
\<close>

record client_context_options =
  o_user_id :: "string option"
  o_user_name :: "string option"
  o_auth_token :: "string option"
  o_auth_provider :: "string option"
  o_auth_claims :: "jmap option"
  o_roles :: "string list"
  o_platform :: "string option"
  o_source :: "string option"
  o_destination :: "string option"
  o_channel :: "string option"
  o_device_id :: "string option"
  o_locale :: "string option"
  o_metadata :: "jmap option"
  o_session_id :: "string option"

definition default_context_options :: client_context_options where
  "default_context_options =
     \<lparr>o_user_id = None, o_user_name = None, o_auth_token = None, o_auth_provider = None, o_auth_claims = None,
      o_roles = [], o_platform = None, o_source = None, o_destination = None, o_channel = None,
      o_device_id = None, o_locale = None, o_metadata = None, o_session_id = None\<rparr>"

text \<open>\<open>entry(key).or_insert(value)\<close>.\<close>

definition or_insert :: "string \<Rightarrow> json \<Rightarrow> jmap \<Rightarrow> jmap" where
  "or_insert k v m = (case map_of m k of None \<Rightarrow> bt_insert k v m | Some _ \<Rightarrow> m)"

definition set_default_opt :: "string \<Rightarrow> string option \<Rightarrow> jmap \<Rightarrow> jmap" where
  "set_default_opt k x m = (case x of None \<Rightarrow> m | Some v \<Rightarrow> or_insert k (JString v) m)"

definition map_from_value :: "json option \<Rightarrow> jmap" where
  "map_from_value v = (case Option.bind v as_object of None \<Rightarrow> [] | Some m \<Rightarrow> m)"

definition opt_insert :: "string \<Rightarrow> json option \<Rightarrow> jmap \<Rightarrow> jmap" where
  "opt_insert k x m = (case x of None \<Rightarrow> m | Some v \<Rightarrow> bt_insert k v m)"

definition opt_or_insert :: "string \<Rightarrow> json option \<Rightarrow> jmap \<Rightarrow> jmap" where
  "opt_or_insert k x m = (case x of None \<Rightarrow> m | Some v \<Rightarrow> or_insert k v m)"

definition add_user :: "client_context_options \<Rightarrow> jmap \<Rightarrow> jmap" where
  "add_user opts context1 =
     (if o_user_id opts \<noteq> None \<or> o_user_name opts \<noteq> None \<or> o_roles opts \<noteq> []
      then
        (let user_id = map_option JString (o_user_id opts);
             user_name = map_option JString (o_user_name opts);
             roles = (if o_roles opts \<noteq> [] then Some (JArray (map JString (o_roles opts))) else None);
             user = opt_insert ''roles'' roles (opt_insert ''name'' user_name (opt_insert ''id'' user_id
                      (map_from_value (map_of context1 ''user''))));
             context2 = opt_or_insert ''roles'' roles (opt_or_insert ''user_name'' user_name
                          (opt_or_insert ''user_id'' user_id context1))
         in bt_insert ''user'' (JObject user) context2)
      else context1)"

definition add_auth :: "client_context_options \<Rightarrow> jmap \<Rightarrow> jmap" where
  "add_auth opts context1 =
     (if o_auth_token opts \<noteq> None \<or> o_auth_provider opts \<noteq> None \<or> o_auth_claims opts \<noteq> None
      then
        (let token = map_option JString (o_auth_token opts);
             auth = opt_insert ''claims'' (map_option JObject (o_auth_claims opts))
                      (opt_insert ''provider'' (map_option JString (o_auth_provider opts))
                        (opt_insert ''token'' token (map_from_value (map_of context1 ''auth''))))
         in bt_insert ''auth'' (JObject auth) (opt_or_insert ''auth_token'' token context1))
      else context1)"

definition add_device :: "client_context_options \<Rightarrow> jmap \<Rightarrow> jmap" where
  "add_device opts context1 =
     (case o_device_id opts of
        None \<Rightarrow> context1
      | Some d \<Rightarrow>
          (let device = bt_insert ''id'' (JString d) (map_from_value (map_of context1 ''device''))
           in bt_insert ''device''
                (JObject (set_default_opt ''platform'' (get_str context1 ''platform'') device)) context1))"

definition add_metadata :: "client_context_options \<Rightarrow> jmap \<Rightarrow> jmap" where
  "add_metadata opts context1 =
     (case o_metadata opts of
        None \<Rightarrow> context1
      | Some m \<Rightarrow>
          bt_insert ''metadata''
            (JObject (fold (\<lambda>(k, v). bt_insert k v) m (map_from_value (map_of context1 ''metadata'')))) context1)"

definition add_session :: "client_context_options \<Rightarrow> jmap \<Rightarrow> jmap" where
  "add_session opts context1 =
     (case o_session_id opts of
        None \<Rightarrow> context1
      | Some s \<Rightarrow>
          bt_insert ''session''
            (JObject (bt_insert ''session_id'' (JString s) (map_from_value (map_of context1 ''session''))))
            (or_insert ''session_id'' (JString s) context1))"

definition build_client_context :: "jmap option \<Rightarrow> client_context_options \<Rightarrow> jmap" where
  "build_client_context base opts =
     (let context1 = (case base of None \<Rightarrow> [] | Some m \<Rightarrow> m);
          context1 = add_auth opts (add_user opts context1);
          context1 = fold (\<lambda>(k, x). set_default_opt k x)
            [(''platform'', o_platform opts), (''source'', o_source opts), (''destination'', o_destination opts),
             (''channel'', o_channel opts), (''locale'', o_locale opts)] context1
      in add_session opts (add_metadata opts (add_device opts context1)))"

section \<open>What the caller said stands\<close>

definition EXTENDED :: "string list" where
  "EXTENDED = [''user'', ''auth'', ''device'', ''metadata'', ''session'']"

lemma or_insert_keeps: "map_of m k = Some v \<Longrightarrow> map_of (or_insert k' w m) k = Some v"
  by (auto simp: or_insert_def split: option.split)

lemma set_default_opt_keeps: "map_of m k = Some v \<Longrightarrow> map_of (set_default_opt k' x m) k = Some v"
  by (auto simp: set_default_opt_def intro: or_insert_keeps split: option.split)

lemma opt_or_insert_keeps: "map_of m k = Some v \<Longrightarrow> map_of (opt_or_insert k' x m) k = Some v"
  by (auto simp: opt_or_insert_def intro: or_insert_keeps split: option.split)

lemmas keeps = or_insert_keeps set_default_opt_keeps opt_or_insert_keeps

lemma add_keeps:
  assumes "map_of m k = Some v" and "k \<notin> set EXTENDED"
  shows "map_of (add_user opts m) k = Some v" "map_of (add_auth opts m) k = Some v"
    "map_of (add_device opts m) k = Some v" "map_of (add_metadata opts m) k = Some v"
    "map_of (add_session opts m) k = Some v"
  using assms
  by (auto simp: add_user_def add_auth_def add_device_def add_metadata_def add_session_def EXTENDED_def Let_def
      intro: keeps split: option.split)

lemma build_keeps:
  assumes "base k = Some v" and "map_of m = base" and "k \<notin> set EXTENDED"
  shows "map_of (build_client_context (Some m) opts) k = Some v"
  using assms unfolding build_client_context_def Let_def
  by (auto intro!: add_keeps keeps)

lemma build_nothing: "build_client_context (Some m) default_context_options = m"
  by (simp add: build_client_context_def default_context_options_def add_user_def add_auth_def add_device_def
      add_metadata_def add_session_def set_default_opt_def)

end
