(* ===== verification/Text_Fields.thy ===== *)
theory Text_Fields
  imports Canonical_Json Errors
begin

text \<open>
  How the SDK reads text out of JSON fields: trimming, words for yes and no, unsigned numbers in decimal,
  and a value that is not a string as its compact JSON text. Shared by \<open>protocols.rs\<close> and \<open>identity.rs\<close>.
\<close>

section \<open>Trimming\<close>

lemma strip_any_stops: "find (\<lambda>w. w \<noteq> [] \<and> starts_with (strip_any ws s) w) ws = None"
proof (induction ws s rule: strip_any.induct)
  case (1 ws s)
  show ?case
  proof (cases "find (\<lambda>w. w \<noteq> [] \<and> starts_with s w) ws")
    case None
    then show ?thesis by (simp add: strip_any.simps [of ws s])
  next
    case (Some w)
    then show ?thesis using 1 by (simp add: strip_any.simps [of ws s])
  qed
qed

lemma strip_any_fixed: "find (\<lambda>w. w \<noteq> [] \<and> starts_with s w) ws = None \<Longrightarrow> strip_any ws s = s"
  by (simp add: strip_any.simps)

lemma strip_any_suffix: "\<exists>p. s = p @ strip_any ws s"
proof (induction ws s rule: strip_any.induct)
  case (1 ws s)
  show ?case
  proof (cases "find (\<lambda>w. w \<noteq> [] \<and> starts_with s w) ws")
    case None
    then show ?thesis by (simp add: strip_any_fixed)
  next
    case (Some w)
    then have "s = w @ drop (length w) s" by (auto simp: find_Some_iff starts_with_iff)
    moreover obtain p where "drop (length w) s = p @ strip_any ws (drop (length w) s)" using 1 Some by blast
    moreover have "strip_any ws s = strip_any ws (drop (length w) s)" using Some by (simp add: strip_any.simps [of ws s])
    ultimately show ?thesis by (metis append.assoc)
  qed
qed

lemma trim_end_prefix: "\<exists>r. s = trim_end s @ r"
proof -
  obtain p where "rev s = p @ strip_any (map rev white_spaces) (rev s)" using strip_any_suffix by blast
  then have "s = rev (strip_any (map rev white_spaces) (rev s)) @ rev p" by (metis rev_append rev_rev_ident)
  then show ?thesis unfolding trim_end_def by blast
qed

text \<open>What was trimmed begins and ends with no white space, and trimming it again changes nothing.\<close>

lemma trim_starts_no_space: "find (\<lambda>w. w \<noteq> [] \<and> starts_with (trim s) w) white_spaces = None"
proof -
  have "find (\<lambda>w. w \<noteq> [] \<and> starts_with (trim_start s) w) white_spaces = None"
    unfolding trim_start_def by (rule strip_any_stops)
  moreover obtain r where "trim_start s = trim s @ r" using trim_end_prefix unfolding trim_def by blast
  ultimately show ?thesis by (auto simp: find_None_iff starts_with_iff)
qed

lemma trim_idem [simp]: "trim (trim s) = trim s"
proof -
  have "trim_start (trim s) = trim s"
    unfolding trim_start_def by (rule strip_any_fixed) (rule trim_starts_no_space)
  moreover have "trim_end (trim s) = trim s"
    unfolding trim_def trim_end_def by (simp add: strip_any_fixed strip_any_stops)
  ultimately show ?thesis by (simp add: trim_def)
qed

lemma trim_inside: "\<exists>p r. s = p @ trim s @ r"
proof -
  obtain p where "s = p @ trim_start s" unfolding trim_start_def using strip_any_suffix by blast
  moreover obtain r where "trim_start s = trim s @ r" using trim_end_prefix unfolding trim_def by blast
  ultimately show ?thesis by metis
qed

lemma trim_length: "length (trim s) \<le> length s"
  using trim_inside [of s] by (metis le_add1 le_add2 length_append order_trans)

lemma trim_set: "set (trim s) \<subseteq> set s"
  using trim_inside [of s] by (metis Un_iff set_append subsetI)

text \<open>\<open>trim_end_matches\<close> and \<open>trim_matches\<close> of a character.\<close>

definition trim_end_char :: "char \<Rightarrow> string \<Rightarrow> string" where
  "trim_end_char c s = rev (dropWhile (\<lambda>d. d = c) (rev s))"

definition trim_char :: "char \<Rightarrow> string \<Rightarrow> string" where
  "trim_char c s = trim_end_char c (dropWhile (\<lambda>d. d = c) s)"

lemma trim_end_char_idem [simp]: "trim_end_char c (trim_end_char c s) = trim_end_char c s"
  by (simp add: trim_end_char_def)

lemma trim_end_char_prefix: "\<exists>r. s = trim_end_char c s @ r"
proof -
  have "s = rev (dropWhile (\<lambda>d. d = c) (rev s)) @ rev (takeWhile (\<lambda>d. d = c) (rev s))"
    by (metis rev_append rev_rev_ident takeWhile_dropWhile_id)
  then show ?thesis unfolding trim_end_char_def by blast
qed

lemma trim_end_char_keeps: "d \<noteq> c \<Longrightarrow> \<exists>r. trim_end_char c (p @ d # s) = p @ d # r"
proof -
  assume "d \<noteq> c"
  then have "dropWhile (\<lambda>x. x = c) (rev (p @ d # s)) = dropWhile (\<lambda>x. x = c) (rev s) @ d # rev p
      \<or> (\<exists>q. dropWhile (\<lambda>x. x = c) (rev (p @ d # s)) = q @ d # rev p)"
    by (cases "\<forall>x \<in> set (rev s). x = c") (auto simp: dropWhile_append dropWhile_eq_Nil_conv)
  then obtain q where "dropWhile (\<lambda>x. x = c) (rev (p @ d # s)) = q @ d # rev p" by blast
  then show ?thesis by (simp add: trim_end_char_def)
qed

section \<open>Values\<close>

text \<open>
  \<open>Value::to_string\<close>: compact JSON, the members of an object in the order of their keys. How a float
  is displayed is a parameter.
\<close>

definition number_text :: "(64 word \<Rightarrow> string) \<Rightarrow> number \<Rightarrow> string" where
  "number_text show_float n =
     (case n of
        PosInt i \<Rightarrow> show_nat (unat i)
      | NegInt i \<Rightarrow> CHR ''-'' # show_nat (nat (- sint i))
      | Float f \<Rightarrow> show_float f)"

definition value_text :: "(64 word \<Rightarrow> string) \<Rightarrow> json \<Rightarrow> string" where
  "value_text show_float v = canonical_json (number_text show_float) v"

text \<open>The text of a field: a string trimmed and not empty, nothing for null, the JSON text of anything else.\<close>

definition text_of :: "(64 word \<Rightarrow> string) \<Rightarrow> json \<Rightarrow> string option" where
  "text_of show_float v =
     (case v of
        JString raw \<Rightarrow> (let s = trim raw in if s = [] then None else Some s)
      | JNull \<Rightarrow> None
      | other \<Rightarrow> Some (trim_char CHR 0x22 (value_text show_float other)))"

definition yes_words :: "string list" where "yes_words = [''1'', ''true'', ''yes'', ''on'']"
definition no_words :: "string list" where "no_words = [''0'', ''false'', ''no'', ''off'']"

definition word_bool :: "string \<Rightarrow> bool option" where
  "word_bool s =
     (let w = map ascii_lower (trim s)
      in if w \<in> set yes_words then Some True else if w \<in> set no_words then Some False else None)"

text \<open>\<open>str::parse\<close> of an unsigned integer of which \<open>most\<close> is the largest.\<close>

definition parse_unsigned :: "nat \<Rightarrow> string \<Rightarrow> nat option" where
  "parse_unsigned most s =
     (let digits = (case s of CHR ''+'' # d \<Rightarrow> d | _ \<Rightarrow> s)
      in if digits \<noteq> [] \<and> list_all dec_digit digits \<and> dec_val digits \<le> most then Some (dec_val digits) else None)"

lemma parse_show [simp]: "n \<le> most \<Longrightarrow> parse_unsigned most (show_nat n) = Some n"
proof -
  assume n: "n \<le> most"
  have d: "show_nat n \<noteq> []" "list_all dec_digit (show_nat n)"
    using show_nat_digits [of n] by (auto simp: list_all_iff)
  then obtain c r where c: "show_nat n = c # r" "dec_digit c" by (cases "show_nat n") auto
  then have "c \<noteq> CHR ''+''" by (auto simp: dec_digit_def)
  then have "(case show_nat n of CHR ''+'' # d \<Rightarrow> d | _ \<Rightarrow> show_nat n) = show_nat n"
    using c(1) by (auto split: list.split char.split bool.split)
  then show ?thesis using d n by (simp add: parse_unsigned_def)
qed

lemma dropWhile_absent: "d \<notin> set s \<Longrightarrow> dropWhile (\<lambda>x. x = d) s = s"
  by (cases s) auto

lemma trim_char_absent: "d \<notin> set s \<Longrightarrow> trim_char d s = s"
  by (simp add: trim_char_def trim_end_char_def dropWhile_absent)

lemma digits_not_quoted [simp]: "trim_char CHR 0x22 (show_nat n) = show_nat n"
proof (rule trim_char_absent)
  have "\<not> dec_digit CHR 0x22" by (simp add: dec_digit_def)
  then show "CHR 0x22 \<notin> set (show_nat n)" using show_nat_digits [of n] by blast
qed

section \<open>Characters\<close>

text \<open>The number of characters of a text and its first ones, by the bytes that begin a character.\<close>

definition char_start :: "char \<Rightarrow> bool" where
  "char_start c \<longleftrightarrow> \<not> (128 \<le> (of_char c :: nat) \<and> (of_char c :: nat) < 192)"

definition count_chars :: "string \<Rightarrow> nat" where
  "count_chars s = length (filter char_start s)"

fun take_chars :: "nat \<Rightarrow> string \<Rightarrow> string" where
  "take_chars n [] = []"
| "take_chars n (c # s) =
     (if char_start c then (case n of 0 \<Rightarrow> [] | Suc m \<Rightarrow> c # take_chars m s) else c # take_chars n s)"

text \<open>The characters of a text, each with its bytes.\<close>

fun utf8_chars :: "string \<Rightarrow> string list" where
  "utf8_chars [] = []"
| "utf8_chars (c # s) =
     (case utf8_chars s of
        [] \<Rightarrow> [[c]]
      | t # ts \<Rightarrow> if char_start (hd t) then [c] # t # ts else (c # t) # ts)"

lemma concat_utf8_chars [simp]: "concat (utf8_chars s) = s"
  by (induction s) (auto split: list.split if_splits)

lemma utf8_chars_nonempty: "t \<in> set (utf8_chars s) \<Longrightarrow> t \<noteq> []"
  by (induction s arbitrary: t) (auto split: list.splits if_splits)

end
