(* ===== verification/Protocols.thy ===== *)
theory Protocols
  imports Text_Fields
begin

text \<open>
  \<open>src/src/protocols.rs\<close>: which protocols a hub has enabled, where it is reached over each, and which one
  a client takes. The URL parser (\<open>reqwest::Url\<close>) and the text of a float are parameters.
\<close>

datatype hub_protocol = Wss | Https | Mqtt

definition DEFAULT_PROTOCOL_PREFERENCE :: "hub_protocol list" where
  "DEFAULT_PROTOCOL_PREFERENCE = [Wss, Https, Mqtt]"

text \<open>What the code uses of \<open>reqwest::Url\<close>, and of the text of numbers.\<close>

record 'u url_lib =
  ul_parse :: "string \<Rightarrow> 'u option"
  ul_scheme :: "'u \<Rightarrow> string"
  ul_port :: "'u \<Rightarrow> nat option"
  ul_path :: "'u \<Rightarrow> string"
  ul_set_port :: "nat \<Rightarrow> 'u \<Rightarrow> 'u"
  ul_set_path :: "string \<Rightarrow> 'u \<Rightarrow> 'u"
  ul_no_query :: "'u \<Rightarrow> 'u"
  ul_no_fragment :: "'u \<Rightarrow> 'u"
  ul_no_username :: "'u \<Rightarrow> 'u"
  ul_no_password :: "'u \<Rightarrow> 'u"
  ul_as_str :: "'u \<Rightarrow> string"
  ul_float :: "64 word \<Rightarrow> string"

section \<open>Fields\<close>

fun first_value :: "jmap list \<Rightarrow> string list \<Rightarrow> json option" where
  "first_value [] keys = None"
| "first_value (m # ms) keys =
     or_else (find_map (map_of m) keys) (first_value ms keys)"

function enabled_value :: "json option \<Rightarrow> bool \<Rightarrow> bool" where
  "enabled_value v fallback =
     (case v of
        Some (JBool b) \<Rightarrow> b
      | Some (JString s) \<Rightarrow> (case word_bool s of Some b \<Rightarrow> b | None \<Rightarrow> fallback)
      | Some (JObject m) \<Rightarrow> enabled_value (map_of m ''enabled'') fallback
      | _ \<Rightarrow> fallback)"
  by pat_completeness auto
termination
  by (relation "measure (\<lambda>(v, fallback). case v of None \<Rightarrow> 0 | Some v \<Rightarrow> Suc (size v))")
    (auto dest: map_of_json_size split: option.split)

declare enabled_value.simps [simp del]

definition first_string :: "(64 word \<Rightarrow> string) \<Rightarrow> jmap \<Rightarrow> string list \<Rightarrow> string option" where
  "first_string show_float m keys =
     find_map (\<lambda>k. Option.bind (map_of m k) (text_of show_float)) keys"

definition normalize_endpoint :: "'u url_lib \<Rightarrow> string option \<Rightarrow> string option" where
  "normalize_endpoint lib value =
     Option.bind value (\<lambda>v.
       let raw = trim v
       in if raw = [] then None
          else Option.bind (ul_parse lib raw) (\<lambda>u.
            if ul_scheme lib u \<in> {''http'', ''https'', ''ws'', ''wss'', ''mqtt'', ''mqtts''}
            then Some (trim_end_char CHR ''/'' raw) else None))"

fun replace_any_prefix :: "string \<Rightarrow> (string \<times> string) list \<Rightarrow> string" where
  "replace_any_prefix value [] = value"
| "replace_any_prefix value ((p, r) # ps) =
     (case strip_prefix p value of Some rest \<Rightarrow> r @ rest | None \<Rightarrow> replace_any_prefix value ps)"

section \<open>Which protocols\<close>

record protocol_settings =
  ps_wss :: bool
  ps_http :: bool
  ps_mqtt :: bool

definition default_settings :: protocol_settings where
  "default_settings = \<lparr>ps_wss = True, ps_http = False, ps_mqtt = False\<rparr>"

definition settings_from_object :: "jmap \<Rightarrow> protocol_settings" where
  "settings_from_object m =
     (let source = (case get_object m ''spec'' of Some s \<Rightarrow> s | None \<Rightarrow> m);
          places = List.map_filter (get_object source) [''protocols'', ''network'']
      in \<lparr>ps_wss = enabled_value (first_value places [''wss'', ''websocket'']) True,
          ps_http = enabled_value (first_value places [''http'', ''https'']) False,
          ps_mqtt = enabled_value (first_value places [''mqtt'']) False\<rparr>)"

definition settings_from_value :: "json \<Rightarrow> protocol_settings" where
  "settings_from_value v = (case as_object v of None \<Rightarrow> default_settings | Some m \<Rightarrow> settings_from_object m)"

definition is_enabled :: "protocol_settings \<Rightarrow> hub_protocol \<Rightarrow> bool" where
  "is_enabled p q = (case q of Wss \<Rightarrow> ps_wss p | Https \<Rightarrow> ps_http p | Mqtt \<Rightarrow> ps_mqtt p)"

definition enabled_protocols :: "protocol_settings \<Rightarrow> hub_protocol list" where
  "enabled_protocols p =
     (if ps_wss p then [Wss] else []) @ (if ps_http p then [Https] else []) @ (if ps_mqtt p then [Mqtt] else [])"

definition as_spec_value :: "protocol_settings \<Rightarrow> json" where
  "as_spec_value p =
     (let entry = (\<lambda>b. JObject [(''enabled'', JBool b)])
      in JObject (bt_collect [(''wss'', entry (ps_wss p)), (''http'', entry (ps_http p)), (''mqtt'', entry (ps_mqtt p))]))"

section \<open>Where\<close>

record endpoints =
  ep_https :: "string option"
  ep_wss :: "string option"
  ep_mqtt :: "string option"

definition no_endpoints :: endpoints where
  "no_endpoints = \<lparr>ep_https = None, ep_wss = None, ep_mqtt = None\<rparr>"

definition endpoints_from_object :: "'u url_lib \<Rightarrow> jmap \<Rightarrow> endpoints" where
  "endpoints_from_object lib m =
     (let named = or_else (map_of m ''data_plane_endpoints'') (or_else (map_of m ''dataPlaneEndpoints'') (map_of m ''endpoints''));
          source = (case Option.bind named as_object of Some s \<Rightarrow> s | None \<Rightarrow> m);
          field = (\<lambda>keys. normalize_endpoint lib (first_string (ul_float lib) source keys))
      in \<lparr>ep_https = field [''https'', ''http''], ep_wss = field [''wss'', ''ws''], ep_mqtt = field [''mqtt'', ''mqtts'']\<rparr>)"

definition endpoints_from_value :: "'u url_lib \<Rightarrow> json \<Rightarrow> endpoints" where
  "endpoints_from_value lib v =
     (case as_object v of None \<Rightarrow> no_endpoints | Some m \<Rightarrow> endpoints_from_object lib m)"

definition endpoint_from_domain :: "'u url_lib \<Rightarrow> string \<Rightarrow> hub_protocol \<Rightarrow> string option" where
  "endpoint_from_domain lib domain q =
     (let normalized = trim_end_char CHR ''/'' (trim domain);
          starts = (\<lambda>ps. list_ex (starts_with normalized) ps)
      in case q of
           Wss \<Rightarrow>
             if starts [''wss://'', ''ws://''] then normalize_endpoint lib (Some normalized)
             else if starts [''https://'', ''http://''] then
               normalize_endpoint lib (Some (replace_any_prefix normalized [(''https://'', ''wss://''), (''http://'', ''wss://'')]))
             else normalize_endpoint lib (Some (''wss://'' @ normalized))
         | Https \<Rightarrow>
             if starts [''https://'', ''http://''] then
               normalize_endpoint lib (Some (replace_any_prefix normalized [(''http://'', ''https://'')]))
             else if starts [''wss://'', ''ws://''] then
               normalize_endpoint lib (Some (replace_any_prefix normalized [(''wss://'', ''https://''), (''ws://'', ''https://'')]))
             else normalize_endpoint lib (Some (''https://'' @ normalized))
         | Mqtt \<Rightarrow> None)"

definition endpoints_from_hub :: "'u url_lib \<Rightarrow> json \<Rightarrow> endpoints" where
  "endpoints_from_hub lib v =
     (let e = endpoints_from_value lib v; p = settings_from_value v
      in case Option.bind (Option.bind (as_object v) (\<lambda>m. map_of m ''domain'')) (text_of (ul_float lib)) of
           None \<Rightarrow> e
         | Some domain \<Rightarrow>
             (let e = (if ep_https e = None \<and> ps_http p then e\<lparr>ep_https := endpoint_from_domain lib domain Https\<rparr> else e)
              in if ep_wss e = None \<and> ps_wss p then e\<lparr>ep_wss := endpoint_from_domain lib domain Wss\<rparr> else e))"

definition endpoint_of :: "endpoints \<Rightarrow> hub_protocol \<Rightarrow> string option" where
  "endpoint_of e q = (case q of Https \<Rightarrow> ep_https e | Wss \<Rightarrow> ep_wss e | Mqtt \<Rightarrow> ep_mqtt e)"

definition join_url_path :: "string \<Rightarrow> string \<Rightarrow> string" where
  "join_url_path base extra =
     concat (map (\<lambda>p. CHR ''/'' # p) (filter (\<lambda>p. p \<noteq> []) [trim_char CHR ''/'' base, trim_char CHR ''/'' extra]))"

definition endpoint_base :: "'u url_lib \<Rightarrow> string \<Rightarrow> nat \<Rightarrow> string \<Rightarrow> string" where
  "endpoint_base lib master default_port default_path =
     (case ul_parse lib master of
        Some u \<Rightarrow>
          (let u = (if ul_port lib u = None then ul_set_port lib default_port u else u);
               u = ul_set_path lib (join_url_path (ul_path lib u) default_path) u
           in trim_end_char CHR ''/'' (ul_as_str lib (ul_no_fragment lib (ul_no_query lib u))))
      | None \<Rightarrow> trim_end_char CHR ''/'' master @ '':'' @ show_nat default_port @ default_path)"

text \<open>\<open>str::replacen(from, to, 1)\<close>: the first occurrence, wherever it is.\<close>

fun replace_first :: "string \<Rightarrow> string \<Rightarrow> string \<Rightarrow> string" where
  "replace_first old new [] = (if old = [] then new else [])"
| "replace_first old new (c # s) =
     (case strip_prefix old (c # s) of Some rest \<Rightarrow> new @ rest | None \<Rightarrow> c # replace_first old new s)"

definition http_base :: "'u url_lib \<Rightarrow> endpoints \<Rightarrow> string \<Rightarrow> nat \<Rightarrow> string \<Rightarrow> string" where
  "http_base lib e fallback_master fallback_port fallback_path =
     (case ep_https e of
        Some https \<Rightarrow> endpoint_base lib https fallback_port []
      | None \<Rightarrow>
          endpoint_base lib (replace_first ''ws://'' ''http://'' (replace_first ''wss://'' ''https://'' fallback_master))
            fallback_port fallback_path)"

definition redact_endpoint_credentials :: "'u url_lib \<Rightarrow> string \<Rightarrow> string" where
  "redact_endpoint_credentials lib endpoint =
     (case ul_parse lib endpoint of
        None \<Rightarrow> endpoint
      | Some u \<Rightarrow> trim_end_char CHR ''/'' (ul_as_str lib (ul_no_password lib (ul_no_username lib u))))"

definition endpoints_as_map :: "'u url_lib \<Rightarrow> bool \<Rightarrow> endpoints \<Rightarrow> jmap" where
  "endpoints_as_map lib redact e =
     bt_collect (List.map_filter (\<lambda>(k, x). map_option (\<lambda>v.
         (k, JString (if redact then redact_endpoint_credentials lib v else v))) x)
       [(''https'', ep_https e), (''wss'', ep_wss e), (''mqtt'', ep_mqtt e)])"

section \<open>Which one\<close>

definition select_data_plane_endpoint ::
    "endpoints \<Rightarrow> protocol_settings \<Rightarrow> hub_protocol list \<Rightarrow> (hub_protocol \<times> string) option" where
  "select_data_plane_endpoint e p preferred =
     find_map (\<lambda>q. if \<not> is_enabled p q then None else map_option (\<lambda>s. (q, s)) (endpoint_of e q))
       (if preferred = [] then DEFAULT_PROTOCOL_PREFERENCE else preferred)"

section \<open>What holds of them\<close>

lemma enabled_protocols_are: "q \<in> set (enabled_protocols p) \<longleftrightarrow> is_enabled p q"
  by (cases q) (simp_all add: enabled_protocols_def is_enabled_def)

text \<open>The settings a hub is given are read back as they are.\<close>

lemma settings_roundtrip:
  "settings_from_object [(''protocols'', as_spec_value p)] = p"
  by (cases p) (simp add: settings_from_object_def as_spec_value_def get_object_def bt_collect_def List.map_filter_def
      enabled_value.simps first_value.simps)

section \<open>Trimming keeps what is not white space\<close>

lemma strip_any_keeps:
  assumes "\<forall>w \<in> set ws. c \<notin> set w"
  shows "\<exists>r. strip_any ws (p @ c # s) = r @ c # s"
proof (induction "length p" arbitrary: p rule: less_induct)
  case less
  show ?case
  proof (cases "find (\<lambda>w. w \<noteq> [] \<and> starts_with (p @ c # s) w) ws")
    case None
    then have "strip_any ws (p @ c # s) = p @ c # s" by (rule strip_any_fixed)
    then show ?thesis by blast
  next
    case (Some w)
    then have w: "w \<in> set ws" "w \<noteq> []" "starts_with (p @ c # s) w"
      by (auto simp: find_Some_iff)
    then obtain t where t: "p @ c # s = w @ t" by (auto simp: starts_with_iff)
    then obtain q where q: "p = w @ q" "t = q @ c # s"
      using assms w(1) by (auto simp: append_eq_append_conv2 Cons_eq_append_conv)
    then have "strip_any ws (p @ c # s) = strip_any ws (q @ c # s)"
      using Some by (subst strip_any.simps) simp
    moreover have "length q < length p" using q(1) w(2) by simp
    ultimately show ?thesis using less by simp
  qed
qed

lemma plain_not_space: "plain_char c \<Longrightarrow> \<forall>w \<in> set white_spaces. c \<notin> set w"
  by (auto simp: white_spaces_def plain_char_def)

lemma trim_end_keeps: "plain_char c \<Longrightarrow> \<exists>r. trim_end (p @ c # s) = p @ c # r"
proof -
  assume "plain_char c"
  then have "\<forall>w \<in> set (map rev white_spaces). c \<notin> set w" using plain_not_space by auto
  from strip_any_keeps [OF this, of "rev s" "rev p"] obtain r
    where "strip_any (map rev white_spaces) (rev s @ c # rev p) = r @ c # rev p" by blast
  then have "trim_end (p @ c # s) = p @ c # rev r" by (simp add: trim_end_def)
  then show ?thesis by blast
qed

text \<open>A text that begins with a letter and has another one further on still begins so when it is normalised.\<close>

lemma trim_keeps:
  assumes "plain_char a" "plain_char c"
  shows "\<exists>r. trim (a # p @ c # s) = a # p @ c # r"
proof -
  have "trim_start (a # p @ c # s) = a # p @ c # s"
    unfolding trim_start_def using assms(1) by (intro strip_any_plain) (auto simp: white_spaces_def plain_char_def)
  then show ?thesis using trim_end_keeps [OF assms(2), of "a # p" s] by (simp add: trim_def)
qed

lemma normalize_keeps:
  assumes "normalize_endpoint lib (Some (a # p @ c # s)) = Some e" "plain_char a" "plain_char c" "c \<noteq> CHR ''/''"
  shows "starts_with e (a # p @ [c])"
proof -
  obtain r where r: "trim (a # p @ c # s) = a # p @ c # r" using trim_keeps assms(2,3) by blast
  then have "e = trim_end_char CHR ''/'' (a # p @ c # r)"
    using assms(1) by (auto simp: normalize_endpoint_def Let_def split: bind_splits if_splits)
  then show ?thesis using trim_end_char_keeps [OF assms(4), of "a # p" r] by (auto simp: starts_with_iff)
qed

text \<open>
  A domain is never turned into a weaker endpoint than it names. Over HTTPS the endpoint is always
  \<open>https:\<close>, whatever scheme the domain was written with; over WSS it is \<open>wss:\<close> unless the domain itself
  says \<open>ws://\<close>; and no endpoint of MQTT is made up from a domain.
\<close>

theorem domain_never_downgraded:
  assumes "endpoint_from_domain lib domain q = Some e"
  shows "(q = Https \<and> starts_with e ''https:'')
    \<or> (q = Wss \<and> (starts_with e ''wss:'' \<or> starts_with (trim domain) ''ws://''))"
proof (cases q)
  case Https
  obtain rest where "normalize_endpoint lib (Some (''https:'' @ rest)) = Some e"
    using assms Https by (auto simp: endpoint_from_domain_def Let_def starts_with_iff split: if_splits)
  then show ?thesis using normalize_keeps [of lib "CHR ''h''" "''ttps''" "CHR '':''" rest e] Https
    by (simp add: plain_char_def)
next
  case Wss
  show ?thesis
  proof (cases "starts_with (trim_end_char CHR ''/'' (trim domain)) ''ws://''")
    case True
    then have "starts_with (trim domain) ''ws://''"
      using trim_end_char_prefix [of "trim domain" "CHR ''/''"] by (auto simp: starts_with_iff)
    then show ?thesis using Wss by simp
  next
    case False
    then obtain rest where "normalize_endpoint lib (Some (''wss:'' @ rest)) = Some e"
      using assms Wss by (auto simp: endpoint_from_domain_def Let_def starts_with_iff split: if_splits)
    then show ?thesis using normalize_keeps [of lib "CHR ''w''" "''ss''" "CHR '':''" rest e] Wss
      by (simp add: plain_char_def)
  qed
next
  case Mqtt
  then show ?thesis using assms by (simp add: endpoint_from_domain_def Let_def)
qed

text \<open>A library of URLs that knows a scheme when it sees one, and a domain read with it.\<close>

definition sample_urls :: "string url_lib" where
  "sample_urls =
     \<lparr>ul_parse = (\<lambda>s. if list_ex (\<lambda>c. c = CHR '':'') s then Some s else None),
      ul_scheme = takeWhile (\<lambda>c. c \<noteq> CHR '':''), ul_port = (\<lambda>_. None), ul_path = (\<lambda>_. []),
      ul_set_port = (\<lambda>n u. u @ CHR '':'' # show_nat n), ul_set_path = (\<lambda>p u. u @ p), ul_no_query = id,
      ul_no_fragment = id, ul_no_username = id, ul_no_password = id, ul_as_str = id, ul_float = (\<lambda>_. ''0.5'')\<rparr>"

lemma sample_domain: "endpoint_from_domain sample_urls ''http://hub/'' Https = Some ''https://hub''"
proof -
  have "trim ''http://hub/'' = ''http://hub/''" "trim ''https://hub'' = ''https://hub''"
    by (simp_all add: trim_plain plain_char_def)
  then show ?thesis
    by (simp add: endpoint_from_domain_def normalize_endpoint_def sample_urls_def trim_end_char_def starts_with_def)
qed

lemma domain_never_downgraded_witness: "starts_with ''https://hub'' ''https:''"
  using domain_never_downgraded [OF sample_domain] by simp

end
