(* ===== verification/Identity.thy ===== *)
theory Identity
  imports Protocols State_Files
begin

text \<open>
  \<open>src/src/identity.rs\<close>: what a client knows about the hub it belongs to and how it proves who it is. An
  identity is read from a JSON value, a private file, a profile of the configuration or the environment.
  The JSON and YAML parsers and the URL parser are parameters.
\<close>

section \<open>Fields\<close>

fun optional_string :: "(64 word \<Rightarrow> string) \<Rightarrow> jmap \<Rightarrow> string list \<Rightarrow> string option" where
  "optional_string show_float m [] = None"
| "optional_string show_float m (k # ks) =
     (case map_of m k of Some v \<Rightarrow> text_of show_float v | None \<Rightarrow> optional_string show_float m ks)"

definition required_string :: "(64 word \<Rightarrow> string) \<Rightarrow> jmap \<Rightarrow> string \<Rightarrow> string list \<Rightarrow> string res" where
  "required_string show_float m key aliases =
     (case optional_string show_float m (key # aliases) of
        Some s \<Rightarrow> Inr s | None \<Rightarrow> Inl (MissingIdentityField key))"

definition optional_port :: "(64 word \<Rightarrow> string) \<Rightarrow> jmap \<Rightarrow> string list \<Rightarrow> nat option res" where
  "optional_port show_float m ks =
     (case optional_string show_float m ks of
        None \<Rightarrow> Inr None
      | Some raw \<Rightarrow>
          (case parse_unsigned 65535 raw of
             Some n \<Rightarrow> Inr (Some n) | None \<Rightarrow> Inl (InvalidIdentity (''invalid default_port: '' @ raw))))"

text \<open>\<open>as_i64().unwrap_or(0) != 0\<close>: a number above the signed range and a float count as zero.\<close>

definition number_nonzero :: "number \<Rightarrow> bool" where
  "number_nonzero n = (case n of PosInt i \<Rightarrow> unat i < 2 ^ 63 \<and> i \<noteq> 0 | NegInt i \<Rightarrow> i \<noteq> 0 | Float f \<Rightarrow> False)"

definition optional_bool :: "jmap \<Rightarrow> string \<Rightarrow> bool option" where
  "optional_bool m key =
     (case map_of m key of
        Some (JBool b) \<Rightarrow> Some b
      | Some (JNumber n) \<Rightarrow> Some (number_nonzero n)
      | Some (JString s) \<Rightarrow> word_bool s
      | _ \<Rightarrow> None)"

definition optional_u8 :: "jmap \<Rightarrow> string \<Rightarrow> nat option" where
  "optional_u8 m key =
     (case map_of m key of
        Some (JNumber (PosInt i)) \<Rightarrow> if unat i \<le> 255 then Some (unat i) else None
      | Some (JString s) \<Rightarrow> parse_unsigned 255 (trim s)
      | _ \<Rightarrow> None)"

definition normalize_path :: "string option \<Rightarrow> string" where
  "normalize_path path =
     (case path of
        None \<Rightarrow> []
      | Some p \<Rightarrow> (let n = trim_char CHR ''/'' p in if n = [] then [] else CHR ''/'' # n))"

section \<open>Credentials of the broker\<close>

record broker_credentials =
  bc_endpoint :: string
  bc_username :: string
  bc_password :: string
  bc_topic_prefix :: "string option"
  bc_qos :: nat
  bc_tls :: bool

definition broker_from_object :: "(64 word \<Rightarrow> string) \<Rightarrow> jmap \<Rightarrow> broker_credentials option" where
  "broker_from_object show_float m =
     Option.bind (optional_string show_float m [''endpoint'', ''broker_url'', ''brokerUrl'']) (\<lambda>endpoint.
     Option.bind (optional_string show_float m [''username'', ''broker_username'', ''brokerUsername'']) (\<lambda>username.
     Option.bind (optional_string show_float m [''password'', ''broker_password'', ''brokerPassword'']) (\<lambda>password.
       Some \<lparr>bc_endpoint = endpoint, bc_username = username, bc_password = password,
         bc_topic_prefix = optional_string show_float m [''topic_prefix'', ''topicPrefix''],
         bc_qos = min (case optional_u8 m ''qos'' of Some q \<Rightarrow> q | None \<Rightarrow> 1) 1,
         bc_tls = (case optional_bool m ''tls'' of Some b \<Rightarrow> b | None \<Rightarrow> starts_with endpoint ''mqtts://'')\<rparr>)))"

definition broker_from_value :: "(64 word \<Rightarrow> string) \<Rightarrow> json option \<Rightarrow> broker_credentials option" where
  "broker_from_value show_float v = Option.bind (Option.bind v as_object) (broker_from_object show_float)"

definition broker_as_value :: "broker_credentials \<Rightarrow> bool \<Rightarrow> json" where
  "broker_as_value c include_secrets =
     JObject (bt_collect
       ([(''endpoint'', JString (bc_endpoint c)), (''tls'', JBool (bc_tls c))]
        @ (if include_secrets then
             [(''username'', JString (bc_username c)), (''password'', JString (bc_password c))]
             @ (case bc_topic_prefix c of Some t \<Rightarrow> [(''topic_prefix'', JString t)] | None \<Rightarrow> [])
             @ (if bc_qos c \<noteq> 1 then [(''qos'', JNumber (PosInt (of_nat (bc_qos c))))] else [])
           else [])))"

section \<open>The identity\<close>

record identity =
  id_access_key :: string
  id_password :: string
  id_site_id :: string
  id_default_master :: string
  id_default_port :: nat
  id_default_path :: string
  id_public_key :: "string option"
  id_metadata :: jmap
  id_name :: "string option"
  id_endpoints :: endpoints
  id_protocols :: protocol_settings
  id_mqtt :: "broker_credentials option"

definition identity_from_object :: "'u url_lib \<Rightarrow> jmap \<Rightarrow> identity res" where
  "identity_from_object lib m =
     (let sf = ul_float lib
      in res_bind (required_string sf m ''access_key'' [''accessKey'', ''key'']) (\<lambda>access_key.
         res_bind (required_string sf m ''password'' [''secret'']) (\<lambda>password.
         res_bind (required_string sf m ''site_id'' [''siteId'', ''site'']) (\<lambda>site_id.
         res_bind (required_string sf m ''default_master'' [''defaultMaster'', ''host'', ''master'']) (\<lambda>master.
         res_bind (optional_port sf m [''default_port'', ''defaultPort'', ''port'']) (\<lambda>port.
           Inr \<lparr>id_access_key = access_key, id_password = password, id_site_id = site_id,
             id_default_master = trim_end_char CHR ''/'' master,
             id_default_port = (case port of Some n \<Rightarrow> n | None \<Rightarrow> 443),
             id_default_path = normalize_path
               (optional_string sf m [''default_path'', ''defaultPath'', ''hub_http_path'', ''path'', ''uri_path'']),
             id_public_key = optional_string sf m [''public_key'', ''publicKey''],
             id_metadata = (case get_object m ''metadata'' of Some d \<Rightarrow> d | None \<Rightarrow> []),
             id_name = optional_string sf m [''name''],
             id_endpoints = endpoints_from_object lib m,
             id_protocols = settings_from_object m,
             id_mqtt = broker_from_value sf (map_of m ''mqtt'')\<rparr>))))))"

definition identity_from_value :: "'u url_lib \<Rightarrow> json \<Rightarrow> identity res" where
  "identity_from_value lib v =
     (case as_object v of
        None \<Rightarrow> Inl (InvalidIdentity ''identity must be a JSON object'')
      | Some m \<Rightarrow> identity_from_object lib m)"

text \<open>What the derived \<open>Serialize\<close> writes: every field, an absent option as null, absent endpoints left out.\<close>

definition opt_json :: "('a \<Rightarrow> json) \<Rightarrow> 'a option \<Rightarrow> json" where
  "opt_json f x = (case x of Some y \<Rightarrow> f y | None \<Rightarrow> JNull)"

definition endpoints_json :: "endpoints \<Rightarrow> json" where
  "endpoints_json e =
     JObject (bt_collect (List.map_filter (\<lambda>(k, x). map_option (\<lambda>v. (k, JString v)) x)
       [(''https'', ep_https e), (''wss'', ep_wss e), (''mqtt'', ep_mqtt e)]))"

definition settings_json :: "protocol_settings \<Rightarrow> json" where
  "settings_json p =
     JObject (bt_collect [(''wss'', JBool (ps_wss p)), (''http'', JBool (ps_http p)), (''mqtt'', JBool (ps_mqtt p))])"

definition broker_json :: "broker_credentials \<Rightarrow> json" where
  "broker_json c =
     JObject (bt_collect
       [(''endpoint'', JString (bc_endpoint c)), (''username'', JString (bc_username c)),
        (''password'', JString (bc_password c)), (''topic_prefix'', opt_json JString (bc_topic_prefix c)),
        (''qos'', JNumber (PosInt (of_nat (bc_qos c)))), (''tls'', JBool (bc_tls c))])"

definition identity_json :: "identity \<Rightarrow> json" where
  "identity_json i =
     JObject (bt_collect
       [(''access_key'', JString (id_access_key i)), (''password'', JString (id_password i)),
        (''site_id'', JString (id_site_id i)), (''default_master'', JString (id_default_master i)),
        (''default_port'', JNumber (PosInt (of_nat (id_default_port i)))),
        (''default_path'', JString (id_default_path i)), (''public_key'', opt_json JString (id_public_key i)),
        (''metadata'', JObject (id_metadata i)), (''name'', opt_json JString (id_name i)),
        (''data_plane_endpoints'', endpoints_json (id_endpoints i)),
        (''protocols'', settings_json (id_protocols i)), (''mqtt'', opt_json broker_json (id_mqtt i))])"

section \<open>Files and profiles\<close>

definition profile_identity_object :: "jmap \<Rightarrow> jmap" where
  "profile_identity_object m = (case get_object m ''identity'' of Some d \<Rightarrow> d | None \<Rightarrow> m)"

definition identity_config_object :: "(64 word \<Rightarrow> string) \<Rightarrow> jmap \<Rightarrow> string option \<Rightarrow> jmap res" where
  "identity_config_object show_float m profile =
     (case get_object m ''profiles'' of
        None \<Rightarrow> Inr (profile_identity_object m)
      | Some profiles \<Rightarrow>
          (let name = (case or_else profile (optional_string show_float m [''profile'', ''default_profile'', ''defaultProfile'']) of
                         Some n \<Rightarrow> n | None \<Rightarrow> ''default'')
           in case get_object profiles name of
                Some selected \<Rightarrow> Inr (profile_identity_object selected)
              | None \<Rightarrow> Inl (InvalidIdentity (''missing Thalovant config profile: '' @ name))))"

definition read_secret :: "host \<Rightarrow> files \<Rightarrow> path \<Rightarrow> string \<Rightarrow> string res" where
  "read_secret h fs p description =
     res_bind (assert_secure_secret_file h fs p description) (\<lambda>_. io_res (read_to_string h fs p))"

definition identity_from_file ::
    "'u url_lib \<Rightarrow> (string \<Rightarrow> string + json) \<Rightarrow> host \<Rightarrow> files \<Rightarrow> path \<Rightarrow> identity res" where
  "identity_from_file lib json_parser h fs p =
     res_bind (read_secret h fs p ''identity file'') (\<lambda>raw.
       case json_parser raw of
         Inl e \<Rightarrow> Inl (Json e)
       | Inr v \<Rightarrow> identity_from_value lib v)"

definition identity_from_config_file ::
    "'u url_lib \<Rightarrow> (string \<Rightarrow> string + json) \<Rightarrow> host \<Rightarrow> files \<Rightarrow> path \<Rightarrow> string option \<Rightarrow> identity res" where
  "identity_from_config_file lib yaml_parser h fs p profile =
     res_bind (read_secret h fs p ''Thalovant config file'') (\<lambda>raw.
       case yaml_parser raw of
         Inl e \<Rightarrow> Inl (InvalidIdentity (''Thalovant config file is not valid YAML: '' @ e))
       | Inr v \<Rightarrow>
           (case as_object v of
              None \<Rightarrow> Inl (InvalidIdentity ''Thalovant config file must contain a YAML object'')
            | Some m \<Rightarrow>
                res_bind (identity_config_object (ul_float lib) m profile) (\<lambda>d. identity_from_value lib (JObject d))))"

text \<open>\<open>default_config_path\<close>: the folders on the way and the file name, for a platform that is Windows or not.\<close>

definition DEFAULT_CONFIG_FILENAME :: string where "DEFAULT_CONFIG_FILENAME = ''config.yaml''"

definition platform_config_path :: "bool \<Rightarrow> (string \<Rightarrow> string option) \<Rightarrow> string list res" where
  "platform_config_path windows env =
     (let home = (case env ''HOME'' of
                    Some h \<Rightarrow> Inr [h, ''.config'', ''thalovant'', DEFAULT_CONFIG_FILENAME]
                  | None \<Rightarrow> Inl (InvalidIdentity ''unable to resolve home directory''))
      in if windows then
           (case env ''APPDATA'' of
              Some d \<Rightarrow> if trim d \<noteq> [] then Inr [d, ''Thalovant'', DEFAULT_CONFIG_FILENAME] else home
            | None \<Rightarrow> home)
         else home)"

definition default_config_path :: "bool \<Rightarrow> (string \<Rightarrow> string option) \<Rightarrow> string list res" where
  "default_config_path windows env =
     (case env ''XDG_CONFIG_HOME'' of
        Some home \<Rightarrow>
          if trim home \<noteq> [] then Inr [home, ''thalovant'', DEFAULT_CONFIG_FILENAME]
          else platform_config_path windows env
      | None \<Rightarrow> platform_config_path windows env)"

section \<open>The environment\<close>

definition ENV_FIELDS :: "(string \<times> string) list" where
  "ENV_FIELDS =
     [(''ACCESS_KEY'', ''access_key''), (''PASSWORD'', ''password''), (''SITE_ID'', ''site_id''),
      (''DEFAULT_MASTER'', ''default_master''), (''HUB_HTTP_HOST'', ''default_master''),
      (''DEFAULT_PORT'', ''default_port''), (''DEFAULT_PATH'', ''default_path''),
      (''HUB_HTTP_PATH'', ''default_path''), (''HUB_HTTPS_HOST'', ''hub_https_host''),
      (''HUB_WSS_HOST'', ''hub_wss_host''), (''HUB_WEBSOCKET_HOST'', ''hub_websocket_host''),
      (''HUB_MQTT_HOST'', ''hub_mqtt_host''), (''MQTT_ENDPOINT'', ''mqtt_endpoint''),
      (''MQTT_USERNAME'', ''mqtt_username''), (''MQTT_PASSWORD'', ''mqtt_password''),
      (''MQTT_TOPIC_PREFIX'', ''mqtt_topic_prefix''), (''MQTT_QOS'', ''mqtt_qos''),
      (''PUBLIC_KEY'', ''public_key''), (''NAME'', ''name'')]"

definition env_object :: "(string \<Rightarrow> string option) \<Rightarrow> string \<Rightarrow> jmap" where
  "env_object env prefix =
     bt_collect (List.map_filter (\<lambda>(k, f). map_option (\<lambda>v. (f, JString v)) (env (prefix @ k))) ENV_FIELDS)"

text \<open>The entries of a map that are given, under the names of another.\<close>

definition taken_as :: "jmap \<Rightarrow> (string list \<times> string) list \<Rightarrow> jmap" where
  "taken_as m names =
     bt_collect (List.map_filter (\<lambda>(ks, name). map_option (\<lambda>v. (name, v)) (find_map (map_of m) ks)) names)"

definition insert_nonempty :: "string \<Rightarrow> jmap \<Rightarrow> jmap \<Rightarrow> jmap" where
  "insert_nonempty name d m = (if d = [] then m else bt_insert name (JObject d) m)"

text \<open>
  \<open>hub_websocket_host\<close> stays in the object when \<open>hub_wss_host\<close> was taken before it; nothing reads it there.
\<close>

definition env_identity_object :: "(string \<Rightarrow> string option) \<Rightarrow> string \<Rightarrow> jmap" where
  "env_identity_object env prefix =
     (let m = env_object env prefix;
          endpoints = taken_as m
            [([''hub_https_host'', ''default_master''], ''https''),
             ([''hub_wss_host'', ''hub_websocket_host''], ''wss''), ([''hub_mqtt_host''], ''mqtt'')];
          rest = fold bt_remove
            ([''hub_https_host'', ''hub_wss_host'', ''hub_mqtt_host'']
             @ (if map_of m ''hub_wss_host'' = None then [''hub_websocket_host''] else [])) m;
          rest = insert_nonempty ''data_plane_endpoints'' endpoints rest;
          mqtt = taken_as m
            [([''mqtt_endpoint'', ''hub_mqtt_host''], ''endpoint''), ([''mqtt_username''], ''username''),
             ([''mqtt_password''], ''password''), ([''mqtt_topic_prefix''], ''topic_prefix''), ([''mqtt_qos''], ''qos'')];
          rest = fold bt_remove
            [''mqtt_endpoint'', ''mqtt_username'', ''mqtt_password'', ''mqtt_topic_prefix'', ''mqtt_qos''] rest
      in insert_nonempty ''mqtt'' mqtt rest)"

definition identity_from_env_prefix :: "'u url_lib \<Rightarrow> (string \<Rightarrow> string option) \<Rightarrow> string \<Rightarrow> identity res" where
  "identity_from_env_prefix lib env prefix = identity_from_value lib (JObject (env_identity_object env prefix))"

section \<open>Where the hub is\<close>

definition base_url :: "'u url_lib \<Rightarrow> identity \<Rightarrow> string" where
  "base_url lib i = http_base lib (id_endpoints i) (id_default_master i) (id_default_port i) (id_default_path i)"

definition is_websocket_url :: "string \<Rightarrow> bool" where
  "is_websocket_url s = (let w = map ascii_lower s in starts_with w ''wss://'' \<or> starts_with w ''ws://'')"

definition endpoint_for :: "'u url_lib \<Rightarrow> identity \<Rightarrow> hub_protocol \<Rightarrow> string option" where
  "endpoint_for lib i q =
     (if q = Https then Some (base_url lib i)
      else case endpoint_of (id_endpoints i) q of
             Some e \<Rightarrow> Some e
           | None \<Rightarrow> if q = Wss \<and> is_websocket_url (id_default_master i) then Some (id_default_master i) else None)"

definition supports_protocol :: "identity \<Rightarrow> hub_protocol \<Rightarrow> bool" where
  "supports_protocol i q = is_enabled (id_protocols i) q"

section \<open>Written and read back\<close>

text \<open>An identity in normal form: every text trimmed and not empty, every endpoint and the path normal.\<close>

definition plain_text :: "string \<Rightarrow> bool" where
  "plain_text s \<longleftrightarrow> trim s = s \<and> s \<noteq> []"

definition normal_broker :: "broker_credentials \<Rightarrow> bool" where
  "normal_broker c \<longleftrightarrow>
     plain_text (bc_endpoint c) \<and> plain_text (bc_username c) \<and> plain_text (bc_password c)
     \<and> pred_option plain_text (bc_topic_prefix c) \<and> bc_qos c \<le> 1"

definition normal_endpoint :: "'u url_lib \<Rightarrow> string \<Rightarrow> bool" where
  "normal_endpoint lib e \<longleftrightarrow> plain_text e \<and> normalize_endpoint lib (Some e) = Some e"

definition normal_endpoints :: "'u url_lib \<Rightarrow> endpoints \<Rightarrow> bool" where
  "normal_endpoints lib e \<longleftrightarrow>
     pred_option (normal_endpoint lib) (ep_https e) \<and> pred_option (normal_endpoint lib) (ep_wss e)
     \<and> pred_option (normal_endpoint lib) (ep_mqtt e)"

definition normal_identity :: "'u url_lib \<Rightarrow> identity \<Rightarrow> bool" where
  "normal_identity lib i \<longleftrightarrow>
     plain_text (id_access_key i) \<and> plain_text (id_password i) \<and> plain_text (id_site_id i)
     \<and> plain_text (id_default_master i) \<and> trim_end_char CHR ''/'' (id_default_master i) = id_default_master i
     \<and> id_default_port i \<le> 65535
     \<and> (id_default_path i = []
        \<or> plain_text (id_default_path i) \<and> normalize_path (Some (id_default_path i)) = id_default_path i)
     \<and> pred_option plain_text (id_public_key i) \<and> pred_option plain_text (id_name i)
     \<and> normal_endpoints lib (id_endpoints i) \<and> pred_option normal_broker (id_mqtt i)"

lemma text_of_plain [simp]: "plain_text s \<Longrightarrow> text_of show_float (JString s) = Some s"
  by (simp add: text_of_def plain_text_def)

lemma text_of_null [simp]: "text_of show_float JNull = None" "text_of show_float (JString []) = None"
  by (simp_all add: text_of_def)

lemma text_of_number [simp]:
  "n < 2 ^ 64 \<Longrightarrow> text_of show_float (JNumber (PosInt (of_nat n))) = Some (show_nat n)"
  by (simp add: text_of_def value_text_def number_text_def unat_of_nat)

lemma text_of_opt [simp]:
  "pred_option plain_text x \<Longrightarrow> text_of show_float (opt_json JString x) = x"
  by (cases x) (simp_all add: opt_json_def)

lemma settings_json_read [simp]:
  "map_of m ''spec'' = None \<Longrightarrow> map_of m ''network'' = None \<Longrightarrow> map_of m ''protocols'' = Some (settings_json p)
   \<Longrightarrow> settings_from_object m = p"
  by (cases p) (simp add: settings_from_object_def settings_json_def get_object_def bt_collect_def List.map_filter_def
      enabled_value.simps first_value.simps)

lemma endpoints_json_read [simp]:
  assumes "map_of m ''data_plane_endpoints'' = Some (endpoints_json e)" "normal_endpoints lib e"
  shows "endpoints_from_object lib m = e"
proof -
  obtain h w q where e: "e = \<lparr>ep_https = h, ep_wss = w, ep_mqtt = q\<rparr>" by (cases e)
  show ?thesis
    using assms unfolding e
    by (cases h; cases w; cases q)
      (simp_all add: endpoints_from_object_def endpoints_json_def bt_collect_def List.map_filter_def first_string_def
        normal_endpoints_def normal_endpoint_def, simp_all add: normalize_endpoint_def)
qed

lemma broker_json_read [simp]:
  assumes "pred_option normal_broker c"
  shows "broker_from_value show_float (Some (opt_json broker_json c)) = c"
proof (cases c)
  case None
  then show ?thesis by (simp add: broker_from_value_def opt_json_def)
next
  case (Some b)
  then have "normal_broker b" using assms by simp
  then have "broker_from_value show_float (Some (broker_json b)) = Some b"
    by (cases b) (simp add: normal_broker_def broker_from_value_def broker_from_object_def broker_json_def bt_collect_def
        optional_u8_def optional_bool_def unat_of_nat min_def)
  then show ?thesis using Some by (simp add: opt_json_def)
qed

text \<open>
  An identity in normal form is written so that it is read back as it was: every field, the port as a
  number, the absent public key, name and credentials as null, the absent endpoints not at all.
\<close>

theorem identity_roundtrip:
  assumes "normal_identity lib i"
  shows "identity_from_value lib (identity_json i) = Inr i"
proof -
  obtain m where m: "identity_json i = JObject m" "m = bt_collect
       [(''access_key'', JString (id_access_key i)), (''password'', JString (id_password i)),
        (''site_id'', JString (id_site_id i)), (''default_master'', JString (id_default_master i)),
        (''default_port'', JNumber (PosInt (of_nat (id_default_port i)))),
        (''default_path'', JString (id_default_path i)), (''public_key'', opt_json JString (id_public_key i)),
        (''metadata'', JObject (id_metadata i)), (''name'', opt_json JString (id_name i)),
        (''data_plane_endpoints'', endpoints_json (id_endpoints i)),
        (''protocols'', settings_json (id_protocols i)), (''mqtt'', opt_json broker_json (id_mqtt i))]"
    by (simp add: identity_json_def)
  have "identity_from_object lib m = Inr i"
    using assms m(2)
    by (cases i) (auto simp: identity_from_object_def normal_identity_def required_string_def optional_port_def
        get_object_def bt_collect_def normalize_path_def)
  then show ?thesis using m(1) by (simp add: identity_from_value_def)
qed

definition sample_account :: identity where
  "sample_account =
     \<lparr>id_access_key = ''key'', id_password = ''secret'', id_site_id = ''site'', id_default_master = ''wss:hub'',
      id_default_port = 443, id_default_path = ''/hub'', id_public_key = None, id_metadata = [(''a'', JNull)],
      id_name = Some ''me'', id_endpoints = \<lparr>ep_https = Some ''https:hub'', ep_wss = None, ep_mqtt = None\<rparr>,
      id_protocols = \<lparr>ps_wss = True, ps_http = True, ps_mqtt = False\<rparr>,
      id_mqtt = Some \<lparr>bc_endpoint = ''mqtt:hub'', bc_username = ''key'', bc_password = ''pw'', bc_topic_prefix = None,
        bc_qos = 0, bc_tls = False\<rparr>\<rparr>"

lemma sample_account_normal: "normal_identity sample_urls sample_account"
proof -
  have plain: "plain_text s" if "s \<noteq> []" "list_all plain_char s" for s
    using that by (simp add: plain_text_def trim_plain list_all_iff)
  have https: "plain_text ''https:hub''" by (rule plain) (simp_all add: plain_char_def)
  then have "normal_endpoint sample_urls ''https:hub''"
    by (simp add: normal_endpoint_def normalize_endpoint_def plain_text_def sample_urls_def trim_end_char_def)
  then show ?thesis
    unfolding normal_identity_def sample_account_def
    by (simp add: normal_broker_def normal_endpoints_def plain plain_char_def trim_end_char_def trim_char_def
        normalize_path_def)
qed

lemma identity_roundtrip_witness:
  "identity_from_value sample_urls (identity_json sample_account) = Inr sample_account"
  by (rule identity_roundtrip [OF sample_account_normal])

section \<open>What the environment gives\<close>

text \<open>A field of the object is the last of the variables named for it that is set.\<close>

lemma env_object_get:
  "map_of (env_object env prefix) g
   = find_map (\<lambda>(k, f). if f = g then map_option JString (env (prefix @ k)) else None) (rev ENV_FIELDS)"
proof -
  have "map_of (rev (List.map_filter (\<lambda>(k, f). map_option (\<lambda>v. (f, JString v)) (env (prefix @ k))) xs)) g
      = find_map (\<lambda>(k, f). if f = g then map_option JString (env (prefix @ k)) else None) (rev xs)" for xs
  proof (induction xs)
    case (Cons x xs)
    then show ?case by (cases x) (auto simp: List.map_filter_def map_add_def or_else_def split: option.splits)
  qed (simp add: List.map_filter_def)
  then show ?thesis unfolding env_object_def bt_collect_rev .
qed

lemma fold_remove_get: "map_of (fold bt_remove ks m) k = (if k \<in> set ks then None else map_of m k)"
  by (induction ks arbitrary: m) auto

lemma insert_nonempty_get:
  "map_of (insert_nonempty name d m) k = (if k = name \<and> d \<noteq> [] then Some (JObject d) else map_of m k)"
  by (simp add: insert_nonempty_def)

text \<open>
  The host of the hub given by the environment is its HTTPS endpoint too, unless \<open>HUB_HTTPS_HOST\<close>
  names another, so that the path given beside it, \<open>DEFAULT_PATH\<close> or \<open>HUB_HTTP_PATH\<close>, is no part of the
  base URL: the base is the host's own URL with the port.
\<close>

theorem env_base_has_no_path:
  assumes i: "identity_from_env_prefix lib env prefix = Inr i"
    and none: "env (prefix @ ''HUB_HTTPS_HOST'') = None"
    and host: "or_else (env (prefix @ ''HUB_HTTP_HOST'')) (env (prefix @ ''DEFAULT_MASTER'')) = Some host"
    and e: "normalize_endpoint lib (Some host) = Some e"
  shows "base_url lib i = endpoint_base lib e (id_default_port i) []"
proof -
  let ?m = "env_object env prefix"
  have master: "map_of ?m ''default_master'' = Some (JString host)"
    using host by (auto simp: env_object_get ENV_FIELDS_def or_else_eq_Some split: option.splits)
  have https: "map_of ?m ''hub_https_host'' = None"
    using none by (simp add: env_object_get ENV_FIELDS_def)
  let ?d = "taken_as ?m [([''hub_https_host'', ''default_master''], ''https''),
             ([''hub_wss_host'', ''hub_websocket_host''], ''wss''), ([''hub_mqtt_host''], ''mqtt'')]"
  have d: "map_of ?d ''https'' = Some (JString host)"
    by (simp add: taken_as_def bt_collect_rev map_filter_simps master https split: option.splits)
  then have "?d \<noteq> []" by auto
  then have named: "map_of (env_identity_object env prefix) ''data_plane_endpoints'' = Some (JObject ?d)"
    by (simp add: env_identity_object_def insert_nonempty_get fold_remove_get Let_def)
  have "text_of (ul_float lib) (JString host) = Some (trim host)" "normalize_endpoint lib (Some (trim host)) = Some e"
    using e by (auto simp: text_of_def normalize_endpoint_def Let_def split: if_splits bind_splits)
  then have "ep_https (endpoints_from_object lib (env_identity_object env prefix)) = Some e"
    using d by (simp add: endpoints_from_object_def named first_string_def map_filter_simps Let_def)
  moreover have "id_endpoints i = endpoints_from_object lib (env_identity_object env prefix)"
    using i by (auto simp: identity_from_env_prefix_def identity_from_value_def identity_from_object_def Let_def
        res_bind_eq_Inr)
  ultimately show ?thesis by (simp add: base_url_def http_base_def)
qed

definition sample_env :: "string \<Rightarrow> string option" where
  "sample_env =
     map_of [(''T_ACCESS_KEY'', ''key''), (''T_PASSWORD'', ''secret''), (''T_SITE_ID'', ''site''),
       (''T_HUB_HTTP_HOST'', ''https:hub''), (''T_HUB_HTTP_PATH'', ''/hivemind'')]"

lemma sample_env_object:
  "env_identity_object sample_env ''T_'' =
     [(''access_key'', JString ''key''),
      (''data_plane_endpoints'', JObject [(''https'', JString ''https:hub'')]),
      (''default_master'', JString ''https:hub''), (''default_path'', JString ''/hivemind''),
      (''password'', JString ''secret''), (''site_id'', JString ''site'')]"
proof -
  have "env_object sample_env ''T_'' =
     [(''access_key'', JString ''key''), (''default_master'', JString ''https:hub''),
      (''default_path'', JString ''/hivemind''), (''password'', JString ''secret''), (''site_id'', JString ''site'')]"
    by (simp add: env_object_def ENV_FIELDS_def sample_env_def map_filter_simps bt_collect_def)
  then show ?thesis
    by (simp add: env_identity_object_def Let_def taken_as_def map_filter_simps bt_collect_def insert_nonempty_def
        bt_remove_def)
qed

lemma env_base_has_no_path_witness:
  "\<exists>i. identity_from_env_prefix sample_urls sample_env ''T_'' = Inr i
     \<and> id_default_path i = ''/hivemind'' \<and> base_url sample_urls i = endpoint_base sample_urls ''https:hub'' 443 []"
proof -
  have plain: "trim s = s" if "s \<noteq> []" "list_all plain_char s" for s
    using that by (simp add: trim_plain list_all_iff)
  have t: "trim ''key'' = ''key''" "trim ''secret'' = ''secret''" "trim ''site'' = ''site''"
    "trim ''https:hub'' = ''https:hub''" "trim ''/hivemind'' = ''/hivemind''"
    by (rule plain; simp add: plain_char_def)+
  have "\<exists>i. identity_from_env_prefix sample_urls sample_env ''T_'' = Inr i
      \<and> id_default_path i = ''/hivemind'' \<and> id_default_port i = 443"
    by (simp add: identity_from_env_prefix_def sample_env_object identity_from_value_def identity_from_object_def
        required_string_def optional_port_def text_of_def t normalize_path_def trim_char_def trim_end_char_def)
  then obtain i where i: "identity_from_env_prefix sample_urls sample_env ''T_'' = Inr i"
    "id_default_path i = ''/hivemind''" "id_default_port i = 443" by blast
  have "normalize_endpoint sample_urls (Some ''https:hub'') = Some ''https:hub''"
    by (simp add: normalize_endpoint_def t sample_urls_def trim_end_char_def)
  then show ?thesis using env_base_has_no_path [OF i(1)] i by (simp add: sample_env_def)
qed

end
