(* ===== verification/Languages.thy ===== *)
theory Languages
  imports Prelude
begin

text \<open>
  \<open>src/src/language_matching.rs\<close>: how far two language tags are apart, the closest of those on offer and the
  form a language is usually written in. The tables of CLDR that the file embeds are a parameter, and so is
  Unicode's lower case, which the tags of the tables and of a hub never need beyond ASCII.
\<close>

record language_tables =
  lt_lower :: "string \<Rightarrow> string"
  lt_likely :: "string \<Rightarrow> string option"
  lt_languages :: "string \<Rightarrow> string option"
  lt_scripts :: "string \<Rightarrow> string option"
  lt_territories :: "string \<Rightarrow> string option"
  lt_default_scripts :: "string \<Rightarrow> string option"
  lt_macrolanguages :: "string \<Rightarrow> string option"
  lt_distances :: "string \<Rightarrow> string \<Rightarrow> nat option"
  lt_inside :: "string \<Rightarrow> string \<Rightarrow> bool"

record language_tag =
  tg_language :: string
  tg_script :: string
  tg_region :: string

definition upper_char :: "char \<Rightarrow> char" where
  "upper_char c = (let n = of_char c :: nat in if 97 \<le> n \<and> n \<le> 122 then char_of (n - 32) else c)"

definition lower_letter :: "char \<Rightarrow> bool" where
  "lower_letter c \<longleftrightarrow> 97 \<le> (of_char c :: nat) \<and> (of_char c :: nat) \<le> 122"

fun split_char :: "char \<Rightarrow> string \<Rightarrow> string list" where
  "split_char d [] = [[]]"
| "split_char d (c # s) =
     (if c = d then [] # split_char d s
      else case split_char d s of t # ts \<Rightarrow> (c # t) # ts | [] \<Rightarrow> [[c]])"

fun join_dash :: "string list \<Rightarrow> string" where
  "join_dash [] = []"
| "join_dash [x] = x"
| "join_dash (x # xs) = x @ ''-'' @ join_dash xs"

definition replace_char :: "char \<Rightarrow> char \<Rightarrow> string \<Rightarrow> string" where
  "replace_char old new s = map (\<lambda>c. if c = old then new else c) s"

definition tag_script :: "string \<Rightarrow> bool" where
  "tag_script s \<longleftrightarrow> length s = 4 \<and> list_all lower_letter s"

definition tag_region :: "string \<Rightarrow> bool" where
  "tag_region s \<longleftrightarrow> (length s = 2 \<and> list_all lower_letter s) \<or> (length s = 3 \<and> list_all dec_digit s)"

section \<open>Reading a tag\<close>

text \<open>The subtags after the language, up to a single letter, which begins an extension.\<close>

fun read_subtags :: "language_tables \<Rightarrow> string list \<Rightarrow> language_tag \<Rightarrow> language_tag" where
  "read_subtags T [] t = t"
| "read_subtags T (k # ks) t =
     (if length k = 1 then t
      else read_subtags T ks
        (if tag_script k then
           t\<lparr>tg_script := (case lt_scripts T k of Some s \<Rightarrow> s | None \<Rightarrow> upper_char (hd k) # tl k)\<rparr>
         else if tag_region k then
           t\<lparr>tg_region := (case lt_territories T k of Some r \<Rightarrow> r | None \<Rightarrow> map upper_char k)\<rparr>
         else t))"

definition read_tag :: "language_tables \<Rightarrow> (string \<Rightarrow> language_tag option) \<Rightarrow> string \<Rightarrow> language_tag" where
  "read_tag T known value =
     (let tokens = split_char CHR ''-'' value;
          primary = (if hd tokens = [] then ''und'' else hd tokens);
          start = (case known primary of Some t \<Rightarrow> t | None \<Rightarrow> \<lparr>tg_language = primary, tg_script = [], tg_region = []\<rparr>);
          t = read_subtags T (tl tokens) start;
          t = (if lt_default_scripts T (tg_language t) = Some (tg_script t) then t\<lparr>tg_script := []\<rparr> else t)
      in if tg_language t = ''pt'' \<and> tg_script t = [] \<and> tg_region t = [] \<and> list_all tag_script (tl tokens)
         then t\<lparr>tg_region := ''PT''\<rparr> else t)"

definition fold_tag :: "language_tables \<Rightarrow> string \<Rightarrow> string" where
  "fold_tag T value = lt_lower T (replace_char CHR ''_'' CHR ''-'' (trim value))"

definition parse_plain :: "language_tables \<Rightarrow> string \<Rightarrow> language_tag" where
  "parse_plain T value = read_tag T (\<lambda>_. None) (fold_tag T value)"

definition parse_tag :: "language_tables \<Rightarrow> string \<Rightarrow> language_tag" where
  "parse_tag T value =
     (let v = fold_tag T value;
          v = (case lt_languages T v of Some alias \<Rightarrow> lt_lower T alias | None \<Rightarrow> v)
      in read_tag T (\<lambda>primary. map_option (parse_plain T) (lt_languages T primary)) v)"

section \<open>The likely subtags\<close>

definition join_parts :: "string list \<Rightarrow> string" where
  "join_parts parts = join_dash (filter (\<lambda>p. p \<noteq> []) parts)"

definition likely_probes :: "language_tag \<Rightarrow> string list" where
  "likely_probes t =
     [join_parts [tg_language t, tg_script t, tg_region t], join_parts [tg_language t, tg_region t],
      join_parts [tg_language t, tg_script t], tg_language t]
     @ (if tg_script t \<noteq> [] then [''und-'' @ tg_script t] else []) @ [''und'']"

text \<open>The tables have an entry for \<open>und\<close>, and every entry has a language, a script and a region.\<close>

definition tables_ok :: "language_tables \<Rightarrow> bool" where
  "tables_ok T \<longleftrightarrow>
     lt_likely T ''und'' \<noteq> None \<and> (\<forall>k v. lt_likely T k = Some v \<longrightarrow> length (split_char CHR ''-'' v) = 3)"

definition maximize :: "language_tables \<Rightarrow> language_tag \<Rightarrow> language_tag" where
  "maximize T t =
     (if tg_language t = ''und'' \<and> tg_script t = [] \<and> tg_region t = []
      then \<lparr>tg_language = ''und'', tg_script = ''Zzzz'', tg_region = ''ZZ''\<rparr>
      else
        (let t = (case lt_macrolanguages T (tg_language t) of Some l \<Rightarrow> t\<lparr>tg_language := l\<rparr> | None \<Rightarrow> t);
             parts = split_char CHR ''-'' (the (find_map (lt_likely T) (likely_probes t)))
         in \<lparr>tg_language = (if tg_language t = ''und'' then parts ! 0 else tg_language t),
             tg_script = (if tg_script t = [] then parts ! 1 else tg_script t),
             tg_region = (if tg_region t = [] then parts ! 2 else tg_region t)\<rparr>))"

text \<open>The tables answer every probe: the embedded ones hold \<open>und\<close>, so the \<open>expect\<close> never fails.\<close>

lemma likely_found: "tables_ok T \<Longrightarrow> \<exists>v. find_map (lt_likely T) (likely_probes t) = Some v \<and> length (split_char CHR ''-'' v) = 3"
proof -
  assume ok: "tables_ok T"
  then obtain u where u: "lt_likely T ''und'' = Some u" by (auto simp: tables_ok_def)
  have "''und'' \<in> set (likely_probes t)" by (simp add: likely_probes_def)
  then have "find_map (lt_likely T) (likely_probes t) \<noteq> None" using u by (metis find_map_None option.distinct(1))
  then obtain v where v: "find_map (lt_likely T) (likely_probes t) = Some v" by blast
  then obtain k where "lt_likely T k = Some v" using find_map_Some [OF v] by auto
  then show ?thesis using v ok by (auto simp: tables_ok_def)
qed

section \<open>Distance\<close>

definition language_script :: "language_tag \<Rightarrow> string" where
  "language_script t = tg_language t @ ''_'' @ tg_script t"

definition region_distance :: "language_tables \<Rightarrow> language_tag \<Rightarrow> language_tag \<Rightarrow> nat" where
  "region_distance T a b =
     (let split = (\<lambda>g. lt_inside T g (tg_region a) \<noteq> lt_inside T g (tg_region b))
      in if language_script a \<noteq> language_script b then 4
         else if tg_language a = ''ar'' then (if split ''MAGHREB'' then 5 else 4)
         else if tg_language a = ''en'' then
           (if (tg_region a = ''GB'' \<and> \<not> lt_inside T ''US'' (tg_region b))
             \<or> (\<not> lt_inside T ''US'' (tg_region a) \<and> tg_region b = ''GB'') then 3
            else if split ''US'' then 5 else 4)
         else if lt_inside T ''LATIN_AMERICA'' (tg_region a) \<and> tg_region b = ''419'' then 1
         else if tg_language a = ''es'' \<or> tg_language a = ''pt'' then (if split ''AMERICAS'' then 5 else 4)
         else if language_script a = ''zh_Hant'' \<and> split ''CNSAR'' then 5
         else 4)"

definition tag_distance :: "language_tables \<Rightarrow> language_tag \<Rightarrow> language_tag \<Rightarrow> nat" where
  "tag_distance T a b =
     (let look = (\<lambda>x y fallback. case lt_distances T x y of Some d \<Rightarrow> d | None \<Rightarrow> fallback);
          result = (if tg_language a = tg_language b then 0 else look (tg_language a) (tg_language b) 80)
            + (if tg_script a = tg_script b then 0 else look (language_script a) (language_script b) 50)
      in if tg_region a = tg_region b then result else result + region_distance T a b)"

definition distance :: "language_tables \<Rightarrow> string \<Rightarrow> string \<Rightarrow> nat" where
  "distance T wanted candidate =
     tag_distance T (maximize T (parse_tag T wanted)) (maximize T (parse_tag T candidate))"

section \<open>The closest on offer\<close>

definition closest_step :: "language_tables \<Rightarrow> string \<Rightarrow> string \<Rightarrow> (string \<times> nat) option \<Rightarrow> (string \<times> nat) option" where
  "closest_step T target candidate best =
     (let d = distance T target candidate
      in case best of
           None \<Rightarrow> Some (candidate, d)
         | Some (_, least) \<Rightarrow> if d < least then Some (candidate, d) else best)"

definition closest_language :: "language_tables \<Rightarrow> string \<Rightarrow> string list \<Rightarrow> string option" where
  "closest_language T target available =
     (case fold (closest_step T target) available None of
        Some (best, least) \<Rightarrow> if least \<le> 10 then Some best else None
      | None \<Rightarrow> None)"

definition usual_form :: "language_tables \<Rightarrow> string \<Rightarrow> string option" where
  "usual_form T tag =
     (if trim tag = [] then None
      else
        (let base = tg_language (parse_tag T tag)
         in if base = [] \<or> base = ''und'' \<or> lt_likely T base = None then None
            else
              (let likely = maximize T \<lparr>tg_language = base, tg_script = [], tg_region = []\<rparr>;
                   usual = lt_lower T (if tg_region likely = [] then tg_language likely
                                       else tg_language likely @ ''-'' @ tg_region likely)
               in if usual = trim tag then None else Some usual)))"

section \<open>What the closest is\<close>

lemma distance_self: "parse_tag T a = parse_tag T b \<Longrightarrow> distance T a b = 0"
  by (simp add: distance_def tag_distance_def)

text \<open>What the loop holds: the first of those at the least distance.\<close>

definition first_least :: "('a \<Rightarrow> nat) \<Rightarrow> 'a list \<Rightarrow> 'a \<Rightarrow> bool" where
  "first_least f xs x \<longleftrightarrow>
     (\<exists>before after. xs = before @ x # after \<and> (\<forall>y \<in> set before. f x < f y) \<and> (\<forall>y \<in> set after. f x \<le> f y))"

lemma first_least_le: "first_least f xs x \<Longrightarrow> y \<in> set xs \<Longrightarrow> f x \<le> f y"
  by (auto simp: first_least_def less_imp_le)

lemma first_least_in: "first_least f xs x \<Longrightarrow> x \<in> set xs"
  by (auto simp: first_least_def)

lemma first_least_snoc:
  assumes "first_least f xs x"
  shows "first_least f (xs @ [y]) (if f y < f x then y else x)"
proof (cases "f y < f x")
  case True
  have "\<forall>z \<in> set xs. f y < f z" using True first_least_le [OF assms] by force
  then have "first_least f (xs @ [y]) y" unfolding first_least_def by (intro exI [of _ xs] exI [of _ "[]"]) simp
  then show ?thesis using True by simp
next
  case False
  obtain before after where "xs = before @ x # after" "\<forall>z \<in> set before. f x < f z" "\<forall>z \<in> set after. f x \<le> f z"
    using assms by (auto simp: first_least_def)
  then have "first_least f (xs @ [y]) x"
    using False unfolding first_least_def by (intro exI [of _ before] exI [of _ "after @ [y]"]) auto
  then show ?thesis using False by simp
qed

lemma first_least_single [simp]: "first_least f [x] x"
  using append_Nil unfolding first_least_def by (intro exI [of _ "[]"]) simp

lemma first_least_unique:
  assumes t: "first_least f xs t" and u: "first_least f xs u"
  shows "t = u"
proof (rule ccontr)
  assume ne: "t \<noteq> u"
  obtain b a where t': "xs = b @ t # a" "\<forall>y \<in> set b. f t < f y" using t by (auto simp: first_least_def)
  obtain d c where u': "xs = d @ u # c" "\<forall>y \<in> set d. f u < f y" using u by (auto simp: first_least_def)
  have "t \<in> set d \<or> u \<in> set b"
    using t'(1) u'(1) ne by (auto simp: append_eq_append_conv2 Cons_eq_append_conv append_eq_Cons_conv)
  then have "f u < f t \<or> f t < f u" using t'(2) u'(2) by blast
  moreover have "f t \<le> f u" "f u \<le> f t" using t u first_least_le first_least_in by metis+
  ultimately show False by simp
qed

lemma closest_step_Some:
  "closest_step T target y (Some (x, d)) = (if distance T target y < d then Some (y, distance T target y) else Some (x, d))"
  by (simp add: closest_step_def Let_def)

lemma closest_fold_is:
  "case fold (closest_step T target) xs None of
     None \<Rightarrow> xs = []
   | Some (x, d) \<Rightarrow> d = distance T target x \<and> first_least (distance T target) xs x"
proof (induction xs rule: rev_induct)
  case (snoc y xs)
  show ?case
  proof (cases "fold (closest_step T target) xs None")
    case None
    then have "xs = []" using snoc by simp
    then show ?thesis by (simp add: closest_step_def Let_def)
  next
    case (Some p)
    obtain x d where p: "p = (x, d)" by (cases p)
    have x: "d = distance T target x" "first_least (distance T target) xs x" using snoc Some p by auto
    show ?thesis using first_least_snoc [OF x(2), of y] x(1) Some p by (simp add: closest_step_Some split: if_splits)
  qed
qed simp

text \<open>The closest language is the first of those at the least distance, when that is at most ten.\<close>

lemma closest_language_Some:
  "closest_language T target xs = Some t \<longleftrightarrow> first_least (distance T target) xs t \<and> distance T target t \<le> 10"
proof (cases "fold (closest_step T target) xs None")
  case None
  then have "xs = []" using closest_fold_is [where T = T and target = target and xs = xs] by simp
  then show ?thesis by (simp add: closest_language_def first_least_def)
next
  case (Some p)
  obtain x d where p: "p = (x, d)" by (cases p)
  then have x: "d = distance T target x" "first_least (distance T target) xs x"
    using closest_fold_is [where T = T and target = target and xs = xs] Some by auto
  then show ?thesis using Some p by (auto simp: closest_language_def dest: first_least_unique)
qed

lemma closest_language_None:
  "closest_language T target xs = None \<longleftrightarrow> (\<forall>t \<in> set xs. 10 < distance T target t)"
proof (cases "fold (closest_step T target) xs None")
  case None
  then have "xs = []" using closest_fold_is [where T = T and target = target and xs = xs] by simp
  then show ?thesis by (simp add: closest_language_def)
next
  case (Some p)
  obtain x d where p: "p = (x, d)" by (cases p)
  then have x: "d = distance T target x" "first_least (distance T target) xs x"
    using closest_fold_is [where T = T and target = target and xs = xs] Some by auto
  have "(\<forall>t \<in> set xs. 10 < distance T target t) \<longleftrightarrow> 10 < d"
    using x(1) first_least_in [OF x(2)] first_least_le [OF x(2)] by (metis order.strict_trans2)
  then show ?thesis using Some p by (simp add: closest_language_def)
qed

lemma closest_language_in: "closest_language T target xs = Some t \<Longrightarrow> t \<in> set xs"
  by (auto simp: closest_language_Some first_least_in)

text \<open>A language that is on offer in any spelling is taken: one as close as itself.\<close>

lemma closest_language_same:
  assumes "t \<in> set xs" "parse_tag T target = parse_tag T t"
  shows "\<exists>u. closest_language T target xs = Some u \<and> distance T target u = 0"
proof -
  have d: "distance T target t = 0" using distance_self assms(2) by simp
  then have "\<not> (\<forall>t \<in> set xs. 10 < distance T target t)" using assms(1) by (metis not_less_zero)
  then have "closest_language T target xs \<noteq> None" by (simp add: closest_language_None)
  then obtain u where u: "closest_language T target xs = Some u" by blast
  then have "distance T target u \<le> distance T target t"
    using assms(1) first_least_le by (fastforce simp: closest_language_Some)
  then show ?thesis using u d by simp
qed

end
