(* ===== verification/Intents.thy ===== *)
theory Intents
  imports Refusal Languages Canonical_Json
begin

text \<open>
  The data of \<open>src/src/intents.rs\<close>: a row of a hub's intent manifest, a described definition, the inventory
  built of them, the skills that answer what nothing else matched, and how each is read from an event.
\<close>

section \<open>Options and sources\<close>

definition EVENT_INTENT_LIST :: string where "EVENT_INTENT_LIST = ''ovos.intent.list''"
definition EVENT_INTENT_LIST_RESPONSE :: string where "EVENT_INTENT_LIST_RESPONSE = ''ovos.intent.list.response''"
definition EVENT_INTENT_DESCRIBE :: string where "EVENT_INTENT_DESCRIBE = ''ovos.intent.describe''"
definition EVENT_INTENT_DESCRIBE_RESPONSE :: string where
  "EVENT_INTENT_DESCRIBE_RESPONSE = ''ovos.intent.describe.response''"
definition EVENT_ADAPT_MANIFEST_GET :: string where
  "EVENT_ADAPT_MANIFEST_GET = ''intent.service.adapt.manifest.get''"
definition EVENT_ADAPT_MANIFEST :: string where "EVENT_ADAPT_MANIFEST = ''intent.service.adapt.manifest''"
definition EVENT_PADATIOUS_MANIFEST_GET :: string where
  "EVENT_PADATIOUS_MANIFEST_GET = ''intent.service.padatious.manifest.get''"
definition EVENT_PADATIOUS_MANIFEST :: string where
  "EVENT_PADATIOUS_MANIFEST = ''intent.service.padatious.manifest''"
definition EVENT_SKILLS_LIST :: string where "EVENT_SKILLS_LIST = ''ovos.skills.list''"
definition EVENT_SKILLS_LIST_RESPONSE :: string where "EVENT_SKILLS_LIST_RESPONSE = ''ovos.skills.list.response''"

definition DEFAULT_INTENT_TIMEOUT :: duration where "DEFAULT_INTENT_TIMEOUT = from_secs 5"
definition FALLBACK_PROBE_TIMEOUT :: duration where "FALLBACK_PROBE_TIMEOUT = from_millis 1500"
definition DESCRIBE_BATCH :: nat where "DESCRIBE_BATCH = 32"
definition DEFAULT_LANG :: string where "DEFAULT_LANG = ''en-us''"
definition FALLBACK_CAPABILITY :: string where "FALLBACK_CAPABILITY = ''fallback''"

record inventory_options =
  io_timeout :: "duration option"
  io_describe :: bool
  io_fallback :: bool
  io_nearest :: bool

definition default_inventory_options :: inventory_options where
  "default_inventory_options = \<lparr>io_timeout = None, io_describe = True, io_fallback = True, io_nearest = True\<rparr>"

datatype inventory_source = IntentManifest | EngineManifests

definition source_as_str :: "inventory_source \<Rightarrow> string" where
  "source_as_str s = (case s of IntentManifest \<Rightarrow> ''intent-manifest'' | EngineManifests \<Rightarrow> ''engine-manifests'')"

section \<open>Languages\<close>

definition fold_language :: "language_tables \<Rightarrow> string \<Rightarrow> string" where
  "fold_language T tag = replace_char CHR ''_'' CHR ''-'' (lt_lower T (trim tag))"

definition same_language :: "language_tables \<Rightarrow> string \<Rightarrow> string \<Rightarrow> bool" where
  "same_language T a b \<longleftrightarrow> fold_language T a = fold_language T b"

definition choose_language :: "language_tables \<Rightarrow> string \<Rightarrow> string list \<Rightarrow> string list" where
  "choose_language T language chosen =
     (let tag = trim language
      in if tag \<noteq> [] \<and> \<not> list_ex (\<lambda>seen. same_language T seen tag) chosen then chosen @ [tag] else chosen)"

definition chosen_languages :: "language_tables \<Rightarrow> string list \<Rightarrow> string list" where
  "chosen_languages T languages =
     (let chosen = fold (choose_language T) languages [] in if chosen = [] then [DEFAULT_LANG] else chosen)"

section \<open>Rows and definitions\<close>

definition text_field :: "jmap \<Rightarrow> string \<Rightarrow> string" where
  "text_field m key = (case Option.bind (map_of m key) as_str of Some s \<Rightarrow> trim s | None \<Rightarrow> [])"

definition engine_for_method :: "string \<Rightarrow> string" where
  "engine_for_method m =
     (if m = ''template'' then ''padatious'' else if m = ''keyword'' then ''adapt''
      else if m = [] then ''unknown'' else m)"

record intent_row =
  ir_skill_id :: string
  ir_intent_name :: string
  ir_lang :: string
  ir_method :: string
  ir_enabled :: bool
  ir_session_id :: string
  ir_definition :: "jmap option"

definition row_from_object :: "jmap \<Rightarrow> intent_row option" where
  "row_from_object m =
     (if text_field m ''skill_id'' = [] \<or> text_field m ''intent_name'' = [] then None
      else Some \<lparr>ir_skill_id = text_field m ''skill_id'', ir_intent_name = text_field m ''intent_name'',
             ir_lang = text_field m ''lang'', ir_method = text_field m ''method'',
             ir_enabled = (map_of m ''enabled'' \<noteq> Some (JBool False)),
             ir_session_id = (let s = text_field m ''session_id'' in if s = [] then ''default'' else s),
             ir_definition = get_object m ''definition''\<rparr>)"

definition row_from_value :: "json \<Rightarrow> intent_row option" where
  "row_from_value v = Option.bind (as_object v) row_from_object"

definition row_engine :: "intent_row \<Rightarrow> string" where
  "row_engine r = engine_for_method (ir_method r)"

definition samples_of :: "jmap \<Rightarrow> string list" where
  "samples_of m =
     (case Option.bind (map_of m ''samples'') as_array of
        None \<Rightarrow> []
      | Some items \<Rightarrow> filter (\<lambda>t. t \<noteq> []) (map trim (List.map_filter as_str items)))"

record intent_definition =
  df_skill_id :: string
  df_intent_name :: string
  df_lang :: string
  df_method :: string
  df_samples :: "string list"
  df_raw :: jmap

definition definition_from_value :: "json \<Rightarrow> intent_definition option" where
  "definition_from_value v =
     Option.bind (as_object v) (\<lambda>item.
     Option.bind (get_object item ''definition'') (\<lambda>m.
       if text_field m ''skill_id'' = [] \<or> text_field m ''intent_name'' = [] then None
       else Some \<lparr>df_skill_id = text_field m ''skill_id'', df_intent_name = text_field m ''intent_name'',
              df_lang = text_field m ''lang'',
              df_method = (let s = text_field item ''method'' in if s = [] then text_field m ''method'' else s),
              df_samples = samples_of m, df_raw = m\<rparr>))"

section \<open>The inventory\<close>

record hub_intent =
  hi_skill_id :: string
  hi_name :: string
  hi_engine :: string
  hi_enabled :: bool
  hi_phrases :: "(string, string list) btree"

definition intent_id :: "hub_intent \<Rightarrow> string" where
  "intent_id i = hi_skill_id i @ CHR '':'' # hi_name i"

definition intent_languages :: "hub_intent \<Rightarrow> string list" where
  "intent_languages i = map fst (hi_phrases i)"

definition phrases_for :: "language_tables \<Rightarrow> hub_intent \<Rightarrow> string \<Rightarrow> string list" where
  "phrases_for T i lang =
     (case Option.bind (closest_language T lang (map fst (hi_phrases i))) (map_of (hi_phrases i)) of
        Some ps \<Rightarrow> ps | None \<Rightarrow> [])"

definition intent_as_value :: "hub_intent \<Rightarrow> json" where
  "intent_as_value i =
     JObject (bt_collect
       [(''id'', JString (intent_id i)), (''skill_id'', JString (hi_skill_id i)), (''name'', JString (hi_name i)),
        (''engine'', JString (hi_engine i)), (''enabled'', JBool (hi_enabled i)),
        (''phrases'', JObject (map (\<lambda>(l, ps). (l, JArray (map JString ps))) (hi_phrases i)))])"

record hub_skill =
  hs_skill_id :: string
  hs_intents :: "hub_intent list"

definition skill_languages :: "hub_skill \<Rightarrow> string list" where
  "skill_languages s =
     map fst (bt_collect (map (\<lambda>l. (l, ())) (concat (map (\<lambda>i. map fst (hi_phrases i)) (hs_intents s)))))"

definition skill_as_value :: "hub_skill \<Rightarrow> json" where
  "skill_as_value s =
     JObject (bt_collect
       [(''skill_id'', JString (hs_skill_id s)), (''languages'', JArray (map JString (skill_languages s))),
        (''intents'', JArray (map intent_as_value (hs_intents s)))])"

record inventory =
  iv_languages :: "string list"
  iv_skills :: "hub_skill list"
  iv_source :: inventory_source
  iv_denied :: "string list"
  iv_listed_in :: "string list"

definition inventory_intents :: "inventory \<Rightarrow> hub_intent list" where
  "inventory_intents v = concat (map hs_intents (iv_skills v))"

definition has_phrases :: "inventory \<Rightarrow> bool" where
  "has_phrases v = list_ex (\<lambda>i. list_ex (\<lambda>(l, ps). ps \<noteq> []) (hi_phrases i)) (inventory_intents v)"

definition inventory_map :: "inventory \<Rightarrow> jmap" where
  "inventory_map v =
     bt_collect
       [(''languages'', JArray (map JString (iv_languages v))), (''source'', JString (source_as_str (iv_source v))),
        (''denied'', JArray (map JString (iv_denied v))), (''skills'', JArray (map skill_as_value (iv_skills v))),
        (''listed_in'', JArray (map JString (iv_listed_in v)))]"

definition inventory_as_value :: "inventory \<Rightarrow> json" where
  "inventory_as_value v = JObject (inventory_map v)"

section \<open>Skills that take what nothing else matched\<close>

text \<open>A fallback is its skill id: its \<open>priority\<close> is always null.\<close>

record capabilities =
  cp_inventory :: inventory
  cp_fallbacks :: "string list"
  cp_fallbacks_known :: bool

definition may_answer :: "language_tables \<Rightarrow> capabilities \<Rightarrow> string \<Rightarrow> bool" where
  "may_answer T c lang \<longleftrightarrow>
     \<not> cp_fallbacks_known c \<or> cp_fallbacks c \<noteq> []
     \<or> list_ex (\<lambda>i. hi_enabled i \<and> phrases_for T i lang \<noteq> []) (inventory_intents (cp_inventory c))"

definition fallback_json :: "string \<Rightarrow> json" where
  "fallback_json s = JObject (bt_collect [(''skill_id'', JString s), (''priority'', JNull)])"

definition capabilities_as_value :: "capabilities \<Rightarrow> json" where
  "capabilities_as_value c =
     JObject (bt_insert ''fallbacks_known'' (JBool (cp_fallbacks_known c))
       (bt_insert ''fallbacks'' (JArray (map fallback_json (cp_fallbacks c))) (inventory_map (cp_inventory c))))"

definition fallback_of_row :: "json \<Rightarrow> string option" where
  "fallback_of_row row =
     Option.bind (as_object row) (\<lambda>m.
     Option.bind (Option.bind (map_of m ''skill_id'') as_str) (\<lambda>raw.
       let skill_id = trim raw;
           own = (case map_of m ''session_id'' of
                    None \<Rightarrow> True | Some JNull \<Rightarrow> True
                  | Some (JString s) \<Rightarrow> s = [] \<or> s = ''default'' | Some _ \<Rightarrow> False)
       in if skill_id = [] \<or> \<not> own then None
          else Option.bind (Option.bind (map_of m ''capabilities'') as_array) (\<lambda>cs.
            if list_ex (\<lambda>c. as_str c = Some FALLBACK_CAPABILITY) cs then Some skill_id else None)))"

definition fallbacks_from_skills :: "json list \<Rightarrow> string list" where
  "fallbacks_from_skills rows = map fst (bt_collect (map (\<lambda>s. (s, ())) (List.map_filter fallback_of_row rows)))"

section \<open>Reading an answer\<close>

definition refused_query :: "event \<Rightarrow> bool" where
  "refused_query e \<longleftrightarrow> map_of (e_data e) ''ok'' = Some (JBool False)"

definition registrations_of :: "event \<Rightarrow> intent_row list" where
  "registrations_of e =
     (case Option.bind (map_of (e_data e) ''intents'') as_array of
        None \<Rightarrow> [] | Some rows \<Rightarrow> List.map_filter row_from_value rows)"

definition definitions_of :: "event \<Rightarrow> intent_definition list" where
  "definitions_of e =
     (if refused_query e then []
      else case Option.bind (map_of (e_data e) ''definitions'') as_array of
             None \<Rightarrow> [] | Some items \<Rightarrow> List.map_filter definition_from_value items)"

definition listing_error :: "(json \<Rightarrow> string) \<Rightarrow> event \<Rightarrow> string" where
  "listing_error show_json e =
     (let detail = (case map_of (e_data e) ''error'' of
                      Some (JString t) \<Rightarrow> trim t | Some JNull \<Rightarrow> [] | None \<Rightarrow> [] | Some v \<Rightarrow> show_json v)
      in EVENT_INTENT_LIST @ '' failed: ''
         @ (if detail = [] then ''the hub refused the listing'' else detail))"

definition denied_type_of :: "event \<Rightarrow> string option" where
  "denied_type_of e =
     (if e_name e \<noteq> EVENT_POLICY_DENIED then None else Option.bind (map_of (e_data e) ''denied_type'') as_str)"

definition sentence_row :: "intent_row \<Rightarrow> bool" where
  "sentence_row r \<longleftrightarrow> ir_enabled r \<and> ir_method r = ''template''"

definition can_carry_sentences :: "intent_row list \<Rightarrow> bool" where
  "can_carry_sentences rows = list_ex sentence_row rows"

definition sentence_rows :: "intent_row list \<Rightarrow> nat" where
  "sentence_rows rows = length (filter sentence_row rows)"

end
