(* ===== verification/Intent_Queries.thy ===== *)
theory Intent_Queries
  imports Intents Ask
begin

text \<open>
  The queries of \<open>src/src/intents.rs\<close> on the bus: one query and its reply, and the describes that go out in
  windows. The queries made so far are the state; what the hub, the link and the clock do next may depend on
  all of them.
\<close>

section \<open>What the client is told\<close>

record hub_query =
  qu_type :: string
  qu_data :: jmap
  qu_context :: jmap

text \<open>
  After a query: how its sending ended (\<open>None\<close>: the deadline passed first), what the subscription gave before
  the deadline, and, when that was not enough, whether it was the deadline of the whole request that fired
  or that of the waiting, of \<open>td_left\<close>.
\<close>

record told =
  td_sent :: "unit res option"
  td_seen :: "reception list"
  td_outer :: bool
  td_left :: duration

text \<open>
  \<open>nt_id\<close> is the id made for the n-th query; \<open>nt_late\<close> whether the deadline of the describes has passed before
  the next one is sent, \<open>nt_spent\<close> whether it has after a window; \<open>nt_fits\<close> whether a deadline can be told.
\<close>

record intent_net =
  nt_id :: "nat \<Rightarrow> string"
  nt_told :: "hub_query list \<Rightarrow> told"
  nt_late :: "hub_query list \<Rightarrow> bool"
  nt_spent :: "hub_query list \<Rightarrow> bool"
  nt_fits :: "duration \<Rightarrow> bool"
  nt_tables :: language_tables
  nt_show :: "json \<Rightarrow> string"
  nt_site :: "string option"

type_synonym 'a asking = "hub_query list \<Rightarrow> 'a res \<times> hub_query list"

definition ask_return :: "'a \<Rightarrow> 'a asking" where
  "ask_return x = (\<lambda>log. (Inr x, log))"

definition ask_fail :: "thalovant_error \<Rightarrow> 'a asking" where
  "ask_fail e = (\<lambda>log. (Inl e, log))"

definition ask_bind :: "'a asking \<Rightarrow> ('a \<Rightarrow> 'b asking) \<Rightarrow> 'b asking" where
  "ask_bind m k = (\<lambda>log. case m log of (Inl e, log) \<Rightarrow> (Inl e, log) | (Inr x, log) \<Rightarrow> k x log)"

text \<open>A query whose failure the caller looks at.\<close>

definition ask_try :: "'a asking \<Rightarrow> ('a res \<Rightarrow> 'b asking) \<Rightarrow> 'b asking" where
  "ask_try m k = (\<lambda>log. case m log of (r, log) \<Rightarrow> k r log)"

lemma ask_simps [simp]:
  "ask_return x log = (Inr x, log)" "ask_fail e log = (Inl e, log)"
  by (simp_all add: ask_return_def ask_fail_def)

lemma ask_bind_split:
  "ask_bind m k log = (r, log'') \<longleftrightarrow>
     (\<exists>e. m log = (Inl e, log'') \<and> r = Inl e) \<or> (\<exists>x log'. m log = (Inr x, log') \<and> k x log' = (r, log''))"
  by (auto simp: ask_bind_def split: prod.splits sum.splits)

section \<open>One query and its reply\<close>

definition query_context :: "intent_net \<Rightarrow> string option \<Rightarrow> string \<Rightarrow> jmap" where
  "query_context net lang request_id =
     (let base = (case lang of None \<Rightarrow> [] | Some l \<Rightarrow> bt_insert ''lang'' (JString l) [])
      in context_with_correlation (Some base) None (nt_site net) lang (Some request_id))"

fun await_reply ::
    "thalovant_error \<Rightarrow> string \<Rightarrow> (event \<Rightarrow> bool) \<Rightarrow> (event \<Rightarrow> 's \<Rightarrow> 'a option \<times> 's) \<Rightarrow> reception list \<Rightarrow> 's
     \<Rightarrow> 'a res \<times> 's" where
  "await_reply late query_type correlates judge [] s = (Inl late, s)"
| "await_reply late query_type correlates judge (r # rs) s =
     (case r of
        Lagged n \<Rightarrow> await_reply late query_type correlates judge rs s
      | Subscription_Closed \<Rightarrow> (Inl (Connection ''hub session closed while waiting for a reply''), s)
      | Got e \<Rightarrow>
          if denied_type_of e = Some query_type \<and> correlates e then (Inl (policy_denied e), s)
          else case judge e s of
                 (Some x, s') \<Rightarrow> (Inr x, s')
               | (None, s') \<Rightarrow> await_reply late query_type correlates judge rs s')"

definition unanswered_in :: "string \<Rightarrow> duration \<Rightarrow> thalovant_error" where
  "unanswered_in query_type left =
     Timeout (''hub did not answer '' @ query_type @ '' within '' @ show_nat (left div 1000000) @ ''ms'')"

definition request_reply ::
    "intent_net \<Rightarrow> string \<Rightarrow> string \<Rightarrow> jmap \<Rightarrow> string option \<Rightarrow> duration \<Rightarrow> event asking" where
  "request_reply net query_type reply_type data lang deadline log =
     (let context1 = query_context net lang (nt_id net (length log));
          log = log @ [\<lparr>qu_type = query_type, qu_data = data, qu_context = context1\<rparr>];
          t = nt_told net log;
          late = (if td_outer t then Timeout (''hub request '' @ query_type @ '' timed out'')
                  else unanswered_in query_type deadline)
      in (case td_sent t of
            None \<Rightarrow> Inl (Timeout (''hub request '' @ query_type @ '' timed out''))
          | Some (Inl e) \<Rightarrow> Inl e
          | Some (Inr u) \<Rightarrow>
              fst (await_reply late query_type (\<lambda>e. event_matches_context e (Some context1))
                (\<lambda>e u. (if e_name e = reply_type \<and> event_matches_context e (Some context1) then Some e else None, u))
                (td_seen t) ()),
          log))"

section \<open>Listings\<close>

record list_options =
  ls_timeout :: "duration option"
  ls_include_definitions :: bool

definition timeout_or :: "duration option \<Rightarrow> duration" where
  "timeout_or t = (case t of Some d \<Rightarrow> d | None \<Rightarrow> DEFAULT_INTENT_TIMEOUT)"

definition list_intents :: "intent_net \<Rightarrow> string \<Rightarrow> list_options \<Rightarrow> intent_row list asking" where
  "list_intents net lang opts =
     ask_bind
       (request_reply net EVENT_INTENT_LIST EVENT_INTENT_LIST_RESPONSE
         ((if ls_include_definitions opts then bt_insert ''include_definitions'' (JBool True) else id)
            (bt_insert ''lang'' (JString lang) []))
         (Some lang) (timeout_or (ls_timeout opts)))
       (\<lambda>e. if refused_query e then ask_fail (Runtime (listing_error (nt_show net) e))
            else ask_return (registrations_of e))"

definition describe_payload :: "string \<Rightarrow> string \<Rightarrow> string \<Rightarrow> jmap" where
  "describe_payload skill_id intent_name lang =
     bt_insert ''lang'' (JString lang)
       (bt_insert ''intent_name'' (JString intent_name) (bt_insert ''skill_id'' (JString skill_id) []))"

definition describe_intent ::
    "intent_net \<Rightarrow> string \<Rightarrow> string \<Rightarrow> string \<Rightarrow> duration \<Rightarrow> intent_definition list asking" where
  "describe_intent net skill_id intent_name lang deadline =
     ask_bind
       (request_reply net EVENT_INTENT_DESCRIBE EVENT_INTENT_DESCRIBE_RESPONSE
         (describe_payload skill_id intent_name lang) (Some lang) deadline)
       (\<lambda>e. ask_return (definitions_of e))"

definition names_of :: "event \<Rightarrow> string list" where
  "names_of e =
     (case Option.bind (map_of (e_data e) ''intents'') as_array of
        None \<Rightarrow> [] | Some items \<Rightarrow> filter (\<lambda>t. t \<noteq> []) (List.map_filter as_str items))"

definition engine_names ::
    "intent_net \<Rightarrow> string \<Rightarrow> duration \<Rightarrow> string \<Rightarrow> string \<Rightarrow> string \<Rightarrow> (string \<times> string list) asking" where
  "engine_names net lang deadline engine query_type reply_type =
     ask_bind (request_reply net query_type reply_type (bt_insert ''lang'' (JString lang) []) (Some lang) deadline)
       (\<lambda>e. ask_return (engine, names_of e))"

definition intent_names :: "intent_net \<Rightarrow> string \<Rightarrow> duration \<Rightarrow> (string \<times> string list) list asking" where
  "intent_names net lang deadline =
     ask_bind (engine_names net lang deadline ''adapt'' EVENT_ADAPT_MANIFEST_GET EVENT_ADAPT_MANIFEST) (\<lambda>adapt.
     ask_bind (engine_names net lang deadline ''padatious'' EVENT_PADATIOUS_MANIFEST_GET EVENT_PADATIOUS_MANIFEST)
       (\<lambda>padatious. ask_return [adapt, padatious]))"

definition list_fallbacks :: "intent_net \<Rightarrow> duration \<Rightarrow> string list option asking" where
  "list_fallbacks net deadline =
     ask_try (request_reply net EVENT_SKILLS_LIST EVENT_SKILLS_LIST_RESPONSE [] None deadline) (\<lambda>r.
       case r of
         Inl e \<Rightarrow>
           (case e of PolicyDenied _ _ _ _ _ \<Rightarrow> ask_return None | Timeout _ \<Rightarrow> ask_return None | _ \<Rightarrow> ask_fail e)
       | Inr ev \<Rightarrow>
           if refused_query ev then ask_return None
           else ask_return (map_option fallbacks_from_skills (Option.bind (map_of (e_data ev) ''skills'') as_array)))"

section \<open>Describes in windows\<close>

type_synonym registration_key = "string \<times> string \<times> string"
type_synonym described = "(registration_key \<times> intent_definition list) list"

definition DESCRIBE_SEND_LATE :: thalovant_error where
  "DESCRIBE_SEND_LATE = Timeout ''intent describe send timed out''"

fun describe_send ::
    "intent_net \<Rightarrow> registration_key list \<Rightarrow> (string \<times> registration_key) list
     \<Rightarrow> (string \<times> registration_key) list asking" where
  "describe_send net [] by log = (Inr by, log)"
| "describe_send net ((skill_id, intent_name, lang) # ks) by log =
     (if nt_late net log then (Inl DESCRIBE_SEND_LATE, log)
      else
        (let rid = nt_id net (length log);
             log = log @ [\<lparr>qu_type = EVENT_INTENT_DESCRIBE, qu_data = describe_payload skill_id intent_name lang,
                           qu_context = query_context net (Some lang) rid\<rparr>]
         in case td_sent (nt_told net log) of
              None \<Rightarrow> (Inl DESCRIBE_SEND_LATE, log)
            | Some (Inl e) \<Rightarrow> (Inl e, log)
            | Some (Inr u) \<Rightarrow> describe_send net ks ((rid, (skill_id, intent_name, lang)) # by) log))"

definition described_key ::
    "language_tables \<Rightarrow> (string \<times> registration_key) list \<Rightarrow> registration_key list \<Rightarrow> event
     \<Rightarrow> registration_key option" where
  "described_key T by unique e =
     (case event_request_id e of
        Some rid \<Rightarrow> map_of by rid
      | None \<Rightarrow>
          (case definitions_of e of
             [] \<Rightarrow> None
           | d # _ \<Rightarrow>
               find (\<lambda>(skill_id, intent_name, lang).
                 skill_id = df_skill_id d \<and> intent_name = df_intent_name d \<and> same_language T lang (df_lang d)) unique))"

definition describe_accept ::
    "language_tables \<Rightarrow> (string \<times> registration_key) list \<Rightarrow> registration_key list \<Rightarrow> event \<Rightarrow> described
     \<Rightarrow> unit option \<times> described" where
  "describe_accept T by unique e found =
     (if e_name e \<noteq> EVENT_INTENT_DESCRIBE_RESPONSE then (None, found)
      else case described_key T by unique e of
             None \<Rightarrow> (None, found)
           | Some key \<Rightarrow>
               if map_of found key \<noteq> None then (None, found)
               else (let found = (key, definitions_of e) # found
                     in (if length found = length unique then Some () else None, found)))"

definition any_described :: "described \<Rightarrow> bool" where
  "any_described found \<longleftrightarrow> list_ex (\<lambda>(k, ds). ds \<noteq> []) found"

text \<open>After every request is out: the replies until all are described or the deadline passes.\<close>

definition describe_await ::
    "intent_net \<Rightarrow> registration_key list \<Rightarrow> (string \<times> registration_key) list \<Rightarrow> described asking" where
  "describe_await net unique by log =
     (let t = nt_told net log
      in (case await_reply (unanswered_in EVENT_INTENT_DESCRIBE (td_left t)) EVENT_INTENT_DESCRIBE
                (\<lambda>e. case event_request_id e of Some rid \<Rightarrow> map_of by rid \<noteq> None | None \<Rightarrow> True)
                (describe_accept (nt_tables net) by unique) (td_seen t) [] of
            (Inr u, found) \<Rightarrow> Inr found
          | (Inl e, found) \<Rightarrow>
              (case e of Timeout m \<Rightarrow> if any_described found then Inr found else Inl e | _ \<Rightarrow> Inl e), log))"

definition describe_one_batch :: "intent_net \<Rightarrow> registration_key list \<Rightarrow> described asking" where
  "describe_one_batch net unique =
     (if unique = [] then ask_return [] else ask_bind (describe_send net unique []) (describe_await net unique))"

fun describe_windows :: "intent_net \<Rightarrow> registration_key list list \<Rightarrow> described \<Rightarrow> described asking" where
  "describe_windows net [] found log = (Inr found, log)"
| "describe_windows net (w # ws) found log =
     (let next = (\<lambda>found log. if nt_spent net log then (Inr found, log) else describe_windows net ws found log)
      in case describe_one_batch net w log of
           (Inr d, log) \<Rightarrow> next (d @ found) log
         | (Inl e, log) \<Rightarrow>
             (case e of Timeout m \<Rightarrow> if any_described found then next found log else (Inl e, log) | _ \<Rightarrow> (Inl e, log)))"

function chunks :: "nat \<Rightarrow> 'a list \<Rightarrow> 'a list list" where
  "chunks n xs = (if xs = [] \<or> n = 0 then [] else take n xs # chunks n (drop n xs))"
  by pat_completeness auto
termination
  by (relation "measure (\<lambda>(n, xs). length xs)") auto

declare chunks.simps [simp del]

definition once_each :: "'a list \<Rightarrow> 'a list" where
  "once_each xs = rev (remdups (rev xs))"

definition describe_many :: "intent_net \<Rightarrow> registration_key list \<Rightarrow> duration \<Rightarrow> nat \<Rightarrow> described asking" where
  "describe_many net keys deadline batch =
     (if \<not> nt_fits net deadline then ask_fail (Runtime ''intent describe timeout is too large'')
      else
        (let unique = once_each keys
         in if 0 < batch \<and> batch < length unique then describe_windows net (chunks batch unique) []
            else describe_one_batch net unique))"

end
