(* ===== verification/Intent_Inventory.thy ===== *)
theory Intent_Inventory
  imports Intent_Queries "HOL-Library.Product_Lexorder"
begin

text \<open>
  The inventory of \<open>src/src/intents.rs\<close>: which listing stands for a language, the hub's own languages when it
  lists nothing a person can say, the engines' names when it will not list, and what was listed and
  described put together by skill.
\<close>

section \<open>The hub's own languages\<close>

type_synonym listings = "(string \<times> intent_row list) list"

record hub_languages =
  hl_by_lang :: listings
  hl_session_lang :: "string option"

text \<open>Rows under the first spelling of their language, in the order they came.\<close>

fun add_listed :: "language_tables \<Rightarrow> intent_row \<Rightarrow> listings \<Rightarrow> listings" where
  "add_listed T row [] = [(ir_lang row, [row])]"
| "add_listed T row ((seen, rows) # ls) =
     (if same_language T seen (ir_lang row) then (seen, rows @ [row]) # ls else (seen, rows) # add_listed T row ls)"

definition by_language :: "language_tables \<Rightarrow> intent_row list \<Rightarrow> listings" where
  "by_language T rows = fold (\<lambda>row ls. if ir_lang row = [] then ls else add_listed T row ls) rows []"

definition session_language :: "event \<Rightarrow> string option" where
  "session_language e =
     (case Option.bind (get_object (e_context e) ''session'') (\<lambda>s. get_str s ''lang'') of
        Some l \<Rightarrow> if trim l \<noteq> [] then Some l else None | None \<Rightarrow> None)"

text \<open>Errors that leave an answer as it was: silence, a failed query, a refusal, a miss.\<close>

definition quiet_error :: "thalovant_error \<Rightarrow> bool" where
  "quiet_error e \<longleftrightarrow>
     (case e of Timeout _ \<Rightarrow> True | Runtime _ \<Rightarrow> True | PolicyDenied _ _ _ _ _ \<Rightarrow> True | Unanswered _ \<Rightarrow> True | _ \<Rightarrow> False)"

definition list_hub_languages :: "intent_net \<Rightarrow> duration \<Rightarrow> bool \<Rightarrow> hub_languages option asking" where
  "list_hub_languages net deadline include_definitions =
     ask_try
       (request_reply net EVENT_INTENT_LIST EVENT_INTENT_LIST_RESPONSE
         (if include_definitions then bt_insert ''include_definitions'' (JBool True) [] else []) None deadline) (\<lambda>r.
       case r of
         Inl e \<Rightarrow> if quiet_error e then ask_return None else ask_fail e
       | Inr ev \<Rightarrow>
           if refused_query ev then ask_return None
           else ask_return (Some \<lparr>hl_by_lang = by_language (nt_tables net) (registrations_of ev),
                                  hl_session_lang = session_language ev\<rparr>))"

definition more_sentences :: "string \<times> nat \<Rightarrow> string \<times> nat \<Rightarrow> string \<times> nat" where
  "more_sentences candidate best = (if snd best < snd candidate then candidate else best)"

definition nearest_hub_language :: "language_tables \<Rightarrow> string \<Rightarrow> listings \<Rightarrow> string option \<Rightarrow> string option" where
  "nearest_hub_language T asked ls hub_lang =
     (let candidates = filter (\<lambda>(tag, n). 0 < n) (map (\<lambda>(tag, rows). (tag, sentence_rows rows)) ls);
          tags = map fst candidates
      in case candidates of
           [] \<Rightarrow> None
         | c # cs \<Rightarrow>
             or_else (closest_language T asked tags)
               (or_else
                 (case hub_lang of
                    Some l \<Rightarrow> if trim l \<noteq> [] then closest_language T l tags else None | None \<Rightarrow> None)
                 (Some (fst (fold more_sentences cs c)))))"

section \<open>One language's listing\<close>

definition listing :: "intent_net \<Rightarrow> string \<Rightarrow> list_options \<Rightarrow> bool \<Rightarrow> (string \<times> intent_row list) asking" where
  "listing net lang opts nearest =
     ask_bind (list_intents net lang opts) (\<lambda>rows.
       if \<not> nearest \<or> can_carry_sentences rows then ask_return (lang, rows)
       else case usual_form (nt_tables net) lang of
              None \<Rightarrow> ask_return (lang, rows)
            | Some usual \<Rightarrow>
                ask_try (list_intents net usual opts) (\<lambda>r.
                  case r of
                    Inl e \<Rightarrow> if quiet_error e \<and> rows \<noteq> [] then ask_return (lang, rows) else ask_fail e
                  | Inr retried \<Rightarrow>
                      if can_carry_sentences retried \<or> (retried \<noteq> [] \<and> rows = []) then ask_return (usual, retried)
                      else ask_return (lang, rows)))"

section \<open>Every language asked\<close>

record listing_state =
  g_listed :: listings
  g_listed_in :: "string list"
  g_hub :: "hub_languages option option"

definition hub_choice :: "language_tables \<Rightarrow> string \<Rightarrow> hub_languages option \<Rightarrow> (string \<times> intent_row list) option" where
  "hub_choice T lang hub =
     Option.bind hub (\<lambda>h.
     Option.bind (nearest_hub_language T lang (hl_by_lang h) (hl_session_lang h)) (\<lambda>chosen.
       find (\<lambda>(seen, _). seen = chosen) (hl_by_lang h)))"

text \<open>Still nothing a person can say: the hub's own listing, asked once, and the nearest of its languages.\<close>

definition or_hub_language ::
    "intent_net \<Rightarrow> inventory_options \<Rightarrow> duration \<Rightarrow> string \<Rightarrow> string \<times> intent_row list \<Rightarrow> listing_state
     \<Rightarrow> ((string \<times> intent_row list) \<times> listing_state) asking" where
  "or_hub_language net opts deadline lang found g =
     (if \<not> (io_nearest opts \<and> \<not> can_carry_sentences (snd found)) then ask_return (found, g)
      else ask_bind
             (case g_hub g of
                Some h \<Rightarrow> ask_return h | None \<Rightarrow> list_hub_languages net deadline (io_describe opts))
             (\<lambda>h. ask_return
               ((case hub_choice (nt_tables net) lang h of Some c \<Rightarrow> c | None \<Rightarrow> found), g\<lparr>g_hub := Some h\<rparr>)))"

fun put_listing :: "language_tables \<Rightarrow> string \<Rightarrow> intent_row list \<Rightarrow> listings \<Rightarrow> string \<times> listings" where
  "put_listing T tag rows [] = (tag, [(tag, rows)])"
| "put_listing T tag rows ((seen, seen_rows) # ls) =
     (if same_language T seen tag then (seen, (seen, rows) # ls)
      else case put_listing T tag rows ls of (t, ls) \<Rightarrow> (t, (seen, seen_rows) # ls))"

definition place_listing :: "language_tables \<Rightarrow> string \<times> intent_row list \<Rightarrow> listing_state \<Rightarrow> listing_state" where
  "place_listing T found g =
     (case put_listing T (fst found) (snd found) (g_listed g) of
        (tag, ls) \<Rightarrow> g\<lparr>g_listed := ls, g_listed_in := g_listed_in g @ [tag]\<rparr>)"

section \<open>The engines' names\<close>

fun split_once :: "char \<Rightarrow> string \<Rightarrow> (string \<times> string) option" where
  "split_once d [] = None"
| "split_once d (c # s) =
     (if c = d then Some ([], s) else map_option (\<lambda>(a, b). (c # a, b)) (split_once d s))"

definition name_parts :: "string \<Rightarrow> string \<times> string" where
  "name_parts raw =
     (case split_once CHR '':'' raw of
        Some (skill_id, intent_name) \<Rightarrow> if intent_name \<noteq> [] then (skill_id, intent_name) else ([], raw)
      | None \<Rightarrow> ([], raw))"

type_synonym named_intents = "(string, (string, hub_intent) btree) btree"

definition add_name :: "string \<Rightarrow> string \<Rightarrow> named_intents \<Rightarrow> named_intents" where
  "add_name engine raw by_skill =
     (case name_parts raw of (skill_id, intent_name) \<Rightarrow>
        (let own = (case map_of by_skill skill_id of Some m \<Rightarrow> m | None \<Rightarrow> []);
             i = \<lparr>hi_skill_id = skill_id, hi_name = intent_name, hi_engine = engine, hi_enabled = True, hi_phrases = []\<rparr>
         in bt_insert skill_id (case map_of own intent_name of Some _ \<Rightarrow> own | None \<Rightarrow> bt_insert intent_name i own) by_skill))"

definition inventory_from_names :: "(string \<times> string list) list \<Rightarrow> string list \<Rightarrow> string \<Rightarrow> inventory" where
  "inventory_from_names names languages denied =
     (let by_skill = fold (\<lambda>(engine, raws). fold (add_name engine) raws) names []
      in \<lparr>iv_languages = languages,
          iv_skills = map (\<lambda>(s, m). \<lparr>hs_skill_id = s, hs_intents = map snd m\<rparr>) by_skill,
          iv_source = EngineManifests, iv_denied = [denied], iv_listed_in = languages\<rparr>)"

section \<open>Every language\<close>

datatype listing_outcome = Listed_All listing_state | By_Name inventory

definition listing_refused :: "thalovant_error \<Rightarrow> bool" where
  "listing_refused e \<longleftrightarrow> (case e of PolicyDenied t _ _ _ _ \<Rightarrow> t = EVENT_INTENT_LIST | _ \<Rightarrow> False)"

fun list_languages ::
    "intent_net \<Rightarrow> inventory_options \<Rightarrow> duration \<Rightarrow> string list \<Rightarrow> string list \<Rightarrow> listing_state
     \<Rightarrow> listing_outcome asking" where
  "list_languages net opts deadline asked [] g = ask_return (Listed_All g)"
| "list_languages net opts deadline asked (lang # langs) g =
     ask_try (listing net lang \<lparr>ls_timeout = Some deadline, ls_include_definitions = io_describe opts\<rparr> (io_nearest opts))
       (\<lambda>r. case r of
          Inl e \<Rightarrow>
            if io_fallback opts \<and> (listing_refused e \<or> (case e of Timeout _ \<Rightarrow> True | _ \<Rightarrow> False))
            then ask_bind (intent_names net (hd asked) deadline)
                   (\<lambda>names. ask_return (By_Name (inventory_from_names names asked EVENT_INTENT_LIST)))
            else ask_fail e
        | Inr found \<Rightarrow>
            ask_bind (or_hub_language net opts deadline lang found g) (\<lambda>(found, g).
              list_languages net opts deadline asked langs (place_listing (nt_tables net) found g)))"

section \<open>What was listed, by skill\<close>

definition described_sentences :: "described \<Rightarrow> string \<Rightarrow> intent_row \<Rightarrow> string list" where
  "described_sentences found lang row =
     (case ir_definition row of
        Some m \<Rightarrow> samples_of m
      | None \<Rightarrow>
          (case Option.bind (map_of found (ir_skill_id row, ir_intent_name row, lang))
                  (List.find (\<lambda>d. df_samples d \<noteq> [])) of
             Some d \<Rightarrow> df_samples d | None \<Rightarrow> []))"

record gathered =
  ga_engines :: "(string \<times> string, string) btree"
  ga_enabled :: "(string \<times> string, bool) btree"
  ga_phrases :: "(string \<times> string, (string, string list) btree) btree"

definition row_key :: "intent_row \<Rightarrow> string \<times> string" where
  "row_key row = (ir_skill_id row, ir_intent_name row)"

definition gather_row :: "described \<Rightarrow> string \<Rightarrow> intent_row \<Rightarrow> gathered \<Rightarrow> gathered" where
  "gather_row found lang row g =
     (let key = row_key row;
          engines = (case map_of (ga_engines g) key of
                       Some _ \<Rightarrow> ga_engines g | None \<Rightarrow> bt_insert key (row_engine row) (ga_engines g));
          flag = (case map_of (ga_enabled g) key of Some b \<Rightarrow> b | None \<Rightarrow> False);
          sentences = described_sentences found lang row;
          own = (case map_of (ga_phrases g) key of Some m \<Rightarrow> m | None \<Rightarrow> []);
          own' = (if sentences \<noteq> [] \<or> map_of own lang = None then bt_insert lang sentences own else own)
      in \<lparr>ga_engines = engines, ga_enabled = bt_insert key (flag \<or> ir_enabled row) (ga_enabled g),
          ga_phrases = bt_insert key own' (ga_phrases g)\<rparr>)"

definition gather :: "described \<Rightarrow> listings \<Rightarrow> gathered" where
  "gather found ls =
     fold (\<lambda>(lang, rows). fold (gather_row found lang) rows) ls \<lparr>ga_engines = [], ga_enabled = [], ga_phrases = []\<rparr>"

definition gathered_intent :: "gathered \<Rightarrow> (string \<times> string) \<times> (string, string list) btree \<Rightarrow> hub_intent" where
  "gathered_intent g e =
     (case e of (key, phrases) \<Rightarrow>
        \<lparr>hi_skill_id = fst key, hi_name = snd key,
         hi_engine = (case map_of (ga_engines g) key of Some x \<Rightarrow> x | None \<Rightarrow> []),
         hi_enabled = (case map_of (ga_enabled g) key of Some b \<Rightarrow> b | None \<Rightarrow> True), hi_phrases = phrases\<rparr>)"

definition push_intent :: "hub_intent \<Rightarrow> (string, hub_intent list) btree \<Rightarrow> (string, hub_intent list) btree" where
  "push_intent i m =
     bt_insert (hi_skill_id i) ((case map_of m (hi_skill_id i) of Some is \<Rightarrow> is | None \<Rightarrow> []) @ [i]) m"

definition by_skill :: "gathered \<Rightarrow> hub_skill list" where
  "by_skill g =
     map (\<lambda>(s, is). \<lparr>hs_skill_id = s, hs_intents = sort_key hi_name is\<rparr>)
       (fold push_intent (map (gathered_intent g) (ga_phrases g)) [])"

definition wanted_keys :: "listings \<Rightarrow> registration_key list" where
  "wanted_keys ls =
     concat (map (\<lambda>(lang, rows).
       map (\<lambda>r. (ir_skill_id r, ir_intent_name r, lang))
         (filter (\<lambda>r. ir_enabled r \<and> ir_definition r = None \<and> ir_method r = ''template'') rows)) ls)"

definition hub_inventory :: "intent_net \<Rightarrow> string list \<Rightarrow> inventory_options \<Rightarrow> inventory asking" where
  "hub_inventory net languages opts =
     (let asked = chosen_languages (nt_tables net) languages;
          deadline = timeout_or (io_timeout opts)
      in ask_bind (list_languages net opts deadline asked asked \<lparr>g_listed = [], g_listed_in = [], g_hub = None\<rparr>)
           (\<lambda>outcome. case outcome of
              By_Name v \<Rightarrow> ask_return v
            | Listed_All g \<Rightarrow>
                ask_bind
                  (if io_describe opts \<and> wanted_keys (g_listed g) \<noteq> []
                   then describe_many net (wanted_keys (g_listed g)) deadline DESCRIBE_BATCH else ask_return [])
                  (\<lambda>found. ask_return
                     \<lparr>iv_languages = asked, iv_skills = by_skill (gather found (g_listed g)),
                      iv_source = IntentManifest, iv_denied = [], iv_listed_in = g_listed_in g\<rparr>)))"

definition inventory_with_capabilities :: "intent_net \<Rightarrow> string list \<Rightarrow> inventory_options \<Rightarrow> capabilities asking" where
  "inventory_with_capabilities net languages opts =
     ask_bind (hub_inventory net languages opts) (\<lambda>v.
     ask_bind (list_fallbacks net (min (timeout_or (io_timeout opts)) FALLBACK_PROBE_TIMEOUT)) (\<lambda>fallbacks.
       ask_return \<lparr>cp_inventory = v, cp_fallbacks = (case fallbacks of Some f \<Rightarrow> f | None \<Rightarrow> []),
                   cp_fallbacks_known = (fallbacks \<noteq> None)\<rparr>))"

end
