(* ===== verification/Intent_Contents.thy ===== *)
theory Intent_Contents
  imports Intent_Inventory
begin

text \<open>
  What an inventory holds: one intent for every skill and name that was listed, on when any of its rows is on,
  with the sentences of each language it was listed in. The contents are described without the maps the code
  builds them with, and the two are shown to agree.
\<close>

section \<open>The rows, flat\<close>

definition entries :: "listings \<Rightarrow> (string \<times> intent_row) list" where
  "entries ls = concat (map (\<lambda>(lang, rows). map (Pair lang) rows) ls)"

abbreviation no_rows :: gathered where
  "no_rows \<equiv> \<lparr>ga_engines = [], ga_enabled = [], ga_phrases = []\<rparr>"

definition gather_entry :: "described \<Rightarrow> string \<times> intent_row \<Rightarrow> gathered \<Rightarrow> gathered" where
  "gather_entry found e = gather_row found (fst e) (snd e)"

lemma gather_entries: "gather found ls = fold (gather_entry found) (entries ls) no_rows"
proof -
  have "fold (gather_row found lang) rows g = fold (gather_entry found) (map (Pair lang) rows) g" for lang rows g
    by (induction rows arbitrary: g) (simp_all add: gather_entry_def)
  then have "fold (\<lambda>(lang, rows). fold (gather_row found lang) rows) ls g = fold (gather_entry found) (entries ls) g" for g
    by (induction ls arbitrary: g) (auto simp: entries_def)
  then show ?thesis by (simp add: gather_def)
qed

text \<open>The rows of a key, and those listed in a language.\<close>

definition rows_of :: "string \<times> string \<Rightarrow> (string \<times> intent_row) list \<Rightarrow> intent_row list" where
  "rows_of key es = map snd (filter (\<lambda>e. row_key (snd e) = key) es)"

definition rows_in :: "string \<times> string \<Rightarrow> string \<Rightarrow> (string \<times> intent_row) list \<Rightarrow> intent_row list" where
  "rows_in key lang es = map snd (filter (\<lambda>e. row_key (snd e) = key \<and> fst e = lang) es)"

text \<open>The last of the rows with something to say decides.\<close>

definition sentences_in :: "described \<Rightarrow> string \<times> string \<Rightarrow> string \<Rightarrow> (string \<times> intent_row) list \<Rightarrow> string list" where
  "sentences_in found key lang es =
     (let sss = filter (\<lambda>ss. ss \<noteq> []) (map (described_sentences found lang) (rows_in key lang es))
      in if sss = [] then [] else last sss)"

definition engines_ok :: "(string \<times> intent_row) list \<Rightarrow> gathered \<Rightarrow> bool" where
  "engines_ok es g \<longleftrightarrow>
     (\<forall>key. map_of (ga_engines g) key = (case rows_of key es of [] \<Rightarrow> None | r # _ \<Rightarrow> Some (row_engine r)))"

definition enabled_ok :: "(string \<times> intent_row) list \<Rightarrow> gathered \<Rightarrow> bool" where
  "enabled_ok es g \<longleftrightarrow>
     (\<forall>key. map_of (ga_enabled g) key = (if rows_of key es = [] then None else Some (list_ex ir_enabled (rows_of key es))))"

definition own_phrases :: "gathered \<Rightarrow> string \<times> string \<Rightarrow> (string, string list) btree" where
  "own_phrases g key = (case map_of (ga_phrases g) key of Some m \<Rightarrow> m | None \<Rightarrow> [])"

definition phrases_ok :: "described \<Rightarrow> (string \<times> intent_row) list \<Rightarrow> gathered \<Rightarrow> bool" where
  "phrases_ok found es g \<longleftrightarrow>
     bt_inv (ga_phrases g)
     \<and> (\<forall>key. (map_of (ga_phrases g) key = None \<longleftrightarrow> rows_of key es = [])
          \<and> bt_inv (own_phrases g key)
          \<and> (\<forall>lang. map_of (own_phrases g key) lang =
               (if rows_in key lang es = [] then None else Some (sentences_in found key lang es))))"

lemma enabled_okD:
  "enabled_ok es g \<Longrightarrow>
     map_of (ga_enabled g) key = (if rows_of key es = [] then None else Some (list_ex ir_enabled (rows_of key es)))"
  unfolding enabled_ok_def by (erule spec)

lemma phrases_okD:
  assumes "phrases_ok found es g"
  shows "bt_inv (ga_phrases g)" "map_of (ga_phrases g) key = None \<longleftrightarrow> rows_of key es = []" "bt_inv (own_phrases g key)"
    "map_of (own_phrases g key) lang = (if rows_in key lang es = [] then None else Some (sentences_in found key lang es))"
  using assms unfolding phrases_ok_def by blast+

lemma rows_snoc [simp]:
  "rows_of key (es @ [e]) = rows_of key es @ (if row_key (snd e) = key then [snd e] else [])"
  "rows_in key lang (es @ [e]) = rows_in key lang es @ (if row_key (snd e) = key \<and> fst e = lang then [snd e] else [])"
  by (simp_all add: rows_of_def rows_in_def)

lemma sentences_snoc:
  "sentences_in found key lang (es @ [e]) =
     (if row_key (snd e) = key \<and> fst e = lang \<and> described_sentences found lang (snd e) \<noteq> []
      then described_sentences found lang (snd e) else sentences_in found key lang es)"
  by (auto simp: sentences_in_def Let_def)

lemma rows_in_of: "rows_of key es = [] \<Longrightarrow> rows_in key lang es = []"
  by (auto simp: rows_of_def rows_in_def filter_empty_conv)

lemma engines_step: "engines_ok es g \<Longrightarrow> engines_ok (es @ [e]) (gather_entry found e g)"
  by (auto simp: engines_ok_def gather_entry_def gather_row_def Let_def split: option.splits list.splits)

lemma enabled_step:
  assumes "enabled_ok es g"
  shows "enabled_ok (es @ [e]) (gather_entry found e g)"
  unfolding enabled_ok_def
proof
  fix key
  have "map_of (ga_enabled g) key = (if rows_of key es = [] then None else Some (list_ex ir_enabled (rows_of key es)))"
    by (rule enabled_okD [OF assms])
  then show "map_of (ga_enabled (gather_entry found e g)) key =
      (if rows_of key (es @ [e]) = [] then None else Some (list_ex ir_enabled (rows_of key (es @ [e]))))"
    by (cases "key = row_key (snd e)") (auto simp: gather_entry_def gather_row_def Let_def split: option.splits)
qed

lemma gather_entry_phrases:
  "ga_phrases (gather_entry found e g) =
     bt_insert (row_key (snd e))
       (if described_sentences found (fst e) (snd e) \<noteq> [] \<or> map_of (own_phrases g (row_key (snd e))) (fst e) = None
        then bt_insert (fst e) (described_sentences found (fst e) (snd e)) (own_phrases g (row_key (snd e)))
        else own_phrases g (row_key (snd e))) (ga_phrases g)"
  by (simp add: gather_entry_def gather_row_def own_phrases_def Let_def)

lemma own_phrases_step:
  "own_phrases (gather_entry found e g) key =
     (if key = row_key (snd e)
      then if described_sentences found (fst e) (snd e) \<noteq> [] \<or> map_of (own_phrases g key) (fst e) = None
           then bt_insert (fst e) (described_sentences found (fst e) (snd e)) (own_phrases g key)
           else own_phrases g key
      else own_phrases g key)"
  unfolding own_phrases_def [of "gather_entry found e g"] gather_entry_phrases
  by (simp add: own_phrases_def)

lemma phrases_step:
  assumes "phrases_ok found es g"
  shows "phrases_ok found (es @ [e]) (gather_entry found e g)"
  unfolding phrases_ok_def
proof (intro conjI allI)
  show "bt_inv (ga_phrases (gather_entry found e g))"
    using phrases_okD(1) [OF assms] by (simp add: gather_entry_phrases)
next
  fix key
  show "map_of (ga_phrases (gather_entry found e g)) key = None \<longleftrightarrow> rows_of key (es @ [e]) = []"
    using phrases_okD(2) [OF assms, of key] by (auto simp: gather_entry_phrases)
  show "bt_inv (own_phrases (gather_entry found e g) key)"
    using phrases_okD(3) [OF assms, of key] by (auto simp: own_phrases_step)
  fix lang
  have "map_of (own_phrases g key) lang = (if rows_in key lang es = [] then None else Some (sentences_in found key lang es))"
    by (rule phrases_okD(4) [OF assms])
  then show "map_of (own_phrases (gather_entry found e g) key) lang =
      (if rows_in key lang (es @ [e]) = [] then None else Some (sentences_in found key lang (es @ [e])))"
    by (cases "key = row_key (snd e)"; cases "lang = fst e")
      (auto simp: own_phrases_step sentences_snoc sentences_in_def)
qed

lemma gathered_ok:
  "engines_ok es (fold (gather_entry found) es no_rows)" "enabled_ok es (fold (gather_entry found) es no_rows)"
  "phrases_ok found es (fold (gather_entry found) es no_rows)"
proof (induction es rule: rev_induct)
  case Nil
  case 1 show ?case by (simp add: engines_ok_def rows_of_def)
  case 2 show ?case by (simp add: enabled_ok_def rows_of_def)
  case 3 show ?case by (simp add: phrases_ok_def rows_of_def rows_in_def own_phrases_def)
next
  case (snoc e es)
  case 1 show ?case using engines_step snoc(1) by simp
  case 2 show ?case using enabled_step snoc(2) by simp
  case 3 show ?case using phrases_step snoc(3) by simp
qed

section \<open>Into skills\<close>

lemma push_intents_get:
  "map_of (fold push_intent is m) s =
     (if filter (\<lambda>i. hi_skill_id i = s) is = [] then map_of m s
      else Some ((case map_of m s of Some js \<Rightarrow> js | None \<Rightarrow> []) @ filter (\<lambda>i. hi_skill_id i = s) is))"
  by (induction "is" arbitrary: m) (auto simp: push_intent_def split: option.splits)

lemma push_intents_inv: "bt_inv m \<Longrightarrow> bt_inv (fold push_intent is m)"
  by (induction "is" arbitrary: m) (auto simp: push_intent_def)

lemma gathered_intent_key [simp]:
  "hi_skill_id (gathered_intent g e) = fst (fst e)" "hi_name (gathered_intent g e) = snd (fst e)"
  "hi_phrases (gathered_intent g e) = snd e"
  "hi_engine (gathered_intent g e) = (case map_of (ga_engines g) (fst e) of Some x \<Rightarrow> x | None \<Rightarrow> [])"
  "hi_enabled (gathered_intent g e) = (case map_of (ga_enabled g) (fst e) of Some b \<Rightarrow> b | None \<Rightarrow> True)"
  by (cases e; simp add: gathered_intent_def)+

text \<open>An intent as the rows listed have it.\<close>

definition intent_listed :: "described \<Rightarrow> listings \<Rightarrow> hub_intent \<Rightarrow> bool" where
  "intent_listed found ls i \<longleftrightarrow>
     (let key = (hi_skill_id i, hi_name i); rows = rows_of key (entries ls)
      in rows \<noteq> [] \<and> hi_engine i = row_engine (hd rows) \<and> hi_enabled i = list_ex ir_enabled rows
         \<and> bt_inv (hi_phrases i)
         \<and> (\<forall>lang. map_of (hi_phrases i) lang =
              (if rows_in key lang (entries ls) = [] then None else Some (sentences_in found key lang (entries ls)))))"

lemma gathered_listed:
  fixes found ls
  defines "g \<equiv> gather found ls"
  shows "i \<in> set (map (gathered_intent g) (ga_phrases g)) \<longleftrightarrow> intent_listed found ls i"
proof -
  have ok: "engines_ok (entries ls) g" "enabled_ok (entries ls) g" "phrases_ok found (entries ls) g"
    using gathered_ok unfolding g_def gather_entries by blast+
  let ?key = "(hi_skill_id i, hi_name i)"
  have engine: "map_of (ga_engines g) ?key = (case rows_of ?key (entries ls) of [] \<Rightarrow> None | r # _ \<Rightarrow> Some (row_engine r))"
    using ok(1) by (auto simp: engines_ok_def)
  note enabled = enabled_okD [OF ok(2), of ?key]
  note inv = phrases_okD(1) [OF ok(3)] and listed = phrases_okD(2) [OF ok(3), of ?key]
    and own = phrases_okD(3) [OF ok(3), of ?key] and phrases = phrases_okD(4) [OF ok(3), of ?key]
  show ?thesis
  proof
    assume "i \<in> set (map (gathered_intent g) (ga_phrases g))"
    then obtain key p where e: "(key, p) \<in> set (ga_phrases g)" "i = gathered_intent g (key, p)" by auto
    then have k: "key = ?key" "hi_phrases i = p" by simp_all
    have get: "map_of (ga_phrases g) ?key = Some p" using e(1) inv k by (simp add: bt_inv_get)
    then have rows: "rows_of ?key (entries ls) \<noteq> []" "own_phrases g ?key = p" using listed by (auto simp: own_phrases_def)
    then obtain r rs where r: "rows_of ?key (entries ls) = r # rs" by (cases "rows_of ?key (entries ls)") auto
    have i: "i = gathered_intent g (?key, p)" using e(2) k(1) by simp
    have "hi_engine i = row_engine r" by (subst i) (simp add: engine r)
    moreover have "hi_enabled i = list_ex ir_enabled (r # rs)" by (subst i) (simp add: enabled r)
    ultimately
    show "intent_listed found ls i"
      using own phrases rows k r unfolding intent_listed_def Let_def by simp
  next
    assume i: "intent_listed found ls i"
    then have rows: "rows_of ?key (entries ls) \<noteq> []" by (simp add: intent_listed_def Let_def)
    then obtain p where get: "map_of (ga_phrases g) ?key = Some p" using listed by blast
    then have p: "own_phrases g ?key = p" by (simp add: own_phrases_def)
    have "map_of p = map_of (hi_phrases i)" using i phrases p by (auto simp: intent_listed_def Let_def fun_eq_iff)
    then have "hi_phrases i = p" using i own p by (intro bt_ext) (auto simp: intent_listed_def Let_def)
    moreover obtain r rs where r: "rows_of ?key (entries ls) = r # rs" using rows by (cases "rows_of ?key (entries ls)") auto
    ultimately have "i = gathered_intent g (?key, p)"
      using i engine enabled r by (cases i) (auto simp: gathered_intent_def intent_listed_def Let_def)
    moreover have "(?key, p) \<in> set (ga_phrases g)" using get inv by (simp add: bt_inv_get)
    ultimately show "i \<in> set (map (gathered_intent g) (ga_phrases g))" by auto
  qed
qed

text \<open>Skills in the order of their ids, the intents of each in the order of their names, and no two alike.\<close>

definition skills_ordered :: "hub_skill list \<Rightarrow> bool" where
  "skills_ordered skills \<longleftrightarrow>
     sorted_wrt (<) (map hs_skill_id skills)
     \<and> (\<forall>s \<in> set skills. hs_intents s \<noteq> [] \<and> sorted_wrt (<) (map hi_name (hs_intents s))
          \<and> (\<forall>i \<in> set (hs_intents s). hi_skill_id i = hs_skill_id s))"

lemma gathered_names_distinct:
  assumes "bt_inv (ga_phrases g)"
  shows "distinct (map hi_name (filter (\<lambda>i. hi_skill_id i = s) (map (gathered_intent g) (ga_phrases g))))"
proof -
  have "distinct (map fst (filter (\<lambda>e. fst (fst e) = s) (ga_phrases g)))"
    using bt_inv_distinct [OF assms] by (induction "ga_phrases g") (auto simp: distinct_map_filter)
  then have "distinct (map (snd \<circ> fst) (filter (\<lambda>e. fst (fst e) = s) (ga_phrases g)))"
    by (auto simp: distinct_map inj_on_def)
  then show ?thesis by (simp add: filter_map comp_def)
qed

lemma by_skill_ordered:
  assumes "bt_inv (ga_phrases g)"
  shows "skills_ordered (by_skill g)"
    and "set (concat (map hs_intents (by_skill g))) = set (map (gathered_intent g) (ga_phrases g))"
proof -
  let ?is = "map (gathered_intent g) (ga_phrases g)"
  let ?m = "fold push_intent ?is []"
  have m: "bt_inv ?m" by (rule push_intents_inv) simp
  have get: "map_of ?m s = (if filter (\<lambda>i. hi_skill_id i = s) ?is = [] then None else Some (filter (\<lambda>i. hi_skill_id i = s) ?is))" for s
    by (simp add: push_intents_get)
  have skills: "by_skill g = map (\<lambda>(s, is). \<lparr>hs_skill_id = s, hs_intents = sort_key hi_name is\<rparr>) ?m"
    by (simp add: by_skill_def)
  have part: "js \<noteq> [] \<and> js = filter (\<lambda>i. hi_skill_id i = s) ?is" if "(s, js) \<in> set ?m" for s js
    using that m get [of s] by (auto simp: bt_inv_get split: if_splits)
  have names: "sorted_wrt (<) (map hi_name (sort_key hi_name js))" if "(s, js) \<in> set ?m" for s js
    using part [OF that] gathered_names_distinct [OF assms, of s] by (simp add: strict_sorted_iff distinct_map)
  show "skills_ordered (by_skill g)"
    unfolding skills_ordered_def
  proof (intro conjI ballI)
    have "map hs_skill_id (by_skill g) = map fst ?m" by (simp add: skills case_prod_unfold comp_def)
    then show "sorted_wrt (<) (map hs_skill_id (by_skill g))" using m by (simp add: bt_inv_def)
  next
    fix x assume "x \<in> set (by_skill g)"
    then obtain s js where x: "(s, js) \<in> set ?m" "x = \<lparr>hs_skill_id = s, hs_intents = sort_key hi_name js\<rparr>"
      by (auto simp: skills)
    show "sorted_wrt (<) (map hi_name (hs_intents x))" using names [OF x(1)] x(2) by simp
    obtain ks where "js \<noteq> []" "js = filter (\<lambda>i. hi_skill_id i = s) ks" using part [OF x(1)] by blast
    then have "js \<noteq> []" "\<forall>i \<in> set js. hi_skill_id i = s" by auto
    then show "hs_intents x \<noteq> []" "\<And>i. i \<in> set (hs_intents x) \<Longrightarrow> hi_skill_id i = hs_skill_id x"
      using x(2) by (auto simp flip: set_empty)
  qed
  show "set (concat (map hs_intents (by_skill g))) = set ?is" (is "?l = ?r")
  proof
    have "set js \<subseteq> set ?is" if "(s, js) \<in> set ?m" for s js using part [OF that] by (metis filter_is_subset)
    then show "?l \<subseteq> ?r" unfolding skills by force
    show "?r \<subseteq> ?l"
    proof
      fix i assume "i \<in> ?r"
      then have i: "i \<in> set (filter (\<lambda>j. hi_skill_id j = hi_skill_id i) ?is)" by simp
      then have "map_of ?m (hi_skill_id i) = Some (filter (\<lambda>j. hi_skill_id j = hi_skill_id i) ?is)"
        using get by (metis empty_iff empty_set)
      then have "(hi_skill_id i, filter (\<lambda>j. hi_skill_id j = hi_skill_id i) ?is) \<in> set ?m" by (rule map_of_SomeD)
      then show "i \<in> ?l" using i unfolding skills by force
    qed
  qed
qed

lemma contents_listed:
  "skills_ordered (by_skill (gather found ls))"
  "i \<in> set (concat (map hs_intents (by_skill (gather found ls)))) \<longleftrightarrow> intent_listed found ls i"
proof -
  have "phrases_ok found (entries ls) (gather found ls)" using gathered_ok(3) by (simp add: gather_entries)
  then have inv: "bt_inv (ga_phrases (gather found ls))" by (rule phrases_okD(1))
  show "skills_ordered (by_skill (gather found ls))" by (rule by_skill_ordered(1) [OF inv])
  show "i \<in> set (concat (map hs_intents (by_skill (gather found ls)))) \<longleftrightarrow> intent_listed found ls i"
    unfolding by_skill_ordered(2) [OF inv] by (rule gathered_listed)
qed

section \<open>Rows by language\<close>

text \<open>One listing for each language, whatever its spelling.\<close>

definition listings_apart :: "language_tables \<Rightarrow> listings \<Rightarrow> bool" where
  "listings_apart T ls \<longleftrightarrow> distinct (map (\<lambda>l. fold_language T (fst l)) ls)"

abbreviation row_in :: "language_tables \<Rightarrow> string \<Rightarrow> intent_row \<Rightarrow> bool" where
  "row_in T tag r \<equiv> ir_lang r \<noteq> [] \<and> same_language T tag (ir_lang r)"

lemma add_listed_new:
  "\<forall>l \<in> set ls. \<not> same_language T (fst l) (ir_lang row) \<Longrightarrow> add_listed T row ls = ls @ [(ir_lang row, [row])]"
  by (induction ls) auto

lemma add_listed_old:
  "listings_apart T ls \<Longrightarrow> \<exists>l \<in> set ls. same_language T (fst l) (ir_lang row) \<Longrightarrow>
   add_listed T row ls = map (\<lambda>l. (fst l, snd l @ (if same_language T (fst l) (ir_lang row) then [row] else []))) ls"
proof (induction ls)
  case (Cons l ls)
  obtain tag rs where l: "l = (tag, rs)" by (cases l)
  show ?case
  proof (cases "same_language T tag (ir_lang row)")
    case True
    have "\<not> same_language T (fst x) (ir_lang row)" if "x \<in> set ls" for x
      using Cons.prems(1) True that by (force simp: listings_apart_def same_language_def l)
    then have "map (\<lambda>l. (fst l, snd l @ (if same_language T (fst l) (ir_lang row) then [row] else []))) ls = ls"
      by (intro map_idI) auto
    then show ?thesis using True l by simp
  next
    case False
    then show ?thesis using Cons l by (simp add: listings_apart_def)
  qed
qed simp

definition grouped_rows :: "language_tables \<Rightarrow> intent_row list \<Rightarrow> listings \<Rightarrow> bool" where
  "grouped_rows T rows ls \<longleftrightarrow>
     listings_apart T ls \<and> (\<forall>l \<in> set ls. snd l = filter (row_in T (fst l)) rows)
     \<and> (\<forall>r \<in> set rows. ir_lang r \<noteq> [] \<longrightarrow> (\<exists>l \<in> set ls. same_language T (fst l) (ir_lang r)))"

lemma grouped_rows_step:
  assumes "grouped_rows T rows ls" and "ir_lang row \<noteq> []"
  shows "grouped_rows T (rows @ [row]) (add_listed T row ls)"
proof (cases "\<exists>l \<in> set ls. same_language T (fst l) (ir_lang row)")
  case True
  then show ?thesis
    using assms add_listed_old [of T ls row] by (auto simp: grouped_rows_def listings_apart_def comp_def)
next
  case False
  have "filter (row_in T (ir_lang row)) rows = []"
    using assms(1) False by (fastforce simp: grouped_rows_def filter_empty_conv same_language_def)
  moreover have "fold_language T (ir_lang row) \<notin> (\<lambda>l. fold_language T (fst l)) ` set ls"
    using False by (auto simp: same_language_def)
  ultimately show ?thesis
    using assms False add_listed_new [of ls T row]
    by (auto simp: grouped_rows_def listings_apart_def same_language_def)
qed

lemma by_language_grouped: "grouped_rows T rows (by_language T rows)"
proof (induction rows rule: rev_induct)
  case Nil
  show ?case by (simp add: grouped_rows_def by_language_def listings_apart_def)
next
  case (snoc row rows)
  show ?case
  proof (cases "ir_lang row = []")
    case True
    then show ?thesis using snoc by (auto simp: grouped_rows_def by_language_def)
  next
    case False
    then show ?thesis using grouped_rows_step [OF snoc False] by (simp add: by_language_def)
  qed
qed

lemma by_language_rows: "(tag, rs) \<in> set (by_language T rows) \<Longrightarrow> rs = filter (row_in T tag) rows"
  using by_language_grouped [of T rows] by (auto simp: grouped_rows_def)

end
