(* ===== verification/Intent_Safety.thy ===== *)
theory Intent_Safety
  imports Intent_Contents "HOL-Library.Sublist"
begin

text \<open>
  What a call of the inventory does to the hub and what its answer rests on: how often it asks for a listing,
  that no registration is described twice, that a description is one the hub gave for it, and that the
  inventory is what was listed in the languages it names.
\<close>

section \<open>Queries made\<close>

named_theorems asks_rules

text \<open>A call from a log leaves it with queries at its end, which stand in a relation to its result.\<close>

definition asks :: "'a asking \<Rightarrow> hub_query list \<Rightarrow> (hub_query list \<Rightarrow> 'a res \<Rightarrow> bool) \<Rightarrow> bool" where
  "asks m log R \<longleftrightarrow> (\<exists>qs r. m log = (r, log @ qs) \<and> R qs r)"

lemma asksD: "asks m log R \<Longrightarrow> m log = (r, log') \<Longrightarrow> \<exists>qs. log' = log @ qs \<and> R qs r"
  by (auto simp: asks_def)

lemma asks_return [asks_rules]: "R [] (Inr x) \<Longrightarrow> asks (ask_return x) log R"
  by (simp add: asks_def)

lemma asks_fail [asks_rules]: "R [] (Inl e) \<Longrightarrow> asks (ask_fail e) log R"
  by (simp add: asks_def)

lemma asks_mono: "asks m log Q \<Longrightarrow> (\<And>qs r. Q qs r \<Longrightarrow> R qs r) \<Longrightarrow> asks m log R"
  by (auto simp: asks_def)

lemma asks_try:
  assumes "asks m log Q" and "\<And>qs r. Q qs r \<Longrightarrow> asks (k r) (log @ qs) (\<lambda>qs'. R (qs @ qs'))"
  shows "asks (ask_try m k) log R"
proof -
  obtain qs r where m: "m log = (r, log @ qs)" "Q qs r" using assms(1) by (auto simp: asks_def)
  then have "asks (k r) (log @ qs) (\<lambda>qs'. R (qs @ qs'))" using assms(2) by blast
  then show ?thesis using m(1) by (auto simp: asks_def ask_try_def)
qed

lemma asks_bind:
  assumes "asks m log Q" and "\<And>qs e. Q qs (Inl e) \<Longrightarrow> R qs (Inl e)"
    and "\<And>qs x. Q qs (Inr x) \<Longrightarrow> asks (k x) (log @ qs) (\<lambda>qs'. R (qs @ qs'))"
  shows "asks (ask_bind m k) log R"
proof -
  obtain qs r where m: "m log = (r, log @ qs)" "Q qs r" using assms(1) by (auto simp: asks_def)
  show ?thesis
  proof (cases r)
    case (Inl e)
    then show ?thesis using m assms(2) by (auto simp: asks_def ask_bind_def)
  next
    case (Inr x)
    then have "asks (k x) (log @ qs) (\<lambda>qs'. R (qs @ qs'))" using m(2) assms(3) by blast
    then show ?thesis using m(1) Inr by (auto simp: asks_def ask_bind_def)
  qed
qed

text \<open>An event of the right name that matches the context of the last query answers it.\<close>

definition answered :: "intent_net \<Rightarrow> hub_query list \<Rightarrow> string \<Rightarrow> event \<Rightarrow> bool" where
  "answered net log reply_type e \<longleftrightarrow>
     log \<noteq> [] \<and> Got e \<in> set (td_seen (nt_told net log)) \<and> e_name e = reply_type
     \<and> event_matches_context e (Some (qu_context (last log)))"

lemma await_reply_gives:
  "fst (await_reply late query_type correlates (\<lambda>e u. (if P e then Some e else None, u)) rs u) = Inr e
   \<Longrightarrow> Got e \<in> set rs \<and> P e"
  by (induction rs) (auto split: reception.splits if_splits)

lemma asks_request_reply:
  assumes "\<And>q r. qu_type q = query_type \<Longrightarrow> qu_data q = data
    \<Longrightarrow> (\<And>e. r = Inr e \<Longrightarrow> answered net (log @ [q]) reply_type e) \<Longrightarrow> R [q] r"
  shows "asks (request_reply net query_type reply_type data lang deadline) log R"
proof -
  let ?q = "\<lparr>qu_type = query_type, qu_data = data, qu_context = query_context net lang (nt_id net (length log))\<rparr>"
  obtain r where r: "request_reply net query_type reply_type data lang deadline log = (r, log @ [?q])"
    by (simp add: request_reply_def Let_def)
  have "answered net (log @ [?q]) reply_type e" if "r = Inr e" for e
    using r that by (auto simp: request_reply_def Let_def answered_def split: option.splits sum.splits dest!: await_reply_gives)
  then have "R [?q] r" using assms by simp
  then show ?thesis using r by (auto simp: asks_def)
qed

section \<open>How often the hub is asked to list\<close>

definition of_language :: "hub_query \<Rightarrow> bool" where
  "of_language q \<longleftrightarrow> qu_type q = EVENT_INTENT_LIST \<and> map_of (qu_data q) ''lang'' \<noteq> None"

definition of_hub :: "hub_query \<Rightarrow> bool" where
  "of_hub q \<longleftrightarrow> qu_type q = EVENT_INTENT_LIST \<and> map_of (qu_data q) ''lang'' = None"

definition listings_made :: "hub_query list \<Rightarrow> nat" where
  "listings_made qs = length (filter of_language qs)"

definition hub_listings_made :: "hub_query list \<Rightarrow> nat" where
  "hub_listings_made qs = length (filter of_hub qs)"

lemma made_simps [simp]:
  "listings_made [] = 0" "hub_listings_made [] = 0"
  "listings_made (qs @ qs') = listings_made qs + listings_made qs'"
  "hub_listings_made (qs @ qs') = hub_listings_made qs + hub_listings_made qs'"
  "listings_made (q # qs) = (if of_language q then 1 else 0) + listings_made qs"
  "hub_listings_made (q # qs) = (if of_hub q then 1 else 0) + hub_listings_made qs"
  by (simp_all add: listings_made_def hub_listings_made_def)

lemma not_both: "of_language q \<Longrightarrow> \<not> of_hub q"
  by (simp add: of_language_def of_hub_def)

text \<open>
  Rows a hub gave for a language: all of an answer to the listing of that language, or those of that language
  in an answer to the listing of all.
\<close>

definition rows_answer :: "language_tables \<Rightarrow> hub_query \<Rightarrow> event \<Rightarrow> string \<Rightarrow> intent_row list \<Rightarrow> bool" where
  "rows_answer T q e tag rows \<longleftrightarrow>
     (case map_of (qu_data q) ''lang'' of
        Some v \<Rightarrow> (\<exists>lang. v = JString lang \<and> same_language T tag lang) \<and> rows = registrations_of e
      | None \<Rightarrow> rows = filter (row_in T tag) (registrations_of e))"

definition given_rows :: "intent_net \<Rightarrow> hub_query list \<Rightarrow> string \<Rightarrow> intent_row list \<Rightarrow> bool" where
  "given_rows net log tag rows \<longleftrightarrow>
     (\<exists>l e. prefix l log \<and> answered net l EVENT_INTENT_LIST_RESPONSE e \<and> \<not> refused_query e
        \<and> qu_type (last l) = EVENT_INTENT_LIST \<and> rows_answer (nt_tables net) (last l) e tag rows)"

lemma given_rows_later: "given_rows net log tag rows \<Longrightarrow> given_rows net (log @ qs) tag rows"
  unfolding given_rows_def by (blast intro: prefix_prefix)

lemma given_rows_same:
  assumes "same_language (nt_tables net) tag tag'" and "given_rows net log tag rows"
  shows "given_rows net log tag' rows"
proof -
  have same: "same_language (nt_tables net) tag x \<longleftrightarrow> same_language (nt_tables net) tag' x" for x
    using assms(1) by (simp add: same_language_def)
  have "rows_answer (nt_tables net) q e tag rows \<longleftrightarrow> rows_answer (nt_tables net) q e tag' rows" for q e
    unfolding rows_answer_def same ..
  then show ?thesis using assms(2) by (simp add: given_rows_def)
qed

lemma same_language_refl [simp]: "same_language T tag tag"
  by (simp add: same_language_def)

lemma list_intents_made:
  "asks (list_intents net lang opts) log (\<lambda>qs r.
     listings_made qs = 1 \<and> hub_listings_made qs = 0 \<and> (\<forall>rows. r = Inr rows \<longrightarrow> given_rows net (log @ qs) lang rows))"
  unfolding list_intents_def
proof (rule asks_bind [where Q = "\<lambda>qs r. \<exists>q. qs = [q] \<and> qu_type q = EVENT_INTENT_LIST
      \<and> map_of (qu_data q) ''lang'' = Some (JString lang)
      \<and> (\<forall>e. r = Inr e \<longrightarrow> answered net (log @ [q]) EVENT_INTENT_LIST_RESPONSE e)"], goal_cases)
  case 1
  show ?case by (rule asks_request_reply) simp
next
  case (2 qs e)
  then show ?case by (auto simp: of_language_def of_hub_def)
next
  case (3 qs e)
  then obtain q where q: "qs = [q]" "of_language q" "\<not> of_hub q" "qu_type q = EVENT_INTENT_LIST"
    "map_of (qu_data q) ''lang'' = Some (JString lang)" "answered net (log @ [q]) EVENT_INTENT_LIST_RESPONSE e"
    by (auto simp: of_language_def of_hub_def)
  have "given_rows net (log @ [q]) lang (registrations_of e)" if "\<not> refused_query e"
    unfolding given_rows_def using q that by (intro exI [of _ "log @ [q]"] exI [of _ e]) (simp add: rows_answer_def)
  then show ?case using q(1-3) by (auto intro!: asks_rules)
qed

lemma listing_made:
  "asks (listing net lang opts nearest) log (\<lambda>qs r.
     listings_made qs \<le> 2 \<and> hub_listings_made qs = 0
     \<and> (\<forall>found. r = Inr found \<longrightarrow> given_rows net (log @ qs) (fst found) (snd found)))"
  unfolding listing_def
proof (rule asks_bind [OF list_intents_made], goal_cases)
  case (2 qs rows)
  then have q: "listings_made qs = 1" "hub_listings_made qs = 0" "given_rows net (log @ qs) lang rows" by auto
  let ?R = "\<lambda>qs r. listings_made qs \<le> 2 \<and> hub_listings_made qs = 0
     \<and> (\<forall>found. r = Inr found \<longrightarrow> given_rows net (log @ qs) (fst found) (snd found))"
  have first: "asks (ask_return (lang, rows)) (log @ qs) (\<lambda>qs'. ?R (qs @ qs'))"
    using q by (intro asks_return) auto
  have "asks (ask_try (list_intents net usual opts) (\<lambda>r.
          case r of
            Inl e \<Rightarrow> if quiet_error e \<and> rows \<noteq> [] then ask_return (lang, rows) else ask_fail e
          | Inr retried \<Rightarrow>
              if can_carry_sentences retried \<or> (retried \<noteq> [] \<and> rows = []) then ask_return (usual, retried)
              else ask_return (lang, rows))) (log @ qs) (\<lambda>qs'. ?R (qs @ qs'))" for usual
  proof (rule asks_try [OF list_intents_made], goal_cases)
    case (1 qs' r)
    then have q': "listings_made (qs @ qs') \<le> 2" "hub_listings_made (qs @ qs') = 0"
      "given_rows net (log @ qs @ qs') lang rows" "\<And>x. r = Inr x \<Longrightarrow> given_rows net (log @ qs @ qs') usual x"
      using q given_rows_later [OF q(3), of qs'] by auto
    show ?case
      using q' by (cases r) (auto intro!: asks_rules)
  qed
  then show ?case using first by (auto split: option.split)
qed simp

text \<open>The hub's own languages, as it gave them.\<close>

definition hub_heard :: "intent_net \<Rightarrow> hub_query list \<Rightarrow> hub_languages option \<Rightarrow> bool" where
  "hub_heard net log hub \<longleftrightarrow> (\<forall>h tag rows. hub = Some h \<longrightarrow> (tag, rows) \<in> set (hl_by_lang h) \<longrightarrow> given_rows net log tag rows)"

lemma hub_heard_later: "hub_heard net log hub \<Longrightarrow> hub_heard net (log @ qs) hub"
  unfolding hub_heard_def using given_rows_later by blast

lemma hub_choice_given: "hub_heard net log hub \<Longrightarrow> hub_choice T lang hub = Some c \<Longrightarrow> given_rows net log (fst c) (snd c)"
  by (cases c) (auto simp: hub_heard_def hub_choice_def find_Some_iff bind_eq_Some_conv dest: nth_mem)

lemma list_hub_made:
  "asks (list_hub_languages net deadline d) log (\<lambda>qs r.
     listings_made qs = 0 \<and> hub_listings_made qs = 1 \<and> (\<forall>hub. r = Inr hub \<longrightarrow> hub_heard net (log @ qs) hub))"
  unfolding list_hub_languages_def
proof (rule asks_try [where Q = "\<lambda>qs r. \<exists>q. qs = [q] \<and> qu_type q = EVENT_INTENT_LIST \<and> map_of (qu_data q) ''lang'' = None
      \<and> (\<forall>e. r = Inr e \<longrightarrow> answered net (log @ [q]) EVENT_INTENT_LIST_RESPONSE e)"], goal_cases)
  case 1
  show ?case by (rule asks_request_reply) simp
next
  case (2 qs r)
  then obtain q where q: "qs = [q]" "of_hub q" "\<not> of_language q" "qu_type q = EVENT_INTENT_LIST"
    "map_of (qu_data q) ''lang'' = None" "\<And>e. r = Inr e \<Longrightarrow> answered net (log @ [q]) EVENT_INTENT_LIST_RESPONSE e"
    by (auto simp: of_language_def of_hub_def)
  have none: "hub_heard net l None" for l by (simp add: hub_heard_def)
  have some: "hub_heard net (log @ [q]) (Some \<lparr>hl_by_lang = by_language (nt_tables net) (registrations_of e), hl_session_lang = sl\<rparr>)"
    if e: "r = Inr e" "\<not> refused_query e" for e sl
    unfolding hub_heard_def given_rows_def
    using q e by (auto intro!: exI [of _ "log @ [q]"] exI [of _ e] simp: rows_answer_def dest!: by_language_rows)
  show ?case
    using q(1-3) none some by (cases r) (auto intro!: asks_rules)
qed

definition hub_allowance :: "listing_state \<Rightarrow> nat" where
  "hub_allowance g = (if g_hub g = None then 1 else 0)"

definition hub_known :: "intent_net \<Rightarrow> hub_query list \<Rightarrow> listing_state \<Rightarrow> bool" where
  "hub_known net log g \<longleftrightarrow> (\<forall>hub. g_hub g = Some hub \<longrightarrow> hub_heard net log hub)"

lemma or_hub_made:
  assumes "given_rows net log (fst found) (snd found)" and "hub_known net log g"
  shows "asks (or_hub_language net opts deadline lang found g) log (\<lambda>qs r.
     listings_made qs = 0 \<and> hub_listings_made qs \<le> hub_allowance g
     \<and> (\<forall>found' g'. r = Inr (found', g') \<longrightarrow>
          hub_listings_made qs + hub_allowance g' \<le> hub_allowance g
          \<and> g_listed g' = g_listed g \<and> g_listed_in g' = g_listed_in g
          \<and> hub_known net (log @ qs) g' \<and> given_rows net (log @ qs) (fst found') (snd found')))"
proof (cases "io_nearest opts \<and> \<not> can_carry_sentences (snd found)")
  case False
  then show ?thesis
    unfolding or_hub_language_def using assms by (auto intro!: asks_return)
next
  case True
  let ?R = "\<lambda>qs r. listings_made qs = 0 \<and> hub_listings_made qs \<le> hub_allowance g
     \<and> (\<forall>found' g'. r = Inr (found', g') \<longrightarrow>
          hub_listings_made qs + hub_allowance g' \<le> hub_allowance g
          \<and> g_listed g' = g_listed g \<and> g_listed_in g' = g_listed_in g
          \<and> hub_known net (log @ qs) g' \<and> given_rows net (log @ qs) (fst found') (snd found'))"
  have hub: "asks (case g_hub g of Some h \<Rightarrow> ask_return h | None \<Rightarrow> list_hub_languages net deadline (io_describe opts)) log
      (\<lambda>qs r. listings_made qs = 0 \<and> hub_listings_made qs = hub_allowance g
         \<and> (\<forall>h. r = Inr h \<longrightarrow> hub_heard net (log @ qs) h))"
    using assms(2) list_hub_made by (auto intro!: asks_return simp: hub_allowance_def hub_known_def split: option.split)
  have "asks (ask_bind (case g_hub g of Some h \<Rightarrow> ask_return h | None \<Rightarrow> list_hub_languages net deadline (io_describe opts))
       (\<lambda>h. ask_return ((case hub_choice (nt_tables net) lang h of Some c \<Rightarrow> c | None \<Rightarrow> found), g\<lparr>g_hub := Some h\<rparr>))) log ?R"
  proof (rule asks_bind [OF hub], goal_cases)
    case (2 qs h)
    then have "given_rows net (log @ qs) (fst c) (snd c)" if "c = (case hub_choice (nt_tables net) lang h of Some c \<Rightarrow> c | None \<Rightarrow> found)" for c
      using that hub_choice_given given_rows_later [OF assms(1)] by (cases "hub_choice (nt_tables net) lang h") auto
    then show ?case using 2 by (intro asks_return) (auto simp: hub_allowance_def hub_known_def)
  qed auto
  then show ?thesis unfolding or_hub_language_def using True by simp
qed

section \<open>Listings kept apart\<close>

text \<open>The languages listed in are those of the listings, and every listing is the hub's own.\<close>

definition listing_inv :: "intent_net \<Rightarrow> hub_query list \<Rightarrow> listing_state \<Rightarrow> bool" where
  "listing_inv net log g \<longleftrightarrow>
     listings_apart (nt_tables net) (g_listed g) \<and> set (g_listed_in g) = fst ` set (g_listed g)
     \<and> (\<forall>l \<in> set (g_listed g). given_rows net log (fst l) (snd l)) \<and> hub_known net log g"

lemma listing_inv_later: "listing_inv net log g \<Longrightarrow> listing_inv net (log @ qs) g"
  by (auto simp: listing_inv_def hub_known_def intro: given_rows_later hub_heard_later)

lemma put_listing_folds:
  "put_listing T tag rows ls = (t, ls') \<Longrightarrow>
     fold_language T t = fold_language T tag \<and> t \<in> fst ` set ls'
     \<and> (fst ` set ls' = insert t (fst ` set ls))
     \<and> map (\<lambda>l. fold_language T (fst l)) ls' = map (\<lambda>l. fold_language T (fst l)) ls
         @ (if fold_language T tag \<in> (\<lambda>l. fold_language T (fst l)) ` set ls then [] else [fold_language T tag])"
proof (induction T tag rows ls arbitrary: t ls' rule: put_listing.induct)
  case (2 T tag rows seen seen_rows ls)
  show ?case
  proof (cases "same_language T seen tag")
    case True
    then have "t = seen" "ls' = (seen, rows) # ls" using 2(2) by auto
    then show ?thesis using True by (simp add: same_language_def)
  next
    case False
    obtain t' ls2 where rec: "put_listing T tag rows ls = (t', ls2)" by (metis surj_pair)
    then have out: "t = t'" "ls' = (seen, seen_rows) # ls2" using 2(2) False by auto
    show ?thesis using 2(1) [OF False rec] False unfolding out same_language_def by (auto simp: insert_commute)
  qed
qed auto

lemma put_listing_rows:
  "put_listing T tag rows ls = (t, ls') \<Longrightarrow> set ls' \<subseteq> insert (t, rows) (set ls)"
proof (induction T tag rows ls arbitrary: t ls' rule: put_listing.induct)
  case (2 T tag rows seen seen_rows ls)
  show ?case
  proof (cases "same_language T seen tag")
    case True
    then have "t = seen" "ls' = (seen, rows) # ls" using 2(2) by auto
    then show ?thesis by auto
  next
    case False
    obtain t' ls2 where rec: "put_listing T tag rows ls = (t', ls2)" by (metis surj_pair)
    then have out: "t = t'" "ls' = (seen, seen_rows) # ls2" using 2(2) False by auto
    show ?thesis using 2(1) [OF False rec] unfolding out by auto
  qed
qed auto

lemma place_listing_inv:
  assumes inv: "listing_inv net log g" and given: "given_rows net log (fst found) (snd found)"
  shows "listing_inv net log (place_listing (nt_tables net) found g)"
    and "length (g_listed_in (place_listing (nt_tables net) found g)) = Suc (length (g_listed_in g))"
    and "g_hub (place_listing (nt_tables net) found g) = g_hub g"
proof -
  obtain t ls where p: "put_listing (nt_tables net) (fst found) (snd found) (g_listed g) = (t, ls)" by (metis surj_pair)
  note f = put_listing_folds [OF p]
  have "given_rows net log t (snd found)" using given_rows_same [OF _ given] f by (simp add: same_language_def)
  then have rows: "\<forall>l \<in> set ls. given_rows net log (fst l) (snd l)"
    using put_listing_rows [OF p] inv by (auto simp: listing_inv_def)
  show "listing_inv net log (place_listing (nt_tables net) found g)"
    using inv f rows by (auto simp: listing_inv_def listings_apart_def place_listing_def p hub_known_def)
  show "length (g_listed_in (place_listing (nt_tables net) found g)) = Suc (length (g_listed_in g))"
    "g_hub (place_listing (nt_tables net) found g) = g_hub g"
    by (simp_all add: place_listing_def p)
qed

definition no_listing :: "hub_query list \<Rightarrow> bool" where
  "no_listing qs \<longleftrightarrow> (\<forall>q \<in> set qs. qu_type q \<noteq> EVENT_INTENT_LIST)"

lemma no_listing_made: "no_listing qs \<Longrightarrow> listings_made qs = 0 \<and> hub_listings_made qs = 0"
  by (auto simp: no_listing_def listings_made_def hub_listings_made_def of_language_def of_hub_def filter_empty_conv)

lemma no_listing_simps [simp]:
  "no_listing []" "no_listing (qs @ qs') \<longleftrightarrow> no_listing qs \<and> no_listing qs'"
  "no_listing (q # qs) \<longleftrightarrow> qu_type q \<noteq> EVENT_INTENT_LIST \<and> no_listing qs"
  by (auto simp: no_listing_def)

lemmas query_types = EVENT_INTENT_LIST_def EVENT_INTENT_DESCRIBE_def EVENT_ADAPT_MANIFEST_GET_def
  EVENT_PADATIOUS_MANIFEST_GET_def EVENT_SKILLS_LIST_def

lemma engine_names_made:
  "query_type \<noteq> EVENT_INTENT_LIST \<Longrightarrow>
     asks (engine_names net lang deadline engine query_type reply_type) log (\<lambda>qs r. no_listing qs)"
  unfolding engine_names_def
  by (rule asks_bind [where Q = "\<lambda>qs r. no_listing qs"]) (auto intro!: asks_request_reply asks_rules)

lemma intent_names_made: "asks (intent_names net lang deadline) log (\<lambda>qs r. no_listing qs)"
  unfolding intent_names_def
  by (rule asks_bind [OF engine_names_made], simp_all add: query_types del: no_listing_simps(1))
    (auto intro!: asks_bind [OF engine_names_made] asks_rules simp: query_types)

lemma by_names_source: "iv_source (inventory_from_names names asked denied) = EngineManifests"
  by (simp add: inventory_from_names_def Let_def)

lemma list_languages_made:
  assumes "listing_inv net log g"
  shows "asks (list_languages net opts deadline asked langs g) log (\<lambda>qs r.
     listings_made qs \<le> 2 * length langs \<and> hub_listings_made qs \<le> hub_allowance g
     \<and> (\<forall>g'. r = Inr (Listed_All g') \<longrightarrow>
          listing_inv net (log @ qs) g' \<and> length (g_listed_in g') = length (g_listed_in g) + length langs)
     \<and> (\<forall>v. r = Inr (By_Name v) \<longrightarrow> iv_source v = EngineManifests))"
  using assms
proof (induction langs arbitrary: g log)
  case Nil
  then show ?case unfolding list_languages.simps by (intro asks_return) simp
next
  case (Cons lang langs)
  let ?R = "\<lambda>qs r. listings_made qs \<le> 2 * length (lang # langs) \<and> hub_listings_made qs \<le> hub_allowance g
     \<and> (\<forall>g'. r = Inr (Listed_All g') \<longrightarrow>
          listing_inv net (log @ qs) g' \<and> length (g_listed_in g') = length (g_listed_in g) + length (lang # langs))
     \<and> (\<forall>v. r = Inr (By_Name v) \<longrightarrow> iv_source v = EngineManifests)"
  show ?case
    unfolding list_languages.simps
  proof (rule asks_try [OF listing_made], goal_cases)
    case (1 qs r)
    then have qs: "listings_made qs \<le> 2" "hub_listings_made qs = 0" by auto
    have names: "asks (ask_bind (intent_names net (hd asked) deadline)
        (\<lambda>names. ask_return (By_Name (inventory_from_names names asked EVENT_INTENT_LIST)))) (log @ qs) (\<lambda>qs'. ?R (qs @ qs'))"
      using qs by (intro asks_bind [OF intent_names_made] asks_rules) (auto dest: no_listing_made simp: by_names_source)
    have failed: "asks (ask_fail e) (log @ qs) (\<lambda>qs'. ?R (qs @ qs'))" for e using qs by (intro asks_rules) auto
    have known: "hub_known net (log @ qs) g" using listing_inv_later [OF Cons.prems] by (simp add: listing_inv_def)
    have on: "asks (ask_bind (or_hub_language net opts deadline lang found g) (\<lambda>(found, g).
              list_languages net opts deadline asked langs (place_listing (nt_tables net) found g)))
             (log @ qs) (\<lambda>qs'. ?R (qs @ qs'))" if "r = Inr found" for found
    proof (rule asks_bind [OF or_hub_made], goal_cases)
      case 1
      show ?case using \<open>_ \<and> _ \<and> _\<close> that by auto
    next
      case 2
      show ?case by (rule known)
    next
      case (3 qs' e)
      then show ?case using qs by auto
    next
      case (4 qs' x)
      obtain found' g' where x: "x = (found', g')" by (cases x)
      have g': "hub_listings_made qs' + hub_allowance g' \<le> hub_allowance g" "listings_made qs' = 0"
        "g_listed_in g' = g_listed_in g" "listing_inv net ((log @ qs) @ qs') g'"
        "given_rows net ((log @ qs) @ qs') (fst found') (snd found')"
        using 4 listing_inv_later [OF Cons.prems, of "qs @ qs'"] by (auto simp: x listing_inv_def)
      note place = place_listing_inv [OF g'(4,5)]
      show ?case
        unfolding x prod.case
        by (rule asks_mono [OF Cons.IH [OF place(1)]]) (use qs g' place in \<open>auto simp: hub_allowance_def\<close>)
    qed
    show ?case using names failed on by (cases r) simp_all
  qed
qed

section \<open>Descriptions\<close>

definition payload_of :: "registration_key \<Rightarrow> jmap" where
  "payload_of k = describe_payload (fst k) (fst (snd k)) (snd (snd k))"

text \<open>A registration was asked about under an id; a description is the answer to that, or names it itself.\<close>

definition asked_with :: "intent_net \<Rightarrow> hub_query list \<Rightarrow> string \<Rightarrow> registration_key \<Rightarrow> bool" where
  "asked_with net log rid k \<longleftrightarrow>
     \<lparr>qu_type = EVENT_INTENT_DESCRIBE, qu_data = payload_of k,
      qu_context = query_context net (Some (snd (snd k))) rid\<rparr> \<in> set log"

definition names_key :: "language_tables \<Rightarrow> registration_key \<Rightarrow> intent_definition list \<Rightarrow> bool" where
  "names_key T k ds \<longleftrightarrow>
     ds \<noteq> [] \<and> fst k = df_skill_id (hd ds) \<and> fst (snd k) = df_intent_name (hd ds)
     \<and> same_language T (snd (snd k)) (df_lang (hd ds))"

definition described_by :: "intent_net \<Rightarrow> hub_query list \<Rightarrow> registration_key \<Rightarrow> intent_definition list \<Rightarrow> bool" where
  "described_by net log k ds \<longleftrightarrow>
     (\<exists>l e. prefix l log \<and> Got e \<in> set (td_seen (nt_told net l)) \<and> e_name e = EVENT_INTENT_DESCRIBE_RESPONSE
        \<and> ds = definitions_of e
        \<and> (case event_request_id e of Some rid \<Rightarrow> asked_with net l rid k | None \<Rightarrow> names_key (nt_tables net) k ds))"

lemma described_later: "described_by net log k ds \<Longrightarrow> described_by net (log @ qs) k ds"
  unfolding described_by_def by (metis prefix_order.trans prefixI)

definition found_ok :: "intent_net \<Rightarrow> hub_query list \<Rightarrow> registration_key list \<Rightarrow> described \<Rightarrow> bool" where
  "found_ok net log keys found \<longleftrightarrow>
     distinct (map fst found) \<and> (\<forall>(k, ds) \<in> set found. k \<in> set keys \<and> described_by net log k ds)"

lemma await_reply_inv:
  assumes "\<And>e s. Got e \<in> set rs \<Longrightarrow> P s \<Longrightarrow> P (snd (judge e s))" and "P s"
  shows "P (snd (await_reply late query_type correlates judge rs s))"
  using assms
proof (induction rs arbitrary: s)
  case (Cons r rs)
  show ?case
  proof (cases r)
    case (Got e)
    obtain x s' where j: "judge e s = (x, s')" by (cases "judge e s")
    have "P s'" using Cons.prems(1) [of e s] Cons.prems(2) Got j by simp
    then show ?thesis using Cons Got j by (auto split: option.split)
  next
    case (Lagged n)
    then show ?thesis using Cons by simp
  next
    case Subscription_Closed
    then show ?thesis using Cons by simp
  qed
qed simp

lemma described_key_Some:
  "described_key T by keys e = Some k \<Longrightarrow>
     (case event_request_id e of Some rid \<Rightarrow> (rid, k) \<in> set by
      | None \<Rightarrow> k \<in> set keys \<and> names_key T k (definitions_of e))"
  by (auto simp: described_key_def names_key_def find_Some_iff split: option.splits list.splits
      dest: map_of_SomeD) (metis nth_mem)

lemma describe_accept_ok:
  assumes "Got e \<in> set (td_seen (nt_told net log))" and by_ok: "\<forall>p \<in> set by. asked_with net log (fst p) (snd p) \<and> snd p \<in> set keys"
    and found: "found_ok net log keys found"
  shows "found_ok net log keys (snd (describe_accept (nt_tables net) by keys e found))"
proof (cases "e_name e = EVENT_INTENT_DESCRIBE_RESPONSE \<and> described_key (nt_tables net) by keys e \<noteq> None")
  case True
  then obtain k where k: "described_key (nt_tables net) by keys e = Some k" by blast
  have "k \<in> set keys \<and> (case event_request_id e of Some rid \<Rightarrow> asked_with net log rid k
      | None \<Rightarrow> names_key (nt_tables net) k (definitions_of e))"
    using described_key_Some [OF k] by_ok by (auto split: option.splits)
  then have "k \<in> set keys" "described_by net log k (definitions_of e)"
    using True assms(1) unfolding described_by_def by blast+
  then show ?thesis
    using True k found by (auto simp: describe_accept_def found_ok_def Let_def map_of_eq_None_iff split: if_splits)
next
  case False
  then show ?thesis
    using found by (cases "described_key (nt_tables net) by keys e") (auto simp: describe_accept_def)
qed

lemma describe_send_made:
  assumes "\<forall>p \<in> set by. asked_with net log (fst p) (snd p) \<and> snd p \<in> set keys" and "set ks \<subseteq> set keys"
  shows "asks (describe_send net ks by) log (\<lambda>qs r.
     no_listing qs \<and> map qu_data qs = map payload_of (take (length qs) ks)
     \<and> (\<forall>by'. r = Inr by' \<longrightarrow> (\<forall>p \<in> set by'. asked_with net (log @ qs) (fst p) (snd p) \<and> snd p \<in> set keys)))"
  using assms
proof (induction ks arbitrary: "by" log)
  case Nil
  then show ?case by (simp add: asks_def)
next
  case (Cons key ks)
  obtain skill_id intent_name lang where key: "key = (skill_id, intent_name, lang)" by (cases key)
  let ?rid = "nt_id net (length log)"
  let ?q = "\<lparr>qu_type = EVENT_INTENT_DESCRIBE, qu_data = payload_of key, qu_context = query_context net (Some lang) ?rid\<rparr>"
  have q: "qu_type ?q \<noteq> EVENT_INTENT_LIST" by (simp add: query_types)
  have by': "\<forall>p \<in> set ((?rid, key) # by). asked_with net (log @ [?q]) (fst p) (snd p) \<and> snd p \<in> set keys"
    using Cons.prems by (auto simp: asked_with_def key)
  note rest = Cons.IH [OF by'] 
  show ?case
  proof (cases "nt_late net log \<or> td_sent (nt_told net (log @ [?q])) \<noteq> Some (Inr ())")
    case True
    then show ?thesis using q
      by (auto simp: asks_def key payload_of_def Let_def split: option.splits sum.splits)
  next
    case False
    then have step: "describe_send net (key # ks) by log = describe_send net ks ((?rid, key) # by) (log @ [?q])"
      by (simp add: key payload_of_def Let_def)
    obtain qs r where r: "describe_send net ks ((?rid, key) # by) (log @ [?q]) = (r, (log @ [?q]) @ qs)"
      "no_listing qs \<and> map qu_data qs = map payload_of (take (length qs) ks)"
      "\<forall>by'. r = Inr by' \<longrightarrow> (\<forall>p \<in> set by'. asked_with net ((log @ [?q]) @ qs) (fst p) (snd p) \<and> snd p \<in> set keys)"
      using rest Cons.prems(2) by (auto simp: asks_def)
    then show ?thesis
      unfolding asks_def step using q by (intro exI [of _ "?q # qs"] exI [of _ r]) auto
  qed
qed

lemma found_ok_later: "found_ok net log keys found \<Longrightarrow> found_ok net (log @ qs) keys found"
  by (auto simp: found_ok_def intro: described_later)

text \<open>A window asks about its registrations once each, and gives descriptions of them only.\<close>

definition window_made :: "intent_net \<Rightarrow> hub_query list \<Rightarrow> registration_key list \<Rightarrow> hub_query list \<Rightarrow> described res \<Rightarrow> bool" where
  "window_made net log keys qs r \<longleftrightarrow>
     no_listing qs \<and> subseq (map qu_data qs) (map payload_of keys)
     \<and> (\<forall>found. r = Inr found \<longrightarrow> found_ok net (log @ qs) keys found)"

lemma take_subseq: "subseq (map f (take n xs)) (map f xs)"
  by (rule subseq_map) (rule prefix_imp_subseq [OF take_is_prefix])

lemma describe_await_made:
  assumes "\<forall>p \<in> set by. asked_with net log (fst p) (snd p) \<and> snd p \<in> set keys"
  shows "asks (describe_await net keys by) log (\<lambda>qs r. qs = [] \<and> (\<forall>found. r = Inr found \<longrightarrow> found_ok net log keys found))"
proof -
  let ?t = "nt_told net log"
  let ?w = "await_reply (unanswered_in EVENT_INTENT_DESCRIBE (td_left ?t)) EVENT_INTENT_DESCRIBE
       (\<lambda>e. case event_request_id e of Some rid \<Rightarrow> map_of by rid \<noteq> None | None \<Rightarrow> True)
       (describe_accept (nt_tables net) by keys) (td_seen ?t) []"
  have ok: "found_ok net log keys (snd ?w)"
  proof (rule await_reply_inv)
    fix e s assume "Got e \<in> set (td_seen ?t)" "found_ok net log keys s"
    then show "found_ok net log keys (snd (describe_accept (nt_tables net) by keys e s))"
      using describe_accept_ok assms by blast
  qed (simp add: found_ok_def)
  obtain r found where w: "?w = (r, found)" by (cases ?w)
  show ?thesis
  proof (cases r)
    case (Inl e)
    then show ?thesis
      using ok w unfolding asks_def describe_await_def Let_def by (cases e) (auto split: if_splits)
  next
    case (Inr u)
    then show ?thesis using ok w unfolding asks_def describe_await_def Let_def by simp
  qed
qed

lemma describe_one_batch_made: "asks (describe_one_batch net keys) log (window_made net log keys)"
proof (cases "keys = []")
  case True
  then show ?thesis
    unfolding describe_one_batch_def by (auto intro!: asks_rules simp: window_made_def found_ok_def)
next
  case False
  have "asks (ask_bind (describe_send net keys []) (describe_await net keys)) log (window_made net log keys)"
  proof (rule asks_bind [OF describe_send_made [where keys = keys]], goal_cases)
    case (3 qs e)
    then show ?case using take_subseq by (simp add: window_made_def)
  next
    case (4 qs "by")
    then have "\<forall>p \<in> set by. asked_with net (log @ qs) (fst p) (snd p) \<and> snd p \<in> set keys" by blast
    from describe_await_made [OF this] show ?case
      by (rule asks_mono) (use 4 take_subseq in \<open>auto simp: window_made_def\<close>)
  qed simp_all
  then show ?thesis using False by (simp add: describe_one_batch_def)
qed

lemma chunks_concat: "0 < n \<Longrightarrow> concat (chunks n xs) = xs"
  by (induction n xs rule: chunks.induct) (subst chunks.simps, simp)

lemma chunks_length: "w \<in> set (chunks n xs) \<Longrightarrow> length w \<le> n"
  by (induction n xs rule: chunks.induct) (subst (asm) chunks.simps, auto split: if_splits)

lemma found_ok_append:
  assumes "found_ok net log ks d" "found_ok net log ks' found" "set ks \<inter> set ks' = {}"
  shows "found_ok net log (ks' @ ks) (d @ found)"
  using assms unfolding found_ok_def by fastforce

definition windows_made ::
    "intent_net \<Rightarrow> hub_query list \<Rightarrow> registration_key list \<Rightarrow> registration_key list \<Rightarrow> hub_query list \<Rightarrow> described res \<Rightarrow> bool" where
  "windows_made net log before keys qs r \<longleftrightarrow>
     no_listing qs \<and> subseq (map qu_data qs) (map payload_of keys)
     \<and> (\<forall>f. r = Inr f \<longrightarrow> found_ok net (log @ qs) (before @ keys) f)"

lemma windows_made_join:
  assumes "window_made net log w qs r" and "windows_made net (log @ qs) (before @ w) keys qs' r'"
  shows "windows_made net log before (w @ keys) (qs @ qs') r'"
  using assms by (auto simp: window_made_def windows_made_def intro: list_emb_append_mono)

lemma windows_made_stop:
  assumes "window_made net log w qs r" and "\<And>f. r' = Inr f \<Longrightarrow> found_ok net (log @ qs) (before @ w) f"
  shows "windows_made net log before (w @ keys) qs r'"
proof -
  have "found_ok net (log @ qs) (before @ w @ keys) f" if "r' = Inr f" for f
    using assms(2) [OF that] by (auto simp: found_ok_def)
  then show ?thesis using assms(1) by (auto simp: window_made_def windows_made_def intro: list_emb_append2)
qed

lemma describe_windows_made:
  assumes "found_ok net log before found" and "distinct (before @ concat ws)"
  shows "asks (describe_windows net ws found) log (windows_made net log before (concat ws))"
  using assms
proof (induction ws arbitrary: before found log)
  case Nil
  then show ?case by (simp add: asks_def windows_made_def)
next
  case (Cons w ws)
  let ?R = "windows_made net log before (concat (w # ws))"
  obtain qs r where b: "describe_one_batch net w log = (r, log @ qs)" "window_made net log w qs r"
    using describe_one_batch_made [of net w log] unfolding asks_def by blast
  let ?next = "\<lambda>f. if nt_spent net (log @ qs) then (Inr f, log @ qs) else describe_windows net ws f (log @ qs)"
  have next_ok: "\<exists>r' qs'. ?next f = (r', log @ qs') \<and> ?R qs' r'" if f: "found_ok net (log @ qs) (before @ w) f" for f
  proof (cases "nt_spent net (log @ qs)")
    case True
    then show ?thesis using windows_made_stop [OF b(2), of "Inr f" before "concat ws"] f by auto
  next
    case False
    have "distinct ((before @ w) @ concat ws)" using Cons.prems(2) by simp
    from Cons.IH [OF f this] show ?thesis using False windows_made_join [OF b(2)] by (auto simp: asks_def)
  qed
  have old: "found_ok net (log @ qs) before found" by (rule found_ok_later [OF Cons.prems(1)])
  show ?case
  proof (cases r)
    case (Inr d)
    then have "found_ok net (log @ qs) (before @ w) (d @ found)"
      using b(2) old found_ok_append Cons.prems(2) by (force simp: window_made_def)
    moreover have "describe_windows net (w # ws) found log = ?next (d @ found)" by (simp add: b(1) Inr Let_def)
    ultimately show ?thesis using next_ok unfolding asks_def by metis
  next
    case (Inl e)
    have "found_ok net (log @ qs) (before @ w) found" using old by (auto simp: found_ok_def)
    moreover have "?R qs (Inl e)" using windows_made_stop [OF b(2), of "Inl e"] by simp
    moreover have "describe_windows net (w # ws) found log = ?next found
        \<or> describe_windows net (w # ws) found log = (Inl e, log @ qs)"
      by (cases e) (simp_all add: b(1) Inl Let_def)
    ultimately show ?thesis using next_ok unfolding asks_def by metis
  qed
qed

lemma once_each_simps [simp]: "distinct (once_each xs)" "set (once_each xs) = set xs"
  by (simp_all add: once_each_def)

lemma describe_many_made:
  "asks (describe_many net keys deadline batch) log (windows_made net log [] (once_each keys))"
proof -
  have one: "asks (describe_one_batch net (once_each keys)) log (windows_made net log [] (once_each keys))"
    using describe_one_batch_made by (rule asks_mono) (simp add: window_made_def windows_made_def)
  have many: "asks (describe_windows net (chunks batch (once_each keys)) []) log (windows_made net log [] (once_each keys))"
    if "0 < batch"
    using describe_windows_made [of net log "[]" "[]" "chunks batch (once_each keys)"]
    unfolding chunks_concat [OF that] by (simp add: found_ok_def)
  have "asks (ask_fail e) log (windows_made net log [] (once_each keys))" for e
    by (rule asks_fail) (simp add: windows_made_def)
  then show ?thesis using one many unfolding describe_many_def Let_def by auto
qed

section \<open>The whole call\<close>

text \<open>An answer from the hub's manifest: what was listed, in which languages, and what was described.\<close>

definition answers_with ::
    "intent_net \<Rightarrow> hub_query list \<Rightarrow> string list \<Rightarrow> inventory \<Rightarrow> listings \<Rightarrow> described \<Rightarrow> bool" where
  "answers_with net log asked v ls found \<longleftrightarrow>
     iv_languages v = asked \<and> length (iv_listed_in v) = length asked \<and> iv_denied v = []
     \<and> listings_apart (nt_tables net) ls \<and> set (iv_listed_in v) = fst ` set ls
     \<and> (\<forall>l \<in> set ls. given_rows net log (fst l) (snd l))
     \<and> found_ok net log (wanted_keys ls) found
     \<and> skills_ordered (iv_skills v) \<and> (\<forall>i. i \<in> set (inventory_intents v) \<longleftrightarrow> intent_listed found ls i)"

lemma found_ok_once: "found_ok net log (once_each keys) found \<longleftrightarrow> found_ok net log keys found"
  by (simp add: found_ok_def)

lemma hub_inventory_made:
  fixes net languages opts
  defines "asked \<equiv> chosen_languages (nt_tables net) languages"
  shows "asks (hub_inventory net languages opts) log (\<lambda>qs r.
     listings_made qs \<le> 2 * length asked \<and> hub_listings_made qs \<le> 1
     \<and> (\<forall>v. r = Inr v \<longrightarrow> iv_source v = IntentManifest \<longrightarrow> (\<exists>ls found. answers_with net (log @ qs) asked v ls found)))"
  unfolding hub_inventory_def Let_def asked_def [symmetric]
proof (rule asks_bind [OF list_languages_made], goal_cases)
  case 1
  show ?case by (simp add: listing_inv_def listings_apart_def hub_known_def)
next
  case (2 qs e)
  then show ?case by (simp add: hub_allowance_def)
next
  case (3 qs outcome)
  let ?R = "\<lambda>qs r. listings_made qs \<le> 2 * length asked \<and> hub_listings_made qs \<le> 1
     \<and> (\<forall>v. r = Inr v \<longrightarrow> iv_source v = IntentManifest \<longrightarrow> (\<exists>ls found. answers_with net (log @ qs) asked v ls found))"
  have qs: "listings_made qs \<le> 2 * length asked" "hub_listings_made qs \<le> 1" using 3 by (auto simp: hub_allowance_def)
  show ?case
  proof (cases outcome)
    case (By_Name v)
    then show ?thesis using 3 qs by (auto intro: asks_return)
  next
    case (Listed_All g)
    let ?keys = "wanted_keys (g_listed g)"
    let ?describe = "if io_describe opts \<and> ?keys \<noteq> []
      then describe_many net ?keys (timeout_or (io_timeout opts)) DESCRIBE_BATCH else ask_return []"
    have g: "listing_inv net (log @ qs) g" "length (g_listed_in g) = length asked" using 3 Listed_All by auto
    have d: "asks ?describe (log @ qs) (windows_made net (log @ qs) [] (once_each ?keys))"
      using describe_many_made by (auto intro: asks_return simp: windows_made_def found_ok_def)
    have "asks (ask_bind ?describe (\<lambda>found. ask_return
         \<lparr>iv_languages = asked, iv_skills = by_skill (gather found (g_listed g)), iv_source = IntentManifest,
          iv_denied = [], iv_listed_in = g_listed_in g\<rparr>)) (log @ qs) (\<lambda>qs'. ?R (qs @ qs'))"
    proof (rule asks_bind [OF d], goal_cases)
      case (1 qs' e)
      then show ?case using qs by (auto simp: windows_made_def dest: no_listing_made)
    next
      case (2 qs' found)
      then have "found_ok net (log @ qs @ qs') ?keys found" "no_listing qs'"
        by (simp_all add: windows_made_def found_ok_once)
      moreover have "listing_inv net (log @ qs @ qs') g" using listing_inv_later [OF g(1), of qs'] by simp
      ultimately show ?case
        using qs g(2) contents_listed [where found = found and ls = "g_listed g"]
        by (intro asks_return) (auto simp: answers_with_def listing_inv_def inventory_intents_def dest: no_listing_made)
    qed
    then show ?thesis using Listed_All by simp
  qed
qed

section \<open>What a caller can rely on\<close>

text \<open>
  However the hub answers, a call of the inventory asks it for at most two listings of each language asked
  and for its whole manifest at most once.
\<close>

theorem listings_bounded:
  assumes "hub_inventory net languages opts log = (r, log')"
  shows "\<exists>qs. log' = log @ qs \<and> listings_made qs \<le> 2 * length (chosen_languages (nt_tables net) languages)
    \<and> hub_listings_made qs \<le> 1"
  using asksD [OF hub_inventory_made assms] by auto

text \<open>
  C32: An inventory read from the manifest is what the hub listed. It names one listing for every language asked;
  the listings are the hub's own answers, one for each language; it holds one intent for every skill and name
  in them and no other, on when any of its rows is, with a sentence list for exactly the languages it was
  listed in; the descriptions its sentences come from are answers of the hub to the question about that
  registration, or name it themselves; and the skills and their intents are in order.
\<close>

theorem inventory_is_what_was_listed:
  assumes "hub_inventory net languages opts log = (Inr v, log')" and "iv_source v = IntentManifest"
  shows "\<exists>ls found. answers_with net log' (chosen_languages (nt_tables net) languages) v ls found"
  using asksD [OF hub_inventory_made assms(1)] assms(2) by auto

text \<open>
  C33: A description belongs to the registration it is filed under: it was asked about, and the description is the
  hub's answer under the id of that question, or, when the answer has no id, names the registration itself.
  No registration is asked about twice, and what is asked is asked in order.
\<close>

theorem descriptions_belong:
  assumes "describe_many net keys deadline batch log = (r, log')"
  shows "\<exists>qs. log' = log @ qs \<and> subseq (map qu_data qs) (map payload_of (once_each keys))
    \<and> (\<forall>found. r = Inr found \<longrightarrow> found_ok net log' keys found)"
  using asksD [OF describe_many_made assms] by (auto simp: windows_made_def found_ok_once)

section \<open>An inventory of one intent\<close>

definition sample_tables :: language_tables where
  "sample_tables =
     \<lparr>lt_lower = id, lt_likely = (\<lambda>_. None), lt_languages = (\<lambda>_. None), lt_scripts = (\<lambda>_. None),
      lt_territories = (\<lambda>_. None), lt_default_scripts = (\<lambda>_. None), lt_macrolanguages = (\<lambda>_. None),
      lt_distances = (\<lambda>_ _. None), lt_inside = (\<lambda>_ _. False)\<rparr>"

definition sample_row :: jmap where
  "sample_row =
     [(''intent_name'', JString ''hi''), (''lang'', JString ''en-us''), (''method'', JString ''template''),
      (''samples'', JArray [JString ''hello'']), (''skill_id'', JString ''talk'')]"

definition sample_listed :: event where
  "sample_listed =
     \<lparr>e_name = EVENT_INTENT_LIST_RESPONSE, e_data = [(''intents'', JArray [JObject sample_row])], e_context = [],
      e_raw = None\<rparr>"

definition sample_described :: event where
  "sample_described =
     \<lparr>e_name = EVENT_INTENT_DESCRIBE_RESPONSE,
      e_data = [(''definitions'', JArray [JObject [(''definition'', JObject sample_row)]])], e_context = [], e_raw = None\<rparr>"

definition sample_net :: intent_net where
  "sample_net =
     \<lparr>nt_id = show_nat,
      nt_told = (\<lambda>log. \<lparr>td_sent = Some (Inr ()), td_seen = [Got sample_listed, Got sample_described], td_outer = False,
                       td_left = 0\<rparr>),
      nt_late = (\<lambda>_. False), nt_spent = (\<lambda>_. False), nt_fits = (\<lambda>_. True), nt_tables = sample_tables,
      nt_show = (\<lambda>_. []), nt_site = None\<rparr>"

lemma sample_trims [simp]:
  "trim ''hi'' = ''hi''" "trim ''en-us'' = ''en-us''" "trim ''template'' = ''template''" "trim ''talk'' = ''talk''"
  "trim ''hello'' = ''hello''"
  by (simp_all add: trim_plain plain_char_def)

lemma sample_ids [simp]: "event_request_id sample_listed = None" "event_request_id sample_described = None"
  "event_session_id sample_listed = None" "event_session_id sample_described = None"
  by (simp_all add: event_request_id_def event_session_id_def sample_listed_def sample_described_def
      request_id_from_context_def session_id_from_context_def request_id_from_map_def session_from_context_def
      get_object_def get_str_def)

definition sample_ir :: intent_row where
  "sample_ir =
     \<lparr>ir_skill_id = ''talk'', ir_intent_name = ''hi'', ir_lang = ''en-us'', ir_method = ''template'', ir_enabled = True,
      ir_session_id = ''default'', ir_definition = None\<rparr>"

definition sample_df :: intent_definition where
  "sample_df =
     \<lparr>df_skill_id = ''talk'', df_intent_name = ''hi'', df_lang = ''en-us'', df_method = ''template'',
      df_samples = [''hello''], df_raw = sample_row\<rparr>"

lemma sample_rows [simp]:
  "registrations_of sample_listed = [sample_ir]" "definitions_of sample_described = [sample_df]"
  "\<not> refused_query sample_listed"
  by (simp_all add: registrations_of_def definitions_of_def refused_query_def sample_listed_def sample_described_def
      sample_row_def sample_ir_def sample_df_def map_filter_simps row_from_value_def row_from_object_def text_field_def
      definition_from_value_def samples_of_def get_object_def as_array_def)

lemma sample_names [simp]: "e_name sample_listed = EVENT_INTENT_LIST_RESPONSE"
  "e_name sample_described = EVENT_INTENT_DESCRIBE_RESPONSE"
  by (simp_all add: sample_listed_def sample_described_def)

lemma sample_told [simp]:
  "nt_told sample_net log = \<lparr>td_sent = Some (Inr ()), td_seen = [Got sample_listed, Got sample_described], td_outer = False,
     td_left = 0\<rparr>"
  "nt_tables sample_net = sample_tables" "nt_fits sample_net d" "\<not> nt_late sample_net log"
  by (simp_all add: sample_net_def)

lemma sample_reply:
  "\<exists>q. request_reply sample_net EVENT_INTENT_LIST EVENT_INTENT_LIST_RESPONSE data lang d log = (Inr sample_listed, log @ [q])"
  by (simp add: request_reply_def Let_def denied_type_of_def EVENT_INTENT_LIST_RESPONSE_def EVENT_POLICY_DENIED_def
      event_matches_context_def split: option.split)

lemma sample_listing:
  "\<exists>log'. listing sample_net ''en-us'' opts nearest log = (Inr (''en-us'', [sample_ir]), log')"
proof -
  obtain q where "request_reply sample_net EVENT_INTENT_LIST EVENT_INTENT_LIST_RESPONSE
       ((if ls_include_definitions opts then bt_insert ''include_definitions'' (JBool True) else id)
          (bt_insert ''lang'' (JString ''en-us'') [])) (Some ''en-us'') (timeout_or (ls_timeout opts)) log
     = (Inr sample_listed, log @ [q])" using sample_reply by blast
  then have q: "list_intents sample_net ''en-us'' opts log = (Inr [sample_ir], log @ [q])"
    unfolding list_intents_def ask_bind_def by simp
  have "can_carry_sentences [sample_ir]" by (simp add: can_carry_sentences_def sentence_row_def sample_ir_def)
  then show ?thesis unfolding listing_def ask_bind_def q by simp
qed

lemma sample_describes:
  "\<exists>log'. describe_many sample_net [(''talk'', ''hi'', ''en-us'')] d DESCRIBE_BATCH log
     = (Inr [((''talk'', ''hi'', ''en-us''), [sample_df])], log')"
  by (simp add: describe_many_def once_each_def DESCRIBE_BATCH_def describe_one_batch_def ask_bind_def describe_await_def
      describe_accept_def described_key_def Let_def denied_type_of_def EVENT_INTENT_LIST_RESPONSE_def
      EVENT_INTENT_DESCRIBE_RESPONSE_def EVENT_POLICY_DENIED_def same_language_def sample_df_def)

lemma sample_inventory:
  "\<exists>v log'. hub_inventory sample_net [''en-us''] default_inventory_options [] = (Inr v, log')
     \<and> iv_source v = IntentManifest \<and> iv_listed_in v = [''en-us'']
     \<and> inventory_intents v = [\<lparr>hi_skill_id = ''talk'', hi_name = ''hi'', hi_engine = ''padatious'', hi_enabled = True,
          hi_phrases = [(''en-us'', [''hello''])]\<rparr>]"
proof -
  have chosen: "chosen_languages sample_tables [''en-us''] = [''en-us'']"
    by (simp add: chosen_languages_def choose_language_def)
  let ?ls = "\<lparr>ls_timeout = Some DEFAULT_INTENT_TIMEOUT, ls_include_definitions = True\<rparr>"
  obtain l where l: "listing sample_net ''en-us'' ?ls True [] = (Inr (''en-us'', [sample_ir]), l)"
    using sample_listing by blast
  obtain l' where l': "describe_many sample_net [(''talk'', ''hi'', ''en-us'')] DEFAULT_INTENT_TIMEOUT DESCRIBE_BATCH l
     = (Inr [((''talk'', ''hi'', ''en-us''), [sample_df])], l')" using sample_describes by blast
  have carry: "can_carry_sentences [sample_ir]" by (simp add: can_carry_sentences_def sentence_row_def sample_ir_def)
  have wanted: "wanted_keys [(''en-us'', [sample_ir])] = [(''talk'', ''hi'', ''en-us'')]"
    by (simp add: wanted_keys_def sample_ir_def)
  have listed: "list_languages sample_net default_inventory_options DEFAULT_INTENT_TIMEOUT [''en-us''] [''en-us'']
      \<lparr>g_listed = [], g_listed_in = [], g_hub = None\<rparr> []
     = (Inr (Listed_All \<lparr>g_listed = [(''en-us'', [sample_ir])], g_listed_in = [''en-us''], g_hub = None\<rparr>), l)"
    by (simp add: ask_try_def ask_bind_def default_inventory_options_def l or_hub_language_def carry place_listing_def)
  let ?v = "\<lparr>iv_languages = [''en-us''],
      iv_skills = by_skill (gather [((''talk'', ''hi'', ''en-us''), [sample_df])] [(''en-us'', [sample_ir])]),
      iv_source = IntentManifest, iv_denied = [], iv_listed_in = [''en-us'']\<rparr>"
  have "hub_inventory sample_net [''en-us''] default_inventory_options [] = (Inr ?v, l')"
  proof -
    have o: "io_timeout default_inventory_options = None" "io_describe default_inventory_options"
      by (simp_all add: default_inventory_options_def)
    show ?thesis
      unfolding hub_inventory_def Let_def ask_bind_def
      by (simp add: o timeout_or_def chosen listed wanted l' del: list_languages.simps)
  qed
  moreover have "inventory_intents ?v = [\<lparr>hi_skill_id = ''talk'', hi_name = ''hi'', hi_engine = ''padatious'',
      hi_enabled = True, hi_phrases = [(''en-us'', [''hello''])]\<rparr>]"
    by (simp add: inventory_intents_def by_skill_def gather_def gather_row_def row_key_def sample_ir_def sample_df_def
        described_sentences_def gathered_intent_def push_intent_def row_engine_def engine_for_method_def Let_def)
  ultimately show ?thesis by simp
qed

lemma listings_bounded_witness:
  "\<exists>v log'. hub_inventory sample_net [''en-us''] default_inventory_options [] = (Inr v, log')
     \<and> listings_made log' \<le> 2 * length (chosen_languages sample_tables [''en-us'']) \<and> hub_listings_made log' \<le> 1"
proof -
  obtain v log' where "hub_inventory sample_net [''en-us''] default_inventory_options [] = (Inr v, log')"
    using sample_inventory by blast
  then show ?thesis using listings_bounded [of sample_net "[''en-us'']" default_inventory_options "[]" "Inr v" log'] by auto
qed

lemma inventory_is_what_was_listed_witness:
  "\<exists>v log' ls found. hub_inventory sample_net [''en-us''] default_inventory_options [] = (Inr v, log')
     \<and> hi_phrases (hd (inventory_intents v)) = [(''en-us'', [''hello''])]
     \<and> answers_with sample_net log' (chosen_languages sample_tables [''en-us'']) v ls found"
proof -
  obtain v log' where v: "hub_inventory sample_net [''en-us''] default_inventory_options [] = (Inr v, log')"
    "iv_source v = IntentManifest" "hi_phrases (hd (inventory_intents v)) = [(''en-us'', [''hello''])]"
    using sample_inventory by auto
  then show ?thesis using inventory_is_what_was_listed [OF v(1,2)] by auto
qed

lemma descriptions_belong_witness:
  "\<exists>found log'. describe_many sample_net [(''talk'', ''hi'', ''en-us'')] 0 DESCRIBE_BATCH [] = (Inr found, log')
     \<and> found \<noteq> [] \<and> found_ok sample_net log' [(''talk'', ''hi'', ''en-us'')] found"
proof -
  obtain log' where d: "describe_many sample_net [(''talk'', ''hi'', ''en-us'')] 0 DESCRIBE_BATCH []
     = (Inr [((''talk'', ''hi'', ''en-us''), [sample_df])], log')" using sample_describes by blast
  then show ?thesis using descriptions_belong [OF d] by auto
qed

end
