(* ===== verification/Rich.thy ===== *)
theory Rich
  imports Home Text_Fields
begin

text \<open>
  \<open>src/src/rich.rs\<close>: what of an event or a reply a screen shows: its text without markup, cut into pieces of a
  size, its table, its attachments and its choices. The JSON parser and the text of a float are parameters.
\<close>

record display_item =
  di_kind :: string
  di_text :: "string option"
  di_data :: "json option"
  di_title :: "string option"
  di_payload :: "string option"
  di_url :: "string option"
  di_silent :: bool

record rich_lib =
  rl_parse :: "string \<Rightarrow> json option"
  rl_float :: "64 word \<Rightarrow> string"

section \<open>Fields\<close>

definition coerce_json :: "rich_lib \<Rightarrow> json \<Rightarrow> json" where
  "coerce_json lib v =
     (case v of JString raw \<Rightarrow> (case rl_parse lib raw of Some w \<Rightarrow> w | None \<Rightarrow> v) | _ \<Rightarrow> v)"

definition coerce_mapping :: "rich_lib \<Rightarrow> json \<Rightarrow> jmap option" where
  "coerce_mapping lib v = as_object (coerce_json lib v)"

definition shown_value :: "rich_lib \<Rightarrow> json option \<Rightarrow> string option" where
  "shown_value lib v =
     map_option (\<lambda>w. case as_str w of Some s \<Rightarrow> s | None \<Rightarrow> value_text (rl_float lib) w) v"

definition first_field :: "jmap \<Rightarrow> string list \<Rightarrow> json option" where
  "first_field m keys = find_map (map_of m) keys"

definition rich_media_from_data :: "rich_lib \<Rightarrow> jmap \<Rightarrow> jmap" where
  "rich_media_from_data lib m =
     (case find_map (\<lambda>k. case Option.bind (map_of m k) (coerce_mapping lib) of
                           Some media \<Rightarrow> if media \<noteq> [] then Some media else None | None \<Rightarrow> None)
             [''rich_media_data'', ''rich_media'', ''display''] of
        Some media \<Rightarrow> media
      | None \<Rightarrow>
          bt_collect (List.map_filter (\<lambda>k. map_option (\<lambda>v. (k, v)) (map_of m k))
            [''table'', ''attachment'', ''attachments'', ''quick_replies'', ''buttons'', ''image'', ''images'']))"

definition text_from_data :: "jmap \<Rightarrow> string option" where
  "text_from_data m =
     or_else (get_str m ''utterance'')
       (or_else (get_str m ''text'')
         (case map_of m ''utterances'' of
            Some (JString s) \<Rightarrow> Some s
          | Some (JArray vs) \<Rightarrow> Some (Words.join '' '' (List.map_filter as_str vs))
          | _ \<Rightarrow> None))"

definition attachments_of :: "rich_lib \<Rightarrow> jmap \<Rightarrow> jmap list" where
  "attachments_of lib media =
     (case map_option (coerce_json lib) (first_field media [''attachments'', ''attachment'']) of
        Some (JObject m) \<Rightarrow> [m]
      | Some (JArray vs) \<Rightarrow> List.map_filter as_object vs
      | _ \<Rightarrow> [])"

definition choice_json :: "string \<Rightarrow> string \<Rightarrow> json \<Rightarrow> json" where
  "choice_json title answer d =
     JObject (bt_collect [(''title'', JString title), (''payload'', JString answer), (''data'', d)])"

definition choice_of :: "rich_lib \<Rightarrow> json \<Rightarrow> json option" where
  "choice_of lib v =
     (case v of
        JString t \<Rightarrow> Some (choice_json t t (JString t))
      | JObject m \<Rightarrow>
          (let title = (case shown_value lib (first_field m [''title'', ''label'', ''text'']) of Some t \<Rightarrow> t | None \<Rightarrow> []);
               answer = (case shown_value lib (first_field m [''payload'', ''value'']) of Some p \<Rightarrow> p | None \<Rightarrow> title)
           in Some (choice_json title answer (JObject m)))
      | _ \<Rightarrow> None)"

definition choices_of :: "rich_lib \<Rightarrow> json option \<Rightarrow> json list" where
  "choices_of lib raw =
     List.map_filter (choice_of lib)
       (case map_option (coerce_json lib) raw of Some (JArray vs) \<Rightarrow> vs | Some v \<Rightarrow> [v] | None \<Rightarrow> [])"

section \<open>Pieces of a text\<close>

text \<open>A call finishes or panics; the cutting of a text may also never end, which is \<open>None\<close>.\<close>

datatype 'a finish = Panics | Finishes 'a

text \<open>\<open>is_char_boundary\<close>: the byte is not one that continues a character.\<close>

definition char_boundary :: "string \<Rightarrow> nat \<Rightarrow> bool" where
  "char_boundary s n \<longleftrightarrow>
     n = 0 \<or> n = length s \<or> (n < length s \<and> \<not> (128 \<le> (of_char (s ! n) :: nat) \<and> (of_char (s ! n) :: nat) < 192))"

fun last_space :: "string \<Rightarrow> nat option" where
  "last_space [] = None"
| "last_space (c # s) =
     (case last_space s of Some i \<Rightarrow> Some (Suc i) | None \<Rightarrow> if c = CHR '' '' then Some 0 else None)"

partial_function (option) chunk_loop :: "nat \<Rightarrow> string \<Rightarrow> string list \<Rightarrow> string list finish option" where
  "chunk_loop n rest out =
     (if length rest \<le> n then Some (Finishes (if rest = [] then out else out @ [rest]))
      else if \<not> char_boundary rest n then Some Panics
      else chunk_loop n
             (trim (drop (case last_space (take n rest) of Some i \<Rightarrow> i | None \<Rightarrow> n) rest))
             (out @ [trim (take (case last_space (take n rest) of Some i \<Rightarrow> i | None \<Rightarrow> n) rest)]))"

definition text_chunks :: "string \<Rightarrow> nat option \<Rightarrow> string list finish option" where
  "text_chunks s most =
     (case most of
        None \<Rightarrow> Some (Finishes [s])
      | Some n \<Rightarrow> if length s \<le> n then Some (Finishes [s]) else chunk_loop n (trim s) [])"

section \<open>What is shown\<close>

definition plain_item :: "string \<Rightarrow> display_item" where
  "plain_item kind =
     \<lparr>di_kind = kind, di_text = None, di_data = None, di_title = None, di_payload = None, di_url = None, di_silent = False\<rparr>"

definition attachment_item :: "rich_lib \<Rightarrow> jmap \<Rightarrow> display_item" where
  "attachment_item lib a =
     (let p = (case get_object a ''payload'' of Some p \<Rightarrow> p | None \<Rightarrow> [])
      in (plain_item (if get_str a ''type'' = Some ''image'' then ''image'' else ''attachment''))
           \<lparr>di_data := Some (JObject a), di_title := shown_value lib (map_of a ''title''),
            di_url := shown_value lib (or_else (first_field p [''src'', ''url'']) (first_field a [''src'', ''url'']))\<rparr>)"

definition media_items :: "rich_lib \<Rightarrow> jmap \<Rightarrow> display_item list" where
  "media_items lib media =
     (case map_of media ''table'' of
        Some t \<Rightarrow> [(plain_item ''table'')\<lparr>di_data := Some (coerce_json lib t)\<rparr>] | None \<Rightarrow> [])
     @ map (attachment_item lib) (attachments_of lib media)
     @ (let cs = choices_of lib (first_field media [''quick_replies'', ''buttons''])
        in if cs \<noteq> [] then [(plain_item ''choices'')\<lparr>di_data := Some (JArray cs)\<rparr>] else [])"

definition finish_bind :: "'a finish option \<Rightarrow> ('a \<Rightarrow> 'b finish option) \<Rightarrow> 'b finish option" where
  "finish_bind m k = (case m of None \<Rightarrow> None | Some Panics \<Rightarrow> Some Panics | Some (Finishes x) \<Rightarrow> k x)"

definition items_from_event_data ::
    "rich_lib \<Rightarrow> jmap \<Rightarrow> string option \<Rightarrow> nat option \<Rightarrow> display_item list finish option" where
  "items_from_event_data lib m event_name most =
     (let silent = (map_of m ''silent'' = Some (JBool True) \<or> event_name = Some ''write'')
      in finish_bind
           (case text_from_data m of
              None \<Rightarrow> Some (Finishes []) | Some t \<Rightarrow> text_chunks (strip_ssml t) most)
           (\<lambda>pieces. Some (Finishes
              (map (\<lambda>p. (plain_item ''text'')\<lparr>di_text := Some p, di_silent := silent\<rparr>) pieces
               @ media_items lib (rich_media_from_data lib m)))))"

definition event_items :: "rich_lib \<Rightarrow> nat option \<Rightarrow> event \<Rightarrow> display_item list finish option" where
  "event_items lib most e = items_from_event_data lib (e_data e) (Some (e_name e)) most"

fun events_items :: "rich_lib \<Rightarrow> nat option \<Rightarrow> event list \<Rightarrow> display_item list finish option" where
  "events_items lib most [] = Some (Finishes [])"
| "events_items lib most (e # es) =
     finish_bind (event_items lib most e) (\<lambda>is. finish_bind (events_items lib most es) (\<lambda>js. Some (Finishes (is @ js))))"

definition reply_items :: "rich_lib \<Rightarrow> nat option \<Rightarrow> reply \<Rightarrow> display_item list finish option" where
  "reply_items lib most r =
     finish_bind (events_items lib most (r_events r)) (\<lambda>is. Some (Finishes
       (if is = [] \<and> r_text r \<noteq> [] then [(plain_item ''text'')\<lparr>di_text := Some (strip_ssml (r_text r))\<rparr>] else is)))"

definition reply_display_text :: "reply \<Rightarrow> string" where
  "reply_display_text r = strip_ssml (r_text r)"

definition event_display_text :: "event \<Rightarrow> string" where
  "event_display_text e = strip_ssml (event_text e)"

section \<open>Cutting a text\<close>

definition ascii_text :: "string \<Rightarrow> bool" where
  "ascii_text s \<longleftrightarrow> (\<forall>c \<in> set s. (of_char c :: nat) < 128)"

lemma ascii_boundary: "ascii_text s \<Longrightarrow> n \<le> length s \<Longrightarrow> char_boundary s n"
proof -
  assume a: "ascii_text s" "n \<le> length s"
  have "(of_char (s ! n) :: nat) < 128" if "n < length s" using a(1) that by (simp add: ascii_text_def)
  then show ?thesis using a(2) by (auto simp: char_boundary_def)
qed

text \<open>An ASCII character that is not white space, control characters among them.\<close>

definition solid_char :: "char \<Rightarrow> bool" where
  "solid_char c \<longleftrightarrow> (of_char c :: nat) < 128 \<and> (of_char c :: nat) \<notin> {9, 10, 11, 12, 13, 32}"

lemma strip_any_solid_kept:
  "\<forall>w \<in> set ws. filter solid_char w = [] \<Longrightarrow> filter solid_char (strip_any ws s) = filter solid_char s"
proof (induction ws s rule: strip_any.induct)
  case (1 ws s)
  show ?case
  proof (cases "find (\<lambda>w. w \<noteq> [] \<and> starts_with s w) ws")
    case None
    then show ?thesis by (simp add: strip_any_fixed)
  next
    case (Some w)
    then have w: "w \<in> set ws" "s = w @ drop (length w) s" by (auto simp: find_Some_iff starts_with_iff)
    have "filter solid_char (strip_any ws s) = filter solid_char (drop (length w) s)"
      using 1 Some by (simp add: strip_any.simps [of ws s])
    also have "\<dots> = filter solid_char s" using 1(2) w by (metis append_Nil filter_append)
    finally show ?thesis .
  qed
qed

lemma spaces_not_solid: "w \<in> set white_spaces \<Longrightarrow> filter solid_char w = [] \<and> filter solid_char (rev w) = []"
  by (auto simp: white_spaces_def solid_char_def)

lemma trim_solid_kept [simp]: "filter solid_char (trim s) = filter solid_char s"
proof -
  have "filter solid_char (strip_any (map rev white_spaces) (rev t)) = filter solid_char (rev t)" for t
    by (rule strip_any_solid_kept) (use spaces_not_solid in auto)
  then have "filter solid_char (trim_end t) = filter solid_char t" for t
    unfolding trim_end_def by (metis rev_filter rev_rev_ident)
  moreover have "filter solid_char (trim_start t) = filter solid_char t" for t
    unfolding trim_start_def by (rule strip_any_solid_kept) (use spaces_not_solid in auto)
  ultimately show ?thesis by (simp add: trim_def)
qed

lemma last_space_at: "last_space s = Some i \<Longrightarrow> i < length s \<and> s ! i = CHR '' ''"
  by (induction s arbitrary: i) (auto split: option.splits if_splits)

text \<open>
  The place of the next cut. A trimmed text does not begin with a space, so it is never at the start, and
  every round takes something off.
\<close>

definition cut_at :: "nat \<Rightarrow> string \<Rightarrow> nat" where
  "cut_at n rest = (case last_space (take n rest) of Some i \<Rightarrow> i | None \<Rightarrow> n)"

lemma cut_at_bounds:
  assumes "trim rest = rest" and "0 < n" and "n < length rest"
  shows "0 < cut_at n rest" and "cut_at n rest \<le> n"
proof -
  have "'' '' \<in> set white_spaces" by (simp add: white_spaces_def)
  then have "\<not> starts_with rest '' ''"
    using trim_starts_no_space [of rest] assms(1) unfolding find_None_iff by (metis list.distinct(1))
  then have first: "rest ! 0 \<noteq> CHR '' ''" using assms by (cases rest) (auto simp: starts_with_def)
  show "cut_at n rest \<le> n" by (auto simp: cut_at_def dest: last_space_at split: option.split)
  show "0 < cut_at n rest"
  proof (cases "last_space (take n rest)")
    case (Some i)
    then have "rest ! i = CHR '' ''" using last_space_at [OF Some] nth_take [of i n rest] by simp
    then have "i \<noteq> 0" using first by metis
    then show ?thesis using Some by (simp add: cut_at_def)
  qed (simp add: cut_at_def assms)
qed

lemma chunk_loop_step:
  "chunk_loop n rest out =
     (if length rest \<le> n then Some (Finishes (if rest = [] then out else out @ [rest]))
      else if \<not> char_boundary rest n then Some Panics
      else chunk_loop n (trim (drop (cut_at n rest) rest)) (out @ [trim (take (cut_at n rest) rest)]))"
  by (subst chunk_loop.simps) (simp add: cut_at_def)

lemma rest_shrinks:
  assumes "trim rest = rest" and "0 < n" and "n < length rest"
  shows "length (trim (drop (cut_at n rest) rest)) < length rest"
  using trim_length [of "drop (cut_at n rest) rest"] cut_at_bounds [OF assms] assms(3) by simp

lemma chunk_loop_ends:
  assumes "0 < n" and "trim rest = rest"
  shows "chunk_loop n rest out \<noteq> None"
  using assms(2)
proof (induction "length rest" arbitrary: rest out rule: less_induct)
  case less
  show ?case
  proof (cases "length rest \<le> n")
    case False
    then have "chunk_loop n (trim (drop (cut_at n rest) rest)) (out @ [trim (take (cut_at n rest) rest)]) \<noteq> None"
      using less rest_shrinks [OF less.prems assms(1)] by simp
    then show ?thesis by (subst chunk_loop_step) simp
  qed (subst chunk_loop_step, simp)
qed

lemma ascii_parts: "ascii_text s \<Longrightarrow> set t \<subseteq> set s \<Longrightarrow> ascii_text t"
  by (auto simp: ascii_text_def)

lemma chunk_loop_cuts:
  assumes "0 < n" and "trim rest = rest" and "chunk_loop n rest out = Some (Finishes qs)"
  shows "\<exists>ps. qs = out @ ps \<and> (\<forall>p \<in> set ps. length p \<le> n)
      \<and> filter solid_char (concat ps) = filter solid_char rest"
  using assms(2,3)
proof (induction "length rest" arbitrary: rest out rule: less_induct)
  case less
  show ?case
  proof (cases "length rest \<le> n")
    case True
    then have "qs = out @ (if rest = [] then [] else [rest])"
      using less.prems(2) by (auto simp: chunk_loop_step [of n rest out])
    then show ?thesis using True by (intro exI [of _ "if rest = [] then [] else [rest]"]) auto
  next
    case False
    let ?i = "cut_at n rest"
    let ?more = "trim (drop ?i rest)" and ?piece = "trim (take ?i rest)"
    have "chunk_loop n ?more (out @ [?piece]) = Some (Finishes qs)"
      using less.prems(2) False chunk_loop_step [of n rest out] by (auto split: if_splits)
    then obtain ps where ps: "qs = (out @ [?piece]) @ ps" "\<forall>p \<in> set ps. length p \<le> n"
        "filter solid_char (concat ps) = filter solid_char ?more"
      using less.hyps [of ?more "out @ [?piece]"] rest_shrinks [OF less.prems(1) assms(1)] False by auto
    have "length ?piece \<le> n"
      using trim_length [of "take ?i rest"] cut_at_bounds(2) [OF less.prems(1) assms(1)] False by simp
    moreover have "filter solid_char (concat (?piece # ps)) = filter solid_char rest"
      using ps(3) by simp (metis append_take_drop_id filter_append)
    ultimately show ?thesis using ps(1,2) by (intro exI [of _ "?piece # ps"]) simp
  qed
qed

lemma chunk_loop_ascii:
  assumes "0 < n" and "trim rest = rest" and "ascii_text rest"
  shows "chunk_loop n rest out \<noteq> Some Panics"
  using assms(2,3)
proof (induction "length rest" arbitrary: rest out rule: less_induct)
  case less
  show ?case
  proof (cases "length rest \<le> n")
    case False
    let ?more = "trim (drop (cut_at n rest) rest)"
    have "set ?more \<subseteq> set rest" using trim_set set_drop_subset by (rule subset_trans)
    then have "ascii_text ?more" using less.prems(2) by (rule ascii_parts [rotated])
    then show ?thesis
      using less.hyps [of ?more] rest_shrinks [OF less.prems(1) assms(1)] False
        ascii_boundary [OF less.prems(2), of n] by (subst chunk_loop_step) simp
  qed (subst chunk_loop_step, simp)
qed

text \<open>With a size of nought nothing is ever taken off a text that has something to show.\<close>

lemma chunk_loop_zero: "rest \<noteq> [] \<Longrightarrow> trim rest = rest \<Longrightarrow> chunk_loop 0 rest out = None"
proof (rule ccontr)
  assume a: "rest \<noteq> []" "trim rest = rest" "chunk_loop 0 rest out \<noteq> None"
  then obtain y where y: "chunk_loop 0 rest out = Some y" by blast
  have "n = 0 \<longrightarrow> rest \<noteq> [] \<longrightarrow> trim rest = rest \<longrightarrow> False" if "chunk_loop n rest out = Some y" for n rest out y
  proof (rule chunk_loop.raw_induct [OF _ that])
    fix f n rest out y
    assume again: "\<And>n rest out y. f n rest out = Some y \<Longrightarrow> n = 0 \<longrightarrow> rest \<noteq> [] \<longrightarrow> trim rest = rest \<longrightarrow> False"
      and now: "(if length rest \<le> n then Some (Finishes (if rest = [] then out else out @ [rest]))
        else if \<not> char_boundary rest n then Some Panics
        else f n (trim (drop (case last_space (take n rest) of Some i \<Rightarrow> i | None \<Rightarrow> n) rest))
               (out @ [trim (take (case last_space (take n rest) of Some i \<Rightarrow> i | None \<Rightarrow> n) rest)])) = Some y"
    show "n = 0 \<longrightarrow> rest \<noteq> [] \<longrightarrow> trim rest = rest \<longrightarrow> False"
    proof (intro impI)
      assume n: "n = 0" and r: "rest \<noteq> []" "trim rest = rest"
      then have "f 0 rest (out @ [[]]) = Some y" using now by (simp add: char_boundary_def)
      then show False using again r by blast
    qed
  qed
  then show False using y a by blast
qed

lemma text_chunks_pieces:
  assumes "0 < n" and "text_chunks s (Some n) = Some (Finishes ps)"
  shows "(\<forall>p \<in> set ps. length p \<le> n) \<and> filter solid_char (concat ps) = filter solid_char s"
  using assms chunk_loop_cuts [OF assms(1) trim_idem, of s "[]" ps] by (auto simp: text_chunks_def split: if_splits)

lemma text_chunks_ascii:
  assumes "0 < n" and "ascii_text s"
  shows "\<exists>qs. text_chunks s (Some n) = Some (Finishes qs)"
proof (cases "length s \<le> n")
  case False
  have "chunk_loop n (trim s) [] \<noteq> Some Panics"
    using chunk_loop_ascii [OF assms(1) trim_idem] ascii_parts [OF assms(2) trim_set] by blast
  moreover obtain y where "chunk_loop n (trim s) [] = Some y" using chunk_loop_ends [OF assms(1) trim_idem] by fastforce
  ultimately show ?thesis using False by (cases y) (auto simp: text_chunks_def)
qed (simp add: text_chunks_def)

text \<open>
  C34: cutting a text for a screen. The cutting goes on for ever exactly for a size of nought on a text that is
  not blank. With a size of one or more it gives pieces or, on a text that is not all ASCII, may panic where a
  size falls inside a character. The pieces it gives are within the size, and in their order they hold every
  ASCII character of the text that is not white space, control characters among them; on a text that is all
  ASCII it does give pieces.
\<close>

theorem text_chunks_cut:
  "(text_chunks s (Some n) = None \<longleftrightarrow> n = 0 \<and> trim s \<noteq> [])
   \<and> (0 < n \<and> text_chunks s (Some n) = Some (Finishes ps) \<longrightarrow>
        (\<forall>p \<in> set ps. length p \<le> n) \<and> filter solid_char (concat ps) = filter solid_char s)
   \<and> (0 < n \<and> ascii_text s \<longrightarrow> (\<exists>qs. text_chunks s (Some n) = Some (Finishes qs)))"
proof (intro conjI impI; (elim conjE)?)
  show none: "text_chunks s (Some n) = None \<longleftrightarrow> n = 0 \<and> trim s \<noteq> []"
  proof (cases "n = 0")
    case True
    have "chunk_loop 0 [] [] \<noteq> None" by (subst chunk_loop_step) simp
    moreover have "s = [] \<Longrightarrow> trim s = []" by simp
    ultimately show ?thesis using True chunk_loop_zero [of "trim s" "[]"] by (auto simp: text_chunks_def)
  qed (use chunk_loop_ends [of n "trim s" "[]"] in \<open>auto simp: text_chunks_def\<close>)
qed (use text_chunks_pieces text_chunks_ascii in blast)+

theorem text_chunks_cut_witness:
  "text_chunks ''a'' (Some 0) = None
   \<and> (\<exists>ps. text_chunks ''ab cd'' (Some 3) = Some (Finishes ps) \<and> (\<forall>p \<in> set ps. length p \<le> 3)
        \<and> filter solid_char (concat ps) = ''abcd'')"
proof -
  have "trim ''a'' \<noteq> []" by (simp add: trim_plain plain_char_def)
  then have "text_chunks ''a'' (Some 0) = None" using text_chunks_cut [of "''a''" 0] by simp
  moreover have "ascii_text ''ab cd''" by (simp add: ascii_text_def)
  then have "\<exists>ps. text_chunks ''ab cd'' (Some 3) = Some (Finishes ps) \<and> (\<forall>p \<in> set ps. length p \<le> 3)
        \<and> filter solid_char (concat ps) = filter solid_char ''ab cd''"
    using text_chunks_cut [of "''ab cd''" 3] by fastforce
  moreover have "filter solid_char ''ab cd'' = ''abcd''" by (simp add: solid_char_def)
  ultimately show ?thesis by metis
qed

text \<open>A size that falls inside a character is a panic: an accented letter of two bytes, cut after the first.\<close>

lemma text_chunks_panic: "text_chunks [CHR 0xC3, CHR 0xA9] (Some 1) = Some Panics"
proof -
  have "trim [CHR 0xC3, CHR 0xA9] = [CHR 0xC3, CHR 0xA9]"
    by (simp add: trim_def trim_start_def trim_end_def white_spaces_def strip_any.simps starts_with_def)
  then show ?thesis
    unfolding text_chunks_def by (simp, subst chunk_loop.simps) (simp add: char_boundary_def)
qed

end
