(* ===== verification/Skill_Names.thy ===== *)
theory Skill_Names
  imports Languages Words Text_Fields "HOL-Library.Sorting_Algorithms"
begin

text \<open>
  The names somebody reads: \<open>src/src/hubs.rs\<close>, and the names and their order of \<open>src/src/inventory.rs\<close>. Unicode's
  case and alphabet are parameters, one character at a time. The order of names is shown to be the one
  of their parts, numbers by value and before text.
\<close>

record unicode_lib =
  un_alphabetic :: "string \<Rightarrow> bool"
  un_upper :: "string \<Rightarrow> string"
  un_lower :: "string \<Rightarrow> string"

section \<open>The name of a hub\<close>

definition shown_text :: "json option \<Rightarrow> string option" where
  "shown_text v = Option.bind (Option.bind v as_str) (\<lambda>s. if trim s = [] then None else Some (trim s))"

definition json_get :: "json \<Rightarrow> string \<Rightarrow> json option" where
  "json_get v k = Option.bind (as_object v) (\<lambda>m. map_of m k)"

definition capital_word :: "unicode_lib \<Rightarrow> string \<Rightarrow> string" where
  "capital_word un word = (case utf8_chars word of [] \<Rightarrow> [] | first # rest \<Rightarrow> un_upper un first @ concat rest)"

fun split_by :: "(char \<Rightarrow> bool) \<Rightarrow> string \<Rightarrow> string list" where
  "split_by p [] = [[]]"
| "split_by p (c # s) = (if p c then [] # split_by p s else case split_by p s of t # ts \<Rightarrow> (c # t) # ts | [] \<Rightarrow> [[c]])"

definition dashed_words :: "string \<Rightarrow> string list" where
  "dashed_words s = filter (\<lambda>w. w \<noteq> []) (split_by (\<lambda>c. c = CHR ''-'' \<or> c = CHR ''_'') s)"

definition NAMELESS_HUB :: string where "NAMELESS_HUB = ''A Thalovant hub''"

definition hub_display_name :: "unicode_lib \<Rightarrow> json \<Rightarrow> string" where
  "hub_display_name un hub =
     (case shown_text (Option.bind (Option.bind (json_get hub ''spec'') (\<lambda>v. json_get v ''catalog'')) (\<lambda>v. json_get v ''title'')) of
        Some title \<Rightarrow> title
      | None \<Rightarrow>
          let name = shown_text (json_get hub ''name''); slug = shown_text (json_get hub ''slug'')
          in if name \<noteq> None \<and> name \<noteq> slug then (case name of Some n \<Rightarrow> n | None \<Rightarrow> [])
             else (case or_else name slug of
                     None \<Rightarrow> NAMELESS_HUB
                   | Some identifier \<Rightarrow>
                       let readable = Words.join '' '' (map (capital_word un) (dashed_words identifier))
                       in if readable = [] then NAMELESS_HUB else readable))"

section \<open>The names of skills and intents\<close>

definition rsplit_head :: "char \<Rightarrow> string \<Rightarrow> string option" where
  "rsplit_head d s = (case dropWhile (\<lambda>c. c \<noteq> d) (rev s) of [] \<Rightarrow> None | c # r \<Rightarrow> Some (rev r))"

definition skill_stem :: "string \<Rightarrow> string" where
  "skill_stem i =
     (case find (starts_with i) [''thalovant-skill-'', ''ovos-skill-'', ''skill-''] of
        Some p \<Rightarrow> drop (length p) i | None \<Rightarrow> i)"

text \<open>Every word begins with a capital and goes on in small letters; what is no letter begins a word.\<close>

primrec title_case :: "unicode_lib \<Rightarrow> bool \<Rightarrow> string list \<Rightarrow> string" where
  "title_case un start [] = []"
| "title_case un start (ch # cs) =
     (if \<not> un_alphabetic un ch then ch @ title_case un True cs
      else if start then
        (case utf8_chars (un_upper un ch) of
           [] \<Rightarrow> [] | first # rest \<Rightarrow> first @ concat (map (un_lower un) rest)) @ title_case un False cs
      else un_lower un ch @ title_case un False cs)"

definition friendly_title :: "unicode_lib \<Rightarrow> string \<Rightarrow> string" where
  "friendly_title un i =
     (let stem = skill_stem i;
          head = (case rsplit_head CHR ''.'' stem of Some h \<Rightarrow> h | None \<Rightarrow> stem);
          name = trim (map (\<lambda>c. if c = CHR ''-'' \<or> c = CHR ''_'' then CHR 0x20 else c) head)
      in if name = [] then i else title_case un True (utf8_chars name))"

definition name_tokens :: "string \<Rightarrow> string list" where
  "name_tokens name = filter (\<lambda>w. w \<noteq> []) (split_by (\<lambda>c. c = CHR ''.'' \<or> c = CHR ''_'') name)"

definition humanize :: "string \<Rightarrow> string" where
  "humanize name = Words.join '' '' (name_tokens name)"

datatype affix = Suffix | Prefix

definition common_affix :: "string list \<Rightarrow> affix option \<times> string" where
  "common_affix names =
     (let parts = map name_tokens names
      in if length parts < 2 \<or> (\<exists>p \<in> set parts. length p < 2) then (None, [])
         else if \<forall>p \<in> set parts. last p = last (hd parts) then (Some Suffix, last (hd parts))
         else if \<forall>p \<in> set parts. hd p = hd (hd parts) then (Some Prefix, hd (hd parts))
         else (None, []))"

definition strip_affix :: "string \<Rightarrow> affix option \<Rightarrow> string \<Rightarrow> string" where
  "strip_affix name kind token =
     (case kind of
        None \<Rightarrow> name
      | Some k \<Rightarrow>
          let parts = name_tokens name;
              kept = (case k of
                        Suffix \<Rightarrow> if parts \<noteq> [] \<and> last parts = token then butlast parts else parts
                      | Prefix \<Rightarrow> if parts \<noteq> [] \<and> hd parts = token then tl parts else parts);
              joined = Words.join '' '' kept
          in if joined = [] then name else joined)"

section \<open>The order of names\<close>

text \<open>A name in lower case falls into chunks, each of digits only or of anything else.\<close>

fun name_chunks :: "string \<Rightarrow> string list" where
  "name_chunks [] = []"
| "name_chunks (c # s) =
     (case name_chunks s of
        [] \<Rightarrow> [[c]]
      | t # ts \<Rightarrow> if dec_digit c = dec_digit (hd t) then (c # t) # ts else [c] # t # ts)"

definition less_of :: "'a::linorder \<Rightarrow> 'a \<Rightarrow> comp" where
  "less_of x y = (if x < y then Less else if x = y then Equiv else Greater)"

definition compare_chunk :: "string \<Rightarrow> string \<Rightarrow> comp" where
  "compare_chunk x y =
     (let nx = dec_digit (hd x); ny = dec_digit (hd y)
      in if nx \<and> ny then
           (let x = dropWhile (\<lambda>c. c = CHR ''0'') x; y = dropWhile (\<lambda>c. c = CHR ''0'') y
            in case less_of (length x) (length y) of Equiv \<Rightarrow> less_of x y | c \<Rightarrow> c)
         else if nx \<noteq> ny then less_of ny nx
         else less_of x y)"

fun compare_chunks :: "string list \<Rightarrow> string list \<Rightarrow> comp" where
  "compare_chunks (x # a) (y # b) = (case compare_chunk x y of Equiv \<Rightarrow> compare_chunks a b | c \<Rightarrow> c)"
| "compare_chunks a b = less_of (length a) (length b)"

definition compare_names :: "(string \<Rightarrow> string) \<Rightarrow> string \<Rightarrow> string \<Rightarrow> comp" where
  "compare_names lower left right = compare_chunks (name_chunks (lower left)) (name_chunks (lower right))"

section \<open>It is the order of the parts\<close>

text \<open>A part is a number by its value or a text.\<close>

datatype part = Number nat | Text string

definition part_of :: "string \<Rightarrow> part" where
  "part_of t = (if dec_digit (hd t) then Number (dec_val t) else Text t)"

fun compare_part :: "part \<Rightarrow> part \<Rightarrow> comp" where
  "compare_part (Number m) (Number n) = less_of m n"
| "compare_part (Number m) (Text t) = Less"
| "compare_part (Text s) (Number n) = Greater"
| "compare_part (Text s) (Text t) = less_of s t"

fun compare_parts :: "part list \<Rightarrow> part list \<Rightarrow> comp" where
  "compare_parts [] [] = Equiv"
| "compare_parts [] (q # qs) = Less"
| "compare_parts (p # ps) [] = Greater"
| "compare_parts (p # ps) (q # qs) = (case compare_part p q of Equiv \<Rightarrow> compare_parts ps qs | c \<Rightarrow> c)"

definition chunk_ok :: "string \<Rightarrow> bool" where
  "chunk_ok t \<longleftrightarrow> t \<noteq> [] \<and> (dec_digit (hd t) \<longrightarrow> list_all dec_digit t)"

lemma name_chunks_ok: "\<forall>t \<in> set (name_chunks s). chunk_ok t"
  by (induction s) (auto simp: chunk_ok_def split: list.split if_splits)

definition digit_value :: "char \<Rightarrow> nat" where
  "digit_value c = of_char c - 48"

lemma digit_range: "dec_digit c \<Longrightarrow> 48 \<le> (of_char c :: nat) \<and> (of_char c :: nat) \<le> 57"
  by (auto simp: dec_digit_def)

lemma digit_value_less: "dec_digit c \<Longrightarrow> digit_value c < 10"
  using digit_range [of c] unfolding digit_value_def by linarith

lemma digit_order: "dec_digit c \<Longrightarrow> dec_digit d \<Longrightarrow> c < d \<longleftrightarrow> digit_value c < digit_value d"
  using digit_range [of c] digit_range [of d] by (auto simp: less_char_def digit_value_def)

lemma dec_val_from: "foldl (\<lambda>v c. 10 * v + (of_char c - 48)) n s = n * 10 ^ length s + dec_val s"
proof (induction s arbitrary: n)
  case (Cons c s)
  have "dec_val (c # s) = (of_char c - 48) * 10 ^ length s + dec_val s"
    using Cons [of "of_char c - 48"] by (simp add: dec_val_def)
  then show ?case using Cons [of "10 * n + (of_char c - 48)"] by (simp add: algebra_simps)
qed (simp add: dec_val_def)

lemma dec_val_Cons: "dec_val (c # s) = digit_value c * 10 ^ length s + dec_val s"
  using dec_val_from [of "of_char c - 48" s] by (simp add: dec_val_def digit_value_def)

lemma dec_val_bound: "list_all dec_digit s \<Longrightarrow> dec_val s < 10 ^ length s"
proof (induction s)
  case (Cons c s)
  then have "digit_value c + 1 \<le> 10" "dec_val s < 10 ^ length s" using digit_value_less [of c] by simp_all
  then have "digit_value c * 10 ^ length s + dec_val s < (digit_value c + 1) * 10 ^ length s" by simp
  also have "\<dots> \<le> 10 * 10 ^ length s" using \<open>digit_value c + 1 \<le> 10\<close> by (intro mult_right_mono) simp_all
  finally show ?case by (simp add: dec_val_Cons)
qed (simp add: dec_val_def)

lemma lead_digit: "c < d \<Longrightarrow> x < p \<Longrightarrow> c * p + x < d * p + (y :: nat)"
proof -
  assume "c < d" "x < p"
  then have "c * p + x < (c + 1) * p" by simp
  also have "\<dots> \<le> d * p" using \<open>c < d\<close> by (intro mult_right_mono) simp_all
  finally show ?thesis by simp
qed

lemma same_length_order:
  "length s = length t \<Longrightarrow> list_all dec_digit s \<Longrightarrow> list_all dec_digit t \<Longrightarrow>
     (s < t \<longleftrightarrow> dec_val s < dec_val t) \<and> (dec_val s = dec_val t \<longleftrightarrow> s = t)"
proof (induction s t rule: list_induct2)
  case (Cons c s d t)
  let ?p = "10 ^ length s :: nat"
  have b: "dec_val s < ?p" "dec_val t < ?p" using Cons dec_val_bound [of s] dec_val_bound [of t] by simp_all
  have d: "dec_digit c" "dec_digit d" using Cons by simp_all
  consider "c < d" | "c = d" | "d < c" by fastforce
  then show ?case
  proof cases
    case 1
    then have "digit_value c < digit_value d" using digit_order d by simp
    from lead_digit [OF this b(1), of "dec_val t"] show ?thesis using 1 Cons(1) by (auto simp: dec_val_Cons)
  next
    case 2
    then show ?thesis using Cons by (simp add: dec_val_Cons)
  next
    case 3
    then have "digit_value d < digit_value c" using digit_order d by simp
    from lead_digit [OF this b(2), of "dec_val s"] show ?thesis using 3 Cons(1) by (auto simp: dec_val_Cons)
  qed
qed (simp add: dec_val_def)

lemma shorter_is_smaller:
  assumes "length s < length t" and "list_all dec_digit s" and "list_all dec_digit t" and "hd t \<noteq> CHR ''0''"
  shows "dec_val s < dec_val t"
proof -
  obtain d r where t: "t = d # r" using assms(1) by (cases t) auto
  then have "digit_value d \<noteq> 0" using assms(3,4) by (auto simp: dec_digit_def digit_value_def)
  then have "10 ^ length r \<le> dec_val t" using t by (simp add: dec_val_Cons trans_le_add1)
  moreover have "dec_val s < 10 ^ length s" using dec_val_bound [OF assms(2)] .
  moreover have "(10 :: nat) ^ length s \<le> 10 ^ length r" using assms(1) t by (intro power_increasing) simp_all
  ultimately show ?thesis by linarith
qed

lemma strip_zeros: "list_all dec_digit s \<Longrightarrow> list_all dec_digit (dropWhile (\<lambda>c. c = CHR ''0'') s)
   \<and> dec_val (dropWhile (\<lambda>c. c = CHR ''0'') s) = dec_val s
   \<and> (dropWhile (\<lambda>c. c = CHR ''0'') s \<noteq> [] \<longrightarrow> hd (dropWhile (\<lambda>c. c = CHR ''0'') s) \<noteq> CHR ''0'')"
  by (induction s) (auto simp: dec_val_Cons digit_value_def)

lemma compare_numbers:
  assumes "list_all dec_digit x" and "list_all dec_digit y"
    and "x \<noteq> [] \<longrightarrow> hd x \<noteq> CHR ''0''" and "y \<noteq> [] \<longrightarrow> hd y \<noteq> CHR ''0''"
  shows "(case less_of (length x) (length y) of Equiv \<Rightarrow> less_of x y | c \<Rightarrow> c) = less_of (dec_val x) (dec_val y)"
proof -
  consider "length x < length y" | "length x = length y" | "length y < length x" by linarith
  then show ?thesis
  proof cases
    case 1
    then show ?thesis using shorter_is_smaller [OF 1 assms(1,2)] assms(4) by (auto simp: less_of_def)
  next
    case 2
    then show ?thesis using same_length_order [OF 2 assms(1,2)] by (auto simp: less_of_def)
  next
    case 3
    then show ?thesis using shorter_is_smaller [OF 3 assms(2,1)] assms(3) by (auto simp: less_of_def)
  qed
qed

lemma compare_chunk_part:
  assumes "chunk_ok x" and "chunk_ok y"
  shows "compare_chunk x y = compare_part (part_of x) (part_of y)"
proof -
  let ?x = "dropWhile (\<lambda>c. c = CHR ''0'') x" and ?y = "dropWhile (\<lambda>c. c = CHR ''0'') y"
  have "(case less_of (length ?x) (length ?y) of Equiv \<Rightarrow> less_of ?x ?y | c \<Rightarrow> c) = less_of (dec_val x) (dec_val y)"
    if "dec_digit (hd x)" "dec_digit (hd y)"
    using compare_numbers [of ?x ?y] strip_zeros [of x] strip_zeros [of y] assms that by (simp add: chunk_ok_def)
  then show ?thesis by (auto simp: compare_chunk_def part_of_def less_of_def Let_def)
qed

lemma compare_chunks_parts:
  "list_all chunk_ok xs \<Longrightarrow> list_all chunk_ok ys \<Longrightarrow>
     compare_chunks xs ys = compare_parts (map part_of xs) (map part_of ys)"
  by (induction xs ys rule: compare_chunks.induct)
    (auto simp: compare_chunk_part less_of_def neq_Nil_conv split: comp.split list.split)

interpretation part_order: comparator compare_part
proof
  fix a b c :: part
  show "compare_part a a = Equiv" by (cases a) (simp_all add: less_of_def)
  show "compare_part a c = Equiv" if "compare_part a b = Equiv" "compare_part b c = Equiv"
    using that by (cases a; cases b; cases c) (auto simp: less_of_def split: if_splits)
  show "compare_part a c = Less" if "compare_part a b = Less" "compare_part b c = Less"
    using that by (cases a; cases b; cases c) (auto simp: less_of_def split: if_splits)
  show "compare_part b a = Greater \<longleftrightarrow> compare_part a b = Less"
    by (cases a; cases b) (auto simp: less_of_def split: if_splits)
qed

lemma part_equal: "compare_part p q = Equiv \<longleftrightarrow> p = q"
  by (cases p; cases q) (auto simp: less_of_def)

lemma compare_parts_refl: "compare_parts a a = Equiv"
  by (induction a) auto

lemma compare_parts_equal: "compare_parts a b = Equiv \<Longrightarrow> a = b"
  by (induction a b rule: compare_parts.induct) (auto simp: part_equal split: comp.splits)

lemma compare_parts_greater: "compare_parts b a = Greater \<longleftrightarrow> compare_parts a b = Less"
proof (induction b a rule: compare_parts.induct)
  case (4 p ps q qs)
  then show ?case using part_order.greater_iff_sym_less [of p q] part_order.greater_iff_sym_less [of q p]
    by (cases "compare_part p q"; cases "compare_part q p") (auto simp: part_equal)
qed auto

lemma compare_parts_less: "compare_parts a b = Less \<Longrightarrow> compare_parts b c = Less \<Longrightarrow> compare_parts a c = Less"
proof (induction a b arbitrary: c rule: compare_parts.induct)
  case (2 q qs)
  then show ?case by (cases c) auto
next
  case (4 p ps q qs)
  then obtain r rs where c: "c = r # rs" by (cases c) auto
  consider "p = q" "q = r" | "p = q" "compare_part q r = Less" | "compare_part p q = Less" "q = r"
    | "compare_part p q = Less" "compare_part q r = Less"
    using 4(2,3) c by (auto simp: part_equal split: comp.splits)
  then show ?case
  proof cases
    case 1
    then show ?thesis using 4 c by simp
  next
    case 4
    then show ?thesis using part_order.trans_less [OF 4] c by simp
  qed (use 4 c in simp_all)
qed auto

interpretation parts_order: comparator compare_parts
proof
  fix a b c :: "part list"
  show "compare_parts a a = Equiv" by (rule compare_parts_refl)
  show "compare_parts a c = Equiv" if "compare_parts a b = Equiv" "compare_parts b c = Equiv"
    using that compare_parts_equal by (metis compare_parts_refl)
qed (fact compare_parts_less compare_parts_greater)+

text \<open>
  C38: names are in the order of their parts: compared part by part, digits by the number they are, numbers before
  text, text by its bytes, a name before one that goes on after it. So it is a total preorder, and a sort by it
  is one, and two names are the same to it exactly when they have the same parts.
\<close>

theorem names_are_ordered_by_parts:
  "compare_names lower a b
     = compare_parts (map part_of (name_chunks (lower a))) (map part_of (name_chunks (lower b)))
   \<and> comparator (compare_names lower)
   \<and> (compare_names lower a b = Equiv \<longleftrightarrow>
        map part_of (name_chunks (lower a)) = map part_of (name_chunks (lower b)))"
proof -
  have parts: "compare_names lower x y
      = compare_parts (map part_of (name_chunks (lower x))) (map part_of (name_chunks (lower y)))" for x y
    using name_chunks_ok by (simp add: compare_names_def compare_chunks_parts list_all_iff)
  have "comparator (compare_names lower)"
    unfolding comparator_def parts
    using parts_order.trans_equiv parts_order.trans_less parts_order.greater_iff_sym_less parts_order.refl by blast
  moreover have "compare_parts x y = Equiv \<longleftrightarrow> x = y" for x y
    using compare_parts_equal compare_parts_refl by blast
  ultimately show ?thesis using parts by simp
qed

end
