(* ===== verification/Speakable.thy ===== *)
theory Speakable
  imports Languages Text_Fields Words
begin

text \<open>
  \<open>src/src/request_helpers.rs\<close>, \<open>speakable\<close>: one illustrative sentence of the pattern of an intent. The pattern is
  rewritten by regular expressions until nothing matches any more; it is shown to come out as what a pattern
  means: optional parts left out, of a group the first alternative that says something.
\<close>

section \<open>The rewriting\<close>

definition none_of :: "char \<Rightarrow> char \<Rightarrow> char \<Rightarrow> bool" where
  "none_of a b c \<longleftrightarrow> c \<noteq> a \<and> c \<noteq> b"

text \<open>\<open>a[^ab]*b\<close> matches somewhere; each such text, from the left, is replaced by what \<open>f\<close> makes of its inside.\<close>

definition closes :: "char \<Rightarrow> char \<Rightarrow> string \<Rightarrow> string option" where
  "closes a b s = (case dropWhile (none_of a b) s of [] \<Rightarrow> None | d # r \<Rightarrow> if d = b then Some r else None)"

fun has_innermost :: "char \<Rightarrow> char \<Rightarrow> string \<Rightarrow> bool" where
  "has_innermost a b [] = False"
| "has_innermost a b (c # s) = ((c = a \<and> closes a b s \<noteq> None) \<or> has_innermost a b s)"

lemma closes_length: "closes a b s = Some r \<Longrightarrow> length (takeWhile (none_of a b) s) + length r < length s"
proof -
  assume "closes a b s = Some r"
  then obtain d where "dropWhile (none_of a b) s = d # r" by (auto simp: closes_def split: list.splits if_splits)
  then show ?thesis using arg_cong [OF takeWhile_dropWhile_id [of "none_of a b" s], of length] by simp
qed

function replace_innermost :: "char \<Rightarrow> char \<Rightarrow> (string \<Rightarrow> string) \<Rightarrow> string \<Rightarrow> string" where
  "replace_innermost a b f [] = []"
| "replace_innermost a b f (c # s) =
     (case (if c = a then closes a b s else None) of
        None \<Rightarrow> c # replace_innermost a b f s
      | Some r \<Rightarrow> f (takeWhile (none_of a b) s) @ replace_innermost a b f r)"
  by pat_completeness auto
termination
  by (relation "measure (\<lambda>(a, b, f, s). length s)") (auto split: if_splits dest!: closes_length)

lemma replace_shorter:
  assumes "\<And>x. length (f x) \<le> length x"
  shows "length (replace_innermost a b f s) \<le> length s
    \<and> (has_innermost a b s \<longrightarrow> length (replace_innermost a b f s) < length s)"
  using assms
proof (induction a b f s rule: replace_innermost.induct)
  case (2 a b f c s)
  show ?case
  proof (cases "if c = a then closes a b s else None")
    case None
    then show ?thesis using 2(1) [OF None 2(3)] by (auto split: if_splits)
  next
    case (Some r)
    then have r: "closes a b s = Some r" by (simp split: if_splits)
    have "length (f (takeWhile (none_of a b) s)) + length (replace_innermost a b f r) < length s"
      using conjunct1 [OF 2(2) [OF Some 2(3)]] closes_length [OF r] 2(3) [of "takeWhile (none_of a b) s"]
      by linarith
    then show ?thesis using Some by simp
  qed
qed simp_all

function drop_optionals :: "string \<Rightarrow> string" where
  "drop_optionals s =
     (if has_innermost CHR ''['' CHR '']'' s
      then drop_optionals (replace_innermost CHR ''['' CHR '']'' (\<lambda>x. []) s) else s)"
  by pat_completeness auto
termination
  by (relation "measure length") (simp_all add: replace_shorter)

declare drop_optionals.simps [simp del]

text \<open>Of the alternatives, the first that says something; nothing when an empty one leaves at most one.\<close>

definition choose_of :: "string list \<Rightarrow> string" where
  "choose_of alternatives =
     (let options = map trim alternatives; real = filter (\<lambda>t. t \<noteq> []) options
      in if length real < length options \<and> length real \<le> 1 then []
         else case real of [] \<Rightarrow> [] | t # ts \<Rightarrow> t)"

definition choose_in :: "string \<Rightarrow> string" where
  "choose_in inside = choose_of (split_char CHR ''|'' inside)"

lemma choose_of_in: "choose_of ts = [] \<or> (\<exists>t \<in> set ts. choose_of ts = trim t)"
proof -
  have "t \<in> set (map trim ts)" if "filter (\<lambda>t. t \<noteq> []) (map trim ts) = t # us" for t us
    using that by (metis filter_is_subset list.set_intros(1) subsetD)
  then show ?thesis
    by (cases "filter (\<lambda>t. t \<noteq> []) (map trim ts)") (auto simp: choose_of_def Let_def)
qed

lemma split_char_parts: "t \<in> set (split_char d s) \<Longrightarrow> length t \<le> length s \<and> set t \<subseteq> set s"
proof (induction s arbitrary: t)
  case (Cons c s)
  show ?case
  proof (cases "split_char d s")
    case Nil
    then show ?thesis using Cons(2) by (auto split: if_splits)
  next
    case (Cons u us)
    then show ?thesis using Cons.prems Cons.IH [of u] Cons.IH [of t] by (cases "c = d") auto
  qed
qed simp

lemma choose_in_part: "length (choose_in s) \<le> length s \<and> set (choose_in s) \<subseteq> set s"
proof (cases "choose_in s = []")
  case False
  then obtain t where t: "t \<in> set (split_char CHR ''|'' s)" "choose_in s = trim t"
    using choose_of_in [of "split_char CHR ''|'' s"] unfolding choose_in_def by auto
  then show ?thesis using split_char_parts [OF t(1)] trim_length [of t] trim_set [of t] by auto
qed simp

function choose_groups :: "string \<Rightarrow> string" where
  "choose_groups s =
     (if has_innermost CHR ''('' CHR '')'' s
      then choose_groups (replace_innermost CHR ''('' CHR '')'' choose_in s) else s)"
  by pat_completeness auto
termination
  by (relation "measure length") (simp_all add: replace_shorter choose_in_part)

declare choose_groups.simps [simp del]

definition slot_start :: "char \<Rightarrow> bool" where
  "slot_start c \<longleftrightarrow> lower_letter c \<or> c = CHR ''_''"

definition slot_char :: "char \<Rightarrow> bool" where
  "slot_char c \<longleftrightarrow> slot_start c \<or> dec_digit c"

text \<open>What follows an opening brace is the name of a slot and the closing brace.\<close>

definition slot_at :: "string \<Rightarrow> (string \<times> string) option" where
  "slot_at s =
     (case s of
        [] \<Rightarrow> None
      | c # t \<Rightarrow>
          if \<not> slot_start c then None
          else (case dropWhile slot_char s of
                  [] \<Rightarrow> None
                | d # r \<Rightarrow> if d = CHR ''}'' then Some (takeWhile slot_char s, r) else None))"

lemma slot_at_length: "slot_at s = Some (name, r) \<Longrightarrow> length r < length s"
proof -
  assume "slot_at s = Some (name, r)"
  then obtain d where "dropWhile slot_char s = d # r" by (auto simp: slot_at_def split: list.splits if_splits)
  then have "length (d # r) \<le> length s" by (metis length_dropWhile_le)
  then show ?thesis by simp
qed

function fill_slots :: "(string, string) btree \<Rightarrow> string \<Rightarrow> string" where
  "fill_slots slots [] = []"
| "fill_slots slots (c # s) =
     (case (if c = CHR ''{'' then slot_at s else None) of
        None \<Rightarrow> c # fill_slots slots s
      | Some (name, r) \<Rightarrow>
          (case map_of slots name of Some v \<Rightarrow> v | None \<Rightarrow> map (\<lambda>c. if c = CHR ''_'' then CHR 0x20 else c) name)
          @ fill_slots slots r)"
  by pat_completeness auto
termination
  by (relation "measure (\<lambda>(slots, s). length s)") (auto split: if_splits dest!: slot_at_length)

text \<open>Two white spaces and more are one space.\<close>

lemma trim_start_length: "length (trim_start s) \<le> length s"
proof -
  obtain p where "s = p @ trim_start s" using strip_any_suffix unfolding trim_start_def by blast
  then show ?thesis by (metis length_append le_add2)
qed

function squeeze :: "string \<Rightarrow> string" where
  "squeeze [] = []"
| "squeeze (c # s) =
     (case space_at (c # s) of
        None \<Rightarrow> c # squeeze s
      | Some w \<Rightarrow>
          if space_at (drop (length w) (c # s)) = None then w @ squeeze (drop (length w) (c # s))
          else CHR 0x20 # squeeze (trim_start (drop (length w) (c # s))))"
  by pat_completeness auto
termination
proof (relation "measure length")
  fix c s w
  assume w: "space_at (c # s) = Some w"
  then show "(drop (length w) (c # s), c # s) \<in> measure length" using space_at_length [OF w] by simp
  show "(trim_start (drop (length w) (c # s)), c # s) \<in> measure length"
    using space_at_length [OF w] trim_start_length [of "drop (length w) (c # s)"] by (cases w) simp_all
qed simp_all

definition tidy :: "string \<Rightarrow> string" where
  "tidy s = (let out = (\<lambda>c. c = CHR 0x20 \<or> c = CHR '','') in rev (dropWhile out (rev (dropWhile out (squeeze s)))))"

definition speakable :: "string \<Rightarrow> (string, string) btree \<Rightarrow> string" where
  "speakable pattern slots = tidy (fill_slots slots (choose_groups (drop_optionals pattern)))"

section \<open>What a pattern means\<close>

text \<open>
  A pattern with its parts nested as they should be: characters, bars between alternatives, optional parts and
  groups, each followed by the rest.
\<close>

datatype pattern = Done | Lit char pattern | Bar pattern | Opt pattern pattern | Grp pattern pattern

primrec pattern_text :: "pattern \<Rightarrow> string" where
  "pattern_text Done = []"
| "pattern_text (Lit c p) = c # pattern_text p"
| "pattern_text (Bar p) = CHR ''|'' # pattern_text p"
| "pattern_text (Opt q p) = CHR ''['' # pattern_text q @ CHR '']'' # pattern_text p"
| "pattern_text (Grp q p) = CHR ''('' # pattern_text q @ CHR '')'' # pattern_text p"

definition letter :: "char \<Rightarrow> bool" where
  "letter c \<longleftrightarrow> c \<notin> set ''[]()|''"

primrec pattern_ok :: "pattern \<Rightarrow> bool" where
  "pattern_ok Done = True"
| "pattern_ok (Lit c p) = (letter c \<and> pattern_ok p)"
| "pattern_ok (Bar p) = pattern_ok p"
| "pattern_ok (Opt q p) = (pattern_ok q \<and> pattern_ok p)"
| "pattern_ok (Grp q p) = (pattern_ok q \<and> pattern_ok p)"

definition onto_first :: "string \<Rightarrow> string list \<Rightarrow> string list" where
  "onto_first s ts = (case ts of [] \<Rightarrow> [s] | t # us \<Rightarrow> (s @ t) # us)"

text \<open>
  A group with a blank alternative that leaves at most one may be left out, and is; any other says the first of
  its alternatives that is not blank.
\<close>

definition blank :: "string \<Rightarrow> bool" where
  "blank t \<longleftrightarrow> trim t = []"

definition may_be_left_out :: "string list \<Rightarrow> bool" where
  "may_be_left_out ts \<longleftrightarrow> (\<exists>t \<in> set ts. blank t) \<and> card {i. i < length ts \<and> \<not> blank (ts ! i)} \<le> 1"

primrec first_said :: "string list \<Rightarrow> string" where
  "first_said [] = []"
| "first_said (t # ts) = (if blank t then first_said ts else trim t)"

definition group_says :: "string list \<Rightarrow> string" where
  "group_says ts = (if may_be_left_out ts then [] else first_said ts)"

lemma choose_of_says: "choose_of ts = group_says ts"
proof -
  have len: "length (filter (\<lambda>t. t \<noteq> []) (map trim ts)) = card {i. i < length ts \<and> \<not> blank (ts ! i)}"
    by (simp add: filter_map length_filter_conv_card blank_def comp_def)
  have some_blank: "length (filter (\<lambda>t. t \<noteq> []) (map trim ts)) < length (map trim ts) \<longleftrightarrow> (\<exists>t \<in> set ts. blank t)"
    by (induction ts) (auto simp: blank_def less_Suc_eq_le)
  have first: "(case filter (\<lambda>t. t \<noteq> []) (map trim ts) of [] \<Rightarrow> [] | t # us \<Rightarrow> t) = first_said ts"
    by (induction ts) (auto simp: blank_def)
  show ?thesis
    using first some_blank len by (simp add: choose_of_def group_says_def may_be_left_out_def Let_def)
qed

text \<open>What its alternatives say.\<close>

primrec meanings :: "pattern \<Rightarrow> string list" where
  "meanings Done = [[]]"
| "meanings (Lit c p) = onto_first [c] (meanings p)"
| "meanings (Bar p) = [] # meanings p"
| "meanings (Opt q p) = meanings p"
| "meanings (Grp q p) = onto_first (group_says (meanings q)) (meanings p)"

definition meaning :: "pattern \<Rightarrow> string" where
  "meaning p = join ''|'' (meanings p)"

section \<open>Optional parts\<close>

primrec has_opt :: "pattern \<Rightarrow> bool" where
  "has_opt Done = False"
| "has_opt (Lit c p) = has_opt p"
| "has_opt (Bar p) = has_opt p"
| "has_opt (Opt q p) = True"
| "has_opt (Grp q p) = (has_opt q \<or> has_opt p)"

primrec drop_opts :: "pattern \<Rightarrow> pattern" where
  "drop_opts Done = Done"
| "drop_opts (Lit c p) = Lit c (drop_opts p)"
| "drop_opts (Bar p) = Bar (drop_opts p)"
| "drop_opts (Opt q p) = (if has_opt q then Opt (drop_opts q) (drop_opts p) else drop_opts p)"
| "drop_opts (Grp q p) = Grp (drop_opts q) (drop_opts p)"

primrec no_opts :: "pattern \<Rightarrow> pattern" where
  "no_opts Done = Done"
| "no_opts (Lit c p) = Lit c (no_opts p)"
| "no_opts (Bar p) = Bar (no_opts p)"
| "no_opts (Opt q p) = no_opts p"
| "no_opts (Grp q p) = Grp (no_opts q) (no_opts p)"

lemma none_of_brackets [simp]:
  "none_of CHR ''['' CHR '']'' CHR ''|''" "none_of CHR ''['' CHR '']'' CHR ''(''" "none_of CHR ''['' CHR '']'' CHR '')''"
  "\<not> none_of CHR ''['' CHR '']'' CHR ''[''" "\<not> none_of CHR ''['' CHR '']'' CHR '']''"
  "letter c \<Longrightarrow> none_of CHR ''['' CHR '']'' c"
  by (auto simp: none_of_def letter_def)

lemma no_bracket_skipped:
  "pattern_ok p \<Longrightarrow> \<not> has_opt p \<Longrightarrow> dropWhile (none_of CHR ''['' CHR '']'') (pattern_text p @ r)
     = dropWhile (none_of CHR ''['' CHR '']'') r"
  by (induction p arbitrary: r) auto

lemma skip_to_bracket:
  "pattern_ok p \<Longrightarrow> has_opt p \<Longrightarrow>
     \<exists>t. dropWhile (none_of CHR ''['' CHR '']'') (pattern_text p @ r) = CHR ''['' # t"
proof (induction p arbitrary: r)
  case (Opt q p)
  then show ?case by (cases "has_opt q") (auto simp: no_bracket_skipped)
next
  case (Grp q p)
  then show ?case by (cases "has_opt q") (auto simp: no_bracket_skipped)
qed auto

lemma closes_pattern:
  "pattern_ok p \<Longrightarrow> closes CHR ''['' CHR '']'' (pattern_text p @ CHR '']'' # r) = (if has_opt p then None else Some r)"
  using skip_to_bracket [of p "CHR '']'' # r"] no_bracket_skipped [of p "CHR '']'' # r"] by (auto simp: closes_def)

lemma letter_not_open: "letter c \<Longrightarrow> c \<noteq> CHR ''['' \<and> c \<noteq> CHR ''('' \<and> c \<noteq> CHR ''|''"
  by (auto simp: letter_def)

lemma drop_pass:
  "pattern_ok p \<Longrightarrow> replace_innermost CHR ''['' CHR '']'' (\<lambda>x. []) (pattern_text p @ r)
     = pattern_text (drop_opts p) @ replace_innermost CHR ''['' CHR '']'' (\<lambda>x. []) r"
  by (induction p arbitrary: r) (auto simp: closes_pattern dest: letter_not_open)

lemma pass_matches:
  "pattern_ok p \<Longrightarrow> has_innermost CHR ''['' CHR '']'' (pattern_text p @ r)
     \<longleftrightarrow> has_opt p \<or> has_innermost CHR ''['' CHR '']'' r"
  by (induction p arbitrary: r) (auto simp: closes_pattern dest: letter_not_open)

lemma drop_opts_facts: "pattern_ok p \<Longrightarrow> pattern_ok (drop_opts p) \<and> no_opts (drop_opts p) = no_opts p"
  by (induction p) auto

lemma no_opts_facts: "pattern_ok p \<Longrightarrow> pattern_ok (no_opts p) \<and> \<not> has_opt (no_opts p) \<and> meanings (no_opts p) = meanings p"
  by (induction p) auto

lemma no_opts_same: "\<not> has_opt p \<Longrightarrow> no_opts p = p"
  by (induction p) auto

lemma drop_optionals_pattern: "pattern_ok p \<Longrightarrow> drop_optionals (pattern_text p) = pattern_text (no_opts p)"
proof (induction "pattern_text p" arbitrary: p rule: drop_optionals.induct)
  case 1
  show ?case
  proof (cases "has_opt p")
    case True
    then have pass: "has_innermost CHR ''['' CHR '']'' (pattern_text p)"
      using pass_matches [OF 1(2), of "[]"] by simp
    have step: "replace_innermost CHR ''['' CHR '']'' (\<lambda>x. []) (pattern_text p) = pattern_text (drop_opts p)"
      using drop_pass [OF 1(2), of "[]"] by simp
    show ?thesis
      using 1(1) [OF pass step] drop_opts_facts [OF 1(2)] pass step
      by (subst drop_optionals.simps) simp
  next
    case False
    then show ?thesis using pass_matches [OF 1(2), of "[]"]
      by (subst drop_optionals.simps) (simp add: no_opts_same)
  qed
qed

section \<open>Groups\<close>

primrec has_grp :: "pattern \<Rightarrow> bool" where
  "has_grp Done = False"
| "has_grp (Lit c p) = has_grp p"
| "has_grp (Bar p) = has_grp p"
| "has_grp (Opt q p) = (has_grp q \<or> has_grp p)"
| "has_grp (Grp q p) = True"

primrec choose_grps :: "pattern \<Rightarrow> pattern" where
  "choose_grps Done = Done"
| "choose_grps (Lit c p) = Lit c (choose_grps p)"
| "choose_grps (Bar p) = Bar (choose_grps p)"
| "choose_grps (Opt q p) = Opt (choose_grps q) (choose_grps p)"
| "choose_grps (Grp q p) =
     (if has_grp q then Grp (choose_grps q) (choose_grps p) else foldr Lit (choose_in (pattern_text q)) (choose_grps p))"

lemma none_of_parens [simp]:
  "none_of CHR ''('' CHR '')'' CHR ''|''" "none_of CHR ''('' CHR '')'' CHR ''[''" "none_of CHR ''('' CHR '')'' CHR '']''"
  "\<not> none_of CHR ''('' CHR '')'' CHR ''(''" "\<not> none_of CHR ''('' CHR '')'' CHR '')''"
  "letter c \<Longrightarrow> none_of CHR ''('' CHR '')'' c"
  by (auto simp: none_of_def letter_def)

lemma no_paren_skipped:
  "pattern_ok p \<Longrightarrow> \<not> has_grp p \<Longrightarrow> dropWhile (none_of CHR ''('' CHR '')'') (pattern_text p @ r)
     = dropWhile (none_of CHR ''('' CHR '')'') r"
  by (induction p arbitrary: r) auto

lemma skip_to_paren:
  "pattern_ok p \<Longrightarrow> has_grp p \<Longrightarrow>
     \<exists>t. dropWhile (none_of CHR ''('' CHR '')'') (pattern_text p @ r) = CHR ''('' # t"
proof (induction p arbitrary: r)
  case (Opt q p)
  then show ?case by (cases "has_grp q") (auto simp: no_paren_skipped)
next
  case (Grp q p)
  then show ?case by (cases "has_grp q") (auto simp: no_paren_skipped)
qed auto

lemma take_to_paren:
  "pattern_ok p \<Longrightarrow> \<not> has_grp p \<Longrightarrow> takeWhile (none_of CHR ''('' CHR '')'') (pattern_text p @ r)
     = pattern_text p @ takeWhile (none_of CHR ''('' CHR '')'') r"
  by (induction p arbitrary: r) auto

lemma closes_group:
  "pattern_ok p \<Longrightarrow> closes CHR ''('' CHR '')'' (pattern_text p @ CHR '')'' # r) = (if has_grp p then None else Some r)"
  using skip_to_paren [of p "CHR '')'' # r"] no_paren_skipped [of p "CHR '')'' # r"] by (auto simp: closes_def)

lemma text_of_letters [simp]: "pattern_text (foldr Lit s p) = s @ pattern_text p"
  by (induction s) auto

lemma letters_ok: "pattern_ok (foldr Lit s p) \<longleftrightarrow> list_all letter s \<and> pattern_ok p"
  by (induction s) auto

lemma onto_first_simps [simp]:
  "onto_first s [] = [s]" "onto_first s (t # ts) = (s @ t) # ts" "onto_first s ts \<noteq> []"
  by (auto simp: onto_first_def split: list.split)

lemma meanings_nonempty [simp]: "meanings p \<noteq> []"
  by (induction p) auto

lemma meaning_of_letters: "meanings (foldr Lit s p) = onto_first s (meanings p)"
proof (induction s)
  case Nil
  then show ?case by (cases "meanings p") auto
next
  case (Cons c s)
  then show ?case by (cases "meanings p") auto
qed

lemma choose_pass:
  "pattern_ok p \<Longrightarrow> replace_innermost CHR ''('' CHR '')'' choose_in (pattern_text p @ r)
     = pattern_text (choose_grps p) @ replace_innermost CHR ''('' CHR '')'' choose_in r"
  by (induction p arbitrary: r) (auto simp: closes_group take_to_paren dest: letter_not_open)

lemma group_matches:
  "pattern_ok p \<Longrightarrow> has_innermost CHR ''('' CHR '')'' (pattern_text p @ r)
     \<longleftrightarrow> has_grp p \<or> has_innermost CHR ''('' CHR '')'' r"
  by (induction p arbitrary: r) (auto simp: closes_group dest: letter_not_open)

text \<open>A pattern without optional parts and groups: its alternatives are between its bars.\<close>

lemma flat_split:
  "pattern_ok p \<Longrightarrow> \<not> has_opt p \<Longrightarrow> \<not> has_grp p \<Longrightarrow>
     split_char CHR ''|'' (pattern_text p) = meanings p \<and> pattern_text p = meaning p
     \<and> (\<forall>t \<in> set (meanings p). list_all letter t)"
proof (induction p)
  case (Lit c p)
  then have "c \<noteq> CHR ''|''" using letter_not_open by auto
  then show ?case using Lit by (cases "meanings p"; cases "tl (meanings p)") (auto simp: meaning_def)
next
  case (Bar p)
  then show ?case by (cases "meanings p") (auto simp: meaning_def)
qed (simp_all add: meaning_def)

lemma chosen_letters: "pattern_ok q \<Longrightarrow> \<not> has_opt q \<Longrightarrow> \<not> has_grp q \<Longrightarrow> list_all letter (choose_in (pattern_text q))"
  using flat_split [of q] choose_of_in [of "meanings q"] trim_set
  by (auto simp: choose_in_def list_all_iff) blast+

lemma choose_grps_facts:
  "pattern_ok p \<Longrightarrow> \<not> has_opt p \<Longrightarrow>
     pattern_ok (choose_grps p) \<and> \<not> has_opt (choose_grps p) \<and> meanings (choose_grps p) = meanings p"
proof (induction p)
  case (Grp q p)
  have "\<not> has_opt (foldr Lit s t) = (\<not> has_opt t)" for s t by (induction s) auto
  then show ?case
    using Grp chosen_letters [of q] flat_split [of q]
    by (auto simp: letters_ok meaning_of_letters choose_in_def choose_of_says)
qed auto

lemma choose_groups_pattern:
  "pattern_ok p \<Longrightarrow> \<not> has_opt p \<Longrightarrow> choose_groups (pattern_text p) = meaning p"
proof (induction "pattern_text p" arbitrary: p rule: choose_groups.induct)
  case 1
  show ?case
  proof (cases "has_grp p")
    case True
    then have pass: "has_innermost CHR ''('' CHR '')'' (pattern_text p)"
      using group_matches [OF 1(2), of "[]"] by simp
    have step: "replace_innermost CHR ''('' CHR '')'' choose_in (pattern_text p) = pattern_text (choose_grps p)"
      using choose_pass [OF 1(2), of "[]"] by simp
    show ?thesis
      using 1(1) [OF pass step] choose_grps_facts [OF 1(2,3)] pass step
      by (subst choose_groups.simps) (simp add: meaning_def)
  next
    case False
    then show ?thesis using group_matches [OF 1(2), of "[]"] flat_split [OF 1(2,3)]
      by (subst choose_groups.simps) simp
  qed
qed

lemma spoken_meaning:
  "pattern_ok p \<Longrightarrow> speakable (pattern_text p) slots = tidy (fill_slots slots (meaning p))"
  using no_opts_facts [of p]
  by (simp add: speakable_def drop_optionals_pattern choose_groups_pattern meaning_def)

section \<open>Slots and spaces\<close>

text \<open>A text in pieces: characters and slots, a slot being a name in braces.\<close>

datatype piece = Plain char | Slot string

primrec piece_ok :: "piece \<Rightarrow> bool" where
  "piece_ok (Plain c) = (c \<noteq> CHR ''{'')"
| "piece_ok (Slot name) = (name \<noteq> [] \<and> slot_start (hd name) \<and> list_all slot_char name)"

primrec piece_text :: "piece \<Rightarrow> string" where
  "piece_text (Plain c) = [c]"
| "piece_text (Slot name) = CHR ''{'' # name @ [CHR ''}'']"

text \<open>A slot says its value, and without one its name with spaces for the underscores.\<close>

primrec piece_says :: "(string, string) btree \<Rightarrow> piece \<Rightarrow> string" where
  "piece_says slots (Plain c) = [c]"
| "piece_says slots (Slot name) =
     (if name \<in> fst ` set slots then the (map_of slots name)
      else map (\<lambda>c. if c = CHR ''_'' then CHR 0x20 else c) name)"

lemma slot_at_name: "piece_ok (Slot name) \<Longrightarrow> slot_at (name @ CHR ''}'' # r) = Some (name, r)"
proof -
  have stop: "\<not> slot_char CHR ''}''" by (simp add: slot_char_def slot_start_def lower_letter_def dec_digit_def)
  assume "piece_ok (Slot name)"
  then show ?thesis
    using stop by (cases name) (auto simp: slot_at_def list_all_iff dropWhile_append2 takeWhile_append2)
qed

lemma fill_pieces:
  "list_all piece_ok ps \<Longrightarrow> fill_slots slots (concat (map piece_text ps)) = concat (map (piece_says slots) ps)"
proof (induction ps)
  case (Cons a ps)
  show ?case
  proof (cases a)
    case (Plain c)
    then show ?thesis using Cons by simp
  next
    case (Slot name)
    then have "slot_at (name @ CHR ''}'' # concat (map piece_text ps)) = Some (name, concat (map piece_text ps))"
      using Cons(2) slot_at_name by simp
    then show ?thesis
      using Cons Slot by (auto simp: map_of_eq_None_iff split: option.split) (metis domI dom_map_of_conv_image_fst)
  qed
qed simp

text \<open>The second text is the first with every run of two white spaces and more made one space.\<close>

inductive respaced :: "string \<Rightarrow> string \<Rightarrow> bool" where
  respaced_end: "respaced [] []"
| respaced_char: "space_at (c # s) = None \<Longrightarrow> respaced s t \<Longrightarrow> respaced (c # s) (c # t)"
| respaced_one: "w \<in> set white_spaces \<Longrightarrow> space_at s = None \<Longrightarrow> respaced s t \<Longrightarrow> respaced (w @ s) (w @ t)"
| respaced_run: "set ws \<subseteq> set white_spaces \<Longrightarrow> 2 \<le> length ws \<Longrightarrow> space_at s = None \<Longrightarrow> respaced s t \<Longrightarrow>
    respaced (concat ws @ s) (CHR 0x20 # t)"

lemma space_at_some: "space_at s = Some w \<Longrightarrow> w \<in> set white_spaces \<and> s = w @ drop (length w) s"
  by (auto simp: space_at_def find_Some_iff starts_with_def) (metis append_take_drop_id)

lemma trim_start_run:
  "\<exists>ws. set ws \<subseteq> set white_spaces \<and> s = concat ws @ trim_start s \<and> (space_at s \<noteq> None \<longrightarrow> ws \<noteq> [])
     \<and> space_at (trim_start s) = None"
proof (induction s rule: length_induct)
  case (1 s)
  have fixed: "trim_start s = (case space_at s of None \<Rightarrow> s | Some w \<Rightarrow> trim_start (drop (length w) s))"
  proof -
    have "find (\<lambda>w. w \<noteq> [] \<and> starts_with s w) white_spaces = space_at s"
      by (auto simp: space_at_def white_spaces_def)
    then show ?thesis by (simp add: trim_start_def strip_any.simps [of white_spaces s] split: option.split)
  qed
  show ?case
  proof (cases "space_at s")
    case None
    then show ?thesis using fixed by (intro exI [of _ "[]"]) simp
  next
    case (Some w)
    let ?r = "drop (length w) s"
    have "length ?r < length s" using space_at_length [OF Some] unfolding length_drop by linarith
    then obtain ws where "set ws \<subseteq> set white_spaces" "?r = concat ws @ trim_start ?r" "space_at (trim_start ?r) = None"
      using 1 by blast
    then show ?thesis
      using space_at_some [OF Some] fixed Some by (intro exI [of _ "w # ws"]) auto
  qed
qed

lemma squeeze_respaces: "respaced s (squeeze s)"
proof (induction s rule: squeeze.induct)
  case (2 c s)
  show ?case
  proof (cases "space_at (c # s)")
    case None
    then show ?thesis using respaced_char [OF None 2(1) [OF None]] by simp
  next
    case (Some w)
    let ?r = "drop (length w) (c # s)"
    have w: "w \<in> set white_spaces" "c # s = w @ ?r" using space_at_some [OF Some] by auto
    show ?thesis
    proof (cases "space_at ?r = None")
      case True
      have "respaced (w @ ?r) (w @ squeeze ?r)" using w(1) True 2(2) [OF Some True] by (rule respaced_one)
      then show ?thesis using w(2) Some True by simp
    next
      case False
      obtain ws where ws: "set ws \<subseteq> set white_spaces" "?r = concat ws @ trim_start ?r" "ws \<noteq> []"
        "space_at (trim_start ?r) = None"
        using trim_start_run [of ?r] False by blast
      have "respaced (concat (w # ws) @ trim_start ?r) (CHR 0x20 # squeeze (trim_start ?r))"
        using w(1) ws 2(3) [OF Some False] by (intro respaced_run) (auto simp: Suc_le_eq)
      moreover have "concat (w # ws) @ trim_start ?r = c # s" using w(2) ws(2) by simp
      ultimately have "respaced (c # s) (CHR 0x20 # squeeze (trim_start ?r))" by metis
      then show ?thesis using Some False by (simp only: squeeze.simps option.case if_False)
    qed
  qed
qed (simp add: respaced_end)

definition outer :: "char \<Rightarrow> bool" where
  "outer c \<longleftrightarrow> c = CHR 0x20 \<or> c = CHR '',''"

lemma tidy_cuts:
  "\<exists>a b. squeeze s = a @ tidy s @ b \<and> list_all outer (a @ b) \<and> (tidy s \<noteq> [] \<longrightarrow> \<not> outer (hd (tidy s)) \<and> \<not> outer (last (tidy s)))"
proof -
  let ?m = "dropWhile outer (squeeze s)"
  have tidy: "tidy s = rev (dropWhile outer (rev ?m))" by (simp add: tidy_def Let_def outer_def [abs_def])
  have m: "?m = tidy s @ rev (takeWhile outer (rev ?m))"
    unfolding tidy by (metis rev_append rev_rev_ident takeWhile_dropWhile_id)
  have "squeeze s = takeWhile outer (squeeze s) @ tidy s @ rev (takeWhile outer (rev ?m))"
    using m takeWhile_dropWhile_id [of outer "squeeze s"] by metis
  moreover have "list_all outer (takeWhile outer (squeeze s) @ rev (takeWhile outer (rev ?m)))"
    by (auto simp: list_all_iff dest: set_takeWhileD)
  moreover have "\<not> outer (last (tidy s))" if "tidy s \<noteq> []"
    using that tidy hd_dropWhile [of outer "rev ?m"] by (simp add: last_rev)
  moreover have "\<not> outer (hd (tidy s))" if "tidy s \<noteq> []"
  proof -
    have "hd ?m = hd (tidy s)" using m that by (metis hd_append2)
    moreover have "?m \<noteq> []" using m that by (metis append_is_Nil_conv)
    ultimately show ?thesis using hd_dropWhile by metis
  qed
  ultimately show ?thesis by blast
qed

text \<open>
  C37: a pattern whose parts are nested as they should be, however deep, and whose braces are those of its slots,
  is spoken as what it means. Its optional parts are left out; of every group, from the inside out, the first
  alternative that is not blank is said, and nothing of a group where a blank alternative leaves at most one; a
  slot says its value, or its name with spaces for the underscores. Of that text every run of white space is made
  one space, and the spaces and commas at its ends are cut, all of them and nothing else.
\<close>

theorem speakable_is_the_meaning:
  assumes "pattern_ok p" and "meaning p = concat (map piece_text ps)" and "list_all piece_ok ps"
  shows "\<exists>a b. respaced (concat (map (piece_says slots) ps)) (a @ speakable (pattern_text p) slots @ b)
    \<and> list_all outer (a @ b)
    \<and> (speakable (pattern_text p) slots \<noteq> [] \<longrightarrow>
         \<not> outer (hd (speakable (pattern_text p) slots)) \<and> \<not> outer (last (speakable (pattern_text p) slots)))"
proof -
  let ?t = "concat (map (piece_says slots) ps)"
  have said: "speakable (pattern_text p) slots = tidy ?t"
    using spoken_meaning [OF assms(1)] assms(2) fill_pieces [OF assms(3)] by simp
  show ?thesis unfolding said using tidy_cuts [of ?t] squeeze_respaces [of ?t] by metis
qed

text \<open>A group that may be left out, one that may not, an optional part, a slot with a value and one without.\<close>

definition sample_pattern :: pattern where
  "sample_pattern = foldr Lit ''ask'' (Grp (foldr Lit '' all'' (Bar Done))
     (Opt (Grp (Lit CHR ''x'' Done) Done)
     (Lit CHR 0x20 (Grp (Lit CHR ''a'' (Bar (Grp (Lit CHR ''b'' (Bar Done)) (Lit CHR ''c'' Done))))
     (foldr Lit '' {to_do} {x},'' Done)))))"

definition sample_pieces :: "piece list" where
  "sample_pieces = map Plain ''ask a '' @ [Slot ''to_do'', Plain CHR 0x20, Slot ''x'', Plain CHR '','']"

theorem speakable_is_the_meaning_witness:
  "\<exists>a b. respaced ''ask a to do you,'' (a @ speakable ''ask( all|)[(x)] (a|(b|)c) {to_do} {x},'' [(''x'', ''you'')] @ b)
    \<and> list_all outer (a @ b)"
proof -
  have trims: "trim ''a'' = ''a''" "trim ''b'' = ''b''" "trim ''c'' = ''c''" "trim ''x'' = ''x''"
    by (simp_all add: trim_plain plain_char_def)
  have all: "trim '' all'' = ''all''"
    by (simp add: trim_def trim_start_def trim_end_def white_spaces_def strip_any.simps starts_with_def)
  have shown: "pattern_text sample_pattern = ''ask( all|)[(x)] (a|(b|)c) {to_do} {x},''" and ok: "pattern_ok sample_pattern"
    by (simp_all add: sample_pattern_def letter_def)
  have says: "group_says [''b'', []] = []" "group_says ['' all'', []] = []" "group_says [''a'', ''c''] = ''a''"
    by (simp_all add: choose_of_says [symmetric] choose_of_def trims all)
  have meant: "meaning sample_pattern = concat (map piece_text sample_pieces)"
    by (simp add: meaning_def sample_pattern_def says sample_pieces_def)
  have ps: "list_all piece_ok sample_pieces"
    by (simp add: sample_pieces_def slot_char_def slot_start_def lower_letter_def dec_digit_def)
  have filled: "concat (map (piece_says [(''x'', ''you'')]) sample_pieces) = ''ask a to do you,''"
    by (simp add: sample_pieces_def)
  show ?thesis using speakable_is_the_meaning [OF ok meant ps, of "[(''x'', ''you'')]"] unfolding shown filled by blast
qed

section \<open>Where somebody is\<close>

text \<open>\<open>build_location\<close>: floating-point numbers are their bits, which for the positive ones are in order; no number has larger bits than the infinities.\<close>

record location_options =
  lc_city :: string
  lc_region :: string
  lc_country :: string
  lc_timezone :: string
  lc_latitude :: "json option"
  lc_longitude :: "json option"

record float_lib =
  fl_of_number :: "number \<Rightarrow> 64 word option"
  fl_parse :: "string \<Rightarrow> 64 word option"

definition coordinate :: "float_lib \<Rightarrow> json option \<Rightarrow> 64 word option" where
  "coordinate fl v =
     Option.bind v (\<lambda>v.
       case v of
         JNumber n \<Rightarrow> fl_of_number fl n
       | JString s \<Rightarrow> fl_parse fl (trim s)
       | _ \<Rightarrow> None)"

definition magnitude :: "64 word \<Rightarrow> 64 word" where
  "magnitude x = and x 0x7FFFFFFFFFFFFFFF"

definition coordinates_ok :: "64 word \<Rightarrow> 64 word \<Rightarrow> bool" where
  "coordinates_ok lat lon \<longleftrightarrow>
     (magnitude lat \<noteq> 0 \<or> magnitude lon \<noteq> 0) \<and> magnitude lat \<le> 0x4056800000000000 \<and> magnitude lon \<le> 0x4066800000000000"

definition build_location :: "(string \<Rightarrow> string) \<Rightarrow> float_lib \<Rightarrow> location_options \<Rightarrow> jmap option" where
  "build_location upper fl opts =
     (if trim (lc_city opts) = [] then None
      else Some
        ((case (coordinate fl (lc_latitude opts), coordinate fl (lc_longitude opts)) of
            (Some lat, Some lon) \<Rightarrow>
              if coordinates_ok lat lon
              then bt_insert ''coordinate'' (JObject [(''latitude'', JNumber (Float lat)), (''longitude'', JNumber (Float lon))])
              else id
          | _ \<Rightarrow> id)
         ((if trim (lc_timezone opts) \<noteq> [] then bt_insert ''timezone'' (JObject [(''code'', JString (trim (lc_timezone opts)))]) else id)
         ((if trim (lc_country opts) \<noteq> [] then bt_insert ''country_code'' (JString (upper (trim (lc_country opts)))) else id)
         ((if trim (lc_region opts) \<noteq> [] then bt_insert ''region'' (JString (trim (lc_region opts))) else id)
           [(''city'', JString (trim (lc_city opts)))])))))"

end
