(* ===== verification/Listing.thy ===== *)
theory Listing
  imports Speakable Intents "HOL-Library.Product_Lexorder"
begin

text \<open>
  \<open>src/src/listing.rs\<close> and \<open>examples\<close> of \<open>src/src/intents.rs\<close>: the rules of a language for illustrative listings,
  which sentences ask, how one is written, in which order they are shown. The regular expressions, Unicode's case
  and the bundled data are parameters.
\<close>

section \<open>The rules\<close>

record listing_language =
  ll_trailing_words :: "string list"
  ll_question_openers :: "string list"
  ll_question_words_anywhere :: "string list"
  ll_question_patterns :: "string list"
  ll_written_forms :: "(string, string) btree"
  ll_slot_examples :: "(string, string) btree"

definition no_listing_language :: listing_language where
  "no_listing_language = \<lparr>ll_trailing_words = [], ll_question_openers = [], ll_question_words_anywhere = [],
     ll_question_patterns = [], ll_written_forms = [], ll_slot_examples = []\<rparr>"

record listing_data =
  ld_sentence_ends :: string
  ld_languages :: "(string, listing_language) btree"

record 'r listing_rules =
  lr_available :: bool
  lr_data :: listing_data
  lr_patterns :: "(string, 'r list) btree"
  lr_written :: "(string, ('r \<times> string) list) btree"

text \<open>A regular expression is built ignoring case or not; each match is where it begins and ends, or why looking went wrong.\<close>

record 'r listing_lib =
  li_build :: "string \<Rightarrow> bool \<Rightarrow> string + 'r"
  li_is_match :: "'r \<Rightarrow> string \<Rightarrow> string + bool"
  li_find :: "'r \<Rightarrow> string \<Rightarrow> (string + nat \<times> nat) list"
  li_escape :: "string \<Rightarrow> string"
  li_lower :: "string \<Rightarrow> string"
  li_upper :: "string \<Rightarrow> string"
  li_tables :: language_tables

definition back_slashed :: "string \<Rightarrow> string" where
  "back_slashed s = map (\<lambda>c. if c = CHR ''~'' then CHR 0x5C else c) s"

definition word_boundary :: string where
  "word_boundary = back_slashed ''(?:(?<![~p{L}~p{N}_])(?=[~p{L}~p{N}_])|(?<=[~p{L}~p{N}_])(?![~p{L}~p{N}_]))''"

definition non_boundary :: string where
  "non_boundary = back_slashed ''(?:(?=[~s~S])|(?<=[~s~S]))(?:(?<=[~p{L}~p{N}_])(?=[~p{L}~p{N}_])|(?<![~p{L}~p{N}_])(?![~p{L}~p{N}_]))''"

fun convert :: "bool \<Rightarrow> string \<Rightarrow> string" where
  "convert in_class [] = []"
| "convert in_class [c] = [c]"
| "convert in_class (c # d # s) =
     (if c = CHR 0x5C then
        (if d = CHR ''b'' \<and> \<not> in_class then word_boundary
         else if d = CHR ''B'' \<and> \<not> in_class then non_boundary
         else [c, d]) @ convert in_class s
      else c # convert (if c = CHR ''['' then True else if c = CHR '']'' then False else in_class) (d # s))"

definition compile_rule :: "'r listing_lib \<Rightarrow> string \<Rightarrow> bool \<Rightarrow> 'r res" where
  "compile_rule lib expression ignore_case =
     (case li_build lib (convert False expression) ignore_case of Inl e \<Rightarrow> Inl (Listing e) | Inr r \<Rightarrow> Inr r)"

fun res_all :: "'a res list \<Rightarrow> 'a list res" where
  "res_all [] = Inr []"
| "res_all (r # rs) = res_bind r (\<lambda>x. res_bind (res_all rs) (\<lambda>xs. Inr (x # xs)))"

definition language_rules :: "'r listing_lib \<Rightarrow> listing_language \<Rightarrow> ('r list \<times> ('r \<times> string) list) res" where
  "language_rules lib l =
     res_bind (res_all (map (\<lambda>p. compile_rule lib p True) (ll_question_patterns l))) (\<lambda>patterns.
     res_bind (res_all (map (\<lambda>(word, written).
           res_bind (compile_rule lib ([CHR 0x5C, CHR ''b''] @ li_escape lib word @ [CHR 0x5C, CHR ''b'']) False)
             (\<lambda>r. Inr (r, written))) (ll_written_forms l))) (\<lambda>written.
       Inr (patterns, written)))"

definition new_rules :: "'r listing_lib \<Rightarrow> listing_data option \<Rightarrow> 'r listing_rules res" where
  "new_rules lib data =
     (let d = (case data of Some d \<Rightarrow> d | None \<Rightarrow> \<lparr>ld_sentence_ends = [], ld_languages = []\<rparr>)
      in res_bind (res_all (map (\<lambda>(tag, l). res_bind (language_rules lib l) (\<lambda>ps. Inr (tag, ps))) (ld_languages d)))
           (\<lambda>rows. Inr \<lparr>lr_available = (data \<noteq> None), lr_data = d,
              lr_patterns = map (\<lambda>(tag, ps, ws). (tag, ps)) rows, lr_written = map (\<lambda>(tag, ps, ws). (tag, ws)) rows\<rparr>))"

section \<open>The language of a text\<close>

definition rules_tag :: "'r listing_lib \<Rightarrow> 'r listing_rules \<Rightarrow> string option \<Rightarrow> string option" where
  "rules_tag lib r lang =
     Option.bind lang (\<lambda>s. if s = [] then None else closest_language (li_tables lib) s (map fst (ld_languages (lr_data r))))"

definition language_data :: "'r listing_lib \<Rightarrow> 'r listing_rules \<Rightarrow> string option \<Rightarrow> listing_language" where
  "language_data lib r lang =
     (case Option.bind (rules_tag lib r lang) (map_of (ld_languages (lr_data r))) of
        Some l \<Rightarrow> l | None \<Rightarrow> no_listing_language)"

text \<open>The words of a kind, of the language given or, when none is, of all of them.\<close>

definition rule_words ::
    "'r listing_lib \<Rightarrow> 'r listing_rules \<Rightarrow> string option \<Rightarrow> (listing_language \<Rightarrow> string list) \<Rightarrow> string list" where
  "rule_words lib r lang select =
     (let tags = (if lang \<noteq> None \<and> lang \<noteq> Some [] then (case rules_tag lib r lang of Some t \<Rightarrow> [t] | None \<Rightarrow> [])
                  else map fst (ld_languages (lr_data r)))
      in concat (map (\<lambda>tag. case map_of (ld_languages (lr_data r)) tag of
                              Some l \<Rightarrow> map (li_lower lib) (select l) | None \<Rightarrow> []) tags))"

definition last_of :: "'a list \<Rightarrow> 'a option" where
  "last_of xs = (if xs = [] then None else Some (last xs))"

definition trim_end_chars :: "(string \<Rightarrow> bool) \<Rightarrow> string \<Rightarrow> string" where
  "trim_end_chars p s = concat (rev (dropWhile p (rev (utf8_chars s))))"

definition trim_chars :: "(string \<Rightarrow> bool) \<Rightarrow> string \<Rightarrow> string" where
  "trim_chars p s = concat (rev (dropWhile p (rev (dropWhile p (utf8_chars s)))))"

definition dangling :: "'r listing_lib \<Rightarrow> 'r listing_rules \<Rightarrow> string \<Rightarrow> string option \<Rightarrow> bool" where
  "dangling lib r s lang =
     (let ends = utf8_chars (ld_sentence_ends (lr_data r))
      in case last_of (split_whitespace (trim_end_chars (\<lambda>c. c = '' '' \<or> c \<in> set ends) s)) of
           None \<Rightarrow> False
         | Some word \<Rightarrow> li_lower lib word \<in> set (rule_words lib r lang ll_trailing_words))"

section \<open>Which sentences ask\<close>

definition utf8 :: "nat \<Rightarrow> string" where
  "utf8 n =
     (if n < 0x80 then [char_of n]
      else if n < 0x800 then [char_of (0xC0 + n div 0x40), char_of (0x80 + n mod 0x40)]
      else if n < 0x10000 then
        [char_of (0xE0 + n div 0x1000), char_of (0x80 + n div 0x40 mod 0x40), char_of (0x80 + n mod 0x40)]
      else
        [char_of (0xF0 + n div 0x40000), char_of (0x80 + n div 0x1000 mod 0x40), char_of (0x80 + n div 0x40 mod 0x40),
         char_of (0x80 + n mod 0x40)])"

definition question_marks :: "string list" where
  "question_marks = map utf8
     [0x3f, 0xbf, 0x37e, 0x55e, 0x61f, 0x1367, 0x1945, 0x2047, 0x2049, 0x2753, 0x2754, 0x2a7b, 0x2a7c, 0x2cfa, 0x2cfb,
      0x2e2e, 0x2e54, 0xa60f, 0xa6f7, 0xfe16, 0xfe56, 0xff1f, 0x11143, 0x1e95f, 0x1fbc4, 0xe003f]"

definition quotes :: "string list" where
  "quotes = [[CHR '',''], [CHR '';''], [CHR '':''], [CHR ''!''], [CHR ''?''], [CHR ''.''], utf8 0x2019, [CHR 0x27],
     [CHR 0x22], [CHR ''(''], [CHR '')'']]"

fun any_match :: "'r listing_lib \<Rightarrow> 'r list \<Rightarrow> string \<Rightarrow> bool res" where
  "any_match lib [] s = Inr False"
| "any_match lib (p # ps) s =
     (case li_is_match lib p s of
        Inl e \<Rightarrow> Inl (Listing e)
      | Inr True \<Rightarrow> Inr True
      | Inr False \<Rightarrow> any_match lib ps s)"

definition asks_question :: "'r listing_lib \<Rightarrow> 'r listing_rules \<Rightarrow> string \<Rightarrow> string option \<Rightarrow> bool res" where
  "asks_question lib r whole lang =
     (if \<not> lr_available r then Inr False
      else
        (let s = trim whole
         in if (case last_of (utf8_chars s) of Some c \<Rightarrow> c \<in> set question_marks | None \<Rightarrow> False) then Inr True
            else
              res_bind (any_match lib (concat (map snd (filter (\<lambda>(tag, ps).
                    lang = None \<or> lang = Some [] \<or> rules_tag lib r lang = Some tag) (lr_patterns r)))) s)
                (\<lambda>found.
                   if found then Inr True
                   else
                     (let words = filter (\<lambda>w. w \<noteq> [])
                            (map (\<lambda>w. li_lower lib (trim_chars (\<lambda>c. c \<in> set quotes) w)) (split_whitespace s))
                      in Inr ((words \<noteq> [] \<and> hd words \<in> set (rule_words lib r lang ll_question_openers))
                           \<or> (\<exists>w \<in> set words. w \<in> set (rule_words lib r lang ll_question_words_anywhere)))))))"

section \<open>How a sentence is written\<close>

text \<open>The written form in place of every match; nothing changes and no further form is tried when looking goes wrong.\<close>

fun put_written :: "string \<Rightarrow> nat \<Rightarrow> string \<Rightarrow> (string + nat \<times> nat) list \<Rightarrow> string option" where
  "put_written written previous s [] = Some (drop previous s)"
| "put_written written previous s (Inl e # ms) = None"
| "put_written written previous s (Inr (a, b) # ms) =
     map_option (\<lambda>rest. take (a - previous) (drop previous s) @ written @ rest) (put_written written b s ms)"

fun write_forms :: "'r listing_lib \<Rightarrow> ('r \<times> string) list \<Rightarrow> string \<Rightarrow> string \<times> bool" where
  "write_forms lib [] s = (s, True)"
| "write_forms lib ((p, written) # forms) s =
     (case put_written written 0 s (li_find lib p s) of
        None \<Rightarrow> (s, False)
      | Some t \<Rightarrow> write_forms lib forms t)"

definition as_sentence :: "'r listing_lib \<Rightarrow> 'r listing_rules \<Rightarrow> string \<Rightarrow> string option \<Rightarrow> string" where
  "as_sentence lib r whole lang =
     (case utf8_chars (trim whole) of
        [] \<Rightarrow> []
      | first # rest \<Rightarrow>
          let s = li_upper lib first @ concat rest
          in if (case last_of (utf8_chars s) of
                   Some c \<Rightarrow> c \<in> set (utf8_chars (ld_sentence_ends (lr_data r))) | None \<Rightarrow> False)
                \<or> dangling lib r s lang then s
             else
               (case rules_tag lib r lang of
                  None \<Rightarrow> s
                | Some tag \<Rightarrow>
                    let l = language_data lib r lang
                    in if ll_question_openers l = [] \<and> ll_question_words_anywhere l = [] \<and> ll_question_patterns l = [] then s
                       else
                         (case write_forms lib (case map_of (lr_written r) tag of Some fs \<Rightarrow> fs | None \<Rightarrow> []) s of
                            (t, False) \<Rightarrow> t
                          | (t, True) \<Rightarrow>
                              (case asks_question lib r t lang of
                                 Inr True \<Rightarrow> t @ ''?''
                               | Inr False \<Rightarrow> t @ ''.''
                               | Inl e \<Rightarrow> t))))"

section \<open>Order and examples\<close>

definition listing_speakable ::
    "'r listing_lib \<Rightarrow> 'r listing_rules \<Rightarrow> string \<Rightarrow> (string, string) btree \<Rightarrow> string option \<Rightarrow> string" where
  "listing_speakable lib r pattern slots lang =
     speakable pattern (fold (\<lambda>(k, v). bt_insert k v) slots (ll_slot_examples (language_data lib r lang)))"

definition listing_key :: "'r listing_lib \<Rightarrow> 'r listing_rules \<Rightarrow> string option \<Rightarrow> string \<Rightarrow> bool \<times> bool \<times> nat \<times> nat" where
  "listing_key lib r lang s =
     (dangling lib r s lang, CHR ''{'' \<in> set s, 8 - min 8 (length (split_whitespace s)), count_chars s)"

definition rank :: "'r listing_lib \<Rightarrow> 'r listing_rules \<Rightarrow> string list \<Rightarrow> string option \<Rightarrow> string list" where
  "rank lib r phrases lang = sort_key (listing_key lib r lang) phrases"

record 'r example_options =
  eo_speakable :: bool
  eo_sentence :: bool
  eo_slots :: "(string, string) btree"
  eo_listing :: "'r listing_rules option"

fun distinct_texts :: "nat \<Rightarrow> string list \<Rightarrow> string list \<Rightarrow> string list" where
  "distinct_texts limit found [] = found"
| "distinct_texts limit found (t # ts) =
     (if t = [] \<or> t \<in> set found then distinct_texts limit found ts
      else if 0 < limit \<and> limit \<le> length (found @ [t]) then found @ [t]
      else distinct_texts limit (found @ [t]) ts)"

definition examples_with_listing ::
    "'r listing_lib \<Rightarrow> 'r listing_rules \<Rightarrow> hub_intent \<Rightarrow> string option \<Rightarrow> nat \<Rightarrow> 'r example_options \<Rightarrow> string list" where
  "examples_with_listing lib bundled i lang limit opts =
     (let lang = or_else (Option.bind lang (\<lambda>s. if s = [] then None else Some s)) (map_option fst (find (\<lambda>p. True) (hi_phrases i)));
          pool = (case lang of Some l \<Rightarrow> phrases_for (li_tables lib) i l | None \<Rightarrow> []);
          r = (case eo_listing opts of Some r \<Rightarrow> r | None \<Rightarrow> bundled)
      in if \<not> eo_speakable opts \<and> \<not> eo_sentence opts then
           (if limit = 0 then pool else take limit (rank lib r pool lang))
         else distinct_texts limit []
           (map (\<lambda>p. let s = listing_speakable lib r p (eo_slots opts) lang
                      in if eo_sentence opts then as_sentence lib r s lang else s) (rank lib r pool lang)))"

definition plain_options :: "'r example_options" where
  "plain_options = \<lparr>eo_speakable = False, eo_sentence = False, eo_slots = [], eo_listing = None\<rparr>"

definition intent_examples :: "'r listing_lib \<Rightarrow> 'r listing_rules \<Rightarrow> hub_intent \<Rightarrow> string option \<Rightarrow> nat \<Rightarrow> string list" where
  "intent_examples lib bundled i lang limit = examples_with_listing lib bundled i lang limit plain_options"

definition examples_with_options ::
    "'r listing_lib \<Rightarrow> 'r listing_rules \<Rightarrow> hub_intent \<Rightarrow> string option \<Rightarrow> nat \<Rightarrow> bool \<Rightarrow> (string, string) btree \<Rightarrow> string list" where
  "examples_with_options lib bundled i lang limit render slots =
     examples_with_listing lib bundled i lang limit (plain_options\<lparr>eo_speakable := render, eo_slots := slots\<rparr>)"

end
