(* ===== verification/Control_Http.thy ===== *)
theory Control_Http
  imports Words Redact Text_Fields Errors
begin

text \<open>
  \<open>src/src/control.rs\<close>, \<open>ControlPlane\<close>: one request of the control plane and its answer. Where a request
  may go, what it carries, and what an answer of the API is turned into. What was sent and slept so far is
  the state; what the API answers next and what the clock says may depend on all of it. The HTTP client, the
  URL and JSON parsers and percent-encoding are parameters.
\<close>

section \<open>The control plane and what it is told\<close>

definition DEFAULT_CONTROL_API_URL :: string where "DEFAULT_CONTROL_API_URL = ''https://api.thalovant.com''"

record control_plane =
  cp_api_url :: string
  cp_access_token :: "string option"
  cp_user_agent :: string
  cp_token_id :: "string option"
  cp_device_intervals :: "(string \<times> duration) list"
  cp_revoked_own :: bool

text \<open>A parsed URL: \<open>wu_origin\<close> is \<open>None\<close> where the origin is opaque, and no origin is equal to that.\<close>

record web_url =
  wu_scheme :: string
  wu_username :: string
  wu_password :: "string option"
  wu_host :: "string option"
  wu_path :: string
  wu_query :: "string option"
  wu_fragment :: "string option"
  wu_pairs :: "(string \<times> string) list"
  wu_origin :: "(string \<times> string \<times> nat) option"
  wu_text :: string

record api_request =
  ar_method :: string
  ar_url :: web_url
  ar_headers :: "(string \<times> string) list"
  ar_body :: "json option"

text \<open>
  An answer of the API: its status, the headers it has as text, and its body or why it could not be read. No
  answer says whether the request could not even be formed.
\<close>

record api_response =
  as_status :: nat
  as_header :: "string \<Rightarrow> string option"
  as_announced :: "nat option"
  as_pieces :: "(bool \<times> string + string) list"

datatype hub_answer = No_Answer bool string | Answered api_response

datatype api_act = Sent api_request | Slept duration

type_synonym api_log = "api_act list"

record api_lib =
  al_url :: "string \<Rightarrow> web_url option"
  al_parse :: "string \<Rightarrow> string + json"
  al_float :: "64 word \<Rightarrow> string"
  al_header :: "string \<Rightarrow> string + unit"
  al_encode :: "string \<Rightarrow> string"
  al_text :: "string \<Rightarrow> string"
  al_lossy :: "string \<Rightarrow> string"
  al_seconds :: "number \<Rightarrow> duration option"
  al_answer :: "api_log \<Rightarrow> hub_answer"
  al_now :: "api_log \<Rightarrow> nat"
  al_uuid :: "api_log \<Rightarrow> string"
  al_secret :: "api_log \<Rightarrow> nat \<Rightarrow> string"
  al_says :: "json \<Rightarrow> string"
  al_fits :: "duration \<Rightarrow> bool"

type_synonym 'a calling = "api_log \<Rightarrow> 'a res \<times> api_log"

definition call_return :: "'a \<Rightarrow> 'a calling" where
  "call_return x = (\<lambda>log. (Inr x, log))"

definition call_fail :: "thalovant_error \<Rightarrow> 'a calling" where
  "call_fail e = (\<lambda>log. (Inl e, log))"

definition call_bind :: "'a calling \<Rightarrow> ('a \<Rightarrow> 'b calling) \<Rightarrow> 'b calling" where
  "call_bind m k = (\<lambda>log. case m log of (Inl e, log) \<Rightarrow> (Inl e, log) | (Inr x, log) \<Rightarrow> k x log)"

text \<open>A call whose failure the caller looks at.\<close>

definition call_try :: "'a calling \<Rightarrow> ('a res \<Rightarrow> 'b calling) \<Rightarrow> 'b calling" where
  "call_try m k = (\<lambda>log. case m log of (r, log) \<Rightarrow> k r log)"

definition call_res :: "'a res \<Rightarrow> 'a calling" where
  "call_res r = (\<lambda>log. (r, log))"

definition call_sleep :: "duration \<Rightarrow> unit calling" where
  "call_sleep d = (\<lambda>log. (Inr (), log @ [Slept d]))"

section \<open>Where a request may go\<close>

definition normalize_control_api_url :: "string \<Rightarrow> string" where
  "normalize_control_api_url raw =
     (let n = trim_end_char CHR ''/'' (trim raw);
          n = (if n = [] then DEFAULT_CONTROL_API_URL else n);
          n = (if starts_with (rev n) (rev ''/v1'') then take (length n - 3) n else n)
      in trim_end_char CHR ''/'' n @ ''/'')"

definition new_control :: "string \<Rightarrow> string \<Rightarrow> string option \<Rightarrow> control_plane" where
  "new_control agent api_url access_token =
     \<lparr>cp_api_url = normalize_control_api_url api_url, cp_access_token = access_token, cp_user_agent = agent,
      cp_token_id = None, cp_device_intervals = [], cp_revoked_own = False\<rparr>"

definition with_access_token :: "string \<Rightarrow> string \<Rightarrow> control_plane" where
  "with_access_token agent token = new_control agent DEFAULT_CONTROL_API_URL (Some token)"

text \<open>The authority of an address, up to the next \<open>/\<close>, \<open>?\<close> or \<open>#\<close>, names a user.\<close>

fun after_scheme :: "string \<Rightarrow> string option" where
  "after_scheme [] = None"
| "after_scheme (c # s) = (if starts_with (c # s) ''://'' then Some (drop 3 (c # s)) else after_scheme s)"

definition url_has_userinfo :: "string \<Rightarrow> bool" where
  "url_has_userinfo raw =
     (case after_scheme raw of
        None \<Rightarrow> False
      | Some rest \<Rightarrow> CHR ''@'' \<in> set (takeWhile (\<lambda>c. c \<notin> set ''/?#'') rest))"

definition loopback_host :: "web_url \<Rightarrow> bool" where
  "loopback_host u \<longleftrightarrow> wu_host u \<in> {Some ''localhost'', Some ''127.0.0.1'', Some ''[::1]''}"

definition validate_control_request_url :: "api_lib \<Rightarrow> string \<Rightarrow> bool \<Rightarrow> web_url res" where
  "validate_control_request_url lib raw sensitive =
     (case al_url lib raw of
        None \<Rightarrow> Inl (Api ''invalid control-plane API URL'')
      | Some u \<Rightarrow>
          if url_has_userinfo raw \<or> wu_username u \<noteq> [] \<or> wu_password u \<noteq> None
          then Inl (Api ''control-plane API URLs cannot contain credentials'')
          else if wu_scheme u \<notin> {''https'', ''http''} \<or> (sensitive \<and> wu_scheme u \<noteq> ''https'' \<and> \<not> loopback_host u)
          then Inl (Api ''authenticated control-plane requests and request bodies require HTTPS; HTTP is allowed only on localhost, 127.0.0.1 or [::1] for development'')
          else Inr u)"

section \<open>Sending\<close>

definition header_ok :: "api_lib \<Rightarrow> string \<Rightarrow> unit res" where
  "header_ok lib value = (case al_header lib value of Inl e \<Rightarrow> Inl (Api e) | Inr u \<Rightarrow> Inr u)"

definition single_header :: "api_lib \<Rightarrow> string \<Rightarrow> string \<Rightarrow> (string \<times> string) list res" where
  "single_header lib name value = res_bind (header_ok lib value) (\<lambda>u. Inr [(name, value)])"

definition unreachable_error :: "bool \<Rightarrow> string \<Rightarrow> thalovant_error" where
  "unreachable_error builder message = (if builder then Api message else api_unreachable message)"

definition status_success :: "nat \<Rightarrow> bool" where "status_success n \<longleftrightarrow> 200 \<le> n \<and> n < 300"
definition status_redirection :: "nat \<Rightarrow> bool" where "status_redirection n \<longleftrightarrow> 300 \<le> n \<and> n < 400"

fun put_headers :: "(string \<times> string) list \<Rightarrow> (string \<times> string) list \<Rightarrow> (string \<times> string) list" where
  "put_headers [] hs = hs"
| "put_headers ((n, v) # rest) hs = put_headers rest (bt_insert n v hs)"

definition plain_headers ::
    "control_plane \<Rightarrow> json option \<Rightarrow> (string \<times> string) list \<Rightarrow> (string \<times> string) list" where
  "plain_headers c body headers =
     put_headers headers
       ((if body \<noteq> None then bt_insert ''content-type'' ''application/json'' else id)
         (bt_insert ''user-agent'' (cp_user_agent c) (bt_insert ''accept'' ''application/json'' [])))"

definition bearer_headers ::
    "api_lib \<Rightarrow> control_plane \<Rightarrow> bool \<Rightarrow> (string \<times> string) list \<Rightarrow> (string \<times> string) list res" where
  "bearer_headers lib c auth headers =
     (if auth then
        (case cp_access_token c of
           None \<Rightarrow> Inl (Api ''missing access token'')
         | Some token \<Rightarrow>
             res_bind (header_ok lib (''Bearer '' @ token))
               (\<lambda>u. Inr (bt_insert ''authorization'' (''Bearer '' @ token) headers)))
      else Inr headers)"

definition form_request ::
    "api_lib \<Rightarrow> control_plane \<Rightarrow> string \<Rightarrow> string \<Rightarrow> json option \<Rightarrow> (string \<times> string) list \<Rightarrow> bool \<Rightarrow> api_request res" where
  "form_request lib c verb path body headers auth =
     res_bind (validate_control_request_url lib (cp_api_url c @ dropWhile (\<lambda>d. d = CHR ''/'') path) (auth \<or> body \<noteq> None))
       (\<lambda>u. res_bind (header_ok lib (cp_user_agent c))
       (\<lambda>_. res_bind (bearer_headers lib c auth (plain_headers c body headers))
       (\<lambda>hs. Inr \<lparr>ar_method = verb, ar_url = u, ar_headers = hs, ar_body = body\<rparr>)))"

definition REDIRECT_REFUSED :: string where
  "REDIRECT_REFUSED = ''control-plane redirects are refused; configure the final API URL''"

definition send_control ::
    "api_lib \<Rightarrow> control_plane \<Rightarrow> string \<Rightarrow> string \<Rightarrow> json option \<Rightarrow> (string \<times> string) list \<Rightarrow> bool \<Rightarrow> api_response calling" where
  "send_control lib c verb path body headers auth log =
     (case form_request lib c verb path body headers auth of
        Inl e \<Rightarrow> (Inl e, log)
      | Inr rq \<Rightarrow>
          (case al_answer lib (log @ [Sent rq]) of
             No_Answer builder m \<Rightarrow> Inl (unreachable_error builder m)
           | Answered r \<Rightarrow>
               if status_redirection (as_status r) then Inl (ApiResponse (as_status r) REDIRECT_REFUSED None) else Inr r,
           log @ [Sent rq]))"

section \<open>Answers\<close>

definition one_bounded_line :: "string \<Rightarrow> string" where
  "one_bounded_line s =
     (let line = plain_words s
      in if 200 < count_chars line then take_chars 200 line @ ''...'' else line)"

definition error_display_line :: "api_lib \<Rightarrow> json option \<Rightarrow> string" where
  "error_display_line lib parsed =
     one_bounded_line
       (case parsed of
          Some (JObject m) \<Rightarrow> value_text (al_float lib) (JObject (redact_map (omit_echoed_inputs m)))
        | _ \<Rightarrow> ''(server error response omitted)'')"

definition parsed_json :: "api_lib \<Rightarrow> string \<Rightarrow> json option" where
  "parsed_json lib s = (case al_parse lib s of Inr v \<Rightarrow> Some v | Inl e \<Rightarrow> None)"

definition api_response_error :: "api_lib \<Rightarrow> nat \<Rightarrow> string \<Rightarrow> thalovant_error" where
  "api_response_error lib status body =
     (let parsed = parsed_json lib body
      in ApiResponse status (error_display_line lib parsed) (Option.bind parsed as_object))"

definition answer_value :: "api_lib \<Rightarrow> nat \<Rightarrow> string \<Rightarrow> json res" where
  "answer_value lib status body =
     (if \<not> status_success status then Inl (api_response_error lib status body)
      else if trim body = [] then Inr JNull
      else case al_parse lib body of
             Inr v \<Rightarrow> Inr v
           | Inl e \<Rightarrow> Inl (ApiResponse status ''invalid JSON response'' None))"

definition error_text :: "api_lib \<Rightarrow> string \<Rightarrow> string" where
  "error_text lib bs =
     (let s = al_lossy lib bs
      in case strip_prefix [CHR 0xEF, CHR 0xBB, CHR 0xBF] s of Some r \<Rightarrow> r | None \<Rightarrow> s)"

fun whole_body :: "(bool \<times> string + string) list \<Rightarrow> (bool \<times> string) + string" where
  "whole_body [] = Inr []"
| "whole_body (Inl e # ps) = Inl e"
| "whole_body (Inr b # ps) = (case whole_body ps of Inl e \<Rightarrow> Inl e | Inr s \<Rightarrow> Inr (b @ s))"

text \<open>\<open>Retry-After\<close> in whole seconds, else \<open>RateLimit-Reset\<close>.\<close>

definition header_retry_after :: "(string \<Rightarrow> string option) \<Rightarrow> duration option" where
  "header_retry_after header =
     find_map (\<lambda>name. Option.bind (header name) (\<lambda>v.
         let t = trim v
         in if t \<noteq> [] \<and> list_all dec_digit t then map_option from_secs (parse_unsigned (2 ^ 64 - 1) t) else None))
       [''retry-after'', ''ratelimit-reset'']"

definition send_request_full ::
    "api_lib \<Rightarrow> control_plane \<Rightarrow> string \<Rightarrow> string \<Rightarrow> json option \<Rightarrow> (string \<times> string) list \<Rightarrow> bool
     \<Rightarrow> (nat \<times> string \<times> duration option) calling" where
  "send_request_full lib c verb path body headers auth =
     call_bind (send_control lib c verb path body headers auth) (\<lambda>r.
       let wait = header_retry_after (as_header r)
       in if status_success (as_status r)
          then (case whole_body (as_pieces r) of
                  Inl (builder, m) \<Rightarrow> call_fail (unreachable_error builder m)
                | Inr bs \<Rightarrow> call_return (as_status r, al_text lib bs, wait))
          else call_return (as_status r,
                 error_text lib (case whole_body (as_pieces r) of Inl e \<Rightarrow> [] | Inr bs \<Rightarrow> bs), wait))"

definition send_request ::
    "api_lib \<Rightarrow> control_plane \<Rightarrow> string \<Rightarrow> string \<Rightarrow> json option \<Rightarrow> (string \<times> string) list \<Rightarrow> bool
     \<Rightarrow> (nat \<times> string) calling" where
  "send_request lib c verb path body headers auth =
     call_bind (send_request_full lib c verb path body headers auth) (\<lambda>(status, s, wait). call_return (status, s))"

definition api_call ::
    "api_lib \<Rightarrow> control_plane \<Rightarrow> string \<Rightarrow> string \<Rightarrow> json option \<Rightarrow> (string \<times> string) list \<Rightarrow> bool \<Rightarrow> json calling" where
  "api_call lib c verb path body headers auth =
     call_bind (send_request lib c verb path body headers auth)
       (\<lambda>(status, s). call_res (answer_value lib status s))"

text \<open>How long a refusal asks the caller to wait: in its problem, at the top or in a \<open>detail\<close> object.\<close>

definition retry_after :: "api_lib \<Rightarrow> api_problem \<Rightarrow> duration option" where
  "retry_after lib p =
     find_map (\<lambda>m. Option.bind (Option.bind m (\<lambda>m. map_of m ''retry_after_seconds''))
                     (\<lambda>v. case v of JNumber n \<Rightarrow> al_seconds lib n | _ \<Rightarrow> None))
       [Some p, get_object p ''detail'']"

definition get_with_retry_after ::
    "api_lib \<Rightarrow> control_plane \<Rightarrow> string \<Rightarrow> (json res \<times> duration option) calling" where
  "get_with_retry_after lib c path =
     call_try (send_request_full lib c ''GET'' path None [] True) (\<lambda>sent.
       case sent of
         Inl e \<Rightarrow> call_return (Inl e, None)
       | Inr (status, s, wait) \<Rightarrow>
           (let answer = answer_value lib status s
            in call_return (answer,
                 case answer of
                   Inl e \<Rightarrow> or_else (Option.bind (api_problem_of e) (retry_after lib)) wait
                 | Inr v \<Rightarrow> None)))"

text \<open>A body that may not be longer than \<open>most\<close>: by what is announced of it, else by what is read of it.\<close>

fun read_pieces :: "nat \<Rightarrow> string \<Rightarrow> (bool \<times> string + string) list \<Rightarrow> string option res" where
  "read_pieces most sofar [] = Inr (Some sofar)"
| "read_pieces most sofar (Inl e # ps) = Inl (unreachable_error (fst e) (snd e))"
| "read_pieces most sofar (Inr b # ps) =
     (if most < length sofar + length b then Inr None else read_pieces most (sofar @ b) ps)"

definition read_at_most :: "api_response \<Rightarrow> nat \<Rightarrow> string option res" where
  "read_at_most r most =
     (if most < (case as_announced r of Some n \<Rightarrow> n | None \<Rightarrow> 0) then Inr None else read_pieces most [] (as_pieces r))"

definition request_bytes ::
    "api_lib \<Rightarrow> control_plane \<Rightarrow> string \<Rightarrow> string \<Rightarrow> nat \<Rightarrow> (string \<times> string option) calling" where
  "request_bytes lib c path wanted most =
     call_bind (call_res (single_header lib ''accept'' wanted)) (\<lambda>headers.
     call_bind (send_control lib c ''GET'' path None headers True) (\<lambda>r.
       if \<not> status_success (as_status r) then
         call_fail (api_response_error lib (as_status r)
           (error_text lib (case read_at_most r most of Inr (Some bs) \<Rightarrow> bs | _ \<Rightarrow> [])))
       else
         call_bind (call_res (read_at_most r most)) (\<lambda>content.
           case content of
             None \<Rightarrow> call_fail (Api (''the answer is larger than '' @ show_nat most @ '' bytes''))
           | Some bs \<Rightarrow>
               call_return (bs,
                 case as_header r ''content-type'' of
                   None \<Rightarrow> None
                 | Some t \<Rightarrow> if trim t = [] then None else Some (trim t)))))"

section \<open>Fields and parameters\<close>

definition json_string :: "api_lib \<Rightarrow> json \<Rightarrow> string option" where
  "json_string lib v = text_of (al_float lib) v"

definition query_param :: "api_lib \<Rightarrow> string \<Rightarrow> string option \<Rightarrow> string list" where
  "query_param lib key v =
     (case map_option trim v of
        None \<Rightarrow> []
      | Some t \<Rightarrow> if t = [] then [] else [key @ ''='' @ al_encode lib t])"

definition with_params :: "string \<Rightarrow> string list \<Rightarrow> string" where
  "with_params path params = (if params = [] then path else path @ ''?'' @ Words.join ''&'' params)"

end
