(* ===== verification/Native_Auth.thy ===== *)
theory Native_Auth
  imports Control_Http
begin

text \<open>
  \<open>src/src/native_auth.rs\<close>: starting an authorization-code sign-in, and the code out of the redirect it comes
  back with. The URL parser, the random source, SHA-256, base64 and form encoding are parameters.
\<close>

definition DEFAULT_DASHBOARD_URL :: string where "DEFAULT_DASHBOARD_URL = ''https://dash.thalovant.com''"

definition DEFAULT_NATIVE_SCOPES :: "string list" where
  "DEFAULT_NATIVE_SCOPES = [''hubs:read'', ''clients:read'', ''clients:write'']"

record native_options =
  no_client_id :: string
  no_redirect_uri :: string
  no_scopes :: "string list option"
  no_dashboard_url :: "string option"

record native_sign_in =
  ns_authorization_url :: string
  ns_state :: string
  ns_verifier :: string
  ns_redirect_uri :: string

text \<open>
  \<open>nl_random\<close> gives so many random bytes as base64url, \<open>nl_challenge\<close> is base64url of SHA-256, and
  \<open>nl_query\<close> is a URL with pairs appended to its query.
\<close>

record native_lib =
  nl_url :: "string \<Rightarrow> web_url option"
  nl_verifier :: string
  nl_state :: string
  nl_challenge :: "string \<Rightarrow> string"
  nl_query :: "web_url \<Rightarrow> (string \<times> string) list \<Rightarrow> web_url"

section \<open>Addresses\<close>

definition local_hosts :: "string option list" where
  "local_hosts = [Some ''localhost'', Some ''127.0.0.1'', Some ''::1'', Some ''[::1]'']"

definition lower :: "string \<Rightarrow> string" where "lower s = map ascii_lower s"

definition is_thalovant_url :: "(string \<Rightarrow> web_url option) \<Rightarrow> string \<Rightarrow> bool" where
  "is_thalovant_url parse raw =
     (case parse raw of
        None \<Rightarrow> False
      | Some u \<Rightarrow>
          wu_scheme u = ''https'' \<and> wu_username u = [] \<and> wu_password u = None
          \<and> (case wu_host u of
               None \<Rightarrow> False
             | Some h \<Rightarrow> lower h = ''thalovant.com'' \<or> starts_with (rev (lower h)) (rev ''.thalovant.com'')))"

definition require_safe_dashboard :: "(string \<Rightarrow> web_url option) \<Rightarrow> string option \<Rightarrow> unit res" where
  "require_safe_dashboard parse url =
     (case map_option trim url of
        None \<Rightarrow> Inr ()
      | Some raw \<Rightarrow>
          if raw = [] then Inr ()
          else case parse raw of
                 None \<Rightarrow> Inl (Api (''dashboard_url is not a URL: '' @ raw))
               | Some u \<Rightarrow>
                   if wu_username u \<noteq> [] \<or> wu_password u \<noteq> None
                   then Inl (Api ''dashboard_url must not carry credentials'')
                   else if wu_query u \<noteq> None \<or> wu_fragment u \<noteq> None
                   then Inl (Api ''dashboard_url must not carry a query or a fragment'')
                   else if wu_scheme u = ''https'' then Inr ()
                   else if wu_scheme u = ''http'' \<and> wu_host u \<in> set local_hosts then Inr ()
                   else Inl (Api (''dashboard_url must be https (or a loopback address while developing), not '' @ raw)))"

definition require_secure_token_exchange :: "(string \<Rightarrow> web_url option) \<Rightarrow> string \<Rightarrow> unit res" where
  "require_secure_token_exchange parse api_url =
     (case parse api_url of
        None \<Rightarrow> Inl (Api (''API URL could not be read: '' @ api_url))
      | Some u \<Rightarrow>
          if wu_scheme u = ''https'' \<or> wu_host u \<in> set local_hosts then Inr ()
          else Inl (Api (''refusing to send an authorization code and PKCE verifier in cleartext to ''
            @ (case wu_host u of Some h \<Rightarrow> h | None \<Rightarrow> api_url)
            @ ''; use https, or a loopback address while developing'')))"

section \<open>Starting a sign-in\<close>

definition begin_native_sign_in :: "native_lib \<Rightarrow> native_options \<Rightarrow> native_sign_in res" where
  "begin_native_sign_in lib opts =
     (let client_id = trim (no_client_id opts); redirect_uri = trim (no_redirect_uri opts)
      in if client_id = [] then Inl (Api ''client_id is required to start a sign-in'')
         else if redirect_uri = [] then Inl (Api ''redirect_uri is required to start a sign-in'')
         else res_bind (require_safe_dashboard (nl_url lib) (no_dashboard_url opts)) (\<lambda>u.
           let scopes = (case no_scopes opts of Some s \<Rightarrow> s | None \<Rightarrow> DEFAULT_NATIVE_SCOPES);
               dashboard = trim_end_char CHR ''/''
                 (case no_dashboard_url opts of Some d \<Rightarrow> d | None \<Rightarrow> DEFAULT_DASHBOARD_URL)
           in case nl_url lib (dashboard @ ''/authorize'') of
                None \<Rightarrow> Inl (Api ''could not build the sign-in address'')
              | Some u \<Rightarrow>
                  Inr \<lparr>ns_authorization_url = wu_text (nl_query lib u
                         [(''client_id'', client_id), (''redirect_uri'', redirect_uri), (''response_type'', ''code''),
                          (''code_challenge'', nl_challenge lib (nl_verifier lib)),
                          (''code_challenge_method'', ''S256''), (''scope'', Words.join '' '' scopes),
                          (''state'', nl_state lib)]),
                       ns_state = nl_state lib, ns_verifier = nl_verifier lib, ns_redirect_uri = redirect_uri\<rparr>))"

section \<open>The redirect\<close>

definition same_target :: "(string \<Rightarrow> web_url option) \<Rightarrow> web_url \<Rightarrow> string \<Rightarrow> bool" where
  "same_target parse got expected =
     (case parse expected of
        None \<Rightarrow> False
      | Some want \<Rightarrow>
          eq_ignore_ascii_case (wu_scheme got) (wu_scheme want)
          \<and> map_option lower (wu_host got) = map_option lower (wu_host want)
          \<and> trim_end_char CHR ''/'' (wu_path got) = trim_end_char CHR ''/'' (wu_path want))"

text \<open>The pairs are read in order: a later one of a name replaces an earlier one.\<close>

definition redirect_pair ::
    "string \<times> string \<Rightarrow> string option \<times> string option \<times> bool \<Rightarrow> string option \<times> string option \<times> bool" where
  "redirect_pair kv acc =
     (case (kv, acc) of ((k, v), (state, code, refused)) \<Rightarrow>
        if k = ''state'' then (Some v, code, refused)
        else if k = ''code'' then (state, Some v, refused)
        else if k = ''error'' then (state, code, True)
        else (state, code, refused))"

primrec read_redirect ::
    "(string \<times> string) list \<Rightarrow> string option \<times> string option \<times> bool \<Rightarrow> string option \<times> string option \<times> bool" where
  "read_redirect [] acc = acc"
| "read_redirect (p # ps) acc = read_redirect ps (redirect_pair p acc)"

definition code_from :: "(string \<Rightarrow> web_url option) \<Rightarrow> native_sign_in \<Rightarrow> string \<Rightarrow> string option" where
  "code_from parse attempt redirect =
     (case parse redirect of
        None \<Rightarrow> None
      | Some u \<Rightarrow>
          if \<not> same_target parse u (ns_redirect_uri attempt) then None
          else case read_redirect (wu_pairs u) (None, None, False) of
                 (state, code, refused) \<Rightarrow>
                   if refused \<or> state \<noteq> Some (ns_state attempt) then None
                   else case code of None \<Rightarrow> None | Some c \<Rightarrow> if c = [] then None else Some c)"

section \<open>A URL in a log\<close>

definition cut_at_char :: "char \<Rightarrow> string \<Rightarrow> string \<times> string" where
  "cut_at_char d s =
     (if d \<in> set s then (takeWhile (\<lambda>c. c \<noteq> d) s, d # ''<redacted>'') else (s, []))"

text \<open>The authority marker of an address, \<open>://\<close> or a leading \<open>//\<close>, and what stands before and after it.\<close>

fun authority_split :: "string \<Rightarrow> (string \<times> string) option" where
  "authority_split [] = None"
| "authority_split (c # s) =
     (if starts_with (c # s) ''://'' then Some (''://'', drop 3 (c # s))
      else map_option (\<lambda>(p, r). (c # p, r)) (authority_split s))"

definition after_last :: "char \<Rightarrow> string \<Rightarrow> string" where
  "after_last d s = rev (takeWhile (\<lambda>c. c \<noteq> d) (rev s))"

definition redacted_url :: "string \<Rightarrow> string" where
  "redacted_url raw =
     (let (before_fragment, fragment) = cut_at_char CHR ''#'' raw;
          (endpoint, query) = cut_at_char CHR ''?'' before_fragment;
          shown = (case or_else (authority_split endpoint) (map_option (Pair ''//'') (strip_prefix ''//'' endpoint)) of
                     None \<Rightarrow> endpoint
                   | Some (mark, rest) \<Rightarrow>
                       let authority = takeWhile (\<lambda>c. c \<noteq> CHR ''/'') rest;
                           path = dropWhile (\<lambda>c. c \<noteq> CHR ''/'') rest
                       in if CHR ''@'' \<in> set authority
                          then mark @ ''<redacted>@'' @ after_last CHR ''@'' authority @ path
                          else mark @ authority @ path)
      in shown @ query @ fragment)"

section \<open>What is accepted\<close>

lemma read_redirect_spec:
  "read_redirect ps (state, code, refused) =
     (or_else (map_of (rev ps) ''state'') state, or_else (map_of (rev ps) ''code'') code,
      refused \<or> ''error'' \<in> fst ` set ps)"
proof (induction ps arbitrary: state code refused)
  case (Cons p ps)
  have "or_else (map_of (rev (p # ps)) k) x = or_else (map_of (rev ps) k) (if fst p = k then Some (snd p) else x)" for k x
    by (cases p) (simp add: map_add_def or_else_def split: option.split)
  then show ?case
    using Cons by (cases p) (simp add: redirect_pair_def image_iff)
qed simp

text \<open>
  A code is taken from a redirect exactly when it arrived at the address of the attempt (its scheme, its
  host and its path), its last \<open>state\<close> is that of the attempt, its last \<open>code\<close> is not empty, and it names no
  \<open>error\<close> anywhere.
\<close>

theorem code_only_for_this_attempt:
  "code_from parse attempt redirect = Some code \<longleftrightarrow>
     (\<exists>u. parse redirect = Some u \<and> same_target parse u (ns_redirect_uri attempt)
       \<and> map_of (rev (wu_pairs u)) ''state'' = Some (ns_state attempt)
       \<and> map_of (rev (wu_pairs u)) ''code'' = Some code \<and> code \<noteq> []
       \<and> ''error'' \<notin> fst ` set (wu_pairs u))"
  by (cases "parse redirect") (auto simp: code_from_def read_redirect_spec split: option.splits)

text \<open>
  A blank dashboard is accepted as if none was given, and then used: no sign-in starts, where the check of
  the address says that the default is used.
\<close>

lemma blank_dashboard_fails:
  assumes "no_dashboard_url opts = Some ''''" and "nl_url lib ''/authorize'' = None"
    and "trim (no_client_id opts) \<noteq> []" and "trim (no_redirect_uri opts) \<noteq> []"
  shows "require_safe_dashboard (nl_url lib) (no_dashboard_url opts) = Inr ()"
    and "begin_native_sign_in lib opts = Inl (Api ''could not build the sign-in address'')"
  using assms by (simp_all add: begin_native_sign_in_def require_safe_dashboard_def trim_end_char_def Let_def)

end
