(* ===== verification/Control_Login.thy ===== *)
theory Control_Login
  imports Native_Auth
begin

text \<open>
  \<open>src/src/control.rs\<close>, signing in: with a password, with the code of a browser redirect, with a device code
  polled once or until it is decided; and revoking the token signed in with.
\<close>

definition DEVICE_SLOW_DOWN :: duration where "DEVICE_SLOW_DOWN = from_secs 5"
definition DEFAULT_DEVICE_POLL_INTERVAL :: duration where "DEFAULT_DEVICE_POLL_INTERVAL = from_secs 5"

record login_options =
  lo_scope :: "string option"
  lo_otp_code :: "string option"
  lo_recovery_code :: "string option"

record device_authorization =
  da_device_code :: string
  da_user_code :: string
  da_verification_uri :: string
  da_verification_uri_complete :: "string option"
  da_expires_in :: "nat option"
  da_interval :: "nat option"
  da_raw :: jmap

record api_token =
  at_access_token :: string
  at_token_type :: string
  at_scopes :: "string list"
  at_expires_at :: "string option"
  at_token_id :: "string option"

record device_login_request =
  dr_scopes :: "string list"
  dr_client_name :: "string option"
  dr_expires_at :: "string option"
  dr_client_id :: "string option"
  dr_client_verified :: bool
  dr_device_name :: "string option"

section \<open>Tokens\<close>

definition NO_ACCESS_TOKEN :: string where
  "NO_ACCESS_TOKEN = ''token response did not include a usable access_token''"

definition value_get :: "json \<Rightarrow> string \<Rightarrow> json option" where
  "value_get v k = Option.bind (as_object v) (\<lambda>m. map_of m k)"

definition nonempty :: "string option \<Rightarrow> string option" where
  "nonempty s = (case s of Some t \<Rightarrow> if t \<noteq> [] then Some t else None | None \<Rightarrow> None)"

definition value_text_field :: "json \<Rightarrow> string \<Rightarrow> string option" where
  "value_text_field v k = nonempty (Option.bind (value_get v k) as_str)"

definition access_token_value :: "json \<Rightarrow> string option" where
  "access_token_value v = nonempty (map_option trim (Option.bind (value_get v ''access_token'') as_str))"

definition token_id_value :: "json \<Rightarrow> string option" where
  "token_id_value v = value_text_field v ''token_id''"

definition accept_token :: "string \<Rightarrow> string option \<Rightarrow> control_plane \<Rightarrow> control_plane" where
  "accept_token token token_id c =
     c\<lparr>cp_access_token := Some token, cp_token_id := token_id, cp_revoked_own := False\<rparr>"

definition store_token :: "json \<Rightarrow> control_plane \<Rightarrow> json res \<times> control_plane" where
  "store_token token c =
     (case access_token_value token of
        None \<Rightarrow> (Inl (Api NO_ACCESS_TOKEN), c)
      | Some t \<Rightarrow> (Inr token, accept_token t (token_id_value token) c))"

definition scope_list :: "json option \<Rightarrow> string list" where
  "scope_list v = (case Option.bind v as_array of Some vs \<Rightarrow> List.map_filter as_str vs | None \<Rightarrow> [])"

definition api_token_from_value :: "json \<Rightarrow> api_token res" where
  "api_token_from_value v =
     res_bind (ok_or (access_token_value v) (Api NO_ACCESS_TOKEN)) (\<lambda>t. Inr
       \<lparr>at_access_token = t,
        at_token_type = (case value_text_field v ''token_type'' of Some k \<Rightarrow> k | None \<Rightarrow> ''bearer''),
        at_scopes = scope_list (value_get v ''scopes''), at_expires_at = value_text_field v ''expires_at'',
        at_token_id = value_text_field v ''token_id''\<rparr>)"

section \<open>Sign-in with a password, or with a code\<close>

text \<open>What a call that changes the control plane gives: its result, the control plane and the log.\<close>

type_synonym 'a signing = "control_plane \<Rightarrow> api_log \<Rightarrow> 'a res \<times> control_plane \<times> api_log"

definition sign_with :: "json calling \<Rightarrow> json signing" where
  "sign_with call c log =
     (case call log of
        (Inl e, log) \<Rightarrow> (Inl e, c, log)
      | (Inr token, log) \<Rightarrow> (case store_token token c of (r, c) \<Rightarrow> (r, c, log)))"

definition put_given :: "string \<Rightarrow> string option \<Rightarrow> jmap \<Rightarrow> jmap" where
  "put_given k v m =
     (case v of Some s \<Rightarrow> if trim s \<noteq> [] then bt_insert k (JString s) m else m | None \<Rightarrow> m)"

definition login_body :: "string \<Rightarrow> string \<Rightarrow> login_options \<Rightarrow> jmap" where
  "login_body email password opts =
     put_given ''recovery_code'' (lo_recovery_code opts)
       (put_given ''otp_code'' (lo_otp_code opts)
         (put_given ''scope'' (lo_scope opts)
           (bt_insert ''password'' (JString password) (bt_insert ''email'' (JString email) []))))"

definition login_with_options :: "api_lib \<Rightarrow> string \<Rightarrow> string \<Rightarrow> login_options \<Rightarrow> json signing" where
  "login_with_options lib email password opts c =
     sign_with (api_call lib c ''POST'' ''/v1/auth/token'' (Some (JObject (login_body email password opts))) [] False) c"

definition login :: "api_lib \<Rightarrow> string \<Rightarrow> string \<Rightarrow> string option \<Rightarrow> json signing" where
  "login lib email password scope =
     login_with_options lib email password \<lparr>lo_scope = scope, lo_otp_code = None, lo_recovery_code = None\<rparr>"

definition native_body :: "string \<Rightarrow> string \<Rightarrow> string \<Rightarrow> string \<Rightarrow> jmap" where
  "native_body code verifier client_id redirect_uri =
     bt_insert ''redirect_uri'' (JString redirect_uri)
       (bt_insert ''client_id'' (JString client_id)
         (bt_insert ''code_verifier'' (JString verifier) (bt_insert ''code'' (JString code) [])))"

definition complete_native_sign_in ::
    "api_lib \<Rightarrow> string \<Rightarrow> string \<Rightarrow> string \<Rightarrow> string \<Rightarrow> json signing" where
  "complete_native_sign_in lib code verifier client_id redirect_uri c log =
     (case require_secure_token_exchange (al_url lib) (cp_api_url c) of
        Inl e \<Rightarrow> (Inl e, c, log)
      | Inr u \<Rightarrow>
          sign_with (api_call lib c ''POST'' ''/v1/auth/native/token''
            (Some (JObject (native_body code verifier client_id redirect_uri))) [] False) c log)"

section \<open>Starting a device sign-in\<close>

definition required_device_field :: "api_lib \<Rightarrow> jmap \<Rightarrow> string \<Rightarrow> string res" where
  "required_device_field lib m key =
     ok_or (Option.bind (map_of m key) (json_string lib))
       (Api (''device authorization response did not include '' @ key))"

definition authorization_from_value :: "api_lib \<Rightarrow> json \<Rightarrow> device_authorization res" where
  "authorization_from_value lib v =
     res_bind (ok_or (as_object v) (Api ''device authorization response was not a JSON object'')) (\<lambda>m.
     res_bind (required_device_field lib m ''device_code'') (\<lambda>device_code.
     res_bind (required_device_field lib m ''user_code'') (\<lambda>user_code.
     res_bind (required_device_field lib m ''verification_uri'') (\<lambda>uri. Inr
       \<lparr>da_device_code = device_code, da_user_code = user_code, da_verification_uri = uri,
        da_verification_uri_complete = Option.bind (map_of m ''verification_uri_complete'') (json_string lib),
        da_expires_in = Option.bind (map_of m ''expires_in'') as_u64,
        da_interval = Option.bind (map_of m ''interval'') as_u64, da_raw = m\<rparr>))))"

definition poll_interval :: "device_authorization \<Rightarrow> duration" where
  "poll_interval a = (case da_interval a of Some n \<Rightarrow> from_secs n | None \<Rightarrow> DEFAULT_DEVICE_POLL_INTERVAL)"

text \<open>An address with a control character or white space in it is opened in no browser.\<close>

definition control_at :: "string \<Rightarrow> bool" where
  "control_at s =
     (case s of
        [] \<Rightarrow> False
      | c # r \<Rightarrow> (of_char c :: nat) < 32 \<or> (of_char c :: nat) = 127
          \<or> c = CHR 0xC2 \<and> (case r of d # _ \<Rightarrow> 128 \<le> (of_char d :: nat) \<and> (of_char d :: nat) < 160 | [] \<Rightarrow> False))"

fun no_blank :: "string \<Rightarrow> bool" where
  "no_blank [] = True"
| "no_blank (c # s) = (\<not> control_at (c # s) \<and> space_at (c # s) = None \<and> no_blank s)"

definition browser_command :: "api_lib \<Rightarrow> string \<Rightarrow> string \<Rightarrow> (string \<times> string list) option" where
  "browser_command lib raw os =
     (if \<not> no_blank raw \<or> url_has_userinfo raw then None
      else case al_url lib raw of
             None \<Rightarrow> None
           | Some u \<Rightarrow>
               if wu_scheme u \<notin> {''https'', ''http''} \<or> wu_host u = None \<or> wu_username u \<noteq> [] \<or> wu_password u \<noteq> None
               then None
               else Some (if os = ''windows'' then (''rundll32.exe'', [''url.dll,FileProtocolHandler'', wu_text u])
                          else if os = ''macos'' then (''open'', [wu_text u])
                          else (''xdg-open'', [wu_text u])))"

definition device_body :: "string list \<Rightarrow> string option \<Rightarrow> string option \<Rightarrow> jmap" where
  "device_body scopes client_name client_id =
     (case client_id of Some i \<Rightarrow> bt_insert ''client_id'' (JString i) | None \<Rightarrow> id)
       (put_given ''client_name'' client_name
         (if scopes \<noteq> [] then bt_insert ''scopes'' (JArray (map JString scopes)) [] else []))"

definition begin_device_login_as ::
    "api_lib \<Rightarrow> string list \<Rightarrow> string option \<Rightarrow> string option \<Rightarrow> control_plane \<Rightarrow> device_authorization calling" where
  "begin_device_login_as lib scopes client_name client_id c =
     call_bind (api_call lib c ''POST'' ''/v1/auth/device/authorize''
         (Some (JObject (device_body scopes client_name client_id))) [] False)
       (\<lambda>v. call_bind (call_res (authorization_from_value lib v))
       (\<lambda>a. if browser_command lib (da_verification_uri a) ''linux'' = None
              \<or> (case da_verification_uri_complete a of None \<Rightarrow> False | Some uri \<Rightarrow> browser_command lib uri ''linux'' = None)
            then call_fail (Api ''device authorization requires HTTP(S) verification URLs without embedded credentials'')
            else call_return a))"

definition begin_device_login ::
    "api_lib \<Rightarrow> string list \<Rightarrow> string option \<Rightarrow> control_plane \<Rightarrow> device_authorization calling" where
  "begin_device_login lib scopes client_name = begin_device_login_as lib scopes client_name None"

definition login_request_from_map :: "jmap \<Rightarrow> device_login_request" where
  "login_request_from_map m =
     (let said = (\<lambda>k. nonempty (get_str m k))
      in \<lparr>dr_scopes = scope_list (map_of m ''scopes''), dr_client_name = said ''client_name'',
          dr_expires_at = said ''expires_at'', dr_client_id = said ''client_id'',
          dr_client_verified = (map_of m ''client_verified'' = Some (JBool True) \<and> said ''client_id'' \<noteq> None),
          dr_device_name = said ''device_name''\<rparr>)"

definition describe_device_login :: "api_lib \<Rightarrow> string \<Rightarrow> control_plane \<Rightarrow> device_login_request calling" where
  "describe_device_login lib user_code c =
     call_bind (api_call lib c ''GET'' (''/v1/auth/device/codes/'' @ al_encode lib user_code) None [] True)
       (\<lambda>v. case as_object v of
              None \<Rightarrow> call_fail (Api ''Thalovant API returned an unexpected response shape'')
            | Some m \<Rightarrow> call_return (login_request_from_map m))"

section \<open>Polling a device code\<close>

definition token_answer :: "api_lib \<Rightarrow> duration \<Rightarrow> nat \<Rightarrow> string \<Rightarrow> json res" where
  "token_answer lib interval status body =
     (if status_success status then
        (if trim body = [] then Inl (Api ''device token response was empty'')
         else case al_parse lib body of Inr v \<Rightarrow> Inr v | Inl e \<Rightarrow> Inl (Json e))
      else
        (let parsed = parsed_json lib body;
             said = (if status = 400 then Option.bind (Option.bind parsed (\<lambda>v. value_get v ''error'')) as_str else None);
             problem = Option.bind parsed as_object
         in if said = Some ''authorization_pending'' then Inl (DeviceLoginPending interval status problem)
            else if said = Some ''slow_down''
            then Inl (DeviceLoginPending (min (interval + DEVICE_SLOW_DOWN) duration_max) status problem)
            else if said = Some ''access_denied'' then Inl (DeviceLoginDenied status problem)
            else if said = Some ''expired_token'' then Inl (DeviceLoginExpired status problem)
            else Inl (api_response_error lib status body)))"

definition device_token_once :: "api_lib \<Rightarrow> control_plane \<Rightarrow> string \<Rightarrow> duration \<Rightarrow> json calling" where
  "device_token_once lib c device_code interval =
     call_bind (send_request lib c ''POST'' ''/v1/auth/device/token''
         (Some (JObject [(''device_code'', JString device_code)])) [] False)
       (\<lambda>(status, body). call_res (token_answer lib interval status body))"

text \<open>
  One poll by the caller's own schedule. The interval of a code is kept, lengthened by every \<open>slow_down\<close>,
  until the code is decided.
\<close>

definition set_interval :: "string \<Rightarrow> duration \<Rightarrow> control_plane \<Rightarrow> control_plane" where
  "set_interval code d c = c\<lparr>cp_device_intervals := (code, d) # bt_remove code (cp_device_intervals c)\<rparr>"

definition drop_interval :: "string \<Rightarrow> control_plane \<Rightarrow> control_plane" where
  "drop_interval code c = c\<lparr>cp_device_intervals := bt_remove code (cp_device_intervals c)\<rparr>"

definition interval_of :: "device_authorization \<Rightarrow> control_plane \<Rightarrow> duration" where
  "interval_of a c =
     (case map_of (cp_device_intervals c) (da_device_code a) of Some d \<Rightarrow> d | None \<Rightarrow> poll_interval a)"

definition poll_device_login :: "api_lib \<Rightarrow> device_authorization \<Rightarrow> api_token signing" where
  "poll_device_login lib a c log =
     (let code = da_device_code a; interval = interval_of a c; c = set_interval code interval c
      in case device_token_once lib c code interval log of
           (Inr v, log) \<Rightarrow>
             (case api_token_from_value v of
                Inl e \<Rightarrow> (Inl e, drop_interval code c, log)
              | Inr t \<Rightarrow> (Inr t, accept_token (at_access_token t) (at_token_id t) (drop_interval code c), log))
         | (Inl e, log) \<Rightarrow>
             (Inl e,
              case e of
                DeviceLoginPending d status problem \<Rightarrow> set_interval code d c
              | DeviceLoginExpired status problem \<Rightarrow> drop_interval code c
              | DeviceLoginDenied status problem \<Rightarrow> drop_interval code c
              | _ \<Rightarrow> c,
              log))"

text \<open>
  Polling until the code is decided or \<open>patience\<close> has passed since \<open>start\<close>. Not returning is \<open>None\<close>.
\<close>

definition LOGIN_TIMED_OUT :: thalovant_error where
  "LOGIN_TIMED_OUT = Timeout ''timed out waiting for the device sign-in to be approved''"

definition final_poll_error :: "thalovant_error \<Rightarrow> thalovant_error" where
  "final_poll_error e =
     (case e of
        DeviceLoginDenied status problem \<Rightarrow> DeviceAuthorizationDenied
      | DeviceLoginExpired status problem \<Rightarrow> DeviceAuthorizationExpired
      | _ \<Rightarrow> e)"

definition device_turn ::
    "api_lib \<Rightarrow> control_plane \<Rightarrow> string \<Rightarrow> nat \<Rightarrow> duration \<Rightarrow> duration \<Rightarrow> api_log \<Rightarrow> json res option \<times> duration \<times> api_log" where
  "device_turn lib c code start patience interval log =
     (case device_token_once lib c code interval log of
        (Inr v, log) \<Rightarrow> (Some (Inr v), interval, log)
      | (Inl (DeviceLoginPending d status problem), log) \<Rightarrow>
          (let remaining = patience - (al_now lib log - start)
           in if remaining = 0 then (Some (Inl LOGIN_TIMED_OUT), d, log)
              else (None, d, log @ [Slept (min d remaining)]))
      | (Inl e, log) \<Rightarrow> (Some (Inl (final_poll_error e)), interval, log))"

partial_function (option) poll_device_token ::
    "api_lib \<Rightarrow> control_plane \<Rightarrow> string \<Rightarrow> nat \<Rightarrow> duration \<Rightarrow> duration \<Rightarrow> api_log \<Rightarrow> (json res \<times> api_log) option" where
  "poll_device_token lib c code start patience interval log =
     (case device_turn lib c code start patience interval log of
        (Some r, d, log) \<Rightarrow> Some (r, log)
      | (None, d, log) \<Rightarrow> poll_device_token lib c code start patience d log)"

record device_login_options =
  do_scopes :: "string list"
  do_client_name :: "string option"
  do_timeout :: duration

definition login_with_browser_as ::
    "api_lib \<Rightarrow> device_login_options \<Rightarrow> string option \<Rightarrow> control_plane \<Rightarrow> api_log
     \<Rightarrow> (json res \<times> control_plane \<times> api_log) option" where
  "login_with_browser_as lib opts client_id c log =
     (case begin_device_login_as lib (do_scopes opts) (do_client_name opts) client_id c log of
        (Inl e, log) \<Rightarrow> Some (Inl e, c, log)
      | (Inr a, log) \<Rightarrow>
          map_option
            (\<lambda>(r, log). case r of
               Inl e \<Rightarrow> (Inl e, c, log)
             | Inr token \<Rightarrow> (case store_token token c of (r, c) \<Rightarrow> (r, c, log)))
            (poll_device_token lib c (da_device_code a) (al_now lib log) (do_timeout opts) (poll_interval a) log))"

section \<open>Revoking a token\<close>

definition revoke_target :: "string option \<Rightarrow> control_plane \<Rightarrow> string option" where
  "revoke_target token_id c = or_else (nonempty token_id) (cp_token_id c)"

definition revoke_api_token :: "api_lib \<Rightarrow> string option \<Rightarrow> unit signing" where
  "revoke_api_token lib token_id c log =
     (case revoke_target token_id c of
        None \<Rightarrow>
          (if cp_revoked_own c \<and> cp_access_token c = None then (Inr (), c, log)
           else (Inl (Api ''no API token id to revoke: pass one, or sign in with a device login first''), c, log))
      | Some target \<Rightarrow>
          (let own = (cp_token_id c = Some target);
               forgotten = (if own then c\<lparr>cp_access_token := None, cp_token_id := None, cp_revoked_own := True\<rparr> else c)
           in case api_call lib c ''DELETE'' (''/v1/auth/api-tokens/'' @ al_encode lib target) None [] True log of
                (Inr v, log) \<Rightarrow> (Inr (), forgotten, log)
              | (Inl e, log) \<Rightarrow>
                  if own \<and> status_code e = Some 401 then (Inr (), forgotten, log) else (Inl e, c, log)))"

end
