(* ===== verification/Control_Login_Safety.thy ===== *)
theory Control_Login_Safety
  imports Control_Login
begin

text \<open>
  What signing in and polling guarantee: which requests leave the control plane and what they carry, what the
  tokens it keeps follow, and that a device sign-in ends.
\<close>

section \<open>What a call adds to the log\<close>

definition adds :: "(api_request \<Rightarrow> bool) \<Rightarrow> 'a calling \<Rightarrow> bool" where
  "adds Q m \<longleftrightarrow> (\<forall>log. \<exists>acts. snd (m log) = log @ acts \<and> (\<forall>rq. Sent rq \<in> set acts \<longrightarrow> Q rq))"

named_theorems adds_intros \<open>what calls add to the log\<close>

lemma addsD: "adds Q m \<Longrightarrow> m log = (r, log') \<Longrightarrow> \<exists>acts. log' = log @ acts \<and> (\<forall>rq. Sent rq \<in> set acts \<longrightarrow> Q rq)"
  unfolding adds_def by (metis snd_conv)

lemma adds_return [adds_intros]: "adds Q (call_return x)"
  and adds_fail [adds_intros]: "adds Q (call_fail e)"
  and adds_res [adds_intros]: "adds Q (call_res r)"
  and adds_sleep [adds_intros]: "adds Q (call_sleep d)"
  by (auto simp: adds_def call_return_def call_fail_def call_res_def call_sleep_def)

lemma adds_bind [adds_intros]:
  assumes "adds Q m" and "\<And>x. adds Q (k x)"
  shows "adds Q (call_bind m k)"
  unfolding adds_def
proof
  fix log
  obtain r log1 where m: "m log = (r, log1)" by fastforce
  then obtain acts where acts: "log1 = log @ acts" "\<forall>rq. Sent rq \<in> set acts \<longrightarrow> Q rq"
    using addsD [OF assms(1)] by blast
  show "\<exists>acts. snd (call_bind m k log) = log @ acts \<and> (\<forall>rq. Sent rq \<in> set acts \<longrightarrow> Q rq)"
  proof (cases r)
    case (Inl e)
    then show ?thesis using m acts by (auto simp: call_bind_def)
  next
    case (Inr x)
    obtain r2 log2 where k: "k x log1 = (r2, log2)" by fastforce
    then obtain more where more: "log2 = log1 @ more" "\<forall>rq. Sent rq \<in> set more \<longrightarrow> Q rq"
      using addsD [OF assms(2)] by blast
    then show ?thesis using m k acts Inr by (intro exI [of _ "acts @ more"]) (auto simp: call_bind_def)
  qed
qed

lemma adds_try [adds_intros]:
  assumes "adds Q m" and "\<And>x. adds Q (k x)"
  shows "adds Q (call_try m k)"
  unfolding adds_def
proof
  fix log
  obtain r log1 where m: "m log = (r, log1)" by fastforce
  obtain acts where acts: "log1 = log @ acts" "\<forall>rq. Sent rq \<in> set acts \<longrightarrow> Q rq"
    using addsD [OF assms(1) m] by blast
  obtain r2 log2 where k: "k r log1 = (r2, log2)" by fastforce
  obtain more where more: "log2 = log1 @ more" "\<forall>rq. Sent rq \<in> set more \<longrightarrow> Q rq"
    using addsD [OF assms(2) k] by blast
  then show "\<exists>acts. snd (call_try m k log) = log @ acts \<and> (\<forall>rq. Sent rq \<in> set acts \<longrightarrow> Q rq)"
    using m k acts by (intro exI [of _ "acts @ more"]) (auto simp: call_try_def)
qed

lemma adds_mono: "adds Q m \<Longrightarrow> (\<And>rq. Q rq \<Longrightarrow> R rq) \<Longrightarrow> adds R m"
  unfolding adds_def by metis

section \<open>What a request carries\<close>

definition bearer_of :: "api_request \<Rightarrow> string option" where
  "bearer_of rq = map_of (ar_headers rq) ''authorization''"

definition bearer_of_token :: "string option \<Rightarrow> string option" where
  "bearer_of_token token = map_option (\<lambda>t. ''Bearer '' @ t) token"

text \<open>A request that carries a body or a token goes over HTTPS or does not leave the machine.\<close>

definition safe_request :: "api_request \<Rightarrow> bool" where
  "safe_request rq \<longleftrightarrow>
     (let u = ar_url rq
      in wu_scheme u \<in> {''https'', ''http''} \<and> wu_username u = [] \<and> wu_password u = None
         \<and> (ar_body rq \<noteq> None \<or> bearer_of rq \<noteq> None \<longrightarrow> wu_scheme u = ''https'' \<or> loopback_host u))"

definition sent_by :: "control_plane \<Rightarrow> api_request \<Rightarrow> bool" where
  "sent_by c rq \<longleftrightarrow> safe_request rq \<and> (bearer_of rq = None \<or> bearer_of rq = bearer_of_token (cp_access_token c))"

lemma put_headers_other: "k \<notin> fst ` set hs \<Longrightarrow> map_of (put_headers hs m) k = map_of m k"
  by (induction hs m rule: put_headers.induct) auto

lemma validated_url:
  "validate_control_request_url lib raw sensitive = Inr u \<Longrightarrow>
     wu_scheme u \<in> {''https'', ''http''} \<and> wu_username u = [] \<and> wu_password u = None
     \<and> (sensitive \<longrightarrow> wu_scheme u = ''https'' \<or> loopback_host u)"
  by (auto simp: validate_control_request_url_def split: option.splits if_splits)

lemma bearer_headers_set:
  "bearer_headers lib c auth hs = Inr hs' \<Longrightarrow>
     map_of hs' ''authorization'' = (if auth then bearer_of_token (cp_access_token c) else map_of hs ''authorization'')"
  by (auto simp: bearer_headers_def bearer_of_token_def res_bind_eq_Inr split: if_splits option.splits)

lemma form_request_sent:
  assumes "form_request lib c verb path body headers auth = Inr rq" and "''authorization'' \<notin> fst ` set headers"
  shows "sent_by c rq"
proof -
  from assms(1) obtain u hs where u: "validate_control_request_url lib (cp_api_url c @ dropWhile (\<lambda>d. d = CHR ''/'') path)
        (auth \<or> body \<noteq> None) = Inr u"
      and hs: "bearer_headers lib c auth (plain_headers c body headers) = Inr hs"
      and rq: "rq = \<lparr>ar_method = verb, ar_url = u, ar_headers = hs, ar_body = body\<rparr>"
    by (auto simp: form_request_def res_bind_eq_Inr)
  have "map_of (plain_headers c body headers) ''authorization'' = None"
    using assms(2) by (simp add: plain_headers_def put_headers_other)
  then have "bearer_of rq = (if auth then bearer_of_token (cp_access_token c) else None)"
    using bearer_headers_set [OF hs] rq by (simp add: bearer_of_def)
  then show ?thesis using validated_url [OF u] rq by (auto simp: sent_by_def safe_request_def)
qed

lemma adds_send [adds_intros]:
  assumes "''authorization'' \<notin> fst ` set headers"
  shows "adds (sent_by c) (send_control lib c verb path body headers auth)"
  unfolding adds_def
proof
  fix log
  show "\<exists>acts. snd (send_control lib c verb path body headers auth log) = log @ acts \<and> (\<forall>rq. Sent rq \<in> set acts \<longrightarrow> sent_by c rq)"
    using form_request_sent [OF _ assms]
    by (cases "form_request lib c verb path body headers auth") (simp_all add: send_control_def)
qed

lemma adds_full [adds_intros]:
  "''authorization'' \<notin> fst ` set headers \<Longrightarrow> adds (sent_by c) (send_request_full lib c verb path body headers auth)"
  unfolding send_request_full_def Let_def by (intro adds_intros) (auto intro!: adds_intros split: sum.split)

lemma adds_request [adds_intros]:
  "''authorization'' \<notin> fst ` set headers \<Longrightarrow> adds (sent_by c) (send_request lib c verb path body headers auth)"
  unfolding send_request_def by (intro adds_intros) (auto intro!: adds_intros)

lemma adds_call [adds_intros]:
  "''authorization'' \<notin> fst ` set headers \<Longrightarrow> adds (sent_by c) (api_call lib c verb path body headers auth)"
  unfolding api_call_def by (intro adds_intros) (auto intro!: adds_intros)

lemma adds_token_once [adds_intros]: "adds (sent_by c) (device_token_once lib c code interval)"
  unfolding device_token_once_def by (intro adds_intros) (auto intro!: adds_intros)

lemma adds_begin_device [adds_intros]: "adds (sent_by c) (begin_device_login_as lib scopes client_name client_id c)"
  unfolding begin_device_login_as_def by (intro adds_intros) (auto intro!: adds_intros)

section \<open>Polling a device code comes to an end\<close>

text \<open>Time does not go back, and a sleep lasts as long as was asked.\<close>

definition clock_ok :: "api_lib \<Rightarrow> bool" where
  "clock_ok lib \<longleftrightarrow>
     (\<forall>log act. al_now lib log + (case act of Slept d \<Rightarrow> d | Sent rq \<Rightarrow> 0) \<le> al_now lib (log @ [act]))"

lemma clock_sent: "clock_ok lib \<Longrightarrow> al_now lib log \<le> al_now lib (log @ [Sent rq])"
  unfolding clock_ok_def by (metis add_0_right api_act.case(1))

lemma clock_slept: "clock_ok lib \<Longrightarrow> al_now lib log + d \<le> al_now lib (log @ [Slept d])"
  unfolding clock_ok_def by (metis api_act.case(2))

definition sent_count :: "api_log \<Rightarrow> nat" where
  "sent_count log = length (filter (\<lambda>a. case a of Sent rq \<Rightarrow> True | Slept d \<Rightarrow> False) log)"

lemma sent_count_simps [simp]:
  "sent_count [] = 0" "sent_count (xs @ ys) = sent_count xs + sent_count ys"
  "sent_count (Sent rq # xs) = Suc (sent_count xs)" "sent_count (Slept d # xs) = sent_count xs"
  by (simp_all add: sent_count_def)

text \<open>One request at most is sent for a call; a call whose request could not be formed sends none.\<close>

lemma token_once_log:
  "device_token_once lib c code interval log = (r, log') \<Longrightarrow> log' = log \<or> (\<exists>rq. log' = log @ [Sent rq] \<and> sent_by c rq)"
proof -
  assume d: "device_token_once lib c code interval log = (r, log')"
  let ?body = "Some (JObject [(''device_code'', JString code)])"
  obtain s log1 where s: "send_control lib c ''POST'' ''/v1/auth/device/token'' ?body [] False log = (s, log1)" by fastforce
  have "log' = log1"
    using d s by (auto simp: device_token_once_def send_request_def send_request_full_def call_bind_def
        call_return_def call_fail_def call_res_def Let_def split: sum.splits prod.splits if_splits)
  moreover have "log1 = log \<or> (\<exists>rq. log1 = log @ [Sent rq] \<and> sent_by c rq)"
    using s form_request_sent [of lib c "''POST''" "''/v1/auth/device/token''" ?body "[]" False]
    by (auto simp: send_control_def split: sum.splits)
  ultimately show ?thesis by simp
qed

lemma token_once_pending:
  assumes "device_token_once lib c code interval log = (Inl (DeviceLoginPending d status problem), log')"
    and "interval \<le> duration_max"
  shows "interval \<le> d \<and> d \<le> duration_max"
proof -
  have no: "form_request lib c verb path body [] False = Inl e \<Longrightarrow> e \<noteq> DeviceLoginPending d status problem" for verb path body e
    by (auto simp: form_request_def res_bind_eq_Inl validate_control_request_url_def header_ok_def bearer_headers_def
        split: option.splits if_splits sum.splits)
  have pending: "token_answer lib interval st b = Inl (DeviceLoginPending d status problem) \<Longrightarrow>
      interval \<le> d \<and> d \<le> duration_max" for st b
    using assms(2) by (auto simp: token_answer_def Let_def api_response_error_def split: if_splits sum.splits)
  show ?thesis
    using assms(1) no
    by (auto dest!: pending simp: device_token_once_def send_request_def send_request_full_def send_control_def call_bind_def
        call_return_def call_fail_def call_res_def unreachable_error_def api_unreachable_def Let_def
        split: sum.splits prod.splits if_splits hub_answer.splits)
qed

lemma poll_device_token_step:
  "poll_device_token lib c code start patience interval log =
     (case device_turn lib c code start patience interval log of
        (Some r, d, log) \<Rightarrow> Some (r, log)
      | (None, d, log) \<Rightarrow> poll_device_token lib c code start patience d log)"
  by (rule poll_device_token.simps)

text \<open>What is left of the patience, and how many polls that is enough for.\<close>

definition time_left :: "api_lib \<Rightarrow> nat \<Rightarrow> duration \<Rightarrow> api_log \<Rightarrow> nat" where
  "time_left lib start patience log = patience - (al_now lib log - start)"

definition polls_left :: "nat \<Rightarrow> duration \<Rightarrow> nat" where
  "polls_left left interval = (if left = 0 then 1 else left div interval + 2)"

lemma polls_left_step: "0 < i \<Longrightarrow> i \<le> d \<Longrightarrow> 0 < r \<Longrightarrow> r \<le> b \<Longrightarrow> Suc (polls_left (r - min d r) i) \<le> polls_left b i"
proof -
  assume a: "0 < i" "i \<le> d" "0 < r" "r \<le> b"
  show ?thesis
  proof (cases "d < r")
    case True
    then have "(r - d) div i \<le> (b - i) div i" using a by (intro div_le_mono) simp
    moreover have "i \<le> b" using True a by simp
    then have "Suc ((b - i) div i) = b div i" using a(1) by (simp add: le_div_geq)
    ultimately show ?thesis using True a by (simp add: polls_left_def min_def)
  qed (use a in \<open>auto simp: polls_left_def\<close>)
qed

lemma polls_left_mono: "0 < i \<Longrightarrow> i \<le> j \<Longrightarrow> l \<le> m \<Longrightarrow> polls_left l j \<le> polls_left m i"
proof -
  assume a: "0 < i" "i \<le> j" "l \<le> m"
  have "l div j \<le> l div i" using a by (intro div_le_mono2) simp_all
  also have "\<dots> \<le> m div i" using a(3) by (rule div_le_mono)
  finally show ?thesis using a(3) by (auto simp: polls_left_def)
qed

lemma device_turn_cases:
  assumes "clock_ok lib" and "start \<le> al_now lib log" and "interval \<le> duration_max"
    and "device_turn lib c code start patience interval log = (r, d, log')"
  shows "\<exists>sent. length sent \<le> 1 \<and> (\<forall>a \<in> set sent. \<exists>rq. a = Sent rq \<and> sent_by c rq)
     \<and> (r \<noteq> None \<and> log' = log @ sent
        \<or> r = None \<and> interval \<le> d \<and> d \<le> duration_max \<and> 0 < time_left lib start patience (log @ sent)
          \<and> log' = log @ sent @ [Slept (min d (time_left lib start patience (log @ sent)))])"
proof -
  obtain s log1 where s: "device_token_once lib c code interval log = (s, log1)" by fastforce
  obtain sent where sent: "log1 = log @ sent" "length sent \<le> 1" "\<forall>a \<in> set sent. \<exists>rq. a = Sent rq \<and> sent_by c rq"
    using token_once_log [OF s] by (elim disjE exE) auto
  show ?thesis
  proof (cases "\<exists>e status problem. s = Inl (DeviceLoginPending e status problem)")
    case True
    then obtain e status problem where e: "s = Inl (DeviceLoginPending e status problem)" by blast
    then have "interval \<le> e \<and> e \<le> duration_max" using token_once_pending s assms(3) by blast
    then show ?thesis using e s sent assms(4)
      by (intro exI [of _ sent]) (auto simp: device_turn_def time_left_def Let_def split: if_splits)
  next
    case False
    then show ?thesis using s sent assms(4)
      by (intro exI [of _ sent]) (auto simp: device_turn_def split: sum.splits thalovant_error.splits)
  qed
qed

lemma clock_log: "clock_ok lib \<Longrightarrow> al_now lib log \<le> al_now lib (log @ acts)"
proof (induction acts rule: rev_induct)
  case (snoc a acts)
  then have "al_now lib (log @ acts) \<le> al_now lib ((log @ acts) @ [a])"
    unfolding clock_ok_def by (metis add_leE)
  then show ?case using snoc by simp
qed simp

lemma poll_device_token_ends:
  assumes "clock_ok lib" and "0 < interval" and "interval \<le> duration_max" and "start \<le> al_now lib log"
  shows "\<exists>r acts. poll_device_token lib c code start patience interval log = Some (r, log @ acts)
     \<and> sent_count acts \<le> polls_left (time_left lib start patience log) interval
     \<and> (\<forall>rq. Sent rq \<in> set acts \<longrightarrow> sent_by c rq)"
  using assms(2-4)
proof (induction "polls_left (time_left lib start patience log) interval" arbitrary: log interval rule: less_induct)
  case less
  obtain r d log1 where turn: "device_turn lib c code start patience interval log = (r, d, log1)"
    using prod_cases3 by blast
  from device_turn_cases [OF assms(1) less.prems(3,2) turn] obtain sent where sent: "length sent \<le> 1"
      "\<forall>a \<in> set sent. \<exists>rq. a = Sent rq \<and> sent_by c rq"
      and turns: "r \<noteq> None \<and> log1 = log @ sent
        \<or> r = None \<and> interval \<le> d \<and> d \<le> duration_max \<and> 0 < time_left lib start patience (log @ sent)
          \<and> log1 = log @ sent @ [Slept (min d (time_left lib start patience (log @ sent)))]" by blast
  have count: "sent_count sent \<le> 1" using sent(1) length_filter_le [of _ sent] order_trans unfolding sent_count_def by blast
  show ?case
  proof (cases r)
    case (Some x)
    moreover have "1 \<le> polls_left b i" for b i by (simp add: polls_left_def)
    ultimately show ?thesis using turn turns sent count order_trans
      by (subst poll_device_token_step) fastforce
  next
    case None
    let ?left = "time_left lib start patience (log @ sent)"
    have next_turn: "interval \<le> d" "d \<le> duration_max" "0 < ?left" and log1: "log1 = (log @ sent) @ [Slept (min d ?left)]"
      using None turns by auto
    have later: "al_now lib log \<le> al_now lib (log @ sent)" using assms(1) by (rule clock_log)
    have slept: "al_now lib (log @ sent) + min d ?left \<le> al_now lib log1"
      unfolding log1 using assms(1) by (rule clock_slept)
    have left: "time_left lib start patience log1 \<le> ?left - min d ?left" "?left \<le> time_left lib start patience log"
      using slept later less.prems(3) by (auto simp: time_left_def)
    have "Suc (polls_left (time_left lib start patience log1) d) \<le> polls_left (time_left lib start patience log) interval"
      using polls_left_mono [OF less.prems(1) next_turn(1) left(1)]
        polls_left_step [OF less.prems(1) next_turn(1,3) left(2)] by linarith
    moreover have "0 < d" "start \<le> al_now lib log1" using next_turn less.prems slept later by linarith+
    ultimately obtain r' acts where rest: "poll_device_token lib c code start patience d log1 = Some (r', log1 @ acts)"
        "sent_count acts \<le> polls_left (time_left lib start patience log1) d" "\<forall>rq. Sent rq \<in> set acts \<longrightarrow> sent_by c rq"
      using less.hyps [of log1 d] next_turn(2) by (auto simp: Suc_le_eq)
    have "poll_device_token lib c code start patience interval log
        = Some (r', log @ (sent @ [Slept (min d ?left)] @ acts))"
      using turn None rest(1) log1 by (subst poll_device_token_step) simp
    moreover have "sent_count (sent @ [Slept (min d ?left)] @ acts) \<le> polls_left (time_left lib start patience log) interval"
      using rest(2) count \<open>Suc _ \<le> _\<close> by simp
    moreover have "\<forall>rq. Sent rq \<in> set (sent @ [Slept (min d ?left)] @ acts) \<longrightarrow> sent_by c rq"
      using sent(2) rest(3) by auto
    ultimately show ?thesis by blast
  qed
qed

end
