(* ===== verification/Control_Tokens.thy ===== *)
theory Control_Tokens
  imports Control_Login_Safety
begin

text \<open>
  A control plane in use: sign-ins, revocations and requests one after another. The tokens it keeps follow a
  specification over the outcomes alone, and every request carries the token of its moment or none.
\<close>

datatype control_op =
    Password string string login_options
  | Native string string string string
  | Browser device_login_options "string option"
  | Poll_Once device_authorization
  | Revoke "string option"
  | Call_Api string string "json option" "(string \<times> string) list" bool

datatype control_outcome =
    Signed_In json
  | Token_Given api_token
  | Revoked_One "string option"
  | Answer_Given json
  | Op_Failed thalovant_error

definition signed_outcome :: "json res \<times> control_plane \<times> api_log \<Rightarrow> control_outcome \<times> control_plane \<times> api_log" where
  "signed_outcome x = (case x of (r, c, log) \<Rightarrow> (case r of Inl e \<Rightarrow> Op_Failed e | Inr v \<Rightarrow> Signed_In v, c, log))"

definition perform ::
    "api_lib \<Rightarrow> control_op \<Rightarrow> control_plane \<Rightarrow> api_log \<Rightarrow> (control_outcome \<times> control_plane \<times> api_log) option" where
  "perform lib op c log =
     (case op of
        Password email password opts \<Rightarrow> Some (signed_outcome (login_with_options lib email password opts c log))
      | Native code verifier client_id uri \<Rightarrow>
          Some (signed_outcome (complete_native_sign_in lib code verifier client_id uri c log))
      | Browser opts client_id \<Rightarrow> map_option signed_outcome (login_with_browser_as lib opts client_id c log)
      | Poll_Once a \<Rightarrow>
          (case poll_device_login lib a c log of
             (r, c, log) \<Rightarrow> Some (case r of Inl e \<Rightarrow> Op_Failed e | Inr t \<Rightarrow> Token_Given t, c, log))
      | Revoke i \<Rightarrow>
          (case revoke_api_token lib i c log of
             (r, c, log) \<Rightarrow> Some (case r of Inl e \<Rightarrow> Op_Failed e | Inr u \<Rightarrow> Revoked_One i, c, log))
      | Call_Api verb path body headers auth \<Rightarrow>
          (case api_call lib c verb path body headers auth log of
             (r, log) \<Rightarrow> Some (case r of Inl e \<Rightarrow> Op_Failed e | Inr v \<Rightarrow> Answer_Given v, c, log)))"

text \<open>No caller puts an \<open>authorization\<close> header of its own on a request.\<close>

fun plain_op :: "control_op \<Rightarrow> bool" where
  "plain_op (Call_Api verb path body headers auth) = (''authorization'' \<notin> fst ` set headers)"
| "plain_op op = True"

text \<open>A run keeps of each operation its outcome and what was sent and slept during it.\<close>

inductive control_run ::
    "api_lib \<Rightarrow> control_plane \<Rightarrow> api_log \<Rightarrow> (control_outcome \<times> api_log) list \<Rightarrow> control_plane \<Rightarrow> api_log \<Rightarrow> bool"
  for lib where
  idle: "control_run lib c log [] c log"
| act: "control_run lib c log steps c1 log1 \<Longrightarrow> plain_op op \<Longrightarrow> perform lib op c1 log1 = Some (out, c2, log2)
    \<Longrightarrow> control_run lib c log (steps @ [(out, drop (length log1) log2)]) c2 log2"

section \<open>What the tokens follow\<close>

text \<open>The token in use, its id, and whether the last one was revoked here.\<close>

type_synonym credential = "string option \<times> string option \<times> bool"

definition credential_of :: "control_plane \<Rightarrow> credential" where
  "credential_of c = (cp_access_token c, cp_token_id c, cp_revoked_own c)"

definition follow :: "credential \<Rightarrow> control_outcome \<Rightarrow> credential" where
  "follow cred out =
     (case cred of (token, i, revoked) \<Rightarrow>
        (case out of
           Signed_In v \<Rightarrow> (access_token_value v, token_id_value v, False)
         | Token_Given t \<Rightarrow> (Some (at_access_token t), at_token_id t, False)
         | Revoked_One asked \<Rightarrow>
             (let target = or_else (nonempty asked) i
              in if target \<noteq> None \<and> target = i then (None, None, True) else cred)
         | Answer_Given v \<Rightarrow> cred
         | Op_Failed e \<Rightarrow> cred))"

lemma store_token_follows:
  "store_token v c = (r, c') \<Longrightarrow>
     cp_api_url c' = cp_api_url c
     \<and> credential_of c' = follow (credential_of c) (case r of Inl e \<Rightarrow> Op_Failed e | Inr w \<Rightarrow> Signed_In w)"
  by (auto simp: store_token_def accept_token_def credential_of_def follow_def split: option.splits)

lemma failed_follows [simp]: "follow cred (Op_Failed e) = cred" "follow cred (Answer_Given v) = cred"
  by (cases cred; simp add: follow_def)+

definition follows :: "control_plane \<Rightarrow> api_log \<Rightarrow> control_outcome \<times> control_plane \<times> api_log \<Rightarrow> bool" where
  "follows c log x \<longleftrightarrow>
     (case x of (out, c', log') \<Rightarrow>
        cp_api_url c' = cp_api_url c \<and> credential_of c' = follow (credential_of c) out
        \<and> (\<exists>acts. log' = log @ acts \<and> (\<forall>rq. Sent rq \<in> set acts \<longrightarrow> sent_by c rq)))"

lemma sign_with_follows:
  assumes "adds (sent_by c) call"
  shows "follows c log (signed_outcome (sign_with call c log))"
proof -
  obtain r log1 where call: "call log = (r, log1)" by fastforce
  have acts: "\<exists>acts. log1 = log @ acts \<and> (\<forall>rq. Sent rq \<in> set acts \<longrightarrow> sent_by c rq)"
    using addsD [OF assms call] .
  show ?thesis
  proof (cases r)
    case (Inl e)
    then show ?thesis using call acts by (simp add: sign_with_def signed_outcome_def follows_def)
  next
    case (Inr v)
    obtain q c' where q: "store_token v c = (q, c')" by fastforce
    then show ?thesis using call acts Inr store_token_follows [OF q]
      by (simp add: sign_with_def signed_outcome_def follows_def)
  qed
qed

lemma api_token_from_value_id: "credential_of (accept_token (at_access_token t) (at_token_id t) c) = follow cred (Token_Given t)"
  by (cases cred) (simp add: credential_of_def accept_token_def follow_def)

lemma sent_by_same: "cp_access_token c' = cp_access_token c \<Longrightarrow> sent_by c' = sent_by c"
  by (auto simp: sent_by_def)

lemma poll_once_follows:
  assumes "poll_device_login lib a c log = (r, c', log')"
  shows "follows c log (case r of Inl e \<Rightarrow> Op_Failed e | Inr t \<Rightarrow> Token_Given t, c', log')"
proof -
  let ?c = "set_interval (da_device_code a) (interval_of a c) c"
  have same: "cp_access_token ?c = cp_access_token c" "cp_api_url ?c = cp_api_url c" "credential_of ?c = credential_of c"
    by (simp_all add: set_interval_def credential_of_def)
  have kept [simp]: "credential_of (set_interval code d c0) = credential_of c0" "credential_of (drop_interval code c0) = credential_of c0"
      "cp_api_url (set_interval code d c0) = cp_api_url c0" "cp_api_url (drop_interval code c0) = cp_api_url c0"
      "cp_api_url (accept_token t i c0) = cp_api_url c0" for code d t i c0
    by (simp_all add: set_interval_def drop_interval_def credential_of_def accept_token_def)
  obtain s log1 where s: "device_token_once lib ?c (da_device_code a) (interval_of a c) log = (s, log1)" by fastforce
  then have "\<exists>acts. log1 = log @ acts \<and> (\<forall>rq. Sent rq \<in> set acts \<longrightarrow> sent_by c rq)"
    using addsD [OF adds_token_once s] sent_by_same [OF same(1)] by simp
  moreover have "log' = log1" using assms s
    by (auto simp: poll_device_login_def Let_def split: sum.splits)
  moreover have "cp_api_url c' = cp_api_url c
      \<and> credential_of c' = follow (credential_of c) (case r of Inl e \<Rightarrow> Op_Failed e | Inr t \<Rightarrow> Token_Given t)"
    using assms s
    by (auto simp: poll_device_login_def Let_def api_token_from_value_id split: sum.splits thalovant_error.splits)
  ultimately show ?thesis by (simp add: follows_def)
qed

lemma revoke_follows:
  assumes "revoke_api_token lib i c log = (r, c', log')"
  shows "follows c log (case r of Inl e \<Rightarrow> Op_Failed e | Inr u \<Rightarrow> Revoked_One i, c', log')"
proof (cases "revoke_target i c")
  case None
  then have "follow (credential_of c) (Revoked_One i) = credential_of c"
    by (simp add: follow_def credential_of_def revoke_target_def or_else_def split: option.splits)
  moreover have "c' = c" "log' = log" using assms None by (auto simp: revoke_api_token_def split: if_splits)
  ultimately show ?thesis by (auto simp: follows_def split: sum.split)
next
  case (Some target)
  obtain s log1 where s: "api_call lib c ''DELETE'' (''/v1/auth/api-tokens/'' @ al_encode lib target) None [] True log = (s, log1)"
    by fastforce
  then have "\<exists>acts. log1 = log @ acts \<and> (\<forall>rq. Sent rq \<in> set acts \<longrightarrow> sent_by c rq)"
    by (intro addsD [OF adds_call]) simp_all
  moreover have "log' = log1" using assms Some s by (auto simp: revoke_api_token_def Let_def split: sum.splits if_splits)
  moreover have "cp_api_url c' = cp_api_url c
      \<and> credential_of c' = follow (credential_of c) (case r of Inl e \<Rightarrow> Op_Failed e | Inr u \<Rightarrow> Revoked_One i)"
    using assms Some s
    by (auto simp: revoke_api_token_def Let_def follow_def credential_of_def revoke_target_def split: sum.splits if_splits)
  ultimately show ?thesis by (simp add: follows_def)
qed

definition sends_of :: "control_plane \<Rightarrow> api_log \<Rightarrow> api_log \<Rightarrow> bool" where
  "sends_of c log log' \<longleftrightarrow> (\<exists>acts. log' = log @ acts \<and> (\<forall>rq. Sent rq \<in> set acts \<longrightarrow> sent_by c rq))"

lemma sends_of_trans: "sends_of c log log1 \<Longrightarrow> sends_of c log1 log2 \<Longrightarrow> sends_of c log log2"
  unfolding sends_of_def by (elim exE conjE) (auto simp: append_assoc)

lemma device_turn_sends:
  assumes "device_turn lib c code start patience interval log = (t, d, log2)"
  shows "sends_of c log log2"
proof -
  obtain s log1 where s: "device_token_once lib c code interval log = (s, log1)" by fastforce
  then have "sends_of c log log1" unfolding sends_of_def by (rule addsD [OF adds_token_once])
  moreover have "log2 = log1 \<or> (\<exists>d. log2 = log1 @ [Slept d])"
    using assms s by (auto simp: device_turn_def Let_def split: sum.splits thalovant_error.splits if_splits)
  then have "sends_of c log1 log2" by (auto simp: sends_of_def)
  ultimately show ?thesis by (rule sends_of_trans)
qed

lemma poll_loop_sends:
  assumes "poll_device_token lib c code start patience interval log = Some x"
  shows "sends_of c log (snd x)"
proof (rule poll_device_token.raw_induct [OF _ assms])
  fix f lib c code start patience interval log and x :: "json res \<times> api_log"
  assume again: "\<And>lib c code start patience interval log x.
      f lib c code start patience interval log = Some x \<Longrightarrow> sends_of c log (snd x)"
    and now: "(case device_turn lib c code start patience interval log of
        (Some r, d, log) \<Rightarrow> Some (r, log)
      | (None, d, log) \<Rightarrow> f lib c code start patience d log) = Some x"
  obtain t d log2 where turn: "device_turn lib c code start patience interval log = (t, d, log2)" using prod_cases3 by blast
  have first: "sends_of c log log2" using turn by (rule device_turn_sends)
  show "sends_of c log (snd x)"
  proof (cases t)
    case None
    then have "f lib c code start patience d log2 = Some x" using now turn by simp
    then show ?thesis using again sends_of_trans [OF first] by blast
  next
    case (Some r)
    then show ?thesis using now turn first by auto
  qed
qed

lemma browser_follows:
  assumes "login_with_browser_as lib opts client_id c log = Some x"
  shows "follows c log (signed_outcome x)"
proof -
  obtain s log1 where s: "begin_device_login_as lib (do_scopes opts) (do_client_name opts) client_id c log = (s, log1)" by fastforce
  then have first: "sends_of c log log1" unfolding sends_of_def by (rule addsD [OF adds_begin_device])
  show ?thesis
  proof (cases s)
    case (Inl e)
    then show ?thesis using assms s first by (auto simp: login_with_browser_as_def signed_outcome_def follows_def sends_of_def)
  next
    case (Inr a)
    then obtain r log2 where p: "poll_device_token lib c (da_device_code a) (al_now lib log1) (do_timeout opts) (poll_interval a) log1
        = Some (r, log2)"
      using assms s by (auto simp: login_with_browser_as_def)
    then have all: "sends_of c log log2" using sends_of_trans [OF first] poll_loop_sends by fastforce
    show ?thesis
    proof (cases r)
      case (Inl e)
      then show ?thesis using assms s Inr p all
        by (auto simp: login_with_browser_as_def signed_outcome_def follows_def sends_of_def)
    next
      case (Inr token)
      obtain q c' where q: "store_token token c = (q, c')" by fastforce
      then have "x = (q, c', log2)" using assms s \<open>s = Inr a\<close> p Inr by (auto simp: login_with_browser_as_def)
      then show ?thesis using store_token_follows [OF q] all
        by (auto simp: signed_outcome_def follows_def sends_of_def split: sum.split)
    qed
  qed
qed

lemma perform_follows:
  assumes "perform lib op c log = Some x" and "plain_op op"
  shows "follows c log x"
proof (cases op)
  case (Password email password opts)
  then show ?thesis
    using assms by (auto simp: perform_def login_with_options_def intro!: sign_with_follows adds_call)
next
  case (Native code verifier client_id uri)
  then show ?thesis
  proof (cases "require_secure_token_exchange (al_url lib) (cp_api_url c)")
    case (Inl e)
    then show ?thesis using assms Native
      by (auto simp: perform_def complete_native_sign_in_def follows_def signed_outcome_def)
  next
    case (Inr u)
    then show ?thesis using assms Native
      by (auto simp: perform_def complete_native_sign_in_def intro!: sign_with_follows adds_call)
  qed
next
  case (Browser opts client_id)
  then show ?thesis using assms browser_follows by (auto simp: perform_def)
next
  case (Poll_Once a)
  then show ?thesis using assms poll_once_follows by (auto simp: perform_def split: prod.splits)
next
  case (Revoke i)
  then show ?thesis using assms revoke_follows by (auto simp: perform_def split: prod.splits)
next
  case (Call_Api verb path body headers auth)
  then have "adds (sent_by c) (api_call lib c verb path body headers auth)" using assms(2) by (auto intro: adds_call)
  then show ?thesis using assms(1) Call_Api addsD by (fastforce simp: perform_def follows_def split: prod.splits sum.splits)
qed

text \<open>
  C17: whatever is signed in with, revoked and asked, one after another, the token a control plane keeps, its
  id and whether it was revoked here are what the outcomes leave: those of the last sign-in, both from its
  one answer, or none after its own revocation. Every request went over HTTPS or stayed on the machine if it
  carried a token or a body, named no user, and carried either no token or the very one that the outcomes of
  the operations before its own had left.
\<close>

theorem tokens_follow_outcomes:
  assumes "control_run lib c log steps c' log'"
  shows "credential_of c' = foldl follow (credential_of c) (map fst steps) \<and> cp_api_url c' = cp_api_url c
     \<and> log' = log @ concat (map snd steps)
     \<and> (\<forall>n rq. n < length steps \<and> Sent rq \<in> set (snd (steps ! n)) \<longrightarrow>
          safe_request rq
          \<and> (bearer_of rq = None
             \<or> bearer_of rq = bearer_of_token (fst (foldl follow (credential_of c) (map fst (take n steps))))))"
  using assms
proof (induction rule: control_run.induct)
  case (idle c log)
  then show ?case by simp
next
  case (act c log steps c1 log1 op out c2 log2)
  let ?now = "\<lambda>steps. foldl follow (credential_of c) (map fst steps)"
  from perform_follows [OF act.hyps(3,2)] obtain acts where
    new: "cp_api_url c2 = cp_api_url c1" "credential_of c2 = follow (credential_of c1) out"
      "log2 = log1 @ acts" "\<forall>rq. Sent rq \<in> set acts \<longrightarrow> sent_by c1 rq"
    by (auto simp: follows_def)
  have "cp_access_token c1 = fst (?now steps)" unfolding act.IH [THEN conjunct1, symmetric] by (simp add: credential_of_def)
  then have now: "\<forall>rq. Sent rq \<in> set acts \<longrightarrow>
      safe_request rq \<and> (bearer_of rq = None \<or> bearer_of rq = bearer_of_token (fst (?now steps)))"
    using new(4) unfolding sent_by_def by metis
  have "safe_request rq \<and> (bearer_of rq = None
      \<or> bearer_of rq = bearer_of_token (fst (?now (take n (steps @ [(out, acts)])))))"
    if n: "n < length (steps @ [(out, acts)])" "Sent rq \<in> set (snd ((steps @ [(out, acts)]) ! n))" for n rq
  proof (cases "n < length steps")
    case True
    then show ?thesis using act.IH n(2) by (simp add: nth_append)
  next
    case False
    then have "n = length steps" using n(1) by simp
    then show ?thesis using now n(2) by simp
  qed
  moreover have "drop (length log1) log2 = acts" using new(3) by simp
  ultimately have sent: "\<forall>n rq. n < length (steps @ [(out, drop (length log1) log2)])
      \<and> Sent rq \<in> set (snd ((steps @ [(out, drop (length log1) log2)]) ! n)) \<longrightarrow> safe_request rq
      \<and> (bearer_of rq = None
         \<or> bearer_of rq = bearer_of_token (fst (?now (take n (steps @ [(out, drop (length log1) log2)])))))"
    by blast
  show ?case using sent new act.IH by (intro conjI) (simp, simp, simp, assumption)
qed

section \<open>A device sign-in ends\<close>

lemma call_bind_Inr:
  "call_bind m k log = (Inr y, log') \<longleftrightarrow> (\<exists>x log1. m log = (Inr x, log1) \<and> k x log1 = (Inr y, log'))"
  by (auto simp: call_bind_def split: prod.splits sum.splits)

lemma from_secs_fits: "n < 2 ^ 64 \<Longrightarrow> from_secs n \<le> duration_max"
  by (simp add: from_secs_def duration_max_def)

lemma as_u64_less: "as_u64 w = Some n \<Longrightarrow> n < 2 ^ 64"
proof -
  assume "as_u64 w = Some n"
  then obtain x :: "64 word" where "n = unat x" by (auto simp: as_u64_def split: json.splits number.splits)
  then show ?thesis using unsigned_less [of x] by simp
qed

lemma granted_interval:
  assumes "begin_device_login_as lib scopes name client_id c log = (Inr a, log')" and "da_interval a \<noteq> Some 0"
  shows "0 < poll_interval a \<and> poll_interval a \<le> duration_max"
proof -
  from assms(1) obtain v where "authorization_from_value lib v = Inr a"
    by (auto simp: begin_device_login_as_def call_bind_Inr call_res_def call_fail_def call_return_def split: if_splits)
  then obtain m where "da_interval a = Option.bind (map_of m ''interval'') as_u64"
    by (auto simp: authorization_from_value_def res_bind_eq_Inr)
  moreover note as_u64_less
  ultimately have "da_interval a = Some n \<Longrightarrow> n < 2 ^ 64" for n
    by (auto simp: bind_eq_Some_conv)
  then show ?thesis using assms(2)
    by (auto simp: poll_interval_def DEFAULT_DEVICE_POLL_INTERVAL_def from_secs_fits from_secs_def duration_max_def
        split: option.split)
qed

text \<open>
  C21: a device sign-in through the browser ends, however long the person takes and whatever the polls are
  answered, provided the clock does not run back and the code was not granted with an interval of nought (with
  which the polls follow each other without a pause, as many as the API answers within the patience): at most
  one poll for every interval that fits into the patience and two more are sent, each safely and with no token
  but the one kept, and what is returned decides the tokens.
\<close>

theorem browser_login_ends:
  assumes "clock_ok lib" and "begin_device_login_as lib (do_scopes opts) (do_client_name opts) client_id c log = (Inr a, log1)"
    and "da_interval a \<noteq> Some 0"
  shows "\<exists>r c' acts. login_with_browser_as lib opts client_id c log = Some (r, c', log1 @ acts)
     \<and> sent_count acts \<le> do_timeout opts div poll_interval a + 2
     \<and> (\<forall>rq. Sent rq \<in> set acts \<longrightarrow> sent_by c rq)
     \<and> (case r of Inl e \<Rightarrow> credential_of c' = credential_of c
        | Inr v \<Rightarrow> access_token_value v \<noteq> None \<and> credential_of c' = (access_token_value v, token_id_value v, False))"
proof -
  obtain r acts where p: "poll_device_token lib c (da_device_code a) (al_now lib log1) (do_timeout opts) (poll_interval a) log1
        = Some (r, log1 @ acts)"
      "sent_count acts \<le> polls_left (time_left lib (al_now lib log1) (do_timeout opts) log1) (poll_interval a)"
      "\<forall>rq. Sent rq \<in> set acts \<longrightarrow> sent_by c rq"
    using poll_device_token_ends [OF assms(1)] granted_interval [OF assms(2,3)] by blast
  have "polls_left (time_left lib (al_now lib log1) (do_timeout opts) log1) (poll_interval a) \<le> do_timeout opts div poll_interval a + 2"
    by (simp add: polls_left_def time_left_def)
  then show ?thesis using p assms(2)
    by (cases r) (auto simp: login_with_browser_as_def store_token_def accept_token_def credential_of_def
        split: option.splits)
qed

section \<open>A control plane at work\<close>

definition sample_url :: web_url where
  "sample_url =
     \<lparr>wu_scheme = ''https'', wu_username = [], wu_password = None, wu_host = Some ''hub'', wu_path = ''/'',
      wu_query = None, wu_fragment = None, wu_pairs = [], wu_origin = Some (''https'', ''hub'', 443),
      wu_text = ''https://hub/''\<rparr>"

definition act_time :: "api_act \<Rightarrow> nat" where
  "act_time a = (case a of Sent rq \<Rightarrow> 1 | Slept d \<Rightarrow> d)"

text \<open>An API that grants every device code and every token at once; a request takes a nanosecond.\<close>

definition sample_grant :: json where
  "sample_grant = JObject [(''access_token'', JString ''t''), (''device_code'', JString ''d''), (''token_id'', JString ''i''),
     (''user_code'', JString ''u''), (''verification_uri'', JString ''v'')]"

definition sample_api :: api_lib where
  "sample_api =
     \<lparr>al_url = \<lambda>s. Some sample_url, al_parse = \<lambda>s. Inr sample_grant, al_float = \<lambda>f. [], al_header = \<lambda>s. Inr (),
      al_encode = id, al_text = id, al_lossy = id, al_seconds = \<lambda>n. None,
      al_answer = \<lambda>log. Answered \<lparr>as_status = 200, as_header = \<lambda>k. None, as_announced = None, as_pieces = [Inr ''x'']\<rparr>,
      al_now = \<lambda>log. sum_list (map act_time log), al_uuid = \<lambda>log. ''k'',
      al_secret = \<lambda>log n. show_nat n, al_says = \<lambda>v. [], al_fits = \<lambda>d. True\<rparr>"

definition sample_plane :: control_plane where
  "sample_plane = \<lparr>cp_api_url = ''https://hub/'', cp_access_token = None, cp_user_agent = ''sdk'', cp_token_id = None,
     cp_device_intervals = [], cp_revoked_own = False\<rparr>"

lemma sample_no_user: "\<not> url_has_userinfo ''https://hub/v1/auth/token''"
    "\<not> url_has_userinfo ''https://hub/v1/auth/device/authorize''" "\<not> url_has_userinfo ''v''"
  by (simp_all add: url_has_userinfo_def starts_with_def)

lemma grant_trims: "trim ''x'' = ''x''" "trim ''t'' = ''t''" "trim ''d'' = ''d''" "trim ''u'' = ''u''" "trim ''v'' = ''v''"
  by (simp_all add: trim_plain plain_char_def)

lemma sample_call:
  assumes "\<not> url_has_userinfo (''https://hub/'' @ dropWhile (\<lambda>d. d = CHR ''/'') path)"
  shows "\<exists>rq. api_call sample_api sample_plane verb path (Some b) [] False log = (Inr sample_grant, log @ [Sent rq])"
proof -
  have "\<exists>rq. form_request sample_api sample_plane verb path (Some b) [] False = Inr rq"
    using assms by (simp add: form_request_def validate_control_request_url_def header_ok_def bearer_headers_def
        sample_api_def sample_plane_def sample_url_def)
  then obtain rq where rq: "form_request sample_api sample_plane verb path (Some b) [] False = Inr rq" by blast
  have "send_control sample_api sample_plane verb path (Some b) [] False log
      = (Inr \<lparr>as_status = 200, as_header = \<lambda>k. None, as_announced = None, as_pieces = [Inr ''x'']\<rparr>, log @ [Sent rq])"
    using rq by (simp add: send_control_def sample_api_def status_redirection_def)
  then show ?thesis
    by (simp add: api_call_def send_request_def send_request_full_def call_bind_def call_return_def call_res_def
        status_success_def answer_value_def sample_api_def grant_trims)
qed

theorem tokens_follow_outcomes_witness:
  "\<exists>out acts c' log'. control_run sample_api sample_plane [] [(out, acts)] c' log'
     \<and> credential_of c' = (Some ''t'', Some ''i'', False)
     \<and> (\<forall>rq. Sent rq \<in> set acts \<longrightarrow> safe_request rq \<and> bearer_of rq \<in> {None, bearer_of_token None})"
proof -
  let ?op = "Password ''e'' ''p'' \<lparr>lo_scope = None, lo_otp_code = None, lo_recovery_code = None\<rparr>"
  obtain out c1 log1 where p: "perform sample_api ?op sample_plane [] = Some (out, c1, log1)"
    by (simp add: perform_def) (metis prod_cases3)
  obtain rq where "api_call sample_api sample_plane ''POST'' ''/v1/auth/token''
      (Some (JObject (login_body ''e'' ''p'' \<lparr>lo_scope = None, lo_otp_code = None, lo_recovery_code = None\<rparr>))) [] False []
      = (Inr sample_grant, [Sent rq])"
    using sample_call [of "''/v1/auth/token''" "''POST''" _ "[]"] sample_no_user(1) by auto
  then have out: "out = Signed_In sample_grant" using p by (auto simp: perform_def signed_outcome_def login_with_options_def sign_with_def store_token_def
        access_token_value_def value_get_def sample_grant_def nonempty_def grant_trims)
  have run: "control_run sample_api sample_plane [] [(out, log1)] c1 log1"
    using control_run.act [OF control_run.idle _ p] by simp
  have "credential_of c1 = (Some ''t'', Some ''i'', False)"
    using tokens_follow_outcomes [OF run] out
    by (simp add: follow_def credential_of_def access_token_value_def token_id_value_def value_text_field_def value_get_def
        sample_grant_def nonempty_def grant_trims)
  moreover have "\<forall>rq. Sent rq \<in> set log1 \<longrightarrow> safe_request rq \<and> bearer_of rq \<in> {None, bearer_of_token None}"
    using tokens_follow_outcomes [OF run] by (simp add: credential_of_def sample_plane_def)
  ultimately show ?thesis using run by blast
qed

theorem browser_login_ends_witness:
  "\<exists>r c' log'. login_with_browser_as sample_api \<lparr>do_scopes = [], do_client_name = None, do_timeout = from_secs 900\<rparr> None sample_plane []
      = Some (r, c', log')"
proof -
  let ?opts = "\<lparr>do_scopes = [], do_client_name = None, do_timeout = from_secs 900\<rparr>"
  have clock: "clock_ok sample_api"
    by (auto simp: clock_ok_def sample_api_def act_time_def split: api_act.split)
  obtain s log1 where s: "begin_device_login_as sample_api (do_scopes ?opts) (do_client_name ?opts) None sample_plane [] = (s, log1)"
    by fastforce
  have "no_blank ''v''"
    by (simp add: control_at_def space_at_def white_spaces_def starts_with_def)
  then have v: "browser_command sample_api ''v'' ''linux'' \<noteq> None"
    by (simp add: browser_command_def sample_no_user sample_api_def sample_url_def)
  obtain rq where "api_call sample_api sample_plane ''POST'' ''/v1/auth/device/authorize'' (Some (JObject [])) [] False []
      = (Inr sample_grant, [Sent rq])"
    using sample_call [of "''/v1/auth/device/authorize''" "''POST''" _ "[]"] sample_no_user(2) by auto
  then obtain a where a: "s = Inr a" "da_interval a = None"
    using s v by (auto simp: begin_device_login_as_def device_body_def put_given_def call_bind_def call_res_def call_return_def
        authorization_from_value_def required_device_field_def json_string_def text_of_def sample_grant_def grant_trims)
  then show ?thesis using browser_login_ends [OF clock, of ?opts None sample_plane "[]" a log1] s by auto
qed

end
