(* ===== verification/Control_Config.thy ===== *)
theory Control_Config
  imports Control_Tokens
begin

text \<open>
  \<open>src/src/control.rs\<close>, the configuration of a runtime group: the merge of a change into what is stored, and
  the update that reads, merges and writes back under the revision it read, again when another writer came
  first. The merge is shown to be the overlay of one tree on another, and the update to be one atomic step on
  whatever is stored when it is written.
\<close>

section \<open>Merging\<close>

text \<open>A float beyond the exact integers, an infinite one or none: its bits without the sign are larger.\<close>

definition float_out_of_range :: "64 word \<Rightarrow> bool" where
  "float_out_of_range f \<longleftrightarrow> 0x433FFFFFFFFFFFFF < f AND 0x7FFFFFFFFFFFFFFF"

fun numbers_ok :: "json \<Rightarrow> bool" where
  "numbers_ok (JNumber (Float f)) = (\<not> float_out_of_range f)"
| "numbers_ok (JArray vs) = list_all numbers_ok vs"
| "numbers_ok (JObject m) = list_all (\<lambda>p. numbers_ok (snd p)) m"
| "numbers_ok v = True"

definition validate_config_numbers :: "json \<Rightarrow> unit res" where
  "validate_config_numbers v =
     (if numbers_ok v then Inr ()
      else Inl (Api ''safe configuration merge refuses floating-point values outside the exact integer range; use native integers or string identifiers''))"

lemma member_json_size: "p \<in> set m \<Longrightarrow> size (snd p) < size (JObject m)"
  by (induction m) auto

function merge_runtime_config :: "json \<Rightarrow> json \<Rightarrow> json" where
  "merge_runtime_config base delta =
     (case (base, delta) of
        (JObject b, JObject d) \<Rightarrow>
          JObject (fold (\<lambda>p m. bt_insert (fst p)
              (case map_of b (fst p) of Some old \<Rightarrow> merge_runtime_config old (snd p) | None \<Rightarrow> snd p) m) d b)
      | _ \<Rightarrow> delta)"
  by pat_completeness auto
termination
  by (relation "measure (\<lambda>(b, d). size d)") (auto dest: member_json_size)

declare merge_runtime_config.simps [simp del]

section \<open>Updating\<close>

definition config_path :: "api_lib \<Rightarrow> string \<Rightarrow> string" where
  "config_path lib runtime_group_id = ''/v1/runtime-groups/'' @ al_encode lib runtime_group_id @ ''/config''"

definition get_runtime_group_config :: "api_lib \<Rightarrow> string \<Rightarrow> control_plane \<Rightarrow> json calling" where
  "get_runtime_group_config lib runtime_group_id c =
     api_call lib c ''GET'' (config_path lib runtime_group_id) None [] True"

definition is_revision :: "string \<Rightarrow> bool" where
  "is_revision s \<longleftrightarrow> length s = 64 \<and> list_all (\<lambda>c. dec_digit c \<or> c \<in> set ''abcdef'') s"

definition read_snapshot :: "json \<Rightarrow> (string \<times> json) res" where
  "read_snapshot v =
     (case (Option.bind (value_get v ''revision'') as_str, value_get v ''config'') of
        (Some revision, Some (JObject base)) \<Rightarrow>
          if is_revision revision then Inr (revision, JObject base)
          else Inl (Api ''safe configuration merge requires a valid config and revision from the API'')
      | _ \<Rightarrow> Inl (Api ''safe configuration merge requires a valid config and revision from the API''))"

definition config_body :: "string \<Rightarrow> json \<Rightarrow> json option \<Rightarrow> json" where
  "config_body revision merged personas =
     JObject ((case personas of Some p \<Rightarrow> bt_insert ''personas'' p | None \<Rightarrow> id)
       [(''config'', merged), (''expected_revision'', JString revision)])"

text \<open>One attempt; what follows a refusal of the revision is \<open>again\<close>.\<close>

definition config_attempt ::
    "api_lib \<Rightarrow> control_plane \<Rightarrow> string \<Rightarrow> json \<Rightarrow> json option \<Rightarrow> (json res \<Rightarrow> json calling) \<Rightarrow> json calling" where
  "config_attempt lib c runtime_group_id config personas again =
     call_bind (get_runtime_group_config lib runtime_group_id c) (\<lambda>v.
     call_bind (call_res (read_snapshot v)) (\<lambda>(revision, base).
     call_bind (call_res (validate_config_numbers base)) (\<lambda>u.
     call_try (api_call lib c ''PUT'' (config_path lib runtime_group_id)
         (Some (config_body revision (merge_runtime_config base config) personas)) [] True)
       (\<lambda>r. case r of
              Inl e \<Rightarrow> if status_code e = Some 412 then again r else call_res r
            | Inr v \<Rightarrow> call_res r))))"

primrec write_config ::
    "nat \<Rightarrow> api_lib \<Rightarrow> control_plane \<Rightarrow> string \<Rightarrow> json \<Rightarrow> json option \<Rightarrow> json calling" where
  "write_config 0 lib c runtime_group_id config personas =
     config_attempt lib c runtime_group_id config personas call_res"
| "write_config (Suc n) lib c runtime_group_id config personas =
     config_attempt lib c runtime_group_id config personas
       (\<lambda>r. write_config n lib c runtime_group_id config personas)"

definition update_runtime_group_config ::
    "api_lib \<Rightarrow> string \<Rightarrow> json \<Rightarrow> json option \<Rightarrow> control_plane \<Rightarrow> json calling" where
  "update_runtime_group_config lib runtime_group_id config personas c =
     (if as_object config = None then call_fail (Api ''config must be a JSON object'')
      else
        call_bind (call_res (validate_config_numbers config)) (\<lambda>u.
        call_bind (call_res (case personas of Some p \<Rightarrow> validate_config_numbers p | None \<Rightarrow> Inr ())) (\<lambda>u.
          write_config 2 lib c runtime_group_id config personas)))"

definition replace_runtime_group_config ::
    "api_lib \<Rightarrow> string \<Rightarrow> json \<Rightarrow> json option \<Rightarrow> control_plane \<Rightarrow> json calling" where
  "replace_runtime_group_config lib runtime_group_id config personas c =
     api_call lib c ''PATCH'' (config_path lib runtime_group_id)
       (Some (JObject ((case personas of Some p \<Rightarrow> bt_insert ''personas'' p | None \<Rightarrow> id) [(''config'', config)]))) [] True"

section \<open>The merge is an overlay\<close>

fun at_path :: "string list \<Rightarrow> json \<Rightarrow> json option" where
  "at_path [] v = Some v"
| "at_path (k # ks) v = Option.bind (value_get v k) (at_path ks)"

text \<open>A change says nothing of a place when an object on the way to it lacks the next key.\<close>

fun silent_on :: "string list \<Rightarrow> json \<Rightarrow> bool" where
  "silent_on [] v = False"
| "silent_on (k # ks) v =
     (as_object v \<noteq> None \<and> (case value_get v k of None \<Rightarrow> True | Some w \<Rightarrow> silent_on ks w))"

lemma fold_insert_get:
  "distinct (map fst d) \<Longrightarrow>
     map_of (fold (\<lambda>p m. bt_insert (fst p) (f p) m) d m) k
       = (case map_of d k of Some v \<Rightarrow> Some (f (k, v)) | None \<Rightarrow> map_of m k)"
proof (induction d arbitrary: m)
  case (Cons p d)
  then have "map_of d (fst p) = None" by (simp add: map_of_eq_None_iff)
  then show ?case using Cons by (cases p) (auto split: option.split)
qed simp

lemma merge_objects_get:
  "bt_inv d \<Longrightarrow> value_get (merge_runtime_config (JObject b) (JObject d)) k
     = (case map_of d k of
          Some v \<Rightarrow> Some (case map_of b k of Some old \<Rightarrow> merge_runtime_config old v | None \<Rightarrow> v)
        | None \<Rightarrow> map_of b k)"
  by (cases "map_of d k")
    (simp_all add: merge_runtime_config.simps [of "JObject b"] value_get_def fold_insert_get [OF bt_inv_distinct]
      split: option.split)

lemma merge_not_objects: "as_object b = None \<or> as_object d = None \<Longrightarrow> merge_runtime_config b d = d"
  by (subst merge_runtime_config.simps) (auto split: json.splits)

lemma silent_nothing: "silent_on p v \<Longrightarrow> at_path p v = None"
  by (induction p v rule: silent_on.induct) (auto split: option.splits)

lemma member_wf: "json_wf (JObject m) \<Longrightarrow> map_of m k = Some v \<Longrightarrow> json_wf v"
  by (fastforce dest: map_of_SomeD)

lemma merge_silent:
  "json_wf delta \<Longrightarrow> silent_on p delta \<Longrightarrow> at_path p (merge_runtime_config base delta) = at_path p base"
proof (induction p arbitrary: base delta)
  case (Cons k ks)
  then obtain d where d: "delta = JObject d" "bt_inv d" by (auto simp: as_object_def split: json.splits)
  show ?case
  proof (cases base)
    case (JObject b)
    show ?thesis
    proof (cases "map_of d k")
      case None
      then show ?thesis using d JObject by (simp add: merge_objects_get) (simp add: value_get_def)
    next
      case (Some v)
      then have v: "json_wf v" "silent_on ks v" using Cons.prems d member_wf [of d k v] by (auto simp: value_get_def)
      show ?thesis
        using Some d JObject Cons.IH [OF v] silent_nothing [OF v(2)]
        by (cases "map_of b k") (simp_all add: merge_objects_get, simp_all add: value_get_def)
    qed
  next
  qed (use Cons.prems silent_nothing [of "k # ks" delta] in \<open>auto simp: merge_not_objects value_get_def\<close>)
qed simp

text \<open>At a place the change names: the merge of what it says there with what was there.\<close>

lemma merge_at:
  "json_wf delta \<Longrightarrow> at_path p delta = Some v \<Longrightarrow>
     at_path p (merge_runtime_config base delta)
       = Some (case at_path p base of Some old \<Rightarrow> merge_runtime_config old v | None \<Rightarrow> v)"
proof (induction p arbitrary: base delta)
  case (Cons k ks)
  then obtain w where w: "value_get delta k = Some w" "at_path ks w = Some v" by (auto simp: bind_eq_Some_conv)
  then obtain d where d: "delta = JObject d" "map_of d k = Some w" "bt_inv d"
    using Cons.prems(1) by (auto simp: value_get_def bind_eq_Some_conv)
  have wf: "json_wf w" using Cons.prems(1) d member_wf by blast
  show ?case
  proof (cases base)
    case (JObject b)
    then show ?thesis
      using d w(2) Cons.IH [OF wf w(2)]
      by (cases "map_of b k") (simp_all add: merge_objects_get, simp_all add: value_get_def)
  qed (use Cons.prems in \<open>simp_all add: merge_not_objects value_get_def\<close>)
qed simp

lemma fold_insert_keys: "fst ` set (fold (\<lambda>p m. bt_insert (fst p) (f p) m) d m) = fst ` set m \<union> fst ` set d"
  by (induction d arbitrary: m) auto

lemma merge_keys:
  "\<exists>m. merge_runtime_config (JObject b) (JObject d) = JObject m \<and> fst ` set m = fst ` set b \<union> fst ` set d"
  by (simp add: merge_runtime_config.simps [of "JObject b"] fold_insert_keys)

text \<open>
  C19: a merge is an overlay. A value that the change has at a place is there afterwards as it is, if it is not
  an object, or if the configuration had no object there (an empty object among them); where both have an
  object, the result has one with the keys of both and no others; and every place the change says nothing of,
  with all that is below it, is as it was.
\<close>

theorem merge_is_an_overlay:
  assumes "json_wf delta"
  shows "(at_path p delta = Some v \<and> (as_object v = None \<or> Option.bind (at_path p base) as_object = None) \<longrightarrow>
          at_path p (merge_runtime_config base delta) = Some v)
     \<and> (at_path p delta = Some (JObject d) \<and> at_path p base = Some (JObject b) \<longrightarrow>
          (\<exists>m. at_path p (merge_runtime_config base delta) = Some (JObject m) \<and> fst ` set m = fst ` set b \<union> fst ` set d))
     \<and> (silent_on p delta \<longrightarrow> at_path p (merge_runtime_config base delta) = at_path p base)"
  using merge_at [OF assms, of p _ base] merge_silent [OF assms, of p base] merge_keys [of b d]
  by (auto simp: merge_not_objects split: option.splits)

theorem merge_is_an_overlay_witness:
  "at_path [''a'', ''b''] (merge_runtime_config
       (JObject [(''a'', JObject [(''b'', JNull), (''c'', JBool True)])]) (JObject [(''a'', JObject [(''b'', JBool False)])]))
     = Some (JBool False)
   \<and> at_path [''a'', ''c''] (merge_runtime_config
       (JObject [(''a'', JObject [(''b'', JNull), (''c'', JBool True)])]) (JObject [(''a'', JObject [(''b'', JBool False)])]))
     = Some (JBool True)
   \<and> at_path [''a''] (merge_runtime_config (JObject [(''a'', JBool True)]) (JObject [(''a'', JObject [])])) = Some (JObject [])"
proof -
  let ?b = "JObject [(''a'', JObject [(''b'', JNull), (''c'', JBool True)])]"
  let ?d = "JObject [(''a'', JObject [(''b'', JBool False)])]"
  have wf: "json_wf ?d" "json_wf (JObject [(''a'', JObject [])])" by (simp_all add: bt_inv_def)
  show ?thesis
    using merge_is_an_overlay [OF wf(1), of "[''a'', ''b'']" "JBool False" ?b]
      merge_is_an_overlay [OF wf(1), of "[''a'', ''c'']" "JBool True" ?b]
      merge_is_an_overlay [OF wf(2), of "[''a'']" "JObject []" "JObject [(''a'', JBool True)]"]
    by (simp add: value_get_def as_object_def)
qed

section \<open>An update is one step\<close>

text \<open>What a successful call was answered.\<close>

definition succeeded :: "api_lib \<Rightarrow> api_log \<Rightarrow> json \<Rightarrow> bool" where
  "succeeded lib log v \<longleftrightarrow>
     (\<exists>r bs. al_answer lib log = Answered r \<and> status_success (as_status r) \<and> whole_body (as_pieces r) = Inr bs
        \<and> answer_value lib (as_status r) (al_text lib bs) = Inr v)"

lemma answer_value_ok: "answer_value lib status s = Inr v \<Longrightarrow> status_success status"
  by (simp add: answer_value_def split: if_splits)

lemma api_call_Inr:
  assumes "api_call lib c verb path body headers auth log = (Inr v, log')"
  shows "\<exists>rq. form_request lib c verb path body headers auth = Inr rq \<and> log' = log @ [Sent rq] \<and> succeeded lib log' v"
proof -
  from assms obtain r st where r: "send_control lib c verb path body headers auth log = (Inr r, log')"
      and st: "answer_value lib (as_status r) st = Inr v"
      and body: "status_success (as_status r) \<longrightarrow> (\<exists>bs. whole_body (as_pieces r) = Inr bs \<and> st = al_text lib bs)"
    by (auto simp: api_call_def send_request_def send_request_full_def call_bind_Inr call_return_def call_res_def
        call_fail_def Let_def split: if_splits sum.splits)
  obtain rq where rq: "form_request lib c verb path body headers auth = Inr rq" "log' = log @ [Sent rq]"
      "al_answer lib log' = Answered r"
    using r by (auto simp: send_control_def split: sum.splits hub_answer.splits if_splits)
  then show ?thesis using st body answer_value_ok [OF st] by (auto simp: succeeded_def)
qed

lemma form_request_fields:
  "form_request lib c verb path body headers auth = Inr rq \<Longrightarrow>
     ar_method rq = verb \<and> ar_body rq = body \<and> al_url lib (cp_api_url c @ dropWhile (\<lambda>d. d = CHR ''/'') path) = Some (ar_url rq)"
  by (auto simp: form_request_def res_bind_eq_Inr validate_control_request_url_def split: option.splits if_splits)

text \<open>
  A store that keeps its word: \<open>found log rq\<close> is the configuration and its revision in the instant it takes up
  a request, whoever wrote before, and \<open>held log\<close> the configuration after it. What is read is what is found;
  a write under a revision succeeds only if that is the one found, and then holds what was sent; a revision
  never names two configurations.
\<close>

definition config_store ::
    "api_lib \<Rightarrow> web_url \<Rightarrow> (api_log \<Rightarrow> api_request \<Rightarrow> json \<times> string) \<Rightarrow> (api_log \<Rightarrow> json) \<Rightarrow> bool" where
  "config_store lib u found held \<longleftrightarrow>
     (\<forall>log rq v. ar_method rq = ''GET'' \<and> ar_url rq = u \<and> succeeded lib (log @ [Sent rq]) v \<longrightarrow>
        value_get v ''config'' = Some (fst (found log rq)) \<and> value_get v ''revision'' = Some (JString (snd (found log rq))))
     \<and> (\<forall>log rq v b revision. ar_method rq = ''PUT'' \<and> ar_url rq = u \<and> succeeded lib (log @ [Sent rq]) v
          \<and> ar_body rq = Some b \<and> value_get b ''expected_revision'' = Some (JString revision) \<longrightarrow>
        snd (found log rq) = revision \<and> value_get b ''config'' = Some (held (log @ [Sent rq])))
     \<and> (\<forall>log rq log' rq'. snd (found log rq) = snd (found log' rq') \<longrightarrow> fst (found log rq) = fst (found log' rq'))"

lemma config_store_read:
  "config_store lib u found held \<Longrightarrow> ar_method rq = ''GET'' \<Longrightarrow> ar_url rq = u \<Longrightarrow> succeeded lib (log @ [Sent rq]) v \<Longrightarrow>
     value_get v ''config'' = Some (fst (found log rq)) \<and> value_get v ''revision'' = Some (JString (snd (found log rq)))"
  unfolding config_store_def by blast

lemma config_store_write:
  "config_store lib u found held \<Longrightarrow> ar_method rq = ''PUT'' \<Longrightarrow> ar_url rq = u \<Longrightarrow> succeeded lib (log @ [Sent rq]) v \<Longrightarrow>
     ar_body rq = Some b \<Longrightarrow> value_get b ''expected_revision'' = Some (JString revision) \<Longrightarrow>
     snd (found log rq) = revision \<and> value_get b ''config'' = Some (held (log @ [Sent rq]))"
  unfolding config_store_def by blast

lemma config_store_names:
  "config_store lib u found held \<Longrightarrow> snd (found log rq) = snd (found log' rq') \<Longrightarrow> fst (found log rq) = fst (found log' rq')"
  unfolding config_store_def by blast

lemma config_body_get [simp]:
  "value_get (config_body revision merged personas) ''config'' = Some merged"
  "value_get (config_body revision merged personas) ''expected_revision'' = Some (JString revision)"
  by (auto simp: value_get_def config_body_def split: option.split)

lemma read_snapshot_Inr:
  "read_snapshot v = Inr (revision, base) \<longleftrightarrow>
     value_get v ''revision'' = Some (JString revision) \<and> is_revision revision
     \<and> value_get v ''config'' = Some base \<and> as_object base \<noteq> None"
  by (auto simp: read_snapshot_def bind_eq_Some_conv split: option.splits json.splits if_splits)

definition config_address :: "api_lib \<Rightarrow> control_plane \<Rightarrow> string \<Rightarrow> web_url option" where
  "config_address lib c runtime_group_id =
     al_url lib (cp_api_url c @ dropWhile (\<lambda>d. d = CHR ''/'') (config_path lib runtime_group_id))"

text \<open>What an update that succeeded left: the change laid over what was found in the instant of the write.\<close>

definition stored_merge ::
    "api_lib \<Rightarrow> (api_log \<Rightarrow> api_request \<Rightarrow> json \<times> string) \<Rightarrow> (api_log \<Rightarrow> json) \<Rightarrow> json \<Rightarrow> api_log \<Rightarrow> bool" where
  "stored_merge lib found held config log' \<longleftrightarrow>
     (\<exists>log rq. log' = log @ [Sent rq] \<and> held log' = merge_runtime_config (fst (found log rq)) config)"

lemma config_attempt_stores:
  assumes store: "config_store lib u found held" and u: "config_address lib c i = Some u"
    and again: "\<And>e log log'. (again (Inl e) :: json calling) log = (Inr v, log') \<Longrightarrow> stored_merge lib found held config log'"
    and ok: "config_attempt lib c i config personas again log = (Inr v, log')"
  shows "stored_merge lib found held config log'"
proof -
  let ?put = "\<lambda>revision base. api_call lib c ''PUT'' (config_path lib i)
      (Some (config_body revision (merge_runtime_config base config) personas)) [] True"
  from ok obtain snap log1 revision base where
    get: "api_call lib c ''GET'' (config_path lib i) None [] True log = (Inr snap, log1)"
    and snap: "read_snapshot snap = Inr (revision, base)"
    and rest: "call_try (?put revision base)
      (\<lambda>r. case r of Inl e \<Rightarrow> if status_code e = Some 412 then again r else call_res r | Inr v \<Rightarrow> call_res r) log1 = (Inr v, log')"
    by (auto simp: config_attempt_def get_runtime_group_config_def call_bind_Inr call_res_def)
  obtain r log2 where put: "?put revision base log1 = (r, log2)" by fastforce
  obtain rq1 where rq1: "form_request lib c ''GET'' (config_path lib i) None [] True = Inr rq1" "log1 = log @ [Sent rq1]"
      "succeeded lib log1 snap" using api_call_Inr [OF get] by blast
  have read: "base = fst (found log rq1)" "revision = snd (found log rq1)"
    using config_store_read [OF store, of rq1 log snap] rq1 form_request_fields [OF rq1(1)] snap u
    by (simp_all add: read_snapshot_Inr config_address_def)
  show ?thesis
  proof (cases r)
    case (Inl e)
    then show ?thesis using rest put again by (auto simp: call_try_def call_res_def split: if_splits)
  next
    case (Inr w)
    then have w: "w = v" "log' = log2" using rest put by (simp_all add: call_try_def call_res_def)
    obtain rq2 where rq2: "form_request lib c ''PUT'' (config_path lib i)
          (Some (config_body revision (merge_runtime_config base config) personas)) [] True = Inr rq2"
        "log2 = log1 @ [Sent rq2]" "succeeded lib log2 w" using api_call_Inr put Inr by blast
    then have "snd (found log1 rq2) = revision \<and> merge_runtime_config base config = held (log1 @ [Sent rq2])"
      using config_store_write [OF store, where rq = rq2 and log = log1 and v = w and revision = revision
          and b = "config_body revision (merge_runtime_config base config) personas"] form_request_fields [OF rq2(1)] u
      by (simp add: config_address_def)
    moreover from this have "fst (found log1 rq2) = base"
      using config_store_names [OF store, of log1 rq2 log rq1] read by simp
    ultimately show ?thesis using w rq2(2) by (auto simp: stored_merge_def)
  qed
qed

lemma write_config_stores:
  assumes "config_store lib u found held" and "config_address lib c i = Some u"
    and "write_config n lib c i config personas log = (Inr v, log')"
  shows "stored_merge lib found held config log'"
  using assms(3)
proof (induction n arbitrary: log log')
  case 0
  show ?case by (rule config_attempt_stores [OF assms(1,2) _ 0 [unfolded write_config.simps]]) (simp add: call_res_def)
next
  case (Suc n)
  show ?case by (rule config_attempt_stores [OF assms(1,2) Suc.IH Suc.prems [unfolded write_config.simps]])
qed

section \<open>How many requests are sent\<close>

definition sends_at_most :: "nat \<Rightarrow> 'a calling \<Rightarrow> bool" where
  "sends_at_most n m \<longleftrightarrow> (\<forall>log. sent_count (snd (m log)) \<le> sent_count log + n)"

lemma sends_none: "sends_at_most 0 (call_return x)" "sends_at_most 0 (call_fail e)" "sends_at_most 0 (call_res r)"
  by (simp_all add: sends_at_most_def call_return_def call_fail_def call_res_def)

lemma sends_mono: "sends_at_most m f \<Longrightarrow> m \<le> n \<Longrightarrow> sends_at_most n f"
  unfolding sends_at_most_def by (meson add_left_mono order_trans)

lemma sends_bind:
  assumes "sends_at_most m f" and "\<And>x. sends_at_most n (k x)"
  shows "sends_at_most (m + n) (call_bind f k)"
  unfolding sends_at_most_def
proof
  fix log
  obtain r log1 where f: "f log = (r, log1)" by fastforce
  then have one: "sent_count log1 \<le> sent_count log + m" using assms(1) unfolding sends_at_most_def by (metis snd_conv)
  have "sent_count (snd (k x log1)) \<le> sent_count log + (m + n)" for x
  proof -
    have "sent_count (snd (k x log1)) \<le> sent_count log1 + n" using assms(2) by (simp add: sends_at_most_def)
    then show ?thesis using one by linarith
  qed
  then show "sent_count (snd (call_bind f k log)) \<le> sent_count log + (m + n)"
    using f one by (cases r) (auto simp: call_bind_def)
qed

lemma sends_try:
  assumes "sends_at_most m f" and "\<And>x. sends_at_most n (k x)"
  shows "sends_at_most (m + n) (call_try f k)"
  unfolding sends_at_most_def
proof
  fix log
  obtain r log1 where f: "f log = (r, log1)" by fastforce
  then have one: "sent_count log1 \<le> sent_count log + m" using assms(1) unfolding sends_at_most_def by (metis snd_conv)
  have "sent_count (snd (k r log1)) \<le> sent_count log1 + n" using assms(2) by (simp add: sends_at_most_def)
  then show "sent_count (snd (call_try f k log)) \<le> sent_count log + (m + n)"
    using f one by (simp add: call_try_def)
qed

lemma sends_send: "sends_at_most 1 (send_control lib c verb path body headers auth)"
  by (simp add: sends_at_most_def send_control_def split: sum.split)

lemma sends_call: "sends_at_most 1 (api_call lib c verb path body headers auth)"
proof -
  have full: "sends_at_most (1 + 0) (send_request_full lib c verb path body headers auth)"
    unfolding send_request_full_def Let_def
    by (intro sends_bind sends_send) (auto intro: sends_none split: sum.split)
  have "sends_at_most ((1 + 0) + 0) (send_request lib c verb path body headers auth)"
    unfolding send_request_def by (intro sends_bind full) (auto intro: sends_none)
  then have "sends_at_most (((1 + 0) + 0) + 0) (api_call lib c verb path body headers auth)"
    unfolding api_call_def by (intro sends_bind) (auto intro: sends_none)
  then show ?thesis by simp
qed

lemma config_attempt_sends:
  assumes "\<And>r. sends_at_most n (again r)"
  shows "sends_at_most (n + 2) (config_attempt lib c i config personas again)"
proof -
  have put: "sends_at_most (1 + n) (call_try (api_call lib c ''PUT'' path body [] True)
      (\<lambda>r. case r of Inl e \<Rightarrow> if status_code e = Some 412 then again r else call_res r | Inr v \<Rightarrow> call_res r))" for path body
    by (intro sends_try sends_call) (auto intro: assms sends_mono [OF sends_none(3)] split: sum.split)
  have "sends_at_most (1 + (0 + (0 + (1 + n)))) (config_attempt lib c i config personas again)"
    unfolding config_attempt_def get_runtime_group_config_def case_prod_beta
    by (intro sends_bind sends_call sends_none put)
  then show ?thesis by (simp add: add.commute)
qed

lemma write_config_sends: "sends_at_most (2 * n + 2) (write_config n lib c i config personas)"
proof (induction n)
  case 0
  have "sends_at_most (0 + 2) (config_attempt lib c i config personas call_res)"
    by (rule config_attempt_sends) (rule sends_none)
  then show ?case by simp
next
  case (Suc n)
  have "sends_at_most (2 * n + 2 + 2) (config_attempt lib c i config personas (\<lambda>r. write_config n lib c i config personas))"
    by (rule config_attempt_sends) (rule Suc)
  then show ?case by simp
qed

lemma update_config_sends: "sends_at_most 6 (update_runtime_group_config lib i config personas c)"
proof -
  have "sends_at_most (0 + (0 + 6)) (call_bind (call_res r) (\<lambda>u. call_bind (call_res q)
      (\<lambda>u. write_config 2 lib c i config personas)))" for r :: "unit res" and q :: "unit res"
    using write_config_sends [of 2] by (intro sends_bind sends_none) simp
  moreover have "sends_at_most 6 (call_fail e :: json calling)" for e by (rule sends_mono [OF sends_none(2)]) simp
  ultimately show ?thesis unfolding update_runtime_group_config_def by (simp only: add_0 if_split) blast
qed

text \<open>
  C18: an update of a configuration that succeeded was one atomic step, however many others write at the same
  time: what the store holds after its last request is the change laid over exactly what it found in the
  instant it took that request up. And it sends at most six requests, successful or not.
\<close>

theorem config_update_is_atomic:
  assumes "config_store lib u found held" and "config_address lib c i = Some u"
    and "update_runtime_group_config lib i config personas c log = (r, log')"
  shows "(\<forall>v. r = Inr v \<longrightarrow> stored_merge lib found held config log') \<and> sent_count log' \<le> sent_count log + 6"
proof
  show "\<forall>v. r = Inr v \<longrightarrow> stored_merge lib found held config log'"
    using assms(3) write_config_stores [OF assms(1,2)]
    by (auto simp: update_runtime_group_config_def call_bind_Inr call_res_def call_fail_def split: if_splits)
  show "sent_count log' \<le> sent_count log + 6"
    using update_config_sends [of lib i config personas c] assms(3) unfolding sends_at_most_def by (metis snd_conv)
qed

text \<open>A store whose group is empty whenever a request is taken up, and that says so.\<close>

definition sample_revision :: string where "sample_revision = replicate 64 CHR ''a''"

definition store_says :: "api_log \<Rightarrow> string" where
  "store_says log = (case last log of Sent rq \<Rightarrow> if ar_method rq = ''GET'' then ''g'' else ''p'' | Slept d \<Rightarrow> [])"

definition store_takes :: "api_log \<Rightarrow> bool" where
  "store_takes log =
     (case last log of
        Sent rq \<Rightarrow> ar_method rq = ''GET''
          \<or> Option.bind (ar_body rq) (\<lambda>b. value_get b ''expected_revision'') = Some (JString sample_revision)
            \<and> Option.bind (ar_body rq) (\<lambda>b. value_get b ''config'') \<noteq> None
      | Slept d \<Rightarrow> False)"

definition store_api :: api_lib where
  "store_api = sample_api
     \<lparr>al_parse := \<lambda>s. if s = ''g'' then Inr (JObject [(''config'', JObject []), (''revision'', JString sample_revision)])
                     else Inr (JObject []),
      al_answer := \<lambda>log. Answered \<lparr>as_status = (if store_takes log then 200 else 412), as_header = \<lambda>k. None,
                     as_announced = None, as_pieces = [Inr (store_says log)]\<rparr>\<rparr>"

definition store_found :: "api_log \<Rightarrow> api_request \<Rightarrow> json \<times> string" where
  "store_found log rq = (JObject [], sample_revision)"

definition store_held :: "api_log \<Rightarrow> json" where
  "store_held log =
     (case last log of
        Sent rq \<Rightarrow> (case Option.bind (ar_body rq) (\<lambda>b. value_get b ''config'') of Some v \<Rightarrow> v | None \<Rightarrow> JNull)
      | Slept d \<Rightarrow> JNull)"

definition store_plane :: control_plane where "store_plane = sample_plane\<lparr>cp_access_token := Some ''t''\<rparr>"

lemma store_succeeded:
  "succeeded store_api (log @ [Sent rq]) v \<longleftrightarrow>
     store_takes (log @ [Sent rq])
     \<and> v = (if ar_method rq = ''GET'' then JObject [(''config'', JObject []), (''revision'', JString sample_revision)] else JObject [])"
proof -
  have "trim ''g'' = ''g''" "trim ''p'' = ''p''" by (simp_all add: trim_plain plain_char_def)
  then show ?thesis
    by (auto simp: succeeded_def store_api_def sample_api_def status_success_def answer_value_def store_says_def)
qed

lemma store_keeps_its_word: "config_store store_api u store_found store_held"
  by (auto simp: config_store_def store_succeeded store_found_def store_held_def store_takes_def value_get_def
      split: option.split)

lemma store_call:
  assumes "\<not> url_has_userinfo (''https://hub/'' @ dropWhile (\<lambda>d. d = CHR ''/'') path)"
    and "store_takes [Sent \<lparr>ar_method = verb, ar_url = sample_url, ar_headers = [], ar_body = body\<rparr>]"
  shows "\<exists>log'. api_call store_api store_plane verb path body [] True log
     = (Inr (if verb = ''GET'' then JObject [(''config'', JObject []), (''revision'', JString sample_revision)] else JObject []), log')"
proof -
  obtain rq where rq: "form_request store_api store_plane verb path body [] True = Inr rq"
    using assms(1) by (simp add: form_request_def validate_control_request_url_def header_ok_def bearer_headers_def
        store_api_def sample_api_def store_plane_def sample_plane_def sample_url_def)
  then have "store_takes (log @ [Sent rq])" "ar_method rq = verb"
    using assms(2) form_request_fields [OF rq] by (simp_all add: store_takes_def)
  moreover have "trim ''g'' = ''g''" "trim ''p'' = ''p''" by (simp_all add: trim_plain plain_char_def)
  ultimately show ?thesis using rq
    by (simp add: api_call_def send_request_def send_request_full_def send_control_def call_bind_def call_return_def
        call_res_def status_success_def status_redirection_def answer_value_def store_api_def sample_api_def store_says_def)
qed

theorem config_update_is_atomic_witness:
  "\<exists>v log'. update_runtime_group_config store_api ''g'' (JObject [(''a'', JNull)]) None store_plane [] = (Inr v, log')
     \<and> stored_merge store_api store_found store_held (JObject [(''a'', JNull)]) log'"
proof -
  let ?delta = "JObject [(''a'', JNull)]"
  have path: "config_path store_api ''g'' = ''/v1/runtime-groups/g/config''"
    by (simp add: config_path_def store_api_def sample_api_def)
  have "\<not> url_has_userinfo ''https://hub/v1/runtime-groups/g/config''"
    by (simp add: url_has_userinfo_def starts_with_def)
  then have no_user: "\<not> url_has_userinfo (''https://hub/'' @ dropWhile (\<lambda>d. d = CHR ''/'') ''/v1/runtime-groups/g/config'')"
    by simp
  obtain log1 where get: "api_call store_api store_plane ''GET'' ''/v1/runtime-groups/g/config'' None [] True []
      = (Inr (JObject [(''config'', JObject []), (''revision'', JString sample_revision)]), log1)"
    using store_call [OF no_user, of "''GET''" None "[]"] by (auto simp: store_takes_def)
  have revision: "is_revision sample_revision"
    by (simp add: is_revision_def sample_revision_def list_all_iff)
  let ?body = "config_body sample_revision (merge_runtime_config (JObject []) ?delta) None"
  obtain log2 where put: "api_call store_api store_plane ''PUT'' ''/v1/runtime-groups/g/config'' (Some ?body) [] True log1
      = (Inr (JObject []), log2)"
    using store_call [OF no_user, of "''PUT''" "Some ?body" log1] by (auto simp: store_takes_def)
  have "write_config 2 store_api store_plane ''g'' ?delta None [] = (Inr (JObject []), log2)"
    unfolding numeral_2_eq_2 write_config.simps config_attempt_def get_runtime_group_config_def path
    using get put revision
    by (simp add: call_bind_def call_res_def call_try_def read_snapshot_def value_get_def validate_config_numbers_def)
  then have run: "update_runtime_group_config store_api ''g'' ?delta None store_plane [] = (Inr (JObject []), log2)"
    by (simp add: update_runtime_group_config_def call_bind_def call_res_def validate_config_numbers_def)
  have "config_address store_api store_plane ''g'' = Some sample_url"
    by (simp add: config_address_def store_api_def sample_api_def)
  then show ?thesis using config_update_is_atomic [OF store_keeps_its_word _ run] run by blast
qed

end
