(* ===== verification/Control_Clients.thy ===== *)
theory Control_Clients
  imports Control_Config Identity Events
begin

text \<open>
  \<open>src/src/control.rs\<close>, the connections of a hub: making one with fresh secrets, of a kind the API must confirm,
  deleting one under its current etag, and the identity a new one is used with.
\<close>

section \<open>Reading, making and deleting a client\<close>

definition client_path :: "api_lib \<Rightarrow> string \<Rightarrow> string" where
  "client_path lib client_id = ''/v1/clients/'' @ al_encode lib client_id"

definition get_client :: "api_lib \<Rightarrow> string \<Rightarrow> control_plane \<Rightarrow> json calling" where
  "get_client lib client_id c = api_call lib c ''GET'' (client_path lib client_id) None [] True"

definition create_client :: "api_lib \<Rightarrow> json \<Rightarrow> string option \<Rightarrow> control_plane \<Rightarrow> json calling" where
  "create_client lib body key c log =
     call_bind (call_res (single_header lib ''idempotency-key'' (case key of Some k \<Rightarrow> k | None \<Rightarrow> al_uuid lib log)))
       (\<lambda>headers. api_call lib c ''POST'' ''/v1/clients'' (Some body) headers True) log"

definition current_etag :: "api_lib \<Rightarrow> string \<Rightarrow> control_plane \<Rightarrow> string calling" where
  "current_etag lib client_id c =
     call_bind (get_client lib client_id c) (\<lambda>v. call_res
       (ok_or (value_text_field v ''etag'') (Api ''client resource is missing etag'')))"

definition delete_attempt ::
    "api_lib \<Rightarrow> string \<Rightarrow> control_plane \<Rightarrow> string option \<Rightarrow> (thalovant_error \<Rightarrow> unit calling) \<Rightarrow> unit calling" where
  "delete_attempt lib client_id c etag again =
     call_try
       (call_bind (case etag of Some e \<Rightarrow> call_return e | None \<Rightarrow> current_etag lib client_id c) (\<lambda>e.
        call_bind (call_res (single_header lib ''if-match'' e)) (\<lambda>headers.
          api_call lib c ''DELETE'' (client_path lib client_id) None headers True)))
       (\<lambda>r. case r of
              Inr v \<Rightarrow> call_return ()
            | Inl e \<Rightarrow>
                if status_code e = Some 404 then call_return ()
                else if status_code e = Some 412 then again e else call_fail e)"

definition delete_client :: "api_lib \<Rightarrow> string \<Rightarrow> string option \<Rightarrow> control_plane \<Rightarrow> unit calling" where
  "delete_client lib client_id etag c =
     delete_attempt lib client_id c (case etag of Some e \<Rightarrow> if trim e = [] then None else Some e | None \<Rightarrow> None)
       (\<lambda>e. delete_attempt lib client_id c None call_fail)"

section \<open>The kind of a connection\<close>

definition connection_type_of :: "json \<Rightarrow> string option" where
  "connection_type_of client =
     Option.bind (Option.bind (value_get client ''spec'') (\<lambda>s. value_get s ''connection_type'')) as_str"

text \<open>What a problem says in its own words, never what it echoes of the request.\<close>

definition entry_says :: "api_lib \<Rightarrow> jmap \<Rightarrow> string list" where
  "entry_says lib entry =
     (case map_of entry ''loc'' of
        Some (JArray parts) \<Rightarrow>
          [Words.join ''.'' (map (\<lambda>p. case p of JString s \<Rightarrow> s | q \<Rightarrow> value_text (al_float lib) q) parts)]
      | Some (JString s) \<Rightarrow> [s]
      | _ \<Rightarrow> [])
     @ (case get_str entry ''msg'' of Some s \<Rightarrow> [s] | None \<Rightarrow> [])"

definition problem_says :: "api_lib \<Rightarrow> thalovant_error \<Rightarrow> string list" where
  "problem_says lib e =
     List.map_filter id [api_detail e, api_code e]
     @ (case api_problem_of e of
          None \<Rightarrow> []
        | Some p \<Rightarrow>
            concat (map (entry_says lib) (List.map_filter as_object (concat
              (List.map_filter (\<lambda>k. Option.bind (map_of p k) as_array) [''errors'', ''detail''])))))"

definition refuses_connection_type :: "api_lib \<Rightarrow> thalovant_error \<Rightarrow> bool" where
  "refuses_connection_type lib e \<longleftrightarrow>
     status_code e = Some 422
     \<and> list_ex (\<lambda>s. contains s ''connection_type'' \<or> contains s ''connectionType'') (problem_says lib e)"

definition made_instead :: "json \<Rightarrow> string" where
  "made_instead client =
     ''the Thalovant API made ''
     @ (case connection_type_of client of Some k \<Rightarrow> ''a `'' @ k @ ''`'' | None \<Rightarrow> ''an untyped'')
     @ '' connection instead''"

definition require_connection_type :: "api_lib \<Rightarrow> json \<Rightarrow> string \<Rightarrow> control_plane \<Rightarrow> unit calling" where
  "require_connection_type lib client kind c =
     (if connection_type_of client = Some kind then call_return ()
      else
        (case value_text_field client ''id'' of
           None \<Rightarrow> call_fail (UnsupportedConnectionType kind (made_instead client) None None)
         | Some client_id \<Rightarrow>
             call_try (delete_client lib client_id (value_text_field client ''etag'') c) (\<lambda>r.
               call_fail (UnsupportedConnectionType kind
                 (made_instead client
                   @ (case r of
                        Inr u \<Rightarrow> '', and it was deleted''
                      | Inl e \<Rightarrow> ''; deleting it ('' @ client_id @ '') failed, so remove it in the dashboard''))
                 None None))))"

section \<open>A new connection and its identity\<close>

record bootstrap_options =
  bo_name :: string
  bo_site_id :: "string option"
  bo_spec :: jmap
  bo_owner_id :: "string option"
  bo_active :: "bool option"
  bo_preferred :: "hub_protocol list"
  bo_idempotency_key :: "string option"

record bootstrap_result =
  br_identity :: identity
  br_hub :: json
  br_client :: json
  br_endpoint :: "(hub_protocol \<times> string) option"

definition clean_site_id :: "string \<Rightarrow> string" where
  "clean_site_id v =
     (let cleaned = Words.join ''-'' (split_whitespace (map (\<lambda>c. if c = CHR ''_'' then CHR ''-'' else c) (trim v)))
      in if cleaned = [] then ''thalovant-client'' else cleaned)"

definition sanitize_caller_spec :: "jmap \<Rightarrow> jmap" where
  "sanitize_caller_spec spec = bt_remove ''crypto_key'' (bt_remove ''cryptoKey'' spec)"

definition strip_endpoint_path :: "'u url_lib \<Rightarrow> string \<Rightarrow> string" where
  "strip_endpoint_path urls endpoint =
     (case ul_parse urls endpoint of
        None \<Rightarrow> trim_end_char CHR ''/'' endpoint
      | Some u \<Rightarrow>
          trim_end_char CHR ''/'' (ul_as_str urls (ul_no_fragment urls (ul_no_query urls (ul_set_path urls [] u)))))"

definition default_master ::
    "api_lib \<Rightarrow> 'u url_lib \<Rightarrow> json \<Rightarrow> endpoints \<Rightarrow> (hub_protocol \<times> string) option \<Rightarrow> string res" where
  "default_master lib urls hub e selected =
     (case ep_https e of
        Some https \<Rightarrow> Inr (strip_endpoint_path urls https)
      | None \<Rightarrow>
          (case Option.bind (Option.bind (value_get hub ''domain'') (json_string lib)) (\<lambda>d. endpoint_from_domain urls d Https) of
             Some endpoint \<Rightarrow> Inr endpoint
           | None \<Rightarrow>
               (case selected of
                  Some s \<Rightarrow> Inr (strip_endpoint_path urls (snd s))
                | None \<Rightarrow> Inl (Api ''hub resource does not expose a usable data-plane endpoint''))))"

definition client_spec :: "bootstrap_options \<Rightarrow> string option \<Rightarrow> string \<Rightarrow> string \<Rightarrow> string \<Rightarrow> jmap" where
  "client_spec opts kind api_key password site_id =
     (let spec = sanitize_caller_spec (bo_spec opts);
          spec = (if map_of spec ''version'' = None then bt_insert ''version'' (JString ''1'') spec else spec);
          spec = (case kind of Some k \<Rightarrow> bt_insert ''connection_type'' (JString k) spec | None \<Rightarrow> spec)
      in bt_insert ''siteId'' (JString site_id)
           (bt_insert ''password'' (JString password) (bt_insert ''apiKey'' (JString api_key) spec)))"

definition client_payload :: "bootstrap_options \<Rightarrow> string \<Rightarrow> jmap \<Rightarrow> json" where
  "client_payload opts hub_id spec =
     JObject ((case bo_owner_id opts of Some w \<Rightarrow> bt_insert ''owner_id'' (JString w) | None \<Rightarrow> id)
       (bt_insert ''active'' (JBool (case bo_active opts of Some b \<Rightarrow> b | None \<Rightarrow> True))
         (bt_insert ''spec'' (JObject spec)
           (bt_insert ''name'' (JString (bo_name opts)) (bt_insert ''hub_id'' (JString hub_id) [])))))"

definition unsupported_kind :: "string \<Rightarrow> thalovant_error \<Rightarrow> thalovant_error" where
  "unsupported_kind kind e =
     UnsupportedConnectionType kind
       (''the Thalovant API cannot create one yet (HTTP ''
         @ show_nat (case status_code e of Some n \<Rightarrow> n | None \<Rightarrow> 422) @ '')'')
       (status_code e) (api_problem_of e)"

definition identity_of_client ::
    "api_lib \<Rightarrow> 'u url_lib \<Rightarrow> json \<Rightarrow> json \<Rightarrow> bootstrap_options \<Rightarrow> string \<Rightarrow> string \<Rightarrow> string \<Rightarrow> bootstrap_result res" where
  "identity_of_client lib urls hub client opts api_key password site_id =
     (let protocols = settings_from_value hub;
          e = endpoints_from_hub urls hub;
          selected = select_data_plane_endpoint e protocols (bo_preferred opts)
      in res_bind (default_master lib urls hub e selected) (\<lambda>master.
         res_bind
           (case Option.bind (value_get client ''initial_identify'') as_object of
              Some m \<Rightarrow>
                identity_from_value urls (JObject (bt_insert ''protocols'' (as_spec_value protocols)
                  (bt_insert ''data_plane_endpoints'' (JObject (endpoints_as_map urls False e)) m)))
            | None \<Rightarrow>
                Inr \<lparr>id_access_key = api_key, id_password = password, id_site_id = site_id, id_default_master = master,
                  id_default_port = 443, id_default_path = [], id_public_key = None, id_metadata = [],
                  id_name = Some (bo_name opts), id_endpoints = e, id_protocols = protocols, id_mqtt = None\<rparr>)
           (\<lambda>i. Inr \<lparr>br_identity = i, br_hub = hub, br_client = client, br_endpoint = selected\<rparr>)))"

definition provision_client_identity ::
    "api_lib \<Rightarrow> 'u url_lib \<Rightarrow> json \<Rightarrow> bootstrap_options \<Rightarrow> string option \<Rightarrow> control_plane \<Rightarrow> bootstrap_result calling" where
  "provision_client_identity lib urls hub opts kind c log =
     (if trim (bo_name opts) = [] then (Inl (Api ''client name is required''), log)
      else case Option.bind (value_get hub ''id'') (json_string lib) of
             None \<Rightarrow> (Inl (Api ''hub resource is missing id''), log)
           | Some hub_id \<Rightarrow>
               (let site_id = clean_site_id (case bo_site_id opts of Some s \<Rightarrow> s | None \<Rightarrow> bo_name opts);
                    api_key = al_secret lib log 0; password = al_secret lib log 1;
                    body = client_payload opts hub_id (client_spec opts kind api_key password site_id)
                in call_try (create_client lib body (bo_idempotency_key opts) c) (\<lambda>created.
                     case created of
                       Inl e \<Rightarrow>
                         (case kind of
                            Some k \<Rightarrow> if refuses_connection_type lib e then call_fail (unsupported_kind k e) else call_fail e
                          | None \<Rightarrow> call_fail e)
                     | Inr client \<Rightarrow>
                         call_bind (case kind of Some k \<Rightarrow> require_connection_type lib client k c | None \<Rightarrow> call_return ())
                           (\<lambda>u. call_res (identity_of_client lib urls hub client opts api_key password site_id))) log))"

definition create_client_identity ::
    "api_lib \<Rightarrow> 'u url_lib \<Rightarrow> json \<Rightarrow> bootstrap_options \<Rightarrow> control_plane \<Rightarrow> bootstrap_result calling" where
  "create_client_identity lib urls hub opts = provision_client_identity lib urls hub opts None"

definition create_client_identity_of_type ::
    "api_lib \<Rightarrow> 'u url_lib \<Rightarrow> json \<Rightarrow> string \<Rightarrow> bootstrap_options \<Rightarrow> control_plane \<Rightarrow> bootstrap_result calling" where
  "create_client_identity_of_type lib urls hub kind opts c =
     (if trim kind = [] then call_fail (Api ''connection type must not be blank'')
      else provision_client_identity lib urls hub opts (Some (trim kind)) c)"

definition create_client_identity_for_hub_id ::
    "api_lib \<Rightarrow> 'u url_lib \<Rightarrow> string \<Rightarrow> bootstrap_options \<Rightarrow> control_plane \<Rightarrow> bootstrap_result calling" where
  "create_client_identity_for_hub_id lib urls hub_id opts c =
     call_bind (api_call lib c ''GET'' (''/v1/hubs/'' @ al_encode lib hub_id) None [] True)
       (\<lambda>hub. create_client_identity lib urls hub opts c)"

section \<open>What a result shows\<close>

definition protocol_name :: "hub_protocol \<Rightarrow> string" where
  "protocol_name q = (case q of Wss \<Rightarrow> ''wss'' | Https \<Rightarrow> ''https'' | Mqtt \<Rightarrow> ''mqtt'')"

definition protocol_debug :: "hub_protocol \<Rightarrow> string" where
  "protocol_debug q = (case q of Wss \<Rightarrow> ''Wss'' | Https \<Rightarrow> ''Https'' | Mqtt \<Rightarrow> ''Mqtt'')"

definition result_client_id :: "bootstrap_result \<Rightarrow> string option" where
  "result_client_id r = value_text_field (br_client r) ''id''"

definition result_as_value :: "'u url_lib \<Rightarrow> bool \<Rightarrow> bootstrap_result \<Rightarrow> json" where
  "result_as_value urls include_secrets r =
     (let i = br_identity r;
          e = endpoints_as_map urls (\<not> include_secrets) (id_endpoints i);
          shown = (if include_secrets then (\<lambda>v. v) else redact_value);
          fields =
            [(''site_id'', JString (id_site_id i)), (''default_master'', JString (id_default_master i)),
             (''default_port'', JNumber (PosInt (of_nat (id_default_port i)))),
             (''default_path'', JString (id_default_path i))]
            @ (if e \<noteq> [] then [(''data_plane_endpoints'', JObject e)] else [])
            @ (if id_metadata i \<noteq> []
               then [(''metadata'', JObject (if include_secrets then id_metadata i else redact_map (id_metadata i)))] else [])
            @ (if include_secrets
               then [(''access_key'', JString (id_access_key i)), (''password'', JString (id_password i))] else [])
            @ (case id_mqtt i of Some b \<Rightarrow> [(''mqtt'', broker_as_value b include_secrets)] | None \<Rightarrow> [])
      in JObject (bt_collect
           [(''identity'', JObject (bt_collect fields)), (''hub'', shown (br_hub r)), (''client'', shown (br_client r)),
            (''selected_protocol'', opt_json (\<lambda>s. JString (protocol_name (fst s))) (br_endpoint r)),
            (''selected_endpoint'', opt_json (\<lambda>s. JString (snd s)) (br_endpoint r))]))"

definition require_runtime_protocol ::
    "'u url_lib \<Rightarrow> bootstrap_result \<Rightarrow> hub_protocol \<Rightarrow> (hub_protocol \<times> string) res" where
  "require_runtime_protocol urls r q =
     (if q = Mqtt \<and> id_mqtt (br_identity r) = None
      then Inl (UnsupportedProtocol ''MQTT is enabled, but the API did not return client-scoped MQTT broker credentials'')
      else case endpoint_for urls (br_identity r) q of
             None \<Rightarrow> Inl (UnsupportedProtocol (''this hub does not expose a '' @ protocol_debug q @ '' endpoint for the SDK runtime''))
           | Some s \<Rightarrow> Inr (q, s))"

section \<open>What a failed call says of its answer\<close>

lemma form_request_no_status: "form_request lib c verb path body headers auth = Inl e \<Longrightarrow> status_code e = None"
  by (auto simp: form_request_def res_bind_eq_Inl validate_control_request_url_def header_ok_def bearer_headers_def
      status_code_def api_answer_def split: option.splits if_splits sum.splits)

lemma unreachable_no_status [simp]: "status_code (unreachable_error builder m) = None"
  by (simp add: unreachable_error_def api_unreachable_def status_code_def api_answer_def)

lemma answer_value_status: "answer_value lib status s = Inl e \<Longrightarrow> status_code e = Some status"
  by (auto simp: answer_value_def api_response_error_def Let_def status_code_def api_answer_def split: if_splits sum.splits)

definition answered_with :: "api_lib \<Rightarrow> api_log \<Rightarrow> nat \<Rightarrow> bool" where
  "answered_with lib log n \<longleftrightarrow> (\<exists>r. al_answer lib log = Answered r \<and> as_status r = n)"

lemma api_call_status:
  assumes "api_call lib c verb path body headers auth log = (Inl e, log')" and "status_code e = Some n"
  shows "\<exists>rq. log' = log @ [Sent rq] \<and> ar_method rq = verb \<and> answered_with lib log' n"
proof -
  obtain q log1 where q: "send_control lib c verb path body headers auth log = (q, log1)" by fastforce
  have "log' = log1"
    using assms(1) q by (auto simp: api_call_def send_request_def send_request_full_def call_bind_def call_return_def
        call_res_def call_fail_def Let_def split: sum.splits if_splits)
  obtain rq where rq: "form_request lib c verb path body headers auth = Inr rq"
    using assms q form_request_no_status
    by (cases "form_request lib c verb path body headers auth")
      (auto simp: api_call_def send_request_def send_request_full_def send_control_def call_bind_def)
  then have log1: "log1 = log @ [Sent rq]" using q by (simp add: send_control_def)
  have "answered_with lib log1 n"
  proof (cases "al_answer lib log1")
    case (No_Answer b m)
    then show ?thesis using assms q rq log1
      by (auto simp: api_call_def send_request_def send_request_full_def send_control_def call_bind_def)
  next
    case (Answered r)
    show ?thesis
    proof (cases "status_redirection (as_status r)")
      case True
      then have "e = ApiResponse (as_status r) REDIRECT_REFUSED None"
        using assms(1) q rq log1 Answered
        by (auto simp: api_call_def send_request_def send_request_full_def send_control_def call_bind_def)
      then show ?thesis using assms(2) Answered by (simp add: answered_with_def status_code_def api_answer_def)
    next
      case False
      then have "q = Inr r" using q rq log1 Answered by (simp add: send_control_def)
      then have "status_code e = None \<or> (\<exists>s. answer_value lib (as_status r) s = Inl e)"
        using assms(1) q by (auto simp: api_call_def send_request_def send_request_full_def call_bind_def call_return_def
            call_res_def call_fail_def Let_def split: sum.splits if_splits)
      then show ?thesis using assms(2) Answered answer_value_status by (auto simp: answered_with_def)
    qed
  qed
  then show ?thesis using log1 \<open>log' = log1\<close> form_request_fields [OF rq] by blast
qed

section \<open>Deleting\<close>

text \<open>The last request of a deletion that succeeded: a DELETE that was granted, or an answer that it is not there.\<close>

definition gone :: "api_lib \<Rightarrow> api_log \<Rightarrow> bool" where
  "gone lib log \<longleftrightarrow>
     (\<exists>before rq. log = before @ [Sent rq]
        \<and> (ar_method rq = ''DELETE'' \<and> (\<exists>v. succeeded lib log v) \<or> answered_with lib log 404))"

lemma current_etag_status:
  assumes "current_etag lib i c log = (Inl e, log')" and "status_code e = Some n"
  shows "\<exists>rq. log' = log @ [Sent rq] \<and> answered_with lib log' n"
proof -
  obtain r log1 where r: "get_client lib i c log = (r, log1)" by fastforce
  show ?thesis
  proof (cases r)
    case (Inl e')
    then have "e' = e" "log1 = log'" using assms(1) r by (simp_all add: current_etag_def call_bind_def)
    then show ?thesis using r Inl assms(2) api_call_status unfolding get_client_def by blast
  next
    case (Inr v)
    then have "e = Api ''client resource is missing etag''"
      using assms(1) r by (auto simp: current_etag_def call_bind_def call_res_def ok_or_def split: option.splits)
    then show ?thesis using assms(2) by (simp add: status_code_def api_answer_def)
  qed
qed

lemma delete_attempt_gone:
  assumes again: "\<And>e log log'. again e log = (Inr u, log') \<Longrightarrow> gone lib log'"
    and ok: "delete_attempt lib i c etag again log = (Inr u, log')"
  shows "gone lib log'"
proof -
  let ?etag = "case etag of Some e \<Rightarrow> call_return e | None \<Rightarrow> current_etag lib i c"
  let ?del = "\<lambda>e. call_bind (call_res (single_header lib ''if-match'' e))
      (\<lambda>headers. api_call lib c ''DELETE'' (client_path lib i) None headers True)"
  obtain r log1 where r: "call_bind ?etag ?del log = (r, log1)" by fastforce
  have rest: "(case r of Inr v \<Rightarrow> call_return () | Inl e \<Rightarrow>
      if status_code e = Some 404 then call_return () else if status_code e = Some 412 then again e else call_fail e) log1
      = (Inr u, log')"
    using ok r by (simp add: delete_attempt_def call_try_def)
  show ?thesis
  proof (cases r)
    case (Inr v)
    then obtain headers log0 where "api_call lib c ''DELETE'' (client_path lib i) None headers True log0 = (Inr v, log1)"
      using r by (auto simp: call_bind_Inr)
    then obtain rq where "log1 = log0 @ [Sent rq]" "ar_method rq = ''DELETE''" "succeeded lib log1 v"
      using api_call_Inr form_request_fields by blast
    then show ?thesis using rest Inr by (auto simp: gone_def call_return_def)
  next
    case (Inl e)
    show ?thesis
    proof (cases "status_code e = Some 404")
      case True
      have no: "single_header lib name v = Inl e' \<Longrightarrow> status_code e' = None" for name v e'
        by (auto simp: single_header_def res_bind_eq_Inl header_ok_def status_code_def api_answer_def split: sum.splits)
      have "\<exists>before rq. log1 = before @ [Sent rq] \<and> answered_with lib log1 404"
      proof (cases "fst (?etag log)")
        case (Inl e')
        then obtain log2 where "?etag log = (Inl e', log2)" by (metis prod.collapse)
        then have "etag = None" "e' = e" "log2 = log1" "current_etag lib i c log = (Inl e, log1)"
          using r \<open>r = Inl e\<close> by (auto simp: call_bind_def call_return_def split: option.splits)
        then show ?thesis using current_etag_status True by blast
      next
        case (Inr x)
        then obtain log2 where "?etag log = (Inr x, log2)" by (metis prod.collapse)
        then have "?del x log2 = (Inl e, log1)" using r \<open>r = Inl e\<close> by (simp add: call_bind_def)
        then obtain headers where "api_call lib c ''DELETE'' (client_path lib i) None headers True log2 = (Inl e, log1)"
          using no True by (auto simp: call_bind_def call_res_def split: sum.splits)
        then show ?thesis using api_call_status True by blast
      qed
      then show ?thesis using rest Inl True by (auto simp: gone_def call_return_def)
    next
      case False
      then show ?thesis using rest Inl again by (auto simp: call_fail_def split: if_splits)
    qed
  qed
qed

lemma delete_attempt_sends:
  assumes "\<And>e. sends_at_most n (again e)"
  shows "sends_at_most (2 + n) (delete_attempt lib i c etag again)"
proof -
  have etag: "sends_at_most 1 (case etag of Some e \<Rightarrow> call_return e | None \<Rightarrow> current_etag lib i c)"
  proof (cases etag)
    case None
    have "sends_at_most (1 + 0) (current_etag lib i c)"
      unfolding current_etag_def get_client_def by (intro sends_bind sends_call sends_none)
    then show ?thesis using None by simp
  next
    case (Some e)
    then show ?thesis using sends_mono [OF sends_none(1), of 1 e] by simp
  qed
  have "sends_at_most (1 + (0 + 1)) (call_bind (case etag of Some e \<Rightarrow> call_return e | None \<Rightarrow> current_etag lib i c)
      (\<lambda>e. call_bind (call_res (single_header lib ''if-match'' e))
        (\<lambda>headers. api_call lib c ''DELETE'' (client_path lib i) None headers True)))"
    by (intro sends_bind etag sends_none sends_call)
  moreover have "sends_at_most n (case r of Inr v \<Rightarrow> call_return () | Inl e \<Rightarrow>
      if status_code e = Some 404 then call_return () else if status_code e = Some 412 then again e else call_fail e)"
    for r :: "json res"
    using assms sends_mono [OF sends_none(1)] sends_mono [OF sends_none(2)] by (auto split: sum.split)
  ultimately have "sends_at_most ((1 + (0 + 1)) + n) (delete_attempt lib i c etag again)"
    unfolding delete_attempt_def by (rule sends_try)
  then show ?thesis by simp
qed

text \<open>
  Deleting a client comes to an end after four requests at most, whoever changes it meanwhile, and it is
  reported deleted only when the API granted the last DELETE or said that there is no such client.
\<close>

theorem delete_means_gone:
  assumes "delete_client lib i etag c log = (r, log')"
  shows "sent_count log' \<le> sent_count log + 4 \<and> (r = Inr u \<longrightarrow> gone lib log')"
proof
  have "sends_at_most (2 + (2 + 0)) (delete_client lib i etag c)"
    unfolding delete_client_def by (intro delete_attempt_sends sends_none)
  then show "sent_count log' \<le> sent_count log + 4" using assms unfolding sends_at_most_def by (metis add_0_right numeral_Bit0 snd_conv)
  show "r = Inr u \<longrightarrow> gone lib log'"
  proof
    assume "r = Inr u"
    then have ok: "delete_client lib i etag c log = (Inr u, log')" using assms by simp
    have fail: "call_fail e l = (Inr u, l') \<Longrightarrow> gone lib l'" for e and l l' :: api_log by (simp add: call_fail_def)
    show "gone lib log'"
      by (rule delete_attempt_gone [OF delete_attempt_gone [OF fail] ok [unfolded delete_client_def]])
  qed
qed

section \<open>Making a connection\<close>

lemma require_connection_type_Inr:
  "require_connection_type lib client kind c log = (Inr u, log') \<Longrightarrow> connection_type_of client = Some kind \<and> log' = log"
  by (auto simp: require_connection_type_def call_return_def call_fail_def call_try_def split: if_splits option.splits prod.splits)

lemma create_client_Inr:
  assumes "create_client lib body key c log = (Inr v, log')"
  shows "\<exists>rq. log' = log @ [Sent rq] \<and> sent_by c rq \<and> ar_method rq = ''POST'' \<and> ar_body rq = Some body \<and> succeeded lib log' v"
proof -
  let ?key = "case key of Some k \<Rightarrow> k | None \<Rightarrow> al_uuid lib log"
  obtain headers where h: "single_header lib ''idempotency-key'' ?key = Inr headers"
      and post: "api_call lib c ''POST'' ''/v1/clients'' (Some body) headers True log = (Inr v, log')"
    using assms by (auto simp: create_client_def call_bind_Inr call_res_def)
  have "''authorization'' \<notin> fst ` set headers" using h by (auto simp: single_header_def res_bind_eq_Inr)
  moreover obtain rq where rq: "form_request lib c ''POST'' ''/v1/clients'' (Some body) headers True = Inr rq"
      "log' = log @ [Sent rq]" "succeeded lib log' v"
    using api_call_Inr [OF post] by blast
  ultimately have "sent_by c rq" using form_request_sent by blast
  then show ?thesis using rq form_request_fields [OF rq(1)] by blast
qed

lemma spec_of_payload: "value_get (client_payload opts hub_id spec) ''spec'' = Some (JObject spec)"
  by (simp add: client_payload_def value_get_def split: option.split)

lemma client_spec_fields:
  "map_of (client_spec opts kind api_key password site_id) ''apiKey'' = Some (JString api_key)"
  "map_of (client_spec opts kind api_key password site_id) ''password'' = Some (JString password)"
  "map_of (client_spec opts kind api_key password site_id) ''siteId'' = Some (JString site_id)"
  "map_of (client_spec opts kind api_key password site_id) ''cryptoKey'' = None"
  "map_of (client_spec opts kind api_key password site_id) ''crypto_key'' = None"
  "map_of (client_spec opts (Some k) api_key password site_id) ''connection_type'' = Some (JString k)"
  by (auto simp: client_spec_def sanitize_caller_spec_def Let_def split: option.split)

lemma identity_of_client_fields:
  assumes "identity_of_client lib urls hub client opts api_key password site_id = Inr r"
  shows "br_client r = client \<and> br_hub r = hub
     \<and> (Option.bind (value_get client ''initial_identify'') as_object = None \<longrightarrow>
          id_access_key (br_identity r) = api_key \<and> id_password (br_identity r) = password)"
  using assms by (auto simp: identity_of_client_def res_bind_eq_Inr Let_def split: option.splits)

text \<open>
  C20: a connection of a kind is made with one request, which carries the kind asked for, secrets made for it
  and no legacy key, safely; it is returned only when the API says it is of that kind, and what it is
  used with are the secrets sent, unless the API names an identity of its own.
\<close>

theorem connection_is_as_asked:
  assumes "create_client_identity_of_type lib urls hub kind opts c log = (Inr r, log')"
  shows "connection_type_of (br_client r) = Some (trim kind) \<and> br_hub r = hub
     \<and> (\<exists>rq body spec. log' = log @ [Sent rq] \<and> sent_by c rq \<and> succeeded lib log' (br_client r)
          \<and> ar_method rq = ''POST'' \<and> ar_body rq = Some body \<and> value_get body ''spec'' = Some (JObject spec)
          \<and> map_of spec ''connection_type'' = Some (JString (trim kind))
          \<and> map_of spec ''apiKey'' = Some (JString (al_secret lib log 0))
          \<and> map_of spec ''password'' = Some (JString (al_secret lib log 1))
          \<and> map_of spec ''cryptoKey'' = None \<and> map_of spec ''crypto_key'' = None)
     \<and> (Option.bind (value_get (br_client r) ''initial_identify'') as_object = None \<longrightarrow>
          id_access_key (br_identity r) = al_secret lib log 0 \<and> id_password (br_identity r) = al_secret lib log 1)"
proof -
  let ?site = "clean_site_id (case bo_site_id opts of Some s \<Rightarrow> s | None \<Rightarrow> bo_name opts)"
  let ?spec = "client_spec opts (Some (trim kind)) (al_secret lib log 0) (al_secret lib log 1) ?site"
  have run: "provision_client_identity lib urls hub opts (Some (trim kind)) c log = (Inr r, log')"
    using assms by (auto simp: create_client_identity_of_type_def call_fail_def split: if_splits)
  then obtain hub_id where hub_id: "Option.bind (value_get hub ''id'') (json_string lib) = Some hub_id"
    by (auto simp: provision_client_identity_def split: if_splits option.splits)
  let ?body = "client_payload opts hub_id ?spec"
  obtain created log1 where created: "create_client lib ?body (bo_idempotency_key opts) c log = (created, log1)" by fastforce
  obtain client where client: "created = Inr client"
    using run hub_id created
    by (cases created) (auto simp: provision_client_identity_def call_try_def call_fail_def Let_def split: if_splits)
  then have "call_bind (require_connection_type lib client (trim kind) c)
      (\<lambda>u. call_res (identity_of_client lib urls hub client opts (al_secret lib log 0) (al_secret lib log 1) ?site)) log1
      = (Inr r, log')"
    using run hub_id created by (auto simp: provision_client_identity_def call_try_def Let_def split: if_splits)
  then have kind: "connection_type_of client = Some (trim kind)" and log': "log' = log1"
      and made: "identity_of_client lib urls hub client opts (al_secret lib log 0) (al_secret lib log 1) ?site = Inr r"
    using require_connection_type_Inr by (auto simp: call_bind_Inr call_res_def)
  obtain rq where "log1 = log @ [Sent rq]" "sent_by c rq" "ar_method rq = ''POST''" "ar_body rq = Some ?body" "succeeded lib log1 client"
    using create_client_Inr created client by blast
  then show ?thesis
    using kind log' identity_of_client_fields [OF made] spec_of_payload client_spec_fields
    by (intro conjI exI [of _ rq] exI [of _ ?body] exI [of _ ?spec]) simp_all
qed

text \<open>
  A hub without an endpoint is only found out after the connection was made: the call fails, and the
  connection it made, with its secrets, is left at the API.
\<close>

lemma connection_left_behind:
  assumes "create_client lib (client_payload opts ''h'' (client_spec opts None (al_secret lib log 0) (al_secret lib log 1)
        (clean_site_id (case bo_site_id opts of Some s \<Rightarrow> s | None \<Rightarrow> bo_name opts)))) (bo_idempotency_key opts) c log
      = (Inr client, log')" and "trim (bo_name opts) \<noteq> []"
  shows "create_client_identity lib urls (JObject [(''id'', JString ''h'')]) opts c log
     = (Inl (Api ''hub resource does not expose a usable data-plane endpoint''), log')"
proof -
  let ?hub = "JObject [(''id'', JString ''h'')]"
  have "trim ''h'' = ''h''" by (simp add: trim_plain plain_char_def)
  then have id: "Option.bind (value_get ?hub ''id'') (json_string lib) = Some ''h''"
    by (simp add: value_get_def json_string_def text_of_def)
  have none: "endpoints_from_hub urls ?hub = no_endpoints"
    by (simp add: endpoints_from_hub_def endpoints_from_value_def endpoints_from_object_def no_endpoints_def
        first_string_def normalize_endpoint_def)
  have "select_data_plane_endpoint no_endpoints p qs = None" for p qs
    by (auto simp: select_data_plane_endpoint_def find_map_None endpoint_of_def no_endpoints_def split: hub_protocol.split)
  then have "identity_of_client lib urls ?hub client opts a b s
      = Inl (Api ''hub resource does not expose a usable data-plane endpoint'')" for a b s
    unfolding identity_of_client_def none by (simp add: default_master_def no_endpoints_def value_get_def)
  then show ?thesis
    using assms id by (simp add: create_client_identity_def provision_client_identity_def call_try_def call_bind_def
        call_return_def call_res_def Let_def)
qed

section \<open>An API that makes a connection of a kind\<close>

definition typed_client :: json where
  "typed_client = JObject [(''etag'', JString ''e''), (''id'', JString ''c''),
     (''spec'', JObject [(''connection_type'', JString ''k'')])]"

definition typed_api :: api_lib where "typed_api = sample_api\<lparr>al_parse := \<lambda>s. Inr typed_client\<rparr>"

definition typed_hub :: json where
  "typed_hub = JObject [(''domain'', JString ''http://hub/''), (''id'', JString ''h'')]"

definition typed_options :: bootstrap_options where
  "typed_options = \<lparr>bo_name = ''n'', bo_site_id = None, bo_spec = [], bo_owner_id = None, bo_active = None,
     bo_preferred = [], bo_idempotency_key = Some ''i''\<rparr>"

lemma typed_call:
  assumes "\<not> url_has_userinfo (''https://hub/'' @ dropWhile (\<lambda>d. d = CHR ''/'') path)"
  shows "\<exists>rq. api_call typed_api store_plane verb path body headers True log = (Inr typed_client, log @ [Sent rq])"
proof -
  obtain rq where "form_request typed_api store_plane verb path body headers True = Inr rq"
    using assms by (simp add: form_request_def validate_control_request_url_def header_ok_def bearer_headers_def
        typed_api_def sample_api_def store_plane_def sample_plane_def sample_url_def)
  moreover have "trim ''x'' = ''x''" by (simp add: trim_plain plain_char_def)
  ultimately show ?thesis
    by (simp add: api_call_def send_request_def send_request_full_def send_control_def call_bind_def call_return_def
        call_res_def status_success_def status_redirection_def answer_value_def typed_api_def sample_api_def)
qed

theorem delete_means_gone_witness:
  "\<exists>log'. delete_client typed_api ''c'' (Some ''e'') store_plane [] = (Inr (), log') \<and> gone typed_api log'"
proof -
  have "\<not> url_has_userinfo (''https://hub/'' @ dropWhile (\<lambda>d. d = CHR ''/'') ''/v1/clients/c'')"
    by (simp add: url_has_userinfo_def starts_with_def)
  then obtain rq where "api_call typed_api store_plane ''DELETE'' ''/v1/clients/c'' None [(''if-match'', ''e'')] True []
      = (Inr typed_client, [Sent rq])" using typed_call [of "''/v1/clients/c''" "''DELETE''" None "[(''if-match'', ''e'')]" "[]"] by auto
  moreover have "client_path typed_api ''c'' = ''/v1/clients/c''" "trim ''e'' = ''e''"
      "single_header typed_api ''if-match'' ''e'' = Inr [(''if-match'', ''e'')]"
    by (simp_all add: client_path_def typed_api_def sample_api_def single_header_def header_ok_def trim_plain plain_char_def)
  ultimately have "delete_client typed_api ''c'' (Some ''e'') store_plane [] = (Inr (), [Sent rq])"
    by (simp add: delete_client_def delete_attempt_def call_try_def call_bind_def call_return_def call_res_def)
  then show ?thesis using delete_means_gone [of typed_api "''c''" "Some ''e''" store_plane "[]"] by blast
qed

theorem connection_is_as_asked_witness:
  "\<exists>r log'. create_client_identity_of_type typed_api sample_urls typed_hub ''k'' typed_options store_plane [] = (Inr r, log')
     \<and> connection_type_of (br_client r) = Some ''k''"
proof -
  have trims: "trim ''k'' = ''k''" "trim ''n'' = ''n''" "trim ''h'' = ''h''" "trim ''http://hub/'' = ''http://hub/''"
    by (simp_all add: trim_plain plain_char_def)
  have "\<not> url_has_userinfo (''https://hub/'' @ dropWhile (\<lambda>d. d = CHR ''/'') ''/v1/clients'')"
    by (simp add: url_has_userinfo_def starts_with_def)
  then have post: "\<exists>rq. create_client typed_api body (Some ''i'') store_plane [] = (Inr typed_client, [Sent rq])" for body
    using typed_call [of "''/v1/clients''" "''POST''" "Some body" "[(''idempotency-key'', ''i'')]" "[]"]
    by (simp add: create_client_def call_bind_def call_res_def single_header_def header_ok_def typed_api_def sample_api_def)
  have id: "Option.bind (value_get typed_hub ''id'') (json_string typed_api) = Some ''h''"
    by (simp add: typed_hub_def value_get_def json_string_def text_of_def trims)
  have kind: "require_connection_type typed_api typed_client ''k'' store_plane log = (Inr (), log)" for log
    by (simp add: require_connection_type_def connection_type_of_def typed_client_def value_get_def call_return_def)
  have no_https: "ep_https (endpoints_from_hub sample_urls typed_hub) = None"
    by (simp add: endpoints_from_hub_def endpoints_from_value_def endpoints_from_object_def typed_hub_def first_string_def
        normalize_endpoint_def settings_from_value_def settings_from_object_def get_object_def map_filter_simps
        enabled_value.simps first_value.simps text_of_def trims Let_def split: option.split)
  have domain: "Option.bind (Option.bind (value_get typed_hub ''domain'') (json_string typed_api))
      (\<lambda>d. endpoint_from_domain sample_urls d Https) = Some ''https://hub''"
    using sample_domain by (simp add: typed_hub_def value_get_def json_string_def text_of_def trims)
  have none: "Option.bind (value_get typed_client ''initial_identify'') as_object = None"
    by (simp add: typed_client_def value_get_def)
  have made: "\<exists>r. identity_of_client typed_api sample_urls typed_hub typed_client typed_options a b s = Inr r" for a b s
    unfolding identity_of_client_def default_master_def no_https domain none Let_def by simp
  let ?site = "clean_site_id (case bo_site_id typed_options of Some s \<Rightarrow> s | None \<Rightarrow> bo_name typed_options)"
  let ?body = "client_payload typed_options ''h''
      (client_spec typed_options (Some ''k'') (al_secret typed_api [] 0) (al_secret typed_api [] 1) ?site)"
  obtain rq where rq: "create_client typed_api ?body (bo_idempotency_key typed_options) store_plane [] = (Inr typed_client, [Sent rq])"
    using post [of ?body] by (auto simp: typed_options_def)
  obtain r where r: "identity_of_client typed_api sample_urls typed_hub typed_client typed_options
      (al_secret typed_api [] 0) (al_secret typed_api [] 1) ?site = Inr r" using made by blast
  have "trim (bo_name typed_options) \<noteq> []" by (simp add: typed_options_def trims)
  then have "provision_client_identity typed_api sample_urls typed_hub typed_options (Some ''k'') store_plane [] = (Inr r, [Sent rq])"
    unfolding provision_client_identity_def id option.case Let_def call_try_def rq
    by (simp del: One_nat_def add: call_bind_def call_res_def kind r)
  then have "\<exists>r log'. create_client_identity_of_type typed_api sample_urls typed_hub ''k'' typed_options store_plane [] = (Inr r, log')"
    by (simp add: create_client_identity_of_type_def trims)
  then show ?thesis using connection_is_as_asked trims(1) by fastforce
qed

end
