(* ===== verification/Control_Admission.thy ===== *)
theory Control_Admission
  imports Control_Clients
begin

text \<open>
  \<open>src/src/control.rs\<close> and \<open>src/src/control/hub_skills.rs\<close>: waiting for what the API does later, the admission of a
  connection by its hub and the change of a skill. Both poll an operation under a deadline, and both end.
  An operation is read as \<open>serde\<close> reads it, of a JSON object or of the list of its fields.
\<close>

section \<open>Operations\<close>

datatype operation_status = Requested | Committed | Applied | Ready | Failed | TimedOut

record operation =
  op_id :: string
  op_kind :: string
  op_aggregate_type :: string
  op_aggregate_id :: "string option"
  op_status :: operation_status
  op_details :: jmap
  op_git_commit_sha :: "string option"
  op_error_code :: "string option"
  op_error_message :: "string option"
  op_created_at :: string
  op_updated_at :: string
  op_committed_at :: "string option"
  op_applied_at :: "string option"
  op_ready_at :: "string option"
  op_terminal_at :: "string option"
  op_links :: "(string \<times> string option) list"

definition status_name :: "operation_status \<Rightarrow> string" where
  "status_name s =
     (case s of Requested \<Rightarrow> ''requested'' | Committed \<Rightarrow> ''committed'' | Applied \<Rightarrow> ''applied'' | Ready \<Rightarrow> ''ready''
      | Failed \<Rightarrow> ''failed'' | TimedOut \<Rightarrow> ''timed_out'')"

definition status_of_name :: "string \<Rightarrow> operation_status option" where
  "status_of_name t = find (\<lambda>s. status_name s = t) [Requested, Committed, Applied, Ready, Failed, TimedOut]"

text \<open>A variant without fields is also read of an object with its name as the one key and a null.\<close>

definition status_of_value :: "json \<Rightarrow> operation_status option" where
  "status_of_value v =
     (case v of JString t \<Rightarrow> status_of_name t | JObject [(t, JNull)] \<Rightarrow> status_of_name t | _ \<Rightarrow> None)"

definition optional_text :: "json option \<Rightarrow> string option option" where
  "optional_text v =
     (case v of None \<Rightarrow> Some None | Some JNull \<Rightarrow> Some None | Some (JString s) \<Rightarrow> Some (Some s) | _ \<Rightarrow> None)"

fun read_links :: "jmap \<Rightarrow> (string \<times> string option) list option" where
  "read_links [] = Some []"
| "read_links ((k, v) # m) =
     Option.bind (optional_text (Some v)) (\<lambda>t. map_option (Cons (k, t)) (read_links m))"

definition operation_from_map :: "jmap \<Rightarrow> operation option" where
  "operation_from_map m =
     (let opt = (\<lambda>k. optional_text (map_of m k))
      in Option.bind (get_str m ''id'') (\<lambda>i.
         Option.bind (get_str m ''kind'') (\<lambda>kind.
         Option.bind (get_str m ''aggregate_type'') (\<lambda>aggregate_type.
         Option.bind (opt ''aggregate_id'') (\<lambda>aggregate_id.
         Option.bind (Option.bind (map_of m ''status'') status_of_value) (\<lambda>status.
         Option.bind (get_object m ''details'') (\<lambda>details.
         Option.bind (opt ''git_commit_sha'') (\<lambda>sha.
         Option.bind (opt ''error_code'') (\<lambda>error_code.
         Option.bind (opt ''error_message'') (\<lambda>error_message.
         Option.bind (get_str m ''created_at'') (\<lambda>created_at.
         Option.bind (get_str m ''updated_at'') (\<lambda>updated_at.
         Option.bind (opt ''committed_at'') (\<lambda>committed_at.
         Option.bind (opt ''applied_at'') (\<lambda>applied_at.
         Option.bind (opt ''ready_at'') (\<lambda>ready_at.
         Option.bind (opt ''terminal_at'') (\<lambda>terminal_at.
         Option.bind (Option.bind (get_object m ''links'') read_links) (\<lambda>links.
           Some \<lparr>op_id = i, op_kind = kind, op_aggregate_type = aggregate_type, op_aggregate_id = aggregate_id,
             op_status = status, op_details = details, op_git_commit_sha = sha, op_error_code = error_code,
             op_error_message = error_message, op_created_at = created_at, op_updated_at = updated_at,
             op_committed_at = committed_at, op_applied_at = applied_at, op_ready_at = ready_at,
             op_terminal_at = terminal_at, op_links = links\<rparr>)))))))))))))))))"

definition OPERATION_FIELDS :: "string list" where
  "OPERATION_FIELDS =
     [''id'', ''kind'', ''aggregate_type'', ''aggregate_id'', ''status'', ''details'', ''git_commit_sha'', ''error_code'',
      ''error_message'', ''created_at'', ''updated_at'', ''committed_at'', ''applied_at'', ''ready_at'', ''terminal_at'',
      ''links'']"

fun operation_of_value :: "json \<Rightarrow> operation option" where
  "operation_of_value (JObject m) = operation_from_map m"
| "operation_of_value (JArray vs) =
     (if length vs = length OPERATION_FIELDS then operation_from_map (zip OPERATION_FIELDS vs) else None)"
| "operation_of_value _ = None"

definition operation_json :: "operation \<Rightarrow> json" where
  "operation_json p =
     JObject (bt_collect
       [(''id'', JString (op_id p)), (''kind'', JString (op_kind p)), (''aggregate_type'', JString (op_aggregate_type p)),
        (''aggregate_id'', opt_json JString (op_aggregate_id p)), (''status'', JString (status_name (op_status p))),
        (''details'', JObject (op_details p)), (''git_commit_sha'', opt_json JString (op_git_commit_sha p)),
        (''error_code'', opt_json JString (op_error_code p)), (''error_message'', opt_json JString (op_error_message p)),
        (''created_at'', JString (op_created_at p)), (''updated_at'', JString (op_updated_at p)),
        (''committed_at'', opt_json JString (op_committed_at p)), (''applied_at'', opt_json JString (op_applied_at p)),
        (''ready_at'', opt_json JString (op_ready_at p)), (''terminal_at'', opt_json JString (op_terminal_at p)),
        (''links'', JObject (bt_collect (map (\<lambda>(k, t). (k, opt_json JString t)) (op_links p))))])"

definition operation_from_value :: "api_lib \<Rightarrow> json \<Rightarrow> operation res" where
  "operation_from_value lib v = ok_or (operation_of_value v) (Json (al_says lib v))"

definition get_operation :: "api_lib \<Rightarrow> string \<Rightarrow> control_plane \<Rightarrow> operation calling" where
  "get_operation lib operation_id c =
     call_bind (api_call lib c ''GET'' (''/v1/operations/'' @ al_encode lib operation_id) None [] True)
       (\<lambda>v. call_res (operation_from_value lib v))"

definition result_operation :: "bootstrap_result \<Rightarrow> operation option" where
  "result_operation r = Option.bind (Option.bind (value_get (br_client r) ''operation'') as_object) operation_from_map"

section \<open>Polling\<close>

text \<open>A loop of turns, each of which ends the wait or leaves it to the next. Never ending is \<open>None\<close>.\<close>

partial_function (option) poll_until :: "(api_log \<Rightarrow> 'r option \<times> api_log) \<Rightarrow> api_log \<Rightarrow> ('r \<times> api_log) option" where
  "poll_until turn log =
     (case turn log of (Some r, log) \<Rightarrow> Some (r, log) | (None, log) \<Rightarrow> poll_until turn log)"

section \<open>Admission\<close>

fun after_last_text :: "string \<Rightarrow> string \<Rightarrow> string option" where
  "after_last_text p [] = strip_prefix p []"
| "after_last_text p (c # s) =
     (case after_last_text p s of Some r \<Rightarrow> Some r | None \<Rightarrow> strip_prefix p (c # s))"

definition operation_id_from_link :: "string \<Rightarrow> string option" where
  "operation_id_from_link link =
     Option.bind (after_last_text ''/v1/operations/'' link)
       (\<lambda>tail. nonempty (Some (trim_char CHR ''/'' (takeWhile (\<lambda>c. c \<notin> set ''?#'') tail))))"

definition same_origin :: "api_lib \<Rightarrow> string \<Rightarrow> string \<Rightarrow> bool" where
  "same_origin lib link api =
     (case (al_url lib link, al_url lib api) of
        (Some a, Some b) \<Rightarrow> wu_origin a \<noteq> None \<and> wu_origin a = wu_origin b
      | _ \<Rightarrow> False)"

definition admission_ended :: "string \<Rightarrow> string \<Rightarrow> json \<Rightarrow> thalovant_error" where
  "admission_ended operation_id status v =
     (let code = value_text_field v ''error_code'';
          said = (case nonempty (map_option one_bounded_line (Option.bind (value_get v ''error_message'') as_str)) of
                    Some m \<Rightarrow> m
                  | None \<Rightarrow> (case code of Some k \<Rightarrow> k | None \<Rightarrow> ''no detail''))
      in AdmissionFailed code
           (''the hub could not admit the connection: operation '' @ operation_id @ '' ended '' @ status @ '': '' @ said)
           None None)"

text \<open>What one read of the operation decides, or how long to wait for the next; \<open>left\<close> is what is left of the wait.\<close>

definition admission_says ::
    "string \<Rightarrow> duration \<Rightarrow> duration \<Rightarrow> json res \<Rightarrow> duration option \<Rightarrow> duration \<Rightarrow> unit res + duration" where
  "admission_says operation_id patience interval polled asked left =
     (case polled of
        Inr v \<Rightarrow>
          (case Option.bind (value_get v ''status'') as_str of
             None \<Rightarrow> Inr interval
           | Some s \<Rightarrow>
               if s = ''ready'' then Inl (Inr ())
               else if s = ''failed'' \<or> s = ''timed_out'' then Inl (Inl (admission_ended operation_id s v))
               else Inr interval)
      | Inl e \<Rightarrow>
          (case status_code e of
             None \<Rightarrow> Inl (Inl e)
           | Some n \<Rightarrow>
               if n = 404 then Inl (Inr ())
               else if n = 401 \<or> n = 403 then Inl (Inl e)
               else if n = 429 then
                 (let wait = max interval (case asked of Some d \<Rightarrow> d | None \<Rightarrow> 0)
                  in if left < wait then Inl (Inl (AdmissionTimeout patience)) else Inr wait)
               else if 500 \<le> n then Inr interval
               else Inl (Inl (AdmissionFailed None
                 (''the API refused the wait for the connection's admission (HTTP '' @ show_nat n @ '')'')
                 (Some n) (api_problem_of e)))))"

definition admission_turn ::
    "api_lib \<Rightarrow> control_plane \<Rightarrow> string \<Rightarrow> nat \<Rightarrow> duration \<Rightarrow> duration \<Rightarrow> api_log \<Rightarrow> unit res option \<times> api_log" where
  "admission_turn lib c operation_id deadline patience interval log =
     (case get_with_retry_after lib c (''/v1/operations/'' @ al_encode lib operation_id) log of
        (Inl e, log) \<Rightarrow> (Some (Inl e), log)
      | (Inr (polled, asked), log) \<Rightarrow>
          (if deadline < al_now lib log then (Some (Inl (AdmissionTimeout patience)), log)
           else case admission_says operation_id patience interval polled asked (deadline - al_now lib log) of
                  Inl r \<Rightarrow> (Some r, log)
                | Inr wait \<Rightarrow>
                    if deadline \<le> al_now lib log then (Some (Inl (AdmissionTimeout patience)), log)
                    else (None, log @ [Slept (min wait (deadline - al_now lib log))])))"

definition admission_id :: "api_lib \<Rightarrow> operation \<Rightarrow> control_plane \<Rightarrow> string res" where
  "admission_id lib p c =
     (let link = trim (case map_of (op_links p) ''self'' of Some (Some l) \<Rightarrow> l | _ \<Rightarrow> []);
          lowered = map ascii_lower link
      in if (starts_with lowered ''http://'' \<or> starts_with lowered ''https://'') \<and> \<not> same_origin lib link (cp_api_url c)
         then Inl (Api ''the admission operation points outside the Thalovant API, so it was not fetched'')
         else ok_or (or_else (nonempty (Some (trim (op_id p)))) (operation_id_from_link link))
                (Api ''an operation needs an id to wait on''))"

definition wait_for_admission ::
    "api_lib \<Rightarrow> operation option \<Rightarrow> duration \<Rightarrow> duration \<Rightarrow> control_plane \<Rightarrow> api_log \<Rightarrow> (unit res \<times> api_log) option" where
  "wait_for_admission lib p patience interval c log =
     (case p of
        None \<Rightarrow> Some (Inr (), log)
      | Some p \<Rightarrow>
          if interval = 0 then Some (Inl (Api ''the admission poll interval must be positive''), log)
          else case admission_id lib p c of
                 Inl e \<Rightarrow> Some (Inl e, log)
               | Inr operation_id \<Rightarrow>
                   if \<not> al_fits lib patience then Some (Inl (Api ''the admission timeout is too large''), log)
                   else poll_until
                     (admission_turn lib c operation_id (al_now lib log + patience) patience interval) log)"

section \<open>Skills of a hub\<close>

record skill_wait =
  sw_wait :: bool
  sw_timeout :: duration
  sw_poll_interval :: duration

definition default_skill_wait :: skill_wait where
  "default_skill_wait = \<lparr>sw_wait = False, sw_timeout = from_secs 120, sw_poll_interval = from_secs 2\<rparr>"

definition skill_wait_ok :: "api_lib \<Rightarrow> skill_wait \<Rightarrow> unit res" where
  "skill_wait_ok lib w =
     (if sw_timeout w = 0 \<or> sw_poll_interval w = 0 \<or> \<not> al_fits lib (sw_timeout w)
      then Inl (Api ''hub skill wait durations must be positive'') else Inr ())"

definition skills_path :: "api_lib \<Rightarrow> string \<Rightarrow> string" where
  "skills_path lib hub_id = ''/v1/hubs/'' @ al_encode lib hub_id @ ''/skills''"

definition list_hub_skills :: "api_lib \<Rightarrow> string \<Rightarrow> control_plane \<Rightarrow> json calling" where
  "list_hub_skills lib hub_id c = api_call lib c ''GET'' (skills_path lib hub_id) None [] True"

definition list_hub_skill_history :: "api_lib \<Rightarrow> string \<Rightarrow> nat \<Rightarrow> control_plane \<Rightarrow> json calling" where
  "list_hub_skill_history lib hub_id limit c =
     (if \<not> (1 \<le> limit \<and> limit \<le> 200) then call_fail (Api ''limit must be from 1 to 200'')
      else api_call lib c ''GET'' (skills_path lib hub_id @ ''/history?limit='' @ show_nat limit) None [] True)"

definition skill_turn ::
    "api_lib \<Rightarrow> control_plane \<Rightarrow> string \<Rightarrow> json \<Rightarrow> nat \<Rightarrow> duration \<Rightarrow> api_log \<Rightarrow> json res option \<times> api_log" where
  "skill_turn lib c operation_id accepted deadline interval log =
     (if deadline \<le> al_now lib log then (Some (Inl (Timeout (''accepted operation '' @ operation_id))), log)
      else case get_operation lib operation_id c log of
        (r, log) \<Rightarrow>
          if deadline < al_now lib log then (Some (Inl (Timeout (''accepted operation '' @ operation_id))), log)
          else
            (case r of
               Inl e \<Rightarrow> (Some (Inl (Api (''could not read accepted operation '' @ operation_id
                   @ ''; inspect by ID or resume with the complete accepted response''))), log)
             | Inr p \<Rightarrow>
                 if op_status p = Ready then
                   (Some (Inr (JObject (bt_insert ''operation'' (operation_json p)
                     (bt_insert ''state'' (JString
                        (if Option.bind (value_get accepted ''state'') as_str \<in> {Some ''removing'', Some ''removed''}
                         then ''removed'' else ''installed''))
                       (case as_object accepted of Some m \<Rightarrow> m | None \<Rightarrow> []))))), log)
                 else if op_status p = Failed \<or> op_status p = TimedOut then
                   (Some (Inl (Api (''accepted operation '' @ operation_id @ '' failed; inspect get_operation for details''))), log)
                 else (None, log @ [Slept (min interval (deadline - al_now lib log))])))"

definition wait_for_hub_skill_operation ::
    "api_lib \<Rightarrow> json \<Rightarrow> skill_wait \<Rightarrow> control_plane \<Rightarrow> api_log \<Rightarrow> (json res \<times> api_log) option" where
  "wait_for_hub_skill_operation lib accepted w c log =
     (case skill_wait_ok lib w of
        Inl e \<Rightarrow> Some (Inl e, log)
      | Inr u \<Rightarrow>
          (case value_text_field accepted ''operation_id'' of
             None \<Rightarrow> Some (Inl (Api ''missing accepted operation_id''), log)
           | Some operation_id \<Rightarrow>
               poll_until (skill_turn lib c operation_id accepted (al_now lib log + sw_timeout w) (sw_poll_interval w)) log))"

definition change_hub_skill ::
    "api_lib \<Rightarrow> string \<Rightarrow> string \<Rightarrow> json option \<Rightarrow> skill_wait \<Rightarrow> control_plane \<Rightarrow> api_log \<Rightarrow> (json res \<times> api_log) option" where
  "change_hub_skill lib verb path body w c log =
     (case skill_wait_ok lib w of
        Inl e \<Rightarrow> Some (Inl e, log)
      | Inr u \<Rightarrow>
          (case api_call lib c verb path body [] True log of
             (Inl e, log) \<Rightarrow> Some (Inl e, log)
           | (Inr accepted, log) \<Rightarrow>
               if \<not> sw_wait w then Some (Inr accepted, log) else wait_for_hub_skill_operation lib accepted w c log))"

definition install_hub_skill where
  "install_hub_skill lib hub_id skill version =
     change_hub_skill lib ''POST'' (skills_path lib hub_id)
       (Some (JObject [(''skill'', JString skill), (''version'', JString version)]))"

definition update_hub_skill where
  "update_hub_skill lib hub_id skill version =
     change_hub_skill lib ''PATCH'' (skills_path lib hub_id @ ''/'' @ al_encode lib skill)
       (Some (JObject [(''version'', JString version)]))"

definition remove_hub_skill where
  "remove_hub_skill lib hub_id skill =
     change_hub_skill lib ''DELETE'' (skills_path lib hub_id @ ''/'' @ al_encode lib skill) None"

section \<open>Polling under a deadline ends\<close>

text \<open>
  What a turn of such a loop does: one request at most, and when it leaves the wait to the next turn, the
  deadline had not come, and it slept for the interval or what was left.
\<close>

definition only_reads :: "api_log \<Rightarrow> bool" where
  "only_reads acts \<longleftrightarrow> (\<forall>rq. Sent rq \<in> set acts \<longrightarrow> ar_method rq = ''GET'')"

lemma only_reads_simps [simp]:
  "only_reads []" "only_reads (xs @ ys) \<longleftrightarrow> only_reads xs \<and> only_reads ys" "only_reads [Slept d]"
  by (auto simp: only_reads_def)

definition polls_by :: "api_lib \<Rightarrow> nat \<Rightarrow> duration \<Rightarrow> (api_log \<Rightarrow> 'r option \<times> api_log) \<Rightarrow> bool" where
  "polls_by lib deadline interval turn \<longleftrightarrow>
     (\<forall>log r log'. turn log = (r, log') \<longrightarrow>
        (\<exists>acts. log' = log @ acts \<and> sent_count acts \<le> 1 \<and> only_reads acts)
        \<and> (r = None \<longrightarrow> al_now lib log < deadline
             \<and> (\<exists>m. al_now lib log \<le> m \<and> m + min interval (deadline - m) \<le> al_now lib log')))"

lemma poll_until_ends:
  assumes "polls_by lib deadline interval turn" and "0 < interval"
  shows "\<exists>r acts before. poll_until turn log = Some (r, log @ acts)
     \<and> sent_count acts \<le> polls_left (deadline - al_now lib log) interval
     \<and> only_reads acts \<and> turn before = (Some r, log @ acts)"
proof (induction "polls_left (deadline - al_now lib log) interval" arbitrary: log rule: less_induct)
  case less
  obtain r log1 where turn: "turn log = (r, log1)" by fastforce
  then obtain acts where acts: "log1 = log @ acts" "sent_count acts \<le> 1" "only_reads acts"
      and more: "r = None \<longrightarrow> al_now lib log < deadline
        \<and> (\<exists>m. al_now lib log \<le> m \<and> m + min interval (deadline - m) \<le> al_now lib log1)"
    using assms(1) unfolding polls_by_def by blast
  show ?case
  proof (cases r)
    case (Some x)
    have "1 \<le> polls_left b i" for b i by (simp add: polls_left_def)
    then show ?thesis using Some turn acts order_trans
      by (subst poll_until.simps) fastforce
  next
    case None
    then obtain m where m: "al_now lib log < deadline" "al_now lib log \<le> m" "m + min interval (deadline - m) \<le> al_now lib log1"
      using more by blast
    let ?b = "deadline - al_now lib log" and ?b1 = "deadline - al_now lib log1"
    have step: "Suc (polls_left ?b1 interval) \<le> polls_left ?b interval"
    proof (cases "deadline \<le> m")
      case True
      then show ?thesis using m by (simp add: polls_left_def)
    next
      case False
      have "polls_left ?b1 interval \<le> polls_left ((deadline - m) - min interval (deadline - m)) interval"
        using m(3) assms(2) by (intro polls_left_mono) auto
      moreover have "Suc (polls_left ((deadline - m) - min interval (deadline - m)) interval) \<le> polls_left ?b interval"
        using False m(2) assms(2) by (intro polls_left_step) auto
      ultimately show ?thesis by simp
    qed
    then obtain x more_acts before where rest: "poll_until turn log1 = Some (x, log1 @ more_acts)"
        "sent_count more_acts \<le> polls_left ?b1 interval" "only_reads more_acts" "turn before = (Some x, log1 @ more_acts)"
      using less.hyps [of log1] by (auto simp: Suc_le_eq)
    have "poll_until turn log = Some (x, log @ (acts @ more_acts))"
      using turn None rest(1) acts(1) by (subst poll_until.simps) simp
    moreover have "sent_count (acts @ more_acts) \<le> polls_left ?b interval" using rest(2) acts(2) step by simp
    moreover have "only_reads (acts @ more_acts) \<and> turn before = (Some x, log @ (acts @ more_acts))"
      using rest(3,4) acts(1,3) by simp
    ultimately show ?thesis by blast
  qed
qed

lemma adds_verb: "adds (\<lambda>rq. ar_method rq = verb) (send_control lib c verb path body headers auth)"
  unfolding adds_def
proof
  fix log
  show "\<exists>acts. snd (send_control lib c verb path body headers auth log) = log @ acts
      \<and> (\<forall>rq. Sent rq \<in> set acts \<longrightarrow> ar_method rq = verb)"
    using form_request_fields by (cases "form_request lib c verb path body headers auth") (auto simp: send_control_def)
qed

lemma full_sends: "sends_at_most (1 + 0) (send_request_full lib c verb path body headers auth)"
  unfolding send_request_full_def Let_def by (intro sends_bind sends_send) (auto intro: sends_none split: sum.split)

lemma full_verb: "adds (\<lambda>rq. ar_method rq = verb) (send_request_full lib c verb path body headers auth)"
  unfolding send_request_full_def Let_def by (intro adds_bind adds_verb) (auto intro!: adds_intros split: sum.split)

lemma call_verb: "adds (\<lambda>rq. ar_method rq = verb) (api_call lib c verb path body headers auth)"
  unfolding api_call_def send_request_def case_prod_beta by (intro adds_bind full_verb adds_intros)

lemma reads_once:
  assumes "sends_at_most 1 m" and "adds (\<lambda>rq. ar_method rq = ''GET'') m" and "m log = (r, log')"
  shows "\<exists>acts. log' = log @ acts \<and> sent_count acts \<le> 1 \<and> only_reads acts"
proof -
  obtain acts where "log' = log @ acts" "only_reads acts" using addsD [OF assms(2,3)] unfolding only_reads_def by blast
  moreover have "sent_count (snd (m log)) \<le> sent_count log + 1" using assms(1) by (simp add: sends_at_most_def)
  ultimately show ?thesis using assms(3) by simp
qed

lemma get_retry_log:
  assumes "get_with_retry_after lib c path log = (r, log')"
  shows "\<exists>acts. log' = log @ acts \<and> sent_count acts \<le> 1 \<and> only_reads acts"
proof (rule reads_once [where m = "get_with_retry_after lib c path"])
  show "get_with_retry_after lib c path log = (r, log')" by (rule assms)
  have "sends_at_most ((1 + 0) + 0) (get_with_retry_after lib c path)"
    unfolding get_with_retry_after_def
    by (intro sends_try full_sends) (auto intro: sends_none simp: Let_def split: sum.split)
  then show "sends_at_most 1 (get_with_retry_after lib c path)" by simp
  show "adds (\<lambda>rq. ar_method rq = ''GET'') (get_with_retry_after lib c path)"
    unfolding get_with_retry_after_def
    by (intro adds_try full_verb) (auto intro: adds_intros simp: Let_def split: sum.split)
qed

lemma get_operation_log:
  assumes "get_operation lib i c log = (r, log')"
  shows "\<exists>acts. log' = log @ acts \<and> sent_count acts \<le> 1 \<and> only_reads acts"
proof (rule reads_once [where m = "get_operation lib i c"])
  show "get_operation lib i c log = (r, log')" by (rule assms)
  have "sends_at_most (1 + 0) (get_operation lib i c)"
    unfolding get_operation_def by (intro sends_bind sends_call sends_none)
  then show "sends_at_most 1 (get_operation lib i c)" by simp
  show "adds (\<lambda>rq. ar_method rq = ''GET'') (get_operation lib i c)"
    unfolding get_operation_def by (intro adds_bind call_verb adds_intros)
qed

lemma clock_acts: "clock_ok lib \<Longrightarrow> log' = log @ acts \<Longrightarrow> al_now lib log \<le> al_now lib log'"
  using clock_log by blast

lemma admission_wait: "admission_says i patience interval polled asked left = Inr wait \<Longrightarrow> interval \<le> wait"
  by (auto simp: admission_says_def Let_def split: sum.splits option.splits if_splits)

lemma admission_polls:
  assumes "clock_ok lib"
  shows "polls_by lib deadline interval (admission_turn lib c i deadline patience interval)"
  unfolding polls_by_def
proof (intro allI impI)
  fix log r log'
  assume turn: "admission_turn lib c i deadline patience interval log = (r, log')"
  obtain q log1 where q: "get_with_retry_after lib c (''/v1/operations/'' @ al_encode lib i) log = (q, log1)" by fastforce
  obtain acts where acts: "log1 = log @ acts" "sent_count acts \<le> 1" "only_reads acts" using get_retry_log [OF q] by blast
  have later: "al_now lib log \<le> al_now lib log1" using assms acts(1) by (rule clock_acts)
  show "(\<exists>acts. log' = log @ acts \<and> sent_count acts \<le> 1 \<and> only_reads acts)
        \<and> (r = None \<longrightarrow> al_now lib log < deadline
             \<and> (\<exists>m. al_now lib log \<le> m \<and> m + min interval (deadline - m) \<le> al_now lib log'))"
  proof (cases r)
    case (Some x)
    then show ?thesis using turn q acts
      by (auto simp: admission_turn_def split: sum.splits prod.splits if_splits)
  next
    case None
    then obtain polled asked wait where w:
        "admission_says i patience interval polled asked (deadline - al_now lib log1) = Inr wait"
        "al_now lib log1 < deadline" "log' = log1 @ [Slept (min wait (deadline - al_now lib log1))]"
      using turn q by (auto simp: admission_turn_def split: sum.splits prod.splits if_splits)
    have "al_now lib log1 + min wait (deadline - al_now lib log1) \<le> al_now lib log'"
      unfolding w(3) using assms by (rule clock_slept)
    moreover have "min interval (deadline - al_now lib log1) \<le> min wait (deadline - al_now lib log1)"
      using admission_wait [OF w(1)] by simp
    ultimately have "al_now lib log1 + min interval (deadline - al_now lib log1) \<le> al_now lib log'" by linarith
    then show ?thesis using later w(2,3) acts by auto
  qed
qed

text \<open>The last answer says that the operation is ready, or that there is none of that id any more.\<close>

definition admitted :: "api_lib \<Rightarrow> api_log \<Rightarrow> bool" where
  "admitted lib log \<longleftrightarrow>
     answered_with lib log 404
     \<or> (\<exists>v. succeeded lib log v \<and> value_get v ''status'' = Some (JString ''ready''))"

text \<open>The last answer says that the operation failed, or that the hub took too long.\<close>

definition not_admitted :: "api_lib \<Rightarrow> api_log \<Rightarrow> bool" where
  "not_admitted lib log \<longleftrightarrow>
     (\<exists>v. succeeded lib log v \<and> value_get v ''status'' \<in> {Some (JString ''failed''), Some (JString ''timed_out'')})"

definition plain_api_error :: "thalovant_error \<Rightarrow> bool" where
  "plain_api_error e = (case e of Api m \<Rightarrow> True | ApiResponse n d p \<Rightarrow> True | _ \<Rightarrow> False)"

lemma status_of_response [simp]: "status_code (ApiResponse n d p) = Some n"
  by (simp add: status_code_def api_answer_def)

lemma plain_errors [simp]: "plain_api_error (unreachable_error b m)" "plain_api_error (ApiResponse n d p)"
  by (simp_all add: plain_api_error_def unreachable_error_def api_unreachable_def)

lemma form_request_plain: "form_request lib c verb path body headers auth = Inl e \<Longrightarrow> plain_api_error e"
  by (auto simp: form_request_def res_bind_eq_Inl validate_control_request_url_def header_ok_def bearer_headers_def
      plain_api_error_def split: option.splits if_splits sum.splits)

lemma answer_value_plain: "answer_value lib status t = Inl e \<Longrightarrow> plain_api_error e"
  by (auto simp: answer_value_def api_response_error_def Let_def split: if_splits sum.splits)

lemma full_cases:
  assumes "send_request_full lib c verb path body headers auth log = (q, log')"
  shows "case q of
      Inr (st, t, wait) \<Rightarrow> answered_with lib log' st \<and> (\<forall>v. answer_value lib st t = Inr v \<longrightarrow> succeeded lib log' v)
    | Inl e \<Rightarrow> plain_api_error e \<and> (\<forall>n. status_code e = Some n \<longrightarrow> answered_with lib log' n)"
proof (cases "form_request lib c verb path body headers auth")
  case (Inl e)
  then show ?thesis using assms form_request_no_status [OF Inl] form_request_plain [OF Inl]
    by (auto simp: send_request_full_def send_control_def call_bind_def)
next
  case (Inr rq)
  show ?thesis
  proof (cases "al_answer lib (log @ [Sent rq])")
    case (No_Answer b m)
    then show ?thesis using assms Inr by (auto simp: send_request_full_def send_control_def call_bind_def)
  next
    case (Answered r)
    then show ?thesis using assms Inr
      by (auto simp: send_request_full_def send_control_def call_bind_def call_return_def call_fail_def Let_def
          answered_with_def succeeded_def dest: answer_value_ok
          split: if_splits sum.splits)
  qed
qed

lemma get_retry_cases:
  assumes "get_with_retry_after lib c path log = (Inr (polled, asked), log')"
  shows "case polled of Inr v \<Rightarrow> succeeded lib log' v
    | Inl e \<Rightarrow> plain_api_error e \<and> (\<forall>n. status_code e = Some n \<longrightarrow> answered_with lib log' n)"
proof -
  obtain q log1 where q: "send_request_full lib c ''GET'' path None [] True log = (q, log1)" by fastforce
  note full = full_cases [OF q]
  show ?thesis
  proof (cases q)
    case (Inl e)
    then show ?thesis using assms q full by (auto simp: get_with_retry_after_def call_try_def call_return_def)
  next
    case (Inr x)
    obtain st t wait where x: "x = (st, t, wait)" using prod_cases3 by blast
    then have "polled = answer_value lib st t" "log' = log1"
      using assms q Inr by (auto simp: get_with_retry_after_def call_try_def call_return_def Let_def)
    then show ?thesis using full Inr x answer_value_status answer_value_plain by (auto split: sum.split)
  qed
qed

lemma get_retry_never_fails: "get_with_retry_after lib c path log \<noteq> (Inl e, log')"
  by (auto simp: get_with_retry_after_def call_try_def call_return_def Let_def split: prod.splits sum.splits)

lemma admission_turn_says:
  assumes "admission_turn lib c i deadline patience interval log = (Some r, log')"
  shows "(r = Inr u \<longrightarrow> admitted lib log') \<and> (\<forall>code reason p. r = Inl (AdmissionFailed code reason None p) \<longrightarrow> not_admitted lib log')"
proof -
  obtain q log1 where q: "get_with_retry_after lib c (''/v1/operations/'' @ al_encode lib i) log = (q, log1)" by fastforce
  then obtain polled asked where pa: "q = Inr (polled, asked)" using get_retry_never_fails by (cases q) auto
  have log': "log' = log1" using assms q pa by (auto simp: admission_turn_def split: sum.splits if_splits)
  have says: "r = Inl (AdmissionTimeout patience)
      \<or> admission_says i patience interval polled asked (deadline - al_now lib log1) = Inl r"
    using assms q pa by (auto simp: admission_turn_def split: sum.splits if_splits)
  note cases = get_retry_cases [OF q [unfolded pa]]
  show ?thesis
  proof (cases polled)
    case (Inr v)
    then show ?thesis using says cases log'
      by (auto simp: admission_says_def admission_ended_def admitted_def not_admitted_def bind_eq_Some_conv
          split: option.splits if_splits)
  next
    case (Inl e)
    then have "status_code e = Some n \<Longrightarrow> answered_with lib log' n" for n using cases log' by simp
    moreover have "e \<noteq> AdmissionFailed code reason None p" for code reason p
      using cases Inl by (auto simp: plain_api_error_def)
    ultimately show ?thesis using says Inl
      by (auto simp: admission_says_def admitted_def Let_def split: option.splits if_splits)
  qed
qed

text \<open>
  C22: waiting for an admission ends, whatever the API answers, provided the clock does not run back: one read for
  every interval that fits into the patience and two more at most. Where there is an operation to wait for, it
  says that the connection is admitted only when the last answer says that the operation is ready or, with a
  status of 404, that there is none of that id any more; where there is none it reads nothing and says the same
  at once. It says that the hub refused the connection only when the last answer says that the operation failed
  or timed out.
\<close>

theorem admission_ends:
  assumes "clock_ok lib"
  shows "\<exists>r acts. wait_for_admission lib p patience interval c log = Some (r, log @ acts)
     \<and> sent_count acts \<le> patience div interval + 2 \<and> only_reads acts
     \<and> (r = Inr u \<and> p \<noteq> None \<longrightarrow> admitted lib (log @ acts))
     \<and> (p = None \<longrightarrow> r = Inr () \<and> acts = [])
     \<and> (\<forall>code reason q. r = Inl (AdmissionFailed code reason None q) \<longrightarrow> not_admitted lib (log @ acts))"
proof -
  have at_once: ?thesis if "wait_for_admission lib p patience interval c log = Some (r, log)"
      "r = Inr () \<longleftrightarrow> p = None" "\<And>code reason q. r \<noteq> Inl (AdmissionFailed code reason None q)" for r
    using that by (intro exI [of _ r] exI [of _ "[]"]) auto
  show ?thesis
  proof (cases p)
    case None
    then show ?thesis by (intro at_once [of "Inr ()"]) (simp_all add: wait_for_admission_def)
  next
    case (Some q)
    show ?thesis
    proof (cases "interval = 0 \<or> \<not> al_fits lib patience \<or> (\<exists>e. admission_id lib q c = Inl e)")
      case True
      then obtain e where "wait_for_admission lib p patience interval c log = Some (Inl e, log)"
          "\<And>code reason q. e \<noteq> AdmissionFailed code reason None q"
        using Some by (fastforce simp: wait_for_admission_def admission_id_def ok_or_def Let_def split: sum.splits if_splits option.splits)
      then show ?thesis using Some by (intro at_once [of "Inl e"]) simp_all
    next
      case False
      then obtain i where i: "admission_id lib q c = Inr i" "0 < interval" by (cases "admission_id lib q c") auto
      let ?turn = "admission_turn lib c i (al_now lib log + patience) patience interval"
      obtain r acts before where run: "poll_until ?turn log = Some (r, log @ acts)"
          "sent_count acts \<le> polls_left (al_now lib log + patience - al_now lib log) interval"
          "only_reads acts" "?turn before = (Some r, log @ acts)"
        using poll_until_ends [OF admission_polls [OF assms] i(2)] by blast
      have "polls_left (al_now lib log + patience - al_now lib log) interval \<le> patience div interval + 2"
        by (simp add: polls_left_def)
      then show ?thesis
        using run Some False i admission_turn_says [OF run(4), of u]
        by (intro exI [of _ r] exI [of _ acts]) (simp add: wait_for_admission_def)
    qed
  qed
qed

lemma skill_polls:
  assumes "clock_ok lib"
  shows "polls_by lib deadline interval (skill_turn lib c i accepted deadline interval)"
  unfolding polls_by_def
proof (intro allI impI)
  fix log r log'
  assume turn: "skill_turn lib c i accepted deadline interval log = (r, log')"
  show "(\<exists>acts. log' = log @ acts \<and> sent_count acts \<le> 1 \<and> only_reads acts)
        \<and> (r = None \<longrightarrow> al_now lib log < deadline
             \<and> (\<exists>m. al_now lib log \<le> m \<and> m + min interval (deadline - m) \<le> al_now lib log'))"
  proof (cases "deadline \<le> al_now lib log")
    case True
    then show ?thesis using turn by (auto simp: skill_turn_def intro: exI [of _ "[]"])
  next
    case False
    obtain q log1 where q: "get_operation lib i c log = (q, log1)" by fastforce
    obtain acts where acts: "log1 = log @ acts" "sent_count acts \<le> 1" "only_reads acts" using get_operation_log [OF q] by blast
    have later: "al_now lib log \<le> al_now lib log1" using assms acts(1) by (rule clock_acts)
    show ?thesis
    proof (cases r)
      case (Some x)
      then show ?thesis using turn q acts False
        by (auto simp: skill_turn_def split: sum.splits if_splits)
    next
      case None
      then have "log' = log1 @ [Slept (min interval (deadline - al_now lib log1))]"
        using turn q False by (auto simp: skill_turn_def split: sum.splits if_splits)
      moreover from this have "al_now lib log1 + min interval (deadline - al_now lib log1) \<le> al_now lib log'"
        using clock_slept [OF assms] by simp
      ultimately show ?thesis using later acts False by auto
    qed
  qed
qed

text \<open>
  Waiting for an accepted change of a skill ends, never sends the change again, and reports what was
  accepted with the final state only of an operation that is ready.
\<close>

theorem skill_wait_ends:
  assumes "clock_ok lib"
  shows "\<exists>r acts. wait_for_hub_skill_operation lib accepted w c log = Some (r, log @ acts)
     \<and> sent_count acts \<le> sw_timeout w div sw_poll_interval w + 2 \<and> only_reads acts
     \<and> (\<forall>v. r = Inr v \<longrightarrow> (\<exists>p before. get_operation lib (the (value_text_field accepted ''operation_id'')) c before = (Inr p, log @ acts)
           \<and> op_status p = Ready \<and> value_get v ''operation'' = Some (operation_json p)
           \<and> value_get v ''state'' \<in> {Some (JString ''installed''), Some (JString ''removed'')}))"
proof -
  have at_once: ?thesis if "wait_for_hub_skill_operation lib accepted w c log = Some (Inl e, log)" for e
    using that by (intro exI [of _ "Inl e"] exI [of _ "[]"]) simp
  show ?thesis
  proof (cases "value_text_field accepted ''operation_id'' = None \<or> (\<exists>e. skill_wait_ok lib w = Inl e)")
    case True
    then show ?thesis by (cases "skill_wait_ok lib w") (auto intro!: at_once simp: wait_for_hub_skill_operation_def)
  next
    case False
    then obtain i u where i: "value_text_field accepted ''operation_id'' = Some i" "skill_wait_ok lib w = Inr u"
      by (cases "skill_wait_ok lib w") auto
    then have pos: "0 < sw_poll_interval w" by (auto simp: skill_wait_ok_def split: if_splits)
    let ?deadline = "al_now lib log + sw_timeout w"
    let ?turn = "skill_turn lib c i accepted ?deadline (sw_poll_interval w)"
    obtain r acts before where run: "poll_until ?turn log = Some (r, log @ acts)"
        "sent_count acts \<le> polls_left (?deadline - al_now lib log) (sw_poll_interval w)"
        "only_reads acts" "?turn before = (Some r, log @ acts)"
      using poll_until_ends [OF skill_polls [OF assms] pos] by blast
    have "polls_left (?deadline - al_now lib log) (sw_poll_interval w) \<le> sw_timeout w div sw_poll_interval w + 2"
      by (simp add: polls_left_def)
    then have count: "sent_count acts \<le> sw_timeout w div sw_poll_interval w + 2" using run(2) by simp
    have final: "\<exists>p before. get_operation lib (the (value_text_field accepted ''operation_id'')) c before = (Inr p, log @ acts)
        \<and> op_status p = Ready \<and> value_get v ''operation'' = Some (operation_json p)
        \<and> value_get v ''state'' \<in> {Some (JString ''installed''), Some (JString ''removed'')}" if "r = Inr v" for v
    proof -
      have "\<exists>p. get_operation lib i c before = (Inr p, log @ acts) \<and> op_status p = Ready
        \<and> value_get v ''operation'' = Some (operation_json p)
        \<and> value_get v ''state'' \<in> {Some (JString ''installed''), Some (JString ''removed'')}"
        using run(4) that by (auto simp: skill_turn_def value_get_def split: if_splits prod.splits sum.splits)
      then show ?thesis using i(1) by (metis option.sel)
    qed
    have "wait_for_hub_skill_operation lib accepted w c log = Some (r, log @ acts)"
      using run(1) i by (simp add: wait_for_hub_skill_operation_def)
    then show ?thesis using count run(3) final by blast
  qed
qed

section \<open>Waiting at an API that is ready\<close>

definition ready_value :: json where
  "ready_value = JObject [(''aggregate_type'', JString ''g''), (''created_at'', JString ''x''), (''details'', JObject []),
     (''id'', JString ''o''), (''kind'', JString ''k''), (''links'', JObject []), (''status'', JString ''ready''),
     (''updated_at'', JString ''x'')]"

definition ready_api :: api_lib where "ready_api = sample_api\<lparr>al_parse := \<lambda>s. Inr ready_value\<rparr>"

lemma ready_clock: "clock_ok ready_api"
  by (auto simp: clock_ok_def ready_api_def sample_api_def act_time_def split: api_act.split)

definition sample_operation :: operation where
  "sample_operation =
     \<lparr>op_id = ''o'', op_kind = ''k'', op_aggregate_type = ''g'', op_aggregate_id = None, op_status = Requested,
      op_details = [], op_git_commit_sha = None, op_error_code = None, op_error_message = None, op_created_at = ''x'',
      op_updated_at = ''x'', op_committed_at = None, op_applied_at = None, op_ready_at = None, op_terminal_at = None,
      op_links = []\<rparr>"

lemma ready_get:
  "\<exists>rq. get_with_retry_after ready_api store_plane ''/v1/operations/o'' [] = (Inr (Inr ready_value, None), [Sent rq])"
proof -
  have "\<not> url_has_userinfo ''https://hub/v1/operations/o''" by (simp add: url_has_userinfo_def starts_with_def)
  then obtain rq where "form_request ready_api store_plane ''GET'' ''/v1/operations/o'' None [] True = Inr rq"
    by (simp add: form_request_def validate_control_request_url_def header_ok_def bearer_headers_def ready_api_def
        sample_api_def store_plane_def sample_plane_def sample_url_def)
  moreover have "trim ''x'' = ''x''" by (simp add: trim_plain plain_char_def)
  ultimately show ?thesis
    by (simp add: get_with_retry_after_def send_request_full_def send_control_def call_bind_def call_return_def call_try_def
        call_res_def status_success_def status_redirection_def answer_value_def ready_api_def sample_api_def)
qed

theorem admission_ends_witness:
  "\<exists>acts. wait_for_admission ready_api (Some sample_operation) (from_secs 180) (from_secs 2) store_plane []
     = Some (Inr (), acts) \<and> sent_count acts = 1 \<and> only_reads acts \<and> admitted ready_api acts"
proof -
  obtain rq where rq: "get_with_retry_after ready_api store_plane ''/v1/operations/o'' [] = (Inr (Inr ready_value, None), [Sent rq])"
    using ready_get by blast
  have "trim ''o'' = ''o''" by (simp add: trim_plain plain_char_def)
  then have i: "admission_id ready_api sample_operation store_plane = Inr ''o''"
    by (simp add: admission_id_def sample_operation_def nonempty_def starts_with_def)
  have "admission_turn ready_api store_plane ''o'' (from_secs 180) (from_secs 180) (from_secs 2) [] = (Some (Inr ()), [Sent rq])"
    using rq by (simp add: admission_turn_def admission_says_def ready_value_def value_get_def from_secs_def as_str_def
        ready_api_def sample_api_def act_time_def)
  then have "poll_until (admission_turn ready_api store_plane ''o'' (from_secs 180) (from_secs 180) (from_secs 2)) []
      = Some (Inr (), [Sent rq])"
    by (subst poll_until.simps) simp
  moreover have "al_now ready_api [] = 0" "al_fits ready_api (from_secs 180)" "from_secs 2 \<noteq> 0"
    by (simp_all add: ready_api_def sample_api_def from_secs_def)
  ultimately have run: "wait_for_admission ready_api (Some sample_operation) (from_secs 180) (from_secs 2) store_plane []
      = Some (Inr (), [Sent rq])"
    using i by (simp add: wait_for_admission_def)
  then show ?thesis
    using admission_ends [OF ready_clock, of "Some sample_operation" "from_secs 180" "from_secs 2" store_plane "[]" "()"]
    by (simp add: sent_count_def)
qed

theorem skill_wait_ends_witness:
  "\<exists>r log'. wait_for_hub_skill_operation ready_api (JObject [(''operation_id'', JString ''o'')]) default_skill_wait store_plane []
     = Some (r, log')"
  using skill_wait_ends [OF ready_clock] by blast

end
