(* ===== verification/Json_Reading.thy ===== *)
theory Json_Reading
  imports Control_Admission "HOL-Library.Monad_Syntax"
begin

text \<open>
  How \<open>serde\<close> reads the fields of a struct out of a JSON object and writes them: a field that must be there, one
  with a default, one that may be absent or null, a list, the widths of the integers. \<open>json_codec\<close> is the
  contract of a type that is written and read: what is written is read back.
\<close>

section \<open>Readers of fields\<close>

type_synonym 'a reading = "json \<Rightarrow> 'a option"

definition need :: "'a reading \<Rightarrow> jmap \<Rightarrow> string \<Rightarrow> 'a option" where
  "need d m k = Option.bind (map_of m k) d"

definition with_default :: "'a \<Rightarrow> 'a reading \<Rightarrow> jmap \<Rightarrow> string \<Rightarrow> 'a option" where
  "with_default x d m k = (case map_of m k of None \<Rightarrow> Some x | Some v \<Rightarrow> d v)"

definition if_present :: "'a reading \<Rightarrow> jmap \<Rightarrow> string \<Rightarrow> 'a option option" where
  "if_present d m k =
     (case map_of m k of None \<Rightarrow> Some None | Some v \<Rightarrow> if v = JNull then Some None else map_option Some (d v))"

definition read_list :: "'a reading \<Rightarrow> 'a list reading" where
  "read_list d v = Option.bind (as_array v) (\<lambda>vs. those (map d vs))"

definition read_struct :: "(jmap \<Rightarrow> 'a option) \<Rightarrow> 'a reading" where
  "read_struct f v = Option.bind (as_object v) f"

definition read_u32 :: "32 word reading" where
  "read_u32 v =
     (case v of JNumber (PosInt n) \<Rightarrow> if unat n < 2 ^ 32 then Some (ucast n) else None | _ \<Rightarrow> None)"

definition read_u64 :: "64 word reading" where
  "read_u64 v = (case v of JNumber (PosInt n) \<Rightarrow> Some n | _ \<Rightarrow> None)"

text \<open>A signed one, in two's complement.\<close>

definition read_i64 :: "64 word reading" where
  "read_i64 v =
     (case v of JNumber (PosInt n) \<Rightarrow> if sint n < 0 then None else Some n | JNumber (NegInt n) \<Rightarrow> Some n | _ \<Rightarrow> None)"

section \<open>Writers\<close>

definition u32_json :: "32 word \<Rightarrow> json" where
  "u32_json n = JNumber (PosInt (ucast n))"

definition u64_json :: "64 word \<Rightarrow> json" where
  "u64_json n = JNumber (PosInt n)"

definition i64_json :: "64 word \<Rightarrow> json" where
  "i64_json n = JNumber (if sint n < 0 then NegInt n else PosInt n)"

definition list_json :: "('a \<Rightarrow> json) \<Rightarrow> 'a list \<Rightarrow> json" where
  "list_json e xs = JArray (map e xs)"

text \<open>\<open>skip_serializing_if = "Option::is_none"\<close>.\<close>

definition unless_none :: "string \<Rightarrow> ('a \<Rightarrow> json) \<Rightarrow> 'a option \<Rightarrow> (string \<times> json) list" where
  "unless_none k e v = (case v of None \<Rightarrow> [] | Some x \<Rightarrow> [(k, e x)])"

section \<open>What is written is read\<close>

definition any_value :: "'a \<Rightarrow> bool" where
  "any_value x = True"

definition if_any :: "('a \<Rightarrow> bool) \<Rightarrow> 'a option \<Rightarrow> bool" where
  "if_any P v = (case v of None \<Rightarrow> True | Some x \<Rightarrow> P x)"

lemma any_value [simp]: "any_value x"
  by (simp add: any_value_def)

lemma if_any_simps [simp]: "if_any P None" "if_any P (Some x) = P x" "if_any any_value v"
  by (simp_all add: if_any_def split: option.split)

locale json_codec =
  fixes enc :: "'a \<Rightarrow> json" and dec :: "json \<Rightarrow> 'a option" and wf :: "'a \<Rightarrow> bool"
  assumes round: "wf x \<Longrightarrow> dec (enc x) = Some x"
    and not_null: "enc x \<noteq> JNull"
begin

lemma need_round [simp]: "map_of m k = Some (enc x) \<Longrightarrow> wf x \<Longrightarrow> need dec m k = Some x"
  by (simp add: need_def round)

lemma default_round [simp]: "map_of m k = Some (enc x) \<Longrightarrow> wf x \<Longrightarrow> with_default d dec m k = Some x"
  by (simp add: with_default_def round)

lemma present_round [simp]: "map_of m k = Some (opt_json enc v) \<Longrightarrow> if_any wf v \<Longrightarrow> if_present dec m k = Some v"
  by (cases v) (simp_all add: if_present_def round not_null opt_json_def)

lemma skipped_round [simp]: "map_of m k = map_option enc v \<Longrightarrow> if_any wf v \<Longrightarrow> if_present dec m k = Some v"
  by (cases v) (simp_all add: if_present_def round not_null)

lemma those_round: "\<forall>x \<in> set xs. wf x \<Longrightarrow> those (map (dec \<circ> enc) xs) = Some xs"
  by (induction xs) (simp_all add: round)

lemma list_codec: "json_codec (list_json enc) (read_list dec) (list_all wf)"
  by unfold_locales (simp_all add: list_json_def read_list_def as_array_def list_all_iff those_round)

end

interpretation text_codec: json_codec JString as_str any_value
  by unfold_locales simp_all

interpretation texts_codec: json_codec "list_json JString" "read_list as_str" "list_all any_value"
  by (rule text_codec.list_codec)

interpretation bool_codec: json_codec JBool as_bool any_value
  by unfold_locales (simp_all add: as_bool_def)

interpretation map_codec: json_codec JObject as_object any_value
  by unfold_locales simp_all

lemma u32_bound: "unat (n :: 32 word) < 2 ^ 32"
  using unsigned_less [of n] by simp

lemma u32_in_u64: "unat (ucast (n :: 32 word) :: 64 word) = unat n"
  using u32_bound [of n] by (simp add: unsigned_ucast_eq take_bit_nat_eq_self)

lemma u32_round: "ucast (ucast (n :: 32 word) :: 64 word) = n"
  using u32_bound [of n] by (simp add: word_unat_eq_iff unsigned_ucast_eq take_bit_nat_eq_self take_bit_word_eq_self)

interpretation u32_codec: json_codec u32_json read_u32 any_value
proof unfold_locales
  fix n :: "32 word"
  show "read_u32 (u32_json n) = Some n"
    using u32_bound [of n] by (simp add: u32_json_def read_u32_def u32_in_u64 u32_round)
qed (simp add: u32_json_def)

interpretation u64_codec: json_codec u64_json read_u64 any_value
  by unfold_locales (simp_all add: u64_json_def read_u64_def)

interpretation i64_codec: json_codec i64_json read_i64 any_value
  by unfold_locales (simp_all add: i64_json_def read_i64_def)

lemma list_all_any [simp]: "list_all any_value xs"
  by (simp add: list_all_iff)

section \<open>Structs\<close>

lemma struct_read: "f m = Some x \<Longrightarrow> read_struct f (JObject m) = Some x"
  by (simp add: read_struct_def)

lemma collected_get: "distinct (map fst es) \<Longrightarrow> map_of es k = v \<Longrightarrow> map_of (bt_collect es) k = v"
  by (simp add: bt_collect_get)

section \<open>An operation\<close>

lemma optional_text_round: "optional_text (Some (opt_json JString v)) = Some v"
  by (cases v) (simp_all add: optional_text_def opt_json_def)

lemma links_round: "read_links (map (\<lambda>(k, t). (k, opt_json JString t)) ls) = Some ls"
  by (induction ls) (auto simp: optional_text_round)

lemma status_round: "status_of_name (status_name s) = Some s"
  by (cases s) (simp_all add: status_of_name_def status_name_def)

lemma links_ordered: "bt_inv ls \<Longrightarrow> bt_inv (map (\<lambda>(k, t). (k, opt_json JString t)) ls)"
  by (simp add: bt_inv_def case_prod_unfold comp_def)

definition operation_wf :: "operation \<Rightarrow> bool" where
  "operation_wf p \<longleftrightarrow> bt_inv (op_links p)"

definition read_operation :: "operation reading" where
  "read_operation = operation_of_value"

text \<open>The list of the fields and the one-key object of the status are read as the object is.\<close>

lemma read_operation_forms:
  "length vs = length OPERATION_FIELDS \<Longrightarrow> read_operation (JArray vs) = read_operation (JObject (zip OPERATION_FIELDS vs))"
  "length vs \<noteq> length OPERATION_FIELDS \<Longrightarrow> read_operation (JArray vs) = None"
  "status_of_value (JObject [(status_name s, JNull)]) = Some s"
  by (simp_all add: read_operation_def status_of_value_def status_round)

interpretation operation_codec: json_codec operation_json read_operation operation_wf
proof unfold_locales
  fix p :: operation
  show "operation_json p \<noteq> JNull"
    by (simp add: operation_json_def)
  assume "operation_wf p"
  then show "read_operation (operation_json p) = Some p"
    unfolding read_operation_def operation_json_def
    by (simp add: operation_from_map_def bt_collect_get get_str_def get_object_def optional_text_round status_round
        status_of_value_def links_round links_ordered operation_wf_def Let_def)
qed

end
