(* ===== verification/Skill_Cache.thy ===== *)
theory Skill_Cache
  imports Skill_Names Listing Json_Reading State_Files
begin

text \<open>
  \<open>src/src/inventory.rs\<close>: the presentable inventory of a hub and its cache on disk. What is stored is read back
  with its languages in their normal form, whatever fails the cached file is the old or the whole new one, and
  no key names a file outside the directory. The JSON printer and parser, SHA-256 and the URL parser are parameters;
  a document keeps its members in the order of the text.
\<close>

section \<open>The inventory\<close>

definition INVENTORY_CACHE_VERSION :: "32 word" where "INVENTORY_CACHE_VERSION = 1"
definition INVENTORY_CACHE_TTL :: duration where "INVENTORY_CACHE_TTL = from_secs 3600"

type_synonym phrase_list = "(string \<times> string list) list"

record cached_intent =
  ci_id :: string
  ci_name :: string
  ci_skill_id :: string
  ci_engine :: string
  ci_languages :: "string list"
  ci_phrases :: phrase_list

record cached_skill =
  cs_id :: string
  cs_title :: string
  cs_locales :: "string list"
  cs_intents :: "cached_intent list"

record skill_inventory =
  si_cache_version :: "32 word"
  si_hub_id :: string
  si_hub_name :: string
  si_source :: string
  si_generated_at :: string
  si_skills :: "cached_skill list"
  si_notes :: "string list"

definition inventory_live :: "skill_inventory \<Rightarrow> bool" where
  "inventory_live v \<longleftrightarrow> si_source v = ''hub'' \<or> si_source v = ''ovos-runtime''"

definition all_intents :: "skill_inventory \<Rightarrow> cached_intent list" where
  "all_intents v = concat (map cs_intents (si_skills v))"

definition any_phrases :: "skill_inventory \<Rightarrow> bool" where
  "any_phrases v = list_ex (\<lambda>i. ci_phrases i \<noteq> []) (all_intents v)"

definition languages_present :: "skill_inventory \<Rightarrow> string list" where
  "languages_present v =
     map fst (bt_collect (map (\<lambda>l. (l, ()))
       (concat (map (\<lambda>s. cs_locales s @ concat (map (\<lambda>i. map fst (ci_phrases i)) (cs_intents s))) (si_skills v)))))"

definition declares_locales :: "cached_skill \<Rightarrow> bool" where
  "declares_locales s \<longleftrightarrow> cs_locales s \<noteq> []"

definition skill_speaks :: "language_tables \<Rightarrow> cached_skill \<Rightarrow> string \<Rightarrow> bool option" where
  "skill_speaks T s language = (if cs_locales s = [] then None else Some (closest_language T language (cs_locales s) \<noteq> None))"

fun push_missing :: "string list \<Rightarrow> string list \<Rightarrow> string list" where
  "push_missing tags [] = tags"
| "push_missing tags (t # ts) = push_missing (if t \<in> set tags then tags else tags @ [t]) ts"

text \<open>The languages of an intent that have phrases, in its order, then those only its phrases have.\<close>

definition phrase_tags :: "cached_intent \<Rightarrow> string list" where
  "phrase_tags i = push_missing (filter (\<lambda>t. t \<in> fst ` set (ci_phrases i)) (ci_languages i)) (map fst (ci_phrases i))"

definition cached_examples ::
    "'r listing_lib \<Rightarrow> 'r listing_rules \<Rightarrow> cached_intent \<Rightarrow> string option \<Rightarrow> nat \<Rightarrow> string list" where
  "cached_examples lib bundled i language limit =
     (let tags = phrase_tags i;
          tag = (if language = None \<or> language = Some [] then find (\<lambda>t. True) tags
                 else Option.bind language (\<lambda>l. closest_language (li_tables lib) l tags))
      in case Option.bind tag (map_of (ci_phrases i)) of
           None \<Rightarrow> []
         | Some pool \<Rightarrow> if limit = 0 then pool else take limit (rank lib bundled pool language))"

section \<open>Its document\<close>

text \<open>A struct that is read straight from a text refuses a field that is there twice.\<close>

definition read_once :: "string list \<Rightarrow> (jmap \<Rightarrow> 'a option) \<Rightarrow> 'a reading" where
  "read_once names f v =
     Option.bind (as_object v) (\<lambda>m. if distinct (filter (\<lambda>k. k \<in> set names) (map fst m)) then f m else None)"

fun put_phrases :: "string \<Rightarrow> string list \<Rightarrow> phrase_list \<Rightarrow> phrase_list" where
  "put_phrases k ts [] = [(k, ts)]"
| "put_phrases k ts (p # ps) = (if fst p = k then (k, ts) # ps else p # put_phrases k ts ps)"

fun collect_phrases :: "phrase_list \<Rightarrow> jmap \<Rightarrow> phrase_list option" where
  "collect_phrases out [] = Some out"
| "collect_phrases out ((k, v) # m) =
     Option.bind (read_list as_str v) (\<lambda>ts. collect_phrases (put_phrases k ts out) m)"

definition read_phrases :: "phrase_list reading" where
  "read_phrases v = Option.bind (as_object v) (collect_phrases [])"

definition phrases_json :: "phrase_list \<Rightarrow> json" where
  "phrases_json ps = JObject (map (\<lambda>(k, ts). (k, list_json JString ts)) ps)"

definition cached_intent_from_map :: "jmap \<Rightarrow> cached_intent option" where
  "cached_intent_from_map m = do {
     i \<leftarrow> need as_str m ''id'';
     name \<leftarrow> need as_str m ''name'';
     skill \<leftarrow> need as_str m ''skill_id'';
     engine \<leftarrow> need as_str m ''engine'';
     languages \<leftarrow> with_default [] (read_list as_str) m ''languages'';
     phrases \<leftarrow> need read_phrases m ''phrases'';
     Some \<lparr>ci_id = i, ci_name = name, ci_skill_id = skill, ci_engine = engine, ci_languages = languages,
       ci_phrases = phrases\<rparr> }"

definition read_cached_intent :: "cached_intent reading" where
  "read_cached_intent = read_once [''id'', ''name'', ''skill_id'', ''engine'', ''languages'', ''phrases''] cached_intent_from_map"

definition cached_intent_json :: "cached_intent \<Rightarrow> json" where
  "cached_intent_json i = JObject
     [(''id'', JString (ci_id i)), (''name'', JString (ci_name i)), (''skill_id'', JString (ci_skill_id i)),
      (''engine'', JString (ci_engine i)), (''languages'', list_json JString (ci_languages i)),
      (''phrases'', phrases_json (ci_phrases i))]"

definition cached_skill_from_map :: "jmap \<Rightarrow> cached_skill option" where
  "cached_skill_from_map m = do {
     i \<leftarrow> need as_str m ''id'';
     title \<leftarrow> need as_str m ''title'';
     locales \<leftarrow> need (read_list as_str) m ''locales'';
     intents \<leftarrow> need (read_list read_cached_intent) m ''intents'';
     Some \<lparr>cs_id = i, cs_title = title, cs_locales = locales, cs_intents = intents\<rparr> }"

definition read_cached_skill :: "cached_skill reading" where
  "read_cached_skill = read_once [''id'', ''title'', ''locales'', ''intents''] cached_skill_from_map"

definition cached_skill_json :: "cached_skill \<Rightarrow> json" where
  "cached_skill_json s = JObject
     [(''id'', JString (cs_id s)), (''title'', JString (cs_title s)), (''locales'', list_json JString (cs_locales s)),
      (''intents'', list_json cached_intent_json (cs_intents s))]"

definition skill_inventory_from_map :: "jmap \<Rightarrow> skill_inventory option" where
  "skill_inventory_from_map m = do {
     version \<leftarrow> need read_u32 m ''cache_version'';
     hub \<leftarrow> need as_str m ''hub_id'';
     name \<leftarrow> need as_str m ''hub_name'';
     source \<leftarrow> need as_str m ''source'';
     generated \<leftarrow> need as_str m ''generated_at'';
     skills \<leftarrow> need (read_list read_cached_skill) m ''skills'';
     notes \<leftarrow> need (read_list as_str) m ''notes'';
     Some \<lparr>si_cache_version = version, si_hub_id = hub, si_hub_name = name, si_source = source,
       si_generated_at = generated, si_skills = skills, si_notes = notes\<rparr> }"

definition read_skill_inventory :: "skill_inventory reading" where
  "read_skill_inventory =
     read_once [''cache_version'', ''hub_id'', ''hub_name'', ''source'', ''generated_at'', ''skills'', ''notes'']
       skill_inventory_from_map"

definition skill_inventory_json :: "skill_inventory \<Rightarrow> json" where
  "skill_inventory_json v = JObject
     [(''cache_version'', u32_json (si_cache_version v)), (''hub_id'', JString (si_hub_id v)),
      (''hub_name'', JString (si_hub_name v)), (''source'', JString (si_source v)),
      (''generated_at'', JString (si_generated_at v)), (''skills'', list_json cached_skill_json (si_skills v)),
      (''notes'', list_json JString (si_notes v))]"

definition on_intents :: "(cached_intent \<Rightarrow> cached_intent) \<Rightarrow> skill_inventory \<Rightarrow> skill_inventory" where
  "on_intents f v = v\<lparr>si_skills := map (\<lambda>s. s\<lparr>cs_intents := map f (cs_intents s)\<rparr>) (si_skills v)\<rparr>"

record text_lib =
  tx_print :: "json \<Rightarrow> string"
  tx_parse :: "string \<Rightarrow> string + json"
  tx_digest :: "string \<Rightarrow> string"
  tx_url_host :: "string \<Rightarrow> string option"
  tx_lossy :: "string \<Rightarrow> string"

definition NOT_CURRENT :: thalovant_error where
  "NOT_CURRENT = Listing ''not a current inventory cache''"

definition stored_document :: "skill_inventory \<Rightarrow> json" where
  "stored_document v = skill_inventory_json (on_intents (\<lambda>i. i\<lparr>ci_languages := phrase_tags i\<rparr>) v)"

definition inventory_as_json :: "text_lib \<Rightarrow> skill_inventory \<Rightarrow> string res" where
  "inventory_as_json lib v =
     (if si_cache_version v \<noteq> INVENTORY_CACHE_VERSION then Inl NOT_CURRENT else Inr (tx_print lib (stored_document v)))"

text \<open>Read back, every language is named once.\<close>

definition tags_once :: "cached_intent \<Rightarrow> string list" where
  "tags_once i =
     push_missing [] (filter (\<lambda>t. t \<in> fst ` set (ci_phrases i)) (ci_languages i @ map fst (ci_phrases i)))"

definition inventory_from_json :: "text_lib \<Rightarrow> string \<Rightarrow> skill_inventory res" where
  "inventory_from_json lib raw =
     res_bind (case tx_parse lib raw of Inl e \<Rightarrow> Inl (Json e)
               | Inr d \<Rightarrow> ok_or (read_skill_inventory d) (Json ''the document is no inventory''))
       (\<lambda>v. if si_cache_version v \<noteq> INVENTORY_CACHE_VERSION then Inl NOT_CURRENT
            else Inr (on_intents (\<lambda>i. i\<lparr>ci_languages := tags_once i\<rparr>) v))"

section \<open>The cache\<close>

record inventory_cache =
  ic_directory :: string
  ic_ttl :: duration

definition path_join :: "string \<Rightarrow> string \<Rightarrow> string" where
  "path_join base name =
     (if base = [] then name else if last base = CHR ''/'' then base @ name else base @ CHR ''/'' # name)"

definition new_cache :: "string \<Rightarrow> inventory_cache" where
  "new_cache directory = \<lparr>ic_directory = directory, ic_ttl = INVENTORY_CACHE_TTL\<rparr>"

definition default_cache :: "bool \<Rightarrow> (string \<Rightarrow> string option) \<Rightarrow> inventory_cache" where
  "default_cache windows env =
     (let base = or_else (Option.bind (env ''XDG_CACHE_HOME'') (\<lambda>s. if s = [] then None else Some s))
                 (or_else (if windows then env ''LOCALAPPDATA'' else None)
                   (map_option (\<lambda>home. path_join home ''.cache'') (or_else (env ''HOME'') (env ''USERPROFILE''))))
      in new_cache (case base of Some b \<Rightarrow> path_join b ''thalovant'' | None \<Rightarrow> []))"

definition key_char :: "string \<Rightarrow> bool" where
  "key_char c \<longleftrightarrow>
     (case c of
        [d] \<Rightarrow> dec_digit d \<or> lower_letter (ascii_lower d) \<or> d \<in> set ''._-''
      | _ \<Rightarrow> False)"

definition hub_hostname :: "text_lib \<Rightarrow> string \<Rightarrow> string" where
  "hub_hostname lib master =
     (let s = trim master
      in if s = [] then []
         else case tx_url_host lib (if contains s ''://'' then s else ''wss://'' @ s) of Some h \<Rightarrow> h | None \<Rightarrow> [])"

definition identity_host :: "text_lib \<Rightarrow> host \<Rightarrow> files \<Rightarrow> path \<Rightarrow> string option" where
  "identity_host lib h fs p =
     (case read_to_string h fs p of
        Inl e \<Rightarrow> None
      | Inr raw \<Rightarrow>
          (case tx_parse lib raw of
             Inl e \<Rightarrow> None
           | Inr v \<Rightarrow>
               Option.bind (Option.bind (json_get v ''default_master'') as_str)
                 (\<lambda>master. let host = hub_hostname lib master in if host = [] then None else Some host)))"

definition cache_key :: "text_lib \<Rightarrow> host \<Rightarrow> files \<Rightarrow> string \<Rightarrow> path option \<Rightarrow> string" where
  "cache_key lib h fs mode identity =
     (let shown = (case identity of Some p \<Rightarrow> tx_lossy lib (display p) | None \<Rightarrow> []);
          host = (case Option.bind identity (identity_host lib h fs) of Some s \<Rightarrow> s | None \<Rightarrow> ''local'');
          readable = concat (take 40 (map (\<lambda>c. if key_char c then c else ''-'') (utf8_chars host)));
          digest = tx_digest lib (mode @ ''|'' @ shown @ ''|'' @ host)
      in mode @ ''-'' @ readable @ ''-'' @ take 8 digest)"

definition cache_path :: "inventory_cache \<Rightarrow> string \<Rightarrow> path res" where
  "cache_path c k =
     (if ic_directory c = [] \<or> k = [] \<or> 160 < length k \<or> \<not> list_all key_char (utf8_chars k)
      then Inl (Listing ''invalid inventory cache key'')
      else Inr (ic_directory c, ''intents-'' @ k @ ''.json''))"

definition MAX_CACHE_SIZE :: nat where "MAX_CACHE_SIZE = 8 * 1024 * 1024"

text \<open>\<open>age\<close> is how long ago a file was changed, nothing for one changed later than now, and \<open>None\<close> when that is not known.\<close>

definition cache_load ::
    "text_lib \<Rightarrow> host \<Rightarrow> (path \<Rightarrow> duration option) \<Rightarrow> inventory_cache \<Rightarrow> string \<Rightarrow> files \<Rightarrow> skill_inventory option" where
  "cache_load lib h age c k fs =
     (case cache_path c k of
        Inl e \<Rightarrow> None
      | Inr p \<Rightarrow>
          (if open_fault h p \<noteq> None \<or> stat_fault h p \<noteq> None then None
           else case fs p of
             Some (Regular mode content) \<Rightarrow>
               if MAX_CACHE_SIZE < length content then None
               else (case age p of
                       None \<Rightarrow> None
                     | Some d \<Rightarrow>
                         if ic_ttl c < d then None
                         else case read_to_string h fs p of
                                Inl e \<Rightarrow> None
                              | Inr raw \<Rightarrow>
                                  if MAX_CACHE_SIZE < length raw then None
                                  else (case inventory_from_json lib raw of Inr v \<Rightarrow> Some v | Inl e \<Rightarrow> None))
           | _ \<Rightarrow> None))"

definition scratch_name :: "host \<Rightarrow> string" where
  "scratch_name h = ''.intents-'' @ unique h @ ''.partial''"

text \<open>The scratch file is made and written, or is left empty when the inventory is not a current one.\<close>

definition write_scratch :: "text_lib \<Rightarrow> host \<Rightarrow> path \<Rightarrow> skill_inventory \<Rightarrow> files \<Rightarrow> unit res \<times> files" where
  "write_scratch lib h p v fs =
     (case inventory_as_json lib v of
        Inr content \<Rightarrow> write_private_at h p content fs
      | Inl e \<Rightarrow> if fs p \<noteq> None \<or> open_fault h p \<noteq> None then (Inl e, fs) else (Inl e, fs(p \<mapsto> Regular 0x180 [])))"

definition cache_store :: "text_lib \<Rightarrow> host \<Rightarrow> inventory_cache \<Rightarrow> string \<Rightarrow> skill_inventory \<Rightarrow> files \<Rightarrow> files" where
  "cache_store lib h c k v fs =
     (case cache_path c k of
        Inl e \<Rightarrow> fs
      | Inr target \<Rightarrow>
          (if mkdir_fault h (ic_directory c) \<noteq> None then fs
           else
             (let scratch = (ic_directory c, scratch_name h)
              in case write_scratch lib h scratch v fs of
                   (Inl e, fs) \<Rightarrow> remove_file h scratch fs
                 | (Inr u, fs) \<Rightarrow> remove_file h scratch (snd (rename h scratch target fs)))))"

section \<open>What is stored is read\<close>

lemma push_missing_set [simp]: "set (push_missing xs ys) = set xs \<union> set ys"
  by (induction xs ys rule: push_missing.induct) auto

lemma push_missing_append: "push_missing xs (ys @ zs) = push_missing (push_missing xs ys) zs"
  by (induction xs ys rule: push_missing.induct) auto

lemma push_present: "set ys \<subseteq> set xs \<Longrightarrow> push_missing xs ys = xs"
  by (induction xs ys rule: push_missing.induct) auto

lemma push_once: "push_missing [] (push_missing xs ys) = push_missing (push_missing [] xs) ys"
  by (induction xs ys rule: push_missing.induct) (auto simp: push_missing_append)

lemma normal_tags: "tags_once (i\<lparr>ci_languages := phrase_tags i\<rparr>) = tags_once i"
proof -
  let ?ks = "map fst (ci_phrases i)" and ?ls = "filter (\<lambda>t. t \<in> fst ` set (ci_phrases i)) (ci_languages i)"
  have keep: "filter (\<lambda>t. t \<in> fst ` set (ci_phrases i)) xs = xs" if "set xs \<subseteq> set ?ks" for xs
    using that by (induction xs) auto
  have kept: "filter (\<lambda>t. t \<in> fst ` set (ci_phrases i)) (push_missing ?ls ?ks) = push_missing ?ls ?ks"
      "filter (\<lambda>t. t \<in> fst ` set (ci_phrases i)) ?ks = ?ks"
    by (rule keep, force)+
  have "tags_once (i\<lparr>ci_languages := phrase_tags i\<rparr>) = push_missing (push_missing [] (push_missing ?ls ?ks)) ?ks"
    by (simp add: tags_once_def phrase_tags_def push_missing_append kept)
  also have "\<dots> = push_missing (push_missing [] ?ls) ?ks" by (simp add: push_once push_present)
  also have "\<dots> = tags_once i" by (simp add: tags_once_def push_missing_append kept)
  finally show ?thesis .
qed

definition phrases_wf :: "phrase_list \<Rightarrow> bool" where
  "phrases_wf ps \<longleftrightarrow> distinct (map fst ps)"

definition cached_intent_wf :: "cached_intent \<Rightarrow> bool" where
  "cached_intent_wf i \<longleftrightarrow> phrases_wf (ci_phrases i)"

definition cached_skill_wf :: "cached_skill \<Rightarrow> bool" where
  "cached_skill_wf s \<longleftrightarrow> list_all cached_intent_wf (cs_intents s)"

definition inventory_wf :: "skill_inventory \<Rightarrow> bool" where
  "inventory_wf v \<longleftrightarrow> list_all cached_skill_wf (si_skills v)"

lemma put_new_phrases: "k \<notin> fst ` set out \<Longrightarrow> put_phrases k ts out = out @ [(k, ts)]"
  by (induction k ts out rule: put_phrases.induct) auto

lemma collect_round:
  "distinct (map fst (out @ ps)) \<Longrightarrow> collect_phrases out (map (\<lambda>(k, ts). (k, list_json JString ts)) ps) = Some (out @ ps)"
proof (induction ps arbitrary: out)
  case (Cons p ps)
  then show ?case using Cons(1) [of "out @ [p]"]
    by (cases p) (simp add: put_new_phrases texts_codec.round)
qed simp

interpretation phrases_codec: json_codec phrases_json read_phrases phrases_wf
  by unfold_locales (simp_all add: phrases_json_def read_phrases_def phrases_wf_def collect_round)

interpretation cached_intent_codec: json_codec cached_intent_json read_cached_intent cached_intent_wf
  by unfold_locales
    (simp_all add: cached_intent_json_def read_cached_intent_def read_once_def cached_intent_from_map_def cached_intent_wf_def)

interpretation cached_intents_codec: json_codec "list_json cached_intent_json" "read_list read_cached_intent"
    "list_all cached_intent_wf"
  by (rule cached_intent_codec.list_codec)

interpretation cached_skill_codec: json_codec cached_skill_json read_cached_skill cached_skill_wf
  by unfold_locales
    (simp_all add: cached_skill_json_def read_cached_skill_def read_once_def cached_skill_from_map_def cached_skill_wf_def)

interpretation cached_skills_codec: json_codec "list_json cached_skill_json" "read_list read_cached_skill"
    "list_all cached_skill_wf"
  by (rule cached_skill_codec.list_codec)

interpretation inventory_codec: json_codec skill_inventory_json read_skill_inventory inventory_wf
  by unfold_locales
    (simp_all add: skill_inventory_json_def read_skill_inventory_def read_once_def skill_inventory_from_map_def inventory_wf_def)

definition normal_inventory :: "skill_inventory \<Rightarrow> skill_inventory" where
  "normal_inventory v = on_intents (\<lambda>i. i\<lparr>ci_languages := tags_once i\<rparr>) v"

lemma on_intents_twice: "on_intents f (on_intents g v) = on_intents (\<lambda>i. f (g i)) v"
  by (simp add: on_intents_def comp_def)

lemma on_intents_wf: "inventory_wf v \<Longrightarrow> (\<And>i. ci_phrases (f i) = ci_phrases i) \<Longrightarrow> inventory_wf (on_intents f v)"
  by (simp add: inventory_wf_def on_intents_def cached_skill_wf_def cached_intent_wf_def list_all_iff)

lemma inventory_read_back:
  assumes "tx_parse lib raw = Inr (stored_document v)" and "inventory_wf v" and "inventory_as_json lib v = Inr raw"
  shows "inventory_from_json lib raw = Inr (normal_inventory v)"
proof -
  let ?f = "\<lambda>i. i\<lparr>ci_languages := phrase_tags i\<rparr>"
  have version: "si_cache_version v = INVENTORY_CACHE_VERSION"
    using assms(3) by (auto simp: inventory_as_json_def split: if_splits)
  have "read_skill_inventory (skill_inventory_json (on_intents ?f v)) = Some (on_intents ?f v)"
    using assms(2) by (intro inventory_codec.round on_intents_wf) simp_all
  moreover have "si_cache_version (on_intents ?f v) = INVENTORY_CACHE_VERSION"
    using version by (simp add: on_intents_def)
  moreover have "on_intents (\<lambda>i. i\<lparr>ci_languages := tags_once i\<rparr>) (on_intents ?f v) = normal_inventory v"
    by (simp add: on_intents_twice normal_tags normal_inventory_def)
  ultimately show ?thesis using assms(1) by (simp add: inventory_from_json_def stored_document_def)
qed

section \<open>The file on disk\<close>

lemma cache_path_inside:
  "cache_path c k = Inr p \<Longrightarrow> fst p = ic_directory c \<and> CHR ''/'' \<notin> set (snd p) \<and> snd p \<noteq> scratch_name h"
proof -
  assume "cache_path c k = Inr p"
  then have p: "p = (ic_directory c, ''intents-'' @ k @ ''.json'')" and "list_all key_char (utf8_chars k)"
    by (auto simp: cache_path_def split: if_splits)
  moreover have "CHR ''/'' \<notin> set t" if "key_char t" for t
  proof
    assume "CHR ''/'' \<in> set t"
    then have "t = ''/''" using that by (auto simp: key_char_def split: list.splits)
    then show False using that by (simp add: key_char_def dec_digit_def lower_letter_def ascii_lower_def)
  qed
  ultimately have "CHR ''/'' \<notin> set t" if "t \<in> set (utf8_chars k)" for t
    using that unfolding list_all_iff by blast
  then have "CHR ''/'' \<notin> set k" using concat_utf8_chars [of k] by (metis UN_E set_concat)
  then show ?thesis using p by (simp add: scratch_name_def)
qed

lemma write_scratch_cases:
  assumes "write_scratch lib h t v fs = (r, fs')"
  shows "(\<forall>q. q \<noteq> t \<longrightarrow> fs' q = fs q)
    \<and> (r = Inr u \<longrightarrow> (\<exists>content. inventory_as_json lib v = Inr content \<and> fs' t = Some (Regular 0x180 content)))"
proof (cases "inventory_as_json lib v")
  case (Inl e)
  then show ?thesis using assms by (auto simp: write_scratch_def split: if_splits)
next
  case (Inr content)
  then have w: "write_private_at h t content fs = (r, fs')" using assms by (simp add: write_scratch_def)
  show ?thesis
    using write_private_at_other [OF w] write_private_at_ok [of h t content fs u fs'] w Inr by auto
qed

text \<open>
  Storing an inventory touches nothing but the one file of its key, which lies in the cache's directory, and a
  scratch file, whatever fails in between: the file is as it was or holds the whole inventory, readable by
  its owner alone.
\<close>

theorem cache_store_is_atomic:
  "cache_store lib h c k v fs p = fs p
   \<or> p = (ic_directory c, scratch_name h)
   \<or> (\<exists>content. cache_path c k = Inr p \<and> fst p = ic_directory c \<and> CHR ''/'' \<notin> set (snd p)
        \<and> inventory_as_json lib v = Inr content \<and> cache_store lib h c k v fs p = Some (Regular 0x180 content))"
proof (cases "\<exists>target. cache_path c k = Inr target \<and> mkdir_fault h (ic_directory c) = None")
  case False
  then show ?thesis by (auto simp: cache_store_def split: sum.splits)
next
  case True
  then obtain target where t: "cache_path c k = Inr target" "mkdir_fault h (ic_directory c) = None" by blast
  let ?s = "(ic_directory c, scratch_name h)"
  obtain r fs1 where w: "write_scratch lib h ?s v fs = (r, fs1)" by fastforce
  note inside = cache_path_inside [OF t(1), of h]
  have other: "fs1 q = fs q" if "q \<noteq> ?s" for q using write_scratch_cases [OF w] that by blast
  show ?thesis
  proof (cases r)
    case (Inl e)
    then have "cache_store lib h c k v fs = remove_file h ?s fs1" using t w by (simp add: cache_store_def Let_def)
    then show ?thesis using other [of p] by (cases "p = ?s") (simp_all add: remove_file_def)
  next
    case (Inr u)
    then obtain content where content: "inventory_as_json lib v = Inr content" "fs1 ?s = Some (Regular 0x180 content)"
      using write_scratch_cases [OF w] by auto
    have "cache_store lib h c k v fs = remove_file h ?s (snd (rename h ?s target fs1))"
      using t w Inr by (simp add: cache_store_def Let_def)
    then show ?thesis using other [of p] inside content t(1)
      by (cases "p = ?s"; cases "p = target") (simp_all add: remove_file_def rename_def split: option.split)
  qed
qed

definition quiet_host :: "host \<Rightarrow> bool" where
  "quiet_host h \<longleftrightarrow> (\<forall>d. mkdir_fault h d = None) \<and> (\<forall>p. stat_fault h p = None \<and> open_fault h p = None
     \<and> read_fault h p = None \<and> write_fault h p = None \<and> sync_fault h p = None \<and> rename_fault h p = None)"

text \<open>
  C39: on a file system that works, with the name of the scratch file free, an inventory with the current version in
  which every intent has the phrases of a language once is stored, and until its time to live is over it is loaded
  as it was, with the languages of every intent in their normal form: those that have phrases, once, in its order,
  then those only its phrases have. Afterwards nothing is loaded, and nothing ever of an inventory whose text is
  longer than 8 MiB, although it was stored. What was printed is assumed to be parsed as the document it was
  printed of.
\<close>

theorem cache_roundtrip:
  assumes "tx_parse lib raw = Inr (stored_document v)" and "quiet_host h" and "inventory_wf v"
    and "cache_path c k = Inr p" and "inventory_as_json lib v = Inr raw"
    and "fs (ic_directory c, scratch_name h) = None" and "age p = Some d"
  shows "cache_store lib h c k v fs p = Some (Regular 0x180 raw)
    \<and> cache_load lib h age c k (cache_store lib h c k v fs)
        = (if length raw \<le> MAX_CACHE_SIZE \<and> d \<le> ic_ttl c then Some (normal_inventory v) else None)"
proof -
  let ?s = "(ic_directory c, scratch_name h)"
  have quiet: "mkdir_fault h d = None" "stat_fault h q = None" "open_fault h q = None" "read_fault h q = None"
      "write_fault h q = None" "sync_fault h q = None" "rename_fault h q = None" for d q
    using assms(2) by (cases q; simp add: quiet_host_def)+
  have "write_scratch lib h ?s v fs = (Inr (), fs(?s \<mapsto> Regular 0x180 raw))"
    using assms(5,6) by (simp add: write_scratch_def write_private_at_def quiet faulty_def)
  then have "cache_store lib h c k v fs p = Some (Regular 0x180 raw)"
    using assms(4) cache_path_inside [OF assms(4), of h]
    by (auto simp: cache_store_def quiet rename_def remove_file_def Let_def)
  then show ?thesis
    using assms inventory_read_back [OF assms(1,3,5)]
    by (simp add: cache_load_def quiet read_to_string_def faulty_def)
qed

definition sample_inventory :: skill_inventory where
  "sample_inventory =
     \<lparr>si_cache_version = 1, si_hub_id = ''h'', si_hub_name = ''Home'', si_source = ''hub'', si_generated_at = ''g'',
      si_skills = [\<lparr>cs_id = ''s'', cs_title = ''S'', cs_locales = [''en''],
        cs_intents = [\<lparr>ci_id = ''s:i'', ci_name = ''i'', ci_skill_id = ''s'', ci_engine = ''padatious'',
          ci_languages = [''de'', ''en''], ci_phrases = [(''fr'', [''oui'']), (''en'', [''yes'', ''yes {x}''])]\<rparr>]\<rparr>],
      si_notes = []\<rparr>"

definition sample_text_lib :: text_lib where
  "sample_text_lib = \<lparr>tx_print = \<lambda>d. ''{}'', tx_parse = \<lambda>s. Inr (stored_document sample_inventory), tx_digest = id,
     tx_url_host = \<lambda>s. None, tx_lossy = id\<rparr>"

theorem cache_roundtrip_witness:
  "cache_load sample_text_lib calm_host (\<lambda>p. Some 5) (new_cache ''d'') ''a-1''
       (cache_store sample_text_lib calm_host (new_cache ''d'') ''a-1'' sample_inventory (\<lambda>p. None))
     = Some (normal_inventory sample_inventory)
   \<and> map ci_languages (all_intents (normal_inventory sample_inventory)) = [[''en'', ''fr'']]"
proof -
  have wf: "inventory_wf sample_inventory" and v: "si_cache_version sample_inventory = 1"
    by (simp_all add: sample_inventory_def inventory_wf_def cached_skill_wf_def cached_intent_wf_def phrases_wf_def)
  have raw: "inventory_as_json sample_text_lib sample_inventory = Inr ''{}''"
    using v by (simp add: inventory_as_json_def INVENTORY_CACHE_VERSION_def sample_text_lib_def)
  have path: "cache_path (new_cache ''d'') ''a-1'' = Inr (''d'', ''intents-a-1.json'')"
    by (simp add: cache_path_def new_cache_def key_char_def char_start_def lower_letter_def ascii_lower_def dec_digit_def)
  have "quiet_host calm_host" by (simp add: quiet_host_def calm_host_def)
  then have "cache_load sample_text_lib calm_host (\<lambda>p. Some 5) (new_cache ''d'') ''a-1''
       (cache_store sample_text_lib calm_host (new_cache ''d'') ''a-1'' sample_inventory (\<lambda>p. None))
     = Some (normal_inventory sample_inventory)"
    using wf path raw
    by (subst conjunct2 [OF cache_roundtrip [where p = "(''d'', ''intents-a-1.json'')" and raw = "''{}''" and d = 5]])
      (simp_all add: sample_text_lib_def MAX_CACHE_SIZE_def new_cache_def INVENTORY_CACHE_TTL_def from_secs_def)
  moreover have "map ci_languages (all_intents (normal_inventory sample_inventory)) = [[''en'', ''fr'']]"
    by (simp add: normal_inventory_def on_intents_def all_intents_def sample_inventory_def tags_once_def)
  ultimately show ?thesis by blast
qed

end
