(* ===== verification/Chat_Apps.thy ===== *)
theory Chat_Apps
  imports Json_Reading
begin

text \<open>
  \<open>src/src/chat_apps.rs\<close>: the values of the chat-app calls. A credential, the enumerations that keep a value this
  release does not know, every struct of an answer with how it is read and written, and what a caller sends.
\<close>

section \<open>A credential\<close>

datatype secret_value = SecretValue (expose: string)

definition secret_blank :: "secret_value \<Rightarrow> bool" where
  "secret_blank s \<longleftrightarrow> trim (expose s) = []"

definition secret_debug :: "secret_value \<Rightarrow> string" where
  "secret_debug s = REDACTED"

section \<open>Open enumerations\<close>

text \<open>The macro \<open>open_enum!\<close>: over the variants and their wire names, a value is one of them or any other text.\<close>

datatype 'k open_enum = Known 'k | OtherValue string

type_synonym 'k wire_names = "('k \<times> string) list"

fun open_as_str :: "('k::equal) wire_names \<Rightarrow> 'k open_enum \<Rightarrow> string" where
  "open_as_str names (Known k) = (case map_of names k of Some s \<Rightarrow> s | None \<Rightarrow> [])"
| "open_as_str names (OtherValue s) = s"

fun is_known :: "'k open_enum \<Rightarrow> bool" where
  "is_known (Known k) = True"
| "is_known (OtherValue s) = False"

definition open_from :: "'k wire_names \<Rightarrow> string \<Rightarrow> 'k open_enum" where
  "open_from names s = (case find (\<lambda>(k, w). w = s) names of Some (k, w) \<Rightarrow> Known k | None \<Rightarrow> OtherValue s)"

definition open_json :: "('k::equal) wire_names \<Rightarrow> 'k open_enum \<Rightarrow> json" where
  "open_json names e = JString (open_as_str names e)"

definition read_open :: "'k wire_names \<Rightarrow> 'k open_enum reading" where
  "read_open names v = map_option (open_from names) (as_str v)"

datatype bridge_state = State_Setup | State_Active

definition BRIDGE_STATES :: "bridge_state wire_names" where
  "BRIDGE_STATES = [(State_Setup, ''setup''), (State_Active, ''active'')]"

datatype session_scope = Scope_Person | Scope_Chat

definition SESSION_SCOPES :: "session_scope wire_names" where
  "SESSION_SCOPES = [(Scope_Person, ''person''), (Scope_Chat, ''chat'')]"

datatype bridge_phase = Phase_Setup | Phase_Pending | Phase_Ready | Phase_Degraded | Phase_Paused | Phase_Error

definition BRIDGE_PHASES :: "bridge_phase wire_names" where
  "BRIDGE_PHASES =
     [(Phase_Setup, ''Setup''), (Phase_Pending, ''Pending''), (Phase_Ready, ''Ready''), (Phase_Degraded, ''Degraded''),
      (Phase_Paused, ''Paused''), (Phase_Error, ''Error'')]"

datatype status_reason =
    Reason_Setup | Reason_Starting | Reason_Connected | Reason_Paused | Reason_Unavailable | Reason_TokenMissing
  | Reason_TokenRejected

definition STATUS_REASONS :: "status_reason wire_names" where
  "STATUS_REASONS =
     [(Reason_Setup, ''Setup''), (Reason_Starting, ''Starting''), (Reason_Connected, ''Connected''),
      (Reason_Paused, ''Paused''), (Reason_Unavailable, ''Unavailable''), (Reason_TokenMissing, ''TokenMissing''),
      (Reason_TokenRejected, ''TokenRejected'')]"

datatype status_source = Source_Lifecycle | Source_Operator | Source_Watcher | Source_Unavailable

definition STATUS_SOURCES :: "status_source wire_names" where
  "STATUS_SOURCES =
     [(Source_Lifecycle, ''lifecycle''), (Source_Operator, ''operator''), (Source_Watcher, ''watcher''),
      (Source_Unavailable, ''unavailable'')]"

datatype hold_reason = Hold_PlanLimit | Hold_AccountSuspended

definition HOLD_REASONS :: "hold_reason wire_names" where
  "HOLD_REASONS = [(Hold_PlanLimit, ''plan_limit''), (Hold_AccountSuspended, ''account_suspended'')]"

datatype app_status = App_Offered | App_Beta | App_Hidden

definition APP_STATUSES :: "app_status wire_names" where
  "APP_STATUSES = [(App_Offered, ''offered''), (App_Beta, ''beta''), (App_Hidden, ''hidden'')]"

datatype app_helper = Helper_Validate | Helper_Discover | Helper_TestMessage | Helper_Avatar

definition APP_HELPERS :: "app_helper wire_names" where
  "APP_HELPERS =
     [(Helper_Validate, ''validate''), (Helper_Discover, ''discover''), (Helper_TestMessage, ''test_message''),
      (Helper_Avatar, ''avatar'')]"

text \<open>A value as \<open>From<&str>\<close> builds it: the text of an unknown one is no wire name.\<close>

definition open_wf :: "'k wire_names \<Rightarrow> 'k open_enum \<Rightarrow> bool" where
  "open_wf names e = (case e of Known k \<Rightarrow> k \<in> fst ` set names | OtherValue s \<Rightarrow> s \<notin> snd ` set names)"

definition names_ok :: "'k wire_names \<Rightarrow> bool" where
  "names_ok names \<longleftrightarrow> distinct (map fst names) \<and> distinct (map snd names)"

lemma open_from_str:
  assumes "names_ok names" "open_wf names e"
  shows "open_from names (open_as_str names e) = e"
proof (cases e)
  case (Known k)
  then obtain s where s: "(k, s) \<in> set names" using assms(2) by (auto simp: open_wf_def)
  then have m: "map_of names k = Some s" using assms(1) by (simp add: names_ok_def)
  have "find (\<lambda>(k, w). w = s) names = Some (k, s)" using s assms(1)
    by (induction names) (auto simp: names_ok_def image_iff)
  then show ?thesis using Known m by (simp add: open_from_def)
next
  case (OtherValue s)
  then have "find (\<lambda>(k, w). w = s) names = None" using assms(2)
    by (force simp: open_wf_def find_None_iff)
  then show ?thesis using OtherValue by (simp add: open_from_def)
qed

lemma open_str_from:
  assumes "names_ok names" shows "open_as_str names (open_from names s) = s \<and> open_wf names (open_from names s)"
proof (cases "find (\<lambda>(k, w). w = s) names")
  case None
  then have "s \<notin> snd ` set names" by (auto simp: find_None_iff)
  then show ?thesis using None by (simp add: open_from_def open_wf_def)
next
  case (Some p)
  then have p: "(fst p, s) \<in> set names"
    by (cases p) (auto simp: find_Some_iff dest: nth_mem)
  then have "map_of names (fst p) = Some s" using assms by (simp add: names_ok_def)
  then show ?thesis using Some p by (cases p) (force simp: open_from_def open_wf_def)
qed

lemma open_codec: "names_ok names \<Longrightarrow> json_codec (open_json names) (read_open names) (open_wf names)"
  by unfold_locales (simp_all add: open_json_def read_open_def open_from_str)

interpretation state_codec: json_codec "open_json BRIDGE_STATES" "read_open BRIDGE_STATES" "open_wf BRIDGE_STATES"
  by (rule open_codec) (simp add: names_ok_def BRIDGE_STATES_def)

interpretation scope_codec: json_codec "open_json SESSION_SCOPES" "read_open SESSION_SCOPES" "open_wf SESSION_SCOPES"
  by (rule open_codec) (simp add: names_ok_def SESSION_SCOPES_def)

interpretation phase_codec: json_codec "open_json BRIDGE_PHASES" "read_open BRIDGE_PHASES" "open_wf BRIDGE_PHASES"
  by (rule open_codec) (simp add: names_ok_def BRIDGE_PHASES_def)

interpretation reason_codec: json_codec "open_json STATUS_REASONS" "read_open STATUS_REASONS" "open_wf STATUS_REASONS"
  by (rule open_codec) (simp add: names_ok_def STATUS_REASONS_def)

interpretation source_codec: json_codec "open_json STATUS_SOURCES" "read_open STATUS_SOURCES" "open_wf STATUS_SOURCES"
  by (rule open_codec) (simp add: names_ok_def STATUS_SOURCES_def)

interpretation hold_reason_codec: json_codec "open_json HOLD_REASONS" "read_open HOLD_REASONS" "open_wf HOLD_REASONS"
  by (rule open_codec) (simp add: names_ok_def HOLD_REASONS_def)

interpretation app_status_codec: json_codec "open_json APP_STATUSES" "read_open APP_STATUSES" "open_wf APP_STATUSES"
  by (rule open_codec) (simp add: names_ok_def APP_STATUSES_def)

interpretation helper_codec: json_codec "open_json APP_HELPERS" "read_open APP_HELPERS" "open_wf APP_HELPERS"
  by (rule open_codec) (simp add: names_ok_def APP_HELPERS_def)

section \<open>The chat apps\<close>

record localized_text =
  lt_en :: string
  lt_fr :: "string option"

definition localized_from_map :: "jmap \<Rightarrow> localized_text option" where
  "localized_from_map m = do {
     en \<leftarrow> need as_str m ''en'';
     fr \<leftarrow> if_present as_str m ''fr'';
     Some \<lparr>lt_en = en, lt_fr = fr\<rparr> }"

definition localized_json :: "localized_text \<Rightarrow> json" where
  "localized_json t = JObject (bt_collect [(''en'', JString (lt_en t)), (''fr'', opt_json JString (lt_fr t))])"

interpretation localized_codec: json_codec localized_json "read_struct localized_from_map" any_value
  by unfold_locales (simp_all add: localized_json_def localized_from_map_def read_struct_def bt_collect_get)

record secret_field =
  sf_key :: string
  sf_label :: localized_text
  sf_description :: "localized_text option"
  sf_required :: bool

definition secret_field_from_map :: "jmap \<Rightarrow> secret_field option" where
  "secret_field_from_map m = do {
     key \<leftarrow> need as_str m ''key'';
     label \<leftarrow> need (read_struct localized_from_map) m ''label'';
     description \<leftarrow> if_present (read_struct localized_from_map) m ''description'';
     required \<leftarrow> with_default True as_bool m ''required'';
     Some \<lparr>sf_key = key, sf_label = label, sf_description = description, sf_required = required\<rparr> }"

definition secret_field_json :: "secret_field \<Rightarrow> json" where
  "secret_field_json f = JObject (bt_collect
     [(''key'', JString (sf_key f)), (''label'', localized_json (sf_label f)),
      (''description'', opt_json localized_json (sf_description f)), (''required'', JBool (sf_required f))])"

interpretation secret_field_codec: json_codec secret_field_json "read_struct secret_field_from_map" any_value
  by unfold_locales (simp_all add: secret_field_json_def secret_field_from_map_def read_struct_def bt_collect_get)

record app_targets =
  at_label :: localized_text
  at_pattern :: string
  at_max :: "32 word"
  at_lowercase :: bool
  at_strip_prefix :: "string option"

definition targets_from_map :: "jmap \<Rightarrow> app_targets option" where
  "targets_from_map m = do {
     label \<leftarrow> need (read_struct localized_from_map) m ''label'';
     pattern \<leftarrow> need as_str m ''pattern'';
     most \<leftarrow> need read_u32 m ''max'';
     lowercase \<leftarrow> with_default False as_bool m ''lowercase'';
     strip \<leftarrow> if_present as_str m ''strip_prefix'';
     Some \<lparr>at_label = label, at_pattern = pattern, at_max = most, at_lowercase = lowercase, at_strip_prefix = strip\<rparr> }"

definition targets_json :: "app_targets \<Rightarrow> json" where
  "targets_json t = JObject (bt_collect
     [(''label'', localized_json (at_label t)), (''pattern'', JString (at_pattern t)), (''max'', u32_json (at_max t)),
      (''lowercase'', JBool (at_lowercase t)), (''strip_prefix'', opt_json JString (at_strip_prefix t))])"

interpretation targets_codec: json_codec targets_json "read_struct targets_from_map" any_value
  by unfold_locales (simp_all add: targets_json_def targets_from_map_def read_struct_def bt_collect_get)

record app_options =
  ap_require_mention_fixed :: bool
  ap_session_scopes :: "session_scope open_enum list"

definition options_from_map :: "jmap \<Rightarrow> app_options option" where
  "options_from_map m = do {
     fixed \<leftarrow> need as_bool m ''require_mention_fixed'';
     scopes \<leftarrow> with_default [Known Scope_Person, Known Scope_Chat] (read_list (read_open SESSION_SCOPES)) m ''session_scopes'';
     Some \<lparr>ap_require_mention_fixed = fixed, ap_session_scopes = scopes\<rparr> }"

definition options_json :: "app_options \<Rightarrow> json" where
  "options_json t = JObject (bt_collect
     [(''require_mention_fixed'', JBool (ap_require_mention_fixed t)),
      (''session_scopes'', list_json (open_json SESSION_SCOPES) (ap_session_scopes t))])"

interpretation scopes_codec: json_codec "list_json (open_json SESSION_SCOPES)" "read_list (read_open SESSION_SCOPES)"
    "list_all (open_wf SESSION_SCOPES)"
  by (rule scope_codec.list_codec)

definition options_wf :: "app_options \<Rightarrow> bool" where
  "options_wf t \<longleftrightarrow> list_all (open_wf SESSION_SCOPES) (ap_session_scopes t)"

interpretation options_codec: json_codec options_json "read_struct options_from_map" options_wf
  by unfold_locales (simp_all add: options_json_def options_from_map_def read_struct_def bt_collect_get options_wf_def)

record app_release =
  ae_version :: string
  ae_released_at :: "string option"

definition release_from_map :: "jmap \<Rightarrow> app_release option" where
  "release_from_map m = do {
     version \<leftarrow> need as_str m ''version'';
     released \<leftarrow> if_present as_str m ''released_at'';
     Some \<lparr>ae_version = version, ae_released_at = released\<rparr> }"

definition release_json :: "app_release \<Rightarrow> json" where
  "release_json r = JObject (bt_collect
     [(''version'', JString (ae_version r)), (''released_at'', opt_json JString (ae_released_at r))])"

interpretation release_codec: json_codec release_json "read_struct release_from_map" any_value
  by unfold_locales (simp_all add: release_json_def release_from_map_def read_struct_def bt_collect_get)

record app_connector =
  ac_id :: string
  ac_name :: string
  ac_mark :: string
  ac_status :: "app_status open_enum"
  ac_description :: localized_text
  ac_setup_steps :: localized_text
  ac_config_schema :: jmap
  ac_secrets :: "secret_field list"
  ac_targets :: app_targets
  ac_options :: app_options
  ac_helpers :: "app_helper open_enum list"
  ac_offered :: bool
  ac_version :: "app_release option"

definition connector_from_map :: "jmap \<Rightarrow> app_connector option" where
  "connector_from_map m = do {
     i \<leftarrow> need as_str m ''id'';
     name \<leftarrow> need as_str m ''name'';
     mark \<leftarrow> need as_str m ''mark'';
     status \<leftarrow> need (read_open APP_STATUSES) m ''status'';
     description \<leftarrow> need (read_struct localized_from_map) m ''description'';
     steps \<leftarrow> need (read_struct localized_from_map) m ''setup_steps'';
     schema \<leftarrow> with_default [] as_object m ''config_schema'';
     secrets \<leftarrow> with_default [] (read_list (read_struct secret_field_from_map)) m ''secrets'';
     targets \<leftarrow> need (read_struct targets_from_map) m ''targets'';
     options \<leftarrow> need (read_struct options_from_map) m ''options'';
     helpers \<leftarrow> with_default [] (read_list (read_open APP_HELPERS)) m ''helpers'';
     offered \<leftarrow> need as_bool m ''offered'';
     version \<leftarrow> if_present (read_struct release_from_map) m ''version'';
     Some \<lparr>ac_id = i, ac_name = name, ac_mark = mark, ac_status = status, ac_description = description,
       ac_setup_steps = steps, ac_config_schema = schema, ac_secrets = secrets, ac_targets = targets,
       ac_options = options, ac_helpers = helpers, ac_offered = offered, ac_version = version\<rparr> }"

definition connector_json :: "app_connector \<Rightarrow> json" where
  "connector_json c = JObject (bt_collect
     [(''id'', JString (ac_id c)), (''name'', JString (ac_name c)), (''mark'', JString (ac_mark c)),
      (''status'', open_json APP_STATUSES (ac_status c)), (''description'', localized_json (ac_description c)),
      (''setup_steps'', localized_json (ac_setup_steps c)), (''config_schema'', JObject (ac_config_schema c)),
      (''secrets'', list_json secret_field_json (ac_secrets c)), (''targets'', targets_json (ac_targets c)),
      (''options'', options_json (ac_options c)), (''helpers'', list_json (open_json APP_HELPERS) (ac_helpers c)),
      (''offered'', JBool (ac_offered c)), (''version'', opt_json release_json (ac_version c))])"

interpretation secret_fields_codec: json_codec "list_json secret_field_json" "read_list (read_struct secret_field_from_map)"
    "list_all any_value"
  by (rule secret_field_codec.list_codec)

interpretation helpers_codec: json_codec "list_json (open_json APP_HELPERS)" "read_list (read_open APP_HELPERS)"
    "list_all (open_wf APP_HELPERS)"
  by (rule helper_codec.list_codec)

definition connector_wf :: "app_connector \<Rightarrow> bool" where
  "connector_wf c \<longleftrightarrow> 
     open_wf APP_STATUSES (ac_status c) \<and> options_wf (ac_options c) \<and> list_all (open_wf APP_HELPERS) (ac_helpers c)"

interpretation connector_codec: json_codec connector_json "read_struct connector_from_map" connector_wf
  by unfold_locales (simp_all add: connector_json_def connector_from_map_def read_struct_def bt_collect_get connector_wf_def)

section \<open>Networks and the allowance\<close>

record network_offer =
  no_network :: string
  no_offered :: bool
  no_name :: "string option"
  no_mark :: "string option"
  no_status :: "app_status open_enum option"

definition offer_from_map :: "jmap \<Rightarrow> network_offer option" where
  "offer_from_map m = do {
     network \<leftarrow> need as_str m ''network'';
     offered \<leftarrow> need as_bool m ''offered'';
     name \<leftarrow> if_present as_str m ''name'';
     mark \<leftarrow> if_present as_str m ''mark'';
     status \<leftarrow> if_present (read_open APP_STATUSES) m ''status'';
     Some \<lparr>no_network = network, no_offered = offered, no_name = name, no_mark = mark, no_status = status\<rparr> }"

definition offer_json :: "network_offer \<Rightarrow> json" where
  "offer_json f = JObject (bt_collect
     [(''network'', JString (no_network f)), (''offered'', JBool (no_offered f)), (''name'', opt_json JString (no_name f)),
      (''mark'', opt_json JString (no_mark f)), (''status'', opt_json (open_json APP_STATUSES) (no_status f))])"

definition offer_wf :: "network_offer \<Rightarrow> bool" where
  "offer_wf f \<longleftrightarrow> if_any (open_wf APP_STATUSES) (no_status f)"

interpretation offer_codec: json_codec offer_json "read_struct offer_from_map" offer_wf
  by unfold_locales (simp_all add: offer_json_def offer_from_map_def read_struct_def bt_collect_get offer_wf_def)

record bridge_allowance =
  ba_owner_id :: string
  ba_plan :: string
  ba_paid_plan :: bool
  ba_limit :: "64 word"
  ba_used :: "64 word"
  ba_remaining :: "64 word"
  ba_can_create :: bool

definition allowance_from_map :: "jmap \<Rightarrow> bridge_allowance option" where
  "allowance_from_map m = do {
     owner \<leftarrow> need as_str m ''owner_id'';
     plan \<leftarrow> need as_str m ''plan'';
     paid \<leftarrow> need as_bool m ''paid_plan'';
     limit \<leftarrow> need read_u64 m ''limit'';
     used \<leftarrow> need read_u64 m ''used'';
     remaining \<leftarrow> need read_u64 m ''remaining'';
     can_create \<leftarrow> need as_bool m ''can_create'';
     Some \<lparr>ba_owner_id = owner, ba_plan = plan, ba_paid_plan = paid, ba_limit = limit, ba_used = used,
       ba_remaining = remaining, ba_can_create = can_create\<rparr> }"

definition allowance_json :: "bridge_allowance \<Rightarrow> json" where
  "allowance_json a = JObject (bt_collect
     [(''owner_id'', JString (ba_owner_id a)), (''plan'', JString (ba_plan a)), (''paid_plan'', JBool (ba_paid_plan a)),
      (''limit'', u64_json (ba_limit a)), (''used'', u64_json (ba_used a)), (''remaining'', u64_json (ba_remaining a)),
      (''can_create'', JBool (ba_can_create a))])"

interpretation allowance_codec: json_codec allowance_json "read_struct allowance_from_map" any_value
  by unfold_locales (simp_all add: allowance_json_def allowance_from_map_def read_struct_def bt_collect_get)

record bridge_networks =
  bn_networks :: "network_offer list"
  bn_allowance :: bridge_allowance

definition networks_from_map :: "jmap \<Rightarrow> bridge_networks option" where
  "networks_from_map m = do {
     networks \<leftarrow> with_default [] (read_list (read_struct offer_from_map)) m ''networks'';
     allowance \<leftarrow> need (read_struct allowance_from_map) m ''allowance'';
     Some \<lparr>bn_networks = networks, bn_allowance = allowance\<rparr> }"

definition networks_json :: "bridge_networks \<Rightarrow> json" where
  "networks_json n = JObject (bt_collect
     [(''networks'', list_json offer_json (bn_networks n)), (''allowance'', allowance_json (bn_allowance n))])"

interpretation offers_codec: json_codec "list_json offer_json" "read_list (read_struct offer_from_map)" "list_all offer_wf"
  by (rule offer_codec.list_codec)

definition networks_wf :: "bridge_networks \<Rightarrow> bool" where
  "networks_wf n \<longleftrightarrow> list_all offer_wf (bn_networks n)"

interpretation networks_codec: json_codec networks_json "read_struct networks_from_map" networks_wf
  by unfold_locales (simp_all add: networks_json_def networks_from_map_def read_struct_def bt_collect_get networks_wf_def)

end
