(* ===== verification/Bridges.thy ===== *)
theory Bridges
  imports Chat_Apps
begin

text \<open>
  \<open>src/src/chat_apps.rs\<close>: a bridge as the API sends it, its chats, and what a caller sends to make or change one.
  A bridge written is the bridge read, and no state, phase, reason or operation this release does not know makes
  it unreadable.
\<close>

section \<open>A bridge\<close>

record connector_ref =
  cr_id :: string
  cr_name :: string
  cr_version :: "string option"

definition connector_ref_from_map :: "jmap \<Rightarrow> connector_ref option" where
  "connector_ref_from_map m = do {
     i \<leftarrow> need as_str m ''id'';
     name \<leftarrow> need as_str m ''name'';
     version \<leftarrow> if_present as_str m ''version'';
     Some \<lparr>cr_id = i, cr_name = name, cr_version = version\<rparr> }"

definition connector_ref_json :: "connector_ref \<Rightarrow> json" where
  "connector_ref_json c = JObject (bt_collect
     [(''id'', JString (cr_id c)), (''name'', JString (cr_name c)), (''version'', opt_json JString (cr_version c))])"

interpretation connector_ref_codec: json_codec connector_ref_json "read_struct connector_ref_from_map" any_value
  by unfold_locales (simp_all add: connector_ref_json_def connector_ref_from_map_def read_struct_def bt_collect_get)

record bridge_bot =
  bo_user_id :: string
  bo_username :: "string option"
  bo_display_name :: "string option"
  bo_application_id :: "string option"
  bo_avatar_url :: string

definition bot_from_map :: "jmap \<Rightarrow> bridge_bot option" where
  "bot_from_map m = do {
     user \<leftarrow> need as_str m ''user_id'';
     username \<leftarrow> if_present as_str m ''username'';
     display \<leftarrow> if_present as_str m ''display_name'';
     application \<leftarrow> if_present as_str m ''application_id'';
     avatar \<leftarrow> need as_str m ''avatar_url'';
     Some \<lparr>bo_user_id = user, bo_username = username, bo_display_name = display, bo_application_id = application,
       bo_avatar_url = avatar\<rparr> }"

definition bot_json :: "bridge_bot \<Rightarrow> json" where
  "bot_json b = JObject (bt_collect
     [(''user_id'', JString (bo_user_id b)), (''username'', opt_json JString (bo_username b)),
      (''display_name'', opt_json JString (bo_display_name b)),
      (''application_id'', opt_json JString (bo_application_id b)), (''avatar_url'', JString (bo_avatar_url b))])"

interpretation bot_codec: json_codec bot_json "read_struct bot_from_map" any_value
  by unfold_locales (simp_all add: bot_json_def bot_from_map_def read_struct_def bt_collect_get)

record invite_links =
  il_add_to_group :: "string option"
  il_direct_chat :: "string option"

definition invite_from_map :: "jmap \<Rightarrow> invite_links option" where
  "invite_from_map m = do {
     group \<leftarrow> if_present as_str m ''add_to_group'';
     direct \<leftarrow> if_present as_str m ''direct_chat'';
     Some \<lparr>il_add_to_group = group, il_direct_chat = direct\<rparr> }"

definition invite_json :: "invite_links \<Rightarrow> json" where
  "invite_json l = JObject (bt_collect
     [(''add_to_group'', opt_json JString (il_add_to_group l)), (''direct_chat'', opt_json JString (il_direct_chat l))])"

interpretation invite_codec: json_codec invite_json "read_struct invite_from_map" any_value
  by unfold_locales (simp_all add: invite_json_def invite_from_map_def read_struct_def bt_collect_get)

record allowed_chat =
  al_id :: string
  al_title :: "string option"
  al_kind :: "string option"
  al_guild_id :: "string option"
  al_guild_name :: "string option"

definition new_allowed_chat :: "string \<Rightarrow> allowed_chat" where
  "new_allowed_chat i = \<lparr>al_id = i, al_title = None, al_kind = None, al_guild_id = None, al_guild_name = None\<rparr>"

definition allowed_from_map :: "jmap \<Rightarrow> allowed_chat option" where
  "allowed_from_map m = do {
     i \<leftarrow> need as_str m ''id'';
     title \<leftarrow> if_present as_str m ''title'';
     kind \<leftarrow> if_present as_str m ''kind'';
     guild \<leftarrow> if_present as_str m ''guild_id'';
     guild_name \<leftarrow> if_present as_str m ''guild_name'';
     Some \<lparr>al_id = i, al_title = title, al_kind = kind, al_guild_id = guild, al_guild_name = guild_name\<rparr> }"

definition allowed_json :: "allowed_chat \<Rightarrow> json" where
  "allowed_json a = JObject (bt_collect
     ((''id'', JString (al_id a)) # unless_none ''title'' JString (al_title a) @ unless_none ''kind'' JString (al_kind a)
      @ unless_none ''guild_id'' JString (al_guild_id a) @ unless_none ''guild_name'' JString (al_guild_name a)))"

lemma unless_none_distinct [simp]: "distinct (map fst (unless_none k e v))"
  by (simp add: unless_none_def split: option.split)

lemma unless_none_get [simp]:
  "map_of (unless_none k e v) x = (if x = k then map_option e v else None)"
  "x \<noteq> k \<Longrightarrow> map_of (unless_none k e v @ es) x = map_of es x"
  "map_of es k = None \<Longrightarrow> map_of (unless_none k e v @ es) k = map_option e v"
  by (cases v; simp add: unless_none_def)+

interpretation allowed_codec: json_codec allowed_json "read_struct allowed_from_map" any_value
proof unfold_locales
  fix a :: allowed_chat
  have d: "distinct (map fst ((''id'', JString (al_id a)) # unless_none ''title'' JString (al_title a)
      @ unless_none ''kind'' JString (al_kind a) @ unless_none ''guild_id'' JString (al_guild_id a)
      @ unless_none ''guild_name'' JString (al_guild_name a)))"
    by (simp add: unless_none_def split: option.split)
  show "read_struct allowed_from_map (allowed_json a) = Some a"
    unfolding allowed_json_def allowed_from_map_def
    by (rule struct_read) (simp add: bt_collect_get [OF d] del: map_of_append)
qed (simp add: allowed_json_def)

record bridge_hold =
  bh_reason :: "hold_reason open_enum"
  bh_since :: string

definition hold_from_map :: "jmap \<Rightarrow> bridge_hold option" where
  "hold_from_map m = do {
     reason \<leftarrow> need (read_open HOLD_REASONS) m ''reason'';
     since \<leftarrow> need as_str m ''since'';
     Some \<lparr>bh_reason = reason, bh_since = since\<rparr> }"

definition hold_json :: "bridge_hold \<Rightarrow> json" where
  "hold_json h = JObject (bt_collect
     [(''reason'', open_json HOLD_REASONS (bh_reason h)), (''since'', JString (bh_since h))])"

definition hold_wf :: "bridge_hold \<Rightarrow> bool" where
  "hold_wf h \<longleftrightarrow> open_wf HOLD_REASONS (bh_reason h)"

interpretation hold_codec: json_codec hold_json "read_struct hold_from_map" hold_wf
  by unfold_locales (simp_all add: hold_json_def hold_from_map_def read_struct_def bt_collect_get hold_wf_def)

record bridge_status =
  bs_phase :: "bridge_phase open_enum"
  bs_ready :: bool
  bs_reason :: "status_reason open_enum"
  bs_message :: "string option"
  bs_operator_reason :: "string option"
  bs_generation :: "64 word option"
  bs_observed_generation :: "64 word option"
  bs_applied :: "bool option"
  bs_source :: "status_source open_enum"

definition status_from_map :: "jmap \<Rightarrow> bridge_status option" where
  "status_from_map m = do {
     phase \<leftarrow> need (read_open BRIDGE_PHASES) m ''phase'';
     ready \<leftarrow> with_default False as_bool m ''ready'';
     reason \<leftarrow> need (read_open STATUS_REASONS) m ''reason'';
     message \<leftarrow> if_present as_str m ''message'';
     operator \<leftarrow> if_present as_str m ''operator_reason'';
     generation \<leftarrow> if_present read_i64 m ''generation'';
     observed \<leftarrow> if_present read_i64 m ''observed_generation'';
     applied \<leftarrow> if_present as_bool m ''applied'';
     source \<leftarrow> need (read_open STATUS_SOURCES) m ''source'';
     Some \<lparr>bs_phase = phase, bs_ready = ready, bs_reason = reason, bs_message = message, bs_operator_reason = operator,
       bs_generation = generation, bs_observed_generation = observed, bs_applied = applied, bs_source = source\<rparr> }"

definition status_json :: "bridge_status \<Rightarrow> json" where
  "status_json s = JObject (bt_collect
     [(''phase'', open_json BRIDGE_PHASES (bs_phase s)), (''ready'', JBool (bs_ready s)),
      (''reason'', open_json STATUS_REASONS (bs_reason s)), (''message'', opt_json JString (bs_message s)),
      (''operator_reason'', opt_json JString (bs_operator_reason s)),
      (''generation'', opt_json i64_json (bs_generation s)),
      (''observed_generation'', opt_json i64_json (bs_observed_generation s)),
      (''applied'', opt_json JBool (bs_applied s)), (''source'', open_json STATUS_SOURCES (bs_source s))])"

definition status_wf :: "bridge_status \<Rightarrow> bool" where
  "status_wf s \<longleftrightarrow> open_wf BRIDGE_PHASES (bs_phase s) \<and> open_wf STATUS_REASONS (bs_reason s)
     \<and> open_wf STATUS_SOURCES (bs_source s)"

interpretation status_codec: json_codec status_json "read_struct status_from_map" status_wf
  by unfold_locales (simp_all add: status_json_def status_from_map_def read_struct_def bt_collect_get status_wf_def)

record bridge =
  bg_id :: string
  bg_hub_id :: string
  bg_owner_id :: string
  bg_network :: string
  bg_connector :: "connector_ref option"
  bg_settings :: jmap
  bg_secrets_set :: "string list"
  bg_state :: "bridge_state open_enum"
  bg_resource_name :: string
  bg_bot :: bridge_bot
  bg_invite_links :: "invite_links option"
  bg_allowed :: "allowed_chat list"
  bg_require_mention :: bool
  bg_session_scope :: "session_scope open_enum"
  bg_paused :: bool
  bg_hold :: "bridge_hold option"
  bg_status :: bridge_status
  bg_etag :: string
  bg_token_updated_at :: string
  bg_activated_at :: "string option"
  bg_created_at :: string
  bg_updated_at :: string
  bg_operation :: "operation option"

text \<open>\<open>readable_operation\<close>: absent, null or unreadable, there is none.\<close>

definition readable_operation :: "json option \<Rightarrow> operation option" where
  "readable_operation v = Option.bind v read_operation"

definition bridge_from_map :: "jmap \<Rightarrow> bridge option" where
  "bridge_from_map m = do {
     i \<leftarrow> need as_str m ''id'';
     hub \<leftarrow> need as_str m ''hub_id'';
     owner \<leftarrow> need as_str m ''owner_id'';
     network \<leftarrow> need as_str m ''network'';
     connector \<leftarrow> if_present (read_struct connector_ref_from_map) m ''connector'';
     settings \<leftarrow> with_default [] as_object m ''settings'';
     secrets \<leftarrow> with_default [] (read_list as_str) m ''secrets_set'';
     state \<leftarrow> need (read_open BRIDGE_STATES) m ''state'';
     resource \<leftarrow> need as_str m ''resource_name'';
     bot \<leftarrow> need (read_struct bot_from_map) m ''bot'';
     invite \<leftarrow> if_present (read_struct invite_from_map) m ''invite_links'';
     allowed \<leftarrow> with_default [] (read_list (read_struct allowed_from_map)) m ''allowed'';
     mention \<leftarrow> need as_bool m ''require_mention'';
     scope \<leftarrow> need (read_open SESSION_SCOPES) m ''session_scope'';
     paused \<leftarrow> need as_bool m ''paused'';
     hold \<leftarrow> if_present (read_struct hold_from_map) m ''hold'';
     status \<leftarrow> need (read_struct status_from_map) m ''status'';
     etag \<leftarrow> need as_str m ''etag'';
     token \<leftarrow> need as_str m ''token_updated_at'';
     activated \<leftarrow> if_present as_str m ''activated_at'';
     created \<leftarrow> need as_str m ''created_at'';
     updated \<leftarrow> need as_str m ''updated_at'';
     Some \<lparr>bg_id = i, bg_hub_id = hub, bg_owner_id = owner, bg_network = network, bg_connector = connector,
       bg_settings = settings, bg_secrets_set = secrets, bg_state = state, bg_resource_name = resource, bg_bot = bot,
       bg_invite_links = invite, bg_allowed = allowed, bg_require_mention = mention, bg_session_scope = scope,
       bg_paused = paused, bg_hold = hold, bg_status = status, bg_etag = etag, bg_token_updated_at = token,
       bg_activated_at = activated, bg_created_at = created, bg_updated_at = updated,
       bg_operation = readable_operation (map_of m ''operation'')\<rparr> }"

definition bridge_json :: "bridge \<Rightarrow> json" where
  "bridge_json b = JObject (bt_collect
     [(''id'', JString (bg_id b)), (''hub_id'', JString (bg_hub_id b)), (''owner_id'', JString (bg_owner_id b)),
      (''network'', JString (bg_network b)), (''connector'', opt_json connector_ref_json (bg_connector b)),
      (''settings'', JObject (bg_settings b)), (''secrets_set'', list_json JString (bg_secrets_set b)),
      (''state'', open_json BRIDGE_STATES (bg_state b)), (''resource_name'', JString (bg_resource_name b)),
      (''bot'', bot_json (bg_bot b)), (''invite_links'', opt_json invite_json (bg_invite_links b)),
      (''allowed'', list_json allowed_json (bg_allowed b)), (''require_mention'', JBool (bg_require_mention b)),
      (''session_scope'', open_json SESSION_SCOPES (bg_session_scope b)), (''paused'', JBool (bg_paused b)),
      (''hold'', opt_json hold_json (bg_hold b)), (''status'', status_json (bg_status b)),
      (''etag'', JString (bg_etag b)), (''token_updated_at'', JString (bg_token_updated_at b)),
      (''activated_at'', opt_json JString (bg_activated_at b)), (''created_at'', JString (bg_created_at b)),
      (''updated_at'', JString (bg_updated_at b)), (''operation'', opt_json operation_json (bg_operation b))])"

definition bridge_wf :: "bridge \<Rightarrow> bool" where
  "bridge_wf b \<longleftrightarrow> open_wf BRIDGE_STATES (bg_state b) \<and> open_wf SESSION_SCOPES (bg_session_scope b)
     \<and> if_any hold_wf (bg_hold b) \<and> status_wf (bg_status b) \<and> if_any operation_wf (bg_operation b)"

interpretation alloweds_codec: json_codec "list_json allowed_json" "read_list (read_struct allowed_from_map)"
    "list_all any_value"
  by (rule allowed_codec.list_codec)

lemma operation_read_back:
  "if_any operation_wf v \<Longrightarrow> readable_operation (Some (opt_json operation_json v)) = v"
  by (cases v) (simp_all add: readable_operation_def opt_json_def operation_codec.round,
    simp add: read_operation_def read_struct_def)

interpretation bridge_codec: json_codec bridge_json "read_struct bridge_from_map" bridge_wf
  by unfold_locales
    (simp_all add: bridge_json_def bridge_from_map_def read_struct_def bt_collect_get bridge_wf_def operation_read_back)

section \<open>Chats and a test\<close>

record bridge_chat =
  bc_id :: string
  bc_title :: string
  bc_kind :: string
  bc_guild_id :: "string option"
  bc_guild_name :: "string option"
  bc_guild_icon_url :: "string option"
  bc_allowed :: bool
  bc_encrypted :: bool
  bc_selectable :: bool

definition chat_from_map :: "jmap \<Rightarrow> bridge_chat option" where
  "chat_from_map m = do {
     i \<leftarrow> need as_str m ''id'';
     title \<leftarrow> need as_str m ''title'';
     kind \<leftarrow> need as_str m ''kind'';
     guild \<leftarrow> if_present as_str m ''guild_id'';
     guild_name \<leftarrow> if_present as_str m ''guild_name'';
     icon \<leftarrow> if_present as_str m ''guild_icon_url'';
     allowed \<leftarrow> with_default False as_bool m ''allowed'';
     encrypted \<leftarrow> with_default False as_bool m ''encrypted'';
     selectable \<leftarrow> with_default True as_bool m ''selectable'';
     Some \<lparr>bc_id = i, bc_title = title, bc_kind = kind, bc_guild_id = guild, bc_guild_name = guild_name,
       bc_guild_icon_url = icon, bc_allowed = allowed, bc_encrypted = encrypted, bc_selectable = selectable\<rparr> }"

definition chat_json :: "bridge_chat \<Rightarrow> json" where
  "chat_json c = JObject (bt_collect
     [(''id'', JString (bc_id c)), (''title'', JString (bc_title c)), (''kind'', JString (bc_kind c)),
      (''guild_id'', opt_json JString (bc_guild_id c)), (''guild_name'', opt_json JString (bc_guild_name c)),
      (''guild_icon_url'', opt_json JString (bc_guild_icon_url c)), (''allowed'', JBool (bc_allowed c)),
      (''encrypted'', JBool (bc_encrypted c)), (''selectable'', JBool (bc_selectable c))])"

interpretation chat_codec: json_codec chat_json "read_struct chat_from_map" any_value
  by unfold_locales (simp_all add: chat_json_def chat_from_map_def read_struct_def bt_collect_get)

definition allowed_from_chat :: "bridge_chat \<Rightarrow> allowed_chat" where
  "allowed_from_chat c = \<lparr>al_id = bc_id c, al_title = Some (bc_title c), al_kind = Some (bc_kind c),
     al_guild_id = bc_guild_id c, al_guild_name = bc_guild_name c\<rparr>"

record chat_list =
  cl_network :: string
  cl_data :: "bridge_chat list"
  cl_note :: "string option"
  cl_manual_entry :: bool

definition chat_list_from_map :: "jmap \<Rightarrow> chat_list option" where
  "chat_list_from_map m = do {
     network \<leftarrow> need as_str m ''network'';
     chats \<leftarrow> with_default [] (read_list (read_struct chat_from_map)) m ''data'';
     note \<leftarrow> if_present as_str m ''note'';
     manual \<leftarrow> with_default False as_bool m ''manual_entry'';
     Some \<lparr>cl_network = network, cl_data = chats, cl_note = note, cl_manual_entry = manual\<rparr> }"

definition chat_list_json :: "chat_list \<Rightarrow> json" where
  "chat_list_json l = JObject (bt_collect
     [(''network'', JString (cl_network l)), (''data'', list_json chat_json (cl_data l)),
      (''note'', opt_json JString (cl_note l)), (''manual_entry'', JBool (cl_manual_entry l))])"

interpretation chats_codec: json_codec "list_json chat_json" "read_list (read_struct chat_from_map)" "list_all any_value"
  by (rule chat_codec.list_codec)

interpretation chat_list_codec: json_codec chat_list_json "read_struct chat_list_from_map" any_value
  by unfold_locales (simp_all add: chat_list_json_def chat_list_from_map_def read_struct_def bt_collect_get)

record test_result =
  ts_sent :: bool
  ts_chat_id :: string
  ts_language :: string

definition test_result_from_map :: "jmap \<Rightarrow> test_result option" where
  "test_result_from_map m = do {
     sent \<leftarrow> need as_bool m ''sent'';
     chat \<leftarrow> need as_str m ''chat_id'';
     language \<leftarrow> with_default ''en'' as_str m ''language'';
     Some \<lparr>ts_sent = sent, ts_chat_id = chat, ts_language = language\<rparr> }"

definition test_result_json :: "test_result \<Rightarrow> json" where
  "test_result_json r = JObject (bt_collect
     [(''sent'', JBool (ts_sent r)), (''chat_id'', JString (ts_chat_id r)), (''language'', JString (ts_language r))])"

interpretation test_result_codec: json_codec test_result_json "read_struct test_result_from_map" any_value
  by unfold_locales (simp_all add: test_result_json_def test_result_from_map_def read_struct_def bt_collect_get)

record bridge_avatar =
  av_content :: string
  av_content_type :: string

section \<open>What a caller sends\<close>

datatype bridge_credentials = Token secret_value | Secrets "(string, secret_value) btree"

record bridge_create =
  bcr_hub_id :: string
  bcr_connector :: string
  bcr_credentials :: bridge_credentials
  bcr_settings :: "jmap option"

definition secret_map :: "(string \<times> secret_value) list \<Rightarrow> (string, secret_value) btree" where
  "secret_map secrets = bt_collect secrets"

definition exposed_secrets :: "(string, secret_value) btree \<Rightarrow> json" where
  "exposed_secrets secrets = JObject (bt_collect (map (\<lambda>(k, v). (k, JString (expose v))) secrets))"

definition with_token :: "string \<Rightarrow> string \<Rightarrow> secret_value \<Rightarrow> bridge_create" where
  "with_token hub_id connector token =
     \<lparr>bcr_hub_id = hub_id, bcr_connector = connector, bcr_credentials = Token token, bcr_settings = None\<rparr>"

definition with_secrets :: "string \<Rightarrow> string \<Rightarrow> (string \<times> secret_value) list \<Rightarrow> bridge_create" where
  "with_secrets hub_id connector secrets =
     \<lparr>bcr_hub_id = hub_id, bcr_connector = connector, bcr_credentials = Secrets (secret_map secrets), bcr_settings = None\<rparr>"

definition with_settings :: "(string \<times> json) list \<Rightarrow> bridge_create \<Rightarrow> bridge_create" where
  "with_settings settings b =
     b\<lparr>bcr_settings := Some (fold (\<lambda>(k, v). bt_insert k v) settings
         (case bcr_settings b of Some m \<Rightarrow> m | None \<Rightarrow> []))\<rparr>"

record bridge_update =
  bu_allowed :: "allowed_chat list option"
  bu_require_mention :: "bool option"
  bu_session_scope :: "session_scope open_enum option"
  bu_paused :: "bool option"
  bu_settings :: "jmap option"
  bu_etag :: "string option"

definition no_update :: bridge_update where
  "no_update = \<lparr>bu_allowed = None, bu_require_mention = None, bu_session_scope = None, bu_paused = None,
     bu_settings = None, bu_etag = None\<rparr>"

definition update_json :: "bridge_update \<Rightarrow> json" where
  "update_json u = JObject (bt_collect
     (unless_none ''allowed'' (list_json allowed_json) (bu_allowed u)
      @ unless_none ''require_mention'' JBool (bu_require_mention u)
      @ unless_none ''session_scope'' (open_json SESSION_SCOPES) (bu_session_scope u)
      @ unless_none ''paused'' JBool (bu_paused u) @ unless_none ''settings'' JObject (bu_settings u)))"

record bridge_list_options =
  bl_hub_id :: "string option"
  bl_owner_id :: "string option"
  bl_limit :: "32 word option"

section \<open>What stays readable\<close>

text \<open>
  C23: what a release does not know never makes a bridge unreadable. A bridge that is read of an object is read
  as well when its operation is replaced by anything at all and its state and session scope by any text: only
  those fields change, an operation that cannot be read is none, and a text is kept as it was sent.
\<close>

theorem unknown_values_stay_readable:
  assumes "bridge_from_map m = Some b"
  shows "\<exists>s w. bridge_from_map (bt_insert ''operation'' v (bt_insert ''state'' (JString state)
             (bt_insert ''session_scope'' (JString scope) m)))
           = Some (b\<lparr>bg_state := s, bg_session_scope := w, bg_operation := read_operation v\<rparr>)
           \<and> open_as_str BRIDGE_STATES s = state \<and> open_as_str SESSION_SCOPES w = scope"
  using assms open_str_from [of BRIDGE_STATES state] open_str_from [of SESSION_SCOPES scope]
  by (auto simp: bridge_from_map_def need_def with_default_def if_present_def readable_operation_def read_open_def
      names_ok_def BRIDGE_STATES_def SESSION_SCOPES_def bind_eq_Some_conv)

definition sample_bridge :: bridge where
  "sample_bridge =
     \<lparr>bg_id = ''b1'', bg_hub_id = ''h1'', bg_owner_id = ''o1'', bg_network = ''telegram'', bg_connector = None,
      bg_settings = [], bg_secrets_set = [''token''], bg_state = OtherValue ''draining'', bg_resource_name = ''r'',
      bg_bot = \<lparr>bo_user_id = ''7'', bo_username = Some ''bot'', bo_display_name = None, bo_application_id = None,
        bo_avatar_url = ''/a''\<rparr>,
      bg_invite_links = None, bg_allowed = [new_allowed_chat ''-100''], bg_require_mention = True,
      bg_session_scope = Known Scope_Chat, bg_paused = True,
      bg_hold = Some \<lparr>bh_reason = Known Hold_PlanLimit, bh_since = ''2026''\<rparr>,
      bg_status = \<lparr>bs_phase = Known Phase_Paused, bs_ready = False, bs_reason = OtherValue ''Held'', bs_message = None,
        bs_operator_reason = None, bs_generation = Some (- 1), bs_observed_generation = Some 3, bs_applied = None,
        bs_source = Known Source_Operator\<rparr>,
      bg_etag = ''e'', bg_token_updated_at = ''t'', bg_activated_at = None, bg_created_at = ''c'',
      bg_updated_at = ''u'',
      bg_operation = Some \<lparr>op_id = ''p'', op_kind = ''k'', op_aggregate_type = ''bridge'', op_aggregate_id = None,
        op_status = Committed, op_details = [], op_git_commit_sha = None, op_error_code = None, op_error_message = None,
        op_created_at = ''c'', op_updated_at = ''u'', op_committed_at = None, op_applied_at = None, op_ready_at = None,
        op_terminal_at = None, op_links = [(''self'', Some ''/v1/operations/p'')]\<rparr>\<rparr>"

lemma sample_bridge_wf: "bridge_wf sample_bridge"
  by (simp add: sample_bridge_def bridge_wf_def open_wf_def BRIDGE_STATES_def SESSION_SCOPES_def hold_wf_def
      HOLD_REASONS_def status_wf_def BRIDGE_PHASES_def STATUS_REASONS_def STATUS_SOURCES_def operation_wf_def
      bt_inv_def)

lemma sample_bridge_read:
  "\<exists>m. bridge_json sample_bridge = JObject m \<and> bridge_from_map m = Some sample_bridge"
  using bridge_codec.round [OF sample_bridge_wf] by (auto simp: read_struct_def bind_eq_Some_conv)

theorem unknown_values_stay_readable_witness:
  "\<exists>m s w. bridge_from_map (bt_insert ''operation'' (JString ''?'') (bt_insert ''state'' (JString ''asleep'')
       (bt_insert ''session_scope'' (JString ''team'') m)))
     = Some (sample_bridge\<lparr>bg_state := s, bg_session_scope := w, bg_operation := read_operation (JString ''?'')\<rparr>)"
proof -
  obtain m where "bridge_from_map m = Some sample_bridge" using sample_bridge_read by blast
  from unknown_values_stay_readable [OF this, of "JString ''?''" "''asleep''" "''team''"] show ?thesis by blast
qed

text \<open>
  A bridge that is written is read back as it was: its credentials' names, its chats with or without what is
  known of them, a hold, the status with its signed generations, values this release does not know, the operation.
\<close>

theorem bridge_roundtrip:
  "bridge_wf b \<Longrightarrow> read_struct bridge_from_map (bridge_json b) = Some b"
  by (rule bridge_codec.round)

theorem bridge_roundtrip_witness:
  "read_struct bridge_from_map (bridge_json sample_bridge) = Some sample_bridge"
  by (rule bridge_roundtrip [OF sample_bridge_wf])

end
