(* ===== verification/Control_Calls.thy ===== *)
theory Control_Calls
  imports Control_Admission
begin

text \<open>
  \<open>src/src/control.rs\<close> and \<open>src/src/control/bridges.rs\<close>: the calls of the control plane, each one request. Their
  paths, parameters, bodies and headers, and what is refused before anything is sent.
\<close>

section \<open>Hubs\<close>

definition cursor_params :: "api_lib \<Rightarrow> nat \<Rightarrow> nat option \<Rightarrow> string option \<Rightarrow> string list" where
  "cursor_params lib usual limit cursor =
     (''limit='' @ show_nat (case limit of Some n \<Rightarrow> n | None \<Rightarrow> usual))
     # (case cursor of Some k \<Rightarrow> [''cursor='' @ al_encode lib k] | None \<Rightarrow> [])"

definition list_hubs ::
    "api_lib \<Rightarrow> nat option \<Rightarrow> string option \<Rightarrow> string option \<Rightarrow> control_plane \<Rightarrow> json calling" where
  "list_hubs lib limit cursor owner_id c =
     api_call lib c ''GET''
       (''/v1/hubs?'' @ Words.join ''&'' (cursor_params lib 100 limit cursor
         @ (case owner_id of Some w \<Rightarrow> [''owner_id='' @ al_encode lib w] | None \<Rightarrow> []))) None [] True"

definition list_public_hubs :: "api_lib \<Rightarrow> nat option \<Rightarrow> string option \<Rightarrow> control_plane \<Rightarrow> json calling" where
  "list_public_hubs lib limit cursor c =
     api_call lib c ''GET'' (''/v1/public/hubs?'' @ Words.join ''&'' (cursor_params lib 24 limit cursor)) None [] False"

definition hub_path :: "api_lib \<Rightarrow> string \<Rightarrow> string" where
  "hub_path lib hub_id = ''/v1/hubs/'' @ al_encode lib hub_id"

definition get_hub :: "api_lib \<Rightarrow> string \<Rightarrow> control_plane \<Rightarrow> json calling" where
  "get_hub lib hub_id c = api_call lib c ''GET'' (hub_path lib hub_id) None [] True"

definition get_public_hub :: "api_lib \<Rightarrow> string \<Rightarrow> control_plane \<Rightarrow> json calling" where
  "get_public_hub lib hub_ref c = api_call lib c ''GET'' (''/v1/public/hubs/'' @ al_encode lib hub_ref) None [] False"

definition with_header ::
    "api_lib \<Rightarrow> string \<Rightarrow> string \<Rightarrow> ((string \<times> string) list \<Rightarrow> 'a calling) \<Rightarrow> 'a calling" where
  "with_header lib name v k = call_bind (call_res (single_header lib name v)) k"

definition create_hub :: "api_lib \<Rightarrow> json \<Rightarrow> string option \<Rightarrow> control_plane \<Rightarrow> json calling" where
  "create_hub lib body key c log =
     with_header lib ''idempotency-key'' (case key of Some k \<Rightarrow> k | None \<Rightarrow> al_uuid lib log)
       (\<lambda>headers. api_call lib c ''POST'' ''/v1/hubs'' (Some body) headers True) log"

definition ETAG_REQUIRED :: thalovant_error where
  "ETAG_REQUIRED = Api ''etag is required for hub updates and deletions''"

definition update_hub :: "api_lib \<Rightarrow> string \<Rightarrow> json \<Rightarrow> string \<Rightarrow> control_plane \<Rightarrow> json calling" where
  "update_hub lib hub_id body etag c =
     (if trim etag = [] then call_fail ETAG_REQUIRED
      else with_header lib ''if-match'' etag
        (\<lambda>headers. api_call lib c ''PATCH'' (hub_path lib hub_id) (Some body) headers True))"

definition call_unit :: "json calling \<Rightarrow> unit calling" where
  "call_unit m = call_bind m (\<lambda>v. call_return ())"

definition delete_hub :: "api_lib \<Rightarrow> string \<Rightarrow> string \<Rightarrow> control_plane \<Rightarrow> unit calling" where
  "delete_hub lib hub_id etag c =
     (if trim etag = [] then call_fail ETAG_REQUIRED
      else with_header lib ''if-match'' etag
        (\<lambda>headers. call_unit (api_call lib c ''DELETE'' (hub_path lib hub_id) None headers True)))"

record release_options =
  re_channel :: "string option"
  re_mode :: "string option"
  re_version :: "string option"
  re_images :: "(string, string) btree option"
  re_reason :: "string option"

definition put_text :: "string \<Rightarrow> string option \<Rightarrow> jmap \<Rightarrow> jmap" where
  "put_text k v m = (case v of Some s \<Rightarrow> bt_insert k (JString s) m | None \<Rightarrow> m)"

definition release_payload :: "release_options \<Rightarrow> json" where
  "release_payload opts =
     JObject (put_text ''reason'' (re_reason opts)
       ((case re_images opts of Some ims \<Rightarrow> bt_insert ''images'' (JObject (map (\<lambda>(k, s). (k, JString s)) ims)) | None \<Rightarrow> id)
         (put_text ''version'' (re_version opts) (put_text ''mode'' (re_mode opts) (put_text ''channel'' (re_channel opts) [])))))"

definition release_hub :: "api_lib \<Rightarrow> string \<Rightarrow> release_options \<Rightarrow> control_plane \<Rightarrow> json calling" where
  "release_hub lib hub_id opts c =
     api_call lib c ''POST'' (hub_path lib hub_id @ ''/release'') (Some (release_payload opts)) [] True"

definition set_hub_rating :: "api_lib \<Rightarrow> string \<Rightarrow> 8 word \<Rightarrow> control_plane \<Rightarrow> json calling" where
  "set_hub_rating lib hub_id rating c =
     api_call lib c ''PUT'' (hub_path lib hub_id @ ''/rating'')
       (Some (JObject [(''rating'', JNumber (PosInt (ucast rating)))])) [] True"

definition clear_hub_rating :: "api_lib \<Rightarrow> string \<Rightarrow> control_plane \<Rightarrow> json calling" where
  "clear_hub_rating lib hub_id c = api_call lib c ''DELETE'' (hub_path lib hub_id @ ''/rating'') None [] True"

definition get_hub_runtime_capabilities :: "api_lib \<Rightarrow> string \<Rightarrow> control_plane \<Rightarrow> json calling" where
  "get_hub_runtime_capabilities lib hub_id c =
     api_call lib c ''GET'' (hub_path lib hub_id @ ''/runtime-capabilities'') None [] True"

section \<open>Memory and analytics\<close>

record memory_options =
  mo_scope :: "string option"
  mo_kind :: "string option"
  mo_owner_id :: "string option"
  mo_hub_id :: "string option"
  mo_query :: "string option"
  mo_include_deleted :: bool
  mo_include_expired :: bool
  mo_limit :: "nat option"
  mo_offset :: "nat option"

definition number_param :: "string \<Rightarrow> nat option \<Rightarrow> string list" where
  "number_param key v = (case v of Some n \<Rightarrow> [key @ ''='' @ show_nat n] | None \<Rightarrow> [])"

definition flag_param :: "string \<Rightarrow> bool \<Rightarrow> string list" where
  "flag_param key b = (if b then [key @ ''=true''] else [])"

definition list_memory_items :: "api_lib \<Rightarrow> memory_options \<Rightarrow> control_plane \<Rightarrow> json calling" where
  "list_memory_items lib opts c =
     api_call lib c ''GET'' (with_params ''/v1/memory''
       (query_param lib ''scope'' (mo_scope opts) @ query_param lib ''kind'' (mo_kind opts)
        @ query_param lib ''owner_id'' (mo_owner_id opts) @ query_param lib ''hub_id'' (mo_hub_id opts)
        @ query_param lib ''q'' (mo_query opts) @ flag_param ''include_deleted'' (mo_include_deleted opts)
        @ flag_param ''include_expired'' (mo_include_expired opts)
        @ number_param ''limit'' (mo_limit opts) @ number_param ''offset'' (mo_offset opts))) None [] True"

definition get_memory_summary :: "api_lib \<Rightarrow> string option \<Rightarrow> control_plane \<Rightarrow> json calling" where
  "get_memory_summary lib owner_id c =
     api_call lib c ''GET'' (with_params ''/v1/memory/summary'' (query_param lib ''owner_id'' owner_id)) None [] True"

definition memory_path :: "api_lib \<Rightarrow> string \<Rightarrow> string" where
  "memory_path lib memory_id = ''/v1/memory/'' @ al_encode lib memory_id"

definition create_memory_item :: "api_lib \<Rightarrow> json \<Rightarrow> control_plane \<Rightarrow> json calling" where
  "create_memory_item lib body c = api_call lib c ''POST'' ''/v1/memory'' (Some body) [] True"

definition get_memory_item :: "api_lib \<Rightarrow> string \<Rightarrow> control_plane \<Rightarrow> json calling" where
  "get_memory_item lib memory_id c = api_call lib c ''GET'' (memory_path lib memory_id) None [] True"

definition update_memory_item :: "api_lib \<Rightarrow> string \<Rightarrow> json \<Rightarrow> control_plane \<Rightarrow> json calling" where
  "update_memory_item lib memory_id body c = api_call lib c ''PATCH'' (memory_path lib memory_id) (Some body) [] True"

definition delete_memory_item :: "api_lib \<Rightarrow> string \<Rightarrow> control_plane \<Rightarrow> unit calling" where
  "delete_memory_item lib memory_id c = call_unit (api_call lib c ''DELETE'' (memory_path lib memory_id) None [] True)"

record analytics_options =
  ao_range :: "string option"
  ao_bucket :: "string option"
  ao_owner_id :: "string option"
  ao_hub_id :: "string option"
  ao_client_id :: "string option"
  ao_country :: "string option"
  ao_message :: "string option"
  ao_utterance :: "string option"
  ao_intent :: "string option"
  ao_time_start :: "string option"
  ao_time_end :: "string option"
  ao_weekday :: "nat option"
  ao_hour :: "nat option"

definition get_analytics_overview :: "api_lib \<Rightarrow> analytics_options \<Rightarrow> control_plane \<Rightarrow> json calling" where
  "get_analytics_overview lib opts c =
     api_call lib c ''GET'' (with_params ''/v1/analytics/overview''
       (query_param lib ''range'' (ao_range opts) @ query_param lib ''bucket'' (ao_bucket opts)
        @ query_param lib ''owner_id'' (ao_owner_id opts) @ query_param lib ''hub_id'' (ao_hub_id opts)
        @ query_param lib ''client_id'' (ao_client_id opts) @ query_param lib ''country'' (ao_country opts)
        @ query_param lib ''message'' (ao_message opts) @ query_param lib ''utterance'' (ao_utterance opts)
        @ query_param lib ''intent'' (ao_intent opts) @ query_param lib ''time_start'' (ao_time_start opts)
        @ query_param lib ''time_end'' (ao_time_end opts)
        @ number_param ''weekday'' (ao_weekday opts) @ number_param ''hour'' (ao_hour opts))) None [] True"

section \<open>Runtime groups and the marketplace\<close>

definition group_path :: "api_lib \<Rightarrow> string \<Rightarrow> string" where
  "group_path lib runtime_group_id = ''/v1/runtime-groups/'' @ al_encode lib runtime_group_id"

definition list_runtime_groups :: "api_lib \<Rightarrow> string option \<Rightarrow> control_plane \<Rightarrow> json calling" where
  "list_runtime_groups lib owner_id c =
     api_call lib c ''GET'' (with_params ''/v1/runtime-groups'' (query_param lib ''owner_id'' owner_id)) None [] True"

definition get_runtime_group :: "api_lib \<Rightarrow> string \<Rightarrow> control_plane \<Rightarrow> json calling" where
  "get_runtime_group lib i c = api_call lib c ''GET'' (group_path lib i) None [] True"

definition create_runtime_group :: "api_lib \<Rightarrow> json \<Rightarrow> control_plane \<Rightarrow> json calling" where
  "create_runtime_group lib body c = api_call lib c ''POST'' ''/v1/runtime-groups'' (Some body) [] True"

definition update_runtime_group :: "api_lib \<Rightarrow> string \<Rightarrow> json \<Rightarrow> control_plane \<Rightarrow> json calling" where
  "update_runtime_group lib i body c = api_call lib c ''PATCH'' (group_path lib i) (Some body) [] True"

definition release_runtime_group :: "api_lib \<Rightarrow> string \<Rightarrow> release_options \<Rightarrow> control_plane \<Rightarrow> json calling" where
  "release_runtime_group lib i opts c =
     api_call lib c ''POST'' (group_path lib i @ ''/release'') (Some (release_payload opts)) [] True"

definition delete_runtime_group :: "api_lib \<Rightarrow> string \<Rightarrow> control_plane \<Rightarrow> unit calling" where
  "delete_runtime_group lib i c = call_unit (api_call lib c ''DELETE'' (group_path lib i) None [] True)"

record skill_install =
  si_marketplace_skill_id :: "string option"
  si_source_type :: string
  si_source_ref :: "string option"
  si_version_pin :: "string option"
  si_active :: bool

definition default_skill_install :: skill_install where
  "default_skill_install = \<lparr>si_marketplace_skill_id = None, si_source_type = ''catalog'', si_source_ref = None,
     si_version_pin = None, si_active = True\<rparr>"

definition install_runtime_group_skill ::
    "api_lib \<Rightarrow> string \<Rightarrow> string \<Rightarrow> skill_install \<Rightarrow> control_plane \<Rightarrow> json calling" where
  "install_runtime_group_skill lib i skill_id opts c =
     api_call lib c ''POST'' (group_path lib i @ ''/skills'')
       (Some (JObject (put_text ''version_pin'' (si_version_pin opts) (put_text ''source_ref'' (si_source_ref opts)
         (put_text ''marketplace_skill_id'' (si_marketplace_skill_id opts)
           (bt_insert ''active'' (JBool (si_active opts)) (bt_insert ''source_type'' (JString (si_source_type opts))
             (bt_insert ''skill_id'' (JString skill_id) []))))))))
       [] True"

definition uninstall_runtime_group_skill :: "api_lib \<Rightarrow> string \<Rightarrow> string \<Rightarrow> control_plane \<Rightarrow> unit calling" where
  "uninstall_runtime_group_skill lib i skill_id c =
     call_unit (api_call lib c ''DELETE'' (group_path lib i @ ''/skills/'' @ al_encode lib skill_id) None [] True)"

record marketplace_options =
  ko_owner_id :: "string option"
  ko_include_inactive :: bool
  ko_force_refresh :: bool

definition list_marketplace_skills :: "api_lib \<Rightarrow> marketplace_options \<Rightarrow> control_plane \<Rightarrow> json calling" where
  "list_marketplace_skills lib opts c =
     api_call lib c ''GET'' (with_params ''/v1/marketplace/skills''
       (query_param lib ''owner_id'' (ko_owner_id opts) @ flag_param ''include_inactive'' (ko_include_inactive opts)
        @ flag_param ''force_refresh'' (ko_force_refresh opts))) None [] True"

definition list_runtime_group_marketplace :: "api_lib \<Rightarrow> string \<Rightarrow> bool \<Rightarrow> control_plane \<Rightarrow> json calling" where
  "list_runtime_group_marketplace lib i refresh_inventory c =
     api_call lib c ''GET'' (with_params (group_path lib i @ ''/marketplace'') (flag_param ''refresh_inventory'' refresh_inventory))
       None [] True"

definition list_runtime_group_inventory :: "api_lib \<Rightarrow> string \<Rightarrow> bool \<Rightarrow> control_plane \<Rightarrow> json calling" where
  "list_runtime_group_inventory lib i refresh c =
     api_call lib c ''GET'' (with_params (group_path lib i @ ''/inventory'') (flag_param ''refresh'' refresh)) None [] True"

end
