(* ===== verification/Control_Bridges.thy ===== *)
theory Control_Bridges
  imports Bridges Control_Calls
begin

text \<open>
  \<open>src/src/control/bridges.rs\<close>: the calls of the chat apps. What each refuses before anything is sent, what it
  sends, and how its answer is read.
\<close>

section \<open>What is checked first\<close>

definition MAX_BRIDGE_LIST_LIMIT :: "32 word" where "MAX_BRIDGE_LIST_LIMIT = 500"
definition MAX_AVATAR_BYTES :: nat where "MAX_AVATAR_BYTES = 4 * 1024 * 1024"

definition required_text :: "string \<Rightarrow> string \<Rightarrow> string res" where
  "required_text name v = (if trim v = [] then Inl (Api (name @ '' is required'')) else Inr v)"

definition optional_filter :: "string \<Rightarrow> string option \<Rightarrow> string option res" where
  "optional_filter name v =
     (case v of None \<Rightarrow> Inr None | Some t \<Rightarrow> res_bind (required_text name t) (\<lambda>t. Inr (Some t)))"

definition bridge_path :: "api_lib \<Rightarrow> string \<Rightarrow> string \<Rightarrow> string res" where
  "bridge_path lib bridge_id rest =
     res_bind (required_text ''bridge_id'' bridge_id) (\<lambda>i. Inr (''/v1/bridges/'' @ al_encode lib i @ rest))"

definition secrets_body :: "(string, secret_value) btree \<Rightarrow> json res" where
  "secrets_body secrets =
     (if secrets = [] then Inl (Api ''secrets must name at least one secret'') else Inr (exposed_secrets secrets))"

definition credentials_body :: "bridge_credentials \<Rightarrow> (string \<times> json) res" where
  "credentials_body c =
     (case c of
        Token t \<Rightarrow> if secret_blank t then Inl (Api ''token is required'') else Inr (''token'', JString (expose t))
      | Secrets ss \<Rightarrow> res_bind (secrets_body ss) (\<lambda>v. Inr (''secrets'', v)))"

definition create_body :: "bridge_create \<Rightarrow> json res" where
  "create_body b =
     res_bind (required_text ''hub_id'' (bcr_hub_id b)) (\<lambda>hub.
     res_bind (required_text ''connector'' (bcr_connector b)) (\<lambda>connector.
     res_bind (credentials_body (bcr_credentials b)) (\<lambda>(k, v).
       Inr (JObject
         ((case bcr_settings b of Some m \<Rightarrow> bt_insert ''settings'' (JObject m) | None \<Rightarrow> id)
           (bt_insert k v (bt_insert ''connector'' (JString connector) (bt_insert ''hub_id'' (JString hub) []))))))))"

definition list_limit :: "32 word option \<Rightarrow> string list res" where
  "list_limit v =
     (case v of
        None \<Rightarrow> Inr []
      | Some n \<Rightarrow>
          if 1 \<le> n \<and> n \<le> MAX_BRIDGE_LIST_LIMIT then Inr [''limit='' @ show_nat (unat n)]
          else Inl (Api (''limit must be from 1 to '' @ show_nat (unat MAX_BRIDGE_LIST_LIMIT))))"

definition update_headers :: "api_lib \<Rightarrow> bridge_update \<Rightarrow> (string \<times> string) list res" where
  "update_headers lib u =
     (case bu_etag u of
        None \<Rightarrow> Inr []
      | Some etag \<Rightarrow>
          if trim etag = [] then Inl (Api ''etag must not be blank'') else single_header lib ''if-match'' etag)"

section \<open>The calls\<close>

text \<open>An answer read as what it should be, and the list of a \<open>{data: [...]}\<close> one.\<close>

definition read_answer :: "api_lib \<Rightarrow> 'a reading \<Rightarrow> json \<Rightarrow> 'a calling" where
  "read_answer lib d v = call_res (ok_or (d v) (Json (al_says lib v)))"

definition data_envelope :: "'a reading \<Rightarrow> 'a list reading" where
  "data_envelope d = read_struct (\<lambda>m. need (read_list d) m ''data'')"

definition list_chat_app_connectors :: "api_lib \<Rightarrow> control_plane \<Rightarrow> app_connector list calling" where
  "list_chat_app_connectors lib c =
     call_bind (api_call lib c ''GET'' ''/v1/bridges/connectors'' None [] True)
       (read_answer lib (data_envelope (read_struct connector_from_map)))"

definition get_bridge_networks :: "api_lib \<Rightarrow> string option \<Rightarrow> control_plane \<Rightarrow> bridge_networks calling" where
  "get_bridge_networks lib hub_id c =
     call_bind (call_res (optional_filter ''hub_id'' hub_id)) (\<lambda>hub.
     call_bind (api_call lib c ''GET'' (with_params ''/v1/bridges/networks'' (query_param lib ''hub_id'' hub)) None [] True)
       (read_answer lib (read_struct networks_from_map)))"

definition list_bridges :: "api_lib \<Rightarrow> bridge_list_options \<Rightarrow> control_plane \<Rightarrow> bridge list calling" where
  "list_bridges lib opts c =
     call_bind (call_res (optional_filter ''hub_id'' (bl_hub_id opts))) (\<lambda>hub.
     call_bind (call_res (optional_filter ''owner_id'' (bl_owner_id opts))) (\<lambda>own.
     call_bind (call_res (list_limit (bl_limit opts))) (\<lambda>limit.
     call_bind (api_call lib c ''GET''
         (with_params ''/v1/bridges'' (query_param lib ''hub_id'' hub @ query_param lib ''owner_id'' own @ limit)) None [] True)
       (read_answer lib (data_envelope (read_struct bridge_from_map))))))"

definition create_bridge :: "api_lib \<Rightarrow> bridge_create \<Rightarrow> control_plane \<Rightarrow> bridge calling" where
  "create_bridge lib b c =
     call_bind (call_res (create_body b)) (\<lambda>body.
     call_bind (api_call lib c ''POST'' ''/v1/bridges'' (Some body) [] True) (read_answer lib (read_struct bridge_from_map)))"

definition get_bridge :: "api_lib \<Rightarrow> string \<Rightarrow> control_plane \<Rightarrow> bridge calling" where
  "get_bridge lib bridge_id c =
     call_bind (call_res (bridge_path lib bridge_id [])) (\<lambda>path.
     call_bind (api_call lib c ''GET'' path None [] True) (read_answer lib (read_struct bridge_from_map)))"

definition update_bridge :: "api_lib \<Rightarrow> string \<Rightarrow> bridge_update \<Rightarrow> control_plane \<Rightarrow> bridge calling" where
  "update_bridge lib bridge_id u c =
     call_bind (call_res (bridge_path lib bridge_id [])) (\<lambda>path.
     call_bind (call_res (update_headers lib u)) (\<lambda>headers.
     call_bind (api_call lib c ''PATCH'' path (Some (update_json u)) headers True)
       (read_answer lib (read_struct bridge_from_map))))"

definition replace_bridge_token :: "api_lib \<Rightarrow> string \<Rightarrow> secret_value \<Rightarrow> control_plane \<Rightarrow> bridge calling" where
  "replace_bridge_token lib bridge_id token c =
     call_bind (call_res (bridge_path lib bridge_id ''/token'')) (\<lambda>path.
       if secret_blank token then call_fail (Api ''token is required'')
       else call_bind (api_call lib c ''PUT'' path (Some (JObject [(''token'', JString (expose token))])) [] True)
         (read_answer lib (read_struct bridge_from_map)))"

definition replace_bridge_secrets ::
    "api_lib \<Rightarrow> string \<Rightarrow> (string \<times> secret_value) list \<Rightarrow> control_plane \<Rightarrow> bridge calling" where
  "replace_bridge_secrets lib bridge_id secrets c =
     call_bind (call_res (bridge_path lib bridge_id ''/secrets'')) (\<lambda>path.
     call_bind (call_res (secrets_body (secret_map secrets))) (\<lambda>body.
     call_bind (api_call lib c ''PUT'' path (Some (JObject [(''secrets'', body)])) [] True)
       (read_answer lib (read_struct bridge_from_map))))"

definition list_bridge_chats :: "api_lib \<Rightarrow> string \<Rightarrow> control_plane \<Rightarrow> chat_list calling" where
  "list_bridge_chats lib bridge_id c =
     call_bind (call_res (bridge_path lib bridge_id ''/chats'')) (\<lambda>path.
     call_bind (api_call lib c ''GET'' path None [] True) (read_answer lib (read_struct chat_list_from_map)))"

definition send_bridge_test_message :: "api_lib \<Rightarrow> string \<Rightarrow> string \<Rightarrow> control_plane \<Rightarrow> test_result calling" where
  "send_bridge_test_message lib bridge_id chat_id c =
     call_bind (call_res (bridge_path lib bridge_id ''/test'')) (\<lambda>path.
     call_bind (call_res (required_text ''chat_id'' chat_id)) (\<lambda>chat.
     call_bind (api_call lib c ''POST'' path (Some (JObject [(''chat_id'', JString chat)])) [] True)
       (read_answer lib (read_struct test_result_from_map))))"

definition get_bridge_avatar :: "api_lib \<Rightarrow> string \<Rightarrow> control_plane \<Rightarrow> bridge_avatar calling" where
  "get_bridge_avatar lib bridge_id c =
     call_bind (call_res (bridge_path lib bridge_id ''/avatar'')) (\<lambda>path.
     call_bind (request_bytes lib c path ''image/*, application/problem+json'' MAX_AVATAR_BYTES) (\<lambda>(content, kind).
       call_return \<lparr>av_content = content,
         av_content_type = (case kind of Some t \<Rightarrow> t | None \<Rightarrow> ''application/octet-stream'')\<rparr>))"

definition delete_bridge :: "api_lib \<Rightarrow> string \<Rightarrow> control_plane \<Rightarrow> unit calling" where
  "delete_bridge lib bridge_id c =
     call_bind (call_res (bridge_path lib bridge_id [])) (\<lambda>path.
       call_unit (api_call lib c ''DELETE'' path None [] True))"

section \<open>What a change sends\<close>

lemma api_call_cases:
  assumes "api_call lib c verb path body headers auth log = (r, log')"
  shows "log' = log \<and> (\<exists>e. r = Inl e)
     \<or> (\<exists>rq. form_request lib c verb path body headers auth = Inr rq \<and> log' = log @ [Sent rq])"
proof (cases "form_request lib c verb path body headers auth")
  case (Inl e)
  then show ?thesis using assms
    by (auto simp: api_call_def send_request_def send_request_full_def send_control_def call_bind_def)
next
  case (Inr rq)
  then have "snd (send_control lib c verb path body headers auth log) = log @ [Sent rq]"
    by (simp add: send_control_def)
  then have "log' = log @ [Sent rq]" using assms
    by (auto simp: api_call_def send_request_def send_request_full_def call_bind_def call_return_def call_fail_def
        call_res_def Let_def split: sum.splits prod.splits if_splits)
  then show ?thesis using Inr by blast
qed

lemma form_request_match:
  assumes "form_request lib c verb path body headers True = Inr rq" and "headers = [] \<or> (\<exists>v. headers = [(''if-match'', v)])"
  shows "map_of (ar_headers rq) ''if-match'' = map_of headers ''if-match''"
  using assms
  by (auto simp: form_request_def res_bind_eq_Inr bearer_headers_def plain_headers_def split: option.splits)

lemma update_headers_Inr:
  "update_headers lib u = Inr hs \<Longrightarrow>
     (hs = [] \<and> bu_etag u = None) \<or> (\<exists>e. hs = [(''if-match'', e)] \<and> bu_etag u = Some e \<and> trim e \<noteq> [])"
  by (auto simp: update_headers_def single_header_def res_bind_eq_Inr split: option.splits if_splits)

text \<open>
  C24: a change of a bridge either fails with nothing sent or sends one \<open>PATCH\<close>, safely, to the one bridge that was
  named and never to the list, with what was asked for as its body; it is conditional on the version the caller
  read exactly when the caller gave one, and that is never blank. A bridge that is returned is the API's answer to it.
\<close>

theorem bridge_change_is_conditional:
  assumes "update_bridge lib i u c log = (r, log')"
  shows "(log' = log \<and> (\<exists>e. r = Inl e))
     \<or> (trim i \<noteq> [] \<and> (\<forall>e. bu_etag u = Some e \<longrightarrow> trim e \<noteq> [])
        \<and> (\<exists>rq. log' = log @ [Sent rq] \<and> sent_by c rq \<and> ar_method rq = ''PATCH'' \<and> ar_body rq = Some (update_json u)
             \<and> al_url lib (cp_api_url c @ ''v1/bridges/'' @ al_encode lib i) = Some (ar_url rq)
             \<and> map_of (ar_headers rq) ''if-match'' = bu_etag u)
        \<and> (\<forall>b. r = Inr b \<longrightarrow> (\<exists>v. succeeded lib log' v \<and> read_struct bridge_from_map v = Some b)))"
proof (cases "trim i = [] \<or> (\<exists>e. update_headers lib u = Inl e)")
  case True
  then show ?thesis using assms
    by (cases "trim i = []") (auto simp: update_bridge_def bridge_path_def required_text_def call_bind_def call_res_def)
next
  case False
  let ?path = "''/v1/bridges/'' @ al_encode lib i"
  from False obtain hs where hs: "update_headers lib u = Inr hs" by (cases "update_headers lib u") auto
  obtain a log1 where a: "api_call lib c ''PATCH'' ?path (Some (update_json u)) hs True log = (a, log1)" by fastforce
  have run: "log' = log1" "\<forall>b. r = Inr b \<longrightarrow> (\<exists>v. a = Inr v \<and> read_struct bridge_from_map v = Some b)"
      "\<forall>e. a = Inl e \<longrightarrow> r = Inl e"
    using assms False hs a
    by (cases a; auto simp: update_bridge_def bridge_path_def required_text_def call_bind_def call_res_def read_answer_def
        ok_or_def split: option.splits)+
  have sent: "sent_by c rq \<and> ar_method rq = ''PATCH'' \<and> ar_body rq = Some (update_json u)
      \<and> al_url lib (cp_api_url c @ ''v1/bridges/'' @ al_encode lib i) = Some (ar_url rq)
      \<and> map_of (ar_headers rq) ''if-match'' = bu_etag u"
    if rq: "form_request lib c ''PATCH'' ?path (Some (update_json u)) hs True = Inr rq" for rq
    using form_request_fields [OF rq] form_request_sent [OF rq] form_request_match [OF rq] update_headers_Inr [OF hs]
    by auto
  show ?thesis
    using api_call_cases [OF a] run sent False update_headers_Inr [OF hs] api_call_Inr [of lib c "''PATCH''" ?path] a
    by fastforce
qed

theorem bridge_change_is_conditional_witness:
  "\<exists>r rq. update_bridge typed_api ''b'' (no_update\<lparr>bu_paused := Some True, bu_etag := Some ''e''\<rparr>) store_plane []
     = (r, [Sent rq]) \<and> map_of (ar_headers rq) ''if-match'' = Some ''e''"
proof -
  let ?u = "no_update\<lparr>bu_paused := Some True, bu_etag := Some ''e''\<rparr>"
  have trims: "trim ''b'' = ''b''" "trim ''e'' = ''e''" by (simp_all add: trim_plain plain_char_def)
  have hs: "update_headers typed_api ?u = Inr [(''if-match'', ''e'')]"
    by (simp add: update_headers_def trims single_header_def header_ok_def typed_api_def sample_api_def)
  have "\<not> url_has_userinfo (''https://hub/'' @ dropWhile (\<lambda>d. d = CHR ''/'') ''/v1/bridges/b'')"
    by (simp add: url_has_userinfo_def starts_with_def)
  from typed_call [OF this, of "''PATCH''" "Some (update_json ?u)" "[(''if-match'', ''e'')]" "[]"]
  have "\<exists>r rq. update_bridge typed_api ''b'' ?u store_plane [] = (r, [Sent rq])"
    using hs by (auto simp: update_bridge_def bridge_path_def required_text_def trims call_bind_def call_res_def read_answer_def
        typed_api_def sample_api_def)
  then obtain r rq where run: "update_bridge typed_api ''b'' ?u store_plane [] = (r, [Sent rq])" by blast
  from bridge_change_is_conditional [OF run] show ?thesis using run by auto
qed

end
