(* ===== verification/Home_Requests.thy ===== *)
theory Home_Requests
  imports Home Session_Handlers
begin

text \<open>
  \<open>src/src/home.rs\<close>, answering every request a session receives: a handler on the session that answers each
  event on a task of its own, and the subscription that ends it. The handler keeps the session weakly, so
  every operation is told whether the session is still there.
\<close>

section \<open>What an answer is given\<close>

definition with_speech :: "string \<Rightarrow> home_answer \<Rightarrow> home_answer" where
  "with_speech speech a = a\<lparr>ha_speech := speech\<rparr>"

definition with_error_code :: "string \<Rightarrow> home_answer \<Rightarrow> home_answer" where
  "with_error_code code a = a\<lparr>ha_error_code := Some code\<rparr>"

definition with_continue_conversation :: "bool \<Rightarrow> home_answer \<Rightarrow> home_answer" where
  "with_continue_conversation b a = a\<lparr>ha_continue := b\<rparr>"

definition with_conversation_id :: "string \<Rightarrow> home_answer \<Rightarrow> home_answer" where
  "with_conversation_id c a = a\<lparr>ha_conversation_id := Some c\<rparr>"

lemma error_answer_built: "error_answer code = with_error_code code (new_answer ''error'' [])"
  by (simp add: error_answer_def with_error_code_def new_answer_def)

section \<open>The subscription\<close>

record subscription =
  sub_id :: "nat option"

definition answer_home_requests :: "bool \<Rightarrow> handlers \<Rightarrow> subscription res \<times> handlers" where
  "answer_home_requests session_closed hs =
     (case on session_closed HOME_REQUEST hs of
        (Inl e, hs) \<Rightarrow> (Inl e, hs)
      | (Inr hid, hs) \<Rightarrow> (Inr \<lparr>sub_id = Some hid\<rparr>, hs))"

text \<open>
  The task of one event: nothing without the session, else one answer, whose failure has nowhere to be
  reported. What it started, what was written of it and when it was done.
\<close>

definition home_task ::
    "bool \<Rightarrow> nat \<Rightarrow> nat \<Rightarrow> event \<Rightarrow> handler \<Rightarrow> (nat \<Rightarrow> jmap \<Rightarrow> reply_run) \<Rightarrow> duration
       \<Rightarrow> (nat \<times> jmap) list \<times> home_write list \<times> nat" where
  "home_task session_there instant_max started e handler reply wait =
     (if \<not> session_there then ([], [], started)
      else snd (answer_home_request instant_max started e handler reply wait))"

definition unsubscribe :: "bool \<Rightarrow> subscription \<times> handlers \<Rightarrow> subscription \<times> handlers" where
  "unsubscribe session_there sh =
     (case sub_id (fst sh) of
        None \<Rightarrow> sh
      | Some hid \<Rightarrow>
          ((fst sh)\<lparr>sub_id := None\<rparr>, if session_there then snd (off hid (snd sh)) else snd sh))"

definition drop_subscription :: "bool \<Rightarrow> subscription \<times> handlers \<Rightarrow> handlers" where
  "drop_subscription session_there sh = snd (unsubscribe session_there sh)"

text \<open>\<open>stop\<close> takes the subscription, which is dropped at its end.\<close>

definition stop :: "bool \<Rightarrow> subscription \<times> handlers \<Rightarrow> handlers" where
  "stop session_there sh = drop_subscription session_there (unsubscribe session_there sh)"

section \<open>What holds of it\<close>

lemma unsubscribe_once [simp]: "unsubscribe b' (unsubscribe b sh) = unsubscribe b sh"
  by (auto simp: unsubscribe_def split: option.splits)

lemma stop_is_drop: "stop b sh = drop_subscription b sh"
  by (simp add: stop_def drop_subscription_def)

lemma off_registered:
  assumes "hid \<in> reg_id ` set (events hs)"
  shows "off hid hs = (True, retire hid (hs\<lparr>events := remove_reg hid (events hs)\<rparr>))"
  using assms by (auto simp: off_def off_remove_def)

lemma remove_reg_filter: "distinct (map reg_id rs) \<Longrightarrow> remove_reg hid rs = filter (\<lambda>r. reg_id r \<noteq> hid) rs"
proof (induction rs)
  case (Cons r rs)
  have "hid \<notin> reg_id ` set rs \<Longrightarrow> filter (\<lambda>r. reg_id r \<noteq> hid) rs = rs"
    by (rule filter_True) auto
  then show ?case using Cons by auto
qed simp

text \<open>
  While a session is open, a subscription adds exactly one handler, of home requests. Ended by \<open>stop\<close> or by
  being dropped, at any later time, it takes that handler and nothing else: it is not registered, no
  task of it runs, no dispatch can start one, and every other handler is as it was.
\<close>

theorem subscription_ends:
  assumes "answer_home_requests False hs0 = (Inr sub, hs1)" and "board_reach b" and "handling b = hs"
    and "sub_id sub = Some hid" and "hid \<in> reg_id ` set (events hs)" and "cells hs hid \<noteq> None"
    and "hs' = stop True (sub, hs)"
  shows "events hs1 = events hs0 @ [\<lparr>reg_id = hid, event_type = HOME_REQUEST\<rparr>]
    \<and> events hs' = filter (\<lambda>r. reg_id r \<noteq> hid) (events hs)
    \<and> cells hs' hid = Some \<lparr>retired = True, running = []\<rparr>
    \<and> start_task hid task hs' = (False, hs')
    \<and> (\<forall>i. i \<noteq> hid \<longrightarrow> cells hs' i = cells hs i)
    \<and> states hs' = states hs"
proof -
  have d: "distinct (map reg_id (events hs))"
    using board_reach_inv [OF assms(2)] assms(3) by (auto simp: board_inv_def ids_ok_def)
  obtain cell where c: "cells hs hid = Some cell" using assms(6) by blast
  have hs': "hs' = retire hid (hs\<lparr>events := remove_reg hid (events hs)\<rparr>)"
    using assms(4,7) off_registered [OF assms(5)]
    by (simp add: stop_is_drop drop_subscription_def unsubscribe_def)
  have "cells hs' hid = Some (cell\<lparr>retired := True, running := []\<rparr>)"
    using c unfolding hs' by (simp add: retire_def)
  moreover have "events hs1 = events hs0 @ [\<lparr>reg_id = hid, event_type = HOME_REQUEST\<rparr>]"
    using assms(1,4) by (auto simp: answer_home_requests_def on_def)
  ultimately show ?thesis
    using c unfolding hs' by (auto simp: remove_reg_filter [OF d] retire_def start_task_def)
qed

lemma subscription_ends_sample:
  "events (stop True (\<lparr>sub_id = Some 1\<rparr>, snd (answer_home_requests False handlers_default))) = []"
  by (simp add: stop_is_drop drop_subscription_def unsubscribe_def answer_home_requests_def on_def
      handlers_default_def off_def off_remove_def retire_def)

lemma dead_session_answers_nothing:
  "home_task False m started e h reply wait = ([], [], started)" "stop False (sub, hs) = hs"
  by (simp_all add: home_task_def stop_is_drop drop_subscription_def unsubscribe_def split: option.split)

end
