(* ===== verification/Origin.thy ===== *)
theory Origin
  imports Hub_Session
begin

text \<open>
  \<open>src/src/session.rs\<close>, \<open>OriginPreference\<close>: a hub that is reachable at an address of the local network is tried
  there first, with a short budget, and after a failure not again until a cooldown is over. The public
  attempt is always made without the address. What the builder does is the caller's: it is told the options
  and gives its result with the time it came.
\<close>

record origin_attempt =
  oa_address :: "string option"
  oa_host :: string
  oa_handshake_timeout :: "duration option"
  oa_connect_timeout :: duration

record origin_preference =
  og_address :: string
  og_handshake_timeout :: duration
  og_cooldown :: duration
  og_quiet_until :: "duration option"

definition origin_new :: "string \<Rightarrow> origin_preference" where
  "origin_new address =
     \<lparr>og_address = address, og_handshake_timeout = from_millis 1500, og_cooldown = from_secs 300,
      og_quiet_until = None\<rparr>"

definition cooling_down :: "duration \<Rightarrow> origin_preference \<Rightarrow> bool" where
  "cooling_down now o1 = (case og_quiet_until o1 of None \<Rightarrow> False | Some until \<Rightarrow> now < until)"

definition ORIGIN_BUDGETS :: thalovant_error where
  "ORIGIN_BUDGETS = Connection ''origin budgets must be positive''"

definition preferred :: "origin_preference \<Rightarrow> origin_attempt \<Rightarrow> origin_attempt" where
  "preferred o1 options =
     options\<lparr>oa_address := Some (og_address o1), oa_handshake_timeout := Some (og_handshake_timeout o1)\<rparr>"

text \<open>
  \<open>representable\<close> says which instants there are. The builds made, in order, come with the result; a failed
  one at an instant to which the cooldown cannot be added panics, which is \<open>None\<close>.
\<close>

definition origin_connect ::
    "(duration \<Rightarrow> bool) \<Rightarrow> duration \<Rightarrow> (origin_attempt \<Rightarrow> 'c res \<times> duration) \<Rightarrow> origin_attempt \<Rightarrow> origin_preference
       \<Rightarrow> ('c res option \<times> origin_attempt list) \<times> origin_preference" where
  "origin_connect representable now build options o1 =
     (if og_handshake_timeout o1 = 0 \<or> og_cooldown o1 = 0 \<or> \<not> representable (now + og_cooldown o1)
      then ((Some (Inl ORIGIN_BUDGETS), []), o1)
      else
        (let public = options\<lparr>oa_address := None\<rparr>; p = preferred o1 options
         in if og_address o1 \<noteq> [] \<and> oa_host options \<noteq> [] \<and> \<not> cooling_down now o1
            then (case build p of
                    (Inr client, _) \<Rightarrow> ((Some (Inr client), [p]), o1\<lparr>og_quiet_until := None\<rparr>)
                  | (Inl _, failed) \<Rightarrow>
                      if \<not> representable (failed + og_cooldown o1) then ((None, [p]), o1)
                      else ((Some (fst (build public)), [p, public]),
                            o1\<lparr>og_quiet_until := Some (failed + og_cooldown o1)\<rparr>))
            else ((Some (fst (build public)), [public]), o1)))"

lemma preferred_facts [simp]:
  "oa_address (preferred o1 options) = Some (og_address o1)" "oa_host (preferred o1 options) = oa_host options"
  "oa_connect_timeout (preferred o1 options) = oa_connect_timeout options"
  "preferred o1 options \<noteq> options\<lparr>oa_address := None\<rparr>"
proof -
  show "preferred o1 options \<noteq> options\<lparr>oa_address := None\<rparr>"
    by (rule notI, drule arg_cong [of _ _ oa_address]) (simp add: preferred_def)
qed (simp_all add: preferred_def)

text \<open>
  At most one build is made at the preferred address and at most one without, in that order; all keep the
  host, so the name the certificate is checked against; none is made at the address while it cools down, and
  a failure there costs nothing but its time: the result is that of the public attempt.
\<close>

theorem origin_is_only_a_preference:
  assumes "origin_connect representable now build options o1 = ((r, builds), o2)"
  shows "builds \<in> {[], [options\<lparr>oa_address := None\<rparr>], [preferred o1 options],
                    [preferred o1 options, options\<lparr>oa_address := None\<rparr>]}
    \<and> (\<forall>a \<in> set builds. oa_host a = oa_host options \<and> oa_connect_timeout a = oa_connect_timeout options)
    \<and> (cooling_down now o1 \<or> og_address o1 = [] \<or> oa_host options = [] \<longrightarrow> preferred o1 options \<notin> set builds)
    \<and> (r \<noteq> None \<longrightarrow> builds \<noteq> [] \<longrightarrow> r = Some (fst (build (last builds))))"
  using assms
  by (auto simp: origin_connect_def Let_def split: if_splits prod.splits sum.splits)

text \<open>After a failure at the address the next one there comes no earlier than the cooldown says.\<close>

lemma origin_cools_down:
  assumes "origin_connect representable now build options o1 = ((r, [preferred o1 options, p]), o2)"
    and "t < snd (build (preferred o1 options)) + og_cooldown o1"
  shows "cooling_down t o2"
  using assms
  by (auto simp: origin_connect_def cooling_down_def Let_def split: if_splits prod.splits sum.splits)

lemma origin_sample:
  "map oa_address (snd (fst (origin_connect (\<lambda>_. True) 0 (\<lambda>a. (Inl CLOSED, 7))
      \<lparr>oa_address = None, oa_host = ''hub'', oa_handshake_timeout = None, oa_connect_timeout = 9\<rparr> (origin_new ''10.0.0.2''))))
   = [Some ''10.0.0.2'', None]"
  by (simp add: origin_connect_def origin_new_def cooling_down_def preferred_def from_millis_def from_secs_def)

end
