(* ===== verification/Runtime.thy ===== *)
theory Runtime
  imports Wss Http Mqtt Identity
begin

text \<open>
  \<open>src/src/transport.rs\<close>, \<open>RuntimeTransport\<close>: one of the three transports behind one face, as a client holds
  it. What it adds of its own is how a transport is made for an identity, how a message gets onto the wire
  and when a caller stops waiting for it, and how a link is given up: \<open>disconnect\<close> marks it at once and leaves
  the cleanup to a worker that owns it only while no newer attempt has begun.
\<close>

section \<open>One of three\<close>

definition channel_identity_of :: "identity \<Rightarrow> channel_identity" where
  "channel_identity_of i =
     \<lparr>password = id_password i, public_key = id_public_key i, site_id = id_site_id i\<rparr>"

definition broker_of :: "broker_credentials \<Rightarrow> mqtt_credentials" where
  "broker_of c =
     \<lparr>mc_endpoint = bc_endpoint c, mc_username = bc_username c, mc_password = bc_password c,
      mc_topic_prefix = bc_topic_prefix c, mc_qos = word_of_nat (bc_qos c), mc_tls = bc_tls c\<rparr>"

datatype ('h, 'c) runtime =
    Over_Http "('h, 'c) http"
  | Over_Wss "('h, 'c) wss"
  | Over_Mqtt "('h, 'c) mqtt"

record ('b, 'h, 'c) runtime_lib =
  rl_http :: "('b, 'h, 'c) http_lib"
  rl_wss :: "('b, 'h, 'c) wss_lib"
  rl_mqtt :: "('b, 'h, 'c) mqtt_lib"

definition for_protocol ::
    "'u url_lib \<Rightarrow> files \<Rightarrow> identity \<Rightarrow> hub_protocol \<Rightarrow> ('h, 'c) runtime res" where
  "for_protocol lib fs i q =
     (case q of
        Https \<Rightarrow> Inr (Over_Http (http_new (channel_identity_of i) (base_url lib i) None fs))
      | Wss \<Rightarrow>
          if endpoint_for lib i Wss = None
          then Inl (UnsupportedProtocol ''identity does not include a WSS endpoint'')
          else Inr (Over_Wss (wss_new (channel_identity_of i) None fs))
      | Mqtt \<Rightarrow>
          res_bind (mqtt_new (channel_identity_of i) (map_option broker_of (id_mqtt i)) None fs)
            (\<lambda>w. Inr (Over_Mqtt w)))"

fun control_of :: "('h, 'c) runtime \<Rightarrow> control" where
  "control_of (Over_Http w) = r_control w"
| "control_of (Over_Wss w) = w_control w"
| "control_of (Over_Mqtt w) = r_control w"

fun with_control :: "(control \<Rightarrow> control) \<Rightarrow> ('h, 'c) runtime \<Rightarrow> ('h, 'c) runtime" where
  "with_control f (Over_Http w) = Over_Http (w\<lparr>r_control := f (r_control w)\<rparr>)"
| "with_control f (Over_Wss w) = Over_Wss (w\<lparr>w_control := f (w_control w)\<rparr>)"
| "with_control f (Over_Mqtt w) = Over_Mqtt (w\<lparr>r_control := f (r_control w)\<rparr>)"

fun runtime_healthcheck :: "('h, 'c) runtime \<Rightarrow> health" where
  "runtime_healthcheck (Over_Http w) = http_healthcheck w"
| "runtime_healthcheck (Over_Wss w) = wss_healthcheck w"
| "runtime_healthcheck (Over_Mqtt w) = mqtt_healthcheck w"

definition runtime_connection_info :: "('h, 'c) runtime \<Rightarrow> connection_info" where
  "runtime_connection_info r = h_connection (runtime_healthcheck r)"

text \<open>The link is not up, which \<open>stopped\<close> waits for and \<open>alive\<close> of \<open>session.rs\<close> asks.\<close>

definition runtime_down :: "('h, 'c) runtime \<Rightarrow> bool" where
  "runtime_down r \<longleftrightarrow> i_phase (runtime_connection_info r) \<in> {Closed, Error}"

definition client_alive :: "('h, 'c) runtime \<Rightarrow> bool" where
  "client_alive r \<longleftrightarrow> \<not> runtime_down r"

fun runtime_closed_refused :: "('h, 'c) runtime \<Rightarrow> bool" where
  "runtime_closed_refused (Over_Wss w) = w_closed_refused w"
| "runtime_closed_refused (Over_Http w) = c_refused_after_handshake (r_control w)"
| "runtime_closed_refused (Over_Mqtt w) = False"

definition closed_key_rejected :: "('h, 'c) runtime \<Rightarrow> bool" where
  "closed_key_rejected r = c_key_rejected (control_of r)"

fun state_dir :: "('h, 'c) runtime \<Rightarrow> string option" where
  "state_dir (Over_Http w) = r_state_dir w"
| "state_dir (Over_Wss w) = w_state_dir w"
| "state_dir (Over_Mqtt w) = r_state_dir w"

fun with_state_dir :: "string option \<Rightarrow> ('h, 'c) runtime \<Rightarrow> ('h, 'c) runtime" where
  "with_state_dir d (Over_Http w) = Over_Http (w\<lparr>r_state_dir := d\<rparr>)"
| "with_state_dir d (Over_Wss w) = Over_Wss (w\<lparr>w_state_dir := d\<rparr>)"
| "with_state_dir d (Over_Mqtt w) = Over_Mqtt (w\<lparr>r_state_dir := d\<rparr>)"

definition runtime_use_identity_file ::
    "identity_key_folder_rule option \<Rightarrow> ('h, 'c) runtime \<Rightarrow> ('h, 'c) runtime" where
  "runtime_use_identity_file rule r =
     (case use_identity_file rule (control_of r) (state_dir r) of
        (c, slot) \<Rightarrow> with_state_dir slot (with_control (\<lambda>_. c) r))"

section \<open>Who is asked for\<close>

text \<open>
  What goes along with a request or a socket: the user agent and the access key, encoded; \<open>base64\<close> and
  \<open>percent\<close> are the encoders.
\<close>

definition authorization :: "(string \<Rightarrow> string) \<Rightarrow> string \<Rightarrow> identity \<Rightarrow> string" where
  "authorization base64 user_agent i = base64 (user_agent @ '':'' @ id_access_key i)"

definition http_endpoint :: "(string \<Rightarrow> string) \<Rightarrow> string \<Rightarrow> string \<Rightarrow> string \<Rightarrow> string" where
  "http_endpoint percent base path auth = base @ path @ ''?authorization='' @ percent auth"

text \<open>What \<open>url\<close> gives of the address of a socket; \<open>su_print\<close> writes it with these pairs as its query.\<close>

record 'u socket_url =
  su_parse :: "string \<Rightarrow> string + 'u"
  su_scheme :: "'u \<Rightarrow> string"
  su_pairs :: "'u \<Rightarrow> (string \<times> string) list"
  su_print :: "'u \<Rightarrow> (string \<times> string) list \<Rightarrow> string"

definition authorized_wss_url :: "'u socket_url \<Rightarrow> string \<Rightarrow> string \<Rightarrow> string res" where
  "authorized_wss_url lib endpoint auth =
     (case su_parse lib endpoint of
        Inl err \<Rightarrow> Inl (Connection err)
      | Inr u \<Rightarrow>
          if su_scheme lib u \<noteq> ''ws'' \<and> su_scheme lib u \<noteq> ''wss''
          then Inl (Connection ''WSS endpoint must start with ws:// or wss://'')
          else Inr (su_print lib u
                 (filter (\<lambda>(k, _). k \<noteq> ''authorization'') (su_pairs lib u) @ [(''authorization'', auth)])))"

section \<open>Sending\<close>

definition RETIRED :: thalovant_error where
  "RETIRED = Connection ''transport retired; reconnect required''"

text \<open>The send of the WSS transport: the writer is the send path, and the write runs to its end on it.\<close>

definition wss_send_message ::
    "('b, 'h, 'c) wss_lib \<Rightarrow> bool \<Rightarrow> bool \<Rightarrow> io list \<Rightarrow> hive_message \<Rightarrow> ('h, 'c) wss
     \<Rightarrow> unit res option \<times> ('h, 'c) wss" where
  "wss_send_message lib withdrawn retired ios message w =
     (if withdrawn then (None, w)
      else case write_unless_retired retired (write_locked lib ios message) (w_control w) w of
             (r, w) \<Rightarrow> (Some r, w))"

text \<open>
  A caller waits for the outcome of the task that sends, until it is cut: by its deadline, or as the
  transport is retired. The task goes on either way. One that ended without saying how says that.
\<close>

definition send_detached :: "unit res option \<Rightarrow> unit res" where
  "send_detached outcome =
     (case outcome of Some r \<Rightarrow> r | None \<Rightarrow> Inl (Connection ''the send ended before it could say how''))"

definition send_with_deadline :: "cut option \<Rightarrow> control \<Rightarrow> unit res option \<times> 's \<Rightarrow> 's \<Rightarrow> unit res \<times> 's" where
  "send_with_deadline stop c sent s =
     (if c_cancelled c then (Inl RETIRED, s)
      else (case stop of
              None \<Rightarrow> send_detached (fst sent)
            | Some Retired \<Rightarrow> Inl (Connection ''transport closed during send'')
            | Some Deadline \<Rightarrow> Inl (Timeout ''Noise message send timed out''), snd sent))"

record send_net =
  sn_host :: host
  sn_cut :: "cut option"
  sn_withdrawn :: bool
  sn_retired :: bool
  sn_http :: "exchange list"
  sn_wss :: "io list"
  sn_mqtt :: "publication list"

fun send_task ::
    "('b, 'h, 'c) runtime_lib \<Rightarrow> send_net \<Rightarrow> hive_message \<Rightarrow> ('h, 'c) runtime
     \<Rightarrow> unit res option \<times> ('h, 'c) runtime" where
  "send_task lib n m (Over_Http w) =
     (case http_send_message (rl_http lib) (sn_host n) (sn_withdrawn n) (sn_retired n) (sn_http n) m w of
        (q, w) \<Rightarrow> (q, Over_Http w))"
| "send_task lib n m (Over_Wss w) =
     (case wss_send_message (rl_wss lib) (sn_withdrawn n) (sn_retired n) (sn_wss n) m w of
        (q, w) \<Rightarrow> (q, Over_Wss w))"
| "send_task lib n m (Over_Mqtt w) =
     (case mqtt_send_message (rl_mqtt lib) (sn_host n) (sn_withdrawn n) (sn_retired n) (sn_mqtt n) m w of
        (q, w) \<Rightarrow> (q, Over_Mqtt w))"

definition runtime_send ::
    "('b, 'h, 'c) runtime_lib \<Rightarrow> send_net \<Rightarrow> hive_message \<Rightarrow> ('h, 'c) runtime \<Rightarrow> unit res \<times> ('h, 'c) runtime" where
  "runtime_send lib n m r = send_with_deadline (sn_cut n) (control_of r) (send_task lib n m r) r"

definition bus_message :: "string \<Rightarrow> jmap \<Rightarrow> jmap \<Rightarrow> hive_message" where
  "bus_message event_type d ctx =
     plain_message ''bus''
       [(''context'', JObject ctx), (''data'', JObject d), (''type'', JString event_type)] None []"

definition runtime_emit_bus ::
    "('b, 'h, 'c) runtime_lib \<Rightarrow> send_net \<Rightarrow> string \<Rightarrow> jmap \<Rightarrow> jmap \<Rightarrow> ('h, 'c) runtime
     \<Rightarrow> unit res \<times> ('h, 'c) runtime" where
  "runtime_emit_bus lib n event_type d ctx r = runtime_send lib n (bus_message event_type d ctx) r"

section \<open>Giving a link up\<close>

fun cleanup_budget :: "('h, 'c) runtime \<Rightarrow> duration" where
  "cleanup_budget (Over_Mqtt w) = from_secs 3"
| "cleanup_budget _ = from_secs 2"

text \<open>
  The cleanup of a transport, to its end or cut short by its budget: over a socket or a broker the writer
  or the client may have been taken by then. An HTTPS one that is cut before its request has done nothing.
\<close>

datatype cleanup_end = To_Its_End | Cut_Short bool

fun disconnect_locked ::
    "('b, 'h, 'c) runtime_lib \<Rightarrow> host \<Rightarrow> exchange \<Rightarrow> cleanup_end \<Rightarrow> ('h, 'c) runtime
     \<Rightarrow> unit res option \<times> ('h, 'c) runtime" where
  "disconnect_locked lib h x To_Its_End (Over_Http w) =
     (case http_disconnect_inner (rl_http lib) h x w of (q, w) \<Rightarrow> (q, Over_Http w))"
| "disconnect_locked lib h x (Cut_Short taken) (Over_Http w) = (None, Over_Http w)"
| "disconnect_locked lib h x To_Its_End (Over_Wss w) = (Some (Inr ()), Over_Wss (disconnect_inner (rl_wss lib) h w))"
| "disconnect_locked lib h x (Cut_Short taken) (Over_Wss w) =
     (None, Over_Wss (if taken then w\<lparr>w_writer := False\<rparr> else w))"
| "disconnect_locked lib h x To_Its_End (Over_Mqtt w) =
     (Some (Inr ()), Over_Mqtt (mqtt_disconnect_inner (rl_mqtt lib) h w))"
| "disconnect_locked lib h x (Cut_Short taken) (Over_Mqtt w) =
     (None, Over_Mqtt (if taken then w\<lparr>t_client := None\<rparr> else w))"

text \<open>
  The first steps of \<open>disconnect\<close>, and of the drop of an attempt that did not complete: no lock is taken. A
  disconnect marks the link, then invalidates its session, then reads whose link it was; other steps may come
  between.
\<close>

fun invalidate :: "('h, 'c) runtime \<Rightarrow> ('h, 'c) runtime" where
  "invalidate (Over_Wss w) = Over_Wss (w\<lparr>w_valid := False\<rparr>)"
| "invalidate r = r"

definition retire_link :: "('h, 'c) runtime \<Rightarrow> ('h, 'c) runtime" where
  "retire_link r = with_control (\<lambda>c. c\<lparr>c_cancelled := True\<rparr>) r"

definition drop_attempt :: "bool \<Rightarrow> ('h, 'c) runtime \<Rightarrow> ('h, 'c) runtime" where
  "drop_attempt complete r =
     (let r = with_control (end_attempt complete) r in if complete then r else invalidate r)"

text \<open>The worker, once it has the lock: only the generation it was made for is its to clean up.\<close>

definition cleanup_worker ::
    "('b, 'h, 'c) runtime_lib \<Rightarrow> host \<Rightarrow> exchange \<Rightarrow> cleanup_end \<Rightarrow> 64 word \<Rightarrow> ('h, 'c) runtime
     \<Rightarrow> unit res \<times> ('h, 'c) runtime" where
  "cleanup_worker lib h x ending gen r =
     (if \<not> owns_cleanup gen (control_of r) then (Inr (), r)
      else case disconnect_locked lib h x ending r of
             (None, r) \<Rightarrow> (Inl (Timeout ''transport cleanup timed out; reconnect retries owned cleanup''), r)
           | (Some q, r) \<Rightarrow> (q, r))"

text \<open>What the caller of \<open>disconnect\<close> is told: \<open>None\<close> is a worker that is not done after two seconds.\<close>

definition disconnect_answer :: "(string + unit res) option \<Rightarrow> unit res" where
  "disconnect_answer outcome =
     (case outcome of
        None \<Rightarrow> Inl (Timeout ''transport cleanup continues after caller deadline'')
      | Some (Inl err) \<Rightarrow> Inl (Connection (''cleanup worker failed: '' @ err))
      | Some (Inr r) \<Rightarrow> r)"

section \<open>The life of a link\<close>

text \<open>
  The link with the cleanups that workers still owe it and the disconnects that have not read its generation yet. A connect begins, makes its attempts, each after
  clearing what the last one said, and ends; transports take their own steps; a message is sent, or the task of
  one that was begun earlier gets to its write; a disconnect may come at any time; a worker waits for the
  lock, which an attempt holds.
\<close>

record ('h, 'c) room =
  rm_link :: "('h, 'c) runtime"
  rm_owed :: "64 word list"
  rm_reading :: nat

datatype room_event =
    In_Http http_event
  | In_Wss wss_event
  | In_Mqtt mqtt_event
  | Messages send_net hive_message
  | Task_Sends send_net hive_message
  | Begins
  | Prepares bool
  | Ends bool
  | Retires
  | Invalidates
  | Owes
  | Cleans nat host exchange cleanup_end

fun transport_step :: "('b, 'h, 'c) runtime_lib \<Rightarrow> room_event \<Rightarrow> ('h, 'c) runtime \<Rightarrow> ('h, 'c) runtime" where
  "transport_step lib (In_Http e) (Over_Http w) = Over_Http (http_step (rl_http lib) e w)"
| "transport_step lib (In_Wss e) (Over_Wss w) = Over_Wss (wss_step (rl_wss lib) e w)"
| "transport_step lib (In_Mqtt e) (Over_Mqtt w) = Over_Mqtt (mqtt_step (rl_mqtt lib) e w)"
| "transport_step lib _ r = r"

definition room_step :: "('b, 'h, 'c) runtime_lib \<Rightarrow> room_event \<Rightarrow> ('h, 'c) room \<Rightarrow> ('h, 'c) room" where
  "room_step lib e s =
     (let r = rm_link s; c = control_of r
      in case e of
           Messages n m \<Rightarrow> s\<lparr>rm_link := snd (runtime_send lib n m r)\<rparr>
         | Task_Sends n m \<Rightarrow> s\<lparr>rm_link := snd (send_task lib n m r)\<rparr>
         | Begins \<Rightarrow> s\<lparr>rm_link := with_control begin_attempt r\<rparr>
         | Prepares force \<Rightarrow>
             s\<lparr>rm_link := with_control (\<lambda>c. reset_link (c\<lparr>c_kk_failed := False, c_force_xx := force, c_verdict := None\<rparr>)) r\<rparr>
         | Ends complete \<Rightarrow>
             s\<lparr>rm_link := drop_attempt complete r,
               rm_owed := (if complete then rm_owed s else rm_owed s @ [c_generation c])\<rparr>
         | Retires \<Rightarrow> s\<lparr>rm_link := retire_link r, rm_reading := Suc (rm_reading s)\<rparr>
         | Invalidates \<Rightarrow> if rm_reading s = 0 then s else s\<lparr>rm_link := invalidate r\<rparr>
         | Owes \<Rightarrow>
             if rm_reading s = 0 then s
             else s\<lparr>rm_owed := rm_owed s @ [c_generation c], rm_reading := rm_reading s - 1\<rparr>
         | Cleans i h x ending \<Rightarrow>
             if c_active_attempt c \<or> i \<ge> length (rm_owed s) then s
             else s\<lparr>rm_link := snd (cleanup_worker lib h x ending (rm_owed s ! i) r),
                    rm_owed := take i (rm_owed s) @ drop (Suc i) (rm_owed s)\<rparr>
         | _ \<Rightarrow> s\<lparr>rm_link := transport_step lib e r\<rparr>)"

end
