(* ===== verification/Runtime_Safety.thy ===== *)
theory Runtime_Safety
  imports Runtime Wss_Safety Http_Safety Mqtt_Safety
begin

text \<open>
  What giving a link up guarantees. No step of a transport touches the generation of its link or takes back
  that it was given up; only the beginning of another connect does.
\<close>

section \<open>The flags of a link\<close>

definition flags_of :: "control \<Rightarrow> 64 word \<times> bool" where
  "flags_of c = (c_generation c, c_cancelled c)"

lemma flags_simps [simp]:
  "flags_of (reset_link c) = flags_of c" "flags_of (named_folder c) = flags_of c"
  "flags_of (note_failure e x c) = flags_of c" "flags_of (note_refusal_close code p c) = flags_of c"
  "flags_of (snd (typed fallback c)) = flags_of c" "flags_of (snd (note_refused_after_handshake c)) = flags_of c"
  "flags_of (c\<lparr>c_key_rejected := b\<rparr>) = flags_of c" "flags_of (c\<lparr>c_heard := b\<rparr>) = flags_of c"
  "flags_of (c\<lparr>c_completed_xx := b\<rparr>) = flags_of c" "flags_of (c\<lparr>c_kk_failed := b\<rparr>) = flags_of c"
  "flags_of (c\<lparr>c_force_xx := b\<rparr>) = flags_of c" "flags_of (c\<lparr>c_verdict := v\<rparr>) = flags_of c"
  by (simp_all add: flags_of_def reset_link_def named_folder_def note_failure_def note_refusal_close_def
      typed_def note_refused_after_handshake_def Let_def split: thalovant_error.split option.split)

lemma typed_flags: "typed fallback c = (e, c') \<Longrightarrow> flags_of c' = flags_of c"
  by (metis flags_simps(5) snd_conv)

lemma note_refused_flags: "note_refused_after_handshake c = (b, c') \<Longrightarrow> flags_of c' = flags_of c"
  by (metis flags_simps(6) snd_conv)

lemma receive_noise_flags: "receive_noise lib h d b c slot fs = (r, c', slot', fs') \<Longrightarrow> flags_of c' = flags_of c"
  by (auto simp: receive_noise_def split: option.splits prod.splits if_splits sum.splits)

section \<open>A slot\<close>

lemma slot_control [simp]:
  "r_control (with_slot f r) = r_control r" "r_control (install_channel r) = r_control r"
  "r_control (empty_slot lib h r) = r_control r"
  by (simp_all add: with_slot_def install_channel_def empty_slot_def Let_def split: prod.split)

lemma deliver_control: "deliver wr xs writes r = (q, r') \<Longrightarrow> r_control r' = r_control r"
  by (auto simp: deliver_def Let_def split: prod.splits if_splits)

lemma send_encrypted_control: "send_encrypted lib nc wr xs m r = (q, r') \<Longrightarrow> r_control r' = r_control r"
  by (auto simp: send_encrypted_def dest!: deliver_control split: option.splits prod.splits sum.splits)

lemma take_frame_flags:
  "take_frame lib h wr xs d b r = (q, r') \<Longrightarrow> flags_of (r_control r') = flags_of (r_control r)"
  by (auto simp: take_frame_def Let_def dest!: receive_noise_flags deliver_control
      split: prod.splits sum.splits option.splits)

lemma abandon_frame_control [simp]: "r_control (abandon_frame lib h d b r) = r_control r"
  by (simp add: abandon_frame_def split: option.split prod.split)

lemma write_unless_retired_keeps:
  assumes "write_unless_retired retired wr c s = (q, s')" and "\<And>s x t. wr s = (x, t) \<Longrightarrow> f t = f s"
  shows "f s' = f s"
  using assms by (auto simp: write_unless_retired_def split: if_splits prod.splits option.splits)

section \<open>HTTPS\<close>

lemma mark_connection_error_control [simp]: "r_control (mark_connection_error lib h e w) = r_control w"
  by (simp add: mark_connection_error_def Let_def)

lemma receive_frame_flags:
  "receive_frame lib refusal net d b w = (q, ds, w') \<Longrightarrow> flags_of (r_control w') = flags_of (r_control w)"
  by (auto simp: receive_frame_def dest!: take_frame_flags note_refused_flags
      split: prod.splits frame_end.splits if_splits)

lemma handle_messages_flags:
  "handle_raw_message lib refusal net j w = (q, ds, w') \<Longrightarrow> flags_of (r_control w') = flags_of (r_control w)"
  "handle_binary_message lib refusal net j w = (q, ds, w') \<Longrightarrow> flags_of (r_control w') = flags_of (r_control w)"
  by (auto simp: handle_raw_message_def handle_binary_message_def dest!: receive_frame_flags
      split: json.splits sum.splits option.splits)

lemma handle_each_flags:
  assumes "\<And>net j w q d w'. handle net j w = (q, d, w') \<Longrightarrow> flags_of (r_control w') = flags_of (r_control w)"
  shows "handle_each handle nets ms w = (q, ds, w') \<Longrightarrow> flags_of (r_control w') = flags_of (r_control w)"
proof (induction ms arbitrary: nets w q ds w')
  case (Cons m ms)
  then show ?case by (fastforce dest: assms split: prod.splits if_splits)
qed simp

lemma fetch_each_flags:
  assumes "\<And>items w q ds w'. handle items w = (q, ds, w') \<Longrightarrow> flags_of (r_control w') = flags_of (r_control w)"
  shows "fetch_each lib path x field what handle w = (q, ds, w') \<Longrightarrow> flags_of (r_control w') = flags_of (r_control w)"
  by (auto simp: fetch_each_def dest: assms split: option.splits sum.splits)

lemma fetch_messages_flags:
  "fetch_each lib path x field what (handle_each (handle_raw_message lib refusal) nets) w = (q, ds, w')
     \<Longrightarrow> flags_of (r_control w') = flags_of (r_control w)"
  "fetch_each lib path x field what (handle_each (handle_binary_message lib refusal) nets) w = (q, ds, w')
     \<Longrightarrow> flags_of (r_control w') = flags_of (r_control w)"
  by (erule fetch_each_flags [rotated], erule handle_each_flags [rotated], erule handle_messages_flags)+

lemma poll_inner_flags:
  "poll_inner lib refusal net w = (q, ds, w') \<Longrightarrow> flags_of (r_control w') = flags_of (r_control w)"
  by (auto simp: poll_inner_def dest!: fetch_messages_flags split: prod.splits if_splits)

lemma note_failed_poll_flags [simp]: "flags_of (r_control (note_failed_poll e w)) = flags_of (r_control w)"
  by (simp add: note_failed_poll_def Let_def)

lemma poll_current_session_flags:
  "poll_current_session lib h refusal net w = (q, ds, w') \<Longrightarrow> flags_of (r_control w') = flags_of (r_control w)"
  by (auto simp: poll_current_session_def dest!: poll_inner_flags split: prod.splits option.splits sum.splits)

lemma poll_turn_flags:
  "poll_turn lib h refusal net w = (q, ds, w') \<Longrightarrow> flags_of (r_control w') = flags_of (r_control w)"
  by (auto simp: poll_turn_def dest!: poll_current_session_flags split: prod.splits option.splits sum.splits)

lemma poll_until_complete_flags:
  "poll_until_complete lib refusal nets w = (q, ds, w') \<Longrightarrow> flags_of (r_control w') = flags_of (r_control w)"
proof (induction nets arbitrary: w q ds w')
  case (Cons n nets)
  obtain h net where n: "n = (h, net)" by (cases n)
  obtain q1 ds1 w1 where p: "poll_current_session lib h refusal net w = (q1, ds1, w1)" by (metis prod.exhaust)
  obtain q2 ds2 w2 where u: "poll_until_complete lib refusal nets w1 = (q2, ds2, w2)" by (metis prod.exhaust)
  show ?case
    using Cons.prems poll_current_session_flags [OF p] Cons.IH [OF u] p u n
    by (simp add: poll_until_complete.simps [of _ _ "(h, net) # nets"] split: if_splits)
qed (simp add: poll_until_complete.simps split: if_splits)

lemma post_disconnect_control: "post_disconnect lib x w = (q, w') \<Longrightarrow> r_control w' = r_control w"
  by (auto simp: post_disconnect_def split: option.splits sum.splits)

lemma http_disconnect_control: "http_disconnect_inner lib h x w = (q, w') \<Longrightarrow> r_control w' = r_control w"
  by (auto simp: http_disconnect_inner_def Let_def dest!: post_disconnect_control split: if_splits)

lemma http_send_message_control:
  "http_send_message lib h wd rt xs m w = (q, w') \<Longrightarrow> r_control w' = r_control w"
  by (auto simp: http_send_message_def split: if_splits prod.splits sum.splits
      dest!: write_unless_retired_keeps [where f = r_control, OF _ send_encrypted_control])

lemma reset_admission_control: "reset_admission lib h t x w = (q, w') \<Longrightarrow> r_control w' = r_control w"
  by (auto simp: reset_admission_def dest!: post_disconnect_control split: if_splits prod.splits option.splits sum.splits)

lemma http_open_control: "http_open lib s t x w = (q, w') \<Longrightarrow> r_control w' = r_control w"
  by (auto simp: http_open_def Let_def split: if_splits option.splits sum.splits)

lemma http_connect_inner_flags:
  "http_connect_inner lib refusal n w = (q, ds, w') \<Longrightarrow> flags_of (r_control w') = flags_of (r_control w)"
  by (auto simp: http_connect_inner_def dest!: http_open_control poll_until_complete_flags split: prod.splits if_splits)

lemma http_connect_locked_flags:
  "http_connect_locked lib refusal n w = (q, ds, w') \<Longrightarrow> flags_of (r_control w') = flags_of (r_control w)"
  by (auto simp: http_connect_locked_def Let_def dest!: reset_admission_control http_connect_inner_flags
      split: prod.splits if_splits option.splits sum.splits)

lemma http_step_flags:
  assumes "\<And>c. e \<noteq> Http_Control c"
  shows "flags_of (r_control (http_step lib e w)) = flags_of (r_control w)"
proof (cases e)
  case (Connects refusal n)
  then show ?thesis
    by (cases "http_connect_locked lib refusal n w") (simp add: http_step_def http_connect_locked_flags)
next
  case (Polls h refusal net)
  then show ?thesis by (cases "poll_turn lib h refusal net w") (simp add: http_step_def poll_turn_flags)
next
  case (Http_Sends h wd rt xs m)
  then show ?thesis by (cases "http_send_message lib h wd rt xs m w") (simp add: http_step_def http_send_message_control)
next
  case (Http_Disconnects h x)
  then show ?thesis by (cases "http_disconnect_inner lib h x w") (simp add: http_step_def http_disconnect_control)
qed (simp_all add: http_step_def assms http_set_noise_state_dir_def)

section \<open>WebSockets\<close>

lemma with_channel_control [simp]: "w_control (with_channel f w) = w_control w"
  by (simp add: with_channel_def)

lemma deliver_writes_control: "deliver_writes ios ws w = (q, w') \<Longrightarrow> w_control w' = w_control w"
  by (auto simp: deliver_writes_def Let_def split: prod.splits if_splits)

lemma write_locked_control: "write_locked lib ios m w = (q, w') \<Longrightarrow> w_control w' = w_control w"
  by (auto simp: write_locked_def dest!: deliver_writes_control split: option.splits if_splits prod.splits sum.splits)

lemma wss_marks_control [simp]:
  "w_control (reset_noise lib h w) = w_control w" "w_control (mark_error lib h e w) = w_control w"
  "w_control (mark_disconnected lib h w) = w_control w" "w_control (disconnect_inner lib h w) = w_control w"
  "w_control (settle_frame now w) = w_control w" "w_control (prepare_link lib h now w) = w_control w"
  by (simp_all add: reset_noise_def mark_error_def mark_disconnected_def disconnect_inner_def settle_frame_def
      prepare_link_def Let_def split: prod.split)

lemma handle_socket_message_flags:
  "handle_socket_message lib h now ios d b w = (q, ds, w') \<Longrightarrow> flags_of (w_control w') = flags_of (w_control w)"
  by (auto simp: handle_socket_message_def Let_def dest!: receive_noise_flags deliver_writes_control
      split: option.splits if_splits prod.splits sum.splits)

lemma on_close_flags [simp]: "flags_of (w_control (on_close lib h now frame w)) = flags_of (w_control w)"
  by (simp add: on_close_def Let_def)

lemma open_link_control: "open_link lib h s ep how t w = (q, w') \<Longrightarrow> w_control w' = w_control w"
  by (auto simp: open_link_def Let_def split: sum.splits socket_open.splits if_splits)

lemma finish_link_flags:
  "finish_link lib h refusal s t now w = (q, w') \<Longrightarrow> flags_of (w_control w') = flags_of (w_control w)"
  by (auto simp: finish_link_def Let_def dest!: typed_flags split: if_splits prod.splits)

lemma wss_step_flags:
  assumes "\<And>c. e \<noteq> Control_Set c"
  shows "flags_of (w_control (wss_step lib e w)) = flags_of (w_control w)"
proof (cases e)
  case (Opens h s ep how t)
  then show ?thesis by (cases "open_link lib h s ep how t w") (simp add: wss_step_def open_link_control)
next
  case (Finishes h refusal s t now)
  then show ?thesis by (cases "finish_link lib h refusal s t now w") (simp add: wss_step_def finish_link_flags)
next
  case (Frame_Arrives h now ios d b)
  then show ?thesis
    by (cases "handle_socket_message lib h now ios d b w")
      (auto simp: wss_step_def dest!: handle_socket_message_flags split: option.split sum.split)
next
  case (Sends ios m)
  then show ?thesis by (cases "write_locked lib ios m w") (simp add: wss_step_def write_locked_control)
qed (simp_all add: wss_step_def assms wss_set_noise_state_dir_def)

lemma wss_send_message_control: "wss_send_message lib wd rt ios m w = (q, w') \<Longrightarrow> w_control w' = w_control w"
  by (auto simp: wss_send_message_def split: if_splits prod.splits
      dest!: write_unless_retired_keeps [where f = w_control, OF _ write_locked_control])

section \<open>MQTT\<close>

lemma mqtt_marks_control [simp]:
  "r_control (mqtt_mark_error lib h e w) = r_control w" "r_control (mqtt_mark_disconnected lib h w) = r_control w"
  "r_control (mqtt_disconnect_inner lib h w) = r_control w" "r_control (mqtt_fail lib h e w) = r_control w"
  "r_control (mqtt_prepare lib h w) = r_control w"
  by (simp_all add: mqtt_mark_error_def mqtt_mark_disconnected_def mqtt_disconnect_inner_def mqtt_fail_def
      mqtt_prepare_def Let_def)

lemma incoming_turn_flags:
  "incoming_turn lib h xs raw w = (q, ds, w') \<Longrightarrow> flags_of (r_control w') = flags_of (r_control w)"
  by (auto simp: incoming_turn_def handle_raw_mqtt_payload_def dest!: take_frame_flags
      split: option.splits prod.splits sum.splits frame_end.splits if_splits)

lemma mqtt_send_message_control:
  "mqtt_send_message lib h wd rt xs m w = (q, w') \<Longrightarrow> r_control w' = r_control w"
  by (auto simp: mqtt_send_message_def split: if_splits prod.splits sum.splits
      dest!: write_unless_retired_keeps [where f = r_control, OF _ send_encrypted_control])

lemma announce_online_control: "announce_online lib n w = (q, w') \<Longrightarrow> r_control w' = r_control w"
  by (auto simp: announce_online_def split: option.splits sum.splits)

lemma mqtt_open_control: "mqtt_open lib n w = (q, w') \<Longrightarrow> r_control w' = r_control w"
  by (auto simp: mqtt_open_def Let_def dest!: announce_online_control split: if_splits option.splits sum.splits prod.splits)

lemma mqtt_connect_opens_control: "mqtt_connect_opens lib n w = (q, w') \<Longrightarrow> r_control w' = r_control w"
  by (auto simp: mqtt_connect_opens_def dest!: mqtt_open_control split: prod.splits option.splits sum.splits)

lemma mqtt_connect_finishes_flags:
  "mqtt_connect_finishes lib h s t now w = (q, w') \<Longrightarrow> flags_of (r_control w') = flags_of (r_control w)"
  by (auto simp: mqtt_connect_finishes_def mqtt_finish_def dest!: typed_flags
      split: if_splits prod.splits sum.splits)

lemma mqtt_step_flags:
  assumes "\<And>c. e \<noteq> Mqtt_Control c"
  shows "flags_of (r_control (mqtt_step lib e w)) = flags_of (r_control w)"
proof (cases e)
  case (Mqtt_Opens n)
  then show ?thesis by (cases "mqtt_connect_opens lib n w") (simp add: mqtt_step_def mqtt_connect_opens_control)
next
  case (Mqtt_Finishes h s t now)
  then show ?thesis
    by (cases "mqtt_connect_finishes lib h s t now w") (simp add: mqtt_step_def mqtt_connect_finishes_flags)
next
  case (Payload_Arrives h xs raw)
  then show ?thesis by (cases "incoming_turn lib h xs raw w") (simp add: mqtt_step_def incoming_turn_flags)
next
  case (Mqtt_Sends h wd rt xs m)
  then show ?thesis by (cases "mqtt_send_message lib h wd rt xs m w") (simp add: mqtt_step_def mqtt_send_message_control)
qed (simp_all add: mqtt_step_def assms mqtt_set_noise_state_dir_def)

section \<open>The life of a link\<close>

lemma control_with [simp]:
  "control_of (with_control f r) = f (control_of r)" "control_of (invalidate r) = control_of r"
  by (cases r; simp)+

text \<open>
  The steps a link takes by itself: a transport's control is set by the runtime alone, and a message of a
  WebSocket is written by its task.
\<close>

fun own_step :: "room_event \<Rightarrow> bool" where
  "own_step (In_Http e) = (case e of Http_Control c \<Rightarrow> False | _ \<Rightarrow> True)"
| "own_step (In_Wss e) = (case e of Control_Set c \<Rightarrow> False | Sends ios m \<Rightarrow> False | _ \<Rightarrow> True)"
| "own_step (In_Mqtt e) = (case e of Mqtt_Control c \<Rightarrow> False | _ \<Rightarrow> True)"
| "own_step e = True"

lemma send_task_flags: "flags_of (control_of (snd (send_task lib n m r))) = flags_of (control_of r)"
  by (cases r)
    (auto split: prod.split dest!: http_send_message_control wss_send_message_control mqtt_send_message_control)

lemma runtime_send_flags: "flags_of (control_of (snd (runtime_send lib n m r))) = flags_of (control_of r)"
  using send_task_flags [of lib n m r] by (simp add: runtime_send_def send_with_deadline_def)

lemma transport_step_flags:
  assumes "own_step e"
  shows "flags_of (control_of (transport_step lib e r)) = flags_of (control_of r)"
proof (cases e)
  case (In_Http e')
  then have "\<And>c. e' \<noteq> Http_Control c" using assms by auto
  then show ?thesis using In_Http by (cases r) (simp_all add: http_step_flags)
next
  case (In_Wss e')
  then have "\<And>c. e' \<noteq> Control_Set c" using assms by auto
  then show ?thesis using In_Wss by (cases r) (simp_all add: wss_step_flags)
next
  case (In_Mqtt e')
  then have "\<And>c. e' \<noteq> Mqtt_Control c" using assms by auto
  then show ?thesis using In_Mqtt by (cases r) (simp_all add: mqtt_step_flags)
qed simp_all

lemma disconnect_locked_control: "control_of (snd (disconnect_locked lib h x ending r)) = control_of r"
  by (cases "(lib, h, x, ending, r)" rule: disconnect_locked.cases)
    (auto split: prod.split dest: http_disconnect_control)

lemma cleanup_worker_control: "control_of (snd (cleanup_worker lib h x ending g r)) = control_of r"
  using disconnect_locked_control [of lib h x ending r]
  by (auto simp: cleanup_worker_def split: prod.split option.split)

lemma room_step_generation:
  assumes "own_step e"
  shows "c_generation (control_of (rm_link (room_step lib e s)))
     = c_generation (control_of (rm_link s)) + (if e = Begins then 1 else 0)
    \<and> (e \<noteq> Begins \<longrightarrow> c_cancelled (control_of (rm_link s)) \<longrightarrow> c_cancelled (control_of (rm_link (room_step lib e s))))"
proof -
  have f: "flags_of c = flags_of d \<Longrightarrow> c_generation c = c_generation d \<and> c_cancelled c = c_cancelled d" for c d
    by (simp add: flags_of_def)
  note g = f [OF runtime_send_flags] f [OF send_task_flags]
  show ?thesis
    using f [OF transport_step_flags [OF assms, of lib "rm_link s"]]
    by (cases e)
      (auto simp: g room_step_def Let_def begin_attempt_def drop_attempt_def end_attempt_def retire_link_def
        cleanup_worker_control reset_link_def)
qed

lemma room_run_generation:
  assumes "\<forall>e \<in> set es. own_step e"
  shows "c_generation (control_of (rm_link (run_steps (room_step lib) es s)))
     = c_generation (control_of (rm_link s)) + of_nat (length (filter (\<lambda>e. e = Begins) es))
    \<and> (Begins \<notin> set es \<longrightarrow> c_cancelled (control_of (rm_link s))
        \<longrightarrow> c_cancelled (control_of (rm_link (run_steps (room_step lib) es s))))"
  using assms
proof (induction es arbitrary: s)
  case (Cons e es)
  then show ?case using room_step_generation [of e lib s] by (auto simp: algebra_simps)
qed simp

section \<open>A link that was given up\<close>

fun traffic :: "('h, 'c) runtime \<Rightarrow> noise_write list" where
  "traffic (Over_Http w) = r_sent w"
| "traffic (Over_Wss w) = w_sent w"
| "traffic (Over_Mqtt w) = r_sent w"

fun channel_in :: "('h, 'c) runtime \<Rightarrow> ('h, 'c) channel option" where
  "channel_in (Over_Http w) = r_noise w"
| "channel_in (Over_Wss w) = w_noise w"
| "channel_in (Over_Mqtt w) = r_noise w"

definition reads_down :: "('h, 'c) runtime \<Rightarrow> bool" where
  "reads_down r \<longleftrightarrow>
     (let hl = runtime_healthcheck r
      in \<not> h_connected hl \<and> \<not> h_handshake_complete hl \<and> \<not> h_transport_alive hl \<and> runtime_down r)"

lemma cancelled_reads_down: "c_cancelled (control_of r) \<Longrightarrow> reads_down r"
  by (cases r)
    (simp_all add: reads_down_def runtime_down_def runtime_connection_info_def http_healthcheck_def
      wss_healthcheck_def mqtt_healthcheck_def slot_health_def noise_health_def Let_def)

lemma slot_sent [simp]:
  "r_sent (empty_slot lib h w) = r_sent w" "r_noise (empty_slot lib h w) = None"
  by (simp_all add: empty_slot_def clear_noise_def)

lemma cancelled_sends_nothing:
  assumes "c_cancelled (control_of r)"
  shows "runtime_send lib n m r = (Inl RETIRED, r)"
    and "fst (send_task lib n m r) \<in> {None, Some (Inl RETIRED)}" and "traffic (snd (send_task lib n m r)) = traffic r"
proof -
  show "runtime_send lib n m r = (Inl RETIRED, r)"
    using assms by (simp add: runtime_send_def send_with_deadline_def)
  show "fst (send_task lib n m r) \<in> {None, Some (Inl RETIRED)}" "traffic (snd (send_task lib n m r)) = traffic r"
    using assms
    by (cases r; simp add: http_send_message_def wss_send_message_def mqtt_send_message_def write_unless_retired_def
          RETIRED_def mark_connection_error_def mqtt_mark_error_def Let_def)+
qed

lemma cleaned_up:
  assumes "owns_cleanup g (control_of r)"
  shows "channel_in (snd (cleanup_worker lib h x To_Its_End g r)) = None"
proof (cases r)
  case (Over_Http w)
  obtain q w' where d: "http_disconnect_inner (rl_http lib) h x w = (q, w')" by (metis prod.exhaust)
  then have "r_noise w' = None"
    by (auto simp: http_disconnect_inner_def post_disconnect_def Let_def split: if_splits option.splits sum.splits)
  then show ?thesis
    using assms d Over_Http by (simp add: cleanup_worker_def split: option.split)
qed (use assms in \<open>simp_all add: cleanup_worker_def disconnect_inner_def mark_disconnected_def reset_noise_def
       clear_noise_def mqtt_disconnect_inner_def mqtt_mark_disconnected_def Let_def split: prod.split\<close>)

text \<open>
  C40: from the moment a disconnect is called, and whatever else the link does, until another connect begins
  the link reads as down, every message is refused and writes nothing, also one whose task was begun before,
  and the cleanup the disconnect left behind empties the channel's slot when it runs to its end. Once another
  connect has begun, that cleanup does nothing at all, provided the disconnect had read which link it was for
  (any number of steps after its call) before that connect began: a late one cannot take down the new link.
\<close>

theorem disconnect_is_final_until_connect:
  assumes "\<forall>e \<in> set es. own_step e" and "k = length (filter (\<lambda>e. e = Begins) es)" and "k < 2 ^ 64"
    and "room = \<lparr>rm_link = retire_link r, rm_owed = owed, rm_reading = d\<rparr>"
    and "s = run_steps (room_step lib) es room"
    and "Begins \<notin> set (take j es)" and "g = c_generation (control_of (rm_link (run_steps (room_step lib) (take j es) room)))"
  shows "(k = 0 \<longrightarrow>
        reads_down (rm_link s)
        \<and> (\<forall>n m. runtime_send lib n m (rm_link s) = (Inl RETIRED, rm_link s)
             \<and> fst (send_task lib n m (rm_link s)) \<in> {None, Some (Inl RETIRED)}
             \<and> traffic (snd (send_task lib n m (rm_link s))) = traffic (rm_link s))
        \<and> (\<forall>h x. channel_in (snd (cleanup_worker lib h x To_Its_End g (rm_link s))) = None))
    \<and> (k > 0 \<longrightarrow> (\<forall>h x ending. cleanup_worker lib h x ending g (rm_link s) = (Inr (), rm_link s)))"
proof -
  have own: "\<forall>e \<in> set (take j es). own_step e" using assms(1) by (meson in_set_takeD)
  have "filter (\<lambda>e. e = Begins) (take j es) = []" using assms(6) by (auto simp: filter_empty_conv)
  then have r: "c_generation (control_of (retire_link r)) = g" "c_cancelled (control_of (retire_link r))"
    using room_run_generation [OF own, of lib room] assms(4,7) by (simp_all add: retire_link_def)
  have gen: "c_generation (control_of (rm_link s)) = g + of_nat k"
    and kept: "Begins \<notin> set es \<Longrightarrow> c_cancelled (control_of (rm_link s))"
    using room_run_generation [OF assms(1), of lib room] r assms(2,4,5) by simp_all
  show ?thesis
  proof (intro conjI impI)
    assume k: "k > 0"
    have "(of_nat k :: 64 word) \<noteq> 0"
      using k assms(3) by (simp add: word_of_nat_eq_0_iff nat_dvd_not_less)
    then show "\<forall>h x ending. cleanup_worker lib h x ending g (rm_link s) = (Inr (), rm_link s)"
      using gen by (simp add: cleanup_worker_def owns_cleanup_def)
  next
    assume k: "k = 0"
    then have c: "c_cancelled (control_of (rm_link s))"
      using kept assms(2) by (auto simp: filter_empty_conv)
    then show "reads_down (rm_link s)" by (rule cancelled_reads_down)
    show "\<forall>n m. runtime_send lib n m (rm_link s) = (Inl RETIRED, rm_link s)
             \<and> fst (send_task lib n m (rm_link s)) \<in> {None, Some (Inl RETIRED)}
             \<and> traffic (snd (send_task lib n m (rm_link s))) = traffic (rm_link s)"
      using cancelled_sends_nothing [OF c] by blast
    show "\<forall>h x. channel_in (snd (cleanup_worker lib h x To_Its_End g (rm_link s))) = None"
      using gen k by (simp add: cleaned_up owns_cleanup_def)
  qed
qed

definition sample_rooms :: "(nat, nat, nat) runtime_lib" where
  "sample_rooms = \<lparr>rl_http = sample_http_lib, rl_wss = sample_wss_lib, rl_mqtt = sample_mqtt_lib\<rparr>"

definition sample_retired :: "(nat, nat) room" where
  "sample_retired = \<lparr>rm_link = retire_link (Over_Wss (wss_new sample_identity None chan_files)), rm_owed = [], rm_reading = 1\<rparr>"

theorem disconnect_is_final_until_connect_witness:
  "reads_down (rm_link (run_steps (room_step sample_rooms) [Ends False, Invalidates, Prepares True, Owes] sample_retired))
   \<and> cleanup_worker sample_rooms calm_host (Unsent False []) To_Its_End 0
       (rm_link (run_steps (room_step sample_rooms) [Owes, Retires, Begins] sample_retired))
     = (Inr (), rm_link (run_steps (room_step sample_rooms) [Owes, Retires, Begins] sample_retired))"
proof -
  let ?run = "\<lambda>es. run_steps (room_step sample_rooms) es sample_retired"
  let ?r = "Over_Wss (wss_new sample_identity None chan_files) :: (nat, nat) runtime"
  have room: "sample_retired = \<lparr>rm_link = retire_link ?r, rm_owed = [], rm_reading = 1\<rparr>"
    by (simp add: sample_retired_def)
  have g: "0 = c_generation (control_of (rm_link (?run (take 0 es))))" for es
    by (simp add: sample_retired_def retire_link_def wss_new_def default_control_def)
  have b: "Begins \<notin> set (take 0 es)" for es by simp
  have down: "reads_down (rm_link (?run [Ends False, Invalidates, Prepares True, Owes]))"
    using disconnect_is_final_until_connect [OF _ refl _ room refl b g, of "[Ends False, Invalidates, Prepares True, Owes]"]
    by (simp del: run_steps_simps)
  have late: "cleanup_worker sample_rooms calm_host (Unsent False []) To_Its_End 0 (rm_link (?run [Owes, Retires, Begins]))
      = (Inr (), rm_link (?run [Owes, Retires, Begins]))"
    using disconnect_is_final_until_connect [OF _ refl _ room refl b g, of "[Owes, Retires, Begins]"]
    by (simp del: run_steps_simps)
  from down late show ?thesis by blast
qed

end
