(* ===== verification/Client_Start.thy ===== *)
theory Client_Start
  imports Runtime Query Intent_Inventory
begin

text \<open>
  \<open>src/src/client.rs\<close>, the client as a whole: how one is made from an identity, a file, a profile or the
  environment, which protocol it takes when it is not told, where its key is kept, and the calls that
  connect before they ask. What a hub answers is in \<open>Query\<close>, \<open>Ask\<close> and \<open>Intent_Inventory\<close>.
\<close>

section \<open>Making a client\<close>

record ('h, 'c) client =
  ct_identity :: identity
  ct_transport :: "('h, 'c) runtime"
  ct_conversations :: conversations

definition no_conversations :: conversations where
  "no_conversations = \<lparr>store = [], sequence = 0\<rparr>"

definition client_new :: "'u url_lib \<Rightarrow> files \<Rightarrow> identity \<Rightarrow> ('h, 'c) client" where
  "client_new lib fs i =
     \<lparr>ct_identity = i, ct_transport = Over_Http (http_new (channel_identity_of i) (base_url lib i) None fs),
      ct_conversations = no_conversations\<rparr>"

definition with_protocol :: "'u url_lib \<Rightarrow> files \<Rightarrow> identity \<Rightarrow> hub_protocol \<Rightarrow> ('h, 'c) client res" where
  "with_protocol lib fs i q =
     res_bind (for_protocol lib fs i q) (\<lambda>r.
       Inr \<lparr>ct_identity = i, ct_transport = r, ct_conversations = no_conversations\<rparr>)"

definition usable :: "'u url_lib \<Rightarrow> identity \<Rightarrow> hub_protocol \<Rightarrow> bool" where
  "usable lib i q =
     (case q of
        Wss \<Rightarrow> supports_protocol i Wss \<and> endpoint_for lib i Wss \<noteq> None
      | Https \<Rightarrow> supports_protocol i Https \<or> endpoint_for lib i Https \<noteq> None
      | Mqtt \<Rightarrow> supports_protocol i Mqtt \<and> id_mqtt i \<noteq> None)"

definition default_runtime_protocol :: "'u url_lib \<Rightarrow> identity \<Rightarrow> hub_protocol res" where
  "default_runtime_protocol lib i =
     ok_or (find (usable lib i) DEFAULT_PROTOCOL_PREFERENCE)
       (UnsupportedProtocol ''identity does not include a usable WSS, HTTPS, or MQTT endpoint'')"

definition client_auto :: "'u url_lib \<Rightarrow> files \<Rightarrow> identity \<Rightarrow> ('h, 'c) client res" where
  "client_auto lib fs i = res_bind (default_runtime_protocol lib i) (with_protocol lib fs i)"

text \<open>
  Whether files can be created in a folder: it holds a key file already, which may be reached by a link, or a
  probe can be made there, which is removed at once if it can be.
\<close>

definition writable_dir :: "host \<Rightarrow> (path \<Rightarrow> bool) \<Rightarrow> string \<Rightarrow> files \<Rightarrow> bool \<times> files" where
  "writable_dir h links_to_file dir fs =
     (let key = (dir, NOISE_KEY_FILENAME); probe = (dir, ''.thalovant-probe-'' @ unique h)
      in if stat_fault h key = None
            \<and> (case fs key of None \<Rightarrow> False | Some (Regular _ _) \<Rightarrow> True | Some Special \<Rightarrow> links_to_file key)
         then (True, fs)
         else if fs probe \<noteq> None \<or> open_fault h probe \<noteq> None then (False, fs)
         else (True, if unlink_fails h probe then fs(probe \<mapsto> Regular 0x1A4 []) else fs))"

text \<open>The client with its key kept beside the file, by the rule of \<open>identity_key_folder\<close>.\<close>

record folders =
  fo_parent :: "path \<Rightarrow> string option"
  fo_default :: "string option"
  fo_links :: "path \<Rightarrow> bool"

definition keeping_key_beside ::
    "host \<Rightarrow> folders \<Rightarrow> files \<Rightarrow> path \<Rightarrow> ('h, 'c) client \<Rightarrow> ('h, 'c) client" where
  "keeping_key_beside h fo fs p c =
     c\<lparr>ct_transport := runtime_use_identity_file
         (identity_key_folder (canonicalize h) (\<lambda>d. fst (writable_dir h (fo_links fo) d fs)) (fo_parent fo p) (fo_default fo))
         (ct_transport c)\<rparr>"

definition client_from_file ::
    "'u url_lib \<Rightarrow> (string \<Rightarrow> string + json) \<Rightarrow> host \<Rightarrow> folders \<Rightarrow> files \<Rightarrow> path \<Rightarrow> ('h, 'c) client res" where
  "client_from_file lib json_parser h fo fs p =
     res_bind (identity_from_file lib json_parser h fs p) (\<lambda>i.
     res_bind (client_auto lib fs i) (\<lambda>c. Inr (keeping_key_beside h fo fs p c)))"

definition client_from_config_file ::
    "'u url_lib \<Rightarrow> (string \<Rightarrow> string + json) \<Rightarrow> host \<Rightarrow> folders \<Rightarrow> files \<Rightarrow> path \<Rightarrow> string option
     \<Rightarrow> ('h, 'c) client res" where
  "client_from_config_file lib yaml_parser h fo fs p profile =
     res_bind (identity_from_config_file lib yaml_parser h fs p profile) (\<lambda>i.
     res_bind (client_auto lib fs i) (\<lambda>c. Inr (keeping_key_beside h fo fs p c)))"

text \<open>\<open>path_of\<close> joins the parts of a path.\<close>

definition client_from_config ::
    "'u url_lib \<Rightarrow> (string \<Rightarrow> string + json) \<Rightarrow> (string list \<Rightarrow> path) \<Rightarrow> bool \<Rightarrow> (string \<Rightarrow> string option)
     \<Rightarrow> host \<Rightarrow> folders \<Rightarrow> files \<Rightarrow> string option \<Rightarrow> ('h, 'c) client res" where
  "client_from_config lib yaml_parser path_of windows env h fo fs profile =
     res_bind (default_config_path windows env) (\<lambda>parts.
       client_from_config_file lib yaml_parser h fo fs (path_of parts) profile)"

definition client_from_env ::
    "'u url_lib \<Rightarrow> (string \<Rightarrow> string option) \<Rightarrow> files \<Rightarrow> ('h, 'c) client res" where
  "client_from_env lib env fs =
     res_bind (identity_from_env_prefix lib env ''THALOVANT_'') (client_auto lib fs)"

section \<open>Connecting, and asking once connected\<close>

definition DEFAULT_CONNECT_TIMEOUT :: duration where "DEFAULT_CONNECT_TIMEOUT = from_secs 6"

text \<open>\<open>connected\<close> is what the transport's connect within a time came to, with the transport it left.\<close>

type_synonym ('h, 'c) connecting = "duration \<Rightarrow> ('h, 'c) runtime \<Rightarrow> unit res \<times> ('h, 'c) runtime"

definition client_connect_with_timeout ::
    "('h, 'c) connecting \<Rightarrow> duration \<Rightarrow> ('h, 'c) client \<Rightarrow> unit res \<times> ('h, 'c) client" where
  "client_connect_with_timeout connected d c =
     (case connected d (ct_transport c) of (q, r) \<Rightarrow> (q, c\<lparr>ct_transport := r\<rparr>))"

definition client_connect :: "('h, 'c) connecting \<Rightarrow> ('h, 'c) client \<Rightarrow> unit res \<times> ('h, 'c) client" where
  "client_connect connected c = client_connect_with_timeout connected DEFAULT_CONNECT_TIMEOUT c"

definition client_connection_info :: "('h, 'c) client \<Rightarrow> connection_info" where
  "client_connection_info c = runtime_connection_info (ct_transport c)"

definition client_healthcheck :: "('h, 'c) client \<Rightarrow> health" where
  "client_healthcheck c = runtime_healthcheck (ct_transport c)"

definition connect_with_info ::
    "('h, 'c) connecting \<Rightarrow> ('h, 'c) client \<Rightarrow> connection_info res \<times> ('h, 'c) client" where
  "connect_with_info connected c =
     (case client_connect connected c of
        (Inl e, c) \<Rightarrow> (Inl e, c)
      | (Inr _, c) \<Rightarrow> (Inr (client_connection_info c), c))"

text \<open>A question of the hub goes out only once the client is connected.\<close>

definition once_connected ::
    "('h, 'c) connecting \<Rightarrow> 'a asking \<Rightarrow> ('h, 'c) client \<Rightarrow> ('a res \<times> hub_query list) \<times> ('h, 'c) client" where
  "once_connected connected question c =
     (case client_connect connected c of
        (Inl e, c) \<Rightarrow> ((Inl e, []), c)
      | (Inr _, c) \<Rightarrow> (question [], c))"

definition lang_or_default :: "string \<Rightarrow> string" where
  "lang_or_default lang = (let lang = trim lang in if lang = [] then DEFAULT_LANG else lang)"

definition client_site :: "('h, 'c) client \<Rightarrow> string option" where
  "client_site c = (let s = id_site_id (ct_identity c) in if s = [] then None else Some s)"

definition client_intents ::
    "('h, 'c) connecting \<Rightarrow> intent_net \<Rightarrow> string list \<Rightarrow> inventory_options \<Rightarrow> ('h, 'c) client
     \<Rightarrow> (inventory res \<times> hub_query list) \<times> ('h, 'c) client" where
  "client_intents connected net languages opts c =
     once_connected connected (hub_inventory (net\<lparr>nt_site := client_site c\<rparr>) languages opts) c"

definition client_intents_with_capabilities ::
    "('h, 'c) connecting \<Rightarrow> intent_net \<Rightarrow> string list \<Rightarrow> inventory_options \<Rightarrow> ('h, 'c) client
     \<Rightarrow> (capabilities res \<times> hub_query list) \<times> ('h, 'c) client" where
  "client_intents_with_capabilities connected net languages opts c =
     once_connected connected (inventory_with_capabilities (net\<lparr>nt_site := client_site c\<rparr>) languages opts) c"

definition client_list_intents ::
    "('h, 'c) connecting \<Rightarrow> intent_net \<Rightarrow> string \<Rightarrow> list_options \<Rightarrow> ('h, 'c) client
     \<Rightarrow> (intent_row list res \<times> hub_query list) \<times> ('h, 'c) client" where
  "client_list_intents connected net lang opts c =
     once_connected connected (list_intents (net\<lparr>nt_site := client_site c\<rparr>) (lang_or_default lang) opts) c"

definition client_describe_intent ::
    "('h, 'c) connecting \<Rightarrow> intent_net \<Rightarrow> string \<Rightarrow> string \<Rightarrow> string \<Rightarrow> duration option \<Rightarrow> ('h, 'c) client
     \<Rightarrow> (intent_definition list res \<times> hub_query list) \<times> ('h, 'c) client" where
  "client_describe_intent connected net skill_id intent_name lang d c =
     once_connected connected
       (describe_intent (net\<lparr>nt_site := client_site c\<rparr>) skill_id intent_name (lang_or_default lang) (timeout_or d)) c"

text \<open>
  The fallbacks within one budget for the connect and the answer; \<open>over\<close> says that it ran out on the whole,
  and \<open>left\<close> is what the connect left of it. Silence is not knowing.
\<close>

definition client_list_fallbacks ::
    "('h, 'c) connecting \<Rightarrow> bool \<Rightarrow> duration \<Rightarrow> intent_net \<Rightarrow> duration option \<Rightarrow> ('h, 'c) client
     \<Rightarrow> string list option res \<times> ('h, 'c) client" where
  "client_list_fallbacks connected over left net d c =
     (let budget = min (unwrap_or d FALLBACK_PROBE_TIMEOUT) FALLBACK_PROBE_TIMEOUT
      in case client_connect_with_timeout connected budget c of
           (q, c) \<Rightarrow>
             (let r = (case q of Inl e \<Rightarrow> Inl e
                       | Inr _ \<Rightarrow> fst (list_fallbacks (net\<lparr>nt_site := client_site c\<rparr>) left []))
              in (if over then Inr None
                  else case r of Inl (Timeout m) \<Rightarrow> Inr None | _ \<Rightarrow> r, c)))"

section \<open>In a conversation\<close>

definition conversation_query ::
    "conversation \<Rightarrow> (hive_message \<Rightarrow> json res) \<Rightarrow> string \<Rightarrow> query_host \<Rightarrow> string \<Rightarrow> query_options \<Rightarrow> flights
       \<Rightarrow> reply res \<times> hive_message option \<times> flights" where
  "conversation_query v to_value site h text opts f =
     query to_value site h text (opts\<lparr>query_request := in_conversation v (query_request opts)\<rparr>) f"

definition conversation_send_action ::
    "conversation \<Rightarrow> own \<Rightarrow> string \<Rightarrow> emit_host \<Rightarrow> string \<Rightarrow> action_options \<Rightarrow> flights
       \<Rightarrow> unit res \<times> published option \<times> flights list" where
  "conversation_send_action v me fresh h text opts f =
     send_action me fresh h text (opts\<lparr>act_request := in_conversation v (act_request opts)\<rparr>) f"

definition conversation_send_code ::
    "conversation \<Rightarrow> own \<Rightarrow> string \<Rightarrow> emit_host \<Rightarrow> string \<Rightarrow> code_options \<Rightarrow> flights
       \<Rightarrow> unit res \<times> published option \<times> flights list" where
  "conversation_send_code v me fresh h text opts f =
     send_code me fresh h text (opts\<lparr>code_request := in_conversation v (code_request opts)\<rparr>) f"

section \<open>What holds of it\<close>

text \<open>An HTTPS base address there always is, so HTTPS is usable whatever the settings say of it.\<close>

lemma https_always_usable: "usable lib i Https"
  by (simp add: usable_def endpoint_for_def)

lemma chosen_protocol:
  "default_runtime_protocol lib i
     = Inr (if supports_protocol i Wss \<and> endpoint_for lib i Wss \<noteq> None then Wss else Https)"
  by (simp add: default_runtime_protocol_def DEFAULT_PROTOCOL_PREFERENCE_def https_always_usable)
    (simp add: usable_def)

text \<open>
  A client that is not told its protocol is always made, whatever the identity: over WSS when the settings
  enable it and there is an endpoint for it, and over HTTPS to the base address otherwise, also where the
  settings enable MQTT alone. Its identity is the one it was made for, and it remembers no conversation.
\<close>

theorem auto_is_wss_or_https:
  "\<exists>c. client_auto lib fs i = Inr c \<and> ct_identity c = i \<and> store (ct_conversations c) = []
     \<and> ct_transport c =
         (if supports_protocol i Wss \<and> endpoint_for lib i Wss \<noteq> None
          then Over_Wss (wss_new (channel_identity_of i) None fs)
          else Over_Http (http_new (channel_identity_of i) (base_url lib i) None fs))"
  by (simp add: client_auto_def chosen_protocol with_protocol_def for_protocol_def no_conversations_def)

lemma probe_leaves_nothing: "\<forall>p. \<not> unlink_fails h p \<Longrightarrow> snd (writable_dir h links dir fs) = fs"
  by (simp add: writable_dir_def Let_def)

lemma state_dir_with [simp]: "state_dir (with_state_dir d r) = d" "state_dir (with_control f r) = state_dir r"
  by (cases r; simp)+

text \<open>
  The key of a client read from a file is kept in the folder of that file when it can be written and is not
  the default one; any other client keeps it where the store does by default.
\<close>

lemma key_beside_file:
  assumes "client_from_file lib parser h fo fs p = Inr c"
  shows "state_dir (ct_transport c) =
    (case fo_parent fo p of
       None \<Rightarrow> None
     | Some d \<Rightarrow>
         if (case fo_default fo of None \<Rightarrow> False | Some e \<Rightarrow> same_dir (canonicalize h) d e)
            \<or> \<not> fst (writable_dir h (fo_links fo) d fs)
         then None else Some d)"
proof -
  obtain i c0 where i: "client_auto lib fs i = Inr c0" and c: "c = keeping_key_beside h fo fs p c0"
    using assms by (auto simp: client_from_file_def res_bind_def split: sum.splits)
  have none: "state_dir (ct_transport c0) = None"
    using i by (auto simp: client_auto_def chosen_protocol with_protocol_def for_protocol_def wss_new_def http_new_def
        split: if_splits)
  show ?thesis
    by (auto simp: c keeping_key_beside_def runtime_use_identity_file_def none use_identity_file_def
        identity_key_folder_def Let_def split: option.splits)
qed

text \<open>Nothing is asked of a hub that could not be connected to.\<close>

lemma unconnected_asks_nothing:
  "client_connect connected c = (Inl e, c') \<Longrightarrow> once_connected connected question c = ((Inl e, []), c')"
  by (simp add: once_connected_def)

lemma list_fallbacks_patient:
  "fst (client_list_fallbacks connected over left net d c) \<noteq> Inl (Timeout m)"
  by (simp add: client_list_fallbacks_def Let_def split: prod.split sum.split thalovant_error.split)

end
