(* ===== verification/Spec2Isabelle.thy ===== *)
theory Spec2Isabelle
  imports Errors Wire Canonical_Json Frame_Link Noise Noise_Handshake Noise_Adopt Session_Run Session_Handlers Wss_Safety Http_Safety Mqtt_Safety Home Redact
    Streams Hive Client_Context Protocols Identity Languages Intent_Safety Rich Skill_Cache Control_Bridges
    Home_Requests Origin Runtime_Safety Client_Start
begin

text \<open>
  A verification of the ThaloVant Rust SDK: the client library by which a device or a program keeps an
  encrypted link to a hub and asks it things. The files are under \<open>src/src/\<close>.

  The parts and how they meet. \<open>noise.rs\<close> makes an encrypted session out of a handshake and cuts
  messages into frames. \<open>noise_store.rs\<close> keeps what a handshake depends on across runs: this client's
  key, the pinned keys of hubs and derived pre-shared keys. \<open>transport.rs\<close> drives both: a channel
  negotiates with a hub, pins its key, then carries \<open>HiveMessage\<close>s (\<open>wire.rs\<close>, \<open>events.rs\<close>) over one of
  three transports, and a connection control keeps what the link said about the credentials.
  \<open>session.rs\<close> holds one client for many callers and supervises its link. \<open>events.rs\<close> and
  \<open>refusal.rs\<close> say which event answers which ask. \<open>errors.rs\<close> is how all of it fails.

  How the code is translated. A Rust \<open>Result\<close> is a value of the sum type and \<open>Inl\<close> its error, an
  \<open>Option\<close> an option, a struct a record, an enum a datatype, a \<open>str\<close> the list of its UTF-8 bytes, a byte
  an \<open>8 word\<close>, a \<open>Duration\<close> its nanoseconds with the saturation and the panics of its operations written
  out. A method that takes \<open>&mut self\<close> returns the state it leaves. What a lock guards is one state,
  and what runs while it is held is one step; a task that gives a lock up half way is several steps,
  and the theorems hold for every order of them. A future that its caller may drop while it waits has a step
  for every such point (\<open>establish_dropped\<close> for the connect of a session, \<open>cleanup_worker\<close> for the end of a link,
  \<open>Not_Written\<close> and an unfinished write for a reply);
  what the rest of the program does during a long wait is a list of operations
  that runs meanwhile (\<open>m_meanwhile\<close> for a publish) or further steps.

  The theories, by what they model.

  The shared ground.
  \<^item> \<open>Prelude\<close>: results, strings, JSON values, ordered maps and durations. \<open>Words\<close>, \<open>Text_Fields\<close>: white
    space, trimming, numbers and words in texts. \<open>Sample_Libs\<close>: parameters for the witnesses.
  \<^item> \<open>Errors\<close> (\<open>errors.rs\<close>): the error type, and the finer kinds that ride in a message.

  The link and its transports.
  \<^item> \<open>Wire\<close> (\<open>wire.rs\<close> and the message types of \<open>events.rs\<close>): the bit stream of a binary frame; its
    reader is shown to read a list of bits, and a frame to decode to what was encoded.
  \<^item> \<open>Canonical_Json\<close>, \<open>Noise\<close>, \<open>Noise_Handshake\<close> (\<open>noise.rs\<close>): negotiation and prologue, chunking and
    reassembly, the handshake. \<open>Frame_Link\<close> is the interface between messages and frames; the session and
    then the channel are interpreted as providers of it.
  \<^item> \<open>State_Files\<close>, \<open>Noise_Store\<close>, \<open>Noise_Trust\<close>, \<open>Noise_Adopt\<close> (\<open>noise_store.rs\<close>): a file system with
    faults, the store on it, trust on first use over any interleaving (the interface \<open>First_Use\<close>), the
    copy of an older folder and the cache of derived keys.
  \<^item> \<open>Channel\<close>, \<open>Channel_Safety\<close>, \<open>Channel_Run\<close>, \<open>Channel_Sample\<close> (\<open>transport.rs\<close>, \<open>NoiseChannel\<close>): one
    negotiation and the traffic under it, and what it guarantees whatever arrives.
  \<^item> \<open>Connection\<close>, \<open>Wss\<close>, \<open>Wss_Safety\<close>, \<open>Carrier\<close>, \<open>Http\<close>, \<open>Http_Safety\<close>, \<open>Mqtt\<close>, \<open>Mqtt_Safety\<close>
    (\<open>transport.rs\<close>): the verdicts a link leaves, the one \<open>XX\<close> attempt after a \<open>KK\<close> one, health, and the three
    transports, each as the steps of its life; the safety theories hold for every life. \<open>Runtime\<close>,
    \<open>Runtime_Safety\<close>: the three behind one face, how a link is given up and cleaned up after.

  A client at work.
  \<^item> \<open>Events\<close>, \<open>Refusal\<close> (\<open>events.rs\<close>, \<open>refusal.rs\<close>): contexts and replies, and which ask a refusal ends.
  \<^item> \<open>Ladder\<close>, \<open>Link\<close>, \<open>Hub_Session\<close>, \<open>Session_Invariant\<close>, \<open>Session_Run\<close>, \<open>Session_Handlers\<close>
    (\<open>session.rs\<close>): the retry ladder, the supervisor and its specification over the history of
    outcomes, the session, its invariant, its life, and the handlers and their tasks. \<open>Origin\<close>: the address of
    the local network that is tried first.
  \<^item> \<open>Conversations\<close>, \<open>Ask\<close>, \<open>Ask_Reply\<close>, \<open>Query\<close> (\<open>client.rs\<close>): the remembered conversations, asks and
    queries turn by turn under a clock, and what their replies are made of. \<open>Client_Context\<close>
    (\<open>context.rs\<close>, \<open>request_helpers.rs\<close>): the context of a request. \<open>Client_Start\<close>: how a client is made, which
    protocol it takes, and the calls that connect before they ask.
  \<^item> \<open>Streams\<close>, \<open>Hive\<close> (\<open>stream.rs\<close>, \<open>hive.rs\<close>): the receive loops; a stream is a filter of what arrives.
  \<^item> \<open>Home\<close>, \<open>Home_Requests\<close>, \<open>Rich\<close> (\<open>home.rs\<close>, \<open>rich.rs\<close>): markup and plain speech, one answer in time and the
    handler that gives it, what is shown of a reply.
  \<^item> \<open>Languages\<close>, \<open>Intents\<close>, \<open>Intent_Queries\<close>, \<open>Intent_Inventory\<close>, \<open>Intent_Contents\<close>, \<open>Intent_Safety\<close>
    (\<open>language_matching.rs\<close>, \<open>intents.rs\<close>): the distance of languages, and how the inventory of a hub is asked for
    and put together; \<open>Intent_Safety\<close> proves what it holds and what it asked.
  \<^item> \<open>Speakable\<close>, \<open>Listing\<close>, \<open>Skill_Names\<close>, \<open>Skill_Cache\<close> (\<open>request_helpers.rs\<close>, \<open>listing.rs\<close>, \<open>hubs.rs\<close>,
    \<open>inventory.rs\<close>): what a sentence pattern is spoken as, which sentences are shown, how skills are named and
    ordered, and the inventory that is kept on disk.
  \<^item> \<open>Redact\<close>, \<open>Protocols\<close>, \<open>Identity\<close> (\<open>redact.rs\<close>, \<open>protocols.rs\<close>, \<open>identity.rs\<close>): what is hidden, where a hub
    is, who the client is.

  The control plane.
  \<^item> \<open>Control_Http\<close> (\<open>control.rs\<close>): where a request may go, what it carries, what an answer is turned into.
    What was sent and slept is the state, and the answers of the API may depend on all of it.
  \<^item> \<open>Native_Auth\<close> (\<open>native_auth.rs\<close>), \<open>Control_Login\<close>, \<open>Control_Login_Safety\<close>, \<open>Control_Tokens\<close>: the sign-ins, the
    device flow and its polling, revocation; the tokens kept are a function of the outcomes.
  \<^item> \<open>Control_Config\<close>: the merge of a configuration and its optimistic update, against a store that keeps its word.
  \<^item> \<open>Control_Clients\<close>, \<open>Control_Admission\<close>, \<open>Control_Calls\<close> (\<open>control.rs\<close>, \<open>control/hub_skills.rs\<close>): clients,
    operations and the waits for them, and every other call.
  \<^item> \<open>Json_Reading\<close>, \<open>Chat_Apps\<close>, \<open>Bridges\<close>, \<open>Control_Bridges\<close> (\<open>chat_apps.rs\<close>, \<open>control/bridges.rs\<close>): how
    structs are read and written, with the contract \<open>json_codec\<close> of what is read back, and the chat-app calls.

  Bounds and fuel. The loops of the source that need not end are \<open>partial_function (option)\<close>, and the theorems
  that they end give the number of requests or turns: \<open>browser_login_ends\<close>, \<open>admission_ends\<close>, the asks and home
  requests by their deadlines. A clock never runs backwards and a sleep takes at least its time (\<open>clock_ok\<close>); besides it
  only the browser sign-in assumes something, that its code was not granted with an interval of nought. A subscription
  holds 64 events (\<open>EVENT_BUFFER\<close>): what a reader that falls behind is told follows from
  when the events were published and read (\<open>receptions\<close>).
  Retries with a count in the source (three configuration attempts, two
  deletions) are recursion on that count. Loops over data are structural or have a measure.

  Parameters. Code that is not in the repository is an argument: the Noise cryptography (\<open>snow\<close>), hashes and
  key derivation, the JSON and YAML printers and parsers, zlib, the faults of the file system, sockets, the MQTT
  and HTTP clients, the URL parser and percent-encoding, the clock and randomness, the CLDR tables, the
  bundled listing rules and the engine of their regular expressions, Unicode's case and alphabet, and what a hub
  or the API answers. What is relied on of them is a named hypothesis of the
  theorem that needs it, with a witness at a concrete instance.

  Not modelled. The redacting \<open>Debug\<close> printers (what they hide is in \<open>Redact\<close>); the process that opens a
  browser; the locations of state folders taken from the environment; reading a struct from the
  array of its fields, which \<open>serde\<close> also accepts, of any struct but an operation (\<open>operation_of_value\<close>);
  \<open>lib.rs\<close> (re-exports) and
  \<open>tls.rs\<close> (one registration); the tests.
\<close>

end
